(* ===== verification/JsPrelude.thy ===== *)
theory JsPrelude
  imports Complex_Main "HOL-Library.List_Lexorder" "HOL-Library.Product_Lexorder"
begin

text \<open>
  The prelude of the development: JavaScript strings and the string methods the web
  front end uses. A JavaScript string is a sequence of UTF-16 code units, so the model
  of a string is the list of its code units, each an \<open>int\<close> between 0 and 65535;
  \<open>js ''abc''\<close> is the literal \<open>"abc"\<close>. The methods are the ones the sources call
  (\<open>trim\<close>, \<open>split\<close>, \<open>join\<close>, \<open>includes\<close>, \<open>startsWith\<close>, \<open>replaceAll\<close>,
  \<open>slice\<close>) and decimal digits; the order on strings is the lexicographic order on code
  units, which is what \<open>Array.prototype.sort\<close> without a comparator uses.
\<close>

named_theorems js_defs \<open>definitions of the string model\<close>
named_theorems js_eval \<open>facts that evaluate string methods on literals\<close>

type_synonym jsstr = "int list"

definition js :: "string \<Rightarrow> jsstr" where
  "js s = map of_char s"

lemma js_Nil [simp]: "js [] = []"
  by (simp add: js_def)

lemma js_append: "js (a @ b) = js a @ js b"
  by (simp add: js_def)

lemma inj_of_char_int: "inj (of_char :: char \<Rightarrow> int)"
  by (rule inj_of_char)

lemma js_inject [simp]: "js a = js b \<longleftrightarrow> a = b"
  using inj_of_char_int by (simp add: js_def inj_map_eq_map)

lemma js_eq_Nil [simp]: "js a = [] \<longleftrightarrow> a = []" "[] = js a \<longleftrightarrow> a = []"
  by (auto simp: js_def)

lemma length_js [simp]: "length (js a) = length a"
  by (simp add: js_def)

declare js_def [js_defs]

lemma js_Cons: "js (c # cs) = of_char c # js cs"
  by (simp add: js_def)

section \<open>Generic facts\<close>

lemma dropWhile_eq_self: "xs = [] \<or> \<not> P (hd xs) \<Longrightarrow> dropWhile P xs = xs"
  by (cases xs) auto

lemma dropWhile_hd: "dropWhile P xs \<noteq> [] \<Longrightarrow> \<not> P (hd (dropWhile P xs))"
  by (induction xs) auto

lemma dropWhile_last: "dropWhile P xs \<noteq> [] \<Longrightarrow> last (dropWhile P xs) = last xs"
  by (induction xs) auto

lemma dropWhile_all: "(\<forall>x \<in> set xs. P x) \<Longrightarrow> dropWhile P xs = []"
  by (induction xs) auto

lemma takeWhile_append_stop: "(\<forall>x \<in> set xs. P x) \<Longrightarrow> \<not> P y \<Longrightarrow> takeWhile P (xs @ y # ys) = xs"
  by (induction xs) auto

lemma map_option_the: "x \<noteq> None \<Longrightarrow> Some (the x) = x"
  by auto

section \<open>White space and \<open>trim\<close>\<close>

text \<open>
  \<open>String.prototype.trim\<close> strips white space and line terminators from both ends: the
  code units of ECMAScript's WhiteSpace and LineTerminator productions.
\<close>

definition js_ws :: "int \<Rightarrow> bool" where
  "js_ws c \<longleftrightarrow> (9 \<le> c \<and> c \<le> 13) \<or> c = 32 \<or> c = 160 \<or> c = 5760 \<or> (8192 \<le> c \<and> c \<le> 8202)
     \<or> c = 8232 \<or> c = 8233 \<or> c = 8239 \<or> c = 8287 \<or> c = 12288 \<or> c = 65279"

definition trimStart :: "jsstr \<Rightarrow> jsstr" where
  "trimStart s = dropWhile js_ws s"

definition trimEnd :: "jsstr \<Rightarrow> jsstr" where
  "trimEnd s = rev (dropWhile js_ws (rev s))"

definition trim :: "jsstr \<Rightarrow> jsstr" where
  "trim s = trimEnd (trimStart s)"

text \<open>A string with no white space at either end.\<close>

definition trimmed :: "jsstr \<Rightarrow> bool" where
  "trimmed s \<longleftrightarrow> s = [] \<or> (\<not> js_ws (hd s) \<and> \<not> js_ws (last s))"

lemma trim_trimmed: "trimmed s \<Longrightarrow> trim s = s"
  by (auto simp: trimmed_def trim_def trimStart_def trimEnd_def dropWhile_eq_self hd_rev)

lemma trimmed_trim [simp]: "trimmed (trim s)"
proof (cases "trim s = []")
  case False
  let ?t = "dropWhile js_ws s"
  let ?u = "dropWhile js_ws (rev ?t)"
  from False have u: "?u \<noteq> []" by (simp add: trim_def trimStart_def trimEnd_def)
  then have t: "?t \<noteq> []" by (metis dropWhile.simps(1) rev.simps(1))
  have "last ?u = last (rev ?t)" using u by (rule dropWhile_last)
  then have "hd (rev ?u) = hd ?t" using u t by (simp add: hd_rev last_rev)
  moreover have "\<not> js_ws (hd ?t)" using t by (rule dropWhile_hd)
  moreover have "\<not> js_ws (hd ?u)" using u by (rule dropWhile_hd)
  moreover have "last (rev ?u) = hd ?u" using u by (simp add: last_rev)
  ultimately show ?thesis
    by (simp add: trimmed_def trim_def trimStart_def trimEnd_def)
qed (simp add: trimmed_def)

lemma trim_idem [simp]: "trim (trim s) = trim s"
  by (simp add: trim_trimmed)

lemma trim_Nil [simp]: "trim [] = []"
  by (simp add: trim_def trimStart_def trimEnd_def)

lemma set_trim_subset: "set (trim s) \<subseteq> set s"
  by (auto simp: trim_def trimStart_def trimEnd_def dest!: set_dropWhileD)

lemma trim_no_ws: "(\<forall>c \<in> set s. \<not> js_ws c) \<Longrightarrow> trim s = s"
  by (rule trim_trimmed) (auto simp: trimmed_def)

lemma length_trim_le: "length (trim s) \<le> length s"
  by (simp add: trim_def trimStart_def trimEnd_def)
     (metis length_dropWhile_le length_rev order_trans)

section \<open>Prefixes, substrings, split and join\<close>

fun startsWith :: "'a list \<Rightarrow> 'a list \<Rightarrow> bool" where
  "startsWith s [] = True"
| "startsWith [] (p # ps) = False"
| "startsWith (c # cs) (p # ps) = (c = p \<and> startsWith cs ps)"

lemma startsWith_iff: "startsWith s p \<longleftrightarrow> (\<exists>r. s = p @ r)"
  by (induction s p rule: startsWith.induct) auto

lemma startsWith_append [simp]: "startsWith (p @ r) p"
  by (simp add: startsWith_iff)

definition endsWith :: "'a list \<Rightarrow> 'a list \<Rightarrow> bool" where
  "endsWith s p = startsWith (rev s) (rev p)"

fun str_includes :: "'a list \<Rightarrow> 'a list \<Rightarrow> bool" where
  "str_includes [] p = (p = [])"
| "str_includes (c # cs) p = (startsWith (c # cs) p \<or> str_includes cs p)"

lemma str_includes_iff: "str_includes s p \<longleftrightarrow> (\<exists>a b. s = a @ p @ b)"
proof (induction s)
  case Nil
  show ?case by auto
next
  case (Cons c cs)
  have "(\<exists>a b. c # cs = a @ p @ b) \<longleftrightarrow> (\<exists>b. c # cs = p @ b) \<or> (\<exists>a b. cs = a @ p @ b)"
    by (metis append_Cons append_Nil list.sel(3) neq_Nil_conv)
  with Cons.IH show ?case by (simp add: startsWith_iff)
qed

lemma str_includes_single: "str_includes s [c] \<longleftrightarrow> c \<in> set s"
  by (induction s) auto

text \<open>\<open>s.split(c)\<close> for a separator of one code unit; the empty string splits into one piece.\<close>

fun split_unit :: "'a \<Rightarrow> 'a list \<Rightarrow> 'a list list" where
  "split_unit d [] = [[]]"
| "split_unit d (c # cs) =
     (if c = d then [] # split_unit d cs
      else (case split_unit d cs of [] \<Rightarrow> [[c]] | w # ws \<Rightarrow> (c # w) # ws))"

fun join :: "'a list \<Rightarrow> 'a list list \<Rightarrow> 'a list" where
  "join sep [] = []"
| "join sep [w] = w"
| "join sep (w # v # ws) = w @ sep @ join sep (v # ws)"

lemma set_join: "c \<in> set (join sep ws) \<Longrightarrow> c \<in> set sep \<or> (\<exists>w \<in> set ws. c \<in> set w)"
  by (induction sep ws rule: join.induct) auto

lemma split_unit_nonempty [simp]: "split_unit d s \<noteq> []"
  by (induction s) (auto split: list.splits)

lemma split_unit_none: "d \<notin> set w \<Longrightarrow> split_unit d w = [w]"
  by (induction w) auto

lemma split_unit_append: "d \<notin> set w \<Longrightarrow> split_unit d (w @ d # s) = w # split_unit d s"
  by (induction w) auto

lemma split_unit_join:
  "ws \<noteq> [] \<Longrightarrow> (\<forall>w \<in> set ws. d \<notin> set w) \<Longrightarrow> split_unit d (join [d] ws) = ws"
  by (induction "[d]" ws rule: join.induct) (auto simp: split_unit_none split_unit_append)

lemma join_split_unit: "join [d] (split_unit d s) = s"
proof (induction s)
  case (Cons c cs)
  then show ?case
    by (cases "split_unit d cs" rule: list.exhaust)
       (auto split: list.splits, (metis append_Cons join.simps(2,3) neq_Nil_conv)+)
qed simp

lemma split_unit_no_sep: "w \<in> set (split_unit d s) \<Longrightarrow> d \<notin> set w"
proof (induction s arbitrary: w)
  case (Cons c cs)
  then show ?case by (auto split: if_splits list.splits)
qed simp

lemma set_split_unit_subset: "w \<in> set (split_unit d s) \<Longrightarrow> set w \<subseteq> set s"
proof (induction s arbitrary: w)
  case (Cons c cs)
  then show ?case by (fastforce split: if_splits list.splits)
qed simp

section \<open>Unique elements\<close>

text \<open>\<open>Array.from(new Set(xs))\<close>: each element at its first occurrence.\<close>

fun uniq :: "'a list \<Rightarrow> 'a list" where
  "uniq [] = []"
| "uniq (x # xs) = x # filter (\<lambda>y. y \<noteq> x) (uniq xs)"

lemma set_uniq [simp]: "set (uniq xs) = set xs"
  by (induction xs) auto

lemma distinct_uniq [simp]: "distinct (uniq xs)"
  by (induction xs) auto

lemma uniq_distinct: "distinct xs \<Longrightarrow> uniq xs = xs"
  by (induction xs) (auto simp: filter_id_conv)

lemma uniq_filter: "uniq (filter P xs) = filter P (uniq xs)"
  by (induction xs) (auto simp: filter_filter intro: filter_cong)

section \<open>Decimal digits\<close>

definition is_digit :: "int \<Rightarrow> bool" where
  "is_digit c \<longleftrightarrow> 48 \<le> c \<and> c \<le> 57"

text \<open>The value of a string of decimal digits, and the decimal string of a number.\<close>

definition digits_val :: "jsstr \<Rightarrow> int" where
  "digits_val s = foldl (\<lambda>a c. a * 10 + (c - 48)) 0 s"

function show_nat :: "int \<Rightarrow> jsstr" where
  "show_nat n = (if n < 10 then [48 + n] else show_nat (n div 10) @ [48 + n mod 10])"
  by pat_completeness auto
termination
  by (relation "measure nat") auto

declare show_nat.simps [simp del]

lemma digits_val_snoc [simp]: "digits_val (s @ [c]) = digits_val s * 10 + (c - 48)"
  by (simp add: digits_val_def)

lemma digits_val_Nil [simp]: "digits_val [] = 0"
  by (simp add: digits_val_def)

lemma show_nat_digits: "0 \<le> n \<Longrightarrow> c \<in> set (show_nat n) \<Longrightarrow> is_digit c"
proof (induction n rule: show_nat.induct)
  case (1 n)
  then show ?case
    by (cases "n < 10") (auto simp: show_nat.simps [of n] is_digit_def)
qed

lemma show_nat_nonempty [simp]: "show_nat n \<noteq> []"
  by (subst show_nat.simps) simp

lemma digits_val_show_nat [simp]: "0 \<le> n \<Longrightarrow> digits_val (show_nat n) = n"
proof (induction n rule: show_nat.induct)
  case (1 n)
  show ?case
  proof (cases "n < 10")
    case True
    then show ?thesis by (simp add: show_nat.simps [of n] digits_val_def)
  next
    case False
    with 1 show ?thesis by (simp add: show_nat.simps [of n])
  qed
qed

lemma show_nat_inj: "0 \<le> m \<Longrightarrow> 0 \<le> n \<Longrightarrow> show_nat m = show_nat n \<Longrightarrow> m = n"
  by (metis digits_val_show_nat)

lemma digits_val_nonneg: "(\<forall>c \<in> set s. is_digit c) \<Longrightarrow> 0 \<le> digits_val s"
  by (induction s rule: rev_induct) (auto simp: is_digit_def)

lemma is_digit_not_ws: "is_digit c \<Longrightarrow> \<not> js_ws c"
  by (auto simp: is_digit_def js_ws_def)

lemma trim_digits: "(\<forall>c \<in> set s. is_digit c) \<Longrightarrow> trim s = s"
  by (rule trim_no_ws) (auto dest: is_digit_not_ws)

end
