(* ===== verification/JsNumber.thy ===== *)
theory JsNumber
  imports JsPrelude
begin

text \<open>
  JavaScript numbers: IEEE 754 binary64 values. A finite value is an exact rational
  (\<open>Fin\<close>); negative zero, the infinities and \<open>NaN\<close> have constructors of their own.
  \<open>rnd\<close> rounds a rational to the nearest binary64 value, ties to even, with gradual
  underflow and overflow to infinity; the arithmetic operations compute exactly and round.
  The conversions follow ECMAScript: \<open>Number(s)\<close>, \<open>parseFloat\<close>, \<open>parseInt(s, 10)\<close>,
  \<open>String(n)\<close> (the shortest digits that round back), \<open>toFixed\<close>.
\<close>

section \<open>Powers of two and integer logarithms\<close>

definition pow2 :: "int \<Rightarrow> rat" where
  "pow2 e = (if 0 \<le> e then 2 ^ nat e else 1 / 2 ^ nat (- e))"

lemma pow2_pos [simp]: "0 < pow2 e"
  by (simp add: pow2_def)

lemma pow2_nonzero [simp]: "pow2 e \<noteq> 0"
  using pow2_pos [of e] by linarith

lemma pow2_powi: "pow2 e = 2 powi e"
  by (simp add: pow2_def power_int_def power_one_over inverse_eq_divide)

lemma pow2_add: "pow2 (a + b) = pow2 a * pow2 b"
  by (simp add: pow2_powi power_int_add)

lemma pow2_mono: "a \<le> b \<Longrightarrow> pow2 a \<le> pow2 b"
  by (simp add: pow2_powi power_int_increasing)

lemma pow2_strict_mono: "a < b \<Longrightarrow> pow2 a < pow2 b"
  by (simp add: pow2_powi power_int_strict_increasing)

lemma pow2_less_iff: "pow2 a < pow2 b \<longleftrightarrow> a < b"
  using pow2_mono [of b a] pow2_strict_mono [of a b] by linarith

lemma pow2_diff: "pow2 (a - b) = pow2 a / pow2 b"
  by (simp add: pow2_powi power_int_diff)

lemma pow2_nat: "0 \<le> e \<Longrightarrow> pow2 e = of_int (2 ^ nat e)"
  by (simp add: pow2_def)

function blen :: "int \<Rightarrow> int" where
  "blen n = (if n \<le> 0 then 0 else 1 + blen (n div 2))"
  by pat_completeness auto
termination
  by (relation "measure nat") auto

declare blen.simps [simp del]

lemma blen_nonneg: "0 \<le> blen n"
proof (induction n rule: blen.induct)
  case (1 n)
  then show ?case by (cases "n \<le> 0") (simp_all add: blen.simps [of n])
qed

lemma blen_bounds: "0 < n \<Longrightarrow> 2 ^ nat (blen n - 1) \<le> n \<and> n < 2 ^ nat (blen n)"
proof (induction n rule: blen.induct)
  case (1 n)
  show ?case
  proof (cases "n = 1")
    case True
    then show ?thesis by (simp add: blen.simps)
  next
    case False
    with 1 have "0 < n div 2" by simp
    with 1 have IH: "2 ^ nat (blen (n div 2) - 1) \<le> n div 2" "n div 2 < 2 ^ nat (blen (n div 2))"
      by auto
    have b: "blen n = 1 + blen (n div 2)" using 1 by (simp add: blen.simps [of n])
    have p: "0 < blen (n div 2)" using \<open>0 < n div 2\<close> blen_nonneg [of "n div 2 div 2"]
      by (simp add: blen.simps [of "n div 2"])
    have e1: "nat (blen n - 1) = Suc (nat (blen (n div 2) - 1))" using b p by simp
    have e2: "nat (blen n) = Suc (nat (blen (n div 2)))" using b p by (simp add: Suc_nat_eq_nat_zadd1)
    show ?thesis using IH unfolding e1 e2 power_Suc by linarith
  qed
qed

text \<open>The integer part of the binary logarithm of a positive rational.\<close>

definition ilog2 :: "rat \<Rightarrow> int" where
  "ilog2 a = (let (n, d) = quotient_of a; k = blen n - blen d
              in if pow2 k \<le> a then k else k - 1)"

lemma pow2_blen: "0 < n \<Longrightarrow> pow2 (blen n - 1) \<le> of_int n \<and> of_int n < pow2 (blen n)"
proof -
  assume n: "0 < n"
  then have b: "0 < blen n"
    using blen_nonneg [of "n div 2"] by (simp add: blen.simps [of n])
  from blen_bounds [OF n] have "of_int (2 ^ nat (blen n - 1)) \<le> (of_int n :: rat)"
    "(of_int n :: rat) < of_int (2 ^ nat (blen n))"
    by (simp_all only: of_int_le_iff of_int_less_iff)
  then show ?thesis using b by (simp add: pow2_nat)
qed

lemma ilog2_bounds:
  assumes "0 < a"
  shows "pow2 (ilog2 a) \<le> a" and "a < pow2 (ilog2 a + 1)"
proof -
  obtain n d where nd: "quotient_of a = (n, d)" by (cases "quotient_of a")
  then have a: "a = of_int n / of_int d" and d: "0 < d"
    by (auto dest: quotient_of_div quotient_of_denom_pos)
  with assms have n: "0 < n" by (simp add: zero_less_divide_iff)
  let ?k = "blen n - blen d"
  have "pow2 (blen n - 1) \<le> of_int n" "of_int n < pow2 (blen n)"
    "pow2 (blen d - 1) \<le> of_int d" "of_int d < pow2 (blen d)"
    using pow2_blen [OF n] pow2_blen [OF d] by auto
  then have "pow2 (blen n - 1) / pow2 (blen d) \<le> a" "a < pow2 (blen n) / pow2 (blen d - 1)"
    using d n unfolding a by (auto intro!: frac_le frac_less)
  then have lo: "pow2 (?k - 1) \<le> a" and hi: "a < pow2 (?k + 1)"
    by (simp_all add: pow2_diff [symmetric] algebra_simps)
  show "pow2 (ilog2 a) \<le> a" using lo by (simp add: ilog2_def nd Let_def)
  show "a < pow2 (ilog2 a + 1)" using hi by (auto simp: ilog2_def nd Let_def)
qed

lemma ilog2_unique:
  assumes "pow2 k \<le> a" and "a < pow2 (k + 1)"
  shows "ilog2 a = k"
proof -
  have "0 < a" using assms(1) pow2_pos [of k] by linarith
  from ilog2_bounds [OF this] assms have "pow2 (ilog2 a) < pow2 (k + 1)" "pow2 k < pow2 (ilog2 a + 1)"
    by linarith+
  then show ?thesis by (simp add: pow2_less_iff)
qed

lemma ilog2_mono: "0 < a \<Longrightarrow> a \<le> b \<Longrightarrow> ilog2 a \<le> ilog2 b"
proof -
  assume "0 < a" "a \<le> b"
  then have "pow2 (ilog2 a) < pow2 (ilog2 b + 1)"
    using ilog2_bounds [of a] ilog2_bounds [of b] by linarith
  then show ?thesis by (simp add: pow2_less_iff)
qed

section \<open>Rounding\<close>

text \<open>Round a non-negative rational to an integer, ties to even.\<close>

definition rne :: "rat \<Rightarrow> int" where
  "rne a = (let f = \<lfloor>a\<rfloor>; r = a - of_int f
            in if r < 1/2 then f else if 1/2 < r then f + 1 else if even f then f else f + 1)"

lemma rne_of_int [simp]: "rne (of_int n) = n"
  by (simp add: rne_def)

lemma rne_cases: "rne a = \<lfloor>a\<rfloor> \<or> rne a = \<lfloor>a\<rfloor> + 1"
  by (auto simp: rne_def Let_def)

lemma rne_near: "\<bar>of_int (rne a) - a\<bar> \<le> 1/2"
proof -
  have "of_int \<lfloor>a\<rfloor> \<le> a" "a < of_int \<lfloor>a\<rfloor> + 1" by linarith+
  then show ?thesis unfolding rne_def Let_def abs_if by (auto simp del: of_int_floor_le)
qed

lemma rne_ge_int: "of_int n \<le> a \<Longrightarrow> n \<le> rne a"
  using rne_cases [of a] le_floor_iff [of n a] by linarith

lemma rne_le_int: "a \<le> of_int n \<Longrightarrow> rne a \<le> n"
  using rne_near [of a] by (auto simp: rne_def Let_def) linarith+

text \<open>
  The exponent of the last place of a positive magnitude: 53 significant bits, and no
  place below \<open>2 ^ (-1074)\<close>.
\<close>

definition ulp_exp :: "rat \<Rightarrow> int" where
  "ulp_exp a = max (ilog2 a - 52) (-1074)"

definition rnd_mag :: "rat \<Rightarrow> rat" where
  "rnd_mag a = (let e = ulp_exp a in of_int (rne (a / pow2 e)) * pow2 e)"

datatype jsnum = NaN | Infty bool | NegZero | Fin rat

definition rnd :: "rat \<Rightarrow> jsnum" where
  "rnd x = (if x = 0 then Fin 0
     else let m = rnd_mag \<bar>x\<bar>
          in if pow2 1024 \<le> m then Infty (x < 0)
             else if m = 0 then (if x < 0 then NegZero else Fin 0)
             else Fin (if x < 0 then - m else m))"

text \<open>The magnitudes binary64 represents: 53 bits times a power of two.\<close>

definition dyadic53 :: "rat \<Rightarrow> bool" where
  "dyadic53 a \<longleftrightarrow> (\<exists>m k. a = of_int m * pow2 k \<and> 0 < m \<and> m < 2 ^ 53 \<and> -1074 \<le> k)"

lemma dyadic53_int: "0 < n \<Longrightarrow> n < 2 ^ 53 \<Longrightarrow> dyadic53 (of_int n)"
  unfolding dyadic53_def by (rule exI [of _ n], rule exI [of _ 0]) (simp add: pow2_def)

lemma dyadic53_multiple:
  assumes "dyadic53 a"
  obtains n where "a = of_int n * pow2 (ulp_exp a)"
proof -
  from assms obtain m k where a: "a = of_int m * pow2 k" and m: "0 < m" "m < 2 ^ 53" and k: "-1074 \<le> k"
    by (auto simp: dyadic53_def)
  have "of_int m < (2 ^ 53 :: rat)" using m(2) by (metis of_int_less_iff of_int_numeral of_int_power)
  then have "a < 2 ^ 53 * pow2 k" unfolding a by (rule mult_strict_right_mono) simp
  also have "\<dots> = pow2 (53 + k)" by (simp add: pow2_add) (simp add: pow2_def)
  finally have hi: "a < pow2 (53 + k)" .
  have "0 < a" using m(1) by (simp add: a)
  from ilog2_bounds(1) [OF this] hi have "pow2 (ilog2 a) < pow2 (53 + k)" by linarith
  then have e: "ulp_exp a \<le> k" using k by (simp add: pow2_less_iff ulp_exp_def)
  have "a = of_int (m * 2 ^ nat (k - ulp_exp a)) * pow2 (ulp_exp a)"
  proof -
    have "pow2 k = pow2 (k - ulp_exp a) * pow2 (ulp_exp a)" by (simp add: pow2_add [symmetric])
    then have "a = of_int m * (pow2 (k - ulp_exp a) * pow2 (ulp_exp a))" using a by simp
    with e show ?thesis by (simp add: pow2_nat)
  qed
  then show ?thesis by (rule that)
qed

lemma rnd_mag_exact: "dyadic53 a \<Longrightarrow> rnd_mag a = a"
proof -
  assume "dyadic53 a"
  then obtain n where "a = of_int n * pow2 (ulp_exp a)" by (rule dyadic53_multiple)
  then have "a / pow2 (ulp_exp a) = of_int n" by (simp add: field_simps)
  with \<open>a = _\<close> show ?thesis by (simp add: rnd_mag_def)
qed

lemma rnd_mag_ge:
  assumes r: "dyadic53 r" and ra: "r \<le> a"
  shows "r \<le> rnd_mag a"
proof -
  let ?e = "ulp_exp a"
  have r0: "0 < r" using r by (auto simp: dyadic53_def)
  obtain n where n: "r = of_int n * pow2 (ulp_exp r)" using r by (rule dyadic53_multiple)
  show ?thesis
  proof (cases "ulp_exp r = ?e")
    case True
    with n ra have "of_int n \<le> a / pow2 ?e" by (simp add: field_simps)
    then have "n \<le> rne (a / pow2 ?e)" by (rule rne_ge_int)
    then have "of_int n * pow2 ?e \<le> of_int (rne (a / pow2 ?e)) * pow2 ?e" by simp
    with n True show ?thesis by (simp add: rnd_mag_def Let_def)
  next
    case False
    have le: "ilog2 r \<le> ilog2 a" using r0 ra by (rule ilog2_mono)
    with False have lt: "ilog2 r < ilog2 a" and e: "?e = ilog2 a - 52"
      by (auto simp: ulp_exp_def)
    have "pow2 (ilog2 a) \<le> a" using r0 ra by (intro ilog2_bounds) simp
    then have "of_int (2 ^ 52) \<le> a / pow2 ?e"
      by (simp add: e field_simps pow2_diff) (simp add: pow2_def field_simps)
    then have "2 ^ 52 \<le> rne (a / pow2 ?e)" by (rule rne_ge_int)
    then have "of_int (2 ^ 52) * pow2 ?e \<le> of_int (rne (a / pow2 ?e)) * pow2 ?e"
      by (intro mult_right_mono) (simp_all only: of_int_le_iff less_imp_le pow2_pos)
    moreover have "of_int (2 ^ 52) * pow2 ?e = pow2 (ilog2 a)"
      by (simp add: e pow2_diff) (simp add: pow2_def)
    moreover have "r < pow2 (ilog2 r + 1)" using r0 by (rule ilog2_bounds)
    moreover have "pow2 (ilog2 r + 1) \<le> pow2 (ilog2 a)" using lt by (intro pow2_mono) simp
    ultimately show ?thesis unfolding rnd_mag_def Let_def by linarith
  qed
qed

lemma rnd_of_int:
  assumes "\<bar>n\<bar> < 2 ^ 53"
  shows "rnd (of_int n) = Fin (of_int n)"
proof (cases "n = 0")
  case True
  then show ?thesis by (simp add: rnd_def)
next
  case False
  then have d: "dyadic53 (of_int \<bar>n\<bar>)" using assms by (intro dyadic53_int) auto
  have "(of_int \<bar>n\<bar> :: rat) < of_int (2 ^ 53)" using assms by (simp only: of_int_less_iff)
  also have "\<dots> = pow2 53" by (simp add: pow2_def)
  also have "\<dots> < pow2 1024" by (simp add: pow2_less_iff)
  finally show ?thesis using False rnd_mag_exact [OF d] by (auto simp: rnd_def abs_if)
qed


lemma rnd_ge_int:
  assumes "0 < n" and "n < 2 ^ 53" and "of_int n \<le> x"
  shows "rnd x = Infty False \<or> (\<exists>q. rnd x = Fin q \<and> of_int n \<le> q)"
proof -
  have x: "0 < x" using assms by (metis of_int_0_less_iff order_less_le_trans)
  have "of_int n \<le> rnd_mag x" using assms by (intro rnd_mag_ge dyadic53_int)
  moreover have "(0::rat) < of_int n" using assms by simp
  ultimately show ?thesis using x by (simp add: rnd_def Let_def)
qed

section \<open>Arithmetic and comparison\<close>

fun num_val :: "jsnum \<Rightarrow> rat" where
  "num_val (Fin q) = q"
| "num_val _ = 0"

fun num_neg_sign :: "jsnum \<Rightarrow> bool" where
  "num_neg_sign NaN = False"
| "num_neg_sign (Infty b) = b"
| "num_neg_sign NegZero = True"
| "num_neg_sign (Fin q) = (q < 0)"

fun num_is_finite :: "jsnum \<Rightarrow> bool" where
  "num_is_finite (Fin _) = True"
| "num_is_finite NegZero = True"
| "num_is_finite _ = False"

definition num_is_zero :: "jsnum \<Rightarrow> bool" where
  "num_is_zero a \<longleftrightarrow> a = NegZero \<or> a = Fin 0"

definition signed_zero :: "bool \<Rightarrow> jsnum" where
  "signed_zero b = (if b then NegZero else Fin 0)"

fun num_neg :: "jsnum \<Rightarrow> jsnum" where
  "num_neg NaN = NaN"
| "num_neg (Infty b) = Infty (\<not> b)"
| "num_neg NegZero = Fin 0"
| "num_neg (Fin q) = (if q = 0 then NegZero else Fin (- q))"

definition num_mul :: "jsnum \<Rightarrow> jsnum \<Rightarrow> jsnum" where
  "num_mul a b =
     (if a = NaN \<or> b = NaN then NaN
      else let s = (num_neg_sign a \<noteq> num_neg_sign b)
           in if \<not> num_is_finite a \<or> \<not> num_is_finite b
              then (if num_is_zero a \<or> num_is_zero b then NaN else Infty s)
              else let p = num_val a * num_val b
                   in if p = 0 then signed_zero s else rnd p)"

definition num_div :: "jsnum \<Rightarrow> jsnum \<Rightarrow> jsnum" where
  "num_div a b =
     (if a = NaN \<or> b = NaN then NaN
      else let s = (num_neg_sign a \<noteq> num_neg_sign b)
           in if \<not> num_is_finite a then (if num_is_finite b then Infty s else NaN)
              else if \<not> num_is_finite b then signed_zero s
              else if num_is_zero b then (if num_is_zero a then NaN else Infty s)
              else if num_is_zero a then signed_zero s
              else rnd (num_val a / num_val b))"

definition num_add :: "jsnum \<Rightarrow> jsnum \<Rightarrow> jsnum" where
  "num_add a b =
     (if a = NaN \<or> b = NaN then NaN
      else if \<not> num_is_finite a
      then (if \<not> num_is_finite b \<and> a \<noteq> b then NaN else a)
      else if \<not> num_is_finite b then b
      else if a = NegZero \<and> b = NegZero then NegZero
      else rnd (num_val a + num_val b))"

definition num_sub :: "jsnum \<Rightarrow> jsnum \<Rightarrow> jsnum" where
  "num_sub a b = num_add a (num_neg b)"

text \<open>\<open>a < b\<close> and \<open>a === b\<close> on numbers: \<open>NaN\<close> compares false, the zeros are equal.\<close>

fun num_lt :: "jsnum \<Rightarrow> jsnum \<Rightarrow> bool" where
  "num_lt NaN b = False"
| "num_lt a NaN = False"
| "num_lt (Infty True) b = (b \<noteq> Infty True)"
| "num_lt (Infty False) b = False"
| "num_lt a (Infty n) = (\<not> n)"
| "num_lt a b = (num_val a < num_val b)"

definition num_eq :: "jsnum \<Rightarrow> jsnum \<Rightarrow> bool" where
  "num_eq a b \<longleftrightarrow> a \<noteq> NaN \<and> b \<noteq> NaN \<and> (a = b \<or> (num_is_zero a \<and> num_is_zero b))"

definition num_le :: "jsnum \<Rightarrow> jsnum \<Rightarrow> bool" where
  "num_le a b \<longleftrightarrow> num_lt a b \<or> num_eq a b"

section \<open>From strings to numbers\<close>

definition pow10 :: "int \<Rightarrow> rat" where
  "pow10 e = (if 0 \<le> e then 10 ^ nat e else 1 / 10 ^ nat (- e))"

text \<open>A sign, and the rest of the string.\<close>

fun take_sign :: "jsstr \<Rightarrow> bool \<times> jsstr" where
  "take_sign [] = (False, [])"
| "take_sign (c # cs) = (if c = 43 then (False, cs) else if c = 45 then (True, cs) else (False, c # cs))"

text \<open>An exponent part \<open>e[+-]digits\<close>; without digits it is not part of the literal.\<close>

definition take_exponent :: "jsstr \<Rightarrow> int \<times> jsstr" where
  "take_exponent s =
     (case s of [] \<Rightarrow> (0, s)
      | c # cs \<Rightarrow>
         if c = 101 \<or> c = 69
         then let (n, r) = take_sign cs; ds = takeWhile is_digit r
              in if ds = [] then (0, s)
                 else ((if n then - digits_val ds else digits_val ds), dropWhile is_digit r)
         else (0, s))"

text \<open>
  The longest prefix that is an unsigned decimal literal \<open>d+\<close>, \<open>d+.d*\<close> or \<open>.d+\<close> with an
  optional exponent: its exact value and the rest of the string.
\<close>

definition take_decimal :: "jsstr \<Rightarrow> (rat \<times> jsstr) option" where
  "take_decimal s =
     (let ip = takeWhile is_digit s; r = dropWhile is_digit s;
          (fp, r2) = (case r of [] \<Rightarrow> ([], r)
                      | c # cs \<Rightarrow> if c = 46 then (takeWhile is_digit cs, dropWhile is_digit cs) else ([], r))
      in if ip = [] \<and> fp = [] then None
         else let (e, r3) = take_exponent r2
              in Some (of_int (digits_val (ip @ fp)) * pow10 (e - int (length fp)), r3))"

text \<open>Digits of a hexadecimal, octal or binary literal.\<close>

definition digit_value :: "int \<Rightarrow> int option" where
  "digit_value c = (if is_digit c then Some (c - 48)
     else if 97 \<le> c \<and> c \<le> 102 then Some (c - 87)
     else if 65 \<le> c \<and> c \<le> 70 then Some (c - 55) else None)"

fun radix_val :: "int \<Rightarrow> int \<Rightarrow> jsstr \<Rightarrow> int option" where
  "radix_val b a [] = Some a"
| "radix_val b a (c # cs) =
     (case digit_value c of None \<Rightarrow> None
      | Some d \<Rightarrow> if d < b then radix_val b (a * b + d) cs else None)"

definition radix_literal :: "int \<Rightarrow> jsstr \<Rightarrow> jsnum" where
  "radix_literal b s = (if s = [] then NaN
     else case radix_val b 0 s of None \<Rightarrow> NaN | Some n \<Rightarrow> rnd (of_int n))"

text \<open>\<open>Number(s)\<close> for a string.\<close>

definition string_to_number :: "jsstr \<Rightarrow> jsnum" where
  "string_to_number s =
     (let t = trim s in
      if t = [] then Fin 0
      else if startsWith t (js ''0x'') \<or> startsWith t (js ''0X'') then radix_literal 16 (drop 2 t)
      else if startsWith t (js ''0o'') \<or> startsWith t (js ''0O'') then radix_literal 8 (drop 2 t)
      else if startsWith t (js ''0b'') \<or> startsWith t (js ''0B'') then radix_literal 2 (drop 2 t)
      else let (n, r) = take_sign t
           in if r = js ''Infinity'' then Infty n
              else case take_decimal r of
                     Some (v, []) \<Rightarrow> (if n then num_neg (rnd v) else rnd v)
                   | _ \<Rightarrow> NaN)"

text \<open>\<open>parseFloat(s)\<close>: the longest numeric prefix after leading white space.\<close>

definition parseFloat :: "jsstr \<Rightarrow> jsnum" where
  "parseFloat s =
     (let (n, r) = take_sign (trimStart s)
      in if startsWith r (js ''Infinity'') then Infty n
         else case take_decimal r of
                Some (v, _) \<Rightarrow> (if n then num_neg (rnd v) else rnd v)
              | None \<Rightarrow> NaN)"

text \<open>\<open>Number.parseInt(s, 10)\<close>.\<close>

definition parseInt10 :: "jsstr \<Rightarrow> jsnum" where
  "parseInt10 s =
     (let (n, r) = take_sign (trimStart s); ds = takeWhile is_digit r
      in if ds = [] then NaN
         else let v = rnd (of_int (digits_val ds)) in if n then num_neg v else v)"

section \<open>From numbers to strings\<close>

function dlen :: "int \<Rightarrow> int" where
  "dlen n = (if n \<le> 0 then 0 else 1 + dlen (n div 10))"
  by pat_completeness auto
termination
  by (relation "measure nat") auto

declare dlen.simps [simp del]

text \<open>The number \<open>n\<close> with \<open>10 ^ (n - 1) \<le> a < 10 ^ n\<close>.\<close>

definition dec_exp :: "rat \<Rightarrow> int" where
  "dec_exp a = (let (n, d) = quotient_of a; k = dlen n - dlen d
                in if pow10 k \<le> a then k + 1 else k)"

text \<open>
  The digits of \<open>k\<close> places nearest to \<open>a\<close> that round back to \<open>a\<close>, if there are any: the
  integer below or above the scaled value, the closer one, ties to even.
\<close>

definition digit_candidate :: "rat \<Rightarrow> int \<Rightarrow> int \<Rightarrow> int option" where
  "digit_candidate a n k =
     (let x = a * pow10 (k - n); lo = \<lfloor>x\<rfloor>; hi = \<lceil>x\<rceil>;
          ok = (\<lambda>c. rnd (of_int c * pow10 (n - k)) = Fin a)
      in if ok lo
         then (if ok hi \<and> (of_int hi - x < x - of_int lo \<or> (of_int hi - x = x - of_int lo \<and> odd lo))
               then Some hi else Some lo)
         else if ok hi then Some hi else None)"

text \<open>
  The shortest decimal of a positive number, as ECMAScript's \<open>Number::toString\<close> chooses
  it: the digits and the exponent of the decimal point. Seventeen places always identify
  a binary64 value, which is the last try.
\<close>

fun shortest_from :: "rat \<Rightarrow> int \<Rightarrow> int list \<Rightarrow> int \<times> int" where
  "shortest_from a n [] = (rne (a * pow10 (17 - n)), 17)"
| "shortest_from a n (k # ks) =
     (case digit_candidate a n k of Some s \<Rightarrow> (s, k) | None \<Rightarrow> shortest_from a n ks)"

definition shortest_digits :: "rat \<Rightarrow> jsstr \<times> int" where
  "shortest_digits a =
     (let n = dec_exp a; (s, k) = shortest_from a n [1..17]
      in if s = 10 ^ nat k then (show_nat (s div 10), n + 1) else (show_nat s, n))"

definition zeros :: "int \<Rightarrow> jsstr" where
  "zeros n = replicate (nat n) 48"

definition show_exponent :: "int \<Rightarrow> jsstr" where
  "show_exponent e = (if 0 \<le> e then js ''e+'' @ show_nat e else js ''e-'' @ show_nat (- e))"

definition show_pos :: "rat \<Rightarrow> jsstr" where
  "show_pos a =
     (let (ds, n) = shortest_digits a; k = int (length ds)
      in if k \<le> n \<and> n \<le> 21 then ds @ zeros (n - k)
         else if 0 < n \<and> n \<le> 21 then take (nat n) ds @ js ''.'' @ drop (nat n) ds
         else if -6 < n \<and> n \<le> 0 then js ''0.'' @ zeros (- n) @ ds
         else if k = 1 then ds @ show_exponent (n - 1)
         else take 1 ds @ js ''.'' @ drop 1 ds @ show_exponent (n - 1))"

text \<open>\<open>String(x)\<close> for a number.\<close>

fun number_to_string :: "jsnum \<Rightarrow> jsstr" where
  "number_to_string NaN = js ''NaN''"
| "number_to_string (Infty b) = (if b then js ''-Infinity'' else js ''Infinity'')"
| "number_to_string NegZero = js ''0''"
| "number_to_string (Fin q) =
     (if q = 0 then js ''0'' else if q < 0 then 45 # show_pos (- q) else show_pos q)"

text \<open>\<open>x.toFixed(f)\<close>: the nearest multiple of \<open>10 ^ (-f)\<close>, ties upwards. There is no point for \<open>f = 0\<close>.\<close>

definition fixed_pos :: "int \<Rightarrow> rat \<Rightarrow> jsstr" where
  "fixed_pos f a =
     (let m = \<lfloor>a * pow10 f + 1/2\<rfloor>; ds = show_nat m;
          z = zeros (f + 1 - int (length ds)) @ ds; k = length z - nat f
      in if f = 0 then ds else take k z @ js ''.'' @ drop k z)"

fun toFixed :: "int \<Rightarrow> jsnum \<Rightarrow> jsstr" where
  "toFixed f NaN = js ''NaN''"
| "toFixed f (Infty b) = number_to_string (Infty b)"
| "toFixed f NegZero = fixed_pos f 0"
| "toFixed f (Fin q) =
     (if pow10 21 \<le> \<bar>q\<bar> then number_to_string (Fin q)
      else if q < 0 then 45 # fixed_pos f (- q) else fixed_pos f q)"

end
