(* ===== verification/JsRegex.thy ===== *)
theory JsRegex
  imports JsPrelude
begin

text \<open>
  Regular expressions with the matching order of ECMAScript. A pattern is a value of
  \<open>regex\<close>; \<open>rx_match\<close> lists the ways it can match a prefix of the input in the order
  the backtracking matcher of the standard tries them, so the first element is the match
  the engine reports. Quantifiers are greedy, an iteration that consumes nothing is cut,
  and the captures of a quantified group are cleared at each iteration. The patterns of
  the sources are written with these constructors term by term.
\<close>

type_synonym ranges = "(int \<times> int) list"
type_synonym captures = "(nat \<times> jsstr) list"

definition in_ranges :: "ranges \<Rightarrow> int \<Rightarrow> bool" where
  "in_ranges rs c \<longleftrightarrow> list_ex (\<lambda>(a, b). a \<le> c \<and> c \<le> b) rs"

datatype regex =
    RLit jsstr                \<comment> \<open>a literal text\<close>
  | RSet bool ranges          \<comment> \<open>a class \<open>[...]\<close> (\<open>True\<close>) or \<open>[^...]\<close> (\<open>False\<close>)\<close>
  | RSeq regex regex
  | RAlt regex regex
  | ROpt regex                \<comment> \<open>\<open>(?:...)?\<close>\<close>
  | RStar regex               \<comment> \<open>\<open>(?:...)*\<close>\<close>
  | RGroup nat regex          \<comment> \<open>the capturing group with this number\<close>
  | RBack nat                 \<comment> \<open>a back reference\<close>
  | REnd                      \<comment> \<open>\<open>$\<close> without the multiline flag\<close>

abbreviation RPlus :: "regex \<Rightarrow> regex" where
  "RPlus r \<equiv> RSeq r (RStar r)"

fun rx_groups :: "regex \<Rightarrow> nat list" where
  "rx_groups (RSeq r t) = rx_groups r @ rx_groups t"
| "rx_groups (RAlt r t) = rx_groups r @ rx_groups t"
| "rx_groups (ROpt r) = rx_groups r"
| "rx_groups (RStar r) = rx_groups r"
| "rx_groups (RGroup i r) = i # rx_groups r"
| "rx_groups _ = []"

definition clear_groups :: "nat list \<Rightarrow> captures \<Rightarrow> captures" where
  "clear_groups gs cs = filter (\<lambda>(i, _). i \<notin> set gs) cs"

type_synonym rx_state = "jsstr \<times> captures"

fun star_match :: "(rx_state \<Rightarrow> rx_state list) \<Rightarrow> nat \<Rightarrow> rx_state \<Rightarrow> rx_state list" where
  "star_match f 0 st = [st]"
| "star_match f (Suc n) st =
     concat (map (\<lambda>st'. if length (fst st') < length (fst st) then star_match f n st' else []) (f st)) @ [st]"

primrec rx_match :: "regex \<Rightarrow> rx_state \<Rightarrow> rx_state list" where
  "rx_match (RLit p) st =
     (if startsWith (fst st) p then [(drop (length p) (fst st), snd st)] else [])"
| "rx_match (RSet pos rs) st =
     (case fst st of [] \<Rightarrow> [] | c # cs \<Rightarrow> if in_ranges rs c = pos then [(cs, snd st)] else [])"
| "rx_match (RSeq r t) st = concat (map (rx_match t) (rx_match r st))"
| "rx_match (RAlt r t) st = rx_match r st @ rx_match t st"
| "rx_match (ROpt r) st =
     filter (\<lambda>st'. length (fst st') < length (fst st))
       (rx_match r (fst st, clear_groups (rx_groups r) (snd st))) @ [st]"
| "rx_match (RStar r) st =
     star_match (\<lambda>(s, c). rx_match r (s, clear_groups (rx_groups r) c)) (length (fst st)) st"
| "rx_match (RGroup i r) st =
     map (\<lambda>(s', c'). (s', (i, take (length (fst st) - length s') (fst st)) # filter (\<lambda>(j, _). j \<noteq> i) c'))
       (rx_match r st)"
| "rx_match (RBack i) st =
     (case map_of (snd st) i of
        None \<Rightarrow> [st]
      | Some w \<Rightarrow> if startsWith (fst st) w then [(drop (length w) (fst st), snd st)] else [])"
| "rx_match REnd st = (if fst st = [] then [st] else [])"

text \<open>\<open>s.match(/^.../)\<close>: the first match at the start of the string, with its captures.\<close>

definition rx_at_start :: "regex \<Rightarrow> jsstr \<Rightarrow> rx_state option" where
  "rx_at_start r s = (case rx_match r (s, []) of [] \<Rightarrow> None | st # _ \<Rightarrow> Some st)"

text \<open>\<open>/^...$/.test(s)\<close>.\<close>

definition rx_test :: "regex \<Rightarrow> jsstr \<Rightarrow> bool" where
  "rx_test r s \<longleftrightarrow> rx_at_start (RSeq r REnd) s \<noteq> None"

definition rx_group :: "rx_state \<Rightarrow> nat \<Rightarrow> jsstr option" where
  "rx_group st i = map_of (snd st) i"

text \<open>Classes and pieces that many patterns share.\<close>

abbreviation rx_digit :: regex where  \<comment> \<open>\<open>\\d\<close>\<close>
  "rx_digit \<equiv> RSet True [(48, 57)]"

definition rx_space :: regex where  \<comment> \<open>\<open>\\s\<close>\<close>
  "rx_space = RSet True [(9, 13), (32, 32), (160, 160), (5760, 5760), (8192, 8202),
     (8232, 8233), (8239, 8239), (8287, 8287), (12288, 12288), (65279, 65279)]"

definition rx_not_quote :: regex where  \<comment> \<open>\<open>[^"]\<close>\<close>
  "rx_not_quote = RSet False [(34, 34)]"

definition rx_dot :: regex where  \<comment> \<open>\<open>.\<close> without the \<open>s\<close> flag\<close>
  "rx_dot = RSet False [(10, 10), (13, 13), (8232, 8233)]"

definition rx_any :: regex where  \<comment> \<open>\<open>.\<close> with the \<open>s\<close> flag\<close>
  "rx_any = RSet False []"

definition rx_numchar :: regex where  \<comment> \<open>\<open>[\\d.eE+-]\<close>\<close>
  "rx_numchar = RSet True [(48, 57), (46, 46), (101, 101), (69, 69), (43, 43), (45, 45)]"

section \<open>Facts about matching\<close>

text \<open>The units a class accepts, as a predicate.\<close>

definition rx_class :: "regex \<Rightarrow> int \<Rightarrow> bool" where
  "rx_class r c = (case r of RSet pos rs \<Rightarrow> in_ranges rs c = pos | _ \<Rightarrow> False)"

definition is_class :: "regex \<Rightarrow> bool" where
  "is_class r = (case r of RSet _ _ \<Rightarrow> True | _ \<Rightarrow> False)"

lemma is_class_simps [simp]:
  "is_class (RSet p rs)" "is_class rx_space" "is_class rx_not_quote" "is_class rx_dot"
  "is_class rx_any" "is_class rx_numchar"
  by (simp_all add: is_class_def rx_space_def rx_not_quote_def rx_dot_def rx_any_def rx_numchar_def)

lemma list_ex_simps_rx: "list_ex P [] = False" "list_ex P (x # xs) = (P x \<or> list_ex P xs)"
  by simp_all

lemma rx_class_digit [simp]: "rx_class rx_digit c \<longleftrightarrow> is_digit c"
  by (simp add: rx_class_def in_ranges_def is_digit_def)

lemma rx_class_not_quote [simp]: "rx_class rx_not_quote c \<longleftrightarrow> c \<noteq> 34"
  by (auto simp: rx_class_def rx_not_quote_def in_ranges_def)

lemma rx_class_any [simp]: "rx_class rx_any c"
  by (simp add: rx_class_def rx_any_def in_ranges_def)

lemma between_same: "a \<le> c \<and> c \<le> a \<longleftrightarrow> c = (a :: int)"
  by auto

lemma between_succ: "8232 \<le> c \<and> c \<le> 8233 \<longleftrightarrow> c = 8232 \<or> c = (8233 :: int)"
  by auto

lemmas rx_class_unfold = rx_class_def in_ranges_def regex.case list_ex_simps_rx prod.case
  between_same between_succ

lemma rx_class_numchar [simp]:
  "rx_class rx_numchar c \<longleftrightarrow> is_digit c \<or> c = 46 \<or> c = 101 \<or> c = 69 \<or> c = 43 \<or> c = 45"
  unfolding rx_numchar_def is_digit_def rx_class_unfold by simp

lemma rx_class_dot [simp]:
  "rx_class rx_dot c \<longleftrightarrow> c \<noteq> 10 \<and> c \<noteq> 13 \<and> c \<noteq> 8232 \<and> c \<noteq> 8233"
  unfolding rx_dot_def rx_class_unfold by simp

lemma rx_class_space [simp]: "rx_class rx_space c \<longleftrightarrow> js_ws c"
  unfolding rx_space_def js_ws_def rx_class_unfold by simp

lemma class_match:
  assumes "is_class r"
  shows "rx_match r (s, c) = (case s of [] \<Rightarrow> [] | x # xs \<Rightarrow> if rx_class r x then [(xs, c)] else [])"
  using assms by (cases r) (auto simp: is_class_def rx_class_def split: list.splits)

lemma class_groups: "is_class r \<Longrightarrow> rx_groups r = []"
  by (cases r) (auto simp: is_class_def)

lemma clear_groups_Nil [simp]: "clear_groups [] c = c"
  by (simp add: clear_groups_def)

lemma rev_upt_Suc_map: "map f (rev [0..<Suc n]) = f n # map f (rev [0..<n])"
  by simp

text \<open>A starred class matches every prefix of its longest run, longest first.\<close>

lemma star_class_aux:
  assumes "is_class r" and "length s \<le> n"
  shows "star_match (\<lambda>(s, c). rx_match r (s, clear_groups (rx_groups r) c)) n (s, c) =
         map (\<lambda>k. (drop k s, c)) (rev [0..<Suc (length (takeWhile (rx_class r) s))])"
  using assms(2)
proof (induction n arbitrary: s)
  case 0
  then show ?case by simp
next
  case (Suc n)
  show ?case
  proof (cases "\<exists>x xs. s = x # xs \<and> rx_class r x")
    case True
    then obtain x xs where s: "s = x # xs" "rx_class r x" by blast
    have "map (\<lambda>k. (drop k s, c)) (rev [0..<Suc (Suc (length (takeWhile (rx_class r) xs)))]) =
        map (\<lambda>k. (drop k xs, c)) (rev [0..<Suc (length (takeWhile (rx_class r) xs))]) @ [(s, c)]"
      by (simp only: upt_conv_Cons zero_less_Suc map_Suc_upt [symmetric] rev.simps map_append rev_map)
         (simp add: s(1))
    with s Suc show ?thesis
      by (simp add: class_match [OF assms(1)] class_groups [OF assms(1)])
  next
    case False
    then have "takeWhile (rx_class r) s = []" by (cases s) auto
    with False show ?thesis
      by (auto simp: class_match [OF assms(1)] class_groups [OF assms(1)] split: list.splits)
  qed
qed

lemma star_class:
  "is_class r \<Longrightarrow> rx_match (RStar r) (s, c) =
     map (\<lambda>k. (drop k s, c)) (rev [0..<Suc (length (takeWhile (rx_class r) s))])"
  by (simp add: star_class_aux)

lemma plus_class:
  assumes "is_class r"
  shows "rx_match (RPlus r) (s, c) =
     map (\<lambda>k. (drop k s, c)) (rev [1..<Suc (length (takeWhile (rx_class r) s))])"
proof (cases "\<exists>x xs. s = x # xs \<and> rx_class r x")
  case True
  then obtain x xs where s: "s = x # xs" "rx_class r x" by blast
  let ?n = "length (takeWhile (rx_class r) xs)"
  have "[1..<Suc (Suc ?n)] = map Suc [0..<Suc ?n]" by (simp add: map_Suc_upt)
  then have "map (\<lambda>k. (drop k s, c)) (rev [1..<Suc (Suc ?n)]) =
      map (\<lambda>k. (drop k xs, c)) (rev [0..<Suc ?n])"
    by (simp only: rev_map map_map) (simp add: s(1) comp_def)
  moreover have "rx_match (RPlus r) (s, c) = rx_match (RStar r) (xs, c)"
    unfolding rx_match.simps(3) class_match [OF assms] by (simp add: s)
  ultimately show ?thesis using s(2) by (simp only: star_class [OF assms]) (simp add: s(1))
next
  case False
  then have "takeWhile (rx_class r) s = []" by (cases s) auto
  with False show ?thesis
    by (auto simp: class_match [OF assms] split: list.splits)
qed

text \<open>\<open>/^[...]+$/.test(s)\<close>: a non-empty string of units of the class.\<close>

lemma plus_class_end:
  assumes "is_class r"
  shows "rx_match (RSeq (RPlus r) REnd) (s, c) =
     (if s \<noteq> [] \<and> (\<forall>x \<in> set s. rx_class r x) then [([], c)] else [])"
proof -
  let ?n = "length (takeWhile (rx_class r) s)"
  have le: "?n \<le> length s" by (rule length_takeWhile_le)
  have "rx_match (RSeq (RPlus r) REnd) (s, c) =
      concat (map (\<lambda>k. if length s \<le> k then [([], c)] else []) (rev [1..<Suc ?n]))"
    unfolding rx_match.simps(3) [of "RPlus r"] plus_class [OF assms] map_map
    by (rule arg_cong [where f = concat], rule map_cong) auto
  also have "\<dots> = (if s \<noteq> [] \<and> ?n = length s then [([], c)] else [])"
  proof (cases "s \<noteq> [] \<and> ?n = length s")
    case True
    then have "[1..<Suc ?n] = [1..<length s] @ [length s]" by (cases "length s") auto
    then show ?thesis using True by (simp add: concat_eq_Nil_conv)
  next
    case False
    then have "s = [] \<or> ?n < length s" using le by auto
    then show ?thesis by (auto simp: concat_eq_Nil_conv)
  qed
  also have "?n = length s \<longleftrightarrow> (\<forall>x \<in> set s. rx_class r x)"
    by (metis length_takeWhile_le nat_less_le takeWhile_eq_all_conv takeWhile_eq_take take_all_iff)
  finally show ?thesis .
qed

lemma rx_test_plus_class:
  "is_class r \<Longrightarrow> rx_test (RPlus r) s \<longleftrightarrow> s \<noteq> [] \<and> (\<forall>x \<in> set s. rx_class r x)"
  by (simp add: rx_test_def rx_at_start_def plus_class_end del: rx_match.simps)

section \<open>Sequences anchored at both ends\<close>

fun rx_seq :: "regex list \<Rightarrow> regex" where
  "rx_seq [] = RLit []"
| "rx_seq [r] = r"
| "rx_seq (r # t # rs) = RSeq r (rx_seq (t # rs))"

text \<open>\<open>s.match(/^r$/)\<close>: the captures, when the whole text matches; \<open>m[i]\<close> is \<open>cap m i\<close>.\<close>

definition rx_exec :: "regex list \<Rightarrow> jsstr \<Rightarrow> captures option" where
  "rx_exec rs s = map_option snd (rx_at_start (rx_seq (rs @ [REnd])) s)"

definition cap :: "captures \<Rightarrow> nat \<Rightarrow> jsstr" where
  "cap m i = (case map_of m i of None \<Rightarrow> [] | Some w \<Rightarrow> w)"

text \<open>Results of a group and of a repetition, when what follows cannot start inside the repetition.\<close>

definition put_cap :: "nat \<Rightarrow> jsstr \<Rightarrow> captures \<Rightarrow> captures" where
  "put_cap i w c = (i, w) # filter (\<lambda>(j, _). j \<noteq> i) c"

lemma map_of_put_cap [simp]: "map_of (put_cap i w c) j = (if j = i then Some w else map_of c j)"
proof -
  have "map_of (filter (\<lambda>(j, _). j \<noteq> i) c) j = (if j = i then None else map_of c j)"
    by (induction c) auto
  then show ?thesis by (simp add: put_cap_def)
qed

lemma concat_map_rev_last:
  assumes "\<And>j. m \<le> j \<Longrightarrow> j < n \<Longrightarrow> f j = []" and "m \<le> n"
  shows "concat (map f (rev [m..<Suc n])) = f n"
proof -
  have "concat (map f (rev [m..<n])) = []" using assms(1) by auto
  then show ?thesis using assms(2) by simp
qed

lemma group_match: "rx_match (RSeq (RGroup i q) k) (s, c) =
  concat (map (\<lambda>(s', c'). rx_match k (s', put_cap i (take (length s - length s') s) c')) (rx_match q (s, c)))"
  by (simp add: put_cap_def comp_def case_prod_unfold)

lemma takeWhile_run:
  "(\<forall>x \<in> set w. P x) \<Longrightarrow> rest = [] \<or> \<not> P (hd rest) \<Longrightarrow> takeWhile P (w @ rest) = w"
  by (cases rest) (auto simp: takeWhile_append_stop)

lemma group_plus_det:
  assumes "is_class r" and "w \<noteq> []" and "\<forall>x \<in> set w. rx_class r x" and "rest = [] \<or> \<not> rx_class r (hd rest)"
    and "\<And>x t c. rx_class r x \<Longrightarrow> rx_match k (x # t, c) = []"
  shows "rx_match (RSeq (RGroup i (RPlus r)) k) (w @ rest, c) = rx_match k (rest, put_cap i w c)"
proof -
  let ?f = "\<lambda>j. rx_match k (drop j (w @ rest), put_cap i (take (length (w @ rest) - length (drop j (w @ rest))) (w @ rest)) c)"
  have "rx_match (RSeq (RGroup i (RPlus r)) k) (w @ rest, c) = concat (map ?f (rev [1..<Suc (length w)]))"
    unfolding group_match plus_class [OF assms(1)] takeWhile_run [OF assms(3,4)]
    by (simp only: map_map comp_def prod.case)
  also have "\<dots> = ?f (length w)"
  proof (rule concat_map_rev_last)
    fix j :: nat assume "1 \<le> j" "j < length w"
    then have "drop j (w @ rest) = w ! j # drop (Suc j) w @ rest"
      by (simp add: Cons_nth_drop_Suc)
    moreover have "rx_class r (w ! j)" using assms(3) \<open>j < length w\<close> by simp
    ultimately show "?f j = []" using assms(5) by simp
  qed (use assms(2) in \<open>cases w; simp\<close>)
  finally show ?thesis by simp
qed

lemma lit_match:
  "rx_match (RSeq (RLit p) k) (s, c) = (if startsWith s p then rx_match k (drop (length p) s, c) else [])"
  by simp

lemma end_match: "rx_match REnd (s, c) = (if s = [] then [([], c)] else [])"
  by simp

text \<open>What a pattern consumes, when all its characters satisfy a predicate.\<close>

primrec rx_within :: "(int \<Rightarrow> bool) \<Rightarrow> regex \<Rightarrow> bool" where
  "rx_within P (RLit p) = list_all P p"
| "rx_within P (RSet pos rs) = (\<forall>x. in_ranges rs x = pos \<longrightarrow> P x)"
| "rx_within P (RSeq r t) = (rx_within P r \<and> rx_within P t)"
| "rx_within P (RAlt r t) = (rx_within P r \<and> rx_within P t)"
| "rx_within P (ROpt r) = rx_within P r"
| "rx_within P (RStar r) = rx_within P r"
| "rx_within P (RGroup i r) = rx_within P r"
| "rx_within P (RBack i) = False"
| "rx_within P REnd = True"

lemma star_within:
  assumes "\<And>s c s' c'. (s', c') \<in> set (f (s, c)) \<Longrightarrow> \<exists>w. s = w @ s' \<and> list_all P w"
  shows "(s', c') \<in> set (star_match f n (s, c)) \<Longrightarrow> \<exists>w. s = w @ s' \<and> list_all P w"
proof (induction n arbitrary: s c)
  case (Suc n)
  then consider "s' = s" | t d where "(t, d) \<in> set (f (s, c))" "(s', c') \<in> set (star_match f n (t, d))"
    by (auto split: if_splits)
  then show ?case
  proof cases
    case 2
    with assms [OF 2(1)] Suc.IH [OF 2(2)] obtain w v where "s = w @ t" "t = v @ s'" "list_all P w" "list_all P v"
      by blast
    then show ?thesis by (intro exI [of _ "w @ v"]) simp
  qed simp
qed simp

lemma rx_consumes:
  "rx_within P r \<Longrightarrow> (s', c') \<in> set (rx_match r (s, c)) \<Longrightarrow> \<exists>w. s = w @ s' \<and> list_all P w"
proof (induction r arbitrary: s c s' c')
  case (RLit p)
  then show ?case by (auto simp: startsWith_iff split: if_splits)
next
  case (RSet pos rs)
  then show ?case by (auto split: list.splits if_splits intro: exI [of _ "[_]"])
next
  case (RSeq r t)
  then obtain s1 c1 where "(s1, c1) \<in> set (rx_match r (s, c))" "(s', c') \<in> set (rx_match t (s1, c1))" by auto
  with RSeq.IH RSeq.prems(1) obtain w v where "s = w @ s1" "s1 = v @ s'" "list_all P w" "list_all P v"
    by (meson rx_within.simps(3))
  then show ?case by (intro exI [of _ "w @ v"]) simp
next
  case (RAlt r t)
  then show ?case by auto
next
  case (ROpt r)
  then show ?case by auto
next
  case (RStar r)
  show ?case
    by (rule star_within [OF _ RStar.prems(2) [unfolded rx_match.simps fst_conv]])
       (use RStar in auto)
next
  case (RGroup i r)
  then show ?case by auto
qed (auto split: if_splits)

end
