(* ===== verification/StatusCodeRules.thy ===== *)
theory StatusCodeRules
  imports JsNumber JsRegex
begin

text \<open>
  The status code rules of the channel settings, \<open>src/web/src/helpers/statusCodeRules.js\<close>:
  a comma separated list of HTTP status codes and code ranges is parsed, validated, merged
  into disjoint ranges and printed in a normal form. A range is a record of its two ends;
  an array of ranges is a list, and a token that does not parse is \<open>None\<close>.
\<close>

record code_range =
  rstart :: int
  rend :: int

text \<open>A finite number that \<open>parseInt\<close> returned, as an integer; \<open>None\<close> when it is not finite.\<close>

fun num_int :: "jsnum \<Rightarrow> int option" where
  "num_int (Fin q) = Some \<lfloor>q\<rfloor>"
| "num_int NegZero = Some 0"
| "num_int _ = None"

definition isNumber :: "jsstr \<Rightarrow> bool" where
  "isNumber s = rx_test (RPlus rx_digit) s"

definition parseToken :: "jsstr \<Rightarrow> code_range option" where
  "parseToken token =
     (let cleaned = filter (\<lambda>c. c \<noteq> 32) (trim token) in
      if cleaned = [] then None
      else if str_includes cleaned (js ''-'') then
        (case split_unit 45 cleaned of
           [a, b] \<Rightarrow>
             if \<not> isNumber a \<or> \<not> isNumber b then None
             else (case (num_int (parseInt10 a), num_int (parseInt10 b)) of
                     (Some start, Some stop) \<Rightarrow>
                       if start > stop then None
                       else if start < 100 \<or> stop > 599 then None
                       else Some \<lparr>rstart = start, rend = stop\<rparr>
                   | _ \<Rightarrow> None)
         | _ \<Rightarrow> None)
      else if \<not> isNumber cleaned then None
      else (case num_int (parseInt10 cleaned) of
              None \<Rightarrow> None
            | Some code \<Rightarrow> if code < 100 \<or> code > 599 then None
                           else Some \<lparr>rstart = code, rend = code\<rparr>))"

text \<open>
  \<open>mergeRanges\<close>: sort by start, then end, and sweep; \<open>lst\<close> is the range that the loop
  still extends.
\<close>

fun mergeSweep :: "code_range \<Rightarrow> code_range list \<Rightarrow> code_range list" where
  "mergeSweep lst [] = [lst]"
| "mergeSweep lst (current # rest) =
     (if rstart current \<le> rend lst + 1
      then mergeSweep (lst\<lparr>rend := max (rend lst) (rend current)\<rparr>) rest
      else lst # mergeSweep current rest)"

definition mergeRanges :: "code_range list \<Rightarrow> code_range list" where
  "mergeRanges ranges =
     (case sort_key (\<lambda>r. (rstart r, rend r)) ranges of
        [] \<Rightarrow> []
      | r # rs \<Rightarrow> mergeSweep r rs)"

definition rangeToken :: "code_range \<Rightarrow> jsstr" where
  "rangeToken r = (if rstart r = rend r then show_nat (rstart r)
                   else show_nat (rstart r) @ js ''-'' @ show_nat (rend r))"

record status_rules =
  ok :: bool
  ranges :: "code_range list"
  tokens :: "jsstr list"
  normalized :: jsstr
  invalidTokens :: "jsstr list"

text \<open>The non-blank segments of the input, trimmed, in order (the body of the loop).\<close>

definition ruleSegments :: "jsstr \<Rightarrow> jsstr list" where
  "ruleSegments raw =
     filter (\<lambda>t. t \<noteq> []) (map trim (split_unit 44 (map (\<lambda>c. if c = 65292 then 44 else c) raw)))"

definition parseHttpStatusCodeRules :: "jsstr \<Rightarrow> status_rules" where
  "parseHttpStatusCodeRules input =
     (let raw = trim input in
      if raw = [] then \<lparr>ok = True, ranges = [], tokens = [], normalized = [], invalidTokens = []\<rparr>
      else let segs = ruleSegments raw;
               invalid = filter (\<lambda>t. parseToken t = None) segs;
               parsed = List.map_filter parseToken segs
           in if invalid \<noteq> []
              then \<lparr>ok = False, ranges = [], tokens = [], normalized = raw, invalidTokens = invalid\<rparr>
              else let merged = mergeRanges parsed; toks = map rangeToken merged
                   in \<lparr>ok = True, ranges = merged, tokens = toks, normalized = join [44] toks,
                       invalidTokens = []\<rparr>)"

section \<open>Sets of codes and the normal form\<close>

text \<open>The codes a list of ranges stands for: the abstract value of the component.\<close>

definition codes :: "code_range list \<Rightarrow> int set" where
  "codes rs = (\<Union>r \<in> set rs. {rstart r..rend r})"

definition valid_range :: "code_range \<Rightarrow> bool" where
  "valid_range r \<longleftrightarrow> 100 \<le> rstart r \<and> rstart r \<le> rend r \<and> rend r \<le> 599"

text \<open>Normal form: non-empty ranges, in order, with a gap between any two.\<close>

fun normal :: "code_range list \<Rightarrow> bool" where
  "normal [] = True"
| "normal [r] = (rstart r \<le> rend r)"
| "normal (r # s # rs) = (rstart r \<le> rend r \<and> rend r + 1 < rstart s \<and> normal (s # rs))"

lemma codes_Nil [simp]: "codes [] = {}"
  by (simp add: codes_def)

lemma codes_Cons [simp]: "codes (r # rs) = {rstart r..rend r} \<union> codes rs"
  by (simp add: codes_def)

lemma normal_Cons: "normal (r # rs) \<longleftrightarrow> rstart r \<le> rend r \<and> normal rs \<and> (rs = [] \<or> rend r + 1 < rstart (hd rs))"
  by (cases rs) auto

lemma normal_above: "normal (r # rs) \<Longrightarrow> c \<in> codes rs \<Longrightarrow> rend r + 1 < c"
proof (induction rs arbitrary: r)
  case (Cons s rs)
  then have "rend r + 1 < rstart s" "rstart s \<le> rend s" "normal (s # rs)" by (auto simp: normal_Cons)
  with Cons show ?case by fastforce
qed simp

lemma sort_ranges_sorted:
  "sorted (map rstart (sort_key (\<lambda>r. (rstart r, rend r)) rs))"
proof -
  have "sorted (map (\<lambda>r. (rstart r, rend r)) (sort_key (\<lambda>r. (rstart r, rend r)) rs))"
    by (rule sorted_sort_key)
  then show ?thesis by (auto simp: sorted_wrt_map less_eq_prod_def elim: sorted_wrt_mono_rel [rotated])
qed

lemma mergeSweep_hd: "hd (mergeSweep r rs) = r\<lparr>rend := rend (hd (mergeSweep r rs))\<rparr>"
  by (induction r rs rule: mergeSweep.induct) auto

lemma mergeSweep_nonempty [simp]: "mergeSweep r rs \<noteq> []"
  by (induction r rs rule: mergeSweep.induct) auto

lemma mergeSweep_rstart_hd: "rstart (hd (mergeSweep r rs)) = rstart r"
  by (induction r rs rule: mergeSweep.induct) auto

lemma mergeSweep_codes:
  assumes "sorted (map rstart (r # rs))" and "\<forall>x \<in> set (r # rs). rstart x \<le> rend x"
  shows "codes (mergeSweep r rs) = codes (r # rs)"
  using assms
proof (induction r rs rule: mergeSweep.induct)
  case (2 lst cur rest)
  show ?case
  proof (cases "rstart cur \<le> rend lst + 1")
    case True
    with 2 have "codes (mergeSweep lst (cur # rest)) = {rstart lst..max (rend lst) (rend cur)} \<union> codes rest"
      by auto
    also have "{rstart lst..max (rend lst) (rend cur)} = {rstart lst..rend lst} \<union> {rstart cur..rend cur}"
      using True 2(3,4) by (auto simp: max_def)
    finally show ?thesis by (simp add: Un_assoc)
  qed (use 2 in auto)
qed simp

lemma mergeSweep_normal:
  assumes "sorted (map rstart (r # rs))" and "\<forall>x \<in> set (r # rs). rstart x \<le> rend x"
  shows "normal (mergeSweep r rs)"
  using assms
proof (induction r rs rule: mergeSweep.induct)
  case (2 lst cur rest)
  show ?case
  proof (cases "rstart cur \<le> rend lst + 1")
    case False
    with 2 have "normal (mergeSweep cur rest)" by auto
    with False 2(4) show ?thesis by (simp add: normal_Cons mergeSweep_rstart_hd)
  qed (use 2 in \<open>auto simp: max_def\<close>)
qed simp

lemma mergeRanges_codes:
  assumes "\<forall>r \<in> set rs. rstart r \<le> rend r"
  shows "codes (mergeRanges rs) = codes rs"
proof -
  let ?s = "sort_key (\<lambda>r. (rstart r, rend r)) rs"
  have "codes ?s = codes rs" by (simp add: codes_def)
  moreover have "\<forall>r \<in> set ?s. rstart r \<le> rend r" using assms by simp
  ultimately show ?thesis
    using sort_ranges_sorted [of rs]
    by (cases ?s) (auto simp: mergeRanges_def mergeSweep_codes simp del: sorted_sort_key)
qed

lemma mergeRanges_normal:
  assumes "\<forall>r \<in> set rs. rstart r \<le> rend r"
  shows "normal (mergeRanges rs)"
proof -
  let ?s = "sort_key (\<lambda>r. (rstart r, rend r)) rs"
  have "\<forall>r \<in> set ?s. rstart r \<le> rend r" using assms by simp
  then show ?thesis
    using sort_ranges_sorted [of rs]
    by (cases ?s) (auto simp: mergeRanges_def mergeSweep_normal simp del: sorted_sort_key)
qed


text \<open>A normal form is determined by the codes it stands for.\<close>

lemma normal_min:
  assumes "normal (r # rs)" and "c \<in> codes (r # rs)"
  shows "rstart r \<le> c"
proof -
  have "rstart r \<le> rend r" using assms(1) by (simp add: normal_Cons)
  with assms show ?thesis using normal_above [OF assms(1), of c] by auto
qed

lemma normal_hd_le:
  assumes "normal (r # rs)" "normal (s # ss)" "codes (r # rs) = codes (s # ss)" "rstart r = rstart s"
  shows "rend r \<le> rend s"
proof (rule ccontr)
  assume "\<not> rend r \<le> rend s"
  moreover have "rstart s \<le> rend s" using assms(2) by (simp add: normal_Cons)
  ultimately have "rend s + 1 \<in> codes (r # rs)" using assms(4) by auto
  then have "rend s + 1 \<in> codes (s # ss)" using assms(3) by (simp only:)
  moreover have "rend s + 1 \<notin> codes ss" using normal_above [OF assms(2)] by blast
  ultimately show False by simp
qed

lemma normal_unique: "normal a \<Longrightarrow> normal b \<Longrightarrow> codes a = codes b \<Longrightarrow> a = b"
proof (induction a arbitrary: b)
  case Nil
  then show ?case by (cases b) (auto simp: normal_Cons)
next
  case (Cons r rs)
  then obtain s ss where b: "b = s # ss" by (cases b) (auto simp: normal_Cons)
  note n = Cons.prems(1) Cons.prems(2) [unfolded b] and eq = Cons.prems(3) [unfolded b]
  have "rstart r \<in> codes (r # rs)" "rstart s \<in> codes (s # ss)" using n by (auto simp: normal_Cons)
  then have st: "rstart r = rstart s"
    using normal_min [OF n(1), of "rstart s"] normal_min [OF n(2), of "rstart r"] eq
    by (metis order_antisym)
  have en: "rend r = rend s"
    using normal_hd_le [OF n(1,2) eq st] normal_hd_le [OF n(2,1) eq [symmetric] st [symmetric]] by simp
  have "codes rs = codes (r # rs) - {rstart r..rend r}" "codes ss = codes (s # ss) - {rstart s..rend s}"
    using normal_above [OF n(1)] normal_above [OF n(2)] by fastforce+
  then have "codes rs = codes ss" using eq st en by simp
  with Cons.IH [of ss] n have "rs = ss" by (simp add: normal_Cons)
  with st en b show ?case by simp
qed

lemma mergeRanges_normal_id: "normal rs \<Longrightarrow> mergeRanges rs = rs"
proof -
  assume n: "normal rs"
  then have v: "\<forall>r \<in> set rs. rstart r \<le> rend r"
    by (induction rs rule: normal.induct) auto
  show ?thesis
    using mergeRanges_normal [OF v] n mergeRanges_codes [OF v] by (rule normal_unique)
qed

section \<open>Tokens\<close>

lemma isNumber_iff: "isNumber s \<longleftrightarrow> s \<noteq> [] \<and> (\<forall>c \<in> set s. is_digit c)"
  by (simp add: isNumber_def rx_test_plus_class)

lemma take_sign_digits: "\<forall>c \<in> set s. is_digit c \<Longrightarrow> take_sign s = (False, s)"
  by (cases s) (auto simp: is_digit_def)

lemma parseInt10_digits:
  assumes "s \<noteq> []" and "\<forall>c \<in> set s. is_digit c"
  shows "parseInt10 s = rnd (of_int (digits_val s))"
proof -
  have "trimStart s = s" using assms
    by (cases s) (auto simp: trimStart_def dest: is_digit_not_ws)
  then show ?thesis
    using assms by (simp add: parseInt10_def take_sign_digits Let_def takeWhile_eq_all_conv [THEN iffD2])
qed

lemma num_int_parse_small:
  assumes "isNumber s" and "digits_val s < 2 ^ 53"
  shows "num_int (parseInt10 s) = Some (digits_val s)"
proof -
  have d: "s \<noteq> []" "\<forall>c \<in> set s. is_digit c" using assms(1) by (auto simp: isNumber_iff)
  have "\<bar>digits_val s\<bar> < 2 ^ 53" using digits_val_nonneg [OF d(2)] assms(2) by simp
  then show ?thesis by (simp only: parseInt10_digits [OF d] rnd_of_int) simp
qed

lemma num_int_parse_large:
  assumes "isNumber s" and "600 \<le> digits_val s" and "num_int (parseInt10 s) = Some n"
  shows "600 \<le> n"
proof -
  have d: "s \<noteq> []" "\<forall>c \<in> set s. is_digit c" using assms(1) by (auto simp: isNumber_iff)
  have "rnd (of_int (digits_val s)) = Infty False \<or>
      (\<exists>q. rnd (of_int (digits_val s)) = Fin q \<and> of_int 600 \<le> q)"
    using assms(2) by (intro rnd_ge_int) simp_all
  with assms(3) show ?thesis
    by (auto simp: parseInt10_digits [OF d] le_floor_iff)
qed

text \<open>Reading a number in the range of the status codes is exact.\<close>

lemma num_int_parse_iff:
  assumes "isNumber s" and "n \<le> 599"
  shows "num_int (parseInt10 s) = Some n \<longleftrightarrow> digits_val s = n"
proof (cases "digits_val s < 600")
  case True
  then show ?thesis using num_int_parse_small [OF assms(1)] by auto
next
  case False
  then show ?thesis using num_int_parse_large [OF assms(1)] assms(2) by force
qed

lemma parseToken_valid: "parseToken t = Some r \<Longrightarrow> valid_range r"
  by (auto simp: parseToken_def valid_range_def Let_def split: if_splits list.splits option.splits)

lemma rangeToken_chars: "valid_range r \<Longrightarrow> c \<in> set (rangeToken r) \<Longrightarrow> is_digit c \<or> c = 45"
  by (auto simp: rangeToken_def valid_range_def js_def split: if_splits dest: show_nat_digits [rotated])

lemma rangeToken_nonempty: "rangeToken r \<noteq> []"
  by (simp add: rangeToken_def)

lemma rangeToken_plain:
  assumes "valid_range r"
  shows "trim (rangeToken r) = rangeToken r" "filter (\<lambda>c. c \<noteq> 32) (rangeToken r) = rangeToken r"
    "44 \<notin> set (rangeToken r)" "65292 \<notin> set (rangeToken r)"
proof -
  have ws: "is_digit c \<or> c = 45 \<Longrightarrow> \<not> js_ws c" for c
    by (auto simp: js_ws_def is_digit_def)
  show "trim (rangeToken r) = rangeToken r"
    by (rule trim_no_ws) (use rangeToken_chars [OF assms] ws in blast)
  show "filter (\<lambda>c. c \<noteq> 32) (rangeToken r) = rangeToken r"
    by (rule filter_True) (use rangeToken_chars [OF assms] in \<open>force simp: is_digit_def\<close>)
  show "44 \<notin> set (rangeToken r)" "65292 \<notin> set (rangeToken r)"
    using rangeToken_chars [OF assms, of 44] rangeToken_chars [OF assms, of 65292]
    by (auto simp: is_digit_def)
qed

lemma isNumber_show_nat: "0 \<le> n \<Longrightarrow> isNumber (show_nat n)"
  by (auto simp: isNumber_iff dest: show_nat_digits)

lemma show_nat_no_dash: "0 \<le> n \<Longrightarrow> 45 \<notin> set (show_nat n)"
  by (auto dest: show_nat_digits simp: is_digit_def)

lemma parseToken_rangeToken:
  assumes v: "valid_range r"
  shows "parseToken (rangeToken r) = Some r"
proof -
  have b: "0 \<le> rstart r" "0 \<le> rend r" "rstart r \<le> 599" "rend r \<le> 599"
    using v by (auto simp: valid_range_def)
  have n: "num_int (parseInt10 (show_nat (rstart r))) = Some (rstart r)"
    "num_int (parseInt10 (show_nat (rend r))) = Some (rend r)"
    using b by (simp_all add: num_int_parse_iff isNumber_show_nat)
  have dash: "js ''-'' = [45]" by (simp add: js_def)
  show ?thesis
  proof (cases "rstart r = rend r")
    case True
    then have "rangeToken r = show_nat (rstart r)" by (simp add: rangeToken_def)
    then show ?thesis
      using True v n b rangeToken_plain [OF v]
      by (simp add: parseToken_def dash str_includes_single show_nat_no_dash isNumber_show_nat valid_range_def)
  next
    case False
    then have t: "rangeToken r = show_nat (rstart r) @ 45 # show_nat (rend r)"
      by (simp add: rangeToken_def dash)
    then have "split_unit 45 (rangeToken r) = [show_nat (rstart r), show_nat (rend r)]"
      using b by (simp add: split_unit_append split_unit_none show_nat_no_dash)
    then show ?thesis
      using v n b rangeToken_plain [OF v]
      by (simp add: parseToken_def dash str_includes_single t isNumber_show_nat valid_range_def)
  qed
qed

section \<open>The parser as a whole\<close>

lemma parsed_ranges_valid: "r \<in> set (List.map_filter parseToken ts) \<Longrightarrow> valid_range r"
  by (auto simp: List.map_filter_def dest: parseToken_valid)

lemma valid_range_le: "valid_range r \<Longrightarrow> rstart r \<le> rend r"
  by (simp add: valid_range_def)

lemma mergeSweep_valid:
  "valid_range r \<Longrightarrow> (\<forall>x \<in> set rs. valid_range x) \<Longrightarrow> x \<in> set (mergeSweep r rs) \<Longrightarrow> valid_range x"
proof (induction r rs rule: mergeSweep.induct)
  case (2 lst cur rest)
  have "valid_range (lst\<lparr>rend := max (rend lst) (rend cur)\<rparr>)" using 2(3,4)
    by (auto simp: valid_range_def)
  with 2 show ?case by (auto split: if_splits)
qed simp

lemma mergeRanges_valid:
  "\<forall>x \<in> set rs. valid_range x \<Longrightarrow> x \<in> set (mergeRanges rs) \<Longrightarrow> valid_range x"
proof -
  let ?s = "sort_key (\<lambda>r. (rstart r, rend r)) rs"
  assume a: "\<forall>x \<in> set rs. valid_range x" and x: "x \<in> set (mergeRanges rs)"
  then have v: "\<forall>x \<in> set ?s. valid_range x" by simp
  obtain r rs' where s: "?s = r # rs'" using x by (cases ?s) (simp_all add: mergeRanges_def)
  with x have "x \<in> set (mergeSweep r rs')" by (simp add: mergeRanges_def)
  moreover have "valid_range r" "\<forall>x \<in> set rs'. valid_range x" using v unfolding s by simp_all
  ultimately show ?thesis by (metis mergeSweep_valid)
qed

lemma ruleSegments_join:
  assumes "\<forall>t \<in> set ts. t \<noteq> [] \<and> trim t = t \<and> 44 \<notin> set t \<and> 65292 \<notin> set t" and "ts \<noteq> []"
  shows "ruleSegments (join [44] ts) = ts"
proof -
  have "65292 \<notin> set (join [44] ts)"
    using assms by (auto dest!: set_join)
  then have "map (\<lambda>c. if c = 65292 then 44 else c) (join [44] ts) = join [44] ts"
    by (intro map_idI) auto
  moreover have "split_unit 44 (join [44] ts) = ts" using assms by (intro split_unit_join) auto
  moreover have "map trim ts = ts" using assms by (intro map_idI) auto
  moreover have "filter (\<lambda>t. t \<noteq> []) ts = ts" using assms by (intro filter_True) auto
  ultimately show ?thesis by (simp add: ruleSegments_def)
qed

text \<open>What the parser returns, by cases.\<close>

lemma ruleSegments_Nil [simp]: "ruleSegments [] = []"
  by (simp add: ruleSegments_def)

lemma mergeRanges_Nil [simp]: "mergeRanges [] = []"
  by (simp add: mergeRanges_def)

lemma rules_ok_iff:
  "ok (parseHttpStatusCodeRules s) \<longleftrightarrow> (\<forall>t \<in> set (ruleSegments (trim s)). parseToken t \<noteq> None)"
  by (cases "trim s = []") (simp_all add: parseHttpStatusCodeRules_def Let_def filter_empty_conv)

lemma rules_ok_eq:
  assumes "ok (parseHttpStatusCodeRules s)"
  shows "parseHttpStatusCodeRules s =
    (let merged = mergeRanges (List.map_filter parseToken (ruleSegments (trim s)))
     in \<lparr>ok = True, ranges = merged, tokens = map rangeToken merged,
         normalized = join [44] (map rangeToken merged), invalidTokens = []\<rparr>)"
  using assms [unfolded rules_ok_iff]
  by (cases "trim s = []")
     (simp_all add: parseHttpStatusCodeRules_def Let_def filter_empty_conv List.map_filter_simps)

lemma parse_rules_ok:
  assumes "ok (parseHttpStatusCodeRules s)"
  shows "ranges (parseHttpStatusCodeRules s) = mergeRanges (List.map_filter parseToken (ruleSegments (trim s)))"
    and "tokens (parseHttpStatusCodeRules s) = map rangeToken (ranges (parseHttpStatusCodeRules s))"
    and "normalized (parseHttpStatusCodeRules s) = join [44] (map rangeToken (ranges (parseHttpStatusCodeRules s)))"
    and "invalidTokens (parseHttpStatusCodeRules s) = []"
  by (simp_all add: rules_ok_eq [OF assms] Let_def)

lemma join_tokens_trimmed:
  assumes "\<forall>r \<in> set rs. valid_range r"
  shows "trim (join [44] (map rangeToken rs)) = join [44] (map rangeToken rs)"
proof (rule trim_no_ws)
  have "c \<in> set (join [44] (map rangeToken rs)) \<Longrightarrow> is_digit c \<or> c = 45 \<or> c = 44" for c
    using assms by (fastforce dest!: set_join dest: rangeToken_chars)
  then show "\<forall>c \<in> set (join [44] (map rangeToken rs)). \<not> js_ws c"
    by (fastforce simp: js_ws_def is_digit_def)
qed

lemma parse_rules_of_normal:
  assumes v: "\<forall>r \<in> set rs. valid_range r" and n: "normal rs"
  shows "parseHttpStatusCodeRules (join [44] (map rangeToken rs)) =
    \<lparr>ok = True, ranges = rs, tokens = map rangeToken rs, normalized = join [44] (map rangeToken rs),
     invalidTokens = []\<rparr>"
proof (cases "rs = []")
  case True
  then show ?thesis by (simp add: parseHttpStatusCodeRules_def)
next
  case False
  let ?t = "map rangeToken rs"
  have seg: "ruleSegments (join [44] ?t) = ?t"
    using v False by (intro ruleSegments_join) (auto simp: rangeToken_plain rangeToken_nonempty)
  have p: "List.map_filter parseToken ?t = rs"
    using v by (induction rs) (auto simp: List.map_filter_simps parseToken_rangeToken)
  have inv: "filter (\<lambda>t. parseToken t = None) ?t = []"
    using v by (auto simp: filter_empty_conv parseToken_rangeToken)
  have ne: "join [44] ?t \<noteq> []"
    using False rangeToken_nonempty by (cases rs rule: normal.cases) auto
  show ?thesis
    using ne
    by (simp add: parseHttpStatusCodeRules_def join_tokens_trimmed [OF v] seg p inv
        mergeRanges_normal_id [OF n] Let_def)
qed

lemma parse_rules_ranges:
  assumes "ok (parseHttpStatusCodeRules s)"
  shows "normal (ranges (parseHttpStatusCodeRules s))"
    and "r \<in> set (ranges (parseHttpStatusCodeRules s)) \<Longrightarrow> valid_range r"
    and "codes (ranges (parseHttpStatusCodeRules s)) =
         codes (List.map_filter parseToken (ruleSegments (trim s)))"
proof -
  have v: "\<forall>r \<in> set (List.map_filter parseToken (ruleSegments (trim s))). valid_range r"
    using parsed_ranges_valid by blast
  then have le: "\<forall>r \<in> set (List.map_filter parseToken (ruleSegments (trim s))). rstart r \<le> rend r"
    using valid_range_le by blast
  note r = parse_rules_ok(1) [OF assms]
  show "normal (ranges (parseHttpStatusCodeRules s))" unfolding r by (rule mergeRanges_normal [OF le])
  show "r \<in> set (ranges (parseHttpStatusCodeRules s)) \<Longrightarrow> valid_range r"
    unfolding r by (rule mergeRanges_valid [OF v])
  show "codes (ranges (parseHttpStatusCodeRules s)) =
      codes (List.map_filter parseToken (ruleSegments (trim s)))"
    unfolding r by (rule mergeRanges_codes [OF le])
qed

section \<open>Properties\<close>

text \<open>The text of a token without the blanks the parser removes.\<close>

definition tokenText :: "jsstr \<Rightarrow> jsstr" where
  "tokenText t = filter (\<lambda>c. c \<noteq> 32) (trim t)"

lemma split_unit_pair: "split_unit d s = [a, b] \<longleftrightarrow> s = a @ d # b \<and> d \<notin> set a \<and> d \<notin> set b"
proof
  assume sp: "split_unit d s = [a, b]"
  then have "s = a @ d # b" using join_split_unit [of d s] by simp
  with sp show "s = a @ d # b \<and> d \<notin> set a \<and> d \<notin> set b"
    using split_unit_no_sep [of a d s] split_unit_no_sep [of b d s] by simp
qed (simp add: split_unit_append split_unit_none)

lemma isNumber_no_dash: "isNumber a \<Longrightarrow> 45 \<notin> set a"
  by (auto simp: isNumber_iff is_digit_def)

lemma parseToken_dash:
  assumes "45 \<in> set (tokenText t)"
  shows "parseToken t = Some r \<longleftrightarrow> valid_range r \<and>
    (\<exists>a b. tokenText t = a @ 45 # b \<and> isNumber a \<and> isNumber b
       \<and> digits_val a = rstart r \<and> digits_val b = rend r)"
proof -
  have dash: "js ''-'' = [45]" by (simp add: js_def)
  have "parseToken t = Some r \<longleftrightarrow> valid_range r \<and>
    (\<exists>a b. split_unit 45 (tokenText t) = [a, b] \<and> isNumber a \<and> isNumber b
       \<and> num_int (parseInt10 a) = Some (rstart r) \<and> num_int (parseInt10 b) = Some (rend r))"
    using assms unfolding parseToken_def tokenText_def [symmetric] Let_def dash str_includes_single
    by (auto simp: valid_range_def split: list.splits option.splits if_splits)
  also have "\<dots> \<longleftrightarrow> valid_range r \<and>
    (\<exists>a b. tokenText t = a @ 45 # b \<and> isNumber a \<and> isNumber b
       \<and> digits_val a = rstart r \<and> digits_val b = rend r)"
  proof (rule conj_cong [OF refl], intro iff_exI)
    fix a b
    assume "valid_range r"
    then show "(split_unit 45 (tokenText t) = [a, b] \<and> isNumber a \<and> isNumber b
       \<and> num_int (parseInt10 a) = Some (rstart r) \<and> num_int (parseInt10 b) = Some (rend r)) \<longleftrightarrow>
      (tokenText t = a @ 45 # b \<and> isNumber a \<and> isNumber b
       \<and> digits_val a = rstart r \<and> digits_val b = rend r)"
      by (auto simp: split_unit_pair num_int_parse_iff valid_range_def isNumber_no_dash)
  qed
  finally show ?thesis .
qed

lemma parseToken_plain:
  assumes "45 \<notin> set (tokenText t)"
  shows "parseToken t = Some r \<longleftrightarrow> valid_range r \<and>
    isNumber (tokenText t) \<and> digits_val (tokenText t) = rstart r \<and> rend r = rstart r"
proof -
  have dash: "js ''-'' = [45]" by (simp add: js_def)
  have "parseToken t = Some r \<longleftrightarrow> valid_range r \<and> isNumber (tokenText t)
       \<and> num_int (parseInt10 (tokenText t)) = Some (rstart r) \<and> rend r = rstart r"
    using assms unfolding parseToken_def tokenText_def [symmetric] Let_def dash str_includes_single
    by (auto simp: valid_range_def isNumber_iff split: option.splits if_splits)
  then show ?thesis using num_int_parse_iff [of "tokenText t" "rstart r"] by (auto simp: valid_range_def)
qed

text \<open>
  \<open>parseToken\<close> accepts exactly the tokens that, without blanks, are a decimal code or two
  decimal codes around one dash, in order and between 100 and 599, and returns those codes;
  long digit strings, which JavaScript reads as rounded numbers, are no exception.
\<close>

theorem parseToken_spec:
  "parseToken t = Some r \<longleftrightarrow>
     (100 \<le> rstart r \<and> rstart r \<le> rend r \<and> rend r \<le> 599) \<and>
     ((isNumber (tokenText t) \<and> digits_val (tokenText t) = rstart r \<and> rend r = rstart r) \<or>
      (\<exists>a b. tokenText t = a @ 45 # b \<and> isNumber a \<and> isNumber b
         \<and> digits_val a = rstart r \<and> digits_val b = rend r))"
proof (cases "45 \<in> set (tokenText t)")
  case True
  then show ?thesis
    using parseToken_dash [OF True, of r] isNumber_no_dash by (auto simp: valid_range_def)
next
  case False
  then show ?thesis
    using parseToken_plain [OF False, of r] by (auto simp: valid_range_def)
qed

text \<open>
  C17: when the rules parse, the result stands for exactly the codes of the input's tokens,
  and its ranges are non-empty, inside 100 to 599, ascending and separated by a gap.
\<close>

theorem parse_rules_sound:
  assumes "ok (parseHttpStatusCodeRules s)"
  shows "codes (ranges (parseHttpStatusCodeRules s)) =
           {c. \<exists>t \<in> set (ruleSegments (trim s)). \<exists>r. parseToken t = Some r \<and> rstart r \<le> c \<and> c \<le> rend r}
         \<and> normal (ranges (parseHttpStatusCodeRules s))
         \<and> (\<forall>c \<in> codes (ranges (parseHttpStatusCodeRules s)). 100 \<le> c \<and> c \<le> 599)"
proof -
  have "codes (List.map_filter parseToken ts) =
      {c. \<exists>t \<in> set ts. \<exists>r. parseToken t = Some r \<and> rstart r \<le> c \<and> c \<le> rend r}" for ts
    by (induction ts) (auto simp: List.map_filter_simps split: option.splits)
  moreover have "\<forall>c \<in> codes (ranges (parseHttpStatusCodeRules s)). 100 \<le> c \<and> c \<le> 599"
    using parse_rules_ranges(2) [OF assms] by (fastforce simp: codes_def valid_range_def)
  ultimately show ?thesis using parse_rules_ranges(1,3) [OF assms] by simp
qed

lemma rules_example: "ruleSegments (trim (js ''429, 500-503 ,501'')) = [js ''429'', js ''500-503'', js ''501'']"
  by code_simp

lemma range_tokens_example:
  "js ''429'' = rangeToken \<lparr>rstart = 429, rend = 429\<rparr>"
  "js ''500-503'' = rangeToken \<lparr>rstart = 500, rend = 503\<rparr>"
  "js ''501'' = rangeToken \<lparr>rstart = 501, rend = 501\<rparr>"
  by code_simp+

lemma rules_example_ok: "ok (parseHttpStatusCodeRules (js ''429, 500-503 ,501''))"
  unfolding rules_ok_iff rules_example range_tokens_example
  by (simp add: parseToken_rangeToken valid_range_def)

theorem parse_rules_sound_witness:
  "ok (parseHttpStatusCodeRules (js ''429, 500-503 ,501''))
   \<and> normal (ranges (parseHttpStatusCodeRules (js ''429, 500-503 ,501'')))"
  using parse_rules_sound [OF rules_example_ok] rules_example_ok by blast

text \<open>
  Parsing the normal form the parser printed gives the same result again, so saving and
  reloading the rules changes nothing.
\<close>

theorem parse_rules_idempotent:
  assumes "ok (parseHttpStatusCodeRules s)"
  shows "parseHttpStatusCodeRules (normalized (parseHttpStatusCodeRules s)) = parseHttpStatusCodeRules s"
proof -
  let ?r = "ranges (parseHttpStatusCodeRules s)"
  have "\<forall>r \<in> set ?r. valid_range r" using parse_rules_ranges(2) [OF assms] by blast
  from parse_rules_of_normal [OF this parse_rules_ranges(1) [OF assms]]
  show ?thesis
    using rules_ok_eq [OF assms] parse_rules_ok(1,3) [OF assms] by (simp add: Let_def)
qed

theorem parse_rules_idempotent_witness:
  "ok (parseHttpStatusCodeRules (js ''429, 500-503 ,501'')) \<and>
   parseHttpStatusCodeRules (normalized (parseHttpStatusCodeRules (js ''429, 500-503 ,501'')))
     = parseHttpStatusCodeRules (js ''429, 500-503 ,501'')"
  using parse_rules_idempotent [OF rules_example_ok] rules_example_ok by blast

lemma rangeToken_inj: "valid_range r \<Longrightarrow> valid_range s \<Longrightarrow> rangeToken r = rangeToken s \<Longrightarrow> r = s"
  by (metis option.inject parseToken_rangeToken)

text \<open>
  C18: the printed normal form is canonical: two accepted inputs print the same text exactly
  when they stand for the same set of status codes.
\<close>

theorem normalized_canonical:
  assumes "ok (parseHttpStatusCodeRules s)" and "ok (parseHttpStatusCodeRules s')"
  shows "normalized (parseHttpStatusCodeRules s) = normalized (parseHttpStatusCodeRules s') \<longleftrightarrow>
    codes (ranges (parseHttpStatusCodeRules s)) = codes (ranges (parseHttpStatusCodeRules s'))"
proof -
  let ?r = "ranges (parseHttpStatusCodeRules s)" and ?r' = "ranges (parseHttpStatusCodeRules s')"
  have v: "\<forall>r \<in> set ?r. valid_range r" "\<forall>r \<in> set ?r'. valid_range r"
    using parse_rules_ranges(2) [OF assms(1)] parse_rules_ranges(2) [OF assms(2)] by blast+
  note n = parse_rules_ranges(1) [OF assms(1)] parse_rules_ranges(1) [OF assms(2)]
  note nf = parse_rules_ok(3) [OF assms(1)] parse_rules_ok(3) [OF assms(2)]
  show ?thesis
  proof
    assume "normalized (parseHttpStatusCodeRules s) = normalized (parseHttpStatusCodeRules s')"
    then have "join [44] (map rangeToken ?r) = join [44] (map rangeToken ?r')" by (simp only: nf)
    then have "ranges (parseHttpStatusCodeRules (join [44] (map rangeToken ?r))) =
        ranges (parseHttpStatusCodeRules (join [44] (map rangeToken ?r')))" by (simp only:)
    then have "?r = ?r'"
      unfolding parse_rules_of_normal [OF v(1) n(1)] parse_rules_of_normal [OF v(2) n(2)] by simp
    then show "codes ?r = codes ?r'" by (simp only:)
  next
    assume "codes ?r = codes ?r'"
    with n have "?r = ?r'" by (rule normal_unique)
    then show "normalized (parseHttpStatusCodeRules s) = normalized (parseHttpStatusCodeRules s')"
      by (simp only: nf)
  qed
qed

lemma rules_example2: "ruleSegments (trim (js ''500-503,429'')) = [js ''500-503'', js ''429'']"
  by code_simp

lemma rules_example2_ok: "ok (parseHttpStatusCodeRules (js ''500-503,429''))"
  unfolding rules_ok_iff rules_example2 range_tokens_example
  by (simp add: parseToken_rangeToken valid_range_def)

theorem normalized_canonical_witness:
  "normalized (parseHttpStatusCodeRules (js ''429, 500-503 ,501'')) =
     normalized (parseHttpStatusCodeRules (js ''500-503,429''))"
proof -
  have "codes (ranges (parseHttpStatusCodeRules (js ''429, 500-503 ,501''))) =
      codes (ranges (parseHttpStatusCodeRules (js ''500-503,429'')))"
    unfolding parse_rules_ranges(3) [OF rules_example_ok] parse_rules_ranges(3) [OF rules_example2_ok]
      rules_example rules_example2 range_tokens_example
    by (auto simp: List.map_filter_simps parseToken_rangeToken valid_range_def)
  then show ?thesis using normalized_canonical [OF rules_example_ok rules_example2_ok] by simp
qed

text \<open>
  An input is refused exactly when one of its non-blank tokens does not parse; the
  refusal lists those tokens in order, carries no range and hands back the trimmed input.
\<close>

theorem parse_rules_error:
  "parseHttpStatusCodeRules s =
     \<lparr>ok = False, ranges = [], tokens = [], normalized = trim s,
      invalidTokens = filter (\<lambda>t. parseToken t = None) (ruleSegments (trim s))\<rparr>
   \<longleftrightarrow> (\<exists>t \<in> set (ruleSegments (trim s)). parseToken t = None)"
  (is "?p = ?e \<longleftrightarrow> ?bad")
proof
  assume bad: ?bad
  then have "trim s \<noteq> []" by auto
  with bad show "?p = ?e"
    unfolding parseHttpStatusCodeRules_def by (simp add: filter_empty_conv Let_def)
next
  assume "?p = ?e"
  then have "ok ?p = ok ?e" by (rule arg_cong)
  then have "\<not> ok ?p" by simp
  then show ?bad by (simp add: rules_ok_iff)
qed

end
