(* ===== verification/JsValue.thy ===== *)
theory JsValue
  imports JsNumber
begin

text \<open>
  JavaScript values and JSON. A value is \<open>undefined\<close>, \<open>null\<close>, a boolean, a number, a string,
  an array or a plain object; an object is the list of its own properties in the order in
  which \<open>Object.keys\<close> lists them (array indices first, ascending, then the other keys in
  order of insertion). \<open>json_parse\<close> is \<open>JSON.parse\<close> (\<open>None\<close> for a thrown
  \<open>SyntaxError\<close>) and \<open>json_stringify\<close> is \<open>JSON.stringify\<close> with one argument.
  The theory proves that parsing inverts printing. Properties inherited from
  \<open>Object.prototype\<close> are not modelled: reading a missing key gives \<open>undefined\<close>.
\<close>

datatype jsval =
    JUndef
  | JNull
  | JBool bool
  | JNum jsnum
  | JStr jsstr
  | JArr "jsval list"
  | JObj "(jsstr \<times> jsval) list"

fun truthy :: "jsval \<Rightarrow> bool" where
  "truthy JUndef = False"
| "truthy JNull = False"
| "truthy (JBool b) = b"
| "truthy (JNum n) = (n \<noteq> NaN \<and> \<not> num_is_zero n)"
| "truthy (JStr s) = (s \<noteq> [])"
| "truthy (JArr _) = True"
| "truthy (JObj _) = True"

text \<open>\<open>typeof v === 'object'\<close>: also of \<open>null\<close> and of arrays.\<close>

fun typeof_object :: "jsval \<Rightarrow> bool" where
  "typeof_object JNull = True"
| "typeof_object (JArr _) = True"
| "typeof_object (JObj _) = True"
| "typeof_object _ = False"

fun is_array :: "jsval \<Rightarrow> bool" where
  "is_array (JArr _) = True"
| "is_array _ = False"

text \<open>\<open>v == null\<close>.\<close>

fun is_nullish :: "jsval \<Rightarrow> bool" where
  "is_nullish JUndef = True"
| "is_nullish JNull = True"
| "is_nullish _ = False"

section \<open>Conversions\<close>

text \<open>\<open>String(v)\<close>, also the conversion of template literals.\<close>

fun js_to_string :: "jsval \<Rightarrow> jsstr" where
  "js_to_string JUndef = js ''undefined''"
| "js_to_string JNull = js ''null''"
| "js_to_string (JBool b) = (if b then js ''true'' else js ''false'')"
| "js_to_string (JNum n) = number_to_string n"
| "js_to_string (JStr s) = s"
| "js_to_string (JArr vs) =
     join [44] (map (\<lambda>v. if is_nullish v then [] else js_to_string v) vs)"
| "js_to_string (JObj ps) = js ''[object Object]''"

text \<open>\<open>Number(v)\<close>.\<close>

fun js_to_number :: "jsval \<Rightarrow> jsnum" where
  "js_to_number JUndef = NaN"
| "js_to_number JNull = Fin 0"
| "js_to_number (JBool b) = (if b then Fin 1 else Fin 0)"
| "js_to_number (JNum n) = n"
| "js_to_number (JStr s) = string_to_number s"
| "js_to_number (JArr vs) = string_to_number (js_to_string (JArr vs))"
| "js_to_number (JObj ps) = NaN"

text \<open>An exception that the code does not catch where it is thrown.\<close>

datatype js_error = TypeError | SyntaxError | ErrorMsg jsstr

section \<open>Objects\<close>

text \<open>The array index a property key stands for, if it is one.\<close>

definition index_key :: "jsstr \<Rightarrow> int option" where
  "index_key k = (if k \<noteq> [] \<and> list_all is_digit k \<and> (k = [48] \<or> hd k \<noteq> 48) \<and> digits_val k < 4294967295
                  then Some (digits_val k) else None)"

text \<open>Does key \<open>k\<close> come before key \<open>l\<close> when \<open>k\<close> is added after \<open>l\<close>?\<close>

definition key_before :: "jsstr \<Rightarrow> jsstr \<Rightarrow> bool" where
  "key_before k l = (case index_key k of None \<Rightarrow> False
     | Some i \<Rightarrow> (case index_key l of None \<Rightarrow> True | Some j \<Rightarrow> i < j))"

fun obj_insert :: "jsstr \<Rightarrow> 'v \<Rightarrow> (jsstr \<times> 'v) list \<Rightarrow> (jsstr \<times> 'v) list" where
  "obj_insert k v [] = [(k, v)]"
| "obj_insert k v ((l, w) # ps) =
     (if key_before k l then (k, v) # (l, w) # ps else (l, w) # obj_insert k v ps)"

fun obj_update :: "jsstr \<Rightarrow> 'v \<Rightarrow> (jsstr \<times> 'v) list \<Rightarrow> (jsstr \<times> 'v) list" where
  "obj_update k v [] = []"
| "obj_update k v ((l, w) # ps) = (if l = k then (l, v) # ps else (l, w) # obj_update k v ps)"

text \<open>\<open>o[k] = v\<close>, \<open>delete o[k]\<close>, \<open>{ ...o, ...p }\<close>.\<close>

definition obj_put :: "jsstr \<Rightarrow> 'v \<Rightarrow> (jsstr \<times> 'v) list \<Rightarrow> (jsstr \<times> 'v) list" where
  "obj_put k v ps = (if k \<in> fst ` set ps then obj_update k v ps else obj_insert k v ps)"

definition obj_delete :: "jsstr \<Rightarrow> (jsstr \<times> 'v) list \<Rightarrow> (jsstr \<times> 'v) list" where
  "obj_delete k ps = filter (\<lambda>(l, _). l \<noteq> k) ps"

definition obj_spread :: "(jsstr \<times> 'v) list \<Rightarrow> (jsstr \<times> 'v) list \<Rightarrow> (jsstr \<times> 'v) list" where
  "obj_spread ps qs = fold (\<lambda>(k, v). obj_put k v) qs ps"

definition obj_keys :: "(jsstr \<times> 'v) list \<Rightarrow> jsstr list" where
  "obj_keys ps = map fst ps"

text \<open>Reading a property of a value that is not \<open>undefined\<close> or \<open>null\<close>.\<close>

fun js_prop :: "jsval \<Rightarrow> jsstr \<Rightarrow> jsval" where
  "js_prop (JObj ps) k = (case map_of ps k of None \<Rightarrow> JUndef | Some v \<Rightarrow> v)"
| "js_prop (JArr vs) k =
     (case index_key k of
        Some i \<Rightarrow> if i < int (length vs) then vs ! nat i else JUndef
      | None \<Rightarrow> if k = js ''length'' then JNum (Fin (of_nat (length vs))) else JUndef)"
| "js_prop (JStr s) k =
     (case index_key k of
        Some i \<Rightarrow> if i < int (length s) then JStr [s ! nat i] else JUndef
      | None \<Rightarrow> if k = js ''length'' then JNum (Fin (of_nat (length s))) else JUndef)"
| "js_prop _ k = JUndef"

definition prop_opt :: "jsval \<Rightarrow> jsstr \<Rightarrow> jsval" where  \<comment> \<open>\<open>v?.[k]\<close>\<close>
  "prop_opt v k = (if is_nullish v then JUndef else js_prop v k)"

definition js_and :: "jsval \<Rightarrow> jsval \<Rightarrow> jsval" where  \<comment> \<open>\<open>a && b\<close>\<close>
  "js_and a b = (if truthy a then b else a)"

definition js_or :: "jsval \<Rightarrow> jsval \<Rightarrow> jsval" where  \<comment> \<open>\<open>a || b\<close>\<close>
  "js_or a b = (if truthy a then a else b)"

text \<open>\<open>v.k\<close>, which throws on \<open>undefined\<close> and \<open>null\<close>.\<close>

definition js_get :: "jsval \<Rightarrow> jsstr \<Rightarrow> js_error + jsval" where
  "js_get v k = (if is_nullish v then Inl TypeError else Inr (js_prop v k))"

text \<open>Own enumerable string keys with their values: \<open>Object.entries\<close>.\<close>

fun entries :: "jsval \<Rightarrow> (jsstr \<times> jsval) list" where
  "entries (JObj ps) = ps"
| "entries (JArr vs) = zip (map (\<lambda>i. show_nat (int i)) [0..<length vs]) vs"
| "entries (JStr s) = zip (map (\<lambda>i. show_nat (int i)) [0..<length s]) (map (\<lambda>c. JStr [c]) s)"
| "entries _ = []"

lemma map_of_obj_insert: "k \<notin> fst ` set ps \<Longrightarrow> map_of (obj_insert k v ps) = (map_of ps)(k \<mapsto> v)"
  by (induction k v ps rule: obj_insert.induct) auto

lemma map_of_obj_update: "k \<in> fst ` set ps \<Longrightarrow> map_of (obj_update k v ps) = (map_of ps)(k \<mapsto> v)"
  by (induction k v ps rule: obj_update.induct) (force simp: fun_eq_iff)+

lemma map_of_obj_put [simp]: "map_of (obj_put k v ps) = (map_of ps)(k \<mapsto> v)"
  by (simp add: obj_put_def map_of_obj_insert map_of_obj_update)

lemma map_of_obj_delete [simp]: "map_of (obj_delete k ps) = (map_of ps)(k := None)"
  by (induction ps) (auto simp: obj_delete_def)

lemma set_obj_insert: "set (obj_insert k v ps) = insert (k, v) (set ps)"
  by (induction k v ps rule: obj_insert.induct) auto

lemma keys_obj_update: "map fst (obj_update k v ps) = map fst ps"
  by (induction k v ps rule: obj_update.induct) auto

lemma keys_obj_put: "fst ` set (obj_put k v ps) = insert k (fst ` set ps)"
proof (cases "k \<in> fst ` set ps")
  case True
  then show ?thesis
    by (simp add: obj_put_def) (metis insert_absorb keys_obj_update list.set_map)
qed (simp add: obj_put_def set_obj_insert)

lemma distinct_obj_insert: "distinct (map fst ps) \<Longrightarrow> k \<notin> fst ` set ps \<Longrightarrow> distinct (map fst (obj_insert k v ps))"
  by (induction k v ps rule: obj_insert.induct) (auto simp: set_obj_insert)

lemma distinct_obj_put: "distinct (map fst ps) \<Longrightarrow> distinct (map fst (obj_put k v ps))"
  by (simp add: obj_put_def distinct_obj_insert keys_obj_update)

lemma map_of_obj_spread: "map_of (obj_spread ps qs) = map_of ps ++ map_of (rev qs)"
proof -
  have "map_of (fold (\<lambda>(k, v). obj_put k v) qs ps) = map_of ps ++ map_of (rev qs)" for ps
    by (induction qs arbitrary: ps) (auto simp: map_add_def fun_eq_iff split: option.splits)
  then show ?thesis by (simp add: obj_spread_def)
qed

lemma map_of_obj_spread_distinct:
  "distinct (map fst qs) \<Longrightarrow> map_of (obj_spread ps qs) = map_of ps ++ map_of qs"
  by (simp add: map_of_obj_spread) (metis distinct_map distinct_rev map_of_eq_None_iff map_of_inject_set rev_map set_rev)

section \<open>\<open>JSON.parse\<close>\<close>

definition json_ws :: "int \<Rightarrow> bool" where
  "json_ws c \<longleftrightarrow> c = 32 \<or> c = 9 \<or> c = 10 \<or> c = 13"

definition skip_ws :: "jsstr \<Rightarrow> jsstr" where
  "skip_ws s = dropWhile json_ws s"

lemma length_skip_ws [simp]: "length (skip_ws s) \<le> length s"
  by (simp add: skip_ws_def length_dropWhile_le)

lemma skip_ws_shorter: "skip_ws s = c # cs \<Longrightarrow> length cs < length s"
  using length_skip_ws [of s] by simp

definition json_escape :: "int \<Rightarrow> int option" where
  "json_escape e = map_of [(34, 34), (92, 92), (47, 47), (98, 8), (102, 12), (110, 10), (114, 13), (116, 9)] e"

text \<open>An escape sequence after its backslash: the code unit and the rest.\<close>

fun json_unescape :: "jsstr \<Rightarrow> (int \<times> jsstr) option" where
  "json_unescape [] = None"
| "json_unescape (e # r) =
     (if e = 117 then
        (if length r < 4 then None
         else map_option (\<lambda>x. (x, drop 4 r)) (radix_val 16 0 (take 4 r)))
      else map_option (\<lambda>x. (x, r)) (json_escape e))"

lemma json_unescape_shorter: "json_unescape s = Some (x, r) \<Longrightarrow> length r < length s"
  by (cases s) (auto split: if_splits)

text \<open>The body of a string literal after its opening quote: the text and what follows the closing quote.\<close>

function json_string :: "jsstr \<Rightarrow> (jsstr \<times> jsstr) option" where
  "json_string [] = None"
| "json_string (c # cs) =
     (if c = 34 then Some ([], cs)
      else if c < 32 then None
      else if c = 92 then
        (case json_unescape cs of
           None \<Rightarrow> None
         | Some (x, r) \<Rightarrow> map_option (\<lambda>(w, t). (x # w, t)) (json_string r))
      else map_option (\<lambda>(w, t). (c # w, t)) (json_string cs))"
  by pat_completeness auto
termination
  by (relation "measure length") (auto dest: json_unescape_shorter)

lemma json_string_shorter: "json_string s = Some (w, t) \<Longrightarrow> length t < length s"
proof (induction s arbitrary: w t rule: json_string.induct)
  case (2 c cs)
  show ?case
  proof (cases "c = 92")
    case True
    with 2(3) obtain x r w' where "json_unescape cs = Some (x, r)" "json_string r = Some (w', t)"
      by (auto split: option.splits)
    with 2(1) [of "(x, r)" x r w' t] True show ?thesis by (auto dest: json_unescape_shorter)
  next
    case False
    with 2(2) [of _ t] 2(3) show ?thesis by (fastforce split: if_splits)
  qed
qed simp

text \<open>A number: \<open>-?(0|[1-9][0-9]*)([.][0-9]+)?([eE][+-]?[0-9]+)?\<close>.\<close>

definition json_int_part :: "jsstr \<Rightarrow> jsstr \<times> jsstr" where
  "json_int_part r = (if r \<noteq> [] \<and> hd r = 48 then ([48], tl r)
                      else (takeWhile is_digit r, dropWhile is_digit r))"

definition json_frac_part :: "jsstr \<Rightarrow> jsstr \<times> jsstr" where
  "json_frac_part r =
     (if r \<noteq> [] \<and> hd r = 46 \<and> takeWhile is_digit (tl r) \<noteq> []
      then (takeWhile is_digit (tl r), dropWhile is_digit (tl r)) else ([], r))"

definition json_unsigned :: "jsstr \<Rightarrow> (jsnum \<times> jsstr) option" where
  "json_unsigned r =
     (let (ip, r1) = json_int_part r; (fp, r2) = json_frac_part r1; (e, r3) = take_exponent r2
      in if ip = [] then None
         else Some (rnd (of_int (digits_val (ip @ fp)) * pow10 (e - int (length fp))), r3))"

definition json_number :: "jsstr \<Rightarrow> (jsnum \<times> jsstr) option" where
  "json_number s =
     (if s \<noteq> [] \<and> hd s = 45
      then map_option (\<lambda>(n, r). (num_neg n, r)) (json_unsigned (tl s))
      else json_unsigned s)"

datatype json_mode = JValue | JElems "jsval list" | JMembers "(jsstr \<times> jsval) list"

fun json_mode_rank :: "json_mode \<Rightarrow> nat" where
  "json_mode_rank JValue = 0"
| "json_mode_rank _ = 1"

text \<open>
  The parser: a value, the elements of an array after those already read, or the members
  of an object after those already read. The comparison of lengths always holds: it is
  what makes the recursion well-founded by itself.
\<close>

function json_read :: "json_mode \<Rightarrow> jsstr \<Rightarrow> (jsval \<times> jsstr) option" where
  "json_read JValue s =
     (case skip_ws s of
        [] \<Rightarrow> None
      | c # cs \<Rightarrow>
          if c = 123 then
            (case skip_ws cs of
               [] \<Rightarrow> None
             | d # ds \<Rightarrow> if d = 125 then Some (JObj [], ds) else json_read (JMembers []) cs)
          else if c = 91 then
            (case skip_ws cs of
               [] \<Rightarrow> None
             | d # ds \<Rightarrow> if d = 93 then Some (JArr [], ds) else json_read (JElems []) cs)
          else if c = 34 then map_option (\<lambda>(w, t). (JStr w, t)) (json_string cs)
          else if startsWith (c # cs) (js ''true'') then Some (JBool True, drop 3 cs)
          else if startsWith (c # cs) (js ''false'') then Some (JBool False, drop 4 cs)
          else if startsWith (c # cs) (js ''null'') then Some (JNull, drop 3 cs)
          else map_option (\<lambda>(n, t). (JNum n, t)) (json_number (c # cs)))"
| "json_read (JElems acc) s =
     (case json_read JValue s of
        None \<Rightarrow> None
      | Some (v, r) \<Rightarrow>
          if length r < length s then
            (case skip_ws r of
               [] \<Rightarrow> None
             | c # cs \<Rightarrow> if c = 44 then json_read (JElems (acc @ [v])) cs
                          else if c = 93 then Some (JArr (acc @ [v]), cs) else None)
          else None)"
| "json_read (JMembers acc) s =
     (case skip_ws s of
        [] \<Rightarrow> None
      | q # qs \<Rightarrow>
          if q = 34 then
            (case json_string qs of
               None \<Rightarrow> None
             | Some (k, r) \<Rightarrow>
                 (case skip_ws r of
                    [] \<Rightarrow> None
                  | c # cs \<Rightarrow>
                      if c = 58 then
                        (case json_read JValue cs of
                           None \<Rightarrow> None
                         | Some (v, t) \<Rightarrow>
                             if length t < length cs then
                               (case skip_ws t of
                                  [] \<Rightarrow> None
                                | d # ds \<Rightarrow>
                                    if d = 44 then json_read (JMembers (obj_put k v acc)) ds
                                    else if d = 125 then Some (JObj (obj_put k v acc), ds) else None)
                             else None)
                      else None))
          else None)"
  by pat_completeness auto
termination
  by (relation "measures [\<lambda>(m, s). length s, \<lambda>(m, s). json_mode_rank m]")
     (auto dest!: skip_ws_shorter json_string_shorter)

declare json_read.simps [simp del]

definition json_parse :: "jsstr \<Rightarrow> jsval option" where
  "json_parse s = (case json_read JValue s of
     Some (v, r) \<Rightarrow> if skip_ws r = [] then Some v else None
   | None \<Rightarrow> None)"

section \<open>\<open>JSON.stringify\<close>\<close>

definition hex_digit :: "int \<Rightarrow> int" where
  "hex_digit d = (if d < 10 then 48 + d else 87 + d)"

definition json_unicode :: "int \<Rightarrow> jsstr" where
  "json_unicode c = [92, 117, hex_digit (c div 4096 mod 16), hex_digit (c div 256 mod 16),
                     hex_digit (c div 16 mod 16), hex_digit (c mod 16)]"

definition high_surrogate :: "int \<Rightarrow> bool" where
  "high_surrogate c \<longleftrightarrow> 55296 \<le> c \<and> c \<le> 56319"

definition low_surrogate :: "int \<Rightarrow> bool" where
  "low_surrogate c \<longleftrightarrow> 56320 \<le> c \<and> c \<le> 57343"

definition json_unit :: "int \<Rightarrow> jsstr" where
  "json_unit c =
     (if c = 8 then [92, 98] else if c = 9 then [92, 116] else if c = 10 then [92, 110]
      else if c = 12 then [92, 102] else if c = 13 then [92, 114]
      else if c = 34 then [92, 34] else if c = 92 then [92, 92]
      else if c < 32 \<or> high_surrogate c \<or> low_surrogate c then json_unicode c
      else [c])"

fun json_quote_body :: "jsstr \<Rightarrow> jsstr" where
  "json_quote_body [] = []"
| "json_quote_body [c] = json_unit c"
| "json_quote_body (c # d # cs) =
     (if high_surrogate c \<and> low_surrogate d then c # d # json_quote_body cs
      else json_unit c @ json_quote_body (d # cs))"

text \<open>\<open>JSON.stringify\<close> of a string.\<close>

definition json_quote :: "jsstr \<Rightarrow> jsstr" where
  "json_quote s = [34] @ json_quote_body s @ [34]"

fun json_stringify :: "jsval \<Rightarrow> jsstr option" where
  "json_stringify JUndef = None"
| "json_stringify JNull = Some (js ''null'')"
| "json_stringify (JBool b) = Some (if b then js ''true'' else js ''false'')"
| "json_stringify (JNum n) = Some (if num_is_finite n then number_to_string n else js ''null'')"
| "json_stringify (JStr s) = Some (json_quote s)"
| "json_stringify (JArr vs) =
     Some ([91] @ join [44] (map (\<lambda>v. case json_stringify v of None \<Rightarrow> js ''null'' | Some t \<Rightarrow> t) vs) @ [93])"
| "json_stringify (JObj ps) =
     Some ([123] @ join [44] (concat (map (\<lambda>p. case json_stringify (snd p) of
         None \<Rightarrow> [] | Some t \<Rightarrow> [json_quote (fst p) @ [58] @ t]) ps)) @ [125])"

text \<open>\<open>JSON.stringify(v, null, 2)\<close>.\<close>

fun json_pretty :: "nat \<Rightarrow> jsval \<Rightarrow> jsstr option" where
  "json_pretty n (JArr vs) =
     Some (if vs = [] then js ''[]''
       else [91, 10] @ join [44, 10] (map (\<lambda>v. replicate (n + 2) 32 @
              (case json_pretty (n + 2) v of None \<Rightarrow> js ''null'' | Some t \<Rightarrow> t)) vs) @ [10] @ replicate n 32 @ [93])"
| "json_pretty n (JObj ps) =
     (let ms = concat (map (\<lambda>p. case json_pretty (n + 2) (snd p) of
            None \<Rightarrow> [] | Some t \<Rightarrow> [replicate (n + 2) 32 @ json_quote (fst p) @ js '': '' @ t]) ps)
      in Some (if ms = [] then js ''{}'' else [123, 10] @ join [44, 10] ms @ [10] @ replicate n 32 @ [125]))"
| "json_pretty n v = json_stringify v"

section \<open>Parsing inverts printing\<close>

definition units_ok :: "jsstr \<Rightarrow> bool" where
  "units_ok s \<longleftrightarrow> list_all (\<lambda>c. 0 \<le> c \<and> c \<le> 65535) s"

lemma digit_value_hex: "0 \<le> d \<Longrightarrow> d < 16 \<Longrightarrow> digit_value (hex_digit d) = Some d"
  by (auto simp: digit_value_def hex_digit_def is_digit_def)

lemma radix_val_hex4:
  assumes "0 \<le> a" "a < 16" "0 \<le> b" "b < 16" "0 \<le> c" "c < 16" "0 \<le> d" "d < 16"
  shows "radix_val 16 0 [hex_digit a, hex_digit b, hex_digit c, hex_digit d] =
    Some (((a * 16 + b) * 16 + c) * 16 + d)"
  using assms by (simp add: digit_value_hex)

lemma hex4_value:
  assumes "0 \<le> c" "c \<le> (65535 :: int)"
  shows "((c div 4096 mod 16 * 16 + c div 256 mod 16) * 16 + c div 16 mod 16) * 16 + c mod 16 = c"
proof -
  have a: "c div 4096 mod 16 = c div 4096" using assms by (intro mod_pos_pos_trivial) auto
  have b: "c div 4096 * 16 + c div 256 mod 16 = c div 256"
    using div_mult_mod_eq [of "c div 256" 16] zdiv_zmult2_eq [of 16 c 256] by simp
  have d: "c div 256 * 16 + c div 16 mod 16 = c div 16"
    using div_mult_mod_eq [of "c div 16" 16] zdiv_zmult2_eq [of 16 c 16] by simp
  show ?thesis unfolding a b d by (rule div_mult_mod_eq)
qed

lemma json_unescape_unicode:
  assumes "0 \<le> c" "c \<le> 65535"
  shows "json_unescape (drop 1 (json_unicode c) @ r) = Some (c, r)"
proof -
  have "radix_val 16 0 [hex_digit (c div 4096 mod 16), hex_digit (c div 256 mod 16),
      hex_digit (c div 16 mod 16), hex_digit (c mod 16)] = Some c"
    using radix_val_hex4 [of "c div 4096 mod 16" "c div 256 mod 16" "c div 16 mod 16" "c mod 16"]
    unfolding hex4_value [OF assms] by simp
  then show ?thesis unfolding json_unicode_def by (simp del: radix_val.simps)
qed

lemma json_string_unit:
  assumes "0 \<le> c" "c \<le> 65535"
  shows "json_string (json_unit c @ r) = map_option (\<lambda>(w, t). (c # w, t)) (json_string r)"
proof -
  have u: "json_string (json_unicode c @ r) = map_option (\<lambda>(w, t). (c # w, t)) (json_string r)"
    using json_unescape_unicode [OF assms, of r] by (simp add: json_unicode_def del: json_unescape.simps)
  show ?thesis
    using u by (auto simp: json_unit_def json_escape_def)
qed

lemma json_string_plain:
  "32 \<le> c \<Longrightarrow> c \<noteq> 34 \<Longrightarrow> c \<noteq> 92 \<Longrightarrow> json_string (c # r) = map_option (\<lambda>(w, t). (c # w, t)) (json_string r)"
  by simp

lemma json_string_quote_body:
  "units_ok s \<Longrightarrow> json_string (json_quote_body s @ 34 # t) = Some (s, t)"
proof (induction s rule: json_quote_body.induct)
  case (2 c)
  then show ?case by (simp add: json_string_unit units_ok_def del: json_string.simps) simp
next
  case (3 c d cs)
  show ?case
  proof (cases "high_surrogate c \<and> low_surrogate d")
    case True
    then have "32 \<le> c" "c \<noteq> 34" "c \<noteq> 92" "32 \<le> d" "d \<noteq> 34" "d \<noteq> 92"
      by (auto simp: high_surrogate_def low_surrogate_def)
    with True 3 show ?thesis by (simp add: json_string_plain units_ok_def del: json_string.simps)
  next
    case False
    with 3 show ?thesis by (auto simp: json_string_unit units_ok_def simp del: json_string.simps)
  qed
qed simp

text \<open>What may follow a value inside a JSON text, and the values that JSON carries unchanged.\<close>

definition json_delim :: "jsstr \<Rightarrow> bool" where
  "json_delim r \<longleftrightarrow> r = [] \<or> hd r = 44 \<or> hd r = 93 \<or> hd r = 125 \<or> hd r = 10"

definition json_num_ok :: "jsnum \<Rightarrow> bool" where
  "json_num_ok n \<longleftrightarrow> num_is_finite n \<and> json_number (number_to_string n) = Some (n, [])"

definition keys_ordered :: "(jsstr \<times> 'v) list \<Rightarrow> bool" where
  "keys_ordered ps \<longleftrightarrow> sorted_wrt (\<lambda>k l. k \<noteq> l \<and> \<not> key_before l k) (map fst ps)"

fun json_ok :: "jsval \<Rightarrow> bool" where
  "json_ok JUndef = False"
| "json_ok JNull = True"
| "json_ok (JBool b) = True"
| "json_ok (JNum n) = json_num_ok n"
| "json_ok (JStr s) = units_ok s"
| "json_ok (JArr vs) = list_all json_ok vs"
| "json_ok (JObj ps) = (keys_ordered ps \<and> list_all (\<lambda>p. units_ok (fst p) \<and> json_ok (snd p)) ps)"

definition json_text :: "jsval \<Rightarrow> jsstr" where
  "json_text v = (case json_stringify v of None \<Rightarrow> js ''null'' | Some t \<Rightarrow> t)"

lemma units_ok_js [simp]: "units_ok (js s)"
proof -
  have "of_char c \<le> (65535 :: int)" for c using of_char_mod_256 [of c, where 'a = int] pos_mod_bound [of 256 "of_char c :: int"] by linarith
  moreover have "0 \<le> (of_char c :: int)" for c using of_char_mod_256 [of c, where 'a = int] pos_mod_sign [of 256 "of_char c :: int"] by linarith
  ultimately show ?thesis by (simp add: units_ok_def js_def list_all_iff)
qed

lemma keys_ordered_names:
  assumes "distinct (map fst ps)" and "list_all (\<lambda>k. \<not> list_all is_digit k) (map fst ps)"
  shows "keys_ordered ps"
proof -
  have "\<not> key_before k l" if "k \<in> fst ` set ps" for k l
    using assms(2) that by (auto simp: key_before_def index_key_def list_all_iff)
  then show ?thesis using assms(1) unfolding keys_ordered_def
    by (auto simp: sorted_wrt_iff_nth_less distinct_conv_nth)
qed

lemma all_digits_js: "list_all is_digit (js (c # cs)) \<longleftrightarrow> is_digit (of_char c) \<and> list_all is_digit (js cs)"
  by (simp add: js_Cons)

lemma takeWhile_append_delim:
  "r = [] \<or> \<not> P (hd r) \<Longrightarrow> takeWhile P (s @ r) = takeWhile P s"
  "r = [] \<or> \<not> P (hd r) \<Longrightarrow> dropWhile P (s @ r) = dropWhile P s @ r"
proof -
  show "r = [] \<or> \<not> P (hd r) \<Longrightarrow> takeWhile P (s @ r) = takeWhile P s"
    by (induction s) (auto, cases r, auto)
  show "r = [] \<or> \<not> P (hd r) \<Longrightarrow> dropWhile P (s @ r) = dropWhile P s @ r"
    by (induction s) (auto, cases r, auto)
qed

text \<open>What ends a number literal.\<close>

definition num_delim :: "jsstr \<Rightarrow> bool" where
  "num_delim r \<longleftrightarrow> r = [] \<or> \<not> is_digit (hd r) \<and> hd r \<notin> {46, 69, 101}"

lemma json_delim_num: "json_delim r \<Longrightarrow> num_delim r"
  by (auto simp: json_delim_def num_delim_def is_digit_def)

lemma delim_not_digit: "num_delim r \<Longrightarrow> r = [] \<or> \<not> is_digit (hd r)"
  by (auto simp: num_delim_def)

lemma take_exponent_delim:
  assumes "num_delim r" and "take_exponent s = (e, [])"
  shows "take_exponent (s @ r) = (e, r)"
proof (cases s)
  case Nil
  with assms show ?thesis
    by (cases r) (auto simp: take_exponent_def num_delim_def split: if_splits)
next
  case (Cons c cs)
  with assms(2) have c: "c = 101 \<or> c = 69" by (auto simp: take_exponent_def split: if_splits)
  obtain n t where nt: "take_sign cs = (n, t)" by (cases "take_sign cs")
  have tw: "takeWhile is_digit t \<noteq> []" "dropWhile is_digit t = []"
    using assms(2) c Cons nt by (auto simp: take_exponent_def Let_def split: if_splits)
  then have "cs \<noteq> []" using nt by auto
  then have "take_sign (cs @ r) = (n, t @ r)" using nt by (cases cs) (auto split: if_splits)
  then show ?thesis
    using assms c Cons nt tw takeWhile_append_delim [where P = is_digit and s = t, OF delim_not_digit [OF assms(1)]]
    by (auto simp: take_exponent_def Let_def)
qed

lemma json_int_part_delim:
  assumes "num_delim r" and "s \<noteq> []"
  shows "json_int_part (s @ r) = (fst (json_int_part s), snd (json_int_part s) @ r)"
  using assms(2) takeWhile_append_delim [where P = is_digit and s = s, OF delim_not_digit [OF assms(1)]]
  by (simp add: json_int_part_def)

lemma json_frac_part_delim:
  assumes "num_delim r"
  shows "json_frac_part (s @ r) = (fst (json_frac_part s), snd (json_frac_part s) @ r)"
proof (cases s)
  case Nil
  with assms show ?thesis by (auto simp: json_frac_part_def num_delim_def)
next
  case (Cons c cs)
  then show ?thesis
    using takeWhile_append_delim [where P = is_digit and s = cs, OF delim_not_digit [OF assms]]
    by (simp add: json_frac_part_def)
qed

lemma json_unsigned_delim:
  assumes "num_delim r" and "json_unsigned s = Some (n, [])"
  shows "json_unsigned (s @ r) = Some (n, r)"
proof -
  obtain ip r1 where i: "json_int_part s = (ip, r1)" by (cases "json_int_part s")
  obtain fp r2 where f: "json_frac_part r1 = (fp, r2)" by (cases "json_frac_part r1")
  obtain e r3 where e: "take_exponent r2 = (e, r3)" by (cases "take_exponent r2")
  from assms(2) have ip: "ip \<noteq> []" and r3: "r3 = []"
    and n: "n = rnd (of_int (digits_val (ip @ fp)) * pow10 (e - int (length fp)))"
    by (auto simp: json_unsigned_def i f e split: if_splits)
  have "s \<noteq> []" using ip i by (auto simp: json_int_part_def)
  then have "json_int_part (s @ r) = (ip, r1 @ r)" by (simp add: json_int_part_delim [OF assms(1)] i)
  moreover have "json_frac_part (r1 @ r) = (fp, r2 @ r)" by (simp add: json_frac_part_delim [OF assms(1)] f)
  moreover have "take_exponent (r2 @ r) = (e, r)" using e r3 by (intro take_exponent_delim [OF assms(1)]) simp
  ultimately show ?thesis using ip n by (simp add: json_unsigned_def)
qed

lemma json_number_delim:
  assumes "json_delim r" and "json_number s = Some (n, [])"
  shows "json_number (s @ r) = Some (n, r)" and "s \<noteq> []" and "hd s = 45 \<or> is_digit (hd s)"
proof -
  have hd: "t \<noteq> [] \<and> is_digit (hd t)" if "json_unsigned t = Some (m, [])" for t m
    using that by (cases t) (auto simp: json_unsigned_def json_int_part_def is_digit_def Let_def
        split: if_splits prod.splits)
  show s: "s \<noteq> []" "hd s = 45 \<or> is_digit (hd s)"
    using assms(2) hd [of s] by (auto simp: json_number_def split: if_splits)
  show "json_number (s @ r) = Some (n, r)"
    using assms s json_unsigned_delim [OF json_delim_num [OF assms(1)]] by (auto simp: json_number_def split: if_splits)
qed

text \<open>The first code unit of a printed value.\<close>

lemma json_text_head:
  assumes "json_ok v"
  shows "json_text v \<noteq> []"
    and "\<not> json_ws (hd (json_text v)) \<and> hd (json_text v) \<noteq> 93 \<and> hd (json_text v) \<noteq> 125"
proof -
  have *: "json_text v \<noteq> [] \<and>
    \<not> json_ws (hd (json_text v)) \<and> hd (json_text v) \<noteq> 93 \<and> hd (json_text v) \<noteq> 125"
  proof (cases v)
    case (JNum n)
    with assms have "json_number (number_to_string n) = Some (n, [])" "num_is_finite n"
      by (auto simp: json_num_ok_def)
    with json_number_delim(2,3) [of "[]" "number_to_string n" n] JNum show ?thesis
      by (auto simp: json_text_def json_ws_def is_digit_def json_delim_def)
  qed (use assms in \<open>auto simp: json_text_def js_def json_ws_def json_quote_def\<close>)
  then show "json_text v \<noteq> []"
    and "\<not> json_ws (hd (json_text v)) \<and> hd (json_text v) \<noteq> 93 \<and> hd (json_text v) \<noteq> 125"
    by auto
qed

lemma skip_ws_head: "s \<noteq> [] \<Longrightarrow> \<not> json_ws (hd s) \<Longrightarrow> skip_ws s = s"
  by (simp add: skip_ws_def dropWhile_eq_self)

definition reads_back :: "jsval \<Rightarrow> bool" where
  "reads_back v \<longleftrightarrow> (\<forall>r. json_delim r \<longrightarrow> json_read JValue (json_text v @ r) = Some (v, r))"

lemma json_delim_simps [simp]:
  "json_delim (44 # r)" "json_delim (93 # r)" "json_delim (125 # r)" "json_delim (10 # r)" "json_delim []"
  by (auto simp: json_delim_def)

lemma read_elems:
  assumes "vs \<noteq> []" and "\<forall>v \<in> set vs. json_ok v \<and> reads_back v"
  shows "json_read (JElems acc) (join [44] (map json_text vs) @ 93 # r) = Some (JArr (acc @ vs), r)"
  using assms
proof (induction "[44 :: int]" "map json_text vs" arbitrary: vs acc rule: join.induct)
  case (2 w)
  then obtain v where v: "vs = [v]" by auto
  with 2 json_text_head(1) [of v] show ?case
    by (simp add: reads_back_def json_read.simps(2) skip_ws_def json_ws_def)
next
  case (3 w x ws)
  then obtain v u us where vs: "vs = v # u # us" by (auto simp: Cons_eq_map_conv)
  have "json_read JValue (json_text v @ 44 # join [44] (map json_text (u # us)) @ 93 # r) =
      Some (v, 44 # join [44] (map json_text (u # us)) @ 93 # r)"
    using 3(4) vs by (simp add: reads_back_def)
  moreover have "json_read (JElems (acc @ [v])) (join [44] (map json_text (u # us)) @ 93 # r) =
      Some (JArr (acc @ v # u # us), r)"
    using 3(1) [of "u # us" "acc @ [v]"] 3(2,4) vs by simp
  moreover have "json_text v \<noteq> []" using 3(4) vs json_text_head(1) by simp
  ultimately show ?case
    by (simp add: vs json_read.simps(2) [of acc] skip_ws_def json_ws_def)
qed simp

definition member_text :: "jsstr \<times> jsval \<Rightarrow> jsstr" where
  "member_text p = json_quote (fst p) @ [58] @ json_text (snd p)"

lemma obj_put_last:
  assumes "\<forall>l \<in> fst ` set acc. k \<noteq> l \<and> \<not> key_before k l"
  shows "obj_put k v acc = acc @ [(k, v)]"
proof -
  have "obj_insert k v acc = acc @ [(k, v)]"
    using assms by (induction k v acc rule: obj_insert.induct) auto
  then show ?thesis using assms by (auto simp: obj_put_def)
qed

lemma read_member_step:
  assumes "units_ok (fst p)" and "json_ok (snd p)" and "reads_back (snd p)" and "json_delim t" and "t \<noteq> []" and "hd t \<noteq> 10"
  shows "json_read (JMembers acc) (member_text p @ t) =
    (if hd t = 44 then json_read (JMembers (obj_put (fst p) (snd p) acc)) (tl t)
     else if hd t = 125 then Some (JObj (obj_put (fst p) (snd p) acc), tl t) else None)"
proof -
  have q: "json_string (json_quote_body (fst p) @ 34 # 58 # json_text (snd p) @ t) =
      Some (fst p, 58 # json_text (snd p) @ t)"
    using assms(1) by (rule json_string_quote_body)
  have v: "json_read JValue (json_text (snd p) @ t) = Some (snd p, t)"
    using assms(3,4) by (simp add: reads_back_def)
  have w: "skip_ws t = t"
    using assms(4,5,6) by (intro skip_ws_head) (auto simp: json_delim_def json_ws_def)
  obtain d ds where t: "t = d # ds" using assms(5) by (cases t) auto
  have ne: "json_text (snd p) \<noteq> []" using assms(2) by (rule json_text_head)
  have s34: "skip_ws (34 # x) = 34 # x" and s58: "skip_ws (58 # x) = 58 # x" for x
    by (simp_all add: skip_ws_def json_ws_def)
  show ?thesis
    using q v w ne
    by (simp add: member_text_def json_quote_def json_read.simps(3) [of acc] s34 s58 t
        del: json_string.simps)
qed

lemma keys_ordered_put: "keys_ordered (acc @ p # ps) \<Longrightarrow> obj_put (fst p) (snd p) acc = acc @ [p]"
  using obj_put_last [of acc "fst p" "snd p"] by (force simp: keys_ordered_def sorted_wrt_append)

lemma read_members:
  assumes "ps \<noteq> []" and "\<forall>p \<in> set ps. units_ok (fst p) \<and> json_ok (snd p) \<and> reads_back (snd p)"
    and "keys_ordered (acc @ ps)"
  shows "json_read (JMembers acc) (join [44] (map member_text ps) @ 125 # r) = Some (JObj (acc @ ps), r)"
  using assms
proof (induction "[44 :: int]" "map member_text ps" arbitrary: ps acc rule: join.induct)
  case (2 w)
  then obtain p where p: "ps = [p]" by auto
  then have "obj_put (fst p) (snd p) acc = acc @ [p]"
    using 2(4) by (simp add: keys_ordered_put)
  with 2 p show ?case by (simp add: read_member_step)
next
  case (3 w x ws)
  then obtain p q qs where ps: "ps = p # q # qs" by (auto simp: Cons_eq_map_conv)
  have put: "obj_put (fst p) (snd p) acc = acc @ [p]"
    using 3(5) ps by (simp add: keys_ordered_put)
  have "json_read (JMembers (acc @ [p])) (join [44] (map member_text (q # qs)) @ 125 # r) =
      Some (JObj (acc @ p # q # qs), r)"
    using 3(1) [of "q # qs" "acc @ [p]"] 3(2,4,5) ps by simp
  with 3(4) ps put show ?case by (simp add: read_member_step)
qed simp

lemma json_stringify_ok: "json_ok v \<Longrightarrow> json_stringify v = Some (json_text v)"
  by (cases v) (auto simp: json_text_def)

lemma json_text_array:
  assumes "\<forall>v \<in> set vs. json_ok v"
  shows "json_text (JArr vs) = 91 # join [44] (map json_text vs) @ [93]"
proof -
  have "map (\<lambda>v. case json_stringify v of None \<Rightarrow> js ''null'' | Some t \<Rightarrow> t) vs = map json_text vs"
    by (simp add: json_text_def)
  then show ?thesis by (simp only: json_text_def [of "JArr vs"] json_stringify.simps option.case) simp
qed

lemma json_text_object:
  assumes "\<forall>p \<in> set ps. json_ok (snd p)"
  shows "json_text (JObj ps) = 123 # join [44] (map member_text ps) @ [125]"
proof -
  have "concat (map (\<lambda>p. case json_stringify (snd p) of
      None \<Rightarrow> [] | Some t \<Rightarrow> [json_quote (fst p) @ [58] @ t]) ps) = map member_text ps"
    using assms by (induction ps) (auto simp: json_stringify_ok member_text_def)
  then show ?thesis by (simp add: json_text_def)
qed

lemma join_head: "ws \<noteq> [] \<Longrightarrow> hd ws \<noteq> [] \<Longrightarrow> join sep ws \<noteq> [] \<and> hd (join sep ws) = hd (hd ws)"
  by (cases ws rule: remdups_adj.cases) auto

lemma reads_back_array:
  assumes "\<forall>v \<in> set vs. json_ok v \<and> reads_back v"
  shows "reads_back (JArr vs)"
proof (cases "vs = []")
  case True
  then show ?thesis
    by (simp add: reads_back_def json_text_def json_read.simps(1) skip_ws_def json_ws_def)
next
  case False
  have j: "join [44] (map json_text vs) \<noteq> []" "hd (join [44] (map json_text vs)) = hd (json_text (hd vs))"
    using join_head [of "map json_text vs" "[44]"] False assms json_text_head(1) by (auto simp: hd_map)
  then have sk: "skip_ws (join [44] (map json_text vs) @ 93 # r) = join [44] (map json_text vs) @ 93 # r" for r
    using json_text_head(2) [of "hd vs"] False assms by (intro skip_ws_head) auto
  obtain c cs where c: "join [44] (map json_text vs) = c # cs" "c \<noteq> 93"
    using j json_text_head(2) [of "hd vs"] False assms by (cases "join [44] (map json_text vs)") auto
  have s91: "skip_ws (91 # x) = 91 # x" for x by (simp add: skip_ws_def json_ws_def)
  have el: "json_read (JElems []) (c # cs @ 93 # r) = Some (JArr vs, r)" for r
    using read_elems [OF False assms, of "[]" r] c(1) by simp
  show ?thesis
    unfolding reads_back_def
    using assms sk c el by (simp add: json_text_array json_read.simps(1) s91)
qed

lemma reads_back_object:
  assumes "\<forall>p \<in> set ps. units_ok (fst p) \<and> json_ok (snd p) \<and> reads_back (snd p)" and "keys_ordered ps"
  shows "reads_back (JObj ps)"
proof (cases "ps = []")
  case True
  then show ?thesis
    by (simp add: reads_back_def json_text_def json_read.simps(1) skip_ws_def json_ws_def)
next
  case False
  have j: "join [44] (map member_text ps) \<noteq> []" "hd (join [44] (map member_text ps)) = 34"
    using join_head [of "map member_text ps" "[44]"] False by (auto simp: hd_map member_text_def json_quote_def)
  then obtain cs where c: "join [44] (map member_text ps) = 34 # cs"
    by (cases "join [44] (map member_text ps)") auto
  have sk: "skip_ws (123 # x) = 123 # x" "skip_ws (34 # x) = 34 # x" for x
    by (simp_all add: skip_ws_def json_ws_def)
  have el: "json_read (JMembers []) (34 # cs @ 125 # r) = Some (JObj ps, r)" for r
    using read_members [OF False assms(1), of "[]" r] assms(2) c by simp
  show ?thesis
    unfolding reads_back_def
    using assms(1) sk c el by (simp add: json_text_object json_read.simps(1))
qed

lemma startsWith_Cons_mismatch [simp]: "c \<noteq> d \<Longrightarrow> \<not> startsWith (c # cs) (d # ds)"
  by simp

lemma reads_back_ok: "json_ok v \<Longrightarrow> reads_back v"
proof (induction v)
  case (JNum n)
  have "json_read JValue (number_to_string n @ r) = Some (JNum n, r)" if "json_delim r" for r
  proof -
    have n: "json_number (number_to_string n) = Some (n, [])" using JNum by (simp add: json_num_ok_def)
    note d = json_number_delim [OF that n]
    obtain c cs where c: "number_to_string n @ r = c # cs" "c = 45 \<or> is_digit c"
      using d(2,3) by (cases "number_to_string n") auto
    have "skip_ws (c # cs) = c # cs" using c(2) by (auto simp: skip_ws_def json_ws_def is_digit_def)
    moreover have "c \<noteq> 123" "c \<noteq> 91" "c \<noteq> 34" "c \<noteq> 116" "c \<noteq> 102" "c \<noteq> 110"
      using c(2) by (auto simp: is_digit_def)
    ultimately show ?thesis using d(1) unfolding c(1)
      by (simp add: json_read.simps(1) js_def)
  qed
  with JNum show ?case by (simp add: reads_back_def json_text_def json_num_ok_def)
next
  case (JStr s)
  then show ?case
    using json_string_quote_body [of s]
    by (simp add: reads_back_def json_text_def json_quote_def json_read.simps(1) skip_ws_def json_ws_def
        del: json_string.simps)
next
  case (JArr vs)
  then show ?case by (intro reads_back_array) (auto simp: list_all_iff)
next
  case (JObj ps)
  then show ?case by (intro reads_back_object) (fastforce simp: list_all_iff snds.simps)+
qed (auto simp: reads_back_def json_text_def json_read.simps(1) skip_ws_def json_ws_def js_def)

lemma json_parse_text: "json_ok v \<Longrightarrow> json_parse (json_text v) = Some v"
  using reads_back_ok [of v] by (auto simp: reads_back_def json_parse_def json_delim_def skip_ws_def
      dest: spec [of _ "[]"])

section \<open>The interface of JSON texts\<close>

text \<open>
  What the clients of JSON rely on: a printer and a parser such that a carried value is
  read back from its text. Copying a value through its text (\<open>JSON.parse(JSON.stringify(v))\<close>)
  and telling values apart by their texts follow from that law alone.
\<close>

locale json_codec =
  fixes carried :: "'v \<Rightarrow> bool"
    and print :: "'v \<Rightarrow> 't"
    and read :: "'t \<Rightarrow> 'v option"
  assumes read_print: "carried v \<Longrightarrow> read (print v) = Some v"
begin

lemma print_inject: "carried v \<Longrightarrow> carried w \<Longrightarrow> print v = print w \<longleftrightarrow> v = w"
  by (metis option.inject read_print)

lemma clone_equal: "carried v \<Longrightarrow> map_option f (read (print v)) = Some (f v)"
  by (simp add: read_print)

end

interpretation json: json_codec json_ok json_text json_parse
  by unfold_locales (rule json_parse_text)

end
