(* ===== verification/StatusCodeRisk.thy ===== *)
theory StatusCodeRisk
  imports JsValue JsRegex StatusCodeRules
begin

text \<open>
  The guard on status code mappings of a channel,
  \<open>src/web/src/components/table/channels/modals/statusCodeRiskGuard.js\<close>: a mapping is a JSON
  object from status codes to status codes; the guard lists the entries that are not
  codes, and the redirects away from a code that must not be retried, which the operator
  has to confirm.
\<close>

definition NON_REDIRECTABLE_STATUS_CODES :: "int list" where
  "NON_REDIRECTABLE_STATUS_CODES = [504, 524]"

definition rx_status_code :: regex where  \<comment> \<open>\<open>/^[1-5]\\d{2}$/\<close>\<close>
  "rx_status_code = RSeq (RSet True [(49, 53)]) (RSeq rx_digit rx_digit)"

definition parseStatusCodeKey :: "jsval \<Rightarrow> int option" where
  "parseStatusCodeKey rawKey =
     (case rawKey of
        JStr s \<Rightarrow> let normalized = trim s in
          if \<not> rx_test rx_status_code normalized then None else num_int (parseInt10 normalized)
      | _ \<Rightarrow> None)"

definition is_integer :: "jsnum \<Rightarrow> bool" where
  "is_integer n = (case n of Fin q \<Rightarrow> of_int \<lfloor>q\<rfloor> = q | NegZero \<Rightarrow> True | _ \<Rightarrow> False)"

definition parseStatusCodeMappingTarget :: "jsval \<Rightarrow> int option" where
  "parseStatusCodeMappingTarget rawValue =
     (case rawValue of
        JNum n \<Rightarrow> if is_integer n
          then (case num_int n of
                  Some v \<Rightarrow> if 100 \<le> v \<and> v \<le> 599 then Some v else None
                | None \<Rightarrow> None)
          else None
      | JStr s \<Rightarrow> let normalized = trim s in
          if \<not> rx_test rx_status_code normalized then None
          else (case num_int (parseInt10 normalized) of
                  Some code \<Rightarrow> if 100 \<le> code \<and> code \<le> 599 then Some code else None
                | None \<Rightarrow> None)
      | _ \<Rightarrow> None)"

text \<open>The entries both collectors walk over: none unless the text is a JSON object.\<close>

definition mappingEntries :: "jsval \<Rightarrow> (jsstr \<times> jsval) list" where
  "mappingEntries statusCodeMappingStr =
     (case statusCodeMappingStr of
        JStr s \<Rightarrow> if trim s = [] then []
          else (case json_parse s of
                  None \<Rightarrow> []
                | Some parsed \<Rightarrow>
                    if \<not> truthy parsed \<or> \<not> typeof_object parsed \<or> is_array parsed then []
                    else entries parsed)
      | _ \<Rightarrow> [])"

definition collectInvalidStatusCodeEntries :: "jsval \<Rightarrow> jsstr list" where
  "collectInvalidStatusCodeEntries statusCodeMappingStr =
     concat (map (\<lambda>(rawKey, rawValue).
         if parseStatusCodeKey (JStr rawKey) = None \<or> parseStatusCodeMappingTarget rawValue = None
         then [rawKey @ [32, 8594, 32] @ js_to_string rawValue] else [])
       (mappingEntries statusCodeMappingStr))"

definition showRedirect :: "int \<Rightarrow> int \<Rightarrow> jsstr" where
  "showRedirect fromCode toCode = show_nat fromCode @ js '' -> '' @ show_nat toCode"

definition riskyRedirect :: "jsstr \<times> jsval \<Rightarrow> jsstr list" where
  "riskyRedirect = (\<lambda>(rawFrom, rawTo).
     (case (parseStatusCodeKey (JStr rawFrom), parseStatusCodeMappingTarget rawTo) of
        (Some fromCode, Some toCode) \<Rightarrow>
          if fromCode \<notin> set NON_REDIRECTABLE_STATUS_CODES then []
          else if fromCode = toCode then []
          else [showRedirect fromCode toCode]
      | _ \<Rightarrow> []))"

definition collectDisallowedStatusCodeRedirects :: "jsval \<Rightarrow> jsstr list" where
  "collectDisallowedStatusCodeRedirects statusCodeMappingStr =
     sort (uniq (concat (map riskyRedirect (mappingEntries statusCodeMappingStr))))"

definition collectNewDisallowedStatusCodeRedirects :: "jsval \<Rightarrow> jsval \<Rightarrow> jsstr list" where
  "collectNewDisallowedStatusCodeRedirects original current =
     (let currentRisky = collectDisallowedStatusCodeRedirects current in
      if currentRisky = [] then []
      else filter (\<lambda>m. m \<notin> set (collectDisallowedStatusCodeRedirects original)) currentRisky)"

section \<open>Codes\<close>

lemma rx_status_code_iff:
  "rx_test rx_status_code s \<longleftrightarrow> (\<exists>a b c. s = [a, b, c] \<and> 49 \<le> a \<and> a \<le> 53 \<and> is_digit b \<and> is_digit c)"
proof (cases "length s = 3")
  case True
  then obtain a b c where "s = [a, b, c]" by (auto simp: numeral_3_eq_3 length_Suc_conv)
  then show ?thesis
    by (auto simp: rx_test_def rx_at_start_def rx_status_code_def in_ranges_def is_digit_def)
next
  case False
  then show ?thesis
    by (cases s rule: list.exhaust [OF _ list.exhaust])
       (auto simp: rx_test_def rx_at_start_def rx_status_code_def split: list.splits)
qed

lemma digits_val_3: "digits_val [a, b, c] = (a - 48) * 100 + (b - 48) * 10 + (c - 48)"
  by (simp add: digits_val_def)

lemma status_code_value:
  assumes "rx_test rx_status_code s"
  shows "num_int (parseInt10 s) = Some (digits_val s)" and "100 \<le> digits_val s" and "digits_val s \<le> 599"
proof -
  from assms obtain a b c where s: "s = [a, b, c]" "49 \<le> a" "a \<le> 53" "is_digit b" "is_digit c"
    by (auto simp: rx_status_code_iff)
  then show "100 \<le> digits_val s" "digits_val s \<le> 599" by (auto simp: digits_val_3 is_digit_def)
  moreover have "isNumber s" using s by (auto simp: isNumber_iff is_digit_def)
  ultimately show "num_int (parseInt10 s) = Some (digits_val s)" by (simp add: num_int_parse_iff)
qed

lemma divmod10: "0 \<le> z \<Longrightarrow> z \<le> 9 \<Longrightarrow> (10 * w + z) div 10 = w \<and> (10 * w + z) mod 10 = (z :: int)"
  by auto

lemma show_nat_3:
  assumes "0 < x" "x \<le> 9" "0 \<le> y" "y \<le> 9" "0 \<le> z" "z \<le> 9"
  shows "show_nat (10 * (10 * x + y) + z) = [48 + x, 48 + y, 48 + z]"
proof -
  have "show_nat (10 * (10 * x + y) + z) = show_nat (10 * x + y) @ [48 + z]"
    using divmod10 [of z "10 * x + y"] assms by (subst show_nat.simps) simp
  also have "show_nat (10 * x + y) = show_nat x @ [48 + y]"
    using divmod10 [of y x] assms by (subst show_nat.simps) simp
  also have "show_nat x = [48 + x]" using assms by (subst show_nat.simps) simp
  finally show ?thesis by simp
qed

lemma rx_status_code_digits:
  "1 \<le> x \<Longrightarrow> x \<le> 5 \<Longrightarrow> 0 \<le> y \<Longrightarrow> y \<le> 9 \<Longrightarrow> 0 \<le> z \<Longrightarrow> z \<le> 9 \<Longrightarrow>
   rx_test rx_status_code [48 + x, 48 + y, 48 + z]"
  by (simp add: rx_status_code_iff is_digit_def)

lemma status_code_text: "rx_test rx_status_code s \<longleftrightarrow> (\<exists>n. 100 \<le> n \<and> n \<le> 599 \<and> s = show_nat n)"
proof
  assume "rx_test rx_status_code s"
  then obtain a b c where s: "s = [a, b, c]" "49 \<le> a" "a \<le> 53" "is_digit b" "is_digit c"
    by (auto simp: rx_status_code_iff)
  let ?n = "10 * (10 * (a - 48) + (b - 48)) + (c - 48)"
  have "show_nat ?n = s"
    using s show_nat_3 [of "a - 48" "b - 48" "c - 48"] by (simp add: is_digit_def)
  moreover have "100 \<le> ?n" "?n \<le> 599" using s by (auto simp: is_digit_def)
  ultimately show "\<exists>n. 100 \<le> n \<and> n \<le> 599 \<and> s = show_nat n"
    by (intro exI [of _ ?n] conjI) (simp_all only:)
next
  assume "\<exists>n. 100 \<le> n \<and> n \<le> 599 \<and> s = show_nat n"
  then obtain n where n: "100 \<le> n" "n \<le> 599" "s = show_nat n" by blast
  let ?x = "n div 10 div 10" and ?y = "n div 10 mod 10" and ?z = "n mod 10"
  have eq: "10 * (10 * ?x + ?y) + ?z = n" by simp
  have x: "1 \<le> ?x" "?x \<le> 5" 
    using zdiv_mono1 [OF zdiv_mono1 [OF n(1), of 10], of 10] zdiv_mono1 [OF zdiv_mono1 [OF n(2), of 10], of 10]
    by simp_all
  have yz: "?y \<le> 9" "?z \<le> 9" "0 \<le> ?y" "0 \<le> ?z"
    using pos_mod_bound [of 10 "n div 10"] pos_mod_bound [of 10 n]
      pos_mod_sign [of 10 "n div 10"] pos_mod_sign [of 10 n] by linarith+
  have "show_nat (10 * (10 * ?x + ?y) + ?z) = [48 + ?x, 48 + ?y, 48 + ?z]"
    using x yz by (intro show_nat_3) linarith+
  then have "s = [48 + ?x, 48 + ?y, 48 + ?z]" unfolding eq n(3) .
  then show "rx_test rx_status_code s"
    using x yz by (simp only: rx_status_code_digits)
qed

text \<open>A key or a string target is a code exactly when it is, without blanks around it, its decimal text.\<close>

lemma parseStatusCodeKey_iff:
  "parseStatusCodeKey (JStr k) = Some n \<longleftrightarrow> 100 \<le> n \<and> n \<le> 599 \<and> trim k = show_nat n"
proof (cases "rx_test rx_status_code (trim k)")
  case True
  then obtain m where m: "100 \<le> m" "m \<le> 599" "trim k = show_nat m" by (auto simp: status_code_text)
  with status_code_value(1) [OF True] True have "parseStatusCodeKey (JStr k) = Some m"
    by (simp add: parseStatusCodeKey_def)
  with m show ?thesis using show_nat_inj [of m n] by auto
next
  case False
  then show ?thesis using status_code_text [of "trim k"] by (auto simp: parseStatusCodeKey_def)
qed

lemma parseTarget_string: "parseStatusCodeMappingTarget (JStr t) = parseStatusCodeKey (JStr t)"
  using status_code_value [of "trim t"]
  by (auto simp: parseStatusCodeMappingTarget_def parseStatusCodeKey_def Let_def)

lemma parseTarget_range: "parseStatusCodeMappingTarget v = Some n \<Longrightarrow> 100 \<le> n \<and> n \<le> 599"
  by (cases v) (auto simp: parseStatusCodeMappingTarget_def Let_def split: if_splits option.splits)

text \<open>The printed redirects determine the codes.\<close>

lemma show_nat_no_space: "0 \<le> n \<Longrightarrow> 32 \<notin> set (show_nat n)"
  by (auto dest: show_nat_digits simp: is_digit_def)

lemma append_eq_first_sep:
  "x \<notin> set a \<Longrightarrow> x \<notin> set b \<Longrightarrow> a @ x # r = b @ x # t \<Longrightarrow> a = b \<and> r = t"
proof -
  assume a: "x \<notin> set a" and b: "x \<notin> set b" and eq: "a @ x # r = b @ x # t"
  have "takeWhile (\<lambda>y. y \<noteq> x) (a @ x # r) = a" using a by (intro takeWhile_append_stop) auto
  moreover have "takeWhile (\<lambda>y. y \<noteq> x) (b @ x # t) = b" using b by (intro takeWhile_append_stop) auto
  ultimately have "a = b" using eq by simp
  with eq show ?thesis by simp
qed

lemma showRedirect_inj:
  assumes "0 \<le> a" "0 \<le> b" "0 \<le> c" "0 \<le> d" and "showRedirect a b = showRedirect c d"
  shows "a = c \<and> b = d"
proof -
  have "show_nat a @ 32 # js ''-> '' @ show_nat b = show_nat c @ 32 # js ''-> '' @ show_nat d"
    using assms(5) by (simp add: showRedirect_def js_def)
  then have "show_nat a = show_nat c \<and> js ''-> '' @ show_nat b = js ''-> '' @ show_nat d"
    using assms(1,3) by (intro append_eq_first_sep [of 32] show_nat_no_space)
  then show ?thesis using assms by (auto dest: show_nat_inj)
qed

text \<open>What makes an entry risky, stated on the codes.\<close>

definition risky :: "(jsstr \<times> jsval) list \<Rightarrow> int \<Rightarrow> int \<Rightarrow> bool" where
  "risky es f t \<longleftrightarrow> (\<exists>(k, v) \<in> set es. parseStatusCodeKey (JStr k) = Some f
     \<and> parseStatusCodeMappingTarget v = Some t) \<and> (f = 504 \<or> f = 524) \<and> f \<noteq> t"

lemma in_riskyRedirect:
  "m \<in> set (riskyRedirect (k, v)) \<longleftrightarrow> (\<exists>f t. parseStatusCodeKey (JStr k) = Some f
     \<and> parseStatusCodeMappingTarget v = Some t \<and> (f = 504 \<or> f = 524) \<and> f \<noteq> t \<and> m = showRedirect f t)"
  by (cases "parseStatusCodeKey (JStr k)"; cases "parseStatusCodeMappingTarget v")
     (auto simp: riskyRedirect_def NON_REDIRECTABLE_STATUS_CODES_def)

lemma set_riskyRedirects:
  "set (concat (map riskyRedirect es)) = {showRedirect f t | f t. risky es f t}"
proof (rule set_eqI)
  fix m
  have "m \<in> set (concat (map riskyRedirect es)) \<longleftrightarrow> (\<exists>k v. (k, v) \<in> set es \<and> m \<in> set (riskyRedirect (k, v)))"
    by auto
  also have "\<dots> \<longleftrightarrow> (\<exists>f t. m = showRedirect f t \<and> risky es f t)"
    unfolding in_riskyRedirect risky_def by blast
  finally show "m \<in> set (concat (map riskyRedirect es)) \<longleftrightarrow> m \<in> {showRedirect f t | f t. risky es f t}"
    by blast
qed

lemma risky_range: "risky es f t \<Longrightarrow> 0 \<le> f \<and> 0 \<le> t"
  by (auto simp: risky_def dest: parseTarget_range)

lemma in_collectDisallowed:
  assumes "0 \<le> f" "0 \<le> t"
  shows "showRedirect f t \<in> set (collectDisallowedStatusCodeRedirects m) \<longleftrightarrow> risky (mappingEntries m) f t"
proof -
  have "showRedirect f t \<in> set (collectDisallowedStatusCodeRedirects m) \<longleftrightarrow>
      (\<exists>f' t'. showRedirect f t = showRedirect f' t' \<and> risky (mappingEntries m) f' t')"
    unfolding collectDisallowedStatusCodeRedirects_def set_sort set_uniq set_riskyRedirects by blast
  then show ?thesis using showRedirect_inj [OF assms] risky_range by metis
qed

section \<open>Properties\<close>

text \<open>
  The guard flags exactly the redirects of a well-formed entry from code 504 or 524 to
  another code, each once, in the order of their texts.
\<close>

theorem disallowed_redirects_spec:
  "set (collectDisallowedStatusCodeRedirects m) =
     {showRedirect f t | f t. (\<exists>(k, v) \<in> set (mappingEntries m).
        parseStatusCodeKey (JStr k) = Some f \<and> parseStatusCodeMappingTarget v = Some t)
        \<and> (f = 504 \<or> f = 524) \<and> f \<noteq> t}
   \<and> sorted (collectDisallowedStatusCodeRedirects m)
   \<and> distinct (collectDisallowedStatusCodeRedirects m)"
  unfolding collectDisallowedStatusCodeRedirects_def set_sort set_uniq set_riskyRedirects risky_def
  by (simp add: distinct_sort)

text \<open>
  Editing a mapping asks for confirmation exactly when it adds a risky redirect: a
  redirect is reported as new when it is risky now and was not risky in the original, and
  saving an unchanged mapping reports nothing.
\<close>

theorem new_disallowed_redirects_spec:
  "(showRedirect f t \<in> set (collectNewDisallowedStatusCodeRedirects old new) \<longleftrightarrow>
      showRedirect f t \<in> set (collectDisallowedStatusCodeRedirects new)
      \<and> showRedirect f t \<notin> set (collectDisallowedStatusCodeRedirects old))
   \<and> (collectNewDisallowedStatusCodeRedirects old new = [] \<longleftrightarrow>
      set (collectDisallowedStatusCodeRedirects new) \<subseteq> set (collectDisallowedStatusCodeRedirects old))
   \<and> collectNewDisallowedStatusCodeRedirects new new = []"
  by (auto simp: collectNewDisallowedStatusCodeRedirects_def Let_def filter_empty_conv)

text \<open>
  The two collectors divide the entries between them: an entry is listed as invalid
  exactly when its key or its target is not a code, and such an entry is never flagged as a
  redirect.
\<close>

theorem invalid_entries_spec:
  "length (collectInvalidStatusCodeEntries m) =
     length (filter (\<lambda>(k, v). parseStatusCodeKey (JStr k) = None \<or> parseStatusCodeMappingTarget v = None)
       (mappingEntries m))
   \<and> (\<forall>(k, v) \<in> set (mappingEntries m).
        (parseStatusCodeKey (JStr k) = None \<or> parseStatusCodeMappingTarget v = None) \<longrightarrow>
        k @ [32, 8594, 32] @ js_to_string v \<in> set (collectInvalidStatusCodeEntries m)
        \<and> riskyRedirect (k, v) = [])"
proof -
  have "length (concat (map (\<lambda>(k, v). if P k v then [f k v] else []) es)) =
      length (filter (\<lambda>(k, v). P k v) es)" for P and f :: "jsstr \<Rightarrow> jsval \<Rightarrow> jsstr" and es
    by (induction es) auto
  then show ?thesis
    by (auto simp: collectInvalidStatusCodeEntries_def riskyRedirect_def split: option.splits)
qed

lemma mapping_example:
  "mappingEntries (JStr (js ''{\"504\": \"500\", \"x\": \"200\"}'')) =
     [(js ''504'', JStr (js ''500'')), (js ''x'', JStr (js ''200''))]"
  by code_simp

lemma not_a_code_example: "parseStatusCodeKey (JStr (js ''x'')) = None"
  by code_simp

theorem invalid_entries_spec_witness:
  "js ''x'' @ [32, 8594, 32] @ js ''200''
     \<in> set (collectInvalidStatusCodeEntries (JStr (js ''{\"504\": \"500\", \"x\": \"200\"}'')))
   \<and> riskyRedirect (js ''x'', JStr (js ''200'')) = []"
proof -
  have "(js ''x'', JStr (js ''200'')) \<in> set (mappingEntries (JStr (js ''{\"504\": \"500\", \"x\": \"200\"}'')))"
    by (simp add: mapping_example)
  with invalid_entries_spec [of "JStr (js ''{\"504\": \"500\", \"x\": \"200\"}'')"] not_a_code_example
  show ?thesis by fastforce
qed

end
