(* ===== verification/UpstreamUpdate.thy ===== *)
theory UpstreamUpdate
  imports JsValue
begin

text \<open>
  The pending upstream model changes of a channel,
  \<open>src/web/src/hooks/channels/upstreamUpdateUtils.js\<close>: model lists are cleaned, and the
  channel's settings, an object or its JSON text, are read into the record the channel
  table shows.
\<close>

text \<open>
  \<open>normalizeModelList\<close>: \<open>models || []\<close> must have a \<open>map\<close> method; every element is turned
  into a trimmed string, blanks are dropped, and each name stays at its first occurrence.
\<close>

definition cleanModelNames :: "jsval list \<Rightarrow> jsstr list" where
  "cleanModelNames ms =
     uniq (filter (\<lambda>s. s \<noteq> []) (map (\<lambda>m. trim (js_to_string (if truthy m then m else JStr []))) ms))"

definition normalizeModelList :: "jsval \<Rightarrow> js_error + jsstr list" where
  "normalizeModelList models =
     (case (if truthy models then models else JArr []) of
        JArr ms \<Rightarrow> Inr (cleanModelNames ms)
      | _ \<Rightarrow> Inl TypeError)"

record upstream_meta =
  enabled :: bool
  pendingAddModels :: "jsstr list"
  pendingRemoveModels :: "jsstr list"

definition parseUpstreamUpdateMeta :: "jsval \<Rightarrow> js_error + upstream_meta" where
  "parseUpstreamUpdateMeta settings =
     (let parsed = (if truthy settings \<and> typeof_object settings then settings
                    else case settings of
                           JStr s \<Rightarrow> (case json_parse s of Some v \<Rightarrow> v | None \<Rightarrow> JNull)
                         | _ \<Rightarrow> JNull)
      in if \<not> truthy parsed \<or> \<not> typeof_object parsed
         then Inr \<lparr>enabled = False, pendingAddModels = [], pendingRemoveModels = []\<rparr>
         else case normalizeModelList (js_prop parsed (js ''upstream_model_update_last_detected_models'')) of
                Inl e \<Rightarrow> Inl e
              | Inr adds \<Rightarrow>
                  (case normalizeModelList (js_prop parsed (js ''upstream_model_update_last_removed_models'')) of
                     Inl e \<Rightarrow> Inl e
                   | Inr removes \<Rightarrow>
                       Inr \<lparr>enabled = (js_prop parsed (js ''upstream_model_update_check_enabled'') = JBool True),
                            pendingAddModels = adds, pendingRemoveModels = removes\<rparr>))"

lemma clean_strings: "cleanModelNames (map JStr ss) = uniq (filter (\<lambda>s. s \<noteq> []) (map trim ss))"
proof -
  have "map (\<lambda>m. trim (js_to_string (if truthy m then m else JStr []))) (map JStr ss) = map trim ss"
    by (induction ss) auto
  then show ?thesis by (simp only: cleanModelNames_def)
qed

lemma clean_props:
  "distinct (cleanModelNames ms)" "s \<in> set (cleanModelNames ms) \<Longrightarrow> s \<noteq> [] \<and> trim s = s"
  by (auto simp: cleanModelNames_def)

text \<open>
  A cleaned model list has no duplicates, no blank name and no name with white space at
  an end; cleaning it again changes nothing, so pending lists are stable under repeated
  reading; and it never names a model that was not listed.
\<close>

theorem normalizeModelList_idempotent:
  "distinct (cleanModelNames ms)
   \<and> [] \<notin> set (cleanModelNames ms) \<and> map trim (cleanModelNames ms) = cleanModelNames ms
   \<and> normalizeModelList (JArr (map JStr (cleanModelNames ms))) = Inr (cleanModelNames ms)
   \<and> set (cleanModelNames (map JStr ss)) = trim ` set ss - {[]}"
proof -
  have t: "map trim (cleanModelNames ms) = cleanModelNames ms"
    by (rule map_idI) (use clean_props in blast)
  have "filter (\<lambda>s. s \<noteq> []) (cleanModelNames ms) = cleanModelNames ms"
    by (rule filter_True) (use clean_props in blast)
  then have "cleanModelNames (map JStr (cleanModelNames ms)) = cleanModelNames ms"
    by (simp add: clean_strings t uniq_distinct clean_props(1))
  then show ?thesis
    using clean_props(2) [of "[]" ms] clean_props(1) [of ms]
    by (auto simp: t normalizeModelList_def clean_strings)
qed

text \<open>
  Reading the settings of a channel fails only when one of the two model lists is a
  value that is neither absent nor an array; text that is not JSON, and JSON that is not an
  object, read as no pending change.
\<close>

theorem parseUpstreamUpdateMeta_errors:
  assumes "json_parse s = None"
  shows "((\<exists>e. parseUpstreamUpdateMeta (JObj ps) = Inl e) \<longleftrightarrow>
     (\<exists>k \<in> {js ''upstream_model_update_last_detected_models'', js ''upstream_model_update_last_removed_models''}.
        truthy (js_prop (JObj ps) k) \<and> \<not> is_array (js_prop (JObj ps) k)))
   \<and> parseUpstreamUpdateMeta (JStr s) =
     Inr \<lparr>enabled = False, pendingAddModels = [], pendingRemoveModels = []\<rparr>"
proof -
  have n: "truthy v \<and> \<not> is_array v \<longleftrightarrow> (\<exists>e. normalizeModelList v = Inl e)" for v
    by (cases v) (auto simp: normalizeModelList_def)
  have "(\<exists>e. parseUpstreamUpdateMeta (JObj ps) = Inl e) \<longleftrightarrow>
     (\<exists>k \<in> {js ''upstream_model_update_last_detected_models'', js ''upstream_model_update_last_removed_models''}.
        truthy (js_prop (JObj ps) k) \<and> \<not> is_array (js_prop (JObj ps) k))"
    unfolding n by (auto simp: parseUpstreamUpdateMeta_def Let_def simp del: js_prop.simps split: sum.splits)
  moreover have "parseUpstreamUpdateMeta (JStr s) =
     Inr \<lparr>enabled = False, pendingAddModels = [], pendingRemoveModels = []\<rparr>"
    using assms by (simp add: parseUpstreamUpdateMeta_def)
  ultimately show ?thesis by blast
qed

lemma bad_json_example: "json_parse (js ''{'') = None"
  by code_simp

theorem parseUpstreamUpdateMeta_errors_witness:
  "parseUpstreamUpdateMeta (JStr (js ''{'')) =
     Inr \<lparr>enabled = False, pendingAddModels = [], pendingRemoveModels = []\<rparr>"
  using parseUpstreamUpdateMeta_errors [OF bad_json_example] by blast

end
