(* ===== verification/RequestRuleExpr.thy ===== *)
theory RequestRuleExpr
  imports JsValue JsRegex
begin

text \<open>
  The request rules of a billing expression,
  \<open>src/web/src/pages/Setting/Ratio/components/requestRuleExpr.js\<close>: the rules the visual
  editor shows, the expression text they are built into, the parser that reads the text back,
  and the split of a whole billing expression into its price part and its rules.

  A condition object has the fields of both shapes the code uses; an absent field is \<open>None\<close>
  (or \<open>JUndef\<close> for the fields that may hold any value). \<open>JSON.parse\<close> may throw inside the
  parser, so parsing returns a sum.
\<close>

section \<open>Data\<close>

definition SOURCE_PARAM :: jsstr where "SOURCE_PARAM = js ''param''"
definition SOURCE_HEADER :: jsstr where "SOURCE_HEADER = js ''header''"
definition SOURCE_TIME :: jsstr where "SOURCE_TIME = js ''time''"

definition MATCH_EQ :: jsstr where "MATCH_EQ = js ''eq''"
definition MATCH_CONTAINS :: jsstr where "MATCH_CONTAINS = js ''contains''"
definition MATCH_GT :: jsstr where "MATCH_GT = js ''gt''"
definition MATCH_GTE :: jsstr where "MATCH_GTE = js ''gte''"
definition MATCH_LT :: jsstr where "MATCH_LT = js ''lt''"
definition MATCH_LTE :: jsstr where "MATCH_LTE = js ''lte''"
definition MATCH_EXISTS :: jsstr where "MATCH_EXISTS = js ''exists''"
definition MATCH_RANGE :: jsstr where "MATCH_RANGE = js ''range''"

lemmas source_defs = SOURCE_PARAM_def SOURCE_HEADER_def SOURCE_TIME_def
lemmas match_defs = MATCH_EQ_def MATCH_CONTAINS_def MATCH_GT_def MATCH_GTE_def MATCH_LT_def
  MATCH_LTE_def MATCH_EXISTS_def MATCH_RANGE_def

definition TIME_FUNCS :: "jsstr list" where
  "TIME_FUNCS = map js [''hour'', ''minute'', ''weekday'', ''month'', ''day'']"

definition NUMERIC_LITERAL_REGEX :: regex where
  \<comment> \<open>\<open>/^-?(?:\\d+\\.?\\d*|\\.\\d+)(?:[eE][+-]?\\d+)?$/\<close>\<close>
  "NUMERIC_LITERAL_REGEX =
     RSeq (ROpt (RLit [45]))
       (RSeq (RAlt (RSeq (RPlus rx_digit) (RSeq (ROpt (RLit [46])) (RStar rx_digit)))
                   (RSeq (RLit [46]) (RPlus rx_digit)))
             (ROpt (RSeq (RSet True [(101, 101), (69, 69)])
                         (RSeq (ROpt (RSet True [(43, 43), (45, 45)])) (RPlus rx_digit)))))"

definition numeric :: "jsstr \<Rightarrow> bool" where
  "numeric s = rx_test NUMERIC_LITERAL_REGEX s"

record condition =
  c_source :: "jsstr option"
  c_path :: "jsstr option"
  c_mode :: "jsstr option"
  c_timeFunc :: "jsstr option"
  c_timezone :: "jsstr option"
  c_value :: jsval
  c_rangeStart :: jsval
  c_rangeEnd :: jsval

record rule_group =
  g_conditions :: "condition list"
  g_multiplier :: jsstr

definition req_cond :: "jsstr \<Rightarrow> jsstr \<Rightarrow> jsstr \<Rightarrow> jsval \<Rightarrow> condition" where
  "req_cond source path mode v =
     \<lparr>c_source = Some source, c_path = Some path, c_mode = Some mode, c_timeFunc = None,
      c_timezone = None, c_value = v, c_rangeStart = JUndef, c_rangeEnd = JUndef\<rparr>"

definition time_cond :: "jsstr \<Rightarrow> jsstr \<Rightarrow> jsstr \<Rightarrow> jsval \<Rightarrow> jsval \<Rightarrow> jsval \<Rightarrow> condition" where
  "time_cond timeFunc timezone mode v rangeStart rangeEnd =
     \<lparr>c_source = Some SOURCE_TIME, c_path = None, c_mode = Some mode, c_timeFunc = Some timeFunc,
      c_timezone = Some timezone, c_value = v, c_rangeStart = rangeStart, c_rangeEnd = rangeEnd\<rparr>"

definition createEmptyCondition :: condition where
  "createEmptyCondition = req_cond SOURCE_PARAM [] MATCH_EQ (JStr [])"

definition createEmptyTimeCondition :: condition where
  "createEmptyTimeCondition =
     time_cond (js ''hour'') (js ''Asia/Shanghai'') MATCH_GTE (JStr []) (JStr []) (JStr [])"

definition createEmptyRuleGroup :: rule_group where
  "createEmptyRuleGroup = \<lparr>g_conditions = [createEmptyCondition], g_multiplier = []\<rparr>"

definition createEmptyTimeRuleGroup :: rule_group where
  "createEmptyTimeRuleGroup = \<lparr>g_conditions = [createEmptyTimeCondition], g_multiplier = []\<rparr>"

text \<open>The modes offered for a source; the labels are texts of the user interface.\<close>

definition getRequestRuleMatchOptions :: "jsstr \<Rightarrow> jsstr list" where
  "getRequestRuleMatchOptions source =
     (if source = SOURCE_TIME then [MATCH_EQ, MATCH_GTE, MATCH_LT, MATCH_RANGE]
      else let base = [MATCH_EQ, MATCH_CONTAINS, MATCH_EXISTS] in
        if source = SOURCE_HEADER then base
        else base @ [MATCH_GT, MATCH_GTE, MATCH_LT, MATCH_LTE])"

definition or_else :: "jsstr option \<Rightarrow> jsstr \<Rightarrow> jsstr" where  \<comment> \<open>\<open>x || d\<close> on strings\<close>
  "or_else x d = (case x of None \<Rightarrow> d | Some s \<Rightarrow> if s = [] then d else s)"

definition text_of :: "jsval \<Rightarrow> jsstr" where  \<comment> \<open>\<open>v == null ? '' : String(v)\<close>\<close>
  "text_of v = (if is_nullish v then [] else js_to_string v)"

definition pick_mode :: "jsstr list \<Rightarrow> jsstr option \<Rightarrow> jsstr \<Rightarrow> jsstr" where
  "pick_mode options m d = (case m of None \<Rightarrow> d | Some x \<Rightarrow> if x \<in> set options then x else d)"

definition normalizeCondition :: "condition \<Rightarrow> condition" where
  "normalizeCondition cond =
     (let source = (if c_source cond = Some SOURCE_TIME then SOURCE_TIME
                    else if c_source cond = Some SOURCE_HEADER then SOURCE_HEADER else SOURCE_PARAM)
      in if source = SOURCE_TIME then
           time_cond (pick_mode TIME_FUNCS (c_timeFunc cond) (js ''hour''))
             (or_else (c_timezone cond) (js ''Asia/Shanghai''))
             (pick_mode (getRequestRuleMatchOptions SOURCE_TIME) (c_mode cond) MATCH_GTE)
             (JStr (text_of (c_value cond))) (JStr (text_of (c_rangeStart cond)))
             (JStr (text_of (c_rangeEnd cond)))
         else
           req_cond source (or_else (c_path cond) [])
             (pick_mode (getRequestRuleMatchOptions source) (c_mode cond) MATCH_EQ)
             (JStr (text_of (c_value cond))))"

text \<open>The flat rule of the old presets: a condition with its own multiplier.\<close>

record legacy_rule = condition +
  r_multiplier :: jsval

definition createEmptyRequestRule :: legacy_rule where
  "createEmptyRequestRule = condition.extend createEmptyCondition \<lparr>r_multiplier = JStr []\<rparr>"

definition createEmptyTimeRule :: legacy_rule where
  "createEmptyTimeRule = condition.extend createEmptyTimeCondition \<lparr>r_multiplier = JStr []\<rparr>"

definition normalizeRequestRule :: "legacy_rule \<Rightarrow> legacy_rule" where
  "normalizeRequestRule rule =
     condition.extend (normalizeCondition (condition.truncate rule))
       \<lparr>r_multiplier = JStr (text_of (r_multiplier rule))\<rparr>"

section \<open>Splitting at the top level\<close>

definition depth_step :: "int \<Rightarrow> int \<Rightarrow> int" where
  "depth_step c d = (if c = 40 then d + 1 else if c = 41 then d - 1 else d)"

fun split_top :: "jsstr \<Rightarrow> int \<Rightarrow> jsstr \<Rightarrow> jsstr \<Rightarrow> jsstr list" where
  "split_top sep d cur [] = [trim cur]"
| "split_top sep d cur (c # cs) =
     (let d' = depth_step c d in
      if d' = 0 \<and> startsWith (c # cs) sep
      then trim cur # split_top sep d' [] (drop (length sep - 1) cs)
      else split_top sep d' (cur @ [c]) cs)"

definition splitTopLevelMultiply :: "jsstr \<Rightarrow> jsstr list" where
  "splitTopLevelMultiply e = filter (\<lambda>p. p \<noteq> []) (split_top (js '' * '') 0 [] e)"

definition splitTopLevelAnd :: "jsstr \<Rightarrow> jsstr list" where
  "splitTopLevelAnd e = filter (\<lambda>p. p \<noteq> []) (split_top (js '' && '') 0 [] e)"

section \<open>Literals\<close>

definition parseExprLiteral :: "jsstr \<Rightarrow> jsval" where
  "parseExprLiteral raw =
     (let text = trim raw in
      if text = js ''true'' \<or> text = js ''false'' then JStr text
      else if numeric text then JStr text
      else case json_parse text of Some v \<Rightarrow> v | None \<Rightarrow> JNull)"

definition buildExprLiteral :: "jsstr \<Rightarrow> jsstr \<Rightarrow> jsstr" where
  "buildExprLiteral mode v =
     (let text = trim v in
      if mode = MATCH_CONTAINS then json_quote text
      else if text = js ''true'' \<or> text = js ''false'' then text
      else if numeric text then text
      else json_quote text)"

section \<open>Building the expression\<close>

fun str_of :: "jsval \<Rightarrow> jsstr" where  \<comment> \<open>the text of a field that holds a string\<close>
  "str_of (JStr s) = s"
| "str_of v = js_to_string v"

definition buildTimeConditionExpr :: "condition \<Rightarrow> jsstr" where
  "buildTimeConditionExpr cond =
     (let n = normalizeCondition cond;
          mode = or_else (c_mode n) [];
          fn = or_else (c_timeFunc n) [] @ js ''('' @ json_quote (or_else (c_timezone n) []) @ js '')''
      in if mode = MATCH_RANGE then
           let s = trim (str_of (c_rangeStart n)); e = trim (str_of (c_rangeEnd n)) in
           if \<not> numeric s \<or> \<not> numeric e then []
           else fn @ js '' >= '' @ s @ js '' || '' @ fn @ js '' < '' @ e
         else
           let v = trim (str_of (c_value n)) in
           if \<not> numeric v then []
           else fn @ js '' ''
             @ (if mode = MATCH_EQ then js ''=='' else if mode = MATCH_GTE then js ''>=''
                else if mode = MATCH_LT then js ''<'' else js ''=='') @ js '' '' @ v)"

definition compare_op :: "jsstr \<Rightarrow> jsstr" where
  "compare_op mode = (if mode = MATCH_GT then js ''>'' else if mode = MATCH_GTE then js ''>=''
                      else if mode = MATCH_LT then js ''<'' else js ''<='')"

definition buildRequestConditionExpr :: "condition \<Rightarrow> jsstr" where
  "buildRequestConditionExpr cond =
     (if c_source cond = Some SOURCE_TIME then buildTimeConditionExpr cond
      else let n = normalizeCondition cond; path = trim (or_else (c_path n) []);
               mode = or_else (c_mode n) []; v = str_of (c_value n);
               header = (c_source n = Some SOURCE_HEADER);
               sourceExpr = (if header then js ''header('' @ json_quote path @ js '')''
                             else js ''param('' @ json_quote path @ js '')'')
           in if path = [] then []
              else if mode = MATCH_EXISTS then
                (if header then sourceExpr @ js '' != '' @ [34, 34] else sourceExpr @ js '' != nil'')
              else if mode = MATCH_CONTAINS then
                (if header then js ''has('' @ sourceExpr @ js '', '' @ buildExprLiteral mode v @ js '')''
                 else sourceExpr @ js '' != nil && has('' @ sourceExpr @ js '', ''
                      @ buildExprLiteral mode v @ js '')'')
              else if mode \<in> {MATCH_GT, MATCH_GTE, MATCH_LT, MATCH_LTE} then
                (if \<not> numeric (trim v) then []
                 else sourceExpr @ js '' != nil && '' @ sourceExpr @ js '' '' @ compare_op mode
                      @ js '' '' @ trim v)
              else sourceExpr @ js '' == '' @ buildExprLiteral mode v)"

definition buildRuleGroupFactor :: "rule_group \<Rightarrow> jsstr" where
  "buildRuleGroupFactor grp =
     (let multiplier = trim (g_multiplier grp);
          condExprs = filter (\<lambda>e. e \<noteq> []) (map buildRequestConditionExpr (g_conditions grp))
      in if \<not> numeric multiplier then []
         else if condExprs = [] then []
         else let combined =
                (if length condExprs = 1 then hd condExprs
                 else join (js '' && '')
                   (map (\<lambda>e. if str_includes e (js '' || '') then js ''('' @ e @ js '')'' else e) condExprs))
              in js ''('' @ combined @ js '' ? '' @ multiplier @ js '' : 1)'')"

definition buildRequestRuleExpr :: "rule_group list \<Rightarrow> jsstr" where
  "buildRequestRuleExpr groups =
     join (js '' * '') (filter (\<lambda>f. f \<noteq> []) (map buildRuleGroupFactor groups))"

section \<open>Parsing the expression\<close>

definition rx_time_func :: regex where
  "rx_time_func = RGroup 1 (RAlt (RLit (js ''hour'')) (RAlt (RLit (js ''minute''))
     (RAlt (RLit (js ''weekday'')) (RAlt (RLit (js ''month'')) (RLit (js ''day''))))))"

definition rx_quoted :: "nat \<Rightarrow> regex" where  \<comment> \<open>\<open>([^"]+)\<close>\<close>
  "rx_quoted i = RGroup i (RPlus rx_not_quote)"

definition rx_number :: "nat \<Rightarrow> regex" where  \<comment> \<open>\<open>([\\d.eE+-]+)\<close>\<close>
  "rx_number i = RGroup i (RPlus rx_numchar)"

definition rx_json_string :: "nat \<Rightarrow> regex" where  \<comment> \<open>\<open>((?:"(?:[^"\\]|\\.)*"))\<close>\<close>
  "rx_json_string i = RGroup i (RSeq (RLit [34])
     (RSeq (RStar (RAlt (RSet False [(34, 34), (92, 92)]) (RSeq (RLit [92]) rx_dot))) (RLit [34])))"

definition rx_time_range :: "regex list" where
  "rx_time_range = [rx_time_func, RLit (js ''('' @ [34]), rx_quoted 2, RLit ([34] @ js '') >= ''),
     rx_number 3, RLit (js '' || ''), RBack 1, RLit (js ''('' @ [34]), RBack 2,
     RLit ([34] @ js '') < ''), rx_number 4]"

definition rx_time_simple :: "regex list" where
  "rx_time_simple = [rx_time_func, RLit (js ''('' @ [34]), rx_quoted 2, RLit ([34] @ js '') ''),
     RGroup 3 (RAlt (RLit (js ''=='')) (RAlt (RLit (js ''>='')) (RLit (js ''<'')))),
     RLit (js '' ''), rx_number 4]"

definition tryParseTimeCondition :: "jsstr \<Rightarrow> condition option" where
  "tryParseTimeCondition e =
     (case rx_exec rx_time_range e of
        Some m \<Rightarrow> Some (time_cond (cap m 1) (cap m 2) MATCH_RANGE (JStr []) (JStr (cap m 3)) (JStr (cap m 4)))
      | None \<Rightarrow>
     (case rx_exec ([RLit (js ''('')] @ rx_time_range @ [RLit (js '')'')]) e of
        Some m \<Rightarrow> Some (time_cond (cap m 1) (cap m 2) MATCH_RANGE (JStr []) (JStr (cap m 3)) (JStr (cap m 4)))
      | None \<Rightarrow>
     (case rx_exec rx_time_simple e of
        Some m \<Rightarrow> Some (time_cond (cap m 1) (cap m 2)
          (if cap m 3 = js ''=='' then MATCH_EQ else if cap m 3 = js ''>='' then MATCH_GTE
           else if cap m 3 = js ''<'' then MATCH_LT else MATCH_EQ)
          (JStr (cap m 4)) (JStr []) (JStr []))
      | None \<Rightarrow> None)))"

definition rx_header_exists :: "regex list" where
  "rx_header_exists = [RLit (js ''header('' @ [34]), rx_quoted 1, RLit ([34] @ js '') != '' @ [34, 34])]"

definition rx_param_exists :: "regex list" where
  "rx_param_exists = [RLit (js ''param('' @ [34]), rx_quoted 1, RLit ([34] @ js '') != nil'')]"

definition rx_header_contains :: "regex list" where
  "rx_header_contains = [RLit (js ''has(header('' @ [34]), rx_quoted 1, RLit ([34] @ js ''), ''),
     rx_json_string 2, RLit (js '')'')]"

definition rx_param_contains :: "regex list" where
  "rx_param_contains = [RLit (js ''param('' @ [34]), rx_quoted 1,
     RLit ([34] @ js '') != nil && has(param('' @ [34]), rx_quoted 2, RLit ([34] @ js ''), ''),
     rx_json_string 3, RLit (js '')'')]"

definition rx_param_compare :: "regex list" where
  "rx_param_compare = [RLit (js ''param('' @ [34]), rx_quoted 1,
     RLit ([34] @ js '') != nil && param('' @ [34]), rx_quoted 2, RLit ([34] @ js '') ''),
     RGroup 3 (RAlt (RLit (js ''>'')) (RAlt (RLit (js ''>='')) (RAlt (RLit (js ''<'')) (RLit (js ''<=''))))),
     RLit (js '' ''), rx_number 4]"

definition rx_equals :: "regex list" where
  "rx_equals = [RGroup 1 (RAlt (RLit (js ''param'')) (RLit (js ''header''))), RLit (js ''('' @ [34]),
     rx_quoted 2, RLit ([34] @ js '') == ''), RGroup 3 (RPlus rx_dot)]"

definition contains_cond :: "jsstr \<Rightarrow> jsstr \<Rightarrow> jsstr \<Rightarrow> js_error + condition option" where
  "contains_cond source path lit = (case json_parse lit of
     None \<Rightarrow> Inl SyntaxError
   | Some v \<Rightarrow> Inr (Some (req_cond source path MATCH_CONTAINS v)))"

definition parse_equals :: "jsstr \<Rightarrow> condition option" where
  "parse_equals e =
     (case rx_exec rx_equals e of
        None \<Rightarrow> None
      | Some m \<Rightarrow> let parsedValue = parseExprLiteral (cap m 3) in
          if parsedValue = JNull then None
          else Some (req_cond (cap m 1) (cap m 2) MATCH_EQ (JStr (js_to_string parsedValue))))"

definition parse_compare :: "jsstr \<Rightarrow> condition option" where
  "parse_compare e =
     (case rx_exec rx_param_compare e of
        Some m \<Rightarrow>
          if cap m 1 = cap m 2 then
            Some (req_cond SOURCE_PARAM (cap m 1)
              (if cap m 3 = js ''>'' then MATCH_GT else if cap m 3 = js ''>='' then MATCH_GTE
               else if cap m 3 = js ''<'' then MATCH_LT else MATCH_LTE) (JStr (cap m 4)))
          else parse_equals e
      | None \<Rightarrow> parse_equals e)"

definition tryParseRequestCondition :: "jsstr \<Rightarrow> js_error + condition option" where
  "tryParseRequestCondition e =
     (case tryParseTimeCondition e of
        Some tc \<Rightarrow> Inr (Some tc)
      | None \<Rightarrow>
     (case rx_exec rx_header_exists e of
        Some m \<Rightarrow> Inr (Some (req_cond SOURCE_HEADER (cap m 1) MATCH_EXISTS (JStr [])))
      | None \<Rightarrow>
     (case rx_exec rx_param_exists e of
        Some m \<Rightarrow> Inr (Some (req_cond SOURCE_PARAM (cap m 1) MATCH_EXISTS (JStr [])))
      | None \<Rightarrow>
     (case rx_exec rx_header_contains e of
        Some m \<Rightarrow> contains_cond SOURCE_HEADER (cap m 1) (cap m 2)
      | None \<Rightarrow>
     (case rx_exec rx_param_contains e of
        Some m \<Rightarrow>
          if cap m 1 = cap m 2 then contains_cond SOURCE_PARAM (cap m 1) (cap m 3)
          else Inr (parse_compare e)
      | None \<Rightarrow> Inr (parse_compare e))))))"

fun parse_conditions :: "jsstr list \<Rightarrow> js_error + condition list option" where
  "parse_conditions [] = Inr (Some [])"
| "parse_conditions (ap # aps) =
     (case tryParseRequestCondition (trim ap) of
        Inl x \<Rightarrow> Inl x
      | Inr None \<Rightarrow> Inr None
      | Inr (Some cond) \<Rightarrow>
          (case parse_conditions aps of
             Inr (Some conds) \<Rightarrow> Inr (Some (normalizeCondition cond # conds))
           | r \<Rightarrow> r))"

definition rx_group_factor :: "regex list" where  \<comment> \<open>\<open>/^\\((.+) \\? ([\\d.eE+-]+) : 1\\)$/s\<close>\<close>
  "rx_group_factor = [RLit (js ''(''), RGroup 1 (RPlus rx_any), RLit (js '' ? ''), rx_number 2,
     RLit (js '' : 1)'')]"

definition tryParseRuleGroupFactor :: "jsstr \<Rightarrow> js_error + rule_group option" where
  "tryParseRuleGroupFactor part =
     (case rx_exec rx_group_factor part of
        None \<Rightarrow> Inr None
      | Some m \<Rightarrow>
          (case parse_conditions (splitTopLevelAnd (cap m 1)) of
             Inl x \<Rightarrow> Inl x
           | Inr None \<Rightarrow> Inr None
           | Inr (Some conditions) \<Rightarrow>
               if conditions = [] then Inr None
               else Inr (Some \<lparr>g_conditions = conditions, g_multiplier = cap m 2\<rparr>)))"

fun parse_factors :: "jsstr list \<Rightarrow> js_error + rule_group list option" where
  "parse_factors [] = Inr (Some [])"
| "parse_factors (p # ps) =
     (case tryParseRuleGroupFactor p of
        Inl x \<Rightarrow> Inl x
      | Inr None \<Rightarrow> Inr None
      | Inr (Some g) \<Rightarrow>
          (case parse_factors ps of
             Inr (Some gs) \<Rightarrow> Inr (Some (g # gs))
           | r \<Rightarrow> r))"

definition tryParseRequestRuleExpr :: "jsstr \<Rightarrow> js_error + rule_group list option" where
  "tryParseRequestRuleExpr e =
     (let trimmed = trim e in
      if trimmed = [] then Inr (Some []) else parse_factors (splitTopLevelMultiply trimmed))"

section \<open>Billing expressions\<close>

fun outer_scan :: "int \<Rightarrow> jsstr \<Rightarrow> bool" where
  "outer_scan d [] = (d = 0)"
| "outer_scan d (c # cs) =
     (let d' = depth_step c d in if d' = 0 \<and> cs \<noteq> [] then False else outer_scan d' cs)"

definition hasFullOuterParens :: "jsstr \<Rightarrow> bool" where
  "hasFullOuterParens e =
     (if \<not> startsWith e (js ''('') \<or> \<not> endsWith e (js '')'') then False else outer_scan 0 e)"

function unwrap_loop :: "jsstr \<Rightarrow> jsstr" where
  "unwrap_loop current =
     (if hasFullOuterParens current then unwrap_loop (trim (butlast (tl current))) else current)"
  by pat_completeness auto
termination
proof (relation "measure length")
  fix current :: jsstr
  assume "hasFullOuterParens current"
  then have "current \<noteq> []" by (auto simp: hasFullOuterParens_def js_def split: if_splits)
  then have "length (butlast (tl current)) < length current" by simp
  then show "(trim (butlast (tl current)), current) \<in> measure length"
    using length_trim_le [of "butlast (tl current)"] by simp
qed simp

declare unwrap_loop.simps [simp del]

definition unwrapOuterParens :: "jsstr \<Rightarrow> jsstr" where
  "unwrapOuterParens e = unwrap_loop (trim e)"

definition combineBillingExpr :: "jsstr \<Rightarrow> jsstr \<Rightarrow> jsstr" where
  "combineBillingExpr baseExpr requestRuleExpr =
     (let base = trim baseExpr; rules = trim requestRuleExpr in
      if base = [] then [] else if rules = [] then base
      else js ''('' @ base @ js '') * '' @ rules)"

record split_expr =
  billingExpr :: jsstr
  requestRuleExpr :: jsstr

fun sort_parts :: "jsstr list \<Rightarrow> js_error + jsstr list \<times> jsstr list" where
  "sort_parts [] = Inr ([], [])"
| "sort_parts (p # ps) =
     (case tryParseRequestRuleExpr p of
        Inl x \<Rightarrow> Inl x
      | Inr r \<Rightarrow>
          (case sort_parts ps of
             Inl x \<Rightarrow> Inl x
           | Inr (ruleParts, baseParts) \<Rightarrow>
               if r \<noteq> None \<and> r \<noteq> Some [] then Inr (p # ruleParts, baseParts)
               else Inr (ruleParts, p # baseParts)))"

definition splitBillingExprAndRequestRules :: "jsstr \<Rightarrow> js_error + split_expr" where
  "splitBillingExprAndRequestRules e =
     (let trimmed = trim e in
      if trimmed = [] then Inr \<lparr>billingExpr = [], requestRuleExpr = []\<rparr>
      else let parts = splitTopLevelMultiply trimmed in
        if length parts \<le> 1 then Inr \<lparr>billingExpr = trimmed, requestRuleExpr = []\<rparr>
        else (case sort_parts parts of
            Inl x \<Rightarrow> Inl x
          | Inr (ruleParts, baseParts) \<Rightarrow>
              if ruleParts = [] \<or> length baseParts \<noteq> 1
              then Inr \<lparr>billingExpr = trimmed, requestRuleExpr = []\<rparr>
              else Inr \<lparr>billingExpr = unwrapOuterParens (hd baseParts),
                        requestRuleExpr = join (js '' * '') ruleParts\<rparr>))"

section \<open>The patterns on well-formed texts\<close>

lemma quoted_match:
  assumes "w \<noteq> []" "34 \<notin> set w"
  shows "rx_match (RSeq (rx_quoted i) (RSeq (RLit (34 # l)) k)) (w @ 34 # r, c) =
         rx_match (RSeq (RLit l) k) (r, put_cap i w c)"
  unfolding rx_quoted_def
  by (subst group_plus_det) (use assms in auto)

lemma number_match:
  assumes "w \<noteq> []" "\<forall>x \<in> set w. rx_class rx_numchar x" "rest = [] \<or> \<not> rx_class rx_numchar (hd rest)"
    "\<not> rx_class rx_numchar x"
  shows "rx_match (RSeq (rx_number i) (RSeq (RLit (x # l)) k)) (w @ rest, c) =
         rx_match (RSeq (RLit (x # l)) k) (rest, put_cap i w c)"
  unfolding rx_number_def
proof (rule group_plus_det)
  fix y t c assume "rx_class rx_numchar y"
  then have "y \<noteq> x" using assms(4) by blast
  then show "rx_match (RSeq (RLit (x # l)) k) (y # t, c) = []" by simp
qed (use assms in simp_all)

lemma number_end:
  assumes "w \<noteq> []" "\<forall>x \<in> set w. rx_class rx_numchar x" "rest = [] \<or> \<not> rx_class rx_numchar (hd rest)"
  shows "rx_match (RSeq (rx_number i) REnd) (w @ rest, c) = rx_match REnd (rest, put_cap i w c)"
  unfolding rx_number_def by (rule group_plus_det) (use assms in simp_all)

lemma number_mismatch: "s = [] \<or> \<not> rx_class rx_numchar (hd s) \<Longrightarrow> rx_match (RSeq (rx_number i) k) (s, c) = []"
  unfolding rx_number_def group_match plus_class [of rx_numchar, OF is_class_simps(6)]
  by (cases s) auto

lemma dots_end:
  assumes "s \<noteq> []" "\<forall>x \<in> set s. rx_class rx_dot x"
  shows "rx_match (RSeq (RGroup i (RPlus rx_dot)) REnd) (s, c) = [([], put_cap i s c)]"
  using group_plus_det [of rx_dot s "[]" REnd i c] assms by simp

lemma json_star:
  assumes "34 \<notin> set v" "92 \<notin> set v"
  shows "star_match (\<lambda>(s, c). rx_match (RAlt (RSet False [(34, 34), (92, 92)]) (RSeq (RLit [92]) rx_dot))
      (s, clear_groups [] c)) (length v + n) (v @ 34 # r, c) =
    map (\<lambda>j. (drop j (v @ 34 # r), c)) (rev [0..<Suc (length v)])"
  using assms
proof (induction v)
  case Nil
  show ?case by (cases n) (simp_all add: in_ranges_def)
next
  case (Cons x v)
  have a: "rx_match (RAlt (RSet False [(34, 34), (92, 92)]) (RSeq (RLit [92]) rx_dot)) (x # v @ 34 # r, c)
      = [(v @ 34 # r, c)]"
    using Cons.prems by (auto simp: in_ranges_def)
  have "map (\<lambda>j. (drop j ((x # v) @ 34 # r), c)) (rev [0..<Suc (length (x # v))]) =
      map (\<lambda>j. (drop j (v @ 34 # r), c)) (rev [0..<Suc (length v)]) @ [(x # v @ 34 # r, c)]"
    by (simp only: length_Cons upt_rec [of 0] map_Suc_upt [symmetric] rev.simps rev_map map_append map_map comp_def)
       (simp add: map_Suc_upt [symmetric] rev_map comp_def del: upt_Suc)
  with Cons a show ?case by (simp del: rx_match.simps upt_Suc)
qed

lemma json_string_match:
  assumes "34 \<notin> set v" "92 \<notin> set v"
  shows "rx_match (RSeq (rx_json_string i) k) (34 # v @ 34 # r, c) = rx_match k (r, put_cap i (34 # v @ [34]) c)"
proof -
  let ?q = "RAlt (RSet False [(34, 34), (92, 92)]) (RSeq (RLit [92]) rx_dot)"
  let ?f = "\<lambda>j. rx_match (RLit [34]) (drop j (v @ 34 # r), c)"
  have g: "rx_groups ?q = []" by (simp add: rx_dot_def)
  have "rx_match (RSeq (RStar ?q) (RLit [34])) (v @ 34 # r, c) = concat (map ?f (rev [0..<Suc (length v)]))"
  proof -
    have n: "length (v @ 34 # r) = length v + Suc (length r)" by simp
    show ?thesis
      unfolding rx_match.simps(3,6) fst_conv g n json_star [OF assms]
      by (simp only: map_map comp_def)
  qed
  also have "\<dots> = ?f (length v)"
  proof (rule concat_map_rev_last)
    fix j :: nat assume "j < length v"
    then have "drop j (v @ 34 # r) = v ! j # drop (Suc j) v @ 34 # r" by (simp add: Cons_nth_drop_Suc)
    moreover have "v ! j \<noteq> 34" using assms(1) \<open>j < length v\<close> nth_mem by metis
    ultimately show "?f j = []" by simp
  qed simp
  finally have "rx_match (RSeq (RStar ?q) (RLit [34])) (v @ 34 # r, c) = [(r, c)]" by simp
  then show ?thesis unfolding rx_json_string_def group_match lit_match by simp
qed

lemma numeric_chars: "numeric s \<Longrightarrow> \<forall>x \<in> set s. rx_class rx_numchar x"
proof -
  assume "numeric s"
  then obtain s' c' where "(s', c') \<in> set (rx_match (RSeq NUMERIC_LITERAL_REGEX REnd) (s, []))" 
    by (auto simp: numeric_def rx_test_def rx_at_start_def simp del: rx_match.simps split: list.splits)
  then obtain s1 c1 where m: "(s1, c1) \<in> set (rx_match NUMERIC_LITERAL_REGEX (s, []))" and "s1 = []"
    by (auto split: if_splits)
  have "rx_within (rx_class rx_numchar) NUMERIC_LITERAL_REGEX"
    by (simp add: NUMERIC_LITERAL_REGEX_def in_ranges_def is_digit_def)
  from rx_consumes [OF this m] \<open>s1 = []\<close> show ?thesis by (simp add: list_all_iff)
qed

lemma numeric_nonempty: "\<not> numeric []"
  by code_simp

end
