(* ===== verification/RequestRuleRoundtrip.thy ===== *)
theory RequestRuleRoundtrip
  imports RequestRuleExpr
begin

text \<open>
  What the request rule texts mean to the program: the top-level splitters undo joining, the
  parser undoes the builder on the conditions the visual editor keeps, the split of a billing
  expression undoes the combination, and the two kinds of conditions the parser cannot read
  back.
\<close>

section \<open>Top-level splitting\<close>

text \<open>A text with no separator at depth zero that ends at depth zero.\<close>

fun solid :: "jsstr \<Rightarrow> int \<Rightarrow> jsstr \<Rightarrow> bool" where
  "solid sep d [] = (d = 0)"
| "solid sep d (c # cs) =
     (let d' = depth_step c d in \<not> (d' = 0 \<and> startsWith (c # cs) sep) \<and> solid sep d' cs)"

definition atom :: "jsstr \<Rightarrow> jsstr \<Rightarrow> bool" where
  "atom sep p \<longleftrightarrow> p \<noteq> [] \<and> trimmed p \<and> last p \<notin> set sep \<and> solid sep 0 p"

lemma startsWith_append_cases:
  "startsWith (p @ r) sep \<Longrightarrow> startsWith p sep \<or> (\<exists>x. sep = p @ x)"
  by (induction p sep rule: startsWith.induct) auto

lemma split_top_solid:
  "solid sep d p \<Longrightarrow> p = [] \<or> last p \<notin> set sep \<Longrightarrow>
   split_top sep d cur (p @ r) = split_top sep 0 (cur @ p) r"
proof (induction p arbitrary: d cur)
  case (Cons c cs)
  let ?d = "depth_step c d"
  have "\<not> (?d = 0 \<and> startsWith ((c # cs) @ r) sep)"
  proof
    assume a: "?d = 0 \<and> startsWith ((c # cs) @ r) sep"
    then have "\<exists>x. sep = (c # cs) @ x"
      using startsWith_append_cases [of "c # cs" r sep] Cons.prems(1) by (auto simp: Let_def)
    then have "last (c # cs) \<in> set sep" by auto
    then show False using Cons.prems(2) by simp
  qed
  then have "split_top sep d cur ((c # cs) @ r) = split_top sep ?d (cur @ [c]) (cs @ r)"
    by (simp only: append_Cons split_top.simps Let_def if_False)
  also have "\<dots> = split_top sep 0 ((cur @ [c]) @ cs) r"
    using Cons.prems by (intro Cons.IH) (auto simp: Let_def split: if_splits)
  finally show ?case by simp
qed simp

lemma split_top_sep:
  assumes "sep \<noteq> []" "hd sep \<noteq> 40" "hd sep \<noteq> 41"
  shows "split_top sep 0 cur (sep @ r) = trim cur # split_top sep 0 [] r"
  using assms startsWith_append [of sep r] by (cases sep) (simp_all add: depth_step_def)

lemma split_top_join:
  assumes "sep \<noteq> []" "hd sep \<noteq> 40" "hd sep \<noteq> 41"
  shows "ps \<noteq> [] \<Longrightarrow> (\<And>p. p \<in> set ps \<Longrightarrow> atom sep p) \<Longrightarrow> split_top sep 0 [] (join sep ps) = ps"
  using assms
proof (induction sep ps rule: join.induct)
  case (2 sep w)
  then show ?case using split_top_solid [of sep 0 w "[]" "[]"] by (simp add: atom_def trim_trimmed)
next
  case (3 sep w v ws)
  have w: "atom sep w" using 3 by simp
  then have "split_top sep 0 [] (join sep (w # v # ws)) = split_top sep 0 w (sep @ join sep (v # ws))"
    using split_top_solid [of sep 0 w "[]"] by (simp add: atom_def)
  also have "\<dots> = trim w # split_top sep 0 [] (join sep (v # ws))"
    using 3(4-6) by (rule split_top_sep)
  also have "split_top sep 0 [] (join sep (v # ws)) = v # ws" using 3 by simp
  finally show ?case using w by (simp add: atom_def trim_trimmed)
qed simp_all

text \<open>The contract of a top-level splitter, for its two clients.\<close>

locale top_level_split =
  fixes sep :: jsstr and splits :: "jsstr \<Rightarrow> jsstr list"
  assumes splits_join: "(\<And>p. p \<in> set ps \<Longrightarrow> atom sep p) \<Longrightarrow> splits (join sep ps) = ps"
begin

lemma splits_single: "atom sep p \<Longrightarrow> splits p = [p]"
  using splits_join [of "[p]"] by simp

lemma join_inject:
  "(\<And>p. p \<in> set ps \<union> set qs \<Longrightarrow> atom sep p) \<Longrightarrow> join sep ps = join sep qs \<longleftrightarrow> ps = qs"
  by (metis UnCI splits_join)

end

lemma filtered_split_join:
  assumes "sep \<noteq> []" "hd sep \<noteq> 40" "hd sep \<noteq> 41" and "\<And>p. p \<in> set ps \<Longrightarrow> atom sep p"
  shows "filter (\<lambda>p. p \<noteq> []) (split_top sep 0 [] (join sep ps)) = ps"
proof (cases "ps = []")
  case False
  then show ?thesis using split_top_join [OF assms(1-3) False assms(4)] assms(4)
    by (simp add: filter_id_conv atom_def)
qed simp

interpretation mult: top_level_split "js '' * ''" splitTopLevelMultiply
  by unfold_locales (simp add: splitTopLevelMultiply_def filtered_split_join js_def)

interpretation conj: top_level_split "js '' && ''" splitTopLevelAnd
  by unfold_locales (simp add: splitTopLevelAnd_def filtered_split_join js_def)

section \<open>Balanced texts\<close>

fun scan :: "int \<Rightarrow> jsstr \<Rightarrow> int option" where
  "scan d [] = Some d"
| "scan d (c # cs) = (let d' = depth_step c d in if d' < 0 then None else scan d' cs)"

definition balanced :: "jsstr \<Rightarrow> bool" where
  "balanced s \<longleftrightarrow> scan 0 s = Some 0"

lemma scan_append: "scan d (a @ b) = (case scan d a of None \<Rightarrow> None | Some e \<Rightarrow> scan e b)"
  by (induction a arbitrary: d) (auto simp: Let_def)

lemma depth_step_add: "depth_step c (d + k) = depth_step c d + k"
  by (simp add: depth_step_def)

lemma scan_add: "0 \<le> k \<Longrightarrow> scan d s = Some e \<Longrightarrow> scan (d + k) s = Some (e + k)"
  by (induction s arbitrary: d) (auto simp: Let_def depth_step_add split: if_splits)

lemma scan_no_paren: "40 \<notin> set s \<Longrightarrow> 41 \<notin> set s \<Longrightarrow> 0 \<le> d \<Longrightarrow> scan d s = Some d"
  by (induction s) (auto simp: depth_step_def)

lemma scan_balanced: "balanced s \<Longrightarrow> 0 \<le> d \<Longrightarrow> scan d s = Some d"
  using scan_add [of d 0 s 0] by (simp add: balanced_def)

lemma balanced_append: "balanced a \<Longrightarrow> balanced b \<Longrightarrow> balanced (a @ b)"
  by (simp add: balanced_def scan_append)

lemma balanced_paren: "balanced a \<Longrightarrow> balanced (40 # a @ [41])"
  by (simp add: balanced_def scan_append scan_balanced [unfolded balanced_def] depth_step_def)

lemma balanced_join: "balanced sep \<Longrightarrow> (\<And>p. p \<in> set ps \<Longrightarrow> balanced p) \<Longrightarrow> balanced (join sep ps)"
  by (induction sep ps rule: join.induct) (auto intro!: balanced_append, simp add: balanced_def)

text \<open>Inside a pair of parentheses the depth stays positive.\<close>

lemma solid_inside:
  "scan (d - 1) s = Some 0 \<Longrightarrow> 1 \<le> d \<Longrightarrow> sep \<noteq> [] \<Longrightarrow> hd sep \<noteq> 41 \<Longrightarrow> solid sep d (s @ [41])"
proof (induction s arbitrary: d)
  case Nil
  then show ?case by (cases sep) (simp_all add: depth_step_def)
next
  case (Cons c cs)
  let ?d = "depth_step c d"
  have "depth_step c (d - 1) = ?d - 1" by (simp add: depth_step_def)
  with Cons.prems(1) have "1 \<le> ?d" "scan (?d - 1) cs = Some 0" by (auto simp: Let_def split: if_splits)
  with Cons show ?case by (simp add: Let_def)
qed

lemma outer_inside: "scan (d - 1) s = Some 0 \<Longrightarrow> 1 \<le> d \<Longrightarrow> outer_scan d (s @ [41])"
proof (induction s arbitrary: d)
  case (Cons c cs)
  let ?d = "depth_step c d"
  have "depth_step c (d - 1) = ?d - 1" by (simp add: depth_step_def)
  with Cons.prems(1) have "1 \<le> ?d" "scan (?d - 1) cs = Some 0" by (auto simp: Let_def split: if_splits)
  with Cons show ?case by (simp add: Let_def)
qed (simp add: depth_step_def)

lemma paren_atom:
  assumes "balanced s" "sep \<noteq> []" "40 \<notin> set sep" "41 \<notin> set sep"
  shows "atom sep (40 # s @ [41])"
proof -
  have "hd sep \<noteq> 41" using assms(2,4) by (cases sep) auto
  then have "solid sep 1 (s @ [41])"
    using solid_inside [of 1 s sep] assms by (simp add: balanced_def)
  moreover have "\<not> startsWith (40 # s @ [41]) sep" using assms(2,3) by (cases sep) auto
  ultimately show ?thesis using assms by (simp add: atom_def trimmed_def depth_step_def js_ws_def)
qed

lemma paren_full: "balanced s \<Longrightarrow> hasFullOuterParens (40 # s @ [41])"
  using outer_inside [of 1 s]
  by (simp add: hasFullOuterParens_def endsWith_def js_def balanced_def depth_step_def)

lemma unwrap_paren: "balanced s \<Longrightarrow> unwrapOuterParens (40 # s @ [41]) = unwrapOuterParens s"
proof -
  assume "balanced s"
  moreover have "trim (40 # s @ [41]) = 40 # s @ [41]"
    by (rule trim_trimmed) (simp add: trimmed_def js_ws_def)
  ultimately show ?thesis
    by (simp add: unwrapOuterParens_def unwrap_loop.simps [of "40 # s @ [41]"] paren_full)
qed

text \<open>Without an ampersand there is nothing to split a condition at.\<close>

lemma solid_no_amp: "38 \<notin> set s \<Longrightarrow> scan d s = Some 0 \<Longrightarrow> solid (js '' && '') d s"
proof (induction s arbitrary: d)
  case (Cons c cs)
  have "\<not> startsWith (c # cs) (js '' && '')"
  proof
    assume "startsWith (c # cs) (js '' && '')"
    then obtain r where "c # cs = js '' && '' @ r" using startsWith_iff by blast
    then have "38 \<in> set (c # cs)" by (simp add: js_def)
    then show False using Cons.prems by blast
  qed
  with Cons show ?case by (auto simp: Let_def split: if_splits)
qed simp

lemma amp_atom:
  assumes "s \<noteq> []" "trimmed s" "38 \<notin> set s" "balanced s"
  shows "atom (js '' && '') s"
proof -
  have "last s \<notin> set (js '' && '')"
  proof -
    have "last s \<noteq> 38" using assms(1,3) last_in_set [of s] by metis
    moreover have "last s \<noteq> 32" using assms(1,2) by (auto simp: trimmed_def js_ws_def)
    ultimately show ?thesis by (simp add: js_def)
  qed
  then show ?thesis using assms by (simp add: atom_def balanced_def solid_no_amp)
qed

section \<open>The conditions the editor keeps\<close>

text \<open>
  Texts that need no escape in a JSON string and cannot be taken for the syntax of the
  expression: no quote, backslash, parenthesis, ampersand or bar, no control unit, no
  surrogate, no line separator.
\<close>

definition plain_unit :: "int \<Rightarrow> bool" where
  "plain_unit c \<longleftrightarrow> 32 \<le> c \<and> c < 55296 \<and> c \<notin> {34, 38, 40, 41, 92, 124, 8232, 8233}"

definition plain :: "jsstr \<Rightarrow> bool" where
  "plain s \<longleftrightarrow> list_all plain_unit s \<and> trimmed s"

lemma plain_unit_class: "plain_unit c \<Longrightarrow> rx_class rx_dot c"
  by (simp add: plain_unit_def)

lemma plain_unit_units: "\<not> plain_unit 34" "\<not> plain_unit 38" "\<not> plain_unit 40" "\<not> plain_unit 41"
  "\<not> plain_unit 92" "\<not> plain_unit 124"
  by (simp_all add: plain_unit_def)

lemma plainD:
  assumes "plain s"
  shows "34 \<notin> set s" "38 \<notin> set s" "40 \<notin> set s" "41 \<notin> set s" "92 \<notin> set s" "124 \<notin> set s"
    "\<forall>x \<in> set s. rx_class rx_dot x" "trim s = s" "trimmed s" "units_ok s"
proof -
  have s: "\<forall>x \<in> set s. plain_unit x" using assms by (simp add: plain_def list_all_iff)
  then show "34 \<notin> set s" "38 \<notin> set s" "40 \<notin> set s" "41 \<notin> set s" "92 \<notin> set s" "124 \<notin> set s"
    using plain_unit_units by blast+
  show "\<forall>x \<in> set s. rx_class rx_dot x" using s plain_unit_class by blast
  show t: "trimmed s" using assms by (simp add: plain_def)
  show "trim s = s" by (rule trim_trimmed [OF t])
  have "0 \<le> x \<and> x \<le> 65535" if "plain_unit x" for x using that by (simp add: plain_unit_def)
  then show "units_ok s" using s by (simp add: units_ok_def list_all_iff)
qed

lemma json_quote_plain: "plain s \<Longrightarrow> json_quote s = 34 # s @ [34]"
proof -
  assume "plain s"
  then have "list_all plain_unit s" by (simp add: plain_def)
  then have "json_quote_body s = s"
    by (induction s rule: json_quote_body.induct)
       (simp_all add: json_unit_def plain_unit_def high_surrogate_def low_surrogate_def)
  then show ?thesis by (simp add: json_quote_def)
qed

text \<open>The conditions whose built text the parser reads back.\<close>

inductive canonical :: "condition \<Rightarrow> bool" where
  exists: "source \<in> {SOURCE_PARAM, SOURCE_HEADER} \<Longrightarrow> plain p \<Longrightarrow> p \<noteq> [] \<Longrightarrow>
    canonical (req_cond source p MATCH_EXISTS (JStr []))"
| contains: "plain p \<Longrightarrow> p \<noteq> [] \<Longrightarrow> plain v \<Longrightarrow>
    canonical (req_cond SOURCE_HEADER p MATCH_CONTAINS (JStr v))"
| equals: "source \<in> {SOURCE_PARAM, SOURCE_HEADER} \<Longrightarrow> plain p \<Longrightarrow> p \<noteq> [] \<Longrightarrow> plain v \<Longrightarrow>
    canonical (req_cond source p MATCH_EQ (JStr v))"
| time: "f \<in> set TIME_FUNCS \<Longrightarrow> plain tz \<Longrightarrow> tz \<noteq> [] \<Longrightarrow> mode \<in> {MATCH_EQ, MATCH_GTE, MATCH_LT} \<Longrightarrow>
    numeric v \<Longrightarrow> canonical (time_cond f tz mode (JStr v) (JStr []) (JStr []))"
| range: "f \<in> set TIME_FUNCS \<Longrightarrow> plain tz \<Longrightarrow> tz \<noteq> [] \<Longrightarrow> numeric s \<Longrightarrow> numeric e \<Longrightarrow>
    canonical (time_cond f tz MATCH_RANGE (JStr []) (JStr s) (JStr e))"

lemma numeric_props:
  assumes "numeric s"
  shows "s \<noteq> []" "\<forall>x \<in> set s. rx_class rx_numchar x" "trim s = s" "trimmed s"
    "38 \<notin> set s" "40 \<notin> set s" "41 \<notin> set s" "124 \<notin> set s" "63 \<notin> set s"
proof -
  show ne: "s \<noteq> []" using assms numeric_nonempty by blast
  show c: "\<forall>x \<in> set s. rx_class rx_numchar x" using numeric_chars [OF assms] .
  have "\<not> js_ws x" if "rx_class rx_numchar x" for x
    using that by (auto simp: is_digit_def js_ws_def)
  then show "trim s = s" "trimmed s" using c ne by (auto simp: trim_no_ws trimmed_def)
  show "38 \<notin> set s" "40 \<notin> set s" "41 \<notin> set s" "124 \<notin> set s" "63 \<notin> set s"
    using c by (auto simp: is_digit_def)
qed

lemma normalize_canonical: "canonical c \<Longrightarrow> normalizeCondition c = c"
  by (induction rule: canonical.induct)
     (auto simp: normalizeCondition_def req_cond_def time_cond_def pick_mode_def or_else_def text_of_def
        getRequestRuleMatchOptions_def source_defs match_defs Let_def)

definition source_call :: "jsstr \<Rightarrow> jsstr \<Rightarrow> jsstr" where
  "source_call f p = f @ 40 # 34 # p @ [34, 41]"

lemmas build_unfold = buildRequestConditionExpr_def buildTimeConditionExpr_def Let_def req_cond_def
  time_cond_def or_else_def source_call_def

lemma build_exists:
  assumes "source \<in> {SOURCE_PARAM, SOURCE_HEADER}" "plain p" "p \<noteq> []"
  shows "buildRequestConditionExpr (req_cond source p MATCH_EXISTS (JStr [])) =
    source_call source p @ (if source = SOURCE_HEADER then [32, 33, 61, 32, 34, 34] else js '' != nil'')"
  using assms normalize_canonical [OF canonical.exists [OF assms]]
  by (auto simp: build_unfold plainD json_quote_plain source_defs match_defs js_def)

lemma build_contains:
  assumes "plain p" "p \<noteq> []" "plain v"
  shows "buildRequestConditionExpr (req_cond SOURCE_HEADER p MATCH_CONTAINS (JStr v)) =
    js ''has('' @ source_call SOURCE_HEADER p @ js '', '' @ 34 # v @ [34, 41]"
  using assms normalize_canonical [OF canonical.contains [OF assms]]
  by (auto simp: build_unfold plainD json_quote_plain source_defs match_defs js_def buildExprLiteral_def)

lemma build_equals:
  assumes "source \<in> {SOURCE_PARAM, SOURCE_HEADER}" "plain p" "p \<noteq> []" "plain v"
  shows "buildRequestConditionExpr (req_cond source p MATCH_EQ (JStr v)) =
    source_call source p @ js '' == '' @ buildExprLiteral MATCH_EQ v"
  using assms normalize_canonical [OF canonical.equals [OF assms]]
  by (auto simp: build_unfold plainD json_quote_plain source_defs match_defs js_def)

definition time_op :: "jsstr \<Rightarrow> jsstr" where
  "time_op mode = (if mode = MATCH_EQ then js ''=='' else if mode = MATCH_GTE then js ''>='' else js ''<'')"

lemma time_funcs_nonempty: "[] \<notin> set TIME_FUNCS"
  by (simp add: TIME_FUNCS_def)

lemma build_time:
  assumes "f \<in> set TIME_FUNCS" "plain tz" "tz \<noteq> []" "mode \<in> {MATCH_EQ, MATCH_GTE, MATCH_LT}" "numeric v"
  shows "buildRequestConditionExpr (time_cond f tz mode (JStr v) (JStr []) (JStr [])) =
    source_call f tz @ [32] @ time_op mode @ [32] @ v"
  using assms normalize_canonical [OF canonical.time [OF assms]] time_funcs_nonempty
  by (auto simp: build_unfold plainD json_quote_plain source_defs match_defs js_def numeric_props time_op_def)

lemma build_range:
  assumes "f \<in> set TIME_FUNCS" "plain tz" "tz \<noteq> []" "numeric s" "numeric e"
  shows "buildRequestConditionExpr (time_cond f tz MATCH_RANGE (JStr []) (JStr s) (JStr e)) =
    source_call f tz @ js '' >= '' @ s @ js '' || '' @ source_call f tz @ js '' < '' @ e"
  using assms normalize_canonical [OF canonical.range [OF assms]] time_funcs_nonempty
  by (auto simp: build_unfold plainD json_quote_plain source_defs match_defs js_def numeric_props)

lemma literal_props:
  assumes "plain v"
  shows "parseExprLiteral (buildExprLiteral MATCH_EQ v) = JStr v"
    and "buildExprLiteral MATCH_EQ v \<noteq> []" and "trimmed (buildExprLiteral MATCH_EQ v)"
    and "\<forall>x \<in> set (buildExprLiteral MATCH_EQ v). rx_class rx_dot x \<and> x \<notin> {38, 40, 41, 124}"
proof -
  let ?q = "34 # v @ [34]"
  have q: "json_parse ?q = Some (JStr v)"
    using json_parse_text [of "JStr v"] plainD(10) [OF assms] json_quote_plain [OF assms]
    by (simp add: json_text_def)
  have "\<not> numeric ?q" using numeric_props(2) [of ?q] by (auto simp: is_digit_def)
  moreover have "trim ?q = ?q" by (rule trim_trimmed) (simp add: trimmed_def js_ws_def)
  ultimately show "parseExprLiteral (buildExprLiteral MATCH_EQ v) = JStr v"
    using q plainD [OF assms]
    by (auto simp: parseExprLiteral_def buildExprLiteral_def json_quote_plain [OF assms] match_defs js_def)
  show "buildExprLiteral MATCH_EQ v \<noteq> []" "trimmed (buildExprLiteral MATCH_EQ v)"
    using plainD [OF assms] numeric_props [of v]
    by (auto simp: buildExprLiteral_def json_quote_plain [OF assms] match_defs trimmed_def js_ws_def)
  show "\<forall>x \<in> set (buildExprLiteral MATCH_EQ v). rx_class rx_dot x \<and> x \<notin> {38, 40, 41, 124}"
    using plainD [OF assms]
    by (auto simp: buildExprLiteral_def json_quote_plain [OF assms] match_defs)
qed

section \<open>Reading a condition back\<close>

lemma alt_match: "rx_match (RSeq (RGroup i (RAlt a b)) k) (s, c) =
  concat (map (\<lambda>(s', c'). rx_match k (s', put_cap i (take (length s - length s') s) c')) (rx_match (RAlt a b) (s, c)))"
  by (rule group_match)

lemma back_match: "rx_match (RSeq (RBack i) k) (s, c) =
  (case map_of c i of None \<Rightarrow> rx_match k (s, c)
   | Some w \<Rightarrow> if startsWith s w then rx_match k (drop (length w) s, c) else [])"
  by (simp split: option.splits)

lemma seq_back_match: "startsWith (w @ r) w" "drop (length w) (w @ r) = r"
  by simp_all

lemmas rx_steps = lit_match alt_match back_match end_match rx_exec_def rx_at_start_def cap_def js_def

lemma time_func_mismatch:
  "s = [] \<or> hd s \<notin> {104, 109, 119, 100} \<or> startsWith s [104, 97] \<or> startsWith s [104, 101] \<Longrightarrow>
   rx_match (RSeq rx_time_func k) (s, c) = []"
  by (cases s) (auto simp: rx_time_func_def js_def startsWith_iff)

lemma no_time_head:
  "hd s \<notin> {104, 109, 119, 100, 40} \<or> startsWith s [104, 97] \<or> startsWith s [104, 101] \<Longrightarrow> s \<noteq> [] \<Longrightarrow>
   tryParseTimeCondition s = None"
  by (cases s)
     (auto simp: tryParseTimeCondition_def rx_time_range_def rx_time_simple_def time_func_mismatch
      rx_steps simp del: rx_match.simps)

lemma no_time:
  "tryParseTimeCondition (source_call SOURCE_PARAM p @ r) = None"
  "tryParseTimeCondition (source_call SOURCE_HEADER p @ r) = None"
  "tryParseTimeCondition (js ''has('' @ r) = None"
  by (rule no_time_head; simp add: source_call_def source_defs js_def)+

lemma parse_exists:
  assumes "source \<in> {SOURCE_PARAM, SOURCE_HEADER}" "plain p" "p \<noteq> []"
  shows "tryParseRequestCondition (source_call source p @
      (if source = SOURCE_HEADER then [32, 33, 61, 32, 34, 34] else js '' != nil'')) =
    Inr (Some (req_cond source p MATCH_EXISTS (JStr [])))"
proof -
  note q = quoted_match [OF assms(3) plainD(1) [OF assms(2)]]
  consider "source = SOURCE_PARAM" | "source = SOURCE_HEADER" using assms(1) by blast
  then show ?thesis
  proof cases
    case 1
    then show ?thesis unfolding tryParseRequestCondition_def 1 no_time
      by (simp add: rx_header_exists_def rx_param_exists_def rx_steps
          source_call_def source_defs q del: rx_match.simps)
  next
    case 2
    then show ?thesis unfolding tryParseRequestCondition_def 2 no_time
      by (simp add: rx_header_exists_def rx_param_exists_def rx_steps
          source_call_def source_defs q del: rx_match.simps)
  qed
qed

lemma json_quoted_parse: "plain v \<Longrightarrow> json_parse (34 # v @ [34]) = Some (JStr v)"
  using json_parse_text [of "JStr v"] plainD(10) [of v] json_quote_plain [of v]
  by (simp add: json_text_def)

lemma parse_contains:
  assumes "plain p" "p \<noteq> []" "plain v"
  shows "tryParseRequestCondition (js ''has('' @ source_call SOURCE_HEADER p @ js '', '' @ 34 # v @ [34, 41]) =
    Inr (Some (req_cond SOURCE_HEADER p MATCH_CONTAINS (JStr v)))"
  unfolding tryParseRequestCondition_def no_time
  by (simp add: rx_header_exists_def rx_param_exists_def rx_header_contains_def contains_cond_def
        json_quoted_parse [OF assms(3)] quoted_match [OF assms(2) plainD(1) [OF assms(1)]]
        json_string_match [OF plainD(1,5) [OF assms(3)]]
        rx_steps source_call_def source_defs del: rx_match.simps)

lemma parse_equals_text:
  assumes "source \<in> {SOURCE_PARAM, SOURCE_HEADER}" "plain p" "p \<noteq> []" "plain v"
  shows "tryParseRequestCondition (source_call source p @ js '' == '' @ buildExprLiteral MATCH_EQ v) =
    Inr (Some (req_cond source p MATCH_EQ (JStr v)))"
proof -
  let ?l = "buildExprLiteral MATCH_EQ v"
  have l: "?l \<noteq> []" "\<forall>x \<in> set ?l. rx_class rx_dot x"
    using literal_props [OF assms(4)] by blast+
  note facts = quoted_match [OF assms(3) plainD(1) [OF assms(2)]] dots_end [OF l] literal_props(1) [OF assms(4)]
    rx_header_exists_def rx_param_exists_def rx_header_contains_def rx_param_contains_def
    rx_param_compare_def rx_equals_def parse_compare_def parse_equals_def rx_steps source_call_def source_defs
  consider "source = SOURCE_PARAM" | "source = SOURCE_HEADER" using assms(1) by blast
  then show ?thesis
  proof cases
    case 1
    then show ?thesis unfolding tryParseRequestCondition_def 1 no_time
      by (simp add: facts rx_match.simps(1,4) del: rx_match.simps(3))
  next
    case 2
    then show ?thesis unfolding tryParseRequestCondition_def 2 no_time
      by (simp add: facts rx_match.simps(1,4) del: rx_match.simps(3))
  qed
qed

lemma number_all:
  assumes "numeric w"
  shows "rx_match (RSeq (rx_number i) REnd) (w, c) = [([], put_cap i w c)]"
    and "\<not> rx_class rx_numchar x \<Longrightarrow> rx_match (RSeq (rx_number i) (RSeq (RLit (x # l)) k)) (w, c) = []"
  using number_end [OF numeric_props(1,2) [OF assms], of "[]"]
    number_match [OF numeric_props(1,2) [OF assms], of "[]"]
  by simp_all

lemma time_func_match:
  assumes "f \<in> set TIME_FUNCS"
  shows "rx_match (RSeq rx_time_func k) (f @ 40 # r, c) = rx_match k (40 # r, put_cap 1 f c)"
proof -
  consider "f = js ''hour''" | "f = js ''minute''" | "f = js ''weekday''" | "f = js ''month''" | "f = js ''day''"
    using assms by (auto simp: TIME_FUNCS_def)
  then show ?thesis
    unfolding rx_time_func_def alt_match
    by cases (simp_all add: js_def)
qed

lemma time_func_paren: "rx_match (RSeq rx_time_func k) (40 # r, c) = []"
  by (rule time_func_mismatch) simp

lemma time_func_head: "f \<in> set TIME_FUNCS \<Longrightarrow> \<exists>x xs. f = x # xs \<and> x \<noteq> 40"
  by (auto simp: TIME_FUNCS_def js_def)

lemma parse_time:
  assumes "f \<in> set TIME_FUNCS" "plain tz" "tz \<noteq> []" "mode \<in> {MATCH_EQ, MATCH_GTE, MATCH_LT}" "numeric v"
  shows "tryParseTimeCondition (source_call f tz @ [32] @ time_op mode @ [32] @ v) =
    Some (time_cond f tz mode (JStr v) (JStr []) (JStr []))"
proof -
  have np: "startsWith (f @ r) [40] = False" for r using time_func_head [OF assms(1)] by auto
  note nums = number_all [OF assms(5)]
  note facts = quoted_match [OF assms(3) plainD(1) [OF assms(2)]] time_func_match [OF assms(1)] np nums
    tryParseTimeCondition_def rx_time_range_def rx_time_simple_def rx_steps source_call_def time_op_def match_defs
    is_digit_def number_mismatch
  consider "mode = MATCH_EQ" | "mode = MATCH_GTE" | "mode = MATCH_LT" using assms(4) by blast
  then show ?thesis
    by cases (simp_all add: facts rx_match.simps(1,4) del: rx_match.simps(3,5,6,7))
qed

lemma parse_range:
  assumes "f \<in> set TIME_FUNCS" "plain tz" "tz \<noteq> []" "numeric s" "numeric e"
  shows "tryParseTimeCondition (source_call f tz @ js '' >= '' @ s @ js '' || '' @ source_call f tz @ js '' < '' @ e) =
      Some (time_cond f tz MATCH_RANGE (JStr []) (JStr s) (JStr e))" (is ?A)
    and "tryParseTimeCondition (40 # (source_call f tz @ js '' >= '' @ s @ js '' || '' @ source_call f tz @ js '' < '' @ e) @ [41]) =
      Some (time_cond f tz MATCH_RANGE (JStr []) (JStr s) (JStr e))" (is ?B)
proof -
  note nums = number_match [OF numeric_props(1,2) [OF assms(4)]]
     number_all [OF assms(5)] number_match [OF numeric_props(1,2) [OF assms(5)]]
  note facts = quoted_match [OF assms(3) plainD(1) [OF assms(2)]] time_func_match [OF assms(1)] nums
    tryParseTimeCondition_def rx_time_range_def rx_steps source_call_def match_defs is_digit_def time_func_paren
  show ?A by (simp add: facts del: rx_match.simps)
  show ?B by (simp add: facts del: rx_match.simps)
qed

lemma greedy_any_match:
  assumes "\<And>j c. length w < j \<Longrightarrow> j \<le> length (w @ rest) \<Longrightarrow> rx_match k (drop j (w @ rest), c) = []"
    and "w \<noteq> []" and "rx_match k (rest, put_cap i w c) = st # sts"
  shows "\<exists>tl. rx_match (RSeq (RGroup i (RPlus rx_any)) k) (w @ rest, c) = st # tl"
proof -
  let ?s = "w @ rest"
  let ?f = "\<lambda>j. rx_match k (drop j ?s, put_cap i (take (length ?s - length (drop j ?s)) ?s) c)"
  have tw: "takeWhile (rx_class rx_any) ?s = ?s" by (simp add: takeWhile_eq_all_conv)
  have "rx_match (RSeq (RGroup i (RPlus rx_any)) k) (?s, c) = concat (map ?f (rev [1..<Suc (length ?s)]))"
    unfolding group_match plus_class [of rx_any, OF is_class_simps(5)] tw by (simp only: map_map comp_def prod.case)
  also have "[1..<Suc (length ?s)] = [1..<length w] @ [length w] @ [Suc (length w)..<Suc (length ?s)]"
    using assms(2) upt_add_eq_append [of 1 "length w" "Suc (length rest)"]
    by (cases w) (simp_all add: upt_rec [of "Suc _"] del: upt_Suc)
  also have "concat (map ?f (rev \<dots>)) = concat (map ?f (rev [Suc (length w)..<Suc (length ?s)])) @ ?f (length w)
      @ concat (map ?f (rev [1..<length w]))"
    by (simp del: upt_Suc)
  also have "concat (map ?f (rev [Suc (length w)..<Suc (length ?s)])) = []"
  proof -
    have "?f j = []" if "j \<in> set [Suc (length w)..<Suc (length ?s)]" for j
      using that by (intro assms(1)) (auto simp del: upt_Suc)
    then show ?thesis unfolding concat_eq_Nil_conv set_map set_rev by blast
  qed
  also have "?f (length w) = st # sts" using assms(3) by simp
  finally show ?thesis by simp
qed

text \<open>The factor pattern takes the last question mark.\<close>

lemma factor_rest_head:
  assumes "rx_match (rx_seq [RLit (js '' ? ''), rx_number 2, RLit (js '' : 1)''), REnd]) (s, c) \<noteq> []"
  shows "63 \<in> set s \<and> hd s = 32 \<and> tl s \<noteq> [] \<and> hd (tl s) = 63"
  using assms by (auto simp: lit_match js_def startsWith_iff simp del: rx_match.simps split: if_splits)

lemma factor_tail_drop:
  assumes "numeric m" and "0 < j"
  shows "63 \<notin> set (tl (drop j (js '' ? '' @ m @ js '' : 1)'')))"
proof -
  have "63 \<notin> set (js '' '' @ m @ js '' : 1)'')" using numeric_props(9) [OF assms(1)] by (simp add: js_def)
  moreover have "set (tl (drop j (js '' ? '' @ m @ js '' : 1)''))) \<subseteq> set (js '' '' @ m @ js '' : 1)'')"
  proof -
    have "tl (drop j (js '' ? '' @ m @ js '' : 1)'')) = drop (j - 1) (js '' '' @ m @ js '' : 1)'')"
      using assms(2) by (cases j) (simp_all add: js_def drop_Suc [symmetric] tl_drop)
    then show ?thesis by (simp only: set_drop_subset)
  qed
  ultimately show ?thesis by blast
qed

lemma exec_factor:
  assumes "numeric m" and "w \<noteq> []"
  shows "\<exists>cs. rx_exec rx_group_factor (40 # w @ js '' ? '' @ m @ js '' : 1)'') = Some cs \<and> cap cs 1 = w \<and> cap cs 2 = m"
proof -
  let ?k = "rx_seq [RLit (js '' ? ''), rx_number 2, RLit (js '' : 1)''), REnd]"
  let ?rest = "js '' ? '' @ m @ js '' : 1)''"
  have ends: "rx_match ?k (?rest, c) = [([], put_cap 2 m c)]" for c
    using number_match [OF numeric_props(1,2) [OF assms(1)], of "js '' : 1)''" 32]
    by (simp add: lit_match end_match js_def is_digit_def del: rx_match.simps)
  have "rx_match ?k (drop j (w @ ?rest), c) = []" if "length w < j" for j c
  proof (rule ccontr)
    assume "rx_match ?k (drop j (w @ ?rest), c) \<noteq> []"
    from factor_rest_head [OF this] hd_in_set [of "tl (drop j (w @ ?rest))"]
    have "63 \<in> set (tl (drop j (w @ ?rest)))" by metis
    moreover have "drop j (w @ ?rest) = drop (j - length w) ?rest" using that by simp
    ultimately show False using factor_tail_drop [OF assms(1), of "j - length w"] that by simp
  qed
  then obtain ts where "rx_match (RSeq (RGroup 1 (RPlus rx_any)) ?k) (w @ ?rest, []) = ([], put_cap 2 m (put_cap 1 w [])) # ts"
    using greedy_any_match [of w ?rest ?k 1 "[]"] assms(2) ends by blast
  then show ?thesis
    by (simp add: rx_exec_def rx_at_start_def rx_group_factor_def lit_match cap_def js_def del: rx_match.simps)
qed

lemma balanced_no_paren: "40 \<notin> set s \<Longrightarrow> 41 \<notin> set s \<Longrightarrow> balanced s"
  by (simp add: balanced_def scan_no_paren)

lemma balanced_call:
  assumes "40 \<notin> set f" "41 \<notin> set f" "plain p"
  shows "balanced (source_call f p)"
proof -
  have "balanced (34 # p @ [34])" using plainD [OF assms(3)] by (intro balanced_no_paren) auto
  then have "balanced (f @ 40 # (34 # p @ [34]) @ [41])"
    by (intro balanced_append [OF balanced_no_paren balanced_paren] assms)
  then show ?thesis by (simp add: source_call_def)
qed

lemma time_func_chars: "f \<in> set TIME_FUNCS \<Longrightarrow> c \<in> set f \<Longrightarrow> 97 \<le> c \<and> c \<le> 122"
  by (auto simp: TIME_FUNCS_def js_def)

lemma source_chars: "f \<in> {SOURCE_PARAM, SOURCE_HEADER} \<Longrightarrow> c \<in> set f \<Longrightarrow> 97 \<le> c \<and> c \<le> 122"
  by (auto simp: source_defs js_def)

lemma call_facts:
  assumes "\<And>c. c \<in> set f \<Longrightarrow> 97 \<le> c \<and> c \<le> 122" "f \<noteq> []" "plain p"
  shows "balanced (source_call f p)" "38 \<notin> set (source_call f p)" "124 \<notin> set (source_call f p)"
    "\<not> js_ws (hd (source_call f p @ r))" "source_call f p \<noteq> []"
proof -
  have no: "c \<notin> set f" if "c < 97 \<or> 122 < c" for c using assms(1) [of c] that by auto
  show "balanced (source_call f p)" by (intro balanced_call no assms) simp_all
  show "38 \<notin> set (source_call f p)" "124 \<notin> set (source_call f p)"
    using plainD [OF assms(3)] no [of 38] no [of 124] by (auto simp: source_call_def)
  have "97 \<le> hd f" "hd f \<le> 122" using assms(1) [of "hd f"] assms(2) by auto
  then show "\<not> js_ws (hd (source_call f p @ r))" using assms(2) by (simp add: source_call_def js_ws_def)
  show "source_call f p \<noteq> []" by (simp add: source_call_def)
qed

lemma trimmed_call: "\<not> js_ws (hd (s @ r)) \<Longrightarrow> s \<noteq> [] \<Longrightarrow> r \<noteq> [] \<Longrightarrow> \<not> js_ws (last r) \<Longrightarrow> trimmed (s @ r)"
  by (simp add: trimmed_def)


text \<open>What the splitters and the parser need of the text of a condition.\<close>

definition readable :: "condition \<Rightarrow> jsstr \<Rightarrow> bool" where
  "readable c e \<longleftrightarrow> e \<noteq> [] \<and> trimmed e \<and> 38 \<notin> set e \<and> balanced e
     \<and> tryParseRequestCondition e = Inr (Some c)"

lemma readable_call:
  assumes "\<And>c. c \<in> set f \<Longrightarrow> 97 \<le> c \<and> c \<le> 122" "f \<noteq> []" "plain p"
    and "r \<noteq> []" "\<not> js_ws (last r)" "38 \<notin> set r" "balanced r"
    and "tryParseRequestCondition (source_call f p @ r) = Inr (Some c)"
  shows "readable c (source_call f p @ r)"
  using assms call_facts [OF assms(1-3)] unfolding readable_def
  by (auto intro!: balanced_append trimmed_call)

lemma last_not_ws:
  "numeric v \<Longrightarrow> \<not> js_ws (last v)"
  "plain v \<Longrightarrow> \<not> js_ws (last (buildExprLiteral MATCH_EQ v))"
  using numeric_props(1,4) [of v] literal_props(2,3) [of v] by (auto simp: trimmed_def)

lemma no_bars: "124 \<notin> set e \<Longrightarrow> \<not> str_includes e (js '' || '')"
  by (auto simp: str_includes_iff js_def)

lemma readable_exists:
  assumes "source \<in> {SOURCE_PARAM, SOURCE_HEADER}" "plain p" "p \<noteq> []"
  defines "c \<equiv> req_cond source p MATCH_EXISTS (JStr [])"
  shows "readable c (buildRequestConditionExpr c)" "124 \<notin> set (buildRequestConditionExpr c)"
proof -
  have f: "source \<noteq> []" using assms(1) by (auto simp: source_defs)
  note sc = source_chars [OF assms(1)]
  show "readable c (buildRequestConditionExpr c)"
    unfolding c_def build_exists [OF assms(1-3)]
    by (rule readable_call [OF sc f assms(2) _ _ _ balanced_no_paren parse_exists [OF assms(1-3)]])
       (auto simp: js_def js_ws_def)
  show "124 \<notin> set (buildRequestConditionExpr c)"
    unfolding c_def build_exists [OF assms(1-3)] using call_facts(3) [OF sc f assms(2)] by (auto simp: js_def)
qed

lemma readable_equals:
  assumes "source \<in> {SOURCE_PARAM, SOURCE_HEADER}" "plain p" "p \<noteq> []" "plain v"
  defines "c \<equiv> req_cond source p MATCH_EQ (JStr v)"
  shows "readable c (buildRequestConditionExpr c)" "124 \<notin> set (buildRequestConditionExpr c)"
proof -
  have f: "source \<noteq> []" using assms(1) by (auto simp: source_defs)
  note sc = source_chars [OF assms(1)]
  have l: "38 \<notin> set (buildExprLiteral MATCH_EQ v)" "40 \<notin> set (buildExprLiteral MATCH_EQ v)"
    "41 \<notin> set (buildExprLiteral MATCH_EQ v)" "124 \<notin> set (buildExprLiteral MATCH_EQ v)"
    using literal_props(4) [OF assms(4)] by blast+
  show "readable c (buildRequestConditionExpr c)"
    unfolding c_def build_equals [OF assms(1-4)]
    by (rule readable_call [OF sc f assms(2) _ _ _ balanced_no_paren parse_equals_text [OF assms(1-4)]])
       (use l literal_props(2) [OF assms(4)] last_not_ws(2) [OF assms(4)] in \<open>simp_all add: js_def\<close>)
  show "124 \<notin> set (buildRequestConditionExpr c)"
    unfolding c_def build_equals [OF assms(1-4)] using call_facts(3) [OF sc f assms(2)] l by (simp add: js_def)
qed

lemma readable_contains:
  assumes "plain p" "p \<noteq> []" "plain v"
  defines "c \<equiv> req_cond SOURCE_HEADER p MATCH_CONTAINS (JStr v)"
  shows "readable c (buildRequestConditionExpr c)" "124 \<notin> set (buildRequestConditionExpr c)"
proof -
  have f: "SOURCE_HEADER \<noteq> []" by (simp add: source_defs)
  note sc = call_facts [OF source_chars [of SOURCE_HEADER] f assms(1)]
  let ?e = "js ''has('' @ source_call SOURCE_HEADER p @ js '', '' @ 34 # v @ [34, 41]"
  have "balanced (source_call SOURCE_HEADER p @ js '', '' @ 34 # v @ [34])"
    using plainD [OF assms(3)] by (intro balanced_append [OF sc(1) balanced_no_paren]) (auto simp: js_def)
  then have "balanced (js ''has'' @ 40 # (source_call SOURCE_HEADER p @ js '', '' @ 34 # v @ [34]) @ [41])"
    by (intro balanced_append [OF balanced_no_paren balanced_paren]) (auto simp: js_def)
  then have b: "balanced ?e" by (simp add: js_def)
  show "readable c (buildRequestConditionExpr c)"
    unfolding c_def build_contains [OF assms(1-3)] readable_def
    using parse_contains [OF assms(1-3)] b sc(2) plainD(2) [OF assms(3)]
    by (simp add: js_def trimmed_def js_ws_def)
  show "124 \<notin> set (buildRequestConditionExpr c)"
    unfolding c_def build_contains [OF assms(1-3)] using sc(3) plainD(6) [OF assms(3)] by (simp add: js_def)
qed

lemma readable_time:
  assumes "f \<in> set TIME_FUNCS" "plain tz" "tz \<noteq> []" "mode \<in> {MATCH_EQ, MATCH_GTE, MATCH_LT}" "numeric v"
  defines "c \<equiv> time_cond f tz mode (JStr v) (JStr []) (JStr [])"
  shows "readable c (buildRequestConditionExpr c)" "124 \<notin> set (buildRequestConditionExpr c)"
proof -
  have f: "f \<noteq> []" using time_func_head [OF assms(1)] by blast
  have op: "38 \<notin> set (time_op mode)" "40 \<notin> set (time_op mode)" "41 \<notin> set (time_op mode)" "124 \<notin> set (time_op mode)"
    by (auto simp: time_op_def js_def)
  note fc = time_func_chars [OF assms(1)]
  show "readable c (buildRequestConditionExpr c)"
    unfolding c_def build_time [OF assms(1-5)]
    by (rule readable_call [OF fc f assms(2) _ _ _ balanced_no_paren])
       (use op numeric_props [OF assms(5)] last_not_ws(1) [OF assms(5)] parse_time [OF assms(1-5)]
         in \<open>simp_all add: tryParseRequestCondition_def\<close>)
  show "124 \<notin> set (buildRequestConditionExpr c)"
    unfolding c_def build_time [OF assms(1-5)]
    using call_facts(3) [OF fc f assms(2)] op numeric_props(8) [OF assms(5)] by simp
qed

lemma readable_range:
  assumes "f \<in> set TIME_FUNCS" "plain tz" "tz \<noteq> []" "numeric s" "numeric e"
  defines "c \<equiv> time_cond f tz MATCH_RANGE (JStr []) (JStr s) (JStr e)"
  shows "readable c (buildRequestConditionExpr c)" "readable c (40 # buildRequestConditionExpr c @ [41])"
    "str_includes (buildRequestConditionExpr c) (js '' || '')"
proof -
  let ?c = "source_call f tz"
  let ?e = "?c @ js '' >= '' @ s @ js '' || '' @ ?c @ js '' < '' @ e"
  have f: "f \<noteq> []" using time_func_head [OF assms(1)] by blast
  note fc = call_facts [OF time_func_chars [OF assms(1)] f assms(2)]
  have "balanced ((?c @ (js '' >= '' @ s @ js '' || '')) @ ?c @ (js '' < '' @ e))"
    using numeric_props [OF assms(4)] numeric_props [OF assms(5)]
    by (intro balanced_append balanced_no_paren [of "js '' >= '' @ s @ js '' || ''"]
        balanced_no_paren [of "js '' < '' @ e"] fc(1)) (auto simp: js_def)
  then have b: "balanced ?e" by simp
  have n: "38 \<notin> set ?e" using fc(2) numeric_props(5) assms(4,5) by (auto simp: js_def)
  have t: "trimmed ?e"
    using last_not_ws(1) [OF assms(5)] numeric_props(1) [OF assms(5)] by (intro trimmed_call fc) simp_all
  show "readable c (buildRequestConditionExpr c)" "readable c (40 # buildRequestConditionExpr c @ [41])"
    unfolding c_def build_range [OF assms(1-5)] readable_def
    using b n t parse_range [OF assms(1-5)] balanced_paren [OF b] fc(5)
    by (simp_all add: tryParseRequestCondition_def trimmed_def js_ws_def)
  have "?e = (?c @ js '' >= '' @ s) @ js '' || '' @ (?c @ js '' < '' @ e)" by simp
  then show "str_includes (buildRequestConditionExpr c) (js '' || '')"
    unfolding c_def build_range [OF assms(1-5)] str_includes_iff by blast
qed

definition wrap_or :: "jsstr \<Rightarrow> jsstr" where
  "wrap_or e = (if str_includes e (js '' || '') then js ''('' @ e @ js '')'' else e)"

lemma canonical_readable:
  assumes "canonical c"
  shows "readable c (buildRequestConditionExpr c)" "readable c (wrap_or (buildRequestConditionExpr c))"
proof -
  have "readable c (buildRequestConditionExpr c) \<and> readable c (wrap_or (buildRequestConditionExpr c))"
    using assms
  proof cases
    case (exists source p)
    then show ?thesis using readable_exists [of source p] by (simp add: wrap_or_def no_bars)
  next
    case (contains p v)
    then show ?thesis using readable_contains [of p v] by (simp add: wrap_or_def no_bars)
  next
    case (equals source p v)
    then show ?thesis using readable_equals [of source p v] by (simp add: wrap_or_def no_bars)
  next
    case (time f tz mode v)
    then show ?thesis using readable_time [of f tz mode v] by (simp add: wrap_or_def no_bars)
  next
    case (range f tz s e)
    then show ?thesis using readable_range [of f tz s e] by (simp add: wrap_or_def js_def)
  qed
  then show "readable c (buildRequestConditionExpr c)" "readable c (wrap_or (buildRequestConditionExpr c))" by blast+
qed

section \<open>Groups\<close>

definition canonical_group :: "rule_group \<Rightarrow> bool" where
  "canonical_group g \<longleftrightarrow> g_conditions g \<noteq> [] \<and> (\<forall>c \<in> set (g_conditions g). canonical c) \<and> numeric (g_multiplier g)"

text \<open>The texts between the ampersands of a group.\<close>

definition condition_texts :: "rule_group \<Rightarrow> jsstr list" where
  "condition_texts g =
     (if length (g_conditions g) = 1 then map buildRequestConditionExpr (g_conditions g)
      else map (wrap_or \<circ> buildRequestConditionExpr) (g_conditions g))"

lemma condition_texts_readable:
  "canonical_group g \<Longrightarrow> list_all2 readable (g_conditions g) (condition_texts g)"
  using canonical_readable
  by (auto simp: canonical_group_def condition_texts_def list_all2_conv_all_nth)

lemma readable_atom: "readable c e \<Longrightarrow> atom (js '' && '') e"
  by (simp add: readable_def amp_atom)

lemma texts_props:
  assumes "canonical_group g"
  shows "condition_texts g \<noteq> []" "e \<in> set (condition_texts g) \<Longrightarrow> atom (js '' && '') e"
    "e \<in> set (condition_texts g) \<Longrightarrow> balanced e"
proof -
  have r: "\<exists>c. readable c e" if "e \<in> set (condition_texts g)" for e
    using condition_texts_readable [OF assms] that by (auto simp: list_all2_conv_all_nth in_set_conv_nth)
  show "condition_texts g \<noteq> []" using assms by (simp add: canonical_group_def condition_texts_def)
  show "e \<in> set (condition_texts g) \<Longrightarrow> atom (js '' && '') e" using r readable_atom by blast
  show "e \<in> set (condition_texts g) \<Longrightarrow> balanced e" using r by (auto simp: readable_def)
qed

lemma build_factor:
  assumes "canonical_group g"
  shows "buildRuleGroupFactor g =
    40 # join (js '' && '') (condition_texts g) @ js '' ? '' @ g_multiplier g @ js '' : 1)''"
proof -
  have ne: "buildRequestConditionExpr c \<noteq> []" if "c \<in> set (g_conditions g)" for c
    using that assms canonical_readable(1) [of c] by (auto simp: canonical_group_def readable_def)
  then have f: "filter (\<lambda>e. e \<noteq> []) (map buildRequestConditionExpr (g_conditions g)) =
      map buildRequestConditionExpr (g_conditions g)"
    by (simp add: filter_id_conv)
  have m: "numeric (g_multiplier g)" "trim (g_multiplier g) = g_multiplier g"
    using assms numeric_props(3) by (auto simp: canonical_group_def)
  have one: "condition_texts g = [e] \<and> join s [e] = e" if "map buildRequestConditionExpr (g_conditions g) = [e]" for e s
    using that by (auto simp: condition_texts_def)
  show ?thesis
    using assms m
    by (cases "length (g_conditions g) = 1")
       (auto simp: buildRuleGroupFactor_def Let_def f canonical_group_def condition_texts_def wrap_or_def
         length_Suc_conv comp_def js_def)
qed

lemma parse_condition_texts:
  "list_all2 readable cs es \<Longrightarrow> (\<And>c. c \<in> set cs \<Longrightarrow> canonical c) \<Longrightarrow> parse_conditions es = Inr (Some cs)"
proof (induction rule: list_all2_induct)
  case (Cons c cs e es)
  then have "tryParseRequestCondition (trim e) = Inr (Some c)" by (simp add: readable_def trim_trimmed)
  with Cons show ?case by (simp add: normalize_canonical)
qed simp

lemma join_nonempty: "ws \<noteq> [] \<Longrightarrow> hd ws \<noteq> [] \<Longrightarrow> join sep ws \<noteq> []"
  using join_head by blast

lemma parse_built_factor:
  assumes "canonical_group g"
  shows "tryParseRuleGroupFactor (buildRuleGroupFactor g) = Inr (Some g)"
proof -
  note tx = texts_props [OF assms]
  have "hd (condition_texts g) \<noteq> []" using tx(1) tx(2) [of "hd (condition_texts g)"] by (simp add: atom_def)
  then have ne: "join (js '' && '') (condition_texts g) \<noteq> []" by (rule join_nonempty [OF tx(1)])
  have m: "numeric (g_multiplier g)" using assms by (simp add: canonical_group_def)
  obtain cs where "rx_exec rx_group_factor (buildRuleGroupFactor g) = Some cs"
    "cap cs 1 = join (js '' && '') (condition_texts g)" "cap cs 2 = g_multiplier g"
    using exec_factor [OF m ne] unfolding build_factor [OF assms] by blast
  moreover have "parse_conditions (condition_texts g) = Inr (Some (g_conditions g))"
    using parse_condition_texts [OF condition_texts_readable [OF assms]] assms by (auto simp: canonical_group_def)
  ultimately show ?thesis
    using assms by (simp add: tryParseRuleGroupFactor_def conj.splits_join [OF tx(2)] canonical_group_def)
qed

lemma factor_atom:
  assumes "canonical_group g"
  shows "atom (js '' * '') (buildRuleGroupFactor g)"
proof -
  have m: "numeric (g_multiplier g)" using assms by (simp add: canonical_group_def)
  have "balanced (join (js '' && '') (condition_texts g) @ js '' ? '' @ g_multiplier g @ js '' : 1'')"
    using numeric_props(6,7) [OF m]
    by (intro balanced_append [OF balanced_join [OF balanced_no_paren texts_props(3) [OF assms]] balanced_no_paren])
       (auto simp: js_def)
  from paren_atom [OF this, of "js '' * ''"] show ?thesis
    unfolding build_factor [OF assms] by (simp add: js_def)
qed

lemma parse_built_factors:
  "(\<And>g. g \<in> set gs \<Longrightarrow> canonical_group g) \<Longrightarrow> parse_factors (map buildRuleGroupFactor gs) = Inr (Some gs)"
  by (induction gs) (simp_all add: parse_built_factor)

lemma build_rules:
  "(\<And>g. g \<in> set gs \<Longrightarrow> canonical_group g) \<Longrightarrow>
   buildRequestRuleExpr gs = join (js '' * '') (map buildRuleGroupFactor gs)"
proof -
  assume "\<And>g. g \<in> set gs \<Longrightarrow> canonical_group g"
  then have "filter (\<lambda>f. f \<noteq> []) (map buildRuleGroupFactor gs) = map buildRuleGroupFactor gs"
    by (auto simp: filter_id_conv build_factor)
  then show ?thesis by (simp add: buildRequestRuleExpr_def)
qed

lemma join_last: "\<forall>w \<in> set ws. w \<noteq> [] \<Longrightarrow> ws \<noteq> [] \<Longrightarrow> join sep ws \<noteq> [] \<and> last (join sep ws) = last (last ws)"
  by (induction sep ws rule: join.induct) auto

lemma join_atoms_trimmed:
  assumes "ps \<noteq> []" "\<And>p. p \<in> set ps \<Longrightarrow> atom sep p"
  shows "join sep ps \<noteq> []" "trim (join sep ps) = join sep ps"
proof -
  have h: "hd ps \<noteq> []" "trimmed (hd ps)" "last ps \<noteq> []" "trimmed (last ps)"
    using assms(2) [of "hd ps"] assms(2) [of "last ps"] assms(1) by (auto simp: atom_def)
  show ne: "join sep ps \<noteq> []" by (rule join_nonempty [OF assms(1) h(1)])
  have "trimmed (join sep ps)"
    using h join_head [OF assms(1) h(1), of sep] join_last [of ps sep] assms
    by (auto simp: trimmed_def atom_def)
  then show "trim (join sep ps) = join sep ps" by (rule trim_trimmed)
qed

section \<open>Properties\<close>

lemma parse_built_rules:
  assumes "\<And>g. g \<in> set gs \<Longrightarrow> canonical_group g"
  shows "tryParseRequestRuleExpr (buildRequestRuleExpr gs) = Inr (Some gs)"
proof (cases "gs = []")
  case True
  then show ?thesis by (simp add: tryParseRequestRuleExpr_def buildRequestRuleExpr_def)
next
  case False
  have at: "\<And>p. p \<in> set (map buildRuleGroupFactor gs) \<Longrightarrow> atom (js '' * '') p"
    using assms factor_atom by auto
  have fs: "map buildRuleGroupFactor gs \<noteq> []" using False by simp
  have j: "join (js '' * '') (map buildRuleGroupFactor gs) \<noteq> []"
    "trim (join (js '' * '') (map buildRuleGroupFactor gs)) = join (js '' * '') (map buildRuleGroupFactor gs)"
    "splitTopLevelMultiply (join (js '' * '') (map buildRuleGroupFactor gs)) = map buildRuleGroupFactor gs"
    by (rule join_atoms_trimmed [OF fs], erule at) (rule join_atoms_trimmed [OF fs], erule at, rule mult.splits_join, erule at)
  have b: "buildRequestRuleExpr gs = join (js '' * '') (map buildRuleGroupFactor gs)"
    using assms by (rule build_rules)
  have "parse_factors (map buildRuleGroupFactor gs) = Inr (Some gs)" using assms by (rule parse_built_factors)
  then show ?thesis by (simp add: tryParseRequestRuleExpr_def b j)
qed

text \<open>
  C5: the rules of the visual editor survive the billing expression: building the text of any
  list of groups of readable conditions and parsing the text gives back the same groups, in
  the same order, and never throws.
\<close>

theorem request_rules_roundtrip:
  assumes "\<And>g. g \<in> set gs \<Longrightarrow> canonical_group g"
  shows "tryParseRequestRuleExpr (buildRequestRuleExpr gs) = Inr (Some gs)"
  using assms by (rule parse_built_rules)

definition sample_group :: rule_group where
  "sample_group = \<lparr>g_conditions = [req_cond SOURCE_HEADER (js ''anthropic-beta'') MATCH_CONTAINS (JStr (js ''fast-mode'')),
       time_cond (js ''hour'') (js ''Asia/Shanghai'') MATCH_RANGE (JStr []) (JStr (js ''21'')) (JStr (js ''6''))],
     g_multiplier = js ''0.5''\<rparr>"

lemma sample_numbers: "numeric (js ''21'')" "numeric (js ''6'')" "numeric (js ''0.5'')" "numeric (js ''3'')"
  by code_simp+

lemma sample_plain: "plain (js ''anthropic-beta'')" "plain (js ''fast-mode'')" "plain (js ''Asia/Shanghai'')"
  "plain (js ''max_tokens'')"
  by code_simp+

lemma sample_canonical: "canonical_group sample_group"
proof -
  have f: "js ''hour'' \<in> set TIME_FUNCS" by (simp add: TIME_FUNCS_def)
  show ?thesis
    unfolding canonical_group_def sample_group_def
    using sample_numbers sample_plain canonical.contains [OF sample_plain(1) _ sample_plain(2)]
      canonical.range [OF f sample_plain(3) _ sample_numbers(1,2)]
    by (auto simp: js_def)
qed

theorem request_rules_roundtrip_witness:
  "tryParseRequestRuleExpr (buildRequestRuleExpr [sample_group]) = Inr (Some [sample_group])"
  by (rule request_rules_roundtrip) (simp add: sample_canonical)

lemma parse_single_factor:
  assumes "canonical_group g"
  shows "tryParseRequestRuleExpr (buildRuleGroupFactor g) = Inr (Some [g])"
proof -
  have a: "atom (js '' * '') (buildRuleGroupFactor g)" by (rule factor_atom [OF assms])
  then have "trim (buildRuleGroupFactor g) = buildRuleGroupFactor g" "buildRuleGroupFactor g \<noteq> []"
    by (auto simp: atom_def trim_trimmed)
  then show ?thesis
    by (simp add: tryParseRequestRuleExpr_def mult.splits_single [OF a] parse_built_factor [OF assms])
qed

lemma sort_built_factors:
  "(\<And>g. g \<in> set gs \<Longrightarrow> canonical_group g) \<Longrightarrow>
   sort_parts (map buildRuleGroupFactor gs) = Inr (map buildRuleGroupFactor gs, [])"
  by (induction gs) (simp_all add: parse_single_factor)

lemma split_combined:
  assumes gs: "\<And>g. g \<in> set gs \<Longrightarrow> canonical_group g" and "gs \<noteq> []"
    and base: "trim base \<noteq> []" "balanced (trim base)"
    and not_rule: "tryParseRequestRuleExpr (js ''('' @ trim base @ js '')'') = Inr None"
  shows "splitBillingExprAndRequestRules (combineBillingExpr base (buildRequestRuleExpr gs)) =
    Inr \<lparr>billingExpr = unwrapOuterParens base, requestRuleExpr = buildRequestRuleExpr gs\<rparr>"
proof -
  let ?b = "40 # trim base @ [41]" and ?fs = "map buildRuleGroupFactor gs"
  have sep: "js '' * '' = [32, 42, 32]" by (simp add: js_def)
  have at: "\<And>p. p \<in> set (?b # ?fs) \<Longrightarrow> atom (js '' * '') p"
    using paren_atom [OF base(2), of "js '' * ''"] gs factor_atom by (auto simp: js_def)
  have fs: "?fs \<noteq> []" using assms(2) by simp
  have rules: "buildRequestRuleExpr gs = join (js '' * '') ?fs" using gs by (rule build_rules)
  have "trim (join (js '' * '') ?fs) = join (js '' * '') ?fs" "join (js '' * '') ?fs \<noteq> []"
    using join_atoms_trimmed [OF fs] at by auto
  then have comb: "combineBillingExpr base (buildRequestRuleExpr gs) = join (js '' * '') (?b # ?fs)"
    unfolding combineBillingExpr_def rules Let_def
    using base(1) assms(2) by (cases gs) (simp_all add: js_def)
  have "tryParseRequestRuleExpr ?b = Inr None" using not_rule by (simp add: js_def)
  then have sp: "sort_parts (?b # ?fs) = Inr (?fs, [?b])" using sort_built_factors [OF gs] by simp
  have un: "unwrapOuterParens ?b = unwrapOuterParens base"
    using unwrap_paren [OF base(2)] by (simp add: unwrapOuterParens_def)
  have ne: "?b # ?fs \<noteq> []" by simp
  have j: "trim (join (js '' * '') (?b # ?fs)) = join (js '' * '') (?b # ?fs)"
    "join (js '' * '') (?b # ?fs) \<noteq> []" "splitTopLevelMultiply (join (js '' * '') (?b # ?fs)) = ?b # ?fs"
    by (rule join_atoms_trimmed [OF ne], erule at) (rule join_atoms_trimmed [OF ne], erule at, rule mult.splits_join, erule at)
  show ?thesis
    unfolding splitBillingExprAndRequestRules_def comb Let_def j(1) j(3) sp
    using fs un j(2) by (simp add: rules)
qed


lemma sample_base: "tryParseRequestRuleExpr (js ''('' @ trim (js ''p * 2 + c * 8'') @ js '')'') = Inr None"
  "trim (js ''p * 2 + c * 8'') \<noteq> []" "balanced (trim (js ''p * 2 + c * 8''))"
  by code_simp+


text \<open>The two kinds of conditions that are built with an ampersand of their own.\<close>

definition unreadable_mode :: "jsstr \<Rightarrow> jsstr \<Rightarrow> bool" where
  "unreadable_mode mode v \<longleftrightarrow>
     (mode = MATCH_CONTAINS \<and> plain v) \<or> (mode \<in> {MATCH_GT, MATCH_GTE, MATCH_LT, MATCH_LTE} \<and> numeric v)"

definition unreadable_rest :: "jsstr \<Rightarrow> jsstr \<Rightarrow> jsstr \<Rightarrow> jsstr" where
  "unreadable_rest p mode v =
     (if mode = MATCH_CONTAINS then js ''has('' @ source_call SOURCE_PARAM p @ js '', '' @ 34 # v @ [34, 41]
      else source_call SOURCE_PARAM p @ js '' '' @ compare_op mode @ js '' '' @ v)"

lemma unreadable_normal:
  assumes "p \<noteq> []" "unreadable_mode mode v"
  shows "normalizeCondition (req_cond SOURCE_PARAM p mode (JStr v)) = req_cond SOURCE_PARAM p mode (JStr v)"
  using assms by (auto simp: normalizeCondition_def req_cond_def pick_mode_def or_else_def text_of_def
        getRequestRuleMatchOptions_def source_defs match_defs Let_def unreadable_mode_def)

lemma build_unreadable:
  assumes "plain p" "p \<noteq> []" "unreadable_mode mode v"
  shows "buildRequestConditionExpr (req_cond SOURCE_PARAM p mode (JStr v)) =
    join (js '' && '') [source_call SOURCE_PARAM p @ js '' != nil'', unreadable_rest p mode v]"
proof (cases "mode = MATCH_CONTAINS")
  case True
  then have "plain v" using assms(3) by (auto simp: unreadable_mode_def match_defs)
  with True show ?thesis
    unfolding buildRequestConditionExpr_def unreadable_normal [OF assms(2,3)] unreadable_rest_def
    using assms(2) by (simp add: req_cond_def or_else_def source_call_def plainD(8) json_quote_plain assms(1)
        source_defs match_defs js_def buildExprLiteral_def)
next
  case False
  then have m: "mode \<in> {MATCH_GT, MATCH_GTE, MATCH_LT, MATCH_LTE}" and v: "numeric v"
    using assms(3) by (auto simp: unreadable_mode_def)
  moreover have "mode \<noteq> MATCH_EXISTS" "mode \<noteq> []" using m by (auto simp: match_defs)
  ultimately show ?thesis
    unfolding buildRequestConditionExpr_def unreadable_normal [OF assms(2,3)] unreadable_rest_def if_not_P [OF False]
    using assms(2) False by (simp add: req_cond_def or_else_def source_call_def plainD(8) json_quote_plain assms(1)
        source_defs numeric_props(3) [OF v] js_def)
qed

lemma compare_op_chars: "c \<in> set (compare_op m) \<Longrightarrow> 60 \<le> c \<and> c \<le> 62"
  by (auto simp: compare_op_def js_def split: if_splits)

lemma compare_op_head: "\<exists>x xs. compare_op m = x # xs \<and> 60 \<le> x \<and> x \<noteq> 61"
  by (auto simp: compare_op_def js_def)

lemma unreadable_rest_atom:
  assumes "plain p" "p \<noteq> []" "unreadable_mode mode v"
  shows "atom (js '' && '') (unreadable_rest p mode v)" "balanced (unreadable_rest p mode v)"
proof -
  let ?c = "source_call SOURCE_PARAM p"
  have f: "SOURCE_PARAM \<noteq> []" by (simp add: source_defs)
  note fc = call_facts [OF source_chars [of SOURCE_PARAM] f assms(1)]
  have op: "38 \<notin> set (compare_op mode)" "40 \<notin> set (compare_op mode)" "41 \<notin> set (compare_op mode)"
    using compare_op_chars [of 38 mode] compare_op_chars [of 40 mode] compare_op_chars [of 41 mode] by auto
  have "unreadable_rest p mode v \<noteq> [] \<and> trimmed (unreadable_rest p mode v) \<and> 38 \<notin> set (unreadable_rest p mode v)
      \<and> balanced (unreadable_rest p mode v)"
  proof (cases "mode = MATCH_CONTAINS")
    case True
    then have v: "plain v" using assms(3) by (auto simp: unreadable_mode_def match_defs)
    have "balanced (?c @ js '', '' @ 34 # v @ [34])"
      using plainD(3,4) [OF v] by (intro balanced_append [OF fc(1) balanced_no_paren]) (simp_all add: js_def)
    then have "balanced (js ''has'' @ 40 # (?c @ js '', '' @ 34 # v @ [34]) @ [41])"
      by (intro balanced_append [OF balanced_no_paren balanced_paren]) (simp_all add: js_def)
    then show ?thesis using True fc(2) plainD(2) [OF v]
      by (simp add: unreadable_rest_def js_def trimmed_def js_ws_def)
  next
    case False
    then have v: "numeric v" using assms(3) by (auto simp: unreadable_mode_def)
    note nv = numeric_props [OF v]
    have "balanced (?c @ (js '' '' @ compare_op mode @ js '' '' @ v))"
      using nv(6,7) op by (intro balanced_append [OF fc(1) balanced_no_paren]) (simp_all add: js_def)
    moreover have "trimmed (?c @ (js '' '' @ compare_op mode @ js '' '' @ v))"
      using last_not_ws(1) [OF v] nv(1) by (intro trimmed_call fc) (simp_all add: js_def)
    ultimately show ?thesis using False fc(2,5) nv(5) op(1) by (simp add: unreadable_rest_def js_def)
  qed
  then show "atom (js '' && '') (unreadable_rest p mode v)" "balanced (unreadable_rest p mode v)"
    using amp_atom by blast+
qed

lemma unreadable_rest_parse:
  assumes "plain p" "p \<noteq> []" "unreadable_mode mode v"
  shows "tryParseRequestCondition (unreadable_rest p mode v) = Inr None"
proof (cases "mode = MATCH_CONTAINS")
  case True
  then show ?thesis
    unfolding unreadable_rest_def tryParseRequestCondition_def if_P [OF True] no_time
    by (simp add: rx_header_exists_def rx_param_exists_def rx_header_contains_def rx_param_contains_def
        rx_param_compare_def rx_equals_def parse_compare_def parse_equals_def rx_steps source_call_def
        source_defs rx_match.simps(1,4) del: rx_match.simps(3))
next
  case False
  obtain x xs where op: "compare_op mode = x # xs" "60 \<le> x" "x \<noteq> 61"
    using compare_op_head by blast
  show ?thesis
    unfolding unreadable_rest_def tryParseRequestCondition_def if_not_P [OF False] no_time
    using op by (simp add: rx_header_exists_def rx_param_exists_def rx_header_contains_def rx_param_contains_def
        rx_param_compare_def rx_equals_def parse_compare_def parse_equals_def rx_steps source_call_def
        quoted_match [OF assms(2) plainD(1) [OF assms(1)]]
        source_defs rx_match.simps(1,4) del: rx_match.simps(3))
qed

lemma unreadable_rule:
  assumes "plain p" "p \<noteq> []" "unreadable_mode mode v" "numeric m"
  shows "tryParseRequestRuleExpr (buildRequestRuleExpr
     [\<lparr>g_conditions = [req_cond SOURCE_PARAM p mode (JStr v)], g_multiplier = m\<rparr>]) = Inr None"
    and "buildRequestRuleExpr [\<lparr>g_conditions = [req_cond SOURCE_PARAM p mode (JStr v)], g_multiplier = m\<rparr>] \<noteq> []"
proof -
  let ?e = "source_call SOURCE_PARAM p @ js '' != nil''"
  let ?w = "join (js '' && '') [?e, unreadable_rest p mode v]"
  let ?f = "40 # ?w @ js '' ? '' @ m @ js '' : 1)''"
  note rest = unreadable_rest_atom [OF assms(1-3)]
  have ex: "readable (req_cond SOURCE_PARAM p MATCH_EXISTS (JStr [])) ?e"
    using readable_exists(1) [of SOURCE_PARAM p] build_exists [of SOURCE_PARAM p] assms(1,2)
    by (simp add: source_defs)
  then have e: "atom (js '' && '') ?e" "balanced ?e" by (auto simp: readable_atom readable_def)
  have ne: "?w \<noteq> []" by (simp add: source_call_def)
  have b: "buildRequestRuleExpr [\<lparr>g_conditions = [req_cond SOURCE_PARAM p mode (JStr v)], g_multiplier = m\<rparr>] = ?f"
    using assms(4) numeric_props(3) [OF assms(4)]
    by (simp add: buildRequestRuleExpr_def buildRuleGroupFactor_def build_unreadable [OF assms(1-3)] source_call_def js_def)
  have "balanced (?w @ js '' ? '' @ m @ js '' : 1'')"
    using numeric_props(6,7) [OF assms(4)] e(2) rest(2)
    by (intro balanced_append [OF balanced_join [OF balanced_no_paren] balanced_no_paren]) (auto simp: js_def)
  from paren_atom [OF this, of "js '' * ''"] have f: "atom (js '' * '') ?f" by (simp add: js_def)
  obtain cs where cs: "rx_exec rx_group_factor ?f = Some cs" "cap cs 1 = ?w"
    using exec_factor [OF assms(4) ne] by blast
  have "splitTopLevelAnd ?w = [?e, unreadable_rest p mode v]"
    by (rule conj.splits_join) (use e(1) rest(1) in auto)
  moreover have "trim ?e = ?e" "trim (unreadable_rest p mode v) = unreadable_rest p mode v"
    using e(1) rest(1) by (auto simp: atom_def trim_trimmed)
  ultimately have "tryParseRuleGroupFactor ?f = Inr None"
    using ex unreadable_rest_parse [OF assms(1-3)] unfolding tryParseRuleGroupFactor_def cs(1) option.case cs(2)
    by (simp add: readable_def del: join.simps)
  moreover have "trim ?f = ?f" "?f \<noteq> []" using f by (auto simp: atom_def trim_trimmed)
  ultimately show "tryParseRequestRuleExpr (buildRequestRuleExpr
     [\<lparr>g_conditions = [req_cond SOURCE_PARAM p mode (JStr v)], g_multiplier = m\<rparr>]) = Inr None"
    unfolding b tryParseRequestRuleExpr_def Let_def by (simp only: mult.splits_single [OF f] parse_factors.simps) simp
  show "buildRequestRuleExpr [\<lparr>g_conditions = [req_cond SOURCE_PARAM p mode (JStr v)], g_multiplier = m\<rparr>] \<noteq> []"
    unfolding b by simp
qed

text \<open>
  The parser never reads back a parameter condition that tests for a substring or compares
  numbers: the text built for it has an ampersand of its own, at which the parser splits it.
\<close>

theorem param_comparison_not_parsed:
  assumes "plain p" "p \<noteq> []" "unreadable_mode mode v" "numeric m"
  shows "tryParseRequestRuleExpr (buildRequestRuleExpr
     [\<lparr>g_conditions = [req_cond SOURCE_PARAM p mode (JStr v)], g_multiplier = m\<rparr>]) = Inr None"
  using assms by (rule unreadable_rule(1))

theorem param_comparison_not_parsed_witness:
  "tryParseRequestRuleExpr (buildRequestRuleExpr
     [\<lparr>g_conditions = [req_cond SOURCE_PARAM (js ''max_tokens'') MATCH_GT (JStr (js ''21''))],
       g_multiplier = js ''3''\<rparr>]) = Inr None"
  by (rule param_comparison_not_parsed [OF sample_plain(4) _ _ sample_numbers(4)])
     (simp_all add: unreadable_mode_def sample_numbers(1))

text \<open>
  Normalising a condition is idempotent, gives a mode that its source offers, and does not
  change the expression that is built from it.
\<close>

lemma pick_mode_in: "d \<in> set os \<Longrightarrow> pick_mode os m d \<in> set os \<and> pick_mode os (Some (pick_mode os m d)) d = pick_mode os m d"
  by (auto simp: pick_mode_def split: option.splits)

lemma or_else_idem: "or_else (Some (or_else x d)) d = or_else x d"
  by (auto simp: or_else_def split: option.splits)

lemma text_of_text [simp]: "text_of (JStr s) = s"
  by (simp add: text_of_def)

lemma match_defaults:
  "MATCH_GTE \<in> set (getRequestRuleMatchOptions SOURCE_TIME)" "MATCH_EQ \<in> set (getRequestRuleMatchOptions s)"
  "js ''hour'' \<in> set TIME_FUNCS"
  by (auto simp: getRequestRuleMatchOptions_def TIME_FUNCS_def Let_def)

lemma sources_differ: "SOURCE_HEADER \<noteq> SOURCE_TIME" "SOURCE_PARAM \<noteq> SOURCE_TIME" "SOURCE_PARAM \<noteq> SOURCE_HEADER"
  by (simp_all add: source_defs)

lemma normalize_idem: "normalizeCondition (normalizeCondition c) = normalizeCondition c"
  using pick_mode_in [OF match_defaults(1), of "c_mode c"] pick_mode_in [OF match_defaults(3), of "c_timeFunc c"]
    pick_mode_in [OF match_defaults(2) [of SOURCE_HEADER], of "c_mode c"]
    pick_mode_in [OF match_defaults(2) [of SOURCE_PARAM], of "c_mode c"] sources_differ
  by (simp add: normalizeCondition_def req_cond_def time_cond_def or_else_idem)

theorem normalizeCondition_idempotent:
  "normalizeCondition (normalizeCondition c) = normalizeCondition c
   \<and> (\<exists>s m. c_source (normalizeCondition c) = Some s \<and> c_mode (normalizeCondition c) = Some m
        \<and> m \<in> set (getRequestRuleMatchOptions s))
   \<and> buildRequestConditionExpr (normalizeCondition c) = buildRequestConditionExpr c"
proof (intro conjI)
  show "\<exists>s m. c_source (normalizeCondition c) = Some s \<and> c_mode (normalizeCondition c) = Some m
        \<and> m \<in> set (getRequestRuleMatchOptions s)"
    using pick_mode_in [OF match_defaults(1), of "c_mode c"]
      pick_mode_in [OF match_defaults(2), of _ "c_mode c"] sources_differ
    by (simp add: normalizeCondition_def req_cond_def time_cond_def)
  have "c_source (normalizeCondition c) = Some SOURCE_TIME \<longleftrightarrow> c_source c = Some SOURCE_TIME"
    using sources_differ by (auto simp: normalizeCondition_def req_cond_def time_cond_def)
  then show "buildRequestConditionExpr (normalizeCondition c) = buildRequestConditionExpr c"
    unfolding buildRequestConditionExpr_def buildTimeConditionExpr_def normalize_idem by (simp only:)
qed (rule normalize_idem)

lemma unwrap_loop_props: "trimmed s \<Longrightarrow> \<not> hasFullOuterParens (unwrap_loop s) \<and> trimmed (unwrap_loop s)"
  by (induction s rule: unwrap_loop.induct) (subst (1 2) unwrap_loop.simps, simp)

text \<open>
  Taking outer parentheses off ends at a text that has none and no blanks around it, and
  doing it again changes nothing.
\<close>

theorem unwrapOuterParens_spec:
  "\<not> hasFullOuterParens (unwrapOuterParens e) \<and> trim (unwrapOuterParens e) = unwrapOuterParens e
   \<and> unwrapOuterParens (unwrapOuterParens e) = unwrapOuterParens e"
  using unwrap_loop_props [of "trim e"]
  by (simp add: unwrapOuterParens_def trim_trimmed unwrap_loop.simps [of "unwrap_loop (trim e)"])

end
