(* ===== verification/ModelPricing.thy ===== *)
theory ModelPricing
  imports JsValue RequestRuleExpr
begin

text \<open>
  The price of a model as the ratio editor sees it, the functions of
  \<open>src/web/src/pages/Setting/Ratio/hooks/useModelPricingEditorState.js\<close> outside the hook:
  reading a model from the option maps of the server, the warnings and previews shown for
  it, and its serialisation back to ratios.

  The texts the code passes through the translation function \<open>t\<close> are the constructors of
  \<open>label\<close>, and \<open>t\<close> is an argument; a message that carries data is a constructor of
  \<open>pricing_error\<close>.
\<close>

section \<open>Data\<close>

datatype label =
    L_expression | L_tiered | L_tier_unit | L_request_rules | L_per_request | L_times | L_input
  | L_extra_prices | L_unset | L_empty | L_backend_fixed

datatype warning =
    W_conflict                 \<comment> \<open>a fixed price and ratios are both set\<close>
  | W_ratios_without_input     \<comment> \<open>extension ratios without an input ratio\<close>
  | W_need_input_price
  | W_need_audio_input

datatype pricing_error = MissingInputPrice jsstr | MissingAudioInputPrice jsstr

record raw_ratios =
  modelRatio :: jsstr
  completionRatio :: jsstr
  cacheRatio :: jsstr
  createCacheRatio :: jsstr
  imageRatio :: jsstr
  audioRatio :: jsstr
  audioCompletionRatio :: jsstr

record model =
  m_name :: jsstr
  billingMode :: jsstr
  fixedPrice :: jsstr
  inputPrice :: jsstr
  completionPrice :: jsstr
  lockedCompletionRatio :: jsstr
  completionRatioLocked :: bool
  cachePrice :: jsstr
  createCachePrice :: jsstr
  imagePrice :: jsstr
  audioInputPrice :: jsstr
  audioOutputPrice :: jsstr
  m_billingExpr :: jsstr
  m_requestRuleExpr :: jsstr
  rawRatios :: raw_ratios
  hasConflict :: bool

definition EMPTY_RATIOS :: raw_ratios where
  "EMPTY_RATIOS = \<lparr>modelRatio = [], completionRatio = [], cacheRatio = [], createCacheRatio = [],
     imageRatio = [], audioRatio = [], audioCompletionRatio = []\<rparr>"

definition EMPTY_MODEL :: model where
  "EMPTY_MODEL = \<lparr>m_name = [], billingMode = js ''per-token'', fixedPrice = [], inputPrice = [],
     completionPrice = [], lockedCompletionRatio = [], completionRatioLocked = False, cachePrice = [],
     createCachePrice = [], imagePrice = [], audioInputPrice = [], audioOutputPrice = [],
     m_billingExpr = [], m_requestRuleExpr = [], rawRatios = EMPTY_RATIOS, hasConflict = False\<rparr>"

abbreviation per_token :: jsstr where "per_token \<equiv> js ''per-token''"
abbreviation per_request :: jsstr where "per_request \<equiv> js ''per-request''"
abbreviation tiered_expr :: jsstr where "tiered_expr \<equiv> js ''tiered_expr''"

section \<open>Numbers\<close>

definition hasValue :: "jsval \<Rightarrow> bool" where
  "hasValue v \<longleftrightarrow> v \<noteq> JStr [] \<and> v \<noteq> JNull \<and> v \<noteq> JUndef \<and> v \<noteq> JBool False"

abbreviation has_text :: "jsstr \<Rightarrow> bool" where
  "has_text s \<equiv> hasValue (JStr s)"

fun is_number_zero :: "jsval \<Rightarrow> bool" where  \<comment> \<open>\<open>v === 0\<close>\<close>
  "is_number_zero (JNum n) = num_is_zero n"
| "is_number_zero _ = False"

definition toNumberOrNull :: "jsval \<Rightarrow> jsnum option" where
  "toNumberOrNull v =
     (if \<not> hasValue v \<and> \<not> is_number_zero v then None
      else let num = js_to_number v in if num_is_finite num then Some num else None)"

definition toNumericString :: "jsval \<Rightarrow> jsstr" where
  "toNumericString v =
     (if \<not> hasValue v \<and> \<not> is_number_zero v then []
      else let num = js_to_number v in if num_is_finite num then number_to_string num else [])"

definition formatNumber :: "jsval \<Rightarrow> jsstr" where
  "formatNumber v =
     (case toNumberOrNull v of
        None \<Rightarrow> []
      | Some num \<Rightarrow> number_to_string (parseFloat (toFixed 12 num)))"

definition toNormalizedNumber :: "jsval \<Rightarrow> jsnum option" where
  "toNormalizedNumber v =
     (let formatted = formatNumber v in
      if formatted = [] then None else Some (string_to_number formatted))"

definition parseOptionJSON :: "jsstr option \<Rightarrow> jsval" where
  "parseOptionJSON rawValue =
     (case rawValue of
        None \<Rightarrow> JObj []
      | Some s \<Rightarrow> if s = [] \<or> trim s = [] then JObj []
          else (case json_parse s of
                  Some parsed \<Rightarrow> if truthy parsed \<and> typeof_object parsed then parsed else JObj []
                | None \<Rightarrow> JObj []))"

definition ratioToBasePrice :: "jsstr \<Rightarrow> jsstr" where
  "ratioToBasePrice ratio =
     (case toNumberOrNull (JStr ratio) of
        None \<Rightarrow> []
      | Some num \<Rightarrow> formatNumber (JNum (num_mul num (Fin 2))))"

definition normalizeCompletionRatioMeta :: "jsval \<Rightarrow> bool \<times> jsstr" where
  "normalizeCompletionRatioMeta rawMeta =
     (if \<not> truthy rawMeta \<or> \<not> typeof_object rawMeta \<or> is_array rawMeta then (False, [])
      else (truthy (js_prop rawMeta (js ''locked'')), toNumericString (js_prop rawMeta (js ''ratio''))))"

section \<open>Reading a model\<close>

record source_maps =
  sm_ModelPrice :: jsval
  sm_ModelRatio :: jsval
  sm_CompletionRatio :: jsval
  sm_CompletionRatioMeta :: jsval
  sm_CacheRatio :: jsval
  sm_CreateCacheRatio :: jsval
  sm_ImageRatio :: jsval
  sm_AudioRatio :: jsval
  sm_AudioCompletionRatio :: jsval
  sm_ModelBillingMode :: jsval
  sm_ModelBillingExpr :: jsval

text \<open>\<open>expr || ''\<close> where the value is then used as a string.\<close>

definition string_or_empty :: "jsval \<Rightarrow> js_error + jsstr" where
  "string_or_empty v = (case v of JStr s \<Rightarrow> Inr s | _ \<Rightarrow> if truthy v then Inl TypeError else Inr [])"

text \<open>\<open>base !== null && hasValue(r) ? formatNumber(base * Number(r)) : ''\<close>.\<close>

definition derived_price :: "jsnum option \<Rightarrow> jsstr \<Rightarrow> jsstr" where
  "derived_price base r =
     (case base of
        Some b \<Rightarrow> if has_text r then formatNumber (JNum (num_mul b (string_to_number r))) else []
      | None \<Rightarrow> [])"

definition tieredModelState :: "jsstr \<Rightarrow> source_maps \<Rightarrow> js_error + model" where
  "tieredModelState name maps =
     (case string_or_empty (js_prop (sm_ModelBillingExpr maps) name) of
        Inl e \<Rightarrow> Inl e
      | Inr fullBillingExpr \<Rightarrow>
          (case splitBillingExprAndRequestRules fullBillingExpr of
             Inl e \<Rightarrow> Inl e
           | Inr parts \<Rightarrow> Inr (EMPTY_MODEL\<lparr>m_name := name, billingMode := tiered_expr,
               m_billingExpr := billingExpr parts, m_requestRuleExpr := requestRuleExpr parts\<rparr>)))"

definition ratioModelState :: "jsstr \<Rightarrow> source_maps \<Rightarrow> model" where
  "ratioModelState name maps =
     (let raw = \<lparr>modelRatio = toNumericString (js_prop (sm_ModelRatio maps) name),
                 completionRatio = toNumericString (js_prop (sm_CompletionRatio maps) name),
                 cacheRatio = toNumericString (js_prop (sm_CacheRatio maps) name),
                 createCacheRatio = toNumericString (js_prop (sm_CreateCacheRatio maps) name),
                 imageRatio = toNumericString (js_prop (sm_ImageRatio maps) name),
                 audioRatio = toNumericString (js_prop (sm_AudioRatio maps) name),
                 audioCompletionRatio = toNumericString (js_prop (sm_AudioCompletionRatio maps) name)\<rparr>;
          (locked, lockedRatio) = normalizeCompletionRatioMeta (js_prop (sm_CompletionRatioMeta maps) name);
          fixed = toNumericString (js_prop (sm_ModelPrice maps) name);
          input = ratioToBasePrice (modelRatio raw);
          inputNumber = toNumberOrNull (JStr input);
          audioInput = derived_price inputNumber (audioRatio raw)
      in EMPTY_MODEL\<lparr>
           m_name := name,
           billingMode := (if has_text fixed then per_request else per_token),
           fixedPrice := fixed,
           inputPrice := input,
           completionRatioLocked := locked,
           lockedCompletionRatio := lockedRatio,
           completionPrice := derived_price inputNumber (if locked then lockedRatio else completionRatio raw),
           cachePrice := derived_price inputNumber (cacheRatio raw),
           createCachePrice := derived_price inputNumber (createCacheRatio raw),
           imagePrice := derived_price inputNumber (imageRatio raw),
           audioInputPrice := audioInput,
           audioOutputPrice :=
             (if toNumberOrNull (JStr audioInput) \<noteq> None \<and> has_text (audioCompletionRatio raw)
              then formatNumber (JNum (num_mul (string_to_number audioInput) (string_to_number (audioCompletionRatio raw))))
              else []),
           m_requestRuleExpr := [],
           rawRatios := raw,
           hasConflict := has_text fixed \<and>
             list_ex has_text [modelRatio raw, completionRatio raw, cacheRatio raw, createCacheRatio raw,
               imageRatio raw, audioRatio raw, audioCompletionRatio raw]\<rparr>)"

definition buildModelState :: "jsstr \<Rightarrow> source_maps \<Rightarrow> js_error + model" where
  "buildModelState name maps =
     (if js_prop (sm_ModelBillingMode maps) name = JStr tiered_expr then tieredModelState name maps
      else Inr (ratioModelState name maps))"

section \<open>What the editor shows\<close>

definition isBasePricingUnset :: "model \<Rightarrow> bool" where
  "isBasePricingUnset m \<longleftrightarrow>
     billingMode m \<noteq> tiered_expr \<and> \<not> has_text (fixedPrice m) \<and> \<not> has_text (inputPrice m)"

definition getModelWarnings :: "model option \<Rightarrow> warning list" where
  "getModelWarnings mo =
     (case mo of None \<Rightarrow> [] | Some m \<Rightarrow>
      if billingMode m = tiered_expr then []
      else
        let hasDerivedPricing = list_ex has_text [inputPrice m, completionPrice m, cachePrice m,
              createCachePrice m, imagePrice m, audioInputPrice m, audioOutputPrice m];
            raw = rawRatios m
        in (if hasConflict m then [W_conflict] else [])
         @ (if \<not> has_text (inputPrice m) \<and> list_ex has_text [completionRatio raw, cacheRatio raw,
                createCacheRatio raw, imageRatio raw, audioRatio raw, audioCompletionRatio raw]
            then [W_ratios_without_input] else [])
         @ (if billingMode m = per_token \<and> hasDerivedPricing \<and> \<not> has_text (inputPrice m)
            then [W_need_input_price] else [])
         @ (if billingMode m = per_token \<and> has_text (audioOutputPrice m) \<and> \<not> has_text (audioInputPrice m)
            then [W_need_audio_input] else []))"

text \<open>\<open>(s.match(/tier\(/g) || []).length\<close>: the matches do not overlap.\<close>

fun tierCount :: "jsstr \<Rightarrow> int" where
  "tierCount [] = 0"
| "tierCount (c # cs) =
     (if startsWith (c # cs) (js ''tier('') then 1 + tierCount (drop 4 cs) else tierCount cs)"

definition comma :: jsstr where "comma = [65292]"  \<comment> \<open>the full-width comma\<close>

definition buildSummaryText :: "(label \<Rightarrow> jsstr) \<Rightarrow> model \<Rightarrow> jsstr" where
  "buildSummaryText t m =
     (let requestRuleSuffix = (if billingMode m = tiered_expr \<and> m_requestRuleExpr m \<noteq> []
                               then comma @ t L_request_rules else [])
      in if billingMode m = tiered_expr then
           (let e = m_billingExpr m in
            if e = [] then t L_expression @ requestRuleSuffix
            else if tierCount e = 0 then t L_expression @ requestRuleSuffix
            else t L_tiered @ js '' ('' @ show_nat (tierCount e) @ js '' '' @ t L_tier_unit @ js '')'' @ requestRuleSuffix)
         else if billingMode m = per_request \<and> has_text (fixedPrice m) then
           t L_per_request @ js '' $'' @ fixedPrice m @ js '' / '' @ t L_times @ requestRuleSuffix
         else if has_text (inputPrice m) then
           (let extraCount = int (length (filter has_text [completionPrice m, cachePrice m, createCachePrice m,
                  imagePrice m, audioInputPrice m, audioOutputPrice m]));
                extraLabel = (if extraCount > 0 then comma @ t L_extra_prices @ js '' '' @ show_nat extraCount else [])
            in t L_input @ js '' $'' @ inputPrice m @ extraLabel @ requestRuleSuffix)
         else t L_unset @ requestRuleSuffix)"

datatype price_field =
    FixedPrice | InputPrice | CompletionPrice | CachePrice | CreateCachePrice | ImagePrice
  | AudioInputPrice | AudioOutputPrice

definition buildOptionalFieldToggles :: "model \<Rightarrow> price_field \<rightharpoonup> bool" where
  "buildOptionalFieldToggles m =
     [CompletionPrice \<mapsto> completionRatioLocked m \<or> has_text (completionPrice m),
      CachePrice \<mapsto> has_text (cachePrice m),
      CreateCachePrice \<mapsto> has_text (createCachePrice m),
      ImagePrice \<mapsto> has_text (imagePrice m),
      AudioInputPrice \<mapsto> has_text (audioInputPrice m),
      AudioOutputPrice \<mapsto> has_text (audioOutputPrice m)]"

section \<open>Serialisation\<close>

record serialized =
  s_ModelPrice :: "jsnum option"
  s_ModelRatio :: "jsnum option"
  s_CompletionRatio :: "jsnum option"
  s_CacheRatio :: "jsnum option"
  s_CreateCacheRatio :: "jsnum option"
  s_ImageRatio :: "jsnum option"
  s_AudioRatio :: "jsnum option"
  s_AudioCompletionRatio :: "jsnum option"

definition EMPTY_SERIALIZED :: serialized where
  "EMPTY_SERIALIZED = \<lparr>s_ModelPrice = None, s_ModelRatio = None, s_CompletionRatio = None,
     s_CacheRatio = None, s_CreateCacheRatio = None, s_ImageRatio = None, s_AudioRatio = None,
     s_AudioCompletionRatio = None\<rparr>"

text \<open>\<open>if (hasValue(r)) x = toNormalizedNumber(r)\<close>, and \<open>p !== null ? toNormalizedNumber(p / base)\<close>.\<close>

definition kept_ratio :: "jsstr \<Rightarrow> jsnum option" where
  "kept_ratio r = (if has_text r then toNormalizedNumber (JStr r) else None)"

definition price_ratio :: "jsnum option \<Rightarrow> jsnum \<Rightarrow> jsnum option" where
  "price_ratio p base = (case p of None \<Rightarrow> None | Some x \<Rightarrow> toNormalizedNumber (JNum (num_div x base)))"

definition serializeModel :: "model \<Rightarrow> pricing_error + serialized" where
  "serializeModel m =
     (if billingMode m = per_request then
        Inr (EMPTY_SERIALIZED\<lparr>s_ModelPrice := kept_ratio (fixedPrice m)\<rparr>)
      else
        let completion = toNumberOrNull (JStr (completionPrice m));
            cache = toNumberOrNull (JStr (cachePrice m));
            createCache = toNumberOrNull (JStr (createCachePrice m));
            image = toNumberOrNull (JStr (imagePrice m));
            audioInput = toNumberOrNull (JStr (audioInputPrice m));
            audioOutput = toNumberOrNull (JStr (audioOutputPrice m));
            hasDependentPrice = list_ex (\<lambda>p. p \<noteq> None) [completion, cache, createCache, image, audioInput, audioOutput];
            raw = rawRatios m
        in (case toNumberOrNull (JStr (inputPrice m)) of
              None \<Rightarrow>
                if hasDependentPrice then Inl (MissingInputPrice (m_name m))
                else Inr (EMPTY_SERIALIZED\<lparr>
                  s_ModelRatio := kept_ratio (modelRatio raw),
                  s_CompletionRatio := kept_ratio (completionRatio raw),
                  s_CacheRatio := kept_ratio (cacheRatio raw),
                  s_CreateCacheRatio := kept_ratio (createCacheRatio raw),
                  s_ImageRatio := kept_ratio (imageRatio raw),
                  s_AudioRatio := kept_ratio (audioRatio raw),
                  s_AudioCompletionRatio := kept_ratio (audioCompletionRatio raw)\<rparr>)
            | Some input \<Rightarrow>
                let result = EMPTY_SERIALIZED\<lparr>
                  s_ModelRatio := toNormalizedNumber (JNum (num_div input (Fin 2))),
                  s_CompletionRatio :=
                    (if \<not> completionRatioLocked m \<and> completion \<noteq> None then price_ratio completion input
                     else if completionRatioLocked m \<and> has_text (completionRatio raw)
                       then toNormalizedNumber (JStr (completionRatio raw))
                     else None),
                  s_CacheRatio := price_ratio cache input,
                  s_CreateCacheRatio := price_ratio createCache input,
                  s_ImageRatio := price_ratio image input,
                  s_AudioRatio := price_ratio audioInput input\<rparr>
                in (case audioOutput of
                      None \<Rightarrow> Inr result
                    | Some out \<Rightarrow>
                        (case audioInput of
                           None \<Rightarrow> Inl (MissingAudioInputPrice (m_name m))
                         | Some inp \<Rightarrow>
                             if num_is_zero inp then Inl (MissingAudioInputPrice (m_name m))
                             else Inr (result\<lparr>s_AudioCompletionRatio := toNormalizedNumber (JNum (num_div out inp))\<rparr>)))))"

section \<open>Preview\<close>

definition clip60 :: "jsstr \<Rightarrow> jsstr" where
  "clip60 s = (if length s > 60 then take 60 s @ js ''...'' else s)"

definition or_empty_label :: "(label \<Rightarrow> jsstr) \<Rightarrow> jsstr \<Rightarrow> jsstr" where
  "or_empty_label t s = (if has_text s then s else t L_empty)"

definition ratio_row :: "(label \<Rightarrow> jsstr) \<Rightarrow> jsnum option \<Rightarrow> jsnum \<Rightarrow> jsstr" where
  "ratio_row t p base = (case p of None \<Rightarrow> t L_empty | Some x \<Rightarrow> formatNumber (JNum (num_div x base)))"

definition buildPreviewRows :: "(label \<Rightarrow> jsstr) \<Rightarrow> model option \<Rightarrow> (jsstr \<times> jsstr) list" where
  "buildPreviewRows t mo =
     (case mo of None \<Rightarrow> [] | Some m \<Rightarrow>
      if billingMode m = tiered_expr then
        (let final = combineBillingExpr (m_billingExpr m) (m_requestRuleExpr m);
             n = tierCount (m_billingExpr m)
         in (js ''BillingMode'', tiered_expr) #
            (if final \<noteq> []
             then [(js ''BillingExpr'',
                    if n > 0 then show_nat n @ js '' '' @ t L_tier_unit @ [32, 8212, 32] @ clip60 final else clip60 final)]
             else []))
      else if billingMode m = per_request then [(js ''ModelPrice'', or_empty_label t (fixedPrice m))]
      else (case toNumberOrNull (JStr (inputPrice m)) of
          None \<Rightarrow> let raw = rawRatios m in
            [(js ''ModelRatio'', or_empty_label t (modelRatio raw)),
             (js ''CompletionRatio'', or_empty_label t (completionRatio raw)),
             (js ''CacheRatio'', or_empty_label t (cacheRatio raw)),
             (js ''CreateCacheRatio'', or_empty_label t (createCacheRatio raw)),
             (js ''ImageRatio'', or_empty_label t (imageRatio raw)),
             (js ''AudioRatio'', or_empty_label t (audioRatio raw)),
             (js ''AudioCompletionRatio'', or_empty_label t (audioCompletionRatio raw))]
        | Some input \<Rightarrow>
            let audioInput = toNumberOrNull (JStr (audioInputPrice m)) in
            [(js ''ModelRatio'', formatNumber (JNum (num_div input (Fin 2)))),
             (js ''CompletionRatio'',
                if completionRatioLocked m
                then (if lockedCompletionRatio m \<noteq> [] then lockedCompletionRatio m else t L_empty)
                     @ js '' ('' @ t L_backend_fixed @ js '')''
                else ratio_row t (toNumberOrNull (JStr (completionPrice m))) input),
             (js ''CacheRatio'', ratio_row t (toNumberOrNull (JStr (cachePrice m))) input),
             (js ''CreateCacheRatio'', ratio_row t (toNumberOrNull (JStr (createCachePrice m))) input),
             (js ''ImageRatio'', ratio_row t (toNumberOrNull (JStr (imagePrice m))) input),
             (js ''AudioRatio'', ratio_row t audioInput input),
             (js ''AudioCompletionRatio'',
                case (toNumberOrNull (JStr (audioOutputPrice m)), audioInput) of
                  (Some out, Some inp) \<Rightarrow>
                    if num_is_zero inp then t L_empty else formatNumber (JNum (num_div out inp))
                | _ \<Rightarrow> t L_empty)]))"

section \<open>Facts\<close>

lemma has_text_iff [simp]: "has_text s \<longleftrightarrow> s \<noteq> []"
  by (simp add: hasValue_def)

lemma toNumberOrNull_empty [simp]: "toNumberOrNull (JStr []) = None"
  by (simp add: toNumberOrNull_def)

lemma toNumberOrNull_text: "toNumberOrNull (JStr s) \<noteq> None \<Longrightarrow> s \<noteq> []"
  by (auto simp: toNumberOrNull_def)

lemma toNumberOrNull_num [simp]: "toNumberOrNull (JNum n) = (if num_is_finite n then Some n else None)"
  by (simp add: toNumberOrNull_def hasValue_def)

lemma toNumberOrNull_finite: "toNumberOrNull v = Some n \<Longrightarrow> num_is_finite n"
  by (auto simp: toNumberOrNull_def Let_def split: if_splits)

lemma toNormalized_infinite: "\<not> num_is_finite n \<Longrightarrow> toNormalizedNumber (JNum n) = None"
  by (simp add: toNormalizedNumber_def formatNumber_def)

lemma div_zero_infinite: "num_is_zero z \<Longrightarrow> \<not> num_is_finite (num_div x z)"
  by (cases x) (auto simp: num_div_def num_is_zero_def split: if_splits)

lemma derived_price_None [simp]: "derived_price None r = []"
  by (simp add: derived_price_def)

lemma serialize_error_iff:
  "serializeModel m = Inl e \<longleftrightarrow> billingMode m \<noteq> per_request \<and>
     (toNumberOrNull (JStr (inputPrice m)) = None \<and> e = MissingInputPrice (m_name m)
        \<and> (\<exists>p \<in> {completionPrice m, cachePrice m, createCachePrice m, imagePrice m, audioInputPrice m,
             audioOutputPrice m}. toNumberOrNull (JStr p) \<noteq> None)
      \<or> toNumberOrNull (JStr (inputPrice m)) \<noteq> None \<and> e = MissingAudioInputPrice (m_name m)
        \<and> toNumberOrNull (JStr (audioOutputPrice m)) \<noteq> None
        \<and> (\<forall>z. toNumberOrNull (JStr (audioInputPrice m)) = Some z \<longrightarrow> num_is_zero z))"
  by (auto simp: serializeModel_def Let_def split: option.splits if_splits)

lemma loaded_ratio_prices:
  assumes "buildModelState name maps = Inr m"
  shows "m_name m = name"
    and "toNumberOrNull (JStr (inputPrice m)) = None \<Longrightarrow>
      completionPrice m = [] \<and> cachePrice m = [] \<and> createCachePrice m = [] \<and> imagePrice m = []
      \<and> audioInputPrice m = [] \<and> audioOutputPrice m = []"
    and "audioOutputPrice m \<noteq> [] \<Longrightarrow> toNumberOrNull (JStr (audioInputPrice m)) \<noteq> None"
  using assms
  by (auto simp: buildModelState_def tieredModelState_def ratioModelState_def EMPTY_MODEL_def Let_def
      split: if_splits sum.splits prod.splits)

section \<open>Properties\<close>

text \<open>
  Saving a model fails exactly in two cases, each reported with the model's name: a price
  other than the input price is set without a valid input price, or an audio output price is
  set without a valid audio input price other than zero. Per-request models never fail.
\<close>

theorem serializeModel_errors:
  "(\<exists>e. serializeModel m = Inl e) \<longleftrightarrow> billingMode m \<noteq> per_request \<and>
     (toNumberOrNull (JStr (inputPrice m)) = None
        \<and> (\<exists>p \<in> {completionPrice m, cachePrice m, createCachePrice m, imagePrice m, audioInputPrice m,
             audioOutputPrice m}. toNumberOrNull (JStr p) \<noteq> None)
      \<or> toNumberOrNull (JStr (inputPrice m)) \<noteq> None
        \<and> toNumberOrNull (JStr (audioOutputPrice m)) \<noteq> None
        \<and> (toNumberOrNull (JStr (audioInputPrice m)) = None
           \<or> num_is_zero (the (toNumberOrNull (JStr (audioInputPrice m))))))"
  unfolding serialize_error_iff by (cases "toNumberOrNull (JStr (audioInputPrice m))") auto

text \<open>
  A model that was just loaded can be saved again, whatever the options hold, unless its
  audio input price is zero while an audio output price is set.
\<close>

theorem loaded_model_saves:
  assumes "buildModelState name maps = Inr m" and "serializeModel m = Inl e"
  shows "e = MissingAudioInputPrice name
    \<and> (\<exists>z. toNumberOrNull (JStr (audioInputPrice m)) = Some z \<and> num_is_zero z)
    \<and> audioOutputPrice m \<noteq> []"
proof -
  note l = loaded_ratio_prices [OF assms(1)]
  have "toNumberOrNull (JStr (inputPrice m)) \<noteq> None"
    using assms(2) l(2) unfolding serialize_error_iff by auto
  then have e: "e = MissingAudioInputPrice name" "toNumberOrNull (JStr (audioOutputPrice m)) \<noteq> None"
    "\<forall>z. toNumberOrNull (JStr (audioInputPrice m)) = Some z \<longrightarrow> num_is_zero z"
    using assms(2) l(1) unfolding serialize_error_iff by auto
  with toNumberOrNull_text [OF e(2)] l(3) show ?thesis by auto
qed

definition free_audio_maps :: source_maps where
  "free_audio_maps =
     (let none = JObj []; one = (\<lambda>q. JObj [(js ''m'', JNum (Fin q))]) in
      \<lparr>sm_ModelPrice = none, sm_ModelRatio = one 0, sm_CompletionRatio = none, sm_CompletionRatioMeta = none,
       sm_CacheRatio = none, sm_CreateCacheRatio = none, sm_ImageRatio = none, sm_AudioRatio = one 0,
       sm_AudioCompletionRatio = one 0, sm_ModelBillingMode = none, sm_ModelBillingExpr = none\<rparr>)"

abbreviation free_audio_model :: model where
  "free_audio_model \<equiv> ratioModelState (js ''m'') free_audio_maps"

lemma free_audio_loaded:
  "buildModelState (js ''m'') free_audio_maps = Inr free_audio_model"
  by (simp add: buildModelState_def free_audio_maps_def Let_def)

lemma free_audio_fields:
  "inputPrice free_audio_model = js ''0'' \<and> audioInputPrice free_audio_model = js ''0''
   \<and> audioOutputPrice free_audio_model = js ''0'' \<and> billingMode free_audio_model = per_token
   \<and> m_name free_audio_model = js ''m''"
  by code_simp

lemma zero_text: "toNumberOrNull (JStr (js ''0'')) = Some (Fin 0)"
  by code_simp

lemma free_audio_not_saved: "serializeModel free_audio_model = Inl (MissingAudioInputPrice (js ''m''))"
  using free_audio_fields zero_text unfolding serialize_error_iff by (simp add: num_is_zero_def)

theorem loaded_model_saves_witness:
  "\<exists>z. toNumberOrNull (JStr (audioInputPrice free_audio_model)) = Some z \<and> num_is_zero z"
  using loaded_model_saves [OF free_audio_loaded free_audio_not_saved] by blast

text \<open>
  With an input price of zero every other price of a per-token model is lost without an
  error: the ratios, which are quotients by the input price, are not stored.
\<close>

theorem zero_input_price_loses_prices:
  assumes "toNumberOrNull (JStr (inputPrice m)) = Some z" and "num_is_zero z"
    and "billingMode m \<noteq> per_request" and "\<not> completionRatioLocked m" and "serializeModel m = Inr s"
  shows "s_CompletionRatio s = None \<and> s_CacheRatio s = None \<and> s_CreateCacheRatio s = None
    \<and> s_ImageRatio s = None \<and> s_AudioRatio s = None"
proof -
  have "price_ratio p z = None" for p
    using toNormalized_infinite [OF div_zero_infinite [OF assms(2)]]
    by (simp add: price_ratio_def split: option.splits)
  with assms show ?thesis
    by (auto simp: serializeModel_def EMPTY_SERIALIZED_def Let_def split: option.splits if_splits)
qed

definition free_cached_model :: model where
  "free_cached_model = EMPTY_MODEL\<lparr>m_name := js ''m'', inputPrice := js ''0'', cachePrice := js ''0''\<rparr>"

lemma free_cached_saves: "\<exists>s. serializeModel free_cached_model = Inr s"
  using zero_text
  by (cases "serializeModel free_cached_model")
     (auto simp: serialize_error_iff free_cached_model_def EMPTY_MODEL_def)

theorem zero_input_price_loses_prices_witness:
  "\<exists>s. serializeModel free_cached_model = Inr s \<and> s_CacheRatio s = None
     \<and> toNumberOrNull (JStr (cachePrice free_cached_model)) \<noteq> None"
proof -
  have f: "inputPrice free_cached_model = js ''0''" "cachePrice free_cached_model = js ''0''"
    "billingMode free_cached_model \<noteq> per_request" "\<not> completionRatioLocked free_cached_model"
    by (simp_all add: free_cached_model_def EMPTY_MODEL_def)
  obtain s where s: "serializeModel free_cached_model = Inr s" using free_cached_saves by blast
  show ?thesis
    using zero_input_price_loses_prices [OF _ _ f(3,4) s, of "Fin 0"] s zero_text
    by (simp add: f(1,2) num_is_zero_def)
qed

text \<open>
  A model loaded with tiered billing has no ratios left: saving it again writes no price and
  no ratio for it.
\<close>

theorem tiered_model_drops_ratios:
  assumes "buildModelState name maps = Inr m" and "js_prop (sm_ModelBillingMode maps) name = JStr tiered_expr"
  shows "serializeModel m = Inr EMPTY_SERIALIZED"
  using assms
  by (auto simp: buildModelState_def tieredModelState_def serializeModel_def kept_ratio_def EMPTY_RATIOS_def
      EMPTY_MODEL_def EMPTY_SERIALIZED_def Let_def split: sum.splits)

definition tiered_maps :: source_maps where
  "tiered_maps = free_audio_maps\<lparr>sm_ModelBillingMode := JObj [(js ''m'', JStr tiered_expr)],
     sm_ModelBillingExpr := JObj [(js ''m'', JStr (js ''p * 2''))]\<rparr>"

lemma tiered_loaded: "buildModelState (js ''m'') tiered_maps =
   Inr (EMPTY_MODEL\<lparr>m_name := js ''m'', billingMode := tiered_expr, m_billingExpr := js ''p * 2''\<rparr>)"
  by code_simp

theorem tiered_model_drops_ratios_witness:
  "serializeModel (EMPTY_MODEL\<lparr>m_name := js ''m'', billingMode := tiered_expr, m_billingExpr := js ''p * 2''\<rparr>)
     = Inr EMPTY_SERIALIZED"
  by (rule tiered_model_drops_ratios [OF tiered_loaded]) (simp add: tiered_maps_def free_audio_maps_def Let_def)

text \<open>
  The warnings of the editor are complete for per-token models whose price fields hold
  numbers and whose audio input price is not zero: the model cannot be saved exactly when one
  of the two warnings about a missing price is shown.
\<close>

theorem warnings_predict_save_error:
  assumes "billingMode m = per_token"
    and fields: "\<And>p. p \<in> {inputPrice m, completionPrice m, cachePrice m, createCachePrice m, imagePrice m,
      audioInputPrice m, audioOutputPrice m} \<Longrightarrow> p \<noteq> [] \<Longrightarrow> toNumberOrNull (JStr p) \<noteq> None"
    and "\<And>z. toNumberOrNull (JStr (audioInputPrice m)) = Some z \<Longrightarrow> \<not> num_is_zero z"
  shows "(\<exists>e. serializeModel m = Inl e) \<longleftrightarrow>
     W_need_input_price \<in> set (getModelWarnings (Some m)) \<or> W_need_audio_input \<in> set (getModelWarnings (Some m))"
proof -
  have n: "toNumberOrNull (JStr p) = None \<longleftrightarrow> p = []"
    if "p \<in> {inputPrice m, completionPrice m, cachePrice m, createCachePrice m, imagePrice m,
      audioInputPrice m, audioOutputPrice m}" for p
    using fields [OF that] by (cases "p = []") simp_all
  have m: "per_token \<noteq> per_request" "per_token \<noteq> tiered_expr" by simp_all
  have "(\<exists>e. serializeModel m = Inl e) \<longleftrightarrow>
     inputPrice m = [] \<and> (completionPrice m \<noteq> [] \<or> cachePrice m \<noteq> [] \<or> createCachePrice m \<noteq> [] \<or>
        imagePrice m \<noteq> [] \<or> audioInputPrice m \<noteq> [] \<or> audioOutputPrice m \<noteq> [])
     \<or> inputPrice m \<noteq> [] \<and> audioOutputPrice m \<noteq> [] \<and> audioInputPrice m = []"
    unfolding serialize_error_iff using assms(1,3) by (auto simp: n)
  also have "\<dots> \<longleftrightarrow> W_need_input_price \<in> set (getModelWarnings (Some m)) \<or> W_need_audio_input \<in> set (getModelWarnings (Some m))"
    using assms(1) by (auto simp: getModelWarnings_def Let_def)
  finally show ?thesis .
qed

definition cache_only_model :: model where
  "cache_only_model = EMPTY_MODEL\<lparr>m_name := js ''m'', cachePrice := js ''0''\<rparr>"

theorem warnings_predict_save_error_witness:
  "(\<exists>e. serializeModel cache_only_model = Inl e) \<longleftrightarrow>
     W_need_input_price \<in> set (getModelWarnings (Some cache_only_model))
     \<or> W_need_audio_input \<in> set (getModelWarnings (Some cache_only_model))"
  by (rule warnings_predict_save_error)
     (auto simp: cache_only_model_def EMPTY_MODEL_def zero_text)

end
