(* ===== verification/ModelPricingEditor.thy ===== *)
theory ModelPricingEditor
  imports ModelPricing RequestRuleRoundtrip
begin

text \<open>
  The hook \<open>useModelPricingEditorState\<close> of
  \<open>src/web/src/pages/Setting/Ratio/hooks/useModelPricingEditorState.js\<close>: its state, the
  handlers that change it, the effects that keep the selection inside the visible models, and
  saving. A handler is a function on the state; \<open>settle\<close> is what the effects do after a render.

  \<open>localeCompare\<close> and \<open>toLowerCase\<close>, which depend on locale data, the answers of the server and
  the filter mode are arguments.
\<close>

section \<open>State\<close>

record editor =
  models :: "model list"
  initialVisibleModelNames :: "jsstr list"
  selectedModelName :: jsstr
  selectedModelNames :: "jsstr list"
  searchText :: jsstr
  currentPage :: int
  loading :: bool
  conflictOnly :: bool
  optionalFieldToggles :: "jsstr \<rightharpoonup> (price_field \<rightharpoonup> bool)"

definition PAGE_SIZE :: int where "PAGE_SIZE = 10"

definition initial_editor :: editor where
  "initial_editor = \<lparr>models = [], initialVisibleModelNames = [], selectedModelName = [],
     selectedModelNames = [], searchText = [], currentPage = 1, loading = False, conflictOnly = False,
     optionalFieldToggles = Map.empty\<rparr>"

section \<open>Loading the options\<close>

definition sourceMaps :: "(jsstr \<Rightarrow> jsstr option) \<Rightarrow> source_maps" where
  "sourceMaps options =
     \<lparr>sm_ModelPrice = parseOptionJSON (options (js ''ModelPrice'')),
      sm_ModelRatio = parseOptionJSON (options (js ''ModelRatio'')),
      sm_CompletionRatio = parseOptionJSON (options (js ''CompletionRatio'')),
      sm_CompletionRatioMeta = parseOptionJSON (options (js ''CompletionRatioMeta'')),
      sm_CacheRatio = parseOptionJSON (options (js ''CacheRatio'')),
      sm_CreateCacheRatio = parseOptionJSON (options (js ''CreateCacheRatio'')),
      sm_ImageRatio = parseOptionJSON (options (js ''ImageRatio'')),
      sm_AudioRatio = parseOptionJSON (options (js ''AudioRatio'')),
      sm_AudioCompletionRatio = parseOptionJSON (options (js ''AudioCompletionRatio'')),
      sm_ModelBillingMode = parseOptionJSON (options (js ''billing_setting.billing_mode'')),
      sm_ModelBillingExpr = parseOptionJSON (options (js ''billing_setting.billing_expr''))\<rparr>"

definition keys_of :: "jsval \<Rightarrow> jsstr list" where
  "keys_of v = map fst (entries v)"

definition allModelNames :: "jsstr list \<Rightarrow> source_maps \<Rightarrow> jsstr list" where
  "allModelNames candidateModelNames maps =
     uniq (candidateModelNames @ concat (map keys_of
       [sm_ModelPrice maps, sm_ModelRatio maps, sm_CompletionRatio maps, sm_CompletionRatioMeta maps,
        sm_CacheRatio maps, sm_CreateCacheRatio maps, sm_ImageRatio maps, sm_AudioRatio maps,
        sm_AudioCompletionRatio maps, sm_ModelBillingMode maps, sm_ModelBillingExpr maps]))"

fun buildModels :: "source_maps \<Rightarrow> jsstr list \<Rightarrow> js_error + model list" where
  "buildModels maps [] = Inr []"
| "buildModels maps (n # ns) =
     (case buildModelState n maps of
        Inl e \<Rightarrow> Inl e
      | Inr m \<Rightarrow> (case buildModels maps ns of Inl e \<Rightarrow> Inl e | Inr ms \<Rightarrow> Inr (m # ms)))"

text \<open>A stable sort by a comparison function.\<close>

fun insert_by :: "('a \<Rightarrow> 'a \<Rightarrow> int) \<Rightarrow> 'a \<Rightarrow> 'a list \<Rightarrow> 'a list" where
  "insert_by cmp x [] = [x]"
| "insert_by cmp x (y # ys) = (if cmp x y \<le> 0 then x # y # ys else y # insert_by cmp x ys)"

definition sort_by :: "('a \<Rightarrow> 'a \<Rightarrow> int) \<Rightarrow> 'a list \<Rightarrow> 'a list" where
  "sort_by cmp xs = foldr (insert_by cmp) xs []"

definition first_name :: "model list \<Rightarrow> jsstr" where  \<comment> \<open>\<open>ms[0]?.name || ''\<close>\<close>
  "first_name ms = (case ms of [] \<Rightarrow> [] | m # _ \<Rightarrow> m_name m)"

definition loadOptions ::
  "(jsstr \<Rightarrow> jsstr \<Rightarrow> int) \<Rightarrow> bool \<Rightarrow> jsstr list \<Rightarrow> (jsstr \<Rightarrow> jsstr option) \<Rightarrow> editor \<Rightarrow> js_error + editor" where
  "loadOptions localeCompare unset candidates options st =
     (let maps = sourceMaps options in
      case buildModels maps (allModelNames candidates maps) of
        Inl e \<Rightarrow> Inl e
      | Inr built \<Rightarrow>
          let nextModels = sort_by (\<lambda>a b. localeCompare (m_name a) (m_name b)) built;
              nextVisible = (if unset then filter isBasePricingUnset nextModels else nextModels)
          in Inr (st\<lparr>
               models := nextModels,
               initialVisibleModelNames := map m_name nextVisible,
               optionalFieldToggles := map_of (map (\<lambda>m. (m_name m, buildOptionalFieldToggles m)) (rev nextModels)),
               selectedModelName :=
                 (if selectedModelName st \<noteq> [] \<and> list_ex (\<lambda>m. m_name m = selectedModelName st) nextModels
                  then selectedModelName st else first_name nextVisible)\<rparr>))"

section \<open>Derived lists\<close>

definition visibleModels :: "bool \<Rightarrow> editor \<Rightarrow> model list" where
  "visibleModels unset st =
     (if unset then filter (\<lambda>m. m_name m \<in> set (initialVisibleModelNames st)) (models st) else models st)"

definition filteredModels :: "(jsstr \<Rightarrow> jsstr) \<Rightarrow> bool \<Rightarrow> editor \<Rightarrow> model list" where
  "filteredModels toLowerCase unset st =
     filter (\<lambda>m. let keyword = toLowerCase (trim (searchText st)) in
         (if keyword \<noteq> [] then str_includes (toLowerCase (m_name m)) keyword else True)
         \<and> (if conflictOnly st then hasConflict m else True))
       (visibleModels unset st)"

definition slice :: "int \<Rightarrow> int \<Rightarrow> 'a list \<Rightarrow> 'a list" where  \<comment> \<open>\<open>xs.slice(a, b)\<close> for \<open>0 \<le> a\<close>\<close>
  "slice a b xs = take (nat (b - a)) (drop (nat a) xs)"

definition pagedData :: "(jsstr \<Rightarrow> jsstr) \<Rightarrow> bool \<Rightarrow> editor \<Rightarrow> model list" where
  "pagedData toLowerCase unset st =
     (let start = (currentPage st - 1) * PAGE_SIZE in
      slice start (start + PAGE_SIZE) (filteredModels toLowerCase unset st))"

definition selectedModel :: "bool \<Rightarrow> editor \<Rightarrow> model option" where
  "selectedModel unset st = List.find (\<lambda>m. m_name m = selectedModelName st) (visibleModels unset st)"

text \<open>The two effects on the selection.\<close>

definition settle :: "bool \<Rightarrow> editor \<Rightarrow> editor" where
  "settle unset st =
     (let visible = visibleModels unset st in
      st\<lparr>selectedModelNames := filter (\<lambda>n. list_ex (\<lambda>m. m_name m = n) visible) (selectedModelNames st),
         selectedModelName :=
           (if visible = [] then []
            else if \<not> list_ex (\<lambda>m. m_name m = selectedModelName st) visible then m_name (hd visible)
            else selectedModelName st)\<rparr>)"

section \<open>Handlers\<close>

definition upsertModel :: "jsstr \<Rightarrow> (model \<Rightarrow> model) \<Rightarrow> editor \<Rightarrow> editor" where
  "upsertModel name updater st =
     st\<lparr>models := map (\<lambda>m. if m_name m \<noteq> name then m else updater m) (models st)\<rparr>"

fun set_price :: "price_field \<Rightarrow> jsstr \<Rightarrow> model \<Rightarrow> model" where
  "set_price FixedPrice v m = m\<lparr>fixedPrice := v\<rparr>"
| "set_price InputPrice v m = m\<lparr>inputPrice := v\<rparr>"
| "set_price CompletionPrice v m = m\<lparr>completionPrice := v\<rparr>"
| "set_price CachePrice v m = m\<lparr>cachePrice := v\<rparr>"
| "set_price CreateCachePrice v m = m\<lparr>createCachePrice := v\<rparr>"
| "set_price ImagePrice v m = m\<lparr>imagePrice := v\<rparr>"
| "set_price AudioInputPrice v m = m\<lparr>audioInputPrice := v\<rparr>"
| "set_price AudioOutputPrice v m = m\<lparr>audioOutputPrice := v\<rparr>"

definition isOptionalFieldEnabled :: "editor \<Rightarrow> model option \<Rightarrow> price_field \<Rightarrow> bool" where
  "isOptionalFieldEnabled st mo field =
     (case mo of None \<Rightarrow> False | Some m \<Rightarrow>
      (case optionalFieldToggles st (m_name m) of
         Some toggles \<Rightarrow> (case toggles field of Some b \<Rightarrow> b | None \<Rightarrow> buildOptionalFieldToggles m field = Some True)
       | None \<Rightarrow> buildOptionalFieldToggles m field = Some True))"

definition toggles_of :: "jsstr \<Rightarrow> (jsstr \<rightharpoonup> (price_field \<rightharpoonup> bool)) \<Rightarrow> price_field \<rightharpoonup> bool" where
  "toggles_of name ts = (case ts name of None \<Rightarrow> Map.empty | Some m \<Rightarrow> m)"

definition updateOptionalFieldToggle :: "jsstr \<Rightarrow> price_field \<Rightarrow> bool \<Rightarrow> editor \<Rightarrow> editor" where
  "updateOptionalFieldToggle name field checked st =
     st\<lparr>optionalFieldToggles :=
         (optionalFieldToggles st)(name \<mapsto> (toggles_of name (optionalFieldToggles st))(field \<mapsto> checked))\<rparr>"

definition handleOptionalFieldToggle :: "bool \<Rightarrow> price_field \<Rightarrow> bool \<Rightarrow> editor \<Rightarrow> editor" where
  "handleOptionalFieldToggle unset field checked st =
     (case selectedModel unset st of
        None \<Rightarrow> st
      | Some sel \<Rightarrow>
          let st1 = updateOptionalFieldToggle (m_name sel) field checked st in
          if checked then st1
          else let st2 = upsertModel (m_name sel)
                     (\<lambda>m. let nextModel = set_price field [] m in
                        if field = AudioInputPrice then nextModel\<lparr>audioOutputPrice := []\<rparr> else nextModel) st1
               in if field = AudioInputPrice
                  then st2\<lparr>optionalFieldToggles := (optionalFieldToggles st2)(m_name sel \<mapsto>
                         (toggles_of (m_name sel) (optionalFieldToggles st2))(AudioInputPrice \<mapsto> False, AudioOutputPrice \<mapsto> False))\<rparr>
                  else st2)"

text \<open>A price that is filled in from its ratio when it is empty.\<close>

definition filled_price :: "jsnum \<Rightarrow> jsstr \<Rightarrow> jsstr \<Rightarrow> jsstr" where
  "filled_price base price ratio =
     (if \<not> has_text price \<and> has_text ratio then formatNumber (JNum (num_mul base (string_to_number ratio))) else price)"

definition fillDerivedPricesFromBase :: "model \<Rightarrow> jsstr \<Rightarrow> model" where
  "fillDerivedPricesFromBase m nextInputPrice =
     (case toNumberOrNull (JStr nextInputPrice) of
        None \<Rightarrow> m
      | Some base \<Rightarrow>
          let raw = rawRatios m in
          m\<lparr>completionPrice :=
              (if completionRatioLocked m \<and> has_text (lockedCompletionRatio m)
               then formatNumber (JNum (num_mul base (string_to_number (lockedCompletionRatio m))))
               else filled_price base (completionPrice m) (completionRatio raw)),
            cachePrice := filled_price base (cachePrice m) (cacheRatio raw),
            createCachePrice := filled_price base (createCachePrice m) (createCacheRatio raw),
            imagePrice := filled_price base (imagePrice m) (imageRatio raw),
            audioInputPrice := filled_price base (audioInputPrice m) (audioRatio raw),
            audioOutputPrice :=
              (if \<not> has_text (audioOutputPrice m) \<and> has_text (audioRatio raw) \<and> has_text (audioCompletionRatio raw)
               then formatNumber (JNum (num_mul (num_mul base (string_to_number (audioRatio raw)))
                      (string_to_number (audioCompletionRatio raw))))
               else audioOutputPrice m)\<rparr>)"

definition NUMERIC_INPUT_REGEX :: regex where  \<comment> \<open>\<open>/^(\\d+(\\.\\d*)?|\\.\\d*)?$/\<close>\<close>
  "NUMERIC_INPUT_REGEX =
     ROpt (RAlt (RSeq (RPlus rx_digit) (ROpt (RSeq (RLit [46]) (RStar rx_digit))))
                (RSeq (RLit [46]) (RStar rx_digit)))"

definition handleNumericFieldChange :: "bool \<Rightarrow> price_field \<Rightarrow> jsstr \<Rightarrow> editor \<Rightarrow> editor" where
  "handleNumericFieldChange unset field v st =
     (case selectedModel unset st of
        None \<Rightarrow> st
      | Some sel \<Rightarrow>
          if \<not> rx_test NUMERIC_INPUT_REGEX v then st
          else upsertModel (m_name sel)
            (\<lambda>m. let updatedModel = set_price field v m in
               if field = InputPrice then fillDerivedPricesFromBase updatedModel v else updatedModel) st)"

definition DEFAULT_TIER_EXPR :: jsstr where
  "DEFAULT_TIER_EXPR = js ''tier('' @ [34] @ js ''base'' @ [34] @ js '', p * 0 + c * 0)''"

definition handleBillingModeChange :: "bool \<Rightarrow> jsstr \<Rightarrow> editor \<Rightarrow> editor" where
  "handleBillingModeChange unset v st =
     (case selectedModel unset st of
        None \<Rightarrow> st
      | Some sel \<Rightarrow> upsertModel (m_name sel)
          (\<lambda>m. let next = m\<lparr>billingMode := v\<rparr> in
             if v = tiered_expr \<and> m_billingExpr m = [] then next\<lparr>m_billingExpr := DEFAULT_TIER_EXPR\<rparr> else next) st)"

definition handleBillingExprChange :: "bool \<Rightarrow> jsstr \<Rightarrow> editor \<Rightarrow> editor" where
  "handleBillingExprChange unset newExpr st =
     (case selectedModel unset st of
        None \<Rightarrow> st
      | Some sel \<Rightarrow> upsertModel (m_name sel) (\<lambda>m. m\<lparr>m_billingExpr := newExpr\<rparr>) st)"

definition handleRequestRuleExprChange :: "bool \<Rightarrow> jsstr \<Rightarrow> editor \<Rightarrow> editor" where
  "handleRequestRuleExprChange unset newExpr st =
     (case selectedModel unset st of
        None \<Rightarrow> st
      | Some sel \<Rightarrow> upsertModel (m_name sel) (\<lambda>m. m\<lparr>m_requestRuleExpr := newExpr\<rparr>) st)"

definition setSearchText :: "jsstr \<Rightarrow> editor \<Rightarrow> editor" where
  "setSearchText v st = st\<lparr>searchText := v, currentPage := (if v = searchText st then currentPage st else 1)\<rparr>"

definition setConflictOnly :: "bool \<Rightarrow> editor \<Rightarrow> editor" where
  "setConflictOnly v st = st\<lparr>conflictOnly := v, currentPage := (if v = conflictOnly st then currentPage st else 1)\<rparr>"

datatype add_error = EmptyName | NameExists

definition addModel :: "jsstr \<Rightarrow> editor \<Rightarrow> add_error + editor" where
  "addModel modelName st =
     (let trimmedName = trim modelName in
      if trimmedName = [] then Inl EmptyName
      else if list_ex (\<lambda>m. m_name m = trimmedName) (models st) then Inl NameExists
      else let nextModel = EMPTY_MODEL\<lparr>m_name := trimmedName\<rparr> in
        Inr (st\<lparr>models := nextModel # models st,
                optionalFieldToggles := (optionalFieldToggles st)(trimmedName \<mapsto> buildOptionalFieldToggles nextModel),
                selectedModelName := trimmedName,
                currentPage := 1\<rparr>))"

definition deleteModel :: "jsstr \<Rightarrow> editor \<Rightarrow> editor" where
  "deleteModel name st =
     (let nextModels = filter (\<lambda>m. m_name m \<noteq> name) (models st) in
      st\<lparr>models := nextModels,
         optionalFieldToggles := (optionalFieldToggles st)(name := None),
         selectedModelNames := filter (\<lambda>n. n \<noteq> name) (selectedModelNames st),
         selectedModelName := (if selectedModelName st = name then first_name nextModels else selectedModelName st)\<rparr>)"

datatype apply_error = NoTemplate | NoTargets

definition copyPricing :: "model \<Rightarrow> model \<Rightarrow> model" where
  "copyPricing sel m =
     (let nextModel = m\<lparr>
            billingMode := billingMode sel, fixedPrice := fixedPrice sel, inputPrice := inputPrice sel,
            completionPrice := completionPrice sel, cachePrice := cachePrice sel,
            createCachePrice := createCachePrice sel, imagePrice := imagePrice sel,
            audioInputPrice := audioInputPrice sel, audioOutputPrice := audioOutputPrice sel,
            m_billingExpr := m_billingExpr sel, m_requestRuleExpr := m_requestRuleExpr sel\<rparr>
      in if billingMode nextModel = per_token \<and> completionRatioLocked nextModel
            \<and> has_text (inputPrice nextModel) \<and> has_text (lockedCompletionRatio nextModel)
         then nextModel\<lparr>completionPrice := formatNumber (JNum
                (num_mul (string_to_number (inputPrice nextModel)) (string_to_number (lockedCompletionRatio nextModel))))\<rparr>
         else nextModel)"

definition copyToggles :: "(price_field \<rightharpoonup> bool) \<Rightarrow> model option \<Rightarrow> price_field \<rightharpoonup> bool" where
  "copyToggles source target =
     (let on = (\<lambda>f. source f = Some True) in
      [CompletionPrice \<mapsto> (case target of Some m \<Rightarrow> completionRatioLocked m | None \<Rightarrow> False) \<or> on CompletionPrice,
       CachePrice \<mapsto> on CachePrice, CreateCachePrice \<mapsto> on CreateCachePrice, ImagePrice \<mapsto> on ImagePrice,
       AudioInputPrice \<mapsto> on AudioInputPrice, AudioOutputPrice \<mapsto> on AudioInputPrice \<and> on AudioOutputPrice])"

definition applySelectedModelPricing :: "bool \<Rightarrow> editor \<Rightarrow> apply_error + editor" where
  "applySelectedModelPricing unset st =
     (case selectedModel unset st of
        None \<Rightarrow> Inl NoTemplate
      | Some sel \<Rightarrow>
          if selectedModelNames st = [] then Inl NoTargets
          else let sourceToggles = toggles_of (m_name sel) (optionalFieldToggles st) in
            Inr (st\<lparr>
              models := map (\<lambda>m. if m_name m \<notin> set (selectedModelNames st) then m else copyPricing sel m) (models st),
              optionalFieldToggles := fold (\<lambda>n ts. ts(n \<mapsto> copyToggles sourceToggles
                  (List.find (\<lambda>m. m_name m = n) (models st)))) (selectedModelNames st) (optionalFieldToggles st)\<rparr>))"

section \<open>Saving\<close>

definition serialized_entries :: "serialized \<Rightarrow> (jsstr \<times> jsnum option) list" where
  "serialized_entries s =
     [(js ''ModelPrice'', s_ModelPrice s), (js ''ModelRatio'', s_ModelRatio s),
      (js ''CompletionRatio'', s_CompletionRatio s), (js ''CacheRatio'', s_CacheRatio s),
      (js ''CreateCacheRatio'', s_CreateCacheRatio s), (js ''ImageRatio'', s_ImageRatio s),
      (js ''AudioRatio'', s_AudioRatio s), (js ''AudioCompletionRatio'', s_AudioCompletionRatio s)]"

type_synonym js_object = "(jsstr \<times> jsval) list"

record save_output =
  o_ratios :: "(jsstr \<times> js_object) list"
  o_mode :: js_object
  o_expr :: js_object

definition empty_output :: save_output where
  "empty_output = \<lparr>o_ratios = map (\<lambda>(k, _). (k, [])) (serialized_entries EMPTY_SERIALIZED), o_mode = [], o_expr = []\<rparr>"

text \<open>\<open>output[key][name] = value\<close> for every value that is not \<open>null\<close>.\<close>

definition store_serialized :: "jsstr \<Rightarrow> serialized \<Rightarrow> (jsstr \<times> js_object) list \<Rightarrow> (jsstr \<times> js_object) list" where
  "store_serialized name s out =
     map (\<lambda>(k, obj). (k, case map_of (serialized_entries s) k of
         Some (Some v) \<Rightarrow> obj_put name (JNum v) obj | _ \<Rightarrow> obj)) out"

definition save_model :: "model \<Rightarrow> save_output \<Rightarrow> pricing_error + save_output" where
  "save_model m out =
     (let final = combineBillingExpr (m_billingExpr m) (m_requestRuleExpr m);
          out1 = (if billingMode m = tiered_expr \<and> final \<noteq> []
                  then out\<lparr>o_mode := obj_put (m_name m) (JStr tiered_expr) (o_mode out),
                           o_expr := obj_put (m_name m) (JStr final) (o_expr out)\<rparr>
                  else out)
      in (case serializeModel m of
            Inr s \<Rightarrow> Inr (out1\<lparr>o_ratios := store_serialized (m_name m) s (o_ratios out1)\<rparr>)
          | Inl e \<Rightarrow> if billingMode m \<noteq> tiered_expr then Inl e else Inr out1))"

fun save_models :: "model list \<Rightarrow> save_output \<Rightarrow> pricing_error + save_output" where
  "save_models [] out = Inr out"
| "save_models (m # ms) out = (case save_model m out of Inl e \<Rightarrow> Inl e | Inr out' \<Rightarrow> save_models ms out')"

definition put_requests :: "save_output \<Rightarrow> (jsstr \<times> jsstr) list" where
  "put_requests out =
     map (\<lambda>(k, obj). (k, case json_pretty 0 (JObj obj) of None \<Rightarrow> [] | Some t \<Rightarrow> t))
       (o_ratios out @ [(js ''billing_setting.billing_mode'', o_mode out), (js ''billing_setting.billing_expr'', o_expr out)])"

datatype save_notice = Saved | SaveFailed jsstr | SaveFailedDefault | PricingFailed pricing_error

text \<open>The server's answers: the values of all requests, or the message of a rejected one.\<close>

definition response_error :: "jsval \<Rightarrow> save_notice option" where
  "response_error res =
     (let data = (if is_nullish res then JUndef else js_prop res (js ''data''));
          ok = (if is_nullish data then JUndef else js_prop data (js ''success''));
          message = (if is_nullish data then JUndef else js_prop data (js ''message''))
      in if truthy ok then None
         else if truthy message then Some (SaveFailed (js_to_string message)) else Some SaveFailedDefault)"

record save_result =
  sent :: "(jsstr \<times> jsstr) list"
  notice :: save_notice
  refreshed :: bool
  after_save :: editor  \<comment> \<open>the state once the handler is done\<close>

definition handleSubmit :: "((jsstr \<times> jsstr) list \<Rightarrow> jsstr + jsval list) \<Rightarrow> editor \<Rightarrow> save_result" where
  "handleSubmit server st =
     (case save_models (models st) empty_output of
        Inl e \<Rightarrow> \<lparr>sent = [], notice = PricingFailed e, refreshed = False, after_save = st\<lparr>loading := False\<rparr>\<rparr>
      | Inr out \<Rightarrow>
          let requestQueue = put_requests out in
          (case server requestQueue of
             Inl msg \<Rightarrow> \<lparr>sent = requestQueue, notice = (if msg = [] then SaveFailedDefault else SaveFailed msg), refreshed = False, after_save = st\<lparr>loading := False\<rparr>\<rparr>
           | Inr results \<Rightarrow>
               (case List.map_filter response_error results of
                  err # _ \<Rightarrow> \<lparr>sent = requestQueue, notice = err, refreshed = False, after_save = st\<lparr>loading := False\<rparr>\<rparr>
                | [] \<Rightarrow> \<lparr>sent = requestQueue, notice = Saved, refreshed = True, after_save = st\<lparr>loading := False\<rparr>\<rparr>)))"

section \<open>Names and selection\<close>

abbreviation names :: "editor \<Rightarrow> jsstr list" where
  "names st \<equiv> map m_name (models st)"

definition selection_ok :: "bool \<Rightarrow> editor \<Rightarrow> bool" where
  "selection_ok unset st \<longleftrightarrow>
     (if visibleModels unset st = [] then selectedModelName st = []
      else selectedModelName st \<in> m_name ` set (visibleModels unset st))
     \<and> set (selectedModelNames st) \<subseteq> m_name ` set (visibleModels unset st)"

lemma visible_settle [simp]: "visibleModels unset (settle unset' st) = visibleModels unset st"
  by (simp add: visibleModels_def settle_def Let_def)

lemma names_settle [simp]: "names (settle unset st) = names st"
  by (simp add: settle_def Let_def)

lemma ex_name: "list_ex (\<lambda>m. m_name m = n) ms \<longleftrightarrow> n \<in> m_name ` set ms"
  by (auto simp: list_ex_iff)

lemma settle_fields:
  "selectedModelNames (settle unset st) = filter (\<lambda>n. n \<in> m_name ` set (visibleModels unset st)) (selectedModelNames st)"
  "selectedModelName (settle unset st) =
     (if visibleModels unset st = [] then []
      else if selectedModelName st \<notin> m_name ` set (visibleModels unset st) then m_name (hd (visibleModels unset st))
      else selectedModelName st)"
  by (simp_all add: settle_def Let_def ex_name)

lemma selection_settle: "selection_ok unset (settle unset st)"
  unfolding selection_ok_def visible_settle settle_fields by auto

lemma settle_id:
  assumes "selection_ok unset st"
  shows "settle unset st = st"
proof -
  have "filter (\<lambda>n. n \<in> m_name ` set (visibleModels unset st)) (selectedModelNames st) = selectedModelNames st"
    using assms by (auto simp: selection_ok_def filter_id_conv)
  then show ?thesis
    using assms unfolding settle_def Let_def ex_name selection_ok_def by (simp split: if_splits)
qed

text \<open>Operations that change the models of the list in place.\<close>

locale model_update =
  fixes op :: "editor \<Rightarrow> editor"
  assumes keeps_names: "names (op st) = names st"
begin

lemma distinct_kept: "distinct (names st) \<Longrightarrow> distinct (names (settle unset (op st)))"
  by (simp add: keeps_names)

lemma count_kept: "length (models (op st)) = length (models st)"
  using arg_cong [OF keeps_names, of length] by simp

end

lemma names_upsert: "(\<And>m. m_name (f m) = m_name m) \<Longrightarrow> names (upsertModel n f st) = names st"
  by (simp add: upsertModel_def comp_def)

lemma name_set_price [simp]: "m_name (set_price f v m) = m_name m"
  by (cases f) simp_all

lemma name_fill [simp]: "m_name (fillDerivedPricesFromBase m v) = m_name m"
  by (simp add: fillDerivedPricesFromBase_def Let_def split: option.splits)

lemma name_copy [simp]: "m_name (copyPricing sel m) = m_name m"
  by (simp add: copyPricing_def Let_def)

interpretation numeric_change: model_update "handleNumericFieldChange unset field v" for unset field v
  by unfold_locales (auto simp: handleNumericFieldChange_def Let_def intro!: names_upsert split: option.splits)

interpretation toggle_change: model_update "handleOptionalFieldToggle unset field checked" for unset field checked
  by unfold_locales
     (auto simp: handleOptionalFieldToggle_def updateOptionalFieldToggle_def upsertModel_def Let_def
       split: option.splits)

interpretation mode_change: model_update "handleBillingModeChange unset v" for unset v
  by unfold_locales (auto simp: handleBillingModeChange_def Let_def intro!: names_upsert split: option.splits)

interpretation expr_change: model_update "handleBillingExprChange unset v" for unset v
  by unfold_locales (auto simp: handleBillingExprChange_def intro!: names_upsert split: option.splits)

interpretation rule_change: model_update "handleRequestRuleExprChange unset v" for unset v
  by unfold_locales (auto simp: handleRequestRuleExprChange_def intro!: names_upsert split: option.splits)

interpretation search_change: model_update "setSearchText v" for v
  by unfold_locales (simp add: setSearchText_def)

interpretation conflict_change: model_update "setConflictOnly v" for v
  by unfold_locales (simp add: setConflictOnly_def)

section \<open>Runs of the editor\<close>

inductive editor_step :: "(jsstr \<Rightarrow> jsstr \<Rightarrow> int) \<Rightarrow> bool \<Rightarrow> editor \<Rightarrow> editor \<Rightarrow> bool" for localeCompare unset where
  load: "loadOptions localeCompare unset candidates options st = Inr st' \<Longrightarrow> editor_step localeCompare unset st (settle unset st')"
| toggle: "editor_step localeCompare unset st (settle unset (handleOptionalFieldToggle unset field checked st))"
| numeric: "editor_step localeCompare unset st (settle unset (handleNumericFieldChange unset field v st))"
| mode: "editor_step localeCompare unset st (settle unset (handleBillingModeChange unset v st))"
| billing: "editor_step localeCompare unset st (settle unset (handleBillingExprChange unset v st))"
| rules: "editor_step localeCompare unset st (settle unset (handleRequestRuleExprChange unset v st))"
| search: "editor_step localeCompare unset st (settle unset (setSearchText v st))"
| conflict: "editor_step localeCompare unset st (settle unset (setConflictOnly b st))"
| select: "editor_step localeCompare unset st (settle unset (st\<lparr>selectedModelName := n\<rparr>))"
| tick: "editor_step localeCompare unset st (settle unset (st\<lparr>selectedModelNames := ns\<rparr>))"
| page: "editor_step localeCompare unset st (settle unset (st\<lparr>currentPage := p\<rparr>))"
| add: "addModel n st = Inr st' \<Longrightarrow> editor_step localeCompare unset st (settle unset st')"
| delete: "editor_step localeCompare unset st (settle unset (deleteModel n st))"
| apply_pricing: "applySelectedModelPricing unset st = Inr st' \<Longrightarrow> editor_step localeCompare unset st (settle unset st')"

inductive reachable :: "(jsstr \<Rightarrow> jsstr \<Rightarrow> int) \<Rightarrow> bool \<Rightarrow> editor \<Rightarrow> bool" for localeCompare unset where
  start: "reachable localeCompare unset initial_editor"
| step: "reachable localeCompare unset st \<Longrightarrow> editor_step localeCompare unset st st' \<Longrightarrow> reachable localeCompare unset st'"

lemma set_insert_by: "set (insert_by cmp x ys) = insert x (set ys)"
  by (induction ys) auto

lemma distinct_insert_by: "distinct (map f ys) \<Longrightarrow> f x \<notin> f ` set ys \<Longrightarrow> distinct (map f (insert_by cmp x ys))"
  by (induction ys) (auto simp: set_insert_by)

lemma sort_by_props: "set (sort_by cmp xs) = set xs" "distinct (map f xs) \<Longrightarrow> distinct (map f (sort_by cmp xs))"
proof -
  show s: "set (sort_by cmp xs) = set xs" for xs
    by (induction xs) (simp_all add: sort_by_def set_insert_by)
  show "distinct (map f xs) \<Longrightarrow> distinct (map f (sort_by cmp xs))"
  proof (induction xs)
    case (Cons x xs)
    have "sort_by cmp (x # xs) = insert_by cmp x (sort_by cmp xs)" by (simp add: sort_by_def)
    with Cons s [of xs] show ?case by (simp add: distinct_insert_by)
  qed (simp add: sort_by_def)
qed

lemma buildModels_names: "buildModels maps ns = Inr ms \<Longrightarrow> map m_name ms = ns"
  by (induction ns arbitrary: ms) (auto simp: loaded_ratio_prices(1) split: sum.splits)

lemma load_distinct:
  assumes "loadOptions lc unset candidates options st = Inr st'"
  shows "distinct (names st')" "set (names st') = set (allModelNames candidates (sourceMaps options))"
proof -
  let ?cmp = "\<lambda>a b. lc (m_name a) (m_name b)"
  obtain built where b: "buildModels (sourceMaps options) (allModelNames candidates (sourceMaps options)) = Inr built"
    and st': "models st' = sort_by ?cmp built"
    using assms by (auto simp: loadOptions_def Let_def split: sum.splits)
  have "map m_name built = allModelNames candidates (sourceMaps options)" by (rule buildModels_names [OF b])
  moreover have "distinct (allModelNames candidates (sourceMaps options))" by (simp add: allModelNames_def)
  ultimately show "distinct (names st')" "set (names st') = set (allModelNames candidates (sourceMaps options))"
    using sort_by_props(2) [of m_name built ?cmp] sort_by_props(1) [of ?cmp built] st' by (metis, metis set_map)
qed

lemma step_invariant:
  "editor_step lc unset st st' \<Longrightarrow> distinct (names st) \<Longrightarrow> distinct (names st') \<and> selection_ok unset st'"
proof (induction rule: editor_step.induct)
  case (load candidates options st st')
  then show ?case using load_distinct(1) selection_settle by simp
next
  case (add n st st')
  then show ?case
    unfolding addModel_def Let_def ex_name by (auto simp: selection_settle split: if_splits)
next
  case (delete st n)
  then show ?case by (simp add: deleteModel_def Let_def selection_settle distinct_map_filter)
next
  case (apply_pricing st st')
  then have "names st' = names st"
    by (auto simp: applySelectedModelPricing_def Let_def split: option.splits if_splits)
  with apply_pricing show ?case by (simp add: selection_settle)
qed (simp_all add: selection_settle numeric_change.keeps_names toggle_change.keeps_names mode_change.keeps_names
    expr_change.keeps_names rule_change.keeps_names search_change.keeps_names conflict_change.keeps_names)

section \<open>What is saved\<close>

lemma map_of_map_entry: "map_of (map (\<lambda>(k, v). (k, f k v)) xs) k = map_option (f k) (map_of xs k)"
  by (induction xs) auto

definition saved :: "save_output \<Rightarrow> jsstr \<Rightarrow> jsstr \<Rightarrow> jsval option" where
  "saved out key name = (case map_of (o_ratios out) key of None \<Rightarrow> None | Some obj \<Rightarrow> map_of obj name)"

definition model_value :: "jsstr \<Rightarrow> model \<Rightarrow> jsval option" where
  "model_value key m =
     (case serializeModel m of
        Inl _ \<Rightarrow> None
      | Inr s \<Rightarrow> (case map_of (serialized_entries s) key of Some (Some v) \<Rightarrow> Some (JNum v) | _ \<Rightarrow> None))"

definition model_tiered :: "model \<Rightarrow> bool" where
  "model_tiered m \<longleftrightarrow> billingMode m = tiered_expr \<and> combineBillingExpr (m_billingExpr m) (m_requestRuleExpr m) \<noteq> []"

lemma store_saved:
  "map_of (store_serialized name s out) key =
     map_option (\<lambda>obj. case map_of (serialized_entries s) key of
       Some (Some v) \<Rightarrow> obj_put name (JNum v) obj | _ \<Rightarrow> obj) (map_of out key)"
  by (simp add: store_serialized_def map_of_map_entry)

lemma store_keys: "map fst (store_serialized name s out) = map fst out"
  by (auto simp: store_serialized_def)

lemma save_model_effect:
  assumes "save_model m out = Inr out'"
  shows "map fst (o_ratios out') = map fst (o_ratios out)"
    and "key \<in> fst ` set (o_ratios out) \<Longrightarrow>
      saved out' key name = (if name = m_name m \<and> model_value key m \<noteq> None then model_value key m else saved out key name)"
    and "map_of (o_mode out') name =
      (if name = m_name m \<and> model_tiered m then Some (JStr tiered_expr) else map_of (o_mode out) name)"
    and "map_of (o_expr out') name =
      (if name = m_name m \<and> model_tiered m
       then Some (JStr (combineBillingExpr (m_billingExpr m) (m_requestRuleExpr m))) else map_of (o_expr out) name)"
proof -
  show "map fst (o_ratios out') = map fst (o_ratios out)"
    using assms by (auto simp: save_model_def Let_def store_keys split: sum.splits if_splits)
  show "saved out' key name = (if name = m_name m \<and> model_value key m \<noteq> None then model_value key m else saved out key name)"
    if "key \<in> fst ` set (o_ratios out)"
  proof -
    from that obtain obj where "map_of (o_ratios out) key = Some obj"
      by (metis map_of_eq_None_iff option.exhaust)
    with assms show ?thesis
      by (auto simp: save_model_def Let_def saved_def model_value_def store_saved
          split: sum.splits if_splits option.splits)
  qed
  show "map_of (o_mode out') name =
      (if name = m_name m \<and> model_tiered m then Some (JStr tiered_expr) else map_of (o_mode out) name)"
    "map_of (o_expr out') name =
      (if name = m_name m \<and> model_tiered m
       then Some (JStr (combineBillingExpr (m_billingExpr m) (m_requestRuleExpr m))) else map_of (o_expr out) name)"
    using assms by (auto simp: save_model_def Let_def model_tiered_def split: sum.splits if_splits)
qed

definition tiered_value :: "model \<Rightarrow> jsval option" where
  "tiered_value m = (if model_tiered m then Some (JStr (combineBillingExpr (m_billingExpr m) (m_requestRuleExpr m))) else None)"

lemma save_models_other:
  assumes "save_models ms out = Inr out'" and "name \<notin> m_name ` set ms"
  shows "map fst (o_ratios out') = map fst (o_ratios out)
    \<and> (key \<in> set (map fst (o_ratios out)) \<longrightarrow> saved out' key name = saved out key name)
    \<and> map_of (o_mode out') name = map_of (o_mode out) name \<and> map_of (o_expr out') name = map_of (o_expr out) name"
  using assms
proof (induction ms arbitrary: out)
  case (Cons m ms)
  then obtain out1 where s1: "save_model m out = Inr out1" and s2: "save_models ms out1 = Inr out'"
    by (auto split: sum.splits)
  have n: "name \<noteq> m_name m" "name \<notin> m_name ` set ms" using Cons.prems(2) by auto
  show ?case using Cons.IH [OF s2 n(2)] save_model_effect(1) [OF s1] save_model_effect(2) [OF s1, of key name]
      save_model_effect(3,4) [OF s1, of name] n(1) by (simp add: set_map)
qed simp

lemma save_models_keys:
  "save_models ms out = Inr out' \<Longrightarrow> map fst (o_ratios out') = map fst (o_ratios out)"
proof (induction ms arbitrary: out)
  case (Cons m ms)
  then show ?case by (auto simp: save_model_effect(1) split: sum.splits)
qed simp

lemma save_models_at:
  assumes "save_models ms out = Inr out'" and "distinct (map m_name ms)" and "m \<in> set ms"
  shows "(key \<in> set (map fst (o_ratios out)) \<longrightarrow>
       saved out' key (m_name m) = (if model_value key m \<noteq> None then model_value key m else saved out key (m_name m)))
    \<and> map_of (o_expr out') (m_name m) = (if model_tiered m then tiered_value m else map_of (o_expr out) (m_name m))
    \<and> map_of (o_mode out') (m_name m) = (if model_tiered m then Some (JStr tiered_expr) else map_of (o_mode out) (m_name m))"
  using assms
proof (induction ms arbitrary: out)
  case (Cons x ms)
  then obtain out1 where s1: "save_model x out = Inr out1" and s2: "save_models ms out1 = Inr out'"
    by (auto split: sum.splits)
  note e = save_model_effect(1) [OF s1] save_model_effect(2) [OF s1, of key "m_name m"] save_model_effect(3,4) [OF s1, of "m_name m"]
  show ?case
  proof (cases "m = x")
    case True
    then have "m_name m \<notin> m_name ` set ms" using Cons.prems(2) by auto
    from save_models_other [OF s2 this, of key] e True show ?thesis by (simp add: tiered_value_def)
  next
    case False
    then have m: "m \<in> set ms" "distinct (map m_name ms)" "m_name m \<noteq> m_name x"
      using Cons.prems(2,3) by (auto simp: image_iff)
    show ?thesis using Cons.IH [OF s2 m(2,1)] e m(3) by simp
  qed
qed simp

section \<open>Properties\<close>

text \<open>
  C20: in every state the editor can reach, the names of the models are pairwise different, the
  selected model is one of the visible ones (and none only when there is none), and every ticked
  model is visible.
\<close>

theorem editor_invariant:
  assumes "reachable localeCompare unset st"
  shows "distinct (names st) \<and> selection_ok unset st"
  using assms
proof induction
  case start
  show ?case by (simp add: initial_editor_def selection_ok_def visibleModels_def)
next
  case (step st st')
  then show ?case using step_invariant by blast
qed

lemma reachable_added:
  "reachable (\<lambda>a b. 0) False (settle False (the_right (addModel (js '' gpt '') initial_editor)))"
  if "\<And>x. the_right x = (case x of Inr y \<Rightarrow> y | Inl _ \<Rightarrow> initial_editor)" for the_right :: "add_error + editor \<Rightarrow> editor"
proof -
  have "\<exists>st. addModel (js '' gpt '') initial_editor = Inr st"
    by (simp add: addModel_def initial_editor_def Let_def js_def trim_def trimStart_def trimEnd_def js_ws_def)
  then obtain st where "addModel (js '' gpt '') initial_editor = Inr st" by blast
  then show ?thesis
    using reachable.step [OF reachable.start editor_step.add] by (simp add: that)
qed

definition sample_editor :: editor where
  "sample_editor = settle False (case addModel (js '' gpt '') initial_editor of Inr y \<Rightarrow> y | Inl _ \<Rightarrow> initial_editor)"

theorem editor_invariant_witness:
  "distinct (names sample_editor) \<and> selection_ok False sample_editor"
  using editor_invariant [OF reachable_added [of "\<lambda>x. case x of Inr y \<Rightarrow> y | Inl _ \<Rightarrow> initial_editor"]]
  by (simp add: sample_editor_def)

definition option_keys :: "jsstr list" where
  "option_keys = map js [''ModelPrice'', ''ModelRatio'', ''CompletionRatio'', ''CacheRatio'', ''CreateCacheRatio'',
     ''ImageRatio'', ''AudioRatio'', ''AudioCompletionRatio'', ''billing_setting.billing_mode'',
     ''billing_setting.billing_expr'']"

lemma save_model_fails: "(\<exists>e. save_model m out = Inl e) \<longleftrightarrow> billingMode m \<noteq> tiered_expr \<and> (\<exists>e. serializeModel m = Inl e)"
  by (auto simp: save_model_def Let_def split: sum.splits)

lemma save_models_fail:
  "(\<exists>e. save_models ms out = Inl e) \<longleftrightarrow> (\<exists>m \<in> set ms. billingMode m \<noteq> tiered_expr \<and> (\<exists>e. serializeModel m = Inl e))"
proof (induction ms arbitrary: out)
  case (Cons m ms)
  then show ?case using save_model_fails [of m out] by (cases "save_model m out") auto
qed simp

lemma empty_output_keys: "map fst (o_ratios empty_output) @ map js [''billing_setting.billing_mode'', ''billing_setting.billing_expr''] = option_keys"
  by (simp add: empty_output_def serialized_entries_def option_keys_def)

lemma put_requests_keys:
  "save_models ms empty_output = Inr out \<Longrightarrow> map fst (put_requests out) = option_keys"
  using save_models_keys [of ms empty_output out] empty_output_keys
  by (simp add: put_requests_def comp_def case_prod_unfold)

lemma response_errors: "err \<in> set (List.map_filter response_error rs) \<Longrightarrow> err \<noteq> Saved"
proof -
  assume "err \<in> set (List.map_filter response_error rs)"
  then obtain r where "response_error r = Some err" by (auto simp: map_filter_def)
  then show ?thesis by (auto simp: response_error_def Let_def split: if_splits)
qed

text \<open>
  C21: saving is all or nothing: when some model that is not tiered cannot be serialised, no request
  is sent; otherwise exactly one request per option key is sent, ten in all. The options are
  reloaded exactly when everything was saved.
\<close>

theorem handleSubmit_all_or_nothing:
  "(sent (handleSubmit server st) = []) =
     (\<exists>m \<in> set (models st). billingMode m \<noteq> tiered_expr \<and> (\<exists>e. serializeModel m = Inl e))
   \<and> map fst (sent (handleSubmit server st)) \<in> {[], option_keys}
   \<and> refreshed (handleSubmit server st) = (notice (handleSubmit server st) = Saved)
   \<and> after_save (handleSubmit server st) = st\<lparr>loading := False\<rparr>"
proof (cases "save_models (models st) empty_output")
  case (Inl e)
  then show ?thesis using save_models_fail [of "models st" empty_output] by (simp add: handleSubmit_def)
next
  case (Inr out)
  then have k: "map fst (put_requests out) = option_keys" by (rule put_requests_keys)
  then have "put_requests out \<noteq> []" by (auto simp: option_keys_def)
  moreover have "err \<noteq> Saved" if "List.map_filter response_error rs = err # es" for err es rs
    using response_errors [of err rs] that by simp
  ultimately show ?thesis
    using Inr k save_models_fail [of "models st" empty_output]
    by (auto simp: handleSubmit_def Let_def split: sum.splits list.splits)
qed

lemma saved_empty: "saved empty_output key name = None"
  by (auto simp: saved_def empty_output_def serialized_entries_def split: option.splits dest!: map_of_SomeD)

text \<open>
  C22: what is saved is what the models say: for models with different names, the object sent for a
  ratio option holds at a model's name exactly the number serialised for that model, nothing when
  there is none, and no other names.
\<close>

theorem saved_values_exact:
  assumes "save_models (models st) empty_output = Inr out" and "distinct (names st)"
    and "key \<in> set (take 8 option_keys)"
  shows "saved out key name =
     (case List.find (\<lambda>m. m_name m = name) (models st) of None \<Rightarrow> None | Some m \<Rightarrow> model_value key m)"
proof -
  have k: "key \<in> set (map fst (o_ratios empty_output))"
    using assms(3) by (simp add: option_keys_def empty_output_def serialized_entries_def)
  show ?thesis
  proof (cases "List.find (\<lambda>m. m_name m = name) (models st)")
    case None
    then have "name \<notin> m_name ` set (models st)" by (auto simp: find_None_iff)
    with save_models_other [OF assms(1) this, of key] k None show ?thesis by (simp add: saved_empty)
  next
    case (Some m)
    then have "m \<in> set (models st)" "m_name m = name" by (auto simp: find_Some_iff)
    with save_models_at [OF assms(1,2) this(1), of key] k Some show ?thesis by (auto simp: saved_empty)
  qed
qed

lemma sample_models: "models sample_editor = [EMPTY_MODEL\<lparr>m_name := js ''gpt''\<rparr>]"
  by (simp add: sample_editor_def addModel_def initial_editor_def settle_def Let_def js_def trim_def
      trimStart_def trimEnd_def js_ws_def)

lemma sample_saved: "\<exists>out. save_models (models sample_editor) empty_output = Inr out"
  using save_models_fail [of "models sample_editor" empty_output] serialize_error_iff [of "hd (models sample_editor)"]
  by (cases "save_models (models sample_editor) empty_output") (auto simp: sample_models EMPTY_MODEL_def)

theorem saved_values_exact_witness:
  "\<exists>out. save_models (models sample_editor) empty_output = Inr out
     \<and> saved out (js ''ModelRatio'') (js ''claude'') = None"
proof -
  obtain out where o: "save_models (models sample_editor) empty_output = Inr out" using sample_saved by blast
  have d: "distinct (names sample_editor)" by (simp add: sample_models)
  have k: "js ''ModelRatio'' \<in> set (take 8 option_keys)" by (simp add: option_keys_def)
  show ?thesis using o saved_values_exact [OF o d k, of "js ''claude''"] by (simp add: sample_models)
qed

text \<open>
  A tiered model survives a save and a reload: the billing mode and the expression sent for it
  load as the same rules and the same price part, without its outer parentheses.
\<close>

theorem tiered_model_roundtrip:
  assumes "save_models (models st) empty_output = Inr out" and "distinct (names st)" and "m \<in> set (models st)"
    and "billingMode m = tiered_expr" and "m_requestRuleExpr m = buildRequestRuleExpr gs"
    and "\<And>g. g \<in> set gs \<Longrightarrow> canonical_group g" and "gs \<noteq> []"
    and "trim (m_billingExpr m) \<noteq> []" "balanced (trim (m_billingExpr m))"
    and "tryParseRequestRuleExpr (js ''('' @ trim (m_billingExpr m) @ js '')'') = Inr None"
    and "sm_ModelBillingMode maps = JObj (o_mode out)" and "sm_ModelBillingExpr maps = JObj (o_expr out)"
  shows "buildModelState (m_name m) maps = Inr (EMPTY_MODEL\<lparr>m_name := m_name m, billingMode := tiered_expr,
    m_billingExpr := unwrapOuterParens (m_billingExpr m), m_requestRuleExpr := m_requestRuleExpr m\<rparr>)"
proof -
  have split: "splitBillingExprAndRequestRules (combineBillingExpr (m_billingExpr m) (m_requestRuleExpr m)) =
    Inr \<lparr>billingExpr = unwrapOuterParens (m_billingExpr m), requestRuleExpr = m_requestRuleExpr m\<rparr>"
    unfolding assms(5) by (rule split_combined) (use assms in simp_all)
  have "combineBillingExpr (m_billingExpr m) (m_requestRuleExpr m) \<noteq> []"
    using assms(8) by (simp add: combineBillingExpr_def Let_def)
  then have "model_tiered m" using assms(4) by (simp add: model_tiered_def)
  with save_models_at [OF assms(1-3)] have
    "map_of (o_expr out) (m_name m) = Some (JStr (combineBillingExpr (m_billingExpr m) (m_requestRuleExpr m)))"
    "map_of (o_mode out) (m_name m) = Some (JStr tiered_expr)"
    by (simp_all add: tiered_value_def)
  then show ?thesis
    by (simp add: buildModelState_def tieredModelState_def assms(11,12) string_or_empty_def split)
qed

definition tiered_editor :: editor where
  "tiered_editor = initial_editor\<lparr>models := [EMPTY_MODEL\<lparr>m_name := js ''m'', billingMode := tiered_expr,
     m_billingExpr := js ''p * 2 + c * 8'', m_requestRuleExpr := buildRequestRuleExpr [sample_group]\<rparr>]\<rparr>"

lemma tiered_saved: "\<exists>out. save_models (models tiered_editor) empty_output = Inr out"
  using save_models_fail [of "models tiered_editor" empty_output]
  by (cases "save_models (models tiered_editor) empty_output") (auto simp: tiered_editor_def EMPTY_MODEL_def)

theorem tiered_model_roundtrip_witness:
  "\<exists>out. save_models (models tiered_editor) empty_output = Inr out \<and>
     buildModelState (js ''m'') (tiered_maps\<lparr>sm_ModelBillingMode := JObj (o_mode out), sm_ModelBillingExpr := JObj (o_expr out)\<rparr>)
     = Inr (EMPTY_MODEL\<lparr>m_name := js ''m'', billingMode := tiered_expr,
         m_billingExpr := unwrapOuterParens (js ''p * 2 + c * 8''), m_requestRuleExpr := buildRequestRuleExpr [sample_group]\<rparr>)"
proof -
  obtain out where o: "save_models (models tiered_editor) empty_output = Inr out" using tiered_saved by blast
  let ?m = "hd (models tiered_editor)"
  have m: "?m \<in> set (models tiered_editor)" "distinct (names tiered_editor)" "billingMode ?m = tiered_expr"
    "m_requestRuleExpr ?m = buildRequestRuleExpr [sample_group]" "m_billingExpr ?m = js ''p * 2 + c * 8''"
    "m_name ?m = js ''m''"
    by (simp_all add: tiered_editor_def)
  have "buildModelState (m_name ?m) (tiered_maps\<lparr>sm_ModelBillingMode := JObj (o_mode out), sm_ModelBillingExpr := JObj (o_expr out)\<rparr>)
     = Inr (EMPTY_MODEL\<lparr>m_name := m_name ?m, billingMode := tiered_expr,
         m_billingExpr := unwrapOuterParens (m_billingExpr ?m), m_requestRuleExpr := m_requestRuleExpr ?m\<rparr>)"
    by (rule tiered_model_roundtrip [OF o m(2,1,3,4)]) (use sample_canonical sample_base in \<open>simp_all add: m(5)\<close>)
  then show ?thesis using o unfolding m(4-6) by blast
qed

text \<open>
  Applying the template to ticked models makes them save like the template: when neither has a
  locked completion ratio and the template has a valid input price or is billed per request, every
  option gets the same number for the target as for the template.
\<close>

theorem copyPricing_saves_equal:
  assumes "\<not> completionRatioLocked sel" "\<not> completionRatioLocked m"
    and "billingMode sel = per_request \<or> toNumberOrNull (JStr (inputPrice sel)) \<noteq> None"
  shows "model_value key (copyPricing sel m) = model_value key sel"
proof -
  have "serializeModel (copyPricing sel m) = (case serializeModel sel of
      Inl (MissingInputPrice _) \<Rightarrow> Inl (MissingInputPrice (m_name m))
    | Inl (MissingAudioInputPrice _) \<Rightarrow> Inl (MissingAudioInputPrice (m_name m)) | Inr s \<Rightarrow> Inr s)"
    using assms by (auto simp: serializeModel_def copyPricing_def Let_def split: option.splits)
  then show ?thesis by (simp add: model_value_def split: sum.splits pricing_error.splits)
qed

definition template_model :: model where
  "template_model = EMPTY_MODEL\<lparr>m_name := js ''m'', inputPrice := js ''0'', cachePrice := js ''0''\<rparr>"

theorem copyPricing_saves_equal_witness:
  "model_value (js ''ModelRatio'') (copyPricing template_model (EMPTY_MODEL\<lparr>m_name := js ''n''\<rparr>)) =
   model_value (js ''ModelRatio'') template_model"
  by (rule copyPricing_saves_equal) (simp_all add: template_model_def EMPTY_MODEL_def zero_text)

text \<open>
  The pages of the table show the filtered models in order, ten a page: the first \<open>n\<close> pages
  together are the first \<open>10 n\<close> filtered models.
\<close>

theorem pages_partition:
  "concat (map (\<lambda>p. pagedData toLowerCase unset (st\<lparr>currentPage := int p\<rparr>)) [1..<Suc n]) =
   take (10 * n) (filteredModels toLowerCase unset st)"
proof (induction n)
  case (Suc n)
  have f: "filteredModels toLowerCase unset (st\<lparr>currentPage := p\<rparr>) = filteredModels toLowerCase unset st" for p
    by (simp add: filteredModels_def visibleModels_def)
  have "pagedData toLowerCase unset (st\<lparr>currentPage := int (Suc n)\<rparr>) =
      take 10 (drop (10 * n) (filteredModels toLowerCase unset st))"
    by (simp add: pagedData_def f slice_def PAGE_SIZE_def Let_def nat_mult_distrib mult.commute)
  with Suc show ?case by (simp add: take_add [symmetric] add.commute)
qed simp

end
