(* ===== verification/Sidebar.thy ===== *)
theory Sidebar
  imports JsValue
begin

text \<open>
  Which modules the sidebar shows, \<open>src/web/src/hooks/common/useSidebar.js\<close>: the
  administrator's configuration merged over the defaults, the configuration of the user, their
  combination, and the refresh event that keeps all instances of the hook in step.

  Objects are association lists of their own properties; a name that is inherited from
  \<open>Object.prototype\<close> is not modelled.
\<close>

section \<open>Configuration\<close>

definition section_of :: "string list \<Rightarrow> jsval" where
  "section_of ms = JObj (map (\<lambda>m. (js m, JBool True)) (''enabled'' # ms))"

definition DEFAULT_ADMIN_CONFIG :: jsval where
  "DEFAULT_ADMIN_CONFIG = JObj
     [(js ''chat'', section_of [''playground'', ''chat'']),
      (js ''console'', section_of [''detail'', ''token'', ''log'', ''midjourney'', ''task'']),
      (js ''personal'', section_of [''topup'', ''personal'']),
      (js ''admin'', section_of [''channel'', ''models'', ''deployment'', ''redemption'', ''user'', ''subscription'', ''setting''])]"

definition deepClone :: "jsval \<Rightarrow> js_error + jsval" where
  "deepClone v =
     (case json_stringify v of
        None \<Rightarrow> Inl SyntaxError
      | Some t \<Rightarrow> (case json_parse t of None \<Rightarrow> Inl SyntaxError | Some w \<Rightarrow> Inr w))"

definition mergeSection :: "(jsstr \<times> jsval) list \<Rightarrow> jsstr \<times> jsval \<Rightarrow> (jsstr \<times> jsval) list" where
  "mergeSection merged p =
     (case p of (sectionKey, sectionConfig) \<Rightarrow>
        if \<not> truthy sectionConfig \<or> \<not> typeof_object sectionConfig then merged
        else (case map_of merged sectionKey of
                Some cur \<Rightarrow>
                  if truthy cur
                  then obj_put sectionKey (JObj (obj_spread (obj_spread [] (entries cur)) (entries sectionConfig))) merged
                  else obj_put sectionKey (JObj (obj_spread [] (entries sectionConfig))) merged
              | None \<Rightarrow> obj_put sectionKey (JObj (obj_spread [] (entries sectionConfig))) merged))"

definition mergeAdminConfig :: "jsval \<Rightarrow> js_error + jsval" where
  "mergeAdminConfig savedConfig =
     (case deepClone DEFAULT_ADMIN_CONFIG of
        Inl e \<Rightarrow> Inl e
      | Inr merged \<Rightarrow>
          if \<not> truthy savedConfig \<or> \<not> typeof_object savedConfig then Inr merged
          else Inr (JObj (foldl mergeSection (entries merged) (entries savedConfig))))"

text \<open>The status field holds the saved configuration as JSON text; broken text means the defaults.\<close>

definition adminConfig :: "jsval \<Rightarrow> js_error + jsval" where
  "adminConfig sidebarModulesAdmin =
     (if truthy sidebarModulesAdmin
      then (case json_parse (js_to_string sidebarModulesAdmin) of
              Some config \<Rightarrow> mergeAdminConfig config
            | None \<Rightarrow> mergeAdminConfig JNull)
      else mergeAdminConfig JNull)"

abbreviation enabled_key :: jsstr where "enabled_key \<equiv> js ''enabled''"

definition obj_entries :: "jsval \<Rightarrow> jsstr list" where  \<comment> \<open>\<open>Object.keys\<close>\<close>
  "obj_entries v = map fst (entries v)"

definition defaultSection :: "jsval \<Rightarrow> (jsstr \<times> jsval) list" where
  "defaultSection adminSection =
     foldl (\<lambda>acc moduleKey.
        if moduleKey \<noteq> enabled_key \<and> truthy (js_prop adminSection moduleKey)
        then obj_put moduleKey (JBool True) acc else acc)
       [(enabled_key, JBool True)] (obj_entries adminSection)"

definition defaultUserConfig :: "jsval \<Rightarrow> jsval" where
  "defaultUserConfig admin =
     JObj (foldl (\<lambda>acc sectionKey.
         if truthy (prop_opt (js_prop admin sectionKey) enabled_key)
         then obj_put sectionKey (JObj (defaultSection (js_prop admin sectionKey))) acc else acc)
       [] (obj_entries admin))"

text \<open>The user's configuration from the answer of \<open>/api/user/self\<close>: any failure means the default.\<close>

definition user_modules :: "jsval \<Rightarrow> js_error + jsval" where
  "user_modules res =
     (if is_nullish res then Inl TypeError
      else let data = js_prop res (js ''data'') in
        if is_nullish data then Inl TypeError
        else if \<not> truthy (js_prop data (js ''success'')) then Inr JUndef
        else let user = js_prop data (js ''data'') in
          if is_nullish user then Inl TypeError else Inr (js_prop user (js ''sidebar_modules'')))"

definition loadedUserConfig :: "jsval \<Rightarrow> js_error + jsval \<Rightarrow> jsval" where
  "loadedUserConfig admin answer =
     (case answer of
        Inl _ \<Rightarrow> defaultUserConfig admin
      | Inr res \<Rightarrow>
          (case user_modules res of
             Inl _ \<Rightarrow> defaultUserConfig admin
           | Inr mods \<Rightarrow>
               if truthy mods
               then (case mods of
                       JStr s \<Rightarrow> (case json_parse s of Some c \<Rightarrow> c | None \<Rightarrow> defaultUserConfig admin)
                     | _ \<Rightarrow> mods)
               else defaultUserConfig admin))"

section \<open>What is shown\<close>

definition sectionEnabled :: "jsval \<Rightarrow> bool" where
  "sectionEnabled userSection = (if truthy userSection then js_prop userSection enabled_key \<noteq> JBool False else True)"

definition userAllowed :: "jsval \<Rightarrow> jsstr \<Rightarrow> bool" where
  "userAllowed userSection moduleKey =
     (if truthy userSection then js_prop userSection moduleKey \<noteq> JBool False else True)"

definition finalSection :: "jsval \<Rightarrow> jsval \<Rightarrow> (jsstr \<times> jsval) list" where
  "finalSection adminSection userSection =
     (if \<not> truthy (prop_opt adminSection enabled_key) then [(enabled_key, JBool False)]
      else foldl (\<lambda>acc moduleKey.
          if moduleKey = enabled_key then acc
          else obj_put moduleKey (js_and (js_and (js_prop adminSection moduleKey) (JBool (userAllowed userSection moduleKey)))
                 (JBool (sectionEnabled userSection))) acc)
        [(enabled_key, JBool (sectionEnabled userSection))] (obj_entries adminSection))"

definition finalConfig :: "jsval \<Rightarrow> jsval \<Rightarrow> (jsstr \<times> jsval) list" where
  "finalConfig admin user =
     (if \<not> truthy admin \<or> obj_entries admin = [] then []
      else if \<not> truthy user then []
      else foldl (\<lambda>acc sectionKey.
          obj_put sectionKey (JObj (finalSection (js_prop admin sectionKey) (js_prop user sectionKey))) acc)
        [] (obj_entries admin))"

definition final_prop :: "(jsstr \<times> jsval) list \<Rightarrow> jsstr \<Rightarrow> jsstr \<Rightarrow> jsval" where
  "final_prop final sectionKey key = prop_opt (js_prop (JObj final) sectionKey) key"

definition isModuleVisible :: "(jsstr \<times> jsval) list \<Rightarrow> jsstr \<Rightarrow> jsstr option \<Rightarrow> bool" where
  "isModuleVisible final sectionKey moduleKey =
     (case moduleKey of
        Some k \<Rightarrow> if k \<noteq> [] then final_prop final sectionKey k = JBool True
                  else final_prop final sectionKey enabled_key = JBool True
      | None \<Rightarrow> final_prop final sectionKey enabled_key = JBool True)"

definition getVisibleModules :: "(jsstr \<times> jsval) list \<Rightarrow> jsstr \<Rightarrow> jsstr list" where
  "getVisibleModules final sectionKey =
     (let sec = js_prop (JObj final) sectionKey in
      if \<not> truthy (prop_opt sec enabled_key) then []
      else filter (\<lambda>k. k \<noteq> enabled_key \<and> js_prop sec k = JBool True) (obj_entries sec))"

definition hasSectionVisibleModules :: "(jsstr \<times> jsval) list \<Rightarrow> jsstr \<Rightarrow> bool" where
  "hasSectionVisibleModules final sectionKey =
     (let sec = js_prop (JObj final) sectionKey in
      if \<not> truthy (prop_opt sec enabled_key) then False
      else list_ex (\<lambda>k. k \<noteq> enabled_key \<and> js_prop sec k = JBool True) (obj_entries sec))"

section \<open>Instances and the refresh event\<close>

record sidebar_instance =
  i_id :: jsstr
  i_user :: jsval
  i_loading :: bool
  i_loadedOnce :: bool

text \<open>\<open>loadUserConfig({ withLoading })\<close>, run to its end.\<close>

definition loadUserConfig :: "jsval \<Rightarrow> bool option \<Rightarrow> js_error + jsval \<Rightarrow> sidebar_instance \<Rightarrow> sidebar_instance" where
  "loadUserConfig admin withLoading answer i =
     (let shouldShowLoader = (case withLoading of Some b \<Rightarrow> b | None \<Rightarrow> \<not> i_loadedOnce i) in
      i\<lparr>i_user := loadedUserConfig admin answer,
        i_loading := (if shouldShowLoader then False else i_loading i),
        i_loadedOnce := True\<rparr>)"

definition handleRefresh :: "jsval \<Rightarrow> jsstr \<Rightarrow> bool \<Rightarrow> js_error + jsval \<Rightarrow> sidebar_instance \<Rightarrow> sidebar_instance" where
  "handleRefresh admin sourceId skipLoader answer i =
     (if sourceId = i_id i then i
      else if obj_entries admin \<noteq> [] then loadUserConfig admin (if skipLoader then Some False else None) answer i
      else i)"

text \<open>
  \<open>refreshUserConfig\<close> on the instance with this identifier: it reloads itself and the event
  reaches every instance; all of them ask the server, which gives the same answer.
\<close>

definition refreshUserConfig :: "jsval \<Rightarrow> jsstr \<Rightarrow> js_error + jsval \<Rightarrow> sidebar_instance list \<Rightarrow> sidebar_instance list" where
  "refreshUserConfig admin sourceId answer instances =
     map (handleRefresh admin sourceId True answer)
       (map (\<lambda>i. if i_id i = sourceId \<and> obj_entries admin \<noteq> [] then loadUserConfig admin (Some False) answer i else i) instances)"

section \<open>Facts\<close>

text \<open>An object filled key by key.\<close>

lemma map_of_filled:
  "map_of (foldl (\<lambda>acc k. if P k then obj_put k (f k) acc else acc) acc ks) x =
     (if x \<in> set ks \<and> P x then Some (f x) else map_of acc x)"
  by (induction ks arbitrary: acc) auto

lemma map_of_filled_skip:
  "map_of (foldl (\<lambda>acc k. if P k then acc else obj_put k (f k) acc) acc ks) x =
     (if x \<in> set ks \<and> \<not> P x then Some (f x) else map_of acc x)"
  by (induction ks arbitrary: acc) auto

lemma map_of_filled_all:
  "map_of (foldl (\<lambda>acc k. obj_put k (f k) acc) acc ks) x = (if x \<in> set ks then Some (f x) else map_of acc x)"
  by (induction ks arbitrary: acc) auto

lemma default_ok: "json_ok DEFAULT_ADMIN_CONFIG"
  by code_simp

lemma deepClone_default: "deepClone DEFAULT_ADMIN_CONFIG = Inr DEFAULT_ADMIN_CONFIG"
  using json_stringify_ok [OF default_ok] json.read_print [OF default_ok] by (simp add: deepClone_def)

lemma default_object: "DEFAULT_ADMIN_CONFIG = JObj (entries DEFAULT_ADMIN_CONFIG)"
  by (simp add: DEFAULT_ADMIN_CONFIG_def)

lemma merge_object:
  assumes "mergeAdminConfig saved = Inr admin"
  shows "\<exists>ps. admin = JObj ps"
proof (cases "\<not> truthy saved \<or> \<not> typeof_object saved")
  case True
  then have "admin = DEFAULT_ADMIN_CONFIG" using assms by (simp add: mergeAdminConfig_def deepClone_default)
  then show ?thesis using default_object by metis
next
  case False
  then show ?thesis using assms by (auto simp: mergeAdminConfig_def deepClone_default)
qed

lemma merge_total: "\<exists>admin. mergeAdminConfig saved = Inr admin"
  by (auto simp: mergeAdminConfig_def deepClone_default)

definition sections_ok :: "(jsstr \<times> jsval) list \<Rightarrow> bool" where
  "sections_ok ps \<longleftrightarrow> (\<forall>s v. map_of ps s = Some v \<longrightarrow> (\<exists>qs. v = JObj qs))"

lemma mergeSection_ok: "sections_ok ps \<Longrightarrow> sections_ok (mergeSection ps p)"
  by (auto simp: sections_ok_def mergeSection_def split: prod.splits option.splits)

lemma mergeSections_ok: "sections_ok ps \<Longrightarrow> sections_ok (foldl mergeSection ps es)"
  by (induction es arbitrary: ps) (auto intro: mergeSection_ok)

lemma default_sections: "sections_ok (entries DEFAULT_ADMIN_CONFIG)"
  by (auto simp: sections_ok_def DEFAULT_ADMIN_CONFIG_def section_of_def split: if_splits)

lemma merge_sections:
  assumes "mergeAdminConfig saved = Inr (JObj ps)"
  shows "sections_ok ps"
proof (cases "\<not> truthy saved \<or> \<not> typeof_object saved")
  case True
  then have "JObj ps = DEFAULT_ADMIN_CONFIG" using assms by (simp add: mergeAdminConfig_def deepClone_default)
  then show ?thesis using default_sections by (metis entries.simps(1))
next
  case False
  then show ?thesis
    using assms mergeSections_ok [OF default_sections] by (auto simp: mergeAdminConfig_def deepClone_default)
qed

lemma adminConfig_object:
  assumes "adminConfig raw = Inr admin"
  obtains ps where "admin = JObj ps" "sections_ok ps"
proof -
  obtain saved where "mergeAdminConfig saved = Inr admin"
    using assms by (auto simp: adminConfig_def split: if_splits option.splits)
  with merge_object merge_sections that show thesis by blast
qed

lemma truthy_prop_key: "truthy (js_prop (JObj qs) k) \<Longrightarrow> k \<in> set (map fst qs)"
  by (auto split: option.splits simp: rev_image_eqI dest: map_of_SomeD)

lemma finalSection_prop:
  assumes "k \<noteq> enabled_key"
  shows "js_prop (JObj (finalSection (JObj qs) u)) k =
    (if truthy (js_prop (JObj qs) enabled_key) \<and> k \<in> set (map fst qs)
     then js_and (js_and (js_prop (JObj qs) k) (JBool (userAllowed u k))) (JBool (sectionEnabled u)) else JUndef)"
  using assms unfolding finalSection_def
  by (simp add: prop_opt_def obj_entries_def map_of_filled_skip del: js_prop.simps(1) js_and_def)
     (simp add: map_of_filled_skip)

lemma finalSection_enabled:
  "js_prop (JObj (finalSection (JObj qs) u)) enabled_key =
     JBool (truthy (js_prop (JObj qs) enabled_key) \<and> sectionEnabled u)"
  by (simp add: finalSection_def prop_opt_def obj_entries_def map_of_filled_skip)

lemma js_and_true: "js_and (js_and a (JBool u)) (JBool e) = JBool True \<longleftrightarrow> truthy a \<and> u \<and> e"
  by (cases a) (auto simp: js_and_def)

lemma visible_iff:
  assumes "sections_ok ps" and "truthy user" and "k \<noteq> []" "k \<noteq> enabled_key"
  shows "isModuleVisible (finalConfig (JObj ps) user) s (Some k) \<longleftrightarrow>
     truthy (prop_opt (js_prop (JObj ps) s) enabled_key) \<and> truthy (prop_opt (js_prop (JObj ps) s) k)
     \<and> sectionEnabled (js_prop user s) \<and> userAllowed (js_prop user s) k"
proof (cases "map_of ps s")
  case None
  then have "s \<notin> set (map fst ps)" by (simp add: map_of_eq_None_iff)
  then have "js_prop (JObj (finalConfig (JObj ps) user)) s = JUndef"
    by (simp add: finalConfig_def obj_entries_def map_of_filled_all)
  then show ?thesis using assms(3) None by (simp add: isModuleVisible_def final_prop_def prop_opt_def)
next
  case (Some v)
  then obtain qs where v: "v = JObj qs" using assms(1) by (auto simp: sections_ok_def)
  have "s \<in> set (map fst ps)" using Some by (metis map_of_eq_None_iff list.set_map option.distinct(1))
  then have "js_prop (JObj (finalConfig (JObj ps) user)) s = JObj (finalSection (JObj qs) (js_prop user s))"
    using Some assms(2) by (auto simp: finalConfig_def obj_entries_def map_of_filled_all v)
  moreover have "js_prop (JObj ps) s = JObj qs" using Some v by simp
  ultimately show ?thesis
    using assms(3) finalSection_prop [OF assms(4), of qs "js_prop user s"] truthy_prop_key [of qs k]
    by (cases "truthy (js_prop (JObj qs) enabled_key) \<and> k \<in> set (map fst qs)")
       (auto simp: isModuleVisible_def final_prop_def prop_opt_def js_and_true simp del: js_prop.simps(1) set_map)
qed

lemma default_user_section:
  "js_prop (defaultUserConfig (JObj ps)) s =
     (if s \<in> set (map fst ps) \<and> truthy (prop_opt (js_prop (JObj ps) s) enabled_key)
      then JObj (defaultSection (js_prop (JObj ps) s)) else JUndef)"
  by (simp add: defaultUserConfig_def obj_entries_def map_of_filled)

lemma default_user_allows:
  assumes "sections_ok ps" and "truthy (prop_opt (js_prop (JObj ps) s) k)"
  shows "sectionEnabled (js_prop (defaultUserConfig (JObj ps)) s)"
    and "userAllowed (js_prop (defaultUserConfig (JObj ps)) s) k"
  unfolding default_user_section sectionEnabled_def userAllowed_def
  using assms(2)
  by (auto simp: defaultSection_def map_of_filled prop_opt_def)

section \<open>Properties\<close>

text \<open>
  A module is shown exactly when the administrator enabled its section and the module, and the
  user hid neither of them. A user configuration decides nothing else.
\<close>

theorem sidebar_visible_iff:
  assumes "adminConfig raw = Inr admin" and "truthy user" and "k \<noteq> []" and "k \<noteq> enabled_key"
  shows "isModuleVisible (finalConfig admin user) s (Some k) \<longleftrightarrow>
     truthy (prop_opt (js_prop admin s) enabled_key) \<and> truthy (prop_opt (js_prop admin s) k)
     \<and> sectionEnabled (js_prop user s) \<and> userAllowed (js_prop user s) k"
proof -
  obtain ps where "admin = JObj ps" "sections_ok ps" using assms(1) by (rule adminConfig_object)
  then show ?thesis using visible_iff assms(2-4) by blast
qed

lemma no_admin_config: "adminConfig JUndef = Inr DEFAULT_ADMIN_CONFIG"
  by (simp add: adminConfig_def mergeAdminConfig_def deepClone_default)

theorem sidebar_visible_iff_witness:
  "isModuleVisible (finalConfig DEFAULT_ADMIN_CONFIG (JObj [(js ''chat'', JObj [(js ''playground'', JBool False)])]))
     (js ''chat'') (Some (js ''playground'')) = False
   \<and> isModuleVisible (finalConfig DEFAULT_ADMIN_CONFIG (JObj [(js ''chat'', JObj [(js ''playground'', JBool False)])]))
     (js ''chat'') (Some (js ''chat''))"
  using sidebar_visible_iff [OF no_admin_config, of "JObj [(js ''chat'', JObj [(js ''playground'', JBool False)])]"
      "js ''playground''" "js ''chat''"]
    sidebar_visible_iff [OF no_admin_config, of "JObj [(js ''chat'', JObj [(js ''playground'', JBool False)])]"
      "js ''chat''" "js ''chat''"]
  by (simp add: sectionEnabled_def userAllowed_def DEFAULT_ADMIN_CONFIG_def section_of_def prop_opt_def)

text \<open>
  A user can only hide: whatever configuration the user stored, every module it shows is also
  shown by the default configuration derived from the administrator's.
\<close>

theorem user_config_only_hides:
  assumes "adminConfig raw = Inr admin" and "truthy user" and "k \<noteq> []" and "k \<noteq> enabled_key"
    and "isModuleVisible (finalConfig admin user) s (Some k)"
  shows "isModuleVisible (finalConfig admin (defaultUserConfig admin)) s (Some k)"
proof -
  obtain ps where ps: "admin = JObj ps" "sections_ok ps" using assms(1) by (rule adminConfig_object)
  have t: "truthy (defaultUserConfig (JObj ps))" by (simp add: defaultUserConfig_def)
  show ?thesis
    using assms(5) default_user_allows [OF ps(2)]
    unfolding ps(1) visible_iff [OF ps(2) assms(2-4)] visible_iff [OF ps(2) t assms(3,4)] by blast
qed

theorem user_config_only_hides_witness:
  "isModuleVisible (finalConfig DEFAULT_ADMIN_CONFIG (defaultUserConfig DEFAULT_ADMIN_CONFIG))
     (js ''chat'') (Some (js ''chat''))"
proof (rule user_config_only_hides [OF no_admin_config, of "JObj [(js ''personal'', JObj [])]"])
  show "isModuleVisible (finalConfig DEFAULT_ADMIN_CONFIG (JObj [(js ''personal'', JObj [])])) (js ''chat'') (Some (js ''chat''))"
    by code_simp
qed simp_all

text \<open>
  After one instance refreshes, all instances of the sidebar hold the same user configuration,
  the one of the server's answer, and none of them shows its loader for it.
\<close>

theorem refresh_synchronises:
  assumes "obj_entries admin \<noteq> []"
  shows "map i_user (refreshUserConfig admin src answer instances) =
     replicate (length instances) (loadedUserConfig admin answer)
   \<and> map i_loading (refreshUserConfig admin src answer instances) = map i_loading instances
   \<and> map i_id (refreshUserConfig admin src answer instances) = map i_id instances"
  using assms
  by (induction instances) (simp_all add: refreshUserConfig_def handleRefresh_def loadUserConfig_def Let_def)

definition two_instances :: "sidebar_instance list" where
  "two_instances = [\<lparr>i_id = js ''a'', i_user = JNull, i_loading = True, i_loadedOnce = False\<rparr>,
                    \<lparr>i_id = js ''b'', i_user = JObj [], i_loading = False, i_loadedOnce = True\<rparr>]"

theorem refresh_synchronises_witness:
  "map i_user (refreshUserConfig DEFAULT_ADMIN_CONFIG (js ''a'') (Inl TypeError) two_instances) =
     replicate 2 (defaultUserConfig DEFAULT_ADMIN_CONFIG)"
proof -
  have "obj_entries DEFAULT_ADMIN_CONFIG \<noteq> []" by (simp add: obj_entries_def DEFAULT_ADMIN_CONFIG_def)
  from refresh_synchronises [OF this, of "js ''a''" "Inl TypeError" two_instances]
  have "map i_user (refreshUserConfig DEFAULT_ADMIN_CONFIG (js ''a'') (Inl TypeError) two_instances) =
     replicate (length two_instances) (loadedUserConfig DEFAULT_ADMIN_CONFIG (Inl TypeError))" by blast
  then show ?thesis by (simp add: two_instances_def loadedUserConfig_def numeral_2_eq_2)
qed

end
