(* ===== verification/WebStorage.thy ===== *)
theory WebStorage
  imports JsValue
begin

text \<open>
  The browser's \<open>localStorage\<close>, as the program uses it: a map from keys to strings. A write may
  be refused (the quota is used up, or storage is blocked), which throws; \<open>accepts\<close> says whether
  the browser takes a write.
\<close>

record storage =
  items :: "jsstr \<rightharpoonup> jsstr"
  accepts :: "jsstr \<Rightarrow> jsstr \<Rightarrow> bool"

definition getItem :: "jsstr \<Rightarrow> storage \<Rightarrow> jsstr option" where
  "getItem k s = items s k"

definition setItem :: "jsstr \<Rightarrow> jsstr \<Rightarrow> storage \<Rightarrow> js_error + storage" where
  "setItem k v s = (if accepts s k v then Inr (s\<lparr>items := (items s)(k \<mapsto> v)\<rparr>) else Inl (ErrorMsg (js ''QuotaExceededError'')))"

definition removeItem :: "jsstr \<Rightarrow> storage \<Rightarrow> storage" where
  "removeItem k s = s\<lparr>items := (items s)(k := None)\<rparr>"

text \<open>The contract of a string store, on which the components that persist something rely.\<close>

locale string_store =
  fixes get :: "'k \<Rightarrow> 's \<Rightarrow> 'v option"
    and put :: "'k \<Rightarrow> 'v \<Rightarrow> 's \<Rightarrow> 'e + 's"
    and drop_key :: "'k \<Rightarrow> 's \<Rightarrow> 's"
  assumes get_put: "put k v s = Inr s' \<Longrightarrow> get j s' = (if j = k then Some v else get j s)"
    and get_drop: "get j (drop_key k s) = (if j = k then None else get j s)"
begin

lemma get_put_same: "put k v s = Inr s' \<Longrightarrow> get k s' = Some v"
  by (simp add: get_put)

lemma get_put_other: "put k v s = Inr s' \<Longrightarrow> j \<noteq> k \<Longrightarrow> get j s' = get j s"
  by (simp add: get_put)

text \<open>A failed write that is caught leaves the old value.\<close>

definition put_or_keep :: "'k \<Rightarrow> 'v \<Rightarrow> 's \<Rightarrow> 's" where
  "put_or_keep k v s = (case put k v s of Inr s' \<Rightarrow> s' | Inl _ \<Rightarrow> s)"

lemma put_or_keep_cases:
  "get k (put_or_keep k v s) = Some v \<or> put_or_keep k v s = s"
  by (auto simp: put_or_keep_def get_put split: sum.splits)

lemma put_or_keep_other: "j \<noteq> k \<Longrightarrow> get j (put_or_keep k v s) = get j s"
  by (auto simp: put_or_keep_def get_put split: sum.splits)

end

interpretation local: string_store getItem setItem removeItem
  by unfold_locales (auto simp: getItem_def setItem_def removeItem_def split: if_splits)

text \<open>The state of a browser that takes every write.\<close>

definition empty_storage :: storage where
  "empty_storage = \<lparr>items = Map.empty, accepts = (\<lambda>_ _. True)\<rparr>"

end
