(* ===== verification/Messages.thy ===== *)
theory Messages
  imports JsValue
begin

text \<open>
  Messages of the playground, the message helpers of \<open>src/web/src/helpers/utils.jsx\<close>: extraction
  of \<open><think>\<close> sections, building and checking of messages. A message is a JavaScript value. The
  counter of message identifiers and the clock are passed explicitly.
\<close>

section \<open>Searching\<close>

text \<open>The first occurrence of a pattern: what is before and after it.\<close>

fun cut_at :: "jsstr \<Rightarrow> jsstr \<Rightarrow> (jsstr \<times> jsstr) option" where
  "cut_at p [] = (if p = [] then Some ([], []) else None)"
| "cut_at p (c # cs) =
     (if startsWith (c # cs) p then Some ([], drop (length p) (c # cs))
      else (case cut_at p cs of None \<Rightarrow> None | Some (a, b) \<Rightarrow> Some (c # a, b)))"

lemma cut_at_eq: "cut_at p s = Some (a, b) \<Longrightarrow> s = a @ p @ b"
proof (induction s arbitrary: a)
  case (Cons c cs)
  show ?case
  proof (cases "startsWith (c # cs) p")
    case True
    then obtain r where r: "c # cs = p @ r" using startsWith_iff by blast
    have "a = [] \<and> b = drop (length p) (c # cs)"
      using Cons.prems True by (simp only: cut_at.simps if_True option.inject prod.inject)
    then show ?thesis unfolding r by simp
  next
    case False
    then obtain a' where "cut_at p cs = Some (a', b)" "a = c # a'"
      using Cons.prems by (auto split: option.splits)
    with Cons.IH show ?thesis by simp
  qed
qed (auto split: if_splits)

lemma cut_at_shorter: "cut_at p s = Some (a, b) \<Longrightarrow> p \<noteq> [] \<Longrightarrow> length b < length s"
  using cut_at_eq [of p s a b] by simp

abbreviation open_tag :: jsstr where "open_tag \<equiv> js ''<think>''"
abbreviation close_tag :: jsstr where "close_tag \<equiv> js ''</think>''"

section \<open>Think tags\<close>

text \<open>The matches of \<open>/<think>([\s\S]*?)<\/think>/g\<close>: the texts around them and inside them.\<close>

function think_parts :: "jsstr \<Rightarrow> jsstr list \<times> jsstr list" where
  "think_parts s =
     (case cut_at open_tag s of
        None \<Rightarrow> ([s], [])
      | Some (before, rest) \<Rightarrow>
          (case cut_at close_tag rest of
             None \<Rightarrow> ([s], [])
           | Some (thought, after) \<Rightarrow>
               let (replies, thoughts) = think_parts after in (before # replies, thought # thoughts)))"
  by pat_completeness auto
termination
  by (relation "measure length") (auto dest!: cut_at_shorter)

declare think_parts.simps [simp del]

text \<open>\<open>s.replace(/<\/?think>/g, '')\<close>.\<close>

function strip_tags :: "jsstr \<Rightarrow> jsstr" where
  "strip_tags [] = []"
| "strip_tags (c # cs) =
     (if startsWith (c # cs) open_tag then strip_tags (drop 6 cs)
      else if startsWith (c # cs) close_tag then strip_tags (drop 7 cs)
      else c # strip_tags cs)"
  by pat_completeness auto
termination
  by (relation "measure length") auto

definition thought_separator :: jsstr where
  "thought_separator = [10, 10] @ js ''---'' @ [10, 10]"

definition join_reasoning :: "jsstr \<Rightarrow> jsstr \<Rightarrow> jsstr" where
  "join_reasoning reasoning thoughts =
     (if reasoning \<noteq> [] \<and> thoughts \<noteq> [] then reasoning @ thought_separator @ thoughts
      else if reasoning \<noteq> [] then reasoning else thoughts)"

definition processThinkTags :: "jsstr \<Rightarrow> jsstr \<Rightarrow> jsstr \<times> jsstr" where
  "processThinkTags content reasoningContent =
     (if content = [] \<or> \<not> str_includes content open_tag then (content, reasoningContent)
      else let (replies, thoughts) = think_parts content in
        (trim (strip_tags (concat replies)), join_reasoning reasoningContent (join thought_separator thoughts)))"

text \<open>\<open>lastIndexOf\<close>: the last occurrence of a pattern, what is before it and from it on.\<close>

fun cut_last :: "jsstr \<Rightarrow> jsstr \<Rightarrow> (jsstr \<times> jsstr) option" where
  "cut_last p [] = (if p = [] then Some ([], []) else None)"
| "cut_last p (c # cs) =
     (case cut_last p cs of
        Some (a, b) \<Rightarrow> Some (c # a, b)
      | None \<Rightarrow> if startsWith (c # cs) p then Some ([], c # cs) else None)"

definition processIncompleteThinkTags :: "jsstr \<Rightarrow> jsstr \<Rightarrow> jsstr \<times> jsstr" where
  "processIncompleteThinkTags content reasoningContent =
     (if content = [] then ([], reasoningContent)
      else (case cut_last open_tag content of
          None \<Rightarrow> processThinkTags content reasoningContent
        | Some (cleanContent, fragment) \<Rightarrow>
            if \<not> str_includes fragment close_tag then
              let unclosedThought = trim (drop (length open_tag) fragment);
                  processedReasoning = (if unclosedThought \<noteq> [] then join_reasoning reasoningContent unclosedThought
                                        else reasoningContent)
              in processThinkTags cleanContent processedReasoning
            else processThinkTags content reasoningContent))"

section \<open>Messages\<close>

abbreviation msg_prop :: "jsval \<Rightarrow> string \<Rightarrow> jsval" where
  "msg_prop m k \<equiv> js_prop m (js k)"

definition getTextContent :: "jsval \<Rightarrow> js_error + jsval" where
  "getTextContent message =
     (if \<not> truthy message \<or> \<not> truthy (msg_prop message ''content'') then Inr (JStr [])
      else (case msg_prop message ''content'' of
          JArr parts \<Rightarrow>
            if list_ex is_nullish (takeWhile (\<lambda>i. is_nullish i \<or> msg_prop i ''type'' \<noteq> JStr (js ''text'')) parts)
            then Inl TypeError
            else (case List.find (\<lambda>i. msg_prop i ''type'' = JStr (js ''text'')) parts of
                    Some part \<Rightarrow> Inr (js_or (msg_prop part ''text'') (JStr []))
                  | None \<Rightarrow> Inr (JStr []))
        | JStr s \<Rightarrow> Inr (JStr s)
        | _ \<Rightarrow> Inr (JStr [])))"

definition buildMessageContent :: "jsstr \<Rightarrow> jsstr list \<Rightarrow> bool \<Rightarrow> jsval" where
  "buildMessageContent textContent imageUrls imageEnabled =
     (if textContent = [] \<and> imageUrls = [] then JStr []
      else let validImageUrls = filter (\<lambda>u. u \<noteq> [] \<and> trim u \<noteq> []) imageUrls in
        if imageEnabled \<and> validImageUrls \<noteq> [] then
          JArr (JObj [(js ''type'', JStr (js ''text'')), (js ''text'', JStr textContent)] #
            map (\<lambda>u. JObj [(js ''type'', JStr (js ''image_url'')), (js ''image_url'', JObj [(js ''url'', JStr (trim u))])]) validImageUrls)
        else JStr textContent)"

definition createMessage :: "jsnum \<Rightarrow> int \<Rightarrow> jsstr \<Rightarrow> jsval \<Rightarrow> (jsstr \<times> jsval) list \<Rightarrow> jsval \<times> int" where
  "createMessage now messageId role content options =
     (JObj (obj_spread [(js ''role'', JStr role), (js ''content'', content), (js ''createAt'', JNum now),
        (js ''id'', JStr (show_nat messageId))] options), messageId + 1)"

definition createLoadingAssistantMessage :: "jsnum \<Rightarrow> int \<Rightarrow> jsval \<times> int" where
  "createLoadingAssistantMessage now messageId =
     createMessage now messageId (js ''assistant'') (JStr [])
       [(js ''reasoningContent'', JStr []), (js ''isReasoningExpanded'', JBool True),
        (js ''isThinkingComplete'', JBool False), (js ''hasAutoCollapsed'', JBool False),
        (js ''status'', JStr (js ''loading''))]"

definition formatMessageForAPI :: "jsval \<Rightarrow> jsval" where
  "formatMessageForAPI message =
     (if \<not> truthy message then JNull
      else JObj [(js ''role'', msg_prop message ''role''), (js ''content'', msg_prop message ''content'')])"

definition isValidMessage :: "jsval \<Rightarrow> bool" where
  "isValidMessage message \<longleftrightarrow>
     truthy message \<and> truthy (msg_prop message ''role'')
     \<and> (truthy (msg_prop message ''content'') \<or> msg_prop message ''content'' = JStr [])"

text \<open>The last message with a role; a \<open>null\<close> among the messages after it throws.\<close>

fun last_with_role :: "jsstr \<Rightarrow> jsval list \<Rightarrow> js_error + jsval" where
  "last_with_role role [] = Inr JNull"
| "last_with_role role (m # rest) =
     (if is_nullish m then Inl TypeError
      else if msg_prop m ''role'' = JStr role then Inr m else last_with_role role rest)"

definition getLastUserMessage :: "jsval \<Rightarrow> js_error + jsval" where
  "getLastUserMessage messages =
     (case messages of JArr ms \<Rightarrow> last_with_role (js ''user'') (rev ms) | _ \<Rightarrow> Inr JNull)"

definition getLastAssistantMessage :: "jsval \<Rightarrow> js_error + jsval" where
  "getLastAssistantMessage messages =
     (case messages of JArr ms \<Rightarrow> last_with_role (js ''assistant'') (rev ms) | _ \<Rightarrow> Inr JNull)"

section \<open>Facts\<close>

text \<open>A text with think sections between plain texts.\<close>

fun render :: "jsstr \<Rightarrow> (jsstr \<times> jsstr) list \<Rightarrow> jsstr" where
  "render first [] = first"
| "render first ((thought, reply) # ps) = first @ open_tag @ thought @ close_tag @ render reply ps"

definition tagless :: "jsstr \<Rightarrow> bool" where
  "tagless s \<longleftrightarrow> 60 \<notin> set s"

lemma open_tag_list: "open_tag = [60, 116, 104, 105, 110, 107, 62]"
  by (simp add: js_def)

lemma close_tag_list: "close_tag = [60, 47, 116, 104, 105, 110, 107, 62]"
  by (simp add: js_def)

lemma cut_at_tagless: "tagless a \<Longrightarrow> cut_at (60 # p) (a @ (60 # p) @ b) = Some (a, b)"
proof (induction a)
  case Nil
  have "startsWith ((60 # p) @ b) (60 # p)" by (rule startsWith_append)
  then show ?case by (simp del: startsWith.simps)
next
  case (Cons x a)
  then show ?case by (auto simp: tagless_def)
qed

lemma cut_at_none: "tagless a \<Longrightarrow> cut_at (60 # p) a = None"
  by (induction a) (auto simp: tagless_def)

lemma think_parts_render:
  "tagless first \<Longrightarrow> (\<And>t r. (t, r) \<in> set ps \<Longrightarrow> tagless t \<and> tagless r) \<Longrightarrow>
   think_parts (render first ps) = (first # map snd ps, map fst ps)"
proof (induction first ps rule: render.induct)
  case (1 first)
  then show ?case by (subst think_parts.simps) (simp add: open_tag_list cut_at_none)
next
  case (2 first thought reply ps)
  have t: "tagless thought" "tagless reply" using 2(3) by auto
  have "think_parts (render reply ps) = (reply # map snd ps, map fst ps)" using 2 t by auto
  then show ?case
    using cut_at_tagless [OF 2(2), of "tl open_tag" "thought @ close_tag @ render reply ps"]
      cut_at_tagless [OF t(1), of "tl close_tag" "render reply ps"]
    by (subst think_parts.simps) (simp add: open_tag_list close_tag_list)
qed

lemma strip_tags_tagless: "tagless s \<Longrightarrow> strip_tags s = s"
  by (induction s) (auto simp: tagless_def js_def)

lemma render_includes: "ps \<noteq> [] \<Longrightarrow> str_includes (render first ps) open_tag"
proof (cases ps)
  case (Cons p rest)
  then show ?thesis unfolding str_includes_iff by (cases p) (auto intro: exI [of _ first])
qed simp

section \<open>Properties\<close>

text \<open>
  The think sections of a model's answer move into the reasoning text: of an answer whose parts
  contain no tag, the content keeps exactly the plain parts, trimmed, and the reasoning is what was
  there before followed by every thought in order, with separators.
\<close>

theorem think_tags_extracted:
  assumes "tagless first" and "\<And>t r. (t, r) \<in> set ps \<Longrightarrow> tagless t \<and> tagless r" and "ps \<noteq> []"
  shows "processThinkTags (render first ps) reasoning =
    (trim (concat (first # map snd ps)), join_reasoning reasoning (join thought_separator (map fst ps)))"
proof -
  have "tagless (concat (first # map snd ps))" using assms(1,2) by (fastforce simp: tagless_def)
  moreover have "render first ps \<noteq> []" using assms(3) by (cases ps) (auto simp: js_def)
  ultimately show ?thesis
    using render_includes [OF assms(3)] think_parts_render [OF assms(1,2)]
    by (simp add: processThinkTags_def strip_tags_tagless)
qed

theorem think_tags_extracted_witness:
  "processThinkTags (js ''<think>a</think> b'') [] = (js ''b'', js ''a'')"
proof -
  have "processThinkTags (render [] [(js ''a'', js '' b'')]) [] =
    (trim (concat ([] # map snd [(js ''a'', js '' b'')])), join_reasoning [] (join thought_separator (map fst [(js ''a'', js '' b'')])))"
    by (rule think_tags_extracted) (auto simp: tagless_def js_def)
  moreover have "trim (js '' b'') = js ''b''" by (simp add: js_def trim_def trimStart_def trimEnd_def js_ws_def)
  ultimately show ?thesis by (simp add: join_reasoning_def js_def)
qed

end
