(* ===== verification/Playground.thy ===== *)
theory Playground
  imports WebStorage Messages
begin

text \<open>
  The configuration of the playground: the defaults of
  \<open>src/web/src/constants/playground.constants.js\<close>, its storage
  (\<open>src/web/src/components/playground/configStorage.js\<close>), the state of
  \<open>src/web/src/hooks/playground/usePlaygroundState.js\<close> and the synchronisation of messages and
  custom request body, \<open>src/web/src/hooks/playground/useSyncMessageAndCustomBody.js\<close>.

  Configurations and messages are JavaScript values; the clock and the translated default
  messages are arguments.
\<close>

section \<open>Constants\<close>

definition STATUS_LOADING :: jsstr where "STATUS_LOADING = js ''loading''"
definition STATUS_INCOMPLETE :: jsstr where "STATUS_INCOMPLETE = js ''incomplete''"
definition STATUS_COMPLETE :: jsstr where "STATUS_COMPLETE = js ''complete''"
definition ROLE_USER :: jsstr where "ROLE_USER = js ''user''"
definition ROLE_ASSISTANT :: jsstr where "ROLE_ASSISTANT = js ''assistant''"
definition ROLE_SYSTEM :: jsstr where "ROLE_SYSTEM = js ''system''"

definition KEY_CONFIG :: jsstr where "KEY_CONFIG = js ''playground_config''"
definition KEY_MESSAGES :: jsstr where "KEY_MESSAGES = js ''playground_messages''"

abbreviation jnum :: "rat \<Rightarrow> jsval" where
  "jnum q \<equiv> JNum (Fin q)"

definition DEFAULT_INPUTS :: "(jsstr \<times> jsval) list" where
  "DEFAULT_INPUTS =
     [(js ''model'', JStr (js ''gpt-4o'')), (js ''group'', JStr []), (js ''temperature'', JNum (rnd (7 / 10))),
      (js ''top_p'', jnum 1), (js ''max_tokens'', jnum 4096), (js ''frequency_penalty'', jnum 0),
      (js ''presence_penalty'', jnum 0), (js ''seed'', JNull), (js ''stream'', JBool True),
      (js ''imageEnabled'', JBool False), (js ''imageUrls'', JArr [JStr []])]"

definition DEFAULT_PARAMETERS :: "(jsstr \<times> jsval) list" where
  "DEFAULT_PARAMETERS =
     [(js ''temperature'', JBool True), (js ''top_p'', JBool True), (js ''max_tokens'', JBool False),
      (js ''frequency_penalty'', JBool True), (js ''presence_penalty'', JBool True), (js ''seed'', JBool False)]"

record pg_config =
  pc_inputs :: jsval
  pc_parameterEnabled :: jsval
  pc_showDebugPanel :: jsval
  pc_customRequestMode :: jsval
  pc_customRequestBody :: jsval

definition DEFAULT_CONFIG :: pg_config where
  "DEFAULT_CONFIG = \<lparr>pc_inputs = JObj DEFAULT_INPUTS, pc_parameterEnabled = JObj DEFAULT_PARAMETERS,
     pc_showDebugPanel = JBool False, pc_customRequestMode = JBool False, pc_customRequestBody = JStr []\<rparr>"

definition getDefaultMessages :: "jsstr \<Rightarrow> jsstr \<Rightarrow> jsval list" where
  "getDefaultMessages userText assistantText =
     [JObj [(js ''role'', JStr ROLE_USER), (js ''id'', JStr (js ''2'')), (js ''createAt'', jnum 1715676751919),
            (js ''content'', JStr userText)],
      JObj [(js ''role'', JStr ROLE_ASSISTANT), (js ''id'', JStr (js ''3'')), (js ''createAt'', jnum 1715676751919),
            (js ''content'', JStr assistantText), (js ''reasoningContent'', JStr []),
            (js ''isReasoningExpanded'', JBool False)]]"

section \<open>Storage\<close>

text \<open>\<open>localStorage.setItem(k, JSON.stringify(o))\<close> inside a \<open>try\<close> that logs the error.\<close>

definition store_object :: "jsstr \<Rightarrow> (jsstr \<times> jsval) list \<Rightarrow> storage \<Rightarrow> storage" where
  "store_object k obj s =
     (case json_stringify (JObj obj) of
        None \<Rightarrow> s
      | Some t \<Rightarrow> (case setItem k t s of Inr s' \<Rightarrow> s' | Inl _ \<Rightarrow> s))"

definition saveConfig :: "jsstr \<Rightarrow> jsval \<Rightarrow> storage \<Rightarrow> storage" where
  "saveConfig now config s =
     store_object KEY_CONFIG (obj_put (js ''timestamp'') (JStr now) (obj_spread [] (entries config))) s"

definition saveMessages :: "jsstr \<Rightarrow> jsval \<Rightarrow> storage \<Rightarrow> storage" where
  "saveMessages now messages s =
     store_object KEY_MESSAGES [(js ''messages'', messages), (js ''timestamp'', JStr now)] s"

definition parse_max_tokens :: "jsval \<Rightarrow> jsval" where
  "parse_max_tokens v = (let n = parseInt10 (js_to_string v) in if n = NaN then v else JNum n)"

definition mergeConfig :: "jsval \<Rightarrow> js_error + pg_config" where
  "mergeConfig parsedConfig =
     (if is_nullish parsedConfig then Inl TypeError
      else let savedInputs = js_prop parsedConfig (js ''inputs'');
               maxTokens = parse_max_tokens (prop_opt savedInputs (js ''max_tokens''))
           in Inr \<lparr>pc_inputs = JObj (obj_put (js ''max_tokens'') maxTokens (obj_spread DEFAULT_INPUTS (entries savedInputs))),
                pc_parameterEnabled = JObj (obj_spread DEFAULT_PARAMETERS (entries (js_prop parsedConfig (js ''parameterEnabled'')))),
                pc_showDebugPanel = js_or (js_prop parsedConfig (js ''showDebugPanel'')) (JBool False),
                pc_customRequestMode = js_or (js_prop parsedConfig (js ''customRequestMode'')) (JBool False),
                pc_customRequestBody = js_or (js_prop parsedConfig (js ''customRequestBody'')) (JStr [])\<rparr>)"

definition loadConfig :: "storage \<Rightarrow> pg_config" where
  "loadConfig s =
     (case getItem KEY_CONFIG s of
        None \<Rightarrow> DEFAULT_CONFIG
      | Some saved \<Rightarrow>
          if saved = [] then DEFAULT_CONFIG
          else (case json_parse saved of
                  None \<Rightarrow> DEFAULT_CONFIG
                | Some parsed \<Rightarrow> (case mergeConfig parsed of Inl _ \<Rightarrow> DEFAULT_CONFIG | Inr c \<Rightarrow> c)))"

text \<open>A property of the object stored under a key, \<open>null\<close> when it is absent or falsy.\<close>

definition stored_prop :: "jsstr \<Rightarrow> jsstr \<Rightarrow> storage \<Rightarrow> jsval" where
  "stored_prop key p s =
     (case getItem key s of
        None \<Rightarrow> JNull
      | Some saved \<Rightarrow>
          if saved = [] then JNull
          else (case json_parse saved of
                  None \<Rightarrow> JNull
                | Some parsed \<Rightarrow> (case js_get parsed p of Inl _ \<Rightarrow> JNull | Inr v \<Rightarrow> js_or v JNull)))"

definition loadMessages :: "storage \<Rightarrow> jsval" where
  "loadMessages s = stored_prop KEY_MESSAGES (js ''messages'') s"

definition getConfigTimestamp :: "storage \<Rightarrow> jsval" where
  "getConfigTimestamp s = stored_prop KEY_CONFIG (js ''timestamp'') s"

definition clearMessages :: "storage \<Rightarrow> storage" where
  "clearMessages s = removeItem KEY_MESSAGES s"

definition clearConfig :: "storage \<Rightarrow> storage" where
  "clearConfig s = removeItem KEY_MESSAGES (removeItem KEY_CONFIG s)"

definition hasStoredConfig :: "storage \<Rightarrow> bool" where
  "hasStoredConfig s \<longleftrightarrow> getItem KEY_CONFIG s \<noteq> None"

definition exportConfig :: "jsstr \<Rightarrow> jsval \<Rightarrow> jsval \<Rightarrow> storage \<Rightarrow> jsstr" where
  "exportConfig now config messages s =
     (case json_pretty 0 (JObj
        (obj_put (js ''version'') (JStr (js ''1.0''))
          (obj_put (js ''exportTime'') (JStr now)
            (obj_put (js ''messages'') (js_or messages (loadMessages s)) (obj_spread [] (entries config))))))
      of Some t \<Rightarrow> t | None \<Rightarrow> [])"

datatype import_error = InvalidFormat | ParseFailed

definition importConfig :: "jsstr \<Rightarrow> jsstr \<Rightarrow> storage \<Rightarrow> (import_error + jsval) \<times> storage" where
  "importConfig now text s =
     (case json_parse text of
        None \<Rightarrow> (Inl ParseFailed, s)
      | Some imported \<Rightarrow>
          if is_nullish imported then (Inl ParseFailed, s)
          else if truthy (js_prop imported (js ''inputs'')) \<and> truthy (js_prop imported (js ''parameterEnabled''))
          then let messages = js_prop imported (js ''messages'') in
            (Inr imported, if is_array messages then saveMessages now messages s else s)
          else (Inl InvalidFormat, s))"

section \<open>State\<close>

record pg_state =
  ps_inputs :: "(jsstr \<times> jsval) list"
  ps_parameterEnabled :: "(jsstr \<times> jsval) list"
  ps_showDebugPanel :: jsval
  ps_customRequestMode :: jsval
  ps_customRequestBody :: jsval
  ps_message :: jsval
  ps_pending :: "jsval option"  \<comment> \<open>the configuration the running save timer will store\<close>
  ps_storage :: storage

text \<open>The default messages of an old version, which are not kept.\<close>

definition old_greeting :: jsstr where
  "old_greeting = [20320, 22909]"

definition old_answers :: "jsstr list" where
  "old_answers =
     [[20320, 22909, 65292, 35831, 38382, 26377, 20160, 20040, 21487, 20197, 24110, 21161, 24744, 30340, 21527, 65311],
      [20320, 22909, 65281, 24456, 39640, 20852, 35265, 21040, 20320, 12290, 26377, 20160, 20040, 25105, 21487, 20197, 24110, 21161, 20320, 30340, 21527, 65311]]"

definition is_old_default :: "jsval \<Rightarrow> js_error + bool" where
  "is_old_default loaded =
     (if \<not> truthy loaded \<or> js_prop loaded (js ''length'') \<noteq> jnum 2 then Inr False
      else let m0 = js_prop loaded (js ''0''); m1 = js_prop loaded (js ''1'') in
        (case js_get m0 (js ''id'') of
           Inl e \<Rightarrow> Inl e
         | Inr id0 \<Rightarrow> if id0 \<noteq> JStr (js ''2'') then Inr False
             else (case js_get m1 (js ''id'') of
                     Inl e \<Rightarrow> Inl e
                   | Inr id1 \<Rightarrow> Inr (id1 = JStr (js ''3'')
                       \<and> (msg_prop m0 ''content'' = JStr old_greeting
                          \<or> (\<exists>a \<in> set old_answers. msg_prop m1 ''content'' = JStr a))))))"

definition initialMessages :: "storage \<Rightarrow> js_error + jsval \<times> storage" where
  "initialMessages s =
     (let loaded = loadMessages s in
      case is_old_default loaded of
        Inl e \<Rightarrow> Inl e
      | Inr True \<Rightarrow> Inr (JNull, removeItem KEY_MESSAGES s)
      | Inr False \<Rightarrow> Inr (loaded, s))"

definition initPlayground :: "jsval list \<Rightarrow> storage \<Rightarrow> js_error + pg_state" where
  "initPlayground defaultMessages s =
     (let savedConfig = loadConfig s in
      case initialMessages s of
        Inl e \<Rightarrow> Inl e
      | Inr (initial, s') \<Rightarrow> Inr
          \<lparr>ps_inputs = entries (pc_inputs savedConfig),
           ps_parameterEnabled = entries (pc_parameterEnabled savedConfig),
           ps_showDebugPanel = js_or (pc_showDebugPanel savedConfig) (JBool False),
           ps_customRequestMode = js_or (pc_customRequestMode savedConfig) (JBool False),
           ps_customRequestBody = js_or (pc_customRequestBody savedConfig) (JStr []),
           ps_message = js_or initial (JArr defaultMessages),
           ps_pending = None, ps_storage = s'\<rparr>)"

definition handleInputChange :: "jsstr \<Rightarrow> jsval \<Rightarrow> pg_state \<Rightarrow> pg_state" where
  "handleInputChange name v st = st\<lparr>ps_inputs := obj_put name v (ps_inputs st)\<rparr>"

definition handleParameterToggle :: "jsstr \<Rightarrow> pg_state \<Rightarrow> pg_state" where
  "handleParameterToggle name st =
     st\<lparr>ps_parameterEnabled :=
         obj_put name (JBool (\<not> truthy (js_prop (JObj (ps_parameterEnabled st)) name))) (ps_parameterEnabled st)\<rparr>"

definition saveMessagesImmediately :: "jsstr \<Rightarrow> jsval \<Rightarrow> pg_state \<Rightarrow> pg_state" where
  "saveMessagesImmediately now messagesToSave st =
     st\<lparr>ps_storage := saveMessages now (js_or messagesToSave (ps_message st)) (ps_storage st)\<rparr>"

definition currentConfig :: "pg_state \<Rightarrow> jsval" where
  "currentConfig st =
     JObj [(js ''inputs'', JObj (ps_inputs st)), (js ''parameterEnabled'', JObj (ps_parameterEnabled st)),
           (js ''showDebugPanel'', ps_showDebugPanel st), (js ''customRequestMode'', ps_customRequestMode st),
           (js ''customRequestBody'', ps_customRequestBody st)]"

text \<open>Restarting the timer drops the configuration it held; when it fires, its configuration is stored.\<close>

definition debouncedSaveConfig :: "pg_state \<Rightarrow> pg_state" where
  "debouncedSaveConfig st = st\<lparr>ps_pending := Some (currentConfig st)\<rparr>"

definition saveTimerFires :: "jsstr \<Rightarrow> pg_state \<Rightarrow> pg_state" where
  "saveTimerFires now st =
     (case ps_pending st of
        None \<Rightarrow> st
      | Some c \<Rightarrow> st\<lparr>ps_pending := None, ps_storage := saveConfig now c (ps_storage st)\<rparr>)"

definition handleConfigImport :: "jsval \<Rightarrow> pg_state \<Rightarrow> pg_state" where
  "handleConfigImport imported st =
     (let inputs = js_prop imported (js ''inputs'');
          params = js_prop imported (js ''parameterEnabled'');
          panel = js_prop imported (js ''showDebugPanel'');
          mode = js_prop imported (js ''customRequestMode'');
          body = js_prop imported (js ''customRequestBody'');
          messages = js_prop imported (js ''messages'')
      in st\<lparr>
        ps_inputs := (if truthy inputs
          then obj_put (js ''max_tokens'') (parse_max_tokens (js_prop inputs (js ''max_tokens'')))
                 (obj_spread (ps_inputs st) (entries inputs))
          else ps_inputs st),
        ps_parameterEnabled := (if truthy params then obj_spread (ps_parameterEnabled st) (entries params)
                                else ps_parameterEnabled st),
        ps_showDebugPanel := (case panel of JBool b \<Rightarrow> JBool b | _ \<Rightarrow> ps_showDebugPanel st),
        ps_customRequestMode := (if truthy mode then mode else ps_customRequestMode st),
        ps_customRequestBody := (if truthy body then body else ps_customRequestBody st),
        ps_message := (if is_array messages then messages else ps_message st)\<rparr>)"

definition handleConfigReset :: "jsval list \<Rightarrow> bool \<Rightarrow> pg_state \<Rightarrow> pg_state" where
  "handleConfigReset defaultMessages resetMessages st =
     st\<lparr>ps_inputs := DEFAULT_INPUTS, ps_parameterEnabled := DEFAULT_PARAMETERS,
        ps_showDebugPanel := JBool False, ps_customRequestMode := JBool False, ps_customRequestBody := JStr [],
        ps_message := (if resetMessages then JArr defaultMessages else ps_message st)\<rparr>"

text \<open>A message that was being written when the page was left is completed at the next start.\<close>

definition reasoning_text :: "jsval \<Rightarrow> jsstr" where
  "reasoning_text m = js_to_string (js_or (msg_prop m ''reasoningContent'') (JStr []))"

definition repairMessage :: "jsval \<Rightarrow> js_error + jsval" where
  "repairMessage m =
     (case js_or (msg_prop m ''content'') (JStr []) of
        JStr content \<Rightarrow>
          let (c, r) = processIncompleteThinkTags content (reasoning_text m) in
          Inr (JObj (obj_spread (obj_spread [] (entries m))
            [(js ''status'', JStr STATUS_COMPLETE), (js ''content'', JStr c),
             (js ''reasoningContent'', js_or (JStr r) JNull), (js ''isThinkingComplete'', JBool True)]))
      | JArr parts \<Rightarrow>
          if JStr open_tag \<in> set parts then Inl TypeError
          else Inr (JObj (obj_spread (obj_spread [] (entries m))
            [(js ''status'', JStr STATUS_COMPLETE), (js ''content'', JArr parts),
             (js ''reasoningContent'', js_or (JStr (reasoning_text m)) JNull), (js ''isThinkingComplete'', JBool True)]))
      | _ \<Rightarrow> Inl TypeError)"

definition is_unfinished :: "jsval \<Rightarrow> bool" where
  "is_unfinished m \<longleftrightarrow> msg_prop m ''status'' = JStr STATUS_LOADING \<or> msg_prop m ''status'' = JStr STATUS_INCOMPLETE"

definition repairMessages :: "jsstr \<Rightarrow> pg_state \<Rightarrow> js_error + pg_state" where
  "repairMessages now st =
     (case ps_message st of
        JArr ms \<Rightarrow>
          if ms = [] then Inr st
          else if is_nullish (last ms) then Inl TypeError
          else if is_unfinished (last ms) then
            (case repairMessage (last ms) of
               Inl e \<Rightarrow> Inl e
             | Inr fixed \<Rightarrow>
                 let updated = JArr (butlast ms @ [fixed]) in
                 Inr (saveMessagesImmediately now updated (st\<lparr>ps_message := updated\<rparr>)))
          else Inr st
      | _ \<Rightarrow> Inr st)"

section \<open>Synchronising messages and the custom request body\<close>

text \<open>
  React runs the effects of a commit after the page was rendered: both functions below belong to
  the same render and read its mode, body, messages and inputs, while the refs change at once.
  What the functions pass to \<open>setCustomRequestBody\<close> and \<open>setMessage\<close> is seen by the next render
  only, so each returns the refs and the update it asks for.
\<close>

record sync_render =
  sr_mode :: bool
  sr_body :: jsstr
  sr_messages :: "jsval list"
  sr_model :: jsval
  sr_temperature :: jsval
  sr_stream :: jsval

record sync_refs =
  sf_fromMessage :: bool     \<comment> \<open>\<open>isUpdatingFromMessage\<close>\<close>
  sf_fromBody :: bool        \<comment> \<open>\<open>isUpdatingFromCustomBody\<close>\<close>
  sf_lastMessageHash :: jsstr
  sf_lastBodyHash :: jsstr

definition hash_text :: "jsval \<Rightarrow> jsstr" where
  "hash_text v = (case json_stringify v of Some t \<Rightarrow> t | None \<Rightarrow> [])"

definition getMessageHash :: "jsval list \<Rightarrow> jsstr" where
  "getMessageHash ms = hash_text (JArr (map (\<lambda>m.
     JObj [(js ''id'', msg_prop m ''id''), (js ''role'', msg_prop m ''role''), (js ''content'', msg_prop m ''content'')]) ms))"

definition getCustomBodyHash :: "jsstr \<Rightarrow> jsstr" where
  "getCustomBodyHash body =
     (case json_parse body of
        None \<Rightarrow> []
      | Some parsed \<Rightarrow>
          (case js_get parsed (js ''messages'') of
             Inl _ \<Rightarrow> []
           | Inr ms \<Rightarrow> hash_text (js_or ms (JArr []))))"

text \<open>
  The payload a body stands for; setting \<open>messages\<close> on \<open>null\<close> throws, on another primitive value it
  throws in strict mode.
\<close>

definition bodyPayload :: "sync_render \<Rightarrow> jsval" where
  "bodyPayload r =
     (case json_parse (if sr_body r = [] then js ''{}'' else sr_body r) of
        Some v \<Rightarrow> v
      | None \<Rightarrow> JObj [(js ''model'', js_or (sr_model r) (JStr (js ''gpt-4o''))), (js ''messages'', JArr []),
                     (js ''temperature'', js_or (sr_temperature r) (JNum (rnd (7 / 10)))),
                     (js ''stream'', JBool (sr_stream r \<noteq> JBool False))])"

definition set_messages :: "jsval list \<Rightarrow> jsval \<Rightarrow> js_error + jsval" where
  "set_messages ms v =
     (let value = JArr (map (\<lambda>m. JObj [(js ''role'', msg_prop m ''role''), (js ''content'', msg_prop m ''content'')]) ms)
      in case v of
           JObj ps \<Rightarrow> Inr (JObj (obj_put (js ''messages'') value ps))
         | JArr vs \<Rightarrow> Inr (JArr vs)
         | _ \<Rightarrow> Inl TypeError)"

definition syncMessageToCustomBody :: "sync_render \<Rightarrow> sync_refs \<Rightarrow> js_error + sync_refs \<times> jsstr option" where
  "syncMessageToCustomBody r f =
     (if \<not> sr_mode r \<or> sf_fromBody f then Inr (f, None)
      else if list_ex is_nullish (sr_messages r) then Inl TypeError  \<comment> \<open>\<open>msg.id\<close> of \<open>null\<close>\<close>
      else let currentHash = getMessageHash (sr_messages r) in
        if currentHash = sf_lastMessageHash f then Inr (f, None)
        else (case set_messages (sr_messages r) (bodyPayload r) of
            Inl e \<Rightarrow> Inl e
          | Inr payload \<Rightarrow>
              let newBody = (case json_pretty 0 payload of Some t \<Rightarrow> t | None \<Rightarrow> []) in
              Inr (f\<lparr>sf_lastMessageHash := currentHash, sf_lastBodyHash := getCustomBodyHash newBody,
                     sf_fromMessage := False\<rparr>, Some newBody)))"

definition body_message :: "jsnum \<Rightarrow> nat \<Rightarrow> jsval \<Rightarrow> jsval" where
  "body_message now i m =
     JObj ([(js ''id'', js_or (msg_prop m ''id'') (JStr (show_nat (int i + 1)))),
            (js ''role'', js_or (msg_prop m ''role'') (JStr ROLE_USER)),
            (js ''content'', js_or (msg_prop m ''content'') (JStr [])),
            (js ''createAt'', JNum now)] @
           (if msg_prop m ''role'' = JStr ROLE_ASSISTANT
            then [(js ''reasoningContent'', js_or (msg_prop m ''reasoningContent'') (JStr [])),
                  (js ''isReasoningExpanded'', JBool False)] else []))"

definition syncCustomBodyToMessage :: "jsnum \<Rightarrow> sync_render \<Rightarrow> sync_refs \<Rightarrow> sync_refs \<times> jsval list option" where
  "syncCustomBodyToMessage now r f =
     (if \<not> sr_mode r \<or> sf_fromMessage f then (f, None)
      else let currentHash = getCustomBodyHash (sr_body r) in
        if currentHash = sf_lastBodyHash f then (f, None)
        else (case json_parse (if sr_body r = [] then js ''{}'' else sr_body r) of
            None \<Rightarrow> (f\<lparr>sf_fromBody := False\<rparr>, None)
          | Some payload \<Rightarrow>
              (case js_get payload (js ''messages'') of
                 Inr (JArr ms) \<Rightarrow>
                   if list_ex is_nullish ms then (f\<lparr>sf_fromBody := False\<rparr>, None)
                   else let newMessages = map (\<lambda>(i, m). body_message now i m) (zip [0..<length ms] ms) in
                     (f\<lparr>sf_lastBodyHash := currentHash, sf_lastMessageHash := getMessageHash newMessages,
                        sf_fromBody := False\<rparr>, Some newMessages)
               | _ \<Rightarrow> (f\<lparr>sf_fromBody := False\<rparr>, None))))"

text \<open>
  A commit: the first effect of the page runs when the messages or something its function reads
  changed since the last commit, the second when the mode or the body changed.  The updates of
  both are applied together and lead to the next commit; setting the body to an equal text
  changes nothing, setting the messages to a new list always does.  An error thrown by an effect
  takes the page down.
\<close>

record sync_page =
  sp_render :: sync_render
  sp_refs :: sync_refs
  sp_messageEffect :: bool   \<comment> \<open>a dependency of the first effect changed\<close>
  sp_bodyEffect :: bool      \<comment> \<open>a dependency of the second effect changed\<close>

definition sync_commit :: "jsnum \<Rightarrow> sync_page \<Rightarrow> js_error + sync_page" where
  "sync_commit now p =
     (let r = sp_render p in
      case (if sp_messageEffect p then syncMessageToCustomBody r (sp_refs p) else Inr (sp_refs p, None)) of
        Inl e \<Rightarrow> Inl e
      | Inr (f, body) \<Rightarrow>
          let (f', messages) = (if sp_bodyEffect p then syncCustomBodyToMessage now r f else (f, None));
              newBody = (case body of Some t \<Rightarrow> t | None \<Rightarrow> sr_body r);
              newMessages = (case messages of Some ms \<Rightarrow> ms | None \<Rightarrow> sr_messages r)
          in Inr \<lparr>sp_render = r\<lparr>sr_body := newBody, sr_messages := newMessages\<rparr>, sp_refs = f',
                  sp_messageEffect = (newBody \<noteq> sr_body r \<or> messages \<noteq> None),
                  sp_bodyEffect = (newBody \<noteq> sr_body r)\<rparr>)"

primrec sync_commits :: "jsnum list \<Rightarrow> sync_page \<Rightarrow> js_error + sync_page" where
  "sync_commits [] p = Inr p"
| "sync_commits (now # nows) p =
     (case sync_commit now p of Inl e \<Rightarrow> Inl e | Inr q \<Rightarrow> sync_commits nows q)"

section \<open>Properties\<close>

lemma store_object_effect:
  assumes "json_stringify (JObj obj) = Some t" and "accepts s k t"
  shows "getItem j (store_object k obj s) = (if j = k then Some t else getItem j s)"
  using local.get_put [of k t s _ j] assms by (simp add: store_object_def setItem_def split: sum.splits)

lemma store_object_other: "j \<noteq> k \<Longrightarrow> getItem j (store_object k obj s) = getItem j s"
  using local.put_or_keep_other [of j k _ s]
  by (auto simp: store_object_def local.put_or_keep_def split: option.splits)

lemma keys_differ: "KEY_CONFIG \<noteq> KEY_MESSAGES"
  by (simp add: KEY_CONFIG_def KEY_MESSAGES_def)

text \<open>
  Stored messages come back as they were: saving a list of messages that JSON carries and
  loading it returns the same list, and saving messages never touches the stored configuration,
  whether the browser takes the write or not.
\<close>

theorem messages_roundtrip:
  assumes "json_ok (JArr ms)" and "units_ok now"
    and "\<And>t. accepts s KEY_MESSAGES t"
  shows "loadMessages (saveMessages now (JArr ms) s) = JArr ms
    \<and> loadConfig (saveMessages now (JArr ms) s) = loadConfig s"
proof -
  let ?o = "[(js ''messages'', JArr ms), (js ''timestamp'', JStr now)]"
  have "units_ok (js ''messages'')" "units_ok (js ''timestamp'')" "keys_ordered ?o"
    by (simp_all add: units_ok_def keys_ordered_def key_before_def index_key_def js_def is_digit_def)
  then have ok: "json_ok (JObj ?o)" using assms(1,2) by simp
  have "getItem KEY_MESSAGES (saveMessages now (JArr ms) s) = Some (json_text (JObj ?o))"
    using store_object_effect [OF json_stringify_ok [OF ok] assms(3)] by (simp add: saveMessages_def)
  moreover have "json_text (JObj ?o) \<noteq> []" by (rule json_text_head(1) [OF ok])
  ultimately have "loadMessages (saveMessages now (JArr ms) s) = JArr ms"
    using json.read_print [OF ok] by (simp add: loadMessages_def stored_prop_def js_get_def js_or_def)
  moreover have "loadConfig (saveMessages now (JArr ms) s) = loadConfig s"
    using store_object_other [OF keys_differ] by (simp add: loadConfig_def saveMessages_def)
  ultimately show ?thesis ..
qed

theorem messages_roundtrip_witness:
  "loadMessages (saveMessages (js ''2024'') (JArr [JStr (js ''hi''), JNull]) empty_storage) = JArr [JStr (js ''hi''), JNull]"
proof -
  have "json_ok (JArr [JStr (js ''hi''), JNull])" "units_ok (js ''2024'')" by (simp_all add: units_ok_def js_def)
  from messages_roundtrip [OF this] show ?thesis by (simp add: empty_storage_def)
qed

text \<open>
  A stored configuration is merged over the defaults: every stored input replaces the default
  one and every other input keeps its default, except the token limit, which becomes \<open>undefined\<close>
  when it was not stored.
\<close>

theorem loadConfig_inputs:
  assumes "getItem KEY_CONFIG s = Some t" and "json_parse t = Some (JObj ps)" and "t \<noteq> []"
    and "map_of ps (js ''inputs'') = Some (JObj is)" and "distinct (map fst is)"
  shows "(k \<noteq> js ''max_tokens'' \<longrightarrow> js_prop (pc_inputs (loadConfig s)) k =
       (case map_of is k of Some v \<Rightarrow> v | None \<Rightarrow> js_prop (JObj DEFAULT_INPUTS) k))
    \<and> (map_of is (js ''max_tokens'') = None \<longrightarrow> js_prop (pc_inputs (loadConfig s)) (js ''max_tokens'') = JUndef)"
proof -
  have "parseInt10 (js ''undefined'') = NaN" by code_simp
  then have "parse_max_tokens JUndef = JUndef" by (simp add: parse_max_tokens_def)
  moreover have "pc_inputs (loadConfig s) = JObj (obj_put (js ''max_tokens'')
      (parse_max_tokens (js_prop (JObj is) (js ''max_tokens''))) (obj_spread DEFAULT_INPUTS is))"
    using assms by (simp add: loadConfig_def mergeConfig_def prop_opt_def Let_def)
  ultimately show ?thesis
    using map_of_obj_spread_distinct [OF assms(5), of DEFAULT_INPUTS]
    by (auto simp: map_add_def split: option.splits)
qed

definition sample_config :: jsstr where
  "sample_config = [123, 34] @ js ''inputs'' @ [34, 58, 123, 34] @ js ''seed'' @ [34, 58] @ js ''null}}''"

theorem loadConfig_inputs_witness:
  "js_prop (pc_inputs (loadConfig (empty_storage\<lparr>items := [KEY_CONFIG \<mapsto> sample_config]\<rparr>))) (js ''max_tokens'') = JUndef
   \<and> js_prop (pc_inputs (loadConfig (empty_storage\<lparr>items := [KEY_CONFIG \<mapsto> sample_config]\<rparr>))) (js ''top_p'') = jnum 1"
proof -
  let ?s = "empty_storage\<lparr>items := [KEY_CONFIG \<mapsto> sample_config]\<rparr>"
  have g: "getItem KEY_CONFIG ?s = Some sample_config" by (simp add: getItem_def)
  have p: "json_parse sample_config = Some (JObj [(js ''inputs'', JObj [(js ''seed'', JNull)])])" by code_simp
  have n: "sample_config \<noteq> []" by (simp add: sample_config_def)
  have m: "map_of [(js ''inputs'', JObj [(js ''seed'', JNull)])] (js ''inputs'') = Some (JObj [(js ''seed'', JNull)])" by simp
  have d: "distinct (map fst [(js ''seed'', JNull :: jsval)])" by simp
  show ?thesis
    using loadConfig_inputs [OF g p n m d, of "js ''top_p''"] by (simp add: DEFAULT_INPUTS_def)
qed

text \<open>
  After the page was left in the middle of an answer, the next start completes it: the last
  message is no longer marked as unfinished and says its thinking is complete, every other message
  is as it was, and the repaired list is what is stored.
\<close>

theorem repair_completes:
  assumes "ps_message st = JArr ms" and "ms \<noteq> []" and "repairMessages now st = Inr st'"
  shows "\<exists>m. ps_message st' = JArr (butlast ms @ [m]) \<and> \<not> is_unfinished m
     \<and> (is_unfinished (last ms) \<longrightarrow> msg_prop m ''isThinkingComplete'' = JBool True
          \<and> ps_storage st' = saveMessages now (ps_message st') (ps_storage st))
     \<and> (\<not> is_unfinished (last ms) \<longrightarrow> st' = st)"
proof (cases "is_unfinished (last ms)")
  case False
  then have "st' = st" using assms by (auto simp: repairMessages_def split: if_splits)
  moreover have "JArr ms = JArr (butlast ms @ [last ms])" using assms(2) by simp
  ultimately show ?thesis using False assms(1) by metis
next
  case True
  then obtain m where m: "repairMessage (last ms) = Inr m"
    and st': "st' = saveMessagesImmediately now (JArr (butlast ms @ [m])) (st\<lparr>ps_message := JArr (butlast ms @ [m])\<rparr>)"
    using assms by (auto simp: repairMessages_def Let_def split: if_splits sum.splits)
  have "msg_prop m ''status'' = JStr STATUS_COMPLETE \<and> msg_prop m ''isThinkingComplete'' = JBool True"
    using m by (auto simp: repairMessage_def map_of_obj_spread split: jsval.splits if_splits prod.splits)
  moreover have "STATUS_COMPLETE \<noteq> STATUS_LOADING" "STATUS_COMPLETE \<noteq> STATUS_INCOMPLETE"
    by (simp_all add: STATUS_COMPLETE_def STATUS_LOADING_def STATUS_INCOMPLETE_def)
  ultimately show ?thesis
    using True st' by (auto simp: is_unfinished_def saveMessagesImmediately_def js_or_def)
qed

definition unfinished_state :: pg_state where
  "unfinished_state = \<lparr>ps_inputs = [], ps_parameterEnabled = [], ps_showDebugPanel = JBool False,
     ps_customRequestMode = JBool False, ps_customRequestBody = JStr [],
     ps_message = JArr [JObj [(js ''status'', JStr STATUS_LOADING), (js ''content'', JStr (js ''a <think>b''))]],
     ps_pending = None, ps_storage = empty_storage\<rparr>"

theorem repair_completes_witness:
  "\<exists>st' m. repairMessages [] unfinished_state = Inr st' \<and> ps_message st' = JArr [m] \<and> \<not> is_unfinished m"
proof -
  let ?ms = "[JObj [(js ''status'', JStr STATUS_LOADING), (js ''content'', JStr (js ''a <think>b''))]]"
  have m: "ps_message unfinished_state = JArr ?ms" by (simp add: unfinished_state_def)
  have "\<exists>st'. repairMessages [] unfinished_state = Inr st'"
    by (simp add: repairMessages_def m is_unfinished_def repairMessage_def js_or_def Let_def split: prod.splits)
  then obtain st' where st': "repairMessages [] unfinished_state = Inr st'" by blast
  from repair_completes [OF m _ st'] show ?thesis using st' by auto
qed

definition refs_idle :: "sync_page \<Rightarrow> bool" where
  "refs_idle p \<longleftrightarrow> \<not> sf_fromMessage (sp_refs p) \<and> \<not> sf_fromBody (sp_refs p)"

text \<open>No effect is due on a page.\<close>

definition quiet_page :: "sync_page \<Rightarrow> bool" where
  "quiet_page p \<longleftrightarrow> \<not> sp_messageEffect p \<and> \<not> sp_bodyEffect p"

lemma quiet_commit: "quiet_page p \<Longrightarrow> sync_commit now p = Inr p"
  by (cases p) (simp add: quiet_page_def sync_commit_def Let_def)

lemma quiet_commits: "quiet_page p \<Longrightarrow> sync_commits nows p = Inr p"
  by (induction nows) (simp_all add: quiet_commit)

text \<open>After writing, each function has stored the hash of what it wrote.\<close>

lemma message_sync_cases:
  assumes "syncMessageToCustomBody r f = Inr (f', body)"
  obtains "f' = f" "body = None"
  | b where "sr_mode r" "body = Some b" "f' = f\<lparr>sf_lastMessageHash := getMessageHash (sr_messages r),
        sf_lastBodyHash := getCustomBodyHash b, sf_fromMessage := False\<rparr>" "\<not> list_ex is_nullish (sr_messages r)"
  using assms by (auto simp: syncMessageToCustomBody_def Let_def split: if_splits sum.splits)

lemma body_sync_cases:
  assumes "syncCustomBodyToMessage now r f = (f', messages)"
  obtains "f' = f \<or> f' = f\<lparr>sf_fromBody := False\<rparr>" "messages = None"
  | ms where "sr_mode r" "messages = Some ms" "f' = f\<lparr>sf_lastBodyHash := getCustomBodyHash (sr_body r),
        sf_lastMessageHash := getMessageHash ms, sf_fromBody := False\<rparr>" "\<not> list_ex is_nullish ms"
proof -
  have "\<not> list_ex is_nullish (map (\<lambda>(i, m). body_message now i m) xs)" for xs
    by (auto simp: list_ex_iff body_message_def)
  then show ?thesis
    using assms that
    by (auto simp: syncCustomBodyToMessage_def Let_def split: if_splits option.splits sum.splits jsval.splits)
qed

lemma message_sync_seen:
  assumes "sf_lastMessageHash f = getMessageHash (sr_messages r)" "\<not> list_ex is_nullish (sr_messages r)"
  shows "syncMessageToCustomBody r f = Inr (f, None)"
  using assms by (simp add: syncMessageToCustomBody_def)

lemma body_sync_seen:
  "sf_lastBodyHash f = getCustomBodyHash (sr_body r) \<Longrightarrow> syncCustomBodyToMessage now r f = (f, None)"
  by (simp add: syncCustomBodyToMessage_def)

text \<open>What the first commit leaves: the messages are known to the first effect, or it is not due.\<close>

lemma first_commit:
  assumes "sync_commit now p = Inr q" and "refs_idle p"
  shows "refs_idle q \<and> (sp_messageEffect q \<longrightarrow>
      sf_lastMessageHash (sp_refs q) = getMessageHash (sr_messages (sp_render q))
      \<and> \<not> list_ex is_nullish (sr_messages (sp_render q)))"
proof -
  let ?r = "sp_render p"
  obtain f body f' messages where
    e1: "(if sp_messageEffect p then syncMessageToCustomBody ?r (sp_refs p) else Inr (sp_refs p, None)) = Inr (f, body)"
    and e2: "(if sp_bodyEffect p then syncCustomBodyToMessage now ?r f else (f, None)) = (f', messages)"
    using assms(1) by (fastforce simp: sync_commit_def Let_def split: sum.splits prod.splits)
  have q: "q = \<lparr>sp_render = ?r\<lparr>sr_body := (case body of Some t \<Rightarrow> t | None \<Rightarrow> sr_body ?r),
                   sr_messages := (case messages of Some ms \<Rightarrow> ms | None \<Rightarrow> sr_messages ?r)\<rparr>, sp_refs = f',
     sp_messageEffect = ((case body of Some t \<Rightarrow> t | None \<Rightarrow> sr_body ?r) \<noteq> sr_body ?r \<or> messages \<noteq> None),
     sp_bodyEffect = ((case body of Some t \<Rightarrow> t | None \<Rightarrow> sr_body ?r) \<noteq> sr_body ?r)\<rparr>"
    using assms(1) e1 e2 by (simp add: sync_commit_def Let_def)
  have 1: "(f = sp_refs p \<and> body = None) \<or> (\<exists>b. body = Some b \<and> f = (sp_refs p)\<lparr>
      sf_lastMessageHash := getMessageHash (sr_messages ?r), sf_lastBodyHash := getCustomBodyHash b,
      sf_fromMessage := False\<rparr> \<and> \<not> list_ex is_nullish (sr_messages ?r))"
    using e1 by (auto split: if_splits elim!: message_sync_cases)
  have 2: "((f' = f \<or> f' = f\<lparr>sf_fromBody := False\<rparr>) \<and> messages = None) \<or> (\<exists>ms. messages = Some ms \<and>
      f' = f\<lparr>sf_lastBodyHash := getCustomBodyHash (sr_body ?r), sf_lastMessageHash := getMessageHash ms,
        sf_fromBody := False\<rparr> \<and> \<not> list_ex is_nullish ms)"
    using e2 by (auto split: if_splits elim!: body_sync_cases)
  show ?thesis using 1 2 assms(2) by (auto simp: q refs_idle_def)
qed

text \<open>The second commit writes no body, and what it leaves is quiet after one more commit.\<close>

lemma second_commit:
  assumes "sp_messageEffect p \<longrightarrow> sf_lastMessageHash (sp_refs p) = getMessageHash (sr_messages (sp_render p))
      \<and> \<not> list_ex is_nullish (sr_messages (sp_render p))"
  obtains q where "sync_commit now p = Inr q" "sr_body (sp_render q) = sr_body (sp_render p)" "\<not> sp_bodyEffect q"
proof -
  have e1: "(if sp_messageEffect p then syncMessageToCustomBody (sp_render p) (sp_refs p)
      else Inr (sp_refs p, None)) = Inr (sp_refs p, None)"
    using assms by (simp add: message_sync_seen)
  obtain f' messages where e2: "(if sp_bodyEffect p then syncCustomBodyToMessage now (sp_render p) (sp_refs p)
      else (sp_refs p, None)) = (f', messages)"
    by (metis surj_pair)
  have "sync_commit now p = Inr \<lparr>sp_render = (sp_render p)\<lparr>sr_messages :=
      (case messages of Some ms \<Rightarrow> ms | None \<Rightarrow> sr_messages (sp_render p))\<rparr>, sp_refs = f',
      sp_messageEffect = (messages \<noteq> None), sp_bodyEffect = False\<rparr>"
    by (simp add: sync_commit_def Let_def e1 e2)
  then show ?thesis by (rule that) simp_all
qed

lemma third_commit:
  assumes "sp_messageEffect p \<longrightarrow> sf_lastMessageHash (sp_refs p) = getMessageHash (sr_messages (sp_render p))
      \<and> \<not> list_ex is_nullish (sr_messages (sp_render p))" and "\<not> sp_bodyEffect p"
  shows "sync_commit now p = Inr (p\<lparr>sp_messageEffect := False\<rparr>)"
  using assms by (cases p) (simp add: sync_commit_def Let_def message_sync_seen)

text \<open>
  C31: the two synchronisations do not chase each other.  Take the playground at any moment, with any
  custom body, messages, stored hashes and effects due.  When the next commit does not throw,
  none after it does; the body is written in that commit at most, the messages in it and in the
  one that follows, and however many commits come after these two, they change neither the body
  nor the messages nor a stored hash.
\<close>

theorem sync_settles:
  assumes "refs_idle p" and "sync_commit now p = Inr p1"
  shows "\<exists>p2. sync_commit now1 p1 = Inr p2 \<and> refs_idle p2
     \<and> sr_body (sp_render p2) = sr_body (sp_render p1)
     \<and> sync_commits (now2 # nows) p2 = Inr (p2\<lparr>sp_messageEffect := False, sp_bodyEffect := False\<rparr>)"
proof -
  note f = first_commit [OF assms(2,1)]
  obtain p2 where p2: "sync_commit now1 p1 = Inr p2" "sr_body (sp_render p2) = sr_body (sp_render p1)"
    "\<not> sp_bodyEffect p2"
    by (rule second_commit [OF conjunct2 [OF f]])
  note s = first_commit [OF p2(1) conjunct1 [OF f]]
  have q: "quiet_page (p2\<lparr>sp_messageEffect := False\<rparr>)" using p2(3) by (simp add: quiet_page_def)
  have e: "p2\<lparr>sp_messageEffect := False, sp_bodyEffect := False\<rparr> = p2\<lparr>sp_messageEffect := False\<rparr>"
    using p2(3) by (cases p2) simp
  have "sync_commits (now2 # nows) p2 = Inr (p2\<lparr>sp_messageEffect := False, sp_bodyEffect := False\<rparr>)"
    unfolding e by (simp add: third_commit [OF conjunct2 [OF s] p2(3)] quiet_commits [OF q])
  then show ?thesis using p2(1,2) conjunct1 [OF s] by (intro exI [of _ p2] conjI)
qed

text \<open>
  The custom mode is switched on while the stored body carries an older message: the answer on the
  page has a reasoning text.
\<close>

definition old_body :: jsstr where
  "old_body = [123, 34] @ js ''messages'' @ [34] @ js '':[{'' @ [34] @ js ''content'' @ [34, 58, 34] @ js ''old'' @ [34] @ js ''}]}''"

definition sync_example :: sync_page where
  "sync_example = \<lparr>sp_render = \<lparr>sr_mode = True, sr_body = old_body,
       sr_messages = [JObj [(js ''id'', JStr (js ''7'')), (js ''role'', JStr ROLE_ASSISTANT),
          (js ''content'', JStr (js ''hi'')), (js ''reasoningContent'', JStr (js ''why''))]],
       sr_model = JUndef, sr_temperature = JUndef, sr_stream = JUndef\<rparr>,
     sp_refs = \<lparr>sf_fromMessage = False, sf_fromBody = False, sf_lastMessageHash = [], sf_lastBodyHash = []\<rparr>,
     sp_messageEffect = True, sp_bodyEffect = True\<rparr>"

lemma sync_example_commits: "case sync_commit (Fin 0) sync_example of Inl _ \<Rightarrow> False | Inr q \<Rightarrow> True"
  by code_simp

theorem sync_settles_witness:
  "\<exists>p1 p2. sync_commit (Fin 0) sync_example = Inr p1 \<and> sync_commit (Fin 1) p1 = Inr p2
     \<and> sync_commits [Fin 2, Fin 3] p2 = Inr (p2\<lparr>sp_messageEffect := False, sp_bodyEffect := False\<rparr>)"
proof -
  obtain p1 where p1: "sync_commit (Fin 0) sync_example = Inr p1"
    using sync_example_commits by (auto split: sum.splits)
  have "refs_idle sync_example" by (simp add: refs_idle_def sync_example_def)
  from sync_settles [OF this p1, of "Fin 1" "Fin 2" "[Fin 3]"] show ?thesis using p1 by blast
qed

text \<open>
  Both effects of the first commit read the old body: the page shows the old message for one
  render, and the second commit then reads back the body that was just written, so the answer
  stays with its text but loses its id and its reasoning text.
\<close>

lemma custom_mode_drops_reasoning:
  "(case sync_commits [Fin 0] sync_example of
      Inr p \<Rightarrow> map (\<lambda>m. msg_prop m ''content'') (sr_messages (sp_render p)) = [JStr (js ''old'')]
    | Inl _ \<Rightarrow> False)
   \<and> (case sync_commits [Fin 0, Fin 1, Fin 2] sync_example of
      Inr p \<Rightarrow> sr_messages (sp_render p) = [JObj [(js ''id'', JStr (js ''1'')), (js ''role'', JStr ROLE_ASSISTANT),
        (js ''content'', JStr (js ''hi'')), (js ''createAt'', JNum (Fin 1)), (js ''reasoningContent'', JStr []),
        (js ''isReasoningExpanded'', JBool False)]]
    | Inl _ \<Rightarrow> False)"
  by code_simp

end
