(* ===== verification/ApiClient.thy ===== *)
theory ApiClient
  imports Messages WebStorage "HOL-Library.Multiset"
begin

text \<open>
  The API client of the web interface, \<open>src/web/src/helpers/api.js\<close>: the shared client whose
  concurrent equal GET requests are merged, the request payload of the playground, the lists of
  models and groups, OAuth redirects and the cached channel models.

  The HTTP library is outside the repository: a request is an event of the client, its outcome
  arrives as another event.
\<close>

section \<open>The client and its GET requests\<close>

text \<open>
  A configuration of a request: its parameters as the JSON text \<open>JSON.stringify(config.params)\<close>
  would give (\<open>None\<close> when there are none), and the flag that turns merging off.
\<close>

record get_config =
  gc_params :: "jsval option"
  gc_disableDuplicate :: bool

type_synonym request_id = nat

record client =
  inFlight :: "jsstr \<rightharpoonup> request_id"        \<comment> \<open>\<open>inFlightGetRequests\<close>\<close>
  issued :: "(request_id \<times> jsstr \<times> bool) list"
    \<comment> \<open>requests handed to the HTTP library, newest first, and whether they may be shared\<close>
  pending :: "request_id set"                \<comment> \<open>issued and not settled\<close>
  has_interceptor :: bool                    \<comment> \<open>whether errors are shown by the response interceptor\<close>
  user_header :: jsval                       \<comment> \<open>the header \<open>New-API-User\<close> of every request\<close>

definition getUserIdFromLocalStorage :: "storage \<Rightarrow> js_error + jsval" where
  "getUserIdFromLocalStorage s =
     (case getItem (js ''user'') s of
        None \<Rightarrow> Inr (JNum (Fin (- 1)))
      | Some user \<Rightarrow>
          if user = [] then Inr (JNum (Fin (- 1)))
          else (case json_parse user of None \<Rightarrow> Inl SyntaxError | Some v \<Rightarrow> js_get v (js ''id'')))"

definition new_client :: "jsval \<Rightarrow> client" where  \<comment> \<open>\<open>axios.create\<close> and \<open>patchAPIInstance\<close>\<close>
  "new_client user =
     \<lparr>inFlight = Map.empty, issued = [], pending = {}, has_interceptor = False, user_header = user\<rparr>"

text \<open>The module registers the interceptor on the first client; \<open>updateAPI\<close> makes a new one.\<close>

definition initial_client :: "storage \<Rightarrow> js_error + client" where
  "initial_client s =
     (case getUserIdFromLocalStorage s of Inl e \<Rightarrow> Inl e | Inr user \<Rightarrow> Inr ((new_client user)\<lparr>has_interceptor := True\<rparr>))"

definition updateAPI :: "storage \<Rightarrow> js_error + client" where
  "updateAPI s = (case getUserIdFromLocalStorage s of Inl e \<Rightarrow> Inl e | Inr user \<Rightarrow> Inr (new_client user))"

definition genKey :: "jsstr \<Rightarrow> get_config \<Rightarrow> jsstr" where
  "genKey url config =
     (let params = (case gc_params config of
            Some v \<Rightarrow> if truthy v then (case json_stringify v of Some t \<Rightarrow> t | None \<Rightarrow> js ''undefined'') else js ''{}''
          | None \<Rightarrow> js ''{}'')
      in url @ js ''?'' @ params)"

definition originalGet :: "jsstr \<Rightarrow> bool \<Rightarrow> client \<Rightarrow> request_id \<times> client" where
  "originalGet key shared c =
     (let r = length (issued c) in
      (r, c\<lparr>issued := (r, key, shared) # issued c, pending := insert r (pending c)\<rparr>))"

definition api_get :: "jsstr \<Rightarrow> get_config \<Rightarrow> client \<Rightarrow> request_id \<times> client" where
  "api_get url config c =
     (let key = genKey url config in
      if gc_disableDuplicate config then originalGet key False c
      else (case inFlight c key of
          Some r \<Rightarrow> (r, c)
        | None \<Rightarrow> let (r, c') = originalGet key True c in (r, c'\<lparr>inFlight := (inFlight c')(key \<mapsto> r)\<rparr>)))"

text \<open>The answer or failure of a request; the \<open>finally\<close> handler of a shared one removes its key.\<close>

definition settled :: "request_id \<Rightarrow> client \<Rightarrow> client" where
  "settled r c =
     (let c' = c\<lparr>pending := pending c - {r}\<rparr> in
      case map_of (issued c) r of
        Some (key, True) \<Rightarrow> c'\<lparr>inFlight := (inFlight c')(key := None)\<rparr>
      | _ \<Rightarrow> c')"

text \<open>What happens to a failed response: whether the error is shown to the user.\<close>

definition onResponseError :: "client \<Rightarrow> bool \<Rightarrow> bool" where
  "onResponseError c skipErrorHandler \<longleftrightarrow> has_interceptor c \<and> \<not> skipErrorHandler"

section \<open>Playground requests\<close>

definition parameterMappings :: "jsstr list" where
  "parameterMappings = map js [''temperature'', ''top_p'', ''max_tokens'', ''frequency_penalty'', ''presence_penalty'', ''seed'']"

fun is_number :: "jsval \<Rightarrow> bool" where
  "is_number (JNum _) = True"
| "is_number _ = False"

definition add_parameter :: "jsval \<Rightarrow> jsval \<Rightarrow> (jsstr \<times> jsval) list \<Rightarrow> jsstr \<Rightarrow> (jsstr \<times> jsval) list" where
  "add_parameter inputs parameterEnabled payload param =
     (let v = js_prop inputs param in
      if \<not> truthy (js_prop parameterEnabled param) then payload
      else if param = js ''max_tokens'' then (if is_number v then obj_put param v payload else payload)
      else if \<not> is_nullish v then obj_put param v payload else payload)"

definition buildApiPayload :: "jsval list \<Rightarrow> jsstr \<Rightarrow> jsval \<Rightarrow> jsval \<Rightarrow> (jsstr \<times> jsval) list" where
  "buildApiPayload messages systemPrompt inputs parameterEnabled =
     (let processed = filter truthy (map formatMessageForAPI (filter isValidMessage messages));
          processedMessages = (if systemPrompt \<noteq> [] \<and> trim systemPrompt \<noteq> []
            then JObj [(js ''role'', JStr (js ''system'')), (js ''content'', JStr (trim systemPrompt))] # processed
            else processed);
          payload = [(js ''model'', js_prop inputs (js ''model'')), (js ''group'', js_prop inputs (js ''group'')),
                     (js ''messages'', JArr processedMessages), (js ''stream'', js_prop inputs (js ''stream''))]
      in foldl (add_parameter inputs parameterEnabled) payload parameterMappings)"

text \<open>
  The report of a failed request: \<open>error\<close> is the error object, \<open>response\<close> the answer or \<open>null\<close>.
  The text search throws when the error has no message.
\<close>

definition unknown_error :: jsstr where
  "unknown_error = [26410, 30693, 38169, 35823]"

definition status_details :: jsstr where
  "status_details = [26381, 21153, 22120, 36820, 22238, 20102, 38169, 35823, 29366, 24577, 30721]"

definition network_details :: jsstr where
  "network_details = [32593, 32476, 36830, 25509, 22833, 36133, 25110, 26381, 21153, 22120, 26080, 21709, 24212]"

definition handleApiError :: "jsstr \<Rightarrow> jsval \<Rightarrow> jsval \<Rightarrow> js_error + (jsstr \<times> jsval) list" where
  "handleApiError now error response =
     (let message = js_prop error (js ''message'');
          base = [(js ''error'', js_or message (JStr unknown_error)), (js ''timestamp'', JStr now),
                  (js ''stack'', js_prop error (js ''stack''))];
          info = (if truthy response
            then base @ [(js ''status'', js_prop response (js ''status'')), (js ''statusText'', js_prop response (js ''statusText''))]
            else base)
      in case message of
           JStr m \<Rightarrow> Inr (if str_includes m (js ''HTTP error'') then info @ [(js ''details'', JStr status_details)]
                         else if str_includes m (js ''Failed to fetch'') then info @ [(js ''details'', JStr network_details)]
                         else info)
         | _ \<Rightarrow> Inl TypeError)"

definition processModelsData :: "jsstr list \<Rightarrow> jsstr \<Rightarrow> (jsstr \<times> jsstr) list \<times> jsstr option" where
  "processModelsData data currentModel =
     (let modelOptions = map (\<lambda>m. (m, m)) data;
          hasCurrentModel = list_ex (\<lambda>(_, v). v = currentModel) modelOptions
      in (modelOptions, if hasCurrentModel \<and> modelOptions \<noteq> [] then Some currentModel
                        else (case modelOptions of [] \<Rightarrow> None | (_, v) # _ \<Rightarrow> Some v)))"

record group_option =
  go_label :: jsstr
  go_value :: jsstr
  go_ratio :: jsval
  go_fullLabel :: "jsstr option"

definition user_group_label :: jsstr where
  "user_group_label = [29992, 25143, 20998, 32452]"

definition group_entry :: "jsstr \<times> jsstr \<times> jsval \<Rightarrow> group_option" where
  "group_entry g = (case g of (grp, desc, ratio) \<Rightarrow>
     \<lparr>go_label = (if length desc > 20 then take 20 desc @ js ''...'' else desc), go_value = grp,
      go_ratio = ratio, go_fullLabel = Some desc\<rparr>)"

fun find_index :: "('a \<Rightarrow> bool) \<Rightarrow> 'a list \<Rightarrow> nat option" where
  "find_index P [] = None"
| "find_index P (x # xs) = (if P x then Some 0 else map_option Suc (find_index P xs))"

definition processGroupsData :: "(jsstr \<times> jsstr \<times> jsval) list \<Rightarrow> jsstr \<Rightarrow> group_option list" where
  "processGroupsData data userGroup =
     (let groupOptions = map group_entry data in
      if groupOptions = [] then [\<lparr>go_label = user_group_label, go_value = [], go_ratio = JNum (Fin 1), go_fullLabel = None\<rparr>]
      else if userGroup \<noteq> [] then
        (case find_index (\<lambda>g. go_value g = userGroup) groupOptions of
           Some i \<Rightarrow> groupOptions ! i # (take i groupOptions @ drop (Suc i) groupOptions)
         | None \<Rightarrow> groupOptions)
      else groupOptions)"

section \<open>OAuth\<close>

text \<open>
  A page session: the storage, the client, and what was done in order. The browser's URL objects are
  a base and a list of query parameters; parsing and printing them are arguments, since the browser
  does both.
\<close>

datatype page_event =
    Sent jsstr           \<comment> \<open>a request\<close>
  | Shown jsval          \<comment> \<open>\<open>showError\<close>\<close>
  | Opened jsstr         \<comment> \<open>\<open>window.open(..., '_blank')\<close>\<close>
  | Left jsstr           \<comment> \<open>\<open>window.location.assign\<close>\<close>

record page =
  pg_storage :: storage
  pg_client :: client
  pg_log :: "page_event list"

record answer =
  ans_success :: jsval
  ans_message :: jsval
  ans_data :: jsval

record url =
  u_base :: jsstr
  u_params :: "(jsstr \<times> jsstr) list"

definition plain_get :: get_config where
  "plain_get = \<lparr>gc_params = None, gc_disableDuplicate = False\<rparr>"

definition logged :: "page_event \<Rightarrow> page \<Rightarrow> page" where
  "logged e pg = pg\<lparr>pg_log := pg_log pg @ [e]\<rparr>"

text \<open>\<open>await API.get(path)\<close>: the request is sent (or joined) and settled.\<close>

definition await_get :: "jsstr \<Rightarrow> page \<Rightarrow> page" where
  "await_get path pg =
     (let (r, c) = api_get path plain_get (pg_client pg) in logged (Sent path) (pg\<lparr>pg_client := settled r c\<rparr>))"

definition redirectToOAuthUrl :: "jsstr \<Rightarrow> bool \<Rightarrow> page \<Rightarrow> page" where
  "redirectToOAuthUrl targetUrl openInNewTab pg = logged (if openInNewTab then Opened targetUrl else Left targetUrl) pg"

definition oauthStatePath :: "storage \<Rightarrow> jsstr" where
  "oauthStatePath s =
     (case getItem (js ''aff'') s of
        Some affCode \<Rightarrow> if affCode \<noteq> [] then js ''/api/oauth/state?aff='' @ affCode else js ''/api/oauth/state''
      | None \<Rightarrow> js ''/api/oauth/state'')"

definition getOAuthState :: "js_error + answer \<Rightarrow> page \<Rightarrow> (js_error + jsval) \<times> page" where
  "getOAuthState ans pg =
     (let pg1 = await_get (oauthStatePath (pg_storage pg)) pg in
      case ans of
        Inl e \<Rightarrow> (Inl e, pg1)
      | Inr a \<Rightarrow> if truthy (ans_success a) then (Inr (ans_data a), pg1)
                 else (Inr (JStr []), logged (Shown (ans_message a)) pg1))"

text \<open>Logging out first: a failure of that request is ignored, the stored user is removed and the client replaced.\<close>

definition logout_page :: "page \<Rightarrow> js_error + page" where
  "logout_page pg =
     (let pg1 = await_get (js ''/api/user/logout'') pg;
          s = removeItem (js ''user'') (pg_storage pg1)
      in case updateAPI s of Inl e \<Rightarrow> Inl e | Inr c \<Rightarrow> Inr (pg1\<lparr>pg_storage := s, pg_client := c\<rparr>))"

definition prepareOAuthState :: "bool \<Rightarrow> js_error + answer \<Rightarrow> page \<Rightarrow> (js_error + jsval) \<times> page" where
  "prepareOAuthState shouldLogout ans pg =
     (if shouldLogout
      then (case logout_page pg of Inl e \<Rightarrow> (Inl e, pg) | Inr pg1 \<Rightarrow> getOAuthState ans pg1)
      else getOAuthState ans pg)"

definition discordUrl :: "jsstr \<Rightarrow> jsstr \<Rightarrow> jsstr \<Rightarrow> jsstr" where
  "discordUrl origin client_id state =
     js ''https://discord.com/oauth2/authorize?client_id='' @ client_id @ js ''&redirect_uri='' @ origin @ js ''/oauth/discord''
     @ js ''&response_type=code&scope=identify+openid&state='' @ state"

definition githubUrl :: "jsstr \<Rightarrow> jsstr \<Rightarrow> jsstr" where
  "githubUrl client_id state =
     js ''https://github.com/login/oauth/authorize?client_id='' @ client_id @ js ''&state='' @ state @ js ''&scope=user:email''"

definition linuxdoUrl :: "jsstr \<Rightarrow> jsstr \<Rightarrow> jsstr" where
  "linuxdoUrl client_id state =
     js ''https://connect.linux.do/oauth2/authorize?response_type=code&client_id='' @ client_id @ js ''&state='' @ state"

text \<open>What the handlers share: nothing more happens without a state token.\<close>

definition with_state :: "bool \<Rightarrow> js_error + answer \<Rightarrow> (jsstr \<Rightarrow> page \<Rightarrow> (js_error + unit) \<times> page) \<Rightarrow> page \<Rightarrow> (js_error + unit) \<times> page" where
  "with_state shouldLogout ans go pg =
     (case prepareOAuthState shouldLogout ans pg of
        (Inl e, pg1) \<Rightarrow> (Inl e, pg1)
      | (Inr state, pg1) \<Rightarrow> if truthy state then go (js_to_string state) pg1 else (Inr (), pg1))"

definition onDiscordOAuthClicked :: "jsstr \<Rightarrow> jsstr \<Rightarrow> bool \<Rightarrow> js_error + answer \<Rightarrow> page \<Rightarrow> (js_error + unit) \<times> page" where
  "onDiscordOAuthClicked origin client_id shouldLogout ans =
     with_state shouldLogout ans (\<lambda>state pg. (Inr (), redirectToOAuthUrl (discordUrl origin client_id state) False pg))"

definition onGitHubOAuthClicked :: "jsstr \<Rightarrow> bool \<Rightarrow> js_error + answer \<Rightarrow> page \<Rightarrow> (js_error + unit) \<times> page" where
  "onGitHubOAuthClicked client_id shouldLogout ans =
     with_state shouldLogout ans (\<lambda>state pg. (Inr (), redirectToOAuthUrl (githubUrl client_id state) False pg))"

definition onLinuxDOOAuthClicked :: "jsstr \<Rightarrow> bool \<Rightarrow> js_error + answer \<Rightarrow> page \<Rightarrow> (js_error + unit) \<times> page" where
  "onLinuxDOOAuthClicked client_id shouldLogout ans =
     with_state shouldLogout ans (\<lambda>state pg. (Inr (), redirectToOAuthUrl (linuxdoUrl client_id state) False pg))"

text \<open>\<open>searchParams.set\<close>: the first parameter of that name gets the value, the others are removed.\<close>

fun params_set :: "jsstr \<Rightarrow> jsstr \<Rightarrow> (jsstr \<times> jsstr) list \<Rightarrow> (jsstr \<times> jsstr) list" where
  "params_set k v [] = [(k, v)]"
| "params_set k v (p # ps) = (if fst p = k then (k, v) # filter (\<lambda>q. fst q \<noteq> k) ps else p # params_set k v ps)"

definition authUrl :: "jsstr \<Rightarrow> jsstr \<Rightarrow> jsstr \<Rightarrow> jsstr \<Rightarrow> url \<Rightarrow> url" where
  "authUrl client_id redirect_uri scope state u = u\<lparr>u_params :=
     params_set (js ''state'') state (params_set (js ''scope'') scope (params_set (js ''response_type'') (js ''code'')
       (params_set (js ''redirect_uri'') redirect_uri (params_set (js ''client_id'') client_id (u_params u)))))\<rparr>"

definition onOIDCClicked :: "(jsstr \<Rightarrow> url option) \<Rightarrow> (url \<Rightarrow> jsstr) \<Rightarrow> jsstr \<Rightarrow> jsstr \<Rightarrow> jsstr \<Rightarrow> bool \<Rightarrow> bool \<Rightarrow> js_error + answer
    \<Rightarrow> page \<Rightarrow> (js_error + unit) \<times> page" where
  "onOIDCClicked parseUrl showUrl origin auth_url client_id openInNewTab shouldLogout ans =
     with_state shouldLogout ans (\<lambda>state pg.
       case parseUrl auth_url of
         None \<Rightarrow> (Inl TypeError, pg)
       | Some u \<Rightarrow> (Inr (), redirectToOAuthUrl
           (showUrl (authUrl client_id (origin @ js ''/oauth/oidc'') (js ''openid profile email'') state u)) openInNewTab pg))"

record provider =
  pv_slug :: jsstr
  pv_client_id :: jsstr
  pv_endpoint :: jsstr      \<comment> \<open>\<open>authorization_endpoint\<close>\<close>
  pv_scopes :: jsstr        \<comment> \<open>empty when there are none\<close>

definition endpoint_message :: jsstr where
  "endpoint_message = js ''OAuth '' @ [37197, 32622, 38169, 35823, 65306, 25480, 26435, 31471, 28857, 24517, 39035, 26159, 23436, 25972, 30340]
     @ js '' URL'' @ [65288, 20197] @ js '' http:// '' @ [25110] @ js '' https:// '' @ [24320, 22836, 65289]"

definition login_failed_message :: jsstr where
  "login_failed_message = js ''OAuth '' @ [30331, 24405, 22833, 36133, 65306]"

definition is_absolute :: "jsstr \<Rightarrow> bool" where
  "is_absolute endpoint \<longleftrightarrow> startsWith endpoint (js ''http://'') \<or> startsWith endpoint (js ''https://'')"

text \<open>\<open>urlError\<close> is the message of the error that \<open>new URL\<close> throws.\<close>

definition customRedirect :: "(jsstr \<Rightarrow> url option) \<Rightarrow> (url \<Rightarrow> jsstr) \<Rightarrow> jsstr \<Rightarrow> jsstr \<Rightarrow> provider \<Rightarrow> jsstr \<Rightarrow> page \<Rightarrow> (js_error + unit) \<times> page" where
  "customRedirect parseUrl showUrl urlError origin p state pg =
     (let redirect_uri = origin @ js ''/oauth/'' @ pv_slug p;
          scope = (if pv_scopes p = [] then js ''openid profile email'' else pv_scopes p)
      in if \<not> is_absolute (pv_endpoint p) then (Inr (), logged (Shown (JStr endpoint_message)) pg)
         else (case parseUrl (pv_endpoint p) of
                 None \<Rightarrow> (Inr (), logged (Shown (JStr (login_failed_message @ (if urlError = [] then unknown_error else urlError)))) pg)
               | Some u \<Rightarrow> (Inr (), redirectToOAuthUrl (showUrl (authUrl (pv_client_id p) redirect_uri scope state u)) False pg)))"

definition onCustomOAuthClicked :: "(jsstr \<Rightarrow> url option) \<Rightarrow> (url \<Rightarrow> jsstr) \<Rightarrow> jsstr \<Rightarrow> jsstr \<Rightarrow> provider \<Rightarrow> bool \<Rightarrow> js_error + answer
    \<Rightarrow> page \<Rightarrow> (js_error + unit) \<times> page" where
  "onCustomOAuthClicked parseUrl showUrl urlError origin p shouldLogout ans =
     with_state shouldLogout ans (customRedirect parseUrl showUrl urlError origin p)"

section \<open>Channel models\<close>

record channel_cache =
  cc_models :: "jsval option"     \<comment> \<open>\<open>None\<close> is \<open>undefined\<close>\<close>
  cc_storage :: storage

text \<open>\<open>type in o\<close> on an object.\<close>

definition has_key :: "jsval \<Rightarrow> jsstr \<Rightarrow> bool" where
  "has_key v k \<longleftrightarrow> k \<in> fst ` set (entries v)"

definition loadChannelModels :: "jsval \<Rightarrow> jsval \<Rightarrow> channel_cache \<Rightarrow> js_error + channel_cache" where
  "loadChannelModels success data c =
     (if \<not> truthy success then Inr c
      else let c1 = c\<lparr>cc_models := (if data = JUndef then None else Some data)\<rparr> in
        (case setItem (js ''channel_models'') (case json_stringify data of Some t \<Rightarrow> t | None \<Rightarrow> js ''undefined'') (cc_storage c1) of
           Inl e \<Rightarrow> Inl e
         | Inr s \<Rightarrow> Inr (c1\<lparr>cc_storage := s\<rparr>)))"

definition storedChannelModels :: "jsstr \<Rightarrow> channel_cache \<Rightarrow> js_error + jsval \<times> channel_cache" where
  "storedChannelModels type c =
     (case getItem (js ''channel_models'') (cc_storage c) of
        None \<Rightarrow> Inr (JArr [], c)
      | Some models \<Rightarrow>
          if models = [] then Inr (JArr [], c)
          else (case json_parse models of
                  None \<Rightarrow> Inl SyntaxError
                | Some parsed \<Rightarrow>
                    if \<not> typeof_object parsed \<or> parsed = JNull then Inl TypeError
                    else Inr (if has_key parsed type then js_prop parsed type else JArr [],
                              c\<lparr>cc_models := Some parsed\<rparr>)))"

definition getChannelModels :: "jsstr \<Rightarrow> channel_cache \<Rightarrow> js_error + jsval \<times> channel_cache" where
  "getChannelModels type c =
     (case cc_models c of
        Some m \<Rightarrow>
          if \<not> typeof_object m \<or> m = JNull then Inl TypeError
          else if has_key m type then Inr (if truthy (js_prop m type) then js_prop m type else JArr [], c)
          else storedChannelModels type c
      | None \<Rightarrow> storedChannelModels type c)"

section \<open>Runs of the client\<close>

inductive client_run :: "client \<Rightarrow> bool" where
  start: "initial_client s = Inr c \<Longrightarrow> client_run c"
| renew: "client_run c \<Longrightarrow> updateAPI s = Inr c' \<Longrightarrow> client_run c'"
| get: "client_run c \<Longrightarrow> client_run (snd (api_get url config c))"
| settle: "client_run c \<Longrightarrow> r \<in> pending c \<Longrightarrow> client_run (settled r c)"

definition client_ok :: "client \<Rightarrow> bool" where
  "client_ok c \<longleftrightarrow>
     map fst (issued c) = rev [0..<length (issued c)]
     \<and> pending c \<subseteq> fst ` set (issued c)
     \<and> (\<forall>k r. inFlight c k = Some r \<longleftrightarrow> r \<in> pending c \<and> (r, k, True) \<in> set (issued c))"

lemma issued_fst: "client_ok c \<Longrightarrow> (r, x) \<in> set (issued c) \<Longrightarrow> r < length (issued c)"
proof -
  assume c: "client_ok c" and r: "(r, x) \<in> set (issued c)"
  have "r \<in> set (map fst (issued c))" using r by force
  also have "set (map fst (issued c)) = {0..<length (issued c)}" using c by (simp add: client_ok_def)
  finally show ?thesis by simp
qed

lemma issued_unique: "client_ok c \<Longrightarrow> (r, x) \<in> set (issued c) \<Longrightarrow> (r, y) \<in> set (issued c) \<Longrightarrow> x = y"
proof -
  assume c: "client_ok c" and x: "(r, x) \<in> set (issued c)" and y: "(r, y) \<in> set (issued c)"
  have "distinct (map fst (issued c))" using c by (simp add: client_ok_def)
  then show ?thesis using x y by (metis eq_key_imp_eq_value)
qed

lemma ok_new: "client_ok (new_client user)" "initial_client s = Inr c \<Longrightarrow> client_ok c" "updateAPI s = Inr c \<Longrightarrow> client_ok c"
  by (auto simp: client_ok_def new_client_def initial_client_def updateAPI_def split: sum.splits)

lemma client_okI:
  assumes "map fst (issued c) = rev [0..<length (issued c)]" and "pending c \<subseteq> fst ` set (issued c)"
    and "\<And>k r. inFlight c k = Some r \<longleftrightarrow> r \<in> pending c \<and> (r, k, True) \<in> set (issued c)"
  shows "client_ok c"
  using assms by (simp add: client_ok_def)

lemma client_okD:
  assumes "client_ok c"
  shows "map fst (issued c) = rev [0..<length (issued c)]" and "pending c \<subseteq> fst ` set (issued c)"
    and "inFlight c k = Some r \<longleftrightarrow> r \<in> pending c \<and> (r, k, True) \<in> set (issued c)"
  using assms by (simp_all add: client_ok_def)

lemma fresh_id:
  assumes "client_ok c"
  shows "length (issued c) \<notin> pending c" and "(length (issued c), x) \<notin> set (issued c)"
proof -
  show n: "(length (issued c), x) \<notin> set (issued c)" for x using issued_fst [OF assms, of "length (issued c)" x] by blast
  show "length (issued c) \<notin> pending c"
  proof
    assume "length (issued c) \<in> pending c"
    then obtain x where "(length (issued c), x) \<in> set (issued c)" using client_okD(2) [OF assms] by force
    then show False using n by blast
  qed
qed

lemma ok_issue:
  assumes "client_ok c" and "\<not> shared \<or> inFlight c key = None"
  shows "client_ok (c\<lparr>issued := (length (issued c), key, shared) # issued c, pending := insert (length (issued c)) (pending c),
    inFlight := (if shared then (inFlight c)(key \<mapsto> length (issued c)) else inFlight c)\<rparr>)" (is "client_ok ?c")
proof (rule client_okI)
  show "map fst (issued ?c) = rev [0..<length (issued ?c)]" using client_okD(1) [OF assms(1)] by simp
  show "pending ?c \<subseteq> fst ` set (issued ?c)" using client_okD(2) [OF assms(1)] by auto
  fix k r
  show "inFlight ?c k = Some r \<longleftrightarrow> r \<in> pending ?c \<and> (r, k, True) \<in> set (issued ?c)"
  proof (cases "r = length (issued c)")
    case True
    then have "inFlight c k \<noteq> Some r" "(r, k, True) \<notin> set (issued c)"
      using fresh_id [OF assms(1)] client_okD(3) [OF assms(1), of k r] by auto
    then show ?thesis using True by auto
  next
    case False
    then show ?thesis using client_okD(3) [OF assms(1), of k r] assms(2) by auto
  qed
qed

lemma ok_originalGet:
  assumes "client_ok c"
  shows "client_ok (snd (originalGet key False c))"
    and "inFlight c key = None \<Longrightarrow>
      client_ok ((snd (originalGet key True c))\<lparr>inFlight := (inFlight (snd (originalGet key True c)))(key \<mapsto> length (issued c))\<rparr>)"
  using ok_issue [OF assms, of False key] ok_issue [OF assms, of True key] by (simp_all add: originalGet_def Let_def)

lemma ok_get: "client_ok c \<Longrightarrow> client_ok (snd (api_get url config c))"
  using ok_originalGet [of c "genKey url config"]
  by (auto simp: api_get_def Let_def originalGet_def split: option.splits)

lemma ok_settled:
  assumes "client_ok c" and "r \<in> pending c"
  shows "client_ok (settled r c)" and "(r, k, True) \<in> set (issued c) \<Longrightarrow> inFlight (settled r c) k = None"
proof -
  have d: "distinct (map fst (issued c))" using client_okD(1) [OF assms(1)] by simp
  obtain k b where k: "(r, k, b) \<in> set (issued c)" using assms(2) client_okD(2) [OF assms(1)] by force
  then have m: "map_of (issued c) r = Some (k, b)" using d by simp
  have u: "(r, k', b') \<in> set (issued c) \<Longrightarrow> k' = k \<and> b' = b" for k' b'
    using issued_unique [OF assms(1) k] by auto
  have s: "settled r c = c\<lparr>pending := pending c - {r}, inFlight := (if b then (inFlight c)(k := None) else inFlight c)\<rparr>"
    by (cases b) (simp_all add: settled_def m Let_def)
  show "inFlight (settled r c) k = None" if "(r, k, True) \<in> set (issued c)" for k
    using u [OF that] by (simp add: s)
  show "client_ok (settled r c)"
  proof (rule client_okI)
    show "map fst (issued (settled r c)) = rev [0..<length (issued (settled r c))]"
      using client_okD(1) [OF assms(1)] by (simp add: s)
    show "pending (settled r c) \<subseteq> fst ` set (issued (settled r c))"
      using client_okD(2) [OF assms(1)] by (auto simp: s)
    fix k' r'
    have i: "inFlight c k' = Some r' \<longleftrightarrow> r' \<in> pending c \<and> (r', k', True) \<in> set (issued c)"
      by (rule client_okD(3) [OF assms(1)])
    have "r' = r" if "b" "k' = k" "r' \<in> pending c" "(r', k', True) \<in> set (issued c)"
      using client_okD(3) [OF assms(1), of k r] client_okD(3) [OF assms(1), of k r'] k assms(2) that by simp
    then show "inFlight (settled r c) k' = Some r' \<longleftrightarrow> r' \<in> pending (settled r c) \<and> (r', k', True) \<in> set (issued (settled r c))"
      using i u [of k' True] by (cases "b \<and> k' = k") (auto simp: s)
  qed
qed

lemma run_ok: "client_run c \<Longrightarrow> client_ok c"
  by (induction rule: client_run.induct) (auto simp: ok_new ok_get ok_settled)

section \<open>Properties\<close>

text \<open>
  C30: concurrent equal GET requests are merged: in every run of the client at most one shared request
  per key is unanswered, a further call for its key returns that very request and sends nothing, and
  once it is settled the next call sends a new one.
\<close>

theorem get_requests_merged:
  assumes "client_run c" and "\<not> gc_disableDuplicate config" and "api_get url config c = (r, c1)"
  shows "(\<exists>\<^sub>\<le>\<^sub>1 q. q \<in> pending c1 \<and> (q, genKey url config, True) \<in> set (issued c1))
    \<and> api_get url config c1 = (r, c1)
    \<and> (\<exists>c2. api_get url config (settled r c1) = (length (issued c1), c2)) \<and> r < length (issued c1)"
proof -
  let ?k = "genKey url config"
  have ok: "client_ok c1" using ok_get [OF run_ok [OF assms(1)], of url config] assms(3) by simp
  have f: "inFlight c1 ?k = Some r"
    using assms(2,3) by (auto simp: api_get_def Let_def split: option.splits prod.splits)
  then have r: "r \<in> pending c1" "(r, ?k, True) \<in> set (issued c1)" using client_okD(3) [OF ok] by blast+
  have "inFlight (settled r c1) ?k = None" by (rule ok_settled(2) [OF ok r])
  moreover have "issued (settled r c1) = issued c1"
    by (simp add: settled_def Let_def split: option.splits bool.splits)
  ultimately have "\<exists>c2. api_get url config (settled r c1) = (length (issued c1), c2)"
    using assms(2) by (simp add: api_get_def originalGet_def Let_def)
  moreover have "\<exists>\<^sub>\<le>\<^sub>1 q. q \<in> pending c1 \<and> (q, ?k, True) \<in> set (issued c1)"
    unfolding client_okD(3) [OF ok, symmetric] Uniq_def using f by simp
  moreover have "api_get url config c1 = (r, c1)" using assms(2) f by (simp add: api_get_def Let_def)
  ultimately show ?thesis using issued_fst [OF ok r(2)] by blast
qed

theorem get_requests_merged_witness:
  "\<exists>c. initial_client empty_storage = Inr c
     \<and> api_get (js ''/api/status'') plain_get (snd (api_get (js ''/api/status'') plain_get c)) =
         (0, snd (api_get (js ''/api/status'') plain_get c))"
proof -
  let ?c = "(new_client (JNum (Fin (- 1))))\<lparr>has_interceptor := True\<rparr>"
  let ?g = "api_get (js ''/api/status'') plain_get ?c"
  have i: "initial_client empty_storage = Inr ?c"
    by (simp add: initial_client_def getUserIdFromLocalStorage_def getItem_def empty_storage_def)
  have d: "\<not> gc_disableDuplicate plain_get" by (simp add: plain_get_def)
  have "fst ?g = 0" by (simp add: api_get_def originalGet_def new_client_def plain_get_def Let_def)
  then have "?g = (0, snd ?g)" by (simp add: prod_eq_iff)
  from get_requests_merged [OF client_run.start [OF i] d this] i show ?thesis by blast
qed

lemma add_parameter_other: "k \<noteq> p \<Longrightarrow> map_of (add_parameter inputs en payload p) k = map_of payload k"
  by (auto simp: add_parameter_def Let_def)

lemma add_parameters:
  "distinct ps \<Longrightarrow> map_of (foldl (add_parameter inputs en) payload ps) k =
     (if k \<in> set ps then map_of (add_parameter inputs en payload k) k else map_of payload k)"
proof (induction ps arbitrary: payload)
  case (Cons p ps)
  have "map_of (add_parameter inputs en (add_parameter inputs en payload p) k) k = map_of (add_parameter inputs en payload k) k"
    if "k \<noteq> p" using add_parameter_other [OF that] by (simp add: add_parameter_def Let_def)
  with Cons show ?case by (auto simp: add_parameter_other)
qed simp

definition sends_parameter :: "jsval \<Rightarrow> jsval \<Rightarrow> jsstr \<Rightarrow> bool" where
  "sends_parameter inputs en p \<longleftrightarrow> truthy (js_prop en p) \<and>
     (if p = js ''max_tokens'' then is_number (js_prop inputs p) else \<not> is_nullish (js_prop inputs p))"

lemma valid_formatted: "isValidMessage m \<Longrightarrow> truthy (formatMessageForAPI m)"
  by (simp add: isValidMessage_def formatMessageForAPI_def)

text \<open>
  The payload of a playground request carries a sampling parameter exactly when it is enabled
  and has a value (for the token limit, a number), and only valid messages, reduced to role and
  content, after the trimmed system prompt if there is one.
\<close>

theorem payload_parameters:
  assumes "p \<in> set parameterMappings"
  shows "map_of (buildApiPayload messages systemPrompt inputs en) p =
      (if sends_parameter inputs en p then Some (js_prop inputs p) else None)
    \<and> map_of (buildApiPayload messages systemPrompt inputs en) (js ''messages'') =
      Some (JArr ((if trim systemPrompt \<noteq> []
                   then [JObj [(js ''role'', JStr (js ''system'')), (js ''content'', JStr (trim systemPrompt))]] else [])
              @ map formatMessageForAPI (filter isValidMessage messages)))"
proof -
  have d: "distinct parameterMappings" by (simp add: parameterMappings_def)
  have f: "filter truthy (map formatMessageForAPI (filter isValidMessage messages)) =
      map formatMessageForAPI (filter isValidMessage messages)"
    using valid_formatted by (auto simp: filter_id_conv)
  have n: "js ''messages'' \<notin> set parameterMappings" by (simp add: parameterMappings_def)
  have o: "map_of [(js ''model'', a), (js ''group'', b), (js ''messages'', c), (js ''stream'', e)] p = None" for a b c e :: jsval
    using assms by (auto simp: parameterMappings_def)
  show ?thesis
    using assms n unfolding buildApiPayload_def Let_def f add_parameters [OF d]
    by (auto simp: add_parameter_def sends_parameter_def o Let_def simp del: map_of.simps(2))
       (simp_all)
qed

theorem payload_parameters_witness:
  "map_of (buildApiPayload [] (js '' be brief '') (JObj [(js ''seed'', JNull), (js ''top_p'', JNum (Fin 1))])
      (JObj [(js ''seed'', JBool True), (js ''top_p'', JBool True)])) (js ''top_p'') = Some (JNum (Fin 1))"
  using payload_parameters [of "js ''top_p''" "[]" "js '' be brief ''" "JObj [(js ''seed'', JNull), (js ''top_p'', JNum (Fin 1))]"
      "JObj [(js ''seed'', JBool True), (js ''top_p'', JBool True)]"]
  by (simp add: parameterMappings_def sends_parameter_def)

text \<open>
  The group list of the playground is a rearrangement of the groups the server sent, with the
  user's own group first when it is among them and the other groups in their order.
\<close>

lemma find_index_Some:
  "find_index P xs = Some i \<Longrightarrow> i < length xs \<and> P (xs ! i) \<and> (\<forall>x \<in> set (take i xs). \<not> P x)"
  by (induction xs arbitrary: i) (auto split: if_splits)

lemma find_index_None: "find_index P xs = None \<longleftrightarrow> (\<forall>x \<in> set xs. \<not> P x)"
  by (induction xs) auto

lemma move_front:
  assumes "i < length gs" "\<not> Q (gs ! i)"
  shows "mset (gs ! i # take i gs @ drop (Suc i) gs) = mset gs"
    and "filter Q (gs ! i # take i gs @ drop (Suc i) gs) = filter Q gs"
proof -
  obtain as x bs where gs: "gs = as @ x # bs" "take i gs = as" "gs ! i = x" "drop (Suc i) gs = bs"
    using id_take_nth_drop [OF assms(1)] by metis
  show "mset (gs ! i # take i gs @ drop (Suc i) gs) = mset gs" unfolding gs(2-4) by (simp add: gs(1))
  show "filter Q (gs ! i # take i gs @ drop (Suc i) gs) = filter Q gs"
    using assms(2) unfolding gs(2-4) by (simp add: gs(1))
qed

theorem groups_user_first:
  assumes "data \<noteq> []"
  shows "mset (processGroupsData data userGroup) = mset (map group_entry data)
    \<and> (userGroup \<in> fst ` set data \<and> userGroup \<noteq> [] \<longrightarrow> go_value (hd (processGroupsData data userGroup)) = userGroup)
    \<and> filter (\<lambda>g. go_value g \<noteq> userGroup) (processGroupsData data userGroup) =
      filter (\<lambda>g. go_value g \<noteq> userGroup) (map group_entry data)"
proof -
  define gs where "gs = map group_entry data"
  have v: "go_value (group_entry g) = fst g" for g by (cases g) (simp add: group_entry_def)
  have ne: "gs \<noteq> []" using assms by (simp add: gs_def)
  have r: "processGroupsData data userGroup = (if userGroup \<noteq> [] then
      (case find_index (\<lambda>g. go_value g = userGroup) gs of
         Some i \<Rightarrow> gs ! i # (take i gs @ drop (Suc i) gs) | None \<Rightarrow> gs) else gs)"
    unfolding processGroupsData_def gs_def [symmetric] Let_def using ne by simp
  have u: "userGroup \<in> fst ` set data \<longleftrightarrow> (\<exists>g \<in> set gs. go_value g = userGroup)"
    by (auto simp: gs_def v image_iff)
  show ?thesis
  proof (cases "find_index (\<lambda>g. go_value g = userGroup) gs")
    case None
    then have "userGroup \<notin> fst ` set data" using u by (simp add: find_index_None)
    then show ?thesis unfolding gs_def [symmetric] r None by simp
  next
    case (Some i)
    from find_index_Some [OF Some] have i: "i < length gs" "go_value (gs ! i) = userGroup" by auto
    show ?thesis
      using move_front [OF i(1), of "\<lambda>g. go_value g \<noteq> userGroup"] i(2)
      unfolding gs_def [symmetric] r Some by (cases "userGroup = []") simp_all
  qed
qed

theorem groups_user_first_witness:
  "go_value (hd (processGroupsData [(js ''default'', js ''d'', JNull), (js ''vip'', js ''v'', JNull)] (js ''vip''))) = js ''vip''"
  using groups_user_first [of "[(js ''default'', js ''d'', JNull), (js ''vip'', js ''v'', JNull)]" "js ''vip''"] by simp

text \<open>
  For a channel type whose stored list is \<open>null\<close>, the first call after a page load returns
  \<open>null\<close> and every later call the empty list.
\<close>

theorem channel_models_null_once:
  assumes "cc_models c = None" and "getItem (js ''channel_models'') (cc_storage c) = Some t" and "t \<noteq> []"
    and "json_parse t = Some (JObj ps)" and "map_of ps type = Some JNull"
  shows "\<exists>c'. getChannelModels type c = Inr (JNull, c') \<and> getChannelModels type c' = Inr (JArr [], c')"
proof -
  have "type \<in> fst ` set ps" using assms(5) by (metis map_of_eq_None_iff option.distinct(1))
  then show ?thesis using assms by (simp add: getChannelModels_def storedChannelModels_def has_key_def)
qed

definition null_models :: channel_cache where
  "null_models = \<lparr>cc_models = None,
     cc_storage = empty_storage\<lparr>items := [js ''channel_models'' \<mapsto> [123, 34, 49, 34, 58] @ js ''null}'']\<rparr>\<rparr>"

theorem channel_models_null_once_witness:
  "\<exists>c'. getChannelModels (js ''1'') null_models = Inr (JNull, c') \<and> getChannelModels (js ''1'') c' = Inr (JArr [], c')"
proof (rule channel_models_null_once [where ps = "[(js ''1'', JNull)]"])
  show "json_parse ([123, 34, 49, 34, 58] @ js ''null}'') = Some (JObj [(js ''1'', JNull)])" by code_simp
qed (simp_all add: null_models_def getItem_def)

text \<open>Replacing the client loses the response interceptor, so errors are no longer shown.\<close>

lemma updateAPI_loses_error_handler:
  "initial_client s = Inr c \<Longrightarrow> onResponseError c skip = (\<not> skip)"
  "updateAPI s = Inr c \<Longrightarrow> onResponseError c skip = False"
  by (auto simp: onResponseError_def initial_client_def updateAPI_def new_client_def split: sum.splits)

fun is_redirect :: "page_event \<Rightarrow> bool" where
  "is_redirect (Opened _) = True"
| "is_redirect (Left _) = True"
| "is_redirect _ = False"

definition redirects :: "page \<Rightarrow> page_event list" where
  "redirects pg = filter is_redirect (pg_log pg)"

definition has_token :: "js_error + answer \<Rightarrow> bool" where
  "has_token ans \<longleftrightarrow> (case ans of Inl _ \<Rightarrow> False | Inr a \<Rightarrow> truthy (ans_success a) \<and> truthy (ans_data a))"

definition token :: "js_error + answer \<Rightarrow> jsstr" where
  "token ans = (case ans of Inl _ \<Rightarrow> [] | Inr a \<Rightarrow> js_to_string (ans_data a))"

lemma page_simps [simp]:
  "pg_storage (logged e pg) = pg_storage pg" "pg_client (logged e pg) = pg_client pg" "pg_log (logged e pg) = pg_log pg @ [e]"
  "pg_storage (await_get path pg) = pg_storage pg" "pg_log (await_get path pg) = pg_log pg @ [Sent path]"
  by (simp_all add: logged_def await_get_def split: prod.splits)

lemma redirects_simps [simp]:
  "redirects (redirectToOAuthUrl t tab pg) = redirects pg @ [if tab then Opened t else Left t]"
  "redirects (logged (Shown v) pg) = redirects pg" "redirects (await_get path pg) = redirects pg"
  "pg_storage (redirectToOAuthUrl t tab pg) = pg_storage pg" "pg_client (redirectToOAuthUrl t tab pg) = pg_client pg"
  by (simp_all add: redirects_def redirectToOAuthUrl_def)

lemma await_get_client [simp]: "has_interceptor (pg_client (await_get path pg)) = has_interceptor (pg_client pg)"
  "user_header (pg_client (await_get path pg)) = user_header (pg_client pg)"
  by (auto simp: await_get_def logged_def api_get_def originalGet_def settled_def Let_def split: prod.splits option.splits bool.splits)

lemma getOAuthState_token:
  "getOAuthState ans pg = (r, pg1) \<Longrightarrow>
     redirects pg1 = redirects pg \<and> pg_storage pg1 = pg_storage pg
     \<and> user_header (pg_client pg1) = user_header (pg_client pg)
     \<and> has_token ans = (\<exists>v. r = Inr v \<and> truthy v) \<and> (\<forall>v. r = Inr v \<and> truthy v \<longrightarrow> js_to_string v = token ans)
     \<and> (\<forall>e. r = Inl e \<longleftrightarrow> ans = Inl e)"
  by (auto simp: getOAuthState_def has_token_def token_def Let_def split: sum.splits if_splits)

lemma logout_page_effect:
  "\<exists>pg1. logout_page pg = Inr pg1 \<and> redirects pg1 = redirects pg \<and> getItem (js ''user'') (pg_storage pg1) = None
     \<and> user_header (pg_client pg1) = JNum (Fin (- 1))"
  by (simp add: logout_page_def updateAPI_def getUserIdFromLocalStorage_def local.get_drop Let_def redirects_def new_client_def)

lemma prepareOAuthState_token:
  assumes "prepareOAuthState shouldLogout ans pg = (r, pg1)"
  shows "redirects pg1 = redirects pg" and "has_token ans = (\<exists>v. r = Inr v \<and> truthy v)"
    and "r = Inr v \<Longrightarrow> truthy v \<Longrightarrow> js_to_string v = token ans"
    and "shouldLogout \<Longrightarrow> getItem (js ''user'') (pg_storage pg1) = None \<and> user_header (pg_client pg1) = JNum (Fin (- 1))"
    and "r = Inl e \<longleftrightarrow> ans = Inl e"
proof -
  obtain p0 where p0: "logout_page pg = Inr p0" "redirects p0 = redirects pg" "getItem (js ''user'') (pg_storage p0) = None"
      "user_header (pg_client p0) = JNum (Fin (- 1))"
    using logout_page_effect by blast
  have g: "getOAuthState ans (if shouldLogout then p0 else pg) = (r, pg1)"
    using assms p0(1) by (simp add: prepareOAuthState_def split: if_splits)
  show "redirects pg1 = redirects pg" "has_token ans = (\<exists>v. r = Inr v \<and> truthy v)"
    using getOAuthState_token [OF g] p0(2) by (auto split: if_splits)
  show "r = Inr v \<Longrightarrow> truthy v \<Longrightarrow> js_to_string v = token ans" using getOAuthState_token [OF g] by blast
  show "r = Inl e \<longleftrightarrow> ans = Inl e" using getOAuthState_token [OF g] by blast
  show "shouldLogout \<Longrightarrow> getItem (js ''user'') (pg_storage pg1) = None \<and> user_header (pg_client pg1) = JNum (Fin (- 1))"
    using getOAuthState_token [OF g] p0 by simp
qed

lemma with_state_cases:
  assumes "with_state shouldLogout ans go pg = (res, pg')"
  obtains pg1 where "redirects pg1 = redirects pg"
    "shouldLogout \<Longrightarrow> getItem (js ''user'') (pg_storage pg1) = None \<and> user_header (pg_client pg1) = JNum (Fin (- 1))"
    "has_token ans \<Longrightarrow> go (token ans) pg1 = (res, pg')" "\<not> has_token ans \<Longrightarrow> pg' = pg1 \<and> res = (case ans of Inl e \<Rightarrow> Inl e | Inr _ \<Rightarrow> Inr ())"
proof -
  obtain r pg1 where p: "prepareOAuthState shouldLogout ans pg = (r, pg1)" by (cases "prepareOAuthState shouldLogout ans pg")
  note t = prepareOAuthState_token [OF p]
  show ?thesis
  proof (rule that [of pg1])
    show "go (token ans) pg1 = (res, pg')" if h: "has_token ans"
    proof -
      obtain v where v: "r = Inr v" "truthy v" using h t(2) by blast
      then show ?thesis using assms p t(3) [OF v] by (simp add: with_state_def)
    qed
    show "pg' = pg1 \<and> res = (case ans of Inl e \<Rightarrow> Inl e | Inr _ \<Rightarrow> Inr ())" if h: "\<not> has_token ans"
    proof (cases r)
      case (Inl e)
      then have "ans = Inl e" using t(5) by blast
      then show ?thesis using assms p Inl by (simp add: with_state_def)
    next
      case (Inr v)
      then obtain a where "ans = Inr a" using t(5) by (cases ans) auto
      then show ?thesis using assms p Inr h t(2) by (simp add: with_state_def)
    qed
  qed (use t(1,4) in auto)
qed

lemma map_of_filter_key: "k \<noteq> j \<Longrightarrow> map_of (filter (\<lambda>q. fst q \<noteq> k) ps) j = map_of ps j"
  by (induction ps) auto

lemma params_set_get [simp]: "map_of (params_set k v ps) j = (if j = k then Some v else map_of ps j)"
  by (induction ps) (auto simp: map_of_filter_key)

text \<open>
  A click on a custom OAuth provider leaves the page exactly when the server issued a state token
  and the endpoint is an absolute, well-formed URL; it then leaves it once, to that URL with the
  token as \<open>state\<close> and the provider's callback under this site as \<open>redirect_uri\<close>; when asked to
  log out, no stored user remains and the client is anonymous.
\<close>

theorem custom_oauth_redirect:
  assumes "onCustomOAuthClicked parseUrl showUrl urlError origin p shouldLogout ans pg = (res, pg')"
  shows "(if has_token ans \<and> is_absolute (pv_endpoint p) \<and> parseUrl (pv_endpoint p) \<noteq> None
          then \<exists>u. redirects pg' = redirects pg @ [Left (showUrl u)]
            \<and> u_base u = u_base (the (parseUrl (pv_endpoint p)))
            \<and> map_of (u_params u) (js ''state'') = Some (token ans)
            \<and> map_of (u_params u) (js ''response_type'') = Some (js ''code'')
            \<and> map_of (u_params u) (js ''client_id'') = Some (pv_client_id p)
            \<and> map_of (u_params u) (js ''redirect_uri'') = Some (origin @ js ''/oauth/'' @ pv_slug p)
          else redirects pg' = redirects pg)
    \<and> res = (case ans of Inl e \<Rightarrow> Inl e | Inr _ \<Rightarrow> Inr ())
    \<and> (shouldLogout \<longrightarrow> getItem (js ''user'') (pg_storage pg') = None
         \<and> user_header (pg_client pg') = JNum (Fin (- 1)))"
proof -
  obtain pg1 where r: "redirects pg1 = redirects pg"
    and l: "shouldLogout \<Longrightarrow> getItem (js ''user'') (pg_storage pg1) = None \<and> user_header (pg_client pg1) = JNum (Fin (- 1))"
    and y: "has_token ans \<Longrightarrow> customRedirect parseUrl showUrl urlError origin p (token ans) pg1 = (res, pg')"
    and n: "\<not> has_token ans \<Longrightarrow> pg' = pg1 \<and> res = (case ans of Inl e \<Rightarrow> Inl e | Inr _ \<Rightarrow> Inr ())"
    using with_state_cases [OF assms [unfolded onCustomOAuthClicked_def]] by blast
  show ?thesis
  proof (cases "has_token ans")
    case True
    then obtain a where a: "ans = Inr a" by (auto simp: has_token_def split: sum.splits)
    show ?thesis
    proof (cases "is_absolute (pv_endpoint p) \<and> parseUrl (pv_endpoint p) \<noteq> None")
      case ok: True
      then obtain u where u: "parseUrl (pv_endpoint p) = Some u" by blast
      show ?thesis using y [OF True] ok r l a True by (auto simp: customRedirect_def authUrl_def u Let_def)
    next
      case bad: False
      show ?thesis using y [OF True] bad r l a by (cases "is_absolute (pv_endpoint p)") (auto simp: customRedirect_def Let_def)
    qed
  next
    case False
    then show ?thesis using n [OF False] r l by auto
  qed
qed

definition sample_provider :: provider where
  "sample_provider = \<lparr>pv_slug = js ''acme'', pv_client_id = js ''c'', pv_endpoint = js ''https://acme/auth'', pv_scopes = []\<rparr>"

definition sample_page :: page where
  "sample_page = \<lparr>pg_storage = empty_storage, pg_client = new_client JNull, pg_log = []\<rparr>"

theorem custom_oauth_redirect_witness:
  "\<exists>u::url. redirects (snd (onCustomOAuthClicked (\<lambda>t. Some \<lparr>u_base = t, u_params = []\<rparr>) u_base [] (js ''https://x'') sample_provider True
         (Inr \<lparr>ans_success = JBool True, ans_message = JStr [], ans_data = JStr (js ''s'')\<rparr>) sample_page)) = [Left (u_base u)]
     \<and> map_of (u_params u) (js ''state'') = Some (js ''s'')"
proof -
  let ?ans = "Inr \<lparr>ans_success = JBool True, ans_message = JStr [], ans_data = JStr (js ''s'')\<rparr> :: js_error + answer"
  let ?r = "onCustomOAuthClicked (\<lambda>t. Some \<lparr>u_base = t, u_params = []\<rparr>) u_base [] (js ''https://x'') sample_provider True ?ans sample_page"
  have r: "?r = (fst ?r, snd ?r)" by simp
  have "is_absolute (js ''https://acme/auth'')" by code_simp
  then have h: "has_token ?ans" "is_absolute (pv_endpoint sample_provider)" "token ?ans = js ''s''" "redirects sample_page = []"
    by (simp_all add: has_token_def token_def sample_provider_def sample_page_def redirects_def)
  then have c: "has_token ?ans \<and> is_absolute (pv_endpoint sample_provider)
      \<and> (\<lambda>t. Some \<lparr>u_base = t, u_params = []\<rparr>) (pv_endpoint sample_provider) \<noteq> None" by simp
  obtain u :: url where "redirects (snd ?r) = redirects sample_page @ [Left (u_base u)]"
      and "map_of (u_params u) (js ''state'') = Some (token ?ans)"
    using conjunct1 [OF custom_oauth_redirect [OF r]] unfolding if_P [OF c] by blast
  then show ?thesis unfolding h append_Nil by (intro exI conjI)
qed

end
