(* ===== verification/JsDecimal.thy ===== *)
theory JsDecimal
  imports JsValue
begin

text \<open>
  Printing and reading numbers: the decimal text of a binary64 value reads back as that value. The
  text has at most seventeen digits, the nearest decimal of seventeen digits rounds to the value it was
  made from, and each of the five layouts of \<open>Number::toString\<close> denotes the digits and the exponent
  it was given.
\<close>

section \<open>Powers of ten and the decimal exponent\<close>

lemma pow10_pos [simp]: "0 < pow10 e"
  by (simp add: pow10_def)

lemma pow10_nonzero [simp]: "pow10 e \<noteq> 0"
  using pow10_pos [of e] by (metis less_irrefl)

lemma pow10_powi: "pow10 e = 10 powi e"
  by (simp add: pow10_def power_int_def field_simps)

lemma pow10_add: "pow10 (a + b) = pow10 a * pow10 b"
  by (simp add: pow10_powi power_int_add)

lemma pow10_diff: "pow10 (a - b) = pow10 a / pow10 b"
  by (simp add: pow10_powi power_int_diff)

lemma pow10_mono: "a \<le> b \<Longrightarrow> pow10 a \<le> pow10 b"
  by (simp add: pow10_powi power_int_increasing)

lemma pow10_nat: "0 \<le> e \<Longrightarrow> pow10 e = of_int (10 ^ nat e)"
  by (simp add: pow10_def)

lemma dlen_nonneg: "0 \<le> dlen n"
proof (induction n rule: dlen.induct)
  case (1 n)
  then show ?case by (simp add: dlen.simps [of n])
qed

lemma dlen_bounds: "0 < n \<Longrightarrow> 1 \<le> dlen n \<and> 10 ^ nat (dlen n - 1) \<le> n \<and> n < 10 ^ nat (dlen n)"
proof (induction n rule: dlen.induct)
  case (1 n)
  show ?case
  proof (cases "n < 10")
    case True
    then have "n div 10 = 0" using 1 by simp
    then have "dlen n = 1" using 1(2) by (simp add: dlen.simps [of n] dlen.simps [of 0])
    then show ?thesis using 1 True by simp
  next
    case False
    let ?m = "n div 10"
    have m: "0 < ?m" using False by simp
    then have IH: "1 \<le> dlen ?m" "10 ^ nat (dlen ?m - 1) \<le> ?m" "?m < 10 ^ nat (dlen ?m)" using 1 by auto
    have d: "dlen n = 1 + dlen ?m" using 1(2) by (simp add: dlen.simps [of n])
    have "nat (dlen n - 1) = Suc (nat (dlen ?m - 1))" "nat (dlen n) = Suc (nat (dlen ?m))" using d IH(1) by auto
    moreover have "10 * 10 ^ nat (dlen ?m - 1) \<le> n" "n < 10 * 10 ^ nat (dlen ?m)" using IH(2,3) by linarith+
    ultimately show ?thesis using d IH(1) by simp
  qed
qed

lemma dlen_pow10: "0 < n \<Longrightarrow> pow10 (dlen n - 1) \<le> of_int n \<and> of_int n < pow10 (dlen n)"
proof -
  assume "0 < n"
  from dlen_bounds [OF this] have d: "1 \<le> dlen n" "10 ^ nat (dlen n - 1) \<le> n" "n < 10 ^ nat (dlen n)" by auto
  have "(of_int (10 ^ nat (dlen n - 1)) :: rat) \<le> of_int n" "(of_int n :: rat) < of_int (10 ^ nat (dlen n))"
    using d(2,3) by (simp_all only: of_int_le_iff of_int_less_iff)
  then show ?thesis using d(1) by (simp add: pow10_nat)
qed

lemma dec_exp_bounds:
  assumes "0 < a"
  shows "pow10 (dec_exp a - 1) \<le> a" and "a < pow10 (dec_exp a)"
proof -
  obtain n d where q: "quotient_of a = (n, d)" by (cases "quotient_of a")
  have d: "0 < d" using quotient_of_denom_pos [OF q] .
  have a: "a = of_int n / of_int d" using quotient_of_div [OF q] .
  then have n: "0 < n" using assms d by (simp add: zero_less_divide_iff)
  let ?k = "dlen n - dlen d"
  note n' = dlen_pow10 [OF n] and d' = dlen_pow10 [OF d]
  have "pow10 (dlen n - 1) / pow10 (dlen d) \<le> a" unfolding a
    using n' d' d n by (intro frac_le) (auto simp: less_imp_le)
  then have lo: "pow10 (?k - 1) \<le> a" by (metis pow10_diff diff_right_commute)
  have "a < pow10 (dlen n) / pow10 (dlen d - 1)" unfolding a
    using n' d' d n by (intro frac_less) (auto simp: less_imp_le)
  then have hi: "a < pow10 (?k + 1)" by (metis pow10_diff diff_diff_eq2 diff_add_eq)
  show "pow10 (dec_exp a - 1) \<le> a" "a < pow10 (dec_exp a)"
    using lo hi by (auto simp: dec_exp_def q Let_def)
qed

section \<open>Seventeen digits identify a value\<close>

definition is_double :: "rat \<Rightarrow> bool" where  \<comment> \<open>a positive binary64 value\<close>
  "is_double a \<longleftrightarrow> 0 < a \<and> rnd a = Fin a"

lemma rnd_pos: "0 < x \<Longrightarrow> rnd_mag x = a \<Longrightarrow> 0 < a \<Longrightarrow> a < pow2 1024 \<Longrightarrow> rnd x = Fin a"
  by (simp add: rnd_def Let_def)

lemma doubleD:
  assumes "is_double a"
  shows "0 < a" and "rnd_mag a = a" and "a < pow2 1024"
proof -
  show a: "0 < a" using assms by (simp add: is_double_def)
  then show "rnd_mag a = a" "a < pow2 1024"
    using assms by (auto simp: is_double_def rnd_def Let_def split: if_splits)
qed

lemma ulp_bound: "0 < a \<Longrightarrow> a < 2 ^ 53 * pow2 (ulp_exp a)"
proof -
  assume "0 < a"
  then have "a < pow2 (ilog2 a + 1)" by (rule ilog2_bounds)
  also have "\<dots> \<le> pow2 (53 + ulp_exp a)" by (intro pow2_mono) (simp add: ulp_exp_def)
  also have "\<dots> = 2 ^ 53 * pow2 (ulp_exp a)" unfolding pow2_add by (simp add: pow2_def)
  finally show ?thesis .
qed

lemma rne_unique: "\<bar>x - of_int m\<bar> < 1/2 \<Longrightarrow> rne x = m"
  using rne_near [of x] by linarith

text \<open>A number within half of \<open>10 ^ (-16)\<close> of a binary64 value, relatively, rounds to it.\<close>

lemma rnd_mag_near:
  assumes a: "is_double a" and near: "\<bar>y - a\<bar> \<le> a / (2 * 10 ^ 16)"
  shows "rnd_mag y = a"
proof -
  note a0 = doubleD(1) [OF a]
  let ?e = "ulp_exp a" and ?f = "ulp_exp y"
  define m where "m = rne (a / pow2 ?e)"
  have m: "a = of_int m * pow2 ?e" using doubleD(2) [OF a] by (simp add: rnd_mag_def m_def Let_def)
  have "(0 :: rat) < of_int m" using a0 m by (metis pow2_pos zero_less_mult_pos2)
  then have m0: "0 < m" by simp
  have "a / (2 * 10 ^ 16) < a / 4" using a0 by simp
  with near a0 have y: "0 < y" "a < 2 * y" unfolding abs_le_iff by linarith+
  have fe: "?f \<le> ?e"
  proof (rule ccontr)
    assume "\<not> ?f \<le> ?e"
    then have l: "ilog2 a < ilog2 y" "ilog2 a - 52 \<le> ?e" by (auto simp: ulp_exp_def)
    have e: "pow2 (ilog2 a + 1) = of_int (2 ^ nat (ilog2 a + 1 - ?e)) * pow2 ?e" if "?e \<le> ilog2 a + 1"
      using that by (simp only: pow2_nat [symmetric] pow2_add [symmetric]) simp
    have up: "pow2 (ilog2 a + 1) \<le> y" using l(1) ilog2_bounds(1) [OF y(1)] pow2_mono [of "ilog2 a + 1" "ilog2 y"] by linarith
    have lt: "a < pow2 (ilog2 a + 1)" using a0 by (rule ilog2_bounds)
    have "?e \<le> ilog2 a + 1"
    proof (rule ccontr)
      assume "\<not> ?e \<le> ilog2 a + 1"
      then have "pow2 (ilog2 a + 1) \<le> pow2 ?e" by (intro pow2_mono) simp
      then have "a < 1 * pow2 ?e" using lt by simp
      then have "of_int m < (1 :: rat)" using m by (metis mult_less_cancel_right_pos pow2_pos)
      then show False using m0 by simp
    qed
    then have "of_int m * pow2 ?e < of_int (2 ^ nat (ilog2 a + 1 - ?e)) * pow2 ?e" using lt m e by simp
    then have "m + 1 \<le> 2 ^ nat (ilog2 a + 1 - ?e)" by (metis mult_less_cancel_right_pos pow2_pos of_int_less_iff zless_imp_add1_zle)
    then have "of_int (m + 1) * pow2 ?e \<le> pow2 (ilog2 a + 1)"
      unfolding e [OF \<open>?e \<le> ilog2 a + 1\<close>] by (intro mult_right_mono) (simp_all only: of_int_le_iff less_imp_le pow2_pos)
    then have "pow2 ?e \<le> y - a" using up m by (simp add: algebra_simps)
    then have "pow2 ?e \<le> a / (2 * 10 ^ 16)" using near by linarith
    moreover have "a < 2 ^ 53 * pow2 ?e" using a0 by (rule ulp_bound)
    ultimately show False using pow2_pos [of ?e] by (simp add: field_simps del: pow2_pos)
  qed
  define k where "k = m * 2 ^ nat (?e - ?f)"
  have k: "a = of_int k * pow2 ?f"
  proof -
    have "pow2 ?e = of_int (2 ^ nat (?e - ?f)) * pow2 ?f"
      using fe by (simp only: pow2_nat [symmetric] pow2_add [symmetric]) simp
    then have "a = of_int m * (of_int (2 ^ nat (?e - ?f)) * pow2 ?f)" using m by metis
    then show ?thesis by (simp only: k_def of_int_mult mult.assoc)
  qed
  have "a - y \<le> a / (2 * 10 ^ 16)" using near by linarith
  then have "a \<le> y * (1 + 1 / 10 ^ 15)" using y by (simp add: field_simps)
  moreover have "y < 2 ^ 53 * pow2 ?f" using y(1) by (rule ulp_bound)
  ultimately have "a / (2 * 10 ^ 16) < pow2 ?f / 2" using pow2_pos [of ?f] by (simp add: field_simps del: pow2_pos)
  with near have "\<bar>y - a\<bar> < pow2 ?f / 2" by linarith
  then have "\<bar>y / pow2 ?f - of_int k\<bar> < 1 / 2"
    using k by (simp add: abs_less_iff field_simps)
  then have "rne (y / pow2 ?f) = k" by (rule rne_unique)
  then show ?thesis using k by (simp add: rnd_mag_def Let_def)
qed

section \<open>The digits that are printed\<close>

lemma candidate_ok:
  assumes "digit_candidate a n k = Some s"
  shows "rnd (of_int s * pow10 (n - k)) = Fin a" and "\<lfloor>a * pow10 (k - n)\<rfloor> \<le> s" and "s \<le> \<lceil>a * pow10 (k - n)\<rceil>"
proof -
  have "rnd (of_int s * pow10 (n - k)) = Fin a \<and> (s = \<lfloor>a * pow10 (k - n)\<rfloor> \<or> s = \<lceil>a * pow10 (k - n)\<rceil>)"
    using assms by (auto simp: digit_candidate_def Let_def split: if_splits)
  moreover have "\<lfloor>a * pow10 (k - n)\<rfloor> \<le> \<lceil>a * pow10 (k - n)\<rceil>" by linarith
  ultimately show "rnd (of_int s * pow10 (n - k)) = Fin a" "\<lfloor>a * pow10 (k - n)\<rfloor> \<le> s" "s \<le> \<lceil>a * pow10 (k - n)\<rceil>"
    by auto
qed

lemma pow10_cancel: "pow10 (k - n) * pow10 (n - k) = 1"
  by (simp add: pow10_add [symmetric]) (simp add: pow10_def)

lemma candidate_17:
  assumes a: "is_double a"
  shows "\<exists>s. digit_candidate a (dec_exp a) 17 = Some s"
proof -
  let ?n = "dec_exp a"
  define x where "x = a * pow10 (17 - ?n)"
  note a0 = doubleD(1) [OF a]
  have ax: "a = x * pow10 (?n - 17)" by (simp add: x_def mult.assoc pow10_cancel)
  obtain s where s: "s = \<lfloor>x\<rfloor> \<or> s = \<lceil>x\<rceil>" "\<bar>of_int s - x\<bar> \<le> 1/2"
  proof (cases "x - of_int \<lfloor>x\<rfloor> \<le> 1/2")
    case True
    then show ?thesis by (intro that [of "\<lfloor>x\<rfloor>"]) (auto simp: abs_le_iff) 
  next
    case False
    then have "of_int \<lceil>x\<rceil> - x \<le> 1/2" using ceiling_diff_floor_le_1 [of x] by linarith
    then show ?thesis by (intro that [of "\<lceil>x\<rceil>"]) (auto simp: abs_le_iff)
  qed
  let ?y = "of_int s * pow10 (?n - 17)"
  have "?y - a = (of_int s - x) * pow10 (?n - 17)" using ax by (simp only: left_diff_distrib)
  then have "\<bar>?y - a\<bar> = \<bar>of_int s - x\<bar> * pow10 (?n - 17)" by (simp add: abs_mult less_imp_le)
  also have "\<dots> \<le> 1/2 * pow10 (?n - 17)" using s(2) by (intro mult_right_mono) (simp_all add: less_imp_le)
  also have "\<dots> = pow10 (?n - 1) / (2 * 10 ^ 16)"
    using pow10_add [of "?n - 17" 16] by (simp add: pow10_nat)
  also have "\<dots> \<le> a / (2 * 10 ^ 16)" using dec_exp_bounds(1) [OF a0] by (simp add: divide_right_mono)
  finally have near: "\<bar>?y - a\<bar> \<le> a / (2 * 10 ^ 16)" .
  moreover have "a / (2 * 10 ^ 16) < a" using a0 by simp
  ultimately have "0 < ?y" by linarith
  then have "rnd ?y = Fin a" using rnd_pos [OF _ rnd_mag_near [OF a near]] doubleD [OF a] by simp
  then show ?thesis using s(1) by (auto simp: digit_candidate_def Let_def x_def)
qed

lemma shortest_from_ok:
  assumes a: "is_double a" and "17 \<in> set ks" and "\<forall>k \<in> set ks. 1 \<le> k \<and> k \<le> 17"
    and "shortest_from a (dec_exp a) ks = (s, k)"
  shows "rnd (of_int s * pow10 (dec_exp a - k)) = Fin a \<and> 1 \<le> k \<and> 10 ^ nat (k - 1) \<le> s \<and> s \<le> 10 ^ nat k"
  using assms(2-4)
proof (induction ks)
  case (Cons j ks)
  show ?case
  proof (cases "digit_candidate a (dec_exp a) j")
    case None
    then have "17 \<in> set ks" using Cons.prems(1) candidate_17 [OF a] by auto
    then show ?thesis using Cons None by simp
  next
    case (Some c)
    then have k: "c = s" "j = k" using Cons.prems(3) by auto
    have j: "1 \<le> k" using Cons.prems(2) k by simp
    note c = candidate_ok [OF Some [unfolded k]] and b = dec_exp_bounds [OF doubleD(1) [OF a]]
    have "pow10 (dec_exp a - 1) * pow10 (k - dec_exp a) \<le> a * pow10 (k - dec_exp a)"
      using b(1) by (intro mult_right_mono) (simp_all add: less_imp_le)
    then have lo: "of_int (10 ^ nat (k - 1)) \<le> a * pow10 (k - dec_exp a)"
      using j by (simp only: pow10_add [symmetric] pow10_nat [symmetric]) simp
    have "a * pow10 (k - dec_exp a) \<le> pow10 (dec_exp a) * pow10 (k - dec_exp a)"
      using b(2) by (intro mult_right_mono) (simp_all add: less_imp_le)
    then have hi: "a * pow10 (k - dec_exp a) \<le> of_int (10 ^ nat k)"
      using j by (simp only: pow10_add [symmetric] pow10_nat [symmetric]) simp
    have "10 ^ nat (k - 1) \<le> s" using lo c(2) by (meson le_floor_iff order_trans)
    moreover have "s \<le> 10 ^ nat k" using hi c(3) by (meson ceiling_le_iff order_trans)
    ultimately show ?thesis using c(1) j by simp
  qed
qed simp

lemma length_show_nat: "0 < n \<Longrightarrow> int (length (show_nat n)) = dlen n"
proof (induction n rule: show_nat.induct)
  case (1 n)
  show ?case
  proof (cases "n < 10")
    case True
    then have "n div 10 = 0" using 1 by simp
    then show ?thesis using True 1(2) by (simp add: show_nat.simps [of n] dlen.simps [of n] dlen.simps [of 0])
  next
    case False
    then show ?thesis using 1 by (simp add: show_nat.simps [of n] dlen.simps [of n])
  qed
qed

lemma length_show_nat_bounds:
  assumes "1 \<le> k" and "10 ^ nat (k - 1) \<le> s" and "s < 10 ^ nat k"
  shows "int (length (show_nat s)) = k"
proof -
  have s: "0 < s" using assms(2) by (meson less_le_trans zero_less_numeral zero_less_power)
  note d = dlen_bounds [OF s]
  have "(10::int) ^ nat (k - 1) < 10 ^ nat (dlen s)" "(10::int) ^ nat (dlen s - 1) < 10 ^ nat k" using assms d by linarith+
  then have "nat (k - 1) < nat (dlen s)" "nat (dlen s - 1) < nat k" by simp_all
  then have "dlen s = k" using assms(1) d by linarith
  then show ?thesis using length_show_nat [OF s] by simp
qed

lemma shortest_digits_ok:
  assumes a: "is_double a" and "shortest_digits a = (ds, n)"
  obtains s where "ds = show_nat s" and "0 < s" and "rnd (of_int s * pow10 (n - int (length ds))) = Fin a"
proof -
  obtain s k where sk: "shortest_from a (dec_exp a) [1..17] = (s, k)" by (cases "shortest_from a (dec_exp a) [1..17]")
  have k: "rnd (of_int s * pow10 (dec_exp a - k)) = Fin a" "1 \<le> k" "10 ^ nat (k - 1) \<le> s" "s \<le> 10 ^ nat k"
    using shortest_from_ok [OF a _ _ sk] by auto
  show ?thesis
  proof (cases "s = 10 ^ nat k")
    case True
    let ?s = "10 ^ nat (k - 1) :: int"
    have nk: "nat k = Suc (nat (k - 1))" using k(2) by simp
    then have "s div 10 = ?s" using True by simp
    then have ds: "ds = show_nat ?s" "n = dec_exp a + 1" using assms(2) True by (simp_all add: shortest_digits_def sk)
    have "int (length ds) = k" unfolding ds by (rule length_show_nat_bounds) (use k(2) nk in auto)
    moreover have "of_int ?s * pow10 (dec_exp a + 1 - k) = of_int s * pow10 (dec_exp a - k)"
      using pow10_add [of "dec_exp a - k" 1] True nk by (simp add: algebra_simps pow10_nat)
    ultimately show ?thesis using ds k(1) by (intro that [of ?s]) simp_all
  next
    case False
    then have ds: "ds = show_nat s" "n = dec_exp a" using assms(2) by (simp_all add: shortest_digits_def sk)
    have "int (length ds) = k" unfolding ds using k False by (intro length_show_nat_bounds) auto
    moreover have "0 < s" using k(3) by (meson less_le_trans zero_less_numeral zero_less_power)
    ultimately show ?thesis using ds k(1) by (intro that [of s]) simp_all
  qed
qed

section \<open>The layouts\<close>

lemma digits_val_append: "digits_val (xs @ ys) = digits_val xs * 10 ^ length ys + digits_val ys"
proof (induction ys rule: rev_induct)
  case (snoc y ys)
  then show ?case by (simp add: append_assoc [symmetric] algebra_simps del: append_assoc)
qed simp

lemma digits_val_zeros [simp]: "digits_val (zeros m) = 0"
proof -
  have "digits_val (replicate n 48) = 0" for n
  proof (induction n)
    case (Suc n)
    have "replicate (Suc n) (48::int) = replicate n 48 @ [48]" by (simp add: replicate_append_same)
    then show ?case using Suc by (simp only: digits_val_snoc)
  qed simp
  then show ?thesis by (simp add: zeros_def)
qed

lemma zeros_digits: "c \<in> set (zeros m) \<Longrightarrow> is_digit c"
  by (auto simp: zeros_def is_digit_def)

lemma length_zeros [simp]: "length (zeros m) = nat m"
  by (simp add: zeros_def)

lemma hd_show_nat: "0 < n \<Longrightarrow> hd (show_nat n) \<noteq> 48"
proof (induction n rule: show_nat.induct)
  case (1 n)
  then show ?case by (cases "n < 10") (simp_all add: show_nat.simps [of n] hd_append)
qed

definition exponent_text :: "jsstr \<Rightarrow> int \<Rightarrow> bool" where
  "exponent_text ex e \<longleftrightarrow> (ex = [] \<and> e = 0) \<or> ex = show_exponent e"

lemma show_exponent_head: "\<exists>r. show_exponent e = 101 # r"
  by (simp add: show_exponent_def js_def)

lemma take_show_exponent: "take_exponent (show_exponent e) = (e, [])"
proof -
  have d: "takeWhile is_digit (show_nat n) = show_nat n" "dropWhile is_digit (show_nat n) = []" if "0 \<le> n" for n
    using show_nat_digits [OF that] by (auto simp: takeWhile_eq_all_conv dropWhile_all)
  show ?thesis
    by (cases "0 \<le> e") (simp_all add: take_exponent_def show_exponent_def js_def d)
qed

lemma exponent_text_rest:
  assumes "exponent_text ex e"
  shows "take_exponent ex = (e, [])" and "ex = [] \<or> hd ex = 101"
  using assms take_show_exponent show_exponent_head [of e] by (auto simp: exponent_text_def take_exponent_def)

text \<open>Integer digits, a fraction and an exponent denote what they are meant to.\<close>

lemma unsigned_layout:
  assumes ip: "ip \<noteq> []" "\<forall>c \<in> set ip. is_digit c" "ip = [48] \<or> hd ip \<noteq> 48" and fp: "\<forall>c \<in> set fp. is_digit c"
    and ex: "exponent_text ex e" and t: "t = ip @ (if fp = [] then [] else 46 # fp) @ ex"
  shows "json_unsigned t = Some (rnd (of_int (digits_val (ip @ fp)) * pow10 (e - int (length fp))), [])"
proof -
  note x = exponent_text_rest [OF ex]
  let ?r = "(if fp = [] then [] else 46 # fp) @ ex"
  have r: "?r = [] \<or> \<not> is_digit (hd ?r)" using x(2) by (auto simp: is_digit_def)
  have "takeWhile is_digit ip = ip" "dropWhile is_digit ip = []" using ip(2) by (auto simp: takeWhile_eq_all_conv)
  then have "takeWhile is_digit (ip @ ?r) = ip" "dropWhile is_digit (ip @ ?r) = ?r"
    using takeWhile_append_delim [where P = is_digit and s = ip, OF r] by auto
  then have i: "json_int_part t = (ip, ?r)" using ip(1,3) t by (auto simp: json_int_part_def)
  have "ex = [] \<or> \<not> is_digit (hd ex)" using x(2) by (auto simp: is_digit_def)
  from takeWhile_append_delim [where P = is_digit and s = fp, OF this]
  have "takeWhile is_digit (fp @ ex) = fp" "dropWhile is_digit (fp @ ex) = ex"
    using fp by (auto simp: takeWhile_eq_all_conv dropWhile_all)
  then have "json_frac_part ?r = (fp, ex)" using x(2) by (auto simp: json_frac_part_def)
  then show ?thesis using i x(1) ip(1) by (simp add: json_unsigned_def)
qed

lemma show_pos_reads:
  assumes a: "is_double a"
  shows "json_unsigned (show_pos a) = Some (Fin a, [])"
proof -
  obtain ds n where dn: "shortest_digits a = (ds, n)" by (cases "shortest_digits a")
  obtain s where s: "ds = show_nat s" "0 < s" and v: "rnd (of_int s * pow10 (n - int (length ds))) = Fin a"
    using a dn by (rule shortest_digits_ok)
  let ?k = "int (length ds)"
  have d: "\<forall>c \<in> set ds. is_digit c" "ds \<noteq> []" "hd ds \<noteq> 48" "digits_val ds = s"
    using s show_nat_digits [of s] hd_show_nat [of s] by auto
  have tk: "\<forall>c \<in> set (take j ds). is_digit c" "\<forall>c \<in> set (drop j ds). is_digit c" for j
    using d(1) by (auto dest: in_set_takeD in_set_dropD)
  have ht: "hd (take j ds) = hd ds" if "0 < j" for j using that by (cases ds; cases j) auto
  note lay = unsigned_layout [where t = "show_pos a"]
  have exps: "exponent_text [] 0" "exponent_text (show_exponent (n - 1)) (n - 1)" by (simp_all add: exponent_text_def)
  have form: "show_pos a =
       (if ?k \<le> n \<and> n \<le> 21 then ds @ zeros (n - ?k)
        else if 0 < n \<and> n \<le> 21 then take (nat n) ds @ js ''.'' @ drop (nat n) ds
        else if -6 < n \<and> n \<le> 0 then js ''0.'' @ zeros (- n) @ ds
        else if ?k = 1 then ds @ show_exponent (n - 1)
        else take 1 ds @ js ''.'' @ drop 1 ds @ show_exponent (n - 1))"
    by (simp add: show_pos_def dn Let_def)
  have dot: "js ''.'' = [46]" "js ''0.'' = [48, 46]" by (simp_all add: js_def)
  consider (int) "?k \<le> n" "n \<le> 21" | (frac) "0 < n" "n < ?k" "n \<le> 21" | (small) "-6 < n" "n \<le> 0"
    | (one) "\<not> (?k \<le> n \<and> n \<le> 21)" "\<not> (0 < n \<and> n \<le> 21)" "\<not> (-6 < n \<and> n \<le> 0)" "?k = 1"
    | (exp) "\<not> (?k \<le> n \<and> n \<le> 21)" "\<not> (0 < n \<and> n \<le> 21)" "\<not> (-6 < n \<and> n \<le> 0)" "?k \<noteq> 1" by linarith
  then show ?thesis
  proof cases
    case int
    have "json_unsigned (show_pos a) = Some (rnd (of_int (digits_val ((ds @ zeros (n - ?k)) @ [])) * pow10 (0 - int (length ([] :: jsstr)))), [])"
      by (rule lay [where ex = "[]"]) (use int d exps form zeros_digits in auto)
    moreover have "of_int (digits_val (ds @ zeros (n - ?k))) = of_int s * pow10 (n - ?k)"
      using int by (simp add: digits_val_append d(4) pow10_nat)
    ultimately show ?thesis using v by (simp add: pow10_def)
  next
    case frac
    have "json_unsigned (show_pos a)
        = Some (rnd (of_int (digits_val (take (nat n) ds @ drop (nat n) ds)) * pow10 (0 - int (length (drop (nat n) ds)))), [])"
      by (rule lay [where ex = "[]"]) (use frac d exps form tk ht dot in auto)
    moreover have "0 - int (length (drop (nat n) ds)) = n - ?k" using frac by simp
    ultimately show ?thesis using v d(4) by (simp only: append_take_drop_id)
  next
    case small
    moreover have "0 < ?k" using d(2) by simp
    ultimately have "\<not> ?k \<le> n" by linarith
    then have "show_pos a = js ''0.'' @ zeros (- n) @ ds" using small form by simp
    then have "show_pos a = [48] @ (if zeros (- n) @ ds = [] then [] else 46 # zeros (- n) @ ds) @ []" using d(2) dot by simp
    note lay = unsigned_layout [OF _ _ _ _ exps(1) this]
    have "json_unsigned (show_pos a)
        = Some (rnd (of_int (digits_val ([48] @ zeros (- n) @ ds)) * pow10 (0 - int (length (zeros (- n) @ ds)))), [])"
      by (rule lay) (use d zeros_digits in \<open>auto simp: is_digit_def\<close>)
    moreover have "digits_val ([48] @ zeros (- n) @ ds) = s"
      by (simp add: digits_val_append d(4) del: append_Cons) (simp add: digits_val_def)
    moreover have "0 - int (length (zeros (- n) @ ds)) = n - ?k" using small by simp
    ultimately show ?thesis using v by simp
  next
    case one
    have "json_unsigned (show_pos a) = Some (rnd (of_int (digits_val (ds @ [])) * pow10 (n - 1 - int (length ([] :: jsstr)))), [])"
      by (rule lay [where ex = "show_exponent (n - 1)"]) (use one d exps form in auto)
    then show ?thesis using v d(4) one by simp
  next
    case exp
    have l: "2 \<le> length ds" using exp d(2) by (cases ds) (auto simp: Suc_le_eq)
    have "json_unsigned (show_pos a)
        = Some (rnd (of_int (digits_val (take 1 ds @ drop 1 ds)) * pow10 (n - 1 - int (length (drop 1 ds)))), [])"
      by (rule lay [where ex = "show_exponent (n - 1)"]) (use exp d exps form tk ht dot l in auto)
    moreover have "n - 1 - int (length (drop 1 ds)) = n - ?k" using l by simp
    ultimately show ?thesis using v d(4) by (simp only: append_take_drop_id)
  qed
qed

lemma json_num_ok_0 [simp]: "json_num_ok (Fin 0)"
proof -
  have "json_unsigned (js ''0'') = Some (rnd (of_int (digits_val ([48] @ [])) * pow10 (0 - int (length ([] :: jsstr)))), [])"
    by (rule unsigned_layout [where ex = "[]"]) (simp_all add: js_def is_digit_def exponent_text_def)
  moreover have "digits_val [48] = 0" by (simp add: digits_val_def)
  ultimately have "json_unsigned (js ''0'') = Some (Fin 0, [])" by (simp add: rnd_def)
  then show ?thesis by (simp add: json_num_ok_def json_number_def) (simp add: js_def)
qed

text \<open>Every finite binary64 value but the negative zero, whose sign is not printed.\<close>

lemma json_num_ok_double: "rnd q = Fin q \<Longrightarrow> json_num_ok (Fin q)"
proof -
  assume r: "rnd q = Fin q"
  have head: "show_pos a \<noteq> [] \<and> hd (show_pos a) \<noteq> 45" if "is_double a" for a
  proof -
    note u = show_pos_reads [OF that]
    have "json_number (show_pos a) = Some (Fin a, []) \<or> hd (show_pos a) = 45" using u by (auto simp: json_number_def)
    moreover have "json_unsigned (45 # t) = None" for t
      by (simp add: json_unsigned_def json_int_part_def is_digit_def split: prod.splits)
    moreover have "json_unsigned [] = None" by (simp add: json_unsigned_def json_int_part_def split: prod.splits)
    ultimately show ?thesis using u by (cases "show_pos a") auto
  qed
  consider "q = 0" | "0 < q" | "q < 0" by linarith
  then show ?thesis
  proof cases
    case 2
    then have "is_double q" using r by (simp add: is_double_def)
    then show ?thesis using show_pos_reads head 2 by (auto simp: json_num_ok_def json_number_def)
  next
    case 3
    then have "is_double (- q)" using r by (auto simp: is_double_def rnd_def Let_def split: if_splits)
    then show ?thesis using show_pos_reads head 3 by (auto simp: json_num_ok_def json_number_def)
  qed simp
qed

lemma json_num_ok_of_int: "\<bar>n\<bar> < 2 ^ 53 \<Longrightarrow> json_num_ok (Fin (of_int n))"
  using json_num_ok_double rnd_of_int by blast

lemma json_num_ok_numeral: "(numeral n :: int) < 2 ^ 53 \<Longrightarrow> json_num_ok (Fin (numeral n))"
  using json_num_ok_of_int [of "numeral n"] by simp

section \<open>\<open>Number\<close> of a printed number\<close>

definition num_unit :: "int \<Rightarrow> bool" where
  "num_unit c \<longleftrightarrow> is_digit c \<or> c \<in> {43, 45, 46, 69, 101}"

lemma takeWhile_digit_units: "c \<in> set (takeWhile is_digit s) \<Longrightarrow> num_unit c"
  by (auto simp: num_unit_def dest: set_takeWhileD)

lemma take_sign_units: "take_sign s = (n, r) \<Longrightarrow> \<forall>c \<in> set r. num_unit c \<Longrightarrow> \<forall>c \<in> set s. num_unit c"
  by (cases s) (auto simp: num_unit_def split: if_splits)

lemma all_taken: "dropWhile P s = [] \<Longrightarrow> takeWhile P s = s"
  by (metis append_Nil2 takeWhile_dropWhile_id)

lemma take_exponent_units:
  assumes "take_exponent s = (e, [])"
  shows "\<forall>c \<in> set s. num_unit c"
proof (cases s)
  case (Cons c cs)
  obtain n r where nr: "take_sign cs = (n, r)" by (cases "take_sign cs")
  have c: "c = 101 \<or> c = 69" and r: "dropWhile is_digit r = []"
    using assms Cons nr by (auto simp: take_exponent_def Let_def split: if_splits)
  have "\<forall>d \<in> set r. num_unit d" using all_taken [OF r] takeWhile_digit_units by metis
  then have "\<forall>d \<in> set cs. num_unit d" using take_sign_units nr by blast
  then show ?thesis using Cons c by (auto simp: num_unit_def)
qed simp

lemma frac_part_split:
  assumes "json_frac_part s = (fp, r)"
  shows "s = (if fp = [] then r else 46 # fp @ r)" and "\<forall>c \<in> set fp. is_digit c"
    and "fp \<noteq> [] \<Longrightarrow> r = [] \<or> \<not> is_digit (hd r)"
proof -
  have w: "takeWhile is_digit (tl s) @ dropWhile is_digit (tl s) = tl s" by simp
  show "s = (if fp = [] then r else 46 # fp @ r)"
    using assms w by (cases s) (auto simp: json_frac_part_def split: if_splits)
  show "\<forall>c \<in> set fp. is_digit c" using assms by (auto simp: json_frac_part_def split: if_splits dest: set_takeWhileD)
  show "fp \<noteq> [] \<Longrightarrow> r = [] \<or> \<not> is_digit (hd r)"
    using assms dropWhile_hd [of is_digit "tl s"] by (auto simp: json_frac_part_def split: if_splits)
qed

lemma unsigned_parts:
  assumes "json_unsigned s = Some (v, [])"
  obtains ip fp ex e where "s = ip @ (if fp = [] then [] else 46 # fp) @ ex" and "ip \<noteq> []" and "\<forall>c \<in> set ip. is_digit c"
    and "\<forall>c \<in> set fp. is_digit c" and "take_exponent ex = (e, [])" and "ex = [] \<or> hd ex = 101 \<or> hd ex = 69"
    and "v = rnd (of_int (digits_val (ip @ fp)) * pow10 (e - int (length fp)))"
proof -
  obtain ip r1 where i: "json_int_part s = (ip, r1)" by (cases "json_int_part s")
  obtain fp r2 where f: "json_frac_part r1 = (fp, r2)" by (cases "json_frac_part r1")
  obtain e r3 where e: "take_exponent r2 = (e, r3)" by (cases "take_exponent r2")
  have v: "ip \<noteq> []" "take_exponent r2 = (e, [])" "v = rnd (of_int (digits_val (ip @ fp)) * pow10 (e - int (length fp)))"
    using assms i f e by (auto simp: json_unsigned_def split: if_splits)
  have s: "s = ip @ r1" "\<forall>c \<in> set ip. is_digit c"
  proof -
    show "s = ip @ r1" using i by (cases s) (auto simp: json_int_part_def split: if_splits)
    show "\<forall>c \<in> set ip. is_digit c" using i by (auto simp: json_int_part_def is_digit_def split: if_splits dest: set_takeWhileD)
  qed
  have "r2 = [] \<or> hd r2 = 101 \<or> hd r2 = 69" using v(2) by (cases r2) (auto simp: take_exponent_def split: if_splits)
  then show ?thesis
    using s v frac_part_split(1,2) [OF f] by (intro that [of ip fp r2 e]) auto
qed

lemma unsigned_units:
  assumes "json_unsigned s = Some (v, [])"
  shows "\<forall>c \<in> set s. num_unit c" and "s \<noteq> []" and "is_digit (hd s)"
proof -
  obtain ip fp ex e where s: "s = ip @ (if fp = [] then [] else 46 # fp) @ ex" "ip \<noteq> []" "\<forall>c \<in> set ip. is_digit c"
    "\<forall>c \<in> set fp. is_digit c" "take_exponent ex = (e, [])" using assms by (rule unsigned_parts) blast
  then show "\<forall>c \<in> set s. num_unit c" using take_exponent_units [OF s(5)] by (auto simp: num_unit_def split: if_splits)
  show "s \<noteq> []" "is_digit (hd s)" using s by auto
qed

lemma unsigned_take_decimal:
  assumes "json_unsigned s = Some (v, [])"
  shows "\<exists>x. take_decimal s = Some (x, []) \<and> rnd x = v"
proof -
  obtain ip fp ex e where s: "s = ip @ (if fp = [] then [] else 46 # fp) @ ex" "ip \<noteq> []" "\<forall>c \<in> set ip. is_digit c"
    "\<forall>c \<in> set fp. is_digit c" "take_exponent ex = (e, [])" "ex = [] \<or> hd ex = 101 \<or> hd ex = 69"
    "v = rnd (of_int (digits_val (ip @ fp)) * pow10 (e - int (length fp)))" using assms by (rule unsigned_parts)
  let ?r = "(if fp = [] then [] else 46 # fp) @ ex"
  have r: "?r = [] \<or> \<not> is_digit (hd ?r)" and x: "ex = [] \<or> \<not> is_digit (hd ex)" using s(6) by (auto simp: is_digit_def)
  have ip: "takeWhile is_digit s = ip" "dropWhile is_digit s = ?r"
    using s(1,3) takeWhile_append_delim [where P = is_digit and s = ip, OF r] by (auto simp: takeWhile_eq_all_conv dropWhile_all)
  have fp: "takeWhile is_digit (fp @ ex) = fp" "dropWhile is_digit (fp @ ex) = ex"
    using s(4) takeWhile_append_delim [where P = is_digit and s = fp, OF x] by (auto simp: takeWhile_eq_all_conv dropWhile_all)
  have frac: "(case dropWhile is_digit s of [] \<Rightarrow> ([], dropWhile is_digit s)
      | c # cs \<Rightarrow> if c = 46 then (takeWhile is_digit cs, dropWhile is_digit cs) else ([], dropWhile is_digit s)) = (fp, ex)"
  proof (cases "fp = []")
    case True
    then show ?thesis unfolding ip(2) using s(6) by (cases ex) auto
  qed (use fp ip(2) in simp)
  show ?thesis unfolding take_decimal_def Let_def frac ip(1) using s(2,5,7) by simp
qed

lemma number_units: "json_num_ok n \<Longrightarrow> \<forall>c \<in> set (number_to_string n). num_unit c" "json_num_ok n \<Longrightarrow> number_to_string n \<noteq> []"
proof -
  assume "json_num_ok n"
  then have j: "json_number (number_to_string n) = Some (n, [])" by (simp add: json_num_ok_def)
  show ne: "number_to_string n \<noteq> []" using json_number_delim(2) [OF _ j, of "[]"] by (simp add: json_delim_def)
  show "\<forall>c \<in> set (number_to_string n). num_unit c"
    using j ne by (cases "number_to_string n") (auto simp: json_number_def num_unit_def split: if_splits dest!: unsigned_units(1))
qed

text \<open>\<open>Number(String(x)) === x\<close>.\<close>

lemma string_to_number_text:
  assumes "json_num_ok n"
  shows "string_to_number (number_to_string n) = n"
proof -
  let ?s = "number_to_string n"
  have j: "json_number ?s = Some (n, [])" using assms by (simp add: json_num_ok_def)
  note u = number_units [OF assms]
  have "\<forall>c \<in> set ?s. \<not> js_ws c" using u(1) by (auto simp: num_unit_def is_digit_def js_ws_def)
  then have trim: "trim ?s = ?s" by (intro trim_no_ws) auto
  have radix: "\<not> startsWith ?s (js [c, d])" if "\<not> num_unit (of_char d)" for c d
    using u(1) that by (auto simp: startsWith_iff js_def)
  have noninf: "\<forall>c \<in> set r. num_unit c \<Longrightarrow> r \<noteq> js ''Infinity''" for r by (auto simp: js_def num_unit_def is_digit_def)
  show ?thesis
  proof (cases "hd ?s = 45")
    case True
    then obtain t where t: "?s = 45 # t" using u(2) by (cases ?s) auto
    then obtain m where m: "json_unsigned t = Some (m, [])" "n = num_neg m" using j by (auto simp: json_number_def)
    from unsigned_take_decimal [OF m(1)] obtain x where "take_decimal t = Some (x, [])" "rnd x = m" by blast
    then show ?thesis
      using t trim m radix u noninf [of t]
      by (simp add: string_to_number_def radix num_unit_def is_digit_def Let_def)
  next
    case False
    then have m: "json_unsigned ?s = Some (n, [])" using j by (simp add: json_number_def)
    from unsigned_take_decimal [OF m] obtain x where "take_decimal ?s = Some (x, [])" "rnd x = n" by blast
    moreover have "take_sign ?s = (False, ?s)" using unsigned_units(2,3) [OF m] by (cases ?s) (auto simp: is_digit_def)
    ultimately show ?thesis
      using trim u noninf [of ?s] by (simp add: string_to_number_def radix num_unit_def is_digit_def Let_def)
  qed
qed

text \<open>A finite binary64 value other than the negative zero, whose text is that of zero.\<close>

definition binary64 :: "jsnum \<Rightarrow> bool" where
  "binary64 n \<longleftrightarrow> (case n of Fin q \<Rightarrow> rnd q = Fin q | _ \<Rightarrow> False)"

lemma binary64_ok: "binary64 n \<Longrightarrow> json_num_ok n"
  using json_num_ok_double by (auto simp: binary64_def split: jsnum.splits)

lemma binary64_int: "\<bar>n\<bar> < 2 ^ 53 \<Longrightarrow> binary64 (Fin (of_int n))"
  by (simp add: binary64_def rnd_of_int)

lemma binary64_numeral: "(numeral n :: int) < 2 ^ 53 \<Longrightarrow> binary64 (Fin (numeral n))"
  using binary64_int [of "numeral n"] by simp

lemma binary64_zero [simp]: "binary64 (Fin 0)"
  by (simp add: binary64_def rnd_def)

end
