(* ===== verification/JsonPretty.thy ===== *)
theory JsonPretty
  imports JsDecimal
begin

text \<open>
  Indented JSON texts, \<open>JSON.stringify(v, null, 2)\<close>: reading one gives back the value, as for the
  compact texts. The parser skips white space between tokens, so the proof follows the one of
  \<open>JsValue\<close> with indentation in front of every element and member.
\<close>

definition pretty_text :: "nat \<Rightarrow> jsval \<Rightarrow> jsstr" where
  "pretty_text n v = (case json_pretty n v of None \<Rightarrow> js ''null'' | Some t \<Rightarrow> t)"

definition blank :: "jsstr \<Rightarrow> bool" where
  "blank w \<longleftrightarrow> list_all json_ws w"

lemma blank_simps [simp]:
  "blank []" "blank (10 # w) = blank w" "blank (replicate n 32)" "blank (v @ w) \<longleftrightarrow> blank v \<and> blank w"
  "blank (32 # w) = blank w"
  by (auto simp: blank_def list_all_iff json_ws_def)

lemma skip_blank: "blank w \<Longrightarrow> skip_ws (w @ s) = skip_ws s"
  by (simp add: blank_def skip_ws_def list_all_iff dropWhile_append2)

lemma read_value_blank: "blank w \<Longrightarrow> json_read JValue (w @ s) = json_read JValue s"
  by (simp add: json_read.simps(1) skip_blank)

lemma read_members_blank: "blank w \<Longrightarrow> json_read (JMembers acc) (w @ s) = json_read (JMembers acc) s"
  by (simp add: json_read.simps(3) skip_blank)

definition pretty_reads :: "nat \<Rightarrow> jsval \<Rightarrow> bool" where
  "pretty_reads n v \<longleftrightarrow> (\<forall>r. json_delim r \<longrightarrow> json_read JValue (pretty_text n v @ r) = Some (v, r))"

lemma pretty_text_nonempty: "json_ok v \<Longrightarrow> pretty_text n v \<noteq> []"
  using json_text_head(1) [of v] by (cases v) (auto simp: pretty_text_def json_text_def Let_def js_def)

lemma pretty_readsD: "pretty_reads n v \<Longrightarrow> json_delim r \<Longrightarrow> json_read JValue (pretty_text n v @ r) = Some (v, r)"
  by (simp add: pretty_reads_def)

definition indented :: "nat \<Rightarrow> jsval \<Rightarrow> jsstr" where
  "indented n v = replicate n 32 @ pretty_text n v"

lemma skip_close: "blank w \<Longrightarrow> \<not> json_ws c \<Longrightarrow> skip_ws (w @ c # r) = c # r"
  by (simp add: skip_blank) (simp add: skip_ws_def)

lemma closing [simp]: "\<not> json_ws 93" "\<not> json_ws 125" "\<not> json_ws 44" "\<not> json_ws 58" "\<not> json_ws 34" "\<not> json_ws 91" "\<not> json_ws 123"
  by (simp_all add: json_ws_def)

lemma read_elem_step:
  assumes "blank w" and "json_ok v" and "pretty_reads n v" and "json_delim t"
  shows "json_read (JElems acc) (w @ indented n v @ t) =
    (case skip_ws t of [] \<Rightarrow> None
     | c # cs \<Rightarrow> if c = 44 then json_read (JElems (acc @ [v])) cs else if c = 93 then Some (JArr (acc @ [v]), cs) else None)"
proof -
  have "json_read JValue (w @ indented n v @ t) = Some (v, t)"
    using read_value_blank [of "w @ replicate n 32" "pretty_text n v @ t"] assms
    by (simp add: indented_def pretty_readsD)
  then show ?thesis
    using pretty_text_nonempty [OF assms(2), of n]
    by (simp add: json_read.simps(2) indented_def)
qed

lemma read_elems_pretty:
  assumes "vs \<noteq> []" and "\<forall>v \<in> set vs. json_ok v \<and> pretty_reads n v" and "blank w" and "blank u"
  shows "json_read (JElems acc) (w @ join [44, 10] (map (indented n) vs) @ 10 # u @ 93 # r) = Some (JArr (acc @ vs), r)"
  using assms
proof (induction vs arbitrary: acc w)
  case (Cons v vs)
  have close: "skip_ws (10 # u @ 93 # r) = 93 # r" using skip_close [of "10 # u" 93 r] Cons(5) by simp
  have comma: "skip_ws (44 # x) = 44 # x" for x by (simp add: skip_ws_def)
  show ?case
  proof (cases vs)
    case Nil
    then show ?thesis
      using read_elem_step [of w v n "10 # u @ 93 # r" acc] Cons(3,4) close by simp
  next
    case (Cons v' vs')
    have "json_read (JElems (acc @ [v])) ([10] @ join [44, 10] (map (indented n) vs) @ 10 # u @ 93 # r) =
        Some (JArr ((acc @ [v]) @ vs), r)"
      using Cons Cons.prems by (intro Cons.IH) auto
    then show ?thesis
      using read_elem_step [of w v n "44 # 10 # join [44, 10] (map (indented n) vs) @ 10 # u @ 93 # r" acc] Cons.prems(2,3) comma
      by (simp add: Cons)
  qed
qed simp

definition pretty_member :: "nat \<Rightarrow> jsstr \<times> jsval \<Rightarrow> jsstr" where
  "pretty_member n p = replicate n 32 @ json_quote (fst p) @ js '': '' @ pretty_text n (snd p)"

lemma read_pretty_member:
  assumes "blank w" and "units_ok (fst p)" and "json_ok (snd p)" and "pretty_reads n (snd p)" and "json_delim t"
  shows "json_read (JMembers acc) (w @ pretty_member n p @ t) =
    (case skip_ws t of [] \<Rightarrow> None
     | d # ds \<Rightarrow> if d = 44 then json_read (JMembers (obj_put (fst p) (snd p) acc)) ds
                else if d = 125 then Some (JObj (obj_put (fst p) (snd p) acc), ds) else None)"
proof -
  let ?v = "pretty_text n (snd p)"
  have colon: "js '': '' = [58, 32]" by (simp add: js_def)
  have q: "json_string (json_quote_body (fst p) @ 34 # 58 # 32 # ?v @ t) = Some (fst p, 58 # 32 # ?v @ t)"
    using assms(2) by (rule json_string_quote_body)
  have v: "json_read JValue (32 # ?v @ t) = Some (snd p, t)"
    using read_value_blank [of "[32]" "?v @ t"] assms(4,5) by (simp add: pretty_readsD)
  have s: "skip_ws (34 # x) = 34 # x" "skip_ws (58 # x) = 58 # x" for x by (simp_all add: skip_ws_def)
  have "json_read (JMembers acc) (w @ pretty_member n p @ t) =
      json_read (JMembers acc) (34 # json_quote_body (fst p) @ 34 # 58 # 32 # ?v @ t)"
    using read_members_blank [of "w @ replicate n 32" acc "34 # json_quote_body (fst p) @ 34 # 58 # 32 # ?v @ t"] assms(1)
    by (simp add: pretty_member_def json_quote_def colon)
  then show ?thesis
    using q v pretty_text_nonempty [OF assms(3), of n]
    by (simp add: json_read.simps(3) [of acc "34 # _"] s del: json_string.simps)
qed

lemma read_members_pretty:
  assumes "ps \<noteq> []" and "\<forall>p \<in> set ps. units_ok (fst p) \<and> json_ok (snd p) \<and> pretty_reads n (snd p)"
    and "keys_ordered (acc @ ps)" and "blank w" and "blank u"
  shows "json_read (JMembers acc) (w @ join [44, 10] (map (pretty_member n) ps) @ 10 # u @ 125 # r) = Some (JObj (acc @ ps), r)"
  using assms
proof (induction ps arbitrary: acc w)
  case (Cons p ps)
  have close: "skip_ws (10 # u @ 125 # r) = 125 # r" using skip_close [of "10 # u" 125 r] Cons(6) by simp
  have comma: "skip_ws (44 # x) = 44 # x" for x by (simp add: skip_ws_def)
  have put: "obj_put (fst p) (snd p) acc = acc @ [p]" using Cons(4) by (rule keys_ordered_put)
  show ?case
  proof (cases ps)
    case Nil
    then show ?thesis
      using read_pretty_member [of w p n "10 # u @ 125 # r" acc] Cons(3,5) close put by simp
  next
    case (Cons q qs)
    have "json_read (JMembers (acc @ [p])) ([10] @ join [44, 10] (map (pretty_member n) ps) @ 10 # u @ 125 # r) =
        Some (JObj ((acc @ [p]) @ ps), r)"
      using Cons Cons.prems by (intro Cons.IH) auto
    then show ?thesis
      using read_pretty_member [of w p n "44 # 10 # join [44, 10] (map (pretty_member n) ps) @ 10 # u @ 125 # r" acc]
        Cons.prems(2,4) comma put
      by (simp add: Cons)
  qed
qed simp

lemma pretty_array:
  assumes "vs \<noteq> []"
  shows "pretty_text n (JArr vs) = 91 # 10 # join [44, 10] (map (indented (n + 2)) vs) @ 10 # replicate n 32 @ [93]"
proof -
  have "map (\<lambda>v. replicate (n + 2) 32 @ (case json_pretty (n + 2) v of None \<Rightarrow> js ''null'' | Some t \<Rightarrow> t)) vs =
      map (indented (n + 2)) vs"
    by (simp add: indented_def pretty_text_def)
  then show ?thesis using assms unfolding pretty_text_def [of n] json_pretty.simps option.case
    by (simp only: if_False append.simps append_assoc)
qed

lemma json_pretty_ok: "json_ok v \<Longrightarrow> json_pretty n v = Some (pretty_text n v)"
  by (cases v) (auto simp: pretty_text_def Let_def)

lemma pretty_object:
  assumes "ps \<noteq> []" and "\<forall>p \<in> set ps. json_ok (snd p)"
  shows "pretty_text n (JObj ps) = 123 # 10 # join [44, 10] (map (pretty_member (n + 2)) ps) @ 10 # replicate n 32 @ [125]"
proof -
  have "concat (map (\<lambda>p. case json_pretty (n + 2) (snd p) of
      None \<Rightarrow> [] | Some t \<Rightarrow> [replicate (n + 2) 32 @ json_quote (fst p) @ js '': '' @ t]) ps) = map (pretty_member (n + 2)) ps"
    using assms(2) by (induction ps) (auto simp: json_pretty_ok pretty_member_def)
  then show ?thesis using assms(1) unfolding pretty_text_def [of n] json_pretty.simps Let_def option.case
    by (simp only: map_is_Nil_conv if_False append.simps append_assoc)
qed

lemma hd_skip: "blank w \<Longrightarrow> s \<noteq> [] \<Longrightarrow> \<not> json_ws (hd s) \<Longrightarrow> skip_ws (w @ s) = s"
  by (cases s) (simp_all add: skip_close)

lemma pretty_head:
  assumes "json_ok v"
  shows "\<not> json_ws (hd (pretty_text n v)) \<and> hd (pretty_text n v) \<noteq> 93 \<and> hd (pretty_text n v) \<noteq> 125"
  using json_text_head [OF assms]
  by (cases v) (auto simp: pretty_text_def json_text_def Let_def js_def)

lemma join_Cons: "\<exists>rest. join sep (w # ws) = w @ rest"
  by (cases ws) auto

lemma pretty_reads_array:
  assumes "\<forall>v \<in> set vs. json_ok v \<and> pretty_reads (n + 2) v"
  shows "pretty_reads n (JArr vs)"
proof (cases vs)
  case Nil
  then show ?thesis by (simp add: pretty_reads_def pretty_text_def json_read.simps(1) skip_ws_def json_ws_def js_def)
next
  case (Cons v us)
  let ?m = "n + 2"
  let ?body = "\<lambda>r. join [44, 10] (map (indented ?m) vs) @ 10 # replicate n 32 @ 93 # r"
  have v: "json_ok v" using assms Cons by simp
  obtain rest where rest: "join [44, 10] (map (indented ?m) vs) = indented ?m v @ rest"
    using join_Cons [of "[44, 10]" "indented ?m v" "map (indented ?m) us"] Cons by auto
  have sk: "skip_ws (10 # ?body r) = pretty_text ?m v @ rest @ 10 # replicate n 32 @ 93 # r" for r
    using hd_skip [of "10 # replicate ?m 32" "pretty_text ?m v @ rest @ 10 # replicate n 32 @ 93 # r"]
      pretty_head [OF v, of ?m] pretty_text_nonempty [OF v, of ?m]
    by (simp add: rest indented_def del: replicate.simps add_2_eq_Suc')
  obtain c cs where c: "pretty_text ?m v = c # cs" "c \<noteq> 93"
    using pretty_head [OF v, of ?m] pretty_text_nonempty [OF v, of ?m] by (cases "pretty_text ?m v") auto
  have el: "json_read (JElems []) (10 # ?body r) = Some (JArr vs, r)" for r
    using read_elems_pretty [of vs ?m "[10]" "replicate n 32" "[]" r] assms Cons by simp
  have s91: "skip_ws (91 # x) = 91 # x" for x by (simp add: skip_ws_def)
  have "json_read JValue (91 # 10 # ?body r) = Some (JArr vs, r)" for r
    using sk [of r] c el [of r] by (simp add: json_read.simps(1) s91 del: replicate.simps add_2_eq_Suc')
  then show ?thesis
    using Cons by (simp add: pretty_reads_def pretty_array del: replicate.simps add_2_eq_Suc')
qed

lemma pretty_reads_object:
  assumes "\<forall>p \<in> set ps. units_ok (fst p) \<and> json_ok (snd p) \<and> pretty_reads (n + 2) (snd p)" and "keys_ordered ps"
  shows "pretty_reads n (JObj ps)"
proof (cases ps)
  case Nil
  then show ?thesis by (simp add: pretty_reads_def pretty_text_def json_read.simps(1) skip_ws_def json_ws_def js_def)
next
  case (Cons p qs)
  let ?m = "n + 2"
  let ?body = "\<lambda>r. join [44, 10] (map (pretty_member ?m) ps) @ 10 # replicate n 32 @ 125 # r"
  obtain rest where rest: "join [44, 10] (map (pretty_member ?m) ps) = pretty_member ?m p @ rest"
    using join_Cons [of "[44, 10]" "pretty_member ?m p" "map (pretty_member ?m) qs"] Cons by auto
  let ?tail = "\<lambda>r. json_quote_body (fst p) @ [34] @ js '': '' @ pretty_text ?m (snd p) @ rest @ 10 # replicate n 32 @ 125 # r"
  have sk: "skip_ws (10 # ?body r) = 34 # ?tail r" for r
    using hd_skip [of "10 # replicate ?m 32" "34 # ?tail r"]
    by (simp add: rest pretty_member_def json_quote_def del: replicate.simps add_2_eq_Suc')
  have el: "json_read (JMembers []) (10 # ?body r) = Some (JObj ps, r)" for r
    using read_members_pretty [of ps ?m "[]" "[10]" "replicate n 32" r] assms Cons by simp
  have s123: "skip_ws (123 # x) = 123 # x" for x by (simp add: skip_ws_def)
  have "json_read JValue (123 # 10 # ?body r) = Some (JObj ps, r)" for r
    using sk [of r] el [of r] by (simp add: json_read.simps(1) s123 del: replicate.simps add_2_eq_Suc')
  then show ?thesis
    using Cons assms(1) by (simp add: pretty_reads_def pretty_object del: replicate.simps add_2_eq_Suc')
qed

lemma pretty_scalar: "\<not> is_array v \<Longrightarrow> (\<forall>ps. v \<noteq> JObj ps) \<Longrightarrow> pretty_text n v = json_text v"
  by (cases v) (simp_all add: pretty_text_def json_text_def)

lemma pretty_reads_scalar: "json_ok v \<Longrightarrow> \<not> is_array v \<Longrightarrow> (\<forall>ps. v \<noteq> JObj ps) \<Longrightarrow> pretty_reads n v"
  using reads_back_ok [of v] by (simp add: pretty_reads_def reads_back_def pretty_scalar)

lemma pretty_reads_ok: "json_ok v \<Longrightarrow> pretty_reads n v"
proof (induction v arbitrary: n)
  case (JArr vs)
  then show ?case by (intro pretty_reads_array) (auto simp: list_all_iff)
next
  case (JObj ps)
  then show ?case by (intro pretty_reads_object) (fastforce simp: list_all_iff snds.simps)+
qed (simp_all add: pretty_reads_scalar)

lemma json_parse_pretty: "json_ok v \<Longrightarrow> json_parse (pretty_text n v) = Some v"
  using pretty_readsD [OF pretty_reads_ok [of v n], of "[]"] by (simp add: json_parse_def skip_ws_def)

interpretation pretty: json_codec json_ok "pretty_text 0" json_parse
  by unfold_locales (rule json_parse_pretty)

end
