(* ===== verification/PlaygroundStream.thy ===== *)
theory PlaygroundStream
  imports Playground ApiClient JsonPretty
begin

text \<open>
  Replies of the playground, \<open>src/web/src/hooks/playground/useApiRequest.jsx\<close>: a request is answered at once or as
  a stream of server-sent events, which are applied to the last message. The events of the third-party event
  source and the answers of \<open>fetch\<close> are inputs; the source object is the number of its stream, and
  the local variables of \<open>handleSSE\<close> are kept per stream. Updater functions of a state run on the state itself; an
  exception in one ends the step with an error. A list that is to be saved by a timer of zero
  milliseconds is saved with the update that schedules it. Lists of messages have no null entries.
\<close>

section \<open>Constants and values\<close>

definition STATUS_ERROR :: jsstr where "STATUS_ERROR = js ''error''"
definition TAB_PREVIEW :: jsstr where "TAB_PREVIEW = js ''preview''"
definition TAB_REQUEST :: jsstr where "TAB_REQUEST = js ''request''"
definition TAB_RESPONSE :: jsstr where "TAB_RESPONSE = js ''response''"

lemmas status_defs = STATUS_LOADING_def STATUS_INCOMPLETE_def STATUS_COMPLETE_def STATUS_ERROR_def

text \<open>\<open>a + b\<close>: addition when neither operand becomes a string.\<close>

fun is_texty :: "jsval \<Rightarrow> bool" where
  "is_texty (JStr _) = True" | "is_texty (JArr _) = True" | "is_texty (JObj _) = True" | "is_texty _ = False"

definition js_plus :: "jsval \<Rightarrow> jsval \<Rightarrow> jsval" where
  "js_plus a b = (if is_texty a \<or> is_texty b then JStr (js_to_string a @ js_to_string b) else JNum (num_add (js_to_number a) (js_to_number b)))"

definition spread :: "jsval \<Rightarrow> (jsstr \<times> jsval) list \<Rightarrow> jsval" where  \<comment> \<open>\<open>{ ...m, ...ps }\<close>\<close>
  "spread m ps = JObj (obj_spread (obj_spread [] (entries m)) ps)"

definition last_message :: "jsval list \<Rightarrow> jsval" where
  "last_message ms = (if ms = [] then JUndef else last ms)"

definition status_is :: "jsval \<Rightarrow> jsstr \<Rightarrow> bool" where
  "status_is m s \<longleftrightarrow> msg_prop m ''status'' = JStr s"

definition is_finished :: "jsval \<Rightarrow> bool" where
  "is_finished m \<longleftrightarrow> status_is m STATUS_COMPLETE \<or> status_is m STATUS_ERROR"

text \<open>The number of matches of a tag; tags do not overlap.\<close>

fun occurrences :: "jsstr \<Rightarrow> jsstr \<Rightarrow> nat" where
  "occurrences p [] = 0"
| "occurrences p (c # cs) = (if startsWith (c # cs) p then 1 else 0) + occurrences p cs"

definition chain :: "'e + 'a \<Rightarrow> ('a \<Rightarrow> 'e + 'b) \<Rightarrow> 'e + 'b" where
  "chain r f = (case r of Inl x \<Rightarrow> Inl x | Inr a \<Rightarrow> f a)"

lemma chain_simps [simp]: "chain (Inr a) f = f a" "chain (Inl x) f = Inl x"
  by (simp_all add: chain_def)

lemma chain_Inr: "chain r f = Inr b \<longleftrightarrow> (\<exists>a. r = Inr a \<and> f a = Inr b)"
  by (cases r) auto

section \<open>Updates of the last message\<close>

text \<open>The second parameter has the default \<open>true\<close>, which an argument \<open>undefined\<close> takes too.\<close>

definition applyAutoCollapseLogic :: "jsval \<Rightarrow> jsval \<Rightarrow> (jsstr \<times> jsval) list" where
  "applyAutoCollapseLogic m given =
     (let isThinkingComplete = (if given = JUndef then JBool True else given);
          collapsed = msg_prop m ''hasAutoCollapsed'';
          shouldAutoCollapse = js_and isThinkingComplete (JBool (\<not> truthy collapsed))
      in [(js ''isThinkingComplete'', isThinkingComplete), (js ''hasAutoCollapsed'', js_or shouldAutoCollapse collapsed),
          (js ''isReasoningExpanded'', if truthy shouldAutoCollapse then JBool False else msg_prop m ''isReasoningExpanded'')])"

datatype chunk_type = Reasoning | Content

definition tags_closed :: "jsstr \<Rightarrow> bool" where
  "tags_closed s \<longleftrightarrow> str_includes s close_tag \<and> occurrences open_tag s \<noteq> 0 \<and> occurrences open_tag s \<le> occurrences close_tag s"

definition thinking_from_tags :: "jsval \<Rightarrow> jsval \<Rightarrow> js_error + jsval" where
  "thinking_from_tags m newContent =
     (if truthy (msg_prop m ''isReasoningExpanded'') then
        (case newContent of
           JStr s \<Rightarrow> Inr (if tags_closed s then JBool True else msg_prop m ''isThinkingComplete'')
         | _ \<Rightarrow> Inl TypeError)
      else Inr (msg_prop m ''isThinkingComplete''))"

definition chunk_patch :: "jsval \<Rightarrow> chunk_type \<Rightarrow> jsval \<Rightarrow> js_error + (jsstr \<times> jsval) list" where
  "chunk_patch textChunk ty m =
     (let reasoning = msg_prop m ''reasoningContent'' in
      case ty of
        Reasoning \<Rightarrow>
          Inr [(js ''reasoningContent'', js_plus (js_or reasoning (JStr [])) textChunk), (js ''status'', JStr STATUS_INCOMPLETE),
               (js ''isThinkingComplete'', JBool False)]
      | Content \<Rightarrow>
          let newContent = js_plus (js_or (msg_prop m ''content'') (JStr [])) textChunk in
          chain (thinking_from_tags m newContent) (\<lambda>fromTags.
            let isThinkingComplete = js_or (js_and reasoning (JBool (\<not> truthy (msg_prop m ''isThinkingComplete'')))) fromTags
            in Inr ([(js ''content'', newContent), (js ''status'', JStr STATUS_INCOMPLETE)] @ applyAutoCollapseLogic m isThinkingComplete)))"

definition streamMessageUpdate :: "jsval \<Rightarrow> chunk_type \<Rightarrow> jsval list \<Rightarrow> js_error + jsval list" where
  "streamMessageUpdate textChunk ty prevMessage =
     (let lastMessage = last_message prevMessage in
      if \<not> truthy lastMessage then Inr prevMessage
      else if msg_prop lastMessage ''role'' \<noteq> JStr ROLE_ASSISTANT then Inr prevMessage
      else if status_is lastMessage STATUS_ERROR then Inr prevMessage
      else if is_unfinished lastMessage then
        chain (chunk_patch textChunk ty lastMessage) (\<lambda>ps. Inr (butlast prevMessage @ [spread lastMessage ps]))
      else Inr prevMessage)"

text \<open>The new list, and the list to be saved.\<close>

definition completeMessage :: "jsstr \<Rightarrow> jsval list \<Rightarrow> js_error + jsval list \<times> jsval list option" where
  "completeMessage status prevMessage =
     (let lastMessage = last_message prevMessage in
      if is_nullish lastMessage then Inl TypeError
      else if is_finished lastMessage then Inr (prevMessage, None)
      else let updatedMessages = butlast prevMessage
                 @ [spread lastMessage ((js ''status'', JStr status) # applyAutoCollapseLogic lastMessage (JBool True))]
           in Inr (updatedMessages, if status = STATUS_COMPLETE \<or> status = STATUS_ERROR then Some updatedMessages else None))"

section \<open>State\<close>

record stream =
  sr_response :: jsstr   \<comment> \<open>\<open>responseData\<close>\<close>
  sr_first :: bool       \<comment> \<open>\<open>hasReceivedFirstResponse\<close>\<close>
  sr_complete :: bool    \<comment> \<open>\<open>isStreamComplete\<close>\<close>
  sr_closed :: bool      \<comment> \<open>whether \<open>close\<close> was called on the source\<close>

record chat_state =
  ch_messages :: "jsval list"
  ch_debug :: "(jsstr \<times> jsval) list"
  ch_tab :: jsstr
  ch_source :: "nat option"          \<comment> \<open>\<open>sseSourceRef.current\<close>\<close>
  ch_streams :: "stream list"
  ch_posts :: "(jsval \<times> bool) list"  \<comment> \<open>the requests sent, and whether as a stream\<close>
  ch_storage :: storage

text \<open>
  What the surroundings contribute to an event: the date as a text and as a number, the translation function, the
  message of an exception the engine throws, and the stack trace of a new error.
\<close>

record moment =
  mo_now :: jsstr
  mo_clock :: jsnum
  mo_t :: "jsstr \<Rightarrow> jsstr"
  mo_error :: jsstr
  mo_stack :: jsval

definition set_debug :: "(jsstr \<times> jsval) list \<Rightarrow> chat_state \<Rightarrow> chat_state" where
  "set_debug ps st = st\<lparr>ch_debug := obj_spread (ch_debug st) ps\<rparr>"

definition push_sse :: "jsstr \<Rightarrow> chat_state \<Rightarrow> jsval" where  \<comment> \<open>\<open>[...(prev.sseMessages || []), data]\<close>\<close>
  "push_sse data st = JArr ((case map_of (ch_debug st) (js ''sseMessages'') of Some (JArr xs) \<Rightarrow> xs | _ \<Rightarrow> []) @ [JStr data])"

definition update_stream :: "nat \<Rightarrow> (stream \<Rightarrow> stream) \<Rightarrow> chat_state \<Rightarrow> chat_state" where
  "update_stream i f st = st\<lparr>ch_streams := (ch_streams st)[i := f (ch_streams st ! i)]\<rparr>"

definition close_source :: "nat \<Rightarrow> chat_state \<Rightarrow> chat_state" where
  "close_source i st = update_stream i (\<lambda>s. s\<lparr>sr_closed := True\<rparr>) st"

definition save_list :: "moment \<Rightarrow> jsval list option \<Rightarrow> chat_state \<Rightarrow> chat_state" where
  "save_list mo l st = (case l of None \<Rightarrow> st | Some ms \<Rightarrow> st\<lparr>ch_storage := saveMessages (mo_now mo) (JArr ms) (ch_storage st)\<rparr>)"

definition stream_update :: "jsval \<Rightarrow> chunk_type \<Rightarrow> chat_state \<Rightarrow> js_error + chat_state" where
  "stream_update chunk ty st = chain (streamMessageUpdate chunk ty (ch_messages st)) (\<lambda>ms. Inr (st\<lparr>ch_messages := ms\<rparr>))"

definition complete_update :: "moment \<Rightarrow> jsstr \<Rightarrow> chat_state \<Rightarrow> js_error + chat_state" where
  "complete_update mo status st =
     chain (completeMessage status (ch_messages st)) (\<lambda>(ms, saved). Inr (save_list mo saved (st\<lparr>ch_messages := ms\<rparr>)))"

text \<open>The report of \<open>handleApiError(new Error(message))\<close> with further fields, as an indented text.\<close>

definition error_report :: "moment \<Rightarrow> jsval \<Rightarrow> (jsstr \<times> jsval) list \<Rightarrow> jsstr" where
  "error_report mo message extra =
     (let error = JObj [(js ''message'', JStr (js_to_string message)), (js ''stack'', mo_stack mo)];
          info = (case handleApiError (mo_now mo) error JNull of Inr i \<Rightarrow> i | Inl _ \<Rightarrow> [])
      in case json_pretty 0 (JObj (obj_spread info extra)) of Some s \<Rightarrow> s | None \<Rightarrow> js ''undefined'')"

lemma error_report_total:
  "\<exists>info. handleApiError now (JObj [(js ''message'', JStr m), (js ''stack'', s)]) JNull = Inr info"
  by (simp add: handleApiError_def Let_def)

section \<open>Streams\<close>

definition stream_failed_text :: jsstr where
  "stream_failed_text = js ''Stream'' @ [21551, 21160, 22833, 36133, 58, 10]"

definition connecting_failed :: jsstr where
  "connecting_failed = [24314, 31435, 36830, 25509, 26102, 21457, 29983, 38169, 35823]"

definition parse_error_text :: jsstr where "parse_error_text = [35299, 26512, 38169, 35823, 58, 32]"

definition response_invalid :: jsstr where
  "response_invalid = [35299, 26512, 21709, 24212, 25968, 25454, 26102, 21457, 29983, 38169, 35823]"

definition request_failed :: jsstr where "request_failed = [35831, 27714, 21457, 29983, 38169, 35823]"
definition http_state_error :: jsstr where "http_state_error = js ''HTTP'' @ [29366, 24577, 38169, 35823]"
definition disconnected :: jsstr where "disconnected = [36830, 25509, 24050, 26029, 24320]"
definition done_mark :: jsstr where "done_mark = js ''[DONE]''"

definition fresh_stream :: stream where
  "fresh_stream = \<lparr>sr_response = [], sr_first = False, sr_complete = False, sr_closed = False\<rparr>"

definition start_failed :: "moment \<Rightarrow> jsstr \<Rightarrow> chat_state \<Rightarrow> js_error + chat_state" where
  "start_failed mo e st =
     (let st1 = (set_debug [(js ''response'', JStr (stream_failed_text @ error_report mo (JStr e) []))] st)\<lparr>ch_tab := TAB_RESPONSE\<rparr>
      in chain (stream_update (JStr (mo_t mo connecting_failed)) Content st1) (complete_update mo STATUS_ERROR))"

text \<open>Opening a stream; \<open>startError\<close> is the message of an exception that \<open>source.stream()\<close> throws.\<close>

definition handleSSE :: "moment \<Rightarrow> jsval \<Rightarrow> jsstr option \<Rightarrow> chat_state \<Rightarrow> js_error + chat_state" where
  "handleSSE mo payload startError st =
     chain (getUserIdFromLocalStorage (ch_storage st)) (\<lambda>_.
       let st1 = set_debug [(js ''request'', payload), (js ''timestamp'', JStr (mo_now mo)), (js ''response'', JNull),
                   (js ''sseMessages'', JArr []), (js ''isStreaming'', JBool True)] st;
           st2 = st1\<lparr>ch_tab := TAB_REQUEST, ch_source := Some (length (ch_streams st1)), ch_streams := ch_streams st1 @ [fresh_stream]\<rparr>
       in case startError of
            None \<Rightarrow> Inr (st2\<lparr>ch_posts := ch_posts st2 @ [(payload, True)]\<rparr>)
          | Some e \<Rightarrow> start_failed mo e st2)"

definition delta_update :: "jsval \<Rightarrow> string \<Rightarrow> chunk_type \<Rightarrow> chat_state \<Rightarrow> js_error + chat_state" where
  "delta_update delta field ty st =
     (let v = msg_prop delta field in if truthy v then stream_update v ty st else Inr st)"

definition payload_delta :: "jsval \<Rightarrow> jsval" where  \<comment> \<open>\<open>payload.choices?.[0]?.delta\<close>\<close>
  "payload_delta payload = prop_opt (prop_opt (js_prop payload (js ''choices'')) (js ''0'')) (js ''delta'')"

definition apply_delta :: "jsval \<Rightarrow> chat_state \<Rightarrow> js_error + chat_state" where
  "apply_delta delta st =
     (if truthy delta then
        chain (delta_update delta ''reasoning_content'' Reasoning st) (\<lambda>st.
        chain (delta_update delta ''reasoning'' Reasoning st) (\<lambda>st.
        delta_update delta ''content'' Content st))
      else Inr st)"

text \<open>The \<open>catch\<close> branch of the message listener.\<close>

definition message_failed :: "moment \<Rightarrow> nat \<Rightarrow> jsstr \<Rightarrow> chat_state \<Rightarrow> js_error + chat_state" where
  "message_failed mo i data st =
     (let response = sr_response (ch_streams st ! i) @ [10, 10] @ js ''Error: '' @ parse_error_text @ mo_error mo;
          st1 = (set_debug [(js ''response'', JStr response), (js ''sseMessages'', push_sse data st), (js ''isStreaming'', JBool False)] st)
                  \<lparr>ch_tab := TAB_RESPONSE\<rparr>
      in chain (stream_update (JStr (mo_t mo response_invalid)) Content st1) (complete_update mo STATUS_ERROR))"

definition onSseMessage :: "moment \<Rightarrow> nat \<Rightarrow> jsstr \<Rightarrow> chat_state \<Rightarrow> js_error + chat_state" where
  "onSseMessage mo i data st =
     (if data = done_mark then
        let st1 = (update_stream i (\<lambda>s. s\<lparr>sr_complete := True, sr_closed := True\<rparr>) st)\<lparr>ch_source := None\<rparr>;
            st2 = set_debug [(js ''response'', JStr (sr_response (ch_streams st ! i))), (js ''sseMessages'', push_sse done_mark st1),
                    (js ''isStreaming'', JBool False)] st1
        in complete_update mo STATUS_COMPLETE st2
      else (case json_parse data of
          None \<Rightarrow> message_failed mo i data st
        | Some payload \<Rightarrow>
            let first = sr_first (ch_streams st ! i);
                st1 = update_stream i (\<lambda>s. s\<lparr>sr_response := sr_response s @ data @ [10], sr_first := True\<rparr>) st;
                st2 = set_debug [(js ''sseMessages'', push_sse data st1)] (if first then st1 else st1\<lparr>ch_tab := TAB_RESPONSE\<rparr>)
            in if is_nullish payload then message_failed mo i data st2
               else apply_delta (payload_delta payload) st2))"

text \<open>The text and the code of an error event, from its data when these are JSON with an \<open>error\<close>.\<close>

definition event_error :: "moment \<Rightarrow> jsstr option \<Rightarrow> jsval \<times> jsval" where
  "event_error mo data =
     (let message = (case data of Some s \<Rightarrow> if s = [] then JStr (mo_t mo request_failed) else JStr s | None \<Rightarrow> JStr (mo_t mo request_failed));
          parsed = (case data of None \<Rightarrow> None | Some s \<Rightarrow> if s = [] then None else json_parse s)
      in case parsed of
           None \<Rightarrow> (message, JNull)
         | Some errorJson \<Rightarrow>
             let e = prop_opt errorJson (js ''error'') in
             if truthy e then (js_or (msg_prop e ''message'') message, js_or (msg_prop e ''code'') JNull) else (message, JNull))"

definition error_last :: "jsval \<Rightarrow> jsval \<Rightarrow> jsval list \<Rightarrow> jsval list" where
  "error_last errorMessage errorCode ms =
     (let m = last_message ms in
      if truthy m \<and> \<not> is_finished m then
        butlast ms @ [spread m [(js ''content'', js_plus (js_or (msg_prop m ''content'') (JStr [])) errorMessage),
                                (js ''errorCode'', errorCode), (js ''status'', JStr STATUS_ERROR)]]
      else ms)"

definition onSseError :: "moment \<Rightarrow> nat \<Rightarrow> jsstr option \<Rightarrow> int \<Rightarrow> chat_state \<Rightarrow> chat_state" where
  "onSseError mo i data readyState st =
     (if sr_complete (ch_streams st ! i) \<or> readyState = 2 then st
      else let (errorMessage, errorCode) = event_error mo data;
               report = error_report mo errorMessage [(js ''readyState'', JNum (Fin (of_int readyState)))];
               st1 = set_debug [(js ''response'', JStr (sr_response (ch_streams st ! i) @ [10, 10] @ js ''SSE Error:'' @ [10] @ report))] st
           in close_source i (st1\<lparr>ch_tab := TAB_RESPONSE, ch_messages := error_last errorMessage errorCode (ch_messages st1), ch_source := None\<rparr>))"

definition onSseReady :: "moment \<Rightarrow> nat \<Rightarrow> int \<Rightarrow> int option \<Rightarrow> chat_state \<Rightarrow> js_error + chat_state" where
  "onSseReady mo i readyState status st =
     (case status of
        None \<Rightarrow> Inr st
      | Some n \<Rightarrow>
          if 2 \<le> readyState \<and> n \<noteq> 200 \<and> \<not> sr_complete (ch_streams st ! i) then
            let report = error_report mo (JStr http_state_error)
                  [(js ''status'', JNum (Fin (of_int n))), (js ''readyState'', JNum (Fin (of_int readyState)))];
                st1 = (set_debug [(js ''response'', JStr (sr_response (ch_streams st ! i) @ [10, 10] @ js ''HTTP Error:'' @ [10] @ report))] st)
                        \<lparr>ch_tab := TAB_RESPONSE\<rparr>
            in chain (stream_update (JStr (mo_t mo disconnected)) Content (close_source i st1)) (complete_update mo STATUS_ERROR)
          else Inr st)"

text \<open>
  Stopping. The content of an unfinished message is a text or, for a message of another origin, an array, on
  which the tags are looked for as elements.
\<close>

definition unfinished_texts :: "jsval \<Rightarrow> js_error + jsval \<times> jsval" where
  "unfinished_texts m =
     (case js_or (msg_prop m ''content'') (JStr []) of
        JStr content \<Rightarrow> (let (c, r) = processIncompleteThinkTags content (reasoning_text m) in Inr (JStr c, js_or (JStr r) JNull))
      | JArr parts \<Rightarrow> if JStr open_tag \<in> set parts then Inl TypeError else Inr (JArr parts, js_or (JStr (reasoning_text m)) JNull)
      | _ \<Rightarrow> Inl TypeError)"

definition stop_messages :: "jsval list \<Rightarrow> js_error + jsval list \<times> jsval list option" where
  "stop_messages ms =
     (if ms = [] then Inr (ms, None)
      else if is_nullish (last ms) then Inl TypeError
      else if is_unfinished (last ms) then
        chain (unfinished_texts (last ms)) (\<lambda>(content, reasoning).
          let updated = butlast ms @ [spread (last ms) ([(js ''status'', JStr STATUS_COMPLETE), (js ''reasoningContent'', reasoning),
                (js ''content'', content)] @ applyAutoCollapseLogic (last ms) (JBool True))]
          in Inr (updated, Some updated))
      else Inr (ms, None))"

definition onStopGenerator :: "moment \<Rightarrow> chat_state \<Rightarrow> js_error + chat_state" where
  "onStopGenerator mo st =
     (let st1 = (case ch_source st of None \<Rightarrow> st | Some i \<Rightarrow> (close_source i st)\<lparr>ch_source := None\<rparr>)
      in chain (stop_messages (ch_messages st1)) (\<lambda>(ms, saved). Inr (save_list mo saved (st1\<lparr>ch_messages := ms\<rparr>))))"

section \<open>Requests that are answered at once\<close>

text \<open>What \<open>fetch\<close> gives: a JSON body, an error status with the body if it could be read, or an exception.\<close>

datatype answer_kind = Answered jsval | Refused int "jsstr option" | NoAnswer jsstr

definition body_unreadable :: jsstr where
  "body_unreadable = [26080, 27861, 35835, 21462, 38169, 35823, 21709, 24212, 20307]"

definition error_prefix :: jsstr where "error_prefix = [35831, 27714, 21457, 29983, 38169, 35823, 58, 32]"

text \<open>Applies to the last message while it is loading; nothing is saved.\<close>

definition loading_update :: "(jsval \<Rightarrow> (jsstr \<times> jsval) list) \<Rightarrow> chat_state \<Rightarrow> chat_state" where
  "loading_update patch st =
     (let m = last_message (ch_messages st) in
      if status_is m STATUS_LOADING then st\<lparr>ch_messages := butlast (ch_messages st) @ [spread m (patch m @ applyAutoCollapseLogic m (JBool True))]\<rparr>
      else st)"

definition request_error :: "moment \<Rightarrow> jsstr \<Rightarrow> jsval \<Rightarrow> chat_state \<Rightarrow> chat_state" where
  "request_error mo message errorCode st =
     loading_update (\<lambda>_. [(js ''content'', JStr (mo_t mo error_prefix @ message)), (js ''errorCode'', errorCode), (js ''status'', JStr STATUS_ERROR)])
       ((set_debug [(js ''response'', JStr (error_report mo (JStr message) []))] st)\<lparr>ch_tab := TAB_RESPONSE\<rparr>)"

text \<open>Sending; the identifier of the user, read inside the \<open>try\<close>, may throw.\<close>

definition handleNonStreamRequest :: "moment \<Rightarrow> jsval \<Rightarrow> chat_state \<Rightarrow> chat_state" where
  "handleNonStreamRequest mo payload st =
     (let st1 = (set_debug [(js ''request'', payload), (js ''timestamp'', JStr (mo_now mo)), (js ''response'', JNull), (js ''sseMessages'', JNull),
            (js ''isStreaming'', JBool False)] st)\<lparr>ch_tab := TAB_REQUEST\<rparr>
      in case getUserIdFromLocalStorage (ch_storage st1) of
           Inl _ \<Rightarrow> request_error mo (mo_error mo) JNull st1
         | Inr _ \<Rightarrow> st1\<lparr>ch_posts := ch_posts st1 @ [(payload, False)]\<rparr>)"

definition sendRequest :: "moment \<Rightarrow> jsval \<Rightarrow> bool \<Rightarrow> jsstr option \<Rightarrow> chat_state \<Rightarrow> js_error + chat_state" where
  "sendRequest mo payload isStream startError st =
     (if isStream then handleSSE mo payload startError st else Inr (handleNonStreamRequest mo payload st))"

text \<open>\<open>HTTP error! status: ..., body: ...\<close>, or the message and code of an error object in the body.\<close>

definition refused_error :: "int \<Rightarrow> jsstr option \<Rightarrow> jsstr \<times> jsval" where
  "refused_error status body =
     (let parsed = (case body of None \<Rightarrow> JUndef | Some b \<Rightarrow>
            (case json_parse b of None \<Rightarrow> JUndef | Some j \<Rightarrow> prop_opt j (js ''error'')));
          errorBody = (case body of
              None \<Rightarrow> body_unreadable
            | Some b \<Rightarrow> if b = [] then body_unreadable else b);
          fallback = js ''HTTP error! status: '' @ number_to_string (Fin (of_int status)) @ js '', body: '' @ errorBody
      in if truthy parsed then (js_to_string (js_or (msg_prop parsed ''message'') (JStr fallback)), js_or (msg_prop parsed ''code'') JNull)
         else (fallback, JNull))"

text \<open>\<open>processThinkTags\<close> on a content that need not be a text.\<close>

definition reply_texts :: "jsval \<Rightarrow> jsval \<Rightarrow> (jsval \<times> jsval) option" where
  "reply_texts content reasoning =
     (case content of
        JStr s \<Rightarrow> if s = [] \<or> \<not> str_includes s open_tag then Some (content, reasoning)
                  else (let (c, r) = processThinkTags s (js_to_string reasoning) in Some (JStr c, JStr r))
      | JArr parts \<Rightarrow> if JStr open_tag \<in> set parts then None else Some (content, reasoning)
      | _ \<Rightarrow> None)"

definition handleNonStreamAnswer :: "moment \<Rightarrow> answer_kind \<Rightarrow> chat_state \<Rightarrow> chat_state" where
  "handleNonStreamAnswer mo answer st =
     (case answer of
        NoAnswer message \<Rightarrow> request_error mo message JNull st
      | Refused status body \<Rightarrow> (let (message, code) = refused_error status body in request_error mo message code st)
      | Answered data \<Rightarrow>
          let st1 = (set_debug [(js ''response'', case json_pretty 0 data of Some s \<Rightarrow> JStr s | None \<Rightarrow> JUndef)] st)\<lparr>ch_tab := TAB_RESPONSE\<rparr>
          in if is_nullish data then request_error mo (mo_error mo) JNull st1
             else let choice = prop_opt (js_prop data (js ''choices'')) (js ''0'') in
               if \<not> truthy choice then st1
               else let message = msg_prop choice ''message'';
                        content = js_or (prop_opt message (js ''content'')) (JStr []);
                        reasoning = js_or (js_or (prop_opt message (js ''reasoning_content'')) (prop_opt message (js ''reasoning''))) (JStr [])
                    in case reply_texts content reasoning of
                         None \<Rightarrow> request_error mo (mo_error mo) JNull st1
                       | Some (c, r) \<Rightarrow> loading_update (\<lambda>_. [(js ''content'', c), (js ''reasoningContent'', r), (js ''status'', JStr STATUS_COMPLETE)]) st1)"

end
