(* ===== verification/PlaygroundReply.thy ===== *)
theory PlaygroundReply
  imports PlaygroundStream
begin

text \<open>
  What the replies of the playground do to the messages: a stream writes exactly what it carries, a finished
  message is not touched again, and an answer that comes at once is shown but not saved.
\<close>

section \<open>Messages as objects\<close>

definition is_object :: "jsval \<Rightarrow> bool" where
  "is_object m \<longleftrightarrow> (case m of JObj ps \<Rightarrow> distinct (map fst ps) | _ \<Rightarrow> False)"

lemma distinct_obj_spread: "distinct (map fst ps) \<Longrightarrow> distinct (map fst (obj_spread ps qs))"
  unfolding obj_spread_def by (induction qs arbitrary: ps) (auto simp: distinct_obj_put)

lemma spread_prop:
  assumes "is_object m" and "distinct (map fst ps)"
  shows "js_prop (spread m ps) k = (case map_of ps k of Some v \<Rightarrow> v | None \<Rightarrow> js_prop m k)"
proof -
  obtain qs where m: "m = JObj qs" "distinct (map fst qs)" using assms(1) by (auto simp: is_object_def split: jsval.splits)
  show ?thesis
    by (simp add: spread_def m(1) map_of_obj_spread_distinct [OF m(2)] map_of_obj_spread_distinct [OF assms(2)] map_add_def split: option.splits)
qed

lemma spread_object [simp]: "is_object (spread m ps)"
  by (auto simp: is_object_def spread_def intro!: distinct_obj_spread)

lemma object_truthy: "is_object m \<Longrightarrow> truthy m \<and> \<not> is_nullish m"
  by (auto simp: is_object_def split: jsval.splits)

section \<open>Events of the network\<close>

datatype net_event = SseMessage nat jsstr | SseError nat "jsstr option" int | SseReady nat int "int option" | Answer answer_kind

definition net_step :: "moment \<Rightarrow> net_event \<Rightarrow> chat_state \<Rightarrow> js_error + chat_state" where
  "net_step mo ev st =
     (case ev of
        SseMessage i data \<Rightarrow> onSseMessage mo i data st
      | SseError i data ready \<Rightarrow> Inr (onSseError mo i data ready st)
      | SseReady i ready status \<Rightarrow> onSseReady mo i ready status st
      | Answer a \<Rightarrow> Inr (handleNonStreamAnswer mo a st))"

text \<open>Two states that agree on the messages and on what is stored.\<close>

definition same_chat :: "chat_state \<Rightarrow> chat_state \<Rightarrow> bool" where
  "same_chat st st' \<longleftrightarrow> ch_messages st' = ch_messages st \<and> ch_storage st' = ch_storage st"

lemma same_chat_refl [simp]: "same_chat st st"
  by (simp add: same_chat_def)

lemma same_chat_frame [simp]:
  "same_chat st (set_debug ps st') = same_chat st st'" "same_chat st (update_stream i f st') = same_chat st st'"
  "same_chat st (close_source i st') = same_chat st st'" "same_chat st (st'\<lparr>ch_tab := t\<rparr>) = same_chat st st'"
  "same_chat st (st'\<lparr>ch_source := s\<rparr>) = same_chat st st'"
  by (simp_all add: same_chat_def set_debug_def update_stream_def close_source_def)

lemma frame_messages [simp]:
  "ch_messages (set_debug ps st) = ch_messages st" "ch_messages (update_stream i f st) = ch_messages st" "ch_messages (close_source i st) = ch_messages st"
  "ch_storage (set_debug ps st) = ch_storage st" "ch_storage (update_stream i f st) = ch_storage st" "ch_storage (close_source i st) = ch_storage st"
  by (simp_all add: set_debug_def update_stream_def close_source_def)

definition chat_finished :: "chat_state \<Rightarrow> bool" where
  "chat_finished st \<longleftrightarrow> is_finished (last_message (ch_messages st))"

lemma finished_cong: "same_chat st st' \<Longrightarrow> chat_finished st' = chat_finished st"
  by (simp add: same_chat_def chat_finished_def)

lemma finished_not_unfinished: "is_finished m \<Longrightarrow> \<not> is_unfinished m \<and> \<not> is_nullish m \<and> \<not> status_is m STATUS_LOADING"
  by (auto simp: is_finished_def is_unfinished_def status_is_def status_defs elim!: is_nullish.elims)

lemma finished_stream: "chat_finished st \<Longrightarrow> stream_update chunk ty st = Inr st"
  using finished_not_unfinished by (auto simp: stream_update_def streamMessageUpdate_def chat_finished_def Let_def)

lemma finished_complete: "chat_finished st \<Longrightarrow> complete_update mo s st = Inr st"
  using finished_not_unfinished by (auto simp: complete_update_def completeMessage_def chat_finished_def save_list_def Let_def)

lemma finished_delta: "chat_finished st \<Longrightarrow> apply_delta d st = Inr st"
  by (auto simp: apply_delta_def delta_update_def finished_stream Let_def)

lemma finished_loading: "chat_finished st \<Longrightarrow> loading_update f st = st"
  using finished_not_unfinished by (auto simp: loading_update_def chat_finished_def Let_def)

lemma finished_request_error: "chat_finished st \<Longrightarrow> same_chat st (request_error mo m c st)"
proof -
  assume f: "chat_finished st"
  let ?s = "(set_debug [(js ''response'', JStr (error_report mo (JStr m) []))] st)\<lparr>ch_tab := TAB_RESPONSE\<rparr>"
  have "same_chat st ?s" by simp
  with f have "chat_finished ?s" using finished_cong by blast
  then show ?thesis by (simp add: request_error_def finished_loading)
qed

lemma finished_failed:
  assumes "chat_finished st"
  shows "\<exists>st'. message_failed mo i data st = Inr st' \<and> same_chat st st'"
proof -
  have "chat_finished ((set_debug ps st)\<lparr>ch_tab := TAB_RESPONSE\<rparr>)" for ps
    using finished_cong [of st "(set_debug ps st)\<lparr>ch_tab := TAB_RESPONSE\<rparr>"] assms by simp
  then show ?thesis by (simp add: message_failed_def Let_def finished_stream finished_complete)
qed

lemma same_chat_trans: "same_chat a b \<Longrightarrow> same_chat b c \<Longrightarrow> same_chat a c"
  by (simp add: same_chat_def)

lemma finished_message:
  assumes f: "chat_finished st"
  shows "\<exists>st'. onSseMessage mo i data st = Inr st' \<and> same_chat st st'"
proof -
  have fin: "chat_finished s" if "same_chat st s" for s using finished_cong [OF that] f by simp
  show ?thesis
  proof (cases "data = done_mark")
    case True
    then show ?thesis by (simp add: onSseMessage_def Let_def finished_complete fin)
  next
    case False
    show ?thesis
    proof (cases "json_parse data")
      case None
      then show ?thesis using finished_failed [OF f] False by (simp add: onSseMessage_def)
    next
      case (Some payload)
      define s where "s = (let first = sr_first (ch_streams st ! i);
                st1 = update_stream i (\<lambda>s. s\<lparr>sr_response := sr_response s @ data @ [10], sr_first := True\<rparr>) st
            in set_debug [(js ''sseMessages'', push_sse data st1)] (if first then st1 else st1\<lparr>ch_tab := TAB_RESPONSE\<rparr>))"
      have s: "same_chat st s" by (simp add: s_def Let_def)
      obtain s' where "message_failed mo i data s = Inr s'" "same_chat s s'" using finished_failed [OF fin [OF s]] by blast
      then show ?thesis
        using False Some s finished_delta [OF fin [OF s]] same_chat_trans [OF s]
        by (auto simp: onSseMessage_def s_def Let_def)
    qed
  qed
qed

lemma finished_answer:
  assumes f: "chat_finished st"
  shows "same_chat st (handleNonStreamAnswer mo a st)"
proof -
  have fin: "chat_finished s" if "same_chat st s" for s using finished_cong [OF that] f by simp
  have e: "same_chat st (request_error mo m c s)" if "same_chat st s" for m c s
    using finished_request_error [OF fin [OF that]] same_chat_trans [OF that] by blast
  show ?thesis
    by (auto simp: handleNonStreamAnswer_def Let_def fin finished_loading intro!: e split: answer_kind.splits option.splits prod.splits)
qed

text \<open>
  C36: a message that is complete or failed is final: whatever a stream or a request still brings, on whatever connection,
  neither the messages nor the stored copy change, and no exception is thrown.
\<close>

theorem finished_message_kept:
  assumes "is_finished (last_message (ch_messages st))"
  shows "\<exists>st'. net_step mo ev st = Inr st' \<and> ch_messages st' = ch_messages st \<and> ch_storage st' = ch_storage st"
proof -
  have f: "chat_finished st" using assms by (simp add: chat_finished_def)
  have fin: "chat_finished s" if "same_chat st s" for s using finished_cong [OF that] f by simp
  have "\<exists>st'. net_step mo ev st = Inr st' \<and> same_chat st st'"
  proof (cases ev)
    case (SseMessage i data)
    then show ?thesis using finished_message [OF f] by (simp add: net_step_def)
  next
    case (SseError i data ready)
    have "error_last m c (ch_messages st) = ch_messages st" for m c using assms by (simp add: error_last_def Let_def)
    then show ?thesis
      using SseError by (auto simp: net_step_def onSseError_def same_chat_def Let_def split: prod.splits)
  next
    case (SseReady i ready status)
    then show ?thesis
      by (auto simp: net_step_def onSseReady_def Let_def finished_stream finished_complete fin split: option.splits)
  next
    case (Answer a)
    then show ?thesis using finished_answer [OF f] by (simp add: net_step_def)
  qed
  then show ?thesis by (auto simp: same_chat_def)
qed

section \<open>Streams\<close>

text \<open>What an event of a stream carries: the fields of the delta, each absent or a text.\<close>

definition plain_field :: "jsval \<Rightarrow> string \<Rightarrow> bool" where
  "plain_field d f \<longleftrightarrow> (case msg_prop d f of JStr _ \<Rightarrow> True | v \<Rightarrow> \<not> truthy v)"

definition field_text :: "jsval \<Rightarrow> string \<Rightarrow> jsstr" where
  "field_text d f = (case msg_prop d f of JStr s \<Rightarrow> s | _ \<Rightarrow> [])"

definition delta_of :: "jsstr \<Rightarrow> jsval" where
  "delta_of data = (case json_parse data of None \<Rightarrow> JUndef | Some p \<Rightarrow> payload_delta p)"

definition plain_chunk :: "jsstr \<Rightarrow> bool" where
  "plain_chunk data \<longleftrightarrow> data \<noteq> done_mark \<and> (case json_parse data of None \<Rightarrow> False | Some p \<Rightarrow> \<not> is_nullish p)
     \<and> list_all (plain_field (delta_of data)) [''reasoning_content'', ''reasoning'', ''content'']"

definition chunk_content :: "jsstr \<Rightarrow> jsstr" where
  "chunk_content data = (if truthy (delta_of data) then field_text (delta_of data) ''content'' else [])"

definition chunk_reasoning :: "jsstr \<Rightarrow> jsstr" where
  "chunk_reasoning data =
     (if truthy (delta_of data) then field_text (delta_of data) ''reasoning_content'' @ field_text (delta_of data) ''reasoning'' else [])"

fun sse_run :: "moment \<Rightarrow> nat \<Rightarrow> jsstr list \<Rightarrow> chat_state \<Rightarrow> js_error + chat_state" where
  "sse_run mo i [] st = Inr st"
| "sse_run mo i (d # ds) st = chain (onSseMessage mo i d st) (sse_run mo i ds)"

text \<open>A message that is being written, with what was written so far.\<close>

definition writing :: "jsstr \<Rightarrow> jsstr \<Rightarrow> jsval \<Rightarrow> bool" where
  "writing c r m \<longleftrightarrow> is_object m \<and> msg_prop m ''role'' = JStr ROLE_ASSISTANT \<and> is_unfinished m
     \<and> msg_prop m ''content'' = JStr c \<and> msg_prop m ''reasoningContent'' = JStr r"

lemma or_text: "js_or (JStr s) (JStr []) = JStr s"
  by (simp add: js_or_def)

lemma plus_text: "js_plus (JStr a) (JStr b) = JStr (a @ b)"
  by (simp add: js_plus_def)

lemma unfinished_not_error: "is_unfinished m \<Longrightarrow> \<not> status_is m STATUS_ERROR \<and> \<not> is_finished m"
  by (auto simp: is_unfinished_def status_is_def is_finished_def status_defs)

lemma collapse_keys: "map fst (applyAutoCollapseLogic m v) = [js ''isThinkingComplete'', js ''hasAutoCollapsed'', js ''isReasoningExpanded'']"
  by (simp add: applyAutoCollapseLogic_def Let_def)

lemma collapse_other: "k \<notin> {js ''isThinkingComplete'', js ''hasAutoCollapsed'', js ''isReasoningExpanded''} \<Longrightarrow> map_of (applyAutoCollapseLogic m v) k = None"
  by (simp add: applyAutoCollapseLogic_def Let_def)

lemma writing_reasoning:
  assumes "writing c r m"
  shows "\<exists>ps. chunk_patch (JStr s) Reasoning m = Inr ps \<and> writing c (r @ s) (spread m ps)"
  using assms
  by (simp add: chunk_patch_def writing_def or_text plus_text spread_prop is_unfinished_def ROLE_ASSISTANT_def)

lemma writing_content:
  assumes "writing c r m"
  shows "\<exists>ps. chunk_patch (JStr s) Content m = Inr ps \<and> writing (c @ s) r (spread m ps)"
proof -
  have c: "msg_prop m ''content'' = JStr c" using assms by (simp add: writing_def)
  have "\<exists>v. thinking_from_tags m (JStr (c @ s)) = Inr v" by (simp add: thinking_from_tags_def)
  then obtain v where "thinking_from_tags m (JStr (c @ s)) = Inr v" by blast
  then obtain w where p: "chunk_patch (JStr s) Content m
      = Inr ((js ''content'', JStr (c @ s)) # (js ''status'', JStr STATUS_INCOMPLETE) # applyAutoCollapseLogic m w)" (is "_ = Inr ?ps")
    by (simp add: chunk_patch_def c or_text plus_text Let_def)
  have d: "distinct (map fst ?ps)" by (simp add: collapse_keys)
  have "writing (c @ s) r (spread m ?ps)"
    using assms by (simp add: writing_def spread_prop [OF _ d] collapse_other is_unfinished_def)
  then show ?thesis using p by blast
qed

lemma stream_writes:
  assumes "ch_messages st = ms @ [m]" and "writing c r m"
  shows "\<exists>m'. stream_update (JStr s) ty st = Inr (st\<lparr>ch_messages := ms @ [m']\<rparr>)
    \<and> (case ty of Reasoning \<Rightarrow> writing c (r @ s) m' | Content \<Rightarrow> writing (c @ s) r m')"
proof -
  obtain ps where ps: "chunk_patch (JStr s) ty m = Inr ps"
    "case ty of Reasoning \<Rightarrow> writing c (r @ s) (spread m ps) | Content \<Rightarrow> writing (c @ s) r (spread m ps)"
    using writing_reasoning [OF assms(2)] writing_content [OF assms(2)] by (cases ty) (auto)
  have w: "truthy m" "msg_prop m ''role'' = JStr ROLE_ASSISTANT" "is_unfinished m"
    using assms(2) object_truthy by (auto simp: writing_def)
  then show ?thesis
    using ps unfinished_not_error [OF w(3)] assms(1)
    by (auto simp: stream_update_def streamMessageUpdate_def last_message_def Let_def intro!: exI [of _ "spread m ps"])
qed

lemma delta_writes:
  assumes "ch_messages st = ms @ [m]" and "writing c r m" and "plain_field d f"
  shows "\<exists>m'. delta_update d f ty st = Inr (st\<lparr>ch_messages := ms @ [m']\<rparr>)
    \<and> (case ty of Reasoning \<Rightarrow> writing c (r @ field_text d f) m' | Content \<Rightarrow> writing (c @ field_text d f) r m')"
proof (cases "truthy (msg_prop d f)")
  case True
  then obtain s where "msg_prop d f = JStr s" using assms(3) by (auto simp: plain_field_def split: jsval.splits)
  moreover from this have "field_text d f = s" by (simp add: field_text_def)
  ultimately show ?thesis using stream_writes [OF assms(1,2), of s ty] True by (cases ty) (simp_all add: delta_update_def)
next
  case False
  then have "field_text d f = []" by (auto simp: field_text_def split: jsval.splits)
  then show ?thesis using False assms(1,2) by (auto simp: delta_update_def split: chunk_type.splits intro!: exI [of _ m])
qed

lemma apply_delta_writes:
  assumes m: "ch_messages st = ms @ [m]" "writing c r m" and f: "list_all (plain_field d) [''reasoning_content'', ''reasoning'', ''content'']"
  shows "\<exists>m'. apply_delta d st = Inr (st\<lparr>ch_messages := ms @ [m']\<rparr>)
    \<and> writing (c @ (if truthy d then field_text d ''content'' else []))
        (r @ (if truthy d then field_text d ''reasoning_content'' @ field_text d ''reasoning'' else [])) m'"
proof (cases "truthy d")
  case True
  obtain m1 where 1: "delta_update d ''reasoning_content'' Reasoning st = Inr (st\<lparr>ch_messages := ms @ [m1]\<rparr>)"
    "writing c (r @ field_text d ''reasoning_content'') m1"
    using delta_writes [OF m, of d "''reasoning_content''" Reasoning] f by auto
  obtain m2 where 2: "delta_update d ''reasoning'' Reasoning (st\<lparr>ch_messages := ms @ [m1]\<rparr>) = Inr (st\<lparr>ch_messages := ms @ [m2]\<rparr>)"
    "writing c ((r @ field_text d ''reasoning_content'') @ field_text d ''reasoning'') m2"
    using delta_writes [of "st\<lparr>ch_messages := ms @ [m1]\<rparr>" ms m1, OF _ 1(2), of d "''reasoning''" Reasoning] f by auto
  obtain m3 where 3: "delta_update d ''content'' Content (st\<lparr>ch_messages := ms @ [m2]\<rparr>) = Inr (st\<lparr>ch_messages := ms @ [m3]\<rparr>)"
    "writing (c @ field_text d ''content'') ((r @ field_text d ''reasoning_content'') @ field_text d ''reasoning'') m3"
    using delta_writes [of "st\<lparr>ch_messages := ms @ [m2]\<rparr>" ms m2, OF _ 2(2), of d "''content''" Content] f by auto
  show ?thesis using True 1 2 3 by (auto simp: apply_delta_def)
next
  case False
  then show ?thesis using m by (auto simp: apply_delta_def intro!: exI [of _ m])
qed

text \<open>The parts of the state that a chunk leaves alone.\<close>

definition same_rest :: "chat_state \<Rightarrow> chat_state \<Rightarrow> bool" where
  "same_rest st st' \<longleftrightarrow> ch_storage st' = ch_storage st \<and> length (ch_streams st') = length (ch_streams st)"

lemma chunk_writes:
  assumes "ch_messages st = ms @ [m]" and "writing c r m" and "plain_chunk data"
  shows "\<exists>st' m'. onSseMessage mo i data st = Inr st' \<and> ch_messages st' = ms @ [m'] \<and> same_rest st st'
    \<and> writing (c @ chunk_content data) (r @ chunk_reasoning data) m'"
proof -
  obtain p where p: "json_parse data = Some p" "\<not> is_nullish p" "data \<noteq> done_mark" and f: "delta_of data = payload_delta p"
    using assms(3) by (auto simp: plain_chunk_def delta_of_def split: option.splits)
  define s where "s = (let first = sr_first (ch_streams st ! i);
            st1 = update_stream i (\<lambda>s. s\<lparr>sr_response := sr_response s @ data @ [10], sr_first := True\<rparr>) st
        in set_debug [(js ''sseMessages'', push_sse data st1)] (if first then st1 else st1\<lparr>ch_tab := TAB_RESPONSE\<rparr>))"
  have s: "ch_messages s = ms @ [m]" "same_rest st s"
    using assms(1) by (simp_all add: s_def Let_def same_rest_def set_debug_def update_stream_def)
  have "onSseMessage mo i data st = apply_delta (delta_of data) s" using p f by (simp add: onSseMessage_def s_def Let_def)
  moreover obtain m' where "apply_delta (delta_of data) s = Inr (s\<lparr>ch_messages := ms @ [m']\<rparr>)"
    "writing (c @ chunk_content data) (r @ chunk_reasoning data) m'"
    using apply_delta_writes [OF s(1) assms(2), of "delta_of data"] assms(3) by (auto simp: plain_chunk_def chunk_content_def chunk_reasoning_def)
  ultimately show ?thesis using s(2) by (auto simp: same_rest_def)
qed

lemma chunks_write:
  assumes "ch_messages st = ms @ [m]" and "writing c r m" and "list_all plain_chunk datas"
  shows "\<exists>st' m'. sse_run mo i (datas @ rest) st = sse_run mo i rest st' \<and> ch_messages st' = ms @ [m'] \<and> same_rest st st'
    \<and> writing (c @ concat (map chunk_content datas)) (r @ concat (map chunk_reasoning datas)) m'"
  using assms
proof (induction datas arbitrary: st m c r)
  case Nil
  then show ?case by (auto simp: same_rest_def)
next
  case (Cons d ds)
  obtain st1 m1 where 1: "onSseMessage mo i d st = Inr st1" "ch_messages st1 = ms @ [m1]" "same_rest st st1"
    "writing (c @ chunk_content d) (r @ chunk_reasoning d) m1" using chunk_writes [OF Cons.prems(1,2), of d mo i] Cons.prems(3) by auto
  from Cons.IH [OF 1(2,4)] Cons.prems(3) obtain st2 m2 where 2: "sse_run mo i (ds @ rest) st1 = sse_run mo i rest st2"
    "ch_messages st2 = ms @ [m2]" "same_rest st1 st2"
    "writing ((c @ chunk_content d) @ concat (map chunk_content ds)) ((r @ chunk_reasoning d) @ concat (map chunk_reasoning ds)) m2" by auto
  then show ?case using 1 by (auto simp: same_rest_def intro!: exI [of _ st2] exI [of _ m2])
qed

lemma complete_writing:
  assumes "ch_messages st = ms @ [m]" and "writing c r m"
  shows "\<exists>m'. complete_update mo STATUS_COMPLETE st
      = Inr (st\<lparr>ch_messages := ms @ [m'], ch_storage := saveMessages (mo_now mo) (JArr (ms @ [m'])) (ch_storage st)\<rparr>)
    \<and> msg_prop m' ''content'' = JStr c \<and> msg_prop m' ''reasoningContent'' = JStr r \<and> status_is m' STATUS_COMPLETE"
proof -
  let ?ps = "(js ''status'', JStr STATUS_COMPLETE) # applyAutoCollapseLogic m (JBool True)"
  have w: "\<not> is_nullish m" "\<not> is_finished m" "is_object m"
    using assms(2) object_truthy unfinished_not_error by (auto simp: writing_def)
  have d: "distinct (map fst ?ps)" by (simp add: collapse_keys)
  have "msg_prop (spread m ?ps) ''content'' = JStr c" "msg_prop (spread m ?ps) ''reasoningContent'' = JStr r" "status_is (spread m ?ps) STATUS_COMPLETE"
    using assms(2) by (simp_all add: spread_prop [OF w(3) d] collapse_other writing_def status_is_def)
  then show ?thesis
    using w assms(1)
    by (auto simp: complete_update_def completeMessage_def last_message_def save_list_def Let_def intro!: exI [of _ "spread m ?ps"])
qed

text \<open>
  C2: a streamed reply is what the stream carried: from a loading message on, any number of events with plain deltas, closed by
  the end mark, give one complete message whose content and reasoning are the texts of the deltas in
  their order; the earlier messages stay, and the list with the reply is saved.
\<close>

theorem streamed_reply:
  assumes "ch_messages st = ms @ [m]" and "writing [] [] m" and "list_all plain_chunk datas" and "i < length (ch_streams st)"
  shows "\<exists>st' m'. sse_run mo i (datas @ [done_mark]) st = Inr st' \<and> ch_messages st' = ms @ [m']
    \<and> msg_prop m' ''content'' = JStr (concat (map chunk_content datas))
    \<and> msg_prop m' ''reasoningContent'' = JStr (concat (map chunk_reasoning datas)) \<and> status_is m' STATUS_COMPLETE
    \<and> ch_storage st' = saveMessages (mo_now mo) (JArr (ms @ [m'])) (ch_storage st)
    \<and> ch_source st' = None \<and> sr_complete (ch_streams st' ! i)"
proof -
  obtain s m1 where 1: "sse_run mo i (datas @ [done_mark]) st = sse_run mo i [done_mark] s" "ch_messages s = ms @ [m1]" "same_rest st s"
    "writing (concat (map chunk_content datas)) (concat (map chunk_reasoning datas)) m1"
    using chunks_write [OF assms(1-3), of mo i "[done_mark]"] by auto
  define s1 where "s1 = (update_stream i (\<lambda>s. s\<lparr>sr_complete := True, sr_closed := True\<rparr>) s)\<lparr>ch_source := None\<rparr>"
  define s2 where "s2 = set_debug [(js ''response'', JStr (sr_response (ch_streams s ! i))), (js ''sseMessages'', push_sse done_mark s1),
                    (js ''isStreaming'', JBool False)] s1"
  have s2: "ch_messages s2 = ms @ [m1]" "ch_storage s2 = ch_storage st" "ch_source s2 = None" "sr_complete (ch_streams s2 ! i)"
    using 1(2,3) assms(4) by (simp_all add: s2_def s1_def same_rest_def) (simp_all add: set_debug_def update_stream_def)
  have "sse_run mo i [done_mark] s = chain (complete_update mo STATUS_COMPLETE s2) Inr"
    by (simp add: onSseMessage_def s1_def s2_def Let_def) (simp add: chain_def split: sum.splits)
  then show ?thesis using complete_writing [OF s2(1) 1(4), of mo] 1(1) s2 by auto
qed

definition loading_message :: jsval where
  "loading_message = fst (createLoadingAssistantMessage (Fin 0) 5)"

definition question :: jsval where
  "question = JObj [(js ''role'', JStr ROLE_USER), (js ''content'', JStr (js ''Hi'')), (js ''createAt'', JNum (Fin 0)), (js ''id'', JStr (js ''4''))]"

definition sample_chat :: chat_state where
  "sample_chat = \<lparr>ch_messages = [question, loading_message], ch_debug = [], ch_tab = TAB_REQUEST, ch_source = Some 0, ch_streams = [fresh_stream],
     ch_posts = [], ch_storage = saveMessages [] (JArr [question, loading_message]) empty_storage\<rparr>"

definition sample_moment :: moment where
  "sample_moment = \<lparr>mo_now = js ''now'', mo_clock = Fin 0, mo_t = id, mo_error = [], mo_stack = JUndef\<rparr>"

definition sample_chunk :: "string \<Rightarrow> string \<Rightarrow> jsstr" where
  "sample_chunk f s = map (\<lambda>c. if c = 96 then 34 else c) (js (''{`choices`:[{`delta`:{`'' @ f @ ''`:`'' @ s @ ''`}}]}''))"

lemma loading_writing: "writing [] [] loading_message"
  by (simp add: writing_def loading_message_def createLoadingAssistantMessage_def createMessage_def is_object_def is_unfinished_def obj_spread_def
      ROLE_ASSISTANT_def status_defs distinct_obj_put)

lemma sample_chunks_plain: "list_all plain_chunk [sample_chunk ''reasoning'' ''Hm'', sample_chunk ''content'' ''Hel'', sample_chunk ''content'' ''lo'']"
  by code_simp

lemma sample_texts:
  "concat (map chunk_content [sample_chunk ''reasoning'' ''Hm'', sample_chunk ''content'' ''Hel'', sample_chunk ''content'' ''lo'']) = js ''Hello''"
  "concat (map chunk_reasoning [sample_chunk ''reasoning'' ''Hm'', sample_chunk ''content'' ''Hel'', sample_chunk ''content'' ''lo'']) = js ''Hm''"
  by code_simp+

theorem streamed_reply_witness:
  "\<exists>st' m'. sse_run sample_moment 0
       [sample_chunk ''reasoning'' ''Hm'', sample_chunk ''content'' ''Hel'', sample_chunk ''content'' ''lo'', done_mark] sample_chat = Inr st'
    \<and> ch_messages st' = [question, m'] \<and> msg_prop m' ''content'' = JStr (js ''Hello'') \<and> msg_prop m' ''reasoningContent'' = JStr (js ''Hm'')
    \<and> status_is m' STATUS_COMPLETE"
proof -
  have c: "ch_messages sample_chat = [question] @ [loading_message]" "0 < length (ch_streams sample_chat)" by (simp_all add: sample_chat_def)
  from streamed_reply [OF c(1) loading_writing sample_chunks_plain c(2), of sample_moment] show ?thesis
    unfolding sample_texts by auto
qed

theorem finished_message_kept_witness:
  "\<exists>st'. net_step sample_moment (SseMessage 0 (js ''null''))
      (sample_chat\<lparr>ch_messages := [question, JObj [(js ''status'', JStr STATUS_ERROR)]]\<rparr>) = Inr st'
    \<and> ch_messages st' = [question, JObj [(js ''status'', JStr STATUS_ERROR)]] \<and> ch_storage st' = ch_storage sample_chat"
  using finished_message_kept [of "sample_chat\<lparr>ch_messages := [question, JObj [(js ''status'', JStr STATUS_ERROR)]]\<rparr>" sample_moment "SseMessage 0 (js ''null'')"]
  by (simp add: last_message_def is_finished_def status_is_def)

text \<open>The end mark of a stream throws exactly when the messages were cleared meanwhile.\<close>

lemma done_fails_iff:
  assumes "ch_messages st \<noteq> [] \<longrightarrow> \<not> is_nullish (last (ch_messages st))"
  shows "onSseMessage mo i done_mark st = Inl TypeError \<longleftrightarrow> ch_messages st = []"
  using assms by (auto simp: onSseMessage_def complete_update_def completeMessage_def last_message_def Let_def)

section \<open>Answers that come at once\<close>

lemma loading_update_storage [simp]: "ch_storage (loading_update f st) = ch_storage st"
  by (simp add: loading_update_def Let_def)

lemma request_error_storage [simp]: "ch_storage (request_error mo m c st) = ch_storage st"
  by (simp add: request_error_def)

lemma answer_storage: "ch_storage (handleNonStreamAnswer mo a st) = ch_storage st"
  by (auto simp: handleNonStreamAnswer_def Let_def split: answer_kind.splits option.splits prod.splits)

definition answer_data :: "jsstr \<Rightarrow> jsval" where
  "answer_data s = JObj [(js ''choices'', JArr [JObj [(js ''message'', JObj [(js ''content'', JStr s)])]])]"

lemma zero_index: "index_key (js ''0'') = Some 0"
  by (simp add: index_key_def js_def is_digit_def digits_val_def)

text \<open>
  A reply that does not come as a stream is never saved: with the question and a loading message saved when it was sent,
  the reply is shown as complete, but the store still holds the loading message, which the next start of the
  page completes with an empty text.
\<close>

theorem answer_not_saved:
  assumes "ch_messages st = ms @ [m]" and "writing [] [] m" and "status_is m STATUS_LOADING"
    and "loadMessages (ch_storage st) = JArr (ms @ [m])" and "reply \<noteq> []" and "\<not> str_includes reply open_tag"
  shows "\<exists>m' m''. ch_messages (handleNonStreamAnswer mo (Answered (answer_data reply)) st) = ms @ [m']
    \<and> msg_prop m' ''content'' = JStr reply \<and> status_is m' STATUS_COMPLETE
    \<and> loadMessages (ch_storage (handleNonStreamAnswer mo (Answered (answer_data reply)) st)) = JArr (ms @ [m])
    \<and> repairMessage m = Inr m'' \<and> msg_prop m'' ''content'' = JStr [] \<and> status_is m'' STATUS_COMPLETE"
proof -
  let ?ps = "(js ''content'', JStr reply) # (js ''reasoningContent'', JStr []) # (js ''status'', JStr STATUS_COMPLETE) # applyAutoCollapseLogic m (JBool True)"
  have o: "is_object m" "msg_prop m ''content'' = JStr []" "msg_prop m ''reasoningContent'' = JStr []" using assms(2) by (auto simp: writing_def)
  have d: "distinct (map fst ?ps)" by (simp add: collapse_keys)
  have "ch_messages (handleNonStreamAnswer mo (Answered (answer_data reply)) st) = ms @ [spread m ?ps]"
    using assms(1,3,5,6)
    by (simp add: handleNonStreamAnswer_def answer_data_def prop_opt_def zero_index js_or_def reply_texts_def loading_update_def last_message_def Let_def)
  moreover have "msg_prop (spread m ?ps) ''content'' = JStr reply" "status_is (spread m ?ps) STATUS_COMPLETE"
    by (simp_all add: spread_prop [OF o(1) d] status_is_def)
  moreover have "repairMessage m = Inr (spread m [(js ''status'', JStr STATUS_COMPLETE), (js ''content'', JStr []),
             (js ''reasoningContent'', JNull), (js ''isThinkingComplete'', JBool True)])" (is "_ = Inr (spread m ?qs)")
    using o by (simp add: repairMessage_def spread_def js_or_def reasoning_text_def processIncompleteThinkTags_def)
  moreover have "msg_prop (spread m ?qs) ''content'' = JStr []" "status_is (spread m ?qs) STATUS_COMPLETE"
    by (simp_all add: spread_prop [OF o(1)] status_is_def)
  ultimately show ?thesis using assms(4) answer_storage by auto
qed

theorem answer_not_saved_witness:
  "\<exists>m' m''. ch_messages (handleNonStreamAnswer sample_moment (Answered (answer_data (js ''Hello''))) sample_chat) = [question, m']
    \<and> msg_prop m' ''content'' = JStr (js ''Hello'') \<and> status_is m' STATUS_COMPLETE
    \<and> loadMessages (ch_storage (handleNonStreamAnswer sample_moment (Answered (answer_data (js ''Hello''))) sample_chat)) = JArr [question, loading_message]
    \<and> repairMessage loading_message = Inr m'' \<and> msg_prop m'' ''content'' = JStr [] \<and> status_is m'' STATUS_COMPLETE"
proof -
  have c: "ch_messages sample_chat = [question] @ [loading_message]" by (simp add: sample_chat_def)
  have "loadMessages (ch_storage sample_chat) = JArr [question, loading_message]" "status_is loading_message STATUS_LOADING" by code_simp+
  moreover have "\<not> str_includes (js ''Hello'') open_tag" by code_simp
  ultimately show ?thesis
    using answer_not_saved [OF c loading_writing _ _ _, of "js ''Hello''" sample_moment] by simp
qed

end
