(* ===== verification/PlaygroundChat.thy ===== *)
theory PlaygroundChat
  imports PlaygroundReply
begin

text \<open>
  The page of the playground, \<open>src/web/src/pages/Playground/index.jsx\<close>, with the hooks for acting on messages
  (\<open>useMessageActions.jsx\<close>), editing them (\<open>useMessageEdit.jsx\<close>) and loading models and groups (\<open>useDataLoader.js\<close>) under
  \<open>src/web/src/hooks/playground\<close>. A handler is given a message object; where the code looks for this object by
  identity, \<open>pos\<close> is the position of that very object in the current list, if it is still there. Dialogs and timers
  are kept in the state until they are answered or fire. Notices and the clipboard are left out.
\<close>

section \<open>State\<close>

text \<open>
  What a handler sees of the form: inputs, enabled parameters, whether a custom body is sent, and that body. A timer or a
  dialog keeps the values of the moment it was created.
\<close>

type_synonym settings = "(jsstr \<times> jsval) list \<times> jsval \<times> bool \<times> jsstr"

datatype timer = SendText settings jsstr | DisableImages | Regenerate settings "jsval list"

record chat_page =
  cp_chat :: chat_state
  cp_nextId :: int
  cp_inputs :: "(jsstr \<times> jsval) list"
  cp_params :: jsval
  cp_customMode :: bool
  cp_customBody :: jsstr
  cp_editId :: jsval                        \<comment> \<open>\<open>editingMessageId\<close>\<close>
  cp_editValue :: jsstr
  cp_confirm :: "(settings \<times> jsval list \<times> nat) option"  \<comment> \<open>the dialog after an edit: the edited list and the position\<close>
  cp_timers :: "timer list"
  cp_models :: "(jsstr \<times> jsstr) list"
  cp_groups :: "group_option list"

abbreviation messages_of :: "chat_page \<Rightarrow> jsval list" where
  "messages_of st \<equiv> ch_messages (cp_chat st)"

definition set_messages_of :: "jsval list \<Rightarrow> chat_page \<Rightarrow> chat_page" where
  "set_messages_of ms st = st\<lparr>cp_chat := (cp_chat st)\<lparr>ch_messages := ms\<rparr>\<rparr>"

definition save_messages_of :: "moment \<Rightarrow> jsval list \<Rightarrow> chat_page \<Rightarrow> chat_page" where
  "save_messages_of mo ms st = st\<lparr>cp_chat := save_list mo (Some ms) (cp_chat st)\<rparr>"

definition input :: "string \<Rightarrow> chat_page \<Rightarrow> jsval" where
  "input k st = msg_prop (JObj (cp_inputs st)) k"

definition send_request_of :: "moment \<Rightarrow> jsval \<Rightarrow> bool \<Rightarrow> jsstr option \<Rightarrow> chat_page \<Rightarrow> js_error + chat_page" where
  "send_request_of mo payload isStream startError st =
     chain (sendRequest mo payload isStream startError (cp_chat st)) (\<lambda>c. Inr (st\<lparr>cp_chat := c\<rparr>))"

definition settings_of :: "chat_page \<Rightarrow> settings" where
  "settings_of st = (cp_inputs st, cp_params st, cp_customMode st, cp_customBody st)"

definition use_settings :: "settings \<Rightarrow> chat_page \<Rightarrow> chat_page" where
  "use_settings w st = (case w of (inputs, params, mode, body) \<Rightarrow>
     st\<lparr>cp_inputs := inputs, cp_params := params, cp_customMode := mode, cp_customBody := body\<rparr>)"

text \<open>Runs a handler of an earlier rendering.\<close>

definition with_settings :: "settings \<Rightarrow> (chat_page \<Rightarrow> js_error + chat_page) \<Rightarrow> chat_page \<Rightarrow> js_error + chat_page" where
  "with_settings w f st = chain (f (use_settings w st)) (\<lambda>st'. Inr (use_settings (settings_of st) st'))"

lemma use_own_settings [simp]: "use_settings (settings_of st) st = st"
  by (simp add: use_settings_def settings_of_def)

section \<open>Sending\<close>

text \<open>\<open>inputs.imageUrls.filter((url) => url.trim() !== '')\<close>, on an array of texts.\<close>

definition valid_image_urls :: "jsval \<Rightarrow> js_error + jsstr list" where
  "valid_image_urls v =
     (case v of
        JArr us \<Rightarrow> if list_all (\<lambda>u. case u of JStr _ \<Rightarrow> True | _ \<Rightarrow> False) us
                   then Inr (filter (\<lambda>s. trim s \<noteq> []) (map js_to_string us)) else Inl TypeError
      | _ \<Rightarrow> Inl TypeError)"

definition payload_of :: "jsval list \<Rightarrow> chat_page \<Rightarrow> jsval" where
  "payload_of ms st = JObj (buildApiPayload ms [] (JObj (cp_inputs st)) (cp_params st))"

text \<open>
  The request is sent inside the updater of the messages. What it does to the messages, when the stream cannot be started,
  is therefore queued behind the new list, and saved after it.
\<close>

definition send_custom :: "moment \<Rightarrow> jsstr \<Rightarrow> jsstr option \<Rightarrow> chat_page \<Rightarrow> js_error + chat_page" where
  "send_custom mo content startError st =
     (let (userMessage, n1) = createMessage (mo_clock mo) (cp_nextId st) ROLE_USER (JStr content) [];
          (loadingMessage, n2) = createLoadingAssistantMessage (mo_clock mo) n1;
          st1 = st\<lparr>cp_nextId := n2\<rparr>
      in case json_parse (cp_customBody st) of
           None \<Rightarrow> Inr st1
         | Some customPayload \<Rightarrow>
             let newMessages = messages_of st @ [userMessage, loadingMessage] in
             if is_nullish customPayload then Inl TypeError
             else send_request_of mo customPayload (msg_prop customPayload ''stream'' \<noteq> JBool False) startError
                    (save_messages_of mo newMessages (set_messages_of newMessages st1)))"

definition send_default :: "moment \<Rightarrow> jsstr \<Rightarrow> jsstr option \<Rightarrow> chat_page \<Rightarrow> js_error + chat_page" where
  "send_default mo content startError st =
     (let (_, n1) = createMessage (mo_clock mo) (cp_nextId st) ROLE_USER (JStr content) [];
          (loadingMessage, n2) = createLoadingAssistantMessage (mo_clock mo) n1;
          imageEnabled = truthy (input ''imageEnabled'' st)
      in chain (valid_image_urls (input ''imageUrls'' st)) (\<lambda>urls.
           let (userMessage, n3) = createMessage (mo_clock mo) n2 ROLE_USER (buildMessageContent content urls imageEnabled) [];
               newMessages = messages_of st @ [userMessage];
               withLoading = newMessages @ [loadingMessage];
               st1 = (save_messages_of mo withLoading (set_messages_of withLoading st))\<lparr>cp_nextId := n3\<rparr>
           in chain (send_request_of mo (payload_of newMessages st) (truthy (input ''stream'' st)) startError st1) (\<lambda>st2.
                Inr (if imageEnabled then st2\<lparr>cp_timers := cp_timers st2 @ [DisableImages]\<rparr> else st2))))"

definition onMessageSend :: "moment \<Rightarrow> jsstr \<Rightarrow> jsstr option \<Rightarrow> chat_page \<Rightarrow> js_error + chat_page" where
  "onMessageSend mo content startError st =
     (if cp_customMode st \<and> cp_customBody st \<noteq> [] then send_custom mo content startError st else send_default mo content startError st)"

section \<open>Acting on messages\<close>

definition same_id :: "jsval \<Rightarrow> jsval \<Rightarrow> bool" where
  "same_id m target \<longleftrightarrow> msg_prop m ''id'' = msg_prop target ''id''"

definition role_is :: "jsval \<Rightarrow> jsstr \<Rightarrow> bool" where
  "role_is m r \<longleftrightarrow> msg_prop m ''role'' = JStr r"

definition target_index :: "nat option \<Rightarrow> jsval \<Rightarrow> jsval list \<Rightarrow> nat option" where
  "target_index pos target ms = (case pos of Some i \<Rightarrow> Some i | None \<Rightarrow> find_index (\<lambda>m. same_id m target) ms)"

text \<open>The position of the last message of the user before position \<open>i\<close>.\<close>

fun user_before :: "jsval list \<Rightarrow> nat \<Rightarrow> nat option" where
  "user_before ms 0 = None"
| "user_before ms (Suc i) = (if role_is (ms ! i) ROLE_USER then Some i else user_before ms i)"

definition handleMessageReset :: "nat option \<Rightarrow> jsval \<Rightarrow> chat_page \<Rightarrow> js_error + chat_page" where
  "handleMessageReset pos target st =
     (let ms = messages_of st;
          send_again = (\<lambda>i m. chain (getTextContent m) (\<lambda>v.
            Inr ((set_messages_of (take i ms) st)\<lparr>cp_timers := cp_timers st @ [SendText (settings_of st) (js_to_string v)]\<rparr>)))
      in case target_index pos target ms of
           None \<Rightarrow> Inr st
         | Some i \<Rightarrow>
             if role_is target ROLE_USER then send_again i target
             else if role_is target ROLE_ASSISTANT \<or> role_is target ROLE_SYSTEM then
               (case user_before ms i of None \<Rightarrow> Inr st | Some u \<Rightarrow> send_again u (ms ! u))
             else Inr st)"

definition remove_messages :: "nat \<Rightarrow> jsval \<Rightarrow> jsval list \<Rightarrow> jsval list" where
  "remove_messages i target ms =
     (if role_is target ROLE_USER \<and> i < length ms - 1 \<and> role_is (ms ! (i + 1)) ROLE_ASSISTANT
      then take i ms @ drop (i + 2) ms
      else filter (\<lambda>m. \<not> same_id m target) ms)"

text \<open>The dialog of a deletion was confirmed.\<close>

definition handleMessageDelete :: "moment \<Rightarrow> nat option \<Rightarrow> jsval \<Rightarrow> chat_page \<Rightarrow> chat_page" where
  "handleMessageDelete mo pos target st =
     (let ms = messages_of st in
      case target_index pos target ms of
        None \<Rightarrow> st
      | Some i \<Rightarrow> let updated = remove_messages i target ms in save_messages_of mo updated (set_messages_of updated st))"

definition handleRoleToggle :: "moment \<Rightarrow> jsval \<Rightarrow> chat_page \<Rightarrow> chat_page" where
  "handleRoleToggle mo target st =
     (if \<not> (role_is target ROLE_ASSISTANT \<or> role_is target ROLE_SYSTEM) then st
      else let newRole = (if role_is target ROLE_ASSISTANT then ROLE_SYSTEM else ROLE_ASSISTANT);
               updated = map (\<lambda>m. if same_id m target \<and> (role_is m ROLE_ASSISTANT \<or> role_is m ROLE_SYSTEM)
                  then spread m [(js ''role'', JStr newRole)] else m) (messages_of st)
           in save_messages_of mo updated (set_messages_of updated st))"

definition toggleReasoningExpansion :: "jsval \<Rightarrow> chat_page \<Rightarrow> chat_page" where
  "toggleReasoningExpansion messageId st =
     set_messages_of (map (\<lambda>m. if msg_prop m ''id'' = messageId \<and> role_is m ROLE_ASSISTANT
        then spread m [(js ''isReasoningExpanded'', JBool (\<not> truthy (msg_prop m ''isReasoningExpanded'')))] else m) (messages_of st)) st"

definition handleClearMessages :: "moment \<Rightarrow> chat_page \<Rightarrow> chat_page" where
  "handleClearMessages mo st = save_messages_of mo [] (set_messages_of [] st)"

section \<open>Editing\<close>

definition handleMessageEdit :: "jsval \<Rightarrow> chat_page \<Rightarrow> js_error + chat_page" where
  "handleMessageEdit target st =
     chain (getTextContent target) (\<lambda>v. Inr (st\<lparr>cp_editId := msg_prop target ''id'', cp_editValue := js_to_string v\<rparr>))"

definition handleEditCancel :: "chat_page \<Rightarrow> chat_page" where
  "handleEditCancel st = st\<lparr>cp_editId := JNull, cp_editValue := []\<rparr>"

text \<open>The text parts of a content with parts, or the whole content.\<close>

definition edited_content :: "jsstr \<Rightarrow> jsval \<Rightarrow> jsval" where
  "edited_content s content =
     (case content of
        JArr parts \<Rightarrow> JArr (map (\<lambda>p. if msg_prop p ''type'' = JStr (js ''text'') then spread p [(js ''text'', JStr s)] else p) parts)
      | _ \<Rightarrow> JStr s)"

definition edit_index :: "nat option \<Rightarrow> chat_page \<Rightarrow> nat option" where
  "edit_index pos st = (case pos of Some i \<Rightarrow> Some i | None \<Rightarrow> find_index (\<lambda>m. msg_prop m ''id'' = cp_editId st) (messages_of st))"

definition edited_messages :: "nat \<Rightarrow> chat_page \<Rightarrow> jsval list" where
  "edited_messages i st =
     (let newContent = edited_content (trim (cp_editValue st)) (msg_prop (messages_of st ! i) ''content'') in
      map (\<lambda>m. if msg_prop m ''id'' = cp_editId st then spread m [(js ''content'', newContent)] else m) (messages_of st))"

definition handleEditSave :: "moment \<Rightarrow> nat option \<Rightarrow> chat_page \<Rightarrow> js_error + chat_page" where
  "handleEditSave mo pos st =
     (if \<not> truthy (cp_editId st) \<or> trim (cp_editValue st) = [] then Inr st
      else (case edit_index pos st of
          None \<Rightarrow> Inl TypeError
        | Some i \<Rightarrow>
            let ms = messages_of st; updated = edited_messages i st;
                st1 = (if role_is (ms ! i) ROLE_USER \<and> i < length ms - 1 \<and> role_is (ms ! (i + 1)) ROLE_ASSISTANT
                       then st\<lparr>cp_confirm := Some (settings_of st, updated, i)\<rparr>
                       else save_messages_of mo updated (set_messages_of updated st))
            in Inr (handleEditCancel st1)))"

definition confirm_regenerate :: "moment \<Rightarrow> chat_page \<Rightarrow> chat_page" where
  "confirm_regenerate mo st =
     (case cp_confirm st of
        None \<Rightarrow> st
      | Some (w, updated, i) \<Rightarrow>
          let ms = take (i + 1) updated
          in (save_messages_of mo ms (set_messages_of ms st))\<lparr>cp_confirm := None, cp_timers := cp_timers st @ [Regenerate w ms]\<rparr>)"

definition confirm_save_only :: "moment \<Rightarrow> chat_page \<Rightarrow> chat_page" where
  "confirm_save_only mo st =
     (case cp_confirm st of
        None \<Rightarrow> st
      | Some (w, updated, i) \<Rightarrow> (save_messages_of mo updated (set_messages_of updated st))\<lparr>cp_confirm := None\<rparr>)"

section \<open>Timers\<close>

definition regenerate :: "moment \<Rightarrow> jsval list \<Rightarrow> jsstr option \<Rightarrow> chat_page \<Rightarrow> js_error + chat_page" where
  "regenerate mo ms startError st =
     (let (loadingMessage, n) = createLoadingAssistantMessage (mo_clock mo) (cp_nextId st)
      in send_request_of mo (payload_of ms st) (truthy (input ''stream'' st)) startError
           ((set_messages_of (messages_of st @ [loadingMessage]) st)\<lparr>cp_nextId := n\<rparr>))"

definition run_timer :: "moment \<Rightarrow> timer \<Rightarrow> jsstr option \<Rightarrow> chat_page \<Rightarrow> js_error + chat_page" where
  "run_timer mo t startError st =
     (case t of
        SendText w s \<Rightarrow> with_settings w (onMessageSend mo s startError) st
      | DisableImages \<Rightarrow> Inr (st\<lparr>cp_inputs := obj_put (js ''imageEnabled'') (JBool False) (cp_inputs st)\<rparr>)
      | Regenerate w ms \<Rightarrow> with_settings w (regenerate mo ms startError) st)"

definition timer_fires :: "moment \<Rightarrow> jsstr option \<Rightarrow> chat_page \<Rightarrow> js_error + chat_page" where
  "timer_fires mo startError st =
     (case cp_timers st of [] \<Rightarrow> Inr st | t # ts \<Rightarrow> run_timer mo t startError (st\<lparr>cp_timers := ts\<rparr>))"

section \<open>Preview\<close>

definition sample_text :: jsstr where "sample_text = [31034, 20363, 28040, 24687]"

text \<open>The last message of the user with the images that would be sent.\<close>

definition preview_messages :: "chat_page \<Rightarrow> js_error + jsval list" where
  "preview_messages st =
     (let ms = messages_of st in
      case user_before ms (length ms) of
        None \<Rightarrow> Inr ms
      | Some u \<Rightarrow>
          if truthy (input ''imageEnabled'' st) \<and> truthy (input ''imageUrls'' st) then
            chain (valid_image_urls (input ''imageUrls'' st)) (\<lambda>urls.
              if urls = [] then Inr ms
              else chain (getTextContent (ms ! u)) (\<lambda>v.
                let s = js_to_string v in
                Inr (ms[u := spread (ms ! u) [(js ''content'', buildMessageContent (if s = [] then sample_text else s) urls True)]])))
          else Inr ms)"

definition constructPreviewPayload :: "chat_page \<Rightarrow> jsval" where
  "constructPreviewPayload st =
     (let default_preview = (case preview_messages st of Inl _ \<Rightarrow> JNull | Inr ms \<Rightarrow> payload_of ms st) in
      if cp_customMode st \<and> trim (cp_customBody st) \<noteq> [] then
        (case json_parse (cp_customBody st) of Some v \<Rightarrow> v | None \<Rightarrow> default_preview)
      else default_preview)"

text \<open>The timer of the preview.\<close>

definition preview_fires :: "moment \<Rightarrow> chat_page \<Rightarrow> chat_page" where
  "preview_fires mo st =
     (let preview = constructPreviewPayload st; shown = truthy preview in
      st\<lparr>cp_chat := set_debug
        [(js ''previewRequest'', if shown then (case json_pretty 0 preview of Some s \<Rightarrow> JStr s | None \<Rightarrow> JUndef) else JNull),
         (js ''previewTimestamp'', if shown then JStr (mo_now mo) else JNull)] (cp_chat st)\<rparr>)"

section \<open>Models and groups\<close>

text \<open>
  An answer of the server: the data, a refusal, or an exception. The function \<open>showError\<close> that the failure branches
  call is not imported, so they throw.
\<close>

datatype 'a load_answer = Loaded 'a | NotLoaded

definition not_defined :: js_error where
  "not_defined = ErrorMsg (js ''showError is not defined'')"

definition change_input :: "string \<Rightarrow> jsval \<Rightarrow> chat_page \<Rightarrow> chat_page" where
  "change_input k v st = st\<lparr>cp_inputs := obj_put (js k) v (cp_inputs st)\<rparr>"

definition loadModels :: "jsstr list load_answer \<Rightarrow> chat_page \<Rightarrow> js_error + chat_page" where
  "loadModels a st =
     (case a of
        NotLoaded \<Rightarrow> Inl not_defined
      | Loaded data \<Rightarrow>
          let current = input ''model'' st;
              (modelOptions, selected) = processModelsData data (js_to_string current);
              selectedModel = (case selected of None \<Rightarrow> JUndef | Some s \<Rightarrow> JStr s);
              st1 = st\<lparr>cp_models := modelOptions\<rparr>
          in Inr (if selectedModel \<noteq> current then change_input ''model'' selectedModel st1 else st1))"

definition loadGroups :: "(jsstr \<times> jsstr \<times> jsval) list load_answer \<Rightarrow> jsstr \<Rightarrow> chat_page \<Rightarrow> js_error + chat_page" where
  "loadGroups a userGroup st =
     (case a of
        NotLoaded \<Rightarrow> Inl not_defined
      | Loaded data \<Rightarrow>
          let groupOptions = processGroupsData data userGroup; st1 = st\<lparr>cp_groups := groupOptions\<rparr>
          in Inr (if list_ex (\<lambda>g. JStr (go_value g) = input ''group'' st) groupOptions then st1
                  else change_input ''group'' (JStr (case groupOptions of [] \<Rightarrow> [] | g # _ \<Rightarrow> go_value g)) st1))"

text \<open>Pasting an image; the addresses are an array or absent.\<close>

definition handlePasteImage :: "jsval \<Rightarrow> chat_page \<Rightarrow> chat_page" where
  "handlePasteImage base64Data st =
     (if \<not> truthy (input ''imageEnabled'' st) then st
      else change_input ''imageUrls'' (JArr ((case input ''imageUrls'' st of JArr us \<Rightarrow> us | _ \<Rightarrow> []) @ [base64Data])) st)"

section \<open>Deleting\<close>

lemma filter_other_id:
  assumes "distinct (map (\<lambda>m. msg_prop m ''id'') ms)" and "i < length ms"
  shows "filter (\<lambda>m. \<not> same_id m (ms ! i)) ms = take i ms @ drop (Suc i) ms"
proof -
  let ?id = "\<lambda>m. msg_prop m ''id''"
  have e: "ms = take i ms @ ms ! i # drop (Suc i) ms" using assms(2) by (rule id_take_nth_drop)
  then have "distinct (map ?id (take i ms @ ms ! i # drop (Suc i) ms))" using assms(1) by metis
  then have "?id (ms ! i) \<notin> ?id ` set (take i ms)" "?id (ms ! i) \<notin> ?id ` set (drop (Suc i) ms)" by auto
  then have a: "filter (\<lambda>m. \<not> same_id m (ms ! i)) (take i ms) = take i ms" "filter (\<lambda>m. \<not> same_id m (ms ! i)) (drop (Suc i) ms) = drop (Suc i) ms"
    unfolding filter_id_conv same_id_def by (metis (no_types, lifting) imageI)+
  have "filter (\<lambda>m. \<not> same_id m (ms ! i)) (take i ms @ ms ! i # drop (Suc i) ms) = take i ms @ drop (Suc i) ms"
    using a by (simp add: same_id_def)
  then show ?thesis using e by metis
qed

text \<open>
  With different identifiers, deleting removes the chosen message, and with a question also the reply right after it,
  and nothing else; the stored list is the one that is shown.
\<close>

theorem delete_exact:
  assumes "distinct (map (\<lambda>m. msg_prop m ''id'') (messages_of st))" and "i < length (messages_of st)"
  shows "let ms = messages_of st;
             n = (if role_is (ms ! i) ROLE_USER \<and> Suc i < length ms \<and> role_is (ms ! Suc i) ROLE_ASSISTANT then 2 else 1);
             kept = take i ms @ drop (i + n) ms
         in messages_of (handleMessageDelete mo (Some i) (ms ! i) st) = kept
          \<and> ch_storage (cp_chat (handleMessageDelete mo (Some i) (ms ! i) st)) = saveMessages (mo_now mo) (JArr kept) (ch_storage (cp_chat st))"
proof -
  let ?ms = "messages_of st"
  have "remove_messages i (?ms ! i) ?ms
      = take i ?ms @ drop (i + (if role_is (?ms ! i) ROLE_USER \<and> Suc i < length ?ms \<and> role_is (?ms ! Suc i) ROLE_ASSISTANT then 2 else 1)) ?ms"
    using filter_other_id [OF assms] by (auto simp: remove_messages_def less_diff_conv)
  then show ?thesis
    by (simp add: handleMessageDelete_def target_index_def save_messages_of_def set_messages_of_def save_list_def Let_def)
qed

section \<open>Regenerating\<close>

lemma send_keeps:
  assumes "getUserIdFromLocalStorage (ch_storage c) = Inr uid"
  shows "\<exists>c'. sendRequest mo payload stream None c = Inr c' \<and> ch_messages c' = ch_messages c \<and> ch_storage c' = ch_storage c
    \<and> ch_posts c' = ch_posts c @ [(payload, stream)]"
  using assms by (auto simp: sendRequest_def handleSSE_def handleNonStreamRequest_def Let_def set_debug_def)

lemma user_id_kept: "getUserIdFromLocalStorage (saveMessages now ms st) = getUserIdFromLocalStorage st"
proof -
  have "js ''user'' \<noteq> KEY_MESSAGES" by (simp add: KEY_MESSAGES_def)
  then have "getItem (js ''user'') (saveMessages now ms st) = getItem (js ''user'') st" by (simp add: saveMessages_def store_object_other)
  then show ?thesis by (simp add: getUserIdFromLocalStorage_def)
qed

lemma message_simps:
  "snd (createMessage now n r c []) = n + 1" "msg_prop (fst (createMessage now n r c [])) ''role'' = JStr r"
  "msg_prop (fst (createMessage now n r c [])) ''content'' = c" "msg_prop (fst (createMessage now n r c [])) ''id'' = JStr (show_nat n)"
  "snd (createLoadingAssistantMessage now n) = n + 1"
  by (simp_all add: createMessage_def createLoadingAssistantMessage_def obj_spread_def)

lemma fresh_writing: "writing [] [] (fst (createLoadingAssistantMessage now n))"
  by (simp add: writing_def createLoadingAssistantMessage_def createMessage_def is_object_def is_unfinished_def obj_spread_def
      ROLE_ASSISTANT_def status_defs distinct_obj_put)

lemma plain_content: "buildMessageContent s urls False = JStr s"
  by (simp add: buildMessageContent_def Let_def)

text \<open>A text sent without images, as the state after it.\<close>

definition sent_question :: "moment \<Rightarrow> jsstr \<Rightarrow> chat_page \<Rightarrow> jsval" where
  "sent_question mo s st = fst (createMessage (mo_clock mo) (cp_nextId st + 2) ROLE_USER (JStr s) [])"

definition sent_loading :: "moment \<Rightarrow> chat_page \<Rightarrow> jsval" where
  "sent_loading mo st = fst (createLoadingAssistantMessage (mo_clock mo) (cp_nextId st + 1))"

lemma send_text:
  assumes "\<not> cp_customMode st" and "\<not> truthy (input ''imageEnabled'' st)" and "valid_image_urls (input ''imageUrls'' st) = Inr urls"
    and "getUserIdFromLocalStorage (ch_storage (cp_chat st)) = Inr uid"
  shows "\<exists>st'. onMessageSend mo s None st = Inr st' \<and> messages_of st' = messages_of st @ [sent_question mo s st, sent_loading mo st]
    \<and> ch_posts (cp_chat st') = ch_posts (cp_chat st) @ [(payload_of (messages_of st @ [sent_question mo s st]) st, truthy (input ''stream'' st))]
    \<and> ch_storage (cp_chat st') = saveMessages (mo_now mo) (JArr (messages_of st @ [sent_question mo s st, sent_loading mo st])) (ch_storage (cp_chat st))
    \<and> settings_of st' = settings_of st"
proof -
  let ?ms = "messages_of st @ [sent_question mo s st, sent_loading mo st]"
  let ?st1 = "(save_messages_of mo ?ms (set_messages_of ?ms st))\<lparr>cp_nextId := cp_nextId st + 3\<rparr>"
  obtain c where c: "sendRequest mo (payload_of (messages_of st @ [sent_question mo s st]) st) (truthy (input ''stream'' st)) None (cp_chat ?st1) = Inr c"
    "ch_messages c = ?ms" "ch_storage c = saveMessages (mo_now mo) (JArr ?ms) (ch_storage (cp_chat st))"
    "ch_posts c = ch_posts (cp_chat st) @ [(payload_of (messages_of st @ [sent_question mo s st]) st, truthy (input ''stream'' st))]"
    using send_keeps [of "cp_chat ?st1" uid mo "payload_of (messages_of st @ [sent_question mo s st]) st" "truthy (input ''stream'' st)"] assms(4)
    by (auto simp: save_messages_of_def save_list_def set_messages_of_def user_id_kept)
  have "onMessageSend mo s None st = Inr (?st1\<lparr>cp_chat := c\<rparr>)"
    using c(1) assms(1-3)
    by (simp add: onMessageSend_def send_default_def send_request_of_def case_prod_beta message_simps plain_content sent_question_def sent_loading_def Let_def
        add.commute [of 2] add.commute [of 3])
  then show ?thesis using c(2-4) by (simp add: save_messages_of_def save_list_def set_messages_of_def settings_of_def)
qed

text \<open>
  Regenerating a reply: the messages from its question on are dropped, and the text of the question is sent again, so
  that the list is the conversation before it with the question and a loading reply. Only the text is sent again: images
  of the question are lost, since sending it had switched images off.
\<close>

theorem regenerated_reply:
  assumes "role_is target ROLE_ASSISTANT" and "user_before (messages_of st) i = Some u" and "getTextContent (messages_of st ! u) = Inr (JStr s)"
    and "cp_timers st = []" and "\<not> cp_customMode st" and "\<not> truthy (input ''imageEnabled'' st)"
    and "valid_image_urls (input ''imageUrls'' st) = Inr urls" and "getUserIdFromLocalStorage (ch_storage (cp_chat st)) = Inr uid"
  shows "\<exists>st1 st2 q l. handleMessageReset (Some i) target st = Inr st1 \<and> messages_of st1 = take u (messages_of st)
    \<and> timer_fires mo None st1 = Inr st2 \<and> messages_of st2 = take u (messages_of st) @ [q, l]
    \<and> role_is q ROLE_USER \<and> msg_prop q ''content'' = JStr s \<and> writing [] [] l
    \<and> ch_posts (cp_chat st2) = ch_posts (cp_chat st) @ [(payload_of (take u (messages_of st) @ [q]) st, truthy (input ''stream'' st))]"
proof -
  define st1 where "st1 = (set_messages_of (take u (messages_of st)) st)\<lparr>cp_timers := [SendText (settings_of st) s]\<rparr>"
  define st0 where "st0 = st1\<lparr>cp_timers := []\<rparr>"
  have r: "ROLE_ASSISTANT \<noteq> ROLE_USER" by (simp add: ROLE_ASSISTANT_def ROLE_USER_def)
  then have 1: "handleMessageReset (Some i) target st = Inr st1"
    using assms(1-4) by (simp add: handleMessageReset_def target_index_def role_is_def st1_def Let_def)
  have i: "input k st0 = input k st" for k by (simp add: input_def st0_def st1_def set_messages_of_def)
  have m: "messages_of st0 = take u (messages_of st)" "cp_chat st0 = (cp_chat st)\<lparr>ch_messages := take u (messages_of st)\<rparr>"
    by (simp_all add: st0_def st1_def set_messages_of_def)
  have "\<not> cp_customMode st0" using assms(5) by (simp add: st0_def st1_def set_messages_of_def)
  moreover have "\<not> truthy (input ''imageEnabled'' st0)" "valid_image_urls (input ''imageUrls'' st0) = Inr urls"
    using assms(6,7) i by simp_all
  moreover have "getUserIdFromLocalStorage (ch_storage (cp_chat st0)) = Inr uid" using assms(8) m(2) by simp
  ultimately obtain st2 where 2: "onMessageSend mo s None st0 = Inr st2" "messages_of st2 = messages_of st0 @ [sent_question mo s st0, sent_loading mo st0]"
    "ch_posts (cp_chat st2) = ch_posts (cp_chat st0) @ [(payload_of (messages_of st0 @ [sent_question mo s st0]) st0, truthy (input ''stream'' st0))]" "settings_of st2 = settings_of st0"
    using send_text by blast
  have "settings_of st0 = settings_of st" by (simp add: settings_of_def st0_def st1_def set_messages_of_def)
  with 2(1,4) have "with_settings (settings_of st) (onMessageSend mo s None) st0 = Inr st2" by (metis with_settings_def use_own_settings chain_simps(1))
  then have "timer_fires mo None st1 = Inr st2" by (simp add: timer_fires_def run_timer_def st0_def st1_def)
  moreover have "payload_of ms st0 = payload_of ms st" for ms by (simp add: payload_of_def st0_def st1_def set_messages_of_def)
  moreover have "role_is (sent_question mo s st0) ROLE_USER" "msg_prop (sent_question mo s st0) ''content'' = JStr s" "writing [] [] (sent_loading mo st0)"
    using fresh_writing by (simp_all add: role_is_def sent_question_def sent_loading_def message_simps)
  moreover have "messages_of st1 = take u (messages_of st)" by (simp add: st1_def set_messages_of_def)
  ultimately show ?thesis using 1 2 m i by auto
qed

section \<open>Identifiers after a reload\<close>

text \<open>
  The counter of identifiers starts at 4 whenever the page is loaded, but stored messages keep theirs. In a reloaded
  conversation with a message of identifier 6, the next question gets the same identifier, and editing that question
  and saving it replaces the text of the old message too.
\<close>

theorem edit_after_reload:
  assumes "cp_nextId st = 4" and "j < length (messages_of st)" and "is_object (messages_of st ! j)" and "msg_prop (messages_of st ! j) ''id'' = JStr (js ''6'')"
    and "\<not> cp_customMode st" and "\<not> truthy (input ''imageEnabled'' st)"
    and "valid_image_urls (input ''imageUrls'' st) = Inr urls" and "getUserIdFromLocalStorage (ch_storage (cp_chat st)) = Inr uid"
    and "trim new = new" and "new \<noteq> []"
  shows "\<exists>st1 st2 st3. onMessageSend mo s None st = Inr st1
    \<and> handleMessageEdit (messages_of st1 ! length (messages_of st)) st1 = Inr st2
    \<and> handleEditSave mo (Some (length (messages_of st))) (st2\<lparr>cp_editValue := new\<rparr>) = Inr st3
    \<and> msg_prop (messages_of (confirm_save_only mo st3) ! j) ''content'' = JStr new"
proof -
  let ?n = "length (messages_of st)" and ?q = "sent_question mo s st" and ?l = "sent_loading mo st"
  obtain st1 where 1: "onMessageSend mo s None st = Inr st1" "messages_of st1 = messages_of st @ [?q, ?l]" using send_text [OF assms(5-8)] by blast
  have nth: "messages_of st1 ! ?n = ?q" "messages_of st1 ! Suc ?n = ?l" "length (messages_of st1) = Suc (Suc ?n)" "messages_of st1 ! j = messages_of st ! j"
    using 1(2) assms(2) by (simp_all add: nth_append)
  have six: "show_nat 6 = js ''6''" by code_simp
  have q: "msg_prop ?q ''id'' = JStr (js ''6'')" "msg_prop ?q ''content'' = JStr s" "role_is ?q ROLE_USER" "role_is ?l ROLE_ASSISTANT"
    using fresh_writing [of "mo_clock mo" "cp_nextId st + 1"]
    by (simp_all add: sent_question_def sent_loading_def message_simps assms(1) six role_is_def writing_def)
  have "getTextContent ?q = Inr (JStr s)"
    using q(2) by (cases "s = []") (simp_all add: getTextContent_def sent_question_def createMessage_def obj_spread_def)
  then have 2: "handleMessageEdit (messages_of st1 ! ?n) st1 = Inr (st1\<lparr>cp_editId := JStr (js ''6''), cp_editValue := s\<rparr>)"
    by (simp add: handleMessageEdit_def nth q(1))
  define st2 where "st2 = st1\<lparr>cp_editId := JStr (js ''6''), cp_editValue := new\<rparr>"
  have m2: "messages_of st2 = messages_of st1" "cp_editId st2 = JStr (js ''6'')" "cp_editValue st2 = new" by (simp_all add: st2_def)
  have 3: "handleEditSave mo (Some ?n) st2 = Inr (handleEditCancel (st2\<lparr>cp_confirm := Some (settings_of st2, edited_messages ?n st2, ?n)\<rparr>))"
    using assms(9,10) q nth by (simp add: handleEditSave_def edit_index_def m2 Let_def js_def)
  have "edited_messages ?n st2 ! j = spread (messages_of st ! j) [(js ''content'', JStr new)]"
    using assms(2,4,9) nth q by (simp add: edited_messages_def m2 edited_content_def Let_def)
  then have "msg_prop (edited_messages ?n st2 ! j) ''content'' = JStr new" using assms(3) by (simp add: spread_prop)
  then have "msg_prop (messages_of (confirm_save_only mo (handleEditCancel (st2\<lparr>cp_confirm := Some (settings_of st2, edited_messages ?n st2, ?n)\<rparr>))) ! j) ''content'' = JStr new"
    by (simp add: confirm_save_only_def handleEditCancel_def save_messages_of_def set_messages_of_def save_list_def)
  moreover have "st1\<lparr>cp_editId := JStr (js ''6''), cp_editValue := s\<rparr>\<lparr>cp_editValue := new\<rparr> = st2" by (simp add: st2_def)
  ultimately show ?thesis using 1(1) 2 3 by metis
qed

section \<open>A conversation\<close>

definition old_message :: "string \<Rightarrow> jsstr \<Rightarrow> string \<Rightarrow> jsval" where
  "old_message n r s = JObj [(js ''role'', JStr r), (js ''content'', JStr (js s)), (js ''id'', JStr (js n))]"

definition sample_page :: chat_page where
  "sample_page = \<lparr>cp_chat = sample_chat\<lparr>ch_messages := [old_message ''6'' ROLE_USER ''Why?'', old_message ''5'' ROLE_ASSISTANT ''So.'']\<rparr>,
     cp_nextId = 4, cp_inputs = DEFAULT_INPUTS, cp_params = JObj DEFAULT_PARAMETERS, cp_customMode = False, cp_customBody = [],
     cp_editId = JNull, cp_editValue = [], cp_confirm = None, cp_timers = [], cp_models = [], cp_groups = []\<rparr>"

lemma sample_page_inputs:
  "\<not> truthy (input ''imageEnabled'' sample_page)" "valid_image_urls (input ''imageUrls'' sample_page) = Inr []"
  "getUserIdFromLocalStorage (ch_storage (cp_chat sample_page)) = Inr (JNum (Fin (- 1)))"
proof -
  show "\<not> truthy (input ''imageEnabled'' sample_page)" "valid_image_urls (input ''imageUrls'' sample_page) = Inr []"
    by (simp_all add: input_def sample_page_def DEFAULT_INPUTS_def valid_image_urls_def trim_trimmed trimmed_def)
  have "js ''user'' \<noteq> KEY_MESSAGES" by (simp add: KEY_MESSAGES_def)
  then have "getItem (js ''user'') (saveMessages [] ms empty_storage) = None" for ms
    using store_object_other by (simp add: saveMessages_def) (simp add: getItem_def empty_storage_def)
  then show "getUserIdFromLocalStorage (ch_storage (cp_chat sample_page)) = Inr (JNum (Fin (- 1)))"
    by (simp add: getUserIdFromLocalStorage_def sample_page_def sample_chat_def)
qed

theorem delete_exact_witness:
  "messages_of (handleMessageDelete sample_moment (Some 0) (old_message ''6'' ROLE_USER ''Why?'') sample_page) = []"
  using delete_exact [of sample_page 0 sample_moment] by (simp add: sample_page_def old_message_def role_is_def Let_def)

theorem regenerated_reply_witness:
  "\<exists>st1 st2 q l. handleMessageReset (Some 1) (old_message ''5'' ROLE_ASSISTANT ''So.'') sample_page = Inr st1
    \<and> timer_fires sample_moment None st1 = Inr st2 \<and> messages_of st2 = [q, l] \<and> msg_prop q ''content'' = JStr (js ''Why?'')"
proof -
  have "user_before (messages_of sample_page) 1 = Some 0" "role_is (old_message ''5'' ROLE_ASSISTANT ''So.'') ROLE_ASSISTANT"
    "getTextContent (messages_of sample_page ! 0) = Inr (JStr (js ''Why?''))" "cp_timers sample_page = []" "\<not> cp_customMode sample_page"
    by (simp_all add: sample_page_def old_message_def role_is_def getTextContent_def)
  from regenerated_reply [OF this(2,1,3-5) sample_page_inputs, of sample_moment] show ?thesis by auto
qed

theorem edit_after_reload_witness:
  "\<exists>st1 st2 st3. onMessageSend sample_moment (js ''How?'') None sample_page = Inr st1 \<and> handleMessageEdit (messages_of st1 ! 2) st1 = Inr st2
    \<and> handleEditSave sample_moment (Some 2) (st2\<lparr>cp_editValue := js ''When?''\<rparr>) = Inr st3
    \<and> msg_prop (messages_of (confirm_save_only sample_moment st3) ! 0) ''content'' = JStr (js ''When?'')"
proof -
  have "trim (js ''When?'') = js ''When?''" by (rule trim_trimmed) (simp add: trimmed_def js_def js_ws_def)
  moreover have "cp_nextId sample_page = 4" "0 < length (messages_of sample_page)" "is_object (messages_of sample_page ! 0)"
    "msg_prop (messages_of sample_page ! 0) ''id'' = JStr (js ''6'')" "\<not> cp_customMode sample_page" "length (messages_of sample_page) = 2"
    by (simp_all add: sample_page_def old_message_def is_object_def)
  ultimately show ?thesis
    using edit_after_reload [OF _ _ _ _ _ sample_page_inputs, of 0 "js ''When?''" sample_moment "js ''How?''"] by simp
qed

end
