(* ===== verification/Passkey.thy ===== *)
theory Passkey
  imports JsValue "HOL-Library.Word"
begin

text \<open>
  Passkeys, \<open>src/web/src/helpers/passkey.js\<close>: the base64url codec between the byte buffers of the
  browser's WebAuthn interface and the texts of the server, and the conversion of options and
  results. Buffers are lists of 8-bit words; \<open>btoa\<close> and \<open>atob\<close> are the browser's functions on
  binary strings, written out after their standard.
\<close>

section \<open>Base64\<close>

type_synonym byte = "8 word"

definition b64_char :: "int \<Rightarrow> int" where
  "b64_char n = (if n < 26 then n + 65 else if n < 52 then n + 71 else if n < 62 then n - 4 else if n = 62 then 43 else 47)"

definition b64_value :: "int \<Rightarrow> int option" where
  "b64_value c =
     (if 65 \<le> c \<and> c \<le> 90 then Some (c - 65) else if 97 \<le> c \<and> c \<le> 122 then Some (c - 71)
      else if 48 \<le> c \<and> c \<le> 57 then Some (c + 4) else if c = 43 then Some 62 else if c = 47 then Some 63 else None)"

fun sextets :: "byte list \<Rightarrow> int list" where
  "sextets [] = []"
| "sextets [a] = [uint a div 4, uint a mod 4 * 16]"
| "sextets [a, b] = [uint a div 4, uint a mod 4 * 16 + uint b div 16, uint b mod 16 * 4]"
| "sextets (a # b # c # bs) =
     uint a div 4 # (uint a mod 4 * 16 + uint b div 16) # (uint b mod 16 * 4 + uint c div 64) # (uint c mod 64) # sextets bs"

text \<open>The leftover bits of an incomplete group are discarded.\<close>

fun bytes_of :: "int list \<Rightarrow> byte list" where
  "bytes_of (p # q # r # s # ss) =
     word_of_int (p * 4 + q div 16) # word_of_int (q mod 16 * 16 + r div 4) # word_of_int (r mod 4 * 64 + s) # bytes_of ss"
| "bytes_of [p, q, r] = [word_of_int (p * 4 + q div 16), word_of_int (q mod 16 * 16 + r div 4)]"
| "bytes_of [p, q] = [word_of_int (p * 4 + q div 16)]"
| "bytes_of _ = []"

abbreviation pad_char :: int where "pad_char \<equiv> 61"

definition btoa :: "byte list \<Rightarrow> jsstr" where
  "btoa bs = map b64_char (sextets bs) @ replicate ((3 - length bs mod 3) mod 3) pad_char"

definition ascii_ws :: "int \<Rightarrow> bool" where
  "ascii_ws c \<longleftrightarrow> c \<in> {9, 10, 12, 13, 32}"

definition drop_padding :: "jsstr \<Rightarrow> jsstr" where
  "drop_padding s =
     (if length s mod 4 \<noteq> 0 then s
      else if endsWith s [pad_char, pad_char] then take (length s - 2) s
      else if endsWith s [pad_char] then take (length s - 1) s else s)"

definition atob :: "jsstr \<Rightarrow> byte list option" where
  "atob text =
     (let s = drop_padding (filter (\<lambda>c. \<not> ascii_ws c) text) in
      if length s mod 4 = 1 \<or> \<not> list_all (\<lambda>c. b64_value c \<noteq> None) s then None
      else Some (bytes_of (map (\<lambda>c. the (b64_value c)) s)))"

section \<open>The codec\<close>

definition to_base64 :: "int \<Rightarrow> int" where  \<comment> \<open>\<open>.replace(/-/g, '+').replace(/_/g, '/')\<close>\<close>
  "to_base64 c = (if c = 45 then 43 else if c = 95 then 47 else c)"

definition to_url :: "int \<Rightarrow> int" where  \<comment> \<open>\<open>.replace(/\+/g, '-').replace(/\//g, '_')\<close>\<close>
  "to_url c = (if c = 43 then 45 else if c = 47 then 95 else c)"

definition strip_padding :: "jsstr \<Rightarrow> jsstr" where  \<comment> \<open>\<open>.replace(/=+$/g, '')\<close>\<close>
  "strip_padding s = rev (dropWhile (\<lambda>c. c = pad_char) (rev s))"

definition base64UrlToBuffer :: "jsstr \<Rightarrow> js_error + byte list" where
  "base64UrlToBuffer base64url =
     (if base64url = [] then Inr []
      else let padding = replicate ((4 - length base64url mod 4) mod 4) pad_char in
        (case atob (map to_base64 (base64url @ padding)) of
           None \<Rightarrow> Inl (ErrorMsg (js ''InvalidCharacterError''))
         | Some raw \<Rightarrow> Inr raw))"

definition bufferToBase64Url :: "byte list option \<Rightarrow> jsstr" where
  "bufferToBase64Url buffer =
     (case buffer of None \<Rightarrow> [] | Some bs \<Rightarrow> strip_padding (map to_url (btoa bs)))"

section \<open>Options and results\<close>

text \<open>A value whose fields may be buffers.\<close>

datatype wval = Plain jsval | Buffer "byte list" | Fields "(jsstr \<times> wval) list" | Items "wval list"

text \<open>
  A field of the server's options. Falsy values give the empty buffer; a value that is no string is
  converted to one when the padding is appended, and has a length of its own only if it is an array.
\<close>

definition field_buffer :: "jsval \<Rightarrow> js_error + byte list" where
  "field_buffer v =
     (if \<not> truthy v then Inr []
      else (case v of
              JStr s \<Rightarrow> base64UrlToBuffer s
            | _ \<Rightarrow> let padding = (case v of JArr vs \<Rightarrow> replicate ((4 - length vs mod 4) mod 4) pad_char | _ \<Rightarrow> []) in
                (case atob (map to_base64 (js_to_string v @ padding)) of
                   None \<Rightarrow> Inl (ErrorMsg (js ''InvalidCharacterError''))
                 | Some raw \<Rightarrow> Inr raw)))"

definition plain_fields :: "jsval \<Rightarrow> (jsstr \<times> wval) list" where
  "plain_fields v = map (\<lambda>(k, w). (k, Plain w)) (entries v)"

definition public_key_options :: "jsval \<Rightarrow> jsval" where
  "public_key_options payload =
     js_or (js_or (js_or (prop_opt payload (js ''publicKey'')) (prop_opt payload (js ''PublicKey'')))
       (prop_opt payload (js ''response''))) (prop_opt payload (js ''Response''))"

text \<open>The credentials of a list, each with its \<open>id\<close> decoded.\<close>

fun decode_credentials :: "jsval list \<Rightarrow> js_error + wval list" where
  "decode_credentials [] = Inr []"
| "decode_credentials (item # items) =
     (case js_get item (js ''id'') of
        Inl e \<Rightarrow> Inl e
      | Inr v \<Rightarrow> (case field_buffer v of
            Inl e \<Rightarrow> Inl e
          | Inr b \<Rightarrow> (case decode_credentials items of
                Inl e \<Rightarrow> Inl e
              | Inr ws \<Rightarrow> Inr (Fields (obj_put (js ''id'') (Buffer b) (plain_fields item)) # ws))))"

definition with_credentials :: "jsstr \<Rightarrow> jsval \<Rightarrow> (jsstr \<times> wval) list \<Rightarrow> js_error + (jsstr \<times> wval) list" where
  "with_credentials key options publicKey =
     (case js_prop options key of
        JArr items \<Rightarrow> (case decode_credentials items of
            Inl e \<Rightarrow> Inl e
          | Inr ws \<Rightarrow> Inr (obj_put key (Items ws) publicKey))
      | _ \<Rightarrow> Inr publicKey)"

definition no_registration_options :: jsstr where
  "no_registration_options = [26080, 27861, 20174, 26381, 21153, 31471, 21709, 24212, 20013, 35299, 26512] @ js '' Passkey '' @ [27880, 20876, 21442, 25968]"

definition no_login_options :: jsstr where
  "no_login_options = [26080, 27861, 20174, 26381, 21153, 31471, 21709, 24212, 20013, 35299, 26512] @ js '' Passkey '' @ [30331, 24405, 21442, 25968]"

definition prepareCredentialCreationOptions :: "jsval \<Rightarrow> js_error + (jsstr \<times> wval) list" where
  "prepareCredentialCreationOptions payload =
     (let options = public_key_options payload; user = js_prop options (js ''user'') in
      if \<not> truthy options then Inl (ErrorMsg no_registration_options)
      else (case field_buffer (js_prop options (js ''challenge'')) of
          Inl e \<Rightarrow> Inl e
        | Inr challenge \<Rightarrow> (case field_buffer (prop_opt user (js ''id'')) of
              Inl e \<Rightarrow> Inl e
            | Inr userId \<Rightarrow>
                let publicKey = obj_put (js ''user'') (Fields (obj_put (js ''id'') (Buffer userId) (plain_fields user)))
                      (obj_put (js ''challenge'') (Buffer challenge) (plain_fields options))
                in (case with_credentials (js ''excludeCredentials'') options publicKey of
                      Inl e \<Rightarrow> Inl e
                    | Inr pk \<Rightarrow> Inr (if js_prop options (js ''attestationFormats'') = JArr []
                                    then obj_delete (js ''attestationFormats'') pk else pk)))))"

definition prepareCredentialRequestOptions :: "jsval \<Rightarrow> js_error + (jsstr \<times> wval) list" where
  "prepareCredentialRequestOptions payload =
     (let options = public_key_options payload in
      if \<not> truthy options then Inl (ErrorMsg no_login_options)
      else (case field_buffer (js_prop options (js ''challenge'')) of
          Inl e \<Rightarrow> Inl e
        | Inr challenge \<Rightarrow>
            with_credentials (js ''allowCredentials'') options (obj_put (js ''challenge'') (Buffer challenge) (plain_fields options))))"

text \<open>
  What the authenticator returns. A buffer may be missing; \<open>cr_transports\<close> and \<open>cr_extensions\<close> are
  the results of the two methods, \<open>None\<close> where the browser has no such method.
\<close>

record credential =
  cr_id :: jsval
  cr_rawId :: "byte list option"
  cr_type :: jsval
  cr_attachment :: jsval
  cr_clientDataJSON :: "byte list option"
  cr_extensions :: "jsval option"

record attestation = credential +
  at_attestationObject :: "byte list option"
  at_transports :: "jsval option"

record assertion = credential +
  as_authenticatorData :: "byte list option"
  as_signature :: "byte list option"
  as_userHandle :: "byte list option"

definition extension_results :: "'a credential_scheme \<Rightarrow> jsval" where
  "extension_results c =
     (case cr_extensions c of None \<Rightarrow> JObj [] | Some v \<Rightarrow> if is_nullish v then JObj [] else v)"

definition credential_result :: "'a credential_scheme \<Rightarrow> (jsstr \<times> jsval) list \<Rightarrow> jsval" where
  "credential_result c response =
     JObj [(js ''id'', cr_id c), (js ''rawId'', JStr (bufferToBase64Url (cr_rawId c))), (js ''type'', cr_type c),
           (js ''authenticatorAttachment'', cr_attachment c), (js ''response'', JObj response),
           (js ''clientExtensionResults'', extension_results c)]"

definition buildRegistrationResult :: "attestation option \<Rightarrow> jsval" where
  "buildRegistrationResult c =
     (case c of
        None \<Rightarrow> JNull
      | Some a \<Rightarrow> credential_result a
          [(js ''attestationObject'', JStr (bufferToBase64Url (at_attestationObject a))),
           (js ''clientDataJSON'', JStr (bufferToBase64Url (cr_clientDataJSON a))),
           (js ''transports'', case at_transports a of None \<Rightarrow> JUndef | Some v \<Rightarrow> v)])"

definition buildAssertionResult :: "assertion option \<Rightarrow> jsval" where
  "buildAssertionResult c =
     (case c of
        None \<Rightarrow> JNull
      | Some a \<Rightarrow> credential_result a
          [(js ''authenticatorData'', JStr (bufferToBase64Url (as_authenticatorData a))),
           (js ''clientDataJSON'', JStr (bufferToBase64Url (cr_clientDataJSON a))),
           (js ''signature'', JStr (bufferToBase64Url (as_signature a))),
           (js ''userHandle'', case as_userHandle a of None \<Rightarrow> JNull | Some b \<Rightarrow> JStr (bufferToBase64Url (Some b)))])"

text \<open>
  The browser's support: whether it knows passkeys at all, and the outcomes of its two queries, \<open>None\<close>
  for a missing method and \<open>Inl\<close> for a rejected promise.
\<close>

record passkey_support =
  sp_available :: bool
  sp_conditional :: "(unit + jsval) option"
  sp_platform :: "(unit + jsval) option"

definition isPasskeySupported :: "passkey_support \<Rightarrow> jsval" where
  "isPasskeySupported b =
     (if \<not> sp_available b then JBool False
      else if (case sp_conditional b of Some (Inr v) \<Rightarrow> truthy v | _ \<Rightarrow> False) then JBool True
      else (case sp_platform b of None \<Rightarrow> JBool True | Some (Inr v) \<Rightarrow> v | Some (Inl _) \<Rightarrow> JBool False))"

section \<open>Properties of the codec\<close>

lemma byte_range: "0 \<le> uint a" "uint (a :: byte) < 256"
  using uint_lt2p [of a] by simp_all

lemma div_digit: "0 \<le> y \<Longrightarrow> y < n \<Longrightarrow> (x * n + y) div n = x" for x y n :: int
  by simp

lemma mod_digit: "0 \<le> y \<Longrightarrow> y < n \<Longrightarrow> (x * n + y) mod n = y" for x y n :: int
  by simp

lemma byte_div: "0 \<le> uint (b :: byte) div 16" "uint (b :: byte) div 16 < 16" "0 \<le> uint (b :: byte) div 64" "uint (b :: byte) div 64 < 4"
    "0 \<le> uint (b :: byte) div 4" "uint (b :: byte) div 4 < 64"
  using byte_range [of b] by (simp_all add: div_int_pos_iff)

lemma first_byte: "word_of_int (uint a div 4 * 4 + (uint a mod 4 * 16 + uint b div 16) div 16) = (a :: byte)" for b :: byte
  using byte_div [of b] by (simp add: div_digit)

lemma second_byte:
  "word_of_int ((uint a mod 4 * 16 + uint b div 16) mod 16 * 16 + (uint b mod 16 * 4 + uint c div 64) div 4) = (b :: byte)"
  for a c :: byte
  using byte_div [of b] byte_div [of c] by (simp add: div_digit mod_digit)

lemma third_byte: "word_of_int ((uint b mod 16 * 4 + uint c div 64) mod 4 * 64 + uint c mod 64) = (c :: byte)" for b :: byte
  using byte_div [of c] by (simp add: mod_digit)

lemma bytes_sextets: "bytes_of (sextets bs) = bs"
proof (induction bs rule: sextets.induct)
  case (2 a)
  then show ?case using first_byte [of a 0] by simp
next
  case (3 a b)
  then show ?case using first_byte [of a b] second_byte [of a b 0] by simp
next
  case (4 a b c bs)
  then show ?case unfolding sextets.simps bytes_of.simps first_byte second_byte third_byte by simp
qed simp

lemma sextet_parts:
  "0 \<le> uint a mod 4 * 16 + uint (b :: byte) div 16" "uint a mod 4 * 16 + uint (b :: byte) div 16 < 64"
  "0 \<le> uint a mod 16 * 4 + uint (b :: byte) div 64" "uint a mod 16 * 4 + uint (b :: byte) div 64 < 64" for a :: byte
proof -
  have "uint a mod 4 \<le> 3" "uint a mod 16 \<le> 15" using pos_mod_bound [of 4 "uint a"] pos_mod_bound [of 16 "uint a"] by linarith+
  moreover have "0 \<le> uint a mod 4" "0 \<le> uint a mod 16" by simp_all
  ultimately show "0 \<le> uint a mod 4 * 16 + uint (b :: byte) div 16" "uint a mod 4 * 16 + uint (b :: byte) div 16 < 64"
    "0 \<le> uint a mod 16 * 4 + uint (b :: byte) div 64" "uint a mod 16 * 4 + uint (b :: byte) div 64 < 64"
    using byte_div [of b] by linarith+
qed

lemma sextet_ends:
  "0 \<le> uint a mod 4 * 16" "uint a mod 4 * 16 < 64" "0 \<le> uint a mod 16 * 4" "uint a mod 16 * 4 < 64"
  "0 \<le> uint a mod 64" "uint a mod 64 < 64" for a :: byte
  using sextet_parts [of a 0] by simp_all

lemma sextets_range_all: "list_all (\<lambda>n. 0 \<le> n \<and> n < 64) (sextets bs)"
  by (induction bs rule: sextets.induct)
    (simp_all only: sextets.simps list.pred_inject byte_div sextet_parts sextet_ends simp_thms)

lemma sextets_range: "n \<in> set (sextets bs) \<Longrightarrow> 0 \<le> n \<and> n < 64"
  using sextets_range_all [of bs] by (simp add: list_all_iff)

lemma b64_value_char: "0 \<le> n \<Longrightarrow> n < 64 \<Longrightarrow> b64_value (b64_char n) = Some n"
  by (auto simp: b64_value_def b64_char_def)

lemma length_sextets: "length (sextets bs) mod 4 = (if length bs mod 3 = 0 then 0 else length bs mod 3 + 1)"
  by (induction bs rule: sextets.induct) (auto simp: mod_Suc)

text \<open>No character of the alphabet is white space, padding, or changed by the URL-safe replacement and back.\<close>

lemma b64_char_plain:
  "0 \<le> n \<Longrightarrow> n < 64 \<Longrightarrow> to_url (b64_char n) \<noteq> pad_char \<and> to_base64 (to_url (b64_char n)) = b64_char n
     \<and> \<not> ascii_ws (b64_char n) \<and> b64_char n \<noteq> pad_char"
  by (auto simp: b64_char_def to_url_def to_base64_def ascii_ws_def)

lemma strip_padding_append:
  assumes "\<forall>c \<in> set s. c \<noteq> pad_char"
  shows "strip_padding (s @ replicate k pad_char) = s"
proof -
  have "dropWhile (\<lambda>c. c = pad_char) (replicate k pad_char @ rev s) = rev s"
    using assms by (cases "rev s") (auto simp: dropWhile_append3 dest: arg_cong [where f = set])
  then show ?thesis by (simp add: strip_padding_def)
qed

lemma url_text: "bufferToBase64Url (Some bs) = map (to_url \<circ> b64_char) (sextets bs)"
proof -
  have "\<forall>c \<in> set (map (to_url \<circ> b64_char) (sextets bs)). c \<noteq> pad_char"
    using sextets_range b64_char_plain by auto
  moreover have "map to_url (btoa bs) = map (to_url \<circ> b64_char) (sextets bs) @ replicate ((3 - length bs mod 3) mod 3) pad_char"
    by (simp add: btoa_def to_url_def)
  ultimately show ?thesis by (simp add: bufferToBase64Url_def strip_padding_append)
qed

lemma drop_padding_append:
  assumes "\<forall>c \<in> set s. c \<noteq> pad_char" and "k \<le> 2" and "(length s + k) mod 4 = 0"
  shows "drop_padding (s @ replicate k pad_char) = s"
proof -
  have "k = 0 \<or> k = 1 \<or> k = 2" using assms(2) by auto
  moreover have "rev s \<noteq> [] \<Longrightarrow> hd (rev s) \<noteq> pad_char" using assms(1) by (metis hd_in_set set_rev)
  ultimately show ?thesis using assms(3)
    by (cases "rev s") (auto simp: drop_padding_def endsWith_def numeral_2_eq_2)
qed

lemma atob_padded:
  assumes "k \<le> 2" and "(length (sextets bs) + k) mod 4 = 0"
  shows "atob (map b64_char (sextets bs) @ replicate k pad_char) = Some bs"
proof -
  let ?s = "map b64_char (sextets bs)"
  have "filter (\<lambda>c. \<not> ascii_ws c) (?s @ replicate k pad_char) = ?s @ replicate k pad_char"
    using sextets_range b64_char_plain by (auto simp: filter_id_conv ascii_ws_def)
  moreover have "drop_padding (?s @ replicate k pad_char) = ?s"
    using sextets_range b64_char_plain assms by (intro drop_padding_append) auto
  moreover have "length ?s mod 4 \<noteq> 1" by (simp add: length_sextets)
  moreover have "list_all (\<lambda>c. b64_value c \<noteq> None) ?s" "map (\<lambda>c. the (b64_value c)) ?s = sextets bs"
    using sextets_range b64_value_char by (auto simp: list_all_iff intro: map_idI)
  ultimately show ?thesis by (simp add: atob_def Let_def bytes_sextets)
qed

lemma padding_length:
  assumes "n mod 4 \<noteq> 1"
  shows "(4 - n mod 4) mod 4 \<le> 2" and "(n + (4 - n mod 4) mod 4) mod 4 = (0 :: nat)"
proof -
  have "n mod 4 = 0 \<or> n mod 4 = 2 \<or> n mod 4 = 3" using assms mod_less_divisor [of 4 n] by linarith
  then show "(4 - n mod 4) mod 4 \<le> 2" "(n + (4 - n mod 4) mod 4) mod 4 = 0"
    by (auto simp: mod_add_left_eq [of n, symmetric])
qed

lemma codec_roundtrip: "base64UrlToBuffer (bufferToBase64Url (Some bs)) = Inr bs"
proof -
  let ?t = "bufferToBase64Url (Some bs)"
  have l: "length ?t = length (sextets bs)" by (simp add: url_text)
  have len: "length (sextets bs) mod 4 \<noteq> 1" by (simp add: length_sextets)
  let ?k = "(4 - length ?t mod 4) mod 4"
  have k: "?k \<le> 2" "(length (sextets bs) + ?k) mod 4 = 0" using padding_length [OF len] unfolding l by simp_all
  have pad: "to_base64 pad_char = pad_char" by (simp add: to_base64_def)
  have m: "map to_base64 ?t = map b64_char (sextets bs)"
    unfolding url_text map_map by (rule map_cong [OF refl]) (simp add: b64_char_plain sextets_range)
  have "base64UrlToBuffer ?t = Inr bs" if "?t \<noteq> []"
    using that atob_padded [OF k] by (simp add: base64UrlToBuffer_def Let_def m pad)
  moreover have "bs = []" if "?t = []" using that bytes_sextets [of bs] by (simp add: url_text)
  ultimately show ?thesis by (cases "?t = []") (auto simp: base64UrlToBuffer_def)
qed

text \<open>
  C23: encoding a buffer as base64url and decoding it gives the same bytes, for every length; the text
  has no padding and is free of the characters that are special in URLs.
\<close>

theorem base64url_roundtrip:
  "base64UrlToBuffer (bufferToBase64Url (Some bs)) = Inr bs
   \<and> set (bufferToBase64Url (Some bs)) \<inter> {43, 47, pad_char} = {}"
proof
  show "base64UrlToBuffer (bufferToBase64Url (Some bs)) = Inr bs" by (rule codec_roundtrip)
  have "to_url (b64_char n) \<notin> {43, 47, pad_char}" if "n \<in> set (sextets bs)" for n
    using b64_char_plain [of n] sextets_range [OF that] by (simp add: to_url_def)
  then show "set (bufferToBase64Url (Some bs)) \<inter> {43, 47, pad_char} = {}" unfolding url_text by fastforce
qed

text \<open>What a decoded field looks like when the server sent the base64url text of some bytes.\<close>

lemma field_buffer_encoded: "field_buffer (JStr (bufferToBase64Url (Some bs))) = Inr bs"
proof -
  have "base64UrlToBuffer (bufferToBase64Url (Some bs)) = Inr bs"
    by (rule codec_roundtrip)
  then show ?thesis by (auto simp: field_buffer_def base64UrlToBuffer_def)
qed

definition sent_credential :: "byte list \<times> (jsstr \<times> jsval) list \<Rightarrow> jsval" where
  "sent_credential c = JObj ((js ''id'', JStr (bufferToBase64Url (Some (fst c)))) # snd c)"

definition received_credential :: "byte list \<times> (jsstr \<times> jsval) list \<Rightarrow> wval" where
  "received_credential c = Fields ((js ''id'', Buffer (fst c)) # map (\<lambda>(k, w). (k, Plain w)) (snd c))"

lemma decode_sent: "decode_credentials (map sent_credential cs) = Inr (map received_credential cs)"
  by (induction cs) (simp_all add: sent_credential_def received_credential_def js_get_def field_buffer_encoded
      plain_fields_def obj_put_def)

text \<open>
  The bytes the server sends reach the authenticator: for options whose challenge and credential
  ids are base64url texts, the prepared options carry exactly those bytes and every other field as it was.
\<close>

theorem request_options_bytes:
  assumes "options = JObj ([(js ''challenge'', JStr (bufferToBase64Url (Some challenge))),
      (js ''allowCredentials'', JArr (map sent_credential cs))] @ rest)"
    and "payload = JObj [(js ''publicKey'', options)]"
  shows "prepareCredentialRequestOptions payload =
    Inr ([(js ''challenge'', Buffer challenge), (js ''allowCredentials'', Items (map received_credential cs))]
         @ map (\<lambda>(k, w). (k, Plain w)) rest)"
proof -
  have "public_key_options payload = options"
    by (simp add: assms public_key_options_def prop_opt_def js_or_def)
  then show ?thesis
    by (simp add: prepareCredentialRequestOptions_def assms(1) field_buffer_encoded plain_fields_def obj_put_def
        with_credentials_def decode_sent)
qed

theorem request_options_bytes_witness:
  "prepareCredentialRequestOptions (JObj [(js ''publicKey'', JObj [(js ''challenge'', JStr (bufferToBase64Url (Some [1, 255]))),
       (js ''allowCredentials'', JArr [sent_credential ([7], [])]), (js ''timeout'', JNull)])]) =
   Inr [(js ''challenge'', Buffer [1, 255]), (js ''allowCredentials'', Items [received_credential ([7], [])]),
        (js ''timeout'', Plain JNull)]"
  using request_options_bytes [OF refl refl, of "[1, 255]" "[([7], [])]" "[(js ''timeout'', JNull)]"] by simp

end
