(* ===== verification/SecureVerification.thy ===== *)
theory SecureVerification
  imports Passkey
begin

text \<open>
  Secure verification: the service \<open>src/web/src/services/secureVerification.js\<close>, the error
  classification of \<open>src/web/src/helpers/secureApiCall.js\<close> and the hook
  \<open>src/web/src/hooks/common/useSecureVerification.jsx\<close> that guards a protected API call by a
  two-factor code or a passkey.

  A run of the service is the list of its calls to the server and the browser, in order, with its
  result; what they answer is given by an environment.
\<close>

section \<open>Runs\<close>

text \<open>An error object: one made by the code or by the browser, with name and message, or one of the engine's.\<close>

datatype verror = Raised jsstr jsstr | Engine js_error

definition new_Error :: "jsstr \<Rightarrow> verror" where
  "new_Error message = Raised (js ''Error'') message"

fun error_name :: "verror \<Rightarrow> jsstr" where
  "error_name (Raised name _) = name"
| "error_name (Engine TypeError) = js ''TypeError''"
| "error_name (Engine SyntaxError) = js ''SyntaxError''"
| "error_name (Engine (ErrorMsg _)) = js ''Error''"

datatype call =
    Get jsstr jsval
  | Post jsstr jsval
  | Put jsstr jsval
  | Delete jsstr jsval
  | Credentials "(jsstr \<times> wval) list"    \<comment> \<open>\<open>navigator.credentials.get\<close>\<close>

type_synonym 'a run = "call list \<times> (verror + 'a)"

definition return_run :: "verror + 'a \<Rightarrow> 'a run" where
  "return_run r = ([], r)"

definition awaiting :: "call \<Rightarrow> verror + 'a \<Rightarrow> 'a run" where
  "awaiting c answer = ([c], answer)"

definition and_then :: "'a run \<Rightarrow> ('a \<Rightarrow> 'b run) \<Rightarrow> 'b run" where
  "and_then m f = (case m of (cs, Inl e) \<Rightarrow> (cs, Inl e) | (cs, Inr a) \<Rightarrow> (case f a of (ds, r) \<Rightarrow> (cs @ ds, r)))"

lemma and_then_simps [simp]:
  "and_then (return_run (Inl e)) f = ([], Inl e)" "and_then (return_run (Inr a)) f = f a"
  "and_then (awaiting c (Inl e)) f = ([c], Inl e)" "and_then (awaiting c (Inr a)) f = (c # fst (f a), snd (f a))"
  by (simp_all add: and_then_def return_run_def awaiting_def split: prod.splits)

section \<open>The service\<close>

definition data_of :: "jsval \<Rightarrow> jsval" where
  "data_of res = js_prop res (js ''data'')"

definition succeeded :: "jsval \<Rightarrow> bool" where
  "succeeded res \<longleftrightarrow> truthy (prop_opt (data_of res) (js ''success''))"

text \<open>\<open>if (!res.data?.success) throw new Error(res.data?.message || text)\<close>\<close>

definition require_success :: "jsstr \<Rightarrow> jsval \<Rightarrow> unit run" where
  "require_success text res =
     return_run (if succeeded res then Inr ()
       else Inl (new_Error (js_to_string (js_or (prop_opt (data_of res) (js ''message'')) (JStr text)))))"

record methods =
  has2FA :: jsval
  hasPasskey :: jsval
  passkeySupported :: jsval

definition no_methods :: methods where
  "no_methods = \<lparr>has2FA = JBool False, hasPasskey = JBool False, passkeySupported = JBool False\<rparr>"

definition enabled_in :: "jsval \<Rightarrow> jsval" where
  "enabled_in res =
     js_and (prop_opt (data_of res) (js ''success''))
       (JBool (prop_opt (prop_opt (data_of res) (js ''data'')) (js ''enabled'') = JBool True))"

text \<open>The three answers are awaited together; one failure means that no method is reported.\<close>

definition checkAvailableVerificationMethods ::
  "verror + jsval \<Rightarrow> verror + jsval \<Rightarrow> passkey_support \<Rightarrow> methods" where
  "checkAvailableVerificationMethods twoFA passkey support =
     (case (twoFA, passkey) of
        (Inr a, Inr b) \<Rightarrow> \<lparr>has2FA = enabled_in a, hasPasskey = enabled_in b, passkeySupported = isPasskeySupported support\<rparr>
      | _ \<Rightarrow> no_methods)"

definition enter_code :: jsstr where "enter_code = [35831, 36755, 20837, 39564, 35777, 30721, 25110, 22791, 29992, 30721]"
definition verification_failed :: jsstr where "verification_failed = [39564, 35777, 22833, 36133]"
definition begin_failed :: jsstr where "begin_failed = [24320, 22987, 39564, 35777, 22833, 36133]"
definition passkey_cancelled :: jsstr where "passkey_cancelled = js ''Passkey '' @ [39564, 35777, 34987, 21462, 28040]"
definition passkey_timeout :: jsstr where "passkey_timeout = js ''Passkey '' @ [39564, 35777, 34987, 21462, 28040, 25110, 36229, 26102]"
definition passkey_invalid_state :: jsstr where "passkey_invalid_state = js ''Passkey '' @ [39564, 35777, 29366, 24577, 26080, 25928]"
definition unsupported_method :: jsstr where "unsupported_method = [19981, 25903, 25345, 30340, 39564, 35777, 26041, 24335] @ js '': ''"
definition unsupported_http :: jsstr where "unsupported_http = [19981, 25903, 25345, 30340] @ js ''HTTP'' @ [26041, 27861] @ js '': ''"

text \<open>What the server and the authenticator answer to each step.\<close>

record verify_env =
  ve_verify :: "verror + jsval"
  ve_begin :: "verror + jsval"
  ve_credential :: "verror + assertion option"
  ve_finish :: "verror + jsval"

abbreviation path_verify :: jsstr where "path_verify \<equiv> js ''/api/verify''"
abbreviation path_begin :: jsstr where "path_begin \<equiv> js ''/api/user/passkey/verify/begin''"
abbreviation path_finish :: jsstr where "path_finish \<equiv> js ''/api/user/passkey/verify/finish''"

definition verify2FA :: "verify_env \<Rightarrow> jsstr \<Rightarrow> unit run" where
  "verify2FA env code =
     (if trim code = [] then return_run (Inl (new_Error enter_code))
      else and_then (awaiting (Post path_verify (JObj [(js ''method'', JStr (js ''2fa'')), (js ''code'', JStr (trim code))])) (ve_verify env))
        (require_success verification_failed))"

text \<open>\<open>beginResponse.data.data.options\<close>\<close>

definition begin_options :: "jsval \<Rightarrow> verror + (jsstr \<times> wval) list" where
  "begin_options res =
     (case js_get (data_of res) (js ''data'') of
        Inl e \<Rightarrow> Inl (Engine e)
      | Inr d \<Rightarrow> (case js_get d (js ''options'') of
            Inl e \<Rightarrow> Inl (Engine e)
          | Inr opts \<Rightarrow> (case prepareCredentialRequestOptions opts of Inl e \<Rightarrow> Inl (Engine e) | Inr pk \<Rightarrow> Inr pk)))"

definition verifyPasskey_steps :: "verify_env \<Rightarrow> unit run" where
  "verifyPasskey_steps env =
     and_then (awaiting (Post path_begin JUndef) (ve_begin env)) (\<lambda>beginResponse.
     and_then (require_success begin_failed beginResponse) (\<lambda>_.
     and_then (return_run (begin_options beginResponse)) (\<lambda>publicKey.
     and_then (awaiting (Credentials publicKey) (ve_credential env)) (\<lambda>credential.
     and_then (return_run (if credential = None then Inl (new_Error passkey_cancelled) else Inr ())) (\<lambda>_.
     and_then (awaiting (Post path_finish (buildAssertionResult credential)) (ve_finish env)) (\<lambda>finishResponse.
     and_then (require_success verification_failed finishResponse) (\<lambda>_.
     and_then (awaiting (Post path_verify (JObj [(js ''method'', JStr (js ''passkey''))])) (ve_verify env))
       (require_success verification_failed))))))))"

definition passkey_error :: "verror \<Rightarrow> verror" where
  "passkey_error e =
     (if error_name e = js ''NotAllowedError'' then new_Error passkey_timeout
      else if error_name e = js ''InvalidStateError'' then new_Error passkey_invalid_state else e)"

definition verifyPasskey :: "verify_env \<Rightarrow> unit run" where
  "verifyPasskey env = (case verifyPasskey_steps env of (cs, Inl e) \<Rightarrow> (cs, Inl (passkey_error e)) | (cs, Inr u) \<Rightarrow> (cs, Inr u))"

definition verify :: "verify_env \<Rightarrow> jsstr \<Rightarrow> jsstr \<Rightarrow> unit run" where
  "verify env m code =
     (if m = js ''2fa'' then verify2FA env code
      else if m = js ''passkey'' then verifyPasskey env
      else return_run (Inl (new_Error (unsupported_method @ m))))"

text \<open>The prepared API calls; \<open>toUpperCase\<close> is an argument, since it needs the Unicode tables.\<close>

definition response_data :: "jsval \<Rightarrow> verror + jsval" where
  "response_data res = Inr (data_of res)"

definition viewChannelKey :: "jsval \<Rightarrow> verror + jsval \<Rightarrow> jsval run" where
  "viewChannelKey channelId answer =
     and_then (awaiting (Post (js ''/api/channel/'' @ js_to_string channelId @ js ''/key'') (JObj [])) answer)
       (\<lambda>res. return_run (response_data res))"

definition custom :: "(jsstr \<Rightarrow> jsstr) \<Rightarrow> jsstr \<Rightarrow> jsstr \<Rightarrow> jsval \<Rightarrow> verror + jsval \<Rightarrow> jsval run" where
  "custom toUpperCase url m extraData answer =
     (let upper = toUpperCase m;
          send = (\<lambda>c. and_then (awaiting c answer) (\<lambda>res. return_run (response_data res)))
      in if upper = js ''GET'' then send (Get url extraData)
         else if upper = js ''POST'' then send (Post url extraData)
         else if upper = js ''PUT'' then send (Put url extraData)
         else if upper = js ''DELETE'' then send (Delete url extraData)
         else return_run (Inl (new_Error (unsupported_http @ m))))"

section \<open>Errors that ask for verification\<close>

text \<open>The \<open>response\<close> of an error, \<open>undefined\<close> when the server did not answer.\<close>

definition verificationCodes :: "jsval list" where
  "verificationCodes = map (JStr \<circ> js) [''VERIFICATION_REQUIRED'', ''VERIFICATION_EXPIRED'', ''VERIFICATION_INVALID'']"

definition isVerificationRequiredError :: "jsval \<Rightarrow> bool" where
  "isVerificationRequiredError response =
     (if \<not> truthy response then False
      else js_prop response (js ''status'') = JNum (Fin 403) \<and> truthy (data_of response)
           \<and> js_prop (data_of response) (js ''code'') \<in> set verificationCodes)"

definition verification_needed :: jsstr where "verification_needed = [38656, 35201, 23433, 20840, 39564, 35777]"

definition extractVerificationInfo :: "jsval \<Rightarrow> (jsstr \<times> jsval) list" where
  "extractVerificationInfo response =
     (let data = js_or (prop_opt response (js ''data'')) (JObj []) in
      [(js ''code'', js_prop data (js ''code'')),
       (js ''message'', js_or (js_prop data (js ''message'')) (JStr verification_needed)),
       (js ''required'', JBool True)])"

section \<open>The hook\<close>

text \<open>
  The state of the hook; \<open>'c\<close> is the type of the protected API calls. Notifications and callbacks
  are events; the translation function \<open>t\<close> is an argument.
\<close>

record 'c sv_state =
  sv_methods :: methods
  sv_visible :: bool
  sv_method :: jsval
  sv_loading :: bool
  sv_code :: jsstr
  sv_apiCall :: "'c option"
  sv_title :: jsval
  sv_description :: jsval

datatype 'c sv_event = Did call | Called 'c | ErrorShown jsstr | SuccessShown jsstr | OnSuccess jsval jsstr | OnError verror

record sv_options =
  so_preferredMethod :: jsval
  so_title :: jsval
  so_description :: jsval

definition sv_initial :: "'c sv_state" where
  "sv_initial = \<lparr>sv_methods = no_methods, sv_visible = False, sv_method = JNull, sv_loading = False, sv_code = [],
     sv_apiCall = None, sv_title = JUndef, sv_description = JUndef\<rparr>"

definition checkVerificationMethods :: "methods \<Rightarrow> 'c sv_state \<Rightarrow> 'c sv_state" where
  "checkVerificationMethods ms st = st\<lparr>sv_methods := ms\<rparr>"

definition resetState :: "'c sv_state \<Rightarrow> 'c sv_state" where
  "resetState st = st\<lparr>sv_method := JNull, sv_loading := False, sv_code := [], sv_apiCall := None,
     sv_title := JUndef, sv_description := JUndef, sv_visible := False\<rparr>"

definition no_method_text :: jsstr where "no_method_text = [24744, 38656, 35201, 20808, 21551, 29992, 20004, 27493, 39564, 35777, 25110] @ js '' Passkey '' @ [25165, 33021, 25191, 34892, 27492, 25805, 20316]"
definition config_error_text :: jsstr where "config_error_text = [39564, 35777, 37197, 32622, 38169, 35823]"
definition retry_text :: jsstr where "retry_text = [39564, 35777, 22833, 36133, 65292, 35831, 37325, 35797]"

definition default_method :: "methods \<Rightarrow> jsval \<Rightarrow> jsval" where
  "default_method ms preferred =
     (if truthy preferred then preferred
      else if truthy (hasPasskey ms) \<and> truthy (passkeySupported ms) then JStr (js ''passkey'')
      else if truthy (has2FA ms) then JStr (js ''2fa'') else preferred)"

text \<open>\<open>ms\<close> is what the check of the methods reports now.\<close>

definition startVerification ::
  "(jsstr \<Rightarrow> jsstr) \<Rightarrow> methods \<Rightarrow> 'c \<Rightarrow> sv_options \<Rightarrow> 'c sv_state \<Rightarrow> 'c sv_event list \<times> bool \<times> 'c sv_state" where
  "startVerification t ms apiCall opts st =
     (let st1 = checkVerificationMethods ms st in
      if \<not> truthy (has2FA ms) \<and> \<not> truthy (hasPasskey ms)
      then ([ErrorShown (t no_method_text), OnError (new_Error (t no_method_text))], False, st1)
      else ([], True, st1\<lparr>sv_method := default_method ms (so_preferredMethod opts), sv_apiCall := Some apiCall,
              sv_title := so_title opts, sv_description := so_description opts, sv_visible := True\<rparr>))"

definition error_message :: "verror \<Rightarrow> jsstr" where
  "error_message e = (case e of Raised _ m \<Rightarrow> m | Engine (ErrorMsg m) \<Rightarrow> m | Engine TypeError \<Rightarrow> js ''TypeError'' | Engine SyntaxError \<Rightarrow> js ''SyntaxError'')"

text \<open>
  Running the verification and then the protected call: \<open>perform\<close> gives the answer of a call. The
  result is \<open>None\<close> when the hook has no call to protect.
\<close>

definition executeVerification ::
  "(jsstr \<Rightarrow> jsstr) \<Rightarrow> jsstr option \<Rightarrow> bool \<Rightarrow> ('c \<Rightarrow> verror + jsval) \<Rightarrow> verify_env \<Rightarrow> jsstr \<Rightarrow> jsstr \<Rightarrow> 'c sv_state
   \<Rightarrow> 'c sv_event list \<times> (verror + jsval) option \<times> 'c sv_state" where
  "executeVerification t successMessage autoReset perform env m code st =
     (case sv_apiCall st of
        None \<Rightarrow> ([ErrorShown (t config_error_text)], None, st)
      | Some apiCall \<Rightarrow>
          let (calls, verified) = verify env m code;
              failed = (\<lambda>e. [ErrorShown (if error_message e = [] then t retry_text else error_message e), OnError e])
          in (case verified of
                Inl e \<Rightarrow> (map Did calls @ failed e, Some (Inl e), st\<lparr>sv_loading := False\<rparr>)
              | Inr _ \<Rightarrow>
                  (case perform apiCall of
                     Inl e \<Rightarrow> (map Did calls @ [Called apiCall] @ failed e, Some (Inl e), st\<lparr>sv_loading := False\<rparr>)
                   | Inr result \<Rightarrow>
                       (map Did calls @ [Called apiCall]
                          @ (case successMessage of None \<Rightarrow> [] | Some s \<Rightarrow> if s = [] then [] else [SuccessShown s])
                          @ [OnSuccess result m],
                        Some (Inr result), (if autoReset then resetState st else st)\<lparr>sv_loading := False\<rparr>))))"

definition setVerificationCode :: "jsstr \<Rightarrow> 'c sv_state \<Rightarrow> 'c sv_state" where
  "setVerificationCode code st = st\<lparr>sv_code := code\<rparr>"

definition switchVerificationMethod :: "jsval \<Rightarrow> 'c sv_state \<Rightarrow> 'c sv_state" where
  "switchVerificationMethod m st = st\<lparr>sv_method := m, sv_code := []\<rparr>"

definition cancelVerification :: "'c sv_state \<Rightarrow> 'c sv_state" where
  "cancelVerification st = resetState st"

definition canUseMethod :: "'c sv_state \<Rightarrow> jsstr \<Rightarrow> jsval" where
  "canUseMethod st m =
     (if m = js ''2fa'' then has2FA (sv_methods st)
      else if m = js ''passkey'' then js_and (hasPasskey (sv_methods st)) (passkeySupported (sv_methods st))
      else JBool False)"

definition getRecommendedMethod :: "'c sv_state \<Rightarrow> jsval" where
  "getRecommendedMethod st =
     (if truthy (hasPasskey (sv_methods st)) \<and> truthy (passkeySupported (sv_methods st)) then JStr (js ''passkey'')
      else if truthy (has2FA (sv_methods st)) then JStr (js ''2fa'') else JNull)"

text \<open>
  Trying a call first: its failure carries the server's response. \<open>Inr\<close> values are returned to the
  caller, \<open>null\<close> when the verification dialog takes over.
\<close>

definition withVerification ::
  "(jsstr \<Rightarrow> jsstr) \<Rightarrow> methods \<Rightarrow> 'c \<Rightarrow> (verror \<times> jsval) + jsval \<Rightarrow> sv_options \<Rightarrow> 'c sv_state
   \<Rightarrow> 'c sv_event list \<times> (verror + jsval) \<times> 'c sv_state" where
  "withVerification t ms apiCall outcome opts st =
     (case outcome of
        Inr v \<Rightarrow> ([Called apiCall], Inr v, st)
      | Inl (e, response) \<Rightarrow>
          if isVerificationRequiredError response
          then (case startVerification t ms apiCall opts st of (evs, _, st') \<Rightarrow> (Called apiCall # evs, Inr JNull, st'))
          else ([Called apiCall], Inl e, st))"

section \<open>Reachable states of the hook\<close>

inductive sv_reachable :: "'c sv_state \<Rightarrow> bool" where
  start: "sv_reachable sv_initial"
| check: "sv_reachable st \<Longrightarrow> sv_reachable (checkVerificationMethods ms st)"
| begin_dialog: "sv_reachable st \<Longrightarrow> startVerification t ms apiCall opts st = (evs, b, st') \<Longrightarrow> sv_reachable st'"
| guarded: "sv_reachable st \<Longrightarrow> withVerification t ms apiCall outcome opts st = (evs, r, st') \<Longrightarrow> sv_reachable st'"
| execute: "sv_reachable st \<Longrightarrow> executeVerification t msg reset perform env m code st = (evs, r, st') \<Longrightarrow> sv_reachable st'"
| set_code: "sv_reachable st \<Longrightarrow> sv_reachable (setVerificationCode code st)"
| switch: "sv_reachable st \<Longrightarrow> sv_reachable (switchVerificationMethod v st)"
| cancel: "sv_reachable st \<Longrightarrow> sv_reachable (cancelVerification st)"

definition dialog_ok :: "'c sv_state \<Rightarrow> bool" where
  "dialog_ok st \<longleftrightarrow> (sv_visible st \<longleftrightarrow> sv_apiCall st \<noteq> None) \<and> \<not> sv_loading st"

lemmas sv_simple_defs = checkVerificationMethods_def resetState_def setVerificationCode_def
  switchVerificationMethod_def cancelVerification_def sv_initial_def

lemma start_ok: "startVerification t ms c opts st = (evs, b, st') \<Longrightarrow> dialog_ok st \<Longrightarrow> dialog_ok st'"
  by (auto simp: startVerification_def dialog_ok_def sv_simple_defs Let_def split: if_splits)

lemma with_ok: "withVerification t ms c outcome opts st = (evs, r, st') \<Longrightarrow> dialog_ok st \<Longrightarrow> dialog_ok st'"
  by (auto simp: withVerification_def split: sum.splits prod.splits if_splits intro: start_ok)

lemma execute_ok:
  "executeVerification t msg reset perform env m code st = (evs, r, st') \<Longrightarrow> dialog_ok st \<Longrightarrow> dialog_ok st'"
  by (auto simp: executeVerification_def dialog_ok_def sv_simple_defs Let_def
      split: option.splits prod.splits sum.splits if_splits)

lemma reachable_ok: "sv_reachable st \<Longrightarrow> dialog_ok st"
proof (induction rule: sv_reachable.induct)
  case (begin_dialog st t ms apiCall opts evs b st') then show ?case by (blast intro: start_ok)
next
  case (guarded st t ms apiCall outcome opts evs r st') then show ?case by (blast intro: with_ok)
next
  case (execute st t msg reset perform env m code evs r st') then show ?case by (blast intro: execute_ok)
qed (auto simp: dialog_ok_def sv_simple_defs)

section \<open>Properties\<close>

fun label :: "call \<Rightarrow> jsstr" where
  "label (Get p _) = p"
| "label (Post p _) = p"
| "label (Put p _) = p"
| "label (Delete p _) = p"
| "label (Credentials _) = js ''navigator.credentials.get''"

definition passkey_steps :: "jsstr list" where
  "passkey_steps = [path_begin, js ''navigator.credentials.get'', path_finish, path_verify]"

text \<open>The server has opened the ceremony, the authenticator has answered it and the server has accepted the answer.\<close>

definition passkey_confirmed :: "verify_env \<Rightarrow> bool" where
  "passkey_confirmed env \<longleftrightarrow>
     (\<exists>b pk c f. ve_begin env = Inr b \<and> succeeded b \<and> begin_options b = Inr pk \<and> ve_credential env = Inr (Some c)
        \<and> ve_finish env = Inr f \<and> succeeded f)"

definition accepted :: "verror + jsval \<Rightarrow> bool" where
  "accepted answer \<longleftrightarrow> (\<exists>v. answer = Inr v \<and> succeeded v)"

lemma require_success_simps [simp]:
  "succeeded res \<Longrightarrow> require_success text res = return_run (Inr ())"
  "\<not> succeeded res \<Longrightarrow> fst (and_then (require_success text res) f) = []"
  "\<not> succeeded res \<Longrightarrow> snd (and_then (require_success text res) f) \<noteq> Inr u"
  "fst (require_success text res) = []" "snd (require_success text res) = Inr () \<longleftrightarrow> succeeded res"
  by (simp_all add: require_success_def return_run_def and_then_def)

lemma verifyPasskey_split:
  "fst (verifyPasskey env) = fst (verifyPasskey_steps env)"
  "snd (verifyPasskey env) = Inr () \<longleftrightarrow> snd (verifyPasskey_steps env) = Inr ()"
  by (auto simp: verifyPasskey_def split: prod.splits sum.splits)

text \<open>The four ways the steps can end, by how far they get.\<close>

lemma steps_end:
  "(\<exists>n < 4. map label (fst (verifyPasskey_steps env)) = take n passkey_steps) \<and> \<not> passkey_confirmed env
     \<and> snd (verifyPasskey_steps env) \<noteq> Inr ()
   \<or> map label (fst (verifyPasskey_steps env)) = passkey_steps \<and> passkey_confirmed env
     \<and> (snd (verifyPasskey_steps env) = Inr () \<longleftrightarrow> accepted (ve_verify env))"
proof -
  have less1: "(1 :: nat) < 4" and less2: "(2 :: nat) < 4" and less3: "(3 :: nat) < 4" by simp_all
  show ?thesis
  proof (cases "\<exists>b. ve_begin env = Inr b \<and> succeeded b \<and> (\<exists>pk. begin_options b = Inr pk)")
    case False
    then have "map label (fst (verifyPasskey_steps env)) = take 1 passkey_steps \<and> snd (verifyPasskey_steps env) \<noteq> Inr ()"
    proof (cases "ve_begin env")
      case (Inr b)
      then show ?thesis using False
        by (cases "succeeded b"; cases "begin_options b") (simp_all add: verifyPasskey_steps_def passkey_steps_def)
    qed (simp add: verifyPasskey_steps_def passkey_steps_def)
    moreover have "\<not> passkey_confirmed env" using False by (auto simp: passkey_confirmed_def)
    ultimately show ?thesis using less1 by blast
  next
    case True
    then obtain b pk where b: "ve_begin env = Inr b" "succeeded b" "begin_options b = Inr pk" by blast
    show ?thesis
    proof (cases "\<exists>c. ve_credential env = Inr (Some c)")
      case False
      then have "map label (fst (verifyPasskey_steps env)) = take 2 passkey_steps \<and> snd (verifyPasskey_steps env) \<noteq> Inr ()"
        using b by (cases "ve_credential env") (auto simp: verifyPasskey_steps_def passkey_steps_def)
      moreover have "\<not> passkey_confirmed env" using False by (auto simp: passkey_confirmed_def)
      ultimately show ?thesis using less2 by blast
    next
      case True
      then obtain c where c: "ve_credential env = Inr (Some c)" by blast
      show ?thesis
      proof (cases "accepted (ve_finish env)")
        case False
        then have "map label (fst (verifyPasskey_steps env)) = take 3 passkey_steps \<and> snd (verifyPasskey_steps env) \<noteq> Inr ()"
          using b c by (cases "ve_finish env") (simp_all add: verifyPasskey_steps_def passkey_steps_def accepted_def)
        moreover have "\<not> passkey_confirmed env" using False by (auto simp: passkey_confirmed_def accepted_def)
        ultimately show ?thesis using less3 by blast
      next
        case True
        then obtain f where f: "ve_finish env = Inr f" "succeeded f" by (auto simp: accepted_def)
        have "map label (fst (verifyPasskey_steps env)) = passkey_steps"
          using b c f by (cases "ve_verify env") (simp_all add: verifyPasskey_steps_def passkey_steps_def)
        moreover have "snd (verifyPasskey_steps env) = Inr () \<longleftrightarrow> accepted (ve_verify env)"
          using b c f by (cases "ve_verify env") (simp_all add: verifyPasskey_steps_def accepted_def)
        moreover have "passkey_confirmed env" using True b c by (auto simp: passkey_confirmed_def accepted_def)
        ultimately show ?thesis by blast
      qed
    qed
  qed
qed

text \<open>
  C15: a passkey verification runs its steps in order (open the ceremony, ask the authenticator,
  finish the ceremony, mark the session) and stops at the first failure: the session is marked
  exactly when the authenticator's answer was accepted, and the verification succeeds exactly when
  the server accepts that as well.
\<close>

theorem passkey_session_last:
  "(\<exists>n. map label (fst (verifyPasskey env)) = take n passkey_steps)
   \<and> (path_verify \<in> set (map label (fst (verifyPasskey env))) \<longleftrightarrow> passkey_confirmed env)
   \<and> (snd (verifyPasskey env) = Inr () \<longleftrightarrow> passkey_confirmed env \<and> accepted (ve_verify env))"
proof -
  have early: "path_verify \<notin> set (take n passkey_steps)" if "n < 4" for n
  proof -
    have "n = 0 \<or> n = 1 \<or> n = 2 \<or> n = 3" using that by auto
    then show ?thesis by (auto simp: passkey_steps_def numeral_2_eq_2 numeral_3_eq_3)
  qed
  have late: "path_verify \<in> set passkey_steps" "passkey_steps = take 4 passkey_steps" by (simp_all add: passkey_steps_def)
  from steps_end [of env] show ?thesis unfolding verifyPasskey_split using early late by metis
qed

text \<open>The first attempt was refused because a verification is required, and the user has a method for it.\<close>

definition must_verify :: "methods \<Rightarrow> (verror \<times> jsval) + jsval \<Rightarrow> bool" where
  "must_verify ms outcome \<longleftrightarrow> (\<exists>e response. outcome = Inl (e, response) \<and> isVerificationRequiredError response)
     \<and> (truthy (has2FA ms) \<or> truthy (hasPasskey ms))"

text \<open>
  C19: which operations of the hook make the protected call.  Running the verification makes it exactly when the hook has
  one and the verification succeeded, only after all steps of the verification, and at most once; afterwards the dialog
  is not loading, and unless everything succeeded and resetting is on, the call is kept for another attempt.  Opening the
  dialog makes no call.  Trying the call first makes it once without a verification of its own, the server being the guard;
  the dialog takes the call over exactly when the server asks for a verification and the user has a method, and then the
  call is made again only by a verification that succeeded.
\<close>

theorem protected_call_gated:
  "(case executeVerification t msg autoReset perform env m code st of (evs, res, st') \<Rightarrow>
     (Called c \<in> set evs \<longleftrightarrow> sv_apiCall st = Some c \<and> snd (verify env m code) = Inr ())
     \<and> length (filter (\<lambda>e. \<exists>d. e = Called d) evs) \<le> 1
     \<and> (sv_apiCall st = None \<or> (\<exists>rest. evs = map Did (fst (verify env m code)) @ rest \<and> (\<forall>d. Did d \<notin> set rest)))
     \<and> st' = (if autoReset \<and> (\<exists>v. res = Some (Inr v)) then resetState st
              else if sv_apiCall st = None then st else st\<lparr>sv_loading := False\<rparr>))
   \<and> (\<forall>d. Called d \<notin> set (fst (startVerification t ms c opts st)))
   \<and> (case withVerification t ms c outcome opts st of (evs, res, st') \<Rightarrow>
        (\<exists>rest. evs = Called c # rest \<and> (\<forall>d. Called d \<notin> set rest) \<and> (\<forall>d. Did d \<notin> set rest))
        \<and> (if must_verify ms outcome
           then sv_visible st' \<and> sv_apiCall st' = Some c
             \<and> (Called c \<in> set (fst (executeVerification t msg autoReset perform env m code st')) \<longleftrightarrow> snd (verify env m code) = Inr ())
           else sv_visible st' = sv_visible st \<and> sv_apiCall st' = sv_apiCall st))"
proof -
  have execute: "case executeVerification t msg autoReset perform env m code st of (evs, res, st') \<Rightarrow>
     (Called c \<in> set evs \<longleftrightarrow> sv_apiCall st = Some c \<and> snd (verify env m code) = Inr ())
     \<and> length (filter (\<lambda>e. \<exists>d. e = Called d) evs) \<le> 1
     \<and> (sv_apiCall st = None \<or> (\<exists>rest. evs = map Did (fst (verify env m code)) @ rest \<and> (\<forall>d. Did d \<notin> set rest)))
     \<and> st' = (if autoReset \<and> (\<exists>v. res = Some (Inr v)) then resetState st
              else if sv_apiCall st = None then st else st\<lparr>sv_loading := False\<rparr>)" for st
  proof (cases "sv_apiCall st")
    case None
    then show ?thesis by (simp add: executeVerification_def)
  next
    case (Some d)
    obtain cs v where v: "verify env m code = (cs, v)" by (cases "verify env m code")
    show ?thesis
      using Some v by (cases v; cases "perform d"; cases msg)
        (auto simp: executeVerification_def resetState_def filter_empty_conv)
  qed
  have start: "\<forall>d. Called d \<notin> set (fst (startVerification t ms c opts st)) \<and> Did e \<notin> set (fst (startVerification t ms c opts st))" for e
    by (simp add: startVerification_def Let_def)
  obtain evs res st' where w: "withVerification t ms c outcome opts st = (evs, res, st')" by (metis prod_cases3)
  have rest: "\<exists>rest. evs = Called c # rest \<and> (\<forall>d. Called d \<notin> set rest) \<and> (\<forall>d. Did d \<notin> set rest)"
    using w start by (fastforce simp: withVerification_def split: sum.splits prod.splits if_splits)
  have over: "if must_verify ms outcome then sv_visible st' \<and> sv_apiCall st' = Some c
      else sv_visible st' = sv_visible st \<and> sv_apiCall st' = sv_apiCall st"
    using w by (auto simp: withVerification_def must_verify_def startVerification_def checkVerificationMethods_def Let_def
        split: sum.splits prod.splits if_splits)
  show ?thesis using execute [of st] execute [of st'] start rest over by (simp add: w split: prod.splits)
qed

text \<open>
  In every reachable state of the hook the dialog is open exactly when there is a call to
  protect, so that running the verification from the open dialog never ends in the configuration error.
\<close>

theorem dialog_has_call:
  assumes "sv_reachable st"
  shows "(sv_visible st \<longleftrightarrow> sv_apiCall st \<noteq> None) \<and> \<not> sv_loading st
    \<and> (sv_visible st \<longrightarrow> fst (snd (executeVerification t msg autoReset perform env m code st)) \<noteq> None)"
  using reachable_ok [OF assms]
  by (auto simp: dialog_ok_def executeVerification_def Let_def split: prod.splits sum.splits)

theorem dialog_has_call_witness:
  "\<exists>st :: nat sv_state. sv_visible st
     \<and> fst (snd (executeVerification id None True (\<lambda>_. Inr JNull) \<lparr>ve_verify = Inr JNull, ve_begin = Inr JNull, ve_credential = Inr None, ve_finish = Inr JNull\<rparr>
          (js ''2fa'') (js ''1'') st)) \<noteq> None"
proof -
  let ?ms = "no_methods\<lparr>has2FA := JBool True\<rparr>"
  let ?o = "\<lparr>so_preferredMethod = JUndef, so_title = JUndef, so_description = JUndef\<rparr>"
  obtain evs b st where s: "startVerification id ?ms (5 :: nat) ?o sv_initial = (evs, b, st)"
    by (metis prod_cases3)
  then have "sv_visible st" by (auto simp: startVerification_def Let_def)
  moreover have "sv_reachable st" by (rule sv_reachable.begin_dialog [OF sv_reachable.start s])
  ultimately show ?thesis using dialog_has_call [of st] by blast
qed

end
