(* ===== verification/ParamOverride.thy ===== *)
theory ParamOverride
  imports JsonPretty
begin

text \<open>
  Parameter overrides of a channel: the functions outside the component of
  \<open>src/web/src/components/table/channels/modals/ParamOverrideEditorModal.jsx\<close>. A configuration is
  a list of operations with conditions, edited as rows of texts and stored as JSON.

  Row ids are made by \<open>nextLocalId\<close> from the clock and a counter that is never reset. The counter
  alone tells ids apart, so an id is its counter value, and the functions that make ids take the
  counter and return its new value. Texts shown to the user are constructors.
\<close>

section \<open>Modes\<close>

definition OPERATION_MODE_VALUES :: "jsstr list" where
  "OPERATION_MODE_VALUES = map js [''set'', ''delete'', ''append'', ''prepend'', ''copy'', ''move'', ''replace'', ''regex_replace'',
     ''trim_prefix'', ''trim_suffix'', ''ensure_prefix'', ''ensure_suffix'', ''trim_space'', ''to_lower'', ''to_upper'',
     ''return_error'', ''prune_objects'', ''map_param'', ''pass_headers'', ''sync_fields'', ''transform_media'',
     ''set_header'', ''delete_header'', ''copy_header'', ''move_header'']"

definition CONDITION_MODE_VALUES :: "jsstr list" where
  "CONDITION_MODE_VALUES = map js [''full'', ''prefix'', ''suffix'', ''contains'', ''gt'', ''gte'', ''lt'', ''lte'']"

record mode_meta =
  m_path :: bool
  m_value :: bool
  m_keepOrigin :: bool
  m_from :: bool
  m_to :: bool
  m_pathOptional :: bool
  m_pathAlias :: bool

definition no_meta :: mode_meta where
  "no_meta = \<lparr>m_path = False, m_value = False, m_keepOrigin = False, m_from = False, m_to = False,
     m_pathOptional = False, m_pathAlias = False\<rparr>"

abbreviation meta_path :: mode_meta where "meta_path \<equiv> no_meta\<lparr>m_path := True\<rparr>"
abbreviation meta_path_value :: mode_meta where "meta_path_value \<equiv> meta_path\<lparr>m_value := True\<rparr>"
abbreviation meta_write :: mode_meta where "meta_write \<equiv> meta_path_value\<lparr>m_keepOrigin := True\<rparr>"
abbreviation meta_from_to :: mode_meta where "meta_from_to \<equiv> no_meta\<lparr>m_from := True, m_to := True\<rparr>"
abbreviation meta_replace :: mode_meta where "meta_replace \<equiv> meta_path\<lparr>m_from := True\<rparr>"
abbreviation meta_alias :: mode_meta where "meta_alias \<equiv> meta_from_to\<lparr>m_keepOrigin := True, m_pathAlias := True\<rparr>"

definition MODE_META :: "(jsstr \<times> mode_meta) list" where
  "MODE_META =
     [(js ''delete'', meta_path), (js ''set'', meta_write), (js ''append'', meta_write), (js ''prepend'', meta_write),
      (js ''copy'', meta_from_to), (js ''move'', meta_from_to), (js ''replace'', meta_replace), (js ''regex_replace'', meta_replace),
      (js ''trim_prefix'', meta_path_value), (js ''trim_suffix'', meta_path_value),
      (js ''ensure_prefix'', meta_path_value), (js ''ensure_suffix'', meta_path_value),
      (js ''trim_space'', meta_path), (js ''to_lower'', meta_path), (js ''to_upper'', meta_path),
      (js ''return_error'', no_meta\<lparr>m_value := True\<rparr>),
      (js ''prune_objects'', no_meta\<lparr>m_pathOptional := True, m_value := True\<rparr>),
      (js ''map_param'', no_meta\<lparr>m_pathOptional := True, m_to := True, m_value := True, m_keepOrigin := True\<rparr>),
      (js ''pass_headers'', no_meta\<lparr>m_value := True, m_keepOrigin := True\<rparr>),
      (js ''sync_fields'', meta_from_to), (js ''transform_media'', meta_from_to\<lparr>m_value := True\<rparr>),
      (js ''set_header'', meta_write), (js ''delete_header'', meta_path),
      (js ''copy_header'', meta_alias), (js ''move_header'', meta_alias)]"

definition meta_of :: "jsstr \<Rightarrow> mode_meta" where  \<comment> \<open>\<open>MODE_META[mode] || MODE_META.set\<close>\<close>
  "meta_of mode = (case map_of MODE_META mode of Some m \<Rightarrow> m | None \<Rightarrow> meta_write)"

definition VALUE_REQUIRED_MODES :: "jsstr list" where
  "VALUE_REQUIRED_MODES = map js [''trim_prefix'', ''trim_suffix'', ''ensure_prefix'', ''ensure_suffix'', ''set_header'',
     ''return_error'', ''prune_objects'', ''map_param'', ''pass_headers'', ''transform_media'']"

definition FROM_REQUIRED_MODES :: "jsstr list" where
  "FROM_REQUIRED_MODES = map js [''copy'', ''move'', ''replace'', ''regex_replace'', ''copy_header'', ''move_header'', ''sync_fields'']"

definition TO_REQUIRED_MODES :: "jsstr list" where
  "TO_REQUIRED_MODES = map js [''copy'', ''move'', ''copy_header'', ''move_header'', ''sync_fields'']"

section \<open>Values as texts\<close>

type_synonym local_id = nat

definition nextLocalId :: "nat \<Rightarrow> local_id \<times> nat" where
  "nextLocalId seed = (seed, Suc seed)"

definition toValueText :: "jsval \<Rightarrow> jsstr" where
  "toValueText v =
     (case v of
        JUndef \<Rightarrow> []
      | JStr s \<Rightarrow> s
      | _ \<Rightarrow> (case json_stringify v of Some t \<Rightarrow> t | None \<Rightarrow> js_to_string v))"

definition parseLooseValue :: "jsstr \<Rightarrow> jsval" where
  "parseLooseValue raw =
     (if trim raw = [] then JStr [] else (case json_parse raw of Some v \<Rightarrow> v | None \<Rightarrow> JStr raw))"

text \<open>\<open>String(item ?? '').trim()\<close>\<close>

definition item_text :: "jsval \<Rightarrow> jsstr" where
  "item_text v = (if is_nullish v then [] else trim (js_to_string v))"

definition item_texts :: "jsval list \<Rightarrow> jsstr list" where
  "item_texts vs = filter (\<lambda>s. s \<noteq> []) (map item_text vs)"

definition parsePassHeaderNames :: "jsval \<Rightarrow> jsstr list" where
  "parsePassHeaderNames rawValue =
     (case rawValue of
        JArr vs \<Rightarrow> item_texts vs
      | JObj ps \<Rightarrow>
          (case js_prop rawValue (js ''headers'') of
             JArr vs \<Rightarrow> item_texts vs
           | _ \<Rightarrow> if js_prop rawValue (js ''header'') \<noteq> JUndef
                  then (let single = item_text (js_prop rawValue (js ''header'')) in if single = [] then [] else [single])
                  else [])
      | JStr s \<Rightarrow> filter (\<lambda>w. w \<noteq> []) (map trim (split_unit 44 s))
      | _ \<Rightarrow> [])"

text \<open>
  \<open>toUpperCase\<close> and \<open>toLowerCase\<close> where the result is only compared with \<open>'AND'\<close>, \<open>'OR'\<close> or
  \<open>'header'\<close>: no code unit outside ASCII maps to one of these letters, so the ASCII part decides.
\<close>

definition ascii_upper :: "jsstr \<Rightarrow> jsstr" where
  "ascii_upper s = map (\<lambda>c. if 97 \<le> c \<and> c \<le> 122 then c - 32 else c) s"

definition ascii_lower :: "jsstr \<Rightarrow> jsstr" where
  "ascii_lower s = map (\<lambda>c. if 65 \<le> c \<and> c \<le> 90 then c + 32 else c) s"

section \<open>Drafts of two structured values\<close>

record return_draft =
  rd_message :: jsstr
  rd_statusCode :: jsnum
  rd_code :: jsstr
  rd_type :: jsstr
  rd_skipRetry :: bool
  rd_simpleMode :: bool

definition return_defaults :: return_draft where
  "return_defaults = \<lparr>rd_message = [], rd_statusCode = Fin 400, rd_code = [], rd_type = [], rd_skipRetry = True, rd_simpleMode = True\<rparr>"

definition valid_status :: "jsnum \<Rightarrow> jsnum" where
  "valid_status n =
     (case n of Fin q \<Rightarrow> if of_int \<lfloor>q\<rfloor> = q \<and> 100 \<le> q \<and> q \<le> 599 then n else Fin 400 | _ \<Rightarrow> Fin 400)"

text \<open>\<open>String(v || '').trim()\<close>\<close>

definition text_field :: "jsval \<Rightarrow> jsstr" where
  "text_field v = trim (js_to_string (js_or v (JStr [])))"

definition parseReturnErrorDraft :: "jsstr \<Rightarrow> return_draft" where
  "parseReturnErrorDraft valueText =
     (let raw = trim valueText; plain = return_defaults\<lparr>rd_message := raw\<rparr> in
      if raw = [] then return_defaults
      else (case json_parse raw of
          Some (JObj ps) \<Rightarrow>
            let parsed = JObj ps;
                statusRaw = (if js_prop parsed (js ''status_code'') \<noteq> JUndef then js_prop parsed (js ''status_code'')
                             else js_prop parsed (js ''status''))
            in \<lparr>rd_message = text_field (js_or (js_prop parsed (js ''message'')) (js_prop parsed (js ''msg''))),
                rd_statusCode = valid_status (js_to_number statusRaw),
                rd_code = text_field (js_prop parsed (js ''code'')),
                rd_type = text_field (js_prop parsed (js ''type'')),
                rd_skipRetry = (js_prop parsed (js ''skip_retry'') \<noteq> JBool False),
                rd_simpleMode = False\<rparr>
        | _ \<Rightarrow> plain))"

definition buildReturnErrorValueText :: "return_draft \<Rightarrow> jsstr" where
  "buildReturnErrorValueText d =
     (let message = trim (rd_message d) in
      if rd_simpleMode d then message
      else json_text (JObj
        ([(js ''message'', JStr message), (js ''status_code'', JNum (valid_status (rd_statusCode d)))]
         @ (if trim (rd_code d) \<noteq> [] then [(js ''code'', JStr (trim (rd_code d)))] else [])
         @ (if trim (rd_type d) \<noteq> [] then [(js ''type'', JStr (trim (rd_type d)))] else [])
         @ (if \<not> rd_skipRetry d then [(js ''skip_retry'', JBool False)] else []))))"

record po_condition =
  cd_id :: local_id
  cd_path :: jsstr
  cd_mode :: jsstr
  cd_value_text :: jsstr
  cd_invert :: bool
  cd_pass_missing_key :: bool

definition str_prop :: "jsval \<Rightarrow> string \<Rightarrow> jsstr" where  \<comment> \<open>\<open>typeof v.k === 'string' ? v.k : ''\<close>\<close>
  "str_prop v k = (case js_prop v (js k) of JStr s \<Rightarrow> s | _ \<Rightarrow> [])"

definition mode_prop :: "jsstr list \<Rightarrow> string \<Rightarrow> jsval \<Rightarrow> jsstr" where
  "mode_prop modes dflt v = (case js_prop v (js ''mode'') of JStr m \<Rightarrow> if m \<in> set modes then m else js dflt | _ \<Rightarrow> js dflt)"

definition normalizePruneRule :: "jsval \<Rightarrow> nat \<Rightarrow> po_condition \<times> nat" where
  "normalizePruneRule rule seed =
     (let (i, seed') = nextLocalId seed in
      (\<lparr>cd_id = i, cd_path = str_prop rule ''path'', cd_mode = mode_prop CONDITION_MODE_VALUES ''full'' rule,
        cd_value_text = toValueText (js_prop rule (js ''value'')), cd_invert = (js_prop rule (js ''invert'') = JBool True),
        cd_pass_missing_key = (js_prop rule (js ''pass_missing_key'') = JBool True)\<rparr>, seed'))"

fun map_seed :: "('a \<Rightarrow> nat \<Rightarrow> 'b \<times> nat) \<Rightarrow> 'a list \<Rightarrow> nat \<Rightarrow> 'b list \<times> nat" where
  "map_seed f [] seed = ([], seed)"
| "map_seed f (x # xs) seed = (let (y, s1) = f x seed; (ys, s2) = map_seed f xs s1 in (y # ys, s2))"

record prune_draft =
  pd_simpleMode :: bool
  pd_typeText :: jsstr
  pd_logic :: jsstr
  pd_recursive :: bool
  pd_rules :: "po_condition list"

definition prune_defaults :: prune_draft where
  "prune_defaults = \<lparr>pd_simpleMode = True, pd_typeText = [], pd_logic = js ''AND'', pd_recursive = True, pd_rules = []\<rparr>"

definition entry_rule :: "jsstr \<times> jsval \<Rightarrow> jsval" where
  "entry_rule e = JObj [(js ''path'', JStr (fst e)), (js ''mode'', JStr (js ''full'')), (js ''value'', snd e)]"

definition where_rules :: "jsval \<Rightarrow> jsval list" where
  "where_rules v = (case v of JObj ps \<Rightarrow> map entry_rule ps | _ \<Rightarrow> [])"

definition condition_rules :: "jsval \<Rightarrow> jsval list" where
  "condition_rules v =
     (case v of
        JArr vs \<Rightarrow> filter (\<lambda>item. truthy item \<and> typeof_object item) vs
      | JObj ps \<Rightarrow> map entry_rule ps
      | _ \<Rightarrow> [])"

definition or_logic :: "jsval \<Rightarrow> bool" where  \<comment> \<open>\<open>String(v || 'AND').toUpperCase() === 'OR'\<close>\<close>
  "or_logic v \<longleftrightarrow> ascii_upper (js_to_string (js_or v (JStr (js ''AND'')))) = js ''OR''"

definition parsePruneObjectsDraft :: "jsstr \<Rightarrow> nat \<Rightarrow> prune_draft \<times> nat" where
  "parsePruneObjectsDraft valueText seed =
     (let raw = trim valueText in
      if raw = [] then (prune_defaults, seed)
      else (case json_parse raw of
          None \<Rightarrow> (prune_defaults\<lparr>pd_typeText := raw\<rparr>, seed)
        | Some (JStr s) \<Rightarrow> (prune_defaults\<lparr>pd_typeText := trim s\<rparr>, seed)
        | Some (JObj ps) \<Rightarrow>
            let parsed = JObj ps;
                field = (\<lambda>k. js_prop parsed (js k));
                (rules, seed') = map_seed normalizePruneRule (where_rules (field ''where'') @ condition_rules (field ''conditions'')) seed
            in (\<lparr>pd_simpleMode = (field ''logic'' = JUndef \<and> field ''recursive'' = JUndef \<and> field ''where'' = JUndef \<and> field ''conditions'' = JUndef),
                 pd_typeText = (if field ''type'' = JUndef then [] else trim (js_to_string (field ''type''))),
                 pd_logic = (if or_logic (field ''logic'') then js ''OR'' else js ''AND''),
                 pd_recursive = (field ''recursive'' \<noteq> JBool False), pd_rules = rules\<rparr>, seed')
        | Some v \<Rightarrow> (prune_defaults\<lparr>pd_typeText := item_text v\<rparr>, seed)))"

definition prune_rule_payload :: "po_condition \<Rightarrow> jsval" where
  "prune_rule_payload rule =
     JObj ([(js ''path'', JStr (trim (cd_path rule))),
            (js ''mode'', JStr (if cd_mode rule \<in> set CONDITION_MODE_VALUES then cd_mode rule else js ''full''))]
           @ (if trim (cd_value_text rule) \<noteq> [] then [(js ''value'', parseLooseValue (trim (cd_value_text rule)))] else [])
           @ (if cd_invert rule then [(js ''invert'', JBool True)] else [])
           @ (if cd_pass_missing_key rule then [(js ''pass_missing_key'', JBool True)] else []))"

definition prune_conditions :: "prune_draft \<Rightarrow> jsval list" where
  "prune_conditions d = map prune_rule_payload (filter (\<lambda>rule. trim (cd_path rule) \<noteq> []) (pd_rules d))"

definition prune_payload :: "prune_draft \<Rightarrow> (jsstr \<times> jsval) list" where
  "prune_payload d =
     (if trim (pd_typeText d) \<noteq> [] then [(js ''type'', JStr (trim (pd_typeText d)))] else [])
     @ (if or_logic (JStr (pd_logic d)) then [(js ''logic'', JStr (js ''OR''))] else [])
     @ (if \<not> pd_recursive d then [(js ''recursive'', JBool False)] else [])
     @ (if prune_conditions d \<noteq> [] then [(js ''conditions'', JArr (prune_conditions d))] else [])"

definition buildPruneObjectsValueText :: "prune_draft \<Rightarrow> jsstr" where
  "buildPruneObjectsValueText d =
     (if pd_simpleMode d then trim (pd_typeText d)
      else if trim (pd_typeText d) = [] \<and> prune_conditions d = []
      then json_text (JObj [(js ''logic'', JStr (js ''AND''))])
      else json_text (JObj (prune_payload d)))"

section \<open>Synchronised fields\<close>

datatype sync_type = JsonTarget | HeaderTarget

definition parseSyncTargetSpec :: "jsstr \<Rightarrow> sync_type \<times> jsstr" where
  "parseSyncTargetSpec spec =
     (let raw = trim spec in
      if raw = [] then (JsonTarget, [])
      else if 58 \<notin> set raw then (JsonTarget, raw)
      else let prefix = ascii_lower (trim (takeWhile (\<lambda>c. c \<noteq> 58) raw));
               key = trim (tl (dropWhile (\<lambda>c. c \<noteq> 58) raw))
           in (if prefix = js ''header'' then HeaderTarget else JsonTarget, key))"

definition buildSyncTargetSpec :: "sync_type \<Rightarrow> jsstr \<Rightarrow> jsstr" where
  "buildSyncTargetSpec type key =
     (if trim key = [] then [] else (case type of HeaderTarget \<Rightarrow> js ''header'' | JsonTarget \<Rightarrow> js ''json'') @ [58] @ trim key)"

section \<open>Operations\<close>

record po_operation =
  op_id :: local_id
  op_description :: jsstr
  op_path :: jsstr
  op_mode :: jsstr
  op_value_text :: jsstr
  op_keep_origin :: bool
  op_from :: jsstr
  op_to :: jsstr
  op_logic :: jsstr
  op_conditions :: "po_condition list"

text \<open>A missing argument is the empty object; \<open>null\<close> throws.\<close>

definition normalizeCondition :: "jsval \<Rightarrow> nat \<Rightarrow> js_error + po_condition \<times> nat" where
  "normalizeCondition c seed =
     (if c = JNull then Inl TypeError
      else let (i, seed') = nextLocalId seed in
        Inr (\<lparr>cd_id = i, cd_path = str_prop c ''path'', cd_mode = mode_prop CONDITION_MODE_VALUES ''full'' c,
              cd_value_text = toValueText (js_prop c (js ''value'')), cd_invert = (js_prop c (js ''invert'') = JBool True),
              cd_pass_missing_key = (js_prop c (js ''pass_missing_key'') = JBool True)\<rparr>, seed'))"

fun try_map_seed :: "('a \<Rightarrow> nat \<Rightarrow> js_error + 'b \<times> nat) \<Rightarrow> 'a list \<Rightarrow> nat \<Rightarrow> js_error + 'b list \<times> nat" where
  "try_map_seed f [] seed = Inr ([], seed)"
| "try_map_seed f (x # xs) seed =
     (case f x seed of
        Inl e \<Rightarrow> Inl e
      | Inr (y, s1) \<Rightarrow> (case try_map_seed f xs s1 of Inl e \<Rightarrow> Inl e | Inr (ys, s2) \<Rightarrow> Inr (y # ys, s2)))"

definition and_logic :: "jsval \<Rightarrow> bool" where  \<comment> \<open>\<open>String(v || 'OR').toUpperCase() === 'AND'\<close>\<close>
  "and_logic v \<longleftrightarrow> ascii_upper (js_to_string (js_or v (JStr (js ''OR'')))) = js ''AND''"

definition normalizeOperation :: "jsval \<Rightarrow> nat \<Rightarrow> js_error + po_operation \<times> nat" where
  "normalizeOperation v seed =
     (if v = JNull then Inl TypeError
      else let (i, seed1) = nextLocalId seed in
        (case try_map_seed normalizeCondition (case js_prop v (js ''conditions'') of JArr cs \<Rightarrow> cs | _ \<Rightarrow> []) seed1 of
           Inl e \<Rightarrow> Inl e
         | Inr (conds, seed2) \<Rightarrow>
             Inr (\<lparr>op_id = i, op_description = str_prop v ''description'', op_path = str_prop v ''path'',
                   op_mode = mode_prop OPERATION_MODE_VALUES ''set'' v, op_value_text = toValueText (js_prop v (js ''value'')),
                   op_keep_origin = (js_prop v (js ''keep_origin'') = JBool True), op_from = str_prop v ''from'', op_to = str_prop v ''to'',
                   op_logic = (if and_logic (js_prop v (js ''logic'')) then js ''AND'' else js ''OR''), op_conditions = conds\<rparr>, seed2)))"

definition createDefaultCondition :: "nat \<Rightarrow> po_condition \<times> nat" where
  "createDefaultCondition seed =
     (\<lparr>cd_id = seed, cd_path = [], cd_mode = js ''full'', cd_value_text = [], cd_invert = False, cd_pass_missing_key = False\<rparr>, Suc seed)"

definition createDefaultOperation :: "nat \<Rightarrow> po_operation \<times> nat" where
  "createDefaultOperation seed =
     (\<lparr>op_id = seed, op_description = [], op_path = [], op_mode = js ''set'', op_value_text = [], op_keep_origin = False,
       op_from = [], op_to = [], op_logic = js ''OR'', op_conditions = []\<rparr>, Suc seed)"

fun find_id :: "('a \<Rightarrow> bool) \<Rightarrow> 'a list \<Rightarrow> nat option" where  \<comment> \<open>\<open>findIndex\<close>, \<open>None\<close> for -1\<close>
  "find_id P [] = None"
| "find_id P (x # xs) = (if P x then Some 0 else map_option Suc (find_id P xs))"

definition insert_at :: "nat \<Rightarrow> 'a \<Rightarrow> 'a list \<Rightarrow> 'a list" where  \<comment> \<open>\<open>splice(i, 0, x)\<close>\<close>
  "insert_at i x xs = take i xs @ x # drop i xs"

definition remove_at :: "nat \<Rightarrow> 'a list \<Rightarrow> 'a list" where  \<comment> \<open>\<open>splice(i, 1)\<close>\<close>
  "remove_at i xs = take i xs @ drop (Suc i) xs"

datatype drop_position = Before | After

definition reorderOperations :: "po_operation list \<Rightarrow> local_id option \<Rightarrow> local_id option \<Rightarrow> drop_position \<Rightarrow> po_operation list" where
  "reorderOperations ops sourceId targetId position =
     (if sourceId = None \<or> targetId = None \<or> sourceId = targetId then ops
      else (case find_id (\<lambda>item. op_id item = the sourceId) ops of
          None \<Rightarrow> ops
        | Some i \<Rightarrow>
            let moved = ops ! i; next_ops = remove_at i ops in
            (case find_id (\<lambda>item. op_id item = the targetId) next_ops of
               None \<Rightarrow> ops
             | Some j \<Rightarrow> insert_at (case position of After \<Rightarrow> j + 1 | Before \<Rightarrow> j) moved next_ops)))"

definition isOperationBlank :: "po_operation \<Rightarrow> bool" where
  "isOperationBlank op \<longleftrightarrow>
     op_mode op = js ''set'' \<and> trim (op_path op) = [] \<and> trim (op_from op) = [] \<and> trim (op_to op) = []
     \<and> trim (op_value_text op) = [] \<and> \<not> op_keep_origin op
     \<and> \<not> list_ex (\<lambda>c. trim (cd_path c) \<noteq> [] \<or> trim (cd_value_text c) \<noteq> [] \<or> cd_mode c \<noteq> js ''full'' \<or> cd_invert c \<or> cd_pass_missing_key c)
          (op_conditions op)"

definition buildConditionPayload :: "po_condition \<Rightarrow> jsval option" where
  "buildConditionPayload c =
     (if trim (cd_path c) = [] then None
      else Some (JObj ([(js ''path'', JStr (trim (cd_path c))),
              (js ''mode'', JStr (if cd_mode c = [] then js ''full'' else cd_mode c)),
              (js ''value'', parseLooseValue (cd_value_text c))]
            @ (if cd_invert c then [(js ''invert'', JBool True)] else [])
            @ (if cd_pass_missing_key c then [(js ''pass_missing_key'', JBool True)] else []))))"

section \<open>Validation\<close>

datatype po_problem =
    MissingPath | MissingFrom | MissingTo | MissingValue
  | ReturnErrorMessage | PruneEmpty | PruneConditions
  | MediaEmpty | MediaObject | MediaComponent | MediaJson
  | MapEmpty | MapObject | MapSources | MapMap | MapJson
  | HeadersEmpty | HeadersInvalid

definition plain_object :: "jsval \<Rightarrow> bool" where
  "plain_object v \<longleftrightarrow> truthy v \<and> typeof_object v \<and> \<not> is_array v"

definition check_return_error :: "jsstr \<Rightarrow> po_problem option" where
  "check_return_error raw =
     (if raw = [] then Some MissingValue
      else (case json_parse raw of
          Some parsed \<Rightarrow> if plain_object parsed \<and> text_field (js_prop parsed (js ''message'')) = [] then Some ReturnErrorMessage else None
        | None \<Rightarrow> None))"

definition check_prune :: "jsstr \<Rightarrow> po_problem option" where
  "check_prune raw =
     (if raw = [] then Some PruneEmpty
      else (case json_parse raw of
          Some parsed \<Rightarrow>
            if plain_object parsed
            then let ty = js_prop parsed (js ''type''); wh = js_prop parsed (js ''where''); cs = js_prop parsed (js ''conditions'');
                     hasType = (ty \<noteq> JUndef \<and> trim (js_to_string ty) \<noteq> []);
                     hasWhere = (plain_object wh \<and> entries wh \<noteq> []);
                     hasConditionsArray = (case cs of JArr vs \<Rightarrow> vs \<noteq> [] | _ \<Rightarrow> False);
                     hasConditionsObject = (plain_object cs \<and> entries cs \<noteq> [])
                 in if \<not> hasType \<and> \<not> hasWhere \<and> \<not> hasConditionsArray \<and> \<not> hasConditionsObject then Some PruneConditions else None
            else None
        | None \<Rightarrow> None))"

definition check_media :: "jsstr \<Rightarrow> po_problem option" where
  "check_media raw =
     (if raw = [] then Some MediaEmpty
      else (case json_parse raw of
          Some parsed \<Rightarrow>
            if \<not> plain_object parsed then Some MediaObject
            else if text_field (js_prop parsed (js ''component'')) = [] then Some MediaComponent else None
        | None \<Rightarrow> Some MediaJson))"

definition map_sources :: "jsval \<Rightarrow> jsval list" where
  "map_sources parsed =
     (case js_prop parsed (js ''sources'') of
        JArr vs \<Rightarrow> vs
      | JUndef \<Rightarrow> if js_prop parsed (js ''source'') \<noteq> JUndef then [js_prop parsed (js ''source'')] else []
      | v \<Rightarrow> [v])"

definition check_map :: "jsstr \<Rightarrow> po_problem option" where
  "check_map raw =
     (if raw = [] then Some MapEmpty
      else (case json_parse raw of
          Some parsed \<Rightarrow>
            if \<not> plain_object parsed then Some MapObject
            else if item_texts (map_sources parsed) = [] then Some MapSources
            else if js_prop parsed (js ''map'') \<noteq> JUndef \<and> \<not> plain_object (js_prop parsed (js ''map'')) then Some MapMap
            else None
        | None \<Rightarrow> Some MapJson))"

definition check_headers :: "jsstr \<Rightarrow> po_problem option" where
  "check_headers raw =
     (if raw = [] then Some HeadersEmpty
      else if parsePassHeaderNames (parseLooseValue raw) = [] then Some HeadersInvalid else None)"

definition mode_of :: "po_operation \<Rightarrow> jsstr" where  \<comment> \<open>\<open>operation.mode || 'set'\<close>\<close>
  "mode_of op = (if op_mode op = [] then js ''set'' else op_mode op)"

definition validateOperation :: "po_operation \<Rightarrow> po_problem option" where
  "validateOperation op =
     (let mode = mode_of op; meta = meta_of mode;
          pathValue = trim (op_path op); fromValue = trim (op_from op); toValue = trim (op_to op);
          raw = trim (op_value_text op); alias = (m_pathAlias meta \<and> pathValue \<noteq> [])
      in if m_path meta \<and> pathValue = [] then Some MissingPath
         else if mode \<in> set FROM_REQUIRED_MODES \<and> fromValue = [] \<and> \<not> alias then Some MissingFrom
         else if mode \<in> set TO_REQUIRED_MODES \<and> toValue = [] \<and> \<not> alias then Some MissingTo
         else if m_from meta \<and> fromValue = [] then Some MissingFrom
         else if m_to meta \<and> toValue = [] then Some MissingTo
         else if mode \<in> set VALUE_REQUIRED_MODES \<and> raw = [] then Some MissingValue
         else if mode = js ''return_error'' then check_return_error raw
         else if mode = js ''prune_objects'' then check_prune raw
         else if mode = js ''transform_media'' then check_media raw
         else if mode = js ''map_param'' then check_map raw
         else if mode = js ''pass_headers'' then check_headers raw
         else None)"

fun validate_from :: "nat \<Rightarrow> po_operation list \<Rightarrow> (po_problem \<times> nat) option" where
  "validate_from line [] = None"
| "validate_from line (op # ops) =
     (case validateOperation op of Some p \<Rightarrow> Some (p, line) | None \<Rightarrow> validate_from (Suc line) ops)"

definition validateOperations :: "po_operation list \<Rightarrow> (po_problem \<times> nat) option" where
  "validateOperations ops = validate_from 1 ops"

section \<open>Writing the configuration\<close>

definition add_field :: "string \<Rightarrow> bool \<Rightarrow> jsval \<Rightarrow> (jsstr \<times> jsval) list \<Rightarrow> (jsstr \<times> jsval) list" where
  "add_field k c v ps = (if c then obj_put (js k) v ps else ps)"  \<comment> \<open>\<open>if (c) payload.k = v\<close>\<close>

definition payload_start :: "po_operation \<Rightarrow> (jsstr \<times> jsval) list" where
  "payload_start op =
     (let meta = meta_of (mode_of op); pathValue = trim (op_path op); descriptionValue = trim (op_description op);
          p0 = [(js ''mode'', JStr (mode_of op))];
          p1 = add_field ''description'' (descriptionValue \<noteq> []) (JStr descriptionValue) p0;
          p2 = add_field ''path'' (m_path meta) (JStr pathValue) p1;
          p3 = add_field ''path'' (m_pathOptional meta \<and> pathValue \<noteq> []) (JStr pathValue) p2;
          p4 = add_field ''value'' (m_value meta) (parseLooseValue (op_value_text op)) p3
      in add_field ''keep_origin'' (m_keepOrigin meta \<and> op_keep_origin op) (JBool True) p4)"

definition payload_from_to :: "po_operation \<Rightarrow> (jsstr \<times> jsval) list \<Rightarrow> (jsstr \<times> jsval) list" where
  "payload_from_to op ps =
     (let meta = meta_of (mode_of op); fromValue = trim (op_from op); toValue = trim (op_to op);
          p1 = add_field ''from'' (m_from meta) (JStr fromValue) ps;
          p2 = add_field ''to'' (\<not> m_to meta \<and> toValue \<noteq> []) (JStr toValue) p1
      in add_field ''to'' (m_to meta) (JStr toValue) p2)"

definition payload_alias :: "po_operation \<Rightarrow> (jsstr \<times> jsval) list \<Rightarrow> (jsstr \<times> jsval) list" where
  "payload_alias op ps =
     (if m_pathAlias (meta_of (mode_of op))
      then let pathValue = trim (op_path op);
               p1 = add_field ''from'' (\<not> truthy (js_prop (JObj ps) (js ''from'')) \<and> pathValue \<noteq> []) (JStr pathValue) ps
           in add_field ''to'' (\<not> truthy (js_prop (JObj p1) (js ''to'')) \<and> pathValue \<noteq> []) (JStr pathValue) p1
      else ps)"

definition payload_conditions :: "po_operation \<Rightarrow> (jsstr \<times> jsval) list \<Rightarrow> (jsstr \<times> jsval) list" where
  "payload_conditions op ps =
     (let conditions = List.map_filter buildConditionPayload (op_conditions op) in
      add_field ''logic'' (conditions \<noteq> []) (JStr (if op_logic op = js ''AND'' then js ''AND'' else js ''OR''))
        (add_field ''conditions'' (conditions \<noteq> []) (JArr conditions) ps))"

definition operation_payload :: "po_operation \<Rightarrow> jsval" where
  "operation_payload op = JObj (payload_conditions op (payload_alias op (payload_from_to op (payload_start op))))"

definition buildOperationsJson :: "bool \<Rightarrow> po_operation list \<Rightarrow> (po_problem \<times> nat) + jsstr" where
  "buildOperationsJson validate ops =
     (let filtered = filter (\<lambda>op. \<not> isOperationBlank op) ops;
          problem = (if validate then validateOperations filtered else None)
      in if filtered = [] then Inr []
         else (case problem of
             Some p \<Rightarrow> Inl p
           | None \<Rightarrow> Inr (pretty_text 0 (JObj [(js ''operations'', JArr (map operation_payload filtered))]))))"

section \<open>Reading the configuration\<close>

datatype edit_mode = Visual | JsonMode
datatype visual_mode = OperationsMode | LegacyMode

datatype po_message =
    Problem po_problem nat
  | BadFormat            \<comment> \<open>the stored text is no JSON\<close>
  | MustBeJson | JsonInvalid | MustBeObject | LegacyObject | LegacyInvalid | LegacyNotAppendable
  | SelectRule | NotWritable | NotFormattable | Formatted

record initial_state =
  in_editMode :: edit_mode
  in_visualMode :: visual_mode
  in_legacyValue :: jsstr
  in_operations :: "po_operation list"
  in_jsonText :: jsstr
  in_jsonError :: "po_message option"

definition read_operations :: "jsval list \<Rightarrow> nat \<Rightarrow> js_error + po_operation list \<times> nat" where
  "read_operations vs seed =
     (if vs = [] then let (op, seed') = createDefaultOperation seed in Inr ([op], seed')
      else try_map_seed normalizeOperation vs seed)"

definition parseInitialState :: "jsval \<Rightarrow> nat \<Rightarrow> js_error + initial_state \<times> nat" where
  "parseInitialState rawValue seed =
     (let text = (case rawValue of JStr s \<Rightarrow> s | _ \<Rightarrow> []); trimmed = trim text;
          (fallback, seed1) = createDefaultOperation seed;
          base = \<lparr>in_editMode = Visual, in_visualMode = OperationsMode, in_legacyValue = [], in_operations = [fallback],
                  in_jsonText = [], in_jsonError = None\<rparr>
      in if trimmed = [] then Inr (base, seed1)
         else (case json_parse trimmed of
             None \<Rightarrow> Inr (base\<lparr>in_editMode := JsonMode, in_jsonText := text, in_jsonError := Some BadFormat\<rparr>, seed1)
           | Some parsed \<Rightarrow>
               let pretty = pretty_text 0 parsed in
               if plain_object parsed then
                 (case js_prop parsed (js ''operations'') of
                    JArr vs \<Rightarrow> (case read_operations vs seed of
                        Inl e \<Rightarrow> Inl e
                      | Inr (ops, seed') \<Rightarrow> Inr (base\<lparr>in_operations := ops, in_jsonText := pretty\<rparr>, seed'))
                  | _ \<Rightarrow> Inr (base\<lparr>in_visualMode := LegacyMode, in_legacyValue := pretty, in_jsonText := pretty\<rparr>, seed1))
               else Inr (base\<lparr>in_editMode := JsonMode, in_jsonText := pretty\<rparr>, seed1)))"

end
