(* ===== verification/ParamOverrideRoundtrip.thy ===== *)
theory ParamOverrideRoundtrip
  imports ParamOverride "HOL-Library.Multiset"
begin

text \<open>
  Properties of the parameter override texts: which values survive the editor's text fields, that a
  written configuration is read back with the same meaning, the drafts of structured values, and
  the order of operations.
\<close>

section \<open>Fields of a written operation\<close>

definition opt_field :: "string \<Rightarrow> bool \<Rightarrow> jsval \<Rightarrow> (jsstr \<times> jsval) list" where
  "opt_field k c v = (if c then [(js k, v)] else [])"

lemma map_of_opt_field [simp]:
  "map_of (opt_field k c v @ rest) j = (if c \<and> j = js k then Some v else map_of rest j)"
  "map_of (opt_field k c v) j = (if c \<and> j = js k then Some v else None)"
  by (simp_all add: opt_field_def)

definition payload_keys :: "string list" where
  "payload_keys = [''mode'', ''description'', ''path'', ''value'', ''keep_origin'', ''from'', ''to'', ''conditions'', ''logic'']"

lemma index_key_name: "k \<noteq> [] \<Longrightarrow> \<not> is_digit (of_char (hd k)) \<Longrightarrow> index_key (js k) = None"
  by (cases k) (auto simp: index_key_def js_Cons)

lemma payload_key_names: "k \<in> set payload_keys \<Longrightarrow> key_before (js k) l = False"
  by (auto simp: payload_keys_def key_before_def index_key_name is_digit_def)

lemma obj_put_new:
  assumes "k \<in> set payload_keys" and "js k \<notin> fst ` set ps"
  shows "obj_put (js k) v ps = ps @ [(js k, v)]"
  using assms by (intro obj_put_last) (auto simp: payload_key_names)

abbreviation op_meta :: "po_operation \<Rightarrow> mode_meta" where
  "op_meta op \<equiv> meta_of (op_mode op)"

text \<open>The sources and targets an operation denotes, the path standing in where the mode allows it.\<close>

definition eff_from :: "po_operation \<Rightarrow> jsstr" where
  "eff_from op = (if m_pathAlias (op_meta op) \<and> trim (op_from op) = [] then trim (op_path op) else trim (op_from op))"

definition eff_to :: "po_operation \<Rightarrow> jsstr" where
  "eff_to op = (if m_pathAlias (op_meta op) \<and> trim (op_to op) = [] then trim (op_path op) else trim (op_to op))"

definition eff_conditions :: "po_operation \<Rightarrow> jsval list" where
  "eff_conditions op = List.map_filter buildConditionPayload (op_conditions op)"

text \<open>The modes whose path may stand in for source and target have both.\<close>

lemma meta_alias_from_to: "m_pathAlias (meta_of mode) \<Longrightarrow> m_from (meta_of mode) \<and> m_to (meta_of mode)"
  unfolding meta_of_def MODE_META_def no_meta_def by (simp split: option.splits) (auto split: if_splits)

lemma meta_path_excl: "m_path (meta_of mode) \<Longrightarrow> \<not> m_pathOptional (meta_of mode)"
  unfolding meta_of_def MODE_META_def no_meta_def by (simp split: option.splits) (auto split: if_splits)


lemma meta_alias_path: "m_pathAlias (meta_of mode) \<Longrightarrow> \<not> m_path (meta_of mode) \<and> \<not> m_pathOptional (meta_of mode)"
  unfolding meta_of_def MODE_META_def no_meta_def by (simp split: option.splits) (auto split: if_splits)

lemma meta_set: "m_path (meta_of (js ''set''))"
  by (simp add: meta_of_def MODE_META_def no_meta_def)

text \<open>Adding a field the payload does not have yet.\<close>

lemma add_field_new:
  "k \<in> set payload_keys \<Longrightarrow> js k \<notin> fst ` set ps \<Longrightarrow> add_field k c v ps = ps @ opt_field k c v"
  by (simp add: add_field_def obj_put_new opt_field_def)

lemma obj_update_mid: "k \<notin> fst ` set ps \<Longrightarrow> obj_update k w (ps @ (k, v) # qs) = ps @ (k, w) # qs"
  by (induction ps) auto

lemma put_present: "k \<notin> fst ` set ps \<Longrightarrow> obj_put k w (ps @ (k, v) # qs) = ps @ (k, w) # qs"
  by (simp add: obj_put_def obj_update_mid)

lemma keys_opt_field: "fst ` set (opt_field k c v) = (if c then {js k} else {})"
  by (simp add: opt_field_def)

lemma payload_keys_mem:
  "''description'' \<in> set payload_keys" "''path'' \<in> set payload_keys" "''value'' \<in> set payload_keys"
  "''keep_origin'' \<in> set payload_keys" "''from'' \<in> set payload_keys" "''to'' \<in> set payload_keys"
  "''conditions'' \<in> set payload_keys" "''logic'' \<in> set payload_keys"
  by (simp_all add: payload_keys_def)

lemma mode_of_known: "op_mode op \<noteq> [] \<Longrightarrow> mode_of op = op_mode op"
  by (simp add: mode_of_def)

definition start_fields :: "po_operation \<Rightarrow> (jsstr \<times> jsval) list" where
  "start_fields op =
     (js ''mode'', JStr (op_mode op))
     # opt_field ''description'' (trim (op_description op) \<noteq> []) (JStr (trim (op_description op)))
     @ opt_field ''path'' (m_path (op_meta op) \<or> m_pathOptional (op_meta op) \<and> trim (op_path op) \<noteq> []) (JStr (trim (op_path op)))
     @ opt_field ''value'' (m_value (op_meta op)) (parseLooseValue (op_value_text op))
     @ opt_field ''keep_origin'' (m_keepOrigin (op_meta op) \<and> op_keep_origin op) (JBool True)"

lemma keys_start: "fst ` set (start_fields op) \<subseteq> {js ''mode'', js ''description'', js ''path'', js ''value'', js ''keep_origin''}"
  by (auto simp: start_fields_def opt_field_def)

lemma path_fields:
  assumes "js ''path'' \<notin> fst ` set ps"
  shows "add_field ''path'' (m_pathOptional (meta_of m) \<and> c) v (add_field ''path'' (m_path (meta_of m)) v ps) =
    ps @ opt_field ''path'' (m_path (meta_of m) \<or> m_pathOptional (meta_of m) \<and> c) v"
proof (cases "m_path (meta_of m)")
  case True
  then have "add_field ''path'' False v (add_field ''path'' True v ps) = ps @ opt_field ''path'' True v"
    using assms by (simp add: add_field_def [of _ False] add_field_new payload_keys_mem)
  with True show ?thesis using meta_path_excl [OF True] by simp
next
  case False
  then show ?thesis using assms by (simp add: add_field_def [of _ False] add_field_new payload_keys_mem)
qed

lemma payload_start_fields: "op_mode op \<noteq> [] \<Longrightarrow> payload_start op = start_fields op"
  unfolding payload_start_def Let_def mode_of_known start_fields_def
  by (simp add: add_field_new [of "''description''"] add_field_new [of "''value''"] add_field_new [of "''keep_origin''"]
      path_fields payload_keys_mem image_Un keys_opt_field)

lemma from_to_fields:
  assumes "op_mode op \<noteq> []" and "js ''from'' \<notin> fst ` set ps" and "js ''to'' \<notin> fst ` set ps"
  shows "payload_from_to op ps = ps @ opt_field ''from'' (m_from (op_meta op)) (JStr (trim (op_from op)))
    @ opt_field ''to'' (m_to (op_meta op) \<or> trim (op_to op) \<noteq> []) (JStr (trim (op_to op)))"
  using assms
  by (cases "m_to (op_meta op)")
    (simp_all add: payload_from_to_def mode_of_known Let_def add_field_new [of "''from''"] add_field_new [of "''to''"]
      opt_field_def [of _ False] add_field_def [of _ False] payload_keys_mem image_Un keys_opt_field)

lemma alias_fields:
  assumes "op_mode op \<noteq> []" and "m_pathAlias (op_meta op)" and "js ''from'' \<notin> fst ` set ps" and "js ''to'' \<notin> fst ` set ps"
  shows "payload_alias op (ps @ [(js ''from'', JStr (trim (op_from op))), (js ''to'', JStr (trim (op_to op)))]) =
    ps @ [(js ''from'', JStr (eff_from op)), (js ''to'', JStr (eff_to op))]"
proof -
  let ?F = "trim (op_from op)" and ?T = "trim (op_to op)" and ?P = "trim (op_path op)"
  have m: "map_of ps (js ''from'') = None" "map_of ps (js ''to'') = None" using assms(3,4) by (simp_all add: map_of_eq_None_iff)
  have look: "map_of (ps @ [(js ''from'', v), (js ''to'', w)]) (js ''from'') = Some v"
    "map_of (ps @ [(js ''from'', v), (js ''to'', w)]) (js ''to'') = Some w" for v w
    using m by (simp_all add: map_add_def)
  have f: "add_field ''from'' (\<not> truthy (js_prop (JObj (ps @ [(js ''from'', JStr ?F), (js ''to'', JStr ?T)])) (js ''from'')) \<and> ?P \<noteq> [])
      (JStr ?P) (ps @ [(js ''from'', JStr ?F), (js ''to'', JStr ?T)]) = ps @ [(js ''from'', JStr (eff_from op)), (js ''to'', JStr ?T)]"
    using assms(2,3) look by (auto simp: add_field_def eff_from_def put_present simp del: map_of_append)
  have "ps @ [(js ''from'', v), (js ''to'', w)] = (ps @ [(js ''from'', v)]) @ [(js ''to'', w)]" for v w by simp
  then have "add_field ''to'' (\<not> truthy (js_prop (JObj (ps @ [(js ''from'', v), (js ''to'', JStr ?T)])) (js ''to'')) \<and> ?P \<noteq> [])
      (JStr ?P) (ps @ [(js ''from'', v), (js ''to'', JStr ?T)]) = ps @ [(js ''from'', v), (js ''to'', JStr (eff_to op))]" for v
    using assms(2,4) look put_present [of "js ''to''" "ps @ [(js ''from'', v)]" "JStr ?P" "JStr ?T" "[]"]
    by (auto simp: add_field_def eff_to_def simp del: map_of_append)
  with f show ?thesis using assms(1,2) by (simp add: payload_alias_def mode_of_known)
qed

lemma target_fields:
  assumes "op_mode op \<noteq> []" and "js ''from'' \<notin> fst ` set ps" and "js ''to'' \<notin> fst ` set ps"
  shows "payload_alias op (payload_from_to op ps) = ps @ opt_field ''from'' (m_from (op_meta op)) (JStr (eff_from op))
    @ opt_field ''to'' (m_to (op_meta op) \<or> trim (op_to op) \<noteq> []) (JStr (eff_to op))"
proof (cases "m_pathAlias (op_meta op)")
  case True
  then show ?thesis
    using from_to_fields [OF assms] alias_fields [OF assms(1) True assms(2,3)] meta_alias_from_to [OF True]
    by (simp add: opt_field_def)
next
  case False
  then show ?thesis
    using from_to_fields [OF assms] assms(1) by (simp add: payload_alias_def mode_of_known eff_from_def eff_to_def)
qed

definition payload_fields :: "po_operation \<Rightarrow> (jsstr \<times> jsval) list" where
  "payload_fields op =
     start_fields op
     @ opt_field ''from'' (m_from (op_meta op)) (JStr (eff_from op))
     @ opt_field ''to'' (m_to (op_meta op) \<or> trim (op_to op) \<noteq> []) (JStr (eff_to op))
     @ opt_field ''conditions'' (eff_conditions op \<noteq> []) (JArr (eff_conditions op))
     @ opt_field ''logic'' (eff_conditions op \<noteq> []) (JStr (if op_logic op = js ''AND'' then js ''AND'' else js ''OR''))"

lemma operation_payload_fields:
  assumes "op_mode op \<noteq> []"
  shows "operation_payload op = JObj (payload_fields op)"
proof -
  have k: "js ''from'' \<notin> fst ` set (start_fields op)" "js ''to'' \<notin> fst ` set (start_fields op)"
    "js ''conditions'' \<notin> fst ` set (start_fields op)" "js ''logic'' \<notin> fst ` set (start_fields op)"
    using keys_start [of op] by auto
  show ?thesis
    unfolding operation_payload_def payload_start_fields [OF assms] target_fields [OF assms k(1,2)]
      payload_conditions_def Let_def payload_fields_def eff_conditions_def [symmetric]
    using k by (simp add: add_field_new payload_keys_mem image_Un keys_opt_field)
qed

section \<open>Reading a written operation\<close>

lemma payload_props:
  assumes "op_mode op \<noteq> []"
  shows "js_prop (operation_payload op) (js ''mode'') = JStr (op_mode op)"
    and "js_prop (operation_payload op) (js ''description'') = (if trim (op_description op) \<noteq> [] then JStr (trim (op_description op)) else JUndef)"
    and "js_prop (operation_payload op) (js ''path'') =
      (if m_path (op_meta op) \<or> m_pathOptional (op_meta op) \<and> trim (op_path op) \<noteq> [] then JStr (trim (op_path op)) else JUndef)"
    and "js_prop (operation_payload op) (js ''value'') = (if m_value (op_meta op) then parseLooseValue (op_value_text op) else JUndef)"
    and "js_prop (operation_payload op) (js ''keep_origin'') = (if m_keepOrigin (op_meta op) \<and> op_keep_origin op then JBool True else JUndef)"
    and "js_prop (operation_payload op) (js ''from'') = (if m_from (op_meta op) then JStr (eff_from op) else JUndef)"
    and "js_prop (operation_payload op) (js ''to'') = (if m_to (op_meta op) \<or> trim (op_to op) \<noteq> [] then JStr (eff_to op) else JUndef)"
    and "js_prop (operation_payload op) (js ''conditions'') = (if eff_conditions op \<noteq> [] then JArr (eff_conditions op) else JUndef)"
    and "js_prop (operation_payload op) (js ''logic'') =
      (if eff_conditions op \<noteq> [] then JStr (if op_logic op = js ''AND'' then js ''AND'' else js ''OR'') else JUndef)"
  unfolding operation_payload_fields [OF assms] payload_fields_def start_fields_def
  by (simp_all only: append_Cons append_assoc js_prop.simps map_of.simps fst_conv snd_conv map_of_opt_field fun_upd_apply js_inject
      list.simps char.simps if_False if_True simp_thms option.case refl) (simp_all split: if_splits)

text \<open>A value that the text field of the editor gives back as it was.\<close>

definition stable_value :: "jsval \<Rightarrow> bool" where
  "stable_value v \<longleftrightarrow> parseLooseValue (toValueText v) = v"

definition condition_ok :: "po_condition \<Rightarrow> bool" where
  "condition_ok c \<longleftrightarrow> cd_mode c \<in> set CONDITION_MODE_VALUES \<and> stable_value (parseLooseValue (cd_value_text c))"

definition operation_ok :: "po_operation \<Rightarrow> bool" where
  "operation_ok op \<longleftrightarrow> op_mode op \<in> set OPERATION_MODE_VALUES \<and> stable_value (parseLooseValue (op_value_text op))
     \<and> list_all condition_ok (op_conditions op) \<and> json_ok (operation_payload op)"

lemma mode_nonempty: "m \<in> set OPERATION_MODE_VALUES \<Longrightarrow> m \<noteq> []" "m \<in> set CONDITION_MODE_VALUES \<Longrightarrow> m \<noteq> []"
  by (auto simp: OPERATION_MODE_VALUES_def CONDITION_MODE_VALUES_def)

lemma reread_condition:
  assumes "condition_ok c" and "buildConditionPayload c = Some v"
  shows "\<exists>c'. normalizeCondition v seed = Inr (c', Suc seed) \<and> buildConditionPayload c' = Some v"
proof -
  have p: "trim (cd_path c) \<noteq> []" using assms(2) by (auto simp: buildConditionPayload_def split: if_splits)
  have m: "cd_mode c \<noteq> []" "cd_mode c \<in> set CONDITION_MODE_VALUES"
    using assms(1) mode_nonempty by (auto simp: condition_ok_def)
  let ?w = "parseLooseValue (cd_value_text c)"
  let ?c = "\<lparr>cd_id = seed, cd_path = trim (cd_path c), cd_mode = cd_mode c, cd_value_text = toValueText ?w,
    cd_invert = cd_invert c, cd_pass_missing_key = cd_pass_missing_key c\<rparr>"
  have v: "v = JObj ([(js ''path'', JStr (trim (cd_path c))), (js ''mode'', JStr (cd_mode c)), (js ''value'', ?w)]
        @ (if cd_invert c then [(js ''invert'', JBool True)] else [])
        @ (if cd_pass_missing_key c then [(js ''pass_missing_key'', JBool True)] else []))"
    using assms(2) p m(1) by (simp add: buildConditionPayload_def)
  have "normalizeCondition v seed = Inr (?c, Suc seed)"
    unfolding v using m(2)
    by (simp add: normalizeCondition_def nextLocalId_def str_prop_def mode_prop_def)
  moreover have "parseLooseValue (toValueText ?w) = ?w" using assms(1) by (simp add: condition_ok_def stable_value_def)
  then have "buildConditionPayload ?c = Some v"
    unfolding v using p m(1) by (simp add: buildConditionPayload_def)
  ultimately show ?thesis by blast
qed

lemma reread_conditions:
  assumes "list_all condition_ok cs"
  shows "\<exists>ds seed'. try_map_seed normalizeCondition (List.map_filter buildConditionPayload cs) seed = Inr (ds, seed')
    \<and> List.map_filter buildConditionPayload ds = List.map_filter buildConditionPayload cs"
  using assms
proof (induction cs arbitrary: seed)
  case (Cons c cs)
  show ?case
  proof (cases "buildConditionPayload c")
    case None
    then show ?thesis using Cons by (simp add: List.map_filter_simps)
  next
    case (Some v)
    obtain c' where c': "normalizeCondition v seed = Inr (c', Suc seed)" "buildConditionPayload c' = Some v"
      using reread_condition [OF _ Some, of seed] Cons.prems by auto
    obtain ds s' where ds: "try_map_seed normalizeCondition (List.map_filter buildConditionPayload cs) (Suc seed) = Inr (ds, s')"
        "List.map_filter buildConditionPayload ds = List.map_filter buildConditionPayload cs"
      using Cons.IH [of "Suc seed"] Cons.prems by auto
    show ?thesis using Some c' ds by (intro exI [of _ "c' # ds"] exI [of _ s']) (simp add: List.map_filter_simps)
  qed
qed (simp add: List.map_filter_simps)

text \<open>The operation that reading back a written one gives, with new ids.\<close>

definition reread :: "po_operation \<Rightarrow> local_id \<Rightarrow> po_condition list \<Rightarrow> po_operation" where
  "reread op i ds = \<lparr>op_id = i, op_description = trim (op_description op),
    op_path = (if m_path (op_meta op) \<or> m_pathOptional (op_meta op) then trim (op_path op) else []),
    op_mode = op_mode op, op_value_text = (if m_value (op_meta op) then toValueText (parseLooseValue (op_value_text op)) else []),
    op_keep_origin = (m_keepOrigin (op_meta op) \<and> op_keep_origin op), op_from = (if m_from (op_meta op) then eff_from op else []),
    op_to = (if m_to (op_meta op) \<or> trim (op_to op) \<noteq> [] then eff_to op else []),
    op_logic = (if eff_conditions op \<noteq> [] \<and> op_logic op = js ''AND'' then js ''AND'' else js ''OR''), op_conditions = ds\<rparr>"

lemma reread_simps [simp]:
  "op_mode (reread op i ds) = op_mode op" "op_description (reread op i ds) = trim (op_description op)"
  "op_conditions (reread op i ds) = ds" "op_keep_origin (reread op i ds) = (m_keepOrigin (op_meta op) \<and> op_keep_origin op)"
  by (simp_all add: reread_def)

lemma str_if: "(case if c then JStr s else JUndef of JStr s \<Rightarrow> s | _ \<Rightarrow> []) = (if c then s else [])"
  by simp

lemma logic_texts: "and_logic (if c then JStr (if d then js ''AND'' else js ''OR'') else JUndef) \<longleftrightarrow> c \<and> d"
  by (auto simp: and_logic_def js_or_def ascii_upper_def js_def)

lemma normalize_reread:
  assumes "op_mode op \<in> set OPERATION_MODE_VALUES"
    and "try_map_seed normalizeCondition (eff_conditions op) (Suc seed) = Inr (ds, seed')"
  shows "normalizeOperation (operation_payload op) seed = Inr (reread op seed ds, seed')"
proof -
  have m: "op_mode op \<noteq> []" using assms(1) mode_nonempty by blast
  have c: "(case if eff_conditions op \<noteq> [] then JArr (eff_conditions op) else JUndef of JArr cs \<Rightarrow> cs | _ \<Rightarrow> []) = eff_conditions op"
    by simp
  have d: "(if trim s \<noteq> [] then trim s else []) = trim s" for s by simp
  have p: "(if a \<or> b \<and> trim s \<noteq> [] then trim s else []) = (if a \<or> b then trim s else [])" for a b s by auto
  have v: "toValueText (if a then w else JUndef) = (if a then toValueText w else [])" for a w by (simp add: toValueText_def)
  have k: "((if a then JBool True else JUndef) = JBool True) = a" for a by simp
  have nn: "operation_payload op \<noteq> JNull" by (simp add: operation_payload_def)
  show ?thesis
    unfolding normalizeOperation_def str_prop_def mode_prop_def payload_props [OF m] str_if c d p v k logic_texts
      nextLocalId_def reread_def
    using nn assms by simp
qed

lemma payload_reread:
  assumes "operation_ok op" and "List.map_filter buildConditionPayload ds = eff_conditions op"
  shows "operation_payload (reread op i ds) = operation_payload op"
proof -
  let ?r = "reread op i ds"
  have m: "op_mode op \<noteq> []" using assms(1) mode_nonempty by (auto simp: operation_ok_def)
  have v: "parseLooseValue (op_value_text ?r) = parseLooseValue (op_value_text op)" if "m_value (op_meta op)"
    using assms(1) that by (simp add: operation_ok_def stable_value_def reread_def)
  have e: "eff_conditions ?r = eff_conditions op" using assms(2) by (simp add: eff_conditions_def)
  have f: "eff_from ?r = eff_from op" if "m_from (op_meta op)"
    using meta_alias_path [of "op_mode op"] that by (auto simp: eff_from_def reread_def)
  have to: "eff_to ?r = eff_to op" if "m_to (op_meta op) \<or> trim (op_to op) \<noteq> []"
    using meta_alias_path [of "op_mode op"] that by (auto simp: eff_to_def reread_def)
  have to_c: "m_to (op_meta op) \<or> trim (op_to ?r) \<noteq> [] \<longleftrightarrow> m_to (op_meta op) \<or> trim (op_to op) \<noteq> []"
    using meta_alias_from_to [of "op_mode op"] by (auto simp: eff_to_def reread_def)
  have path: "opt_field ''path'' (m_path (op_meta op) \<or> m_pathOptional (op_meta op) \<and> trim (op_path ?r) \<noteq> []) (JStr (trim (op_path ?r))) =
      opt_field ''path'' (m_path (op_meta op) \<or> m_pathOptional (op_meta op) \<and> trim (op_path op) \<noteq> []) (JStr (trim (op_path op)))"
    by (auto simp: reread_def opt_field_def)
  have logic: "opt_field ''logic'' (eff_conditions op \<noteq> []) (JStr (if op_logic ?r = js ''AND'' then js ''AND'' else js ''OR'')) =
      opt_field ''logic'' (eff_conditions op \<noteq> []) (JStr (if op_logic op = js ''AND'' then js ''AND'' else js ''OR''))"
    by (auto simp: reread_def opt_field_def)
  have cong: "opt_field k c w = opt_field k c w'" if "c \<Longrightarrow> w = w'" for k c w w' using that by (auto simp: opt_field_def)
  have "payload_fields ?r = payload_fields op"
    unfolding payload_fields_def start_fields_def reread_simps e to_c path logic trim_idem
    using cong [where k = "''value''" and c = "m_value (op_meta op)", OF v]
      cong [where k = "''from''" and c = "m_from (op_meta op)" and w = "JStr (eff_from ?r)" and w' = "JStr (eff_from op)"] f
      cong [where k = "''to''" and c = "m_to (op_meta op) \<or> trim (op_to op) \<noteq> []" and w = "JStr (eff_to ?r)" and w' = "JStr (eff_to op)"] to
    by simp
  then show ?thesis using m by (simp add: operation_payload_fields)
qed

lemma blank_reread: "isOperationBlank (reread op i ds) \<Longrightarrow> validateOperation op \<noteq> None"
proof -
  assume b: "isOperationBlank (reread op i ds)"
  then have s: "op_mode op = js ''set''" by (simp add: isOperationBlank_def)
  then have "trim (op_path op) = []" using b meta_set by (simp add: isOperationBlank_def reread_def)
  then show ?thesis using s meta_set by (simp add: validateOperation_def mode_of_known)
qed

lemma validate_from_None: "validate_from n ops = None \<longleftrightarrow> list_all (\<lambda>op. validateOperation op = None) ops"
  by (induction ops arbitrary: n) (auto split: option.splits)

section \<open>Values in text fields\<close>

lemma nonblank_head: "s \<noteq> [] \<Longrightarrow> \<not> js_ws (hd s) \<Longrightarrow> trim s \<noteq> []"
proof
  assume s: "s \<noteq> []" "\<not> js_ws (hd s)" and "trim s = []"
  then have "dropWhile js_ws (rev s) = []" by (simp add: trim_def trimStart_def trimEnd_def dropWhile_eq_self)
  then show False using s hd_in_set [of s] by (auto simp: dropWhile_eq_Nil_conv)
qed

lemma text_head_not_ws: "json_ok v \<Longrightarrow> \<not> js_ws (hd (json_text v))"
proof (cases v)
  case (JNum n)
  assume "json_ok v"
  then have "json_number (number_to_string n) = Some (n, [])" "num_is_finite n" using JNum by (auto simp: json_num_ok_def)
  with json_number_delim(3) [of "[]" "number_to_string n" n] JNum show ?thesis
    by (auto simp: json_text_def js_ws_def is_digit_def)
qed (auto simp: json_text_def js_ws_def js_def json_quote_def)

lemma json_string_length: "json_string s = Some (w, t) \<Longrightarrow> length w < length s"
proof (induction s arbitrary: w t rule: json_string.induct)
  case (2 c cs)
  show ?case
  proof (cases "c = 92")
    case True
    with 2(3) obtain x r w' where "json_unescape cs = Some (x, r)" "json_string r = Some (w', t)" "w = x # w'"
      by (auto split: option.splits)
    with 2(1) [of "(x, r)" x r w' t] True show ?thesis by (auto dest: json_unescape_shorter)
  next
    case False
    with 2(2) [of _ t] 2(3) show ?thesis by (fastforce split: if_splits)
  qed
qed simp

lemma read_elems_array: "json_read (JElems acc) s = Some (v, r) \<Longrightarrow> is_array v"
proof (induction "length s" arbitrary: acc s rule: less_induct)
  case less
  have rest: "is_array v" if "skip_ws b = c # cs" "length b < length s" "json_read (JElems acc') cs = Some (v, r)" for b c cs acc'
    using less.hyps [of cs acc'] skip_ws_shorter [OF that(1)] that(2,3) by simp
  from less.prems show ?case
    by (subst (asm) json_read.simps(2)) (auto split: option.splits list.splits if_splits intro: rest)
qed

lemma read_members_object: "json_read (JMembers acc) s = Some (v, r) \<Longrightarrow> \<exists>ps. v = JObj ps"
proof (induction "length s" arbitrary: acc s rule: less_induct)
  case less
  have rest: "\<exists>ps. v = JObj ps"
    if "skip_ws s = q # qs" "json_string qs = Some (k, b)" "skip_ws b = c # cs" "length d < length cs" "skip_ws d = e # es"
      "json_read (JMembers acc') es = Some (v, r)" for q qs k b c cs d e es acc'
    using less.hyps [of es acc'] skip_ws_shorter [OF that(1)] json_string_shorter [OF that(2)] skip_ws_shorter [OF that(3)]
      skip_ws_shorter [OF that(5)] that(4,6) by simp
  from less.prems show ?case
    by (subst (asm) json_read.simps(3)) (auto split: option.splits list.splits if_splits; rule rest; assumption)
qed

lemma json_parse_string_shorter:
  assumes "json_parse s = Some (JStr w)"
  shows "length w < length s"
proof -
  obtain r where r: "json_read JValue s = Some (JStr w, r)"
    using assms by (auto simp: json_parse_def split: option.splits if_splits)
  obtain c cs where c: "skip_ws s = c # cs" using r by (cases "skip_ws s") (simp_all add: json_read.simps(1))
  have "json_read (JElems acc) x \<noteq> Some (JStr w, r)" "json_read (JMembers acc') x \<noteq> Some (JStr w, r)" for acc acc' x
    using read_elems_array [of acc x "JStr w" r] read_members_object [of acc' x "JStr w" r] by auto
  then have "json_string cs = Some (w, r)"
    using r c by (subst (asm) json_read.simps(1)) (auto split: if_splits list.splits)
  then show ?thesis using json_string_length skip_ws_shorter [OF c] by fastforce
qed

text \<open>
  C26: which JSON values survive the editor's text field: every value that is no string, the empty string,
  and a string exactly when it is not blank and does not itself read as JSON; a string such as
  \<open>"123"\<close> or \<open>"true"\<close> comes back as a number or a boolean.
\<close>

theorem text_field_stable_iff:
  assumes "json_ok v"
  shows "parseLooseValue (toValueText v) = v \<longleftrightarrow>
    (\<forall>s. v = JStr s \<longrightarrow> s = [] \<or> trim s \<noteq> [] \<and> json_parse s = None)"
proof (cases "\<exists>s. v = JStr s")
  case True
  then obtain s where s: "v = JStr s" by blast
  have "json_parse s \<noteq> Some (JStr s)" using json_parse_string_shorter [of s s] by auto
  then show ?thesis by (auto simp: s toValueText_def parseLooseValue_def split: option.splits)
next
  case False
  have "toValueText v = json_text v" using assms False by (cases v) (auto simp: toValueText_def json_text_def)
  moreover have "trim (json_text v) \<noteq> []"
    using json_text_head(1) [OF assms] text_head_not_ws [OF assms] by (rule nonblank_head)
  ultimately show ?thesis using False json_parse_text [OF assms] by (simp add: parseLooseValue_def)
qed

theorem text_field_stable_iff_witness:
  "parseLooseValue (toValueText (JStr (js ''gpt''))) = JStr (js ''gpt'') \<and> parseLooseValue (toValueText (JStr (js ''true''))) \<noteq> JStr (js ''true'')"
proof -
  have "json_ok (JStr (js ''gpt''))" "json_ok (JStr (js ''true''))" by (simp_all add: units_ok_def js_def)
  moreover have "trim (js ''gpt'') \<noteq> []" "json_parse (js ''gpt'') = None" "json_parse (js ''true'') \<noteq> None" by code_simp+
  ultimately show ?thesis using text_field_stable_iff [of "JStr (js ''gpt'')"] text_field_stable_iff [of "JStr (js ''true'')"] by auto
qed

section \<open>Values that stay valid\<close>

text \<open>
  Saving validates the texts of the values again, so a value has to pass the text field in a form that is still
  valid: the empty text, written as two quotes, is shown as an empty field, and the value of an operation with an editor
  of its own is compared after trimming.
\<close>

definition STRUCTURED_MODES :: "jsstr list" where
  "STRUCTURED_MODES = map js [''return_error'', ''prune_objects'', ''transform_media'', ''map_param'', ''pass_headers'']"

definition value_kept :: "po_operation \<Rightarrow> bool" where
  "value_kept op \<longleftrightarrow>
     (op_mode op \<in> set VALUE_REQUIRED_MODES \<longrightarrow> parseLooseValue (op_value_text op) \<noteq> JStr [])
     \<and> (op_mode op \<in> set STRUCTURED_MODES \<longrightarrow> trim (op_value_text op) = op_value_text op
          \<and> (\<forall>u. parseLooseValue (op_value_text op) = JStr u \<longrightarrow> trim u = u))"

lemma text_last_not_ws: "json_ok v \<Longrightarrow> \<not> js_ws (last (json_text v))"
proof (cases v)
  case (JNum n)
  assume ok: "json_ok v"
  have n: "json_num_ok n" using ok JNum by simp
  then have "json_text v = number_to_string n" using JNum by (simp add: json_text_def json_num_ok_def)
  with n json_text_head(1) [OF ok] have "num_unit (last (json_text v))" using number_units(1) [of n] last_in_set [of "json_text v"] by (simp add: list_all_iff)
  then show ?thesis by (auto simp: num_unit_def is_digit_def js_ws_def)
next
  case (JObj ps)
  assume "json_ok v"
  then have "\<forall>p \<in> set ps. json_ok (snd p)" using JObj by (auto simp: list_all_iff)
  from json_text_object [OF this] show ?thesis using JObj by (simp add: js_ws_def)
qed (auto simp: json_text_def js_ws_def js_def json_quote_def)

lemma text_trimmed: "json_ok v \<Longrightarrow> trim (json_text v) = json_text v"
  using text_head_not_ws text_last_not_ws by (intro trim_trimmed) (auto simp: trimmed_def)

lemma stable_string: "stable_value (JStr u) \<Longrightarrow> u \<noteq> [] \<Longrightarrow> json_parse u = None"
  using json_parse_string_shorter [of u u] by (auto simp: stable_value_def toValueText_def parseLooseValue_def split: if_splits option.splits)

text \<open>What the checks of structured values see of a text.\<close>

lemma checks_cong:
  assumes "a \<noteq> []" "b \<noteq> []" "json_parse a = json_parse b" "parseLooseValue a = parseLooseValue b"
  shows "check_return_error a = check_return_error b" "check_prune a = check_prune b" "check_media a = check_media b"
    "check_map a = check_map b" "check_headers a = check_headers b"
  using assms by (simp_all add: check_return_error_def check_prune_def check_media_def check_map_def check_headers_def)

lemma checks_string:
  assumes "raw \<noteq> []" "json_parse raw = Some (JStr u)" "u \<noteq> []" "trim u \<noteq> []" "json_parse u = None" "trim raw \<noteq> []"
  shows "check_return_error u = None" "check_prune u = None" "check_media raw \<noteq> None"
    "check_map raw \<noteq> None" "check_headers u = check_headers raw"
  using assms by (simp_all add: check_return_error_def check_prune_def check_media_def check_map_def check_headers_def parseLooseValue_def plain_object_def)

definition check_value :: "jsstr \<Rightarrow> jsstr \<Rightarrow> po_problem option" where
  "check_value mode raw =
     (if mode = js ''return_error'' then check_return_error raw
      else if mode = js ''prune_objects'' then check_prune raw
      else if mode = js ''transform_media'' then check_media raw
      else if mode = js ''map_param'' then check_map raw
      else if mode = js ''pass_headers'' then check_headers raw
      else None)"

lemma check_value_reread:
  assumes "check_value mode txt = None" and "mode \<in> set STRUCTURED_MODES" and "trim txt = txt" and "txt \<noteq> []"
    and "\<And>u. parseLooseValue txt = JStr u \<Longrightarrow> trim u = u \<and> u \<noteq> []"
    and "stable_value (parseLooseValue txt)" and "json_ok (parseLooseValue txt)"
  shows "check_value mode (trim (toValueText (parseLooseValue txt))) = None"
proof (cases "json_parse txt")
  case None
  then show ?thesis using assms(1,3,4) by (simp add: parseLooseValue_def toValueText_def)
next
  case (Some v)
  then have w: "parseLooseValue txt = v" using assms(3,4) by (simp add: parseLooseValue_def)
  show ?thesis
  proof (cases "\<exists>u. v = JStr u")
    case True
    then obtain u where u: "v = JStr u" by blast
    have t: "trim u = u" "u \<noteq> []" using assms(5) w u by auto
    have "json_parse u = None" using stable_string assms(6) w u t(2) by simp
    note c = checks_string [OF assms(4) Some [unfolded u] t(2) _ this]
    show ?thesis
      using c assms(1-4) w u t by (auto simp: check_value_def toValueText_def STRUCTURED_MODES_def)
  next
    case False
    have ok: "json_ok v" using assms(7) w by simp
    have t: "toValueText v = json_text v" using ok False by (cases v) (auto simp: toValueText_def json_text_def)
    have n: "json_text v \<noteq> []" by (rule json_text_head(1) [OF ok])
    note c = checks_cong [OF n assms(4)]
    have "json_parse (json_text v) = json_parse txt" using json_parse_text [OF ok] Some by simp
    moreover have "parseLooseValue (json_text v) = parseLooseValue txt"
      using assms(6) w t by (simp add: stable_value_def)
    ultimately have "check_value mode (json_text v) = check_value mode txt" using c by (simp add: check_value_def)
    then show ?thesis using assms(1) text_trimmed [OF ok] by (simp add: w t)
  qed
qed

lemma required_modes_value: "mode \<in> set VALUE_REQUIRED_MODES \<Longrightarrow> m_value (meta_of mode)"
  by (auto simp: VALUE_REQUIRED_MODES_def meta_of_def MODE_META_def no_meta_def)

lemma structured_required: "mode \<in> set STRUCTURED_MODES \<Longrightarrow> mode \<in> set VALUE_REQUIRED_MODES"
  by (auto simp: STRUCTURED_MODES_def VALUE_REQUIRED_MODES_def)

lemma from_modes: "mode \<in> set FROM_REQUIRED_MODES \<Longrightarrow> m_from (meta_of mode)" and to_modes: "mode \<in> set TO_REQUIRED_MODES \<Longrightarrow> m_to (meta_of mode)"
  by (auto simp: FROM_REQUIRED_MODES_def TO_REQUIRED_MODES_def meta_of_def MODE_META_def no_meta_def)

text \<open>Validation in terms of the fields that are present.\<close>

lemma validate_iff:
  assumes "op_mode op \<noteq> []"
  shows "validateOperation op = None \<longleftrightarrow>
    (m_path (op_meta op) \<longrightarrow> trim (op_path op) \<noteq> []) \<and> (m_from (op_meta op) \<longrightarrow> trim (op_from op) \<noteq> [])
    \<and> (m_to (op_meta op) \<longrightarrow> trim (op_to op) \<noteq> []) \<and> (op_mode op \<in> set VALUE_REQUIRED_MODES \<longrightarrow> trim (op_value_text op) \<noteq> [])
    \<and> check_value (op_mode op) (trim (op_value_text op)) = None"
  using from_modes [of "op_mode op"] to_modes [of "op_mode op"]
  by (auto simp: validateOperation_def mode_of_known [OF assms] Let_def check_value_def split: if_splits)

lemma payload_value_ok:
  assumes "operation_ok op" and "m_value (op_meta op)"
  shows "json_ok (parseLooseValue (op_value_text op))"
proof -
  have m: "op_mode op \<noteq> []" using assms(1) mode_nonempty by (auto simp: operation_ok_def)
  have "(js ''value'', parseLooseValue (op_value_text op)) \<in> set (payload_fields op)"
    using assms(2) by (simp add: payload_fields_def start_fields_def opt_field_def)
  then show ?thesis using assms(1) operation_payload_fields [OF m] by (auto simp: operation_ok_def list_all_iff)
qed

lemma reread_valid:
  assumes "operation_ok op" and "value_kept op" and "validateOperation op = None"
  shows "validateOperation (reread op i ds) = None"
proof -
  let ?r = "reread op i ds" and ?w = "parseLooseValue (op_value_text op)"
  have m: "op_mode op \<noteq> []" using assms(1) mode_nonempty by (auto simp: operation_ok_def)
  note v = assms(3) [unfolded validate_iff [OF m]]
  have st: "stable_value ?w" using assms(1) by (simp add: operation_ok_def)
  have req: "trim (toValueText ?w) \<noteq> []" if "op_mode op \<in> set VALUE_REQUIRED_MODES"
    using st assms(2) that by (auto simp: stable_value_def parseLooseValue_def [of "toValueText ?w"] value_kept_def)
  have chk: "check_value (op_mode op) (trim (op_value_text ?r)) = None"
  proof (cases "op_mode op \<in> set STRUCTURED_MODES")
    case True
    note q = structured_required [OF True]
    have k: "trim (op_value_text op) = op_value_text op" "\<And>u. ?w = JStr u \<Longrightarrow> trim u = u \<and> u \<noteq> []"
      using assms(2) True q by (auto simp: value_kept_def)
    have "check_value (op_mode op) (trim (toValueText ?w)) = None"
      by (rule check_value_reread [OF _ True k(1) _ k(2) st payload_value_ok [OF assms(1) required_modes_value [OF q]]]) (use v q k(1) in auto)
    then show ?thesis using required_modes_value [OF q] by (simp add: reread_def)
  next
    case False
    then show ?thesis by (auto simp: check_value_def STRUCTURED_MODES_def)
  qed
  have f: "m_from (op_meta op) \<longrightarrow> trim (eff_from op) \<noteq> []" "m_to (op_meta op) \<longrightarrow> trim (eff_to op) \<noteq> []"
    using v by (auto simp: eff_from_def eff_to_def)
  have "op_mode ?r \<noteq> []" using m by simp
  from validate_iff [OF this] show ?thesis
    using v req chk f required_modes_value [of "op_mode op"] by (auto simp: reread_def)
qed

lemma reread_operation:
  assumes "operation_ok op" and "validateOperation op = None"
  shows "\<exists>op' seed'. normalizeOperation (operation_payload op) seed = Inr (op', seed')
    \<and> operation_payload op' = operation_payload op \<and> \<not> isOperationBlank op' \<and> (value_kept op \<longrightarrow> validateOperation op' = None)"
proof -
  obtain ds seed' where ds: "try_map_seed normalizeCondition (eff_conditions op) (Suc seed) = Inr (ds, seed')"
      "List.map_filter buildConditionPayload ds = eff_conditions op"
    using reread_conditions [of "op_conditions op" "Suc seed"] assms(1) by (auto simp: operation_ok_def eff_conditions_def)
  have "op_mode op \<in> set OPERATION_MODE_VALUES" using assms(1) by (simp add: operation_ok_def)
  then show ?thesis
    using normalize_reread [OF _ ds(1)] payload_reread [OF assms(1) ds(2)] blank_reread [of op seed ds] reread_valid [OF assms(1)] assms(2) by blast
qed

lemma reread_operations:
  assumes "list_all operation_ok ops" and "list_all (\<lambda>op. validateOperation op = None) ops" and "list_all value_kept ops"
  shows "\<exists>ops' seed'. try_map_seed normalizeOperation (map operation_payload ops) seed = Inr (ops', seed')
    \<and> map operation_payload ops' = map operation_payload ops \<and> list_all (\<lambda>op. \<not> isOperationBlank op) ops'
    \<and> list_all (\<lambda>op. validateOperation op = None) ops'"
  using assms
proof (induction ops arbitrary: seed)
  case (Cons op ops)
  obtain op' s1 where 1: "normalizeOperation (operation_payload op) seed = Inr (op', s1)"
      "operation_payload op' = operation_payload op" "\<not> isOperationBlank op'" "validateOperation op' = None"
    using reread_operation [of op seed] Cons.prems by auto
  obtain ops' s2 where 2: "try_map_seed normalizeOperation (map operation_payload ops) s1 = Inr (ops', s2)"
      "map operation_payload ops' = map operation_payload ops" "list_all (\<lambda>op. \<not> isOperationBlank op) ops'"
      "list_all (\<lambda>op. validateOperation op = None) ops'"
    using Cons.IH [of s1] Cons.prems by auto
  show ?case using 1 2 by (intro exI [of _ "op' # ops'"] exI [of _ s2]) simp
qed simp

section \<open>Reopening a written configuration\<close>

lemma object_text_trimmed:
  assumes "ps \<noteq> []" and "\<forall>p \<in> set ps. json_ok (snd p)"
  shows "trim (pretty_text 0 (JObj ps)) = pretty_text 0 (JObj ps)"
  by (rule trim_trimmed) (simp add: pretty_object [OF assms] trimmed_def js_ws_def)

lemma json_object_trim:
  assumes "json_ok (JObj ps)"
  shows "trim (json_text (JObj ps)) = json_text (JObj ps)"
proof -
  have "\<forall>p \<in> set ps. json_ok (snd p)" using assms by (auto simp: list_all_iff)
  from json_text_object [OF this] show ?thesis by (intro trim_trimmed) (simp add: trimmed_def js_ws_def)
qed

text \<open>The text of a written configuration, and what reading it gives.\<close>

lemma written_config:
  assumes "buildOperationsJson v ops = Inr t" and "t \<noteq> []" and "list_all operation_ok ops"
    and "list_all value_kept ops" and "list_all (\<lambda>op. isOperationBlank op \<or> validateOperation op = None) ops"
  obtains ps ops' seed' where "trim t = t" "json_parse t = Some (JObj [(js ''operations'', JArr ps)])" "ps \<noteq> []"
    "try_map_seed normalizeOperation ps seed = Inr (ops', seed')" "buildOperationsJson True ops' = Inr t"
    "t = pretty_text 0 (JObj [(js ''operations'', JArr ps)])"
proof -
  define F where "F = filter (\<lambda>op. \<not> isOperationBlank op) ops"
  let ?v = "JObj [(js ''operations'', JArr (map operation_payload F))]"
  have F: "F \<noteq> []" "t = pretty_text 0 ?v"
    using assms(1,2) by (auto simp: buildOperationsJson_def F_def Let_def split: if_splits option.splits)
  have valid: "list_all (\<lambda>op. validateOperation op = None) F" using assms(5) by (auto simp: F_def list_all_iff)
  have Fok: "list_all operation_ok F" "list_all value_kept F" using assms(3,4) by (simp_all add: F_def list_all_iff)
  then have ok: "json_ok ?v"
    by (auto simp: list_all_iff operation_ok_def keys_ordered_def units_ok_def js_def)
  have trim: "trim t = t" unfolding F(2) using ok by (intro object_text_trimmed) auto
  have parse: "json_parse t = Some ?v" unfolding F(2) by (rule json_parse_pretty [OF ok])
  obtain ops' seed' where r: "try_map_seed normalizeOperation (map operation_payload F) seed = Inr (ops', seed')"
      "map operation_payload ops' = map operation_payload F" "list_all (\<lambda>op. \<not> isOperationBlank op) ops'"
      "list_all (\<lambda>op. validateOperation op = None) ops'"
    using reread_operations [OF Fok(1) valid Fok(2), of seed] by auto
  have ne: "ops' \<noteq> []" using r(2) F(1) by auto
  have "filter (\<lambda>op. \<not> isOperationBlank op) ops' = ops'" using r(3) by (simp add: list_all_iff)
  then have "buildOperationsJson True ops' = Inr t"
    using ne r(2) F(2) validate_from_None [THEN iffD2, OF r(4)] by (simp add: buildOperationsJson_def Let_def validateOperations_def)
  then show thesis using that [OF trim parse _ r(1)] F by simp
qed

lemma built_valid:
  assumes "buildOperationsJson True ops = Inr t"
  shows "list_all (\<lambda>op. isOperationBlank op \<or> validateOperation op = None) ops"
proof -
  have "list_all (\<lambda>op. validateOperation op = None) (filter (\<lambda>op. \<not> isOperationBlank op) ops)"
    using assms by (auto simp: buildOperationsJson_def Let_def validateOperations_def validate_from_None split: if_splits option.splits)
  then show ?thesis by (auto simp: list_all_iff)
qed


text \<open>A prefix given as two quotes is saved; the saved operation is shown with an empty value, which cannot be saved.\<close>

definition quoted_empty :: po_operation where
  "quoted_empty = \<lparr>op_id = 0, op_description = [], op_path = js ''model'', op_mode = js ''trim_prefix'', op_value_text = [34, 34],
     op_keep_origin = False, op_from = [], op_to = [], op_logic = js ''OR'', op_conditions = []\<rparr>"

lemma quoted_empty_unsaveable:
  "case buildOperationsJson True [quoted_empty] of
     Inl _ \<Rightarrow> False
   | Inr t \<Rightarrow> (case parseInitialState (JStr t) 0 of
        Inl _ \<Rightarrow> False
      | Inr (st, _) \<Rightarrow> buildOperationsJson True (in_operations st) = Inl (MissingValue, 1))"
  by code_simp

definition sample_operation :: po_operation where
  "sample_operation = \<lparr>op_id = 0, op_description = [], op_path = js ''model'', op_mode = js ''set'', op_value_text = js ''gpt'',
     op_keep_origin = True, op_from = [], op_to = [], op_logic = js ''AND'',
     op_conditions = [\<lparr>cd_id = 1, cd_path = js ''model'', cd_mode = js ''prefix'', cd_value_text = js ''o1'', cd_invert = True, cd_pass_missing_key = False\<rparr>]\<rparr>"

lemma stable_word: "trim s \<noteq> [] \<Longrightarrow> json_parse s = None \<Longrightarrow> stable_value (parseLooseValue s)"
  by (simp add: stable_value_def parseLooseValue_def toValueText_def)

lemma sample_operation_ok: "operation_ok sample_operation"
proof -
  have words: "trim (js ''gpt'') = js ''gpt''" "json_parse (js ''gpt'') = None" "trim (js ''o1'') = js ''o1''" "json_parse (js ''o1'') = None"
    "trim (js ''model'') = js ''model''" by code_simp+
  have names: "index_key (js k) = None" if "k \<in> {''mode'', ''path'', ''value'', ''keep_origin'', ''conditions'', ''logic'', ''invert''}" for k
    using that by (auto simp: index_key_name is_digit_def)
  have meta: "op_meta sample_operation = meta_write" by (simp add: sample_operation_def meta_of_def MODE_META_def)
  have "json_ok (JObj (payload_fields sample_operation))"
    unfolding payload_fields_def start_fields_def meta
    by (simp add: sample_operation_def no_meta_def opt_field_def eff_conditions_def List.map_filter_def
        buildConditionPayload_def words parseLooseValue_def keys_ordered_def key_before_def names eff_from_def eff_to_def)
  then have "json_ok (operation_payload sample_operation)"
    by (subst operation_payload_fields) (simp_all add: sample_operation_def)
  then show ?thesis
    using words
    by (simp add: operation_ok_def condition_ok_def stable_word sample_operation_def OPERATION_MODE_VALUES_def CONDITION_MODE_VALUES_def)
qed

lemma sample_value_kept: "value_kept sample_operation"
  by (simp add: value_kept_def sample_operation_def VALUE_REQUIRED_MODES_def STRUCTURED_MODES_def)


section \<open>Header operations\<close>

text \<open>
  For copying and moving headers the validation demands both source and target, so the path that
  the writer would use in their place (\<open>pathAlias\<close>) never takes effect on a validated operation.
\<close>

theorem header_alias_dead:
  assumes "op_mode op \<in> {js ''copy_header'', js ''move_header''}"
  shows "validateOperation op =
      (if trim (op_from op) = [] then Some MissingFrom else if trim (op_to op) = [] then Some MissingTo else None)
    \<and> (validateOperation op = None \<longrightarrow> payload_alias op (payload_from_to op ps) = payload_from_to op ps)"
proof -
  have m: "mode_of op = op_mode op" "op_mode op \<noteq> []" using assms by (auto simp: mode_of_def)
  have "meta_of (js ''copy_header'') = meta_alias" "meta_of (js ''move_header'') = meta_alias"
    by (simp_all add: meta_of_def MODE_META_def)
  then have meta: "meta_of (op_mode op) = meta_alias" using assms by auto
  have req: "op_mode op \<in> set FROM_REQUIRED_MODES" "op_mode op \<in> set TO_REQUIRED_MODES" "op_mode op \<notin> set VALUE_REQUIRED_MODES"
    using assms by (auto simp: FROM_REQUIRED_MODES_def TO_REQUIRED_MODES_def VALUE_REQUIRED_MODES_def)
  have v: "validateOperation op =
      (if trim (op_from op) = [] then Some MissingFrom else if trim (op_to op) = [] then Some MissingTo else None)"
  proof -
    have "op_mode op \<notin> js ` {''return_error'', ''prune_objects'', ''transform_media'', ''map_param'', ''pass_headers''}"
      using assms by auto
    then show ?thesis using req by (simp add: validateOperation_def m meta no_meta_def Let_def)
  qed
  have "payload_alias op (payload_from_to op ps) = payload_from_to op ps" if "validateOperation op = None"
  proof -
    have "trim (op_from op) \<noteq> []" "trim (op_to op) \<noteq> []" using that v by (auto split: if_splits)
    moreover have "payload_from_to op ps = obj_put (js ''to'') (JStr (trim (op_to op))) (obj_put (js ''from'') (JStr (trim (op_from op))) ps)"
      by (simp add: payload_from_to_def m meta no_meta_def Let_def add_field_def)
    ultimately show ?thesis by (simp add: payload_alias_def m meta no_meta_def Let_def add_field_def)
  qed
  with v show ?thesis by blast
qed

theorem header_alias_dead_witness:
  "validateOperation (sample_operation\<lparr>op_mode := js ''copy_header''\<rparr>) = Some MissingFrom"
  using header_alias_dead [of "sample_operation\<lparr>op_mode := js ''copy_header''\<rparr>"] by (simp add: sample_operation_def)

section \<open>Reordering\<close>

lemma find_id_Some: "find_id P xs = Some i \<Longrightarrow> i < length xs \<and> P (xs ! i)"
  by (induction xs arbitrary: i) (auto split: if_splits)

lemma find_id_ex: "\<exists>x \<in> set xs. P x \<Longrightarrow> \<exists>i. find_id P xs = Some i"
  by (induction xs) auto

lemma mset_remove_at: "i < length xs \<Longrightarrow> mset (remove_at i xs) + {#xs ! i#} = mset xs"
  unfolding remove_at_def by (subst (3) id_take_nth_drop [of i xs]) simp_all

lemma filter_remove_at:
  assumes "i < length xs" and "\<not> P (xs ! i)"
  shows "filter P (remove_at i xs) = filter P xs"
  unfolding remove_at_def using assms by (subst (3) id_take_nth_drop [of i xs]) simp_all

text \<open>
  Dragging an operation next to another one keeps all operations and the order of the others, and
  puts the dragged one directly before or after its target.
\<close>

theorem reorder_spec:
  assumes "distinct (map op_id ops)" and "s \<in> op_id ` set ops" and "t \<in> op_id ` set ops" and "s \<noteq> t"
    and "r = reorderOperations ops (Some s) (Some t) pos"
  shows "mset r = mset ops \<and> filter (\<lambda>x. op_id x \<noteq> s) r = filter (\<lambda>x. op_id x \<noteq> s) ops
    \<and> (\<exists>xs ys a b. op_id a = s \<and> op_id b = t \<and> r = xs @ (case pos of Before \<Rightarrow> [a, b] | After \<Rightarrow> [b, a]) @ ys)"
proof -
  obtain i where i: "find_id (\<lambda>x. op_id x = s) ops = Some i" using find_id_ex [of ops "\<lambda>x. op_id x = s"] assms(2) by blast
  note si = find_id_Some [OF i]
  let ?rest = "remove_at i ops"
  have frest: "filter (\<lambda>x. op_id x \<noteq> s) ?rest = filter (\<lambda>x. op_id x \<noteq> s) ops"
    using si by (intro filter_remove_at) auto
  have "\<exists>x \<in> set ?rest. op_id x = t"
  proof -
    obtain x where x: "x \<in> set ops" "op_id x = t" using assms(3) by blast
    then have "x \<in> set (filter (\<lambda>x. op_id x \<noteq> s) ?rest)" unfolding frest using assms(4) by auto
    then show ?thesis using x(2) by auto
  qed
  then obtain j where j: "find_id (\<lambda>x. op_id x = t) ?rest = Some j" using find_id_ex [of ?rest "\<lambda>x. op_id x = t"] by blast
  note sj = find_id_Some [OF j]
  define k where "k = (case pos of After \<Rightarrow> j + 1 | Before \<Rightarrow> j)"
  have r: "r = insert_at k (ops ! i) ?rest" using i j assms(4) by (simp add: assms(5) reorderOperations_def k_def)
  have split: "?rest = take j ?rest @ ?rest ! j # drop (Suc j) ?rest" using sj by (intro id_take_nth_drop) simp
  have "mset r = mset ?rest + {#ops ! i#}"
    using union_code [of "take k ?rest" "drop k ?rest"] by (simp add: r insert_at_def)
  then have "mset r = mset ops" using mset_remove_at si by metis
  moreover have "filter (\<lambda>x. op_id x \<noteq> s) r = filter (\<lambda>x. op_id x \<noteq> s) ops"
    unfolding frest [symmetric] using si filter_append [of "\<lambda>x. op_id x \<noteq> s" "take k ?rest" "drop k ?rest"]
    by (simp add: r insert_at_def)
  moreover have "\<exists>xs ys a b. op_id a = s \<and> op_id b = t \<and> r = xs @ (case pos of Before \<Rightarrow> [a, b] | After \<Rightarrow> [b, a]) @ ys"
  proof (cases pos)
    case Before
    have "r = take j ?rest @ [ops ! i, ?rest ! j] @ drop (Suc j) ?rest"
      using sj by (simp add: r insert_at_def k_def Before Cons_nth_drop_Suc)
    then show ?thesis using si sj Before by (metis drop_position.case(1))
  next
    case After
    have "r = take j ?rest @ [?rest ! j, ops ! i] @ drop (Suc j) ?rest"
      using sj by (simp add: r insert_at_def k_def After take_Suc_conv_app_nth)
    then show ?thesis using si sj After by (metis drop_position.case(2))
  qed
  ultimately show ?thesis by blast
qed

theorem reorder_spec_witness:
  "map op_id (reorderOperations [sample_operation, sample_operation\<lparr>op_id := 5\<rparr>] (Some 0) (Some 5) After) = [5, 0]"
proof -
  let ?ops = "[sample_operation, sample_operation\<lparr>op_id := 5\<rparr>]"
  have "\<exists>xs ys a b. op_id a = 0 \<and> op_id b = 5
      \<and> reorderOperations ?ops (Some 0) (Some 5) After = xs @ (case After of Before \<Rightarrow> [a, b] | After \<Rightarrow> [b, a]) @ ys"
    and "mset (reorderOperations ?ops (Some 0) (Some 5) After) = mset ?ops"
    using reorder_spec [of ?ops 0 5 _ After, OF _ _ _ _ refl] by (simp_all add: sample_operation_def)
  then obtain xs ys a b where r: "op_id a = 0" "op_id b = 5" "reorderOperations ?ops (Some 0) (Some 5) After = xs @ [b, a] @ ys"
      "mset (xs @ [b, a] @ ys) = mset ?ops"
    by auto
  from mset_eq_length [OF r(4)] have "xs = []" "ys = []" by simp_all
  with r(1-3) show ?thesis by simp
qed

section \<open>The draft of a returned error\<close>

lemma text_field_simps [simp]: "text_field JUndef = []" "text_field (JStr s) = trim s"
  by (simp_all add: text_field_def js_or_def)

definition return_draft_ok :: "return_draft \<Rightarrow> bool" where
  "return_draft_ok d \<longleftrightarrow> \<not> rd_simpleMode d \<and> trimmed (rd_message d) \<and> trimmed (rd_code d) \<and> trimmed (rd_type d)
     \<and> units_ok (rd_message d) \<and> units_ok (rd_code d) \<and> units_ok (rd_type d)
     \<and> valid_status (rd_statusCode d) = rd_statusCode d \<and> json_num_ok (rd_statusCode d)"

text \<open>
  The structured draft of a returned error survives its text: what the form writes is read back
  as the same message, status, code, type and retry flag.
\<close>

theorem return_draft_roundtrip:
  assumes "return_draft_ok d"
  shows "parseReturnErrorDraft (buildReturnErrorValueText d) = d"
proof -
  define ps where "ps = [(js ''message'', JStr (rd_message d)), (js ''status_code'', JNum (rd_statusCode d))]
     @ opt_field ''code'' (rd_code d \<noteq> []) (JStr (rd_code d)) @ opt_field ''type'' (rd_type d \<noteq> []) (JStr (rd_type d))
     @ opt_field ''skip_retry'' (\<not> rd_skipRetry d) (JBool False)"
  have t: "buildReturnErrorValueText d = json_text (JObj ps)"
    using assms by (simp add: buildReturnErrorValueText_def return_draft_ok_def trim_trimmed opt_field_def Let_def ps_def)
  have names: "index_key (js ''message'') = None" "index_key (js ''status_code'') = None" "index_key (js ''code'') = None"
      "index_key (js ''type'') = None" "index_key (js ''skip_retry'') = None"
    by (simp_all add: index_key_name is_digit_def)
  have ok: "json_ok (JObj ps)"
    using assms by (auto simp: return_draft_ok_def opt_field_def keys_ordered_def key_before_def names ps_def)
  have tr: "trim (json_text (JObj ps)) = json_text (JObj ps)"
    using ok by (rule json_object_trim)
  have props: "map_of ps (js ''message'') = Some (JStr (rd_message d))" "map_of ps (js ''status_code'') = Some (JNum (rd_statusCode d))"
      "map_of ps (js ''code'') = (if rd_code d \<noteq> [] then Some (JStr (rd_code d)) else None)"
      "map_of ps (js ''type'') = (if rd_type d \<noteq> [] then Some (JStr (rd_type d)) else None)"
      "map_of ps (js ''skip_retry'') = (if rd_skipRetry d then None else Some (JBool False))"
      "map_of ps (js ''msg'') = None"
    by (simp_all add: ps_def del: map_of_append)
  have ne: "json_text (JObj ps) \<noteq> []" by (rule json_text_head [OF ok])
  show ?thesis
    unfolding t parseReturnErrorDraft_def Let_def tr json_parse_text [OF ok]
    using assms ne by (cases d) (simp add: props return_draft_ok_def trim_trimmed js_or_def)
qed

lemma json_num_ok_400: "json_num_ok (Fin 400)"
  by (simp add: json_num_ok_numeral)

theorem return_draft_roundtrip_witness:
  "parseReturnErrorDraft (buildReturnErrorValueText \<lparr>rd_message = js ''no'', rd_statusCode = Fin 400, rd_code = js ''c'', rd_type = [],
       rd_skipRetry = False, rd_simpleMode = False\<rparr>) =
   \<lparr>rd_message = js ''no'', rd_statusCode = Fin 400, rd_code = js ''c'', rd_type = [], rd_skipRetry = False, rd_simpleMode = False\<rparr>"
proof (rule return_draft_roundtrip)
  have "trimmed (js ''no'')" "trimmed (js ''c'')" "trimmed []" by code_simp+
  then show "return_draft_ok \<lparr>rd_message = js ''no'', rd_statusCode = Fin 400, rd_code = js ''c'', rd_type = [],
       rd_skipRetry = False, rd_simpleMode = False\<rparr>"
    using units_ok_js [of "[]"] by (simp add: return_draft_ok_def valid_status_def json_num_ok_400)
qed

end
