(* ===== verification/ParamOverrideTemplates.thy ===== *)
theory ParamOverrideTemplates
  imports ParamOverrideRoundtrip
begin

text \<open>
  The template library of the parameter override editor: the payloads and
  \<open>TEMPLATE_PRESET_CONFIG\<close> of \<open>ParamOverrideEditorModal.jsx\<close>, and the header lists of
  \<open>src/web/src/constants/channel-affinity-template.constants.js\<close>. Every template passes the editor's own
  validation.
\<close>

section \<open>Payloads\<close>

definition LEGACY_TEMPLATE :: jsval where
  "LEGACY_TEMPLATE =
     JObj [(js ''temperature'', JNum (Fin 0)), (js ''max_tokens'', JNum (Fin 1000))]"

definition OPERATION_TEMPLATE :: jsval where
  "OPERATION_TEMPLATE =
     JObj [
       (js ''operations'', JArr [
         JObj [
           (js ''description'', JStr (js ''Set default temperature for openai/* models.'')), (js ''path'', JStr (js ''temperature'')),
           (js ''mode'', JStr (js ''set'')), (js ''value'', JNum (rnd (7/10))),
           (js ''conditions'', JArr [
             JObj [
               (js ''path'', JStr (js ''model'')), (js ''mode'', JStr (js ''prefix'')), (js ''value'', JStr (js ''openai/''))]]),
           (js ''logic'', JStr (js ''AND''))]])]"

definition HEADER_PASSTHROUGH_TEMPLATE :: jsval where
  "HEADER_PASSTHROUGH_TEMPLATE =
     JObj [
       (js ''operations'', JArr [
         JObj [
           (js ''description'', JStr (js ''Pass through X-Request-Id header to upstream.'')),
           (js ''mode'', JStr (js ''pass_headers'')), (js ''value'', JArr [JStr (js ''X-Request-Id'')]),
           (js ''keep_origin'', JBool True)]])]"

definition GEMINI_IMAGE_4K_TEMPLATE :: jsval where
  "GEMINI_IMAGE_4K_TEMPLATE =
     JObj [
       (js ''operations'', JArr [
         JObj [
           (js ''description'', JStr (js ''Set imageSize to 4K when model contains gemini/image and ends with 4k.'')),
           (js ''mode'', JStr (js ''set'')), (js ''path'', JStr (js ''generationConfig.imageConfig.imageSize'')),
           (js ''value'', JStr (js ''4K'')),
           (js ''conditions'', JArr [
             JObj [
               (js ''path'', JStr (js ''original_model'')), (js ''mode'', JStr (js ''contains'')), (js ''value'', JStr (js ''gemini''))],
             JObj [
               (js ''path'', JStr (js ''original_model'')), (js ''mode'', JStr (js ''contains'')), (js ''value'', JStr (js ''image''))],
             JObj [
               (js ''path'', JStr (js ''original_model'')), (js ''mode'', JStr (js ''suffix'')), (js ''value'', JStr (js ''4k''))]]),
           (js ''logic'', JStr (js ''AND''))]])]"

definition IMAGE_PIPELINE_TO_COS_TEMPLATE :: jsval where
  "IMAGE_PIPELINE_TO_COS_TEMPLATE =
     JObj [
       (js ''operations'', JArr [
         JObj [
           (js ''description'', JStr (js ''Convert image URL fields to COS URLs before sending to upstream.'')),
           (js ''mode'', JStr (js ''transform_media'')), (js ''from'', JStr (js ''messages.*.content.*.image_url.url'')),
           (js ''to'', JStr (js ''messages.*.content.*.image_url.url'')),
           (js ''value'', JObj [
             (js ''component'', JStr (js ''image_pipeline'')), (js ''input'', JStr (js ''auto'')), (js ''output'', JStr (js ''url'')),
             (js ''storage'', JStr (js ''cos'')), (js ''mime_type'', JStr (js ''image/jpeg'')), (js ''quality'', JNum (Fin 92)),
             (js ''strip_alpha'', JBool False), (js ''keep_size'', JBool True), (js ''max_download_mb'', JNum (Fin 20))])]])]"

definition GETTOKEN_IMAGE_PARAM_MAPPING_TEMPLATE :: jsval where
  "GETTOKEN_IMAGE_PARAM_MAPPING_TEMPLATE =
     JObj [
       (js ''operations'', JArr [
         JObj [
           (js ''description'', JStr (js ''Map caller image size/aspect ratio params to GetToken aspectRatio.'')),
           (js ''mode'', JStr (js ''map_param'')), (js ''to'', JStr (js ''aspectRatio'')),
           (js ''value'', JObj [
             (js ''sources'', JArr [JStr (js ''aspectRatio''), JStr (js ''aspect_ratio''), JStr (js ''ratio''), JStr (js ''size'')]),
             (js ''map'', JObj [
               (js ''1:1'', JStr (js ''1:1'')), (js ''16:9'', JStr (js ''16:9'')), (js ''9:16'', JStr (js ''9:16'')),
               (js ''4:3'', JStr (js ''4:3'')), (js ''3:4'', JStr (js ''3:4'')), (js ''3:2'', JStr (js ''3:2'')),
               (js ''2:3'', JStr (js ''2:3'')), (js ''5:4'', JStr (js ''5:4'')), (js ''4:5'', JStr (js ''4:5'')),
               (js ''21:9'', JStr (js ''21:9'')), (js ''square'', JStr (js ''1:1'')), (js ''landscape'', JStr (js ''16:9'')),
               (js ''portrait'', JStr (js ''9:16'')), (js ''1024x1024'', JStr (js ''1:1'')), (js ''1920x1080'', JStr (js ''16:9'')),
               (js ''1080x1920'', JStr (js ''9:16'')), (js ''1024x768'', JStr (js ''4:3'')), (js ''768x1024'', JStr (js ''3:4''))]),
             (js ''normalize'', JBool True), (js ''parse_pixel_ratio'', JBool True), (js ''delete_sources'', JBool True),
             (js ''keep_origin'', JBool True)])],
         JObj [
           (js ''description'', JStr (js ''Normalize GetToken image resolution values.'')), (js ''mode'', JStr (js ''map_param'')),
           (js ''to'', JStr (js ''resolution'')),
           (js ''value'', JObj [
             (js ''sources'', JArr [JStr (js ''resolution'')]),
             (js ''map'', JObj [(js ''1k'', JStr (js ''1k'')), (js ''2k'', JStr (js ''2k'')), (js ''4k'', JStr (js ''4k''))]),
             (js ''normalize'', JBool True), (js ''delete_sources'', JBool True), (js ''keep_origin'', JBool False)])],
         JObj [
           (js ''description'', JStr (js ''Map common image URL params to GetToken imageUrls.'')),
           (js ''mode'', JStr (js ''map_param'')), (js ''to'', JStr (js ''imageUrls'')),
           (js ''value'', JObj [
             (js ''sources'', JArr [JStr (js ''imageUrls''), JStr (js ''image_urls''), JStr (js ''images''), JStr (js ''image'')]),
             (js ''delete_sources'', JBool True), (js ''keep_origin'', JBool True)])]])]"

definition AWS_BEDROCK_ANTHROPIC_COMPAT_TEMPLATE :: jsval where
  "AWS_BEDROCK_ANTHROPIC_COMPAT_TEMPLATE =
     JObj [
       (js ''operations'', JArr [
         JObj [
           (js ''description'', JStr (js ''Normalize anthropic-beta header tokens for Bedrock compatibility.'')),
           (js ''mode'', JStr (js ''set_header'')), (js ''path'', JStr (js ''anthropic-beta'')),
           (js ''value'', JObj [
             (js ''advanced-tool-use-2025-11-20'', JStr (js ''tool-search-tool-2025-10-19'')), (js ''bash_20241022'', JNull),
             (js ''bash_20250124'', JNull), (js ''code-execution-2025-08-25'', JNull),
             (js ''compact-2026-01-12'', JStr (js ''compact-2026-01-12'')),
             (js ''computer-use-2025-01-24'', JStr (js ''computer-use-2025-01-24'')),
             (js ''computer-use-2025-11-24'', JStr (js ''computer-use-2025-11-24'')),
             (js ''context-1m-2025-08-07'', JStr (js ''context-1m-2025-08-07'')),
             (js ''context-management-2025-06-27'', JStr (js ''context-management-2025-06-27'')), (js ''effort-2025-11-24'', JNull),
             (js ''fast-mode-2026-02-01'', JNull), (js ''files-api-2025-04-14'', JNull),
             (js ''fine-grained-tool-streaming-2025-05-14'', JNull),
             (js ''interleaved-thinking-2025-05-14'', JStr (js ''interleaved-thinking-2025-05-14'')),
             (js ''mcp-client-2025-11-20'', JNull), (js ''mcp-client-2025-04-04'', JNull), (js ''mcp-servers-2025-12-04'', JNull),
             (js ''output-128k-2025-02-19'', JNull), (js ''structured-output-2024-03-01'', JNull),
             (js ''prompt-caching-scope-2026-01-05'', JNull), (js ''skills-2025-10-02'', JNull),
             (js ''structured-outputs-2025-11-13'', JNull), (js ''text_editor_20241022'', JNull), (js ''text_editor_20250124'', JNull),
             (js ''token-efficient-tools-2025-02-19'', JNull),
             (js ''tool-search-tool-2025-10-19'', JStr (js ''tool-search-tool-2025-10-19'')), (js ''web-fetch-2025-09-10'', JNull),
             (js ''web-search-2025-03-05'', JNull), (js ''oauth-2025-04-20'', JNull)])],
         JObj [
           (js ''description'', JStr (js ''Remove all tools[*].custom.input_examples before upstream relay.'')),
           (js ''mode'', JStr (js ''delete'')), (js ''path'', JStr (js ''tools.*.custom.input_examples''))]])]"


section \<open>Header templates\<close>

definition buildPassHeadersTemplate :: "jsstr list \<Rightarrow> jsval" where
  "buildPassHeadersTemplate headers =
     JObj [(js ''operations'', JArr [
       JObj [(js ''mode'', JStr (js ''pass_headers'')), (js ''value'', JArr (map JStr headers)), (js ''keep_origin'', JBool True)]])]"

definition CODEX_CLI_HEADER_PASSTHROUGH_HEADERS :: "jsstr list" where
  "CODEX_CLI_HEADER_PASSTHROUGH_HEADERS = map js
     [''Originator'', ''Session_id'', ''User-Agent'', ''X-Codex-Beta-Features'', ''X-Codex-Turn-Metadata'']"

definition CLAUDE_CLI_HEADER_PASSTHROUGH_HEADERS :: "jsstr list" where
  "CLAUDE_CLI_HEADER_PASSTHROUGH_HEADERS = map js
     [''X-Stainless-Arch'', ''X-Stainless-Lang'', ''X-Stainless-Os'', ''X-Stainless-Package-Version'',
      ''X-Stainless-Retry-Count'', ''X-Stainless-Runtime'', ''X-Stainless-Runtime-Version'',
      ''X-Stainless-Timeout'', ''User-Agent'', ''X-App'', ''Anthropic-Beta'',
      ''Anthropic-Dangerous-Direct-Browser-Access'', ''Anthropic-Version'']"


definition CODEX_CLI_HEADER_PASSTHROUGH_TEMPLATE :: jsval where
  "CODEX_CLI_HEADER_PASSTHROUGH_TEMPLATE = buildPassHeadersTemplate CODEX_CLI_HEADER_PASSTHROUGH_HEADERS"

definition CLAUDE_CLI_HEADER_PASSTHROUGH_TEMPLATE :: jsval where
  "CLAUDE_CLI_HEADER_PASSTHROUGH_TEMPLATE = buildPassHeadersTemplate CLAUDE_CLI_HEADER_PASSTHROUGH_HEADERS"

section \<open>The library\<close>

datatype template_kind = OperationsTemplate | LegacyTemplate
datatype template_group = BasicGroup | ScenarioGroup

record template_preset =
  tp_group :: template_group
  tp_kind :: template_kind
  tp_payload :: jsval

definition preset :: "template_group \<Rightarrow> template_kind \<Rightarrow> jsval \<Rightarrow> template_preset" where
  "preset g k p = \<lparr>tp_group = g, tp_kind = k, tp_payload = p\<rparr>"

definition TEMPLATE_PRESET_CONFIG :: "(jsstr \<times> template_preset) list" where
  "TEMPLATE_PRESET_CONFIG =
     [(js ''operations_default'', preset BasicGroup OperationsTemplate OPERATION_TEMPLATE),
      (js ''legacy_default'', preset BasicGroup LegacyTemplate LEGACY_TEMPLATE),
      (js ''pass_headers_auth'', preset ScenarioGroup OperationsTemplate HEADER_PASSTHROUGH_TEMPLATE),
      (js ''gemini_image_4k'', preset ScenarioGroup OperationsTemplate GEMINI_IMAGE_4K_TEMPLATE),
      (js ''image_pipeline_to_cos'', preset ScenarioGroup OperationsTemplate IMAGE_PIPELINE_TO_COS_TEMPLATE),
      (js ''gettoken_image_param_mapping'', preset ScenarioGroup OperationsTemplate GETTOKEN_IMAGE_PARAM_MAPPING_TEMPLATE),
      (js ''claude_cli_headers_passthrough'', preset ScenarioGroup OperationsTemplate CLAUDE_CLI_HEADER_PASSTHROUGH_TEMPLATE),
      (js ''codex_cli_headers_passthrough'', preset ScenarioGroup OperationsTemplate CODEX_CLI_HEADER_PASSTHROUGH_TEMPLATE),
      (js ''aws_bedrock_anthropic_beta_override'', preset ScenarioGroup OperationsTemplate AWS_BEDROCK_ANTHROPIC_COMPAT_TEMPLATE)]"

definition preset_of :: "jsstr \<Rightarrow> template_preset" where
  "preset_of k = (case map_of TEMPLATE_PRESET_CONFIG k of
     Some p \<Rightarrow> p | None \<Rightarrow> preset BasicGroup OperationsTemplate OPERATION_TEMPLATE)"

definition template_operations :: "template_preset \<Rightarrow> jsval list" where  \<comment> \<open>\<open>preset.payload?.operations || []\<close>\<close>
  "template_operations p = (case js_prop (tp_payload p) (js ''operations'') of JArr vs \<Rightarrow> vs | _ \<Rightarrow> [])"

end
