(* ===== verification/ParamOverrideEditor.thy ===== *)
theory ParamOverrideEditor
  imports ParamOverrideTemplates
begin

text \<open>
  The component \<open>ParamOverrideEditorModal\<close>: its state, the effects that open the dialog and keep the
  selection valid, and every handler. A handler maps the state to the new state and what the user
  sees of it. The field guide and example dialogs are view state and left out.

  The counter behind \<open>nextLocalId\<close> is part of the state. Rendering uses it up as well (the initial
  value of the operations and the drafts of the selected operation are made anew), so a render is
  a step of its own.
\<close>

section \<open>State\<close>

datatype notice = Quiet | ShowError po_message | ShowSuccess po_message | Thrown js_error

record po_editor =
  ed_editMode :: edit_mode
  ed_visualMode :: visual_mode
  ed_legacyValue :: jsstr
  ed_operations :: "po_operation list"
  ed_jsonText :: jsstr
  ed_jsonError :: "po_message option"
  ed_search :: jsstr
  ed_selected :: "local_id option"
  ed_expanded :: "local_id \<rightharpoonup> local_id list"
  ed_dragged :: "local_id option"
  ed_dragOver :: "local_id option"
  ed_dragPosition :: drop_position
  ed_templateGroup :: template_group
  ed_templatePreset :: jsstr
  ed_seed :: nat

definition initial_editor :: "nat \<Rightarrow> po_editor" where
  "initial_editor seed =
     (let (op, seed') = createDefaultOperation seed in
      \<lparr>ed_editMode = Visual, ed_visualMode = OperationsMode, ed_legacyValue = [], ed_operations = [op],
       ed_jsonText = [], ed_jsonError = None, ed_search = [], ed_selected = None, ed_expanded = Map.empty,
       ed_dragged = None, ed_dragOver = None, ed_dragPosition = Before,
       ed_templateGroup = BasicGroup, ed_templatePreset = js ''operations_default'', ed_seed = seed'\<rparr>)"

definition first_id :: "po_operation list \<Rightarrow> local_id option" where  \<comment> \<open>\<open>ops[0]?.id || ''\<close>\<close>
  "first_id ops = (case ops of [] \<Rightarrow> None | op # _ \<Rightarrow> Some (op_id op))"

definition default_preset :: "visual_mode \<Rightarrow> jsstr" where
  "default_preset m = (case m of LegacyMode \<Rightarrow> js ''legacy_default'' | OperationsMode \<Rightarrow> js ''operations_default'')"

text \<open>The effect that runs when the dialog opens or its value changes; a value with a \<open>null\<close> operation throws.\<close>

definition open_editor :: "jsval \<Rightarrow> po_editor \<Rightarrow> po_editor \<times> notice" where
  "open_editor rawValue st =
     (case parseInitialState rawValue (ed_seed st) of
        Inl e \<Rightarrow> (st, Thrown e)
      | Inr (next_st, seed') \<Rightarrow>
          (\<lparr>ed_editMode = in_editMode next_st, ed_visualMode = in_visualMode next_st, ed_legacyValue = in_legacyValue next_st,
            ed_operations = in_operations next_st, ed_jsonText = in_jsonText next_st, ed_jsonError = in_jsonError next_st,
            ed_search = [], ed_selected = first_id (in_operations next_st), ed_expanded = Map.empty,
            ed_dragged = None, ed_dragOver = None, ed_dragPosition = Before,
            ed_templateGroup = BasicGroup, ed_templatePreset = default_preset (in_visualMode next_st), ed_seed = seed'\<rparr>, Quiet))"

definition settle_selection :: "po_editor \<Rightarrow> po_editor" where
  "settle_selection st =
     (if ed_operations st = [] then st\<lparr>ed_selected := None\<rparr>
      else if \<not> list_ex (\<lambda>item. Some (op_id item) = ed_selected st) (ed_operations st)
      then st\<lparr>ed_selected := Some (op_id (hd (ed_operations st)))\<rparr> else st)"

definition templatePresetOptions :: "template_group \<Rightarrow> jsstr list" where
  "templatePresetOptions g = map fst (filter (\<lambda>(_, config). tp_group config = g) TEMPLATE_PRESET_CONFIG)"

definition settle_preset :: "po_editor \<Rightarrow> po_editor" where
  "settle_preset st =
     (let options = templatePresetOptions (ed_templateGroup st) in
      if options = [] then st
      else if \<not> list_ex (\<lambda>k. k = ed_templatePreset st) options then st\<lparr>ed_templatePreset := hd options\<rparr> else st)"

section \<open>What the component derives from its state\<close>

definition operationCount :: "po_editor \<Rightarrow> nat" where
  "operationCount st = length (filter (\<lambda>item. \<not> isOperationBlank item) (ed_operations st))"

definition filteredOperations :: "(jsstr \<Rightarrow> jsstr) \<Rightarrow> po_editor \<Rightarrow> po_operation list" where
  "filteredOperations toLowerCase st =
     (let keyword = toLowerCase (trim (ed_search st)) in
      if keyword = [] then ed_operations st
      else filter (\<lambda>op. str_includes (toLowerCase (join (js '' '') (filter (\<lambda>s. s \<noteq> [])
              [op_description op, op_mode op, op_path op, op_from op, op_to op, op_value_text op]))) keyword)
            (ed_operations st))"

definition find_operation :: "local_id \<Rightarrow> po_operation list \<Rightarrow> po_operation option" where
  "find_operation i ops = List.find (\<lambda>op. op_id op = i) ops"

definition selectedOperation :: "po_editor \<Rightarrow> po_operation option" where
  "selectedOperation st = (case ed_selected st of None \<Rightarrow> None | Some i \<Rightarrow> find_operation i (ed_operations st))"

definition selectedOperationIndex :: "po_editor \<Rightarrow> nat option" where
  "selectedOperationIndex st = find_id (\<lambda>op. Some (op_id op) = ed_selected st) (ed_operations st)"

definition returnErrorDraft :: "po_editor \<Rightarrow> return_draft option" where
  "returnErrorDraft st =
     (case selectedOperation st of
        Some op \<Rightarrow> if op_mode op \<noteq> js ''return_error'' then None else Some (parseReturnErrorDraft (op_value_text op))
      | None \<Rightarrow> None)"

definition pruneObjectsDraft :: "po_editor \<Rightarrow> prune_draft option \<times> po_editor" where
  "pruneObjectsDraft st =
     (case selectedOperation st of
        Some op \<Rightarrow> if op_mode op \<noteq> js ''prune_objects'' then (None, st)
          else let (draft, seed') = parsePruneObjectsDraft (op_value_text op) (ed_seed st) in (Some draft, st\<lparr>ed_seed := seed'\<rparr>)
      | None \<Rightarrow> (None, st))"

definition count_mode :: "jsstr \<Rightarrow> (jsstr \<times> nat) list \<Rightarrow> (jsstr \<times> nat) list" where  \<comment> \<open>\<open>acc[mode] = (acc[mode] || 0) + 1\<close>\<close>
  "count_mode m acc = obj_put m (case map_of acc m of Some n \<Rightarrow> n + 1 | None \<Rightarrow> 1) acc"

definition topOperationModes :: "po_editor \<Rightarrow> (jsstr \<times> nat) list" where
  "topOperationModes st =
     take 4 (sort_key (\<lambda>(_, n). - int n) (fold (\<lambda>op. count_mode (mode_of op)) (ed_operations st) []))"

text \<open>
  A render: the argument of \<open>useState\<close> makes an operation that is thrown away, the draft of a pruning
  operation gets new rule ids. \<open>None\<close> when no such draft is shown.
\<close>

definition render :: "po_editor \<Rightarrow> prune_draft option \<times> po_editor" where
  "render st = (let (_, seed') = createDefaultOperation (ed_seed st) in pruneObjectsDraft (st\<lparr>ed_seed := seed'\<rparr>))"

section \<open>Switching between the visual and the text editor\<close>

definition buildVisualJson :: "po_editor \<Rightarrow> po_message + jsstr" where
  "buildVisualJson st =
     (case ed_visualMode st of
        LegacyMode \<Rightarrow>
          let trimmed = trim (ed_legacyValue st) in
          if trimmed = [] then Inr []
          else (case json_parse trimmed of
              None \<Rightarrow> Inl MustBeJson
            | Some parsed \<Rightarrow> if \<not> plain_object parsed then Inl LegacyObject else Inr (pretty_text 0 parsed))
      | OperationsMode \<Rightarrow>
          (case buildOperationsJson True (ed_operations st) of Inl (p, line) \<Rightarrow> Inl (Problem p line) | Inr t \<Rightarrow> Inr t))"

definition unvalidated_json :: "po_editor \<Rightarrow> jsstr" where
  "unvalidated_json st =
     (case ed_visualMode st of
        LegacyMode \<Rightarrow> ed_legacyValue st
      | OperationsMode \<Rightarrow> (case buildOperationsJson False (ed_operations st) of Inl _ \<Rightarrow> [] | Inr t \<Rightarrow> t))"

definition switchToJsonMode :: "po_editor \<Rightarrow> po_editor \<times> notice" where
  "switchToJsonMode st =
     (if ed_editMode st = JsonMode then (st, Quiet)
      else (case buildVisualJson st of
          Inr t \<Rightarrow> (st\<lparr>ed_jsonText := t, ed_jsonError := None, ed_editMode := JsonMode\<rparr>, Quiet)
        | Inl m \<Rightarrow> (st\<lparr>ed_jsonText := unvalidated_json st, ed_jsonError := Some m, ed_editMode := JsonMode\<rparr>, ShowError m)))"

text \<open>The calls that every reset shares: one empty operation, selected.\<close>

definition with_fallback :: "po_editor \<Rightarrow> po_editor" where
  "with_fallback st =
     (let (fallback, seed') = createDefaultOperation (ed_seed st) in
      st\<lparr>ed_operations := [fallback], ed_selected := Some (op_id fallback), ed_seed := seed'\<rparr>)"

definition switchToVisualMode :: "po_editor \<Rightarrow> po_editor \<times> notice" where
  "switchToVisualMode st =
     (let trimmed = trim (ed_jsonText st) in
      if ed_editMode st = Visual then (st, Quiet)
      else if trimmed = []
      then ((with_fallback st)\<lparr>ed_visualMode := OperationsMode, ed_legacyValue := [], ed_jsonError := None, ed_editMode := Visual\<rparr>, Quiet)
      else (case json_parse trimmed of
          None \<Rightarrow> (st, ShowError MustBeJson)
        | Some parsed \<Rightarrow>
            if plain_object parsed then
              (case js_prop parsed (js ''operations'') of
                 JArr vs \<Rightarrow> (case read_operations vs (ed_seed st) of
                     Inl e \<Rightarrow> (st, Thrown e)
                   | Inr (ops, seed') \<Rightarrow>
                       (st\<lparr>ed_visualMode := OperationsMode, ed_operations := ops, ed_selected := first_id ops, ed_legacyValue := [],
                          ed_jsonError := None, ed_editMode := Visual, ed_templateGroup := BasicGroup,
                          ed_templatePreset := js ''operations_default'', ed_seed := seed'\<rparr>, Quiet))
               | _ \<Rightarrow> ((with_fallback st)\<lparr>ed_visualMode := LegacyMode, ed_legacyValue := pretty_text 0 parsed, ed_jsonError := None,
                          ed_editMode := Visual, ed_templateGroup := BasicGroup, ed_templatePreset := js ''legacy_default''\<rparr>, Quiet))
            else (st, ShowError MustBeObject)))"

definition handleJsonChange :: "jsstr \<Rightarrow> po_editor \<Rightarrow> po_editor \<times> notice" where
  "handleJsonChange nextValue st =
     (let trimmed = trim nextValue in
      (st\<lparr>ed_jsonText := nextValue,
         ed_jsonError := (if trimmed = [] then None else if json_parse trimmed = None then Some JsonInvalid else None)\<rparr>, Quiet))"

definition formatJson :: "po_editor \<Rightarrow> po_editor \<times> notice" where
  "formatJson st =
     (let trimmed = trim (ed_jsonText st) in
      if trimmed = [] then (st, Quiet)
      else (case json_parse trimmed of
          None \<Rightarrow> (st, ShowError MustBeJson)
        | Some v \<Rightarrow> (st\<lparr>ed_jsonText := pretty_text 0 v, ed_jsonError := None\<rparr>, Quiet)))"

definition visualValidationError :: "po_editor \<Rightarrow> po_message option" where
  "visualValidationError st =
     (if ed_editMode st \<noteq> Visual then None else (case buildVisualJson st of Inr _ \<Rightarrow> None | Inl m \<Rightarrow> Some m))"

text \<open>The text handed to \<open>onSave\<close>, or the message shown instead.\<close>

definition handleSave :: "po_editor \<Rightarrow> po_message + jsstr" where
  "handleSave st =
     (case ed_editMode st of
        JsonMode \<Rightarrow>
          let trimmed = trim (ed_jsonText st) in
          if trimmed = [] then Inr []
          else (case json_parse trimmed of None \<Rightarrow> Inl MustBeJson | Some v \<Rightarrow> Inr (pretty_text 0 v))
      | Visual \<Rightarrow> buildVisualJson st)"

section \<open>Templates\<close>

definition fillLegacyTemplate :: "jsval \<Rightarrow> po_editor \<Rightarrow> po_editor \<times> notice" where
  "fillLegacyTemplate legacyPayload st =
     (let text = pretty_text 0 legacyPayload in
      ((with_fallback st)\<lparr>ed_visualMode := LegacyMode, ed_legacyValue := text, ed_expanded := Map.empty, ed_jsonText := text,
         ed_jsonError := None, ed_editMode := Visual\<rparr>, Quiet))"

definition fillOperationsTemplate :: "jsval list \<Rightarrow> po_editor \<Rightarrow> po_editor \<times> notice" where
  "fillOperationsTemplate operationsPayload st =
     (case read_operations operationsPayload (ed_seed st) of
        Inl e \<Rightarrow> (st, Thrown e)
      | Inr (ops, seed') \<Rightarrow>
          (st\<lparr>ed_visualMode := OperationsMode, ed_operations := ops, ed_selected := first_id ops, ed_expanded := Map.empty,
             ed_jsonText := pretty_text 0 (JObj [(js ''operations'', JArr operationsPayload)]), ed_jsonError := None,
             ed_editMode := Visual, ed_seed := seed'\<rparr>, Quiet))"

definition current_legacy :: "po_editor \<Rightarrow> po_message + (jsstr \<times> jsval) list" where
  "current_legacy st =
     (let trimmed = trim (ed_legacyValue st) in
      if ed_visualMode st \<noteq> LegacyMode \<or> trimmed = [] then Inr []
      else (case json_parse trimmed of
          None \<Rightarrow> Inl LegacyInvalid
        | Some parsed \<Rightarrow> if plain_object parsed then Inr (entries parsed) else Inl LegacyNotAppendable))"

definition appendLegacyTemplate :: "jsval \<Rightarrow> po_editor \<Rightarrow> po_editor \<times> notice" where
  "appendLegacyTemplate legacyPayload st =
     (case current_legacy st of
        Inl m \<Rightarrow> (st, ShowError m)
      | Inr parsedCurrent \<Rightarrow>
          fillLegacyTemplate (JObj (obj_spread (obj_spread [] (entries legacyPayload)) parsedCurrent)) st)"

definition appendOperationsTemplate :: "jsval list \<Rightarrow> po_editor \<Rightarrow> po_editor \<times> notice" where
  "appendOperationsTemplate operationsPayload st =
     (case try_map_seed normalizeOperation operationsPayload (ed_seed st) of
        Inl e \<Rightarrow> (st, Thrown e)
      | Inr (appended, seed') \<Rightarrow>
          let existing = (case ed_visualMode st of
                 OperationsMode \<Rightarrow> filter (\<lambda>item. \<not> isOperationBlank item) (ed_operations st) | LegacyMode \<Rightarrow> []);
              nextOperations = existing @ appended
          in (st\<lparr>ed_visualMode := OperationsMode, ed_operations := nextOperations, ed_selected := first_id nextOperations,
                ed_expanded := Map.empty, ed_legacyValue := [], ed_jsonError := None, ed_editMode := Visual, ed_jsonText := [],
                ed_seed := seed'\<rparr>, Quiet))"

definition clearValue :: "po_editor \<Rightarrow> po_editor" where
  "clearValue st =
     (with_fallback st)\<lparr>ed_visualMode := OperationsMode, ed_legacyValue := [], ed_expanded := Map.empty, ed_jsonText := [],
       ed_jsonError := None, ed_templateGroup := BasicGroup, ed_templatePreset := js ''operations_default''\<rparr>"

definition resetEditorState :: "po_editor \<Rightarrow> po_editor \<times> notice" where
  "resetEditorState st = ((clearValue st)\<lparr>ed_editMode := Visual\<rparr>, Quiet)"

definition fillTemplateFromLibrary :: "po_editor \<Rightarrow> po_editor \<times> notice" where
  "fillTemplateFromLibrary st =
     (let p = preset_of (ed_templatePreset st) in
      case tp_kind p of
        LegacyTemplate \<Rightarrow> fillLegacyTemplate (tp_payload p) st
      | OperationsTemplate \<Rightarrow> fillOperationsTemplate (template_operations p) st)"

definition appendTemplateFromLibrary :: "po_editor \<Rightarrow> po_editor \<times> notice" where
  "appendTemplateFromLibrary st =
     (let p = preset_of (ed_templatePreset st) in
      case tp_kind p of
        LegacyTemplate \<Rightarrow> appendLegacyTemplate (tp_payload p) st
      | OperationsTemplate \<Rightarrow> appendOperationsTemplate (template_operations p) st)"

section \<open>Editing operations\<close>

text \<open>The fields of a patch object; a patch is the list of its fields.\<close>

datatype op_patch =
    SetDescription jsstr | SetPath jsstr | SetMode jsstr | SetValueText jsstr | SetKeepOrigin bool
  | SetFrom jsstr | SetTo jsstr | SetLogic jsstr

fun apply_op_patch :: "op_patch \<Rightarrow> po_operation \<Rightarrow> po_operation" where
  "apply_op_patch (SetDescription s) op = op\<lparr>op_description := s\<rparr>"
| "apply_op_patch (SetPath s) op = op\<lparr>op_path := s\<rparr>"
| "apply_op_patch (SetMode s) op = op\<lparr>op_mode := s\<rparr>"
| "apply_op_patch (SetValueText s) op = op\<lparr>op_value_text := s\<rparr>"
| "apply_op_patch (SetKeepOrigin b) op = op\<lparr>op_keep_origin := b\<rparr>"
| "apply_op_patch (SetFrom s) op = op\<lparr>op_from := s\<rparr>"
| "apply_op_patch (SetTo s) op = op\<lparr>op_to := s\<rparr>"
| "apply_op_patch (SetLogic s) op = op\<lparr>op_logic := s\<rparr>"

definition map_operation :: "local_id \<Rightarrow> (po_operation \<Rightarrow> po_operation) \<Rightarrow> po_operation list \<Rightarrow> po_operation list" where
  "map_operation i f ops = map (\<lambda>item. if op_id item = i then f item else item) ops"

definition updateOperation :: "local_id \<Rightarrow> op_patch list \<Rightarrow> po_editor \<Rightarrow> po_editor" where
  "updateOperation operationId patch st =
     st\<lparr>ed_operations := map_operation operationId (fold apply_op_patch patch) (ed_operations st)\<rparr>"

datatype guide_target = PathTarget | FromTarget | ToTarget

definition applyBuiltinField :: "jsstr \<Rightarrow> guide_target \<Rightarrow> po_editor \<Rightarrow> po_editor \<times> notice" where
  "applyBuiltinField fieldKey target st =
     (case selectedOperation st of
        None \<Rightarrow> (st, ShowError SelectRule)
      | Some op \<Rightarrow>
          let mode = mode_of op; meta = meta_of mode; sync = (mode = js ''sync_fields'');
              key = (if sync then buildSyncTargetSpec JsonTarget fieldKey else fieldKey)
          in if target = PathTarget \<and> (m_path meta \<or> m_pathOptional meta \<or> m_pathAlias meta)
             then (updateOperation (op_id op) [SetPath fieldKey] st, Quiet)
             else if target = FromTarget \<and> (m_from meta \<or> m_pathAlias meta \<or> sync)
             then (updateOperation (op_id op) [SetFrom key] st, Quiet)
             else if target = ToTarget \<and> (m_to meta \<or> sync)
             then (updateOperation (op_id op) [SetTo key] st, Quiet)
             else (st, ShowError NotWritable))"

definition formatSelectedOperationValueAsJson :: "po_editor \<Rightarrow> po_editor \<times> notice" where
  "formatSelectedOperationValueAsJson st =
     (case selectedOperation st of
        None \<Rightarrow> (st, Quiet)
      | Some op \<Rightarrow>
          let raw = trim (op_value_text op) in
          if raw = [] then (st, Quiet)
          else (case json_parse raw of
              None \<Rightarrow> (st, ShowError NotFormattable)
            | Some v \<Rightarrow> (updateOperation (op_id op) [SetValueText (pretty_text 0 v)] st, ShowSuccess Formatted)))"

datatype rd_patch = RMessage jsstr | RStatusCode jsnum | RCode jsstr | RType jsstr | RSkipRetry bool | RSimpleMode bool

fun apply_rd_patch :: "rd_patch \<Rightarrow> return_draft \<Rightarrow> return_draft" where
  "apply_rd_patch (RMessage s) d = d\<lparr>rd_message := s\<rparr>"
| "apply_rd_patch (RStatusCode n) d = d\<lparr>rd_statusCode := n\<rparr>"
| "apply_rd_patch (RCode s) d = d\<lparr>rd_code := s\<rparr>"
| "apply_rd_patch (RType s) d = d\<lparr>rd_type := s\<rparr>"
| "apply_rd_patch (RSkipRetry b) d = d\<lparr>rd_skipRetry := b\<rparr>"
| "apply_rd_patch (RSimpleMode b) d = d\<lparr>rd_simpleMode := b\<rparr>"

definition updateReturnErrorDraft :: "local_id \<Rightarrow> rd_patch list \<Rightarrow> po_editor \<Rightarrow> po_editor" where
  "updateReturnErrorDraft operationId draftPatch st =
     (case find_operation operationId (ed_operations st) of
        None \<Rightarrow> st
      | Some current \<Rightarrow>
          updateOperation operationId
            [SetValueText (buildReturnErrorValueText (fold apply_rd_patch draftPatch (parseReturnErrorDraft (op_value_text current))))] st)"

text \<open>The updater of a pruning draft may make new ids.\<close>

definition updatePruneObjectsDraft ::
    "local_id \<Rightarrow> (prune_draft \<Rightarrow> nat \<Rightarrow> prune_draft \<times> nat) \<Rightarrow> po_editor \<Rightarrow> po_editor" where
  "updatePruneObjectsDraft operationId updater st =
     (case find_operation operationId (ed_operations st) of
        None \<Rightarrow> st
      | Some current \<Rightarrow>
          let (draft, seed1) = parsePruneObjectsDraft (op_value_text current) (ed_seed st);
              (nextDraft, seed2) = updater draft seed1
          in updateOperation operationId [SetValueText (buildPruneObjectsValueText nextDraft)] (st\<lparr>ed_seed := seed2\<rparr>))"

datatype pd_patch = PSimpleMode bool | PTypeText jsstr | PLogic jsstr | PRecursive bool

fun apply_pd_patch :: "pd_patch \<Rightarrow> prune_draft \<Rightarrow> prune_draft" where
  "apply_pd_patch (PSimpleMode b) d = d\<lparr>pd_simpleMode := b\<rparr>"
| "apply_pd_patch (PTypeText s) d = d\<lparr>pd_typeText := s\<rparr>"
| "apply_pd_patch (PLogic s) d = d\<lparr>pd_logic := s\<rparr>"
| "apply_pd_patch (PRecursive b) d = d\<lparr>pd_recursive := b\<rparr>"

definition patchPruneObjectsDraft :: "local_id \<Rightarrow> pd_patch list \<Rightarrow> po_editor \<Rightarrow> po_editor" where
  "patchPruneObjectsDraft operationId patch = updatePruneObjectsDraft operationId (\<lambda>draft seed. (fold apply_pd_patch patch draft, seed))"

definition addPruneRule :: "local_id \<Rightarrow> po_editor \<Rightarrow> po_editor" where
  "addPruneRule operationId =
     updatePruneObjectsDraft operationId (\<lambda>draft seed.
       let (rule, seed') = normalizePruneRule (JObj []) seed
       in (draft\<lparr>pd_simpleMode := False, pd_rules := pd_rules draft @ [rule]\<rparr>, seed'))"

datatype cd_patch = CPath jsstr | CMode jsstr | CValueText jsstr | CInvert bool | CPassMissingKey bool

fun apply_cd_patch :: "cd_patch \<Rightarrow> po_condition \<Rightarrow> po_condition" where
  "apply_cd_patch (CPath s) c = c\<lparr>cd_path := s\<rparr>"
| "apply_cd_patch (CMode s) c = c\<lparr>cd_mode := s\<rparr>"
| "apply_cd_patch (CValueText s) c = c\<lparr>cd_value_text := s\<rparr>"
| "apply_cd_patch (CInvert b) c = c\<lparr>cd_invert := b\<rparr>"
| "apply_cd_patch (CPassMissingKey b) c = c\<lparr>cd_pass_missing_key := b\<rparr>"

definition updatePruneRule :: "local_id \<Rightarrow> local_id \<Rightarrow> cd_patch list \<Rightarrow> po_editor \<Rightarrow> po_editor" where
  "updatePruneRule operationId ruleId patch =
     updatePruneObjectsDraft operationId (\<lambda>draft seed.
       (draft\<lparr>pd_rules := map (\<lambda>rule. if cd_id rule = ruleId then fold apply_cd_patch patch rule else rule) (pd_rules draft)\<rparr>, seed))"

definition removePruneRule :: "local_id \<Rightarrow> local_id \<Rightarrow> po_editor \<Rightarrow> po_editor" where
  "removePruneRule operationId ruleId =
     updatePruneObjectsDraft operationId (\<lambda>draft seed. (draft\<lparr>pd_rules := filter (\<lambda>rule. cd_id rule \<noteq> ruleId) (pd_rules draft)\<rparr>, seed))"

definition addOperation :: "po_editor \<Rightarrow> po_editor" where
  "addOperation st =
     (let (created, seed') = createDefaultOperation (ed_seed st) in
      st\<lparr>ed_operations := ed_operations st @ [created], ed_selected := Some (op_id created), ed_seed := seed'\<rparr>)"

section \<open>Dragging\<close>

definition resetOperationDragState :: "po_editor \<Rightarrow> po_editor" where
  "resetOperationDragState st = st\<lparr>ed_dragged := None, ed_dragOver := None, ed_dragPosition := Before\<rparr>"

definition moveOperation :: "local_id option \<Rightarrow> local_id option \<Rightarrow> drop_position \<Rightarrow> po_editor \<Rightarrow> po_editor" where
  "moveOperation sourceId targetId position st =
     (if sourceId = None \<or> targetId = None \<or> sourceId = targetId then st
      else st\<lparr>ed_operations := reorderOperations (ed_operations st) sourceId targetId position, ed_selected := sourceId\<rparr>)"

definition handleOperationDragStart :: "local_id \<Rightarrow> po_editor \<Rightarrow> po_editor" where
  "handleOperationDragStart operationId st = st\<lparr>ed_dragged := Some operationId, ed_selected := Some operationId\<rparr>"

text \<open>\<open>below\<close>: the pointer is in the lower half of the row.\<close>

definition handleOperationDragOver :: "bool \<Rightarrow> local_id \<Rightarrow> po_editor \<Rightarrow> po_editor" where
  "handleOperationDragOver below operationId st =
     (if ed_dragged st = None \<or> ed_dragged st = Some operationId then st
      else st\<lparr>ed_dragOver := Some operationId, ed_dragPosition := (if below then After else Before)\<rparr>)"

text \<open>\<open>transfer\<close>: the id in the drop event's data, if it carries one.\<close>

definition handleOperationDrop :: "local_id option \<Rightarrow> local_id \<Rightarrow> po_editor \<Rightarrow> po_editor" where
  "handleOperationDrop transfer operationId st =
     (let sourceId = (case ed_dragged st of Some i \<Rightarrow> Some i | None \<Rightarrow> transfer);
          position = (if ed_dragOver st = Some operationId then ed_dragPosition st else Before)
      in resetOperationDragState (moveOperation sourceId (Some operationId) position st))"

section \<open>Copying, removing, conditions\<close>

definition condition_source :: "po_condition \<Rightarrow> jsval" where
  "condition_source c = JObj [(js ''path'', JStr (cd_path c)), (js ''mode'', JStr (cd_mode c)),
     (js ''value'', parseLooseValue (cd_value_text c)), (js ''invert'', JBool (cd_invert c)),
     (js ''pass_missing_key'', JBool (cd_pass_missing_key c))]"

definition operation_source :: "po_operation \<Rightarrow> jsval" where
  "operation_source op = JObj [(js ''description'', JStr (op_description op)), (js ''path'', JStr (op_path op)),
     (js ''mode'', JStr (op_mode op)), (js ''value'', parseLooseValue (op_value_text op)),
     (js ''keep_origin'', JBool (op_keep_origin op)), (js ''from'', JStr (op_from op)), (js ''to'', JStr (op_to op)),
     (js ''logic'', JStr (op_logic op)), (js ''conditions'', JArr (map condition_source (op_conditions op)))]"

text \<open>
  \<open>eager\<close>: React has run the updater by the time \<open>setOperations\<close> returns, so that \<open>insertedId\<close> is set.
  Otherwise the copy is inserted but not selected.
\<close>

definition duplicateOperation :: "bool \<Rightarrow> local_id \<Rightarrow> po_editor \<Rightarrow> po_editor" where
  "duplicateOperation eager operationId st =
     (case find_id (\<lambda>item. op_id item = operationId) (ed_operations st) of
        None \<Rightarrow> st
      | Some index \<Rightarrow>
          (case normalizeOperation (operation_source (ed_operations st ! index)) (ed_seed st) of
             Inl e \<Rightarrow> st
           | Inr (cloned, seed') \<Rightarrow>
               st\<lparr>ed_operations := insert_at (index + 1) cloned (ed_operations st),
                  ed_selected := (if eager then Some (op_id cloned) else ed_selected st), ed_seed := seed'\<rparr>))"

definition removeOperation :: "local_id \<Rightarrow> po_editor \<Rightarrow> po_editor" where
  "removeOperation operationId st =
     (let (ops, seed') = (if length (ed_operations st) \<le> 1
            then let (created, s) = createDefaultOperation (ed_seed st) in ([created], s)
            else (filter (\<lambda>item. op_id item \<noteq> operationId) (ed_operations st), ed_seed st))
      in st\<lparr>ed_operations := ops, ed_expanded := (ed_expanded st)(operationId := None), ed_seed := seed'\<rparr>)"

definition expanded_of :: "local_id \<Rightarrow> po_editor \<Rightarrow> local_id list" where
  "expanded_of i st = (case ed_expanded st i of Some ks \<Rightarrow> ks | None \<Rightarrow> [])"

definition addCondition :: "local_id \<Rightarrow> po_editor \<Rightarrow> po_editor" where
  "addCondition operationId st =
     (let (c, seed') = createDefaultCondition (ed_seed st) in
      st\<lparr>ed_operations := map_operation operationId (\<lambda>op. op\<lparr>op_conditions := op_conditions op @ [c]\<rparr>) (ed_operations st),
         ed_expanded := (ed_expanded st)(operationId \<mapsto> expanded_of operationId st @ [cd_id c]), ed_seed := seed'\<rparr>)"

definition updateCondition :: "local_id \<Rightarrow> local_id \<Rightarrow> cd_patch list \<Rightarrow> po_editor \<Rightarrow> po_editor" where
  "updateCondition operationId conditionId patch st =
     st\<lparr>ed_operations := map_operation operationId (\<lambda>op. op\<lparr>op_conditions :=
          map (\<lambda>c. if cd_id c = conditionId then fold apply_cd_patch patch c else c) (op_conditions op)\<rparr>) (ed_operations st)\<rparr>"

definition removeCondition :: "local_id \<Rightarrow> local_id \<Rightarrow> po_editor \<Rightarrow> po_editor" where
  "removeCondition operationId conditionId st =
     st\<lparr>ed_operations := map_operation operationId (\<lambda>op. op\<lparr>op_conditions :=
          filter (\<lambda>c. cd_id c \<noteq> conditionId) (op_conditions op)\<rparr>) (ed_operations st),
        ed_expanded := (ed_expanded st)(operationId \<mapsto> filter (\<lambda>k. k \<noteq> conditionId) (expanded_of operationId st))\<rparr>"

definition selectedConditionKeys :: "po_editor \<Rightarrow> local_id list" where
  "selectedConditionKeys st = (case ed_selected st of None \<Rightarrow> [] | Some i \<Rightarrow> expanded_of i st)"

definition handleConditionCollapseChange :: "local_id \<Rightarrow> local_id list \<Rightarrow> po_editor \<Rightarrow> po_editor" where
  "handleConditionCollapseChange operationId activeKeys st = st\<lparr>ed_expanded := (ed_expanded st)(operationId \<mapsto> activeKeys)\<rparr>"

definition expandAllSelectedConditions :: "po_editor \<Rightarrow> po_editor" where
  "expandAllSelectedConditions st =
     (case selectedOperation st of
        None \<Rightarrow> st
      | Some op \<Rightarrow> st\<lparr>ed_expanded := (ed_expanded st)(op_id op \<mapsto> map cd_id (op_conditions op))\<rparr>)"

definition collapseAllSelectedConditions :: "po_editor \<Rightarrow> po_editor" where
  "collapseAllSelectedConditions st =
     (case ed_selected st of None \<Rightarrow> st | Some i \<Rightarrow> st\<lparr>ed_expanded := (ed_expanded st)(i \<mapsto> [])\<rparr>)"

section \<open>Events\<close>

datatype po_event =
    Open jsval | Render | ToJson | ToVisual | JsonChange jsstr | FormatJson | LegacyChange jsstr | Search jsstr
  | SelectGroup template_group | SelectPreset jsstr | FillTemplate | AppendTemplate | Reset
  | SelectOperation local_id | UpdateOperation local_id "op_patch list" | BuiltinField jsstr guide_target | FormatValue
  | UpdateReturnError local_id "rd_patch list" | UpdatePrune local_id "pd_patch list"
  | AddPruneRule local_id | UpdatePruneRule local_id local_id "cd_patch list" | RemovePruneRule local_id local_id
  | AddOperation | DragStart local_id | DragOver bool local_id | DragEnd | Drop "local_id option" local_id
  | DuplicateOperation bool local_id | RemoveOperation local_id
  | AddCondition local_id | UpdateCondition local_id local_id "cd_patch list" | RemoveCondition local_id local_id
  | CollapseChange local_id "local_id list" | ExpandAll | CollapseAll

fun po_handle :: "po_event \<Rightarrow> po_editor \<Rightarrow> po_editor" where
  "po_handle (Open v) = (\<lambda>st. fst (open_editor v st))"
| "po_handle Render = (\<lambda>st. snd (render st))"
| "po_handle ToJson = (\<lambda>st. fst (switchToJsonMode st))"
| "po_handle ToVisual = (\<lambda>st. fst (switchToVisualMode st))"
| "po_handle (JsonChange s) = (\<lambda>st. fst (handleJsonChange s st))"
| "po_handle FormatJson = (\<lambda>st. fst (formatJson st))"
| "po_handle (LegacyChange s) = (\<lambda>st. st\<lparr>ed_legacyValue := s\<rparr>)"
| "po_handle (Search s) = (\<lambda>st. st\<lparr>ed_search := s\<rparr>)"
| "po_handle (SelectGroup g) = (\<lambda>st. st\<lparr>ed_templateGroup := g\<rparr>)"
| "po_handle (SelectPreset k) = (\<lambda>st. st\<lparr>ed_templatePreset := (if k = [] then js ''operations_default'' else k)\<rparr>)"
| "po_handle FillTemplate = (\<lambda>st. fst (fillTemplateFromLibrary st))"
| "po_handle AppendTemplate = (\<lambda>st. fst (appendTemplateFromLibrary st))"
| "po_handle Reset = (\<lambda>st. fst (resetEditorState st))"
| "po_handle (SelectOperation i) = (\<lambda>st. st\<lparr>ed_selected := Some i\<rparr>)"
| "po_handle (UpdateOperation i p) = updateOperation i p"
| "po_handle (BuiltinField k tg) = (\<lambda>st. fst (applyBuiltinField k tg st))"
| "po_handle FormatValue = (\<lambda>st. fst (formatSelectedOperationValueAsJson st))"
| "po_handle (UpdateReturnError i p) = updateReturnErrorDraft i p"
| "po_handle (UpdatePrune i p) = patchPruneObjectsDraft i p"
| "po_handle (AddPruneRule i) = addPruneRule i"
| "po_handle (UpdatePruneRule i r p) = updatePruneRule i r p"
| "po_handle (RemovePruneRule i r) = removePruneRule i r"
| "po_handle AddOperation = addOperation"
| "po_handle (DragStart i) = handleOperationDragStart i"
| "po_handle (DragOver b i) = handleOperationDragOver b i"
| "po_handle DragEnd = resetOperationDragState"
| "po_handle (Drop tr i) = handleOperationDrop tr i"
| "po_handle (DuplicateOperation e i) = duplicateOperation e i"
| "po_handle (RemoveOperation i) = removeOperation i"
| "po_handle (AddCondition i) = addCondition i"
| "po_handle (UpdateCondition i c p) = updateCondition i c p"
| "po_handle (RemoveCondition i c) = removeCondition i c"
| "po_handle (CollapseChange i ks) = handleConditionCollapseChange i ks"
| "po_handle ExpandAll = expandAllSelectedConditions"
| "po_handle CollapseAll = collapseAllSelectedConditions"

text \<open>After every event the two effects run.\<close>

definition po_step :: "po_event \<Rightarrow> po_editor \<Rightarrow> po_editor" where
  "po_step ev st = settle_preset (settle_selection (po_handle ev st))"

inductive po_reachable :: "po_editor \<Rightarrow> bool" where
  start: "po_reachable (settle_preset (settle_selection (initial_editor seed)))"
| step: "po_reachable st \<Longrightarrow> po_reachable (po_step ev st)"

end
