(* ===== verification/ParamOverrideInvariant.thy ===== *)
theory ParamOverrideInvariant
  imports ParamOverrideEditor
begin

text \<open>
  What holds in every state of the parameter override editor: ids tell the operations and the
  conditions apart, there is always an operation and one of them is selected, and the selected
  template is one the library offers. Rule edits of a pruning operation are shown to get lost.
\<close>

section \<open>Reading makes well-typed rows with fresh ids\<close>

definition condition_typed :: "po_condition \<Rightarrow> bool" where
  "condition_typed c \<longleftrightarrow> cd_mode c \<in> set CONDITION_MODE_VALUES"

definition operation_typed :: "po_operation \<Rightarrow> bool" where
  "operation_typed op \<longleftrightarrow> op_mode op \<in> set OPERATION_MODE_VALUES \<and> op_logic op \<in> {js ''AND'', js ''OR''}
     \<and> list_all condition_typed (op_conditions op)"

text \<open>Ids handed out between two values of the counter, no two alike.\<close>

definition fresh_ids :: "nat \<Rightarrow> nat \<Rightarrow> nat list \<Rightarrow> bool" where
  "fresh_ids s s' ids \<longleftrightarrow> s \<le> s' \<and> distinct ids \<and> list_all (\<lambda>i. s \<le> i \<and> i < s') ids"

lemma fresh_ids_Cons: "fresh_ids (Suc s) s' ids \<Longrightarrow> fresh_ids s s' (s # ids)"
  by (auto simp: fresh_ids_def list_all_iff dest: Suc_le_lessD)

lemma fresh_ids_append: "fresh_ids s s1 xs \<Longrightarrow> fresh_ids s1 s2 ys \<Longrightarrow> fresh_ids s s2 (xs @ ys)"
  by (auto simp: fresh_ids_def list_all_iff) (meson leD le_trans less_le_trans)+

text \<open>
  A reader of rows: it takes the next id from the counter, gives a well-formed row, and fails with a
  type error exactly on bad values. Lists of rows are read from these laws alone.
\<close>

locale fresh_reader =
  fixes read_row :: "jsval \<Rightarrow> nat \<Rightarrow> js_error + 'b \<times> nat" and row_id :: "'b \<Rightarrow> nat"
    and good :: "nat \<Rightarrow> 'b \<Rightarrow> bool" and bad :: "jsval \<Rightarrow> bool"
  assumes reads: "read_row x s = Inr (y, s') \<Longrightarrow> s < s' \<and> row_id y = s \<and> good s' y"
    and good_mono: "s \<le> s' \<Longrightarrow> good s y \<Longrightarrow> good s' y"
    and fails: "read_row x s = Inl e \<longleftrightarrow> e = TypeError \<and> bad x"
begin

lemma reads_all:
  assumes "try_map_seed read_row xs s = Inr (ys, s')"
  shows "fresh_ids s s' (map row_id ys) \<and> list_all (good s') ys \<and> length ys = length xs"
  using assms
proof (induction xs arbitrary: s ys)
  case (Cons x xs)
  then obtain y s1 ys1 where y: "read_row x s = Inr (y, s1)" "try_map_seed read_row xs s1 = Inr (ys1, s')" "ys = y # ys1"
    by (auto split: sum.splits prod.splits)
  have h: "s < s1" "row_id y = s" "good s1 y" using reads [OF y(1)] by auto
  have t: "fresh_ids s1 s' (map row_id ys1)" "list_all (good s') ys1" "length ys1 = length xs"
    using Cons.IH [OF y(2)] by auto
  have "fresh_ids s s1 [row_id y]" using h by (simp add: fresh_ids_def)
  from fresh_ids_append [OF this t(1)] show ?case
    using t h(3) good_mono [of s1 s' y] by (simp add: y(3) fresh_ids_def)
qed (simp add: fresh_ids_def)

lemma fails_all: "try_map_seed read_row xs s = Inl e \<longleftrightarrow> e = TypeError \<and> list_ex bad xs"
proof (induction xs arbitrary: s)
  case (Cons x xs)
  show ?case
  proof (cases "read_row x s")
    case (Inl e')
    then show ?thesis using fails [of x s e'] by auto
  next
    case (Inr r)
    then have "\<not> bad x" using fails [of x s TypeError] by auto
    then show ?thesis using Inr Cons.IH [of "snd r"] by (auto split: sum.splits prod.splits)
  qed
qed simp

end

lemma mode_prop_typed: "js d \<in> set modes \<Longrightarrow> mode_prop modes d v \<in> set modes"
  by (simp add: mode_prop_def split: jsval.splits)

lemma default_modes: "js ''full'' \<in> set CONDITION_MODE_VALUES" "js ''set'' \<in> set OPERATION_MODE_VALUES"
  by (simp_all add: CONDITION_MODE_VALUES_def OPERATION_MODE_VALUES_def)

lemma normalizeCondition_result:
  assumes "normalizeCondition c s = Inr (r, s')"
  shows "s' = Suc s \<and> cd_id r = s \<and> condition_typed r"
  using assms default_modes by (auto simp: normalizeCondition_def nextLocalId_def condition_typed_def mode_prop_typed split: if_splits)

lemma normalizeCondition_fails: "normalizeCondition c s = Inl e \<longleftrightarrow> e = TypeError \<and> c = JNull"
  by (auto simp: normalizeCondition_def Let_def split: prod.splits)

definition conditions_of :: "jsval \<Rightarrow> jsval list" where
  "conditions_of v = (case js_prop v (js ''conditions'') of JArr cs \<Rightarrow> cs | _ \<Rightarrow> [])"

definition conds_ok :: "nat \<Rightarrow> po_condition list \<Rightarrow> bool" where
  "conds_ok seed cs \<longleftrightarrow> distinct (map cd_id cs) \<and> list_all (\<lambda>c. cd_id c < seed) cs"

lemma conds_ok_mono: "s \<le> s' \<Longrightarrow> conds_ok s cs \<Longrightarrow> conds_ok s' cs"
  by (auto simp: conds_ok_def list_all_iff dest: less_le_trans)

interpretation conditions: fresh_reader normalizeCondition cd_id "\<lambda>_. condition_typed" "\<lambda>c. c = JNull"
  by unfold_locales (auto simp: normalizeCondition_fails dest: normalizeCondition_result)

lemma conditions_result:
  assumes "try_map_seed normalizeCondition cs s = Inr (rs, s')"
  shows "s \<le> s' \<and> conds_ok s' rs \<and> list_all condition_typed rs"
  using conditions.reads_all [OF assms] by (auto simp: fresh_ids_def conds_ok_def list_all_iff)

lemma normalizeOperation_result:
  assumes "normalizeOperation v s = Inr (op, s')"
  shows "s < s' \<and> op_id op = s \<and> conds_ok s' (op_conditions op) \<and> operation_typed op"
proof -
  obtain cs where cs: "try_map_seed normalizeCondition (conditions_of v) (Suc s) = Inr (cs, s')" "op_conditions op = cs"
    and op: "op_id op = s" "op_mode op = mode_prop OPERATION_MODE_VALUES ''set'' v" "op_logic op \<in> {js ''AND'', js ''OR''}"
    using assms unfolding normalizeOperation_def nextLocalId_def conditions_of_def [symmetric]
    by (auto split: if_splits sum.splits prod.splits)
  from conditions_result [OF cs(1)] show ?thesis
    using op cs(2) default_modes by (auto simp: operation_typed_def mode_prop_typed)
qed

definition null_row :: "jsval \<Rightarrow> bool" where
  "null_row v \<longleftrightarrow> v = JNull \<or> JNull \<in> set (conditions_of v)"

lemma normalizeOperation_fails: "normalizeOperation v s = Inl e \<longleftrightarrow> e = TypeError \<and> null_row v"
proof -
  have "try_map_seed normalizeCondition (conditions_of v) (Suc s) = Inl e \<longleftrightarrow> e = TypeError \<and> JNull \<in> set (conditions_of v)" for e
    using conditions.fails_all by (auto simp: list_ex_iff)
  then show ?thesis
    unfolding normalizeOperation_def nextLocalId_def conditions_of_def [symmetric] null_row_def
    by (cases "try_map_seed normalizeCondition (conditions_of v) (Suc s)") (auto split: prod.splits)
qed

definition ops_ok :: "nat \<Rightarrow> po_operation list \<Rightarrow> bool" where
  "ops_ok seed ops \<longleftrightarrow> distinct (map op_id ops) \<and> list_all (\<lambda>op. op_id op < seed \<and> conds_ok seed (op_conditions op)) ops"

lemma ops_ok_mono: "s \<le> s' \<Longrightarrow> ops_ok s ops \<Longrightarrow> ops_ok s' ops"
  by (auto simp: ops_ok_def list_all_iff conds_ok_mono dest: less_le_trans)

interpretation operations: fresh_reader normalizeOperation op_id "\<lambda>s op. conds_ok s (op_conditions op) \<and> operation_typed op" null_row
  by unfold_locales (auto simp: normalizeOperation_fails conds_ok_mono dest: normalizeOperation_result)

lemma operations_result:
  assumes "try_map_seed normalizeOperation vs s = Inr (ops, s')"
  shows "fresh_ids s s' (map op_id ops) \<and> ops_ok s' ops \<and> list_all operation_typed ops \<and> length ops = length vs"
  using operations.reads_all [OF assms] by (auto simp: fresh_ids_def ops_ok_def list_all_iff)

lemma default_operation:
  assumes "createDefaultOperation s = (op, s')"
  shows "s' = Suc s \<and> op_id op = s \<and> op_conditions op = [] \<and> operation_typed op"
  using assms by (auto simp: createDefaultOperation_def operation_typed_def default_modes)

lemma read_operations_result:
  assumes "read_operations vs s = Inr (ops, s')"
  shows "fresh_ids s s' (map op_id ops) \<and> ops_ok s' ops \<and> list_all operation_typed ops \<and> length ops = max 1 (length vs)"
proof (cases "vs = []")
  case True
  obtain op where op: "createDefaultOperation s = (op, s')" "ops = [op]"
    using assms True by (auto simp: read_operations_def Let_def split: prod.splits)
  show ?thesis using default_operation [OF op(1)] True op(2) by (simp add: fresh_ids_def ops_ok_def conds_ok_def)
next
  case False
  then have "1 \<le> length vs" by (cases vs) auto
  then show ?thesis using operations_result [of vs s ops s'] assms False by (simp add: read_operations_def max_def)
qed

text \<open>
  C29: reading the stored operations throws a type error exactly when an operation or one of its
  conditions is \<open>null\<close>. Otherwise it gives one row per operation (one empty row for none), each with a
  known mode, a logic of AND or OR and conditions of known modes, and ids of their own.
\<close>

theorem stored_operations_typed:
  "case read_operations vs seed of
     Inl e \<Rightarrow> e = TypeError \<and> list_ex null_row vs
   | Inr (ops, seed') \<Rightarrow> \<not> list_ex null_row vs \<and> length ops = max 1 (length vs) \<and> list_all operation_typed ops
       \<and> fresh_ids seed seed' (map op_id ops) \<and> list_all (\<lambda>op. conds_ok seed' (op_conditions op)) ops"
proof -
  have f: "try_map_seed normalizeOperation vs seed = Inl e \<longleftrightarrow> e = TypeError \<and> list_ex null_row vs" for e
    by (rule operations.fails_all)
  show ?thesis
  proof (cases "read_operations vs seed")
    case (Inl e)
    then have "vs \<noteq> []" by (auto simp: read_operations_def Let_def split: prod.splits)
    then show ?thesis using Inl f [of e] by (simp add: read_operations_def)
  next
    case (Inr r)
    obtain ops s' where r: "r = (ops, s')" by (cases r)
    have "\<not> list_ex null_row vs" using Inr f [of TypeError] by (auto simp: read_operations_def split: if_splits)
    then show ?thesis using read_operations_result [of vs seed ops s'] Inr r by (auto simp: ops_ok_def list_all_iff)
  qed
qed

section \<open>The handlers keep the ids apart\<close>

lemma ops_ok_default: "createDefaultOperation s = (op, s') \<Longrightarrow> ops_ok s' [op]"
  using default_operation by (fastforce simp: ops_ok_def conds_ok_def)

lemma ops_ok_append:
  assumes "ops_ok s ops" and "fresh_ids s s' (map op_id new)" and "ops_ok s' new"
  shows "ops_ok s' (ops @ new)"
proof -
  have "s \<le> s'" using assms(2) by (simp add: fresh_ids_def)
  moreover have "op_id ` set ops \<inter> op_id ` set new = {}"
    using assms(1,2) by (fastforce simp: ops_ok_def fresh_ids_def list_all_iff)
  ultimately show ?thesis using assms(1,3) ops_ok_mono [of s s' ops] by (auto simp: ops_ok_def)
qed

lemma ops_ok_filter: "ops_ok s ops \<Longrightarrow> ops_ok s (filter P ops)"
  by (auto simp: ops_ok_def list_all_iff distinct_map_filter)

lemma ops_ok_mset: "mset xs = mset ys \<Longrightarrow> ops_ok s xs \<Longrightarrow> ops_ok s ys"
  by (metis (no_types, lifting) list_all_iff mset_eq_imp_distinct_iff mset_eq_setD mset_map ops_ok_def)

lemma ops_ok_map:
  assumes "ops_ok s ops" and "\<And>op. op_id (f op) = op_id op"
    and "\<And>op. conds_ok s (op_conditions op) \<Longrightarrow> conds_ok s' (op_conditions (f op))" and "s \<le> s'"
  shows "ops_ok s' (map_operation i f ops)"
proof -
  have "op_id (if op_id op = i then f op else op) = op_id op" for op using assms(2) by simp
  then have ids: "map op_id (map_operation i f ops) = map op_id ops" by (simp add: map_operation_def comp_def)
  have "list_all (\<lambda>op. op_id op < s' \<and> conds_ok s' (op_conditions op)) (map_operation i f ops)"
    using assms(1,3,4) by (auto simp: ops_ok_def map_operation_def list_all_iff assms(2) conds_ok_mono dest: less_le_trans)
  then show ?thesis unfolding ops_ok_def ids using assms(1) by (simp add: ops_ok_def)
qed

lemma apply_op_patch_keeps [simp]:
  "op_id (fold apply_op_patch ps op) = op_id op" "op_conditions (fold apply_op_patch ps op) = op_conditions op"
proof -
  have "op_id (apply_op_patch p op) = op_id op \<and> op_conditions (apply_op_patch p op) = op_conditions op" for p op by (cases p) auto
  then have "op_id (fold apply_op_patch ps op) = op_id op \<and> op_conditions (fold apply_op_patch ps op) = op_conditions op"
    by (induction ps arbitrary: op) simp_all
  then show "op_id (fold apply_op_patch ps op) = op_id op" "op_conditions (fold apply_op_patch ps op) = op_conditions op" by auto
qed

lemma apply_cd_patch_id [simp]: "cd_id (fold apply_cd_patch ps c) = cd_id c"
proof -
  have "cd_id (apply_cd_patch p c) = cd_id c" for p c by (cases p) auto
  then show ?thesis by (induction ps arbitrary: c) simp_all
qed

definition editor_ok :: "po_editor \<Rightarrow> bool" where
  "editor_ok st \<longleftrightarrow> ed_operations st \<noteq> [] \<and> ops_ok (ed_seed st) (ed_operations st)"

lemma editor_ok_cong:
  "ed_operations st' = ed_operations st \<Longrightarrow> ed_seed st \<le> ed_seed st' \<Longrightarrow> editor_ok st \<Longrightarrow> editor_ok st'"
  by (auto simp: editor_ok_def intro: ops_ok_mono)

lemma map_operation_Nil [simp]: "map_operation i f ops = [] \<longleftrightarrow> ops = []"
  by (simp add: map_operation_def)

lemma with_fallback_fields:
  "editor_ok (with_fallback st)" "ed_seed (with_fallback st) = Suc (ed_seed st)"
  by (auto simp: with_fallback_def editor_ok_def ops_ok_default createDefaultOperation_def ops_ok_def conds_ok_def)

lemma read_operations_ok:
  assumes "read_operations vs s = Inr (ops, s')"
  shows "ops \<noteq> []" and "ops_ok s' ops" and "s \<le> s'"
  using read_operations_result [OF assms] by (auto simp: fresh_ids_def)

lemma parseInitialState_ok:
  assumes "parseInitialState v s = Inr (st, s')"
  shows "in_operations st \<noteq> [] \<and> ops_ok s' (in_operations st) \<and> s \<le> s'"
proof -
  obtain op where op: "createDefaultOperation s = (op, Suc s)" "ops_ok (Suc s) [op]"
    using ops_ok_default by (metis createDefaultOperation_def)
  show ?thesis
    using assms op read_operations_ok
    unfolding parseInitialState_def Let_def
    by (auto split: if_splits option.splits jsval.splits sum.splits prod.splits)
qed

lemma updateOperation_ok: "editor_ok st \<Longrightarrow> editor_ok (updateOperation i ps st)"
  by (auto simp: editor_ok_def updateOperation_def intro: ops_ok_map [of "ed_seed st"])

lemma map_seed_mono: "(\<And>x s y s'. f x s = (y, s') \<Longrightarrow> s \<le> s') \<Longrightarrow> map_seed f xs s = (ys, s') \<Longrightarrow> s \<le> s'"
  by (induction xs arbitrary: s ys) (fastforce split: prod.splits)+

lemma parsePrune_mono: "parsePruneObjectsDraft t s = (d, s') \<Longrightarrow> s \<le> s'"
  unfolding parsePruneObjectsDraft_def Let_def
  by (auto split: if_splits option.splits jsval.splits prod.splits dest!: map_seed_mono [rotated]
      simp: normalizePruneRule_def nextLocalId_def)

lemma updatePrune_ok:
  assumes "editor_ok st" and "\<And>d s d' s'. f d s = (d', s') \<Longrightarrow> s \<le> s'"
  shows "editor_ok (updatePruneObjectsDraft i f st)"
proof (cases "find_operation i (ed_operations st)")
  case (Some op)
  obtain d s1 d' s2 where r: "parsePruneObjectsDraft (op_value_text op) (ed_seed st) = (d, s1)" "f d s1 = (d', s2)" by fastforce
  have "ed_seed st \<le> s2" using parsePrune_mono [OF r(1)] assms(2) [OF r(2)] by linarith
  then have "editor_ok (st\<lparr>ed_seed := s2\<rparr>)" using assms(1) by (auto intro: editor_ok_cong)
  then show ?thesis using Some r by (simp add: updatePruneObjectsDraft_def updateOperation_ok)
qed (use assms in \<open>simp add: updatePruneObjectsDraft_def\<close>)

lemma template_nonempty: "tp_kind (preset_of k) = OperationsTemplate \<Longrightarrow> template_operations (preset_of k) \<noteq> []"
proof -
  have "list_all (\<lambda>p. tp_kind (snd p) = OperationsTemplate \<longrightarrow> template_operations (snd p) \<noteq> []) TEMPLATE_PRESET_CONFIG"
    "template_operations (preset BasicGroup OperationsTemplate OPERATION_TEMPLATE) \<noteq> []"
    by (simp_all add: TEMPLATE_PRESET_CONFIG_def preset_def template_operations_def OPERATION_TEMPLATE_def LEGACY_TEMPLATE_def
        HEADER_PASSTHROUGH_TEMPLATE_def GEMINI_IMAGE_4K_TEMPLATE_def IMAGE_PIPELINE_TO_COS_TEMPLATE_def
        GETTOKEN_IMAGE_PARAM_MAPPING_TEMPLATE_def AWS_BEDROCK_ANTHROPIC_COMPAT_TEMPLATE_def
        CODEX_CLI_HEADER_PASSTHROUGH_TEMPLATE_def CLAUDE_CLI_HEADER_PASSTHROUGH_TEMPLATE_def buildPassHeadersTemplate_def)
  then show "tp_kind (preset_of k) = OperationsTemplate \<Longrightarrow> template_operations (preset_of k) \<noteq> []"
    by (auto simp: preset_of_def list_all_iff split: option.splits dest!: map_of_SomeD)
qed

lemma fillOperationsTemplate_ok: "editor_ok st \<Longrightarrow> editor_ok (fst (fillOperationsTemplate vs st))"
  by (auto simp: fillOperationsTemplate_def editor_ok_def split: sum.splits dest: read_operations_ok)

lemma fillLegacyTemplate_ok: "editor_ok (fst (fillLegacyTemplate v st))"
  by (rule editor_ok_cong [of _ "with_fallback st"]) (simp_all add: fillLegacyTemplate_def Let_def with_fallback_fields(1))

lemma appendOperationsTemplate_ok:
  assumes "editor_ok st" and "vs \<noteq> []"
  shows "editor_ok (fst (appendOperationsTemplate vs st))"
proof (cases "try_map_seed normalizeOperation vs (ed_seed st)")
  case (Inr r)
  obtain ops s' where r: "r = (ops, s')" by (cases r)
  have n: "fresh_ids (ed_seed st) s' (map op_id ops)" "ops_ok s' ops" "ops \<noteq> []"
    using operations_result [of vs "ed_seed st" ops s'] Inr r assms(2) by auto
  have "ops_ok (ed_seed st) (filter P (ed_operations st))" for P using assms(1) by (simp add: editor_ok_def ops_ok_filter)
  then show ?thesis using n Inr r ops_ok_append [OF _ n(1,2)]
    by (auto simp: appendOperationsTemplate_def editor_ok_def Let_def split: visual_mode.splits)
qed (use assms in \<open>simp add: appendOperationsTemplate_def\<close>)

lemma mset_insert_at: "mset (insert_at i x xs) = add_mset x (mset xs)"
  using union_code [of "take i xs" "drop i xs"] by (simp add: insert_at_def)

lemma mset_reorder: "mset (reorderOperations ops s t pos) = mset ops"
proof (cases "s = None \<or> t = None \<or> s = t")
  case False
  then obtain a b where ab: "s = Some a" "t = Some b" "a \<noteq> b" by auto
  show ?thesis
  proof (cases "find_id (\<lambda>op. op_id op = a) ops")
    case (Some i)
    have "mset (remove_at i ops) + {#ops ! i#} = mset ops" using find_id_Some [OF Some] by (intro mset_remove_at) simp
    then show ?thesis using Some ab by (auto simp: reorderOperations_def Let_def mset_insert_at split: option.split)
  qed (simp add: reorderOperations_def ab)
qed (auto simp: reorderOperations_def)

lemma duplicateOperation_ok:
  assumes "editor_ok st"
  shows "editor_ok (duplicateOperation eager i st)"
proof (cases "find_id (\<lambda>op. op_id op = i) (ed_operations st)")
  case (Some k)
  show ?thesis
  proof (cases "normalizeOperation (operation_source (ed_operations st ! k)) (ed_seed st)")
    case (Inr r)
    obtain c s' where r: "r = (c, s')" by (cases r)
    have c: "ed_seed st < s'" "op_id c = ed_seed st" "conds_ok s' (op_conditions c)"
      using normalizeOperation_result [of _ "ed_seed st" c s'] Inr r by auto
    have "ops_ok s' (ed_operations st @ [c])"
      using assms c by (intro ops_ok_append [of "ed_seed st"]) (auto simp: editor_ok_def fresh_ids_def ops_ok_def)
    moreover have "mset (ed_operations st @ [c]) = mset (insert_at (k + 1) c (ed_operations st))" by (simp add: mset_insert_at)
    ultimately have "ops_ok s' (insert_at (k + 1) c (ed_operations st))" by (rule ops_ok_mset [rotated])
    moreover have "insert_at (k + 1) c (ed_operations st) \<noteq> []" by (simp add: insert_at_def)
    ultimately show ?thesis using Some Inr r by (simp add: duplicateOperation_def editor_ok_def)
  qed (use assms Some in \<open>simp add: duplicateOperation_def\<close>)
qed (use assms in \<open>simp add: duplicateOperation_def\<close>)

lemma removeOperation_ok:
  assumes "editor_ok st"
  shows "editor_ok (removeOperation i st)"
proof (cases "length (ed_operations st) \<le> 1")
  case True
  then show ?thesis
    by (auto simp: removeOperation_def editor_ok_def createDefaultOperation_def ops_ok_def conds_ok_def)
next
  case False
  then obtain a b ops where ops: "ed_operations st = a # b # ops"
    by (metis Suc_leI length_0_conv length_Suc_conv list.exhaust One_nat_def le_numeral_extra(4) length_greater_0_conv list.size(3) zero_le)
  then have "op_id a \<noteq> op_id b" using assms by (auto simp: editor_ok_def ops_ok_def)
  then have "filter (\<lambda>op. op_id op \<noteq> i) (ed_operations st) \<noteq> []" using ops by auto
  then show ?thesis using assms False by (simp add: removeOperation_def editor_ok_def ops_ok_filter)
qed

lemma addOperation_ok:
  assumes "editor_ok st"
  shows "editor_ok (addOperation st)"
proof -
  have "ops_ok (Suc (ed_seed st)) (ed_operations st @ [fst (createDefaultOperation (ed_seed st))])"
    using assms by (intro ops_ok_append [of "ed_seed st"]) (auto simp: editor_ok_def createDefaultOperation_def fresh_ids_def ops_ok_def conds_ok_def)
  then show ?thesis by (simp add: addOperation_def createDefaultOperation_def editor_ok_def)
qed

lemma conds_ok_snoc: "conds_ok s cs \<Longrightarrow> cd_id c = s \<Longrightarrow> conds_ok (Suc s) (cs @ [c])"
  by (fastforce simp: conds_ok_def list_all_iff)

lemma addCondition_ok: "editor_ok st \<Longrightarrow> editor_ok (addCondition i st)"
  by (auto simp: editor_ok_def addCondition_def createDefaultCondition_def conds_ok_snoc intro!: ops_ok_map [of "ed_seed st"])

lemma updateCondition_ok: "editor_ok st \<Longrightarrow> editor_ok (updateCondition i k ps st)"
  by (auto simp: editor_ok_def updateCondition_def conds_ok_def list_all_iff comp_def if_distrib cong: if_cong intro!: ops_ok_map [of "ed_seed st"])

lemma removeCondition_ok: "editor_ok st \<Longrightarrow> editor_ok (removeCondition i k st)"
  by (auto simp: editor_ok_def removeCondition_def conds_ok_def list_all_iff distinct_map_filter intro!: ops_ok_map [of "ed_seed st"])

lemma moveOperation_ok: "editor_ok st \<Longrightarrow> editor_ok (moveOperation s t pos st)"
  using mset_reorder [of "ed_operations st" s t pos] ops_ok_mset [OF mset_reorder [symmetric]]
  by (auto simp: editor_ok_def moveOperation_def)


lemma po_handle_ok:
  assumes "editor_ok st"
  shows "editor_ok (po_handle ev st)"
proof (cases ev)
  case (Open v)
  show ?thesis
    using assms parseInitialState_ok [of v "ed_seed st"] by (auto simp: Open open_editor_def editor_ok_def split: sum.splits)
next
  case Render
  have "editor_ok (st\<lparr>ed_seed := s\<rparr>)" if "ed_seed st \<le> s" for s using assms that by (auto intro: editor_ok_cong)
  then show ?thesis
    by (auto simp: Render render_def pruneObjectsDraft_def createDefaultOperation_def split: option.splits prod.splits
        dest!: parsePrune_mono)
next
  case ToVisual
  show ?thesis
    using assms with_fallback_fields(1) [of st] read_operations_ok
    by (auto simp: ToVisual switchToVisualMode_def Let_def editor_ok_def split: if_splits option.splits jsval.splits sum.splits prod.splits)
next
  case AppendTemplate
  show ?thesis
    using assms fillLegacyTemplate_ok appendOperationsTemplate_ok [OF assms template_nonempty]
    by (auto simp: AppendTemplate appendTemplateFromLibrary_def appendLegacyTemplate_def Let_def split: template_kind.splits sum.splits)
next
  case Reset
  show ?thesis
    by (rule editor_ok_cong [of _ "with_fallback st"]) (simp_all add: Reset resetEditorState_def clearValue_def with_fallback_fields(1))
next
  case (AddPruneRule i)
  then show ?thesis using assms by (auto simp: addPruneRule_def Let_def normalizePruneRule_def nextLocalId_def intro!: updatePrune_ok)
qed (use assms in \<open>auto simp: switchToJsonMode_def handleJsonChange_def formatJson_def fillTemplateFromLibrary_def applyBuiltinField_def
    formatSelectedOperationValueAsJson_def updateReturnErrorDraft_def patchPruneObjectsDraft_def updatePruneRule_def removePruneRule_def
    handleOperationDragStart_def handleOperationDragOver_def resetOperationDragState_def handleOperationDrop_def
    handleConditionCollapseChange_def expandAllSelectedConditions_def collapseAllSelectedConditions_def Let_def
    updateOperation_ok addOperation_ok duplicateOperation_ok removeOperation_ok addCondition_ok updateCondition_ok removeCondition_ok
    fillLegacyTemplate_ok fillOperationsTemplate_ok
    split: sum.splits option.splits template_kind.splits
    intro!: updatePrune_ok intro: editor_ok_cong editor_ok_cong [OF _ _ moveOperation_ok]\<close>)

section \<open>Every reachable state\<close>

lemma preset_options_nonempty: "templatePresetOptions g \<noteq> []"
  by (cases g) (simp_all add: templatePresetOptions_def TEMPLATE_PRESET_CONFIG_def preset_def)

lemma settle_keeps:
  "editor_ok (settle_preset (settle_selection st)) = editor_ok st"
  by (simp add: settle_preset_def settle_selection_def editor_ok_def Let_def)

lemma settled_selection:
  assumes "ed_operations st \<noteq> []" and "st' = settle_preset (settle_selection st)"
  shows "\<exists>op \<in> set (ed_operations st'). ed_selected st' = Some (op_id op)"
    and "ed_templatePreset st' \<in> set (templatePresetOptions (ed_templateGroup st'))"
proof -
  have sel: "ed_operations st' = ed_operations st" "ed_selected st' = ed_selected (settle_selection st)"
    by (simp_all add: assms(2) settle_preset_def settle_selection_def Let_def)
  show "\<exists>op \<in> set (ed_operations st'). ed_selected st' = Some (op_id op)"
  proof (cases "list_ex (\<lambda>op. Some (op_id op) = ed_selected st) (ed_operations st)")
    case True
    then show ?thesis unfolding sel using assms(1) by (auto simp: settle_selection_def list_ex_iff intro: sym)
  next
    case False
    then show ?thesis unfolding sel using assms(1) by (auto simp: settle_selection_def intro!: bexI [of _ "hd (ed_operations st)"])
  qed
  show "ed_templatePreset st' \<in> set (templatePresetOptions (ed_templateGroup st'))"
    using preset_options_nonempty [of "ed_templateGroup (settle_selection st)"]
    by (auto simp: assms(2) settle_preset_def Let_def list_ex_iff)
qed

lemma settled_ok:
  fixes st :: po_editor
  defines "st' \<equiv> settle_preset (settle_selection st)"
  assumes "editor_ok st"
  shows "editor_ok st' \<and> (\<exists>op \<in> set (ed_operations st'). ed_selected st' = Some (op_id op))
    \<and> ed_templatePreset st' \<in> set (templatePresetOptions (ed_templateGroup st'))"
proof -
  have "ed_operations st \<noteq> []" using assms(2) by (simp add: editor_ok_def)
  from settled_selection [OF this refl] show ?thesis using assms(2) by (simp add: st'_def settle_keeps)
qed

lemma find_operation_distinct:
  "distinct (map op_id ops) \<Longrightarrow> op \<in> set ops \<Longrightarrow> find_operation (op_id op) ops = Some op"
  by (induction ops) (auto simp: find_operation_def)

text \<open>
  C16: whatever the user does, the editor always has an operation, all operations and the conditions
  of each have different ids that the counter will not hand out again, exactly one operation is
  selected, and the selected template belongs to the selected group.
\<close>

theorem override_editor_invariant:
  assumes "po_reachable st"
  shows "distinct (map op_id (ed_operations st)) \<and> list_all (\<lambda>op. op_id op < ed_seed st) (ed_operations st)
    \<and> list_all (\<lambda>op. conds_ok (ed_seed st) (op_conditions op)) (ed_operations st)
    \<and> (\<exists>op \<in> set (ed_operations st). ed_selected st = Some (op_id op) \<and> selectedOperation st = Some op)
    \<and> ed_templatePreset st \<in> set (templatePresetOptions (ed_templateGroup st))"
proof -
  have ok: "editor_ok st \<and> (\<exists>op \<in> set (ed_operations st). ed_selected st = Some (op_id op))
    \<and> ed_templatePreset st \<in> set (templatePresetOptions (ed_templateGroup st))"
    using assms
  proof induction
    case (start seed)
    have "editor_ok (initial_editor seed)"
      by (simp add: initial_editor_def createDefaultOperation_def editor_ok_def ops_ok_def conds_ok_def)
    then show ?case by (rule settled_ok)
  next
    case (step st ev)
    then have "editor_ok (po_handle ev st)" by (simp add: po_handle_ok)
    then show ?case unfolding po_step_def by (rule settled_ok)
  qed
  then show ?thesis
    by (auto simp: editor_ok_def ops_ok_def list_all_iff selectedOperation_def find_operation_distinct)
qed

theorem override_editor_invariant_witness:
  "\<exists>st. po_reachable st \<and> length (ed_operations st) = 2 \<and> (\<exists>op \<in> set (ed_operations st). selectedOperation st = Some op)"
proof -
  let ?st = "po_step AddOperation (settle_preset (settle_selection (initial_editor 0)))"
  have r: "po_reachable ?st" by (intro po_reachable.intros)
  have "length (ed_operations ?st) = 2"
    by (simp add: po_step_def settle_preset_def settle_selection_def addOperation_def initial_editor_def createDefaultOperation_def Let_def)
  then show ?thesis using override_editor_invariant [OF r] r by blast
qed

section \<open>Rules of a pruning operation\<close>

lemma map_seed_rules:
  assumes "map_seed normalizePruneRule vs s = (rs, s')"
  shows "list_all (\<lambda>r. s \<le> cd_id r \<and> cd_id r < s') rs \<and> s \<le> s'"
  using assms
proof (induction vs arbitrary: s rs)
  case (Cons v vs)
  obtain r where r: "normalizePruneRule v s = (r, Suc s)" "cd_id r = s" by (simp add: normalizePruneRule_def nextLocalId_def)
  obtain rs1 where "map_seed normalizePruneRule vs (Suc s) = (rs1, s')" "rs = r # rs1"
    using Cons.prems r(1) by (auto split: prod.splits)
  then show ?case using Cons.IH [of "Suc s" rs1] r(2) by (auto simp: list_all_iff)
qed simp

lemma parsePrune_rules:
  assumes "parsePruneObjectsDraft t s = (d, s')"
  shows "list_all (\<lambda>r. s \<le> cd_id r \<and> cd_id r < s') (pd_rules d)"
  using assms unfolding parsePruneObjectsDraft_def Let_def
  by (auto split: if_splits option.splits jsval.splits prod.splits dest!: map_seed_rules simp: prune_defaults_def)

lemma updatePrune_cong:
  assumes "\<And>d s. list_all (\<lambda>r. ed_seed st \<le> cd_id r) (pd_rules d) \<Longrightarrow> f d s = g d s"
  shows "updatePruneObjectsDraft i f st = updatePruneObjectsDraft i g st"
proof (cases "find_operation i (ed_operations st)")
  case (Some op)
  obtain d s1 where d: "parsePruneObjectsDraft (op_value_text op) (ed_seed st) = (d, s1)" by fastforce
  then have "f d s1 = g d s1" using parsePrune_rules [OF d] by (intro assms) (auto simp: list_all_iff)
  then show ?thesis using Some d by (simp add: updatePruneObjectsDraft_def)
qed (simp add: updatePruneObjectsDraft_def)

text \<open>
  In the visual editor of a pruning operation, changing or deleting one of the displayed rules does
  nothing but rewrite the operation's text, whatever the change was, because the handler gives the
  rules new ids before it looks for the displayed one. Adding a rule only leaves the simple mode: the
  new rule has no path and is not written.
\<close>

theorem prune_rule_edits_lost:
  assumes "render st = (Some draft, st1)" and "rule \<in> set (pd_rules draft)" and "ed_seed st1 \<le> ed_seed st2"
  shows "updatePruneRule i (cd_id rule) patch st2 = patchPruneObjectsDraft i [] st2
    \<and> removePruneRule i (cd_id rule) st2 = patchPruneObjectsDraft i [] st2
    \<and> ed_operations (addPruneRule i st2) = ed_operations (patchPruneObjectsDraft i [PSimpleMode False] st2)"
proof -
  have "cd_id rule < ed_seed st1"
    using assms(1,2) parsePrune_rules
    by (fastforce simp: render_def pruneObjectsDraft_def createDefaultOperation_def list_all_iff split: option.splits if_splits prod.splits)
  then have old: "cd_id rule < ed_seed st2" using assms(3) by simp
  have "updatePruneRule i (cd_id rule) patch st2 = patchPruneObjectsDraft i [] st2"
    unfolding updatePruneRule_def patchPruneObjectsDraft_def
  proof (rule updatePrune_cong)
    fix d :: prune_draft and s
    assume "list_all (\<lambda>r. ed_seed st2 \<le> cd_id r) (pd_rules d)"
    then have "map (\<lambda>r. if cd_id r = cd_id rule then fold apply_cd_patch patch r else r) (pd_rules d) = pd_rules d"
      using old by (intro map_idI) (auto simp: list_all_iff)
    then show "(d\<lparr>pd_rules := map (\<lambda>r. if cd_id r = cd_id rule then fold apply_cd_patch patch r else r) (pd_rules d)\<rparr>, s) =
        (fold apply_pd_patch [] d, s)" by simp
  qed
  moreover have "removePruneRule i (cd_id rule) st2 = patchPruneObjectsDraft i [] st2"
    unfolding removePruneRule_def patchPruneObjectsDraft_def
  proof (rule updatePrune_cong)
    fix d :: prune_draft and s
    assume "list_all (\<lambda>r. ed_seed st2 \<le> cd_id r) (pd_rules d)"
    then have "filter (\<lambda>r. cd_id r \<noteq> cd_id rule) (pd_rules d) = pd_rules d"
      using old by (auto simp: list_all_iff filter_id_conv)
    then show "(d\<lparr>pd_rules := filter (\<lambda>r. cd_id r \<noteq> cd_id rule) (pd_rules d)\<rparr>, s) = (fold apply_pd_patch [] d, s)" by simp
  qed
  moreover have "ed_operations (addPruneRule i st2) = ed_operations (patchPruneObjectsDraft i [PSimpleMode False] st2)"
  proof -
    have "buildPruneObjectsValueText (d\<lparr>pd_simpleMode := False, pd_rules := pd_rules d @ [r]\<rparr>) =
        buildPruneObjectsValueText (d\<lparr>pd_simpleMode := False\<rparr>)" if "cd_path r = []" for d r
      using that by (simp add: buildPruneObjectsValueText_def prune_conditions_def prune_payload_def)
    then show ?thesis
      by (auto simp: addPruneRule_def patchPruneObjectsDraft_def updatePruneObjectsDraft_def updateOperation_def normalizePruneRule_def
          nextLocalId_def str_prop_def Let_def split: option.splits prod.splits)
  qed
  ultimately show ?thesis by blast
qed

text \<open>A pruning operation with one rule, as it is displayed.\<close>

definition prune_value :: jsval where
  "prune_value = JObj [(js ''conditions'', JArr [JObj [(js ''path'', JStr (js ''type'')), (js ''mode'', JStr (js ''full''))]])]"

definition prune_editor :: po_editor where
  "prune_editor = (let st = initial_editor 0; op = (hd (ed_operations st))\<lparr>op_mode := js ''prune_objects'', op_value_text := json_text prune_value\<rparr>
     in st\<lparr>ed_operations := [op], ed_selected := Some 0\<rparr>)"

theorem prune_rule_edits_lost_witness:
  "\<exists>draft st1 rule. render prune_editor = (Some draft, st1) \<and> pd_rules draft = [rule]
     \<and> updatePruneRule 0 (cd_id rule) [CPath (js ''role'')] st1 = patchPruneObjectsDraft 0 [] st1"
proof -
  have ok: "json_ok prune_value"
    using units_ok_js [of "''path''"]
    by (simp add: prune_value_def keys_ordered_def key_before_def index_key_name is_digit_def)
  have parse: "json_parse (json_text prune_value) = Some prune_value" by (rule json_parse_text [OF ok])
  have trim: "trim (json_text prune_value) = json_text prune_value" using ok unfolding prune_value_def by (rule json_object_trim)
  have ne: "json_text prune_value \<noteq> []" by (rule json_text_head [OF ok])
  have "parsePruneObjectsDraft (json_text prune_value) (Suc (Suc 0)) =
      (\<lparr>pd_simpleMode = False, pd_typeText = [], pd_logic = js ''AND'', pd_recursive = True,
        pd_rules = [fst (normalizePruneRule (JObj [(js ''path'', JStr (js ''type'')), (js ''mode'', JStr (js ''full''))]) (Suc (Suc 0)))]\<rparr>, Suc (Suc (Suc 0)))"
    unfolding parsePruneObjectsDraft_def Let_def trim parse using ne
    by (simp add: prune_value_def where_rules_def condition_rules_def or_logic_def ascii_upper_def js_or_def normalizePruneRule_def nextLocalId_def js_def)
  then obtain draft st1 rule where r: "render prune_editor = (Some draft, st1)" "pd_rules draft = [rule]"
    by (simp add: render_def pruneObjectsDraft_def prune_editor_def initial_editor_def createDefaultOperation_def selectedOperation_def
        find_operation_def Let_def)
  then show ?thesis using prune_rule_edits_lost [OF r(1), of rule st1 0 "[CPath (js ''role'')]"] by auto
qed

section \<open>Copying an operation\<close>

lemma and_logic_simps [simp]: "and_logic (JStr (js ''AND''))" "\<not> and_logic (JStr (js ''OR''))"
  by (code_simp+)

lemma condition_copy:
  assumes "condition_ok c"
  shows "\<exists>c'. normalizeCondition (condition_source c) s = Inr (c', Suc s) \<and> buildConditionPayload c' = buildConditionPayload c"
  using assms
  by (simp add: normalizeCondition_def condition_source_def nextLocalId_def str_prop_def mode_prop_def condition_ok_def stable_value_def
      buildConditionPayload_def)

lemma conditions_copy:
  assumes "list_all condition_ok cs"
  shows "\<exists>cs' s'. try_map_seed normalizeCondition (map condition_source cs) s = Inr (cs', s')
    \<and> map buildConditionPayload cs' = map buildConditionPayload cs"
  using assms
proof (induction cs arbitrary: s)
  case (Cons c cs)
  obtain c' where c: "normalizeCondition (condition_source c) s = Inr (c', Suc s)" "buildConditionPayload c' = buildConditionPayload c"
    using condition_copy Cons.prems by fastforce
  obtain cs' s' where "try_map_seed normalizeCondition (map condition_source cs) (Suc s) = Inr (cs', s')"
      "map buildConditionPayload cs' = map buildConditionPayload cs"
    using Cons.IH [of "Suc s"] Cons.prems by auto
  then show ?case using c by auto
qed simp

lemma payload_cong:
  assumes "op_mode a = op_mode b" "op_description a = op_description b" "op_path a = op_path b" "op_from a = op_from b" "op_to a = op_to b"
    "op_keep_origin a = op_keep_origin b" "op_logic a = op_logic b" "parseLooseValue (op_value_text a) = parseLooseValue (op_value_text b)"
    "map buildConditionPayload (op_conditions a) = map buildConditionPayload (op_conditions b)"
  shows "operation_payload a = operation_payload b"
proof -
  have "List.map_filter buildConditionPayload xs = map the (filter (\<lambda>x. x \<noteq> None) (map buildConditionPayload xs))" for xs
    by (induction xs) (auto simp: List.map_filter_def)
  then show ?thesis
    using assms by (simp add: operation_payload_def payload_start_def payload_from_to_def payload_alias_def payload_conditions_def mode_of_def)
qed

text \<open>
  Copying an operation inserts directly behind it one with a new id that is written as exactly
  the same JSON, provided its values survive the text fields.
\<close>

theorem duplicate_same_payload:
  assumes "find_id (\<lambda>item. op_id item = i) (ed_operations st) = Some k" and "op = ed_operations st ! k"
    and "operation_ok op" and "op_logic op \<in> {js ''AND'', js ''OR''}"
  shows "\<exists>c. ed_operations (duplicateOperation eager i st) = insert_at (k + 1) c (ed_operations st)
    \<and> op_id c = ed_seed st \<and> operation_payload c = operation_payload op
    \<and> (eager \<longrightarrow> ed_selected (duplicateOperation eager i st) = Some (op_id c))"
proof -
  let ?s = "ed_seed st"
  obtain cs s' where cs: "try_map_seed normalizeCondition (map condition_source (op_conditions op)) (Suc ?s) = Inr (cs, s')"
      "map buildConditionPayload cs = map buildConditionPayload (op_conditions op)"
    using conditions_copy assms(3) by (fastforce simp: operation_ok_def)
  have "\<exists>c. normalizeOperation (operation_source op) ?s = Inr (c, s') \<and> op_id c = ?s \<and> operation_payload c = operation_payload op"
    using assms(3,4) cs
    by (auto simp: normalizeOperation_def operation_source_def nextLocalId_def str_prop_def mode_prop_def operation_ok_def stable_value_def
        intro!: payload_cong)
  then show ?thesis using assms(1,2) by (auto simp: duplicateOperation_def)
qed

definition copy_editor :: po_editor where
  "copy_editor = (initial_editor 0)\<lparr>ed_operations := [sample_operation], ed_seed := 2\<rparr>"

theorem duplicate_same_payload_witness:
  "\<exists>c. ed_operations (duplicateOperation True 0 copy_editor) = [sample_operation, c] \<and> operation_payload c = operation_payload sample_operation"
proof -
  have "find_id (\<lambda>item. op_id item = 0) (ed_operations copy_editor) = Some 0" "ed_operations copy_editor = [sample_operation]"
      "op_logic sample_operation = js ''AND''"
    by (simp_all add: copy_editor_def sample_operation_def initial_editor_def createDefaultOperation_def)
  then show ?thesis
    using duplicate_same_payload [of 0 copy_editor 0 sample_operation True] sample_operation_ok by (auto simp: insert_at_def)
qed

section \<open>Switching and saving\<close>

text \<open>
  C28: for a visual configuration of operations that can be saved and whose values survive the text fields (no
  value is a text that reads as JSON, no required value the empty text, structured values have no
  white space around them): no validation error is shown, switching to the text editor does not change what is saved,
  and after switching back, again in the list of operations, the same text is validated and saved.
\<close>

theorem switching_keeps_config:
  assumes "ed_editMode st = Visual" and "ed_visualMode st = OperationsMode" and "list_all operation_ok (ed_operations st)"
    and "list_all value_kept (ed_operations st)" and "handleSave st = Inr t"
  shows "visualValidationError st = None \<and> (\<exists>st1. switchToJsonMode st = (st1, Quiet) \<and> handleSave st1 = Inr t
    \<and> (\<exists>st2. switchToVisualMode st1 = (st2, Quiet) \<and> ed_editMode st2 = Visual \<and> ed_visualMode st2 = OperationsMode
         \<and> handleSave st2 = Inr t))"
proof -
  have b: "buildVisualJson st = Inr t" "buildOperationsJson True (ed_operations st) = Inr t"
    using assms(1,2,5) by (auto simp: handleSave_def buildVisualJson_def split: sum.splits)
  define st1 where "st1 = st\<lparr>ed_jsonText := t, ed_jsonError := None, ed_editMode := JsonMode\<rparr>"
  have s1: "switchToJsonMode st = (st1, Quiet)" using assms(1) b(1) by (simp add: switchToJsonMode_def st1_def)
  have err: "visualValidationError st = None" using b(1) by (simp add: visualValidationError_def)
  have "handleSave st1 = Inr t \<and> (\<exists>st2. switchToVisualMode st1 = (st2, Quiet) \<and> ed_editMode st2 = Visual \<and> ed_visualMode st2 = OperationsMode
         \<and> handleSave st2 = Inr t)"
  proof (cases "t = []")
    case True
    then show ?thesis
      by (simp add: st1_def handleSave_def switchToVisualMode_def with_fallback_def createDefaultOperation_def buildVisualJson_def
          buildOperationsJson_def isOperationBlank_def)
  next
    case False
    obtain ps ops' seed' where r: "trim t = t" "json_parse t = Some (JObj [(js ''operations'', JArr ps)])" "ps \<noteq> []"
        "try_map_seed normalizeOperation ps (ed_seed st) = Inr (ops', seed')" "buildOperationsJson True ops' = Inr t"
        "t = pretty_text 0 (JObj [(js ''operations'', JArr ps)])"
      using written_config [OF b(2) False assms(3,4) built_valid [OF b(2)]] by metis
    have "handleSave st1 = Inr t" using False r(1,2) r(6) [symmetric] by (simp add: st1_def handleSave_def Let_def)
    then show ?thesis
      using False r(1-5) by (simp add: st1_def switchToVisualMode_def handleSave_def buildVisualJson_def Let_def plain_object_def read_operations_def)
  qed
  then show ?thesis using s1 err by blast
qed

theorem switching_keeps_config_witness:
  "\<exists>t st1. handleSave copy_editor = Inr t \<and> t \<noteq> [] \<and> switchToJsonMode copy_editor = (st1, Quiet) \<and> handleSave st1 = Inr t
     \<and> (\<exists>st2. switchToVisualMode st1 = (st2, Quiet) \<and> handleSave st2 = Inr t)"
proof -
  have b: "\<not> isOperationBlank sample_operation" "validateOperation sample_operation = None" by code_simp+
  let ?t = "pretty_text 0 (JObj [(js ''operations'', JArr [operation_payload sample_operation])])"
  have c: "ed_editMode copy_editor = Visual" "ed_visualMode copy_editor = OperationsMode" "ed_operations copy_editor = [sample_operation]"
    by (simp_all add: copy_editor_def initial_editor_def createDefaultOperation_def)
  have h: "handleSave copy_editor = Inr ?t"
    using b c by (simp add: handleSave_def buildVisualJson_def buildOperationsJson_def validateOperations_def)
  have ne: "?t \<noteq> []" using sample_operation_ok by (simp add: pretty_object operation_ok_def)
  have ok: "list_all operation_ok (ed_operations copy_editor)" using c(3) sample_operation_ok by simp
  have kept: "list_all value_kept (ed_operations copy_editor)" using c(3) sample_value_kept by simp
  from switching_keeps_config [OF c(1,2) ok kept h] show ?thesis using h ne by blast
qed

end
