(* ===== verification/ParamOverrideLibrary.thy ===== *)
theory ParamOverrideLibrary
  imports ParamOverrideInvariant
begin

text \<open>
  Every template of the library passes the validation of the parameter override editor: the texts of
  its values are read back by JSON, and each operation has the fields its mode demands.
\<close>

section \<open>Numbers and values of the templates\<close>

lemma template_numbers: "json_num_ok (Fin 20)" "json_num_ok (Fin 92)" "json_num_ok (Fin 1000)"
  by (simp_all add: json_num_ok_numeral)

lemma json_array_trim:
  assumes "json_ok (JArr vs)"
  shows "trim (json_text (JArr vs)) = json_text (JArr vs)"
proof -
  have "\<forall>v \<in> set vs. json_ok v" using assms by (simp add: list_all_iff)
  from json_text_array [OF this] show ?thesis by (intro trim_trimmed) (simp add: trimmed_def js_ws_def)
qed

text \<open>A composite JSON value as the text of an operation.\<close>

definition composite :: "jsval \<Rightarrow> bool" where
  "composite v \<longleftrightarrow> json_ok v \<and> (is_array v \<or> plain_object v)"

lemma composite_text:
  assumes "composite v"
  shows "toValueText v = json_text v" "trim (json_text v) = json_text v" "json_text v \<noteq> []" "json_parse (json_text v) = Some v"
    "parseLooseValue (json_text v) = v"
proof -
  have ok: "json_ok v" using assms by (simp add: composite_def)
  show "toValueText v = json_text v"
    using assms by (cases v) (auto simp: composite_def plain_object_def toValueText_def json_text_def)
  show t: "trim (json_text v) = json_text v"
    using assms json_array_trim json_object_trim by (cases v) (auto simp: composite_def plain_object_def)
  show n: "json_text v \<noteq> []" by (rule json_text_head(1) [OF ok])
  show p: "json_parse (json_text v) = Some v" by (rule json_parse_text [OF ok])
  show "parseLooseValue (json_text v) = v" using n p by (simp add: parseLooseValue_def t)
qed

text \<open>An operation object whose row is not blank and passes the validation.\<close>

definition saveable :: "jsval \<Rightarrow> bool" where
  "saveable v \<longleftrightarrow> (\<forall>seed. \<exists>op s. normalizeOperation v seed = Inr (op, s) \<and> \<not> isOperationBlank op \<and> validateOperation op = None)"

lemma saveable_intro:
  assumes "\<not> null_row v" and "js_prop v (js ''mode'') = JStr m" and "m \<in> set OPERATION_MODE_VALUES"
    and "m \<noteq> js ''set'' \<or> trim (str_prop v ''path'') \<noteq> []"
    and "\<And>op. op_mode op = m \<Longrightarrow> op_path op = str_prop v ''path'' \<Longrightarrow> op_from op = str_prop v ''from'' \<Longrightarrow> op_to op = str_prop v ''to''
      \<Longrightarrow> op_value_text op = toValueText (js_prop v (js ''value'')) \<Longrightarrow> validateOperation op = None"
  shows "saveable v"
  unfolding saveable_def
proof
  fix seed
  obtain op s where n: "normalizeOperation v seed = Inr (op, s)"
    using assms(1) normalizeOperation_fails [of v seed] by (cases "normalizeOperation v seed") auto
  then have f: "op_mode op = m" "op_path op = str_prop v ''path''" "op_from op = str_prop v ''from''" "op_to op = str_prop v ''to''"
      "op_value_text op = toValueText (js_prop v (js ''value''))"
    using assms(2,3) by (auto simp: normalizeOperation_def nextLocalId_def mode_prop_def split: if_splits sum.splits prod.splits)
  then have "\<not> isOperationBlank op" using assms(4) by (auto simp: isOperationBlank_def)
  then show "\<exists>op s. normalizeOperation v seed = Inr (op, s) \<and> \<not> isOperationBlank op \<and> validateOperation op = None"
    using n f assms(5) by blast
qed

lemma saveable_rows:
  assumes "list_all saveable vs"
  shows "\<exists>ops s'. try_map_seed normalizeOperation vs seed = Inr (ops, s') \<and> length ops = length vs
    \<and> list_all (\<lambda>op. \<not> isOperationBlank op \<and> validateOperation op = None) ops"
  using assms
proof (induction vs arbitrary: seed)
  case (Cons v vs)
  obtain op s where op: "normalizeOperation v seed = Inr (op, s)" "\<not> isOperationBlank op" "validateOperation op = None"
    using Cons.prems saveable_def [of v] by (metis list.pred_inject(2))
  obtain ops s' where "try_map_seed normalizeOperation vs s = Inr (ops, s')" "length ops = length vs"
      "list_all (\<lambda>op. \<not> isOperationBlank op \<and> validateOperation op = None) ops"
    using Cons.IH [of s] Cons.prems by auto
  then show ?case using op by auto
qed simp

lemma validated_text:
  assumes "list_all (\<lambda>op. \<not> isOperationBlank op \<and> validateOperation op = None) ops" and "ops \<noteq> []"
  shows "\<exists>t. buildOperationsJson True ops = Inr t \<and> t \<noteq> []"
proof -
  have "filter (\<lambda>op. \<not> isOperationBlank op) ops = ops" "validateOperations ops = None"
    using assms(1) by (auto simp: list_all_iff validateOperations_def validate_from_None)
  then show ?thesis using assms(2) by (simp add: buildOperationsJson_def Let_def pretty_text_def)
qed

section \<open>The modes the templates use\<close>

lemma template_metas:
  "meta_of (js ''set'') = meta_write" "meta_of (js ''delete'') = meta_path" "meta_of (js ''set_header'') = meta_write"
  "meta_of (js ''pass_headers'') = no_meta\<lparr>m_value := True, m_keepOrigin := True\<rparr>"
  "meta_of (js ''map_param'') = no_meta\<lparr>m_pathOptional := True, m_to := True, m_value := True, m_keepOrigin := True\<rparr>"
  "meta_of (js ''transform_media'') = meta_from_to\<lparr>m_value := True\<rparr>"
  by (simp_all add: meta_of_def MODE_META_def)

lemmas validate_simps = validateOperation_def mode_of_def template_metas no_meta_def Let_def FROM_REQUIRED_MODES_def TO_REQUIRED_MODES_def
  VALUE_REQUIRED_MODES_def

lemma validate_set: "op_mode op = js ''set'' \<Longrightarrow> trim (op_path op) \<noteq> [] \<Longrightarrow> validateOperation op = None"
  by (simp add: validate_simps)

lemma validate_delete: "op_mode op = js ''delete'' \<Longrightarrow> trim (op_path op) \<noteq> [] \<Longrightarrow> validateOperation op = None"
  by (simp add: validate_simps)

lemma validate_set_header:
  "op_mode op = js ''set_header'' \<Longrightarrow> trim (op_path op) \<noteq> [] \<Longrightarrow> op_value_text op = toValueText v \<Longrightarrow> composite v \<Longrightarrow> validateOperation op = None"
  by (simp add: validate_simps composite_text)

lemma validate_pass_headers:
  "op_mode op = js ''pass_headers'' \<Longrightarrow> op_value_text op = toValueText (JArr vs) \<Longrightarrow> composite (JArr vs) \<Longrightarrow> item_texts vs \<noteq> []
   \<Longrightarrow> validateOperation op = None"
  by (simp add: validate_simps composite_text check_headers_def parsePassHeaderNames_def)

lemma validate_transform_media:
  "op_mode op = js ''transform_media'' \<Longrightarrow> trim (op_from op) \<noteq> [] \<Longrightarrow> trim (op_to op) \<noteq> [] \<Longrightarrow> op_value_text op = toValueText v
   \<Longrightarrow> composite v \<Longrightarrow> plain_object v \<Longrightarrow> text_field (js_prop v (js ''component'')) \<noteq> [] \<Longrightarrow> validateOperation op = None"
  by (simp add: validate_simps composite_text check_media_def)

lemma validate_map_param:
  "op_mode op = js ''map_param'' \<Longrightarrow> trim (op_to op) \<noteq> [] \<Longrightarrow> op_value_text op = toValueText v
   \<Longrightarrow> composite v \<Longrightarrow> plain_object v \<Longrightarrow> item_texts (map_sources v) \<noteq> []
   \<Longrightarrow> js_prop v (js ''map'') = JUndef \<or> plain_object (js_prop v (js ''map'')) \<Longrightarrow> validateOperation op = None"
  by (auto simp: validate_simps composite_text check_map_def)

section \<open>The templates one by one\<close>

lemmas template_json = composite_def plain_object_def keys_ordered_names all_digits_js is_digit_def template_numbers

lemma js_nonblank: "js_ws (of_char c) = False \<Longrightarrow> trim (js (c # cs)) \<noteq> []"
  by (rule nonblank_head) (simp_all add: js_Cons)

lemma item_texts_nonempty: "trim s \<noteq> [] \<Longrightarrow> item_texts (JStr s # vs) \<noteq> []"
  by (simp add: item_texts_def item_text_def)

lemma headers_template_saveable:
  assumes "js_prop v (js ''mode'') = JStr (js ''pass_headers'')" "js_prop v (js ''value'') = JArr (map JStr (map js (h # hs)))" "\<not> null_row v"
    and "trim (js h) \<noteq> []"
  shows "saveable v"
proof (rule saveable_intro [OF assms(3,1)])
  show "js ''pass_headers'' \<in> set OPERATION_MODE_VALUES" by (simp add: OPERATION_MODE_VALUES_def)
  have "composite (JArr (map JStr (map js (h # hs))))" by (simp add: composite_def list_all_iff)
  then show "validateOperation op = None" if "op_mode op = js ''pass_headers''" "op_value_text op = toValueText (js_prop v (js ''value''))" for op
    using that assms(2,4) item_texts_nonempty [of "js h"] by (auto intro!: validate_pass_headers [of op])
qed simp


lemma null_row_simps: "null_row (JObj ps) \<longleftrightarrow> JNull \<in> set (conditions_of (JObj ps))"
  by (simp add: null_row_def)

lemmas row_simps = null_row_simps conditions_of_def str_prop_def OPERATION_MODE_VALUES_def js_nonblank js_ws_def

lemma media_value:
  "composite (JObj [(js ''component'', JStr (js ''image_pipeline'')), (js ''input'', JStr (js ''auto'')), (js ''output'', JStr (js ''url'')),
     (js ''storage'', JStr (js ''cos'')), (js ''mime_type'', JStr (js ''image/jpeg'')), (js ''quality'', JNum (Fin 92)),
     (js ''strip_alpha'', JBool False), (js ''keep_size'', JBool True), (js ''max_download_mb'', JNum (Fin 20))])"
  by (simp add: template_json)

lemma media_template: "list_all saveable (template_operations (preset g OperationsTemplate IMAGE_PIPELINE_TO_COS_TEMPLATE))"
  unfolding IMAGE_PIPELINE_TO_COS_TEMPLATE_def preset_def template_operations_def
  by (simp, rule saveable_intro [of _ "js ''transform_media''"])
    (simp_all add: row_simps, rule validate_transform_media [OF _ _ _ _ media_value], simp_all add: row_simps plain_object_def)

lemma basic_template: "list_all saveable (template_operations (preset g OperationsTemplate OPERATION_TEMPLATE))"
  unfolding OPERATION_TEMPLATE_def preset_def template_operations_def
  by (simp, rule saveable_intro [of _ "js ''set''"]) (simp_all add: row_simps validate_set)

lemma gemini_template: "list_all saveable (template_operations (preset g OperationsTemplate GEMINI_IMAGE_4K_TEMPLATE))"
  unfolding GEMINI_IMAGE_4K_TEMPLATE_def preset_def template_operations_def
  by (simp, rule saveable_intro [of _ "js ''set''"]) (simp_all add: row_simps validate_set)

lemma header_template: "list_all saveable (template_operations (preset g OperationsTemplate HEADER_PASSTHROUGH_TEMPLATE))"
  unfolding HEADER_PASSTHROUGH_TEMPLATE_def preset_def template_operations_def
  by (simp, rule headers_template_saveable [of _ "''X-Request-Id''"
        "[]"])
    (simp_all add: row_simps)

lemma codex_template: "list_all saveable (template_operations (preset g OperationsTemplate CODEX_CLI_HEADER_PASSTHROUGH_TEMPLATE))"
  unfolding CODEX_CLI_HEADER_PASSTHROUGH_TEMPLATE_def CODEX_CLI_HEADER_PASSTHROUGH_HEADERS_def buildPassHeadersTemplate_def preset_def template_operations_def
  by (simp, rule headers_template_saveable [of _ "''Originator''"
        "[''Session_id'', ''User-Agent'', ''X-Codex-Beta-Features'', ''X-Codex-Turn-Metadata'']"])
    (simp_all add: row_simps)

lemma claude_template: "list_all saveable (template_operations (preset g OperationsTemplate CLAUDE_CLI_HEADER_PASSTHROUGH_TEMPLATE))"
  unfolding CLAUDE_CLI_HEADER_PASSTHROUGH_TEMPLATE_def CLAUDE_CLI_HEADER_PASSTHROUGH_HEADERS_def buildPassHeadersTemplate_def preset_def template_operations_def
  by (simp, rule headers_template_saveable [of _ "''X-Stainless-Arch''"
        "[''X-Stainless-Lang'', ''X-Stainless-Os'', ''X-Stainless-Package-Version'', ''X-Stainless-Retry-Count'', ''X-Stainless-Runtime'', ''X-Stainless-Runtime-Version'', ''X-Stainless-Timeout'', ''User-Agent'', ''X-App'', ''Anthropic-Beta'', ''Anthropic-Dangerous-Direct-Browser-Access'', ''Anthropic-Version'']"])
    (simp_all add: row_simps)

lemma map_template_saveable:
  assumes "js_prop v (js ''mode'') = JStr (js ''map_param'')" "\<not> null_row v" "trim (str_prop v ''to'') \<noteq> []"
    and "composite (js_prop v (js ''value''))" "plain_object (js_prop v (js ''value''))" "item_texts (map_sources (js_prop v (js ''value''))) \<noteq> []"
    and "js_prop (js_prop v (js ''value'')) (js ''map'') = JUndef \<or> plain_object (js_prop (js_prop v (js ''value'')) (js ''map''))"
  shows "saveable v"
  by (rule saveable_intro [OF assms(2,1)]) (use assms(3-7) in \<open>simp_all add: validate_map_param OPERATION_MODE_VALUES_def\<close>)

lemma mapping_template: "list_all saveable (template_operations (preset g OperationsTemplate GETTOKEN_IMAGE_PARAM_MAPPING_TEMPLATE))"
proof -
  note simps = row_simps template_json map_sources_def item_texts_nonempty
  show ?thesis
    unfolding GETTOKEN_IMAGE_PARAM_MAPPING_TEMPLATE_def preset_def template_operations_def
    by (simp, intro conjI; rule map_template_saveable) (simp_all add: simps)
qed

lemma set_header_saveable:
  assumes "js_prop v (js ''mode'') = JStr (js ''set_header'')" "\<not> null_row v" "trim (str_prop v ''path'') \<noteq> []" "composite (js_prop v (js ''value''))"
  shows "saveable v"
  by (rule saveable_intro [OF assms(2,1)]) (use assms(3,4) in \<open>simp_all add: validate_set_header OPERATION_MODE_VALUES_def\<close>)

lemma delete_saveable:
  assumes "js_prop v (js ''mode'') = JStr (js ''delete'')" "\<not> null_row v" "trim (str_prop v ''path'') \<noteq> []"
  shows "saveable v"
  by (rule saveable_intro [OF assms(2,1)]) (use assms(3) in \<open>simp_all add: validate_delete OPERATION_MODE_VALUES_def\<close>)

lemma bedrock_template: "list_all saveable (template_operations (preset g OperationsTemplate AWS_BEDROCK_ANTHROPIC_COMPAT_TEMPLATE))"
  unfolding AWS_BEDROCK_ANTHROPIC_COMPAT_TEMPLATE_def preset_def template_operations_def
  by (simp, intro conjI, rule set_header_saveable, simp_all add: row_simps template_json)
    (rule delete_saveable, simp_all add: row_simps)

lemma library_saveable: "tp_kind (preset_of k) = OperationsTemplate \<Longrightarrow> list_all saveable (template_operations (preset_of k))"
proof -
  note templates = basic_template header_template gemini_template media_template mapping_template codex_template claude_template bedrock_template
  have "list_all (\<lambda>p. tp_kind (snd p) = OperationsTemplate \<longrightarrow> list_all saveable (template_operations (snd p))) TEMPLATE_PRESET_CONFIG"
    by (simp add: TEMPLATE_PRESET_CONFIG_def templates) (simp add: preset_def)
  then show "tp_kind (preset_of k) = OperationsTemplate \<Longrightarrow> list_all saveable (template_operations (preset_of k))"
    using basic_template by (auto simp: preset_of_def list_all_iff split: option.splits dest!: map_of_SomeD)
qed

lemma library_legacy: "tp_kind (preset_of k) = LegacyTemplate \<Longrightarrow> tp_payload (preset_of k) = LEGACY_TEMPLATE"
proof -
  have "list_all (\<lambda>p. tp_kind (snd p) = LegacyTemplate \<longrightarrow> tp_payload (snd p) = LEGACY_TEMPLATE) TEMPLATE_PRESET_CONFIG"
    by (simp add: TEMPLATE_PRESET_CONFIG_def preset_def)
  then show "tp_kind (preset_of k) = LegacyTemplate \<Longrightarrow> tp_payload (preset_of k) = LEGACY_TEMPLATE"
    by (auto simp: preset_of_def preset_def list_all_iff split: option.splits dest!: map_of_SomeD)
qed

text \<open>
  C27: whichever template is selected and whatever the editor holds, filling in the template gives a
  configuration that passes the validation and is saved as a non-empty text.
\<close>

theorem templates_saveable:
  "\<exists>st' t. fillTemplateFromLibrary st = (st', Quiet) \<and> handleSave st' = Inr t \<and> t \<noteq> []"
proof (cases "tp_kind (preset_of (ed_templatePreset st))")
  case OperationsTemplate
  let ?vs = "template_operations (preset_of (ed_templatePreset st))"
  have ne: "?vs \<noteq> []" by (rule template_nonempty [OF OperationsTemplate])
  obtain ops s' where ops: "try_map_seed normalizeOperation ?vs (ed_seed st) = Inr (ops, s')" "length ops = length ?vs"
      "list_all (\<lambda>op. \<not> isOperationBlank op \<and> validateOperation op = None) ops"
    using saveable_rows [OF library_saveable [OF OperationsTemplate]] by blast
  have "ops \<noteq> []" using ops(2) ne by auto
  then obtain t where "buildOperationsJson True ops = Inr t" "t \<noteq> []" using validated_text [OF ops(3)] by blast
  then show ?thesis
    using ops(1) ne
    by (simp add: fillTemplateFromLibrary_def OperationsTemplate fillOperationsTemplate_def read_operations_def handleSave_def buildVisualJson_def)
next
  case LegacyTemplate
  have ok: "json_ok LEGACY_TEMPLATE" by (simp add: LEGACY_TEMPLATE_def template_json)
  then have p: "json_parse (pretty_text 0 LEGACY_TEMPLATE) = Some LEGACY_TEMPLATE" by (rule json_parse_pretty)
  have t: "trim (pretty_text 0 LEGACY_TEMPLATE) = pretty_text 0 LEGACY_TEMPLATE" "pretty_text 0 LEGACY_TEMPLATE \<noteq> []"
    unfolding LEGACY_TEMPLATE_def by (rule object_text_trimmed) (simp_all add: template_numbers pretty_object)
  have "plain_object LEGACY_TEMPLATE" by (simp add: LEGACY_TEMPLATE_def plain_object_def)
  then show ?thesis
    using p t by (simp add: fillTemplateFromLibrary_def LegacyTemplate library_legacy [OF LegacyTemplate] fillLegacyTemplate_def
        with_fallback_def createDefaultOperation_def handleSave_def buildVisualJson_def Let_def)
qed

end
