(* ===== verification/JsExpr.thy ===== *)
theory JsExpr
  imports JsValue
begin

text \<open>
  A fragment of JavaScript's expression language, for texts that the program evaluates with
  \<open>new Function\<close>: numbers, string literals without escapes, variables, calls, unary minus,
  multiplication, addition, comparisons, \<open>&&\<close>, the conditional operator and parentheses, with the
  precedence and associativity of the standard. \<open>None\<close> means that a text lies outside the fragment;
  the model says nothing about it.
\<close>

section \<open>Tokens\<close>

datatype token =
    TNum jsnum | TStr jsstr | TId jsstr
  | TLess | TLessEq | TGreater | TGreaterEq | TAnd | TMul | TAdd | TMinus | TQuest | TColon | TOpen | TClose | TComma

definition id_start :: "int \<Rightarrow> bool" where
  "id_start c \<longleftrightarrow> (65 \<le> c \<and> c \<le> 90) \<or> (97 \<le> c \<and> c \<le> 122) \<or> c = 95 \<or> c = 36"

definition id_part :: "int \<Rightarrow> bool" where
  "id_part c \<longleftrightarrow> id_start c \<or> is_digit c"

definition str_unit :: "int \<Rightarrow> bool" where  \<comment> \<open>a unit of a string literal that stands for itself\<close>
  "str_unit c \<longleftrightarrow> c \<noteq> 34 \<and> c \<noteq> 92 \<and> c \<noteq> 10 \<and> c \<noteq> 13"

definition starts :: "int \<Rightarrow> jsstr \<Rightarrow> bool" where
  "starts c s \<longleftrightarrow> s \<noteq> [] \<and> hd s = c"

text \<open>Operators that are longer than the token read here (\<open>--\<close>, \<open>++\<close>, \<open>**\<close>, \<open><<\<close>, \<open>>>\<close>) are outside the fragment.\<close>

definition symbol :: "int \<Rightarrow> jsstr \<Rightarrow> (token \<times> jsstr) option" where
  "symbol c cs =
     (if c = 60 then (if starts 61 cs then Some (TLessEq, tl cs) else if starts 60 cs then None else Some (TLess, cs))
      else if c = 62 then (if starts 61 cs then Some (TGreaterEq, tl cs) else if starts 62 cs then None else Some (TGreater, cs))
      else if c = 38 then (if starts 38 cs then Some (TAnd, tl cs) else None)
      else if c = 42 then (if starts 42 cs then None else Some (TMul, cs))
      else if c = 43 then (if starts 43 cs then None else Some (TAdd, cs))
      else if c = 45 then (if starts 45 cs then None else Some (TMinus, cs))
      else if c = 63 then Some (TQuest, cs)
      else if c = 58 then Some (TColon, cs)
      else if c = 40 then Some (TOpen, cs)
      else if c = 41 then Some (TClose, cs)
      else if c = 44 then Some (TComma, cs)
      else None)"

definition lex_step :: "int \<Rightarrow> jsstr \<Rightarrow> (token \<times> jsstr) option" where
  "lex_step c cs =
     (if is_digit c then
        (case json_unsigned (c # cs) of
           None \<Rightarrow> None
         | Some (n, r) \<Rightarrow> if r \<noteq> [] \<and> id_part (hd r) then None else Some (TNum n, r))
      else if id_start c then Some (TId (c # takeWhile id_part cs), dropWhile id_part cs)
      else if c = 34 then
        (case dropWhile str_unit cs of
           [] \<Rightarrow> None
         | q # r \<Rightarrow> if q = 34 then Some (TStr (takeWhile str_unit cs), r) else None)
      else symbol c cs)"

text \<open>The comparison of lengths always holds; it makes the recursion well-founded by itself.\<close>

function lex :: "jsstr \<Rightarrow> token list option" where
  "lex [] = Some []"
| "lex (c # cs) =
     (if js_ws c then lex cs
      else (case lex_step c cs of
          None \<Rightarrow> None
        | Some (tok, r) \<Rightarrow> if length r \<le> length cs then map_option ((#) tok) (lex r) else None))"
  by pat_completeness auto
termination
  by (relation "measure length") auto

section \<open>Syntax\<close>

datatype cmp_op = Lt | Le | Gt | Ge

datatype jsexpr =
    ENum jsnum | EStr jsstr | EVar jsstr | ENeg jsexpr | EMul jsexpr jsexpr | EAdd jsexpr jsexpr
  | ECmp cmp_op jsexpr jsexpr | EAnd jsexpr jsexpr | ECond jsexpr jsexpr jsexpr | ECall jsstr "jsexpr list"

fun cmp_of :: "token \<Rightarrow> cmp_op option" where
  "cmp_of TLess = Some Lt" | "cmp_of TLessEq = Some Le" | "cmp_of TGreater = Some Gt" | "cmp_of TGreaterEq = Some Ge" | "cmp_of _ = None"

datatype level =
    LCond | LAnd | LAndRest jsexpr | LCmp | LCmpRest jsexpr | LAdd | LAddRest jsexpr | LMul | LMulRest jsexpr | LUnary
  | LArgs jsstr "jsexpr list"

fun level_rank :: "level \<Rightarrow> nat" where
  "level_rank LCond = 6" | "level_rank LAnd = 5" | "level_rank LCmp = 4" | "level_rank LAdd = 3" | "level_rank LMul = 2"
| "level_rank LUnary = 1" | "level_rank (LArgs _ _) = 7" | "level_rank _ = 0"

text \<open>
  Recursive descent: an expression of the given level and the tokens after it. The \<open>Rest\<close> levels go on
  after an operand on the left; \<open>LArgs f as\<close> reads the arguments after those already read.
\<close>

function parse :: "level \<Rightarrow> token list \<Rightarrow> (jsexpr \<times> token list) option" where
  "parse LCond ts =
     (case parse LAnd ts of
        None \<Rightarrow> None
      | Some (c, r) \<Rightarrow>
          (case r of
             TQuest # r1 \<Rightarrow>
               if length r1 < length ts then
                 (case parse LCond r1 of
                    Some (a, TColon # r2) \<Rightarrow>
                      if length r2 < length ts then map_option (\<lambda>(b, r3). (ECond c a b, r3)) (parse LCond r2) else None
                  | _ \<Rightarrow> None)
               else None
           | _ \<Rightarrow> Some (c, r)))"
| "parse LAnd ts = (case parse LCmp ts of None \<Rightarrow> None | Some (a, r) \<Rightarrow> if length r < length ts then parse (LAndRest a) r else None)"
| "parse (LAndRest a) ts =
     (case ts of
        TAnd # r \<Rightarrow> (case parse LCmp r of None \<Rightarrow> None | Some (b, r') \<Rightarrow> if length r' < length ts then parse (LAndRest (EAnd a b)) r' else None)
      | _ \<Rightarrow> Some (a, ts))"
| "parse LCmp ts = (case parse LAdd ts of None \<Rightarrow> None | Some (a, r) \<Rightarrow> if length r < length ts then parse (LCmpRest a) r else None)"
| "parse (LCmpRest a) ts =
     (case ts of
        [] \<Rightarrow> Some (a, ts)
      | tok # r \<Rightarrow>
          (case cmp_of tok of
             None \<Rightarrow> Some (a, ts)
           | Some op \<Rightarrow> (case parse LAdd r of None \<Rightarrow> None | Some (b, r') \<Rightarrow> if length r' < length ts then parse (LCmpRest (ECmp op a b)) r' else None)))"
| "parse LAdd ts = (case parse LMul ts of None \<Rightarrow> None | Some (a, r) \<Rightarrow> if length r < length ts then parse (LAddRest a) r else None)"
| "parse (LAddRest a) ts =
     (case ts of
        TAdd # r \<Rightarrow> (case parse LMul r of None \<Rightarrow> None | Some (b, r') \<Rightarrow> if length r' < length ts then parse (LAddRest (EAdd a b)) r' else None)
      | TMinus # r \<Rightarrow> None
      | _ \<Rightarrow> Some (a, ts))"
| "parse LMul ts = (case parse LUnary ts of None \<Rightarrow> None | Some (a, r) \<Rightarrow> if length r < length ts then parse (LMulRest a) r else None)"
| "parse (LMulRest a) ts =
     (case ts of
        TMul # r \<Rightarrow> (case parse LUnary r of None \<Rightarrow> None | Some (b, r') \<Rightarrow> if length r' < length ts then parse (LMulRest (EMul a b)) r' else None)
      | _ \<Rightarrow> Some (a, ts))"
| "parse LUnary ts =
     (case ts of
        TMinus # r \<Rightarrow> map_option (\<lambda>(a, r'). (ENeg a, r')) (parse LUnary r)
      | TNum n # r \<Rightarrow> Some (ENum n, r)
      | TStr s # r \<Rightarrow> Some (EStr s, r)
      | TId f # TOpen # r \<Rightarrow> parse (LArgs f []) r
      | TId x # r \<Rightarrow> Some (EVar x, r)
      | TOpen # r \<Rightarrow> (case parse LCond r of Some (a, TClose # r') \<Rightarrow> Some (a, r') | _ \<Rightarrow> None)
      | _ \<Rightarrow> None)"
| "parse (LArgs f as) ts =
     (case parse LCond ts of
        Some (a, TComma # r) \<Rightarrow> if length r < length ts then parse (LArgs f (as @ [a])) r else None
      | Some (a, TClose # r) \<Rightarrow> Some (ECall f (as @ [a]), r)
      | _ \<Rightarrow> None)"
  by pat_completeness auto
termination
  by (relation "measures [\<lambda>(l, ts). length ts, \<lambda>(l, ts). level_rank l]") auto

declare parse.simps [simp del]

definition parse_expr :: "jsstr \<Rightarrow> jsexpr option" where
  "parse_expr s = (case lex s of None \<Rightarrow> None | Some ts \<Rightarrow> (case parse LCond ts of Some (e, []) \<Rightarrow> Some e | _ \<Rightarrow> None))"

section \<open>Evaluation\<close>

datatype jsresult = RNum jsnum | RBool bool | RStr jsstr

fun result_truthy :: "jsresult \<Rightarrow> bool" where
  "result_truthy (RNum n) = (n \<noteq> NaN \<and> \<not> num_is_zero n)"
| "result_truthy (RBool b) = b"
| "result_truthy (RStr s) = (s \<noteq> [])"

fun compare :: "cmp_op \<Rightarrow> jsnum \<Rightarrow> jsnum \<Rightarrow> bool" where
  "compare Lt a b = num_lt a b"
| "compare Le a b = num_le a b"
| "compare Gt a b = num_lt b a"
| "compare Ge a b = num_le b a"

text \<open>
  Evaluation with the variables of \<open>env\<close>. The state is the name last given to the function \<open>tier\<close>,
  which returns its second argument; other functions and operands of other types are outside the fragment.
\<close>

fun eval :: "(jsstr \<Rightarrow> jsnum option) \<Rightarrow> jsexpr \<Rightarrow> jsstr \<Rightarrow> (jsresult \<times> jsstr) option" where
  "eval env (ENum n) m = Some (RNum n, m)"
| "eval env (EStr s) m = Some (RStr s, m)"
| "eval env (EVar x) m = map_option (\<lambda>n. (RNum n, m)) (env x)"
| "eval env (ENeg a) m = (case eval env a m of Some (RNum x, m') \<Rightarrow> Some (RNum (num_neg x), m') | _ \<Rightarrow> None)"
| "eval env (EMul a b) m =
     (case eval env a m of
        Some (RNum x, m1) \<Rightarrow> (case eval env b m1 of Some (RNum y, m2) \<Rightarrow> Some (RNum (num_mul x y), m2) | _ \<Rightarrow> None)
      | _ \<Rightarrow> None)"
| "eval env (EAdd a b) m =
     (case eval env a m of
        Some (RNum x, m1) \<Rightarrow> (case eval env b m1 of Some (RNum y, m2) \<Rightarrow> Some (RNum (num_add x y), m2) | _ \<Rightarrow> None)
      | _ \<Rightarrow> None)"
| "eval env (ECmp op a b) m =
     (case eval env a m of
        Some (RNum x, m1) \<Rightarrow> (case eval env b m1 of Some (RNum y, m2) \<Rightarrow> Some (RBool (compare op x y), m2) | _ \<Rightarrow> None)
      | _ \<Rightarrow> None)"
| "eval env (EAnd a b) m =
     (case eval env a m of Some (x, m1) \<Rightarrow> if result_truthy x then eval env b m1 else Some (x, m1) | None \<Rightarrow> None)"
| "eval env (ECond c a b) m =
     (case eval env c m of Some (x, m1) \<Rightarrow> if result_truthy x then eval env a m1 else eval env b m1 | None \<Rightarrow> None)"
| "eval env (ECall f args) m =
     (case args of
        [a, b] \<Rightarrow>
          if f = js ''tier'' then
            (case eval env a m of
               Some (RStr s, m1) \<Rightarrow> (case eval env b m1 of Some (x, m2) \<Rightarrow> Some (x, s) | None \<Rightarrow> None)
             | _ \<Rightarrow> None)
          else None
      | _ \<Rightarrow> None)"

end
