(* ===== verification/TieredPricing.thy ===== *)
theory TieredPricing
  imports RequestRuleExpr JsExpr
begin

text \<open>
  Tiered prices: \<open>src/web/src/constants/billing.constants.js\<close> and
  \<open>src/web/src/pages/Setting/Ratio/components/TieredPricingEditor.jsx\<close>. A configuration is a list of
  tiers with conditions on the token counts and unit costs; it is edited visually or as the text of
  a billing expression, which is generated from it and read back. The estimator evaluates the
  text with \<open>new Function\<close>, here with the evaluator of \<open>JsExpr\<close>.
\<close>

section \<open>Variables of a billing expression\<close>

record billing_var =
  bv_key :: jsstr
  bv_tierField :: jsstr
  bv_isBase :: bool
  bv_isConditionOnly :: bool

definition base_var :: "string \<Rightarrow> string \<Rightarrow> billing_var" where
  "base_var k f = \<lparr>bv_key = js k, bv_tierField = js f, bv_isBase = True, bv_isConditionOnly = False\<rparr>"

definition extra_var :: "string \<Rightarrow> string \<Rightarrow> billing_var" where
  "extra_var k f = \<lparr>bv_key = js k, bv_tierField = js f, bv_isBase = False, bv_isConditionOnly = False\<rparr>"

definition BILLING_VARS :: "billing_var list" where
  "BILLING_VARS =
     [base_var ''p'' ''input_unit_cost'', base_var ''c'' ''output_unit_cost'',
      \<lparr>bv_key = js ''len'', bv_tierField = [], bv_isBase = False, bv_isConditionOnly = True\<rparr>,
      extra_var ''cr'' ''cache_read_unit_cost'', extra_var ''cc'' ''cache_create_unit_cost'',
      extra_var ''cc1h'' ''cache_create_1h_unit_cost'', extra_var ''img'' ''image_unit_cost'',
      extra_var ''img_o'' ''image_output_unit_cost'', extra_var ''ai'' ''audio_input_unit_cost'',
      extra_var ''ao'' ''audio_output_unit_cost'']"

definition BILLING_EXTRA_VARS :: "billing_var list" where
  "BILLING_EXTRA_VARS = filter (\<lambda>v. \<not> bv_isBase v \<and> \<not> bv_isConditionOnly v) BILLING_VARS"

definition BILLING_CACHE_VAR_MAP :: "(jsstr \<times> jsstr) list" where  \<comment> \<open>field and variable\<close>
  "BILLING_CACHE_VAR_MAP = map (\<lambda>v. (bv_tierField v, bv_key v)) BILLING_EXTRA_VARS"

section \<open>Tiers\<close>

record tier_cond =
  tc_var :: jsstr
  tc_op :: jsstr
  tc_value :: jsval

datatype cache_mode = Timed | Generic

text \<open>The costs are the properties \<open>..._unit_cost\<close> of the tier object; a property that was never set is missing.\<close>

record tier =
  t_conditions :: "tier_cond list"
  t_costs :: "jsstr \<rightharpoonup> jsval"
  t_label :: jsstr
  t_cache_mode :: "cache_mode option"

type_synonym visual_config = "tier list"

text \<open>\<open>Number(v) || 0\<close>\<close>

definition number_or_zero :: "jsval \<Rightarrow> jsnum" where
  "number_or_zero v = (let n = js_to_number v in if n = NaN \<or> num_is_zero n then Fin 0 else n)"

definition unitCostToPrice :: "jsval \<Rightarrow> jsnum" where
  "unitCostToPrice uc = number_or_zero uc"

definition priceToUnitCost :: "jsval \<Rightarrow> jsnum" where
  "priceToUnitCost price = number_or_zero price"

definition cost_field :: "tier \<Rightarrow> jsstr \<Rightarrow> jsval" where
  "cost_field t f = (case t_costs t f of Some v \<Rightarrow> v | None \<Rightarrow> JUndef)"

definition unit_cost :: "tier \<Rightarrow> jsstr \<Rightarrow> jsnum" where
  "unit_cost t f = number_or_zero (cost_field t f)"

definition cond_complete :: "tier_cond \<Rightarrow> bool" where
  "cond_complete c \<longleftrightarrow> tc_var c \<noteq> [] \<and> tc_op c \<noteq> [] \<and> \<not> is_nullish (tc_value c) \<and> tc_value c \<noteq> JStr []"

definition cond_text :: "tier_cond \<Rightarrow> jsstr" where
  "cond_text c = tc_var c @ js '' '' @ tc_op c @ js '' '' @ js_to_string (tc_value c)"

definition buildConditionStr :: "tier_cond list \<Rightarrow> jsstr" where
  "buildConditionStr cs = join (js '' && '') (map cond_text (filter cond_complete cs))"

definition getTierCacheMode :: "tier \<Rightarrow> cache_mode" where
  "getTierCacheMode t =
     (case t_cache_mode t of
        Some m \<Rightarrow> m
      | None \<Rightarrow> if num_lt (Fin 0) (js_to_number (cost_field t (js ''cache_create_1h_unit_cost''))) then Timed else Generic)"

definition normalizeVisualTier :: "tier \<Rightarrow> tier" where
  "normalizeVisualTier t = t\<lparr>t_cache_mode := Some (getTierCacheMode t)\<rparr>"

definition base_costs :: "jsval \<Rightarrow> jsval \<Rightarrow> jsstr \<rightharpoonup> jsval" where
  "base_costs i out = [js ''input_unit_cost'' \<mapsto> i, js ''output_unit_cost'' \<mapsto> out]"

definition createDefaultVisualConfig :: visual_config where
  "createDefaultVisualConfig =
     [normalizeVisualTier \<lparr>t_conditions = [], t_costs = base_costs (JNum (Fin 0)) (JNum (Fin 0)), t_label = js ''base'',
        t_cache_mode = Some Generic\<rparr>]"

definition normalizeVisualConfig :: "visual_config option \<Rightarrow> visual_config" where
  "normalizeVisualConfig config =
     (case config of
        None \<Rightarrow> createDefaultVisualConfig
      | Some tiers \<Rightarrow> if tiers = [] then createDefaultVisualConfig else map normalizeVisualTier tiers)"

section \<open>The expression of a configuration\<close>

definition cost_part :: "jsstr \<Rightarrow> jsnum \<Rightarrow> jsstr" where
  "cost_part x n = x @ js '' * '' @ number_to_string n"

definition extra_parts :: "tier \<Rightarrow> jsstr list" where
  "extra_parts t =
     map (\<lambda>(f, x). cost_part x (unit_cost t f)) (filter (\<lambda>(f, x). \<not> num_is_zero (unit_cost t f)) BILLING_CACHE_VAR_MAP)"

definition buildTierBodyExpr :: "tier \<Rightarrow> jsstr" where
  "buildTierBodyExpr t =
     join (js '' + '')
       ([cost_part (js ''p'') (unit_cost t (js ''input_unit_cost'')), cost_part (js ''c'') (unit_cost t (js ''output_unit_cost''))]
        @ extra_parts t)"

definition zero_expr :: jsstr where
  "zero_expr = js ''p * 0 + c * 0''"

definition tier_text :: "jsstr \<Rightarrow> tier \<Rightarrow> jsstr" where
  "tier_text label t = js ''tier('' @ [34] @ label @ [34] @ js '', '' @ buildTierBodyExpr t @ js '')''"

definition nth_label :: "nat \<Rightarrow> jsstr" where
  "nth_label i = [31532] @ show_nat (int i) @ [26723]"

text \<open>The parts of an expression with several tiers, from tier \<open>i\<close> on.\<close>

fun tier_parts :: "nat \<Rightarrow> visual_config \<Rightarrow> jsstr list" where
  "tier_parts i [] = []"
| "tier_parts i (t # ts) =
     (let body = tier_text (if t_label t = [] then nth_label (i + 1) else t_label t) t; cond = buildConditionStr (t_conditions t)
      in (if ts \<noteq> [] \<and> cond \<noteq> [] then cond @ js '' ? '' @ body else body) # tier_parts (i + 1) ts)"

definition generateExprFromVisualConfig :: "visual_config option \<Rightarrow> jsstr" where
  "generateExprFromVisualConfig config =
     (case config of
        None \<Rightarrow> zero_expr
      | Some [] \<Rightarrow> zero_expr
      | Some [t] \<Rightarrow>
          let body = tier_text (if t_label t = [] then js ''default'' else t_label t) t; cond = buildConditionStr (t_conditions t)
          in if cond \<noteq> [] then cond @ js '' ? '' @ body @ js '' : '' @ zero_expr else body
      | Some tiers \<Rightarrow> join (js '' : '') (tier_parts 0 tiers))"

section \<open>Reading an expression\<close>

abbreviation rx_sp :: regex where "rx_sp \<equiv> RStar rx_space"

definition rx_num :: regex where  \<comment> \<open>\<open>[\\d.eE+-]+\<close>\<close>
  "rx_num = RPlus rx_numchar"

definition rx_condnum :: regex where  \<comment> \<open>\<open>[\\d.eE+]+\<close>\<close>
  "rx_condnum = RPlus (RSet True [(48, 57), (46, 46), (101, 101), (69, 69), (43, 43)])"

definition rx_star_sign :: "regex list" where "rx_star_sign = [rx_sp, RLit (js ''*''), rx_sp]"
definition rx_plus_sign :: "regex list" where "rx_plus_sign = [rx_sp, RLit (js ''+''), rx_sp]"

text \<open>\<open>(?:\\s*\\+\\s*v\\s*\\*\\s*([\\d.eE+-]+))?\<close> for each variable, with group numbers from \<open>i\<close> on.\<close>

fun rx_extras :: "nat \<Rightarrow> jsstr list \<Rightarrow> regex list" where
  "rx_extras i [] = []"
| "rx_extras i (x # xs) = ROpt (rx_seq (rx_plus_sign @ [RLit x] @ rx_star_sign @ [RGroup i rx_num])) # rx_extras (i + 1) xs"

definition rx_body :: "nat \<Rightarrow> regex list" where
  "rx_body i =
     [RLit (js ''p'')] @ rx_star_sign @ [RGroup i rx_num] @ rx_plus_sign @ [RLit (js ''c'')] @ rx_star_sign @ [RGroup (i + 1) rx_num]
     @ rx_extras (i + 2) (map snd BILLING_CACHE_VAR_MAP)"

definition rx_tier :: "nat \<Rightarrow> regex list" where
  "rx_tier i = [RLit (js ''tier('' @ [34]), RGroup i (RStar rx_not_quote), RLit ([34] @ js '',''), rx_sp] @ rx_body (i + 1) @ [RLit (js '')'')]"

definition rx_var :: regex where "rx_var = RAlt (RLit (js ''p'')) (RAlt (RLit (js ''c'')) (RLit (js ''len'')))"

definition rx_cmp :: regex where
  "rx_cmp = RAlt (RLit (js ''<'')) (RAlt (RLit (js ''<='')) (RAlt (RLit (js ''>'')) (RLit (js ''>=''))))"

definition rx_cond :: "regex list" where
  "rx_cond = [rx_var, rx_sp, rx_cmp, rx_sp, rx_condnum]"

definition condGroup :: regex where
  "condGroup = RGroup 1 (RSeq (rx_seq rx_cond) (RStar (rx_seq ([rx_sp, RLit (js ''&&''), rx_sp] @ rx_cond))))"

definition singleRe :: "regex list" where
  "singleRe = rx_tier 1"

definition tierRe :: regex where
  "tierRe = rx_seq (ROpt (rx_seq [condGroup, rx_sp, RLit (js ''?''), rx_sp]) # rx_tier 2)"

text \<open>A search with the flag \<open>g\<close>: the first match from the current position on, and the text after it.\<close>

fun rx_search :: "regex \<Rightarrow> jsstr \<Rightarrow> rx_state option" where
  "rx_search r s =
     (case rx_match r (s, []) of
        st # _ \<Rightarrow> Some st
      | [] \<Rightarrow> (case s of [] \<Rightarrow> None | c # cs \<Rightarrow> rx_search r cs))"

declare rx_search.simps [simp del]

text \<open>The loop over \<open>exec\<close>; the patterns it is used with have no empty match, so the comparison always holds.\<close>

function rx_matches :: "regex \<Rightarrow> jsstr \<Rightarrow> captures list" where
  "rx_matches r s =
     (case rx_search r s of
        None \<Rightarrow> []
      | Some (rest, m) \<Rightarrow> m # (if length rest < length s then rx_matches r rest else []))"
  by pat_completeness auto
termination
  by (relation "measure (length o snd)") auto

declare rx_matches.simps [simp del]

definition read_costs :: "nat \<Rightarrow> captures \<Rightarrow> jsstr \<rightharpoonup> jsval" where
  "read_costs i m =
     base_costs (JNum (string_to_number (cap m i))) (JNum (string_to_number (cap m (i + 1))))
     ++ map_of (concat (map (\<lambda>(j, f, _). case map_of m (i + 2 + j) of None \<Rightarrow> [] | Some w \<Rightarrow> [(f, JNum (string_to_number w))])
          (List.enumerate 0 BILLING_CACHE_VAR_MAP)))"

definition rx_cond_parts :: "regex list" where
  "rx_cond_parts = [RGroup 1 rx_var, rx_sp, RGroup 2 rx_cmp, rx_sp, RGroup 3 rx_condnum]"

text \<open>
  \<open>condStr.split(/\\s*&&\\s*/)\<close> with the parts trimmed. Splitting at \<open>&&\<close> and trimming gives the same
  parts, since the white space that the pattern takes is what \<open>trim\<close> removes.
\<close>

fun split_and :: "jsstr \<Rightarrow> jsstr \<Rightarrow> jsstr list" where
  "split_and cur (c # d # cs) = (if c = 38 \<and> d = 38 then cur # split_and [] cs else split_and (cur @ [c]) (d # cs))"
| "split_and cur cs = [cur @ cs]"

definition read_conditions :: "jsstr \<Rightarrow> tier_cond list" where
  "read_conditions condStr =
     (if condStr = [] then []
      else List.map_filter (\<lambda>part. map_option
          (\<lambda>m. \<lparr>tc_var = cap m 1, tc_op = cap m 2, tc_value = JNum (string_to_number (cap m 3))\<rparr>) (rx_exec rx_cond_parts (trim part)))
        (split_and [] condStr))"

definition strip_spaces :: "jsstr \<Rightarrow> jsstr" where  \<comment> \<open>\<open>.replace(/\\s+/g, '')\<close>\<close>
  "strip_spaces s = filter (\<lambda>c. \<not> js_ws c) s"

definition rx_version :: "regex list" where  \<comment> \<open>\<open>/^v\\d+:([\\s\\S]*)$/\<close>\<close>
  "rx_version = [RLit (js ''v''), RPlus rx_digit, RLit (js '':''), RGroup 1 (RStar rx_any)]"

definition strip_version :: "jsstr \<Rightarrow> jsstr" where
  "strip_version s = (case rx_exec rx_version s of Some m \<Rightarrow> cap m 1 | None \<Rightarrow> s)"

definition tryParseVisualConfig :: "jsstr \<Rightarrow> visual_config option" where
  "tryParseVisualConfig exprStr =
     (if exprStr = [] then None
      else let s = strip_version exprStr in
        (case rx_exec singleRe s of
           Some m \<Rightarrow>
             Some (normalizeVisualConfig (Some [normalizeVisualTier
               \<lparr>t_conditions = [], t_costs = read_costs 2 m, t_label = cap m 1, t_cache_mode = None\<rparr>]))
         | None \<Rightarrow>
             let tiers = map (\<lambda>m. normalizeVisualTier
                   \<lparr>t_conditions = read_conditions (cap m 1), t_costs = read_costs 3 m, t_label = cap m 2, t_cache_mode = None\<rparr>) (rx_matches tierRe s);
                 cfg = normalizeVisualConfig (Some tiers)
             in if tiers = [] then None
                else if strip_spaces (generateExprFromVisualConfig (Some cfg)) \<noteq> strip_spaces s then None
                else Some cfg))"

section \<open>The estimator\<close>

text \<open>The extra token counts by variable name; \<open>v || 0\<close> for each.\<close>

definition count_or_zero :: "jsnum \<Rightarrow> jsnum" where
  "count_or_zero n = (if n = NaN \<or> num_is_zero n then Fin 0 else n)"

definition estimator_env :: "jsnum \<Rightarrow> jsnum \<Rightarrow> (jsstr \<Rightarrow> jsnum) \<Rightarrow> jsstr \<Rightarrow> jsnum option" where
  "estimator_env p c extra x =
     (if x = js ''p'' then Some p
      else if x = js ''c'' then Some c
      else if x = js ''len'' then
        Some (num_add (num_add (num_add p (count_or_zero (extra (js ''cr'')))) (count_or_zero (extra (js ''cc'')))) (count_or_zero (extra (js ''cc1h''))))
      else if x \<in> set (map snd BILLING_CACHE_VAR_MAP) then Some (count_or_zero (extra x))
      else None)"

text \<open>Cost and matched tier; \<open>None\<close> for a text outside the fragment of \<open>JsExpr\<close>.\<close>

definition evalExprLocally :: "jsstr \<Rightarrow> jsnum \<Rightarrow> jsnum \<Rightarrow> (jsstr \<Rightarrow> jsnum) \<Rightarrow> (jsresult \<times> jsstr) option" where
  "evalExprLocally exprStr p c extra =
     (case parse_expr exprStr of None \<Rightarrow> None | Some e \<Rightarrow> eval (estimator_env p c extra) e [])"

section \<open>Editing tiers\<close>

definition set_cost :: "jsstr \<Rightarrow> jsnum \<Rightarrow> tier \<Rightarrow> tier" where
  "set_cost f n t = t\<lparr>t_costs := (t_costs t)(f \<mapsto> JNum n)\<rparr>"

text \<open>What a price input hands on: nothing for a text that is no number.\<close>

definition price_input :: "jsstr \<Rightarrow> jsnum option" where
  "price_input val =
     (if val = [] then Some (Fin 0)
      else let num = string_to_number val in if num = NaN then None else Some (priceToUnitCost (JNum num)))"

definition cache_mode_patch :: "cache_mode \<Rightarrow> tier \<Rightarrow> tier" where
  "cache_mode_patch m t =
     (let t1 = t\<lparr>t_cache_mode := Some m\<rparr> in if m = Generic then set_cost (js ''cache_create_1h_unit_cost'') (Fin 0) t1 else t1)"

definition updateTier :: "nat \<Rightarrow> (tier \<Rightarrow> tier) \<Rightarrow> visual_config option \<Rightarrow> visual_config" where
  "updateTier index patch visualConfig =
     (let tiers = normalizeVisualConfig visualConfig in
      map (\<lambda>(i, t). if i = index then normalizeVisualTier (patch t) else t) (List.enumerate 0 tiers))"

definition default_condition :: tier_cond where
  "default_condition = \<lparr>tc_var = js ''len'', tc_op = js ''<'', tc_value = JNum (Fin 200000)\<rparr>"

definition addTier :: "visual_config option \<Rightarrow> visual_config" where
  "addTier visualConfig =
     (let tiers = normalizeVisualConfig visualConfig;
          tiers1 = (if tiers \<noteq> [] \<and> t_conditions (last tiers) = []
                    then butlast tiers @ [(last tiers)\<lparr>t_conditions := [default_condition]\<rparr>] else tiers)
      in tiers1 @ [\<lparr>t_conditions = [], t_costs = base_costs (JNum (Fin 0)) (JNum (Fin 0)), t_label = nth_label (length tiers1 + 1),
                    t_cache_mode = Some Generic\<rparr>])"

definition removeTier :: "nat \<Rightarrow> visual_config option \<Rightarrow> visual_config option" where
  "removeTier index visualConfig =
     (let tiers = normalizeVisualConfig visualConfig in
      if length tiers \<le> 1 then visualConfig
      else let kept = take index tiers @ drop (Suc index) tiers in
        Some (if kept \<noteq> [] then butlast kept @ [(last kept)\<lparr>t_conditions := []\<rparr>] else kept))"

definition update_condition :: "nat \<Rightarrow> tier_cond \<Rightarrow> tier \<Rightarrow> tier" where
  "update_condition ci cond t = t\<lparr>t_conditions := map (\<lambda>(i, c). if i = ci then cond else c) (List.enumerate 0 (t_conditions t))\<rparr>"

definition remove_condition :: "nat \<Rightarrow> tier \<Rightarrow> tier" where
  "remove_condition ci t = t\<lparr>t_conditions := take ci (t_conditions t) @ drop (Suc ci) (t_conditions t)\<rparr>"

definition add_condition :: "tier \<Rightarrow> tier" where
  "add_condition t =
     (if 2 \<le> length (t_conditions t) then t
      else t\<lparr>t_conditions := t_conditions t
        @ [default_condition\<lparr>tc_var := (if js ''len'' \<in> set (map tc_var (t_conditions t)) then js ''c'' else js ''len'')\<rparr>]\<rparr>)"

end
