(* ===== verification/JsExprText.thy ===== *)
theory JsExprText
  imports JsExpr
begin

text \<open>
  How the texts that a program writes are read as expressions: pieces of text that lex to given
  tokens wherever a delimiter follows, and pieces of tokens that parse at a given level wherever
  a token of lower strength follows. Both compose, so that the reading of a generated text is
  the composition of the readings of its parts.
\<close>

section \<open>Lexing pieces\<close>

definition word_end :: "jsstr \<Rightarrow> bool" where
  "word_end r \<longleftrightarrow> r = [] \<or> hd r \<in> {32, 41, 44}"

definition lexes :: "jsstr \<Rightarrow> token list \<Rightarrow> bool" where
  "lexes s ts \<longleftrightarrow> (\<forall>r. word_end r \<longrightarrow> lex (s @ r) = map_option ((@) ts) (lex r))"

lemma word_end_simps [simp]: "word_end []" "word_end (32 # r)" "word_end (41 # r)" "word_end (44 # r)"
  by (simp_all add: word_end_def)

lemma word_end_delims:
  assumes "word_end r"
  shows "num_delim r" and "r = [] \<or> \<not> id_part (hd r)"
  using assms by (auto simp: word_end_def num_delim_def id_part_def id_start_def is_digit_def)

lemma lexesI: "(\<And>r. word_end r \<Longrightarrow> lex (s @ r) = map_option ((@) ts) (lex r)) \<Longrightarrow> lexes s ts"
  by (simp add: lexes_def)

lemma lexesD: "lexes s ts \<Longrightarrow> word_end r \<Longrightarrow> lex (s @ r) = map_option ((@) ts) (lex r)"
  by (simp add: lexes_def)

lemma lexes_all: "lexes s ts \<Longrightarrow> lex s = Some ts"
  using lexesD [of s ts "[]"] by simp

lemma lex_ws [simp]: "js_ws c \<Longrightarrow> lex (c # cs) = lex cs"
  by simp

lemma map_option_append: "map_option ((@) a) (map_option ((@) b) x) = map_option ((@) (a @ b)) x"
  by (cases x) auto

lemma map_option_Cons_append: "map_option ((#) a) (map_option ((@) b) x) = map_option ((@) (a # b)) x"
  by (cases x) auto

lemma lexes_space:
  assumes "lexes s ts" and "lexes s' ts'"
  shows "lexes (s @ 32 # s') (ts @ ts')"
proof (rule lexesI)
  fix r assume r: "word_end r"
  have "lex ((s @ 32 # s') @ r) = map_option ((@) ts) (lex (32 # s' @ r))"
    using lexesD [OF assms(1), of "32 # s' @ r"] by (simp del: lex.simps)
  also have "lex (32 # s' @ r) = map_option ((@) ts') (lex r)"
    using lexesD [OF assms(2) r] by (simp add: js_ws_def)
  finally show "lex ((s @ 32 # s') @ r) = map_option ((@) (ts @ ts')) (lex r)"
    by (simp add: map_option_append)
qed

lemma lexes_join:
  assumes "lexes op ops" and "list_all2 lexes ws tss" and "ws \<noteq> []"
  shows "lexes (join (32 # op @ [32]) ws) (join ops tss)"
  using assms(2,3)
proof (induction ws arbitrary: tss)
  case (Cons w ws)
  then obtain ts tss' where t: "tss = ts # tss'" "lexes w ts" "list_all2 lexes ws tss'"
    by (auto simp: list_all2_Cons1)
  show ?case
  proof (cases ws)
    case Nil
    with t show ?thesis by simp
  next
    case (Cons v vs)
    with t(3) obtain us uss where u: "tss' = us # uss" by (auto simp: list_all2_Cons1)
    from Cons.IH [OF t(3)] Cons have "lexes (join (32 # op @ [32]) ws) (join ops tss')" by simp
    from lexes_space [OF t(2) lexes_space [OF assms(1) this]] show ?thesis
      using Cons t(1) u by simp
  qed
qed simp

lemma lex_token:
  "lex_step c cs = Some (tok, r) \<Longrightarrow> \<not> js_ws c \<Longrightarrow> length r \<le> length cs \<Longrightarrow> lex (c # cs) = map_option ((#) tok) (lex r)"
  by simp

declare lex.simps(2) [simp del]

lemma lexes_id:
  assumes "x \<noteq> []" and "id_start (hd x)" and "\<forall>c \<in> set x. id_part c"
  shows "lexes x [TId x]"
proof (rule lexesI)
  fix r assume r: "word_end r"
  obtain c cs where x: "x = c # cs" using assms(1) by (cases x) auto
  have "takeWhile id_part cs = cs" "dropWhile id_part cs = []" using assms(3) x by (auto simp: takeWhile_eq_all_conv)
  then have tw: "takeWhile id_part (cs @ r) = cs" "dropWhile id_part (cs @ r) = r"
    using takeWhile_append_delim [where P = id_part and s = cs, OF word_end_delims(2) [OF r]] by auto
  have c: "\<not> is_digit c" "\<not> js_ws c" "id_start c" using assms(2) x by (auto simp: id_start_def is_digit_def js_ws_def)
  have "lex_step c (cs @ r) = Some (TId x, r)" using c tw x by (simp add: lex_step_def)
  from lex_token [OF this c(2)] have "lex (c # cs @ r) = map_option ((#) (TId x)) (lex r)" by simp
  then show "lex (x @ r) = map_option ((@) [TId x]) (lex r)" using x by (cases "lex r") auto
qed

definition num_toks :: "jsnum \<Rightarrow> token list" where
  "num_toks n = (if hd (number_to_string n) = 45 then [TMinus, TNum (num_neg n)] else [TNum n])"

lemma num_neg_neg [simp]: "num_neg (num_neg n) = n"
  by (cases n) auto

lemma lex_unsigned:
  assumes "json_unsigned s = Some (n, [])" and "word_end r"
  shows "lex (s @ r) = map_option ((#) (TNum n)) (lex r)" and "s \<noteq> []" and "is_digit (hd s)"
proof -
  show s: "s \<noteq> []" "is_digit (hd s)"
    using assms(1) by (cases s; auto simp: json_unsigned_def json_int_part_def is_digit_def Let_def split: if_splits prod.splits)+
  obtain c cs where c: "s = c # cs" using s by (cases s) auto
  have d: "is_digit c" "\<not> js_ws c" using s c by (auto simp: is_digit_def js_ws_def)
  have "json_unsigned (c # cs @ r) = Some (n, r)"
    using json_unsigned_delim [OF word_end_delims(1) [OF assms(2)] assms(1)] c by simp
  then have "lex_step c (cs @ r) = Some (TNum n, r)"
    using d word_end_delims(2) [OF assms(2)] by (auto simp: lex_step_def)
  from lex_token [OF this d(2)] show "lex (s @ r) = map_option ((#) (TNum n)) (lex r)" using c by simp
qed

lemma lexes_number:
  assumes "json_num_ok n"
  shows "lexes (number_to_string n) (num_toks n)"
proof (rule lexesI)
  fix r assume r: "word_end r"
  let ?s = "number_to_string n"
  have jn: "json_number ?s = Some (n, [])" using assms by (simp add: json_num_ok_def)
  have ne: "?s \<noteq> []" using json_number_delim(2) [OF _ jn, of "[]"] by (simp add: json_delim_def)
  show "lex (?s @ r) = map_option ((@) (num_toks n)) (lex r)"
  proof (cases "hd ?s = 45")
    case True
    define t where "t = tl ?s"
    have s: "?s = 45 # t" using ne True t_def by (cases ?s) auto
    have "\<exists>m. json_unsigned t = Some (m, []) \<and> num_neg m = n"
      using jn s by (auto simp: json_number_def)
    then have u: "json_unsigned t = Some (num_neg n, [])" by auto
    note l = lex_unsigned [OF u r]
    have "lex_step 45 (t @ r) = Some (TMinus, t @ r)"
      using l(2,3) by (cases t) (auto simp: lex_step_def symbol_def starts_def is_digit_def id_start_def)
    from lex_token [OF this] have "lex (45 # t @ r) = map_option ((#) TMinus) (lex (t @ r))" by (simp add: js_ws_def)
    then show ?thesis using l(1) s by (cases "lex r") (auto simp: num_toks_def)
  next
    case False
    then have "json_unsigned ?s = Some (n, [])" using jn by (simp add: json_number_def)
    from lex_unsigned(1) [OF this r] show ?thesis using False by (cases "lex r") (auto simp: num_toks_def)
  qed
qed

lemma lex_symbol:
  assumes "symbol c (cs @ r) = Some (tok, r)" and "\<not> is_digit c" and "\<not> id_start c" and "c \<noteq> 34" and "\<not> js_ws c"
  shows "lex (c # cs @ r) = map_option ((@) [tok]) (lex r)"
proof -
  have "lex_step c (cs @ r) = Some (tok, r)" using assms by (simp add: lex_step_def)
  from lex_token [OF this assms(5)] show ?thesis by (cases "lex r") auto
qed

lemmas symbol_simps = symbol_def starts_def is_digit_def id_start_def js_ws_def

lemma lexes_symbol:
  "lexes [42] [TMul]" "lexes [43] [TAdd]" "lexes [60] [TLess]" "lexes [60, 61] [TLessEq]" "lexes [62] [TGreater]" "lexes [62, 61] [TGreaterEq]"
  "lexes [38, 38] [TAnd]" "lexes [63] [TQuest]" "lexes [58] [TColon]"
proof -
  have "lexes (c # cs) [tok]"
    if "\<And>r. word_end r \<Longrightarrow> symbol c (cs @ r) = Some (tok, r)" "\<not> is_digit c" "\<not> id_start c" "c \<noteq> 34" "\<not> js_ws c" for c cs tok
    using lex_symbol [OF that(1) that(2-)] by (auto intro: lexesI)
  note sym = this
  show "lexes [42] [TMul]" by (rule sym) (auto simp: symbol_simps word_end_def)
  show "lexes [43] [TAdd]" by (rule sym) (auto simp: symbol_simps word_end_def)
  show "lexes [60] [TLess]" by (rule sym) (auto simp: symbol_simps word_end_def)
  show "lexes [60, 61] [TLessEq]" by (rule sym) (auto simp: symbol_simps)
  show "lexes [62] [TGreater]" by (rule sym) (auto simp: symbol_simps word_end_def)
  show "lexes [62, 61] [TGreaterEq]" by (rule sym) (auto simp: symbol_simps)
  show "lexes [38, 38] [TAnd]" by (rule sym) (auto simp: symbol_simps)
  show "lexes [63] [TQuest]" by (rule sym) (auto simp: symbol_simps)
  show "lexes [58] [TColon]" by (rule sym) (auto simp: symbol_simps)
qed

lemma lex_string:
  assumes "\<forall>c \<in> set s. str_unit c"
  shows "lex (34 # s @ 34 # r) = map_option ((#) (TStr s)) (lex r)"
proof -
  have "takeWhile str_unit (s @ 34 # r) = s" "dropWhile str_unit (s @ 34 # r) = 34 # r"
    using assms by (auto simp: str_unit_def takeWhile_append dropWhile_append)
  then have "lex_step 34 (s @ 34 # r) = Some (TStr s, r)" by (simp add: lex_step_def is_digit_def id_start_def)
  from lex_token [OF this] show ?thesis by (simp add: js_ws_def)
qed

text \<open>A call \<open>f("s", e)\<close>.\<close>

lemma lexes_call:
  assumes f: "f \<noteq> []" "id_start (hd f)" "\<forall>c \<in> set f. id_part c" and s: "\<forall>c \<in> set s. str_unit c" and e: "lexes e ts"
  shows "lexes (f @ 40 # 34 # s @ 34 # 44 # 32 # e @ [41]) ([TId f, TOpen, TStr s, TComma] @ ts @ [TClose])"
proof (rule lexesI)
  fix r assume "word_end r"
  obtain c cs where x: "f = c # cs" using f(1) by (cases f) auto
  let ?r1 = "40 # 34 # s @ 34 # 44 # 32 # e @ 41 # r"
  have p: "\<not> id_part 40" by (simp add: id_part_def id_start_def is_digit_def)
  have "takeWhile id_part (cs @ ?r1) = cs" "dropWhile id_part (cs @ ?r1) = ?r1"
    using f(3) x p by (auto simp: takeWhile_append dropWhile_append)
  then have "lex_step c (cs @ ?r1) = Some (TId f, ?r1)"
    using f(2) x by (auto simp: lex_step_def id_start_def is_digit_def)
  from lex_token [OF this] have l1: "lex (f @ ?r1) = map_option ((#) (TId f)) (lex ?r1)"
    using f(2) x by (auto simp: id_start_def js_ws_def)
  have l2: "lex (40 # z) = map_option ((#) TOpen) (lex z)" "lex (44 # z) = map_option ((#) TComma) (lex z)"
    "lex (41 # z) = map_option ((#) TClose) (lex z)" "lex (32 # z) = lex z" for z
    by (simp_all add: lex_step_def lex.simps(2) symbol_simps)
  have l3: "lex (e @ 41 # r) = map_option ((@) ts) (lex (41 # r))" by (rule lexesD [OF e]) simp
  show "lex ((f @ 40 # 34 # s @ 34 # 44 # 32 # e @ [41]) @ r) = map_option ((@) ([TId f, TOpen, TStr s, TComma] @ ts @ [TClose])) (lex r)"
    using l1 l2 l3 lex_string [OF s, of "44 # 32 # e @ 41 # r"] by (cases "lex r") simp_all
qed

section \<open>Parsing pieces\<close>

text \<open>How strongly a token that follows an expression binds; an expression of a level ends before weaker tokens.\<close>

fun strength :: "token \<Rightarrow> nat" where
  "strength TColon = 0" | "strength TClose = 0" | "strength TComma = 0" | "strength TQuest = 1" | "strength TAnd = 2"
| "strength TLess = 3" | "strength TLessEq = 3" | "strength TGreater = 3" | "strength TGreaterEq = 3"
| "strength TAdd = 4" | "strength TMinus = 4" | "strength TMul = 5" | "strength _ = 6"

definition ends :: "nat \<Rightarrow> token list \<Rightarrow> bool" where
  "ends k r \<longleftrightarrow> r = [] \<or> strength (hd r) \<le> k"

lemma ends_mono: "ends j r \<Longrightarrow> j \<le> k \<Longrightarrow> ends k r"
  by (auto simp: ends_def)

lemma ends_Nil [simp]: "ends k []"
  by (simp add: ends_def)

lemma ends_Cons [simp]: "ends k (tok # r) \<longleftrightarrow> strength tok \<le> k"
  by (simp add: ends_def)

fun level_ends :: "level \<Rightarrow> nat" where
  "level_ends LCond = 0" | "level_ends LAnd = 1" | "level_ends LCmp = 2" | "level_ends LAdd = 3" | "level_ends LMul = 4" | "level_ends _ = 5"

definition parses :: "level \<Rightarrow> token list \<Rightarrow> jsexpr \<Rightarrow> bool" where
  "parses l ts e \<longleftrightarrow> ts \<noteq> [] \<and> (\<forall>r. ends (level_ends l) r \<longrightarrow> parse l (ts @ r) = Some (e, r))"

lemma parsesI: "ts \<noteq> [] \<Longrightarrow> (\<And>r. ends (level_ends l) r \<Longrightarrow> parse l (ts @ r) = Some (e, r)) \<Longrightarrow> parses l ts e"
  by (simp add: parses_def)

lemma parsesD: "parses l ts e \<Longrightarrow> ends (level_ends l) r \<Longrightarrow> parse l (ts @ r) = Some (e, r)"
  by (simp add: parses_def)

lemma parses_ne: "parses l ts e \<Longrightarrow> ts \<noteq> []"
  by (simp add: parses_def)

lemma parses_all: "parses LCond ts e \<Longrightarrow> parse LCond ts = Some (e, [])"
  using parsesD [of LCond ts e "[]"] by simp

lemma rest_stop:
  "ends 4 r \<Longrightarrow> parse (LMulRest a) r = Some (a, r)"
  "ends 3 r \<Longrightarrow> parse (LAddRest a) r = Some (a, r)"
  "ends 2 r \<Longrightarrow> parse (LCmpRest a) r = Some (a, r)"
  "ends 1 r \<Longrightarrow> parse (LAndRest a) r = Some (a, r)"
proof -
  show "parse (LMulRest a) r = Some (a, r)" if "ends 4 r"
    using that unfolding parse.simps(9) [of a r] by (cases r; cases "hd r") simp_all
  show "parse (LAddRest a) r = Some (a, r)" if "ends 3 r"
    using that unfolding parse.simps(7) [of a r] by (cases r; cases "hd r") simp_all
  show "parse (LCmpRest a) r = Some (a, r)" if "ends 2 r"
    using that unfolding parse.simps(5) [of a r] by (cases r; cases "hd r") simp_all
  show "parse (LAndRest a) r = Some (a, r)" if "ends 1 r"
    using that unfolding parse.simps(3) [of a r] by (cases r; cases "hd r") simp_all
qed

lemma parse_level:
  "parse LUnary ts = Some (e, r) \<Longrightarrow> length r < length ts \<Longrightarrow> parse LMul ts = parse (LMulRest e) r"
  "parse LMul ts = Some (e, r) \<Longrightarrow> length r < length ts \<Longrightarrow> parse LAdd ts = parse (LAddRest e) r"
  "parse LAdd ts = Some (e, r) \<Longrightarrow> length r < length ts \<Longrightarrow> parse LCmp ts = parse (LCmpRest e) r"
  "parse LCmp ts = Some (e, r) \<Longrightarrow> length r < length ts \<Longrightarrow> parse LAnd ts = parse (LAndRest e) r"
  by (simp_all add: parse.simps(8) [of ts] parse.simps(6) [of ts] parse.simps(4) [of ts] parse.simps(2) [of ts])

lemma parses_lift:
  assumes a: "parses l ts e" and le: "level_ends k \<le> level_ends l"
    and step: "\<And>r. parse l (ts @ r) = Some (e, r) \<Longrightarrow> length r < length (ts @ r) \<Longrightarrow> ends (level_ends k) r \<Longrightarrow> parse k (ts @ r) = Some (e, r)"
  shows "parses k ts e"
proof (rule parsesI [OF parses_ne [OF a]])
  fix r assume r: "ends (level_ends k) r"
  show "parse k (ts @ r) = Some (e, r)"
    using parsesD [OF a ends_mono [OF r le]] parses_ne [OF a] r by (intro step) auto
qed

lemma parses_up:
  "parses LUnary ts e \<Longrightarrow> parses LMul ts e"
  "parses LMul ts e \<Longrightarrow> parses LAdd ts e"
  "parses LAdd ts e \<Longrightarrow> parses LCmp ts e"
  "parses LCmp ts e \<Longrightarrow> parses LAnd ts e"
  "parses LAnd ts e \<Longrightarrow> parses LCond ts e"
proof -
  show "parses LUnary ts e \<Longrightarrow> parses LMul ts e"
    by (erule parses_lift) (simp_all add: parse_level(1) rest_stop(1))
  show "parses LMul ts e \<Longrightarrow> parses LAdd ts e"
    by (erule parses_lift) (simp_all add: parse_level(2) rest_stop(2))
  show "parses LAdd ts e \<Longrightarrow> parses LCmp ts e"
    by (erule parses_lift) (simp_all add: parse_level(3) rest_stop(3))
  show "parses LCmp ts e \<Longrightarrow> parses LAnd ts e"
    by (erule parses_lift) (simp_all add: parse_level(4) rest_stop(4))
  show "parses LAnd ts e \<Longrightarrow> parses LCond ts e"
  proof (erule parses_lift)
    fix r assume "parse LAnd (ts @ r) = Some (e, r)" and "ends (level_ends LCond) r"
    then show "parse LCond (ts @ r) = Some (e, r)"
      unfolding parse.simps(1) [of "ts @ r"] by (cases r; cases "hd r") simp_all
  qed simp
qed

lemma parses_var: "parses LUnary [TId x] (EVar x)"
  by (rule parsesI) (auto simp: parse.simps(10) ends_def split: list.splits token.splits)

definition num_expr :: "jsnum \<Rightarrow> jsexpr" where
  "num_expr n = (if hd (number_to_string n) = 45 then ENeg (ENum (num_neg n)) else ENum n)"

lemma parses_num: "parses LUnary (num_toks n) (num_expr n)"
  by (rule parsesI) (auto simp: num_toks_def num_expr_def parse.simps(10))

lemma parses_mul:
  assumes "parses LUnary ts a" and "parses LUnary us b"
  shows "parses LMul (ts @ TMul # us) (EMul a b)"
proof (rule parsesI)
  fix r assume r: "ends (level_ends LMul) r"
  have "parse LUnary (ts @ TMul # us @ r) = Some (a, TMul # us @ r)" using parsesD [OF assms(1)] by simp
  moreover have "parse LUnary (us @ r) = Some (b, r)" using parsesD [OF assms(2)] r by (auto simp: ends_def)
  then have "parse (LMulRest a) (TMul # us @ r) = Some (EMul a b, r)"
    using r rest_stop(1) by (simp add: parse.simps(9) [of a])
  ultimately show "parse LMul ((ts @ TMul # us) @ r) = Some (EMul a b, r)"
    using parses_ne [OF assms(1)] by (cases ts) (simp_all add: parse.simps(8))
qed (use parses_ne [OF assms(1)] in simp)

text \<open>Left-associative chains of additions and of conjunctions.\<close>

lemma parse_add_rest:
  assumes "list_all2 (parses LMul) tss es" and "ends 3 r"
  shows "parse (LAddRest a) (concat (map ((#) TAdd) tss) @ r) = Some (foldl EAdd a es, r)"
  using assms(1)
proof (induction tss arbitrary: a es)
  case Nil
  then show ?case using assms(2) rest_stop(2) by simp
next
  case (Cons ts tss)
  then obtain e es' where e: "es = e # es'" "parses LMul ts e" "list_all2 (parses LMul) tss es'"
    by (auto simp: list_all2_Cons1)
  let ?r = "concat (map ((#) TAdd) tss) @ r"
  have "ends 4 ?r" using assms(2) by (cases tss) (auto intro: ends_mono)
  then have "parse LMul (ts @ ?r) = Some (e, ?r)" using parsesD [OF e(2)] by simp
  then have "parse (LAddRest a) (TAdd # ts @ ?r) = parse (LAddRest (EAdd a e)) ?r"
    by (simp add: parse.simps(7) [of a])
  then show ?case using Cons.IH [OF e(3)] e(1) by simp
qed

lemma parses_sum:
  assumes "list_all2 (parses LMul) (ts # tss) (e # es)"
  shows "parses LAdd (ts @ concat (map ((#) TAdd) tss)) (foldl EAdd e es)"
proof (rule parsesI)
  have a: "parses LMul ts e" "list_all2 (parses LMul) tss es" using assms by auto
  then show "ts @ concat (map ((#) TAdd) tss) \<noteq> []" using parses_ne by auto
  fix r assume r: "ends (level_ends LAdd) r"
  let ?r = "concat (map ((#) TAdd) tss) @ r"
  have "ends 4 ?r" using r by (cases tss) (auto intro: ends_mono)
  then have "parse LMul (ts @ ?r) = Some (e, ?r)" using parsesD [OF a(1)] by simp
  then show "parse LAdd ((ts @ concat (map ((#) TAdd) tss)) @ r) = Some (foldl EAdd e es, r)"
    using parse_add_rest [OF a(2)] r parses_ne [OF a(1)] by (simp add: parse.simps(6))
qed

lemma parses_cmp:
  assumes "parses LAdd ts a" and "parses LAdd us b" and "cmp_of tok = Some op"
  shows "parses LCmp (ts @ tok # us) (ECmp op a b)"
proof (rule parsesI)
  have tok: "strength tok = 3" using assms(3) by (cases tok) auto
  fix r assume r: "ends (level_ends LCmp) r"
  have "parse LAdd (ts @ tok # us @ r) = Some (a, tok # us @ r)" using parsesD [OF assms(1)] tok by simp
  moreover have "parse LAdd (us @ r) = Some (b, r)" using parsesD [OF assms(2)] r by (auto simp: ends_def)
  then have "parse (LCmpRest a) (tok # us @ r) = Some (ECmp op a b, r)"
    using r rest_stop(3) assms(3) by (simp add: parse.simps(5) [of a])
  ultimately show "parse LCmp ((ts @ tok # us) @ r) = Some (ECmp op a b, r)"
    using parses_ne [OF assms(1)] by (cases ts) (simp_all add: parse.simps(4))
qed (use parses_ne [OF assms(1)] in simp)

lemma parse_and_rest:
  assumes "list_all2 (parses LCmp) tss es" and "ends 1 r"
  shows "parse (LAndRest a) (concat (map ((#) TAnd) tss) @ r) = Some (foldl EAnd a es, r)"
  using assms(1)
proof (induction tss arbitrary: a es)
  case Nil
  then show ?case using assms(2) rest_stop(4) by simp
next
  case (Cons ts tss)
  then obtain e es' where e: "es = e # es'" "parses LCmp ts e" "list_all2 (parses LCmp) tss es'"
    by (auto simp: list_all2_Cons1)
  let ?r = "concat (map ((#) TAnd) tss) @ r"
  have "ends 2 ?r" using assms(2) by (cases tss) (auto intro: ends_mono)
  then have "parse LCmp (ts @ ?r) = Some (e, ?r)" using parsesD [OF e(2)] by simp
  then have "parse (LAndRest a) (TAnd # ts @ ?r) = parse (LAndRest (EAnd a e)) ?r"
    by (simp add: parse.simps(3) [of a])
  then show ?case using Cons.IH [OF e(3)] e(1) by simp
qed

lemma parses_conj:
  assumes "list_all2 (parses LCmp) (ts # tss) (e # es)"
  shows "parses LAnd (ts @ concat (map ((#) TAnd) tss)) (foldl EAnd e es)"
proof (rule parsesI)
  have a: "parses LCmp ts e" "list_all2 (parses LCmp) tss es" using assms by auto
  then show "ts @ concat (map ((#) TAnd) tss) \<noteq> []" using parses_ne by auto
  fix r assume r: "ends (level_ends LAnd) r"
  let ?r = "concat (map ((#) TAnd) tss) @ r"
  have "ends 2 ?r" using r by (cases tss) (auto intro: ends_mono)
  then have "parse LCmp (ts @ ?r) = Some (e, ?r)" using parsesD [OF a(1)] by simp
  then show "parse LAnd ((ts @ concat (map ((#) TAnd) tss)) @ r) = Some (foldl EAnd e es, r)"
    using parse_and_rest [OF a(2)] r parses_ne [OF a(1)] by (simp add: parse.simps(2))
qed

lemma parses_cond:
  assumes "parses LAnd cs c" and "parses LCond ts a" and "parses LCond us b"
  shows "parses LCond (cs @ TQuest # ts @ TColon # us) (ECond c a b)"
proof (rule parsesI)
  fix r assume r: "ends (level_ends LCond) r"
  have "parse LAnd (cs @ TQuest # ts @ TColon # us @ r) = Some (c, TQuest # ts @ TColon # us @ r)" using parsesD [OF assms(1)] by simp
  moreover have "parse LCond (ts @ TColon # us @ r) = Some (a, TColon # us @ r)" using parsesD [OF assms(2)] by simp
  moreover have "parse LCond (us @ r) = Some (b, r)" using parsesD [OF assms(3)] r by simp
  ultimately show "parse LCond ((cs @ TQuest # ts @ TColon # us) @ r) = Some (ECond c a b, r)"
    using parses_ne [OF assms(1)] by (cases cs) (simp_all add: parse.simps(1) [of "_ # _"])
qed (use parses_ne [OF assms(1)] in simp)

lemma parses_call:
  assumes "parses LCond ts a"
  shows "parses LUnary ([TId f, TOpen, TStr s, TComma] @ ts @ [TClose]) (ECall f [EStr s, a])"
proof (rule parsesI)
  fix r assume r: "ends (level_ends LUnary) r"
  have "parses LUnary [TStr s] (EStr s)" by (rule parsesI) (auto simp: parse.simps(10))
  then have "parses LCond [TStr s] (EStr s)" by (intro parses_up)
  then have "parse LCond (TStr s # TComma # ts @ TClose # r) = Some (EStr s, TComma # ts @ TClose # r)"
    using parsesD [of LCond "[TStr s]"] by simp
  moreover have "parse LCond (ts @ TClose # r) = Some (a, TClose # r)" using parsesD [OF assms] by simp
  ultimately show "parse LUnary (([TId f, TOpen, TStr s, TComma] @ ts @ [TClose]) @ r) = Some (ECall f [EStr s, a], r)"
    by (simp add: parse.simps(10,11))
qed simp

lemma join_concat: "join [x] (ts # tss) = ts @ concat (map ((#) x) tss)"
  by (induction tss arbitrary: ts) auto

lemma parse_expr_text: "lexes s ts \<Longrightarrow> parses LCond ts e \<Longrightarrow> parse_expr s = Some e"
  using lexes_all parses_all by (simp add: parse_expr_def)

section \<open>Evaluating pieces\<close>

lemma eval_num [simp]: "eval env (num_expr n) m = Some (RNum n, m)"
  by (simp add: num_expr_def)

lemma eval_sum:
  assumes "\<And>e m. e \<in> set es \<Longrightarrow> eval env e m = Some (RNum (val e), m)" and "eval env a m = Some (RNum x, m)"
  shows "eval env (foldl EAdd a es) m = Some (RNum (foldl num_add x (map val es)), m)"
  using assms
proof (induction es arbitrary: a x)
  case (Cons e es)
  then have "eval env (EAdd a e) m = Some (RNum (num_add x (val e)), m)" by simp
  then show ?case using Cons.IH Cons.prems(1) by simp
qed simp

text \<open>A conjunction of comparisons yields a Boolean: whether all of them hold.\<close>

lemma eval_conj:
  assumes "\<And>e m. e \<in> set es \<Longrightarrow> eval env e m = Some (RBool (hold e), m)" and "eval env a m = Some (RBool b, m)"
  shows "eval env (foldl EAnd a es) m = Some (RBool (b \<and> list_all hold es), m)"
  using assms
proof (induction es arbitrary: a b)
  case (Cons e es)
  then have "eval env (EAnd a e) m = Some (RBool (b \<and> hold e), m)" by simp
  then show ?case using Cons.IH Cons.prems(1) by simp
qed simp

end
