(* ===== verification/TieredPricingEval.thy ===== *)
theory TieredPricingEval
  imports TieredPricing JsExprText JsDecimal
begin

text \<open>
  What a generated billing expression means. \<open>quote\<close> is the price list as the editor shows it: the
  first tier whose conditions all hold is charged, each kind of token at its unit cost. The text that
  \<open>generateExprFromVisualConfig\<close> writes, read and evaluated as JavaScript, computes \<open>quote\<close>.
\<close>

section \<open>The price list as a specification\<close>

definition comparison :: "jsstr \<Rightarrow> cmp_op option" where
  "comparison = map_of [(js ''<'', Lt), (js ''<='', Le), (js ''>'', Gt), (js ''>='', Ge)]"

definition cond_holds :: "(jsstr \<Rightarrow> jsnum) \<Rightarrow> tier_cond \<Rightarrow> bool" where
  "cond_holds count c = (case comparison (tc_op c) of None \<Rightarrow> False | Some op \<Rightarrow> compare op (count (tc_var c)) (js_to_number (tc_value c)))"

definition tier_applies :: "(jsstr \<Rightarrow> jsnum) \<Rightarrow> tier \<Rightarrow> bool" where
  "tier_applies count t = list_all (cond_holds count) (filter cond_complete (t_conditions t))"

definition tier_terms :: "tier \<Rightarrow> (jsstr \<times> jsnum) list" where
  "tier_terms t = (js ''c'', unit_cost t (js ''output_unit_cost''))
     # map (\<lambda>(f, x). (x, unit_cost t f)) (filter (\<lambda>(f, x). \<not> num_is_zero (unit_cost t f)) BILLING_CACHE_VAR_MAP)"

definition charge :: "(jsstr \<Rightarrow> jsnum) \<Rightarrow> tier \<Rightarrow> jsnum" where
  "charge count t =
     foldl num_add (num_mul (count (js ''p'')) (unit_cost t (js ''input_unit_cost''))) (map (\<lambda>(x, n). num_mul (count x) n) (tier_terms t))"

definition no_charge :: "(jsstr \<Rightarrow> jsnum) \<Rightarrow> jsnum" where
  "no_charge count = num_add (num_mul (count (js ''p'')) (Fin 0)) (num_mul (count (js ''c'')) (Fin 0))"

definition tier_name :: "nat \<Rightarrow> tier \<Rightarrow> jsstr" where
  "tier_name i t = (if t_label t = [] then nth_label (i + 1) else t_label t)"

fun selected :: "(jsstr \<Rightarrow> jsnum) \<Rightarrow> nat \<Rightarrow> visual_config \<Rightarrow> jsnum \<times> jsstr" where
  "selected count i [] = (no_charge count, [])"
| "selected count i [t] = (charge count t, tier_name i t)"
| "selected count i (t # u # ts) = (if tier_applies count t then (charge count t, tier_name i t) else selected count (i + 1) (u # ts))"

definition quote :: "(jsstr \<Rightarrow> jsnum) \<Rightarrow> visual_config \<Rightarrow> jsnum \<times> jsstr" where
  "quote count tiers =
     (case tiers of
        [t] \<Rightarrow> if tier_applies count t then (charge count t, if t_label t = [] then js ''default'' else t_label t) else (no_charge count, [])
      | _ \<Rightarrow> selected count 0 tiers)"

definition token_count :: "jsnum \<Rightarrow> jsnum \<Rightarrow> (jsstr \<Rightarrow> jsnum) \<Rightarrow> jsstr \<Rightarrow> jsnum" where
  "token_count p c extra x = (case estimator_env p c extra x of Some n \<Rightarrow> n | None \<Rightarrow> NaN)"

text \<open>
  The configurations the editor's own inputs produce: finite numbers, comparisons and
  variables of the selection lists, names that need no escape in a string literal, and a condition on
  every tier but the last.
\<close>

definition cond_ok :: "tier_cond \<Rightarrow> bool" where
  "cond_ok c \<longleftrightarrow> (if cond_complete c
     then tc_var c \<in> {js ''p'', js ''c'', js ''len''} \<and> comparison (tc_op c) \<noteq> None \<and> (case tc_value c of JNum n \<Rightarrow> binary64 n | _ \<Rightarrow> False)
     else True)"

definition cost_fields :: "jsstr list" where
  "cost_fields = [js ''input_unit_cost'', js ''output_unit_cost''] @ map fst BILLING_CACHE_VAR_MAP"

definition tier_ok :: "tier \<Rightarrow> bool" where
  "tier_ok t \<longleftrightarrow> list_all str_unit (t_label t) \<and> list_all cond_ok (t_conditions t) \<and> list_all (\<lambda>f. binary64 (unit_cost t f)) cost_fields"

definition guarded :: "visual_config \<Rightarrow> bool" where
  "guarded tiers \<longleftrightarrow> list_all (\<lambda>t. list_ex cond_complete (t_conditions t)) (butlast tiers)"

definition priced :: "visual_config \<Rightarrow> bool" where
  "priced tiers \<longleftrightarrow> list_all tier_ok tiers \<and> guarded tiers"

section \<open>Tokens and syntax of the parts\<close>

definition cost_toks :: "jsstr \<times> jsnum \<Rightarrow> token list" where
  "cost_toks = (\<lambda>(x, n). TId x # TMul # num_toks n)"

definition cost_expr :: "jsstr \<times> jsnum \<Rightarrow> jsexpr" where
  "cost_expr = (\<lambda>(x, n). EMul (EVar x) (num_expr n))"

definition first_term :: "tier \<Rightarrow> jsstr \<times> jsnum" where
  "first_term t = (js ''p'', unit_cost t (js ''input_unit_cost''))"

definition body_toks :: "(jsstr \<times> jsnum) list \<Rightarrow> token list" where
  "body_toks ps = join [TAdd] (map cost_toks ps)"

definition body_expr :: "jsstr \<times> jsnum \<Rightarrow> (jsstr \<times> jsnum) list \<Rightarrow> jsexpr" where
  "body_expr q ps = foldl EAdd (cost_expr q) (map cost_expr ps)"

definition name_ok :: "jsstr \<Rightarrow> bool" where
  "name_ok x \<longleftrightarrow> x \<noteq> [] \<and> id_start (hd x) \<and> (\<forall>c \<in> set x. id_part c)"

lemma js_signs: "js '' * '' = 32 # [42] @ [32]" "js '' + '' = 32 # [43] @ [32]" "js '' && '' = 32 # [38, 38] @ [32]"
  "js '' ? '' = 32 # [63] @ [32]" "js '' : '' = 32 # [58] @ [32]" "js '' '' = [32]" "js ''<'' = [60]" "js ''<='' = [60, 61]" "js ''>'' = [62]"
  "js ''>='' = [62, 61]"
  by (simp_all add: js_def)

lemma lexes_cost:
  assumes "name_ok x" and "json_num_ok n"
  shows "lexes (cost_part x n) (cost_toks (x, n))"
proof -
  have x: "lexes x [TId x]" using assms(1) lexes_id by (simp add: name_ok_def)
  from lexes_space [OF x lexes_space [OF lexes_symbol(1) lexes_number [OF assms(2)]]]
  show ?thesis by (simp add: cost_part_def cost_toks_def js_signs)
qed

definition terms_ok :: "(jsstr \<times> jsnum) list \<Rightarrow> bool" where
  "terms_ok ps \<longleftrightarrow> (\<forall>(x, n) \<in> set ps. name_ok x \<and> json_num_ok n)"

lemma lexes_body:
  assumes "terms_ok ps" and "ps \<noteq> []"
  shows "lexes (join (js '' + '') (map (\<lambda>(x, n). cost_part x n) ps)) (body_toks ps)"
  unfolding js_signs body_toks_def
proof (rule lexes_join [OF lexes_symbol(2)])
  show "list_all2 lexes (map (\<lambda>(x, n). cost_part x n) ps) (map cost_toks ps)"
    using assms(1) by (auto simp: list_all2_map1 list_all2_map2 list_all2_same terms_ok_def intro: lexes_cost)
qed (use assms(2) in simp)

lemma parses_body: "parses LAdd (body_toks (q # ps)) (body_expr q ps)"
proof -
  have "parses LMul (cost_toks z) (cost_expr z)" for z
    using parses_mul [OF parses_var parses_num] by (cases z) (simp add: cost_toks_def cost_expr_def)
  then have "list_all2 (parses LMul) (map cost_toks (q # ps)) (map cost_expr (q # ps))"
    by (auto simp: list_all2_map1 list_all2_map2 list_all2_same)
  then show ?thesis unfolding body_toks_def body_expr_def
    using parses_sum [of "cost_toks q" "map cost_toks ps" "cost_expr q" "map cost_expr ps"] by (simp add: join_concat)
qed

lemma eval_body:
  assumes "\<forall>(x, n) \<in> set (q # ps). env x = Some (count x)"
  shows "eval env (body_expr q ps) m
     = Some (RNum (foldl num_add (num_mul (count (fst q)) (snd q)) (map (\<lambda>(x, n). num_mul (count x) n) ps)), m)"
proof -
  define val where "val e = (case eval env e m of Some (RNum n, _) \<Rightarrow> n | _ \<Rightarrow> NaN)" for e
  have ev: "eval env (cost_expr (x, n)) k = Some (RNum (num_mul (count x) n), k)" if "(x, n) \<in> set (q # ps)" for x n k
    using assms that by (auto simp: cost_expr_def)
  then have v: "val (cost_expr (x, n)) = num_mul (count x) n" if "(x, n) \<in> set (q # ps)" for x n
    using that by (simp add: val_def)
  have "eval env (foldl EAdd (cost_expr q) (map cost_expr ps)) m
     = Some (RNum (foldl num_add (num_mul (count (fst q)) (snd q)) (map val (map cost_expr ps))), m)"
    using ev [of "fst q" "snd q"] by (intro eval_sum) (auto simp: ev v)
  moreover have "map val (map cost_expr ps) = map (\<lambda>(x, n). num_mul (count x) n) ps" using v by auto
  ultimately show ?thesis by (simp only: body_expr_def)
qed

lemma cache_vars: "map snd BILLING_CACHE_VAR_MAP = map js [''cr'', ''cc'', ''cc1h'', ''img'', ''img_o'', ''ai'', ''ao'']"
  by (simp add: BILLING_CACHE_VAR_MAP_def BILLING_EXTRA_VARS_def BILLING_VARS_def base_var_def extra_var_def)

lemma names_ok: "name_ok (js ''p'')" "name_ok (js ''c'')" "name_ok (js ''len'')" "(f, x) \<in> set BILLING_CACHE_VAR_MAP \<Longrightarrow> name_ok x"
proof -
  show "name_ok (js ''p'')" "name_ok (js ''c'')" "name_ok (js ''len'')"
    by (simp_all add: name_ok_def js_def id_start_def id_part_def)
  show "name_ok x" if "(f, x) \<in> set BILLING_CACHE_VAR_MAP"
  proof -
    have "x \<in> set (map js [''cr'', ''cc'', ''cc1h'', ''img'', ''img_o'', ''ai'', ''ao''])"
      using that unfolding cache_vars [symmetric] by force
    then show ?thesis by (auto simp: name_ok_def js_def id_start_def id_part_def is_digit_def)
  qed
qed

lemma terms_of_tier:
  assumes "tier_ok t"
  shows "terms_ok (first_term t # tier_terms t)"
    and "buildTierBodyExpr t = join (js '' + '') (map (\<lambda>(x, n). cost_part x n) (first_term t # tier_terms t))"
proof -
  have n: "json_num_ok (unit_cost t f)" if "f \<in> set cost_fields" for f
    using assms that by (auto simp: tier_ok_def list_all_iff intro: binary64_ok)
  show "terms_ok (first_term t # tier_terms t)"
    unfolding terms_ok_def
  proof (intro ballI)
    fix z assume "z \<in> set (first_term t # tier_terms t)"
    then consider "z = first_term t" | "z = (js ''c'', unit_cost t (js ''output_unit_cost''))"
      | f x where "z = (x, unit_cost t f)" "(f, x) \<in> set BILLING_CACHE_VAR_MAP"
      by (auto simp: tier_terms_def)
    then show "case z of (x, k) \<Rightarrow> name_ok x \<and> json_num_ok k"
    proof cases
      case (3 f x)
      then have "f \<in> set cost_fields" by (force simp: cost_fields_def)
      with 3 names_ok(4) n show ?thesis by simp
    qed (simp_all add: first_term_def names_ok n cost_fields_def)
  qed
  show "buildTierBodyExpr t = join (js '' + '') (map (\<lambda>(x, n). cost_part x n) (first_term t # tier_terms t))"
    by (simp add: buildTierBodyExpr_def extra_parts_def first_term_def tier_terms_def comp_def case_prod_unfold)
qed

section \<open>Conditions\<close>

definition cond_num :: "tier_cond \<Rightarrow> jsnum" where
  "cond_num c = js_to_number (tc_value c)"

definition cmp_tok :: "cmp_op \<Rightarrow> token" where
  "cmp_tok op = (case op of Lt \<Rightarrow> TLess | Le \<Rightarrow> TLessEq | Gt \<Rightarrow> TGreater | Ge \<Rightarrow> TGreaterEq)"

definition cond_cmp :: "tier_cond \<Rightarrow> cmp_op" where
  "cond_cmp c = the (comparison (tc_op c))"

definition cond_toks :: "tier_cond \<Rightarrow> token list" where
  "cond_toks c = TId (tc_var c) # cmp_tok (cond_cmp c) # num_toks (cond_num c)"

definition cond_expr :: "tier_cond \<Rightarrow> jsexpr" where
  "cond_expr c = ECmp (cond_cmp c) (EVar (tc_var c)) (num_expr (cond_num c))"

definition active :: "tier \<Rightarrow> tier_cond list" where
  "active t = filter cond_complete (t_conditions t)"

definition test_expr :: "tier_cond list \<Rightarrow> jsexpr" where
  "test_expr cs = foldl EAnd (cond_expr (hd cs)) (map cond_expr (tl cs))"

lemma active_ok:
  assumes "tier_ok t" and "c \<in> set (active t)"
  shows "tc_var c \<in> {js ''p'', js ''c'', js ''len''}" and "comparison (tc_op c) = Some (cond_cmp c)"
    and "tc_value c = JNum (cond_num c)" and "json_num_ok (cond_num c)"
proof -
  have c: "cond_ok c" "cond_complete c" using assms by (auto simp: tier_ok_def active_def list_all_iff)
  then show "tc_var c \<in> {js ''p'', js ''c'', js ''len''}" by (simp add: cond_ok_def)
  show "comparison (tc_op c) = Some (cond_cmp c)" using c by (simp add: cond_ok_def cond_cmp_def)
  show "tc_value c = JNum (cond_num c)" "json_num_ok (cond_num c)"
    using c by (cases "tc_value c"; simp add: cond_ok_def cond_num_def binary64_ok)+
qed

lemma lexes_comparison: "comparison s = Some op \<Longrightarrow> lexes s [cmp_tok op]"
  using lexes_symbol by (auto simp: comparison_def js_signs cmp_tok_def split: if_splits)

lemma cmp_of_tok [simp]: "cmp_of (cmp_tok op) = Some op"
  by (cases op) (simp_all add: cmp_tok_def)

lemma lexes_cond:
  assumes "tier_ok t" and "c \<in> set (active t)"
  shows "lexes (cond_text c) (cond_toks c)"
proof -
  note a = active_ok [OF assms]
  have x: "lexes (tc_var c) [TId (tc_var c)]" using a(1) names_ok(1-3) lexes_id by (auto simp: name_ok_def)
  have v: "js_to_string (tc_value c) = number_to_string (cond_num c)" by (simp add: a(3))
  from lexes_space [OF x lexes_space [OF lexes_comparison [OF a(2)] lexes_number [OF a(4)]]]
  show ?thesis by (simp add: cond_text_def cond_toks_def v js_signs)
qed

lemma lexes_test:
  assumes "tier_ok t" and "active t \<noteq> []"
  shows "lexes (buildConditionStr (t_conditions t)) (join [TAnd] (map cond_toks (active t)))"
  unfolding js_signs buildConditionStr_def active_def [symmetric]
proof (rule lexes_join [OF lexes_symbol(7)])
  show "list_all2 lexes (map cond_text (active t)) (map cond_toks (active t))"
    using assms(1) by (auto simp: list_all2_map1 list_all2_map2 list_all2_same intro: lexes_cond)
qed (use assms(2) in simp)

lemma parses_test:
  assumes "cs \<noteq> []"
  shows "parses LAnd (join [TAnd] (map cond_toks cs)) (test_expr cs)"
proof -
  have "parses LCmp (cond_toks c) (cond_expr c)" for c
    unfolding cond_toks_def cond_expr_def
    using parses_cmp [OF parses_up(2) [OF parses_up(1) [OF parses_var]] parses_up(2) [OF parses_up(1) [OF parses_num]]] by simp
  then have "list_all2 (parses LCmp) (map cond_toks cs) (map cond_expr cs)"
    by (auto simp: list_all2_map1 list_all2_map2 list_all2_same)
  then show ?thesis
    using assms parses_conj [of "cond_toks (hd cs)" "map cond_toks (tl cs)" "cond_expr (hd cs)" "map cond_expr (tl cs)"]
    by (cases cs) (simp_all add: test_expr_def join_concat)
qed

lemma env_token_count:
  assumes "x \<in> {js ''p'', js ''c'', js ''len''} \<or> x \<in> snd ` set BILLING_CACHE_VAR_MAP"
  shows "estimator_env p c extra x = Some (token_count p c extra x)"
  using assms by (auto simp: token_count_def estimator_env_def)

lemma eval_test:
  assumes "tier_ok t" and "active t \<noteq> []"
  shows "eval (estimator_env p c extra) (test_expr (active t)) m = Some (RBool (tier_applies (token_count p c extra) t), m)"
proof -
  let ?env = "estimator_env p c extra" and ?count = "token_count p c extra"
  define hold where "hold e = (case eval ?env e m of Some (RBool b, _) \<Rightarrow> b | _ \<Rightarrow> False)" for e
  have ev: "eval ?env (cond_expr d) k = Some (RBool (cond_holds ?count d), k)" if "d \<in> set (active t)" for d k
  proof -
    have "?env (tc_var d) = Some (?count (tc_var d))" by (rule env_token_count) (use active_ok(1) [OF assms(1) that] in blast)
    then show ?thesis using active_ok(2) [OF assms(1) that] by (simp add: cond_expr_def cond_holds_def cond_num_def)
  qed
  obtain d ds where ds: "active t = d # ds" using assms(2) by (cases "active t") auto
  have h: "hold (cond_expr e) = cond_holds ?count e" if "e \<in> set (active t)" for e using ev [OF that] by (simp add: hold_def)
  have "eval ?env (foldl EAnd (cond_expr d) (map cond_expr ds)) m
      = Some (RBool (cond_holds ?count d \<and> list_all hold (map cond_expr ds)), m)"
    by (rule eval_conj) (use ev h ds in auto)
  then show ?thesis using h ds by (simp add: test_expr_def tier_applies_def active_def [symmetric] list_all_iff)
qed

section \<open>Tiers\<close>

definition tier_toks :: "jsstr \<Rightarrow> tier \<Rightarrow> token list" where
  "tier_toks label t = [TId (js ''tier''), TOpen, TStr label, TComma] @ body_toks (first_term t # tier_terms t) @ [TClose]"

definition tier_expr :: "jsstr \<Rightarrow> tier \<Rightarrow> jsexpr" where
  "tier_expr label t = ECall (js ''tier'') [EStr label, body_expr (first_term t) (tier_terms t)]"

lemma lexes_tier:
  assumes "tier_ok t" and "\<forall>c \<in> set label. str_unit c"
  shows "lexes (tier_text label t) (tier_toks label t)"
proof -
  have f: "js ''tier'' \<noteq> []" "id_start (hd (js ''tier''))" "\<forall>c \<in> set (js ''tier''). id_part c"
    by (simp_all add: js_def id_start_def id_part_def)
  have "lexes (buildTierBodyExpr t) (body_toks (first_term t # tier_terms t))"
    unfolding terms_of_tier(2) [OF assms(1)] by (rule lexes_body) (simp_all add: terms_of_tier(1) [OF assms(1)])
  from lexes_call [OF f assms(2) this] show ?thesis
    by (simp add: tier_text_def tier_toks_def js_def)
qed

lemma parses_tier: "parses LUnary (tier_toks label t) (tier_expr label t)"
  unfolding tier_toks_def tier_expr_def by (intro parses_call parses_up(3-5) parses_body)

lemma parses_whole_tier: "parses LCond (tier_toks label t) (tier_expr label t)"
  by (intro parses_up parses_tier)

lemma eval_tier:
  "eval (estimator_env p c extra) (tier_expr label t) m = Some (RNum (charge (token_count p c extra) t), label)"
proof -
  have "\<forall>(x, n) \<in> set (first_term t # tier_terms t). estimator_env p c extra x = Some (token_count p c extra x)"
    by (auto simp: first_term_def tier_terms_def intro!: env_token_count) force
  from eval_body [OF this] show ?thesis by (simp add: tier_expr_def charge_def first_term_def)
qed

lemma tier_name_units:
  assumes "tier_ok t"
  shows "\<forall>c \<in> set (tier_name i t). str_unit c"
proof (cases "t_label t = []")
  case True
  have "\<forall>c \<in> set (show_nat (int (i + 1))). is_digit c" using show_nat_digits [of "int (i + 1)"] by auto
  then have "\<forall>c \<in> set (show_nat (int (i + 1))). str_unit c" by (auto simp: is_digit_def str_unit_def)
  then show ?thesis unfolding tier_name_def nth_label_def using True by (simp add: str_unit_def del: of_nat_add)
next
  case False
  then show ?thesis using assms by (simp add: tier_name_def tier_ok_def list_all_iff)
qed

section \<open>The chain of tiers\<close>

fun part_toks :: "nat \<Rightarrow> visual_config \<Rightarrow> token list list" where
  "part_toks i [] = []"
| "part_toks i (t # ts) =
     (let body = tier_toks (tier_name i t) t
      in (if ts \<noteq> [] \<and> active t \<noteq> [] then join [TAnd] (map cond_toks (active t)) @ TQuest # body else body) # part_toks (i + 1) ts)"

fun chain_expr :: "nat \<Rightarrow> visual_config \<Rightarrow> jsexpr" where
  "chain_expr i [] = ENum (Fin 0)"
| "chain_expr i [t] = tier_expr (tier_name i t) t"
| "chain_expr i (t # u # ts) = ECond (test_expr (active t)) (tier_expr (tier_name i t) t) (chain_expr (i + 1) (u # ts))"

lemma active_iff: "active t \<noteq> [] \<longleftrightarrow> list_ex cond_complete (t_conditions t)"
  by (auto simp: active_def list_ex_iff filter_empty_conv)

lemma buildConditionStr_ne: "tier_ok t \<Longrightarrow> active t \<noteq> [] \<Longrightarrow> buildConditionStr (t_conditions t) \<noteq> []"
  by (cases "active t"; cases "tl (active t)")
     (auto simp: buildConditionStr_def active_def [symmetric] cond_text_def)

lemma lexes_parts:
  assumes "list_all tier_ok tiers"
  shows "list_all2 lexes (tier_parts i tiers) (part_toks i tiers)"
  using assms
proof (induction i tiers rule: tier_parts.induct)
  case (2 i t ts)
  have ok: "tier_ok t" using 2 by simp
  note body = lexes_tier [OF ok tier_name_units [OF ok]]
  have rest: "list_all2 lexes (tier_parts (i + 1) ts) (part_toks (i + 1) ts)" using 2 by auto
  show ?case
  proof (cases "ts = [] \<or> active t = []")
    case True
    then have "ts = [] \<or> buildConditionStr (t_conditions t) = []" by (auto simp: buildConditionStr_def active_def)
    with body rest True show ?thesis by (auto simp: Let_def tier_name_def)
  next
    case False
    then have a: "active t \<noteq> []" "ts \<noteq> []" by auto
    from lexes_space [OF lexes_test [OF ok a(1)] lexes_space [OF lexes_symbol(8) body]] show ?thesis
      using a rest buildConditionStr_ne [OF ok a(1)] by (simp add: Let_def tier_name_def js_signs)
  qed
qed simp

lemma parses_chain:
  assumes "tiers \<noteq> []" and "\<forall>t \<in> set (butlast tiers). active t \<noteq> []"
  shows "parses LCond (join [TColon] (part_toks i tiers)) (chain_expr i tiers)"
  using assms
proof (induction i tiers rule: chain_expr.induct)
  case (2 i t)
  then show ?case using parses_whole_tier by simp
next
  case (3 i t u ts)
  then have "parses LCond (join [TColon] (part_toks (i + 1) (u # ts))) (chain_expr (i + 1) (u # ts))" by simp
  moreover have "parses LAnd (join [TAnd] (map cond_toks (active t))) (test_expr (active t))"
    using 3 by (intro parses_test) simp
  moreover have "active t \<noteq> []" using 3 by simp
  ultimately show ?case using parses_cond [OF _ parses_whole_tier] by (simp add: Let_def)
qed simp

lemma eval_chain:
  assumes "tiers \<noteq> []" and "list_all tier_ok tiers" and "\<forall>t \<in> set (butlast tiers). active t \<noteq> []"
  shows "eval (estimator_env p c extra) (chain_expr i tiers) m
     = Some (RNum (fst (selected (token_count p c extra) i tiers)), snd (selected (token_count p c extra) i tiers))"
  using assms
proof (induction i tiers rule: chain_expr.induct)
  case (3 i t u ts)
  then have a: "tier_ok t" "active t \<noteq> []" by auto
  show ?case using 3 eval_test [OF a] by (simp add: eval_tier)
qed (simp_all add: eval_tier)

section \<open>The expression as a whole\<close>

definition no_terms :: "(jsstr \<times> jsnum) list" where
  "no_terms = [(js ''p'', Fin 0), (js ''c'', Fin 0)]"

lemma zero_lexes: "lexes zero_expr (body_toks no_terms)"
proof -
  have "zero_expr = join (js '' + '') (map (\<lambda>(x, n). cost_part x n) no_terms)"
    by (simp add: zero_expr_def no_terms_def cost_part_def js_def)
  then show ?thesis using lexes_body [of no_terms] names_ok by (simp add: terms_ok_def no_terms_def)
qed

lemma zero_parse: "parses LCond (body_toks no_terms) (body_expr (js ''p'', Fin 0) [(js ''c'', Fin 0)])"
  unfolding no_terms_def by (intro parses_up(3-5) parses_body)

lemma zero_eval:
  "eval (estimator_env p c extra) (body_expr (js ''p'', Fin 0) [(js ''c'', Fin 0)]) m = Some (RNum (no_charge (token_count p c extra)), m)"
  using eval_body [of "(js ''p'', Fin 0)" "[(js ''c'', Fin 0)]" "estimator_env p c extra" "token_count p c extra" m]
  by (simp add: no_charge_def env_token_count)

lemma evaluates:
  assumes "lexes s ts" and "parses LCond ts e" and "eval (estimator_env p c extra) e [] = Some (RNum n, l)"
  shows "evalExprLocally s p c extra = Some (RNum n, l)"
  using parse_expr_text [OF assms(1,2)] assms(3) by (simp add: evalExprLocally_def)

lemma single_tier_charges:
  assumes "tier_ok t"
  shows "evalExprLocally (generateExprFromVisualConfig (Some [t])) p c extra
     = Some (RNum (fst (quote (token_count p c extra) [t])), snd (quote (token_count p c extra) [t]))"
proof -
  define l where "l = (if t_label t = [] then js ''default'' else t_label t)"
  have l: "\<forall>c \<in> set l. str_unit c" using assms by (auto simp: l_def tier_ok_def list_all_iff js_def str_unit_def)
  note body = lexes_tier [OF assms l]
  show ?thesis
  proof (cases "active t = []")
    case True
    then have "buildConditionStr (t_conditions t) = []" by (simp add: buildConditionStr_def active_def)
    moreover have "tier_applies (token_count p c extra) t" using True by (simp add: tier_applies_def active_def)
    ultimately show ?thesis
      using evaluates [OF body parses_whole_tier eval_tier] by (simp add: generateExprFromVisualConfig_def quote_def Let_def l_def)
  next
    case False
    let ?c = "buildConditionStr (t_conditions t)"
    note written = lexes_space [OF lexes_test [OF assms False] lexes_space [OF lexes_symbol(8) lexes_space [OF body lexes_space [OF lexes_symbol(9) zero_lexes]]]]
    have g: "generateExprFromVisualConfig (Some [t]) = ?c @ 32 # [63] @ 32 # tier_text l t @ 32 # [58] @ 32 # zero_expr"
      using buildConditionStr_ne [OF assms False] by (simp add: generateExprFromVisualConfig_def Let_def js_signs l_def)
    have "parses LCond (join [TAnd] (map cond_toks (active t)) @ [TQuest] @ tier_toks l t @ [TColon] @ body_toks no_terms)
        (ECond (test_expr (active t)) (tier_expr l t) (body_expr (js ''p'', Fin 0) [(js ''c'', Fin 0)]))"
      using parses_cond [OF parses_test [OF False] parses_whole_tier zero_parse] by simp
    from evaluates [OF written this] show ?thesis unfolding g
      using eval_test [OF assms False] by (simp add: eval_tier zero_eval quote_def l_def)
  qed
qed

lemma lexes_several:
  assumes "list_all tier_ok (t # u # ts)"
  shows "lexes (generateExprFromVisualConfig (Some (t # u # ts))) (join [TColon] (part_toks 0 (t # u # ts)))"
proof -
  have "lexes (join (js '' : '') (tier_parts 0 (t # u # ts))) (join [TColon] (part_toks 0 (t # u # ts)))"
    unfolding js_signs using lexes_parts [OF assms] by (intro lexes_join [OF lexes_symbol(9)]) (auto simp: Let_def)
  then show ?thesis by (simp add: generateExprFromVisualConfig_def)
qed

lemma generated_charges:
  assumes "priced tiers" and "tiers \<noteq> []"
  shows "evalExprLocally (generateExprFromVisualConfig (Some tiers)) p c extra
     = Some (RNum (fst (quote (token_count p c extra) tiers)), snd (quote (token_count p c extra) tiers))"
proof (cases "\<exists>t. tiers = [t]")
  case True
  then show ?thesis using single_tier_charges assms(1) by (auto simp: priced_def)
next
  case False
  then obtain t u ts where t: "tiers = t # u # ts" using assms(2) by (metis neq_Nil_conv)
  have ok: "list_all tier_ok tiers" "\<forall>t \<in> set (butlast tiers). active t \<noteq> []"
    using assms(1) by (auto simp: priced_def guarded_def active_iff list_all_iff)
  have "lexes (generateExprFromVisualConfig (Some tiers)) (join [TColon] (part_toks 0 tiers))" unfolding t by (rule lexes_several) (use ok t in simp)
  moreover have "quote (token_count p c extra) tiers = selected (token_count p c extra) 0 tiers" by (simp add: quote_def t)
  ultimately show ?thesis
    using evaluates [OF _ parses_chain [OF assms(2) ok(2)] eval_chain [OF assms(2) ok]] by simp
qed

text \<open>
  C1: the expression text that the editor generates for a list of tiers computes the price list: for every
  token count, parsing and evaluating it gives the charge and the name of the first tier whose conditions
  hold (of the last tier when none does; nothing when a single conditional tier does not apply).
\<close>

theorem generated_expr_charges:
  assumes "priced tiers" and "tiers \<noteq> []"
  shows "evalExprLocally (generateExprFromVisualConfig (Some tiers)) p c extra
     = Some (RNum (fst (quote (token_count p c extra) tiers)), snd (quote (token_count p c extra) tiers))"
  using assms by (rule generated_charges)

definition sample_tiers :: visual_config where
  "sample_tiers =
     [\<lparr>t_conditions = [default_condition], t_costs = (base_costs (JNum (Fin 3)) (JNum (Fin 15)))(js ''cache_read_unit_cost'' \<mapsto> JNum (Fin 1)),
        t_label = js ''standard'', t_cache_mode = Some Generic\<rparr>,
      \<lparr>t_conditions = [], t_costs = base_costs (JNum (Fin 6)) (JNum (Fin 22)), t_label = [], t_cache_mode = Some Generic\<rparr>]"

lemmas billing_defs = BILLING_CACHE_VAR_MAP_def BILLING_EXTRA_VARS_def BILLING_VARS_def base_var_def extra_var_def

lemma sample_tiers_priced: "priced sample_tiers"
proof -
  have c: "cond_complete default_condition" by (simp add: cond_complete_def default_condition_def)
  moreover have "cond_ok default_condition"
    unfolding cond_ok_def by (simp add: default_condition_def comparison_def binary64_numeral)
  moreover have "binary64 (Fin 1)" using binary64_int [of 1] by simp
  ultimately show ?thesis
    by (simp add: priced_def guarded_def sample_tiers_def tier_ok_def cost_fields_def billing_defs unit_cost_def
        cost_field_def base_costs_def number_or_zero_def num_is_zero_def binary64_numeral Let_def)
       (simp add: js_def str_unit_def)
qed

theorem generated_expr_charges_witness:
  "evalExprLocally (generateExprFromVisualConfig (Some sample_tiers)) (Fin 10) (Fin 2) (\<lambda>x. Fin (if x = js ''cr'' then 4 else 0))
     = Some (RNum (Fin 64), js ''standard'')"
proof -
  have r: "rnd 30 = Fin 30" "rnd 4 = Fin 4" "rnd 60 = Fin 60" "rnd 64 = Fin 64" "rnd 14 = Fin 14" "rnd 10 = Fin 10"
    using rnd_of_int [of 30] rnd_of_int [of 4] rnd_of_int [of 60] rnd_of_int [of 64] rnd_of_int [of 14] rnd_of_int [of 10] by simp_all
  have "quote (token_count (Fin 10) (Fin 2) (\<lambda>x. Fin (if x = js ''cr'' then 4 else 0))) sample_tiers = (Fin 64, js ''standard'')"
    by (simp add: quote_def sample_tiers_def tier_applies_def default_condition_def cond_complete_def cond_holds_def comparison_def
        token_count_def estimator_env_def count_or_zero_def num_is_zero_def charge_def tier_terms_def billing_defs unit_cost_def cost_field_def
        base_costs_def number_or_zero_def num_mul_def num_add_def tier_name_def r Let_def)
  then show ?thesis using generated_expr_charges [OF sample_tiers_priced] by (simp add: sample_tiers_def)
qed

section \<open>Tiers without a condition\<close>

text \<open>An expression whose first unconditional tier is not the last one ends before the colon after that tier.\<close>

lemma unguarded_stops:
  assumes "\<exists>t \<in> set (butlast tiers). active t = []"
  shows "\<exists>e r. parse LCond (join [TColon] (part_toks i tiers)) = Some (e, TColon # r)"
  using assms
proof (induction i tiers rule: chain_expr.induct)
  case (3 i t u ts)
  let ?rest = "join [TColon] (part_toks (i + 1) (u # ts))" and ?body = "tier_toks (tier_name i t) t"
  have body: "parse LCond (?body @ TColon # ?rest) = Some (tier_expr (tier_name i t) t, TColon # ?rest)"
    by (rule parsesD [OF parses_whole_tier]) simp
  show ?case
  proof (cases "active t = []")
    case True
    then show ?thesis using body by (simp add: Let_def)
  next
    case False
    let ?c = "join [TAnd] (map cond_toks (active t))"
    obtain e r where e: "parse LCond ?rest = Some (e, TColon # r)" using 3 False by auto
    have "parse LAnd (?c @ TQuest # ?body @ TColon # ?rest) = Some (test_expr (active t), TQuest # ?body @ TColon # ?rest)"
      by (rule parsesD [OF parses_test [OF False]]) simp
    then have "parse LCond (?c @ TQuest # ?body @ TColon # ?rest) = Some (ECond (test_expr (active t)) (tier_expr (tier_name i t) t) e, TColon # r)"
      using e body parses_ne [OF parses_test [OF False]] by (simp add: parse.simps(1) [of "_ @ _"])
    then show ?thesis using False by (simp add: Let_def)
  qed
qed simp_all

text \<open>
  C24: the text of several tiers is an expression exactly when every tier but the last has a complete condition; the
  editor lets conditions be removed from any tier and hands on the text it generates all the same.
\<close>

theorem generated_expr_valid_iff:
  assumes "list_all tier_ok tiers" and "tiers \<noteq> []"
  shows "parse_expr (generateExprFromVisualConfig (Some tiers)) \<noteq> None \<longleftrightarrow> guarded tiers"
proof (cases "guarded tiers")
  case True
  then have "priced tiers" using assms(1) by (simp add: priced_def)
  from generated_charges [OF this assms(2)] show ?thesis
    using True by (cases "parse_expr (generateExprFromVisualConfig (Some tiers))") (simp_all add: evalExprLocally_def)
next
  case False
  then have u: "\<exists>t \<in> set (butlast tiers). active t = []" by (auto simp: guarded_def active_iff list_all_iff list_ex_iff active_def filter_empty_conv)
  obtain t v ts where t: "tiers = t # v # ts" using u by (metis assms(2) butlast.simps(2) empty_iff empty_set neq_Nil_conv)
  have "lex (generateExprFromVisualConfig (Some tiers)) = Some (join [TColon] (part_toks 0 tiers))"
    using lexes_all [OF lexes_several] assms(1) unfolding t by blast
  then show ?thesis using unguarded_stops [OF u, of 0] False by (auto simp: parse_expr_def)
qed

theorem generated_expr_valid_iff_witness:
  "parse_expr (generateExprFromVisualConfig (Some sample_tiers)) \<noteq> None
   \<and> parse_expr (generateExprFromVisualConfig (Some (rev sample_tiers))) = None"
proof -
  have "list_all tier_ok sample_tiers" "guarded sample_tiers" using sample_tiers_priced by (auto simp: priced_def)
  moreover have "list_all tier_ok (rev sample_tiers)" "\<not> guarded (rev sample_tiers)" "sample_tiers \<noteq> []"
    using calculation(1) by (simp_all add: sample_tiers_def guarded_def)
  ultimately show ?thesis using generated_expr_valid_iff [of sample_tiers] generated_expr_valid_iff [of "rev sample_tiers"] by simp
qed

end
