(* ===== verification/RegexPath.thy ===== *)
theory RegexPath
  imports JsRegex
begin

text \<open>
  Matching along the preferred path. \<open>reads r D w g\<close> says that \<open>r\<close>, on a text that begins with \<open>w\<close> and goes
  on as \<open>D\<close> allows, first matches exactly \<open>w\<close> and sets the groups in \<open>g\<close>. Since a backtracking
  matcher returns the first match, such facts compose along a sequence, whatever other matches
  the parts may have.
\<close>

definition rx_first :: "regex \<Rightarrow> rx_state \<Rightarrow> rx_state \<Rightarrow> bool" where
  "rx_first r st st' \<longleftrightarrow> (\<exists>tl. rx_match r st = st' # tl)"

definition reads :: "regex \<Rightarrow> (jsstr \<Rightarrow> bool) \<Rightarrow> jsstr \<Rightarrow> (nat \<rightharpoonup> jsstr) \<Rightarrow> bool" where
  "reads r D w g \<longleftrightarrow> (\<forall>rest c. D rest \<longrightarrow> (\<exists>c'. rx_first r (w @ rest, c) (rest, c') \<and> map_of c' = map_of c ++ g))"

lemma readsI: "(\<And>rest c. D rest \<Longrightarrow> \<exists>c'. rx_first r (w @ rest, c) (rest, c') \<and> map_of c' = map_of c ++ g) \<Longrightarrow> reads r D w g"
  by (simp add: reads_def)

lemma readsE:
  assumes "reads r D w g" and "D rest"
  obtains c' where "rx_first r (w @ rest, c) (rest, c')" and "map_of c' = map_of c ++ g"
  using assms by (auto simp: reads_def)

lemma reads_weaken: "reads r D w g \<Longrightarrow> (\<And>rest. E rest \<Longrightarrow> D rest) \<Longrightarrow> reads r E w g"
  by (simp add: reads_def)

lemma first_seq: "rx_first r st st1 \<Longrightarrow> rx_first t st1 st2 \<Longrightarrow> rx_first (RSeq r t) st st2"
  by (auto simp: rx_first_def)

lemma first_fails: "rx_first r st st' \<Longrightarrow> rx_match r st \<noteq> []"
  by (auto simp: rx_first_def)

lemma reads_seq:
  assumes "reads r D v g" and "reads t E w h" and "\<And>rest. E rest \<Longrightarrow> D (w @ rest)"
  shows "reads (RSeq r t) E (v @ w) (g ++ h)"
proof (rule readsI)
  fix rest c assume e: "E rest"
  obtain c1 where c1: "rx_first r (v @ w @ rest, c) (w @ rest, c1)" "map_of c1 = map_of c ++ g"
    using readsE [OF assms(1) assms(3) [OF e]] by metis
  obtain c2 where c2: "rx_first t (w @ rest, c1) (rest, c2)" "map_of c2 = map_of c1 ++ h"
    using readsE [OF assms(2) e] by metis
  have "rx_first (RSeq r t) ((v @ w) @ rest, c) (rest, c2)" using first_seq [OF c1(1) c2(1)] by simp
  then show "\<exists>c'. rx_first (RSeq r t) ((v @ w) @ rest, c) (rest, c') \<and> map_of c' = map_of c ++ (g ++ h)"
    using c1(2) c2(2) by auto
qed

lemma seq_cong: "(\<And>st. rx_match t st = rx_match u st) \<Longrightarrow> rx_match (RSeq r t) st = rx_match (RSeq r u) st"
  unfolding rx_match.simps(3) by (rule arg_cong [where f = concat], rule map_cong) simp_all

lemma seq_assoc: "rx_match (RSeq (RSeq a b) k) st = rx_match (RSeq a (RSeq b k)) st"
proof -
  have "concat (map f (concat (map g xs))) = concat (map (\<lambda>x. concat (map f (g x))) xs)"
    for f :: "rx_state \<Rightarrow> rx_state list" and g and xs :: "rx_state list" by (induction xs) simp_all
  moreover have "rx_match (RSeq b k) = (\<lambda>x. concat (map (rx_match k) (rx_match b x)))" by (rule ext) simp
  ultimately show ?thesis by (simp only: rx_match.simps(3))
qed

lemma rx_seq_Cons: "rs \<noteq> [] \<Longrightarrow> rx_seq (r # rs) = RSeq r (rx_seq rs)"
  by (cases rs) simp_all

lemma rx_seq_append:
  assumes "rs \<noteq> []" and "ts \<noteq> []"
  shows "rx_match (rx_seq (rs @ ts)) st = rx_match (RSeq (rx_seq rs) (rx_seq ts)) st"
  using assms(1)
proof (induction rs arbitrary: st)
  case (Cons r rs)
  show ?case
  proof (cases "rs = []")
    case True
    then show ?thesis using assms(2) by (simp add: rx_seq_Cons)
  next
    case False
    have "rx_match (rx_seq ((r # rs) @ ts)) st = rx_match (RSeq r (rx_seq (rs @ ts))) st" using False by (simp add: rx_seq_Cons)
    also have "\<dots> = rx_match (RSeq r (RSeq (rx_seq rs) (rx_seq ts))) st" by (rule seq_cong) (rule Cons.IH [OF False])
    also have "\<dots> = rx_match (RSeq (rx_seq (r # rs)) (rx_seq ts)) st" using False seq_assoc [of r] by (simp only: rx_seq_Cons not_False_eq_True)
    finally show ?thesis .
  qed
qed simp

text \<open>Sequences of patterns.\<close>

lemma reads_append:
  assumes "reads (rx_seq rs) D v g" and "reads (rx_seq ts) E w h" and "\<And>rest. E rest \<Longrightarrow> D (w @ rest)" and "rs \<noteq> []" and "ts \<noteq> []"
  shows "reads (rx_seq (rs @ ts)) E (v @ w) (g ++ h)"
  using reads_seq [OF assms(1-3)] by (simp add: reads_def rx_first_def rx_seq_append [OF assms(4,5)])

lemma reads_Cons:
  assumes "reads r D v g" and "reads (rx_seq ts) E w h" and "\<And>rest. E rest \<Longrightarrow> D (w @ rest)" and "ts \<noteq> []"
  shows "reads (rx_seq (r # ts)) E (v @ w) (g ++ h)"
  using reads_seq [OF assms(1-3)] assms(4) by (simp add: rx_seq_Cons)

lemma reads_lit: "reads (RLit p) D p Map.empty"
  by (rule readsI) (auto simp: rx_first_def startsWith_iff)

lemma reads_end: "reads REnd (\<lambda>rest. rest = []) [] Map.empty"
  by (rule readsI) (auto simp: rx_first_def)

definition not_next :: "(int \<Rightarrow> bool) \<Rightarrow> jsstr \<Rightarrow> bool" where
  "not_next P rest \<longleftrightarrow> rest = [] \<or> \<not> P (hd rest)"

lemma not_next_Nil [simp]: "not_next P []"
  by (simp add: not_next_def)

lemma not_next_Cons [simp]: "not_next P (x # xs) \<longleftrightarrow> \<not> P x"
  by (simp add: not_next_def)

lemma not_next_append: "w \<noteq> [] \<Longrightarrow> not_next P (w @ rest) \<longleftrightarrow> \<not> P (hd w)"
  by (simp add: not_next_def)

lemma run_length: "\<forall>x \<in> set w. P x \<Longrightarrow> not_next P rest \<Longrightarrow> takeWhile P (w @ rest) = w"
  by (rule takeWhile_run) (auto simp: not_next_def)

lemma reads_star_class:
  assumes "is_class r" and "\<forall>x \<in> set w. rx_class r x"
  shows "reads (RStar r) (not_next (rx_class r)) w Map.empty"
proof (rule readsI)
  fix rest c assume "not_next (rx_class r) rest"
  then have "rx_match (RStar r) (w @ rest, c) = map (\<lambda>k. (drop k (w @ rest), c)) (rev [0..<Suc (length w)])"
    by (simp only: star_class [OF assms(1)] run_length [OF assms(2)])
  then show "\<exists>c'. rx_first (RStar r) (w @ rest, c) (rest, c') \<and> map_of c' = map_of c ++ Map.empty"
    by (intro exI [of _ c]) (simp add: rx_first_def del: rx_match.simps)
qed

lemma reads_plus_class:
  assumes "is_class r" and "w \<noteq> []" and "\<forall>x \<in> set w. rx_class r x"
  shows "reads (RPlus r) (not_next (rx_class r)) w Map.empty"
proof (rule readsI)
  fix rest c assume "not_next (rx_class r) rest"
  then have "rx_match (RPlus r) (w @ rest, c) = map (\<lambda>k. (drop k (w @ rest), c)) (rev [1..<Suc (length w)])"
    by (simp only: plus_class [OF assms(1)] run_length [OF assms(3)])
  moreover have "rev [1..<Suc (length w)] = length w # rev [1..<length w]" using assms(2) by (cases w) simp_all
  ultimately have "rx_match (RPlus r) (w @ rest, c) = (drop (length w) (w @ rest), c) # map (\<lambda>k. (drop k (w @ rest), c)) (rev [1..<length w])"
    by (simp only: list.map)
  then show "\<exists>c'. rx_first (RPlus r) (w @ rest, c) (rest, c') \<and> map_of c' = map_of c ++ Map.empty"
    by (intro exI [of _ c]) (simp add: rx_first_def del: rx_match.simps)
qed

lemma reads_group:
  assumes "reads r D w g"
  shows "reads (RGroup i r) D w (g(i \<mapsto> w))"
proof (rule readsI)
  fix rest c assume "D rest"
  with assms obtain c' where c: "rx_first r (w @ rest, c) (rest, c')" "map_of c' = map_of c ++ g" by (rule readsE)
  then have "rx_first (RGroup i r) (w @ rest, c) (rest, put_cap i w c')" by (auto simp: rx_first_def put_cap_def)
  moreover have "map_of (put_cap i w c') = map_of c ++ g(i \<mapsto> w)" using c(2) by (auto simp: map_add_def fun_eq_iff)
  ultimately show "\<exists>c'. rx_first (RGroup i r) (w @ rest, c) (rest, c') \<and> map_of c' = map_of c ++ g(i \<mapsto> w)" by blast
qed

lemma map_of_clear: "map_of (clear_groups gs c) = (map_of c) |` (- set gs)"
proof
  fix k show "map_of (clear_groups gs c) k = ((map_of c) |` (- set gs)) k"
    by (induction c) (auto simp: clear_groups_def restrict_map_def)
qed

text \<open>An optional part that is there, and one that is not.\<close>

lemma reads_opt:
  assumes "reads r D w g" and "w \<noteq> []" and "set (rx_groups r) \<subseteq> dom g"
  shows "reads (ROpt r) D w g"
proof (rule readsI)
  fix rest c assume "D rest"
  with assms(1) obtain c' where c: "rx_first r (w @ rest, clear_groups (rx_groups r) c) (rest, c')"
    "map_of c' = map_of (clear_groups (rx_groups r) c) ++ g" by (rule readsE)
  then have "rx_first (ROpt r) (w @ rest, c) (rest, c')" using assms(2) by (auto simp: rx_first_def)
  moreover have "map_of c' = map_of c ++ g"
    using c(2) assms(3) by (auto simp: map_of_clear map_add_def restrict_map_def fun_eq_iff split: option.splits)
  ultimately show "\<exists>c'. rx_first (ROpt r) (w @ rest, c) (rest, c') \<and> map_of c' = map_of c ++ g" by blast
qed

lemma reads_opt_absent: "(\<And>rest c. D rest \<Longrightarrow> rx_match r (rest, c) = []) \<Longrightarrow> reads (ROpt r) D [] Map.empty"
  by (rule readsI) (simp add: rx_first_def)

text \<open>A choice whose earlier alternatives fail.\<close>

lemma seq_alt: "rx_match (RSeq (RAlt a b) k) st = rx_match (RSeq a k) st @ rx_match (RSeq b k) st"
  by simp

lemma reads_alt_left: "reads a D w g \<Longrightarrow> reads (RAlt a b) D w g"
proof (rule readsI)
  fix rest c assume "reads a D w g" and "D rest"
  then obtain c' where "rx_first a (w @ rest, c) (rest, c')" "map_of c' = map_of c ++ g" by (rule readsE)
  then show "\<exists>c'. rx_first (RAlt a b) (w @ rest, c) (rest, c') \<and> map_of c' = map_of c ++ g" by (auto simp: rx_first_def)
qed

lemma reads_alt_right: "reads b D w g \<Longrightarrow> (\<And>rest c. D rest \<Longrightarrow> rx_match a (w @ rest, c) = []) \<Longrightarrow> reads (RAlt a b) D w g"
  by (simp add: reads_def rx_first_def)

text \<open>A repetition without groups.\<close>

lemma star_reads:
  assumes "\<And>w. w \<in> set ws \<Longrightarrow> reads r D w Map.empty \<and> w \<noteq> []" and "rx_groups r = []"
    and "\<And>w rest. w \<in> set ws \<Longrightarrow> D (w @ rest)" and "D rest" and "\<And>c. rx_match r (rest, c) = []"
  shows "length (concat ws @ rest) \<le> n \<Longrightarrow>
     \<exists>c' tl. star_match (\<lambda>(s, c). rx_match r (s, clear_groups (rx_groups r) c)) n (concat ws @ rest, c) = (rest, c') # tl \<and> map_of c' = map_of c"
  using assms(1,3)
proof (induction ws arbitrary: n c)
  case Nil
  then show ?case using assms(2,5) by (cases n) auto
next
  case (Cons w ws)
  let ?f = "\<lambda>(s, c). rx_match r (s, clear_groups (rx_groups r) c)"
  have w: "reads r D w Map.empty" "w \<noteq> []" using Cons.prems(2) by auto
  have "D (concat ws @ rest)" using assms(4) Cons.prems(3) by (cases ws) auto
  with w(1) obtain c1 where c1: "rx_first r (w @ concat ws @ rest, c) (concat ws @ rest, c1)" "map_of c1 = map_of c"
    by (rule readsE) simp
  obtain m where n: "n = Suc m" using Cons.prems(1) w(2) by (cases n) auto
  have "length (concat ws @ rest) \<le> m" using Cons.prems(1) w(2) n by (cases w) auto
  then obtain c' tl where "star_match ?f m (concat ws @ rest, c1) = (rest, c') # tl" "map_of c' = map_of c1"
    using Cons.IH [of m c1] Cons.prems(2,3) by auto
  then show ?case using c1 w(2) n assms(2) by (auto simp: rx_first_def)
qed

lemma reads_star:
  assumes "\<And>w. w \<in> set ws \<Longrightarrow> reads r D w Map.empty \<and> w \<noteq> []" and "rx_groups r = []"
    and "\<And>w rest. w \<in> set ws \<Longrightarrow> D (w @ rest)" and "\<And>rest. E rest \<Longrightarrow> D rest" and "\<And>rest c. E rest \<Longrightarrow> rx_match r (rest, c) = []"
  shows "reads (RStar r) E (concat ws) Map.empty"
proof (rule readsI)
  fix rest c assume "E rest"
  then show "\<exists>c'. rx_first (RStar r) (concat ws @ rest, c) (rest, c') \<and> map_of c' = map_of c ++ Map.empty"
    using star_reads [OF assms(1-3) assms(4), of ws rest "length (concat ws @ rest)" c] assms(5) by (auto simp: rx_first_def)
qed

text \<open>White space before something that does not begin with white space.\<close>

lemma sp_match:
  assumes "\<And>x t c. js_ws x \<Longrightarrow> rx_match k (x # t, c) = []"
  shows "rx_match (RSeq (RStar rx_space) k) (s, c) = rx_match k (dropWhile js_ws s, c)"
proof -
  let ?n = "length (takeWhile js_ws s)"
  have cl: "is_class rx_space" "rx_class rx_space = js_ws" by (simp, rule ext, simp)
  have "rx_match (RSeq (RStar rx_space) k) (s, c) = concat (map (\<lambda>j. rx_match k (drop j s, c)) (rev [0..<Suc ?n]))"
    unfolding rx_match.simps(3) star_class [OF cl(1)] cl(2) by (simp only: map_map comp_def)
  also have "\<dots> = rx_match k (drop ?n s, c)"
  proof (rule concat_map_rev_last)
    fix j assume j: "j < ?n"
    then have l: "j < length s" using length_takeWhile_le [of js_ws s] by linarith
    have "js_ws (s ! j)" using j by (metis nth_mem set_takeWhileD takeWhile_nth)
    then show "rx_match k (drop j s, c) = []" using assms by (simp add: Cons_nth_drop_Suc [OF l, symmetric])
  qed simp
  finally show ?thesis by (simp add: dropWhile_eq_drop)
qed

lemma sp_lit:
  "\<not> js_ws x \<Longrightarrow> rx_match (RSeq (RStar rx_space) (RSeq (RLit (x # p)) k)) (s, c) = rx_match (RSeq (RLit (x # p)) k) (dropWhile js_ws s, c)"
  by (rule sp_match) auto

lemma rx_at_start_reads:
  assumes "reads r (\<lambda>rest. rest = []) w g"
  shows "\<exists>c. rx_at_start r w = Some ([], c) \<and> map_of c = g"
proof -
  obtain c where "rx_first r (w @ [], []) ([], c)" "map_of c = map_of [] ++ g" using readsE [OF assms, of "[]" "[]"] by auto
  then show ?thesis by (auto simp: rx_at_start_def rx_first_def)
qed

lemma rx_exec_reads:
  assumes "reads (rx_seq rs) D w g" and "rs \<noteq> []" and "D []"
  shows "\<exists>c. rx_exec rs w = Some c \<and> map_of c = g"
proof -
  have "reads (rx_seq (rs @ [REnd])) (\<lambda>rest. rest = []) (w @ []) (g ++ Map.empty)"
    by (rule reads_append [OF assms(1) _ _ assms(2)]) (use assms(3) in \<open>simp_all add: reads_end\<close>)
  from rx_at_start_reads [OF this] show ?thesis by (auto simp: rx_exec_def)
qed

end
