(* ===== verification/TieredPricingRead.thy ===== *)
theory TieredPricingRead
  imports TieredPricingEval RegexPath
begin

text \<open>
  Reading a generated expression back into tiers: the regular expressions of
  \<open>tryParseVisualConfig\<close> find the tiers of the text that \<open>generateExprFromVisualConfig\<close> wrote, with the names,
  costs and conditions they were written with.
\<close>

section \<open>Costs\<close>

abbreviation num_end :: "jsstr \<Rightarrow> bool" where "num_end \<equiv> not_next (rx_class rx_numchar)"
abbreviation no_space :: "jsstr \<Rightarrow> bool" where "no_space \<equiv> not_next js_ws"

lemma space_class: "rx_class rx_space = js_ws"
  by (rule ext) simp

lemma reads_space: "reads rx_sp no_space [32] Map.empty" "reads rx_sp no_space [] Map.empty"
  using reads_star_class [of rx_space "[32]"] reads_star_class [of rx_space "[]"] unfolding space_class by (simp_all add: js_ws_def)

lemma reads_sign:
  assumes "\<not> js_ws c"
  shows "reads (rx_seq [rx_sp, RLit [c], rx_sp]) no_space ([32] @ [c] @ [32]) Map.empty"
proof -
  have "reads (RSeq (RLit [c]) rx_sp) no_space ([c] @ [32]) (Map.empty ++ Map.empty)"
    by (rule reads_seq [OF reads_lit [where D = "\<lambda>_. True"] reads_space(1)]) simp
  from reads_seq [OF reads_space(1) this] assms show ?thesis by simp
qed

lemma reads_signs:
  "reads (rx_seq rx_star_sign) no_space (js '' * '') Map.empty" "reads (rx_seq rx_plus_sign) no_space (js '' + '') Map.empty"
  using reads_sign [of 42] reads_sign [of 43] by (simp_all add: rx_star_sign_def rx_plus_sign_def js_def js_ws_def)

lemma reads_number:
  assumes "json_num_ok n"
  shows "reads (RGroup i rx_num) num_end (number_to_string n) [i \<mapsto> number_to_string n]"
proof -
  have "\<forall>x \<in> set (number_to_string n). rx_class rx_numchar x" using number_units(1) [OF assms] by (auto simp: num_unit_def)
  from reads_group [OF reads_plus_class [OF _ number_units(2) [OF assms] this], of i] show ?thesis by (simp add: rx_num_def)
qed

lemma number_head:
  assumes "json_num_ok n"
  shows "no_space (number_to_string n @ rest)"
  using number_units [OF assms] by (cases "number_to_string n") (auto simp: num_unit_def is_digit_def js_ws_def)

lemma reads_cost:
  assumes "json_num_ok n"
  shows "reads (rx_seq ([RLit x] @ rx_star_sign @ [RGroup i rx_num])) num_end (cost_part x n) [i \<mapsto> number_to_string n]"
proof -
  have "reads (rx_seq (rx_star_sign @ [RGroup i rx_num])) num_end (js '' * '' @ number_to_string n) (Map.empty ++ [i \<mapsto> number_to_string n])"
    by (rule reads_append [OF reads_signs(1)]) (simp_all add: reads_number [OF assms] number_head [OF assms] rx_star_sign_def)
  from reads_Cons [OF reads_lit [where D = "\<lambda>_. True"] this] show ?thesis by (simp add: cost_part_def rx_star_sign_def)
qed

lemma reads_plus_cost:
  assumes "json_num_ok n" and "name_ok x"
  shows "reads (rx_seq (rx_plus_sign @ [RLit x] @ rx_star_sign @ [RGroup i rx_num])) num_end (js '' + '' @ cost_part x n) [i \<mapsto> number_to_string n]"
proof -
  have "no_space (cost_part x n @ rest)" for rest
    using assms(2) by (cases x) (auto simp: cost_part_def name_ok_def id_start_def js_ws_def)
  then show ?thesis
    using reads_append [OF reads_signs(2) reads_cost [OF assms(1)]] by (simp add: rx_plus_sign_def)
qed

text \<open>
  The optional costs: each variable in turn is there or not. A pattern for one variable fails on
  the text of another, also where one name begins with the other (\<open>cc\<close> and \<open>cc1h\<close>).
\<close>

definition apart :: "jsstr \<Rightarrow> jsstr \<Rightarrow> bool" where
  "apart v x \<longleftrightarrow> (if startsWith x v then length v < length x \<and> \<not> js_ws (x ! length v) \<and> x ! length v \<noteq> 42 else True)"

definition extra_text :: "(jsstr \<Rightarrow> jsnum) \<Rightarrow> jsstr list \<Rightarrow> jsstr" where
  "extra_text cost vs = concat (map (\<lambda>x. if num_is_zero (cost x) then [] else js '' + '' @ cost_part x (cost x)) vs)"

definition extra_caps :: "(jsstr \<Rightarrow> jsnum) \<Rightarrow> nat \<Rightarrow> jsstr list \<Rightarrow> nat \<rightharpoonup> jsstr" where
  "extra_caps cost i vs k = (if i \<le> k \<and> k < i + length vs \<and> \<not> num_is_zero (cost (vs ! (k - i)))
     then Some (number_to_string (cost (vs ! (k - i)))) else None)"

definition close_next :: "jsstr \<Rightarrow> bool" where
  "close_next rest \<longleftrightarrow> rest \<noteq> [] \<and> hd rest = 41"

lemma plus_absent_close: "close_next rest \<Longrightarrow> rx_match (rx_seq (rx_plus_sign @ ts)) (rest, c) = []" if "ts \<noteq> []"
  using that by (cases rest) (auto simp: close_next_def rx_plus_sign_def js_def rx_seq_Cons sp_lit js_ws_def simp del: rx_match.simps(3,6) simp: lit_match)

lemma startsWith_name:
  assumes "startsWith (x @ 32 # r) v" and "32 \<notin> set v"
  shows "startsWith x v"
proof -
  obtain q where q: "x @ 32 # r = v @ q" using assms(1) by (auto simp: startsWith_iff)
  show ?thesis
  proof (cases "length v \<le> length x")
    case True
    then have "v = take (length v) x" using q by (metis append_eq_append_conv_if append_eq_conv_conj)
    then show ?thesis by (metis append_take_drop_id startsWith_iff)
  next
    case False
    then have "v ! length x = 32" using q by (metis linorder_not_le nth_append nth_append_length)
    then show ?thesis using assms(2) False by (metis linorder_not_le nth_mem)
  qed
qed

lemma plus_absent_other:
  assumes "apart v x" and "name_ok x" and "name_ok v"
  shows "rx_match (rx_seq (rx_plus_sign @ [RLit v] @ rx_star_sign @ [RGroup i rx_num])) (js '' + '' @ cost_part x n @ rest, c) = []"
proof -
  obtain y ys where v: "v = y # ys" using assms(3) by (cases v) (auto simp: name_ok_def)
  have ws: "\<not> js_ws y" using assms(3) v by (auto simp: name_ok_def id_start_def js_ws_def)
  have v32: "32 \<notin> set v" using assms(3) by (auto simp: name_ok_def id_part_def id_start_def is_digit_def)
  let ?k = "rx_seq (rx_star_sign @ [RGroup i rx_num])"
  have seq: "rx_seq (rx_plus_sign @ [RLit v] @ rx_star_sign @ [RGroup i rx_num]) = RSeq rx_sp (RSeq (RLit [43]) (RSeq rx_sp (RSeq (RLit (y # ys)) ?k)))"
    by (simp add: rx_plus_sign_def rx_star_sign_def v js_def)
  let ?t = "x @ 32 # 42 # 32 # number_to_string n @ rest"
  have hx: "dropWhile js_ws ?t = ?t" using assms(2) by (cases x) (auto simp: name_ok_def id_start_def js_ws_def)
  have wr: "js '' + '' @ cost_part x n @ rest = 32 # 43 # 32 # ?t" by (simp add: cost_part_def js_def)
  have "rx_match (RSeq (RLit v) ?k) (?t, c) = []"
  proof (cases "startsWith ?t v")
    case True
    then have sx: "startsWith x v" using startsWith_name v32 by blast
    then have a: "length v < length x" "\<not> js_ws (x ! length v)" "x ! length v \<noteq> 42" using assms(1) by (auto simp: apart_def)
    then have d: "drop (length v) ?t = x ! length v # drop (Suc (length v)) x @ 32 # 42 # 32 # number_to_string n @ rest"
      by (simp add: Cons_nth_drop_Suc [symmetric])
    have "rx_match ?k (drop (length v) ?t, c) = []"
      unfolding d using a by (simp add: rx_star_sign_def js_def sp_lit js_ws_def [of 42] lit_match del: rx_match.simps)
    then show ?thesis unfolding lit_match using True by simp
  next
    case False
    then show ?thesis unfolding lit_match by simp
  qed
  then have "rx_match (RSeq rx_sp (RSeq (RLit (y # ys)) ?k)) (32 # ?t, c) = []"
    unfolding sp_lit [OF ws] using hx v by (simp add: js_ws_def del: rx_match.simps)
  then show ?thesis
    unfolding seq wr by (simp add: sp_lit js_ws_def lit_match del: rx_match.simps)
qed

lemma extra_text_head:
  "extra_text cost vs = [] \<or> (\<exists>x r. x \<in> set vs \<and> extra_text cost vs = js '' + '' @ cost_part x (cost x) @ r)"
  by (induction vs) (auto simp: extra_text_def)

lemma extra_caps_Cons:
  "extra_caps cost i (v # vs) = (if num_is_zero (cost v) then Map.empty else [i \<mapsto> number_to_string (cost v)]) ++ extra_caps cost (i + 1) vs"
proof
  fix k
  consider "k < i" | "k = i" | "i < k" by linarith
  then show "extra_caps cost i (v # vs) k
      = ((if num_is_zero (cost v) then Map.empty else [i \<mapsto> number_to_string (cost v)]) ++ extra_caps cost (i + 1) vs) k"
  proof cases
    case 3
    then have "k - i = Suc (k - Suc i)" by simp
    then show ?thesis using 3 by (auto simp: extra_caps_def map_add_def)
  qed (auto simp: extra_caps_def map_add_def)
qed

lemma rx_groups_cost: "rx_groups (rx_seq (rx_plus_sign @ [RLit x] @ rx_star_sign @ [RGroup i rx_num])) = [i]"
  by (simp add: rx_plus_sign_def rx_star_sign_def rx_num_def rx_space_def rx_numchar_def)

lemma reads_extra:
  assumes "name_ok v" and "json_num_ok (cost v)" and "\<forall>x \<in> set vs. apart v x \<and> name_ok x" and "close_next rest"
  shows "\<exists>c'. rx_first (ROpt (rx_seq (rx_plus_sign @ [RLit v] @ rx_star_sign @ [RGroup i rx_num])))
       (extra_text cost (v # vs) @ rest, c) (extra_text cost vs @ rest, c')
     \<and> map_of c' = map_of c ++ (if num_is_zero (cost v) then Map.empty else [i \<mapsto> number_to_string (cost v)])"
proof (cases "num_is_zero (cost v)")
  case True
  let ?r = "rx_seq (rx_plus_sign @ [RLit v] @ rx_star_sign @ [RGroup i rx_num])"
  have "rx_match ?r (extra_text cost vs @ rest, clear_groups (rx_groups ?r) c) = []"
  proof (cases "extra_text cost vs = []")
    case True
    then show ?thesis using plus_absent_close [OF _ assms(4)] by simp
  next
    case False
    then obtain x r where x: "x \<in> set vs" "extra_text cost vs = js '' + '' @ cost_part x (cost x) @ r"
      using extra_text_head [of cost vs] by auto
    then show ?thesis using plus_absent_other [OF _ _ assms(1)] assms(3) by simp
  qed
  then show ?thesis using True by (intro exI [of _ c]) (simp add: rx_first_def extra_text_def)
next
  case False
  have "reads (ROpt (rx_seq (rx_plus_sign @ [RLit v] @ rx_star_sign @ [RGroup i rx_num]))) num_end (js '' + '' @ cost_part v (cost v)) [i \<mapsto> number_to_string (cost v)]"
    by (rule reads_opt [OF reads_plus_cost [OF assms(2,1)]]) (simp, simp only: rx_groups_cost, simp)
  moreover have "num_end (extra_text cost vs @ rest)"
    using extra_text_head [of cost vs] assms(4) by (cases rest) (auto simp: close_next_def js_def is_digit_def)
  ultimately obtain c' where "rx_first (ROpt (rx_seq (rx_plus_sign @ [RLit v] @ rx_star_sign @ [RGroup i rx_num])))
      ((js '' + '' @ cost_part v (cost v)) @ extra_text cost vs @ rest, c) (extra_text cost vs @ rest, c')"
    "map_of c' = map_of c ++ [i \<mapsto> number_to_string (cost v)]" by (rule readsE)
  then show ?thesis using False by (auto simp: extra_text_def)
qed

lemma reads_extras:
  assumes "\<forall>x \<in> set vs. name_ok x \<and> json_num_ok (cost x)" and "sorted_wrt apart vs" and "vs \<noteq> []"
  shows "reads (rx_seq (rx_extras i vs)) close_next (extra_text cost vs) (extra_caps cost i vs)"
  using assms
proof (induction vs arbitrary: i)
  case (Cons v vs)
  let ?r = "ROpt (rx_seq (rx_plus_sign @ [RLit v] @ rx_star_sign @ [RGroup i rx_num]))"
  show ?case
  proof (rule readsI)
    fix rest c assume rest: "close_next rest"
    obtain c1 where c1: "rx_first ?r (extra_text cost (v # vs) @ rest, c) (extra_text cost vs @ rest, c1)"
      "map_of c1 = map_of c ++ (if num_is_zero (cost v) then Map.empty else [i \<mapsto> number_to_string (cost v)])"
      using reads_extra [OF _ _ _ rest, of v cost vs i c] Cons.prems by auto
    show "\<exists>c'. rx_first (rx_seq (rx_extras i (v # vs))) (extra_text cost (v # vs) @ rest, c) (rest, c')
        \<and> map_of c' = map_of c ++ extra_caps cost i (v # vs)"
    proof (cases "vs = []")
      case True
      then have "extra_caps cost (i + 1) vs = Map.empty" "extra_text cost vs = []"
        by (auto simp: extra_caps_def extra_text_def fun_eq_iff)
      then show ?thesis using c1 True unfolding extra_caps_Cons by auto
    next
      case False
      then have "reads (rx_seq (rx_extras (i + 1) vs)) close_next (extra_text cost vs) (extra_caps cost (i + 1) vs)"
        using Cons by auto
      then obtain c2 where c2: "rx_first (rx_seq (rx_extras (i + 1) vs)) (extra_text cost vs @ rest, c1) (rest, c2)"
        "map_of c2 = map_of c1 ++ extra_caps cost (i + 1) vs" using rest by (rule readsE)
      have ne: "rx_extras (i + 1) vs \<noteq> []" using False by (cases vs) auto
      then have "rx_first (rx_seq (rx_extras i (v # vs))) (extra_text cost (v # vs) @ rest, c) (rest, c2)"
        using first_seq [OF c1(1) c2(1)] rx_seq_Cons [OF ne] by simp
      then show ?thesis using c1(2) c2(2) unfolding extra_caps_Cons by (auto simp: map_add_assoc)
    qed
  qed
qed simp

section \<open>Tiers\<close>

abbreviation extra_names :: "jsstr list" where "extra_names \<equiv> map snd BILLING_CACHE_VAR_MAP"

definition var_cost :: "tier \<Rightarrow> jsstr \<Rightarrow> jsnum" where
  "var_cost t x = unit_cost t (the (map_of (map prod.swap BILLING_CACHE_VAR_MAP) x))"

lemma var_cost_field: "(f, x) \<in> set BILLING_CACHE_VAR_MAP \<Longrightarrow> var_cost t x = unit_cost t f"
proof -
  have "distinct extra_names" unfolding cache_vars by simp
  moreover assume "(f, x) \<in> set BILLING_CACHE_VAR_MAP"
  then have "(x, f) \<in> set (map prod.swap BILLING_CACHE_VAR_MAP)" by force
  ultimately show ?thesis by (simp add: var_cost_def map_of_is_SomeI comp_def)
qed

lemma extra_names_apart: "sorted_wrt apart extra_names"
  unfolding cache_vars by (simp add: apart_def js_def js_ws_def)

lemma extra_names_ok: "x \<in> set extra_names \<Longrightarrow> name_ok x"
  using names_ok(4) by force

lemma join_seps: "join sep (w # ws) = w @ concat (map ((@) sep) ws)"
  by (induction ws arbitrary: w) auto

lemma body_text:
  "buildTierBodyExpr t = cost_part (js ''p'') (unit_cost t (js ''input_unit_cost'')) @ js '' + ''
     @ cost_part (js ''c'') (unit_cost t (js ''output_unit_cost'')) @ extra_text (var_cost t) extra_names"
proof -
  have pick: "concat (map f (filter P xs)) = concat (map (\<lambda>z. if P z then f z else []) xs)" for f :: "'a \<Rightarrow> jsstr" and P xs
    by (induction xs) simp_all
  have "concat (map ((@) (js '' + '')) (extra_parts t))
      = concat (map (\<lambda>z. if num_is_zero (unit_cost t (fst z)) then [] else js '' + '' @ cost_part (snd z) (unit_cost t (fst z))) BILLING_CACHE_VAR_MAP)"
    unfolding extra_parts_def map_map pick by (rule arg_cong [where f = concat], rule map_cong) (auto simp: pick)
  also have "\<dots> = extra_text (var_cost t) extra_names"
    unfolding extra_text_def map_map by (rule arg_cong [where f = concat], rule map_cong) (auto simp: var_cost_field)
  finally show ?thesis by (simp add: buildTierBodyExpr_def join_seps del: join.simps)
qed

definition tier_caps :: "nat \<Rightarrow> jsstr \<Rightarrow> tier \<Rightarrow> nat \<rightharpoonup> jsstr" where
  "tier_caps i label t = [i \<mapsto> label, i + 1 \<mapsto> number_to_string (unit_cost t (js ''input_unit_cost'')),
     i + 2 \<mapsto> number_to_string (unit_cost t (js ''output_unit_cost''))] ++ extra_caps (var_cost t) (i + 3) extra_names"

lemma tier_costs_ok:
  assumes "tier_ok t"
  shows "json_num_ok (unit_cost t (js ''input_unit_cost''))" and "json_num_ok (unit_cost t (js ''output_unit_cost''))"
    and "\<forall>x \<in> set extra_names. json_num_ok (var_cost t x)"
  using assms by (auto simp: tier_ok_def cost_fields_def list_all_iff var_cost_field intro!: binary64_ok)

lemma reads_body:
  assumes "tier_ok t"
  shows "reads (rx_seq (rx_body i)) close_next (buildTierBodyExpr t)
     ([i \<mapsto> number_to_string (unit_cost t (js ''input_unit_cost'')), i + 1 \<mapsto> number_to_string (unit_cost t (js ''output_unit_cost''))]
      ++ extra_caps (var_cost t) (i + 2) extra_names)"
proof -
  note ok = tier_costs_ok [OF assms]
  have ne: "extra_names \<noteq> []" unfolding cache_vars by simp
  have e: "reads (rx_seq (rx_extras (i + 2) extra_names)) close_next (extra_text (var_cost t) extra_names) (extra_caps (var_cost t) (i + 2) extra_names)"
    using ok(3) extra_names_ok by (intro reads_extras extra_names_apart ne) auto
  have ene: "rx_extras (i + 2) extra_names \<noteq> []" using ne by (cases extra_names) auto
  have num: "num_end (extra_text (var_cost t) extra_names @ rest)" if "close_next rest" for rest
    using extra_text_head [of "var_cost t" extra_names] that by (cases rest) (auto simp: close_next_def js_def is_digit_def)
  from reads_append [OF reads_plus_cost [OF ok(2) names_ok(2), of "i + 1"] e num] ene
  have "reads (rx_seq ((rx_plus_sign @ [RLit (js ''c'')] @ rx_star_sign @ [RGroup (i + 1) rx_num]) @ rx_extras (i + 2) extra_names)) close_next
      ((js '' + '' @ cost_part (js ''c'') (unit_cost t (js ''output_unit_cost''))) @ extra_text (var_cost t) extra_names)
      ([i + 1 \<mapsto> number_to_string (unit_cost t (js ''output_unit_cost''))] ++ extra_caps (var_cost t) (i + 2) extra_names)" by simp
  from reads_append [OF reads_cost [OF ok(1), of "js ''p''" i] this]
  have "reads (rx_seq (([RLit (js ''p'')] @ rx_star_sign @ [RGroup i rx_num])
        @ (rx_plus_sign @ [RLit (js ''c'')] @ rx_star_sign @ [RGroup (i + 1) rx_num]) @ rx_extras (i + 2) extra_names)) close_next
      (cost_part (js ''p'') (unit_cost t (js ''input_unit_cost'')) @ (js '' + '' @ cost_part (js ''c'') (unit_cost t (js ''output_unit_cost'')))
        @ extra_text (var_cost t) extra_names)
      ([i \<mapsto> number_to_string (unit_cost t (js ''input_unit_cost''))] ++ ([i + 1 \<mapsto> number_to_string (unit_cost t (js ''output_unit_cost''))]
        ++ extra_caps (var_cost t) (i + 2) extra_names))"
    by (simp add: js_def is_digit_def)
  then show ?thesis by (simp add: rx_body_def body_text)
qed

lemma reads_tier:
  assumes "tier_ok t" and "34 \<notin> set label"
  shows "reads (rx_seq (rx_tier i)) D (tier_text label t) (tier_caps i label t)"
proof -
  have b: "reads (rx_seq (rx_body (i + 1) @ [RLit (js '')'')])) D (buildTierBodyExpr t @ js '')'') (([i + 1 \<mapsto> number_to_string (unit_cost t (js ''input_unit_cost'')),
      i + 2 \<mapsto> number_to_string (unit_cost t (js ''output_unit_cost''))] ++ extra_caps (var_cost t) (i + 3) extra_names) ++ Map.empty)"
    using reads_append [OF reads_body [OF assms(1), of "i + 1"], of "[RLit (js '')'')]" D "js '')''" Map.empty] reads_lit [of "js '')''" D]
    by (simp add: rx_body_def close_next_def js_def numeral_3_eq_3 numeral_2_eq_2)
  have "no_space (buildTierBodyExpr t @ rest)" for rest by (simp add: body_text cost_part_def js_def js_ws_def)
  then have s: "reads (rx_seq (rx_sp # rx_body (i + 1) @ [RLit (js '')'')])) D ([32] @ buildTierBodyExpr t @ js '')'') (Map.empty ++ (([i + 1 \<mapsto> number_to_string (unit_cost t (js ''input_unit_cost'')),
      i + 2 \<mapsto> number_to_string (unit_cost t (js ''output_unit_cost''))] ++ extra_caps (var_cost t) (i + 3) extra_names) ++ Map.empty))"
    using reads_Cons [OF reads_space(1) b] by simp
  note s1 = reads_Cons [OF reads_lit [where p = "[34] @ js '',''" and D = "\<lambda>_. True"] s TrueI]
  have "reads (RGroup i (RStar rx_not_quote)) (not_next (\<lambda>c. c \<noteq> 34)) label (Map.empty(i \<mapsto> label))"
  proof -
    have c: "rx_class rx_not_quote = (\<lambda>c. c \<noteq> 34)" by (rule ext) simp
    have "\<forall>x \<in> set label. rx_class rx_not_quote x" using assms(2) by auto
    from reads_group [OF reads_star_class [OF _ this], of i] show ?thesis unfolding c by simp
  qed
  from reads_Cons [OF this s1]
  have "reads (rx_seq (RGroup i (RStar rx_not_quote) # RLit ([34] @ js '','') # rx_sp # rx_body (i + 1) @ [RLit (js '')'')])) D
      (label @ ([34] @ js '','') @ [32] @ buildTierBodyExpr t @ js '')'') (tier_caps i label t)"
    by (simp add: tier_caps_def)
  from reads_Cons [OF reads_lit [where p = "js ''tier('' @ [34]" and D = "\<lambda>_. True"] this TrueI]
  show ?thesis by (simp add: rx_tier_def tier_text_def js_def)
qed

section \<open>Conditions\<close>

text \<open>
  A pattern appears as it is in the pattern of a tier and inside a group in the pattern of a
  condition. Both wrappings keep alternatives and matches, which is all the reading of a comparison needs.
\<close>

locale rx_wrap =
  fixes G :: "regex \<Rightarrow> regex" and caps :: "jsstr \<Rightarrow> nat \<rightharpoonup> jsstr"
  assumes wrap_alt: "rx_match (RSeq (G (RAlt a b)) k) st = rx_match (RSeq (G a) k) st @ rx_match (RSeq (G b) k) st"
    and wrap_lit: "\<not> startsWith s p \<or> (\<forall>c'. rx_match k (drop (length p) s, c') = []) \<Longrightarrow> rx_match (RSeq (G (RLit p)) k) (s, c) = []"
    and wrap_reads: "reads r D w Map.empty \<Longrightarrow> reads (G r) D w (caps w)"
begin

lemma reads_skip:
  assumes "reads (RSeq (G b) k) E w h" and "\<And>rest c. E rest \<Longrightarrow> rx_match (RSeq (G a) k) (w @ rest, c) = []"
  shows "reads (RSeq (G (RAlt a b)) k) E w h"
  using assms by (simp add: reads_def rx_first_def wrap_alt del: rx_match.simps)

lemma reads_take:
  assumes "reads (RSeq (G a) k) E w h"
  shows "reads (RSeq (G (RAlt a b)) k) E w h"
proof (rule readsI)
  fix rest c assume "E rest"
  with assms obtain c' where "rx_first (RSeq (G a) k) (w @ rest, c) (rest, c')" "map_of c' = map_of c ++ h" by (rule readsE)
  then show "\<exists>c'. rx_first (RSeq (G (RAlt a b)) k) (w @ rest, c) (rest, c') \<and> map_of c' = map_of c ++ h"
    by (auto simp: rx_first_def wrap_alt simp del: rx_match.simps)
qed

lemma reads_op:
  assumes "reads k E v h"
  shows "reads (RSeq (G (RLit p)) k) E (p @ v) (caps p ++ h)"
  by (rule reads_seq [OF wrap_reads [OF reads_lit [where D = "\<lambda>_. True"]] assms TrueI])

lemma reads_cmp:
  assumes op: "comparison p = Some x" and k: "reads k E v h" and eq: "\<And>s c. rx_match k (61 # s, c) = []"
  shows "reads (RSeq (G rx_cmp) k) E (p @ v) (caps p ++ h)"
proof -
  have other: "rx_match (RSeq (G (RLit q)) k) (p @ v @ rest, c) = []" if "\<not> startsWith (p @ v @ rest) q" for q rest c
    using that by (intro wrap_lit) simp
  have shorter: "rx_match (RSeq (G (RLit q)) k) (p @ v @ rest, c) = []" if "p = q @ [61]" for q rest c
    using that eq by (intro wrap_lit) simp
  note hit = reads_op [OF k, of p]
  consider "p = [60]" | "p = [60, 61]" | "p = [62]" | "p = [62, 61]" using op by (auto simp: comparison_def js_def split: if_splits)
  then show ?thesis
  proof cases
    case 1
    from reads_take [OF hit] 1 show ?thesis by (simp add: rx_cmp_def js_def)
  next
    case 2
    from reads_skip [OF reads_take [OF hit], of "RLit [60]"] shorter [of "[60]"] 2 show ?thesis by (simp add: rx_cmp_def js_def)
  next
    case 3
    from reads_skip [OF reads_skip [OF reads_take [OF hit], of "RLit [60, 61]"], of "RLit [60]"] other [of _ "[60]"] other [of _ "[60, 61]"] 3
    show ?thesis by (simp add: rx_cmp_def js_def)
  next
    case 4
    from reads_skip [OF reads_skip [OF reads_skip [OF hit, of "RLit [62]"], of "RLit [60, 61]"], of "RLit [60]"]
      other [of _ "[60]"] other [of _ "[60, 61]"] shorter [of "[62]"] 4
    show ?thesis by (simp add: rx_cmp_def js_def)
  qed
qed

lemma reads_var:
  assumes "v \<in> {js ''p'', js ''c'', js ''len''}"
  shows "reads (G rx_var) (\<lambda>_. True) v (caps v)"
proof (rule wrap_reads)
  consider "v = [112]" | "v = [99]" | "v = [108, 101, 110]" using assms by (auto simp: js_def)
  then show "reads rx_var (\<lambda>_. True) v Map.empty"
    by cases (simp_all add: rx_var_def js_def reads_def rx_first_def)
qed

end

interpretation rx_plain: rx_wrap "\<lambda>r. r" "\<lambda>_. Map.empty"
  by unfold_locales auto

interpretation rx_group: rx_wrap "RGroup i" "\<lambda>w. [i \<mapsto> w]" for i
  by unfold_locales (auto simp: reads_group)

definition cond_unit :: "int \<Rightarrow> bool" where
  "cond_unit c \<longleftrightarrow> is_digit c \<or> c = 46 \<or> c = 101 \<or> c = 69 \<or> c = 43"

abbreviation cond_end :: "jsstr \<Rightarrow> bool" where "cond_end \<equiv> not_next cond_unit"

definition cond_class :: regex where
  "cond_class = RSet True [(48, 57), (46, 46), (101, 101), (69, 69), (43, 43)]"

lemma cond_class: "rx_condnum = RPlus cond_class" "is_class cond_class" "rx_class cond_class = cond_unit"
proof -
  show "rx_condnum = RPlus cond_class" "is_class cond_class" by (simp_all add: rx_condnum_def cond_class_def)
  show "rx_class cond_class = cond_unit"
    unfolding cond_class_def by (rule ext) (unfold cond_unit_def is_digit_def rx_class_unfold, simp)
qed

text \<open>A value that the pattern of a condition reads: its text has no minus sign.\<close>

definition cond_readable :: "tier_cond \<Rightarrow> bool" where
  "cond_readable c \<longleftrightarrow> 45 \<notin> set (number_to_string (js_to_number (tc_value c)))"

lemma reads_condnum:
  assumes "json_num_ok n" and "45 \<notin> set (number_to_string n)"
  shows "reads rx_condnum cond_end (number_to_string n) Map.empty"
proof -
  have "\<forall>x \<in> set (number_to_string n). cond_unit x"
    using number_units(1) [OF assms(1)] assms(2) by (auto simp: num_unit_def cond_unit_def)
  then show ?thesis using reads_plus_class [OF cond_class(2) number_units(2) [OF assms(1)]] by (simp add: cond_class)
qed

lemma condnum_fails: "\<not> cond_unit x \<Longrightarrow> rx_match rx_condnum (x # s, c) = []"
  unfolding cond_class(1) plus_class [OF cond_class(2)] cond_class(3) by simp

lemma cond_tail:
  assumes n: "reads N cond_end w g" and w: "w \<noteq> []" "cond_unit (hd w)" and fails: "\<And>x s c. \<not> cond_unit x \<Longrightarrow> rx_match N (x # s, c) = []"
  shows "reads (RSeq rx_sp N) cond_end (32 # w) g" and "\<And>s c. rx_match (RSeq rx_sp N) (61 # s, c) = []"
proof -
  have ws: "\<not> cond_unit x" if "js_ws x" for x using that by (auto simp: cond_unit_def is_digit_def js_ws_def)
  then have "no_space (w @ rest)" for rest using w by (auto simp: not_next_append)
  with reads_seq [OF reads_space(1) n] show "reads (RSeq rx_sp N) cond_end (32 # w) g" by simp
  show "rx_match (RSeq rx_sp N) (61 # s, c) = []" for s c
    using sp_match [of N, OF fails [OF ws]] fails [of 61] by (simp add: js_ws_def cond_unit_def is_digit_def del: rx_match.simps)
qed

lemma cond_num_head:
  assumes "tier_ok t" and "c \<in> set (active t)" and "cond_readable c"
  shows "json_num_ok (cond_num c)" and "45 \<notin> set (number_to_string (cond_num c))"
    and "number_to_string (cond_num c) \<noteq> []" and "cond_unit (hd (number_to_string (cond_num c)))"
proof -
  show n: "json_num_ok (cond_num c)" by (rule active_ok [OF assms(1,2)])
  show m: "45 \<notin> set (number_to_string (cond_num c))" using assms(3) by (simp add: cond_readable_def cond_num_def)
  show ne: "number_to_string (cond_num c) \<noteq> []" by (rule number_units [OF n])
  have "num_unit (hd (number_to_string (cond_num c)))" "hd (number_to_string (cond_num c)) \<noteq> 45"
    using number_units(1) [OF n] m hd_in_set [OF ne] by metis+
  then show "cond_unit (hd (number_to_string (cond_num c)))" by (auto simp: num_unit_def cond_unit_def)
qed

lemma cond_text_parts:
  assumes "tier_ok t" and "c \<in> set (active t)"
  shows "cond_text c = tc_var c @ 32 # tc_op c @ 32 # number_to_string (cond_num c)"
  using active_ok(3) [OF assms] by (simp add: cond_text_def js_def)

lemma reads_cond_wrapped:
  assumes c: "tier_ok t" "c \<in> set (active t)"
    and v: "reads V (\<lambda>_. True) (tc_var c) g1" and r: "reads (RSeq C (RSeq rx_sp N)) cond_end (tc_op c @ 32 # number_to_string (cond_num c)) g2"
  shows "reads (rx_seq [V, rx_sp, C, rx_sp, N]) cond_end (cond_text c) (g1 ++ g2)"
proof -
  have "tc_op c \<noteq> [] \<and> \<not> js_ws (hd (tc_op c))"
    using active_ok(2) [OF c] by (auto simp: comparison_def js_def js_ws_def split: if_splits)
  then have "no_space ((tc_op c @ 32 # number_to_string (cond_num c)) @ rest)" for rest by (cases "tc_op c") auto
  from reads_seq [OF v reads_seq [OF reads_space(1) r this] TrueI] show ?thesis by (simp add: cond_text_parts [OF c])
qed

lemma reads_cond:
  assumes "tier_ok t" and "c \<in> set (active t)" and "cond_readable c"
  shows "reads (rx_seq rx_cond) cond_end (cond_text c) Map.empty"
    and "reads (rx_seq rx_cond_parts) cond_end (cond_text c) [1 \<mapsto> tc_var c, 2 \<mapsto> tc_op c, 3 \<mapsto> number_to_string (cond_num c)]"
proof -
  note n = cond_num_head [OF assms] and a = active_ok [OF assms(1,2)]
  note num = reads_condnum [OF n(1,2)]
  have tail: "reads (RSeq rx_sp rx_condnum) cond_end (32 # number_to_string (cond_num c)) Map.empty" "\<And>s c. rx_match (RSeq rx_sp rx_condnum) (61 # s, c) = []"
    by (rule cond_tail [OF num n(3,4) condnum_fails]; assumption)+
  have gfail: "rx_match (RGroup 3 rx_condnum) (x # s, c) = []" if "\<not> cond_unit x" for x s c
    using condnum_fails [OF that] by (simp del: rx_match.simps(3))
  have gtail: "reads (RSeq rx_sp (RGroup 3 rx_condnum)) cond_end (32 # number_to_string (cond_num c)) [3 \<mapsto> number_to_string (cond_num c)]"
    "\<And>s c. rx_match (RSeq rx_sp (RGroup 3 rx_condnum)) (61 # s, c) = []"
    by (rule cond_tail [OF reads_group [OF num, of 3] n(3,4) gfail]; assumption)+
  show "reads (rx_seq rx_cond) cond_end (cond_text c) Map.empty"
    unfolding rx_cond_def
    using reads_cond_wrapped [OF assms(1,2) rx_plain.reads_var [OF a(1)] rx_plain.reads_cmp [OF a(2) tail]] by simp
  show "reads (rx_seq rx_cond_parts) cond_end (cond_text c) [1 \<mapsto> tc_var c, 2 \<mapsto> tc_op c, 3 \<mapsto> number_to_string (cond_num c)]"
    unfolding rx_cond_parts_def
    using reads_cond_wrapped [OF assms(1,2) rx_group.reads_var [OF a(1), of 1] rx_group.reads_cmp [OF a(2) gtail, of 2]] by simp
qed

text \<open>The condition of a tier, as it stands before its question mark.\<close>

definition all_readable :: "tier \<Rightarrow> bool" where
  "all_readable t \<longleftrightarrow> list_all cond_readable (active t)"

lemma cond_text_shape:
  assumes "tier_ok t" and "c \<in> set (active t)"
  shows "cond_text c \<noteq> []" and "\<not> js_ws (hd (cond_text c))" and "hd (cond_text c) \<in> {112, 99, 108}"
  using active_ok(1) [OF assms] by (auto simp: cond_text_def js_def js_ws_def)

lemma reads_and_cond:
  assumes "tier_ok t" and "c \<in> set (active t)" and "cond_readable c"
  shows "reads (rx_seq ([rx_sp, RLit (js ''&&''), rx_sp] @ rx_cond)) cond_end (js '' && '' @ cond_text c) Map.empty"
proof -
  have "reads (RSeq (RLit (js ''&&'')) rx_sp) no_space (js ''&&'' @ [32]) (Map.empty ++ Map.empty)"
    by (rule reads_seq [OF reads_lit [where D = "\<lambda>_. True"] reads_space(1) TrueI])
  from reads_seq [OF reads_space(1) this]
  have s: "reads (rx_seq [rx_sp, RLit (js ''&&''), rx_sp]) no_space (js '' && '') Map.empty" by (simp add: js_def js_ws_def)
  have "no_space (cond_text c @ rest)" for rest using cond_text_shape [OF assms(1,2)] by (simp add: not_next_append)
  from reads_append [OF s reads_cond(1) [OF assms] this] show ?thesis by (simp add: rx_cond_def)
qed

definition question_next :: "jsstr \<Rightarrow> bool" where
  "question_next rest \<longleftrightarrow> (\<exists>r. rest = 32 # 63 # r)"

lemma reads_condGroup:
  assumes "tier_ok t" and "active t \<noteq> []" and "all_readable t"
  shows "reads condGroup question_next (buildConditionStr (t_conditions t)) [1 \<mapsto> buildConditionStr (t_conditions t)]"
proof -
  let ?and = "rx_seq ([rx_sp, RLit (js ''&&''), rx_sp] @ rx_cond)"
  have r: "cond_readable c" if "c \<in> set (active t)" for c using assms(3) that by (simp add: all_readable_def list_all_iff)
  obtain c cs where a: "active t = c # cs" using assms(2) by (cases "active t") auto
  have b: "buildConditionStr (t_conditions t) = cond_text c @ concat (map (\<lambda>d. js '' && '' @ cond_text d) cs)"
    unfolding buildConditionStr_def active_def [symmetric] a list.map(2) join_seps by (simp add: comp_def)
  have g: "rx_groups ?and = []" by (simp add: rx_cond_def rx_var_def rx_cmp_def cond_class rx_space_def cond_class_def)
  have "reads (RStar ?and) question_next (concat (map (\<lambda>d. js '' && '' @ cond_text d) cs)) Map.empty"
  proof (rule reads_star [where D = cond_end])
    fix w assume "w \<in> set (map (\<lambda>d. js '' && '' @ cond_text d) cs)"
    then obtain d where d: "d \<in> set (active t)" "w = js '' && '' @ cond_text d" using a by auto
    then show "reads ?and cond_end w Map.empty \<and> w \<noteq> []" using reads_and_cond [OF assms(1) d(1) r [OF d(1)]] by simp
    show "cond_end (w @ rest)" for rest using d(2) by (simp add: js_def cond_unit_def is_digit_def)
  next
    fix rest c assume "question_next rest"
    then obtain q where q: "rest = 32 # 63 # q" by (auto simp: question_next_def)
    then show "cond_end rest" by (simp add: cond_unit_def is_digit_def)
    show "rx_match ?and (rest, c) = []"
      unfolding q rx_cond_def by (simp add: js_def sp_lit js_ws_def lit_match del: rx_match.simps)
  qed (rule g)
  moreover have "cond_end (concat (map (\<lambda>d. js '' && '' @ cond_text d) cs) @ rest)" if "question_next rest" for rest
    using that by (cases cs) (auto simp: question_next_def js_def cond_unit_def is_digit_def)
  ultimately have "reads (RSeq (rx_seq rx_cond) (RStar ?and)) question_next (buildConditionStr (t_conditions t)) Map.empty"
    using reads_seq [OF reads_cond(1) [OF assms(1) _ r]] a b by fastforce
  from reads_group [OF this, of 1] show ?thesis by (simp add: condGroup_def)
qed

abbreviation cond_prefix :: regex where
  "cond_prefix \<equiv> rx_seq [condGroup, rx_sp, RLit (js ''?''), rx_sp]"

lemma cond_prefix_fails: "x \<notin> {112, 99, 108} \<Longrightarrow> rx_match cond_prefix (x # s, c) = []"
  by (simp add: condGroup_def rx_cond_def rx_var_def js_def)

lemma reads_cond_prefix:
  assumes "tier_ok t" and "active t \<noteq> []" and "all_readable t"
  shows "reads (ROpt cond_prefix) no_space (buildConditionStr (t_conditions t) @ js '' ? '') [1 \<mapsto> buildConditionStr (t_conditions t)]"
proof (rule reads_opt)
  have "reads (RSeq (RLit (js ''?'')) rx_sp) no_space (js ''?'' @ [32]) (Map.empty ++ Map.empty)"
    by (rule reads_seq [OF reads_lit [where D = "\<lambda>_. True"] reads_space(1) TrueI])
  from reads_seq [OF reads_space(1) this]
  have s: "reads (RSeq rx_sp (RSeq (RLit (js ''?'')) rx_sp)) no_space (js '' ? '') Map.empty" by (simp add: js_def js_ws_def)
  have "question_next (js '' ? '' @ rest)" for rest by (simp add: question_next_def js_def)
  from reads_seq [OF reads_condGroup [OF assms] s this]
  show "reads cond_prefix no_space (buildConditionStr (t_conditions t) @ js '' ? '') [1 \<mapsto> buildConditionStr (t_conditions t)]" by simp
  show "set (rx_groups cond_prefix) \<subseteq> dom [1 \<mapsto> buildConditionStr (t_conditions t)]"
    by (simp add: condGroup_def rx_cond_def rx_var_def rx_cmp_def cond_class rx_space_def cond_class_def)
qed simp

lemma tier_text_head: "tier_text label t @ rest = 116 # tl (tier_text label t) @ rest"
  by (simp add: tier_text_def js_def)

end
