(* ===== verification/TierPattern.thy ===== *)
theory TierPattern
  imports TieredPricingRead
begin

text \<open>
  Finding the tiers of a generated expression. The editor and the log display search the text with different patterns
  for the body of a tier, after the same optional condition; what both need of their pattern is the
  interface \<open>tier_pattern\<close>.
\<close>

section \<open>Searching\<close>

lemma search_here: "rx_first r (s, []) st \<Longrightarrow> rx_search r s = Some st"
  by (auto simp: rx_search.simps [of r s] rx_first_def)

lemma search_on: "rx_match r (c # cs, []) = [] \<Longrightarrow> rx_search r (c # cs) = rx_search r cs"
  by (simp add: rx_search.simps [of r "c # cs"])

text \<open>A variable that is multiplied is not the beginning of a condition.\<close>

lemma factor_no_condition:
  assumes "x \<in> {112, 99}"
  shows "rx_match cond_prefix (x # 32 # 42 # s, c) = []"
proof -
  have cmp: "rx_match (RSeq rx_cmp k) (y # r, d) = []" if "y \<notin> {60, 62}" for k y r d
    using that by (simp add: rx_cmp_def seq_alt lit_match js_def del: rx_match.simps)
  let ?k = "RSeq rx_cmp (RSeq rx_sp rx_condnum)"
  have "rx_match (RSeq rx_sp ?k) (32 # 42 # s, d) = rx_match ?k (dropWhile js_ws (32 # 42 # s), d)" for d
    by (rule sp_match, rule cmp) (auto simp: js_ws_def)
  then have sp: "rx_match (RSeq rx_sp ?k) (32 # 42 # s, d) = []" for d
    using cmp [of 42] by (simp add: js_ws_def del: rx_match.simps)
  have "rx_match rx_var (x # 32 # 42 # s, d) = [(32 # 42 # s, d)]" for d using assms by (auto simp: rx_var_def js_def)
  then have "rx_match (rx_seq rx_cond) (x # 32 # 42 # s, d) = []" for d
    using sp by (simp add: rx_cond_def del: rx_match.simps) (simp only: rx_match.simps(3) [of rx_var] list.map concat.simps sp append_Nil)
  then have "rx_match condGroup (x # 32 # 42 # s, d) = []" for d
    by (simp only: condGroup_def rx_match.simps(7) rx_match.simps(3) [of "rx_seq rx_cond"] list.map concat.simps)
  then show ?thesis by (simp only: rx_seq.simps rx_match.simps(3) [of condGroup] list.map concat.simps)
qed

section \<open>Reading conditions\<close>

lemma trim_padded:
  assumes "trimmed w" and "w \<noteq> []" and "\<forall>c \<in> set a. js_ws c" and "\<forall>c \<in> set b. js_ws c"
  shows "trim (a @ w @ b) = w"
proof -
  have "dropWhile js_ws (a @ w @ b) = w @ b" using assms by (cases w) (auto simp: dropWhile_append trimmed_def)
  moreover have "dropWhile js_ws (rev b @ rev w) = rev w"
  proof -
    have "dropWhile js_ws (rev w) = rev w" using assms(1,2) by (intro dropWhile_eq_self) (auto simp: trimmed_def hd_rev)
    then show ?thesis using assms(4) by (simp add: dropWhile_append)
  qed
  ultimately show ?thesis by (simp add: trim_def trimStart_def trimEnd_def)
qed

lemma split_and_last: "38 \<notin> set w \<Longrightarrow> split_and cur w = [cur @ w]"
proof (induction w arbitrary: cur)
  case (Cons c w)
  then show ?case by (cases w) auto
qed simp

lemma split_and_next: "38 \<notin> set w \<Longrightarrow> split_and cur (w @ 38 # 38 # s) = (cur @ w) # split_and [] s"
proof (induction w arbitrary: cur)
  case (Cons c w)
  then show ?case by (cases w) auto
qed simp

lemma split_and_join:
  assumes "\<forall>w \<in> set ws. 38 \<notin> set w \<and> trimmed w \<and> w \<noteq> []" and "ws \<noteq> []" and "\<forall>c \<in> set pre. js_ws c"
  shows "map trim (split_and [] (pre @ join (js '' && '') ws)) = ws"
  using assms
proof (induction ws arbitrary: pre)
  case (Cons w ws)
  have pre: "38 \<notin> set pre" using Cons.prems(3) by (auto simp: js_ws_def)
  show ?case
  proof (cases "ws = []")
    case True
    then show ?thesis using Cons.prems pre split_and_last [of "pre @ w" "[]"] trim_padded [of w pre "[]"] by simp
  next
    case False
    then have j: "pre @ join (js '' && '') (w # ws) = (pre @ w @ [32]) @ 38 # 38 # [32] @ join (js '' && '') ws"
      by (cases ws) (simp_all add: js_def)
    have "map trim (split_and [] ([32] @ join (js '' && '') ws)) = ws" using Cons False by (intro Cons.IH) (auto simp: js_ws_def)
    moreover have "trim (pre @ w @ [32]) = w" using Cons.prems by (intro trim_padded) (auto simp: js_ws_def)
    ultimately show ?thesis unfolding j using Cons.prems pre by (subst split_and_next) auto
  qed
qed simp

lemma cond_text_plain:
  assumes "tier_ok t" and "c \<in> set (active t)" and "cond_readable c"
  shows "38 \<notin> set (cond_text c) \<and> trimmed (cond_text c) \<and> cond_text c \<noteq> []"
proof -
  let ?n = "number_to_string (cond_num c)"
  note a = active_ok [OF assms(1,2)] and n = cond_num_head [OF assms]
  have u: "\<forall>x \<in> set ?n. num_unit x" by (rule number_units [OF n(1)])
  then have l: "\<not> js_ws (last ?n)" using last_in_set [OF n(3)] by (auto simp: num_unit_def is_digit_def js_ws_def)
  have "38 \<notin> set (tc_op c)" using a(2) by (auto simp: comparison_def js_def split: if_splits)
  moreover have "38 \<notin> set (tc_var c)" using a(1) by (auto simp: js_def)
  moreover have "38 \<notin> set ?n" using u by (auto simp: num_unit_def is_digit_def)
  ultimately show ?thesis
    using cond_text_shape [OF assms(1,2)] l n(3) by (auto simp: cond_text_parts [OF assms(1,2)] trimmed_def)
qed

lemma cond_record: "\<lparr>tc_var = tc_var c, tc_op = tc_op c, tc_value = tc_value c\<rparr> = c"
  by simp

lemma read_conditions_text:
  assumes "tier_ok t" and "all_readable t" and "active t \<noteq> []"
  shows "read_conditions (buildConditionStr (t_conditions t)) = active t"
proof -
  let ?s = "buildConditionStr (t_conditions t)"
  have r: "cond_readable c" if "c \<in> set (active t)" for c using assms(2) that by (simp add: all_readable_def list_all_iff)
  have "map trim (split_and [] ([] @ join (js '' && '') (map cond_text (active t)))) = map cond_text (active t)"
    using cond_text_plain [OF assms(1)] r assms(3) by (intro split_and_join) auto
  then have tr: "map trim (split_and [] ?s) = map cond_text (active t)" by (simp add: buildConditionStr_def active_def)
  define rd where "rd = (\<lambda>w. map_option (\<lambda>m. \<lparr>tc_var = cap m 1, tc_op = cap m 2, tc_value = JNum (string_to_number (cap m 3))\<rparr>) (rx_exec rx_cond_parts w))"
  have rd: "rd (cond_text c) = Some c" if c: "c \<in> set (active t)" for c
  proof -
    obtain m where m: "rx_exec rx_cond_parts (cond_text c) = Some m"
      "map_of m = [1 \<mapsto> tc_var c, 2 \<mapsto> tc_op c, 3 \<mapsto> number_to_string (cond_num c)]"
      using rx_exec_reads [OF reads_cond(2) [OF assms(1) c r [OF c]]] by (auto simp: rx_cond_parts_def)
    then have "cap m 1 = tc_var c" "cap m 2 = tc_op c" "cap m 3 = number_to_string (cond_num c)" by (simp_all add: cap_def)
    then show ?thesis using m(1) active_ok(3,4) [OF assms(1) c] by (simp add: rd_def string_to_number_text cond_record)
  qed
  have "List.map_filter (\<lambda>part. rd (trim part)) xs = List.map_filter rd (map trim xs)" for xs
    by (simp add: List.map_filter_def filter_map comp_def)
  then have "read_conditions ?s = List.map_filter rd (map cond_text (active t))"
    using buildConditionStr_ne [OF assms(1,3)] tr by (simp add: read_conditions_def rd_def)
  also have "\<dots> = active t" using rd by (simp add: List.map_filter_def filter_map comp_def map_idI)
  finally show ?thesis .
qed

section \<open>Tiers of a generated text\<close>

definition conditioned :: "visual_config \<Rightarrow> bool" where
  "conditioned tiers \<longleftrightarrow> (\<forall>t \<in> set tiers. tier_ok t \<and> all_readable t) \<and> (\<forall>t \<in> set (butlast tiers). active t \<noteq> [])"

lemma conditioned_Cons:
  "conditioned (t # ts) \<Longrightarrow> tier_ok t \<and> all_readable t \<and> conditioned ts \<and> (ts \<noteq> [] \<longrightarrow> active t \<noteq> [])"
  by (cases ts) (auto simp: conditioned_def)

lemma priced_conditioned: "priced tiers \<Longrightarrow> list_all all_readable tiers \<Longrightarrow> conditioned tiers"
  by (auto simp: conditioned_def priced_def guarded_def active_iff list_all_iff)

lemma name_no_quote: "tier_ok t \<Longrightarrow> 34 \<notin> set (tier_name i t)"
  using tier_name_units [of t i] by (auto simp: str_unit_def)

text \<open>The name of the only tier.\<close>

definition single_name :: "tier \<Rightarrow> jsstr" where
  "single_name t = (if t_label t = [] then js ''default'' else t_label t)"

lemma single_name_no_quote: "tier_ok t \<Longrightarrow> 34 \<notin> set (single_name t)"
  by (auto simp: single_name_def tier_ok_def list_all_iff str_unit_def js_def)

lemma generate_single:
  "generateExprFromVisualConfig (Some [t]) =
     (if buildConditionStr (t_conditions t) = [] then tier_text (single_name t) t
      else (buildConditionStr (t_conditions t) @ js '' ? '' @ tier_text (single_name t) t) @ js '' : '' @ zero_expr)"
  by (simp add: generateExprFromVisualConfig_def Let_def single_name_def)

fun part_caps :: "(jsstr \<Rightarrow> tier \<Rightarrow> nat \<rightharpoonup> jsstr) \<Rightarrow> nat \<Rightarrow> visual_config \<Rightarrow> (nat \<rightharpoonup> jsstr) list" where
  "part_caps caps i [] = []"
| "part_caps caps i (t # ts) =
     ((if ts = [] then Map.empty else [1 \<mapsto> buildConditionStr (t_conditions t)]) ++ caps (tier_name i t) t) # part_caps caps (i + 1) ts"

text \<open>What a reader makes of the tiers: \<open>sh\<close> is given the conditions that the text shows, the name and the tier.\<close>

fun tiers_as :: "(tier_cond list \<Rightarrow> jsstr \<Rightarrow> tier \<Rightarrow> 'a) \<Rightarrow> nat \<Rightarrow> visual_config \<Rightarrow> 'a list" where
  "tiers_as sh i [] = []"
| "tiers_as sh i (t # ts) = sh (if ts = [] then [] else active t) (tier_name i t) t # tiers_as sh (i + 1) ts"

definition all_tiers_as :: "(tier_cond list \<Rightarrow> jsstr \<Rightarrow> tier \<Rightarrow> 'a) \<Rightarrow> visual_config \<Rightarrow> 'a list" where
  "all_tiers_as sh tiers = (case tiers of [t] \<Rightarrow> [sh (active t) (single_name t) t] | _ \<Rightarrow> tiers_as sh 0 tiers)"

locale tier_pattern =
  fixes whole :: regex and tail :: "regex list" and caps :: "jsstr \<Rightarrow> tier \<Rightarrow> nat \<rightharpoonup> jsstr"
    and rd :: "captures \<Rightarrow> 'a" and sh :: "tier_cond list \<Rightarrow> jsstr \<Rightarrow> tier \<Rightarrow> 'a"
  assumes whole: "whole = rx_seq (ROpt cond_prefix # tail)"
    and tail_ne: "tail \<noteq> []"
    and tail_fails: "s = [] \<or> hd s \<noteq> 116 \<Longrightarrow> rx_match (rx_seq tail) (s, c) = []"
    and tail_reads: "tier_ok t \<Longrightarrow> 34 \<notin> set label \<Longrightarrow> reads (rx_seq tail) D (tier_text label t) (caps label t)"
    and read_text: "tier_ok t \<Longrightarrow> map_of m = g ++ caps label t
      \<Longrightarrow> g = Map.empty \<and> cs = [] \<or> g = [1 \<mapsto> w] \<and> read_conditions w = cs \<Longrightarrow> rd m = sh cs label t"
begin

lemma whole_seq: "whole = RSeq (ROpt cond_prefix) (rx_seq tail)"
  unfolding whole using tail_ne by (rule rx_seq_Cons)

lemma whole_fails:
  assumes "rx_match cond_prefix (s, clear_groups (rx_groups cond_prefix) c) = []" and "s = [] \<or> hd s \<noteq> 116"
  shows "rx_match whole (s, c) = []"
proof -
  have opt: "rx_match (ROpt cond_prefix) (s, c) = [(s, c)]" by (simp only: rx_match.simps(5) fst_conv snd_conv assms(1)) simp
  show ?thesis
    unfolding whole_seq rx_match.simps(3) [of "ROpt cond_prefix"] opt using tail_fails [OF assms(2)] by simp
qed

lemma other_fails: "x \<notin> {112, 99, 108, 116} \<Longrightarrow> rx_match whole (x # s, c) = []"
  by (rule whole_fails [OF cond_prefix_fails]) simp_all

lemma search_Nil: "rx_search whole [] = None"
proof -
  have "rx_match cond_prefix ([], c) = []" for c by (simp add: condGroup_def rx_cond_def rx_var_def js_def)
  then have "rx_match whole ([], []) = []" by (rule whole_fails) simp
  then show ?thesis unfolding rx_search.simps [of _ "[]"] by simp
qed

lemma matches_Nil: "rx_matches whole [] = []"
  unfolding rx_matches.simps [of _ "[]"] search_Nil by simp

lemma search_colon: "rx_search whole (js '' : '' @ s) = rx_search whole s"
  by (simp add: js_def search_on other_fails)

lemma matches_step:
  assumes "reads whole (\<lambda>_. True) w g" and "w \<noteq> []" and "pre = [] \<or> pre = js '' : ''"
  obtains m where "map_of m = g"
    and "rx_matches whole (pre @ w @ rest) = m # rx_matches whole rest"
proof -
  obtain m where "rx_first whole (w @ rest, []) (rest, m)" "map_of m = map_of [] ++ g" using readsE [OF assms(1) TrueI] by metis
  then have m: "rx_search whole (w @ rest) = Some (rest, m)" "map_of m = g" using search_here by auto
  have "rx_search whole (pre @ w @ rest) = Some (rest, m)" using m(1) assms(3) search_colon by auto
  then have "rx_matches whole (pre @ w @ rest) = m # rx_matches whole rest"
    using assms(2) by (simp add: rx_matches.simps [of whole "pre @ w @ rest"])
  with m(2) show ?thesis by (rule that)
qed

lemma matches_parts:
  assumes "list_all2 (\<lambda>w g. reads whole (\<lambda>_. True) w g \<and> w \<noteq> []) ws gs" and "ws \<noteq> []"
    and "pre = [] \<or> pre = js '' : ''"
  shows "list_all2 (\<lambda>m g. map_of m = g) (rx_matches whole (pre @ join (js '' : '') ws)) gs"
  using assms
proof (induction ws arbitrary: gs pre)
  case (Cons w ws)
  obtain g gs' where g: "gs = g # gs'" "reads whole (\<lambda>_. True) w g" "w \<noteq> []"
    "list_all2 (\<lambda>w g. reads whole (\<lambda>_. True) w g \<and> w \<noteq> []) ws gs'" using Cons.prems(1) by (auto simp: list_all2_Cons1)
  show ?case
  proof (cases "ws = []")
    case True
    obtain m where "map_of m = g" "rx_matches whole (pre @ w @ []) = m # rx_matches whole []" using matches_step [OF g(2,3) Cons.prems(3)] .
    then show ?thesis using True g matches_Nil by simp
  next
    case False
    then have j: "join (js '' : '') (w # ws) = w @ js '' : '' @ join (js '' : '') ws" by (cases ws) simp_all
    obtain m where "map_of m = g" "rx_matches whole (pre @ w @ js '' : '' @ join (js '' : '') ws) = m # rx_matches whole (js '' : '' @ join (js '' : '') ws)"
      using matches_step [OF g(2,3) Cons.prems(3)] .
    then show ?thesis using Cons.IH [OF g(4) False] g(1) unfolding j by simp
  qed
qed simp

lemma zero_no_tiers: "rx_matches whole (js '' : '' @ zero_expr) = []"
proof -
  have f: "rx_match whole (x # 32 # 42 # s, c) = []" if "x \<in> {112, 99}" for x s c
    using that by (intro whole_fails [OF factor_no_condition]) auto
  have "rx_search whole (js '' : '' @ zero_expr) = None"
    by (simp add: zero_expr_def js_def search_on other_fails f search_Nil)
  then show ?thesis by (simp add: rx_matches.simps)
qed

lemma reads_plain:
  assumes "tier_ok t" and "34 \<notin> set label"
  shows "reads whole D (tier_text label t) (caps label t)"
proof -
  have "reads (ROpt cond_prefix) (\<lambda>rest. \<exists>r. rest = 116 # r) [] Map.empty"
  proof (rule reads_opt_absent)
    fix rest :: jsstr and c assume "\<exists>r. rest = 116 # r"
    then obtain r where r: "rest = 116 # r" by blast
    show "rx_match cond_prefix (rest, c) = []" unfolding r by (rule cond_prefix_fails) simp
  qed
  from reads_Cons [OF this tail_reads [OF assms] _ tail_ne] tier_text_head [of label t]
  have "reads whole D ([] @ tier_text label t) (Map.empty ++ caps label t)" unfolding whole by blast
  then show ?thesis by (simp only: append_Nil empty_map_add)
qed

lemma reads_conditioned:
  assumes "tier_ok t" and "34 \<notin> set label" and "active t \<noteq> []" and "all_readable t"
  shows "reads whole D (buildConditionStr (t_conditions t) @ js '' ? '' @ tier_text label t)
      ([1 \<mapsto> buildConditionStr (t_conditions t)] ++ caps label t)"
proof -
  have "no_space (tier_text label t @ rest)" for rest by (simp add: tier_text_def js_def js_ws_def)
  from reads_Cons [OF reads_cond_prefix [OF assms(1,3,4)] tail_reads [OF assms(1,2)] this tail_ne] show ?thesis unfolding whole by (simp del: rx_seq.simps)
qed

lemma parts_read:
  assumes "conditioned tiers"
  shows "list_all2 (\<lambda>w g. reads whole (\<lambda>_. True) w g \<and> w \<noteq> []) (tier_parts i tiers) (part_caps caps i tiers)"
  using assms
proof (induction i tiers rule: tier_parts.induct)
  case (2 i t ts)
  note c = conditioned_Cons [OF 2(2)]
  have ok: "tier_ok t" "34 \<notin> set (tier_name i t)" using c name_no_quote by auto
  have ne: "tier_text (tier_name i t) t \<noteq> []" by (simp add: tier_text_def)
  have rest: "list_all2 (\<lambda>w g. reads whole (\<lambda>_. True) w g \<and> w \<noteq> []) (tier_parts (i + 1) ts) (part_caps caps (i + 1) ts)"
    using 2 c by simp
  show ?case
  proof (cases "ts = []")
    case True
    then show ?thesis using rest ne reads_plain [OF ok] by (simp add: Let_def tier_name_def)
  next
    case False
    then have a: "active t \<noteq> []" "all_readable t" using c by auto
    then show ?thesis
      using False rest reads_conditioned [OF ok a] buildConditionStr_ne [OF ok(1) a(1)] by (simp add: Let_def tier_name_def)
  qed
qed simp

lemma read_parts:
  assumes "conditioned tiers" and "list_all2 (\<lambda>m g. map_of m = g) ms (part_caps caps i tiers)"
  shows "map rd ms = tiers_as sh i tiers"
  using assms
proof (induction tiers arbitrary: ms i)
  case (Cons t ts)
  then obtain m ms' where m: "ms = m # ms'" "map_of m = (if ts = [] then Map.empty else [1 \<mapsto> buildConditionStr (t_conditions t)]) ++ caps (tier_name i t) t"
    "list_all2 (\<lambda>m g. map_of m = g) ms' (part_caps caps (i + 1) ts)" by (auto simp: list_all2_Cons2)
  note c = conditioned_Cons [OF Cons.prems(1)]
  have "rd m = sh (if ts = [] then [] else active t) (tier_name i t) t"
    using c read_conditions_text by (intro read_text [OF _ m(2)]) auto
  then show ?case using Cons.IH m c by simp
qed simp

lemma generated_tiers:
  assumes "conditioned tiers" and "tiers \<noteq> []"
  shows "map rd (rx_matches whole (generateExprFromVisualConfig (Some tiers))) = all_tiers_as sh tiers"
proof (cases "\<exists>t. tiers = [t]")
  case True
  then obtain t where t: "tiers = [t]" by blast
  let ?c = "buildConditionStr (t_conditions t)"
  have ok: "tier_ok t" "34 \<notin> set (single_name t)" "all_readable t" using conditioned_Cons [of t "[]"] assms(1) t single_name_no_quote by auto
  show ?thesis
  proof (cases "active t = []")
    case True
    have "tier_text (single_name t) t \<noteq> []" by (simp add: tier_text_def)
    then obtain m where m: "map_of m = caps (single_name t) t" "rx_matches whole ([] @ tier_text (single_name t) t @ []) = m # rx_matches whole []"
      using matches_step [OF reads_plain [OF ok(1,2)], of "[]" "[]"] by blast
    have "rd m = sh [] (single_name t) t" using m(1) by (intro read_text [OF ok(1), where g = Map.empty]) auto
    moreover have "?c = []" using True by (simp add: buildConditionStr_def active_def)
    ultimately show ?thesis
      using m(2) matches_Nil True t by (simp add: all_tiers_as_def generate_single)
  next
    case False
    obtain m where m: "map_of m = [1 \<mapsto> ?c] ++ caps (single_name t) t"
      "rx_matches whole ([] @ (?c @ js '' ? '' @ tier_text (single_name t) t) @ js '' : '' @ zero_expr) = m # rx_matches whole (js '' : '' @ zero_expr)"
      using matches_step [OF reads_conditioned [OF ok(1,2) False ok(3)], of "[]" "js '' : '' @ zero_expr"] by auto
    have "rd m = sh (active t) (single_name t) t"
      using m(1) read_conditions_text [OF ok(1,3) False] by (intro read_text [OF ok(1), where g = "[1 \<mapsto> ?c]"]) auto
    then show ?thesis
      using m(2) zero_no_tiers t buildConditionStr_ne [OF ok(1) False] by (simp add: all_tiers_as_def generate_single)
  qed
next
  case False
  then obtain t u ts where t: "tiers = t # u # ts" using assms(2) by (metis neq_Nil_conv)
  have "tier_parts 0 tiers \<noteq> []" by (simp add: t Let_def)
  from read_parts [OF assms(1) matches_parts [OF parts_read [OF assms(1)] this, of "[]"]] t show ?thesis
    by (simp add: all_tiers_as_def generateExprFromVisualConfig_def)
qed

end

end
