(* ===== verification/TieredPricingRoundtrip.thy ===== *)
theory TieredPricingRoundtrip
  imports TierPattern
begin

text \<open>
  The round trip of the tiered price editor: an expression that was generated from tiers is read back as
  the tiers that the reader of the expression can see, and generates the same expression again.
\<close>

section \<open>Reading costs\<close>

text \<open>The costs that a generated expression shows: the two base costs and the extra costs that are not zero.\<close>

definition shown_costs :: "tier \<Rightarrow> jsstr \<rightharpoonup> jsval" where
  "shown_costs t = base_costs (JNum (unit_cost t (js ''input_unit_cost''))) (JNum (unit_cost t (js ''output_unit_cost'')))
     ++ map_of (concat (map (\<lambda>(f, x). if num_is_zero (unit_cost t f) then [] else [(f, JNum (unit_cost t f))]) BILLING_CACHE_VAR_MAP))"

lemma read_costs_text:
  assumes "tier_ok t" and m: "map_of m = g ++ tier_caps i label t" and g: "\<And>k. i \<le> k \<Longrightarrow> g k = None"
  shows "read_costs (i + 1) m = shown_costs t" and "cap m i = label"
proof -
  note ok = tier_costs_ok [OF assms(1)]
  have x: "extra_caps (var_cost t) (i + 3) extra_names k = None" if "k < i + 3" for k using that by (simp add: extra_caps_def)
  then have caps: "map_of m i = Some label" "map_of m (i + 1) = Some (number_to_string (unit_cost t (js ''input_unit_cost'')))"
    "map_of m (i + 2) = Some (number_to_string (unit_cost t (js ''output_unit_cost'')))"
    by (simp_all add: m tier_caps_def map_add_def)
  then show "cap m i = label" by (simp add: cap_def)
  let ?h = "\<lambda>f. if num_is_zero (unit_cost t f) then [] else [(f, JNum (unit_cost t f))]"
  have "(case map_of m (i + 1 + 2 + j) of None \<Rightarrow> [] | Some w \<Rightarrow> [(f, JNum (string_to_number w))])
      = (if num_is_zero (unit_cost t f) then [] else [(f, JNum (unit_cost t f))])"
    if "(j, f, x) \<in> set (List.enumerate 0 BILLING_CACHE_VAR_MAP)" for j f x
  proof -
    have jx: "j < length BILLING_CACHE_VAR_MAP" "BILLING_CACHE_VAR_MAP ! j = (f, x)"
      using that by (auto simp: in_set_enumerate_eq)
    then have z: "(f, x) \<in> set BILLING_CACHE_VAR_MAP" "extra_names ! j = x" by (metis nth_mem, simp)
    have n: "json_num_ok (unit_cost t f)" using ok(3) z(1) var_cost_field [OF z(1)] by force
    have "map_of m (i + 1 + 2 + j) = (if num_is_zero (unit_cost t f) then None else Some (number_to_string (unit_cost t f)))"
      using jx z g [of "i + 1 + 2 + j"] var_cost_field [OF z(1), of t] by (simp add: m tier_caps_def map_add_def extra_caps_def)
    then show ?thesis by (simp add: string_to_number_text [OF n])
  qed
  then have "map (\<lambda>(j, f, _). case map_of m (i + 1 + 2 + j) of None \<Rightarrow> [] | Some w \<Rightarrow> [(f, JNum (string_to_number w))]) (List.enumerate 0 BILLING_CACHE_VAR_MAP)
      = map (\<lambda>z. ?h (fst (snd z))) (List.enumerate 0 BILLING_CACHE_VAR_MAP)"
    by (intro map_cong) auto
  also have "\<dots> = map (\<lambda>z. ?h (fst z)) (map snd (List.enumerate 0 BILLING_CACHE_VAR_MAP))" by (simp only: map_map comp_def)
  finally show "read_costs (i + 1) m = shown_costs t"
    using caps ok(1,2) by (simp add: read_costs_def shown_costs_def cap_def string_to_number_text case_prod_unfold)
qed

section \<open>The round trip\<close>

text \<open>A tier as the reader of its text sees it.\<close>

definition shown_tier :: "tier_cond list \<Rightarrow> jsstr \<Rightarrow> tier \<Rightarrow> tier" where
  "shown_tier conds label t = normalizeVisualTier \<lparr>t_conditions = conds, t_costs = shown_costs t, t_label = label, t_cache_mode = None\<rparr>"

fun shown_from :: "nat \<Rightarrow> visual_config \<Rightarrow> visual_config" where
  "shown_from i [] = []"
| "shown_from i (t # ts) = shown_tier (if ts = [] then [] else active t) (tier_name i t) t # shown_from (i + 1) ts"

definition shown_tiers :: "visual_config \<Rightarrow> visual_config" where
  "shown_tiers tiers =
     (case tiers of [t] \<Rightarrow> [shown_tier (active t) (if t_label t = [] then js ''default'' else t_label t) t] | _ \<Rightarrow> shown_from 0 tiers)"

lemma normalize_tier_idem [simp]: "normalizeVisualTier (normalizeVisualTier t) = normalizeVisualTier t"
  by (simp add: normalizeVisualTier_def getTierCacheMode_def)

lemma shown_tier_simps [simp]:
  "t_conditions (shown_tier cs l t) = cs" "t_costs (shown_tier cs l t) = shown_costs t" "t_label (shown_tier cs l t) = l"
  "normalizeVisualTier (shown_tier cs l t) = shown_tier cs l t"
  by (simp_all add: shown_tier_def) (simp_all add: normalizeVisualTier_def)

lemma unit_cost_simps: "number_or_zero (JNum (unit_cost t f)) = unit_cost t f" "num_is_zero (unit_cost t f) \<Longrightarrow> unit_cost t f = Fin 0"
  by (auto simp: unit_cost_def number_or_zero_def Let_def num_is_zero_def split: if_splits)

lemma shown_unit_cost:
  assumes "f \<in> set cost_fields"
  shows "unit_cost (shown_tier cs l t) f = unit_cost t f"
proof -
  define e where "e = concat (map (\<lambda>(f, x). if num_is_zero (unit_cost t f) then [] else [(f, JNum (unit_cost t f))]) BILLING_CACHE_VAR_MAP)"
  have costs: "shown_costs t = base_costs (JNum (unit_cost t (js ''input_unit_cost''))) (JNum (unit_cost t (js ''output_unit_cost''))) ++ map_of e"
    by (simp add: shown_costs_def e_def)
  have mem: "(f, v) \<in> set e \<longleftrightarrow> f \<in> fst ` set BILLING_CACHE_VAR_MAP \<and> \<not> num_is_zero (unit_cost t f) \<and> v = JNum (unit_cost t f)" for f v
    by (auto simp: e_def image_iff) (metis fst_conv list.set_intros(1))+
  have present: "unit_cost (shown_tier cs l t) f = unit_cost t f" if "shown_costs t f = Some (JNum (unit_cost t f))"
    using that unit_cost_simps(1) [of t f] by (simp add: unit_cost_def [of "shown_tier cs l t"] cost_field_def)
  show ?thesis
  proof (cases "f \<in> fst ` set BILLING_CACHE_VAR_MAP")
    case False
    then have "map_of e f = None" using mem by (auto simp: map_of_eq_None_iff)
    moreover have "f = js ''input_unit_cost'' \<or> f = js ''output_unit_cost''" using False assms by (auto simp: cost_fields_def)
    ultimately show ?thesis by (intro present) (auto simp: costs base_costs_def map_add_def)
  next
    case True
    then have nb: "f \<noteq> js ''input_unit_cost''" "f \<noteq> js ''output_unit_cost''" by (auto simp: billing_defs)
    show ?thesis
    proof (cases "map_of e f")
      case None
      then have "num_is_zero (unit_cost t f)" using True mem [of f "JNum (unit_cost t f)"] by (force simp: map_of_eq_None_iff)
      moreover have "shown_costs t f = None" using nb None by (simp add: costs base_costs_def map_add_def)
      then have "unit_cost (shown_tier cs l t) f = Fin 0" by (simp add: unit_cost_def cost_field_def number_or_zero_def)
      ultimately show ?thesis using unit_cost_simps(2) by metis
    next
      case (Some v)
      then have "v = JNum (unit_cost t f)" using mem map_of_SomeD by metis
      then show ?thesis using Some by (intro present) (simp add: costs)
    qed
  qed
qed

lemma shown_body: "buildTierBodyExpr (shown_tier cs l t) = buildTierBodyExpr t"
proof -
  have f: "unit_cost (shown_tier cs l t) f = unit_cost t f" if "(f, x) \<in> set BILLING_CACHE_VAR_MAP" for f x
    using that by (intro shown_unit_cost) (force simp: cost_fields_def)
  have "extra_parts (shown_tier cs l t) = extra_parts t"
    unfolding extra_parts_def using f by (auto intro!: map_cong filter_cong)
  moreover have "unit_cost (shown_tier cs l t) (js ''input_unit_cost'') = unit_cost t (js ''input_unit_cost'')"
    "unit_cost (shown_tier cs l t) (js ''output_unit_cost'') = unit_cost t (js ''output_unit_cost'')"
    by (rule shown_unit_cost, simp add: cost_fields_def)+
  ultimately show ?thesis by (simp add: buildTierBodyExpr_def)
qed

lemma active_text: "buildConditionStr (active t) = buildConditionStr (t_conditions t)"
  by (simp add: buildConditionStr_def active_def)

lemma shown_text: "tier_text l (shown_tier cs l' t) = tier_text l t"
  by (simp add: tier_text_def shown_body)

lemma tier_name_ne: "tier_name i t \<noteq> []"
  by (simp add: tier_name_def nth_label_def)

lemma shown_from_Nil: "shown_from i ts = [] \<longleftrightarrow> ts = []"
  by (cases ts) auto

lemma shown_parts: "tier_parts i (shown_from i ts) = tier_parts i ts"
proof (induction i ts rule: shown_from.induct)
  case (2 i t ts)
  have "(if tier_name i t = [] then nth_label (i + 1) else tier_name i t) = tier_name i t" using tier_name_ne by simp
  then show ?case using 2 by (simp add: Let_def shown_text shown_from_Nil active_text tier_name_def)
qed simp

lemma generate_shown: "generateExprFromVisualConfig (Some (shown_tiers tiers)) = generateExprFromVisualConfig (Some tiers)"
proof -
  consider "tiers = []" | t where "tiers = [t]" | t u ts where "tiers = t # u # ts" by (cases tiers rule: remdups_adj.cases) auto
  then show ?thesis
  proof cases
    case 2
    then show ?thesis by (simp add: generateExprFromVisualConfig_def shown_tiers_def Let_def shown_text active_text)
  next
    case 3
    then have "generateExprFromVisualConfig (Some (shown_tiers tiers)) = join (js '' : '') (tier_parts 0 (shown_from 0 tiers))"
      by (simp add: generateExprFromVisualConfig_def shown_tiers_def)
    then show ?thesis using 3 unfolding shown_parts by (simp add: generateExprFromVisualConfig_def)
  qed (simp add: shown_tiers_def)
qed

definition read_tier :: "captures \<Rightarrow> tier" where
  "read_tier m = normalizeVisualTier \<lparr>t_conditions = read_conditions (cap m 1), t_costs = read_costs 3 m, t_label = cap m 2, t_cache_mode = None\<rparr>"

lemma read_tier_text:
  assumes "tier_ok t" and "map_of m = g ++ tier_caps 2 label t" and "g = Map.empty \<and> cs = [] \<or> g = [1 \<mapsto> w] \<and> read_conditions w = cs"
  shows "read_tier m = shown_tier cs label t"
proof -
  have gk: "g k = None" if "2 \<le> k" for k using assms(3) that by auto
  have "tier_caps 2 label t 1 = None" by (simp add: tier_caps_def map_add_def extra_caps_def)
  then have "cap m 1 = (case g 1 of None \<Rightarrow> [] | Some w \<Rightarrow> w)" by (simp add: cap_def assms(2) map_add_def)
  then have "read_conditions (cap m 1) = cs" using assms(3) by (auto simp: read_conditions_def)
  then show ?thesis using read_costs_text [OF assms(1,2) gk] by (simp add: read_tier_def shown_tier_def)
qed

lemma tiers_as_shown: "tiers_as shown_tier i ts = shown_from i ts"
  by (induction i ts rule: shown_from.induct) simp_all

lemma all_tiers_as_shown: "all_tiers_as shown_tier tiers = shown_tiers tiers"
  by (simp add: all_tiers_as_def shown_tiers_def single_name_def tiers_as_shown split: list.splits)

interpretation visual: tier_pattern tierRe "rx_tier 2" "tier_caps 2" read_tier shown_tier
proof unfold_locales
  show "tierRe = rx_seq (ROpt cond_prefix # rx_tier 2)" by (simp add: tierRe_def del: rx_seq.simps)
  show "rx_tier 2 \<noteq> []" by (simp add: rx_tier_def)
  show "rx_match (rx_seq (rx_tier 2)) (s, c) = []" if "s = [] \<or> hd s \<noteq> 116" for s c
    using that by (cases s) (simp_all add: rx_tier_def rx_body_def js_def)
qed (use reads_tier read_tier_text in auto)

lemma not_version: "x \<noteq> 118 \<Longrightarrow> strip_version (x # s) = x # s"
  by (simp add: strip_version_def rx_exec_def rx_at_start_def rx_version_def js_def)

lemma not_single: "x \<noteq> 116 \<Longrightarrow> rx_exec singleRe (x # s) = None"
  by (simp add: singleRe_def rx_exec_def rx_at_start_def rx_tier_def rx_body_def js_def)

text \<open>An expression that begins with a condition is read by the loop over the tiers.\<close>

lemma parse_loop:
  assumes "s = x # r" and "x \<in> {112, 99, 108}" and "map read_tier (rx_matches tierRe s) = shown" and "shown \<noteq> []"
    and "map normalizeVisualTier shown = shown" and "generateExprFromVisualConfig (Some shown) = s"
  shows "tryParseVisualConfig s = Some shown"
proof -
  have v: "strip_version s = s" "rx_exec singleRe s = None" using assms(1,2) not_version not_single by auto
  have "map (\<lambda>m. normalizeVisualTier \<lparr>t_conditions = read_conditions (cap m 1), t_costs = read_costs 3 m, t_label = cap m 2, t_cache_mode = None\<rparr>)
      (rx_matches tierRe s) = shown" using assms(3) by (simp add: read_tier_def [abs_def])
  then show ?thesis using assms(1,4-6) v unfolding tryParseVisualConfig_def by (simp add: Let_def normalizeVisualConfig_def)
qed

lemma shown_normal: "map normalizeVisualTier (shown_from i ts) = shown_from i ts"
  by (induction i ts rule: shown_from.induct) simp_all

lemma cond_head:
  assumes "tier_ok t" and "active t \<noteq> []"
  obtains x r where "buildConditionStr (t_conditions t) = x # r" and "x \<in> {112, 99, 108}"
proof -
  obtain c cs where a: "active t = c # cs" using assms(2) by (cases "active t") auto
  then have c: "cond_text c \<noteq> []" "hd (cond_text c) \<in> {112, 99, 108}" using cond_text_shape(1,3) [OF assms(1), of c] by auto
  have "buildConditionStr (t_conditions t) = cond_text c @ concat (map ((@) (js '' && '')) (map cond_text cs))"
    unfolding buildConditionStr_def active_def [symmetric] a list.map(2) join_seps ..
  then show ?thesis using that [of "hd (cond_text c)"] c by (cases "cond_text c") auto
qed

lemma several_read:
  assumes "conditioned tiers" and "tiers \<noteq> []" and "active (hd tiers) \<noteq> []"
  shows "tryParseVisualConfig (generateExprFromVisualConfig (Some tiers)) = Some (shown_tiers tiers)"
proof -
  let ?s = "generateExprFromVisualConfig (Some tiers)"
  obtain t ts where t: "tiers = t # ts" using assms(2) by (cases tiers) auto
  have ok: "tier_ok t" "active t \<noteq> []" using conditioned_Cons [of t ts] assms t by auto
  obtain x r where x: "buildConditionStr (t_conditions t) = x # r" "x \<in> {112, 99, 108}" using cond_head [OF ok] .
  have "\<exists>r'. ?s = x # r'"
  proof (cases ts)
    case Nil
    then show ?thesis using x(1) t by (simp add: generate_single)
  next
    case (Cons u us)
    then show ?thesis using x(1) t by (cases us) (simp_all add: generateExprFromVisualConfig_def Let_def)
  qed
  then obtain r' where s: "?s = x # r'" by blast
  have m: "map read_tier (rx_matches tierRe ?s) = shown_tiers tiers"
    using visual.generated_tiers [OF assms(1,2)] by (simp add: all_tiers_as_shown)
  have "shown_tiers tiers \<noteq> []" "map normalizeVisualTier (shown_tiers tiers) = shown_tiers tiers"
    using assms(2) shown_from_Nil [of 0] by (auto simp: shown_tiers_def shown_normal split: list.splits)
  then show ?thesis using m generate_shown by (intro parse_loop [OF s x(2)]) auto
qed

lemma single_tier_read:
  assumes "conditioned [t]" and "active t = []"
  shows "tryParseVisualConfig (generateExprFromVisualConfig (Some [t])) = Some (shown_tiers [t])"
proof -
  define l where "l = single_name t"
  have ok: "tier_ok t" "34 \<notin> set l" using conditioned_Cons [OF assms(1)] single_name_no_quote by (auto simp: l_def)
  have g: "generateExprFromVisualConfig (Some [t]) = tier_text l t" "shown_tiers [t] = [shown_tier [] l t]"
    using assms(2) by (simp_all add: generate_single l_def buildConditionStr_def active_def shown_tiers_def single_name_def)
  obtain m where m: "rx_exec singleRe (tier_text l t) = Some m" "map_of m = Map.empty ++ tier_caps 1 l t"
    using rx_exec_reads [OF reads_tier [OF ok, of 1 "\<lambda>_. True"]] by (auto simp: singleRe_def rx_tier_def)
  have "strip_version (tier_text l t) = tier_text l t" "tier_text l t \<noteq> []"
    using not_version [of 116] by (simp_all add: tier_text_def js_def)
  then show ?thesis
    using m(1) read_costs_text [OF ok(1) m(2)] unfolding g
    by (simp add: tryParseVisualConfig_def Let_def normalizeVisualConfig_def shown_tier_def numeral_2_eq_2)
qed

lemma read_back:
  assumes "priced tiers" and "tiers \<noteq> []" and "list_all all_readable tiers"
  shows "tryParseVisualConfig (generateExprFromVisualConfig (Some tiers)) = Some (shown_tiers tiers)
    \<and> generateExprFromVisualConfig (Some (shown_tiers tiers)) = generateExprFromVisualConfig (Some tiers)"
proof -
  have c: "conditioned tiers" using priced_conditioned [OF assms(1,3)] .
  obtain t ts where t: "tiers = t # ts" using assms(2) by (cases tiers) auto
  show ?thesis
  proof (cases "active t = []")
    case True
    then have "ts = []" using c t by (cases ts) (auto simp: conditioned_def)
    then show ?thesis using single_tier_read True c t generate_shown by auto
  next
    case False
    then show ?thesis using several_read [OF c assms(2)] t generate_shown by simp
  qed
qed

text \<open>
  C6: reading back what was written: for tiers with the inputs of the editor and condition values without a
  minus sign, parsing the generated expression gives the tiers with their names, their costs (extra costs
  of zero left out) and their complete conditions (none on the last of several tiers), and generating
  from these gives the same text, so that leaving and reopening the editor changes nothing.
\<close>

theorem tiers_read_back:
  assumes "priced tiers" and "tiers \<noteq> []" and "list_all all_readable tiers"
  shows "tryParseVisualConfig (generateExprFromVisualConfig (Some tiers)) = Some (shown_tiers tiers)
    \<and> generateExprFromVisualConfig (Some (shown_tiers tiers)) = generateExprFromVisualConfig (Some tiers)"
  using assms by (rule read_back)

lemma sample_readable: "list_all all_readable sample_tiers"
proof -
  have r: "rnd 200000 = Fin 200000" using rnd_of_int [of 200000] by simp
  then have "digit_candidate 200000 6 1 = Some 2" by (simp add: digit_candidate_def Let_def pow10_def)
  moreover have "dec_exp 200000 = 6" "show_nat 2 = js ''2''" by code_simp+
  ultimately have "shortest_digits 200000 = (js ''2'', 6)" by (simp add: shortest_digits_def Let_def upto_rec1 [of 1 17])
  then have "number_to_string (Fin 200000) = js ''2'' @ zeros 5" by (simp add: show_pos_def)
  then have "45 \<notin> set (number_to_string (Fin 200000))" by (simp add: js_def zeros_def)
  then show ?thesis
    by (simp add: all_readable_def sample_tiers_def active_def default_condition_def cond_complete_def cond_readable_def del: number_to_string.simps)
qed

theorem tiers_read_back_witness:
  "tryParseVisualConfig (generateExprFromVisualConfig (Some sample_tiers)) = Some (shown_tiers sample_tiers)
   \<and> generateExprFromVisualConfig (Some (shown_tiers sample_tiers)) = generateExprFromVisualConfig (Some sample_tiers)"
  using tiers_read_back [OF sample_tiers_priced] sample_readable by (simp add: sample_tiers_def)

end
