(* ===== verification/TieredPricingEditor.thy ===== *)
theory TieredPricingEditor
  imports TieredPricingRoundtrip RequestRuleRoundtrip
begin

text \<open>
  The state of the tiered price editor, \<open>TieredPricingEditor\<close> in
  \<open>src/web/src/pages/Setting/Ratio/components/TieredPricingEditor.jsx\<close>: a visual and a textual view of one billing
  expression, the groups of request rules beside it, and the two texts of the model that the
  parent holds and saves. An event is a handler followed by the effects that React runs after rendering.
\<close>

section \<open>State\<close>

datatype editor_mode = Visual | Raw

record tiered_editor =
  te_mode :: editor_mode
  te_config :: "visual_config option"
  te_raw :: jsstr
  te_groups :: "rule_group list"
  te_expr :: jsstr     \<comment> \<open>\<open>model.billingExpr\<close>, held by the parent\<close>
  te_rules :: jsstr    \<comment> \<open>\<open>requestRuleExpr\<close>, held by the parent\<close>

definition effectiveExpr :: "tiered_editor \<Rightarrow> js_error + jsstr" where
  "effectiveExpr st =
     (case te_mode st of
        Visual \<Rightarrow> Inr (generateExprFromVisualConfig (te_config st))
      | Raw \<Rightarrow> (case splitBillingExprAndRequestRules (te_raw st) of Inl x \<Rightarrow> Inl x | Inr s \<Rightarrow> Inr (billingExpr s)))"

definition groups_of :: "rule_group list option \<Rightarrow> rule_group list" where
  "groups_of r = (case r of None \<Rightarrow> [] | Some gs \<Rightarrow> gs)"

text \<open>The effect that loads the expression of the selected model.\<close>

definition load_model :: "tiered_editor \<Rightarrow> tiered_editor" where
  "load_model st =
     (case tryParseVisualConfig (te_expr st) of
        Some parsed \<Rightarrow> st\<lparr>te_mode := Visual, te_config := Some parsed, te_raw := te_expr st\<rparr>
      | None \<Rightarrow>
          if te_expr st \<noteq> [] then st\<lparr>te_mode := Raw, te_raw := te_expr st, te_config := None\<rparr>
          else st\<lparr>te_mode := Visual, te_config := Some createDefaultVisualConfig, te_raw := []\<rparr>)"

text \<open>The effect on a change of the rule expression reads the groups from it again.\<close>

definition rules_effect :: "tiered_editor \<Rightarrow> tiered_editor \<Rightarrow> js_error + tiered_editor" where
  "rules_effect before st =
     (if te_rules st = te_rules before then Inr st
      else (case tryParseRequestRuleExpr (te_rules st) of Inl x \<Rightarrow> Inl x | Inr r \<Rightarrow> Inr (st\<lparr>te_groups := groups_of r\<rparr>)))"

text \<open>The effect on a change of the effective expression hands it to the parent.\<close>

definition expr_effect :: "tiered_editor \<Rightarrow> tiered_editor \<Rightarrow> js_error + tiered_editor" where
  "expr_effect before st =
     (case effectiveExpr st of
        Inl x \<Rightarrow> Inl x
      | Inr e \<Rightarrow> if effectiveExpr before = Inr e then Inr st else Inr (st\<lparr>te_expr := e\<rparr>))"

definition settle_tiers :: "tiered_editor \<Rightarrow> tiered_editor \<Rightarrow> js_error + tiered_editor" where
  "settle_tiers before st = (case rules_effect before st of Inl x \<Rightarrow> Inl x | Inr st' \<Rightarrow> expr_effect before st')"

text \<open>
  Mounting: the first rendering has no configuration yet, so the effects hand over the expression
  of an empty configuration and load the model, and the second rendering hands over the expression of what
  was loaded.
\<close>

definition mount_tiers :: "jsstr \<Rightarrow> jsstr \<Rightarrow> js_error + tiered_editor" where
  "mount_tiers expr rules =
     (case tryParseRequestRuleExpr rules of
        Inl x \<Rightarrow> Inl x
      | Inr r \<Rightarrow>
          let st = \<lparr>te_mode = Visual, te_config = None, te_raw = [], te_groups = groups_of r, te_expr = expr, te_rules = rules\<rparr>
          in expr_effect st ((load_model st)\<lparr>te_expr := generateExprFromVisualConfig None\<rparr>))"

section \<open>Handlers\<close>

definition handleVisualChange :: "visual_config option \<Rightarrow> tiered_editor \<Rightarrow> tiered_editor" where
  "handleVisualChange newConfig st = st\<lparr>te_config := newConfig\<rparr>"

definition handleRawChange :: "jsstr \<Rightarrow> tiered_editor \<Rightarrow> js_error + tiered_editor" where
  "handleRawChange val st =
     (case splitBillingExprAndRequestRules val of
        Inl x \<Rightarrow> Inl x
      | Inr s \<Rightarrow> Inr (st\<lparr>te_raw := val, te_rules := requestRuleExpr s\<rparr>))"

definition handleRequestRuleGroupsChange :: "rule_group list \<Rightarrow> tiered_editor \<Rightarrow> tiered_editor" where
  "handleRequestRuleGroupsChange nextGroups st = st\<lparr>te_groups := nextGroups, te_rules := buildRequestRuleExpr nextGroups\<rparr>"

definition combined_text :: "jsstr \<Rightarrow> jsstr \<Rightarrow> jsstr" where  \<comment> \<open>\<open>combineBillingExpr(expr, ruleExpr) || expr\<close>\<close>
  "combined_text expr ruleExpr = (let s = combineBillingExpr expr ruleExpr in if s = [] then expr else s)"

definition handleModeSwitch :: "editor_mode \<Rightarrow> tiered_editor \<Rightarrow> js_error + tiered_editor" where
  "handleModeSwitch newMode st =
     (case newMode of
        Visual \<Rightarrow>
          (case splitBillingExprAndRequestRules (te_raw st) of
             Inl x \<Rightarrow> Inl x
           | Inr s \<Rightarrow>
               (case tryParseRequestRuleExpr (requestRuleExpr s) of
                  Inl x \<Rightarrow> Inl x
                | Inr r \<Rightarrow> Inr (st\<lparr>te_mode := Visual, te_groups := groups_of r, te_rules := requestRuleExpr s,
                    te_config := Some (case tryParseVisualConfig (billingExpr s) of Some parsed \<Rightarrow> parsed | None \<Rightarrow> createDefaultVisualConfig)\<rparr>)))
      | Raw \<Rightarrow>
          Inr (st\<lparr>te_mode := Raw, te_raw := combined_text (generateExprFromVisualConfig (te_config st)) (buildRequestRuleExpr (te_groups st))\<rparr>))"

record preset =
  ps_expr :: jsstr
  ps_rules :: "rule_group list"

definition applyPreset :: "preset \<Rightarrow> tiered_editor \<Rightarrow> tiered_editor" where
  "applyPreset p st =
     (let ruleExpr = buildRequestRuleExpr (ps_rules p);
          st1 = st\<lparr>te_raw := combined_text (ps_expr p) ruleExpr, te_groups := ps_rules p, te_rules := ruleExpr\<rparr>
      in (case tryParseVisualConfig (ps_expr p) of
            Some parsed \<Rightarrow> st1\<lparr>te_config := Some parsed\<rparr>
          | None \<Rightarrow> st1\<lparr>te_mode := Raw, te_config := None\<rparr>))"

text \<open>
  Another model was selected while the editor stays on the page: the parent hands in its texts.  In that
  commit the rules are read and the model is loaded; the effective expression is still the old one, so
  its effect does not run.  It runs in the next commit if what was loaded has another effective expression.
\<close>

definition switch_model :: "jsstr \<Rightarrow> jsstr \<Rightarrow> tiered_editor \<Rightarrow> js_error + tiered_editor" where
  "switch_model expr rules st =
     (case rules_effect st (st\<lparr>te_expr := expr, te_rules := rules\<rparr>) of
        Inl x \<Rightarrow> Inl x
      | Inr st' \<Rightarrow> expr_effect st (load_model st'))"

text \<open>
  The options were loaded again, after saving or a refresh: the parent hands in other texts for the same model,
  which is not loaded anew; only the rules are read.
\<close>

definition reload_model :: "jsstr \<Rightarrow> jsstr \<Rightarrow> tiered_editor \<Rightarrow> js_error + tiered_editor" where
  "reload_model expr rules st = rules_effect st (st\<lparr>te_expr := expr, te_rules := rules\<rparr>)"

section \<open>Rows of the two forms\<close>

datatype tier_patch =
    PriceText jsstr jsstr | CacheMode cache_mode | Label jsstr | CondUpdate nat tier_cond | CondRemove nat | CondAdd

text \<open>What an input of a tier's card makes of the tier; \<open>None\<close> when it does not report a change.\<close>

definition apply_patch :: "tier_patch \<Rightarrow> tier \<Rightarrow> tier option" where
  "apply_patch p t =
     (case p of
        PriceText f w \<Rightarrow> map_option (\<lambda>n. set_cost f n t) (price_input w)
      | CacheMode m \<Rightarrow> Some (cache_mode_patch m t)
      | Label l \<Rightarrow> Some (t\<lparr>t_label := l\<rparr>)
      | CondUpdate i c \<Rightarrow> Some (update_condition i c t)
      | CondRemove i \<Rightarrow> Some (remove_condition i t)
      | CondAdd \<Rightarrow> if 2 \<le> length (t_conditions t) then None else Some (add_condition t))"

definition update_tier_card :: "nat \<Rightarrow> tier_patch \<Rightarrow> tiered_editor \<Rightarrow> tiered_editor" where
  "update_tier_card i p st =
     (let tiers = normalizeVisualConfig (te_config st) in
      if length tiers \<le> i then st
      else (case apply_patch p (tiers ! i) of
          None \<Rightarrow> st
        | Some t \<Rightarrow> handleVisualChange (Some (updateTier i (\<lambda>_. t) (te_config st))) st))"

text \<open>
  The text of a price input: its first value, and the effect that shows a price set elsewhere but keeps a text
  that denotes the price already, like \<open>7.\<close> for 7.
\<close>

definition price_shown :: "jsnum \<Rightarrow> jsstr" where
  "price_shown price = (if num_is_zero price then [] else number_to_string price)"

definition price_text_effect :: "jsnum \<Rightarrow> jsstr \<Rightarrow> jsstr" where
  "price_text_effect price w =
     (if w = [] \<and> num_is_zero price then w
      else if num_eq (string_to_number w) price then w
      else price_shown price)"

lemma typed_price_kept:
  assumes "price_input w = Some n"
  shows "price_text_effect (unitCostToPrice (JNum n)) w = w"
proof (cases "w = []")
  case True
  then show ?thesis using assms by (simp add: price_input_def price_text_effect_def unitCostToPrice_def number_or_zero_def num_is_zero_def)
next
  case False
  then have "string_to_number w \<noteq> NaN" "n = number_or_zero (JNum (string_to_number w))"
    using assms by (auto simp: price_input_def priceToUnitCost_def Let_def split: if_splits)
  then have "num_eq (string_to_number w) (unitCostToPrice (JNum n))"
    by (cases "string_to_number w") (auto simp: unitCostToPrice_def number_or_zero_def num_eq_def num_is_zero_def Let_def)
  then show ?thesis by (simp add: price_text_effect_def)
qed

text \<open>A row of a rule group shows the normalized condition; its inputs change one field of it.\<close>

datatype rule_input =
    SourceSelect jsstr | TimeFuncSelect jsstr | TimezoneSelect jsstr | ModeSelect jsstr | RangeStart jsstr | RangeEnd jsstr | PathInput jsstr | ValueInput jsstr

definition blank_condition :: condition where
  "blank_condition = \<lparr>c_source = None, c_path = None, c_mode = None, c_timeFunc = None, c_timezone = None, c_value = JUndef,
     c_rangeStart = JUndef, c_rangeEnd = JUndef\<rparr>"

definition source_select :: "jsstr \<Rightarrow> condition" where
  "source_select v =
     normalizeCondition
       (if v = SOURCE_TIME then blank_condition\<lparr>c_source := Some SOURCE_TIME, c_timeFunc := Some (js ''hour''),
          c_timezone := Some (js ''Asia/Shanghai''), c_mode := Some MATCH_GTE\<rparr>
        else blank_condition\<lparr>c_source := Some v, c_path := Some [], c_mode := Some MATCH_EQ\<rparr>)"

definition mode_select :: "jsstr \<Rightarrow> condition \<Rightarrow> condition" where
  "mode_select v c =
     normalizeCondition
       (if c_source c = Some SOURCE_TIME then c\<lparr>c_mode := Some v\<rparr>
        else c\<lparr>c_mode := Some v, c_value := (if v = MATCH_EXISTS then JStr [] else c_value c)\<rparr>)"

definition rule_input_change :: "rule_input \<Rightarrow> condition \<Rightarrow> condition" where
  "rule_input_change i cond =
     (let c = normalizeCondition cond in
      case i of
        SourceSelect v \<Rightarrow> source_select v
      | TimeFuncSelect v \<Rightarrow> c\<lparr>c_timeFunc := Some v\<rparr>
      | TimezoneSelect v \<Rightarrow> c\<lparr>c_timezone := Some v\<rparr>
      | ModeSelect v \<Rightarrow> mode_select v c
      | RangeStart v \<Rightarrow> c\<lparr>c_rangeStart := JStr v\<rparr>
      | RangeEnd v \<Rightarrow> c\<lparr>c_rangeEnd := JStr v\<rparr>
      | PathInput v \<Rightarrow> c\<lparr>c_path := Some v\<rparr>
      | ValueInput v \<Rightarrow> c\<lparr>c_value := JStr v\<rparr>)"

datatype group_input = RuleRow nat rule_input | RowRemove nat | RowAdd | TimeRowAdd | Multiplier jsstr

definition group_change :: "group_input \<Rightarrow> rule_group \<Rightarrow> rule_group" where
  "group_change gi g =
     (let cs = g_conditions g in
      case gi of
        RuleRow ci i \<Rightarrow> g\<lparr>g_conditions := map (\<lambda>(j, c). if j = ci then rule_input_change i c else c) (List.enumerate 0 cs)\<rparr>
      | RowRemove ci \<Rightarrow> (let next = take ci cs @ drop (Suc ci) cs in g\<lparr>g_conditions := (if next \<noteq> [] then next else [createEmptyCondition])\<rparr>)
      | RowAdd \<Rightarrow> g\<lparr>g_conditions := cs @ [createEmptyCondition]\<rparr>
      | TimeRowAdd \<Rightarrow> g\<lparr>g_conditions := cs @ [createEmptyTimeCondition]\<rparr>
      | Multiplier v \<Rightarrow> g\<lparr>g_multiplier := v\<rparr>)"

definition update_group :: "nat \<Rightarrow> group_input \<Rightarrow> rule_group list \<Rightarrow> rule_group list" where
  "update_group gi i groups = map (\<lambda>(j, g). if j = gi then group_change i g else g) (List.enumerate 0 groups)"

section \<open>Events\<close>

datatype tiered_event =
    TierUpdate nat tier_patch | TierAdd | TierRemove nat
  | RawChange jsstr | ModeSwitch editor_mode | ApplyPreset preset
  | GroupUpdate nat group_input | GroupRemove nat | GroupAdd

definition handle_tiered :: "tiered_event \<Rightarrow> tiered_editor \<Rightarrow> js_error + tiered_editor" where
  "handle_tiered ev st =
     (case ev of
        TierUpdate i p \<Rightarrow> Inr (update_tier_card i p st)
      | TierAdd \<Rightarrow> Inr (handleVisualChange (Some (addTier (te_config st))) st)
      | TierRemove i \<Rightarrow> Inr (handleVisualChange (removeTier i (te_config st)) st)
      | RawChange v \<Rightarrow> handleRawChange v st
      | ModeSwitch m \<Rightarrow> handleModeSwitch m st
      | ApplyPreset p \<Rightarrow> Inr (applyPreset p st)
      | GroupUpdate gi i \<Rightarrow> Inr (handleRequestRuleGroupsChange (update_group gi i (te_groups st)) st)
      | GroupRemove gi \<Rightarrow> Inr (handleRequestRuleGroupsChange (take gi (te_groups st) @ drop (Suc gi) (te_groups st)) st)
      | GroupAdd \<Rightarrow> Inr (handleRequestRuleGroupsChange (te_groups st @ [createEmptyRuleGroup]) st))"

definition tiered_step :: "tiered_event \<Rightarrow> tiered_editor \<Rightarrow> js_error + tiered_editor" where
  "tiered_step ev st = (case handle_tiered ev st of Inl x \<Rightarrow> Inl x | Inr st' \<Rightarrow> settle_tiers st st')"

definition condition_patch :: "tier_patch \<Rightarrow> bool" where
  "condition_patch p = (case p of CondUpdate _ _ \<Rightarrow> True | CondRemove _ \<Rightarrow> True | CondAdd \<Rightarrow> True | _ \<Rightarrow> False)"

text \<open>
  The inputs that are on the screen: cards and rule groups in the visual view, the text in the textual one;
  no conditions on the last of several tiers, no button that removes the only tier, and a
  warning instead of the rule groups when their text cannot be read.
\<close>

definition tiered_enabled :: "tiered_event \<Rightarrow> tiered_editor \<Rightarrow> bool" where
  "tiered_enabled ev st =
     (case ev of
        TierUpdate i p \<Rightarrow> te_mode st = Visual \<and> (let n = length (normalizeVisualConfig (te_config st)) in
            i < n \<and> (condition_patch p \<longrightarrow> i \<noteq> n - 1 \<or> n = 1))
      | TierAdd \<Rightarrow> te_mode st = Visual
      | TierRemove i \<Rightarrow> te_mode st = Visual \<and> length (normalizeVisualConfig (te_config st)) \<noteq> 1
      | RawChange _ \<Rightarrow> te_mode st = Raw
      | ModeSwitch m \<Rightarrow> m \<noteq> te_mode st
      | ApplyPreset _ \<Rightarrow> True
      | _ \<Rightarrow> te_mode st = Visual \<and> (te_rules st = [] \<or> tryParseRequestRuleExpr (te_rules st) \<noteq> Inr None))"

text \<open>
  The states of an editor: it is mounted on a model, takes inputs, is moved to other models, and stays open while
  the options are loaded again.  The first two arguments are history: the expression that the parent
  read from the options for the selected model, and whether it did so under the open editor.
\<close>

inductive tiered_reachable :: "jsstr \<Rightarrow> bool \<Rightarrow> tiered_editor \<Rightarrow> bool" where
  mounted: "mount_tiers expr rules = Inr st \<Longrightarrow> tiered_reachable expr False st"
| stepped: "tiered_reachable opened reloaded st \<Longrightarrow> tiered_enabled ev st \<Longrightarrow> tiered_step ev st = Inr st' \<Longrightarrow> tiered_reachable opened reloaded st'"
| switched: "tiered_reachable opened reloaded st \<Longrightarrow> switch_model expr rules st = Inr st' \<Longrightarrow> tiered_reachable expr False st'"
| refreshed: "tiered_reachable opened reloaded st \<Longrightarrow> reload_model expr rules st = Inr st' \<Longrightarrow> tiered_reachable expr True st'"

end
