(* ===== verification/TieredPricingSwitch.thy ===== *)
theory TieredPricingSwitch
  imports TieredPricingEditor
begin

text \<open>
  What holds in every state of the tiered price editor, and what switching between its two views keeps
  and loses.
\<close>

section \<open>The invariant\<close>

definition visual_shown :: "tiered_editor \<Rightarrow> bool" where
  "visual_shown st \<longleftrightarrow> (te_mode st = Visual \<longrightarrow> (\<exists>t ts. te_config st = Some (t # ts)))"

text \<open>
  The parent holds what the editor stands for, or still the text that it has read, which unless it was read under
  the open editor shows the same expression when it is loaded.
\<close>

definition tiered_inv :: "jsstr \<Rightarrow> bool \<Rightarrow> tiered_editor \<Rightarrow> bool" where
  "tiered_inv opened reloaded st \<longleftrightarrow> visual_shown st \<and> (\<exists>e. effectiveExpr st = Inr e
     \<and> (te_expr st = e \<or> te_expr st = opened \<and> (\<not> reloaded \<longrightarrow> effectiveExpr (load_model st) = Inr e)))"

lemma effectiveExpr_cong [simp]: "effectiveExpr (st\<lparr>te_expr := e\<rparr>) = effectiveExpr st" "effectiveExpr (st\<lparr>te_groups := gs\<rparr>) = effectiveExpr st"
  "effectiveExpr (st\<lparr>te_expr := e, te_rules := r\<rparr>) = effectiveExpr st"
  by (cases "te_mode st"; simp add: effectiveExpr_def)+

lemma load_effective: "te_expr a = te_expr b \<Longrightarrow> effectiveExpr (load_model a) = effectiveExpr (load_model b)"
  by (simp add: load_model_def effectiveExpr_def split: option.split)

lemma expr_effect_inv:
  assumes "expr_effect before st = Inr st'" and "visual_shown st"
    and "effectiveExpr st = effectiveExpr before \<Longrightarrow> tiered_inv opened reloaded st"
  shows "tiered_inv opened reloaded st'"
  using assms by (auto simp: expr_effect_def tiered_inv_def visual_shown_def split: sum.splits if_splits)

lemma effect_same:
  "tiered_inv opened reloaded before \<Longrightarrow> te_expr st = te_expr before \<Longrightarrow> effectiveExpr st = effectiveExpr before \<Longrightarrow> visual_shown st
    \<Longrightarrow> tiered_inv opened reloaded st"
  using load_effective [of st before] by (auto simp: tiered_inv_def)

lemma rules_effect_keeps:
  assumes "rules_effect before st = Inr st'"
  shows "te_expr st' = te_expr st" "te_mode st' = te_mode st" "te_config st' = te_config st" "effectiveExpr st' = effectiveExpr st"
  using assms by (auto simp: rules_effect_def split: sum.splits if_splits)

lemma normalize_nonempty: "normalizeVisualConfig c \<noteq> []"
  by (auto simp: normalizeVisualConfig_def createDefaultVisualConfig_def split: option.splits)

lemma config_cons: "c \<noteq> [] \<Longrightarrow> \<exists>t ts. Some c = Some (t # ts)"
  by (cases c) auto

lemma parsed_nonempty: "tryParseVisualConfig s = Some cfg \<Longrightarrow> cfg \<noteq> []"
  using normalize_nonempty by (auto simp: tryParseVisualConfig_def Let_def split: option.splits if_splits)

lemma load_visual: "te_mode (load_model st) = Visual \<Longrightarrow> \<exists>t ts. te_config (load_model st) = Some (t # ts)"
  using parsed_nonempty [of "te_expr st"]
  by (auto simp: load_model_def createDefaultVisualConfig_def neq_Nil_conv split: option.splits if_splits)

lemma updateTier_nonempty: "updateTier i f c \<noteq> []"
  using normalize_nonempty [of c] by (simp add: updateTier_def Let_def) (metis length_0_conv length_enumerate)

lemma removeTier_nonempty:
  assumes "c = Some (t # ts)"
  shows "\<exists>t ts. removeTier i c = Some (t # ts)"
proof (cases "length (normalizeVisualConfig c) \<le> 1")
  case True
  then show ?thesis using assms by (simp add: removeTier_def Let_def)
next
  case False
  let ?ts = "normalizeVisualConfig c"
  have "take i ?ts @ drop (Suc i) ?ts \<noteq> []" using False by (cases i) auto
  then show ?thesis using False by (simp add: removeTier_def Let_def) (metis append_is_Nil_conv list.exhaust not_Cons_self2)
qed

lemma visual_change_shown: "c \<noteq> [] \<Longrightarrow> visual_shown (handleVisualChange (Some c) st)"
  by (cases c) (auto simp: visual_shown_def handleVisualChange_def)

lemma preset_shown: "visual_shown (applyPreset p st)"
  using parsed_nonempty [of "ps_expr p"]
  by (auto simp: visual_shown_def applyPreset_def Let_def neq_Nil_conv split: option.splits)

lemma mode_switch_shown:
  assumes "handleModeSwitch m st = Inr st'"
  shows "visual_shown st'"
proof -
  have d: "\<exists>t ts. (case tryParseVisualConfig s of Some parsed \<Rightarrow> parsed | None \<Rightarrow> createDefaultVisualConfig) = t # ts" for s
    using parsed_nonempty [of s] by (auto simp: createDefaultVisualConfig_def neq_Nil_conv split: option.splits)
  show ?thesis using assms d by (auto simp: handleModeSwitch_def visual_shown_def split: editor_mode.splits sum.splits)
qed

lemma handle_keeps:
  assumes "visual_shown st" and "handle_tiered ev st = Inr st'" and "tiered_enabled ev st"
  shows "visual_shown st'" and "te_expr st' = te_expr st"
proof -
  show "te_expr st' = te_expr st"
    using assms(2) by (auto simp: handle_tiered_def update_tier_card_def handleVisualChange_def handleRawChange_def handleModeSwitch_def applyPreset_def
        handleRequestRuleGroupsChange_def Let_def split: tiered_event.splits option.splits sum.splits editor_mode.splits if_splits)
  show "visual_shown st'"
  proof (cases ev)
    case (TierUpdate i p)
    then show ?thesis using assms visual_change_shown [OF updateTier_nonempty]
      by (auto simp: handle_tiered_def update_tier_card_def Let_def split: option.splits if_splits)
  next
    case TierAdd
    have "addTier (te_config st) \<noteq> []" by (simp add: addTier_def Let_def)
    then show ?thesis using assms TierAdd visual_change_shown by (auto simp: handle_tiered_def)
  next
    case (TierRemove i)
    then obtain t ts where "te_config st = Some (t # ts)" using assms by (auto simp: visual_shown_def tiered_enabled_def)
    from removeTier_nonempty [OF this, of i] show ?thesis
      using assms TierRemove by (auto simp: handle_tiered_def visual_shown_def handleVisualChange_def)
  next
    case (ModeSwitch m)
    then show ?thesis using assms mode_switch_shown by (simp add: handle_tiered_def)
  next
    case (ApplyPreset p)
    then show ?thesis using assms preset_shown by (auto simp: handle_tiered_def)
  qed (use assms in \<open>auto simp: handle_tiered_def handleRawChange_def handleRequestRuleGroupsChange_def visual_shown_def split: sum.splits\<close>)
qed

lemma tiered_step_inv:
  assumes "tiered_inv opened reloaded st" and "tiered_enabled ev st" and "tiered_step ev st = Inr st'"
  shows "tiered_inv opened reloaded st'"
proof -
  obtain st1 st2 where s: "handle_tiered ev st = Inr st1" "rules_effect st st1 = Inr st2" "expr_effect st st2 = Inr st'"
    using assms(3) by (auto simp: tiered_step_def settle_tiers_def split: sum.splits)
  have v: "visual_shown st" using assms(1) by (simp add: tiered_inv_def)
  note h = handle_keeps [OF v s(1) assms(2)] and r = rules_effect_keeps [OF s(2)]
  have v2: "visual_shown st2" using h(1) r by (simp add: visual_shown_def)
  show ?thesis
    by (rule expr_effect_inv [OF s(3) v2]) (rule effect_same [OF assms(1)], use h(2) r v2 in simp_all)
qed

lemma mount_inv:
  assumes "mount_tiers expr rules = Inr st"
  shows "tiered_inv expr False st"
proof -
  obtain r where r: "tryParseRequestRuleExpr rules = Inr r" using assms by (cases "tryParseRequestRuleExpr rules") (simp_all add: mount_tiers_def)
  define st0 where "st0 = \<lparr>te_mode = Visual, te_config = None, te_raw = [], te_groups = groups_of r, te_expr = expr, te_rules = rules\<rparr>"
  let ?st1 = "(load_model st0)\<lparr>te_expr := generateExprFromVisualConfig None\<rparr>"
  have e: "expr_effect st0 ?st1 = Inr st" using assms unfolding mount_tiers_def r sum.case Let_def st0_def .
  have v: "visual_shown ?st1" using load_visual [of st0] by (simp add: visual_shown_def)
  have "effectiveExpr st0 = Inr (generateExprFromVisualConfig None)" by (simp add: effectiveExpr_def st0_def)
  then show ?thesis by (intro expr_effect_inv [OF e v]) (use v in \<open>simp add: tiered_inv_def\<close>)
qed

lemma switch_inv:
  assumes "switch_model expr rules st = Inr st'"
  shows "tiered_inv expr False st'"
proof -
  obtain st1 where r: "rules_effect st (st\<lparr>te_expr := expr, te_rules := rules\<rparr>) = Inr st1" and e: "expr_effect st (load_model st1) = Inr st'"
    using assms by (auto simp: switch_model_def split: sum.splits)
  have x: "te_expr (load_model st1) = expr"
    using rules_effect_keeps(1) [OF r] by (simp add: load_model_def split: option.splits)
  have v: "visual_shown (load_model st1)" using load_visual by (simp add: visual_shown_def)
  have l: "effectiveExpr (load_model (load_model st1)) = effectiveExpr (load_model st1)"
    by (rule load_effective) (simp add: x rules_effect_keeps(1) [OF r])
  obtain y where "effectiveExpr (load_model st1) = Inr y" using e by (auto simp: expr_effect_def split: sum.splits)
  then show ?thesis by (intro expr_effect_inv [OF e v]) (use v x l in \<open>simp add: tiered_inv_def\<close>)
qed

lemma reload_inv:
  assumes "tiered_inv opened reloaded st" and "reload_model expr rules st = Inr st'"
  shows "tiered_inv expr True st'"
proof -
  note k = rules_effect_keeps [OF assms(2) [unfolded reload_model_def]]
  have "effectiveExpr st' = effectiveExpr st" using k(4) by simp
  then show ?thesis using assms(1) k by (auto simp: tiered_inv_def visual_shown_def)
qed

text \<open>
  C7: in every state of the editor, however it was mounted, edited in either view, moved from model to model and
  kept open while the options were loaded again, it stands for a readable expression, in the
  visual view the text generated from the tiers shown, of which there is at least one.  What the parent
  holds and saves is this expression, or still the very text that it read from the options for the selected
  model; and unless that text was read under the open editor, loading it shows the same expression.
\<close>

theorem tiered_editor_invariant:
  assumes "tiered_reachable opened reloaded st"
  shows "\<exists>e. effectiveExpr st = Inr e
    \<and> (te_mode st = Visual \<longrightarrow> (\<exists>t ts. te_config st = Some (t # ts) \<and> e = generateExprFromVisualConfig (Some (t # ts))))
    \<and> (te_expr st = e \<or> te_expr st = opened \<and> (\<not> reloaded \<longrightarrow> effectiveExpr (load_model st) = Inr e))"
proof -
  have "tiered_inv opened reloaded st" using assms
  proof (induction rule: tiered_reachable.induct)
    case (mounted expr rules st)
    then show ?case by (rule mount_inv)
  next
    case (stepped opened reloaded st ev st')
    show ?case by (rule tiered_step_inv [OF stepped.IH stepped.hyps(2,3)])
  next
    case (switched opened reloaded st expr rules st')
    show ?case by (rule switch_inv [OF switched.hyps(2)])
  next
    case (refreshed opened reloaded st expr rules st')
    show ?case by (rule reload_inv [OF refreshed.IH refreshed.hyps(2)])
  qed
  then obtain e where e: "effectiveExpr st = Inr e" "te_expr st = e \<or> te_expr st = opened \<and> (\<not> reloaded \<longrightarrow> effectiveExpr (load_model st) = Inr e)"
    and v: "visual_shown st" by (auto simp: tiered_inv_def)
  have "e = generateExprFromVisualConfig (te_config st)" if "te_mode st = Visual" using e(1) that by (simp add: effectiveExpr_def)
  then show ?thesis using e v by (auto simp: visual_shown_def)
qed

text \<open>An editor mounted on a model without an expression, to which a tier is added.\<close>

definition fresh_editor :: tiered_editor where
  "fresh_editor = \<lparr>te_mode = Visual, te_config = Some createDefaultVisualConfig, te_raw = [], te_groups = [],
     te_expr = generateExprFromVisualConfig (Some createDefaultVisualConfig), te_rules = []\<rparr>"

definition grown_editor :: tiered_editor where
  "grown_editor = fresh_editor\<lparr>te_config := Some (addTier (Some createDefaultVisualConfig)),
     te_expr := generateExprFromVisualConfig (Some (addTier (Some createDefaultVisualConfig)))\<rparr>"

lemma empty_rules: "tryParseRequestRuleExpr [] = Inr (Some [])"
  by (simp add: tryParseRequestRuleExpr_def trim_trimmed trimmed_def)

lemma grown_reachable: "tiered_reachable [] False fresh_editor" "tiered_reachable [] False grown_editor"
proof -
  have e: "tryParseRequestRuleExpr [] = Inr (Some [])" by (simp add: tryParseRequestRuleExpr_def trim_trimmed trimmed_def)
  have d: "hd (generateExprFromVisualConfig (Some createDefaultVisualConfig)) = 116" "hd zero_expr = 112"
    by (simp_all add: generateExprFromVisualConfig_def createDefaultVisualConfig_def normalizeVisualTier_def buildConditionStr_def tier_text_def
        zero_expr_def js_def Let_def)
  then have "generateExprFromVisualConfig (Some createDefaultVisualConfig) \<noteq> zero_expr" by force
  then have "mount_tiers [] [] = Inr fresh_editor"
    by (simp add: mount_tiers_def e groups_of_def load_model_def tryParseVisualConfig_def expr_effect_def effectiveExpr_def Let_def fresh_editor_def
        generateExprFromVisualConfig_def [of None])
  then show f: "tiered_reachable [] False fresh_editor" by (rule mounted)
  have "hd (generateExprFromVisualConfig (Some (addTier (Some createDefaultVisualConfig)))) = 108"
    by (simp add: generateExprFromVisualConfig_def addTier_def normalizeVisualConfig_def createDefaultVisualConfig_def normalizeVisualTier_def
        default_condition_def cond_complete_def buildConditionStr_def cond_text_def js_def Let_def)
  then have "generateExprFromVisualConfig (Some (addTier (Some createDefaultVisualConfig))) \<noteq> generateExprFromVisualConfig (Some createDefaultVisualConfig)"
    using d by force
  then have "tiered_step TierAdd fresh_editor = Inr grown_editor"
    by (simp add: tiered_step_def handle_tiered_def handleVisualChange_def settle_tiers_def rules_effect_def expr_effect_def effectiveExpr_def
        fresh_editor_def grown_editor_def)
  then show "tiered_reachable [] False grown_editor" by (rule stepped [OF f, rotated]) (simp add: tiered_enabled_def fresh_editor_def)
qed

text \<open>
  From a model that shows the default tier to another one without an expression: the effective expression does not
  change, so the effect does not run, and the parent keeps the empty text while the default tier is shown.
\<close>

lemma switch_leaves_empty: "switch_model [] [] fresh_editor = Inr (fresh_editor\<lparr>te_expr := []\<rparr>)"
  by (simp add: switch_model_def rules_effect_def expr_effect_def load_model_def tryParseVisualConfig_def effectiveExpr_def fresh_editor_def)

theorem tiered_editor_invariant_witness:
  "(\<exists>e. effectiveExpr grown_editor = Inr e \<and> te_expr grown_editor = e)
   \<and> (let st = fresh_editor\<lparr>te_expr := []\<rparr> in tiered_reachable [] False st \<and> effectiveExpr (load_model st) = effectiveExpr st)"
proof -
  let ?st = "fresh_editor\<lparr>te_expr := []\<rparr>"
  have s: "tiered_reachable [] False ?st" by (rule switched [OF grown_reachable(1) switch_leaves_empty])
  have "generateExprFromVisualConfig (Some createDefaultVisualConfig) \<noteq> []"
    by (simp add: generateExprFromVisualConfig_def createDefaultVisualConfig_def normalizeVisualTier_def buildConditionStr_def tier_text_def js_def Let_def)
  then have "effectiveExpr (load_model ?st) = effectiveExpr ?st"
    using tiered_editor_invariant [OF s] by (auto simp: effectiveExpr_def fresh_editor_def)
  moreover have "te_expr grown_editor \<noteq> []"
    by (simp add: grown_editor_def fresh_editor_def generateExprFromVisualConfig_def addTier_def normalizeVisualConfig_def createDefaultVisualConfig_def
        normalizeVisualTier_def default_condition_def cond_complete_def buildConditionStr_def cond_text_def js_def Let_def)
  then have "\<exists>e. effectiveExpr grown_editor = Inr e \<and> te_expr grown_editor = e"
    using tiered_editor_invariant [OF grown_reachable(2)] by auto
  ultimately show ?thesis using s by (simp add: Let_def)
qed

section \<open>Generated texts among request rules\<close>

text \<open>
  The splitter of billing expressions cuts at multiplications outside parentheses and does not know string
  literals, so the names of tiers must not contain parentheses.
\<close>

lemma solid_no_star: "42 \<notin> set s \<Longrightarrow> scan d s = Some 0 \<Longrightarrow> solid (js '' * '') d s"
proof (induction s arbitrary: d)
  case (Cons c cs)
  have "\<not> startsWith (c # cs) (js '' * '')"
  proof
    assume "startsWith (c # cs) (js '' * '')"
    then obtain r where "c # cs = js '' * '' @ r" using startsWith_iff by blast
    then have "42 \<in> set (c # cs)" by (simp add: js_def)
    then show False using Cons.prems by blast
  qed
  with Cons show ?case by (auto simp: Let_def split: if_splits)
qed simp

lemma solid_append:
  "solid sep d a \<Longrightarrow> a = [] \<or> last a \<notin> set sep \<Longrightarrow> solid sep 0 b \<Longrightarrow> solid sep d (a @ b)"
proof (induction a arbitrary: d)
  case (Cons c cs)
  let ?d = "depth_step c d"
  have "\<not> (?d = 0 \<and> startsWith ((c # cs) @ b) sep)"
  proof
    assume a: "?d = 0 \<and> startsWith ((c # cs) @ b) sep"
    then have "\<exists>x. sep = (c # cs) @ x"
      using startsWith_append_cases [of "c # cs" b sep] Cons.prems(1) by (auto simp: Let_def)
    then have "last (c # cs) \<in> set sep" by auto
    then show False using Cons.prems(2) by simp
  qed
  moreover have "solid sep ?d (cs @ b)" using Cons.prems by (intro Cons.IH) (auto simp: Let_def split: if_splits)
  ultimately show ?case by (simp add: Let_def)
qed simp

definition star_free :: "jsstr \<Rightarrow> bool" where
  "star_free u \<longleftrightarrow> 40 \<notin> set u \<and> 41 \<notin> set u \<and> 42 \<notin> set u"

text \<open>Texts of the form \<open>u(s)u(s)...\<close> with products only inside the parentheses.\<close>

definition calls_text :: "jsstr \<Rightarrow> bool" where
  "calls_text w \<longleftrightarrow> solid (js '' * '') 0 w \<and> balanced w \<and> w \<noteq> [] \<and> last w = 41"

lemma solid_star_free: "star_free u \<Longrightarrow> solid (js '' * '') 0 u" and balanced_star_free: "star_free u \<Longrightarrow> balanced u"
  by (auto simp: star_free_def balanced_no_paren intro!: solid_no_star scan_no_paren)

lemma calls_text_call:
  assumes "star_free u" and "u \<noteq> []" and "last u \<notin> {32, 42}" and "balanced s"
  shows "calls_text (u @ 40 # s @ [41])"
proof -
  have "solid (js '' * '') 0 (40 # s @ [41])" using paren_atom [OF assms(4), of "js '' * ''"] by (simp add: atom_def js_def)
  from solid_append [OF solid_star_free [OF assms(1)] _ this] have "solid (js '' * '') 0 (u @ 40 # s @ [41])"
    using assms(3) by (simp add: js_def)
  then show ?thesis
    using balanced_append [OF balanced_star_free [OF assms(1)] balanced_paren [OF assms(4)]] by (simp add: calls_text_def)
qed

lemma calls_text_append: "calls_text a \<Longrightarrow> calls_text b \<Longrightarrow> calls_text (a @ b)"
  by (auto simp: calls_text_def js_def intro!: solid_append balanced_append)

definition plain_labels :: "visual_config \<Rightarrow> bool" where
  "plain_labels tiers \<longleftrightarrow> list_all (\<lambda>t. 40 \<notin> set (t_label t) \<and> 41 \<notin> set (t_label t)) tiers"

lemma number_no_paren: "json_num_ok n \<Longrightarrow> 40 \<notin> set (number_to_string n) \<and> 41 \<notin> set (number_to_string n) \<and> 42 \<notin> set (number_to_string n)"
  using number_units(1) [of n] by (auto simp: num_unit_def is_digit_def)

lemma name_no_paren: "name_ok x \<Longrightarrow> 40 \<notin> set x \<and> 41 \<notin> set x"
  by (auto simp: name_ok_def id_part_def id_start_def is_digit_def)

lemma body_no_paren:
  assumes "tier_ok t"
  shows "40 \<notin> set (buildTierBodyExpr t)" and "41 \<notin> set (buildTierBodyExpr t)"
proof -
  have c: "d \<notin> set (cost_part x n)" if "json_num_ok n" "name_ok x" "d = 40 \<or> d = 41" for x n d
    using number_no_paren [OF that(1)] name_no_paren [OF that(2)] that(3) by (auto simp: cost_part_def js_def)
  have e: "d \<notin> set (extra_text (var_cost t) extra_names)" if "d = 40 \<or> d = 41" for d
    using c [OF _ _ that] tier_costs_ok(3) [OF assms] extra_names_ok that by (auto simp: extra_text_def js_def)
  show "40 \<notin> set (buildTierBodyExpr t)" "41 \<notin> set (buildTierBodyExpr t)"
    unfolding body_text using c e tier_costs_ok(1,2) [OF assms] names_ok(1,2) by (auto simp: js_def)
qed

lemma name_plain:
  assumes "40 \<notin> set (t_label t)" and "41 \<notin> set (t_label t)"
  shows "40 \<notin> set (tier_name i t)" and "41 \<notin> set (tier_name i t)"
proof -
  have "40 \<notin> set (show_nat (int (i + 1)))" "41 \<notin> set (show_nat (int (i + 1)))"
    using show_nat_digits [of "int (i + 1)" 40] show_nat_digits [of "int (i + 1)" 41] by (auto simp: is_digit_def)
  then show "40 \<notin> set (tier_name i t)" "41 \<notin> set (tier_name i t)"
    using assms by (auto simp: tier_name_def nth_label_def simp del: of_nat_add of_nat_Suc)
qed

lemma calls_text_tier:
  assumes "tier_ok t" and "40 \<notin> set l" and "41 \<notin> set l" and "star_free u"
  shows "calls_text (u @ tier_text l t)"
proof -
  let ?s = "34 # l @ 34 # js '', '' @ buildTierBodyExpr t"
  have "balanced ?s" using body_no_paren [OF assms(1)] assms(2,3) by (intro balanced_no_paren) (auto simp: js_def)
  from calls_text_call [OF _ _ _ this, of "u @ js ''tier''"] assms(4) show ?thesis
    by (simp add: star_free_def tier_text_def js_def)
qed

lemma cond_star_free:
  assumes "tier_ok t"
  shows "star_free (buildConditionStr (t_conditions t))"
proof -
  have "star_free (cond_text c)" if c: "c \<in> set (active t)" for c
  proof -
    have "40 \<notin> set (tc_op c) \<and> 41 \<notin> set (tc_op c) \<and> 42 \<notin> set (tc_op c)"
      using active_ok(2) [OF assms c] by (auto simp: comparison_def js_def split: if_splits)
    then show ?thesis
      using active_ok(1) [OF assms c] number_no_paren [OF active_ok(4) [OF assms c]]
      by (auto simp: star_free_def cond_text_parts [OF assms c] js_def)
  qed
  then show ?thesis
    unfolding buildConditionStr_def active_def [symmetric] star_free_def by (auto simp: js_def dest!: set_join)
qed

lemma calls_text_parts:
  assumes "list_all tier_ok tiers" and "plain_labels tiers" and "tiers \<noteq> []" and "star_free pre"
  shows "calls_text (pre @ join (js '' : '') (tier_parts i tiers))"
  using assms
proof (induction tiers arbitrary: i pre)
  case (Cons t ts)
  let ?c = "buildConditionStr (t_conditions t)"
  have ok: "tier_ok t" "40 \<notin> set (tier_name i t)" "41 \<notin> set (tier_name i t)"
    using Cons.prems name_plain [of t i] by (auto simp: plain_labels_def)
  define u where "u = (if ts \<noteq> [] \<and> ?c \<noteq> [] then ?c @ js '' ? '' else [])"
  have p: "tier_parts i (t # ts) = (u @ tier_text (tier_name i t) t) # tier_parts (i + 1) ts"
    by (simp add: Let_def u_def tier_name_def)
  have "star_free (pre @ u)" using Cons.prems(4) cond_star_free [OF ok(1)] by (auto simp: u_def star_free_def js_def)
  from calls_text_tier [OF ok this] have first: "calls_text (pre @ u @ tier_text (tier_name i t) t)" by simp
  show ?case
  proof (cases "ts = []")
    case True
    then show ?thesis using first p by simp
  next
    case False
    have "calls_text (js '' : '' @ join (js '' : '') (tier_parts (i + 1) ts))"
      using Cons.prems False by (intro Cons.IH) (auto simp: plain_labels_def star_free_def js_def)
    moreover have "tier_parts (i + 1) ts \<noteq> []" using False by (cases ts) (auto simp: Let_def)
    ultimately show ?thesis
      using calls_text_append [OF first] p by (cases "tier_parts (i + 1) ts") simp_all
  qed
qed simp

lemma calls_text_atom: "calls_text w \<Longrightarrow> \<not> js_ws (hd w) \<Longrightarrow> atom (js '' * '') w"
  by (auto simp: calls_text_def atom_def trimmed_def js_def js_ws_def)

lemma not_factor: "\<not> startsWith p (js ''('') \<Longrightarrow> tryParseRuleGroupFactor p = Inr None"
  by (simp add: tryParseRuleGroupFactor_def rx_exec_def rx_at_start_def rx_group_factor_def)

lemma atom_not_rule:
  assumes "atom (js '' * '') p" and "\<not> startsWith p (js ''('')"
  shows "tryParseRequestRuleExpr p = Inr None"
  using assms not_factor mult.splits_single [OF assms(1)]
  by (simp add: tryParseRequestRuleExpr_def trim_trimmed atom_def)

lemma factor_suffix:
  assumes "rx_exec rx_group_factor s = Some m"
  shows "\<exists>w. s = w @ js '' : 1)''"
proof -
  let ?as = "[RLit (js ''(''), RGroup 1 (RPlus rx_any), RLit (js '' ? ''), rx_number 2]" and ?bs = "[RLit (js '' : 1)''), REnd]"
  let ?a = "rx_seq ?as" and ?b = "rx_seq ?bs"
  have "rx_group_factor @ [REnd] = ?as @ ?bs" by (simp add: rx_group_factor_def)
  then have "rx_match (rx_seq (rx_group_factor @ [REnd])) (s, []) = rx_match (RSeq ?a ?b) (s, [])"
    by (simp only: rx_seq_append [of ?as ?bs] list.distinct simp_thms)
  then have "rx_match (RSeq ?a ?b) (s, []) \<noteq> []"
    using assms by (auto simp: rx_exec_def rx_at_start_def simp del: rx_match.simps split: list.splits)
  then have "\<exists>st \<in> set (rx_match ?a (s, [])). rx_match ?b st \<noteq> []"
    unfolding rx_match.simps(3) [of ?a ?b] concat_eq_Nil_conv by (simp del: rx_match.simps rx_seq.simps)
  then obtain s1 c1 where a: "(s1, c1) \<in> set (rx_match ?a (s, []))" and b: "rx_match ?b (s1, c1) \<noteq> []" by force
  have "\<exists>w. s = w @ s1 \<and> list_all (\<lambda>_. True) w"
    by (rule rx_consumes [OF _ a]) (simp add: rx_any_def rx_number_def rx_numchar_def list_all_iff)
  moreover have "s1 = js '' : 1)''" using b by (auto simp: startsWith_iff split: if_splits)
  ultimately show ?thesis by auto
qed

lemma enclosed_not_rule:
  assumes "balanced b" and "b \<noteq> []" and "last b \<noteq> 49"
  shows "tryParseRequestRuleExpr (js ''('' @ b @ js '')'') = Inr None"
proof -
  have e: "js ''('' @ b @ js '')'' = 40 # b @ [41]" by (simp add: js_def)
  have at: "atom (js '' * '') (40 # b @ [41])" using assms(1) by (intro paren_atom) (simp_all add: js_def)
  have "rx_exec rx_group_factor (40 # b @ [41]) = None"
  proof (rule ccontr)
    assume "rx_exec rx_group_factor (40 # b @ [41]) \<noteq> None"
    then obtain w where "40 # b @ [41] = w @ js '' : 1)''" using factor_suffix by fastforce
    then have "(40 # b) @ [41] = (w @ [32, 58, 32, 49]) @ [41]" by (simp add: js_def)
    then have "40 # b = w @ [32, 58, 32, 49]" by blast
    then have "last (40 # b) = 49" by simp
    then show False using assms(2,3) by simp
  qed
  then show ?thesis
    using at mult.splits_single [OF at] by (simp add: e tryParseRequestRuleExpr_def trim_trimmed atom_def tryParseRuleGroupFactor_def)
qed

text \<open>The shape of a generated text: products of parts that are no rules, balanced, not in parentheses.\<close>

definition price_text :: "jsstr \<Rightarrow> bool" where
  "price_text w \<longleftrightarrow> w \<noteq> [] \<and> balanced w \<and> last w \<in> {41, 48} \<and> hd w \<in> {112, 99, 108, 116}
     \<and> (\<exists>ps. ps \<noteq> [] \<and> w = join (js '' * '') ps \<and> (\<forall>p \<in> set ps. atom (js '' * '') p \<and> \<not> startsWith p (js ''('')))"

lemma not_paren_head: "hd w \<in> {112, 99, 108, 116} \<Longrightarrow> w \<noteq> [] \<Longrightarrow> \<not> startsWith w (js ''('') \<and> \<not> js_ws (hd w)"
  by (cases w) (auto simp: js_def js_ws_def)

lemma calls_price_text:
  assumes "calls_text w" and "hd w \<in> {112, 99, 108, 116}"
  shows "price_text w"
proof -
  have w: "w \<noteq> []" "balanced w" "last w = 41" using assms(1) by (auto simp: calls_text_def)
  then show ?thesis
    using calls_text_atom [OF assms(1)] not_paren_head [OF assms(2)] assms(2) by (auto simp: price_text_def intro!: exI [of _ "[w]"])
qed

lemma calls_zero_price_text:
  assumes "calls_text w" and "hd w \<in> {112, 99, 108, 116}"
  shows "price_text (w @ js '' : '' @ zero_expr)"
proof -
  have w: "w \<noteq> []" "balanced w" "last w = 41" "solid (js '' * '') 0 w" using assms(1) by (auto simp: calls_text_def)
  have f: "star_free (js '' : p'')" "star_free (js ''0 + c'')" "star_free (js ''0'')" "star_free (js '' * '') = False"
    by (simp_all add: star_free_def js_def)
  have "solid (js '' * '') 0 (w @ js '' : p'')"
    using solid_append [OF w(4) _ solid_star_free [OF f(1)]] w(3) by (simp add: js_def)
  moreover have "trimmed (w @ js '' : p'')" using w(1) not_paren_head [OF assms(2) w(1)] by (simp add: trimmed_def js_def js_ws_def)
  moreover have "balanced (w @ js '' : '' @ zero_expr)"
    by (intro balanced_append w balanced_no_paren) (simp_all add: zero_expr_def js_def)
  moreover have "w @ js '' : '' @ zero_expr = join (js '' * '') [w @ js '' : p'', js ''0 + c'', js ''0'']" by (simp add: zero_expr_def js_def)
  moreover have "atom (js '' * '') (js ''0 + c'')" "atom (js '' * '') (js ''0'')"
    using solid_star_free [OF f(2)] solid_star_free [OF f(3)] by (simp_all add: atom_def trimmed_def js_def js_ws_def)
  moreover have "\<not> startsWith (w @ js '' : p'') (js ''('')" using not_paren_head [OF assms(2) w(1)] w(1) by (cases w) (auto simp: js_def)
  moreover have "\<not> startsWith (js ''0 + c'') (js ''('')" "\<not> startsWith (js ''0'') (js ''('')" by (simp_all add: js_def)
  moreover have "last (w @ js '' : p'') \<notin> set (js '' * '')" by (simp add: js_def)
  moreover have "last (w @ js '' : '' @ zero_expr) = 48" by (simp add: zero_expr_def js_def)
  ultimately show ?thesis
    using w(1) assms(2) unfolding price_text_def atom_def
    by (intro conjI exI [of _ "[w @ js '' : p'', js ''0 + c'', js ''0'']"]) auto
qed

lemma generated_price_text:
  assumes "list_all tier_ok tiers" and "plain_labels tiers" and "tiers \<noteq> []"
  shows "price_text (generateExprFromVisualConfig (Some tiers))"
proof -
  obtain t ts where t: "tiers = t # ts" using assms(3) by (cases tiers) auto
  let ?c = "buildConditionStr (t_conditions t)"
  have ok: "tier_ok t" using assms(1) t by simp
  have hc: "hd ?c \<in> {112, 99, 108}" if "?c \<noteq> []"
  proof -
    have "active t \<noteq> []" using that by (auto simp: buildConditionStr_def active_def)
    then show ?thesis using cond_head [OF ok] by (metis list.sel(1))
  qed
  have ht: "tier_text l u = 116 # tl (tier_text l u)" for l u by (simp add: tier_text_def js_def)
  show ?thesis
  proof (cases "ts = []")
    case False
    let ?w = "join (js '' : '') (tier_parts 0 tiers)"
    have "calls_text ?w" using calls_text_parts [OF assms, of "[]" 0] by (simp add: star_free_def)
    moreover have "hd ?w \<in> {112, 99, 108, 116}"
      using hc False ht [of "tier_name 0 t" t] unfolding t by (cases ts; cases ?c) (auto simp: Let_def tier_name_def tier_text_def js_def)
    moreover have "generateExprFromVisualConfig (Some tiers) = ?w" using False t by (cases ts) (simp_all add: generateExprFromVisualConfig_def)
    ultimately show ?thesis using calls_price_text by simp
  next
    case True
    define l where "l = (if t_label t = [] then js ''default'' else t_label t)"
    have l: "40 \<notin> set l" "41 \<notin> set l" using assms(2) t by (auto simp: plain_labels_def js_def l_def)
    show ?thesis
    proof (cases "?c = []")
      case False
      have "star_free (?c @ js '' ? '')" using cond_star_free [OF ok] by (simp add: star_free_def js_def)
      from calls_text_tier [OF ok l this] have "calls_text (?c @ js '' ? '' @ tier_text l t)" by simp
      moreover have "hd (?c @ js '' ? '' @ tier_text l t) \<in> {112, 99, 108, 116}" using hc [OF False] False by auto
      ultimately show ?thesis
        using calls_zero_price_text False True t by (fastforce simp: generateExprFromVisualConfig_def Let_def l_def [symmetric])
    next
      case c: True
      from calls_text_tier [OF ok l, of "[]"] have "calls_text (tier_text l t)" by (simp add: star_free_def)
      from calls_price_text [OF this] show ?thesis
        using c True t by (simp add: generateExprFromVisualConfig_def Let_def l_def [symmetric] tier_text_def js_def)
    qed
  qed
qed

lemma no_rule_parts:
  "(\<And>p. p \<in> set ps \<Longrightarrow> atom (js '' * '') p \<and> \<not> startsWith p (js ''('')) \<Longrightarrow> sort_parts ps = Inr ([], ps)"
  by (induction ps) (simp_all add: atom_not_rule)

lemma price_text_trim: "price_text w \<Longrightarrow> trim w = w"
  by (rule trim_trimmed) (auto simp: price_text_def trimmed_def js_ws_def)

lemma split_price_text:
  assumes "price_text w"
  shows "splitBillingExprAndRequestRules w = Inr \<lparr>billingExpr = w, requestRuleExpr = []\<rparr>"
proof -
  obtain ps where ps: "w = join (js '' * '') ps" "\<And>p. p \<in> set ps \<Longrightarrow> atom (js '' * '') p \<and> \<not> startsWith p (js ''('')" and w: "w \<noteq> []"
    using assms by (auto simp: price_text_def)
  have s: "splitTopLevelMultiply w = ps" unfolding ps(1) using ps(2) by (intro mult.splits_join) blast
  show ?thesis
    using w no_rule_parts [OF ps(2)] by (simp add: splitBillingExprAndRequestRules_def Let_def s price_text_trim [OF assms])
qed

lemma split_price_rules:
  assumes "price_text w" and "\<And>g. g \<in> set gs \<Longrightarrow> canonical_group g" and "gs \<noteq> []"
  shows "splitBillingExprAndRequestRules (combineBillingExpr w (buildRequestRuleExpr gs)) =
    Inr \<lparr>billingExpr = w, requestRuleExpr = buildRequestRuleExpr gs\<rparr>"
proof -
  note t = price_text_trim [OF assms(1)]
  have w: "w \<noteq> []" "balanced w" "last w \<noteq> 49" "hd w \<noteq> 40" using assms(1) by (auto simp: price_text_def)
  have "\<not> hasFullOuterParens w" using w(1,4) by (cases w) (auto simp: hasFullOuterParens_def js_def)
  then have "unwrapOuterParens w = w" by (simp add: unwrapOuterParens_def t unwrap_loop.simps)
  moreover have "tryParseRequestRuleExpr (js ''('' @ trim w @ js '')'') = Inr None" using enclosed_not_rule [OF w(2,1,3)] by (simp add: t)
  ultimately show ?thesis using split_combined [OF assms(2,3), of w] w t by simp
qed

section \<open>Switching views\<close>

lemma tiered_stepI:
  assumes "handle_tiered ev st = Inr st1" and "rules_effect st st1 = Inr st2" and "effectiveExpr st2 = Inr e" and "effectiveExpr st = Inr e"
  shows "tiered_step ev st = Inr st2"
  using assms by (simp add: tiered_step_def settle_tiers_def expr_effect_def)

lemma rules_effect_same: "te_rules st' = te_rules st \<Longrightarrow> rules_effect st st' = Inr st'"
  by (simp add: rules_effect_def)

lemma split_combined_price:
  assumes "price_text w" and "\<And>g. g \<in> set gs \<Longrightarrow> canonical_group g"
  shows "splitBillingExprAndRequestRules (combined_text w (buildRequestRuleExpr gs)) = Inr \<lparr>billingExpr = w, requestRuleExpr = buildRequestRuleExpr gs\<rparr>"
proof (cases "gs = []")
  case True
  then have "buildRequestRuleExpr gs = []" by (simp add: buildRequestRuleExpr_def)
  then show ?thesis
    using split_price_text [OF assms(1)] price_text_trim [OF assms(1)] by (simp add: combined_text_def combineBillingExpr_def trim_trimmed trimmed_def Let_def)
next
  case False
  have "combined_text w r = combineBillingExpr w r" for r
    using price_text_trim [OF assms(1)] assms(1) by (auto simp: combined_text_def combineBillingExpr_def Let_def price_text_def)
  then show ?thesis using split_price_rules [OF assms False] by simp
qed

text \<open>
  C8: when switching to the text and back loses nothing.  Take a visual view whose expression is the one that the
  parent holds, with tiers that have prices, a condition on every tier but the last, limits
  written without an exponent sign and names without parentheses, and whose rules held by the parent are the text of the groups
  shown, each of a form that the parser reads (a parameter or header that exists or equals a plain text, a header that
  contains one, a time compared or in a range; a number as multiplier).  Then the text view shows one
  expression for both, what would be saved stays the same in it, and switching back shows the tiers as they are
  read from their text and the same rule groups.  Other rules can be lost: \<open>comparison_rule_lost\<close>.
\<close>

theorem view_switch_lossless:
  assumes "te_mode st = Visual" and "te_config st = Some tiers" and "te_expr st = generateExprFromVisualConfig (Some tiers)"
    and "te_rules st = buildRequestRuleExpr (te_groups st)" and "\<And>g. g \<in> set (te_groups st) \<Longrightarrow> canonical_group g"
    and "priced tiers" and "tiers \<noteq> []" and "list_all all_readable tiers" and "plain_labels tiers"
  shows "tiered_step (ModeSwitch Raw) st = Inr (st\<lparr>te_mode := Raw, te_raw := combined_text (te_expr st) (te_rules st)\<rparr>)
    \<and> tiered_step (ModeSwitch Visual) (st\<lparr>te_mode := Raw, te_raw := combined_text (te_expr st) (te_rules st)\<rparr>)
       = Inr (st\<lparr>te_raw := combined_text (te_expr st) (te_rules st), te_config := Some (shown_tiers tiers)\<rparr>)"
proof -
  define w where "w = te_expr st"
  let ?raw = "combined_text (te_expr st) (te_rules st)"
  let ?mid = "st\<lparr>te_mode := Raw, te_raw := ?raw\<rparr>" and ?fin = "st\<lparr>te_raw := ?raw, te_config := Some (shown_tiers tiers)\<rparr>"
  have "list_all tier_ok tiers" using assms(6) by (simp add: priced_def)
  from generated_price_text [OF this assms(9,7)] have "price_text w" by (simp add: w_def assms(3))
  from split_combined_price [OF this assms(5)]
  have sp: "splitBillingExprAndRequestRules ?raw = Inr \<lparr>billingExpr = te_expr st, requestRuleExpr = te_rules st\<rparr>" by (simp add: w_def assms(4))
  have e: "effectiveExpr st = Inr (te_expr st)" "effectiveExpr ?mid = Inr (te_expr st)" using assms(1-3) sp by (simp_all add: effectiveExpr_def)
  have r: "tryParseVisualConfig (te_expr st) = Some (shown_tiers tiers)" "generateExprFromVisualConfig (Some (shown_tiers tiers)) = te_expr st"
    using read_back [OF assms(6,7,8)] assms(3) by auto
  have "tryParseRequestRuleExpr (te_rules st) = Inr (Some (te_groups st))" using parse_built_rules [OF assms(5)] assms(4) by simp
  then have "handle_tiered (ModeSwitch Visual) ?mid = Inr ?fin" using sp r(1) assms(1) by (simp add: handle_tiered_def handleModeSwitch_def groups_of_def)
  then have "tiered_step (ModeSwitch Visual) ?mid = Inr ?fin"
    by (rule tiered_stepI [OF _ rules_effect_same]) (use e r(2) assms(1) in \<open>simp_all add: effectiveExpr_def\<close>)
  moreover have "handle_tiered (ModeSwitch Raw) st = Inr ?mid" using assms(2-4) by (simp add: handle_tiered_def handleModeSwitch_def)
  then have "tiered_step (ModeSwitch Raw) st = Inr ?mid" by (rule tiered_stepI [OF _ rules_effect_same]) (use e in simp_all)
  ultimately show ?thesis by blast
qed

definition sample_editor :: tiered_editor where
  "sample_editor = \<lparr>te_mode = Visual, te_config = Some sample_tiers, te_raw = [], te_groups = [sample_group],
     te_expr = generateExprFromVisualConfig (Some sample_tiers), te_rules = buildRequestRuleExpr [sample_group]\<rparr>"

lemma sample_labels: "plain_labels sample_tiers"
  by (simp add: plain_labels_def sample_tiers_def js_def)

lemma sample_nonempty: "sample_tiers \<noteq> []"
  by (simp add: sample_tiers_def)

theorem view_switch_lossless_witness:
  "let st = sample_editor; mid = st\<lparr>te_mode := Raw, te_raw := combined_text (te_expr st) (te_rules st)\<rparr>
   in tiered_step (ModeSwitch Raw) st = Inr mid
    \<and> tiered_step (ModeSwitch Visual) mid = Inr (mid\<lparr>te_mode := Visual, te_config := Some (shown_tiers sample_tiers)\<rparr>)"
  using view_switch_lossless [OF _ _ _ _ _ sample_tiers_priced sample_nonempty sample_readable sample_labels, of sample_editor]
  by (simp add: sample_editor_def sample_canonical Let_def)

section \<open>Editing rule groups\<close>

lemma tiered_step_rules:
  assumes "handle_tiered ev st = Inr st1" and "te_mode st1 = Visual" and "te_config st1 = te_config st" and "te_mode st = Visual"
    and "rules_effect st st1 = Inr st2"
  shows "tiered_step ev st = Inr st2"
proof (rule tiered_stepI [OF assms(1,5)])
  show "effectiveExpr st2 = Inr (generateExprFromVisualConfig (te_config st))"
    using rules_effect_keeps(2,3) [OF assms(5)] assms(2,3) by (simp add: effectiveExpr_def)
  show "effectiveExpr st = Inr (generateExprFromVisualConfig (te_config st))" using assms(4) by (simp add: effectiveExpr_def)
qed

lemma build_complete: "buildRequestRuleExpr (filter (\<lambda>g. buildRuleGroupFactor g \<noteq> []) gs) = buildRequestRuleExpr gs"
proof -
  have "filter (\<lambda>f. f \<noteq> []) (map buildRuleGroupFactor (filter (\<lambda>g. buildRuleGroupFactor g \<noteq> []) gs))
      = filter (\<lambda>f. f \<noteq> []) (map buildRuleGroupFactor gs)"
    by (induction gs) simp_all
  then show ?thesis by (simp only: buildRequestRuleExpr_def)
qed

lemma handle_group_update:
  "handle_tiered (GroupUpdate gi i) st
     = Inr (st\<lparr>te_groups := update_group gi i (te_groups st), te_rules := buildRequestRuleExpr (update_group gi i (te_groups st))\<rparr>)"
  by (simp add: handle_tiered_def handleRequestRuleGroupsChange_def)

text \<open>
  What the form keeps of an edited rule group: an edit that leaves the text of the rules as it was keeps
  every group, and any other edit keeps only the groups that have a text. So a group is
  removed from the form the moment its multiplier is cleared, and a second group that is not complete yet
  is removed by the next change of another one.
\<close>

theorem rule_groups_after_edit:
  assumes "te_mode st = Visual" and "gs' = update_group gi i (te_groups st)"
    and "\<And>g. g \<in> set gs' \<Longrightarrow> canonical_group g \<or> buildRuleGroupFactor g = []"
  shows "tiered_step (GroupUpdate gi i) st
    = Inr (st\<lparr>te_groups := (if buildRequestRuleExpr gs' = te_rules st then gs' else filter (\<lambda>g. buildRuleGroupFactor g \<noteq> []) gs'),
         te_rules := buildRequestRuleExpr gs'\<rparr>)"
proof -
  let ?kept = "filter (\<lambda>g. buildRuleGroupFactor g \<noteq> []) gs'"
  have "tryParseRequestRuleExpr (buildRequestRuleExpr ?kept) = Inr (Some ?kept)"
    by (rule parse_built_rules) (use assms(3) in auto)
  then have p: "tryParseRequestRuleExpr (buildRequestRuleExpr gs') = Inr (Some ?kept)" by (simp only: build_complete)
  show ?thesis
    by (rule tiered_step_rules [OF handle_group_update])
       (use assms(1,2) p in \<open>auto simp: rules_effect_def groups_of_def\<close>)
qed

theorem rule_groups_after_edit_witness:
  "tiered_step (GroupUpdate 0 (Multiplier [])) sample_editor = Inr (sample_editor\<lparr>te_groups := [], te_rules := []\<rparr>)"
proof -
  let ?g = "sample_group\<lparr>g_multiplier := []\<rparr>"
  have u: "[?g] = update_group 0 (Multiplier []) (te_groups sample_editor)" by (simp add: update_group_def group_change_def sample_editor_def)
  have f: "buildRuleGroupFactor ?g = []" using numeric_nonempty by (simp add: buildRuleGroupFactor_def trim_trimmed trimmed_def)
  have "buildRequestRuleExpr [sample_group] \<noteq> []"
    using build_rules [of "[sample_group]"] sample_canonical by (simp add: build_factor)
  then show ?thesis
    using rule_groups_after_edit [OF _ u] f by (simp add: sample_editor_def buildRequestRuleExpr_def)
qed

text \<open>
  A rule that compares a parameter is lost on the way through the text view: completing its group removes
  it from the form, with the rule still to be saved and a note that asks to edit it as text; the text
  view, though, shows the price expression alone, and switching back from it discards the rule.
\<close>

theorem comparison_rule_lost:
  assumes "te_mode st = Visual" and "te_config st = Some tiers" and "te_expr st = generateExprFromVisualConfig (Some tiers)"
    and "te_rules st = []" and "te_groups st = [\<lparr>g_conditions = [req_cond SOURCE_PARAM p mode (JStr v)], g_multiplier = m'\<rparr>]"
    and "plain p" "p \<noteq> []" "unreadable_mode mode v" "numeric m"
    and "list_all tier_ok tiers" and "tiers \<noteq> []" and "plain_labels tiers"
  shows "\<exists>a b c. tiered_step (GroupUpdate 0 (Multiplier m)) st = Inr a \<and> te_groups a = [] \<and> te_rules a \<noteq> []
    \<and> tiered_step (ModeSwitch Raw) a = Inr b \<and> te_raw b = te_expr st \<and> te_rules b = te_rules a
    \<and> tiered_step (ModeSwitch Visual) b = Inr c \<and> te_groups c = [] \<and> te_rules c = []"
proof -
  let ?gs = "[\<lparr>g_conditions = [req_cond SOURCE_PARAM p mode (JStr v)], g_multiplier = m\<rparr>]"
  let ?r = "buildRequestRuleExpr ?gs"
  define a where "a = st\<lparr>te_groups := [], te_rules := ?r\<rparr>"
  define b where "b = a\<lparr>te_mode := Raw, te_raw := te_expr st\<rparr>"
  note u = unreadable_rule [OF assms(6-9)]
  have w: "price_text (te_expr st)" using generated_price_text [OF assms(10,12,11)] assms(3) by simp
  note sp = split_price_text [OF w]
  have "update_group 0 (Multiplier m) (te_groups st) = ?gs" by (simp add: update_group_def group_change_def assms(5))
  then have 1: "tiered_step (GroupUpdate 0 (Multiplier m)) st = Inr a"
    by (intro tiered_step_rules [OF handle_group_update])
       (use assms(1,4) u in \<open>simp_all add: rules_effect_def groups_of_def a_def\<close>)
  have "combined_text (te_expr st) (buildRequestRuleExpr []) = te_expr st"
    using price_text_trim [OF w] by (simp add: combined_text_def combineBillingExpr_def buildRequestRuleExpr_def trim_trimmed trimmed_def Let_def)
  then have "handle_tiered (ModeSwitch Raw) a = Inr b"
    using assms(2,3) by (simp add: handle_tiered_def handleModeSwitch_def a_def b_def)
  then have 2: "tiered_step (ModeSwitch Raw) a = Inr b"
    by (rule tiered_stepI [OF _ rules_effect_same]) (use sp assms(1-3) in \<open>simp_all add: effectiveExpr_def a_def b_def\<close>)
  have e: "tryParseRequestRuleExpr [] = Inr (Some [])" by (simp add: tryParseRequestRuleExpr_def trim_trimmed trimmed_def)
  obtain c1 where h: "handle_tiered (ModeSwitch Visual) b = Inr c1" "te_mode c1 = Visual" "te_rules c1 = []" "te_groups c1 = []"
    using sp e by (simp add: handle_tiered_def handleModeSwitch_def b_def groups_of_def)
  have "rules_effect b c1 = Inr c1" using h e by (simp add: rules_effect_def groups_of_def)
  then have "tiered_step (ModeSwitch Visual) b = expr_effect b c1" using h(1) by (simp add: tiered_step_def settle_tiers_def)
  moreover obtain c where "expr_effect b c1 = Inr c" "te_rules c = []" "te_groups c = []"
    using h(2-4) that [of c1] that [of "c1\<lparr>te_expr := generateExprFromVisualConfig (te_config c1)\<rparr>"]
    by (cases "effectiveExpr b = effectiveExpr c1") (simp_all add: expr_effect_def effectiveExpr_def)
  ultimately obtain c where "tiered_step (ModeSwitch Visual) b = Inr c" "te_rules c = []" "te_groups c = []" by simp
  then show ?thesis using 1 2 u by (auto simp: a_def b_def)
qed

theorem comparison_rule_lost_witness:
  "\<exists>a b c. tiered_step (GroupUpdate 0 (Multiplier (js ''3'')))
      (sample_editor\<lparr>te_rules := [], te_groups := [\<lparr>g_conditions = [req_cond SOURCE_PARAM (js ''max_tokens'') MATCH_GT (JStr (js ''21''))], g_multiplier = []\<rparr>]\<rparr>) = Inr a
    \<and> te_groups a = [] \<and> te_rules a \<noteq> []
    \<and> tiered_step (ModeSwitch Raw) a = Inr b \<and> te_raw b = te_expr sample_editor \<and> te_rules b = te_rules a
    \<and> tiered_step (ModeSwitch Visual) b = Inr c \<and> te_groups c = [] \<and> te_rules c = []"
proof -
  have "list_all tier_ok sample_tiers" using sample_tiers_priced by (simp add: priced_def)
  from comparison_rule_lost [OF _ _ _ _ _ sample_plain(4) _ _ sample_numbers(4) this sample_nonempty sample_labels,
      where st = "sample_editor\<lparr>te_rules := [], te_groups := [\<lparr>g_conditions = [req_cond SOURCE_PARAM (js ''max_tokens'') MATCH_GT (JStr (js ''21''))], g_multiplier = []\<rparr>]\<rparr>"
        and mode = MATCH_GT and v = "js ''21''" and m' = "[]"]
  show ?thesis by (simp add: sample_editor_def unreadable_mode_def sample_numbers(1))
qed

section \<open>Expressions that are misread\<close>

text \<open>
  Reading a single tier accepts any digits, signs and points after a multiplication and does not compare
  the text it would generate, so \<open>c * 10+5\<close> is read as the price \<open>Number('10+5')\<close>: opening a model with
  such an expression replaces the output price by zero.
\<close>

definition sum_expr :: jsstr where
  "sum_expr = js ''tier('' @ 34 # js ''base'' @ 34 # js '', p * 2 + c * 10+5)''"

definition sum_read :: tier where
  "sum_read = \<lparr>t_conditions = [], t_costs = base_costs (JNum (Fin 2)) (JNum NaN), t_label = js ''base'', t_cache_mode = Some Generic\<rparr>"

lemma two_text: "number_to_string (Fin 2) = js ''2''" "string_to_number (js ''2'') = Fin 2"
proof -
  have "rnd 2 = Fin 2" using rnd_of_int [of 2] by simp
  then have "digit_candidate 2 1 1 = Some 2" by (simp add: digit_candidate_def Let_def pow10_def)
  moreover have "dec_exp 2 = 1" "show_nat 2 = js ''2''" by code_simp+
  ultimately have "shortest_digits 2 = (js ''2'', 1)" by (simp add: shortest_digits_def Let_def upto_rec1 [of 1 17])
  then show t: "number_to_string (Fin 2) = js ''2''" by (simp add: show_pos_def js_def zeros_def)
  show "string_to_number (js ''2'') = Fin 2" using string_to_number_text [OF json_num_ok_numeral [of "num.Bit0 num.One"]] t by simp
qed

lemma sum_text: "string_to_number (js ''10+5'') = NaN"
proof -
  have "trim (js ''10+5'') = js ''10+5''" by (rule trim_trimmed) (simp add: trimmed_def js_def js_ws_def)
  then show ?thesis by (simp add: string_to_number_def take_decimal_def take_exponent_def is_digit_def js_def Let_def)
qed

lemma sum_parsed: "tryParseVisualConfig sum_expr = Some [sum_read]"
proof -
  have "rx_exec singleRe sum_expr = Some [(3, js ''10+5''), (2, js ''2''), (1, js ''base'')]" by code_simp
  moreover have "strip_version sum_expr = sum_expr" "sum_expr \<noteq> []" using not_version [of 116] by (simp_all add: sum_expr_def js_def)
  ultimately show ?thesis using two_text(2) sum_text
    by (simp add: tryParseVisualConfig_def Let_def normalizeVisualConfig_def normalizeVisualTier_def getTierCacheMode_def read_costs_def cap_def
        cost_field_def base_costs_def billing_defs sum_read_def js_def)
qed

lemma sum_generated: "generateExprFromVisualConfig (Some [sum_read]) = js ''tier('' @ 34 # js ''base'' @ 34 # js '', p * 2 + c * 0)''"
proof -
  have "number_to_string (Fin 0) = js ''0''" by simp
  then show ?thesis using two_text(1)
    by (simp add: generateExprFromVisualConfig_def sum_read_def tier_text_def buildTierBodyExpr_def buildConditionStr_def extra_parts_def billing_defs
        unit_cost_def cost_field_def base_costs_def number_or_zero_def num_is_zero_def cost_part_def js_def Let_def del: number_to_string.simps(4))
qed

lemma sum_price_lost:
  "mount_tiers sum_expr [] = Inr \<lparr>te_mode = Visual, te_config = Some [sum_read], te_raw = sum_expr, te_groups = [],
     te_expr = js ''tier('' @ 34 # js ''base'' @ 34 # js '', p * 2 + c * 0)'', te_rules = []\<rparr>"
proof -
  have "tryParseRequestRuleExpr [] = Inr (Some [])" by (simp add: tryParseRequestRuleExpr_def trim_trimmed trimmed_def)
  moreover have "js ''tier('' @ 34 # js ''base'' @ 34 # js '', p * 2 + c * 0)'' \<noteq> zero_expr" by (simp add: zero_expr_def js_def)
  ultimately show ?thesis
    by (simp add: mount_tiers_def groups_of_def load_model_def sum_parsed sum_generated expr_effect_def effectiveExpr_def Let_def
        generateExprFromVisualConfig_def [of None])
qed

end
