(* ===== verification/TieredPricingPresets.thy ===== *)
theory TieredPricingPresets
  imports TieredPricingSwitch
begin

text \<open>
  The presets of the tiered price editor, \<open>PRESET_GROUPS\<close> in
  \<open>src/web/src/pages/Setting/Ratio/components/TieredPricingEditor.jsx\<close>, without their names: the price expressions and the
  request rules. A condition is written with the fields the preset gives; the editor shows the
  conditions as they are read back from the text of the rules.
\<close>

definition preset_header :: "string \<Rightarrow> jsstr \<Rightarrow> string \<Rightarrow> condition" where
  "preset_header path mode v = blank_condition\<lparr>c_source := Some SOURCE_HEADER, c_path := Some (js path), c_mode := Some mode, c_value := JStr (js v)\<rparr>"

definition preset_param :: "string \<Rightarrow> jsstr \<Rightarrow> string \<Rightarrow> condition" where
  "preset_param path mode v = blank_condition\<lparr>c_source := Some SOURCE_PARAM, c_path := Some (js path), c_mode := Some mode, c_value := JStr (js v)\<rparr>"

definition preset_time :: "string \<Rightarrow> jsstr \<Rightarrow> condition" where
  "preset_time f mode = blank_condition\<lparr>c_source := Some SOURCE_TIME, c_timeFunc := Some (js f), c_timezone := Some (js ''Asia/Shanghai''), c_mode := Some mode\<rparr>"

definition preset_at :: "string \<Rightarrow> string \<Rightarrow> condition" where
  "preset_at f v = (preset_time f MATCH_EQ)\<lparr>c_value := JStr (js v)\<rparr>"

definition rule :: "condition list \<Rightarrow> string \<Rightarrow> rule_group" where
  "rule cs m = \<lparr>g_conditions = cs, g_multiplier = js m\<rparr>"

text \<open>A text whose double quotes are written as back quotes below.\<close>

definition quoted :: "string \<Rightarrow> jsstr" where
  "quoted s = map (\<lambda>c. if c = 96 then 34 else c) (js s)"

definition PRESET_GROUPS :: "preset list list" where
  "PRESET_GROUPS =
     [[\<lparr>ps_expr = quoted ''tier(`base`, p * 2 + c * 4)'', ps_rules = []\<rparr>,
       \<lparr>ps_expr = quoted ''tier(`base`, p * 5 + c * 25 + cr * 0.5 + cc * 6.25 + cc1h * 10)'', ps_rules = []\<rparr>,
       \<lparr>ps_expr = quoted ''len <= 272000 ? tier(`standard`, p * 2.5 + c * 15 + cr * 0.25) : tier(`long_context`, p * 5 + c * 22.5 + cr * 0.5)'', ps_rules = []\<rparr>],
      [\<lparr>ps_expr = quoted ''len <= 200000 ? tier(`standard`, p * 3 + c * 15 + cr * 0.3 + cc * 3.75 + cc1h * 6) : tier(`long_context`, p * 6 + c * 22.5 + cr * 0.6 + cc * 7.5 + cc1h * 12)'', ps_rules = []\<rparr>,
       \<lparr>ps_expr = quoted ''len <= 32000 ? tier(`short`, p * 1.2 + c * 6 + cr * 0.24 + cc * 1.5) : len <= 128000 ? tier(`mid`, p * 2.4 + c * 12 + cr * 0.48 + cc * 3) : tier(`long`, p * 3 + c * 15 + cr * 0.6 + cc * 3.75)'', ps_rules = []\<rparr>,
       \<lparr>ps_expr = quoted ''len < 32000 && c < 200 ? tier(`short_output`, p * 0.8 + c * 2 + cr * 0.16) : len < 32000 && c >= 200 ? tier(`long_output`, p * 0.8 + c * 6 + cr * 0.16) : tier(`mid_context`, p * 1.2 + c * 8 + cr * 0.24)'', ps_rules = []\<rparr>,
       \<lparr>ps_expr = quoted ''len <= 32000 && c <= 200 ? tier(`discount`, p * 0.8 + c * 2 + cr * 0.16 + cc * 0.17) : len <= 32000 ? tier(`short`, p * 0.8 + c * 8 + cr * 0.16 + cc * 0.17) : len <= 128000 ? tier(`mid`, p * 1.2 + c * 16 + cr * 0.16 + cc * 0.17) : tier(`long`, p * 2.4 + c * 24 + cr * 0.16 + cc * 0.17)'', ps_rules = []\<rparr>],
      [\<lparr>ps_expr = quoted ''tier(`base`, p * 2 + c * 8 + img * 2.5)'', ps_rules = []\<rparr>,
       \<lparr>ps_expr = quoted ''tier(`base`, p * 0.3 + c * 2.5 + cr * 0.03 + ai * 1.0)'', ps_rules = []\<rparr>,
       \<lparr>ps_expr = quoted ''tier(`base`, p * 2 + c * 12 + img_o * 120)'', ps_rules = []\<rparr>,
       \<lparr>ps_expr = quoted ''tier(`base`, p * 0.43 + c * 3.06 + img * 0.78 + ai * 3.81 + ao * 15.11)'', ps_rules = []\<rparr>],
      [\<lparr>ps_expr = quoted ''tier(`base`, p * 5 + c * 25 + cr * 0.5 + cc * 6.25 + cc1h * 10)'', ps_rules = [rule [preset_header ''anthropic-beta'' MATCH_CONTAINS ''fast-mode-2026-02-01''] ''6'']\<rparr>,
       \<lparr>ps_expr = quoted ''len <= 272000 ? tier(`standard`, p * 2.5 + c * 15 + cr * 0.25) : tier(`long_context`, p * 5 + c * 22.5 + cr * 0.5)'', ps_rules = [rule [preset_param ''service_tier'' MATCH_EQ ''priority''] ''2'', rule [preset_param ''service_tier'' MATCH_EQ ''flex''] ''0.5'']\<rparr>],
      [\<lparr>ps_expr = quoted ''tier(`base`, p * 3 + c * 15)'', ps_rules = [rule [(preset_time ''hour'' MATCH_RANGE)\<lparr>c_rangeStart := JStr (js ''21''), c_rangeEnd := JStr (js ''6'')\<rparr>] ''0.5'']\<rparr>,
       \<lparr>ps_expr = quoted ''tier(`base`, p * 3 + c * 15)'', ps_rules = [rule [preset_at ''weekday'' ''0''] ''0.8'', rule [preset_at ''weekday'' ''6''] ''0.8'']\<rparr>,
       \<lparr>ps_expr = quoted ''tier(`base`, p * 3 + c * 15)'', ps_rules = [rule [preset_at ''month'' ''1'', preset_at ''day'' ''1''] ''0.5'']\<rparr>]]"

definition normal_group :: "rule_group \<Rightarrow> rule_group" where
  "normal_group g = g\<lparr>g_conditions := map normalizeCondition (g_conditions g)\<rparr>"

lemma build_normal: "buildRequestConditionExpr (normalizeCondition c) = buildRequestConditionExpr c"
  using normalizeCondition_idempotent by blast

lemma factor_normal: "buildRuleGroupFactor (normal_group g) = buildRuleGroupFactor g"
proof -
  have "map buildRequestConditionExpr (g_conditions (normal_group g)) = map buildRequestConditionExpr (g_conditions g)" "g_multiplier (normal_group g) = g_multiplier g"
    by (simp_all add: normal_group_def build_normal)
  then show ?thesis by (simp only: buildRuleGroupFactor_def)
qed

lemma rules_normal: "buildRequestRuleExpr (map normal_group gs) = buildRequestRuleExpr gs"
  by (simp add: buildRequestRuleExpr_def comp_def factor_normal)

lemmas preset_simps = normal_group_def normalizeCondition_def preset_header_def preset_param_def preset_time_def preset_at_def rule_def blank_condition_def
  or_else_def pick_mode_def text_of_def getRequestRuleMatchOptions_def source_defs match_defs TIME_FUNCS_def

lemma preset_numbers: "numeric (js ''6'')" "numeric (js ''2'')" "numeric (js ''0.5'')" "numeric (js ''0.8'')" "numeric (js ''0'')" "numeric (js ''1'')" "numeric (js ''21'')"
  by code_simp+

lemma preset_plain: "plain (js ''anthropic-beta'')" "plain (js ''fast-mode-2026-02-01'')" "plain (js ''service_tier'')" "plain (js ''priority'')" "plain (js ''flex'')"
  "plain (js ''Asia/Shanghai'')"
  by code_simp+

lemma preset_conditions:
  "canonical (normalizeCondition (preset_header ''anthropic-beta'' MATCH_CONTAINS ''fast-mode-2026-02-01''))"
  "canonical (normalizeCondition (preset_param ''service_tier'' MATCH_EQ ''priority''))"
  "canonical (normalizeCondition (preset_param ''service_tier'' MATCH_EQ ''flex''))"
  "canonical (normalizeCondition ((preset_time ''hour'' MATCH_RANGE)\<lparr>c_rangeStart := JStr (js ''21''), c_rangeEnd := JStr (js ''6'')\<rparr>))"
  "canonical (normalizeCondition (preset_at ''weekday'' ''0''))" "canonical (normalizeCondition (preset_at ''weekday'' ''6''))"
  "canonical (normalizeCondition (preset_at ''month'' ''1''))" "canonical (normalizeCondition (preset_at ''day'' ''1''))"
proof -
  have tz: "js ''Asia/Shanghai'' \<noteq> []" "js ''anthropic-beta'' \<noteq> []" "js ''service_tier'' \<noteq> []" by (simp_all add: js_def)
  have f: "js f \<in> set TIME_FUNCS" if "f \<in> {''hour'', ''weekday'', ''month'', ''day''}" for f
    using that by (auto simp: TIME_FUNCS_def)
  show "canonical (normalizeCondition (preset_header ''anthropic-beta'' MATCH_CONTAINS ''fast-mode-2026-02-01''))"
    using canonical.contains [OF preset_plain(1) tz(2) preset_plain(2)] by (simp add: preset_simps)
  show "canonical (normalizeCondition (preset_param ''service_tier'' MATCH_EQ ''priority''))"
    "canonical (normalizeCondition (preset_param ''service_tier'' MATCH_EQ ''flex''))"
    using canonical.equals [OF _ preset_plain(3) tz(3) preset_plain(4), of SOURCE_PARAM]
      canonical.equals [OF _ preset_plain(3) tz(3) preset_plain(5), of SOURCE_PARAM] by (simp_all add: preset_simps)
  show "canonical (normalizeCondition ((preset_time ''hour'' MATCH_RANGE)\<lparr>c_rangeStart := JStr (js ''21''), c_rangeEnd := JStr (js ''6'')\<rparr>))"
    using canonical.range [OF f preset_plain(6) tz(1) preset_numbers(7,1), of "''hour''"] by (simp add: preset_simps)
  have at: "canonical (normalizeCondition (preset_at f v))" if "f \<in> {''hour'', ''weekday'', ''month'', ''day''}" "numeric (js v)" for f v
  proof -
    have "canonical (time_cond (js f) (js ''Asia/Shanghai'') MATCH_EQ (JStr (js v)) (JStr []) (JStr []))"
      by (rule canonical.time [OF f [OF that(1)] preset_plain(6) tz(1) _ that(2)]) simp
    moreover have "normalizeCondition (preset_at f v) = time_cond (js f) (js ''Asia/Shanghai'') MATCH_EQ (JStr (js v)) (JStr []) (JStr [])"
      using that(1) by (auto simp: preset_simps)
    ultimately show ?thesis by simp
  qed
  show "canonical (normalizeCondition (preset_at ''weekday'' ''0''))" "canonical (normalizeCondition (preset_at ''weekday'' ''6''))"
    "canonical (normalizeCondition (preset_at ''month'' ''1''))" "canonical (normalizeCondition (preset_at ''day'' ''1''))"
    by (rule at; simp add: preset_numbers)+
qed

text \<open>
  The request rules of every preset are readable: the text built from them parses, so that the rule groups the
  editor shows after applying a preset are those of the preset, with their conditions normalised.
\<close>

theorem preset_rules_shown:
  assumes "p \<in> set (concat PRESET_GROUPS)"
  shows "tryParseRequestRuleExpr (buildRequestRuleExpr (ps_rules p)) = Inr (Some (map normal_group (ps_rules p)))"
proof -
  have "canonical_group (normal_group g)" if "g \<in> set (ps_rules p)" for g
    using assms that preset_conditions preset_numbers unfolding PRESET_GROUPS_def
    by (auto simp: canonical_group_def normal_group_def rule_def)
  then have "tryParseRequestRuleExpr (buildRequestRuleExpr (map normal_group (ps_rules p))) = Inr (Some (map normal_group (ps_rules p)))"
    by (intro parse_built_rules) auto
  then show ?thesis by (simp only: rules_normal)
qed

theorem preset_rules_shown_witness:
  "tryParseRequestRuleExpr (buildRequestRuleExpr [rule [preset_at ''month'' ''1'', preset_at ''day'' ''1''] ''0.5''])
     = Inr (Some [normal_group (rule [preset_at ''month'' ''1'', preset_at ''day'' ''1''] ''0.5'')])"
  using preset_rules_shown [of "last (last PRESET_GROUPS)"] by (simp add: PRESET_GROUPS_def)

end
