(* ===== verification/TierDisplay.thy ===== *)
theory TierDisplay
  imports TieredPricingRoundtrip Passkey
begin

text \<open>
  The tiers in the log display: \<open>stripExprVersion\<close>, \<open>parseTierBody\<close> and \<open>parseTiersFromExpr\<close> of
  \<open>src/web/src/helpers/render.jsx\<close>, which read the expression that a request was billed with, and the choice of the
  tier whose prices are shown. The expression comes as base64 of the UTF-8 bytes that the server stored.
\<close>

section \<open>Reading the prices of a tier\<close>

record pricing_var =
  pv_key :: jsstr
  pv_field :: jsstr
  pv_tierField :: jsstr
  pv_cache :: bool        \<comment> \<open>\<open>group === 'cache'\<close>\<close>
  pv_label :: jsstr
  pv_shortLabel :: jsstr

definition pricing_var_of :: "string \<Rightarrow> string \<Rightarrow> string \<Rightarrow> bool \<Rightarrow> jsstr \<Rightarrow> jsstr \<Rightarrow> pricing_var" where
  "pricing_var_of k f tf g l sl = \<lparr>pv_key = js k, pv_field = js f, pv_tierField = js tf, pv_cache = g, pv_label = l, pv_shortLabel = sl\<rparr>"

definition BILLING_PRICING_VARS :: "pricing_var list" where
  "BILLING_PRICING_VARS =
     [pricing_var_of ''p'' ''inputPrice'' ''input_unit_cost'' False [36755, 20837, 20215, 26684] [36755, 20837],
      pricing_var_of ''c'' ''outputPrice'' ''output_unit_cost'' False [34917, 20840, 20215, 26684] [34917, 20840],
      pricing_var_of ''cr'' ''cacheReadPrice'' ''cache_read_unit_cost'' True [32531, 23384, 35835, 21462, 20215, 26684] [32531, 23384, 35835],
      pricing_var_of ''cc'' ''cacheCreatePrice'' ''cache_create_unit_cost'' True [32531, 23384, 21019, 24314, 20215, 26684] [32531, 23384, 21019, 24314],
      pricing_var_of ''cc1h'' ''cacheCreate1hPrice'' ''cache_create_1h_unit_cost'' True (js ''1h'' @ [32531, 23384, 21019, 24314, 20215, 26684]) (js ''1h'' @ [32531, 23384, 21019, 24314]),
      pricing_var_of ''img'' ''imagePrice'' ''image_unit_cost'' False [22270, 29255, 36755, 20837, 20215, 26684] [22270, 29255, 36755, 20837],
      pricing_var_of ''img_o'' ''imageOutputPrice'' ''image_output_unit_cost'' False [22270, 29255, 36755, 20986, 20215, 26684] [22270, 29255, 36755, 20986],
      pricing_var_of ''ai'' ''audioInputPrice'' ''audio_input_unit_cost'' False [38899, 39057, 36755, 20837, 20215, 26684] [38899, 39057, 36755, 20837],
      pricing_var_of ''ao'' ''audioOutputPrice'' ''audio_output_unit_cost'' False [38899, 39057, 34917, 20840, 20215, 26684] [38899, 39057, 36755, 20986]]"

text \<open>\<open>\\b(p|c|...)\\s*\\*\\s*([\\d.eE+-]+)\<close> without the word boundary, which the search checks.\<close>

fun rx_alts :: "jsstr list \<Rightarrow> regex" where
  "rx_alts [] = RSet True []"
| "rx_alts [w] = RLit w"
| "rx_alts (w # ws) = RAlt (RLit w) (rx_alts ws)"

definition BILLING_VAR_REGEX :: regex where
  "BILLING_VAR_REGEX = rx_seq ([RGroup 1 (rx_alts (map pv_key BILLING_PRICING_VARS))] @ rx_star_sign @ [RGroup 2 rx_num])"

definition word_unit :: "int \<Rightarrow> bool" where  \<comment> \<open>\<open>\\w\<close>\<close>
  "word_unit c \<longleftrightarrow> is_digit c \<or> 97 \<le> c \<and> c \<le> 122 \<or> 65 \<le> c \<and> c \<le> 90 \<or> c = 95"

text \<open>
  The loop over \<open>exec\<close>. A match begins with a letter, so there is a word boundary before it exactly when the unit before
  it, if there is one, is no word unit: \<open>pw\<close> says whether it is one.
\<close>

function cost_matches :: "bool \<Rightarrow> jsstr \<Rightarrow> captures list" where
  "cost_matches pw s =
     (case (if pw then [] else rx_match BILLING_VAR_REGEX (s, [])) of
        (rest, m) # _ \<Rightarrow> m # (if length rest < length s then cost_matches (word_unit (s ! (length s - length rest - 1))) rest else [])
      | [] \<Rightarrow> (case s of [] \<Rightarrow> [] | c # cs \<Rightarrow> cost_matches (word_unit c) cs))"
  by pat_completeness auto
termination
  by (relation "measure (length o snd)") auto

declare cost_matches.simps [simp del]

definition num_or_zero :: "jsnum option \<Rightarrow> jsnum" where  \<comment> \<open>\<open>coeffs[varName] || 0\<close>\<close>
  "num_or_zero n = (case n of None \<Rightarrow> Fin 0 | Some x \<Rightarrow> if x = NaN \<or> num_is_zero x then Fin 0 else x)"

text \<open>The first coefficient of a variable counts.\<close>

definition parseTierBody :: "jsstr \<Rightarrow> (jsstr \<times> jsnum) list" where
  "parseTierBody bodyStr =
     (let coeffs = map (\<lambda>m. (cap m 1, string_to_number (cap m 2))) (cost_matches False bodyStr)
      in map (\<lambda>v. (pv_field v, num_or_zero (map_of coeffs (pv_key v)))) BILLING_PRICING_VARS)"

section \<open>Reading the tiers\<close>

record log_tier =
  lt_label :: jsstr
  lt_conditions :: "tier_cond list"
  lt_prices :: "(jsstr \<times> jsnum) list"

definition rx_log_version :: "regex list" where  \<comment> \<open>\<open>/^v(\\d+):([\\s\\S]*)$/\<close>\<close>
  "rx_log_version = [RLit (js ''v''), RGroup 1 (RPlus rx_digit), RLit (js '':''), RGroup 2 (RStar rx_any)]"

definition stripExprVersion :: "jsstr \<Rightarrow> jsnum \<times> jsstr" where
  "stripExprVersion exprStr =
     (if exprStr = [] then (Fin 1, [])
      else case rx_exec rx_log_version exprStr of Some m \<Rightarrow> (string_to_number (cap m 1), cap m 2) | None \<Rightarrow> (Fin 1, exprStr))"

definition rx_not_paren :: regex where "rx_not_paren = RSet False [(41, 41)]"

definition rx_log_tier :: "regex list" where  \<comment> \<open>\<open>tier\\("([^"]*)",\\s*([^)]+)\\)\<close>\<close>
  "rx_log_tier = [RLit (js ''tier('' @ [34]), RGroup 2 (RStar rx_not_quote), RLit ([34] @ js '',''), rx_sp, RGroup 3 (RPlus rx_not_paren), RLit (js '')'')]"

definition logTierRe :: regex where
  "logTierRe = rx_seq (ROpt (rx_seq [condGroup, rx_sp, RLit (js ''?''), rx_sp]) # rx_log_tier)"

definition read_log_tier :: "captures \<Rightarrow> log_tier" where
  "read_log_tier m = \<lparr>lt_label = cap m 2, lt_conditions = read_conditions (cap m 1), lt_prices = parseTierBody (cap m 3)\<rparr>"

definition parseTiersFromExpr :: "jsstr \<Rightarrow> log_tier list" where
  "parseTiersFromExpr exprStr =
     (if exprStr = [] then [] else map read_log_tier (rx_matches logTierRe (snd (stripExprVersion exprStr))))"

section \<open>The tier that is shown\<close>

text \<open>\<open>atob(exprB64)\<close>: the bytes as units; a text that is not base64 is the empty expression.\<close>

definition decoded_expr :: "jsstr \<Rightarrow> jsstr" where
  "decoded_expr exprB64 = (case atob exprB64 of Some bs \<Rightarrow> map uint bs | None \<Rightarrow> [])"

text \<open>\<open>tiers.find((t) => t.label === matchedTier) || tiers[0]\<close>.\<close>

definition shown_log_tier :: "jsstr \<Rightarrow> jsval \<Rightarrow> log_tier option" where
  "shown_log_tier exprB64 matchedTier =
     (let tiers = parseTiersFromExpr (decoded_expr exprB64) in
      case find (\<lambda>t. JStr (lt_label t) = matchedTier) tiers of
        Some t \<Rightarrow> Some t
      | None \<Rightarrow> (case tiers of [] \<Rightarrow> None | t # _ \<Rightarrow> Some t))"

section \<open>The prices of a generated tier\<close>

abbreviation price_keys :: "jsstr list" where "price_keys \<equiv> map pv_key BILLING_PRICING_VARS"
abbreviation cost_rest :: regex where "cost_rest \<equiv> rx_seq (rx_star_sign @ [RGroup 2 rx_num])"

lemma price_keys: "price_keys = map js [''p'', ''c'', ''cr'', ''cc'', ''cc1h'', ''img'', ''img_o'', ''ai'', ''ao'']"
  by (simp add: BILLING_PRICING_VARS_def pricing_var_of_def)

lemma price_keys_apart: "sorted_wrt apart price_keys"
  unfolding price_keys by (simp add: apart_def js_def js_ws_def)

lemma price_key_ok: "x \<in> set price_keys \<Longrightarrow> name_ok x"
  unfolding price_keys by (auto simp: name_ok_def js_def id_start_def id_part_def is_digit_def)

lemma BILLING_VAR_REGEX_seq: "BILLING_VAR_REGEX = RSeq (RGroup 1 (rx_alts price_keys)) cost_rest"
  by (simp add: BILLING_VAR_REGEX_def rx_star_sign_def)

lemma reads_cost_rest:
  assumes "json_num_ok n"
  shows "reads cost_rest num_end (js '' * '' @ number_to_string n) [2 \<mapsto> number_to_string n]"
proof -
  have "reads cost_rest num_end (js '' * '' @ number_to_string n) (Map.empty ++ [2 \<mapsto> number_to_string n])"
    by (rule reads_append [OF reads_signs(1)]) (simp_all add: reads_number [OF assms] number_head [OF assms] rx_star_sign_def)
  then show ?thesis by simp
qed

text \<open>Another variable does not match, also where its name begins the one in the text.\<close>

lemma other_key_fails:
  assumes "apart v x" and "name_ok v"
  shows "rx_match (RSeq (RGroup 1 (RLit v)) cost_rest) (x @ js '' * '' @ u, c) = []"
proof (rule rx_group.wrap_lit)
  have v32: "32 \<notin> set v" using assms(2) by (auto simp: name_ok_def id_part_def id_start_def is_digit_def)
  let ?t = "x @ js '' * '' @ u"
  show "\<not> startsWith ?t v \<or> (\<forall>c'. rx_match cost_rest (drop (length v) ?t, c') = [])"
  proof (cases "startsWith ?t v")
    case True
    then have "startsWith x v" using startsWith_name [of x "42 # 32 # u" v] v32 by (simp add: js_def)
    then have a: "length v < length x" "\<not> js_ws (x ! length v)" "x ! length v \<noteq> 42" using assms(1) by (auto simp: apart_def)
    then have d: "drop (length v) ?t = x ! length v # drop (Suc (length v)) x @ js '' * '' @ u"
      by (simp add: Cons_nth_drop_Suc [symmetric])
    have "rx_match cost_rest (drop (length v) ?t, c') = []" for c'
      unfolding d using a by (simp add: rx_star_sign_def js_def sp_lit js_ws_def [of 42] lit_match del: rx_match.simps)
    then show ?thesis by blast
  qed simp
qed

lemma reads_key:
  assumes "json_num_ok n"
  shows "reads (RSeq (RGroup 1 (RLit x)) cost_rest) num_end (cost_part x n) [1 \<mapsto> x, 2 \<mapsto> number_to_string n]"
proof -
  have "[1 :: nat \<mapsto> x] ++ [2 \<mapsto> number_to_string n] = [1 \<mapsto> x, 2 \<mapsto> number_to_string n]" by simp
  then show ?thesis using rx_group.reads_op [OF reads_cost_rest [OF assms], of 1 x] by (simp only: cost_part_def)
qed

lemma reads_alts:
  assumes "x \<in> set ws" and "sorted_wrt apart ws" and "\<forall>w \<in> set ws. name_ok w" and "json_num_ok n"
  shows "reads (RSeq (RGroup 1 (rx_alts ws)) cost_rest) num_end (cost_part x n) [1 \<mapsto> x, 2 \<mapsto> number_to_string n]"
  using assms(1-3)
proof (induction ws rule: rx_alts.induct)
  case (2 w)
  then have "x = w" by simp
  then show ?case using reads_key [OF assms(4)] by (simp only: rx_alts.simps)
next
  case (3 w y ys)
  show ?case
  proof (cases "x = w")
    case True
    then show ?thesis using rx_group.reads_take [OF reads_key [OF assms(4)]] by (simp only: rx_alts.simps)
  next
    case False
    then have x: "x \<in> set (y # ys)" using 3(2) by simp
    then have "reads (RSeq (RGroup 1 (rx_alts (y # ys))) cost_rest) num_end (cost_part x n) [1 \<mapsto> x, 2 \<mapsto> number_to_string n]"
      using 3(3,4) by (intro 3(1)) auto
    moreover have "rx_match (RSeq (RGroup 1 (RLit w)) cost_rest) (cost_part x n @ rest, c) = []" for rest c
    proof -
      have "apart w x" "name_ok w" using 3(3,4) x by auto
      then show ?thesis using other_key_fails by (simp add: cost_part_def del: rx_match.simps)
    qed
    ultimately show ?thesis unfolding rx_alts.simps(3) by (rule rx_group.reads_skip)
  qed
qed simp

lemma reads_price:
  assumes "x \<in> set price_keys" and "json_num_ok n"
  shows "reads BILLING_VAR_REGEX num_end (cost_part x n) [1 \<mapsto> x, 2 \<mapsto> number_to_string n]"
  unfolding BILLING_VAR_REGEX_seq using price_key_ok by (intro reads_alts assms price_keys_apart) auto

lemma price_fails: "x \<in> {32, 43} \<Longrightarrow> rx_match BILLING_VAR_REGEX (x # s, c) = []" "rx_match BILLING_VAR_REGEX ([], c) = []"
  unfolding BILLING_VAR_REGEX_seq price_keys by (auto simp: js_def)

lemma cost_matches_Nil: "cost_matches pw [] = []"
  by (simp add: cost_matches.simps price_fails)

lemma cost_matches_plus: "cost_matches pw (js '' + '' @ s) = cost_matches False s"
proof -
  have skip: "cost_matches pw (x # r) = cost_matches (word_unit x) r" if "x \<in> {32, 43}" for pw x r
    using that price_fails(1) by (simp add: cost_matches.simps [of _ "x # r"])
  have "word_unit 32 = False" "word_unit 43 = False" by (simp_all add: word_unit_def is_digit_def)
  then show ?thesis using skip by (simp add: js_def)
qed

lemma cost_matches_step:
  assumes "x \<in> set price_keys" and "json_num_ok n" and "num_end rest"
  shows "\<exists>m pw. cost_matches False (cost_part x n @ rest) = m # cost_matches pw rest \<and> cap m 1 = x \<and> cap m 2 = number_to_string n"
proof -
  obtain m where m: "rx_first BILLING_VAR_REGEX (cost_part x n @ rest, []) (rest, m)" "map_of m = map_of [] ++ [1 \<mapsto> x, 2 \<mapsto> number_to_string n]"
    using readsE [OF reads_price [OF assms(1,2)] assms(3)] by metis
  then obtain ms where ms: "rx_match BILLING_VAR_REGEX (cost_part x n @ rest, []) = (rest, m) # ms"
    by (auto simp: rx_first_def)
  have "cost_part x n \<noteq> []" by (simp add: cost_part_def)
  then have "\<exists>pw. cost_matches False (cost_part x n @ rest) = m # cost_matches pw rest"
    using ms by (simp add: cost_matches.simps [of False "cost_part x n @ rest"]) blast
  moreover have "cap m 1 = x" "cap m 2 = number_to_string n" using m(2) by (simp_all add: cap_def)
  ultimately show ?thesis by blast
qed

lemma coeffs_of_terms:
  assumes "\<forall>(x, n) \<in> set terms. x \<in> set price_keys \<and> json_num_ok n" and "terms \<noteq> []"
  shows "map (\<lambda>m. (cap m 1, string_to_number (cap m 2))) (cost_matches False (join (js '' + '') (map (\<lambda>(x, n). cost_part x n) terms))) = terms"
  using assms
proof (induction terms)
  case (Cons xn terms)
  obtain x n where xn: "xn = (x, n)" by (cases xn)
  then have ok: "x \<in> set price_keys" "json_num_ok n" using Cons.prems by auto
  show ?case
  proof (cases "terms = []")
    case True
    then show ?thesis
      using cost_matches_step [OF ok, of "[]"] xn by (auto simp: cost_matches_Nil string_to_number_text [OF ok(2)])
  next
    case False
    let ?rest = "join (js '' + '') (map (\<lambda>(x, n). cost_part x n) terms)"
    have j: "join (js '' + '') (map (\<lambda>(x, n). cost_part x n) (xn # terms)) = cost_part x n @ js '' + '' @ ?rest"
      using False xn by (cases terms) simp_all
    have "num_end (js '' + '' @ ?rest)" by (simp add: js_def is_digit_def)
    then obtain m pw where m: "cost_matches False (cost_part x n @ js '' + '' @ ?rest) = m # cost_matches pw (js '' + '' @ ?rest)"
      "cap m 1 = x" "cap m 2 = number_to_string n" using cost_matches_step [OF ok] by blast
    then show ?thesis
      using Cons.IH [OF _ False] Cons.prems(1) xn unfolding j m(1) cost_matches_plus by (simp add: string_to_number_text [OF ok(2)])
  qed
qed simp

definition tier_terms_of :: "tier \<Rightarrow> (jsstr \<times> jsnum) list" where
  "tier_terms_of t = [(js ''p'', unit_cost t (js ''input_unit_cost'')), (js ''c'', unit_cost t (js ''output_unit_cost''))]
     @ map (\<lambda>(f, x). (x, unit_cost t f)) (filter (\<lambda>(f, x). \<not> num_is_zero (unit_cost t f)) BILLING_CACHE_VAR_MAP)"

lemma body_terms: "buildTierBodyExpr t = join (js '' + '') (map (\<lambda>(x, n). cost_part x n) (tier_terms_of t))"
  by (simp add: buildTierBodyExpr_def tier_terms_of_def extra_parts_def comp_def case_prod_unfold)

lemma terms_readable:
  assumes "tier_ok t"
  shows "\<forall>(x, n) \<in> set (tier_terms_of t). x \<in> set price_keys \<and> json_num_ok n"
proof -
  have "set (map snd BILLING_CACHE_VAR_MAP) \<subseteq> set price_keys" "js ''p'' \<in> set price_keys" "js ''c'' \<in> set price_keys"
    unfolding price_keys cache_vars by auto
  moreover have "json_num_ok (unit_cost t f)" if "(f, x) \<in> set BILLING_CACHE_VAR_MAP" for f x
    using that assms by (auto simp: tier_ok_def cost_fields_def list_all_iff intro!: binary64_ok)
  ultimately show ?thesis using tier_costs_ok [OF assms] by (force simp: tier_terms_of_def)
qed

lemma map_of_kept:
  assumes "distinct (map snd xs)" and "(f, k) \<in> set xs"
  shows "map_of (map (\<lambda>(f, x). (x, g f)) (filter (\<lambda>(f, x). P f) xs)) k = (if P f then Some (g f) else None)"
  using assms by (induction xs) (force simp: map_of_eq_None_iff)+

lemma unit_cost_kept: "num_or_zero (Some (unit_cost t f)) = unit_cost t f"
  using unit_cost_simps [of t f] by (simp add: num_or_zero_def number_or_zero_def Let_def)

definition tier_prices :: "tier \<Rightarrow> (jsstr \<times> jsnum) list" where
  "tier_prices t = map (\<lambda>v. (pv_field v, unit_cost t (pv_tierField v))) BILLING_PRICING_VARS"

lemma pricing_vars_split:
  "map (\<lambda>v. (pv_tierField v, pv_key v)) BILLING_PRICING_VARS
     = (js ''input_unit_cost'', js ''p'') # (js ''output_unit_cost'', js ''c'') # BILLING_CACHE_VAR_MAP"
  by (simp add: BILLING_PRICING_VARS_def pricing_var_of_def billing_defs)

lemma parseTierBody_generated:
  assumes "tier_ok t"
  shows "parseTierBody (buildTierBodyExpr t) = tier_prices t"
proof -
  have d: "distinct (map snd BILLING_CACHE_VAR_MAP)" "js ''p'' \<notin> set (map snd BILLING_CACHE_VAR_MAP)" "js ''c'' \<notin> set (map snd BILLING_CACHE_VAR_MAP)"
    unfolding cache_vars by auto
  have "num_or_zero (map_of (tier_terms_of t) (pv_key v)) = unit_cost t (pv_tierField v)" if "v \<in> set BILLING_PRICING_VARS" for v
  proof -
    have "(pv_tierField v, pv_key v) \<in> set (map (\<lambda>v. (pv_tierField v, pv_key v)) BILLING_PRICING_VARS)" using that by simp
    then consider "pv_tierField v = js ''input_unit_cost''" "pv_key v = js ''p''" | "pv_tierField v = js ''output_unit_cost''" "pv_key v = js ''c''"
      | "(pv_tierField v, pv_key v) \<in> set BILLING_CACHE_VAR_MAP" unfolding pricing_vars_split by auto
    then show ?thesis
    proof cases
      case 3
      then have "pv_key v \<noteq> js ''p''" "pv_key v \<noteq> js ''c''" using d(2,3) by force+
      then have "map_of (tier_terms_of t) (pv_key v)
          = (if \<not> num_is_zero (unit_cost t (pv_tierField v)) then Some (unit_cost t (pv_tierField v)) else None)"
        using map_of_kept [OF d(1) 3, of "unit_cost t" "\<lambda>f. \<not> num_is_zero (unit_cost t f)"] by (simp add: tier_terms_of_def)
      then show ?thesis using unit_cost_kept unit_cost_simps(2) by (auto simp: num_or_zero_def [of None])
    qed (simp_all add: tier_terms_of_def unit_cost_kept)
  qed
  then show ?thesis
    using coeffs_of_terms [OF terms_readable [OF assms]] by (simp add: parseTierBody_def tier_prices_def body_terms tier_terms_of_def Let_def)
qed

section \<open>The tiers of a generated expression\<close>

definition log_caps :: "jsstr \<Rightarrow> tier \<Rightarrow> nat \<rightharpoonup> jsstr" where
  "log_caps label t = [2 \<mapsto> label, 3 \<mapsto> buildTierBodyExpr t]"

definition logged :: "tier_cond list \<Rightarrow> jsstr \<Rightarrow> tier \<Rightarrow> log_tier" where
  "logged cs label t = \<lparr>lt_label = label, lt_conditions = cs, lt_prices = tier_prices t\<rparr>"

lemma tier_body_no_paren:
  assumes "tier_ok t"
  shows "41 \<notin> set (buildTierBodyExpr t)"
proof -
  have p: "41 \<notin> set (cost_part x n)" if "x \<in> set price_keys" "json_num_ok n" for x n
    using number_units(1) [OF that(2)] price_key_ok [OF that(1)]
    by (auto simp: cost_part_def js_def num_unit_def is_digit_def name_ok_def id_part_def id_start_def)
  have j: "41 \<notin> set (join (js '' + '') ws)" if "\<forall>w \<in> set ws. 41 \<notin> set w" for ws
    using that by (induction "js '' + ''" ws rule: join.induct) (auto simp: js_def)
  show ?thesis unfolding body_terms using terms_readable [OF assms] p by (intro j) fastforce
qed

lemma reads_log_tier:
  assumes "tier_ok t" and "34 \<notin> set label"
  shows "reads (rx_seq rx_log_tier) D (tier_text label t) (log_caps label t)"
proof -
  have cl: "rx_class rx_not_quote = (\<lambda>c. c \<noteq> 34)" "rx_class rx_not_paren = (\<lambda>c. c \<noteq> 41)" "is_class rx_not_paren"
    by (rule ext, simp) (auto simp: rx_not_paren_def rx_class_def in_ranges_def)
  have ne: "buildTierBodyExpr t \<noteq> []" by (simp add: body_text cost_part_def)
  have "\<forall>x \<in> set (buildTierBodyExpr t). rx_class rx_not_paren x" using tier_body_no_paren [OF assms(1)] cl(2) by auto
  note b = reads_group [OF reads_plus_class [OF cl(3) ne this], of 3]
  have "reads (rx_seq [RGroup 3 (RPlus rx_not_paren), RLit (js '')'')]) D (buildTierBodyExpr t @ js '')'') ([3 \<mapsto> buildTierBodyExpr t] ++ Map.empty)"
    using reads_Cons [OF b, of "[RLit (js '')'')]" D "js '')''" Map.empty] reads_lit [of "js '')''" D] cl(2) by (simp add: js_def)
  from reads_Cons [OF reads_space(1) this]
  have s: "reads (rx_seq [rx_sp, RGroup 3 (RPlus rx_not_paren), RLit (js '')'')]) D ([32] @ buildTierBodyExpr t @ js '')'') [3 \<mapsto> buildTierBodyExpr t]"
    by (simp add: body_text cost_part_def js_def js_ws_def)
  note s1 = reads_Cons [OF reads_lit [where p = "[34] @ js '',''" and D = "\<lambda>_. True"] s TrueI]
  have "\<forall>x \<in> set label. rx_class rx_not_quote x" using assms(2) by auto
  note l = reads_group [OF reads_star_class [OF _ this], of 2, unfolded cl(1)]
  from reads_Cons [OF l s1]
  have "reads (rx_seq (tl rx_log_tier)) D (label @ ([34] @ js '','') @ [32] @ buildTierBodyExpr t @ js '')'') (log_caps label t)"
    by (simp add: log_caps_def rx_log_tier_def)
  from reads_Cons [OF reads_lit [where p = "js ''tier('' @ [34]" and D = "\<lambda>_. True"] this TrueI]
  show ?thesis by (simp add: rx_log_tier_def tier_text_def js_def)
qed

interpretation log: tier_pattern logTierRe rx_log_tier log_caps read_log_tier logged
proof unfold_locales
  show "logTierRe = rx_seq (ROpt cond_prefix # rx_log_tier)" by (simp add: logTierRe_def del: rx_seq.simps)
  show "rx_log_tier \<noteq> []" by (simp add: rx_log_tier_def)
  show "rx_match (rx_seq rx_log_tier) (s, c) = []" if "s = [] \<or> hd s \<noteq> 116" for s c
    using that by (cases s) (simp_all add: rx_log_tier_def js_def)
  show "reads (rx_seq rx_log_tier) D (tier_text label t) (log_caps label t)" if "tier_ok t" "34 \<notin> set label" for t label D
    using reads_log_tier that .
  show "read_log_tier m = logged cs label t"
    if "tier_ok t" "map_of m = g ++ log_caps label t" "g = Map.empty \<and> cs = [] \<or> g = [1 \<mapsto> w] \<and> read_conditions w = cs" for t m g label cs w
  proof -
    have "cap m 2 = label" "cap m 3 = buildTierBodyExpr t" using that(2) by (simp_all add: cap_def log_caps_def)
    moreover have "read_conditions (cap m 1) = cs"
      using that(2,3) by (auto simp: cap_def log_caps_def map_add_def read_conditions_def)
    ultimately show ?thesis using parseTierBody_generated [OF that(1)] by (simp add: read_log_tier_def logged_def)
  qed
qed

lemma log_version_absent:
  assumes "x \<noteq> 118"
  shows "stripExprVersion (x # s) = (Fin 1, x # s)"
  using assms by (simp add: stripExprVersion_def rx_exec_def rx_at_start_def rx_log_version_def js_def)

lemma generated_head:
  assumes "conditioned tiers" and "tiers \<noteq> []"
  shows "\<exists>x s. generateExprFromVisualConfig (Some tiers) = x # s \<and> x \<in> {112, 99, 108, 116}"
proof -
  obtain t ts where t: "tiers = t # ts" using assms(2) by (cases tiers) auto
  have ok: "tier_ok t" "ts \<noteq> [] \<Longrightarrow> active t \<noteq> []" using conditioned_Cons [of t ts] assms(1) t by auto
  show ?thesis
  proof (cases "active t = []")
    case True
    then have "ts = []" "buildConditionStr (t_conditions t) = []" using ok(2) by (auto simp: buildConditionStr_def active_def)
    then show ?thesis using t tier_text_head [of "single_name t" t "[]"] by (auto simp: generate_single)
  next
    case False
    obtain x r where x: "buildConditionStr (t_conditions t) = x # r" "x \<in> {112, 99, 108}" using cond_head [OF ok(1) False] .
    then show ?thesis
      using t by (cases ts rule: remdups_adj.cases) (auto simp: generate_single generateExprFromVisualConfig_def Let_def)
  qed
qed

text \<open>
  The log display reads the expression that the editor wrote as the editor itself reads it: the same tiers in the same
  order, with their names and conditions, and with each price under the field of its variable, zero where the
  tier has none.
\<close>

theorem logged_tiers_read:
  assumes "priced tiers" and "tiers \<noteq> []" and "list_all all_readable tiers"
  shows "parseTiersFromExpr (generateExprFromVisualConfig (Some tiers)) = map (\<lambda>t. logged (t_conditions t) (t_label t) t) (shown_tiers tiers)
    \<and> tryParseVisualConfig (generateExprFromVisualConfig (Some tiers)) = Some (shown_tiers tiers)"
proof -
  have c: "conditioned tiers" using priced_conditioned [OF assms(1,3)] .
  obtain x s where x: "generateExprFromVisualConfig (Some tiers) = x # s" "x \<in> {112, 99, 108, 116}" using generated_head [OF c assms(2)] by blast
  have p: "tier_prices (shown_tier cs l t) = tier_prices t" for cs l t
  proof -
    have "pv_tierField v \<in> set cost_fields" if "v \<in> set BILLING_PRICING_VARS" for v
    proof -
      have "(pv_tierField v, pv_key v) \<in> set (map (\<lambda>v. (pv_tierField v, pv_key v)) BILLING_PRICING_VARS)" using that by simp
      then show ?thesis unfolding pricing_vars_split by (force simp: cost_fields_def)
    qed
    then show ?thesis by (simp add: tier_prices_def shown_unit_cost)
  qed
  have "map (\<lambda>t. logged (t_conditions t) (t_label t) t) (shown_from i ts) = tiers_as logged i ts" for i ts
    by (induction i ts rule: shown_from.induct) (simp_all add: logged_def p)
  then have "map (\<lambda>t. logged (t_conditions t) (t_label t) t) (shown_tiers tiers) = all_tiers_as logged tiers"
    by (auto simp: shown_tiers_def all_tiers_as_def single_name_def logged_def p split: list.splits)
  moreover have "stripExprVersion (generateExprFromVisualConfig (Some tiers)) = (Fin 1, generateExprFromVisualConfig (Some tiers))"
    unfolding x(1) using x(2) by (intro log_version_absent) auto
  ultimately show ?thesis
    using log.generated_tiers [OF c assms(2)] x(1) read_back [OF assms] by (simp add: parseTiersFromExpr_def)
qed

theorem logged_tiers_read_witness:
  "parseTiersFromExpr (generateExprFromVisualConfig (Some sample_tiers)) = map (\<lambda>t. logged (t_conditions t) (t_label t) t) (shown_tiers sample_tiers)
    \<and> map lt_label (parseTiersFromExpr (generateExprFromVisualConfig (Some sample_tiers))) = map t_label (shown_tiers sample_tiers)"
  using logged_tiers_read [OF sample_tiers_priced _ sample_readable] by (simp add: sample_tiers_def logged_def)

section \<open>Names that are not Latin\<close>

text \<open>What a pattern captures consists of units of the text.\<close>

definition units_in :: "int set \<Rightarrow> rx_state \<Rightarrow> bool" where
  "units_in U st \<longleftrightarrow> set (fst st) \<subseteq> U \<and> (\<forall>i w. (i, w) \<in> set (snd st) \<longrightarrow> set w \<subseteq> U)"

lemma cap_units: "units_in U (s, m) \<Longrightarrow> set (cap m i) \<subseteq> U"
  by (cases "map_of m i") (auto simp: units_in_def cap_def dest!: map_of_SomeD)

lemma star_units:
  assumes "\<And>st st'. units_in U st \<Longrightarrow> st' \<in> set (f st) \<Longrightarrow> units_in U st'" and "units_in U st" and "st' \<in> set (star_match f n st)"
  shows "units_in U st'"
  using assms(2,3) by (induction n arbitrary: st) (auto split: if_splits intro: assms(1))

lemma match_units: "units_in U st \<Longrightarrow> st' \<in> set (rx_match r st) \<Longrightarrow> units_in U st'"
proof (induction r arbitrary: st st')
  case (RLit p)
  then show ?case by (auto simp: units_in_def split: if_splits dest: in_set_dropD)
next
  case (RSet b rs)
  then show ?case by (cases "fst st") (auto simp: units_in_def split: if_splits)
next
  case (ROpt r)
  from ROpt.prems(1) have "units_in U (fst st, clear_groups (rx_groups r) (snd st))" by (auto simp: units_in_def clear_groups_def)
  then have "units_in U st'" if "st' \<in> set (rx_match r (fst st, clear_groups (rx_groups r) (snd st)))" by (rule ROpt.IH [OF _ that])
  then show ?case using ROpt.prems by (simp, blast)
next
  case (RStar r)
  have "units_in U st'" if "units_in U (s, c)" "st' \<in> set (rx_match r (s, clear_groups (rx_groups r) c))" for s c st'
  proof (rule RStar.IH [OF _ that(2)])
    show "units_in U (s, clear_groups (rx_groups r) c)" using that(1) by (auto simp: units_in_def clear_groups_def)
  qed
  then have "units_in U st'" if "units_in U st" "st' \<in> set ((\<lambda>(s, c). rx_match r (s, clear_groups (rx_groups r) c)) st)" for st st'
    using that by (cases st) simp
  note step = this
  show ?case
    by (rule star_units [of U "\<lambda>(s, c). rx_match r (s, clear_groups (rx_groups r) c)", OF step RStar.prems(1)])
      (use RStar.prems(2) in simp_all)
next
  case (RGroup i r)
  from RGroup.prems(2) obtain s c where sc: "(s, c) \<in> set (rx_match r st)"
    "st' = (s, (i, take (length (fst st) - length s) (fst st)) # filter (\<lambda>(j, _). j \<noteq> i) c)" by auto
  from RGroup.IH [OF RGroup.prems(1) sc(1)] RGroup.prems(1) sc(2) show ?case by (auto simp: units_in_def dest: in_set_takeD)
next
  case (RBack i)
  then show ?case by (auto simp: units_in_def split: option.splits if_splits dest: in_set_dropD)
next
  case (RSeq r t)
  from RSeq.prems(2) obtain mid where "mid \<in> set (rx_match r st)" "st' \<in> set (rx_match t mid)" by auto
  then show ?case using RSeq.IH RSeq.prems(1) by blast
next
  case (RAlt r t)
  from RAlt.prems(2) have "st' \<in> set (rx_match r st) \<or> st' \<in> set (rx_match t st)" by simp
  then show ?case using RAlt.IH RAlt.prems(1) by blast
qed (simp split: if_splits)

lemma search_units: "rx_search r s = Some st \<Longrightarrow> set s \<subseteq> U \<Longrightarrow> units_in U st"
proof (induction r s rule: rx_search.induct)
  case (1 r s)
  show ?case
  proof (cases "rx_match r (s, [])")
    case Nil
    then show ?thesis using 1 by (auto simp: rx_search.simps [of r s] split: list.splits)
  next
    case (Cons st' sts)
    then show ?thesis using 1(2,3) match_units [of U "(s, [])" st' r] by (simp add: rx_search.simps [of r s] units_in_def)
  qed
qed

lemma matches_units: "m \<in> set (rx_matches r s) \<Longrightarrow> set s \<subseteq> U \<Longrightarrow> set (cap m i) \<subseteq> U"
proof (induction r s rule: rx_matches.induct)
  case (1 r s)
  then obtain rest m' where s: "rx_search r s = Some (rest, m')"
    by (cases "rx_search r s") (auto simp: rx_matches.simps [of r s])
  have w: "units_in U (rest, m')" using search_units [OF s 1(3)] .
  then have "set rest \<subseteq> U" by (simp add: units_in_def)
  then have "set (cap m i) \<subseteq> U" if "length rest < length s" "m \<in> set (rx_matches r rest)" using 1(1) [OF s refl that] by simp
  then show ?case using 1(2) s cap_units [OF w, of i] by (auto simp: rx_matches.simps [of r s] split: if_splits)
qed

lemma stripExprVersion_units: "set (snd (stripExprVersion s)) \<subseteq> set s"
proof (cases "rx_exec rx_log_version s")
  case None
  then show ?thesis by (auto simp: stripExprVersion_def)
next
  case (Some m)
  then obtain rest where "(rest, m) \<in> set (rx_match (rx_seq (rx_log_version @ [REnd])) (s, []))"
    by (auto simp: rx_exec_def rx_at_start_def split: list.splits)
  then have "units_in (set s) (rest, m)" by (rule match_units [rotated]) (simp add: units_in_def)
  then have "set (cap m 2) \<subseteq> set s" by (rule cap_units)
  then show ?thesis using Some by (auto simp: stripExprVersion_def)
qed

lemma logged_label_units: "t \<in> set (parseTiersFromExpr s) \<Longrightarrow> set (lt_label t) \<subseteq> set s"
proof -
  assume "t \<in> set (parseTiersFromExpr s)"
  then obtain m where m: "m \<in> set (rx_matches logTierRe (snd (stripExprVersion s)))" "lt_label t = cap m 2"
    by (auto simp: parseTiersFromExpr_def read_log_tier_def split: if_splits)
  show "set (lt_label t) \<subseteq> set s" unfolding m(2) by (rule matches_units [OF m(1) stripExprVersion_units])
qed

lemma decoded_units: "c \<in> set (decoded_expr b) \<Longrightarrow> c < 256"
proof -
  have "uint (x :: byte) < 256" for x using uint_lt2p [of x] by simp
  then show "c \<in> set (decoded_expr b) \<Longrightarrow> c < 256" by (auto simp: decoded_expr_def split: option.splits)
qed

text \<open>
  A tier whose name has a unit beyond Latin-1 is never found: \<open>atob\<close> gives bytes, so that no name that is read from the
  expression has such a unit, and the display shows the prices of the first tier instead. The names that the
  editor gives to tiers by default have such units.
\<close>

theorem foreign_tier_shows_first:
  assumes "c \<in> set name" and "256 \<le> c"
  shows "shown_log_tier exprB64 (JStr name) = (case parseTiersFromExpr (decoded_expr exprB64) of [] \<Rightarrow> None | t # _ \<Rightarrow> Some t)
    \<and> (\<exists>d \<in> set (nth_label n). 256 \<le> d)"
proof -
  have "lt_label t \<noteq> name" if "t \<in> set (parseTiersFromExpr (decoded_expr exprB64))" for t
    using logged_label_units [OF that] decoded_units [of c exprB64] assms by auto
  then have "find (\<lambda>t. JStr (lt_label t) = JStr name) (parseTiersFromExpr (decoded_expr exprB64)) = None" by (auto simp: find_None_iff)
  then show ?thesis by (simp add: shown_log_tier_def nth_label_def Let_def)
qed

definition sample_expr_b64 :: jsstr where
  "sample_expr_b64 = js ''cCA8IDkgPyB0aWVyKCJhIiwgcCAqIDEgKyBjICogMikgOiB0aWVyKCJiIiwgcCAqIDMgKyBjICogNCk=''"

definition sample_expr :: jsstr where
  "sample_expr = js ''p < 9 ? tier('' @ [34] @ js ''a'' @ [34] @ js '', p * 1 + c * 2) : tier('' @ [34] @ js ''b'' @ [34] @ js '', p * 3 + c * 4)''"

lemma sample_logged: "map lt_label (parseTiersFromExpr (decoded_expr sample_expr_b64)) = [js ''a'', js ''b'']"
proof -
  have "decoded_expr sample_expr_b64 = sample_expr" by code_simp
  moreover have "snd (stripExprVersion sample_expr) = sample_expr" "sample_expr \<noteq> []" by code_simp+
  moreover have "map (\<lambda>m. cap m 2) (rx_matches logTierRe sample_expr) = [js ''a'', js ''b'']" by code_simp
  ultimately show ?thesis by (simp add: parseTiersFromExpr_def read_log_tier_def comp_def)
qed

theorem foreign_tier_shows_first_witness:
  "\<exists>t. shown_log_tier sample_expr_b64 (JStr (nth_label 2)) = Some t \<and> lt_label t = js ''a''"
proof -
  have "31532 \<in> set (nth_label 2)" by (simp add: nth_label_def)
  from foreign_tier_shows_first [OF this, of sample_expr_b64] sample_logged show ?thesis by (cases "parseTiersFromExpr (decoded_expr sample_expr_b64)") auto
qed

end
