(* ===== verification/BillingTexts.thy ===== *)
theory BillingTexts
  imports JsPrelude
begin

text \<open>
  The keys of the translated texts in the price displays of \<open>src/web/src/helpers/render.jsx\<close>. A key is the Chinese text with the
  names of its variables in double braces; the words it is put together from are named after their meaning.
\<close>

section \<open>Words\<close>

definition zh_own :: jsstr where "zh_own = [19987, 23646]"
definition zh_group :: jsstr where "zh_group = [20998, 32452]"
definition zh_ratio :: jsstr where "zh_ratio = [20493, 29575]"
definition zh_reference_only :: jsstr where "zh_reference_only = [20165, 20379, 21442, 32771]"
definition zh_charge_counts :: jsstr where "zh_charge_counts = [20197, 23454, 38469, 25187, 36153, 20026, 20934]"
definition zh_model :: jsstr where "zh_model = [27169, 22411]"
definition zh_price :: jsstr where "zh_price = [20215, 26684]"
definition zh_per_call :: jsstr where "zh_per_call = [25353, 27425]"
definition zh_input :: jsstr where "zh_input = [36755, 20837]"
definition zh_cache :: jsstr where "zh_cache = [32531, 23384]"
definition zh_reading :: jsstr where "zh_reading = [35835, 21462]"
definition zh_read :: jsstr where "zh_read = [35835]"
definition zh_creation :: jsstr where "zh_creation = [21019, 24314]"
definition zh_image :: jsstr where "zh_image = [22270, 29255]"
definition zh_prompt_override :: jsstr where "zh_prompt_override = [31995, 32479, 25552, 31034, 35206, 30422]"
definition zh_task_prepaid :: jsstr where "zh_task_prepaid = [20219, 21153, 39044, 25187, 36153]"
definition zh_after_task :: jsstr where "zh_after_task = [23558, 22312, 20219, 21153, 23436, 25104, 21518, 25353, 23454, 38469]"
definition zh_recomputed :: jsstr where "zh_recomputed = [37325, 31639]"
definition zh_audio :: jsstr where "zh_audio = [38899, 39057]"
definition zh_output :: jsstr where "zh_output = [36755, 20986]"
definition zh_search :: jsstr where "zh_search = [25628, 32034]"
definition zh_times :: jsstr where "zh_times = [27425]"
definition zh_file :: jsstr where "zh_file = [25991, 20214]"
definition zh_generation :: jsstr where "zh_generation = [29983, 25104]"
definition zh_call :: jsstr where "zh_call = [35843, 29992]"
definition zh_completion :: jsstr where "zh_completion = [34917, 20840]"
definition zh_plain :: jsstr where "zh_plain = [26222, 36890]"
definition zh_unit_price :: jsstr where "zh_unit_price = [21333, 20215]"
definition zh_sum :: jsstr where "zh_sum = [21512, 35745]"
definition zh_tiered_billing :: jsstr where "zh_tiered_billing = [38454, 26799, 35745, 36153]"
definition zh_parse_failed :: jsstr where "zh_parse_failed = [34920, 36798, 24335, 35299, 26512, 22833, 36133]"
definition zh_matched_tier :: jsstr where "zh_matched_tier = [21629, 20013, 26723, 20301]"
definition zh_text :: jsstr where "zh_text = [25991, 23383]"
definition zh_prompt :: jsstr where "zh_prompt = [25552, 31034]"
definition zh_part :: jsstr where "zh_part = [37096, 20998]"
definition zh_equal_amount :: jsstr where "zh_equal_amount = [31561, 20215, 37329, 39069]"
definition zh_comma :: jsstr where "zh_comma = [65292]"
definition zh_colon :: jsstr where "zh_colon = [65306]"
definition zh_lparen :: jsstr where "zh_lparen = [65288]"
definition zh_rparen :: jsstr where "zh_rparen = [65289]"

section \<open>Keys\<close>

definition T_own_ratio :: jsstr where "T_own_ratio = zh_own @ zh_ratio"
definition T_group_ratio :: jsstr where "T_group_ratio = zh_group @ zh_ratio"
definition T_ratio_x :: jsstr where "T_ratio_x = js ''{{ratioType}} {{ratio}}x''"
definition T_reference_note :: jsstr where "T_reference_note = zh_reference_only @ zh_comma @ zh_charge_counts"
definition T_model_price_short :: jsstr where "T_model_price_short = zh_model @ zh_price @ js '' {{price}}''"
definition T_per_call :: jsstr where "T_per_call = zh_per_call"
definition T_input_short :: jsstr where "T_input_short = zh_input @ js '' {{price}} / 1M tokens''"
definition T_cache_read_short :: jsstr where "T_cache_read_short = zh_cache @ zh_read @ js '' {{price}} / 1M tokens''"
definition T_creation5m_short :: jsstr where "T_creation5m_short = js ''5m'' @ zh_cache @ zh_creation @ js '' {{price}} / 1M tokens''"
definition T_creation1h_short :: jsstr where "T_creation1h_short = js ''1h'' @ zh_cache @ zh_creation @ js '' {{price}} / 1M tokens''"
definition T_creation_short :: jsstr where "T_creation_short = zh_cache @ zh_creation @ js '' {{price}} / 1M tokens''"
definition T_image_short :: jsstr where "T_image_short = zh_image @ zh_input @ js '' {{price}} / 1M tokens''"
definition T_model_part :: jsstr where "T_model_part = zh_model @ js '': {{ratio}}''"
definition T_cache_part :: jsstr where "T_cache_part = zh_cache @ js '': {{cacheRatio}}''"
definition T_creation_both_part :: jsstr where
  "T_creation_both_part = zh_cache @ zh_creation @ js '': 5m {{cacheCreationRatio5m}} / 1h {{cacheCreationRatio1h}}''"
definition T_creation5m_part :: jsstr where "T_creation5m_part = zh_cache @ zh_creation @ js '': 5m {{cacheCreationRatio5m}}''"
definition T_creation1h_part :: jsstr where "T_creation1h_part = zh_cache @ zh_creation @ js '': 1h {{cacheCreationRatio1h}}''"
definition T_creation_part :: jsstr where "T_creation_part = zh_cache @ zh_creation @ js '': {{cacheCreationRatio}}''"
definition T_image_part :: jsstr where "T_image_part = zh_image @ zh_input @ js '': {{imageRatio}}''"
definition T_prompt_override :: jsstr where "T_prompt_override = zh_prompt_override"
definition T_model_price_colon :: jsstr where "T_model_price_colon = zh_model @ zh_price @ zh_colon @ js ''{{symbol}}{{price}}''"
definition T_price_times_ratio :: jsstr where
  "T_price_times_ratio = zh_price @ zh_colon @ js ''{{symbol}}{{price}} * {{ratioType}}'' @ zh_colon @ js ''{{ratio}}''"
definition T_group_part :: jsstr where "T_group_part = js ''{{ratioType}}: {{groupRatio}}''"
definition T_task_prepaid :: jsstr where "T_task_prepaid = zh_task_prepaid @ zh_lparen @ zh_after_task @ js ''token'' @ zh_recomputed @ zh_rparen"
definition T_per_call_price :: jsstr where "T_per_call_price = zh_per_call @ zh_colon @ js ''{{symbol}}{{price}}''"
definition T_per_call_total :: jsstr where
  "T_per_call_total = zh_per_call @ js '' {{symbol}}{{price}} * {{ratioType}} {{ratio}} = {{symbol}}{{total}}''"
definition T_image_input_desc :: jsstr where
  "T_image_input_desc = js ''('' @ zh_input @ js '' {{nonImageInput}} tokens + '' @ zh_image @ zh_input
     @ js '' {{imageInput}} tokens / 1M tokens * {{symbol}}{{price}}''"
definition T_cache_input_desc :: jsstr where
  "T_cache_input_desc = js ''('' @ zh_input @ js '' {{nonCacheInput}} tokens / 1M tokens * {{symbol}}{{price}} + '' @ zh_cache
     @ js '' {{cacheInput}} tokens / 1M tokens * {{symbol}}{{cachePrice}}''"
definition T_audio_input_desc :: jsstr where
  "T_audio_input_desc = js ''('' @ zh_input @ js '' {{nonAudioInput}} tokens / 1M tokens * {{symbol}}{{price}} + '' @ zh_audio @ zh_input
     @ js '' {{audioInput}} tokens / 1M tokens * {{symbol}}{{audioPrice}}''"
definition T_input_desc :: jsstr where "T_input_desc = js ''('' @ zh_input @ js '' {{input}} tokens / 1M tokens * {{symbol}}{{price}}''"
definition T_output_desc :: jsstr where
  "T_output_desc = zh_output @ js '' {{completion}} tokens / 1M tokens * {{symbol}}{{compPrice}}) * {{ratioType}} {{ratio}}''"
definition T_web_search_desc :: jsstr where
  "T_web_search_desc = js '' + Web'' @ zh_search @ js '' {{count}}'' @ zh_times @ js '' / 1K '' @ zh_times
     @ js '' * {{symbol}}{{price}} * {{ratioType}} {{ratio}}''"
definition T_file_search_desc :: jsstr where
  "T_file_search_desc = js '' + '' @ zh_file @ zh_search @ js '' {{count}}'' @ zh_times @ js '' / 1K '' @ zh_times
     @ js '' * {{symbol}}{{price}} * {{ratioType}} {{ratio}}''"
definition T_image_call_desc :: jsstr where
  "T_image_call_desc = js '' + '' @ zh_image @ zh_generation @ zh_call @ js '' {{symbol}}{{price}} / 1'' @ zh_times
     @ js '' * {{ratioType}} {{ratio}}''"
definition T_input_price_audio :: jsstr where
  "T_input_price_audio = zh_input @ zh_price @ zh_colon @ js ''{{symbol}}{{price}} / 1M tokens{{audioPrice}}''"
definition T_audio_input_price_word :: jsstr where "T_audio_input_price_word = zh_audio @ zh_input @ zh_price"
definition T_output_price_total :: jsstr where "T_output_price_total = zh_output @ zh_price @ zh_colon @ js ''{{symbol}}{{total}} / 1M tokens''"
definition T_cache_price_total :: jsstr where
  "T_cache_price_total = zh_cache @ zh_reading @ zh_price @ zh_colon @ js ''{{symbol}}{{total}} / 1M tokens''"
definition T_image_price_total :: jsstr where
  "T_image_price_total = zh_image @ zh_input @ zh_price @ zh_colon @ js ''{{symbol}}{{total}} / 1M tokens''"
definition T_web_search_price :: jsstr where
  "T_web_search_price = js ''Web'' @ zh_search @ zh_price @ zh_colon @ js ''{{symbol}}{{price}} / 1K '' @ zh_times"
definition T_file_search_price :: jsstr where
  "T_file_search_price = zh_file @ zh_search @ zh_price @ zh_colon @ js ''{{symbol}}{{price}} / 1K '' @ zh_times"
definition T_image_call_price :: jsstr where
  "T_image_call_price = zh_image @ zh_generation @ zh_call @ zh_colon @ js ''{{symbol}}{{price}} / 1'' @ zh_times"
definition T_description :: jsstr where "T_description = js ''{{inputDesc}} + {{outputDesc}}{{extraServices}} = {{symbol}}{{total}}''"
definition T_per_call_ratio_total :: jsstr where
  "T_per_call_ratio_total = zh_per_call @ zh_colon @ js ''{{symbol}}{{price}} * {{ratioType}}'' @ zh_colon
     @ js ''{{ratio}} = {{symbol}}{{total}}''"
definition T_model_ratio :: jsstr where "T_model_ratio = zh_model @ zh_ratio @ js '' {{modelRatio}}''"
definition T_completion_ratio :: jsstr where "T_completion_ratio = zh_completion @ zh_ratio @ js '' {{completionRatio}}''"
definition T_cache_ratio :: jsstr where "T_cache_ratio = zh_cache @ zh_ratio @ js '' {{cacheRatio}}''"
definition T_image_ratio :: jsstr where "T_image_ratio = zh_image @ zh_ratio @ js '' {{imageRatio}}''"
definition T_audio_ratio :: jsstr where "T_audio_ratio = zh_audio @ zh_ratio @ js '' {{audioRatio}}''"
definition T_ratio_type :: jsstr where "T_ratio_type = js ''{{ratioType}} {{ratio}}''"
definition T_plain_amount :: jsstr where
  "T_plain_amount = zh_plain @ zh_input @ zh_colon @ js ''{{tokens}} / 1M * '' @ zh_model @ zh_ratio
     @ js '' {{modelRatio}} * {{ratioType}} {{ratio}} = {{amount}}''"
definition T_cache_amount :: jsstr where
  "T_cache_amount = zh_cache @ zh_input @ zh_colon @ js ''{{tokens}} / 1M * '' @ zh_model @ zh_ratio @ js '' {{modelRatio}} * '' @ zh_cache
     @ zh_ratio @ js '' {{cacheRatio}} * {{ratioType}} {{ratio}} = {{amount}}''"
definition T_image_amount :: jsstr where
  "T_image_amount = zh_image @ zh_input @ zh_colon @ js ''{{tokens}} / 1M * '' @ zh_model @ zh_ratio @ js '' {{modelRatio}} * '' @ zh_image
     @ zh_ratio @ js '' {{imageRatio}} * {{ratioType}} {{ratio}} = {{amount}}''"
definition T_audio_amount :: jsstr where
  "T_audio_amount = zh_audio @ zh_input @ zh_colon @ js ''{{tokens}} / 1M * '' @ zh_model @ zh_ratio @ js '' {{modelRatio}} * '' @ zh_audio
     @ zh_ratio @ js '' {{audioRatio}} * {{ratioType}} {{ratio}} = {{amount}}''"
definition T_completion_amount :: jsstr where
  "T_completion_amount = zh_output @ zh_colon @ js ''{{tokens}} / 1M * '' @ zh_model @ zh_ratio @ js '' {{modelRatio}} * '' @ zh_completion
     @ zh_ratio @ js '' {{completionRatio}} * {{ratioType}} {{ratio}} = {{amount}}''"
definition T_web_search_amount :: jsstr where
  "T_web_search_amount = js ''Web '' @ zh_search @ zh_colon @ js ''{{count}} / 1K * '' @ zh_unit_price
     @ js '' {{price}} * {{ratioType}} {{ratio}} = {{amount}}''"
definition T_file_search_amount :: jsstr where
  "T_file_search_amount = zh_file @ zh_search @ zh_colon @ js ''{{count}} / 1K * '' @ zh_unit_price
     @ js '' {{price}} * {{ratioType}} {{ratio}} = {{amount}}''"
definition T_image_call_amount :: jsstr where
  "T_image_call_amount = zh_image @ zh_generation @ zh_colon @ js ''1 '' @ zh_times @ js '' * '' @ zh_unit_price
     @ js '' {{price}} * {{ratioType}} {{ratio}} = {{amount}}''"
definition T_sum :: jsstr where "T_sum = zh_sum @ zh_colon @ js ''{{total}}''"
definition T_log_model_price :: jsstr where "T_log_model_price = zh_model @ zh_price @ js '' {{symbol}}{{price}} / '' @ zh_times"
definition T_log_input_price :: jsstr where "T_log_input_price = zh_input @ zh_price @ js '' {{symbol}}{{price}} / 1M tokens''"
definition T_log_output_price :: jsstr where "T_log_output_price = zh_output @ zh_price @ js '' {{symbol}}{{price}} / 1M tokens''"
definition T_log_cache_price :: jsstr where "T_log_cache_price = zh_cache @ zh_reading @ zh_price @ js '' {{symbol}}{{price}} / 1M tokens''"
definition T_log_image_price :: jsstr where "T_log_image_price = zh_image @ zh_input @ zh_price @ js '' {{symbol}}{{price}} / 1M tokens''"
definition T_log_web_search :: jsstr where "T_log_web_search = js ''Web '' @ zh_search @ zh_call @ js '' {{webSearchCallCount}} '' @ zh_times"
definition T_log_file_search :: jsstr where "T_log_file_search = zh_file @ zh_search @ zh_call @ js '' {{fileSearchCallCount}} '' @ zh_times"
definition T_log_price_ratio :: jsstr where
  "T_log_price_ratio = zh_model @ zh_price @ js '' {{symbol}}{{price}}'' @ zh_comma @ js ''{{ratioType}} {{ratio}}''"
definition T_log_ratios_image :: jsstr where
  "T_log_ratios_image = zh_model @ zh_ratio @ js '' {{modelRatio}}'' @ zh_comma @ zh_cache @ zh_ratio @ js '' {{cacheRatio}}'' @ zh_comma
     @ zh_output @ zh_ratio @ js '' {{completionRatio}}'' @ zh_comma @ zh_image @ zh_input @ zh_ratio @ js '' {{imageRatio}}'' @ zh_comma
     @ js ''{{ratioType}} {{ratio}}''"
definition T_log_ratios_search :: jsstr where
  "T_log_ratios_search = zh_model @ zh_ratio @ js '' {{modelRatio}}'' @ zh_comma @ zh_cache @ zh_ratio @ js '' {{cacheRatio}}'' @ zh_comma
     @ zh_output @ zh_ratio @ js '' {{completionRatio}}'' @ zh_comma @ js ''{{ratioType}} {{ratio}}'' @ zh_comma @ js ''Web '' @ zh_search
     @ zh_call @ js '' {{webSearchCallCount}} '' @ zh_times"
definition T_log_ratios :: jsstr where
  "T_log_ratios = zh_model @ zh_ratio @ js '' {{modelRatio}}'' @ zh_comma @ zh_cache @ zh_ratio @ js '' {{cacheRatio}}'' @ zh_comma @ zh_output
     @ zh_ratio @ js '' {{completionRatio}}'' @ zh_comma @ js ''{{ratioType}} {{ratio}}''"
definition T_parse_failed :: jsstr where "T_parse_failed = zh_tiered_billing @ zh_lparen @ zh_parse_failed @ zh_rparen"
definition T_matched_tier :: jsstr where "T_matched_tier = zh_matched_tier @ zh_colon @ js ''{{tier}}''"
definition T_tier_price_suffix :: jsstr where "T_tier_price_suffix = zh_colon @ js ''{{symbol}}{{price}} / 1M tokens''"
definition T_tier_price_short :: jsstr where "T_tier_price_short = js ''{{label}} {{price}} / 1M tokens''"
definition T_model_price_call :: jsstr where "T_model_price_call = zh_model @ zh_price @ zh_colon @ js ''{{symbol}}{{price}} / '' @ zh_times"
definition T_model_price_call_total :: jsstr where
  "T_model_price_call_total = zh_model @ zh_price @ js '' {{symbol}}{{price}} / '' @ zh_times
     @ js '' * {{ratioType}} {{ratio}} = {{symbol}}{{total}}''"
definition T_input_price :: jsstr where "T_input_price = zh_input @ zh_price @ zh_colon @ js ''{{symbol}}{{price}} / 1M tokens''"
definition T_output_price :: jsstr where "T_output_price = zh_output @ zh_price @ zh_colon @ js ''{{symbol}}{{price}} / 1M tokens''"
definition T_cache_price :: jsstr where "T_cache_price = zh_cache @ zh_reading @ zh_price @ zh_colon @ js ''{{symbol}}{{price}} / 1M tokens''"
definition T_audio_input_price :: jsstr where
  "T_audio_input_price = zh_audio @ zh_input @ zh_price @ zh_colon @ js ''{{symbol}}{{price}} / 1M tokens''"
definition T_audio_output_price :: jsstr where
  "T_audio_output_price = zh_audio @ zh_completion @ zh_price @ zh_colon @ js ''{{symbol}}{{price}} / 1M tokens''"
definition T_audio_total :: jsstr where
  "T_audio_total = zh_text @ zh_prompt @ js '' {{input}} tokens / 1M tokens * {{symbol}}{{textInputPrice}} + '' @ zh_text @ zh_completion
     @ js '' {{completion}} tokens / 1M tokens * {{symbol}}{{textCompPrice}} + '' @ zh_audio @ zh_prompt
     @ js '' {{audioInput}} tokens / 1M tokens * {{symbol}}{{audioInputPrice}} + '' @ zh_audio @ zh_completion
     @ js '' {{audioCompletion}} tokens / 1M tokens * {{symbol}}{{audioCompPrice}} * {{ratioType}} {{ratio}} = {{symbol}}{{total}}''"
definition T_model_price_total :: jsstr where
  "T_model_price_total = zh_model @ zh_price @ zh_colon @ js ''{{symbol}}{{price}} * {{ratioType}}'' @ zh_colon
     @ js ''{{ratio}} = {{symbol}}{{total}}''"
definition T_audio_ratios :: jsstr where
  "T_audio_ratios = zh_model @ zh_ratio @ js '' {{modelRatio}}'' @ zh_comma @ zh_completion @ zh_ratio @ js '' {{completionRatio}}'' @ zh_comma
     @ zh_audio @ zh_ratio @ js '' {{audioRatio}}'' @ zh_comma @ zh_audio @ zh_completion @ zh_ratio @ js '' {{audioCompletionRatio}}'' @ zh_comma
     @ js ''{{cachePart}}{{ratioType}} {{ratio}}''"
definition T_cache_ratio_word :: jsstr where "T_cache_ratio_word = zh_cache @ zh_ratio"
definition T_text_output_amount :: jsstr where
  "T_text_output_amount = zh_text @ zh_output @ zh_colon @ js ''{{tokens}} / 1M * '' @ zh_model @ zh_ratio @ js '' {{modelRatio}} * ''
     @ zh_completion @ zh_ratio @ js '' {{completionRatio}} * {{ratioType}} {{ratio}} = {{amount}}''"
definition T_audio_output_amount :: jsstr where
  "T_audio_output_amount = zh_audio @ zh_output @ zh_colon @ js ''{{tokens}} / 1M * '' @ zh_model @ zh_ratio @ js '' {{modelRatio}} * ''
     @ zh_audio @ zh_ratio @ js '' {{audioRatio}} * '' @ zh_audio @ zh_completion @ zh_ratio
     @ js '' {{audioCompletionRatio}} * {{ratioType}} {{ratio}} = {{amount}}''"
definition T_audio_sum :: jsstr where
  "T_audio_sum = zh_sum @ zh_colon @ zh_text @ zh_part @ js '' {{textTotal}} + '' @ zh_audio @ zh_part @ js '' {{audioTotal}} = {{total}}''"
definition T_equal_amount :: jsstr where "T_equal_amount = zh_equal_amount @ zh_colon"
definition T_prompt_tokens :: jsstr where "T_prompt_tokens = zh_prompt @ js '' {{input}} tokens / 1M tokens * {{symbol}}{{price}}''"
definition T_cache_tokens :: jsstr where "T_cache_tokens = zh_cache @ js '' {{tokens}} tokens / 1M tokens * {{symbol}}{{price}}''"
definition T_creation_tokens :: jsstr where
  "T_creation_tokens = zh_cache @ zh_creation @ js '' {{tokens}} tokens / 1M tokens * {{symbol}}{{price}}''"
definition T_creation5m_tokens :: jsstr where
  "T_creation5m_tokens = js ''5m'' @ zh_cache @ zh_creation @ js '' {{tokens}} tokens / 1M tokens * {{symbol}}{{price}}''"
definition T_creation1h_tokens :: jsstr where
  "T_creation1h_tokens = js ''1h'' @ zh_cache @ zh_creation @ js '' {{tokens}} tokens / 1M tokens * {{symbol}}{{price}}''"
definition T_completion_tokens :: jsstr where "T_completion_tokens = zh_completion @ js '' {{completion}} tokens / 1M tokens * {{symbol}}{{price}}''"
definition T_creation_price :: jsstr where "T_creation_price = zh_cache @ zh_creation @ zh_price @ zh_colon @ js ''{{symbol}}{{price}} / 1M tokens''"
definition T_creation5m_price :: jsstr where
  "T_creation5m_price = js ''5m'' @ zh_cache @ zh_creation @ zh_price @ zh_colon @ js ''{{symbol}}{{price}} / 1M tokens''"
definition T_creation1h_price :: jsstr where
  "T_creation1h_price = js ''1h'' @ zh_cache @ zh_creation @ zh_price @ zh_colon @ js ''{{symbol}}{{price}} / 1M tokens''"
definition T_breakdown_total :: jsstr where "T_breakdown_total = js ''{{breakdown}} * {{ratioType}} {{ratio}} = {{symbol}}{{total}}''"
definition T_claude_ratios :: jsstr where
  "T_claude_ratios = zh_model @ zh_ratio @ js '' {{modelRatio}}'' @ zh_comma @ zh_output @ zh_ratio @ js '' {{completionRatio}}'' @ zh_comma
     @ zh_cache @ zh_ratio @ js '' {{cacheRatio}}'' @ zh_comma @ js ''{{ratioType}} {{ratio}}''"
definition T_creation_ratio_both :: jsstr where
  "T_creation_ratio_both = zh_cache @ zh_creation @ zh_ratio @ js '' 5m {{cacheCreationRatio5m}} / 1h {{cacheCreationRatio1h}}''"
definition T_creation_ratio :: jsstr where "T_creation_ratio = zh_cache @ zh_creation @ zh_ratio @ js '' {{cacheCreationRatio}}''"
definition T_cache_read_amount :: jsstr where
  "T_cache_read_amount = zh_cache @ zh_reading @ zh_colon @ js ''{{tokens}} / 1M * '' @ zh_model @ zh_ratio @ js '' {{modelRatio}} * '' @ zh_cache
     @ zh_ratio @ js '' {{cacheRatio}} * {{ratioType}} {{ratio}} = {{amount}}''"
definition T_creation_amount :: jsstr where
  "T_creation_amount = zh_cache @ zh_creation @ zh_colon @ js ''{{tokens}} / 1M * '' @ zh_model @ zh_ratio @ js '' {{modelRatio}} * '' @ zh_cache
     @ zh_creation @ zh_ratio @ js '' {{cacheCreationRatio}} * {{ratioType}} {{ratio}} = {{amount}}''"
definition T_creation5m_amount :: jsstr where
  "T_creation5m_amount = js ''5m'' @ zh_cache @ zh_creation @ zh_colon @ js ''{{tokens}} / 1M * '' @ zh_model @ zh_ratio
     @ js '' {{modelRatio}} * 5m'' @ zh_cache @ zh_creation @ zh_ratio @ js '' {{cacheCreationRatio5m}} * {{ratioType}} {{ratio}} = {{amount}}''"
definition T_creation1h_amount :: jsstr where
  "T_creation1h_amount = js ''1h'' @ zh_cache @ zh_creation @ zh_colon @ js ''{{tokens}} / 1M * '' @ zh_model @ zh_ratio
     @ js '' {{modelRatio}} * 1h'' @ zh_cache @ zh_creation @ zh_ratio @ js '' {{cacheCreationRatio1h}} * {{ratioType}} {{ratio}} = {{amount}}''"
definition T_completion_tokens_ratio :: jsstr where
  "T_completion_tokens_ratio = zh_completion @ js '' {{completion}} tokens * '' @ zh_output @ zh_ratio @ js '' {{completionRatio}}''"
definition T_output_amount :: jsstr where
  "T_output_amount = zh_output @ zh_colon @ js ''{{tokens}} / 1M * '' @ zh_model @ zh_ratio @ js '' {{modelRatio}} * '' @ zh_output @ zh_ratio
     @ js '' {{completionRatio}} * {{ratioType}} {{ratio}} = {{amount}}''"
definition T_log_creation5m_price :: jsstr where
  "T_log_creation5m_price = js ''5m'' @ zh_cache @ zh_creation @ zh_price @ js '' {{symbol}}{{price}} / 1M tokens''"
definition T_log_creation1h_price :: jsstr where
  "T_log_creation1h_price = js ''1h'' @ zh_cache @ zh_creation @ zh_price @ js '' {{symbol}}{{price}} / 1M tokens''"
definition T_log_creation_price :: jsstr where "T_log_creation_price = zh_cache @ zh_creation @ zh_price @ js '' {{symbol}}{{price}} / 1M tokens''"
definition T_creation5m_ratio :: jsstr where "T_creation5m_ratio = zh_cache @ zh_creation @ zh_ratio @ js '' 5m {{cacheCreationRatio5m}}''"
definition T_creation1h_ratio :: jsstr where "T_creation1h_ratio = zh_cache @ zh_creation @ zh_ratio @ js '' 1h {{cacheCreationRatio1h}}''"
definition T_output_ratio :: jsstr where "T_output_ratio = zh_output @ zh_ratio @ js '' {{completionRatio}}''"

end
