(* ===== verification/BillingDisplay.thy ===== *)
theory BillingDisplay
  imports TierDisplay BillingTexts WebStorage
begin

text \<open>
  Amounts in the price displays of \<open>src/web/src/helpers/render.jsx\<close>: quotas and prices in the currency that the user chose,
  and the parts of a billing text. \<open>localStorage\<close> holds the display type, the status of the server with the exchange rates, and
  the quota of one unit. The translation function takes a key and the values of its variables.
\<close>

type_synonym variables = "(jsstr \<times> jsval) list"
type_synonym translation = "jsstr \<Rightarrow> variables \<Rightarrow> jsstr"

section \<open>Numbers\<close>

text \<open>\<open>a * b * c\<close> and \<open>a + b + c\<close>, rounded after every operation.\<close>

fun num_prod :: "jsnum list \<Rightarrow> jsnum" where
  "num_prod [] = Fin 1"
| "num_prod (x # xs) = foldl num_mul x xs"

fun num_sum :: "jsnum list \<Rightarrow> jsnum" where
  "num_sum [] = Fin 0"
| "num_sum (x # xs) = foldl num_add x xs"

definition positive :: "jsnum \<Rightarrow> bool" where  \<comment> \<open>\<open>x > 0\<close>\<close>
  "positive x = num_lt (Fin 0) x"

definition num_max :: "jsnum \<Rightarrow> jsnum \<Rightarrow> jsnum" where  \<comment> \<open>\<open>Math.max(a, b)\<close>\<close>
  "num_max a b = (if a = NaN \<or> b = NaN then NaN else if num_lt a b then b else if num_lt b a then a else if a = NegZero then b else a)"

definition renderNumber :: "jsnum \<Rightarrow> jsval" where
  "renderNumber num =
     (if num_le (Fin 1000000000) num then JStr (toFixed 1 (num_div num (Fin 1000000000)) @ js ''B'')
      else if num_le (Fin 1000000) num then JStr (toFixed 1 (num_div num (Fin 1000000)) @ js ''M'')
      else if num_le (Fin 10000) num then JStr (toFixed 1 (num_div num (Fin 1000)) @ js ''k'')
      else JNum num)"

text \<open>The text is compared with \<open>>=\<close> as a number.\<close>

definition renderNumberWithPoint :: "jsnum option \<Rightarrow> jsstr" where
  "renderNumberWithPoint num =
     (case num of
        None \<Rightarrow> []
      | Some n \<Rightarrow>
          let s = toFixed 2 n in
          if num_le (Fin 100000) (string_to_number s) then
            let wholePart = takeWhile (\<lambda>c. c \<noteq> 46) s; decimalPart = dropWhile (\<lambda>c. c \<noteq> 46) s
            in take 2 wholePart @ js ''..'' @ drop (length wholePart - 2) wholePart @ decimalPart
          else s)"

section \<open>Currency\<close>

definition USD :: jsstr where "USD = js ''USD''"
definition CNY :: jsstr where "CNY = js ''CNY''"
definition CUSTOM :: jsstr where "CUSTOM = js ''CUSTOM''"
definition TOKENS :: jsstr where "TOKENS = js ''TOKENS''"
definition yuan_sign :: jsstr where "yuan_sign = [165]"
definition any_sign :: jsstr where "any_sign = [164]"

lemmas display_types = USD_def CNY_def CUSTOM_def TOKENS_def

definition getQuotaDisplayType :: "storage \<Rightarrow> jsstr" where
  "getQuotaDisplayType ls = (case getItem (js ''quota_display_type'') ls of None \<Rightarrow> USD | Some s \<Rightarrow> if s = [] then USD else s)"

text \<open>The parsed status; \<open>None\<close> when there is none or it is no JSON, which is caught.\<close>

definition stored_status :: "storage \<Rightarrow> jsval option" where
  "stored_status ls = (case getItem (js ''status'') ls of None \<Rightarrow> None | Some s \<Rightarrow> if s = [] then None else json_parse s)"

definition status_or :: "storage \<Rightarrow> string \<Rightarrow> jsval \<Rightarrow> jsval \<Rightarrow> jsval" where  \<comment> \<open>a property of the status, or a value if there is no status\<close>
  "status_or ls k unset absent = (case stored_status ls of None \<Rightarrow> absent | Some s \<Rightarrow> js_or (prop_opt s (js k)) unset)"

definition custom_symbol :: "storage \<Rightarrow> jsval" where
  "custom_symbol ls = status_or ls ''custom_currency_symbol'' (JStr any_sign) (JStr any_sign)"

definition getQuotaPerUnit :: "storage \<Rightarrow> jsnum" where
  "getQuotaPerUnit ls = (case getItem (js ''quota_per_unit'') ls of None \<Rightarrow> NaN | Some s \<Rightarrow> parseFloat s)"

definition renderQuotaNumberWithDigit :: "storage \<Rightarrow> jsval \<Rightarrow> int \<Rightarrow> jsval" where
  "renderQuotaNumberWithDigit ls num digits =
     (case num of
        JNum n \<Rightarrow>
          if n = NaN then JNum (Fin 0)
          else let s = toFixed digits n; type = getQuotaDisplayType ls in
            JStr (if type = CNY then yuan_sign @ s
                  else if type = USD then js ''$'' @ s
                  else if type = CUSTOM then js_to_string (custom_symbol ls) @ s else s)
      | _ \<Rightarrow> JNum (Fin 0))"

definition renderUnitWithQuota :: "storage \<Rightarrow> jsval \<Rightarrow> jsnum" where
  "renderUnitWithQuota ls quota = num_mul (getQuotaPerUnit ls) (parseFloat (js_to_string quota))"

definition getQuotaWithUnit :: "storage \<Rightarrow> jsnum \<Rightarrow> int \<Rightarrow> jsstr" where
  "getQuotaWithUnit ls quota digits = toFixed digits (num_div quota (getQuotaPerUnit ls))"

definition renderQuotaWithAmount :: "storage \<Rightarrow> jsval \<Rightarrow> jsval" where
  "renderQuotaWithAmount ls amount =
     (let type = getQuotaDisplayType ls in
      if type = TOKENS then renderNumber (renderUnitWithQuota ls amount)
      else let n = js_to_number amount;
               formattedAmount = (if num_is_finite n then toFixed 2 n else js_to_string amount)
           in JStr (if type = CNY then yuan_sign @ formattedAmount
                    else if type = CUSTOM then js_to_string (custom_symbol ls) @ formattedAmount
                    else js ''$'' @ formattedAmount))"

text \<open>Symbol and rate. With \<open>CUSTOM\<close> and no status the symbol stays the dollar sign.\<close>

definition getCurrencyConfig :: "storage \<Rightarrow> jsval \<times> jsval" where
  "getCurrencyConfig ls =
     (let type = getQuotaDisplayType ls in
      if type = CNY then (JStr yuan_sign, status_or ls ''usd_exchange_rate'' (JNum (Fin 7)) (JNum (Fin 1)))
      else if type = CUSTOM then
        (status_or ls ''custom_currency_symbol'' (JStr any_sign) (JStr (js ''$'')),
         status_or ls ''custom_currency_exchange_rate'' (JNum (Fin 1)) (JNum (Fin 1)))
      else (JStr (js ''$''), JNum (Fin 1)))"

definition convertUSDToCurrency :: "storage \<Rightarrow> jsnum \<Rightarrow> int \<Rightarrow> jsstr" where
  "convertUSDToCurrency ls usdAmount digits =
     (let (symbol, rate) = getCurrencyConfig ls
      in js_to_string symbol @ toFixed digits (num_mul usdAmount (js_to_number rate)))"

text \<open>Symbol and value of a quota, and its text: a positive value that would be written as zero is written as the smallest unit.\<close>

definition quota_value :: "storage \<Rightarrow> jsnum \<Rightarrow> jsval \<times> jsnum" where
  "quota_value ls quota =
     (let type = getQuotaDisplayType ls; resultUSD = num_div quota (getQuotaPerUnit ls) in
      if type = CNY then (JStr yuan_sign, num_mul resultUSD (js_to_number (status_or ls ''usd_exchange_rate'' (JNum (Fin 1)) (JNum (Fin 1)))))
      else if type = CUSTOM then
        (custom_symbol ls, num_mul resultUSD (js_to_number (status_or ls ''custom_currency_exchange_rate'' (JNum (Fin 1)) (JNum (Fin 1)))))
      else (JStr (js ''$''), resultUSD))"

definition quota_text :: "jsnum \<Rightarrow> jsnum \<Rightarrow> int \<Rightarrow> jsstr" where
  "quota_text quota val digits =
     (let fixedResult = toFixed digits val in
      if num_eq (parseFloat fixedResult) (Fin 0) \<and> positive quota \<and> positive val
      then toFixed digits (rnd (pow10 (- digits))) else fixedResult)"

definition renderQuota :: "storage \<Rightarrow> jsnum \<Rightarrow> int \<Rightarrow> jsval" where
  "renderQuota ls quota digits =
     (if getQuotaDisplayType ls = TOKENS then renderNumber quota
      else let (symbol, val) = quota_value ls quota in JStr (js_to_string symbol @ quota_text quota val digits))"

definition renderQuotaWithPrompt :: "translation \<Rightarrow> storage \<Rightarrow> jsnum \<Rightarrow> int \<Rightarrow> jsstr" where
  "renderQuotaWithPrompt t ls quota digits =
     (if getQuotaDisplayType ls \<noteq> TOKENS then t T_equal_amount [] @ js_to_string (renderQuota ls quota digits) else [])"

section \<open>Parts of a billing text\<close>

definition isValidGroupRatio :: "jsval \<Rightarrow> bool" where
  "isValidGroupRatio ratio = (case ratio of JNum n \<Rightarrow> num_is_finite n \<and> n \<noteq> Fin (- 1) | _ \<Rightarrow> False)"

definition getEffectiveRatio :: "translation \<Rightarrow> jsval \<Rightarrow> jsval \<Rightarrow> jsval \<times> jsstr" where  \<comment> \<open>the ratio and its label\<close>
  "getEffectiveRatio t groupRatio user_group_ratio =
     (if isValidGroupRatio user_group_ratio then (user_group_ratio, t T_own_ratio []) else (groupRatio, t T_group_ratio []))"

definition no_price :: "jsnum \<Rightarrow> bool" where  \<comment> \<open>\<open>modelPrice === -1\<close>\<close>
  "no_price modelPrice \<longleftrightarrow> modelPrice = Fin (- 1)"

datatype display_mode = PriceMode | RatioMode

definition resolveBillingDisplayMode :: "storage \<Rightarrow> jsval \<Rightarrow> jsnum \<Rightarrow> display_mode" where
  "resolveBillingDisplayMode ls displayMode modelPrice =
     (if \<not> no_price modelPrice then PriceMode
      else if getQuotaDisplayType ls = TOKENS then RatioMode
      else if displayMode = JStr (js ''ratio'') then RatioMode else PriceMode)"

definition isPriceDisplayMode :: "storage \<Rightarrow> jsval \<Rightarrow> jsnum \<Rightarrow> bool" where
  "isPriceDisplayMode ls displayMode modelPrice \<longleftrightarrow> resolveBillingDisplayMode ls displayMode modelPrice = PriceMode"

definition shouldUseRatioBillingProcess :: "storage \<Rightarrow> jsnum \<Rightarrow> bool" where
  "shouldUseRatioBillingProcess ls modelPrice \<longleftrightarrow> no_price modelPrice \<and> getQuotaDisplayType ls = TOKENS"

definition formatCompactDisplayPrice :: "storage \<Rightarrow> jsnum \<Rightarrow> jsstr" where
  "formatCompactDisplayPrice ls usdAmount =
     (let (symbol, rate) = getCurrencyConfig ls
      in js_to_string symbol @ number_to_string (string_to_number (toFixed 6 (num_mul usdAmount (js_to_number rate)))))"

definition named :: "(string \<times> jsval) list \<Rightarrow> variables" where
  "named vs = map (\<lambda>(k, v). (js k, v)) vs"

definition buildBillingText :: "translation \<Rightarrow> jsstr \<Rightarrow> (string \<times> jsval) list \<Rightarrow> jsstr" where
  "buildBillingText t key vs = t key (named vs)"

definition appendPricePart :: "translation \<Rightarrow> bool \<Rightarrow> jsstr \<Rightarrow> (string \<times> jsval) list \<Rightarrow> jsstr list \<Rightarrow> jsstr list" where
  "appendPricePart t condition key vs parts = (if condition then parts @ [buildBillingText t key vs] else parts)"

definition joinBillingSummary :: "jsstr list \<Rightarrow> jsstr" where
  "joinBillingSummary parts = join zh_comma (filter (\<lambda>p. p \<noteq> []) parts)"

definition getGroupRatioText :: "translation \<Rightarrow> jsval \<Rightarrow> jsval \<Rightarrow> jsstr" where
  "getGroupRatioText t groupRatio user_group_ratio =
     (let (ratio, label) = getEffectiveRatio t groupRatio user_group_ratio
      in buildBillingText t T_ratio_x [(''ratioType'', JStr label), (''ratio'', ratio)])"

definition formatRatioValue :: "jsnum \<Rightarrow> jsnum" where
  "formatRatioValue num = (if num_is_finite num then string_to_number (toFixed 6 num) else Fin 0)"

text \<open>\<open>Number(usdAmount || 0)\<close> is zero for \<open>NaN\<close>.\<close>

definition renderDisplayAmountFromUsd :: "storage \<Rightarrow> jsnum \<Rightarrow> jsval" where
  "renderDisplayAmountFromUsd ls usdAmount =
     renderQuotaWithAmount ls (JNum (string_to_number (toFixed 6 (if truthy (JNum usdAmount) then usdAmount else Fin 0))))"

definition formatBillingDisplayPrice :: "jsnum \<Rightarrow> jsval \<Rightarrow> jsstr" where
  "formatBillingDisplayPrice usdAmount rate = toFixed 6 (num_mul usdAmount (js_to_number rate))"

definition buildBillingPriceText :: "translation \<Rightarrow> jsstr \<Rightarrow> jsval \<times> jsval \<Rightarrow> jsnum \<Rightarrow> string \<Rightarrow> (string \<times> jsval) list \<Rightarrow> jsstr" where
  "buildBillingPriceText t key currency usdAmount amountKey vs =
     (let (symbol, rate) = currency
      in buildBillingText t key ([(''symbol'', symbol), (amountKey, JStr (formatBillingDisplayPrice usdAmount rate))] @ vs))"

text \<open>What a display gives: the paragraphs of an article, a text, or segments with their tone.\<close>

datatype tone = Primary | Secondary
datatype billing_view = Article "jsstr list" | PlainText jsstr | Segments "(tone \<times> jsstr) list"

definition renderBillingArticle :: "translation \<Rightarrow> bool \<Rightarrow> jsstr list \<Rightarrow> billing_view" where
  "renderBillingArticle t showReferenceNote lines =
     Article (filter (\<lambda>l. l \<noteq> []) lines @ (if showReferenceNote then [t T_reference_note []] else []))"

definition renderTaskBillingProcess :: "translation \<Rightarrow> jsval \<Rightarrow> jsstr \<Rightarrow> billing_view" where
  "renderTaskBillingProcess t other content =
     (if \<not> is_nullish (prop_opt other (js ''task_id'')) then renderBillingArticle t False [content]
      else renderBillingArticle t True [t T_task_prepaid []])"

text \<open>A line that is shown on a condition; otherwise it is null, which the article leaves out.\<close>

definition line_if :: "bool \<Rightarrow> jsstr \<Rightarrow> jsstr" where
  "line_if c l = (if c then l else [])"

section \<open>Options of a log entry\<close>

text \<open>The fields of an entry; a field with a default that is undefined takes it. Amounts, ratios and counts are numbers.\<close>

definition opt_val :: "variables \<Rightarrow> string \<Rightarrow> jsval" where
  "opt_val opts k = (case map_of opts (js k) of None \<Rightarrow> JUndef | Some v \<Rightarrow> v)"

definition opt_num :: "variables \<Rightarrow> string \<Rightarrow> jsnum \<Rightarrow> jsnum" where
  "opt_num opts k d = (if opt_val opts k = JUndef then d else js_to_number (opt_val opts k))"

definition opt_or_zero :: "variables \<Rightarrow> string \<Rightarrow> jsnum" where  \<comment> \<open>\<open>x ?? 0\<close>\<close>
  "opt_or_zero opts k = (if is_nullish (opt_val opts k) then Fin 0 else js_to_number (opt_val opts k))"

definition opt_true :: "variables \<Rightarrow> string \<Rightarrow> bool" where
  "opt_true opts k = truthy (opt_val opts k)"

section \<open>Tiers\<close>

definition has_cache_tokens :: "variables \<Rightarrow> bool" where
  "has_cache_tokens opts \<longleftrightarrow> positive (opt_num opts ''cache_tokens'' (Fin 0)) \<or> positive (opt_num opts ''cache_creation_tokens'' (Fin 0))
     \<or> positive (opt_num opts ''cache_creation_tokens_5m'' (Fin 0)) \<or> positive (opt_num opts ''cache_creation_tokens_1h'' (Fin 0))"

definition tier_price :: "log_tier \<Rightarrow> pricing_var \<Rightarrow> jsnum" where
  "tier_price tier v = (case map_of (lt_prices tier) (pv_field v) of Some n \<Rightarrow> n | None \<Rightarrow> Fin 0)"

text \<open>The variables whose price is shown.\<close>

definition shown_vars :: "variables \<Rightarrow> log_tier \<Rightarrow> pricing_var list" where
  "shown_vars opts tier =
     filter (\<lambda>v. positive (tier_price tier v)) (filter (\<lambda>v. \<not> pv_cache v \<or> has_cache_tokens opts) BILLING_PRICING_VARS)"

definition renderTieredModelPrice :: "translation \<Rightarrow> storage \<Rightarrow> variables \<Rightarrow> billing_view" where
  "renderTieredModelPrice t ls opts =
     (let matchedTier = opt_val opts ''matched_tier'' in
      case shown_log_tier (js_to_string (opt_val opts ''expr_b64'')) matchedTier of
        None \<Rightarrow> PlainText (t T_parse_failed [])
      | Some tier \<Rightarrow>
          renderBillingArticle t True
            (buildBillingText t T_matched_tier [(''tier'', js_or matchedTier (JStr (lt_label tier)))]
             # map (\<lambda>v. buildBillingPriceText t (pv_label v @ T_tier_price_suffix) (getCurrencyConfig ls) (tier_price tier v) ''price'' [])
                 (shown_vars opts tier)))"

definition renderTieredModelPriceSimple :: "translation \<Rightarrow> storage \<Rightarrow> variables \<Rightarrow> bool \<Rightarrow> (tone \<times> jsstr) list" where
  "renderTieredModelPriceSimple t ls opts segmentsMode =
     (if segmentsMode then
        (Primary, getGroupRatioText t (opt_val opts ''group_ratio'') (opt_val opts ''user_group_ratio''))
        # (case shown_log_tier (js_to_string (opt_val opts ''expr_b64'')) (opt_val opts ''matched_tier'') of
             None \<Rightarrow> []
           | Some tier \<Rightarrow>
               if isPriceDisplayMode ls (opt_val opts ''displayMode'') (Fin (- 1)) then
                 map (\<lambda>v. (Secondary, buildBillingText t T_tier_price_short
                     [(''label'', JStr (t (pv_shortLabel v) [])), (''price'', JStr (formatCompactDisplayPrice ls (tier_price tier v)))]))
                   (shown_vars opts tier)
               else [])
      else [])"

end
