(* ===== verification/BillingLog.thy ===== *)
theory BillingLog
  imports BillingDisplay
begin

text \<open>
  The price displays of a log entry in \<open>src/web/src/helpers/render.jsx\<close>: the short form \<open>renderModelPriceSimple\<close>, the billing process
  of text, audio and Claude models, and the summaries. Each has a form in prices and one in ratios.
\<close>

abbreviation million :: jsnum where "million \<equiv> Fin 1000000"
abbreviation thousand :: jsnum where "thousand \<equiv> Fin 1000"

definition not_zero :: "jsnum \<Rightarrow> bool" where  \<comment> \<open>\<open>x !== 0\<close>\<close>
  "not_zero x \<longleftrightarrow> \<not> num_is_zero x"

section \<open>The short form\<close>

record simple_price =
  sp_modelRatio :: jsnum
  sp_modelPrice :: jsnum
  sp_groupRatio :: jsval
  sp_userRatio :: jsval
  sp_cacheTokens :: jsnum
  sp_cacheRatio :: jsnum
  sp_creationTokens :: jsnum
  sp_creationRatio :: jsnum
  sp_creationTokens5m :: jsnum
  sp_creationRatio5m :: jsnum
  sp_creationTokens1h :: jsnum
  sp_creationRatio1h :: jsnum
  sp_image :: bool
  sp_imageRatio :: jsnum
  sp_override :: bool
  sp_displayMode :: jsval

definition sp_split :: "simple_price \<Rightarrow> bool" where  \<comment> \<open>\<open>hasSplitCacheCreation\<close>\<close>
  "sp_split p \<longleftrightarrow> positive (sp_creationTokens5m p) \<or> positive (sp_creationTokens1h p)"

definition sp_legacy :: "simple_price \<Rightarrow> bool" where  \<comment> \<open>\<open>shouldShowLegacyCacheCreation\<close>\<close>
  "sp_legacy p \<longleftrightarrow> \<not> sp_split p \<and> not_zero (sp_creationTokens p)"

definition sp_show5m :: "simple_price \<Rightarrow> bool" where
  "sp_show5m p \<longleftrightarrow> sp_split p \<and> positive (sp_creationTokens5m p)"

definition sp_show1h :: "simple_price \<Rightarrow> bool" where
  "sp_show1h p \<longleftrightarrow> sp_split p \<and> positive (sp_creationTokens1h p)"

definition compact_price :: "translation \<Rightarrow> storage \<Rightarrow> jsstr \<Rightarrow> jsnum \<Rightarrow> jsstr" where
  "compact_price t ls key usd = buildBillingText t key [(''price'', JStr (formatCompactDisplayPrice ls usd))]"

definition price_segments :: "translation \<Rightarrow> storage \<Rightarrow> simple_price \<Rightarrow> (tone \<times> jsstr) list" where
  "price_segments t ls p =
     (let m = sp_modelRatio p; two = Fin 2 in
      [(Secondary, compact_price t ls T_input_short (num_mul m two))]
      @ (if not_zero (sp_cacheTokens p) then [(Secondary, compact_price t ls T_cache_read_short (num_prod [m, two, sp_cacheRatio p]))] else [])
      @ (if sp_split p \<and> sp_show5m p then [(Secondary, compact_price t ls T_creation5m_short (num_prod [m, two, sp_creationRatio5m p]))] else [])
      @ (if sp_split p \<and> sp_show1h p then [(Secondary, compact_price t ls T_creation1h_short (num_prod [m, two, sp_creationRatio1h p]))] else [])
      @ (if \<not> sp_split p \<and> sp_legacy p then [(Secondary, compact_price t ls T_creation_short (num_prod [m, two, sp_creationRatio p]))] else [])
      @ (if sp_image p then [(Secondary, compact_price t ls T_image_short (num_prod [m, two, sp_imageRatio p]))] else []))"

definition ratio_segments :: "translation \<Rightarrow> simple_price \<Rightarrow> (tone \<times> jsstr) list" where
  "ratio_segments t p =
     (let r5 = (''cacheCreationRatio5m'', JNum (sp_creationRatio5m p)); r1 = (''cacheCreationRatio1h'', JNum (sp_creationRatio1h p)) in
      [(Secondary, buildBillingText t T_model_part [(''ratio'', JNum (sp_modelRatio p))])]
      @ (if not_zero (sp_cacheTokens p) then [(Secondary, buildBillingText t T_cache_part [(''cacheRatio'', JNum (sp_cacheRatio p))])] else [])
      @ (if sp_split p then
           (if sp_show5m p \<and> sp_show1h p then [(Secondary, buildBillingText t T_creation_both_part [r5, r1])]
            else if sp_show5m p then [(Secondary, buildBillingText t T_creation5m_part [r5])]
            else if sp_show1h p then [(Secondary, buildBillingText t T_creation1h_part [r1])] else [])
         else if sp_legacy p then [(Secondary, buildBillingText t T_creation_part [(''cacheCreationRatio'', JNum (sp_creationRatio p))])] else [])
      @ (if sp_image p then [(Secondary, buildBillingText t T_image_part [(''imageRatio'', JNum (sp_imageRatio p))])] else []))"

definition simple_segments :: "translation \<Rightarrow> storage \<Rightarrow> simple_price \<Rightarrow> (tone \<times> jsstr) list" where
  "simple_segments t ls p =
     [(Primary, getGroupRatioText t (sp_groupRatio p) (sp_userRatio p))]
     @ (if \<not> no_price (sp_modelPrice p) then
          [(Secondary, if isPriceDisplayMode ls (sp_displayMode p) (sp_modelPrice p)
             then compact_price t ls T_model_price_short (sp_modelPrice p) else t T_per_call [])]
        else if isPriceDisplayMode ls (sp_displayMode p) (sp_modelPrice p) then price_segments t ls p
        else ratio_segments t p)
     @ (if sp_override p then [(Primary, t T_prompt_override [])] else [])"

definition override_note :: "translation \<Rightarrow> simple_price \<Rightarrow> jsstr" where
  "override_note t p = (if sp_override p then [10, 13] @ t T_prompt_override [] else [])"

definition price_parts :: "translation \<Rightarrow> storage \<Rightarrow> simple_price \<Rightarrow> jsstr list" where
  "price_parts t ls p =
     (let m = sp_modelRatio p; two = Fin 2 in
      [compact_price t ls T_input_short (num_mul m two)]
      @ (if not_zero (sp_cacheTokens p) then [compact_price t ls T_cache_read_short (num_prod [m, two, sp_cacheRatio p])] else [])
      @ (if sp_split p \<and> sp_show5m p then [compact_price t ls T_creation5m_short (num_prod [m, two, sp_creationRatio5m p])] else [])
      @ (if sp_split p \<and> sp_show1h p then [compact_price t ls T_creation1h_short (num_prod [m, two, sp_creationRatio1h p])] else [])
      @ (if \<not> sp_split p \<and> sp_legacy p then [compact_price t ls T_creation_short (num_prod [m, two, sp_creationRatio p])] else [])
      @ (if sp_image p then [compact_price t ls T_image_short (num_prod [m, two, sp_imageRatio p])] else []))"

text \<open>In ratios the parts are translated without variables, joined, and the result is translated again as a key.\<close>

definition ratio_parts :: "translation \<Rightarrow> simple_price \<Rightarrow> jsstr list" where
  "ratio_parts t p =
     [t T_model_part []] @ (if not_zero (sp_cacheTokens p) then [t T_cache_part []] else [])
     @ (if sp_split p then
          (if sp_show5m p \<and> sp_show1h p then [t T_creation_both_part []]
           else if sp_show5m p then [t T_creation5m_part []] else if sp_show1h p then [t T_creation1h_part []] else [])
        else if sp_legacy p then [t T_creation_part []] else [])
     @ (if sp_image p then [t T_image_part []] else [])
     @ [T_group_part]"

definition simple_text :: "translation \<Rightarrow> storage \<Rightarrow> simple_price \<Rightarrow> jsstr" where
  "simple_text t ls p =
     (let (symbol, rate) = getCurrencyConfig ls; (ratio, ratioLabel) = getEffectiveRatio t (sp_groupRatio p) (sp_userRatio p);
          groupText = getGroupRatioText t (sp_groupRatio p) (sp_userRatio p)
      in if \<not> no_price (sp_modelPrice p) then
           (let vs = [(''symbol'', symbol), (''price'', JStr (formatBillingDisplayPrice (sp_modelPrice p) rate))] in
            if isPriceDisplayMode ls (sp_displayMode p) (sp_modelPrice p)
            then joinBillingSummary [buildBillingText t T_model_price_colon vs, groupText]
            else buildBillingText t T_price_times_ratio (vs @ [(''ratioType'', JStr ratioLabel), (''ratio'', ratio)]))
         else if isPriceDisplayMode ls (sp_displayMode p) (sp_modelPrice p)
         then joinBillingSummary (price_parts t ls p @ [groupText]) @ override_note t p
         else buildBillingText t (join (js '' * '') (ratio_parts t p))
                [(''ratio'', JNum (sp_modelRatio p)), (''ratioType'', JStr ratioLabel), (''groupRatio'', ratio), (''cacheRatio'', JNum (sp_cacheRatio p)),
                 (''cacheCreationRatio'', JNum (sp_creationRatio p)), (''cacheCreationRatio5m'', JNum (sp_creationRatio5m p)),
                 (''cacheCreationRatio1h'', JNum (sp_creationRatio1h p)), (''imageRatio'', JNum (sp_imageRatio p))] @ override_note t p)"

definition renderPriceSimpleCore :: "translation \<Rightarrow> storage \<Rightarrow> simple_price \<Rightarrow> bool \<Rightarrow> billing_view" where
  "renderPriceSimpleCore t ls p segmentsMode =
     (if segmentsMode then Segments (simple_segments t ls p) else PlainText (simple_text t ls p))"

definition simple_price_of :: "variables \<Rightarrow> simple_price" where
  "simple_price_of opts =
     \<lparr>sp_modelRatio = opt_num opts ''model_ratio'' NaN, sp_modelPrice = opt_num opts ''model_price'' (Fin (- 1)),
      sp_groupRatio = opt_val opts ''group_ratio'', sp_userRatio = opt_val opts ''user_group_ratio'',
      sp_cacheTokens = opt_num opts ''cache_tokens'' (Fin 0), sp_cacheRatio = opt_num opts ''cache_ratio'' (Fin 1),
      sp_creationTokens = opt_num opts ''cache_creation_tokens'' (Fin 0), sp_creationRatio = opt_num opts ''cache_creation_ratio'' (Fin 1),
      sp_creationTokens5m = opt_num opts ''cache_creation_tokens_5m'' (Fin 0), sp_creationRatio5m = opt_num opts ''cache_creation_ratio_5m'' (Fin 1),
      sp_creationTokens1h = opt_num opts ''cache_creation_tokens_1h'' (Fin 0), sp_creationRatio1h = opt_num opts ''cache_creation_ratio_1h'' (Fin 1),
      sp_image = opt_true opts ''image'', sp_imageRatio = opt_num opts ''image_ratio'' (Fin 1),
      sp_override = opt_true opts ''is_system_prompt_overwritten'', sp_displayMode = opt_val opts ''displayMode''\<rparr>"

definition renderModelPriceSimple :: "translation \<Rightarrow> storage \<Rightarrow> variables \<Rightarrow> billing_view" where
  "renderModelPriceSimple t ls opts =
     renderPriceSimpleCore t ls (simple_price_of opts) (opt_val opts ''outputMode'' = JStr (js ''segments''))"

section \<open>Text models\<close>

record model_bill =
  mb_input :: jsnum
  mb_completion :: jsnum
  mb_modelRatio :: jsnum
  mb_modelPrice :: jsnum
  mb_completionRatio :: jsnum
  mb_group :: jsval          \<comment> \<open>the effective ratio\<close>
  mb_label :: jsstr
  mb_cache :: jsnum
  mb_cacheRatio :: jsnum
  mb_image :: bool
  mb_imageRatio :: jsnum
  mb_imageTokens :: jsnum
  mb_web :: bool
  mb_webCount :: jsnum
  mb_webPrice :: jsnum
  mb_file :: bool
  mb_fileCount :: jsnum
  mb_filePrice :: jsnum
  mb_audioSeparate :: bool
  mb_audioTokens :: jsnum
  mb_audioPrice :: jsnum
  mb_imageCall :: bool
  mb_imageCallPrice :: jsnum

definition model_bill_of :: "translation \<Rightarrow> variables \<Rightarrow> model_bill" where
  "model_bill_of t opts =
     (let (ratio, label) = getEffectiveRatio t (opt_val opts ''group_ratio'') (opt_val opts ''user_group_ratio'') in
      \<lparr>mb_input = opt_num opts ''prompt_tokens'' (Fin 0), mb_completion = opt_num opts ''completion_tokens'' (Fin 0),
       mb_modelRatio = opt_num opts ''model_ratio'' (Fin 0), mb_modelPrice = opt_num opts ''model_price'' (Fin (- 1)),
       mb_completionRatio = opt_or_zero opts ''completion_ratio'', mb_group = ratio, mb_label = label,
       mb_cache = opt_num opts ''cache_tokens'' (Fin 0), mb_cacheRatio = opt_num opts ''cache_ratio'' (Fin 1),
       mb_image = opt_true opts ''image'', mb_imageRatio = opt_num opts ''image_ratio'' (Fin 1), mb_imageTokens = opt_num opts ''image_output'' (Fin 0),
       mb_web = opt_true opts ''web_search'', mb_webCount = opt_num opts ''web_search_call_count'' (Fin 0), mb_webPrice = opt_num opts ''web_search_price'' (Fin 0),
       mb_file = opt_true opts ''file_search'', mb_fileCount = opt_num opts ''file_search_call_count'' (Fin 0), mb_filePrice = opt_num opts ''file_search_price'' (Fin 0),
       mb_audioSeparate = opt_true opts ''audio_input_seperate_price'', mb_audioTokens = opt_num opts ''audio_input_token_count'' (Fin 0),
       mb_audioPrice = opt_num opts ''audio_input_price'' (Fin 0), mb_imageCall = opt_true opts ''image_generation_call'',
       mb_imageCallPrice = opt_num opts ''image_generation_call_price'' (Fin 0)\<rparr>)"

definition mb_ratio :: "model_bill \<Rightarrow> jsnum" where "mb_ratio b = js_to_number (mb_group b)"
definition mb_hasImage :: "model_bill \<Rightarrow> bool" where "mb_hasImage b \<longleftrightarrow> mb_image b \<and> positive (mb_imageTokens b)"
definition mb_hasWeb :: "model_bill \<Rightarrow> bool" where "mb_hasWeb b \<longleftrightarrow> mb_web b \<and> positive (mb_webCount b)"
definition mb_hasFile :: "model_bill \<Rightarrow> bool" where "mb_hasFile b \<longleftrightarrow> mb_file b \<and> positive (mb_fileCount b)"
definition mb_hasImageCall :: "model_bill \<Rightarrow> bool" where "mb_hasImageCall b \<longleftrightarrow> mb_imageCall b \<and> positive (mb_imageCallPrice b)"
definition mb_inputPrice :: "model_bill \<Rightarrow> jsnum" where "mb_inputPrice b = num_mul (mb_modelRatio b) (Fin 2)"
definition mb_completionPrice :: "model_bill \<Rightarrow> jsnum" where "mb_completionPrice b = num_prod [mb_modelRatio b, Fin 2, mb_completionRatio b]"

definition ratio_vars :: "jsval \<Rightarrow> jsstr \<Rightarrow> (string \<times> jsval) list" where
  "ratio_vars ratio label = [(''ratioType'', JStr label), (''ratio'', ratio)]"

text \<open>A price per call, in an article and as the text of the branch for ratios.\<close>

definition per_call_article :: "translation \<Rightarrow> jsval \<times> jsval \<Rightarrow> jsstr \<Rightarrow> jsstr \<Rightarrow> jsnum \<Rightarrow> jsval \<Rightarrow> jsstr \<Rightarrow> billing_view" where
  "per_call_article t currency key totalKey modelPrice ratio label =
     renderBillingArticle t True
       [buildBillingPriceText t key currency modelPrice ''price'' [],
        buildBillingPriceText t totalKey currency modelPrice ''price'' (ratio_vars ratio label
          @ [(''total'', JStr (formatBillingDisplayPrice (num_mul modelPrice (js_to_number ratio)) (snd currency)))])]"

definition per_call_text :: "translation \<Rightarrow> jsval \<times> jsval \<Rightarrow> jsstr \<Rightarrow> jsnum \<Rightarrow> jsval \<Rightarrow> jsstr \<Rightarrow> billing_view" where
  "per_call_text t currency key modelPrice ratio label =
     PlainText (buildBillingText t key
       ([(''symbol'', fst currency), (''price'', JStr (formatBillingDisplayPrice modelPrice (snd currency))),
         (''total'', JStr (toFixed 6 (num_prod [modelPrice, js_to_number ratio, js_to_number (snd currency)])))] @ ratio_vars ratio label))"

definition effectiveInputTokens :: "model_bill \<Rightarrow> jsnum" where
  "effectiveInputTokens b =
     (let tokens = (if mb_hasImage b
            then num_add (num_sub (mb_input b) (mb_imageTokens b)) (num_mul (mb_imageTokens b) (mb_imageRatio b))
            else num_add (num_sub (mb_input b) (mb_cache b)) (num_mul (mb_cache b) (mb_cacheRatio b)))
      in if positive (mb_audioTokens b) then num_sub tokens (mb_audioTokens b) else tokens)"

definition model_price_total :: "model_bill \<Rightarrow> jsnum" where
  "model_price_total b =
     (let gr = mb_ratio b in
      num_sum [num_prod [num_div (effectiveInputTokens b) million, mb_inputPrice b, gr], num_prod [num_div (mb_audioTokens b) million, mb_audioPrice b, gr],
               num_prod [num_div (mb_completion b) million, mb_completionPrice b, gr], num_prod [num_div (mb_webCount b) thousand, mb_webPrice b, gr],
               num_prod [num_div (mb_fileCount b) thousand, mb_filePrice b, gr], num_mul (mb_imageCallPrice b) gr])"

definition input_desc :: "translation \<Rightarrow> jsval \<times> jsval \<Rightarrow> model_bill \<Rightarrow> jsstr" where
  "input_desc t currency b =
     (let (symbol, rate) = currency; price = JStr (formatBillingDisplayPrice (mb_inputPrice b) rate) in
      if mb_hasImage b then
        buildBillingPriceText t T_image_input_desc currency (mb_inputPrice b) ''price''
          [(''nonImageInput'', JNum (num_sub (mb_input b) (mb_imageTokens b))), (''imageInput'', JNum (mb_imageTokens b))]
      else if positive (mb_cache b) then
        buildBillingText t T_cache_input_desc
          [(''nonCacheInput'', JNum (num_sub (mb_input b) (mb_cache b))), (''cacheInput'', JNum (mb_cache b)), (''symbol'', symbol), (''price'', price),
           (''cachePrice'', JStr (formatBillingDisplayPrice (num_prod [mb_modelRatio b, Fin 2, mb_cacheRatio b]) rate))]
      else if mb_audioSeparate b \<and> positive (mb_audioTokens b) then
        buildBillingText t T_audio_input_desc
          [(''nonAudioInput'', JNum (num_sub (mb_input b) (mb_audioTokens b))), (''audioInput'', JNum (mb_audioTokens b)), (''symbol'', symbol),
           (''price'', price), (''audioPrice'', JStr (formatBillingDisplayPrice (mb_audioPrice b) rate))]
      else buildBillingPriceText t T_input_desc currency (mb_inputPrice b) ''price'' [(''input'', JNum (mb_input b))])"

definition output_desc :: "translation \<Rightarrow> jsval \<times> jsval \<Rightarrow> model_bill \<Rightarrow> jsstr" where
  "output_desc t currency b =
     buildBillingText t T_output_desc
       ([(''completion'', JNum (mb_completion b)), (''symbol'', fst currency),
         (''compPrice'', JStr (formatBillingDisplayPrice (mb_completionPrice b) (snd currency)))] @ ratio_vars (mb_group b) (mb_label b))"

definition extra_services :: "translation \<Rightarrow> jsval \<times> jsval \<Rightarrow> model_bill \<Rightarrow> jsstr" where
  "extra_services t currency b =
     line_if (mb_hasWeb b) (buildBillingPriceText t T_web_search_desc currency (mb_webPrice b) ''price'' ((''count'', JNum (mb_webCount b)) # ratio_vars (mb_group b) (mb_label b)))
     @ line_if (mb_hasFile b) (buildBillingPriceText t T_file_search_desc currency (mb_filePrice b) ''price'' ((''count'', JNum (mb_fileCount b)) # ratio_vars (mb_group b) (mb_label b)))
     @ line_if (mb_hasImageCall b) (buildBillingPriceText t T_image_call_desc currency (mb_imageCallPrice b) ''price'' (ratio_vars (mb_group b) (mb_label b)))"

definition model_price_lines :: "translation \<Rightarrow> jsval \<times> jsval \<Rightarrow> model_bill \<Rightarrow> jsstr list" where
  "model_price_lines t currency b =
     (let (symbol, rate) = currency;
          audio = (if mb_audioSeparate b then zh_comma @ t T_audio_input_price_word [] @ js '' '' @ js_to_string symbol
                     @ formatBillingDisplayPrice (mb_audioPrice b) rate @ js '' / 1M tokens'' else [])
      in [buildBillingPriceText t T_input_price_audio currency (mb_inputPrice b) ''price'' [(''audioPrice'', JStr audio)],
          buildBillingPriceText t T_output_price_total currency (mb_completionPrice b) ''total'' [],
          line_if (positive (mb_cache b)) (buildBillingPriceText t T_cache_price_total currency (num_mul (mb_inputPrice b) (mb_cacheRatio b)) ''total'' []),
          line_if (mb_hasImage b) (buildBillingPriceText t T_image_price_total currency (num_prod [mb_modelRatio b, Fin 2, mb_imageRatio b]) ''total'' []),
          line_if (mb_hasWeb b) (buildBillingPriceText t T_web_search_price currency (mb_webPrice b) ''price'' []),
          line_if (mb_hasFile b) (buildBillingPriceText t T_file_search_price currency (mb_filePrice b) ''price'' []),
          line_if (mb_hasImageCall b) (buildBillingPriceText t T_image_call_price currency (mb_imageCallPrice b) ''price'' []),
          buildBillingText t T_description
            [(''inputDesc'', JStr (input_desc t currency b)), (''outputDesc'', JStr (output_desc t currency b)),
             (''extraServices'', JStr (extra_services t currency b)), (''symbol'', symbol), (''total'', JStr (formatBillingDisplayPrice (model_price_total b) rate))]])"

text \<open>In ratios: the rounded ratios, the amounts and their sum.\<close>

definition mb_textTokens :: "model_bill \<Rightarrow> jsnum" where
  "mb_textTokens b = num_max (num_sub (num_sub (mb_input b) (mb_cache b)) (mb_audioTokens b)) (Fin 0)"

definition mb_imageInput :: "model_bill \<Rightarrow> jsnum" where
  "mb_imageInput b = (if mb_hasImage b then mb_imageTokens b else Fin 0)"

definition mb_audioRatio :: "model_bill \<Rightarrow> jsnum option" where
  "mb_audioRatio b = (if mb_audioSeparate b \<and> positive (mb_audioPrice b) then Some (formatRatioValue (num_div (mb_audioPrice b) (mb_inputPrice b))) else None)"

record model_amounts =
  ma_text :: jsnum
  ma_cache :: jsnum
  ma_image :: jsnum
  ma_audio :: jsnum
  ma_completion :: jsnum
  ma_web :: jsnum
  ma_file :: jsnum
  ma_imageCall :: jsnum

definition model_amounts_of :: "model_bill \<Rightarrow> model_amounts" where
  "model_amounts_of b =
     (let gr = mb_ratio b; ip = mb_inputPrice b in
      \<lparr>ma_text = num_prod [num_div (mb_textTokens b) million, ip, gr],
       ma_cache = num_prod [num_div (mb_cache b) million, ip, formatRatioValue (mb_cacheRatio b), gr],
       ma_image = num_prod [num_div (mb_imageInput b) million, ip, formatRatioValue (mb_imageRatio b), gr],
       ma_audio = num_prod [num_div (mb_audioTokens b) million, mb_audioPrice b, gr],
       ma_completion = num_prod [num_div (mb_completion b) million, num_prod [mb_modelRatio b, Fin 2, formatRatioValue (mb_completionRatio b)], gr],
       ma_web = num_prod [num_div (mb_webCount b) thousand, mb_webPrice b, gr],
       ma_file = num_prod [num_div (mb_fileCount b) thousand, mb_filePrice b, gr],
       ma_imageCall = num_mul (mb_imageCallPrice b) gr\<rparr>)"

definition model_ratio_total :: "model_bill \<Rightarrow> jsnum" where
  "model_ratio_total b =
     (let a = model_amounts_of b in
      num_sum [ma_text a, ma_cache a, ma_image a, ma_audio a, ma_completion a, ma_web a, ma_file a, ma_imageCall a])"

definition amount_line :: "translation \<Rightarrow> storage \<Rightarrow> jsstr \<Rightarrow> jsnum \<Rightarrow> (string \<times> jsnum) list \<Rightarrow> jsval \<Rightarrow> jsstr \<Rightarrow> jsnum \<Rightarrow> jsstr" where
  "amount_line t ls key tokens ratios ratio label amount =
     buildBillingText t key ([(''tokens'', JNum tokens)] @ map (\<lambda>(k, n). (k, JNum n)) ratios @ ratio_vars ratio label
       @ [(''amount'', renderDisplayAmountFromUsd ls amount)])"

definition service_line :: "translation \<Rightarrow> storage \<Rightarrow> jsstr \<Rightarrow> (string \<times> jsval) list \<Rightarrow> jsnum \<Rightarrow> jsval \<Rightarrow> jsstr \<Rightarrow> jsnum \<Rightarrow> jsstr" where
  "service_line t ls key counts price ratio label amount =
     buildBillingText t key (counts @ [(''price'', renderDisplayAmountFromUsd ls price)] @ ratio_vars ratio label
       @ [(''amount'', renderDisplayAmountFromUsd ls amount)])"

definition model_ratio_head :: "translation \<Rightarrow> model_bill \<Rightarrow> jsstr" where
  "model_ratio_head t b =
     join zh_comma (filter (\<lambda>l. l \<noteq> [])
       [buildBillingText t T_model_ratio [(''modelRatio'', JNum (formatRatioValue (mb_modelRatio b)))],
        buildBillingText t T_completion_ratio [(''completionRatio'', JNum (formatRatioValue (mb_completionRatio b)))],
        line_if (positive (mb_cache b)) (buildBillingText t T_cache_ratio [(''cacheRatio'', JNum (formatRatioValue (mb_cacheRatio b)))]),
        line_if (positive (mb_imageInput b)) (buildBillingText t T_image_ratio [(''imageRatio'', JNum (formatRatioValue (mb_imageRatio b)))]),
        (case mb_audioRatio b of Some r \<Rightarrow> buildBillingText t T_audio_ratio [(''audioRatio'', JNum r)] | None \<Rightarrow> []),
        buildBillingText t T_ratio_type (ratio_vars (mb_group b) (mb_label b))])"

definition model_ratio_lines :: "translation \<Rightarrow> storage \<Rightarrow> model_bill \<Rightarrow> jsstr list" where
  "model_ratio_lines t ls b =
     (let a = model_amounts_of b; g = mb_group b; l = mb_label b; m = (''modelRatio'', formatRatioValue (mb_modelRatio b)) in
      [model_ratio_head t b,
       line_if (positive (mb_textTokens b)) (amount_line t ls T_plain_amount (mb_textTokens b) [m] g l (ma_text a)),
       line_if (positive (mb_cache b)) (amount_line t ls T_cache_amount (mb_cache b) [m, (''cacheRatio'', formatRatioValue (mb_cacheRatio b))] g l (ma_cache a)),
       line_if (positive (mb_imageInput b)) (amount_line t ls T_image_amount (mb_imageInput b) [m, (''imageRatio'', formatRatioValue (mb_imageRatio b))] g l (ma_image a)),
       (case mb_audioRatio b of
          Some r \<Rightarrow> line_if (positive (mb_audioTokens b)) (amount_line t ls T_audio_amount (mb_audioTokens b) [m, (''audioRatio'', r)] g l (ma_audio a))
        | None \<Rightarrow> []),
       amount_line t ls T_completion_amount (mb_completion b) [m, (''completionRatio'', formatRatioValue (mb_completionRatio b))] g l (ma_completion a),
       line_if (mb_hasWeb b) (service_line t ls T_web_search_amount [(''count'', JNum (mb_webCount b))] (mb_webPrice b) g l (ma_web a)),
       line_if (mb_hasFile b) (service_line t ls T_file_search_amount [(''count'', JNum (mb_fileCount b))] (mb_filePrice b) g l (ma_file a)),
       line_if (mb_hasImageCall b) (service_line t ls T_image_call_amount [] (mb_imageCallPrice b) g l (ma_imageCall a)),
       buildBillingText t T_sum [(''total'', renderDisplayAmountFromUsd ls (model_ratio_total b))]])"

definition renderModelPrice :: "translation \<Rightarrow> storage \<Rightarrow> variables \<Rightarrow> billing_view" where
  "renderModelPrice t ls opts =
     (let b = model_bill_of t opts; currency = getCurrencyConfig ls in
      if \<not> shouldUseRatioBillingProcess ls (mb_modelPrice b) then
        (if \<not> no_price (mb_modelPrice b) then per_call_article t currency T_per_call_price T_per_call_total (mb_modelPrice b) (mb_group b) (mb_label b)
         else renderBillingArticle t True (model_price_lines t currency b))
      else if \<not> no_price (mb_modelPrice b) then per_call_text t currency T_per_call_ratio_total (mb_modelPrice b) (mb_group b) (mb_label b)
      else renderBillingArticle t True (model_ratio_lines t ls b))"

end
