(* ===== verification/BillingProviders.thy ===== *)
theory BillingProviders
  imports BillingLog
begin

text \<open>
  The price displays of \<open>src/web/src/helpers/render.jsx\<close> for audio and Claude models, and the summaries of log entries:
  \<open>renderLogContent\<close>, \<open>renderAudioModelPrice\<close>, \<open>renderClaudeModelPrice\<close>, \<open>renderClaudeLogContent\<close>.
\<close>

section \<open>Summaries\<close>

definition price_var :: "jsval \<times> jsval \<Rightarrow> jsnum list \<Rightarrow> (string \<times> jsval) list" where  \<comment> \<open>\<open>{ symbol, price: (a * b * rate).toFixed(6) }\<close>\<close>
  "price_var currency factors = [(''symbol'', fst currency), (''price'', JStr (toFixed 6 (num_prod (factors @ [js_to_number (snd currency)]))))]"

definition log_prices :: "translation \<Rightarrow> storage \<Rightarrow> variables \<Rightarrow> jsstr list" where
  "log_prices t ls opts =
     (let currency = getCurrencyConfig ls; m = opt_num opts ''model_ratio'' NaN; two = Fin 2;
          cacheRatio = opt_num opts ''cache_ratio'' (Fin 1); imageRatio = opt_num opts ''image_ratio'' (Fin 1);
          parts = [buildBillingText t T_log_input_price (price_var currency [m, two]),
                   buildBillingText t T_log_output_price (price_var currency [m, two, opt_num opts ''completion_ratio'' NaN])];
          parts = appendPricePart t (cacheRatio \<noteq> Fin 1) T_log_cache_price (price_var currency [m, two, cacheRatio]) parts;
          parts = appendPricePart t (opt_true opts ''image'') T_log_image_price (price_var currency [m, two, imageRatio]) parts;
          parts = appendPricePart t (opt_true opts ''web_search'') T_log_web_search
            [(''webSearchCallCount'', JNum (opt_num opts ''web_search_call_count'' (Fin 0)))] parts;
          parts = appendPricePart t (opt_true opts ''file_search'') T_log_file_search
            [(''fileSearchCallCount'', JNum (opt_num opts ''file_search_call_count'' (Fin 0)))] parts
      in parts @ [getGroupRatioText t (opt_val opts ''group_ratio'') (opt_val opts ''user_group_ratio'')])"

definition log_ratios :: "translation \<Rightarrow> variables \<Rightarrow> jsstr" where
  "log_ratios t opts =
     (let (ratio, label) = getEffectiveRatio t (opt_val opts ''group_ratio'') (opt_val opts ''user_group_ratio'');
          vs = [(''modelRatio'', opt_val opts ''model_ratio''), (''cacheRatio'', JNum (opt_num opts ''cache_ratio'' (Fin 1))),
                (''completionRatio'', opt_val opts ''completion_ratio'')]
      in if opt_true opts ''image'' then
           buildBillingText t T_log_ratios_image (vs @ [(''imageRatio'', JNum (opt_num opts ''image_ratio'' (Fin 1)))] @ ratio_vars ratio label)
         else if opt_true opts ''web_search'' then
           buildBillingText t T_log_ratios_search (vs @ ratio_vars ratio label @ [(''webSearchCallCount'', JNum (opt_num opts ''web_search_call_count'' (Fin 0)))])
         else buildBillingText t T_log_ratios (vs @ ratio_vars ratio label))"

text \<open>A price per call: with the group ratio as a part of its own, or in one text.\<close>

definition log_per_call :: "translation \<Rightarrow> storage \<Rightarrow> variables \<Rightarrow> jsval \<Rightarrow> jsstr" where
  "log_per_call t ls opts groupRatio =
     joinBillingSummary [buildBillingText t T_log_model_price (price_var (getCurrencyConfig ls) [opt_num opts ''model_price'' (Fin (- 1))]),
       getGroupRatioText t groupRatio (opt_val opts ''user_group_ratio'')]"

definition log_per_call_ratio :: "translation \<Rightarrow> storage \<Rightarrow> variables \<Rightarrow> jsstr" where
  "log_per_call_ratio t ls opts =
     (let (ratio, label) = getEffectiveRatio t (opt_val opts ''group_ratio'') (opt_val opts ''user_group_ratio'')
      in buildBillingText t T_log_price_ratio (price_var (getCurrencyConfig ls) [opt_num opts ''model_price'' (Fin (- 1))] @ ratio_vars ratio label))"

definition renderLogContent :: "translation \<Rightarrow> storage \<Rightarrow> variables \<Rightarrow> jsstr" where
  "renderLogContent t ls opts =
     (let modelPrice = opt_num opts ''model_price'' (Fin (- 1)) in
      if isPriceDisplayMode ls (opt_val opts ''displayMode'') modelPrice then
        (if \<not> no_price modelPrice then log_per_call t ls opts (opt_val opts ''group_ratio'') else joinBillingSummary (log_prices t ls opts))
      else if \<not> no_price modelPrice then log_per_call_ratio t ls opts
      else log_ratios t opts)"

section \<open>Audio models\<close>

record audio_bill =
  ab_input :: jsnum
  ab_completion :: jsnum
  ab_modelRatio :: jsnum
  ab_modelPrice :: jsnum
  ab_completionRatio :: jsnum
  ab_audioInput :: jsnum
  ab_audioOutput :: jsnum
  ab_audioRatio :: jsnum          \<comment> \<open>the text \<open>parseFloat(_audioRatio ?? 0).toFixed(6)\<close> as a number\<close>
  ab_audioCompletionRatio :: jsnum
  ab_group :: jsval
  ab_label :: jsstr
  ab_cache :: jsnum
  ab_cacheRatio :: jsnum

definition audio_bill_of :: "translation \<Rightarrow> variables \<Rightarrow> audio_bill" where
  "audio_bill_of t opts =
     (let (ratio, label) = getEffectiveRatio t (opt_val opts ''group_ratio'') (opt_val opts ''user_group_ratio'');
          audioRatio = opt_val opts ''audio_ratio''
      in \<lparr>ab_input = opt_num opts ''prompt_tokens'' (Fin 0), ab_completion = opt_num opts ''completion_tokens'' (Fin 0),
          ab_modelRatio = opt_num opts ''model_ratio'' (Fin 0), ab_modelPrice = opt_num opts ''model_price'' (Fin (- 1)),
          ab_completionRatio = opt_or_zero opts ''completion_ratio'', ab_audioInput = opt_num opts ''audio_input'' (Fin 0),
          ab_audioOutput = opt_num opts ''audio_output'' (Fin 0),
          ab_audioRatio = string_to_number (toFixed 6 (if is_nullish audioRatio then Fin 0 else parseFloat (js_to_string audioRatio))),
          ab_audioCompletionRatio = opt_or_zero opts ''audio_completion_ratio'', ab_group = ratio, ab_label = label,
          ab_cache = opt_num opts ''cache_tokens'' (Fin 0), ab_cacheRatio = opt_num opts ''cache_ratio'' (Fin 1)\<rparr>)"

definition ab_ratio :: "audio_bill \<Rightarrow> jsnum" where "ab_ratio b = js_to_number (ab_group b)"
definition ab_inputPrice :: "audio_bill \<Rightarrow> jsnum" where "ab_inputPrice b = num_mul (ab_modelRatio b) (Fin 2)"
definition ab_completionPrice :: "audio_bill \<Rightarrow> jsnum" where "ab_completionPrice b = num_prod [ab_modelRatio b, Fin 2, ab_completionRatio b]"

text \<open>Text and audio prices, for ratios \<open>completion\<close>, \<open>cache\<close>, \<open>audio\<close> and \<open>audioCompletion\<close>.\<close>

definition audio_textPrice :: "audio_bill \<Rightarrow> jsnum \<Rightarrow> jsnum \<Rightarrow> jsnum" where
  "audio_textPrice b completion cacheRatio =
     num_add (num_prod [num_div (num_add (num_sub (ab_input b) (ab_cache b)) (num_mul (ab_cache b) cacheRatio)) million, ab_inputPrice b, ab_ratio b])
       (num_prod [num_div (ab_completion b) million, num_prod [ab_modelRatio b, Fin 2, completion], ab_ratio b])"

definition audio_audioPrice :: "audio_bill \<Rightarrow> jsnum \<Rightarrow> jsnum \<Rightarrow> jsnum" where
  "audio_audioPrice b audioRatio audioCompletion =
     num_add (num_prod [num_div (ab_audioInput b) million, ab_inputPrice b, audioRatio, ab_ratio b])
       (num_prod [num_div (ab_audioOutput b) million, ab_inputPrice b, audioRatio, audioCompletion, ab_ratio b])"

definition audio_price_lines :: "translation \<Rightarrow> jsval \<times> jsval \<Rightarrow> audio_bill \<Rightarrow> jsstr list" where
  "audio_price_lines t currency b =
     (let ip = ab_inputPrice b; ar = ab_audioRatio b; acr = ab_audioCompletionRatio b; (symbol, rate) = currency;
          total = num_add (audio_textPrice b (ab_completionRatio b) (ab_cacheRatio b)) (audio_audioPrice b ar acr);
          show = (\<lambda>n. JStr (formatBillingDisplayPrice n rate))
      in [buildBillingPriceText t T_input_price currency ip ''price'' [],
          buildBillingPriceText t T_output_price currency (ab_completionPrice b) ''price'' [],
          line_if (positive (ab_cache b)) (buildBillingPriceText t T_cache_price currency (num_mul ip (ab_cacheRatio b)) ''price'' []),
          buildBillingPriceText t T_audio_input_price currency (num_mul ip ar) ''price'' [],
          buildBillingPriceText t T_audio_output_price currency (num_prod [ip, ar, acr]) ''price'' [],
          buildBillingText t T_audio_total
            ([(''input'', JNum (ab_input b)), (''completion'', JNum (ab_completion b)), (''audioInput'', JNum (ab_audioInput b)),
              (''audioCompletion'', JNum (ab_audioOutput b)), (''textInputPrice'', show ip), (''textCompPrice'', show (ab_completionPrice b)),
              (''audioInputPrice'', show (num_mul ar ip)), (''audioCompPrice'', show (num_prod [ar, acr, ip]))]
             @ ratio_vars (ab_group b) (ab_label b) @ [(''symbol'', symbol), (''total'', show total)])])"

definition audio_ratio_lines :: "translation \<Rightarrow> storage \<Rightarrow> audio_bill \<Rightarrow> jsstr list" where
  "audio_ratio_lines t ls b =
     (let mr = formatRatioValue (ab_modelRatio b); cr = formatRatioValue (ab_completionRatio b); car = formatRatioValue (ab_cacheRatio b);
          ar = formatRatioValue (ab_audioRatio b); acr = formatRatioValue (ab_audioCompletionRatio b);
          ip = ab_inputPrice b; gr = ab_ratio b; g = ab_group b; l = ab_label b; m = (''modelRatio'', mr);
          textPrice = audio_textPrice b cr car; audioPrice = audio_audioPrice b ar acr;
          plain = num_max (num_sub (ab_input b) (ab_cache b)) (Fin 0);
          cachePart = (if positive (ab_cache b) then t T_cache_ratio_word [] @ js '' '' @ number_to_string car @ zh_comma else [])
      in [buildBillingText t T_audio_ratios
            ([(''modelRatio'', JNum mr), (''completionRatio'', JNum cr), (''audioRatio'', JNum ar), (''audioCompletionRatio'', JNum acr),
              (''cachePart'', JStr cachePart)] @ ratio_vars g l),
          amount_line t ls T_plain_amount plain [m] g l (num_prod [num_div plain million, ip, gr]),
          line_if (positive (ab_cache b)) (amount_line t ls T_cache_amount (ab_cache b) [m, (''cacheRatio'', car)] g l
            (num_prod [num_div (ab_cache b) million, ip, car, gr])),
          amount_line t ls T_text_output_amount (ab_completion b) [m, (''completionRatio'', cr)] g l (num_prod [num_div (ab_completion b) million, ip, cr, gr]),
          amount_line t ls T_audio_amount (ab_audioInput b) [m, (''audioRatio'', ar)] g l (num_prod [num_div (ab_audioInput b) million, ip, ar, gr]),
          amount_line t ls T_audio_output_amount (ab_audioOutput b) [m, (''audioRatio'', ar), (''audioCompletionRatio'', acr)] g l
            (num_prod [num_div (ab_audioOutput b) million, ip, ar, acr, gr]),
          buildBillingText t T_audio_sum [(''textTotal'', renderDisplayAmountFromUsd ls textPrice), (''audioTotal'', renderDisplayAmountFromUsd ls audioPrice),
            (''total'', renderDisplayAmountFromUsd ls (num_add textPrice audioPrice))]])"

definition renderAudioModelPrice :: "translation \<Rightarrow> storage \<Rightarrow> variables \<Rightarrow> billing_view" where
  "renderAudioModelPrice t ls opts =
     (let b = audio_bill_of t opts; currency = getCurrencyConfig ls in
      if \<not> shouldUseRatioBillingProcess ls (ab_modelPrice b) then
        (if \<not> no_price (ab_modelPrice b)
         then per_call_article t currency T_model_price_call T_model_price_call_total (ab_modelPrice b) (ab_group b) (ab_label b)
         else renderBillingArticle t True (audio_price_lines t currency b))
      else if \<not> no_price (ab_modelPrice b) then per_call_text t currency T_model_price_total (ab_modelPrice b) (ab_group b) (ab_label b)
      else renderBillingArticle t True (audio_ratio_lines t ls b))"

section \<open>Claude models\<close>

record claude_bill =
  cb_input :: jsnum
  cb_completion :: jsnum
  cb_modelRatio :: jsnum
  cb_modelPrice :: jsnum
  cb_completionRatio :: jsnum
  cb_group :: jsval
  cb_label :: jsstr
  cb_cache :: jsnum
  cb_cacheRatio :: jsnum
  cb_creation :: jsnum
  cb_creationRatio :: jsnum
  cb_creation5m :: jsnum
  cb_creationRatio5m :: jsnum
  cb_creation1h :: jsnum
  cb_creationRatio1h :: jsnum

definition claude_bill_of :: "translation \<Rightarrow> variables \<Rightarrow> claude_bill" where
  "claude_bill_of t opts =
     (let (ratio, label) = getEffectiveRatio t (opt_val opts ''group_ratio'') (opt_val opts ''user_group_ratio'')
      in \<lparr>cb_input = opt_num opts ''prompt_tokens'' (Fin 0), cb_completion = opt_num opts ''completion_tokens'' (Fin 0),
          cb_modelRatio = opt_num opts ''model_ratio'' (Fin 0), cb_modelPrice = opt_num opts ''model_price'' (Fin (- 1)),
          cb_completionRatio = opt_or_zero opts ''completion_ratio'', cb_group = ratio, cb_label = label,
          cb_cache = opt_num opts ''cache_tokens'' (Fin 0), cb_cacheRatio = opt_num opts ''cache_ratio'' (Fin 1),
          cb_creation = opt_num opts ''cache_creation_tokens'' (Fin 0), cb_creationRatio = opt_num opts ''cache_creation_ratio'' (Fin 1),
          cb_creation5m = opt_num opts ''cache_creation_tokens_5m'' (Fin 0), cb_creationRatio5m = opt_num opts ''cache_creation_ratio_5m'' (Fin 1),
          cb_creation1h = opt_num opts ''cache_creation_tokens_1h'' (Fin 0), cb_creationRatio1h = opt_num opts ''cache_creation_ratio_1h'' (Fin 1)\<rparr>)"

definition cb_ratio :: "claude_bill \<Rightarrow> jsnum" where "cb_ratio b = js_to_number (cb_group b)"
definition cb_inputPrice :: "claude_bill \<Rightarrow> jsnum" where "cb_inputPrice b = num_mul (cb_modelRatio b) (Fin 2)"
definition cb_split :: "claude_bill \<Rightarrow> bool" where "cb_split b \<longleftrightarrow> positive (cb_creation5m b) \<or> positive (cb_creation1h b)"
definition cb_legacyTokens :: "claude_bill \<Rightarrow> jsnum" where "cb_legacyTokens b = (if cb_split b then Fin 0 else cb_creation b)"
definition cb_showLegacy :: "claude_bill \<Rightarrow> bool" where "cb_showLegacy b \<longleftrightarrow> \<not> cb_split b \<and> positive (cb_creation b)"
definition cb_show5m :: "claude_bill \<Rightarrow> bool" where "cb_show5m b \<longleftrightarrow> cb_split b \<and> positive (cb_creation5m b)"
definition cb_show1h :: "claude_bill \<Rightarrow> bool" where "cb_show1h b \<longleftrightarrow> cb_split b \<and> positive (cb_creation1h b)"

definition claude_price_total :: "claude_bill \<Rightarrow> jsnum" where
  "claude_price_total b =
     (let tokens = num_sum [cb_input b, num_mul (cb_cache b) (cb_cacheRatio b), num_mul (cb_legacyTokens b) (cb_creationRatio b),
            num_mul (cb_creation5m b) (cb_creationRatio5m b), num_mul (cb_creation1h b) (cb_creationRatio1h b)]
      in num_add (num_prod [num_div tokens million, cb_inputPrice b, cb_ratio b])
           (num_prod [num_div (cb_completion b) million, num_prod [cb_modelRatio b, Fin 2, cb_completionRatio b], cb_ratio b]))"

definition token_price :: "translation \<Rightarrow> jsval \<times> jsval \<Rightarrow> jsstr \<Rightarrow> string \<Rightarrow> jsnum \<Rightarrow> jsnum \<Rightarrow> jsstr" where
  "token_price t currency key name tokens usd =
     buildBillingText t key [(name, JNum tokens), (''symbol'', fst currency), (''price'', JStr (formatBillingDisplayPrice usd (snd currency)))]"

definition claude_breakdown :: "translation \<Rightarrow> jsval \<times> jsval \<Rightarrow> claude_bill \<Rightarrow> jsstr" where
  "claude_breakdown t currency b =
     (let unit = (\<lambda>r. num_prod [cb_modelRatio b, Fin 2, r]) in
      join (js '' + '')
        ([token_price t currency T_prompt_tokens ''input'' (cb_input b) (cb_inputPrice b)]
         @ (if positive (cb_cache b) then [token_price t currency T_cache_tokens ''tokens'' (cb_cache b) (unit (cb_cacheRatio b))] else [])
         @ (if cb_showLegacy b then [token_price t currency T_creation_tokens ''tokens'' (cb_creation b) (unit (cb_creationRatio b))] else [])
         @ (if cb_show5m b then [token_price t currency T_creation5m_tokens ''tokens'' (cb_creation5m b) (unit (cb_creationRatio5m b))] else [])
         @ (if cb_show1h b then [token_price t currency T_creation1h_tokens ''tokens'' (cb_creation1h b) (unit (cb_creationRatio1h b))] else [])
         @ [token_price t currency T_completion_tokens ''completion'' (cb_completion b) (unit (cb_completionRatio b))]))"

definition claude_price_lines :: "translation \<Rightarrow> jsval \<times> jsval \<Rightarrow> claude_bill \<Rightarrow> jsstr list" where
  "claude_price_lines t currency b =
     (let unit = (\<lambda>r. num_prod [cb_modelRatio b, Fin 2, r]); price = (\<lambda>key usd. buildBillingPriceText t key currency usd ''price'' []) in
      [price T_input_price (cb_inputPrice b), price T_output_price (unit (cb_completionRatio b)),
       line_if (positive (cb_cache b)) (price T_cache_price (unit (cb_cacheRatio b))),
       line_if (cb_showLegacy b) (price T_creation_price (unit (cb_creationRatio b))),
       line_if (cb_show5m b) (price T_creation5m_price (unit (cb_creationRatio5m b))),
       line_if (cb_show1h b) (price T_creation1h_price (unit (cb_creationRatio1h b))),
       buildBillingText t T_breakdown_total
         ([(''breakdown'', JStr (claude_breakdown t currency b))] @ ratio_vars (cb_group b) (cb_label b)
          @ [(''symbol'', fst currency), (''total'', JStr (formatBillingDisplayPrice (claude_price_total b) (snd currency)))])])"

text \<open>In ratios: the same sum with the ratios as they are shown.\<close>

definition claude_ratio_total :: "claude_bill \<Rightarrow> jsnum" where
  "claude_ratio_total b =
     (let tokens = num_sum [cb_input b, num_mul (cb_cache b) (formatRatioValue (cb_cacheRatio b)),
            num_mul (cb_legacyTokens b) (formatRatioValue (cb_creationRatio b)), num_mul (cb_creation5m b) (formatRatioValue (cb_creationRatio5m b)),
            num_mul (cb_creation1h b) (formatRatioValue (cb_creationRatio1h b))]
      in num_add (num_prod [num_div tokens million, cb_inputPrice b, cb_ratio b])
           (num_prod [num_div (cb_completion b) million, num_prod [cb_modelRatio b, Fin 2, formatRatioValue (cb_completionRatio b)], cb_ratio b]))"

definition claude_ratio_lines :: "translation \<Rightarrow> storage \<Rightarrow> claude_bill \<Rightarrow> jsstr list" where
  "claude_ratio_lines t ls b =
     (let mr = formatRatioValue (cb_modelRatio b); cr = formatRatioValue (cb_completionRatio b); car = formatRatioValue (cb_cacheRatio b);
          r = formatRatioValue (cb_creationRatio b); r5 = formatRatioValue (cb_creationRatio5m b); r1 = formatRatioValue (cb_creationRatio1h b);
          ip = cb_inputPrice b; gr = cb_ratio b; g = cb_group b; l = cb_label b; m = (''modelRatio'', mr);
          amount = (\<lambda>key tokens ratios rs. amount_line t ls key tokens (m # ratios) g l (num_prod ([num_div tokens million, ip] @ rs @ [gr])))
      in [buildBillingText t T_claude_ratios ([(''modelRatio'', JNum mr), (''completionRatio'', JNum cr), (''cacheRatio'', JNum car)] @ ratio_vars g l),
          (if cb_split b then buildBillingText t T_creation_ratio_both [(''cacheCreationRatio5m'', JNum r5), (''cacheCreationRatio1h'', JNum r1)]
           else buildBillingText t T_creation_ratio [(''cacheCreationRatio'', JNum r)]),
          amount T_plain_amount (cb_input b) [] [],
          line_if (positive (cb_cache b)) (amount T_cache_read_amount (cb_cache b) [(''cacheRatio'', car)] [car]),
          line_if (cb_showLegacy b) (amount T_creation_amount (cb_creation b) [(''cacheCreationRatio'', r)] [r]),
          line_if (cb_show5m b) (amount T_creation5m_amount (cb_creation5m b) [(''cacheCreationRatio5m'', r5)] [r5]),
          line_if (cb_show1h b) (amount T_creation1h_amount (cb_creation1h b) [(''cacheCreationRatio1h'', r1)] [r1]),
          buildBillingText t T_completion_tokens_ratio [(''completion'', JNum (cb_completion b)), (''completionRatio'', JNum cr)],
          amount T_output_amount (cb_completion b) [(''completionRatio'', cr)] [cr],
          buildBillingText t T_sum [(''total'', renderDisplayAmountFromUsd ls (claude_ratio_total b))]])"

definition renderClaudeModelPrice :: "translation \<Rightarrow> storage \<Rightarrow> variables \<Rightarrow> billing_view" where
  "renderClaudeModelPrice t ls opts =
     (let b = claude_bill_of t opts; currency = getCurrencyConfig ls in
      if \<not> shouldUseRatioBillingProcess ls (cb_modelPrice b) then
        (if \<not> no_price (cb_modelPrice b)
         then per_call_article t currency T_model_price_call T_model_price_call_total (cb_modelPrice b) (cb_group b) (cb_label b)
         else renderBillingArticle t True (claude_price_lines t currency b))
      else if \<not> no_price (cb_modelPrice b) then per_call_text t currency T_model_price_total (cb_modelPrice b) (cb_group b) (cb_label b)
      else renderBillingArticle t True (claude_ratio_lines t ls b))"

definition claude_log_prices :: "translation \<Rightarrow> storage \<Rightarrow> variables \<Rightarrow> jsval \<Rightarrow> jsstr list" where
  "claude_log_prices t ls opts groupRatio =
     (let currency = getCurrencyConfig ls; m = opt_num opts ''model_ratio'' NaN; two = Fin 2;
          t5 = positive (opt_num opts ''cache_creation_tokens_5m'' (Fin 0)); t1 = positive (opt_num opts ''cache_creation_tokens_1h'' (Fin 0));
          price = (\<lambda>r. price_var currency [m, two, r]); split = t5 \<or> t1;
          parts = [buildBillingText t T_log_input_price (price_var currency [m, two]),
                   buildBillingText t T_log_output_price (price (opt_num opts ''completion_ratio'' NaN)),
                   buildBillingText t T_log_cache_price (price (opt_num opts ''cache_ratio'' (Fin 1)))];
          parts = appendPricePart t (split \<and> t5) T_log_creation5m_price (price (opt_num opts ''cache_creation_ratio_5m'' (Fin 1))) parts;
          parts = appendPricePart t (split \<and> t1) T_log_creation1h_price (price (opt_num opts ''cache_creation_ratio_1h'' (Fin 1))) parts;
          parts = appendPricePart t (\<not> split) T_log_creation_price (price (opt_num opts ''cache_creation_ratio'' (Fin 1))) parts
      in parts @ [getGroupRatioText t groupRatio (opt_val opts ''user_group_ratio'')])"

definition claude_creation_part :: "translation \<Rightarrow> variables \<Rightarrow> jsstr" where
  "claude_creation_part t opts =
     (let t5 = positive (opt_num opts ''cache_creation_tokens_5m'' (Fin 0)); t1 = positive (opt_num opts ''cache_creation_tokens_1h'' (Fin 0));
          r5 = (''cacheCreationRatio5m'', JNum (opt_num opts ''cache_creation_ratio_5m'' (Fin 1)));
          r1 = (''cacheCreationRatio1h'', JNum (opt_num opts ''cache_creation_ratio_1h'' (Fin 1)));
          split = (if t5 \<and> t1 then buildBillingText t T_creation_ratio_both [r5, r1]
                   else if t5 then buildBillingText t T_creation5m_ratio [r5]
                   else if t1 then buildBillingText t T_creation1h_ratio [r1] else [])
      in if split = [] then buildBillingText t T_creation_ratio [(''cacheCreationRatio'', JNum (opt_num opts ''cache_creation_ratio'' (Fin 1)))] else split)"

text \<open>Here the effective ratio is given to \<open>getGroupRatioText\<close> as the group ratio.\<close>

definition renderClaudeLogContent :: "translation \<Rightarrow> storage \<Rightarrow> variables \<Rightarrow> jsstr" where
  "renderClaudeLogContent t ls opts =
     (let modelPrice = opt_num opts ''model_price'' (Fin (- 1));
          (groupRatio, label) = getEffectiveRatio t (opt_val opts ''group_ratio'') (opt_val opts ''user_group_ratio'')
      in if isPriceDisplayMode ls (opt_val opts ''displayMode'') modelPrice then
           (if \<not> no_price modelPrice then log_per_call t ls opts groupRatio else joinBillingSummary (claude_log_prices t ls opts groupRatio))
         else if \<not> no_price modelPrice then log_per_call_ratio t ls opts
         else join zh_comma
           [buildBillingText t T_model_ratio [(''modelRatio'', opt_val opts ''model_ratio'')],
            buildBillingText t T_output_ratio [(''completionRatio'', opt_val opts ''completion_ratio'')],
            buildBillingText t T_cache_ratio [(''cacheRatio'', JNum (opt_num opts ''cache_ratio'' (Fin 1)))],
            claude_creation_part t opts,
            buildBillingText t T_ratio_type (ratio_vars groupRatio label)])"

end
