(* ===== verification/JsFixed.thy ===== *)
theory JsFixed
  imports JsDecimal
begin

text \<open>
  Numbers with a fixed number of digits after the point: what \<open>toFixed\<close> writes is read back by \<open>Number\<close> and \<open>parseFloat\<close> as the
  nearest multiple of the last digit's unit, and the double nearest to such a multiple is written as that multiple.
\<close>

definition nearest_units :: "int \<Rightarrow> rat \<Rightarrow> int" where
  "nearest_units f a = \<lfloor>a * pow10 f + 1/2\<rfloor>"

lemma nearest_units_of_int: "nearest_units f (of_int n * pow10 (- f)) = n"
proof -
  have "pow10 (- f) * pow10 f = 1" by (simp flip: pow10_add) (simp add: pow10_def)
  then have "of_int n * pow10 (- f) * pow10 f = of_int n" by (simp only: mult.assoc mult_1_right)
  then have "nearest_units f (of_int n * pow10 (- f)) = \<lfloor>of_int n + 1/2 :: rat\<rfloor>" by (simp only: nearest_units_def)
  also have "\<dots> = n" by linarith
  finally show ?thesis .
qed

lemma nearest_units_nonneg: "0 \<le> a \<Longrightarrow> 0 \<le> nearest_units f a"
  by (simp add: nearest_units_def) (metis add_increasing less_imp_le pow10_pos mult_nonneg_nonneg zero_le_divide_1_iff zero_le_numeral)

lemma fixed_pos_cong: "nearest_units f a = nearest_units f b \<Longrightarrow> fixed_pos f a = fixed_pos f b"
  by (simp add: fixed_pos_def nearest_units_def)

lemma fixed_pos_parts:
  assumes f: "0 < f" and a: "0 \<le> a"
  obtains ip fp where "fixed_pos f a = ip @ 46 # fp" and "ip \<noteq> []" and "\<forall>c \<in> set ip. is_digit c" and "\<forall>c \<in> set fp. is_digit c"
    and "length fp = nat f" and "digits_val (ip @ fp) = nearest_units f a"
proof -
  define m where "m = nearest_units f a"
  define z where "z = zeros (f + 1 - int (length (show_nat m))) @ show_nat m"
  define k where "k = length z - nat f"
  have m: "0 \<le> m" using nearest_units_nonneg [OF a] by (simp add: m_def)
  have z: "digits_val z = m" using m by (simp add: z_def digits_val_append)
  have dig: "\<forall>c \<in> set z. is_digit c" using m show_nat_digits zeros_digits by (auto simp: z_def)
  have len: "nat f < length z" using f by (simp add: z_def)
  then have "take k z \<noteq> []" "length (drop k z) = nat f" by (auto simp: k_def)
  moreover have "fixed_pos f a = take k z @ 46 # drop k z"
    using f by (simp add: fixed_pos_def k_def z_def m_def nearest_units_def Let_def js_def)
  moreover have "\<forall>c \<in> set (take k z). is_digit c" "\<forall>c \<in> set (drop k z). is_digit c"
    using dig in_set_takeD in_set_dropD by fast+
  ultimately show ?thesis using z m_def by (intro that [of "take k z" "drop k z"]) auto
qed

lemma take_decimal_fixed:
  assumes "ip \<noteq> []" and "\<forall>c \<in> set ip. is_digit c" and "\<forall>c \<in> set fp. is_digit c"
  shows "take_decimal (ip @ 46 # fp) = Some (of_int (digits_val (ip @ fp)) * pow10 (- int (length fp)), [])"
proof -
  have "\<not> is_digit 46" by (simp add: is_digit_def)
  then have ip: "takeWhile is_digit (ip @ 46 # fp) = ip" "dropWhile is_digit (ip @ 46 # fp) = 46 # fp"
    using assms by (auto simp: takeWhile_append2 dropWhile_append2)
  have "takeWhile is_digit fp = fp" using assms(3) by (simp add: takeWhile_eq_all_conv)
  moreover have "dropWhile is_digit fp = []" using assms(3) by simp
  ultimately show ?thesis unfolding take_decimal_def ip using assms(1) by (simp add: Let_def take_exponent_def del: takeWhile_eq_all_conv dropWhile_eq_Nil_conv)
qed

text \<open>Reading what \<open>toFixed\<close> wrote.\<close>

lemma fixed_pos_reads:
  assumes f: "0 < f" and a: "0 \<le> a"
  shows "string_to_number (fixed_pos f a) = rnd (of_int (nearest_units f a) * pow10 (- f))"
    and "parseFloat (fixed_pos f a) = rnd (of_int (nearest_units f a) * pow10 (- f))"
proof -
  obtain ip fp where s: "fixed_pos f a = ip @ 46 # fp" "ip \<noteq> []" "\<forall>c \<in> set ip. is_digit c" "\<forall>c \<in> set fp. is_digit c"
    and v: "length fp = nat f" "digits_val (ip @ fp) = nearest_units f a" using fixed_pos_parts [OF f a] by blast
  let ?s = "ip @ 46 # fp"
  have dec: "take_decimal ?s = Some (of_int (nearest_units f a) * pow10 (- f), [])"
    using take_decimal_fixed [OF s(2-4)] v f by simp
  have u: "\<forall>c \<in> set ?s. num_unit c" using s(3,4) by (auto simp: num_unit_def)
  have "num_unit c \<Longrightarrow> \<not> js_ws c" for c by (auto simp: num_unit_def is_digit_def js_ws_def)
  with u have ws: "\<forall>c \<in> set ?s. \<not> js_ws c" by blast
  obtain c r where c: "?s = c # r" "is_digit c" using s(2,3) by (cases ip) auto
  have sign: "take_sign ?s = (False, ?s)" unfolding c(1) using c(2) by (auto simp: is_digit_def)
  have trim: "trim ?s = ?s" using ws by (intro trim_no_ws) auto
  have start: "trimStart ?s = ?s" unfolding c(1) using ws c by (simp add: trimStart_def)
  have radix: "\<not> startsWith ?s (js [c, d])" if "\<not> num_unit (of_char d)" for c d
  proof
    assume "startsWith ?s (js [c, d])"
    then obtain r where "?s = of_char c # of_char d # r" by (auto simp: startsWith_iff js_def)
    then have "of_char d \<in> set ?s" by (simp only: list.set_intros)
    then show False using u that by blast
  qed
  have noninf: "\<not> startsWith ?s (js ''Infinity'')"
    unfolding c(1) using c(2) by (auto simp: startsWith_iff js_def is_digit_def)
  then have "?s \<noteq> js ''Infinity''" by (auto simp: startsWith_iff)
  then show "string_to_number (fixed_pos f a) = rnd (of_int (nearest_units f a) * pow10 (- f))"
    unfolding s(1) using dec sign trim radix by (simp add: string_to_number_def num_unit_def is_digit_def Let_def)
  show "parseFloat (fixed_pos f a) = rnd (of_int (nearest_units f a) * pow10 (- f))"
    unfolding s(1) parseFloat_def start sign using dec noninf by simp
qed

text \<open>Rounding to a double changes a number of the normal range by at most a part in \<open>2 ^ 53\<close>.\<close>

lemma rnd_relative:
  assumes lo: "pow2 (-1022) \<le> a" and hi: "a \<le> pow2 1022"
  shows "\<exists>r. rnd a = Fin r \<and> 0 < r \<and> \<bar>r - a\<bar> \<le> a / 2 ^ 53"
proof -
  have a: "0 < a" using lo pow2_pos [of "-1022"] by linarith
  let ?e = "ulp_exp a" and ?r = "rnd_mag a"
  have b: "pow2 (ilog2 a) \<le> a" "a < pow2 (ilog2 a + 1)" using ilog2_bounds [OF a] by auto
  have "-1022 < ilog2 a + 1" using lo b(2) by (metis le_less_trans pow2_less_iff)
  then have e: "?e = ilog2 a - 52" by (simp add: ulp_exp_def)
  have "?r - a = (of_int (rne (a / pow2 ?e)) - a / pow2 ?e) * pow2 ?e" by (simp add: rnd_mag_def Let_def left_diff_distrib)
  then have "\<bar>?r - a\<bar> = \<bar>of_int (rne (a / pow2 ?e)) - a / pow2 ?e\<bar> * pow2 ?e" by (simp add: abs_mult less_imp_le)
  also have "\<dots> \<le> 1/2 * pow2 ?e" by (intro mult_right_mono rne_near) (simp add: less_imp_le)
  also have "\<dots> = pow2 (ilog2 a) / 2 ^ 53" by (simp add: e pow2_diff) (simp add: pow2_def)
  also have "\<dots> \<le> a / 2 ^ 53" using b(1) by (simp add: field_simps)
  finally have near: "\<bar>?r - a\<bar> \<le> a / 2 ^ 53" .
  have "a / 2 ^ 53 < a" using a by simp
  with near have r: "0 < ?r" "?r \<le> 2 * a" by linarith+
  have "2 * a \<le> pow2 1023" using hi by (simp add: pow2_def)
  also have "\<dots> < pow2 1024" by (simp add: pow2_less_iff)
  finally have "?r < pow2 1024" using r(2) by linarith
  then show ?thesis using a r(1) near rnd_pos [OF a refl r(1)] by blast
qed

text \<open>Rounding a rounded number changes nothing.\<close>

lemma rnd_mag_dyadic:
  assumes a: "0 < a" and r: "rnd_mag a \<noteq> 0"
  shows "dyadic53 (rnd_mag a)"
proof -
  let ?e = "ulp_exp a" and ?n = "rne (a / pow2 (ulp_exp a))"
  have m: "rnd_mag a = of_int ?n * pow2 ?e" by (simp add: rnd_mag_def Let_def)
  have "a / pow2 ?e \<le> of_int (2 ^ 53)" using ulp_bound [OF a] by (simp add: field_simps)
  then have hi: "?n \<le> 2 ^ 53" by (rule rne_le_int)
  have "0 \<le> ?n" using a by (intro rne_ge_int) (simp add: less_imp_le)
  then have lo: "0 < ?n" using m r by (cases "?n = 0") auto
  have e: "- 1074 \<le> ?e" by (simp add: ulp_exp_def)
  show ?thesis
  proof (cases "?n = 2 ^ 53")
    case True
    then have "rnd_mag a = of_int 1 * pow2 (?e + 53)" unfolding m pow2_add by (simp add: pow2_def)
    then show ?thesis unfolding dyadic53_def using e by (intro exI [of _ 1] exI [of _ "?e + 53"]) simp
  next
    case False
    then show ?thesis unfolding dyadic53_def using m lo hi e by (intro exI [of _ ?n] exI [of _ ?e]) simp
  qed
qed

lemma rnd_idem:
  assumes "rnd x = Fin q"
  shows "rnd q = Fin q"
proof (cases "q = 0")
  case False
  let ?m = "rnd_mag \<bar>x\<bar>"
  have x: "x \<noteq> 0" and m: "?m \<noteq> 0" "?m < pow2 1024" "\<bar>q\<bar> = \<bar>?m\<bar>"
    using assms False by (auto simp: rnd_def Let_def split: if_splits)
  have d: "dyadic53 ?m" using x m(1) by (intro rnd_mag_dyadic) auto
  then have "0 < ?m" by (auto simp: dyadic53_def)
  then show ?thesis using rnd_mag_exact [OF d] m False by (auto simp: rnd_def Let_def abs_if split: if_splits)
qed (simp add: rnd_def)

text \<open>Fewer than \<open>2 ^ 52\<close> units of the last digit are written as they are, and read back as the same double.\<close>

lemma pow10_ge_pow2: "pow2 (- int (4 * n)) \<le> pow10 (- int n)"
proof -
  have "(10 :: rat) ^ n \<le> (2 ^ 4) ^ n" by (rule power_mono) simp_all
  also have "\<dots> = 2 ^ (4 * n)" by (simp only: power_mult)
  finally have le: "(10 :: rat) ^ n \<le> 2 ^ (4 * n)" .
  have "1 / 2 ^ (4 * n) \<le> (1 / 10 ^ n :: rat)"
    by (rule divide_left_mono [OF le]) simp_all
  moreover have "pow2 (- int k) = 1 / 2 ^ k" "pow10 (- int k) = 1 / 10 ^ k" for k by (simp_all add: pow2_def pow10_def)
  ultimately show ?thesis by (simp only:)
qed

lemma pow10_ge_normal:
  assumes "f \<le> 100"
  shows "pow2 (-1022) \<le> pow10 (- f)"
proof -
  define n where "n = nat (max f 0)"
  have n: "int n \<le> 100" "f \<le> int n" using assms by (auto simp: n_def)
  have "pow2 (-1022) \<le> pow2 (- int (4 * n))" using n(1) by (intro pow2_mono) simp
  also have "\<dots> \<le> pow10 (- int n)" by (rule pow10_ge_pow2)
  also have "\<dots> \<le> pow10 (- f)" using n(2) by (intro pow10_mono) simp
  finally show ?thesis .
qed

lemma units_double:
  assumes f: "0 < f" "f \<le> 100" and n: "0 < n" "n < 2 ^ 52"
  shows "\<exists>r. rnd (of_int n * pow10 (- f)) = Fin r \<and> 0 < r \<and> nearest_units f r = n \<and> r < 2 ^ 53"
proof -
  let ?a = "of_int n * pow10 (- f)"
  have inv: "pow10 (- f) * pow10 f = 1" by (simp flip: pow10_add) (simp add: pow10_def)
  have "(of_int n :: rat) < of_int (2 ^ 52)" using n(2) by (simp only: of_int_less_iff)
  with n(1) have n1: "(1 :: rat) \<le> of_int n" "(of_int n :: rat) < 2 ^ 52" by simp_all
  have "pow2 (-1022) \<le> pow10 (- f)" using f(2) by (rule pow10_ge_normal)
  also have "\<dots> \<le> ?a" using n1(1) by simp
  finally have lo: "pow2 (-1022) \<le> ?a" .
  have "pow10 (- f) \<le> pow10 0" using f(1) by (intro pow10_mono) simp
  then have a52: "?a \<le> 2 ^ 52" using n1 mult_mono [of "of_int n" "2 ^ 52" "pow10 (- f)" 1] by (simp add: pow10_def [of 0] less_imp_le)
  have "pow2 52 \<le> pow2 1022" by (intro pow2_mono) simp
  moreover have "pow2 52 = 2 ^ 52" by (simp add: pow2_def)
  ultimately have "2 ^ 52 \<le> pow2 1022" by simp
  then have hi: "?a \<le> pow2 1022" using a52 order_trans by fast
  obtain r where r: "rnd ?a = Fin r" "0 < r" "\<bar>r - ?a\<bar> \<le> ?a / 2 ^ 53" using rnd_relative [OF lo hi] by blast
  have "(r - ?a) * pow10 f = r * pow10 f - of_int n" using inv by (simp add: left_diff_distrib mult.assoc)
  then have "\<bar>r * pow10 f - of_int n\<bar> = \<bar>r - ?a\<bar> * pow10 f" by (metis abs_mult abs_of_pos pow10_pos)
  also have "\<dots> \<le> ?a / 2 ^ 53 * pow10 f" using r(3) by (intro mult_right_mono) (simp_all add: less_imp_le)
  also have "\<dots> = of_int n / 2 ^ 53" using inv by simp
  also have "\<dots> < 1/2" using n1(2) by simp
  finally have "nearest_units f r = n" unfolding nearest_units_def by linarith
  moreover have "r - ?a \<le> ?a / 2 ^ 53" using r(3) abs_ge_self order_trans by blast
  then have "r < 2 ^ 53" using a52 by simp
  ultimately show ?thesis using r by blast
qed

lemma below_fixed: "r < 2 ^ 53 \<Longrightarrow> 0 \<le> r \<Longrightarrow> \<not> pow10 21 \<le> \<bar>r\<bar>"
  by (simp add: pow10_def)

lemma toFixed_units:
  assumes "0 < f" "f \<le> 100" "0 \<le> n" "n < 2 ^ 52"
  shows "toFixed f (rnd (of_int n * pow10 (- f))) = fixed_pos f (of_int n * pow10 (- f))"
proof (cases "n = 0")
  case False
  then obtain r where r: "rnd (of_int n * pow10 (- f)) = Fin r" "0 < r" "nearest_units f r = n" "r < 2 ^ 53"
    using units_double [OF assms(1,2)] assms(3,4) by (metis order_le_less)
  then have "fixed_pos f r = fixed_pos f (of_int n * pow10 (- f))" by (intro fixed_pos_cong) (simp add: nearest_units_of_int)
  then show ?thesis using r below_fixed [of r] by simp
qed (simp add: rnd_def pow10_def)

theorem fixed_roundtrip:
  assumes "0 < f" "f \<le> 100" "0 \<le> n" "n < 2 ^ 52"
  shows "string_to_number (toFixed f (rnd (of_int n * pow10 (- f)))) = rnd (of_int n * pow10 (- f))"
  unfolding toFixed_units [OF assms] using assms by (simp add: fixed_pos_reads(1) nearest_units_of_int less_imp_le)

end
