(* ===== verification/BillingFacts.thy ===== *)
theory BillingFacts
  imports BillingProviders JsFixed
begin

text \<open>
  What the price displays show: a positive quota never shows as zero, the two conversions of an amount agree, the texts and the
  segments of the short form name the same prices, and the totals of the billing processes.
\<close>

section \<open>Quotas\<close>

lemma quota_text_units:
  assumes v: "0 < v" "v < pow10 21" and q: "positive quota" and d: "0 < digits" "digits \<le> 100"
  shows "quota_text quota (Fin v) digits = fixed_pos digits (of_int (max 1 (nearest_units digits v)) * pow10 (- digits))"
proof -
  let ?n = "nearest_units digits v" and ?unit = "pow10 (- digits)"
  have n0: "0 \<le> ?n" using v(1) by (intro nearest_units_nonneg) simp
  have fixed: "toFixed digits (Fin v) = fixed_pos digits (of_int ?n * ?unit)"
    using v fixed_pos_cong [of digits v "of_int ?n * ?unit"] by (simp add: nearest_units_of_int)
  have read: "parseFloat (toFixed digits (Fin v)) = rnd (of_int ?n * ?unit)"
    unfolding fixed using fixed_pos_reads(2) [OF d(1), of "of_int ?n * ?unit"] n0 by (simp add: nearest_units_of_int less_imp_le)
  have val: "positive (Fin v)" using v(1) by (simp add: positive_def)
  show ?thesis
  proof (cases "?n = 0")
    case True
    then have "parseFloat (toFixed digits (Fin v)) = Fin 0" unfolding read by (simp add: rnd_def)
    then have "quota_text quota (Fin v) digits = toFixed digits (rnd ?unit)"
      using q val by (simp add: quota_text_def num_eq_def Let_def del: toFixed.simps)
    then show ?thesis using True toFixed_units [OF d, of 1] by simp
  next
    case False
    then have n1: "1 \<le> ?n" using n0 by simp
    have "\<not> num_is_zero (rnd (of_int ?n * ?unit))"
    proof -
      have "pow2 (- 1022) \<le> ?unit" using d(2) by (rule pow10_ge_normal)
      also have "\<dots> \<le> of_int ?n * ?unit" using n1 by simp
      finally have lo: "pow2 (- 1022) \<le> of_int ?n * ?unit" .
      have "dyadic53 (pow2 (- 1022))" unfolding dyadic53_def by (rule exI [of _ 1], rule exI [of _ "- 1022"]) simp
      then have "pow2 (- 1022) \<le> rnd_mag (of_int ?n * ?unit)" using lo by (rule rnd_mag_ge)
      then have "0 < rnd_mag (of_int ?n * ?unit)" using pow2_pos less_le_trans by blast
      moreover have "0 < of_int ?n * ?unit" using lo pow2_pos less_le_trans by blast
      ultimately show ?thesis by (auto simp: num_is_zero_def rnd_def Let_def)
    qed
    then have "quota_text quota (Fin v) digits = toFixed digits (Fin v)"
      unfolding quota_text_def Let_def read by (auto simp: num_eq_def num_is_zero_def)
    then show ?thesis using fixed n1 by simp
  qed
qed

text \<open>
  C35: a positive quota whose amount is below \<open>10 ^ 21\<close> is shown with the nearest multiple of the last shown digit, and never with less than one
  unit of it: what was spent is not displayed as zero.
\<close>

theorem positive_quota_shown:
  assumes "getQuotaDisplayType ls \<noteq> TOKENS" and "positive quota" and "quota_value ls quota = (sign, Fin v)"
    and "0 < v" and "v < pow10 21" and "0 < digits" and "digits \<le> 100"
  shows "renderQuota ls quota digits
    = JStr (js_to_string sign @ fixed_pos digits (of_int (max 1 (nearest_units digits v)) * pow10 (- digits)))"
  using assms quota_text_units [of v quota digits] by (simp add: renderQuota_def)

lemma num_mul_one: "num_mul (num_div a b) (Fin 1) = num_div a b"
proof (cases "num_div a b")
  case (Fin q)
  then obtain x where "rnd x = Fin q \<or> q = 0" by (auto simp: num_div_def Let_def signed_zero_def split: if_splits)
  then have "rnd q = Fin q" using rnd_idem by (auto simp: rnd_def [of 0])
  then show ?thesis using Fin by (auto simp: num_mul_def signed_zero_def Let_def)
qed (simp_all add: num_mul_def signed_zero_def num_is_zero_def)

text \<open>The status has what the display type needs: a rate for CNY, anything for a currency of one's own.\<close>

definition rate_known :: "storage \<Rightarrow> bool" where
  "rate_known ls \<longleftrightarrow> (getQuotaDisplayType ls = CNY \<longrightarrow>
       (case stored_status ls of None \<Rightarrow> True | Some s \<Rightarrow> truthy (prop_opt s (js ''usd_exchange_rate''))))
     \<and> (getQuotaDisplayType ls = CUSTOM \<longrightarrow> stored_status ls \<noteq> None)"

lemma quota_value_config:
  assumes "rate_known ls" and "getCurrencyConfig ls = (sign, rate)"
  shows "quota_value ls quota = (sign, num_mul (num_div quota (getQuotaPerUnit ls)) (js_to_number rate))"
  using assms
  by (auto simp: quota_value_def getCurrencyConfig_def rate_known_def status_or_def custom_symbol_def js_or_def num_mul_one Let_def
      split: if_splits option.splits)

text \<open>
  The two ways to an amount in the chosen currency, \<open>renderQuota\<close> and \<open>convertUSDToCurrency\<close>, give the same text for a quota and its
  value in dollars, unless the text would be zero or the status lacks the exchange rate.
\<close>

theorem quota_shown_as_amount:
  assumes "getQuotaDisplayType ls \<noteq> TOKENS" and "rate_known ls"
    and "\<not> num_eq (parseFloat (toFixed digits (snd (quota_value ls quota)))) (Fin 0)"
  shows "renderQuota ls quota digits = JStr (convertUSDToCurrency ls (num_div quota (getQuotaPerUnit ls)) digits)"
proof -
  obtain sign rate where c: "getCurrencyConfig ls = (sign, rate)" by (cases "getCurrencyConfig ls")
  show ?thesis
    using assms(1,3) c by (simp add: renderQuota_def convertUSDToCurrency_def quota_value_config [OF assms(2) c] quota_text_def Let_def)
qed

text \<open>
  Without the exchange rate in the status the two ways disagree: prices are converted with the rate 7, quotas with the rate 1.
\<close>

theorem yuan_rates_differ:
  assumes "getQuotaDisplayType ls = CNY" and "stored_status ls = Some s" and "\<not> truthy (prop_opt s (js ''usd_exchange_rate''))"
  shows "getCurrencyConfig ls = (JStr yuan_sign, JNum (Fin 7))"
    and "quota_value ls quota = (JStr yuan_sign, num_div quota (getQuotaPerUnit ls))"
  using assms by (simp_all add: getCurrencyConfig_def quota_value_def status_or_def js_or_def num_mul_one)

section \<open>The short form\<close>

lemma price_segments_parts: "price_segments t ls p = map (Pair Secondary) (price_parts t ls p)"
  by (simp add: price_segments_def price_parts_def Let_def)

text \<open>
  In prices the text of the short form is made of the texts of its segments: those of the prices in their order, then the group ratio.
\<close>

theorem short_forms_agree:
  assumes "no_price (sp_modelPrice p)" and "isPriceDisplayMode ls (sp_displayMode p) (sp_modelPrice p)"
  shows "simple_text t ls p
    = joinBillingSummary (map snd (filter (\<lambda>s. fst s = Secondary) (simple_segments t ls p)) @ [snd (hd (simple_segments t ls p))]) @ override_note t p"
  using assms by (simp add: simple_segments_def simple_text_def price_segments_parts filter_map o_def split_def)

section \<open>Totals\<close>

text \<open>
  With an image among the input the total does not depend on the cached tokens nor their ratio, although their price is shown as a line.
\<close>

theorem image_ignores_cache:
  assumes "mb_hasImage b"
  shows "model_price_total (b\<lparr>mb_cache := c, mb_cacheRatio := r\<rparr>) = model_price_total b"
  using assms
  by (simp add: model_price_total_def effectiveInputTokens_def mb_hasImage_def mb_ratio_def mb_inputPrice_def mb_completionPrice_def Let_def)

section \<open>Ratios\<close>

lemma formatRatioValue_units:
  assumes "0 \<le> n" "n < 2 ^ 52"
  shows "formatRatioValue (rnd (of_int n * pow10 (- 6))) = rnd (of_int n * pow10 (- 6))"
proof -
  have "num_is_finite (rnd (of_int n * pow10 (- 6)))"
  proof (cases "n = 0")
    case False
    then show ?thesis using units_double [of 6 n] assms by auto
  qed (simp add: rnd_def)
  then show ?thesis using fixed_roundtrip [of 6 n] assms by (simp add: formatRatioValue_def)
qed

definition six_decimals :: "jsnum \<Rightarrow> bool" where
  "six_decimals r \<longleftrightarrow> (\<exists>n. 0 \<le> n \<and> n < 2 ^ 52 \<and> r = rnd (of_int n * pow10 (- 6)))"

lemma formatRatioValue_six: "six_decimals r \<Longrightarrow> formatRatioValue r = r"
  using formatRatioValue_units by (auto simp: six_decimals_def)

text \<open>
  The total of the billing process of a Claude model is the same in ratios as in prices, for ratios with up to six decimals: rounding a
  ratio for the display loses nothing there.
\<close>

theorem claude_totals_agree:
  assumes "\<forall>r \<in> {cb_completionRatio b, cb_cacheRatio b, cb_creationRatio b, cb_creationRatio5m b, cb_creationRatio1h b}. six_decimals r"
  shows "claude_ratio_total b = claude_price_total b"
  using assms by (simp add: claude_ratio_total_def claude_price_total_def formatRatioValue_six)

section \<open>Examples\<close>

definition dollar_storage :: storage where
  "dollar_storage = empty_storage\<lparr>items := [js ''quota_per_unit'' \<mapsto> js ''500000'']\<rparr>"

lemma dollar_storage_facts:
  "getQuotaDisplayType dollar_storage = USD" "getQuotaPerUnit dollar_storage = Fin 500000" "rate_known dollar_storage"
proof -
  show t: "getQuotaDisplayType dollar_storage = USD"
    by (simp add: getQuotaDisplayType_def dollar_storage_def getItem_def empty_storage_def js_def)
  show "rate_known dollar_storage" by (simp add: rate_known_def t display_types js_def)
  have "parseFloat (js ''500000'') = rnd (of_int 500000)"
    by (simp add: parseFloat_def js_def trimStart_def js_ws_def take_decimal_def is_digit_def take_exponent_def digits_val_def pow10_def)
  also have "\<dots> = Fin 500000" by (subst rnd_of_int) simp_all
  finally show "getQuotaPerUnit dollar_storage = Fin 500000"
    by (simp add: getQuotaPerUnit_def dollar_storage_def getItem_def js_def)
qed

text \<open>One unit of quota is two millionths of a dollar and shows as a cent.\<close>

theorem positive_quota_shown_witness: "renderQuota dollar_storage (Fin 1) 2 = JStr (js ''$0.01'')"
proof -
  obtain v where v: "rnd (of_int 2 * pow10 (- 6)) = Fin v" "0 < v" "nearest_units 6 v = 2" "v < 2 ^ 53"
    using units_double [of 6 2] by auto
  have "v * 10 ^ 6 < 3" using v(3) by (simp add: nearest_units_def pow10_def) linarith
  then have n: "nearest_units 2 v = 0" "v < pow10 21" using v(2) by (auto simp: nearest_units_def pow10_def floor_eq_iff)
  have "num_div (Fin 1) (Fin 500000) = rnd (of_int 2 * pow10 (- 6))" by (simp add: num_div_def num_is_zero_def pow10_def)
  then have q: "quota_value dollar_storage (Fin 1) = (JStr (js ''$''), Fin v)"
    using v(1) by (simp add: quota_value_def dollar_storage_facts display_types js_def)
  have "renderQuota dollar_storage (Fin 1) 2 = JStr (js_to_string (JStr (js ''$'')) @ fixed_pos 2 (of_int (max 1 (nearest_units 2 v)) * pow10 (- 2)))"
    by (rule positive_quota_shown [OF _ _ q v(2) n(2)]) (simp_all add: dollar_storage_facts display_types js_def positive_def)
  moreover have "fixed_pos 2 (of_int 1 * pow10 (- 2)) = js ''0.01''" by code_simp
  ultimately show ?thesis using n(1) by (simp add: js_def)
qed

theorem quota_shown_as_amount_witness:
  "renderQuota dollar_storage (Fin 500000) 2 = JStr (convertUSDToCurrency dollar_storage (Fin 1) 2)"
proof -
  have one: "num_div (Fin 500000) (Fin 500000) = Fin 1" using rnd_of_int [of 1] by (simp add: num_div_def num_is_zero_def)
  have "parseFloat (toFixed 2 (Fin 1)) = Fin 1"
    using fixed_pos_reads(2) [of 2 1] rnd_of_int [of 1] nearest_units_of_int [of 2 100] by (simp add: pow10_def)
  then have "\<not> num_eq (parseFloat (toFixed 2 (snd (quota_value dollar_storage (Fin 500000))))) (Fin 0)"
    by (simp add: quota_value_def dollar_storage_facts display_types js_def one num_eq_def num_is_zero_def del: toFixed.simps)
  from quota_shown_as_amount [OF _ dollar_storage_facts(3) this] show ?thesis
    by (simp add: dollar_storage_facts display_types js_def one)
qed

definition sample_bill :: claude_bill where
  "sample_bill = \<lparr>cb_input = Fin 1000, cb_completion = Fin 200, cb_modelRatio = Fin 2, cb_modelPrice = Fin (- 1), cb_completionRatio = Fin 5,
     cb_group = JNum (Fin 1), cb_label = [], cb_cache = Fin 300, cb_cacheRatio = rnd (1 / 10), cb_creation = Fin 0, cb_creationRatio = Fin 1,
     cb_creation5m = Fin 100, cb_creationRatio5m = rnd (125 / 100), cb_creation1h = Fin 0, cb_creationRatio1h = Fin 2\<rparr>"

lemma six_decimals_int: "0 \<le> n \<Longrightarrow> n < 4000 \<Longrightarrow> six_decimals (Fin (of_int n))"
  unfolding six_decimals_def using rnd_of_int [of n] by (intro exI [of _ "n * 1000000"]) (simp add: pow10_def)

lemma six_decimals_tenth: "six_decimals (rnd (1 / 10))" "six_decimals (rnd (125 / 100))"
  unfolding six_decimals_def by (rule exI [of _ 100000], simp add: pow10_def) (rule exI [of _ 1250000], simp add: pow10_def)

theorem claude_totals_agree_witness: "claude_ratio_total sample_bill = claude_price_total sample_bill"
  by (rule claude_totals_agree)
    (use six_decimals_int [of 5] six_decimals_int [of 1] six_decimals_int [of 2] six_decimals_tenth in \<open>simp add: sample_bill_def\<close>)

end
