(* ===== verification/RatioSync.thy ===== *)
theory RatioSync
  imports JsDecimal
begin

text \<open>
  The page \<open>src/web/src/pages/Setting/Ratio/UpstreamRatioSync.jsx\<close>: prices of other services are fetched, the differences are shown in a
  table with a column for each service, values are selected in it, and the selection is written into the options. The lower-case
  conversion and the translation function are arguments, the answers of the server are inputs.
\<close>

section \<open>Fields\<close>

definition OFFICIAL_RATIO_PRESET_ID :: jsval where "OFFICIAL_RATIO_PRESET_ID = JNum (Fin (- 100))"
definition OFFICIAL_RATIO_PRESET_NAME :: jsval where "OFFICIAL_RATIO_PRESET_NAME = JStr [23448, 26041, 20493, 29575, 39044, 35774]"
definition OFFICIAL_RATIO_PRESET_BASE_URL :: jsval where "OFFICIAL_RATIO_PRESET_BASE_URL = JStr (js ''https://basellm.github.io'')"
definition OFFICIAL_RATIO_PRESET_ENDPOINT :: jsval where
  "OFFICIAL_RATIO_PRESET_ENDPOINT = JStr (js ''/llm-metadata/api/newapi/ratio_config-v1-base.json'')"
definition MODELS_DEV_PRESET_ID :: jsval where "MODELS_DEV_PRESET_ID = JNum (Fin (- 101))"
definition MODELS_DEV_PRESET_NAME :: jsval where "MODELS_DEV_PRESET_NAME = JStr (js ''models.dev '' @ [20215, 26684, 39044, 35774])"
definition MODELS_DEV_PRESET_BASE_URL :: jsval where "MODELS_DEV_PRESET_BASE_URL = JStr (js ''https://models.dev'')"
definition MODELS_DEV_PRESET_ENDPOINT :: jsval where "MODELS_DEV_PRESET_ENDPOINT = JStr (js ''https://models.dev/api.json'')"
definition DEFAULT_ENDPOINT :: jsval where "DEFAULT_ENDPOINT = JStr (js ''/api/pricing'')"

definition model_price :: jsstr where "model_price = js ''model_price''"
definition billing_mode :: jsstr where "billing_mode = js ''billing_mode''"
definition billing_expr :: jsstr where "billing_expr = js ''billing_expr''"

definition ratioSyncFields :: "jsstr list" where
  "ratioSyncFields = map js [''model_ratio'', ''completion_ratio'', ''cache_ratio'', ''create_cache_ratio'', ''image_ratio'', ''audio_ratio'',
     ''audio_completion_ratio'']"

definition numericSyncFields :: "jsstr list" where
  "numericSyncFields = ratioSyncFields @ [model_price]"

definition syncFieldOrder :: "jsstr list" where
  "syncFieldOrder = ratioSyncFields @ [model_price, billing_mode, billing_expr]"

lemmas sync_fields = ratioSyncFields_def numericSyncFields_def syncFieldOrder_def model_price_def billing_mode_def billing_expr_def

text \<open>The keys of the labels.\<close>

definition sync_labels :: "(jsstr \<times> jsstr) list" where
  "sync_labels = [(js ''model_ratio'', [27169, 22411, 20493, 29575]),
     (js ''completion_ratio'', [34917, 20840, 20493, 29575]),
     (js ''cache_ratio'', [32531, 23384, 20493, 29575]),
     (js ''create_cache_ratio'', [32531, 23384, 21019, 24314, 20493, 29575]),
     (js ''image_ratio'', [22270, 29255, 20493, 29575]),
     (js ''audio_ratio'', [38899, 39057, 20493, 29575]),
     (js ''audio_completion_ratio'', [38899, 39057, 34917, 20840, 20493, 29575]),
     (js ''model_price'', [22266, 23450, 20215, 26684]),
     (js ''billing_mode'', [35745, 36153, 27169, 24335]),
     (js ''billing_expr'', [34920, 36798, 24335, 35745, 36153])]"

definition getSyncFieldLabel :: "(jsstr \<Rightarrow> jsstr) \<Rightarrow> jsstr \<Rightarrow> jsstr" where
  "getSyncFieldLabel t ratioType =
     (case map_of sync_labels ratioType of Some key \<Rightarrow> if t key = [] then ratioType else t key | None \<Rightarrow> ratioType)"

definition own_keys :: "jsval \<Rightarrow> jsstr list" where  \<comment> \<open>\<open>Object.keys(v || {})\<close>\<close>
  "own_keys v = map fst (entries v)"

definition getOrderedRatioTypes :: "jsstr \<Rightarrow> jsval \<Rightarrow> jsstr list" where
  "getOrderedRatioTypes ratioTypeFilter ratioTypes =
     (let keys = own_keys ratioTypes;
          ordered = filter (\<lambda>field. field \<in> set keys) syncFieldOrder @ filter (\<lambda>field. field \<notin> set syncFieldOrder) keys
      in if ratioTypeFilter \<noteq> [] then filter (\<lambda>field. field = ratioTypeFilter) ordered else ordered)"

datatype category = PriceBilling | RatioBilling | TieredBilling

definition getBillingCategory :: "jsstr \<Rightarrow> category" where
  "getBillingCategory ratioType =
     (if ratioType = model_price then PriceBilling
      else if ratioType = billing_mode \<or> ratioType = billing_expr then TieredBilling else RatioBilling)"

text \<open>
  The first unit of a word as a capital. Apart from the two units that are listed, a unit outside ASCII has no capital in ASCII; it is
  kept, since no option has such a unit.
\<close>

definition upper_unit :: "int \<Rightarrow> int" where
  "upper_unit c = (if 97 \<le> c \<and> c \<le> 122 then c - 32 else if c = 305 then 73 else if c = 383 then 83 else c)"

definition capitalized :: "jsstr \<Rightarrow> jsstr" where
  "capitalized word = (case word of [] \<Rightarrow> [] | c # cs \<Rightarrow> upper_unit c # cs)"

definition optionKeyBySyncField :: "jsstr \<Rightarrow> jsstr" where
  "optionKeyBySyncField ratioType =
     (if ratioType = billing_mode then js ''billing_setting.billing_mode''
      else if ratioType = billing_expr then js ''billing_setting.billing_expr''
      else concat (map capitalized (split_unit 95 ratioType)))"

section \<open>State\<close>

type_synonym resolution = "(jsstr \<times> jsval) list"
type_synonym resolutions = "(jsstr \<times> resolution) list"

record channel_item =
  ci_key :: jsval
  ci_label :: jsval
  ci_data :: jsval

record conflict =
  cf_channel :: jsstr
  cf_model :: jsstr
  cf_current :: jsstr
  cf_newVal :: jsstr

record price_sync =
  rs_modalVisible :: bool
  rs_loading :: bool
  rs_syncLoading :: bool
  rs_confirmLoading :: bool
  rs_allChannels :: "channel_item list"
  rs_selectedChannelIds :: "jsval list"
  rs_channelEndpoints :: "(jsstr \<times> jsval) list"
  rs_differences :: jsval
  rs_resolutions :: resolutions
  rs_hasSynced :: bool
  rs_currentPage :: int
  rs_pageSize :: int
  rs_searchKeyword :: jsstr
  rs_ratioTypeFilter :: jsstr
  rs_confirmVisible :: bool
  rs_conflictItems :: "conflict list"

definition initial_sync :: price_sync where
  "initial_sync =
     \<lparr>rs_modalVisible = False, rs_loading = False, rs_syncLoading = False, rs_confirmLoading = False, rs_allChannels = [],
      rs_selectedChannelIds = [], rs_channelEndpoints = [], rs_differences = JObj [], rs_resolutions = [], rs_hasSynced = False,
      rs_currentPage = 1, rs_pageSize = 10, rs_searchKeyword = [], rs_ratioTypeFilter = [], rs_confirmVisible = False, rs_conflictItems = []\<rparr>"

text \<open>What is shown to the user. A failure carries its error.\<close>

datatype sync_failure = Rejected jsstr | Thrown js_error
datatype sync_notice =
  ChannelsRefused jsval | ChannelsFailed sync_failure | NoChannelSelected | BackendRefused jsval | BackendFailed sync_failure
| SomeChannelsFailed "(jsval \<times> jsval) list" | NoDifferences | Syncing | SyncDone | PartlySaved | SaveError

section \<open>Channels\<close>

definition channel_of :: "jsval \<Rightarrow> channel_item" where
  "channel_of channel = \<lparr>ci_key = js_prop channel (js ''id''), ci_label = js_prop channel (js ''name''), ci_data = channel\<rparr>"

definition preset_endpoint :: "channel_item \<Rightarrow> jsval" where
  "preset_endpoint channel =
     (let base = js_or (prop_opt (ci_data channel) (js ''base_url'')) (JStr []); name = js_or (ci_label channel) (JStr []) in
      if ci_key channel = MODELS_DEV_PRESET_ID \<or> base = MODELS_DEV_PRESET_BASE_URL \<or> name = MODELS_DEV_PRESET_NAME
      then MODELS_DEV_PRESET_ENDPOINT
      else if ci_key channel = OFFICIAL_RATIO_PRESET_ID \<or> base = OFFICIAL_RATIO_PRESET_BASE_URL \<or> name = OFFICIAL_RATIO_PRESET_NAME
      then OFFICIAL_RATIO_PRESET_ENDPOINT
      else if prop_opt (ci_data channel) (js ''type'') = JNum (Fin 20) then JStr (js ''openrouter'') else DEFAULT_ENDPOINT)"

definition merge_endpoint :: "channel_item \<Rightarrow> (jsstr \<times> jsval) list \<Rightarrow> (jsstr \<times> jsval) list" where
  "merge_endpoint channel merged =
     (let id = js_to_string (ci_key channel) in
      if truthy (js_prop (JObj merged) id) then merged else obj_put id (preset_endpoint channel) merged)"

text \<open>Opening the dialog, and the answer to the request for the channels.\<close>

definition open_dialog :: "price_sync \<Rightarrow> bool \<times> price_sync" where  \<comment> \<open>whether the channels are requested\<close>
  "open_dialog st =
     (if rs_allChannels st = [] then (True, st\<lparr>rs_modalVisible := True, rs_loading := True\<rparr>) else (False, st\<lparr>rs_modalVisible := True\<rparr>))"

definition channels_loaded :: "jsval list \<Rightarrow> price_sync \<Rightarrow> price_sync" where
  "channels_loaded channels st =
     (let transferData = map channel_of channels in
      st\<lparr>rs_allChannels := transferData, rs_channelEndpoints := fold merge_endpoint transferData (rs_channelEndpoints st), rs_loading := False\<rparr>)"

definition fetchAllChannels :: "jsstr + jsval \<Rightarrow> price_sync \<Rightarrow> sync_notice list \<times> price_sync" where
  "fetchAllChannels answer st =
     (let failed = (\<lambda>e. ([ChannelsFailed e], st\<lparr>rs_loading := False\<rparr>)) in
      case answer of
        Inl msg \<Rightarrow> failed (Rejected msg)
      | Inr data \<Rightarrow>
          if is_nullish data then failed (Thrown TypeError)
          else if truthy (js_prop data (js ''success'')) then
            (case js_or (js_prop data (js ''data'')) (JArr []) of
               JArr channels \<Rightarrow> if \<exists>c \<in> set channels. is_nullish c then failed (Thrown TypeError) else ([], channels_loaded channels st)
             | _ \<Rightarrow> failed (Thrown TypeError))
          else ([ChannelsRefused (js_prop data (js ''message''))], st\<lparr>rs_loading := False\<rparr>))"

definition updateChannelEndpoint :: "jsval \<Rightarrow> jsval \<Rightarrow> price_sync \<Rightarrow> price_sync" where
  "updateChannelEndpoint channelId endpoint st =
     st\<lparr>rs_channelEndpoints := obj_put (js_to_string channelId) endpoint (rs_channelEndpoints st)\<rparr>"

definition handleModalClose :: "price_sync \<Rightarrow> price_sync" where
  "handleModalClose st = st\<lparr>rs_modalVisible := False\<rparr>"

text \<open>The request for the prices of the selected channels.\<close>

definition upstream_request :: "price_sync \<Rightarrow> jsval \<Rightarrow> jsval" where
  "upstream_request st ch =
     JObj [(js ''id'', js_prop ch (js ''id'')), (js ''name'', js_prop ch (js ''name'')), (js ''base_url'', js_prop ch (js ''base_url'')),
           (js ''endpoint'', js_or (js_prop (JObj (rs_channelEndpoints st)) (js_to_string (js_prop ch (js ''id'')))) DEFAULT_ENDPOINT)]"

definition confirmChannelSelection :: "price_sync \<Rightarrow> sync_notice list \<times> jsval option \<times> price_sync" where
  "confirmChannelSelection st =
     (let selected = map ci_data (filter (\<lambda>ch. ci_key ch \<in> set (rs_selectedChannelIds st)) (rs_allChannels st)) in
      if selected = [] then ([NoChannelSelected], None, st)
      else ([], Some (JObj [(js ''upstreams'', JArr (map (upstream_request st) selected)), (js ''timeout'', JNum (Fin 10))]),
            st\<lparr>rs_modalVisible := False, rs_syncLoading := True\<rparr>))"

definition failed_tests :: "jsval list \<Rightarrow> (jsval \<times> jsval) list" where  \<comment> \<open>\<open>errorResults\<close> with name and error\<close>
  "failed_tests results =
     map (\<lambda>r. (js_prop r (js ''name''), js_prop r (js ''error''))) (filter (\<lambda>r. js_prop r (js ''status'') = JStr (js ''error'')) results)"

definition default_to :: "jsval \<Rightarrow> jsval \<Rightarrow> jsval" where  \<comment> \<open>the default of a destructured property\<close>
  "default_to v d = (if v = JUndef then d else v)"

definition fetchRatiosFromChannels :: "jsstr + jsval \<Rightarrow> price_sync \<Rightarrow> sync_notice list \<times> price_sync" where
  "fetchRatiosFromChannels answer st =
     (let failed = (\<lambda>e. ([BackendFailed e], st\<lparr>rs_syncLoading := False\<rparr>)) in
      case answer of
        Inl msg \<Rightarrow> failed (Rejected msg)
      | Inr res \<Rightarrow>
          if is_nullish res then failed (Thrown TypeError)
          else if \<not> truthy (js_prop res (js ''success'')) then ([BackendRefused (js_prop res (js ''message''))], st\<lparr>rs_syncLoading := False\<rparr>)
          else let data = js_prop res (js ''data'') in
            if is_nullish data then failed (Thrown TypeError)
            else let differences = default_to (js_prop data (js ''differences'')) (JObj []) in
              (case default_to (js_prop data (js ''test_results'')) (JArr []) of
                 JArr results \<Rightarrow>
                   if \<exists>r \<in> set results. is_nullish r then failed (Thrown TypeError)
                   else let st1 = st\<lparr>rs_differences := differences, rs_resolutions := [], rs_hasSynced := True, rs_syncLoading := False\<rparr>;
                            warn = (if failed_tests results = [] then [] else [SomeChannelsFailed (failed_tests results)])
                     in (warn @ (if is_nullish differences then [BackendFailed (Thrown TypeError)]
                                 else if own_keys differences = [] then [NoDifferences] else []), st1)
               | _ \<Rightarrow> failed (Thrown TypeError)))"

section \<open>Selecting values\<close>

text \<open>\<open>a === b\<close> for the values of a price: numbers and texts.\<close>

definition same_value :: "jsval \<Rightarrow> jsval \<Rightarrow> bool" where
  "same_value a b = (case (a, b) of (JNum m, JNum n) \<Rightarrow> num_eq m n | _ \<Rightarrow> a = b)"

definition getUpstreamValue :: "jsval \<Rightarrow> jsstr \<Rightarrow> jsstr \<Rightarrow> jsstr \<Rightarrow> jsval" where
  "getUpstreamValue differences model ratioType sourceName =
     prop_opt (prop_opt (prop_opt (js_prop differences model) ratioType) (js ''upstreams'')) sourceName"

definition isSelectableUpstreamValue :: "jsval \<Rightarrow> bool" where
  "isSelectableUpstreamValue v \<longleftrightarrow> \<not> is_nullish v \<and> v \<noteq> JStr (js ''same'')"

definition getPreferredSyncField :: "jsval \<Rightarrow> jsstr \<Rightarrow> jsstr \<Rightarrow> jsstr \<Rightarrow> jsstr" where
  "getPreferredSyncField differences model ratioType sourceName =
     (if ratioType \<noteq> billing_expr \<and> isSelectableUpstreamValue (getUpstreamValue differences model billing_expr sourceName)
      then billing_expr else ratioType)"

definition shouldShowSyncField :: "jsval \<Rightarrow> jsstr \<Rightarrow> jsstr \<Rightarrow> jsstr \<Rightarrow> bool" where
  "shouldShowSyncField differences model ratioType sourceName \<longleftrightarrow>
     sourceName = [] \<or> getPreferredSyncField differences model ratioType sourceName = ratioType"

definition deleteResolutionField :: "jsstr \<Rightarrow> jsstr \<Rightarrow> resolutions \<Rightarrow> resolutions" where
  "deleteResolutionField model ratioType newRes =
     (case map_of newRes model of
        None \<Rightarrow> newRes
      | Some r \<Rightarrow>
          let r1 = obj_delete ratioType r;
              r2 = (if ratioType = billing_expr then obj_delete billing_mode r1 else r1);
              r3 = (if ratioType = billing_mode then obj_delete billing_expr r2 else r2)
          in if r3 = [] then obj_delete model newRes else obj_put model r3 newRes)"

text \<open>The field and the value that are really selected, and the selection of a model with them.\<close>

definition preferred_choice :: "jsval \<Rightarrow> jsstr \<Rightarrow> jsstr \<Rightarrow> jsval \<Rightarrow> jsstr \<Rightarrow> jsstr \<times> jsval" where
  "preferred_choice differences model ratioType v sourceName =
     (let preferred = (if sourceName \<noteq> [] then getPreferredSyncField differences model ratioType sourceName else ratioType)
      in (preferred, if preferred = ratioType then v else getUpstreamValue differences model preferred sourceName))"

definition keep_category :: "category \<Rightarrow> resolution \<Rightarrow> resolution" where
  "keep_category category r =
     filter (\<lambda>(rt, _). category = TieredBilling \<or> getBillingCategory rt = TieredBilling \<or> getBillingCategory rt = category) r"

definition put_tiered :: "jsval \<Rightarrow> jsstr \<Rightarrow> jsstr \<Rightarrow> jsstr \<Rightarrow> resolution \<Rightarrow> resolution" where
  "put_tiered differences model ratioType sourceName r =
     (let modeValue = getUpstreamValue differences model billing_mode sourceName;
          exprValue = getUpstreamValue differences model billing_expr sourceName;
          r1 = (if isSelectableUpstreamValue modeValue then obj_put billing_mode modeValue r
                else if ratioType = billing_expr then obj_put billing_mode (JStr (js ''tiered_expr'')) r else r)
      in if isSelectableUpstreamValue exprValue then obj_put billing_expr exprValue r1 else r1)"

definition model_choice :: "jsval \<Rightarrow> jsstr \<Rightarrow> jsstr \<Rightarrow> jsval \<Rightarrow> jsstr \<Rightarrow> resolution \<Rightarrow> resolution" where
  "model_choice differences model ratioType v sourceName r =
     (let category = getBillingCategory ratioType; r1 = obj_put ratioType v (keep_category category r)
      in if category = TieredBilling \<and> sourceName \<noteq> [] then put_tiered differences model ratioType sourceName r1 else r1)"

definition selectValue :: "jsval \<Rightarrow> jsstr \<Rightarrow> jsstr \<Rightarrow> jsval \<Rightarrow> jsstr \<Rightarrow> resolutions \<Rightarrow> resolutions" where
  "selectValue differences model ratioType v sourceName prev =
     (let (field, preferredValue) = preferred_choice differences model ratioType v sourceName;
          r = (case map_of prev model of None \<Rightarrow> [] | Some r \<Rightarrow> r)
      in obj_put model (model_choice differences model field preferredValue sourceName r) prev)"

section \<open>The table\<close>

record sync_row =
  row_model :: jsstr
  row_types :: jsval
  row_conflict :: bool

definition has_field :: "jsstr \<Rightarrow> (jsstr \<times> 'v) list \<Rightarrow> bool" where  \<comment> \<open>\<open>key in object\<close>\<close>
  "has_field k ps \<longleftrightarrow> k \<in> fst ` set ps"

definition dataSource :: "jsval \<Rightarrow> sync_row list" where
  "dataSource differences =
     map (\<lambda>(model, ratioTypes). \<lparr>row_model = model, row_types = ratioTypes,
            row_conflict = (has_field model_price (entries ratioTypes) \<and> list_ex (\<lambda>rt. has_field rt (entries ratioTypes)) ratioSyncFields)\<rparr>)
       (entries differences)"

definition filteredDataSource :: "(jsstr \<Rightarrow> jsstr) \<Rightarrow> price_sync \<Rightarrow> sync_row list" where
  "filteredDataSource toLowerCase st =
     (let rows = dataSource (rs_differences st); keyword = rs_searchKeyword st; ft = rs_ratioTypeFilter st in
      if trim keyword = [] \<and> ft = [] then rows
      else filter (\<lambda>item. (trim keyword = [] \<or> str_includes (toLowerCase (row_model item)) (trim (toLowerCase keyword)))
                     \<and> (ft = [] \<or> has_field ft (entries (row_types item)))) rows)"

definition row_value :: "sync_row \<Rightarrow> jsstr \<Rightarrow> jsstr \<Rightarrow> jsval" where  \<comment> \<open>\<open>row.ratioTypes[ratioType]?.upstreams?.[upName]\<close>\<close>
  "row_value row ratioType upName = prop_opt (prop_opt (js_prop (row_types row) ratioType) (js ''upstreams'')) upName"

definition upstreamNames :: "(jsstr \<Rightarrow> jsstr) \<Rightarrow> price_sync \<Rightarrow> jsstr list" where
  "upstreamNames toLowerCase st =
     uniq (concat (map (\<lambda>row. concat (map (\<lambda>rt. own_keys (prop_opt (js_prop (row_types row) rt) (js ''upstreams'')))
       (getOrderedRatioTypes (rs_ratioTypeFilter st) (row_types row)))) (filteredDataSource toLowerCase st)))"

definition shown_cells :: "(jsstr \<Rightarrow> jsstr) \<Rightarrow> price_sync \<Rightarrow> (sync_row \<times> jsstr) list" where  \<comment> \<open>the loops over rows and fields\<close>
  "shown_cells toLowerCase st =
     concat (map (\<lambda>row. map (Pair row) (getOrderedRatioTypes (rs_ratioTypeFilter st) (row_types row))) (filteredDataSource toLowerCase st))"

definition selectable_cell :: "price_sync \<Rightarrow> jsstr \<Rightarrow> sync_row \<times> jsstr \<Rightarrow> bool" where
  "selectable_cell st upName cell =
     (case cell of (row, rt) \<Rightarrow>
        getPreferredSyncField (rs_differences st) (row_model row) rt upName = rt \<and> isSelectableUpstreamValue (row_value row rt upName))"

definition chosen :: "price_sync \<Rightarrow> jsstr \<Rightarrow> jsstr \<Rightarrow> jsval" where  \<comment> \<open>\<open>resolutions[model]?.[ratioType]\<close>\<close>
  "chosen st model ratioType =
     (case map_of (rs_resolutions st) model of None \<Rightarrow> JUndef | Some r \<Rightarrow> (case map_of r ratioType of None \<Rightarrow> JUndef | Some v \<Rightarrow> v))"

record channel_stats =
  selectableCount :: nat
  selectedCount :: nat

definition channelStats :: "(jsstr \<Rightarrow> jsstr) \<Rightarrow> price_sync \<Rightarrow> jsstr \<Rightarrow> channel_stats" where
  "channelStats toLowerCase st upName =
     (let cells = filter (selectable_cell st upName) (shown_cells toLowerCase st) in
      \<lparr>selectableCount = length cells,
       selectedCount = length (filter (\<lambda>(row, rt). same_value (chosen st (row_model row) rt) (row_value row rt upName)) cells)\<rparr>)"

definition allSelected :: "channel_stats \<Rightarrow> bool" where
  "allSelected s \<longleftrightarrow> 0 < selectableCount s \<and> selectedCount s = selectableCount s"

definition partiallySelected :: "channel_stats \<Rightarrow> bool" where
  "partiallySelected s \<longleftrightarrow> 0 < selectedCount s \<and> selectedCount s < selectableCount s"

text \<open>What a cell shows, and whether it is checked.\<close>

datatype cell_view = Unset | SameAsLocal | Choice bool jsstr | ValueTag jsstr

definition renderUpstreamField :: "price_sync \<Rightarrow> sync_row \<Rightarrow> jsstr \<Rightarrow> jsstr \<Rightarrow> cell_view" where
  "renderUpstreamField st record ratioType upName =
     (let upstreamVal = row_value record ratioType upName;
          isPreferredField = (getPreferredSyncField (rs_differences st) (row_model record) ratioType upName = ratioType)
      in if is_nullish upstreamVal then Unset
         else if upstreamVal = JStr (js ''same'') then SameAsLocal
         else if isPreferredField then Choice (same_value (chosen st (row_model record) ratioType) upstreamVal) (js_to_string upstreamVal)
         else ValueTag (js_to_string upstreamVal))"

definition renderUpstreamFields :: "price_sync \<Rightarrow> sync_row \<Rightarrow> jsstr \<Rightarrow> (jsstr \<times> cell_view) list" where
  "renderUpstreamFields st record upName =
     map (\<lambda>rt. (rt, renderUpstreamField st record rt upName))
       (filter (\<lambda>rt. shouldShowSyncField (rs_differences st) (row_model record) rt upName)
         (getOrderedRatioTypes (rs_ratioTypeFilter st) (row_types record)))"

definition is_confident :: "sync_row \<Rightarrow> jsstr \<Rightarrow> jsstr \<Rightarrow> bool" where
  "is_confident record ratioType upName \<longleftrightarrow>
     prop_opt (prop_opt (js_prop (row_types record) ratioType) (js ''confidence'')) upName \<noteq> JBool False"

text \<open>The checkbox of a cell and that of a column.\<close>

definition toggle_cell :: "sync_row \<Rightarrow> jsstr \<Rightarrow> jsstr \<Rightarrow> bool \<Rightarrow> price_sync \<Rightarrow> price_sync" where
  "toggle_cell record ratioType upName isChecked st =
     st\<lparr>rs_resolutions := (if isChecked
          then selectValue (rs_differences st) (row_model record) ratioType (row_value record ratioType upName) upName (rs_resolutions st)
          else deleteResolutionField (row_model record) ratioType (rs_resolutions st))\<rparr>"

definition handleBulkSelect :: "(jsstr \<Rightarrow> jsstr) \<Rightarrow> jsstr \<Rightarrow> bool \<Rightarrow> price_sync \<Rightarrow> price_sync" where
  "handleBulkSelect toLowerCase upName checked st =
     (if checked
      then fold (\<lambda>(row, rt) s. toggle_cell row rt upName True s) (filter (selectable_cell st upName) (shown_cells toLowerCase st)) st
      else st\<lparr>rs_resolutions := fold (\<lambda>(row, rt). deleteResolutionField (row_model row) rt)
             (filter (\<lambda>(row, rt). row_value row rt upName \<noteq> JUndef) (shown_cells toLowerCase st)) (rs_resolutions st)\<rparr>)"

definition getCurrentPageData :: "price_sync \<Rightarrow> sync_row list \<Rightarrow> sync_row list" where
  "getCurrentPageData st rows = take (nat (rs_pageSize st)) (drop (nat ((rs_currentPage st - 1) * rs_pageSize st)) rows)"

text \<open>Searching and filtering return to the first page.\<close>

definition setSearchKeyword :: "jsstr \<Rightarrow> price_sync \<Rightarrow> price_sync" where
  "setSearchKeyword keyword st = st\<lparr>rs_searchKeyword := keyword, rs_currentPage := (if keyword = rs_searchKeyword st then rs_currentPage st else 1)\<rparr>"

definition setRatioTypeFilter :: "jsstr \<Rightarrow> price_sync \<Rightarrow> price_sync" where
  "setRatioTypeFilter ft st = st\<lparr>rs_ratioTypeFilter := ft, rs_currentPage := (if ft = rs_ratioTypeFilter st then rs_currentPage st else 1)\<rparr>"

definition page_change :: "int \<Rightarrow> int \<Rightarrow> price_sync \<Rightarrow> price_sync" where
  "page_change page sz st = st\<lparr>rs_currentPage := page, rs_pageSize := sz\<rparr>"

definition size_change :: "int \<Rightarrow> price_sync \<Rightarrow> price_sync" where
  "size_change sz st = st\<lparr>rs_currentPage := 1, rs_pageSize := sz\<rparr>"

end
