(* ===== verification/RatioSyncApply.thy ===== *)
theory RatioSyncApply
  imports RatioSync
begin

text \<open>
  Applying the selection of \<open>UpstreamRatioSync.jsx\<close>: a model that changes between a fixed price and ratios is confirmed first, then
  the selection is written into the ten options, one request for each.
\<close>

section \<open>The options\<close>

definition ratioOptions :: "jsstr list" where
  "ratioOptions = map js [''ModelRatio'', ''CompletionRatio'', ''CacheRatio'', ''CreateCacheRatio'', ''ImageRatio'', ''AudioRatio'', ''AudioCompletionRatio'']"

definition priceOption :: jsstr where "priceOption = js ''ModelPrice''"

definition syncOptions :: "jsstr list" where
  "syncOptions = ratioOptions @ [priceOption, js ''billing_setting.billing_mode'', js ''billing_setting.billing_expr'']"

lemmas sync_options = ratioOptions_def priceOption_def syncOptions_def

type_synonym option_values = "(jsstr \<times> jsval) list"

text \<open>\<open>JSON.parse(props.options.X || '{}')\<close> for all of them; one text that is no JSON throws.\<close>

definition parse_option :: "(jsstr \<rightharpoonup> jsstr) \<Rightarrow> jsstr \<Rightarrow> js_error + jsval" where
  "parse_option options k =
     (case (case options k of None \<Rightarrow> Some (JObj []) | Some s \<Rightarrow> if s = [] then Some (JObj []) else json_parse s) of
        None \<Rightarrow> Inl SyntaxError
      | Some v \<Rightarrow> Inr v)"

fun parse_options :: "(jsstr \<rightharpoonup> jsstr) \<Rightarrow> jsstr list \<Rightarrow> js_error + option_values" where
  "parse_options options [] = Inr []"
| "parse_options options (k # ks) =
     (case parse_option options k of
        Inl e \<Rightarrow> Inl e
      | Inr v \<Rightarrow> (case parse_options options ks of Inl e \<Rightarrow> Inl e | Inr vs \<Rightarrow> Inr ((k, v) # vs)))"

definition currentRatios :: "(jsstr \<rightharpoonup> jsstr) \<Rightarrow> js_error + option_values" where
  "currentRatios options = parse_options options syncOptions"

definition option_at :: "option_values \<Rightarrow> string \<Rightarrow> jsval" where
  "option_at current k = (case map_of current (js k) of Some v \<Rightarrow> v | None \<Rightarrow> JUndef)"

section \<open>Conflicts\<close>

text \<open>\<open>a[model] !== undefined || b[model] !== undefined ...\<close>; reading a property of null throws.\<close>

fun some_defined :: "jsval list \<Rightarrow> jsstr \<Rightarrow> js_error + bool" where
  "some_defined [] model = Inr False"
| "some_defined (v # vs) model =
     (if is_nullish v then Inl TypeError else if js_prop v model \<noteq> JUndef then Inr True else some_defined vs model)"

definition getLocalBillingCategory :: "option_values \<Rightarrow> jsstr \<Rightarrow> js_error + category option" where
  "getLocalBillingCategory current model =
     (case some_defined [option_at current ''ModelPrice''] model of
        Inl e \<Rightarrow> Inl e
      | Inr True \<Rightarrow> Inr (Some PriceBilling)
      | Inr False \<Rightarrow>
          (case some_defined (map (option_at current) [''ModelRatio'', ''CompletionRatio'', ''CacheRatio'', ''CreateCacheRatio'', ''ImageRatio'',
                 ''AudioRatio'', ''AudioCompletionRatio'']) model of
             Inl e \<Rightarrow> Inl e
           | Inr b \<Rightarrow> Inr (if b then Some RatioBilling else None)))"

definition findSourceChannel :: "(jsstr \<Rightarrow> jsstr) \<Rightarrow> jsval \<Rightarrow> jsstr \<Rightarrow> jsstr \<Rightarrow> jsval \<Rightarrow> jsstr" where
  "findSourceChannel t differences model ratioType v =
     (let d = js_prop differences model in
      case (if truthy d \<and> truthy (js_prop d ratioType)
            then find (\<lambda>(_, w). same_value w v) (entries (js_or (js_prop (js_prop d ratioType) (js ''upstreams'')) (JObj []))) else None) of
        Some (name, _) \<Rightarrow> name
      | None \<Rightarrow> t [26410, 30693])"

definition newCategory :: "resolution \<Rightarrow> category" where
  "newCategory ratios =
     (if has_field model_price ratios then PriceBilling
      else if list_ex (\<lambda>rt. has_field rt ratios) ratioSyncFields then RatioBilling else TieredBilling)"

definition or_dash :: "jsval \<Rightarrow> jsstr" where  \<comment> \<open>\<open>v ?? '-'\<close> in a template\<close>
  "or_dash v = (if is_nullish v then js ''-'' else js_to_string v)"

definition field_value :: "resolution \<Rightarrow> string \<Rightarrow> jsval" where
  "field_value ratios k = (case map_of ratios (js k) of Some v \<Rightarrow> v | None \<Rightarrow> JUndef)"

definition labelled :: "(jsstr \<Rightarrow> jsstr) \<Rightarrow> string \<Rightarrow> jsstr \<Rightarrow> jsstr" where
  "labelled t field text = (case map_of sync_labels (js field) of Some key \<Rightarrow> t key | None \<Rightarrow> []) @ js '' : '' @ text"

definition currentDesc :: "(jsstr \<Rightarrow> jsstr) \<Rightarrow> option_values \<Rightarrow> jsstr \<Rightarrow> category \<Rightarrow> js_error + jsstr" where
  "currentDesc t current model localCat =
     (if localCat = PriceBilling then Inr (labelled t ''model_price'' (js_to_string (js_prop (option_at current ''ModelPrice'') model)))
      else if is_nullish (option_at current ''CompletionRatio'') then Inl TypeError
      else Inr (labelled t ''model_ratio'' (or_dash (js_prop (option_at current ''ModelRatio'') model)) @ [10]
             @ labelled t ''completion_ratio'' (or_dash (js_prop (option_at current ''CompletionRatio'') model))))"

definition newDesc :: "(jsstr \<Rightarrow> jsstr) \<Rightarrow> resolution \<Rightarrow> category \<Rightarrow> jsstr" where
  "newDesc t ratios newCat =
     (if newCat = PriceBilling then labelled t ''model_price'' (js_to_string (field_value ratios ''model_price''))
      else labelled t ''model_ratio'' (or_dash (field_value ratios ''model_ratio'')) @ [10]
        @ labelled t ''completion_ratio'' (or_dash (field_value ratios ''completion_ratio'')))"

definition model_conflict :: "(jsstr \<Rightarrow> jsstr) \<Rightarrow> jsval \<Rightarrow> option_values \<Rightarrow> jsstr \<times> resolution \<Rightarrow> js_error + conflict list" where
  "model_conflict t differences current entry =
     (case entry of (model, ratios) \<Rightarrow>
        case getLocalBillingCategory current model of
          Inl e \<Rightarrow> Inl e
        | Inr None \<Rightarrow> Inr []
        | Inr (Some localCat) \<Rightarrow>
            let newCat = newCategory ratios in
            if newCat = TieredBilling \<or> localCat = newCat then Inr []
            else (case currentDesc t current model localCat of
                    Inl e \<Rightarrow> Inl e
                  | Inr desc \<Rightarrow> Inr [\<lparr>cf_channel = join (js '', '') (uniq (map (\<lambda>(rt, v). findSourceChannel t differences model rt v) ratios)),
                      cf_model = model, cf_current = desc, cf_newVal = newDesc t ratios newCat\<rparr>]))"

fun find_conflicts :: "(jsstr \<Rightarrow> jsstr) \<Rightarrow> jsval \<Rightarrow> option_values \<Rightarrow> resolutions \<Rightarrow> js_error + conflict list" where
  "find_conflicts t differences current [] = Inr []"
| "find_conflicts t differences current (entry # es) =
     (case model_conflict t differences current entry of
        Inl e \<Rightarrow> Inl e
      | Inr cs \<Rightarrow> (case find_conflicts t differences current es of Inl e \<Rightarrow> Inl e | Inr ds \<Rightarrow> Inr (cs @ ds)))"

section \<open>Writing\<close>

type_synonym final_ratios = "(jsstr \<times> (jsstr \<times> jsval) list) list"

definition synced_value :: "jsstr \<Rightarrow> jsval \<Rightarrow> jsval" where
  "synced_value ratioType v = (if ratioType \<in> set numericSyncFields then JNum (parseFloat (js_to_string v)) else v)"

definition change_option :: "jsstr \<Rightarrow> ((jsstr \<times> jsval) list \<Rightarrow> (jsstr \<times> jsval) list) \<Rightarrow> final_ratios \<Rightarrow> final_ratios" where
  "change_option k f finalRatios = map (\<lambda>(l, ps). (l, if l = k then f ps else ps)) finalRatios"

definition drop_model :: "jsstr \<Rightarrow> jsstr list \<Rightarrow> final_ratios \<Rightarrow> final_ratios" where
  "drop_model model ks finalRatios = fold (\<lambda>k. change_option k (obj_delete model)) ks finalRatios"

text \<open>\<open>finalRatios[optionKey][model] = ...\<close>, which throws for a field without an option.\<close>

definition write_field :: "jsstr \<Rightarrow> jsstr \<times> jsval \<Rightarrow> js_error + final_ratios \<Rightarrow> js_error + final_ratios" where
  "write_field model field st =
     (case st of
        Inl e \<Rightarrow> Inl e
      | Inr finalRatios \<Rightarrow>
          let k = optionKeyBySyncField (fst field) in
          if has_field k finalRatios then Inr (change_option k (obj_put model (synced_value (fst field) (snd field))) finalRatios) else Inl TypeError)"

definition write_model :: "jsstr \<times> resolution \<Rightarrow> js_error + final_ratios \<Rightarrow> js_error + final_ratios" where
  "write_model entry st =
     (case entry of (model, ratios) \<Rightarrow>
        case st of
          Inl e \<Rightarrow> Inl e
        | Inr finalRatios \<Rightarrow>
            let f1 = (if has_field model_price ratios then drop_model model ratioOptions finalRatios else finalRatios);
                f2 = (if list_ex (\<lambda>(rt, _). rt \<in> set ratioSyncFields) ratios then drop_model model [priceOption] f1 else f1)
            in fold (write_field model) ratios (Inr f2))"

definition finalRatios_of :: "option_values \<Rightarrow> resolutions \<Rightarrow> js_error + final_ratios" where
  "finalRatios_of current res = fold write_model res (Inr (map (\<lambda>k. (k, entries (case map_of current k of Some v \<Rightarrow> v | None \<Rightarrow> JUndef))) syncOptions))"

definition option_updates :: "final_ratios \<Rightarrow> (jsstr \<times> jsstr) list" where
  "option_updates finalRatios = map (\<lambda>(k, ps). (k, case json_pretty 0 (JObj ps) of None \<Rightarrow> [] | Some s \<Rightarrow> s)) finalRatios"

text \<open>The differences that were synced are taken out of the table.\<close>

definition drop_difference :: "jsstr \<Rightarrow> jsstr \<Rightarrow> (jsstr \<times> jsval) list \<Rightarrow> (jsstr \<times> jsval) list" where
  "drop_difference model ratioType ds =
     (case map_of ds model of
        Some (JObj types) \<Rightarrow>
          if truthy (js_prop (JObj types) ratioType) then
            let rest = obj_delete ratioType types in if rest = [] then obj_delete model ds else obj_put model (JObj rest) ds
          else ds
      | _ \<Rightarrow> ds)"

definition drop_synced :: "resolutions \<Rightarrow> jsval \<Rightarrow> jsval" where
  "drop_synced res differences =
     JObj (fold (\<lambda>(model, ratios). fold (\<lambda>(rt, _). drop_difference model rt) ratios) res (entries differences))"

record sync_result =
  sr_sent :: "(jsstr \<times> jsstr) list"
  sr_notices :: "sync_notice list"
  sr_refreshed :: bool
  sr_success :: bool
  sr_state :: price_sync

definition answer_ok :: "jsval \<Rightarrow> bool option" where  \<comment> \<open>\<open>res.data.success\<close>; \<open>None\<close> when reading it throws\<close>
  "answer_ok data = (if is_nullish data then None else Some (truthy (js_prop data (js ''success''))))"

fun every_ok :: "jsval list \<Rightarrow> bool option" where
  "every_ok [] = Some True"
| "every_ok (d # ds) = (case answer_ok d of None \<Rightarrow> None | Some b \<Rightarrow> if b then every_ok ds else Some False)"

text \<open>
  The server maps the requests to the bodies of its answers, or to the message of a rejected request. A field without an option throws
  before anything is sent.
\<close>

definition performSync :: "((jsstr \<times> jsstr) list \<Rightarrow> jsstr + jsval list) \<Rightarrow> option_values \<Rightarrow> price_sync \<Rightarrow> js_error + sync_result" where
  "performSync server current st =
     (case finalRatios_of current (rs_resolutions st) of
        Inl e \<Rightarrow> Inl e
      | Inr finalRatios \<Rightarrow>
          let updates = option_updates finalRatios;
              failed = (\<lambda>n. \<lparr>sr_sent = updates, sr_notices = [Syncing, n], sr_refreshed = False, sr_success = False, sr_state = st\<lparr>rs_loading := False\<rparr>\<rparr>)
          in Inr (case server updates of
               Inl _ \<Rightarrow> failed SaveError
             | Inr results \<Rightarrow>
                 (case every_ok results of
                    None \<Rightarrow> failed SaveError
                  | Some False \<Rightarrow> failed PartlySaved
                  | Some True \<Rightarrow>
                      \<lparr>sr_sent = updates, sr_notices = [Syncing, SyncDone], sr_refreshed = True, sr_success = True,
                       sr_state = st\<lparr>rs_differences := drop_synced (rs_resolutions st) (rs_differences st), rs_resolutions := [], rs_loading := False\<rparr>\<rparr>)))"

datatype apply_outcome = Failed js_error | AskFirst price_sync | Applied sync_result

definition applySync ::
  "(jsstr \<Rightarrow> jsstr) \<Rightarrow> ((jsstr \<times> jsstr) list \<Rightarrow> jsstr + jsval list) \<Rightarrow> (jsstr \<rightharpoonup> jsstr) \<Rightarrow> price_sync \<Rightarrow> apply_outcome" where
  "applySync t server options st =
     (case currentRatios options of
        Inl e \<Rightarrow> Failed e
      | Inr current \<Rightarrow>
          (case find_conflicts t (rs_differences st) current (rs_resolutions st) of
             Inl e \<Rightarrow> Failed e
           | Inr conflicts \<Rightarrow>
               if conflicts \<noteq> [] then AskFirst (st\<lparr>rs_conflictItems := conflicts, rs_confirmVisible := True\<rparr>)
               else (case performSync server current st of Inl e \<Rightarrow> Failed e | Inr r \<Rightarrow> Applied r)))"

text \<open>The confirmation. When the options cannot be read it stays open and loading.\<close>

definition confirm_conflicts ::
  "((jsstr \<times> jsstr) list \<Rightarrow> jsstr + jsval list) \<Rightarrow> (jsstr \<rightharpoonup> jsstr) \<Rightarrow> price_sync \<Rightarrow> (js_error \<times> price_sync) + sync_result" where
  "confirm_conflicts server options st =
     (case currentRatios options of
        Inl e \<Rightarrow> Inl (e, st\<lparr>rs_confirmLoading := True\<rparr>)
      | Inr current \<Rightarrow>
          (case performSync server current st of
             Inl e \<Rightarrow> Inl (e, st\<lparr>rs_confirmLoading := False\<rparr>)
           | Inr r \<Rightarrow> Inr (r\<lparr>sr_state := (sr_state r)\<lparr>rs_confirmLoading := False,
               rs_confirmVisible := (rs_confirmVisible (sr_state r) \<and> \<not> sr_success r)\<rparr>\<rparr>)))"

definition cancel_conflicts :: "price_sync \<Rightarrow> price_sync" where
  "cancel_conflicts st = st\<lparr>rs_confirmVisible := False\<rparr>"

end
