(* ===== verification/RatioSyncFacts.thy ===== *)
theory RatioSyncFacts
  imports RatioSyncApply
begin

text \<open>
  What the synchronisation of prices does: the selection never mixes a fixed price with ratios, the options that are written are those of the
  selection, a change of the kind of billing is confirmed first, and how a column's checkbox loses choices of other columns.
\<close>

section \<open>Numbers pass unchanged\<close>

lemma parseFloat_text:
  assumes "json_num_ok n"
  shows "parseFloat (number_to_string n) = n"
proof -
  let ?s = "number_to_string n"
  have j: "json_number ?s = Some (n, [])" using assms by (simp add: json_num_ok_def)
  note u = number_units [OF assms]
  have "\<not> js_ws (hd ?s)" using u by (cases ?s) (auto simp: num_unit_def is_digit_def js_ws_def)
  then have trim: "trimStart ?s = ?s" using u(2) by (cases ?s) (simp_all add: trimStart_def)
  have noninf: "\<forall>c \<in> set r. num_unit c \<Longrightarrow> \<not> startsWith r (js ''Infinity'')" for r
    by (auto simp: startsWith_iff js_def num_unit_def is_digit_def)
  show ?thesis
  proof (cases "hd ?s = 45")
    case True
    then obtain t where t: "?s = 45 # t" using u(2) by (cases ?s) auto
    then obtain m where m: "json_unsigned t = Some (m, [])" "n = num_neg m" using j by (auto simp: json_number_def)
    from unsigned_take_decimal [OF m(1)] obtain x where "take_decimal t = Some (x, [])" "rnd x = m" by blast
    then show ?thesis using t trim m(2) u(1) noninf [of t] by (simp add: parseFloat_def)
  next
    case False
    then have m: "json_unsigned ?s = Some (n, [])" using j by (simp add: json_number_def)
    from unsigned_take_decimal [OF m] obtain x where "take_decimal ?s = Some (x, [])" "rnd x = n" by blast
    moreover have "take_sign ?s = (False, ?s)" using unsigned_units(2,3) [OF m] by (cases ?s) (auto simp: is_digit_def)
    ultimately show ?thesis using trim u(1) noninf [of ?s] by (simp add: parseFloat_def)
  qed
qed

lemma synced_number: "binary64 n \<Longrightarrow> synced_value f (JNum n) = JNum n"
  by (simp add: synced_value_def parseFloat_text binary64_ok)

section \<open>Fields and options\<close>

lemma option_keys_of_fields: "map optionKeyBySyncField syncFieldOrder = syncOptions"
  by code_simp

lemma distinct_sync: "distinct syncOptions" "distinct syncFieldOrder"
  by (code_simp, code_simp)

lemma option_key_inj: "f \<in> set syncFieldOrder \<Longrightarrow> g \<in> set syncFieldOrder \<Longrightarrow> optionKeyBySyncField f = optionKeyBySyncField g \<longleftrightarrow> f = g"
  using distinct_sync(1) option_keys_of_fields by (metis distinct_map inj_on_eq_iff)

lemma option_key_known: "f \<in> set syncFieldOrder \<Longrightarrow> optionKeyBySyncField f \<in> set syncOptions"
  using option_keys_of_fields by (metis image_eqI list.set_map)

lemma ratio_option_keys: "map optionKeyBySyncField ratioSyncFields = ratioOptions" "optionKeyBySyncField model_price = priceOption"
  by (code_simp, code_simp)

lemma fields_known: "set ratioSyncFields \<subseteq> set syncFieldOrder" "model_price \<in> set syncFieldOrder" "model_price \<notin> set ratioSyncFields"
  by (auto simp: sync_fields js_def)

lemma ratio_option_iff: "f \<in> set syncFieldOrder \<Longrightarrow> optionKeyBySyncField f \<in> set ratioOptions \<longleftrightarrow> f \<in> set ratioSyncFields"
  using option_key_inj fields_known(1) unfolding ratio_option_keys(1) [symmetric] by auto

lemma price_option_iff: "f \<in> set syncFieldOrder \<Longrightarrow> optionKeyBySyncField f = priceOption \<longleftrightarrow> f = model_price"
  using option_key_inj fields_known(2) unfolding ratio_option_keys(2) [symmetric] by auto

section \<open>What is written\<close>

definition final_at :: "final_ratios \<Rightarrow> jsstr \<Rightarrow> jsstr \<Rightarrow> jsval option" where
  "final_at fr k model = (case map_of fr k of Some ps \<Rightarrow> map_of ps model | None \<Rightarrow> None)"

definition current_at :: "option_values \<Rightarrow> jsstr \<Rightarrow> jsstr \<Rightarrow> jsval option" where
  "current_at current k model = map_of (entries (case map_of current k of Some v \<Rightarrow> v | None \<Rightarrow> JUndef)) model"

lemma map_of_change: "map_of (change_option k f fr) l = (if l = k then map_option f (map_of fr k) else map_of fr l)"
  by (induction fr) (auto simp: change_option_def)

lemma keys_change [simp]: "map fst (change_option k f fr) = map fst fr"
  by (induction fr) (auto simp: change_option_def)

lemma final_delete: "final_at (change_option k (obj_delete model) fr) l m = (if l = k \<and> m = model then None else final_at fr l m)"
  by (auto simp: final_at_def map_of_change split: option.splits)

lemma final_put: "k \<in> fst ` set fr \<Longrightarrow> final_at (change_option k (obj_put model v) fr) l m = (if l = k \<and> m = model then Some v else final_at fr l m)"
  by (auto simp: final_at_def map_of_change map_of_eq_None_iff split: option.splits)

lemma keys_drop [simp]: "map fst (drop_model model ks fr) = map fst fr"
  by (induction ks arbitrary: fr) (auto simp: drop_model_def)

lemma final_drop: "final_at (drop_model model ks fr) l m = (if l \<in> set ks \<and> m = model then None else final_at fr l m)"
  by (induction ks arbitrary: fr) (auto simp: drop_model_def final_delete)

text \<open>Writing the fields of a model.\<close>

lemma write_field_ok:
  "has_field (optionKeyBySyncField g) fr
    \<Longrightarrow> write_field model (g, v) (Inr fr) = Inr (change_option (optionKeyBySyncField g) (obj_put model (synced_value g v)) fr)"
  by (simp add: write_field_def Let_def)

lemma write_fields_error: "fold (write_field model) fs (Inl e) = Inl e"
  by (induction fs) (simp_all add: write_field_def)

lemma write_fields:
  assumes "fold (write_field model) fs (Inr fr) = Inr fr'" and "map fst fr = syncOptions" and "distinct (map fst fs)"
    and "fst ` set fs \<subseteq> set syncFieldOrder" and f: "f \<in> set syncFieldOrder"
  shows "map fst fr' = syncOptions \<and> final_at fr' (optionKeyBySyncField f) m
    = (case map_of fs f of Some v \<Rightarrow> if m = model then Some (synced_value f v) else final_at fr (optionKeyBySyncField f) m
                         | None \<Rightarrow> final_at fr (optionKeyBySyncField f) m)"
  using assms(1-4)
proof (induction fs arbitrary: fr)
  case (Cons p fs)
  obtain g v where p: "p = (g, v)" by (cases p)
  have g: "g \<in> set syncFieldOrder" using Cons.prems(4) p by simp
  let ?k = "optionKeyBySyncField g" and ?f = "optionKeyBySyncField f"
  let ?fr = "change_option ?k (obj_put model (synced_value g v)) fr"
  have k: "?k \<in> fst ` set fr" using option_key_known [OF g] Cons.prems(2) by (metis list.set_map)
  have "fold (write_field model) fs (Inr ?fr) = Inr fr'"
    using Cons.prems(1) k p write_field_ok [of g fr model v] by (simp add: has_field_def)
  then have IH: "map fst fr' = syncOptions \<and> final_at fr' ?f m
    = (case map_of fs f of Some w \<Rightarrow> if m = model then Some (synced_value f w) else final_at ?fr ?f m | None \<Rightarrow> final_at ?fr ?f m)"
    using Cons.IH Cons.prems(2-4) by simp
  have "g \<notin> fst ` set fs" using Cons.prems(3) p by simp
  then have "map_of fs g = None" by (simp add: map_of_eq_None_iff)
  then show ?case using IH option_key_inj [OF f g] by (auto simp: p final_put [OF k] split: option.splits)
qed simp

text \<open>What a selection makes of an option of its model.\<close>

definition replaced :: "resolution \<Rightarrow> jsstr \<Rightarrow> bool" where
  "replaced ratios f \<longleftrightarrow> (f \<in> set ratioSyncFields \<and> has_field model_price ratios)
     \<or> (f = model_price \<and> (\<exists>g \<in> set ratioSyncFields. has_field g ratios))"

definition known_resolution :: "resolution \<Rightarrow> bool" where
  "known_resolution ratios \<longleftrightarrow> distinct (map fst ratios) \<and> fst ` set ratios \<subseteq> set syncFieldOrder"

definition option_after :: "resolution \<Rightarrow> jsstr \<Rightarrow> jsval option \<Rightarrow> jsval option" where
  "option_after ratios f old = (case map_of ratios f of Some v \<Rightarrow> Some (synced_value f v) | None \<Rightarrow> if replaced ratios f then None else old)"

lemma ratio_exists: "list_ex (\<lambda>(rt, _). rt \<in> set ratioSyncFields) ratios \<longleftrightarrow> (\<exists>g \<in> set ratioSyncFields. has_field g ratios)"
  by (force simp: list_ex_iff has_field_def)

lemma write_model_at:
  assumes "write_model (model, ratios) (Inr fr) = Inr fr'" and keys: "map fst fr = syncOptions" and "known_resolution ratios"
    and f: "f \<in> set syncFieldOrder"
  shows "map fst fr' = syncOptions \<and> final_at fr' (optionKeyBySyncField f) m
    = (if m = model then option_after ratios f (final_at fr (optionKeyBySyncField f) m) else final_at fr (optionKeyBySyncField f) m)"
proof -
  define f1 where "f1 = (if has_field model_price ratios then drop_model model ratioOptions fr else fr)"
  define f2 where "f2 = (if list_ex (\<lambda>(rt, _). rt \<in> set ratioSyncFields) ratios then drop_model model [priceOption] f1 else f1)"
  have w: "fold (write_field model) ratios (Inr f2) = Inr fr'" using assms(1) by (simp only: write_model_def f1_def f2_def Let_def prod.case sum.case)
  have "map fst f2 = syncOptions" using keys by (simp add: f1_def f2_def)
  moreover have "final_at f2 (optionKeyBySyncField f) m
      = (if m = model \<and> replaced ratios f then None else final_at fr (optionKeyBySyncField f) m)"
    using ratio_option_iff [OF f] price_option_iff [OF f] by (auto simp: f1_def f2_def final_drop replaced_def ratio_exists)
  ultimately show ?thesis
    using write_fields [OF w _ _ _ f, of m] assms(3) by (auto simp: known_resolution_def option_after_def split: option.splits)
qed

lemma write_models_error: "fold write_model res (Inl e) = Inl e"
  by (induction res) (simp_all add: write_model_def split_def)

lemma write_models_at:
  assumes "fold write_model res (Inr fr) = Inr fr'" and "map fst fr = syncOptions" and "distinct (map fst res)"
    and "\<forall>r \<in> snd ` set res. known_resolution r" and f: "f \<in> set syncFieldOrder"
  shows "final_at fr' (optionKeyBySyncField f) m
    = (case map_of res m of Some r \<Rightarrow> option_after r f (final_at fr (optionKeyBySyncField f) m) | None \<Rightarrow> final_at fr (optionKeyBySyncField f) m)"
  using assms(1-4)
proof (induction res arbitrary: fr)
  case (Cons p res)
  obtain model ratios where p: "p = (model, ratios)" by (cases p)
  obtain fr1 where w: "write_model (model, ratios) (Inr fr) = Inr fr1"
    using Cons.prems(1) p write_models_error by (cases "write_model (model, ratios) (Inr fr)") auto
  note one = write_model_at [OF w Cons.prems(2) _ f]
  have k: "known_resolution ratios" using Cons.prems(4) p by simp
  have "final_at fr' (optionKeyBySyncField f) m
    = (case map_of res m of Some r \<Rightarrow> option_after r f (final_at fr1 (optionKeyBySyncField f) m) | None \<Rightarrow> final_at fr1 (optionKeyBySyncField f) m)"
    using Cons.prems w p one [OF k] by (intro Cons.IH) auto
  moreover have "map_of res model = None" using Cons.prems(3) p by (simp add: map_of_eq_None_iff)
  ultimately show ?case using one [OF k, of m] p by (auto split: option.splits)
qed simp

lemma synced_at:
  assumes "finalRatios_of current res = Inr fr" and "distinct (map fst res)" and "\<forall>r \<in> snd ` set res. known_resolution r"
    and "f \<in> set syncFieldOrder"
  shows "final_at fr (optionKeyBySyncField f) m
    = (case map_of res m of Some r \<Rightarrow> option_after r f (current_at current (optionKeyBySyncField f) m)
                          | None \<Rightarrow> current_at current (optionKeyBySyncField f) m)"
proof -
  let ?start = "map (\<lambda>k. (k, entries (case map_of current k of Some v \<Rightarrow> v | None \<Rightarrow> JUndef))) syncOptions"
  have "map_of ?start k = Some (entries (case map_of current k of Some v \<Rightarrow> v | None \<Rightarrow> JUndef))" if "k \<in> set syncOptions" for k
    by (simp add: map_of_map_restrict that)
  then have "final_at ?start (optionKeyBySyncField f) m = current_at current (optionKeyBySyncField f) m"
    using option_key_known [OF assms(4)] by (simp add: final_at_def current_at_def)
  then show ?thesis
    using write_models_at [OF _ _ assms(2,3,4), of ?start fr m] assms(1)
    by (simp add: finalRatios_of_def comp_def split: option.split)
qed

text \<open>The request is refused by the code itself exactly for a field that belongs to no option.\<close>

lemma write_fields_fail:
  "map fst fr = syncOptions \<Longrightarrow> (case fold (write_field model) fs (Inr fr) of
      Inl _ \<Rightarrow> \<exists>f \<in> fst ` set fs. optionKeyBySyncField f \<notin> set syncOptions
    | Inr fr' \<Rightarrow> map fst fr' = syncOptions \<and> (\<forall>f \<in> fst ` set fs. optionKeyBySyncField f \<in> set syncOptions))"
proof (induction fs arbitrary: fr)
  case (Cons p fs)
  obtain g v where p: "p = (g, v)" by (cases p)
  have keys: "has_field (optionKeyBySyncField g) fr \<longleftrightarrow> optionKeyBySyncField g \<in> set syncOptions"
    using Cons.prems by (metis has_field_def list.set_map)
  show ?case
  proof (cases "has_field (optionKeyBySyncField g) fr")
    case True
    then show ?thesis
      using Cons.IH [of "change_option (optionKeyBySyncField g) (obj_put model (synced_value g v)) fr"] Cons.prems p keys
      by (auto simp: write_field_ok split: sum.splits)
  next
    case False
    then have "write_field model p (Inr fr) = Inl TypeError" by (simp add: write_field_def p)
    then show ?thesis using False keys p by (simp add: write_fields_error)
  qed
qed simp

lemma write_models_fail:
  "map fst fr = syncOptions \<Longrightarrow> (case fold write_model res (Inr fr) of
      Inl _ \<Rightarrow> \<exists>r \<in> snd ` set res. \<exists>f \<in> fst ` set r. optionKeyBySyncField f \<notin> set syncOptions
    | Inr _ \<Rightarrow> \<forall>r \<in> snd ` set res. \<forall>f \<in> fst ` set r. optionKeyBySyncField f \<in> set syncOptions)"
proof (induction res arbitrary: fr)
  case (Cons p res)
  obtain model ratios where p: "p = (model, ratios)" by (cases p)
  define f2 where "f2 = (let f1 = (if has_field model_price ratios then drop_model model ratioOptions fr else fr)
    in if list_ex (\<lambda>(rt, _). rt \<in> set ratioSyncFields) ratios then drop_model model [priceOption] f1 else f1)"
  have w: "write_model p (Inr fr) = fold (write_field model) ratios (Inr f2)"
    by (simp only: p write_model_def f2_def Let_def prod.case sum.case)
  have f2: "map fst f2 = syncOptions" using Cons.prems by (simp add: f2_def Let_def)
  show ?case
  proof (cases "fold (write_field model) ratios (Inr f2)")
    case (Inl e)
    then show ?thesis using write_fields_fail [OF f2, where model = model and fs = ratios] w p by (simp add: write_models_error)
  next
    case (Inr fr1)
    then have "map fst fr1 = syncOptions" "\<forall>f \<in> fst ` set ratios. optionKeyBySyncField f \<in> set syncOptions"
      using write_fields_fail [OF f2, where model = model and fs = ratios] by auto
    then show ?thesis using Cons.IH [of fr1] w p Inr by (auto split: sum.splits)
  qed
qed simp

lemma performSync_fails:
  "(\<exists>e. performSync server current st = Inl e)
    \<longleftrightarrow> (\<exists>(m, r) \<in> set (rs_resolutions st). \<exists>(f, v) \<in> set r. optionKeyBySyncField f \<notin> set syncOptions)"
proof -
  let ?start = "map (\<lambda>k. (k, entries (case map_of current k of Some v \<Rightarrow> v | None \<Rightarrow> JUndef))) syncOptions"
  have "(\<exists>e. performSync server current st = Inl e) \<longleftrightarrow> (\<exists>e. finalRatios_of current (rs_resolutions st) = Inl e)"
    by (simp add: performSync_def Let_def split: sum.splits)
  then show ?thesis
    using write_models_fail [of ?start "rs_resolutions st"] by (force simp: finalRatios_of_def comp_def split: sum.splits)
qed

section \<open>The selection\<close>

definition resolution_ok :: "resolution \<Rightarrow> bool" where
  "resolution_ok r \<longleftrightarrow> r \<noteq> [] \<and> distinct (map fst r)
     \<and> \<not> (has_field model_price r \<and> (\<exists>f \<in> fst ` set r. getBillingCategory f = RatioBilling))
     \<and> (has_field billing_expr r \<longrightarrow> has_field billing_mode r)"

definition resolutions_ok :: "resolutions \<Rightarrow> bool" where
  "resolutions_ok res \<longleftrightarrow> distinct (map fst res) \<and> (\<forall>r \<in> snd ` set res. resolution_ok r)"

lemma categories:
  "getBillingCategory model_price = PriceBilling" "getBillingCategory billing_mode = TieredBilling" "getBillingCategory billing_expr = TieredBilling"
  "getBillingCategory f = PriceBilling \<longleftrightarrow> f = model_price" "getBillingCategory f = TieredBilling \<longleftrightarrow> f = billing_mode \<or> f = billing_expr"
  by (auto simp: getBillingCategory_def sync_fields js_def)

lemma fields_differ [simp]:
  "model_price \<noteq> billing_mode" "model_price \<noteq> billing_expr" "billing_mode \<noteq> billing_expr"
  "billing_mode \<noteq> model_price" "billing_expr \<noteq> model_price" "billing_expr \<noteq> billing_mode"
  by (simp_all add: sync_fields js_def)

lemma has_field_put [simp]: "has_field k (obj_put l v r) \<longleftrightarrow> k = l \<or> has_field k r"
  using keys_obj_put [of l v r] by (auto simp: has_field_def)

lemma has_field_delete [simp]: "has_field k (obj_delete l r) \<longleftrightarrow> k \<noteq> l \<and> has_field k r"
  by (auto simp: has_field_def obj_delete_def)

lemma has_field_keep: "has_field k (keep_category c r) \<longleftrightarrow>
    has_field k r \<and> (c = TieredBilling \<or> getBillingCategory k = TieredBilling \<or> getBillingCategory k = c)"
  by (auto simp: has_field_def keep_category_def)

lemma distinct_delete: "distinct (map fst r) \<Longrightarrow> distinct (map fst (obj_delete k r))"
  by (simp add: obj_delete_def distinct_map_filter split_def)

lemma put_not_Nil [simp]: "obj_put k v r \<noteq> []"
  using has_field_put [of k k v r] by (auto simp: has_field_def)

text \<open>The condition in terms of the fields.\<close>

lemma resolution_okI:
  assumes "r \<noteq> []" and "distinct (map fst r)"
    and "\<And>f. has_field model_price r \<Longrightarrow> has_field f r \<Longrightarrow> getBillingCategory f \<noteq> RatioBilling"
    and "has_field billing_expr r \<Longrightarrow> has_field billing_mode r"
  shows "resolution_ok r"
  using assms unfolding resolution_ok_def has_field_def by blast

lemma resolution_okD:
  assumes "resolution_ok r"
  shows "distinct (map fst r)" and "has_field model_price r \<Longrightarrow> has_field f r \<Longrightarrow> getBillingCategory f \<noteq> RatioBilling"
    and "has_field billing_expr r \<Longrightarrow> has_field billing_mode r"
  using assms unfolding resolution_ok_def has_field_def by blast+

lemma empty_fields [simp]: "\<not> has_field k []"
  by (simp add: has_field_def)

lemma category_cases: "getBillingCategory f = RatioBilling \<or> f \<in> {model_price, billing_mode, billing_expr}"
  by (simp add: getBillingCategory_def)

lemma put_tiered_fields:
  "has_field k (put_tiered d m rt src r) \<Longrightarrow> has_field k r \<or> getBillingCategory k = TieredBilling"
  by (auto simp: put_tiered_def Let_def categories split: if_splits)

lemma model_choice_ok:
  assumes r: "r = [] \<or> resolution_ok r" and src: "src \<noteq> []"
  shows "resolution_ok (model_choice d m rt v src r)"
proof -
  let ?c = "getBillingCategory rt" and ?r1 = "obj_put rt v (keep_category (getBillingCategory rt) r)"
  have d: "distinct (map fst ?r1)"
    using r by (intro distinct_obj_put) (auto simp: keep_category_def distinct_map_filter resolution_ok_def)
  have old: "has_field model_price r \<Longrightarrow> has_field f r \<Longrightarrow> getBillingCategory f \<noteq> RatioBilling"
    "has_field billing_expr r \<Longrightarrow> has_field billing_mode r" for f
    using r resolution_okD(2,3) empty_fields by metis+
  have mix: "has_field model_price ?r1 \<Longrightarrow> has_field f ?r1 \<Longrightarrow> getBillingCategory f \<noteq> RatioBilling" for f
    using old(1) by (auto simp: has_field_keep categories)
  show ?thesis
  proof (cases "?c = TieredBilling")
    case False
    then have eq: "model_choice d m rt v src r = ?r1" by (simp add: model_choice_def Let_def)
    have "has_field billing_expr ?r1 \<Longrightarrow> has_field billing_mode ?r1"
      using False old(2) by (auto simp: has_field_keep categories)
    then show ?thesis unfolding eq using d mix by (intro resolution_okI) auto
  next
    case True
    then have eq: "model_choice d m rt v src r = put_tiered d m rt src ?r1" using src by (simp add: model_choice_def Let_def)
    have "has_field model_price (put_tiered d m rt src ?r1) \<Longrightarrow> has_field f (put_tiered d m rt src ?r1) \<Longrightarrow> getBillingCategory f \<noteq> RatioBilling" for f
      using mix [of f] put_tiered_fields [of model_price d m rt src ?r1] put_tiered_fields [of f d m rt src ?r1] by (auto simp: categories)
    moreover have "has_field billing_mode (put_tiered d m rt src ?r1)"
      using True by (auto simp: put_tiered_def Let_def categories)
    moreover have "distinct (map fst (put_tiered d m rt src ?r1))"
      using d by (auto simp: put_tiered_def Let_def intro!: distinct_obj_put)
    moreover have "put_tiered d m rt src ?r1 \<noteq> []" by (simp add: put_tiered_def Let_def)
    ultimately show ?thesis unfolding eq by (intro resolution_okI) auto
  qed
qed

lemma resolutions_put: "resolutions_ok res \<Longrightarrow> resolution_ok r \<Longrightarrow> resolutions_ok (obj_put m r res)"
proof -
  assume a: "resolutions_ok res" "resolution_ok r"
  have "snd ` set (obj_put m r res) \<subseteq> insert r (snd ` set res)"
  proof -
    have "set (obj_update m r ps) \<subseteq> insert (m, r) (set ps)" for ps by (induction m r ps rule: obj_update.induct) auto
    then have "set (obj_put m r res) \<subseteq> insert (m, r) (set res)" by (auto simp: obj_put_def set_obj_insert)
    then show ?thesis by auto
  qed
  then show ?thesis using a distinct_obj_put [of res m r] unfolding resolutions_ok_def by blast
qed

lemma resolutions_delete: "resolutions_ok res \<Longrightarrow> resolutions_ok (obj_delete m res)"
  using distinct_delete [of res m] by (auto simp: resolutions_ok_def obj_delete_def)

lemma resolutions_lookup: "resolutions_ok res \<Longrightarrow> map_of res m = Some r \<Longrightarrow> resolution_ok r"
  by (force simp: resolutions_ok_def dest: map_of_SomeD)

lemma selectValue_ok: "resolutions_ok res \<Longrightarrow> src \<noteq> [] \<Longrightarrow> resolutions_ok (selectValue d m rt v src res)"
  unfolding selectValue_def split_def Let_def
  by (intro resolutions_put model_choice_ok) (auto split: option.splits dest: resolutions_lookup)

lemma deleteResolutionField_ok:
  assumes "resolutions_ok res"
  shows "resolutions_ok (deleteResolutionField m rt res)"
proof (cases "map_of res m")
  case (Some r)
  note r = resolutions_lookup [OF assms Some]
  define r3 where "r3 = (let r1 = obj_delete rt r; r2 = (if rt = billing_expr then obj_delete billing_mode r1 else r1)
    in if rt = billing_mode then obj_delete billing_expr r2 else r2)"
  have eq: "deleteResolutionField m rt res = (if r3 = [] then obj_delete m res else obj_put m r3 res)"
    by (simp add: deleteResolutionField_def Some r3_def Let_def)
  have f: "has_field k r3 \<Longrightarrow> has_field k r" for k by (auto simp: r3_def Let_def split: if_splits)
  have "distinct (map fst r3)" using r by (auto simp: r3_def Let_def resolution_ok_def intro!: distinct_delete)
  moreover have "has_field billing_expr r3 \<Longrightarrow> has_field billing_mode r3"
    using resolution_okD(3) [OF r] by (auto simp: r3_def Let_def split: if_splits)
  ultimately have "resolution_ok r3" if "r3 \<noteq> []" using that f resolution_okD(2) [OF r] by (intro resolution_okI) auto
  then show ?thesis unfolding eq using assms resolutions_put resolutions_delete by auto
qed (simp add: deleteResolutionField_def assms)

lemma toggle_ok: "resolutions_ok (rs_resolutions st) \<Longrightarrow> src \<noteq> [] \<Longrightarrow> resolutions_ok (rs_resolutions (toggle_cell row rt src b st))"
  by (simp add: toggle_cell_def selectValue_ok deleteResolutionField_ok)

lemma fold_toggle_ok:
  "resolutions_ok (rs_resolutions st) \<Longrightarrow> src \<noteq> [] \<Longrightarrow> resolutions_ok (rs_resolutions (fold (\<lambda>(row, rt) s. toggle_cell row rt src True s) cells st))"
  by (induction cells arbitrary: st) (auto simp: toggle_ok)

lemma fold_delete_ok: "resolutions_ok res \<Longrightarrow> resolutions_ok (fold (\<lambda>(row, rt). deleteResolutionField (row_model row) rt) cells res)"
  by (induction cells arbitrary: res) (auto simp: deleteResolutionField_ok)

lemma bulk_ok: "resolutions_ok (rs_resolutions st) \<Longrightarrow> src \<noteq> [] \<Longrightarrow> resolutions_ok (rs_resolutions (handleBulkSelect lower src b st))"
  by (simp add: handleBulkSelect_def fold_toggle_ok fold_delete_ok)

lemma ratio_field_category: "f \<in> set ratioSyncFields \<Longrightarrow> getBillingCategory f = RatioBilling"
proof -
  have "list_all (\<lambda>f. getBillingCategory f = RatioBilling) ratioSyncFields" by code_simp
  then show "f \<in> set ratioSyncFields \<Longrightarrow> getBillingCategory f = RatioBilling" by (simp add: list_all_iff)
qed

section \<open>Reachable states\<close>

text \<open>All events of the page. The server gives every column a name, which holds the number of its channel.\<close>

inductive sync_step :: "price_sync \<Rightarrow> price_sync \<Rightarrow> bool" where
  open_step: "open_dialog st = (b, st') \<Longrightarrow> sync_step st st'"
| close_step: "sync_step st (handleModalClose st)"
| channels_step: "fetchAllChannels answer st = (ns, st') \<Longrightarrow> sync_step st st'"
| choose_step: "sync_step st (st\<lparr>rs_selectedChannelIds := ids\<rparr>)"
| endpoint_step: "sync_step st (updateChannelEndpoint i endpoint st)"
| confirm_step: "confirmChannelSelection st = (ns, req, st') \<Longrightarrow> sync_step st st'"
| prices_step: "fetchRatiosFromChannels answer st = (ns, st') \<Longrightarrow> sync_step st st'"
| cell_step: "upName \<noteq> [] \<Longrightarrow> sync_step st (toggle_cell row rt upName b st)"
| bulk_step: "upName \<noteq> [] \<Longrightarrow> sync_step st (handleBulkSelect lower upName b st)"
| search_step: "sync_step st (setSearchKeyword keyword st)"
| filter_step: "sync_step st (setRatioTypeFilter ft st)"
| page_step: "sync_step st (page_change page sz st)"
| size_step: "sync_step st (size_change sz st)"
| ask_step: "applySync t server options st = AskFirst st' \<Longrightarrow> sync_step st st'"
| apply_step: "applySync t server options st = Applied r \<Longrightarrow> sync_step st (sr_state r)"
| confirmed_step: "confirm_conflicts server options st = Inr r \<Longrightarrow> sync_step st (sr_state r)"
| confirm_fails_step: "confirm_conflicts server options st = Inl (e, st') \<Longrightarrow> sync_step st st'"
| cancel_step: "sync_step st (cancel_conflicts st)"

definition sync_reachable :: "price_sync \<Rightarrow> bool" where
  "sync_reachable st \<longleftrightarrow> sync_step\<^sup>*\<^sup>* initial_sync st"

lemma performSync_resolutions:
  "performSync server current st = Inr r \<Longrightarrow> rs_resolutions (sr_state r) = rs_resolutions st \<or> rs_resolutions (sr_state r) = []"
  by (auto simp: performSync_def Let_def split: sum.splits option.splits bool.splits)

lemma no_resolutions [simp]: "resolutions_ok []"
  by (simp add: resolutions_ok_def)

lemma applied_ok: "applySync t server options st = Applied r \<Longrightarrow> resolutions_ok (rs_resolutions st) \<Longrightarrow> resolutions_ok (rs_resolutions (sr_state r))"
  by (auto simp: applySync_def dest!: performSync_resolutions split: sum.splits if_splits)

lemma confirmed_ok: "confirm_conflicts server options st = Inr r \<Longrightarrow> resolutions_ok (rs_resolutions st) \<Longrightarrow> resolutions_ok (rs_resolutions (sr_state r))"
  by (auto simp: confirm_conflicts_def dest!: performSync_resolutions split: sum.splits)

lemma channels_resolutions: "rs_resolutions (snd (fetchAllChannels answer st)) = rs_resolutions st"
  by (simp add: fetchAllChannels_def channels_loaded_def Let_def split: sum.split jsval.split)

lemma prices_resolutions: "rs_resolutions (snd (fetchRatiosFromChannels answer st)) \<in> {rs_resolutions st, []}"
  by (simp add: fetchRatiosFromChannels_def Let_def split: sum.split jsval.split)

lemma sync_step_ok: "sync_step st st' \<Longrightarrow> resolutions_ok (rs_resolutions st) \<Longrightarrow> resolutions_ok (rs_resolutions st')"
proof (induction rule: sync_step.induct)
  case (channels_step answer st ns st')
  then have "rs_resolutions st' = rs_resolutions st" using channels_resolutions [of answer st] by simp
  then show ?case using channels_step by simp
next
  case (prices_step answer st ns st')
  then have "rs_resolutions st' = rs_resolutions st \<or> rs_resolutions st' = []" using prices_resolutions [of answer st] by simp
  then show ?case using prices_step by auto
next
  case (ask_step t server options st st')
  then show ?case by (auto simp: applySync_def split: sum.splits if_splits)
next
  case (confirm_fails_step server options st e st')
  then show ?case by (auto simp: confirm_conflicts_def split: sum.splits)
qed (auto simp: open_dialog_def handleModalClose_def updateChannelEndpoint_def confirmChannelSelection_def toggle_ok bulk_ok
    setSearchKeyword_def setRatioTypeFilter_def page_change_def size_change_def cancel_conflicts_def Let_def applied_ok confirmed_ok split: if_splits)

lemma selection_ok:
  assumes "sync_reachable st"
  shows "resolutions_ok (rs_resolutions st)"
  using assms unfolding sync_reachable_def
  by (induction rule: rtranclp_induct) (simp_all add: initial_sync_def sync_step_ok)

text \<open>
  C11: in every reachable state the selection of a model is not empty, never has a fixed price together with a ratio, and has a billing mode
  whenever it has an expression.
\<close>

theorem sync_selection_invariant:
  assumes "sync_reachable st" and "map_of (rs_resolutions st) m = Some r"
  shows "r \<noteq> [] \<and> \<not> (has_field model_price r \<and> (\<exists>f \<in> set ratioSyncFields. has_field f r)) \<and> (has_field billing_expr r \<longrightarrow> has_field billing_mode r)"
  using resolutions_lookup [OF selection_ok [OF assms(1)] assms(2)] ratio_field_category by (auto simp: resolution_ok_def has_field_def)

section \<open>One kind of billing\<close>

definition known_selection :: "resolutions \<Rightarrow> bool" where
  "known_selection res \<longleftrightarrow> (\<forall>(m, r) \<in> set res. fst ` set r \<subseteq> set syncFieldOrder)"

lemma known_selectionD: "resolutions_ok res \<Longrightarrow> known_selection res \<Longrightarrow> \<forall>r \<in> snd ` set res. known_resolution r"
  by (fastforce simp: resolutions_ok_def resolution_ok_def known_selection_def known_resolution_def)

lemma known_fields_option: "fst ` set r \<subseteq> set syncFieldOrder \<Longrightarrow> \<forall>(f, v) \<in> set r. optionKeyBySyncField f \<in> set syncOptions"
  using option_key_known by force

lemma sync_sends:
  assumes "known_selection (rs_resolutions st)"
  obtains fr r where "finalRatios_of current (rs_resolutions st) = Inr fr" and "performSync server current st = Inr r"
    and "sr_sent r = option_updates fr"
proof -
  have "\<not> (\<exists>(m, r) \<in> set (rs_resolutions st). \<exists>(f, v) \<in> set r. optionKeyBySyncField f \<notin> set syncOptions)"
    using assms known_fields_option by (fastforce simp: known_selection_def)
  then have "\<not> (\<exists>e. performSync server current st = Inl e)" using performSync_fails [of server current st] by blast
  then obtain r where r: "performSync server current st = Inr r" by (cases "performSync server current st") auto
  then obtain fr where "finalRatios_of current (rs_resolutions st) = Inr fr" "sr_sent r = option_updates fr"
    by (auto simp: performSync_def Let_def split: sum.splits option.splits bool.splits)
  then show ?thesis using r by (intro that)
qed

text \<open>
  C10: applying a selection of known fields sends for every option an object that has, at a selected model, the value of the selection; where
  the selection brings the other kind of billing, nothing; and everything else as it was.
\<close>

theorem synced_options:
  assumes "sync_reachable st" and "known_selection (rs_resolutions st)"
  shows "\<exists>fr r. performSync server current st = Inr r \<and> sr_sent r = option_updates fr
    \<and> (\<forall>f \<in> set syncFieldOrder. \<forall>m. final_at fr (optionKeyBySyncField f) m
        = (case map_of (rs_resolutions st) m of Some r \<Rightarrow> option_after r f (current_at current (optionKeyBySyncField f) m)
                                              | None \<Rightarrow> current_at current (optionKeyBySyncField f) m))"
proof -
  have ok: "resolutions_ok (rs_resolutions st)" using assms(1) by (rule selection_ok)
  then have "distinct (map fst (rs_resolutions st))" by (simp add: resolutions_ok_def)
  then show ?thesis using sync_sends [OF assms(2)] synced_at known_selectionD [OF ok assms(2)] by metis
qed

lemma single_billing:
  assumes "resolutions_ok res" and "known_selection res" and "finalRatios_of current res = Inr fr"
    and "map_of res m = Some r" and "newCategory r \<noteq> TieredBilling"
  shows "final_at fr priceOption m = None \<or> (\<forall>k \<in> set ratioOptions. final_at fr k m = None)"
proof -
  note r = resolutions_lookup [OF assms(1,4)]
  have d: "distinct (map fst res)" using assms(1) by (simp add: resolutions_ok_def)
  note at = synced_at [OF assms(3) d known_selectionD [OF assms(1,2)], of _ m]
  have none: "map_of r f = None" if "\<not> has_field f r" for f using that by (simp add: has_field_def map_of_eq_None_iff)
  show ?thesis
  proof (cases "has_field model_price r")
    case True
    have "final_at fr (optionKeyBySyncField f) m = None" if f: "f \<in> set ratioSyncFields" for f
    proof -
      have "\<not> has_field f r" using resolution_okD(2) [OF r True] ratio_field_category [OF f] by blast
      then show ?thesis using at [of f] fields_known(1) f assms(4) none True by (auto simp: option_after_def replaced_def)
    qed
    then show ?thesis unfolding ratio_option_keys(1) [symmetric] by auto
  next
    case False
    then have "\<exists>g \<in> set ratioSyncFields. has_field g r" using assms(5) by (auto simp: newCategory_def list_ex_iff split: if_splits)
    then have "final_at fr (optionKeyBySyncField model_price) m = None"
      using at [OF fields_known(2)] assms(4) none [OF False] by (simp add: option_after_def replaced_def)
    then show ?thesis by (simp add: ratio_option_keys(2))
  qed
qed

text \<open>
  C12: a model that gets a price or ratios has only one of them in the options that are sent, whatever it had before.
\<close>

theorem synced_model_single_billing:
  assumes "sync_reachable st" and "known_selection (rs_resolutions st)"
    and "map_of (rs_resolutions st) m = Some r" and "newCategory r \<noteq> TieredBilling"
  shows "\<exists>fr res. performSync server current st = Inr res \<and> sr_sent res = option_updates fr
    \<and> (final_at fr priceOption m = None \<or> (\<forall>k \<in> set ratioOptions. final_at fr k m = None))"
  using sync_sends [OF assms(2)] single_billing [OF selection_ok [OF assms(1)] assms(2) _ assms(3,4)] by metis

section \<open>Confirmation\<close>

text \<open>Whether a model has a fixed price or ratios of its own now.\<close>

definition has_price :: "option_values \<Rightarrow> jsstr \<Rightarrow> bool" where
  "has_price current m \<longleftrightarrow> js_prop (option_at current ''ModelPrice'') m \<noteq> JUndef"

definition has_ratio :: "option_values \<Rightarrow> jsstr \<Rightarrow> bool" where
  "has_ratio current m \<longleftrightarrow> (\<exists>k \<in> {''ModelRatio'', ''CompletionRatio'', ''CacheRatio'', ''CreateCacheRatio'', ''ImageRatio'', ''AudioRatio'', ''AudioCompletionRatio''}.
     js_prop (option_at current k) m \<noteq> JUndef)"

definition changes_billing :: "option_values \<Rightarrow> jsstr \<times> resolution \<Rightarrow> bool" where
  "changes_billing current entry \<longleftrightarrow> (case entry of (m, r) \<Rightarrow>
     (has_price current m \<and> newCategory r = RatioBilling) \<or> (\<not> has_price current m \<and> has_ratio current m \<and> newCategory r = PriceBilling))"

definition readable_options :: "option_values \<Rightarrow> bool" where
  "readable_options current \<longleftrightarrow> (\<forall>k \<in> set syncOptions. case map_of current k of Some v \<Rightarrow> \<not> is_nullish v | None \<Rightarrow> False)"

lemma some_defined_ok: "\<forall>v \<in> set vs. \<not> is_nullish v \<Longrightarrow> some_defined vs m = Inr (\<exists>v \<in> set vs. js_prop v m \<noteq> JUndef)"
  by (induction vs) auto

lemma readable_at: "readable_options current \<Longrightarrow> js k \<in> set syncOptions \<Longrightarrow> \<not> is_nullish (option_at current k)"
  by (force simp: readable_options_def option_at_def split: option.splits)

lemma option_names: "js ''ModelPrice'' \<in> set syncOptions" "js ''ModelRatio'' \<in> set syncOptions" "js ''CompletionRatio'' \<in> set syncOptions"
  "js ''CacheRatio'' \<in> set syncOptions" "js ''CreateCacheRatio'' \<in> set syncOptions" "js ''ImageRatio'' \<in> set syncOptions"
  "js ''AudioRatio'' \<in> set syncOptions" "js ''AudioCompletionRatio'' \<in> set syncOptions"
  by (simp_all add: sync_options)

lemma local_category:
  "readable_options current \<Longrightarrow> getLocalBillingCategory current m
    = Inr (if has_price current m then Some PriceBilling else if has_ratio current m then Some RatioBilling else None)"
  using readable_at [of current] option_names
  by (auto simp: getLocalBillingCategory_def some_defined_ok has_price_def has_ratio_def split: bool.splits)

lemma model_conflict_iff:
  assumes "readable_options current"
  shows "\<exists>cs. model_conflict t d current entry = Inr cs \<and> (cs = [] \<longleftrightarrow> \<not> changes_billing current entry)"
proof -
  obtain m r where e: "entry = (m, r)" by (cases entry)
  have "\<not> is_nullish (option_at current ''CompletionRatio'')" using readable_at [OF assms option_names(3)] .
  then have "currentDesc t current m c \<noteq> Inl x" for c x by (simp add: currentDesc_def)
  then show ?thesis
    by (cases "newCategory r") (auto simp: e model_conflict_def local_category [OF assms] changes_billing_def Let_def split: sum.splits)
qed

lemma find_conflicts_iff:
  assumes "readable_options current"
  shows "\<exists>cs. find_conflicts t d current res = Inr cs \<and> (cs = [] \<longleftrightarrow> (\<forall>entry \<in> set res. \<not> changes_billing current entry))"
proof (induction res)
  case (Cons entry res)
  then show ?case using model_conflict_iff [OF assms, of t d entry] by auto
qed simp

text \<open>
  Applying asks for confirmation exactly when some model changes between a fixed price and ratios.
\<close>

theorem applySync_asks_iff:
  assumes "currentRatios options = Inr current" and "readable_options current"
  shows "(\<exists>st'. applySync t server options st = AskFirst st') \<longleftrightarrow> (\<exists>entry \<in> set (rs_resolutions st). changes_billing current entry)"
  using find_conflicts_iff [OF assms(2), of t "rs_differences st" "rs_resolutions st"] assms(1)
  by (auto simp: applySync_def split: sum.splits)

section \<open>A column's checkbox\<close>

lemma chosen_delete:
  assumes "rs_resolutions st' = deleteResolutionField m' rt' (rs_resolutions st)" and "chosen st m rt = JUndef \<or> (m', rt') = (m, rt)"
  shows "chosen st' m rt = JUndef"
  using assms by (auto simp: chosen_def deleteResolutionField_def Let_def split: option.splits if_splits)

lemma chosen_delete_all:
  assumes "chosen st m rt = JUndef \<or> (\<exists>row. (row, rt) \<in> set cells \<and> row_model row = m)"
  shows "chosen (st\<lparr>rs_resolutions := fold (\<lambda>(row, rt). deleteResolutionField (row_model row) rt) cells (rs_resolutions st)\<rparr>) m rt = JUndef"
  using assms
proof (induction cells arbitrary: st)
  case (Cons c cells)
  let ?st = "st\<lparr>rs_resolutions := deleteResolutionField (row_model (fst c)) (snd c) (rs_resolutions st)\<rparr>"
  have "chosen ?st m rt = JUndef \<or> (\<exists>row. (row, rt) \<in> set cells \<and> row_model row = m)"
    using Cons.prems chosen_delete [of ?st "row_model (fst c)" "snd c" st m rt] by (cases c) auto
  then show ?case using Cons.IH [of ?st] by (simp add: split_def)
qed (simp add: chosen_def)

text \<open>
  Clearing the checkbox of a column clears the selection of every field for which the service has an entry, also of fields that were selected
  from another column because this one has the local value.
\<close>

theorem bulk_uncheck_drops_choices:
  assumes "(row, rt) \<in> set (shown_cells lower st)" and "row_value row rt upName \<noteq> JUndef"
  shows "chosen (handleBulkSelect lower upName False st) (row_model row) rt = JUndef"
  using assms chosen_delete_all [of st "row_model row" rt "filter (\<lambda>(row, rt). row_value row rt upName \<noteq> JUndef) (shown_cells lower st)"]
  by (auto simp: handleBulkSelect_def)

section \<open>An example\<close>

text \<open>
  Two services: \<open>A\<close> has another ratio for model \<open>m\<close> where \<open>B\<close> has the local one, and \<open>B\<close> has another ratio for model \<open>n\<close>. Both
  differences are selected; \<open>m\<close> has a fixed price now.
\<close>

definition sample_types :: "(string \<times> jsval) list \<Rightarrow> jsval" where
  "sample_types ups = JObj [(js ''model_ratio'', JObj [(js ''current'', JNull), (js ''upstreams'', JObj (map (\<lambda>(k, v). (js k, v)) ups))])]"

definition sample_m :: jsval where "sample_m = sample_types [(''A'', JNum (Fin 2)), (''B'', JStr (js ''same''))]"
definition sample_n :: jsval where "sample_n = sample_types [(''B'', JNum (Fin 3))]"

definition sample_answer :: jsval where
  "sample_answer = JObj [(js ''success'', JBool True), (js ''data'', JObj [(js ''differences'', JObj [(js ''m'', sample_m), (js ''n'', sample_n)])])]"

definition row_m :: sync_row where "row_m = \<lparr>row_model = js ''m'', row_types = sample_m, row_conflict = False\<rparr>"
definition row_n :: sync_row where "row_n = \<lparr>row_model = js ''n'', row_types = sample_n, row_conflict = False\<rparr>"

definition sample_sync :: price_sync where
  "sample_sync = toggle_cell row_n (js ''model_ratio'') (js ''B'') True (toggle_cell row_m (js ''model_ratio'') (js ''A'') True
     (snd (fetchRatiosFromChannels (Inr sample_answer) initial_sync)))"

lemma sync_reachable_step: "sync_reachable st \<Longrightarrow> sync_step st st' \<Longrightarrow> sync_reachable st'"
  by (simp add: sync_reachable_def)

lemma sample_reachable: "sync_reachable sample_sync"
proof -
  let ?s1 = "snd (fetchRatiosFromChannels (Inr sample_answer) initial_sync)"
  have ne: "js ''A'' \<noteq> []" "js ''B'' \<noteq> []" by (simp_all add: js_def)
  have "sync_reachable initial_sync" by (simp add: sync_reachable_def)
  then have "sync_reachable ?s1" by (rule sync_reachable_step) (rule prices_step [OF surjective_pairing])
  then have "sync_reachable (toggle_cell row_m (js ''model_ratio'') (js ''A'') True ?s1)" by (rule sync_reachable_step) (rule cell_step [OF ne(1)])
  then show ?thesis unfolding sample_sync_def by (rule sync_reachable_step) (rule cell_step [OF ne(2)])
qed

lemma sample_resolutions:
  "rs_resolutions sample_sync = [(js ''m'', [(js ''model_ratio'', JNum (Fin 2))]), (js ''n'', [(js ''model_ratio'', JNum (Fin 3))])]"
  by code_simp

definition sample_options :: "jsstr \<rightharpoonup> jsstr" where
  "sample_options k = (if k = js ''ModelPrice'' then Some (js ''{\"m\":\"1\"}'') else None)"

definition sample_current :: option_values where
  "sample_current = map (\<lambda>k. (k, if k = priceOption then JObj [(js ''m'', JStr (js ''1''))] else JObj [])) syncOptions"

lemma sample_parsed: "currentRatios sample_options = Inr sample_current"
  by code_simp

lemma sample_options_readable: "readable_options sample_current"
  by code_simp

lemma sample_known: "known_selection (rs_resolutions sample_sync)"
  unfolding sample_resolutions by (simp add: known_selection_def sync_fields)

lemma sample_values:
  "map_of (rs_resolutions sample_sync) (js ''m'') = Some [(js ''model_ratio'', JNum (Fin 2))]"
  by (simp add: sample_resolutions)

theorem sync_selection_invariant_witness:
  "\<not> (has_field model_price [(js ''model_ratio'', JNum (Fin 2))] \<and> (\<exists>f \<in> set ratioSyncFields. has_field f [(js ''model_ratio'', JNum (Fin 2))]))"
  using sync_selection_invariant [OF sample_reachable sample_values] by blast

theorem synced_options_witness:
  "\<exists>fr r. performSync (\<lambda>_. Inr []) sample_current sample_sync = Inr r \<and> sr_sent r = option_updates fr
    \<and> final_at fr (js ''ModelRatio'') (js ''m'') = Some (JNum (Fin 2)) \<and> final_at fr (js ''ModelPrice'') (js ''m'') = None"
proof -
  have f: "js ''model_ratio'' \<in> set syncFieldOrder" "model_price \<in> set syncFieldOrder" by (simp_all add: sync_fields)
  have k: "optionKeyBySyncField (js ''model_ratio'') = js ''ModelRatio''" "optionKeyBySyncField model_price = js ''ModelPrice''"
    by (code_simp, code_simp)
  have v: "option_after [(js ''model_ratio'', JNum (Fin 2))] (js ''model_ratio'') old = Some (JNum (Fin 2))" for old
    using synced_number [of "Fin 2"] binary64_numeral [of "num.Bit0 num.One"] by (simp add: option_after_def)
  have p: "option_after [(js ''model_ratio'', JNum (Fin 2))] model_price old = None" for old
    by (simp add: option_after_def replaced_def has_field_def sync_fields js_def)
  obtain fr r where r: "performSync (\<lambda>_. Inr []) sample_current sample_sync = Inr r" "sr_sent r = option_updates fr"
    and at: "\<forall>f \<in> set syncFieldOrder. \<forall>m. final_at fr (optionKeyBySyncField f) m
        = (case map_of (rs_resolutions sample_sync) m of Some r \<Rightarrow> option_after r f (current_at sample_current (optionKeyBySyncField f) m)
                                              | None \<Rightarrow> current_at sample_current (optionKeyBySyncField f) m)"
    using synced_options [OF sample_reachable sample_known, of "\<lambda>_. Inr []" sample_current] by blast
  have "final_at fr (js ''ModelRatio'') (js ''m'') = Some (JNum (Fin 2))" using bspec [OF at f(1)] k(1) v sample_values by simp
  moreover have "final_at fr (js ''ModelPrice'') (js ''m'') = None" using bspec [OF at f(2)] k(2) p sample_values by simp
  ultimately show ?thesis using r by blast
qed

theorem synced_model_single_billing_witness:
  "\<exists>fr res. performSync (\<lambda>_. Inr []) sample_current sample_sync = Inr res \<and> sr_sent res = option_updates fr
    \<and> (final_at fr priceOption (js ''m'') = None \<or> (\<forall>k \<in> set ratioOptions. final_at fr k (js ''m'') = None))"
proof -
  have "newCategory [(js ''model_ratio'', JNum (Fin 2))] = RatioBilling" by (simp add: newCategory_def has_field_def sync_fields js_def)
  then show ?thesis using synced_model_single_billing [OF sample_reachable sample_known sample_values] by simp
qed

theorem applySync_asks_iff_witness: "\<exists>st'. applySync (\<lambda>s. s) (\<lambda>_. Inr []) sample_options sample_sync = AskFirst st'"
proof -
  have "changes_billing sample_current (js ''m'', [(js ''model_ratio'', JNum (Fin 2))])" by code_simp
  then have "\<exists>entry \<in> set (rs_resolutions sample_sync). changes_billing sample_current entry" by (auto simp: sample_resolutions)
  then show ?thesis using applySync_asks_iff [OF sample_parsed sample_options_readable] by blast
qed

theorem bulk_uncheck_drops_choices_witness:
  "chosen sample_sync (js ''m'') (js ''model_ratio'') = JNum (Fin 2) \<and> row_value row_m (js ''model_ratio'') (js ''B'') = JStr (js ''same'')
    \<and> chosen (handleBulkSelect (\<lambda>s. s) (js ''B'') False sample_sync) (js ''m'') (js ''model_ratio'') = JUndef"
proof -
  have "row_value row_m (js ''model_ratio'') (js ''B'') = JStr (js ''same'')" by code_simp
  moreover have "chosen sample_sync (js ''m'') (js ''model_ratio'') = JNum (Fin 2)" by (simp add: chosen_def sample_values)
  moreover have "(row_m, js ''model_ratio'') \<in> set (shown_cells (\<lambda>s. s) sample_sync)" by code_simp
  ultimately show ?thesis using bulk_uncheck_drops_choices [of row_m "js ''model_ratio''" "\<lambda>s. s" sample_sync "js ''B''"] by (simp add: row_m_def)
qed

end
