(* ===== verification/ChannelTable.thy ===== *)
theory ChannelTable
  imports UpstreamUpdate JsDecimal
begin

text \<open>
  The channel table of \<open>src/web/src/hooks/channels/useChannelsData.jsx\<close>: the rows made from the channels of the server, grouped by tag when
  tags are shown, the handlers that change rows, the counts of the tabs, and the requests that fill the table. Quotas and times of a
  channel are numbers.
\<close>

section \<open>Rows\<close>

record table_channel =
  tc_data :: jsval               \<comment> \<open>the channel as the server sent it\<close>
  tc_key :: jsstr
  tc_meta :: upstream_meta       \<comment> \<open>\<open>upstreamUpdateMeta\<close>\<close>

record tag_row =
  tr_tag :: jsstr                \<comment> \<open>also its \<open>key\<close> and \<open>id\<close>\<close>
  tr_priority :: jsval
  tr_weight :: jsval
  tr_group :: jsval
  tr_status :: jsval
  tr_used_quota :: jsnum
  tr_response_time :: jsnum
  tr_children :: "table_channel list"

datatype table_row = ChannelRow table_channel | TagRow tag_row

definition tc_prop :: "table_channel \<Rightarrow> string \<Rightarrow> jsval" where
  "tc_prop c k = js_prop (tc_data c) (js k)"

definition format_channel :: "jsval \<Rightarrow> js_error + table_channel" where
  "format_channel channel =
     (if is_nullish channel then Inl TypeError
      else case parseUpstreamUpdateMeta (js_prop channel (js ''settings'')) of
             Inl e \<Rightarrow> Inl e
           | Inr meta \<Rightarrow> Inr \<lparr>tc_data = channel, tc_key = js_to_string (js_prop channel (js ''id'')), tc_meta = meta\<rparr>)"

definition tag_of :: "table_channel \<Rightarrow> jsstr" where
  "tag_of c = js_to_string (js_or (tc_prop c ''tag'') (JStr []))"

definition new_tag_row :: "jsstr \<Rightarrow> tag_row" where
  "new_tag_row tag =
     \<lparr>tr_tag = tag, tr_priority = JNum (Fin (- 1)), tr_weight = JNum (Fin (- 1)), tr_group = JStr [], tr_status = JUndef,
      tr_used_quota = Fin 0, tr_response_time = Fin 0, tr_children = []\<rparr>"

text \<open>A priority or weight of the row: that of its channels, or blank when they differ; \<open>-1\<close> stands for none yet.\<close>

definition merge_shown :: "jsval \<Rightarrow> jsval \<Rightarrow> jsval" where
  "merge_shown old new = (if old = JNum (Fin (- 1)) then new else if old \<noteq> new then JStr [] else old)"

definition add_group :: "jsstr \<Rightarrow> jsstr \<Rightarrow> jsstr" where
  "add_group item text = (if str_includes text item then text else text @ js '','' @ item)"

definition merge_group :: "jsval \<Rightarrow> jsval \<Rightarrow> js_error + jsval" where
  "merge_group old new =
     (if old = JStr [] then Inr new
      else case (old, new) of
             (JStr text, JStr g) \<Rightarrow> Inr (JStr (fold add_group (split_unit 44 g) text))
           | _ \<Rightarrow> Inl TypeError)"

definition add_channel :: "table_channel \<Rightarrow> tag_row \<Rightarrow> js_error + tag_row" where
  "add_channel c row =
     (case merge_group (tr_group row) (tc_prop c ''group'') of
        Inl e \<Rightarrow> Inl e
      | Inr merged \<Rightarrow>
          Inr (row\<lparr>tr_priority := merge_shown (tr_priority row) (tc_prop c ''priority''), tr_weight := merge_shown (tr_weight row) (tc_prop c ''weight''),
            tr_group := merged, tr_children := tr_children row @ [c],
            tr_status := (if tc_prop c ''status'' = JNum (Fin 1) then JNum (Fin 1) else tr_status row),
            tr_used_quota := num_add (tr_used_quota row) (js_to_number (tc_prop c ''used_quota'')),
            tr_response_time := num_div (num_add (tr_response_time row) (js_to_number (tc_prop c ''response_time''))) (Fin 2)\<rparr>))"

text \<open>
  The tags that were seen are kept in a plain object, which also has the properties of every object: a tag with such a name counts as
  seen, and its row is not found.
\<close>

definition inherited_keys :: "jsstr list" where
  "inherited_keys = map js [''constructor'', ''__defineGetter__'', ''__defineSetter__'', ''hasOwnProperty'', ''__lookupGetter__'', ''__lookupSetter__'',
     ''isPrototypeOf'', ''propertyIsEnumerable'', ''toString'', ''valueOf'', ''__proto__'', ''toLocaleString'']"

fun update_first :: "('a \<Rightarrow> bool) \<Rightarrow> ('a \<Rightarrow> js_error + 'a) \<Rightarrow> 'a list \<Rightarrow> js_error + 'a list" where  \<comment> \<open>change what \<open>find\<close> finds\<close>
  "update_first P f [] = Inl TypeError"
| "update_first P f (x # xs) =
     (if P x then (case f x of Inl e \<Rightarrow> Inl e | Inr y \<Rightarrow> Inr (y # xs))
      else case update_first P f xs of Inl e \<Rightarrow> Inl e | Inr ys \<Rightarrow> Inr (x # ys))"

definition tag_step :: "tag_row list \<Rightarrow> table_channel \<Rightarrow> js_error + tag_row list" where
  "tag_step rows c =
     (let tag = tag_of c in
      if tag \<in> set (map tr_tag rows) \<or> tag \<in> set inherited_keys
      then update_first (\<lambda>row. tr_tag row = tag) (add_channel c) rows
      else update_first (\<lambda>row. tr_tag row = tag) (add_channel c) (rows @ [new_tag_row tag]))"

fun tag_rows :: "tag_row list \<Rightarrow> jsval list \<Rightarrow> js_error + tag_row list" where
  "tag_rows rows [] = Inr rows"
| "tag_rows rows (ch # chs) =
     (case format_channel ch of
        Inl e \<Rightarrow> Inl e
      | Inr c \<Rightarrow> (case tag_step rows c of Inl e \<Rightarrow> Inl e | Inr rows' \<Rightarrow> tag_rows rows' chs))"

fun plain_rows :: "jsval list \<Rightarrow> js_error + table_channel list" where
  "plain_rows [] = Inr []"
| "plain_rows (ch # chs) =
     (case format_channel ch of
        Inl e \<Rightarrow> Inl e
      | Inr c \<Rightarrow> (case plain_rows chs of Inl e \<Rightarrow> Inl e | Inr cs \<Rightarrow> Inr (c # cs)))"

definition setChannelFormat :: "jsval list \<Rightarrow> bool \<Rightarrow> js_error + table_row list" where
  "setChannelFormat channels enableTagMode =
     (if enableTagMode then (case tag_rows [] channels of Inl e \<Rightarrow> Inl e | Inr rows \<Rightarrow> Inr (map TagRow rows))
      else (case plain_rows channels of Inl e \<Rightarrow> Inl e | Inr cs \<Rightarrow> Inr (map ChannelRow cs)))"

section \<open>Changing rows\<close>

definition set_prop :: "string \<Rightarrow> jsval \<Rightarrow> table_channel \<Rightarrow> table_channel" where
  "set_prop k v c = c\<lparr>tc_data := JObj (obj_put (js k) v (entries (tc_data c)))\<rparr>"

definition map_channels :: "(table_channel \<Rightarrow> table_channel) \<Rightarrow> table_row list \<Rightarrow> table_row list" where
  "map_channels f rows = map (\<lambda>row. case row of ChannelRow c \<Rightarrow> ChannelRow (f c) | TagRow r \<Rightarrow> TagRow (r\<lparr>tr_children := map f (tr_children r)\<rparr>)) rows"

definition all_channels :: "table_row list \<Rightarrow> table_channel list" where
  "all_channels rows = concat (map (\<lambda>row. case row of ChannelRow c \<Rightarrow> [c] | TagRow r \<Rightarrow> tr_children r) rows)"

definition updateChannelProperty :: "jsval \<Rightarrow> (table_channel \<Rightarrow> table_channel) \<Rightarrow> table_row list \<Rightarrow> table_row list" where
  "updateChannelProperty channelId updateFn rows = map_channels (\<lambda>c. if tc_prop c ''id'' = channelId then updateFn c else c) rows"

datatype tag_action = EnableTag | DisableTag

definition action_status :: "tag_action \<Rightarrow> jsval" where
  "action_status a = JNum (Fin (case a of EnableTag \<Rightarrow> 1 | DisableTag \<Rightarrow> 2))"

text \<open>What a successful change of a tag does; a row of a channel has a tag too when tags are not shown.\<close>

definition manageTag :: "jsstr \<Rightarrow> tag_action \<Rightarrow> table_row list \<Rightarrow> table_row list" where
  "manageTag tag a rows =
     map (\<lambda>row. case row of
         ChannelRow c \<Rightarrow> ChannelRow (if tc_prop c ''tag'' = JStr tag then set_prop ''status'' (action_status a) c else c)
       | TagRow r \<Rightarrow> TagRow (if tr_tag r = tag then r\<lparr>tr_children := map (set_prop ''status'' (action_status a)) (tr_children r), tr_status := action_status a\<rparr> else r))
       rows"

text \<open>\<open>parseInt(s)\<close>, which also reads hexadecimal numbers.\<close>

definition parseInt_auto :: "jsstr \<Rightarrow> jsnum" where
  "parseInt_auto s =
     (let (n, r) = take_sign (trimStart s) in
      if startsWith r (js ''0x'') \<or> startsWith r (js ''0X'') then
        let ds = takeWhile (\<lambda>c. digit_value c \<noteq> None) (drop 2 r); v = radix_literal 16 ds in if n then num_neg v else v
      else parseInt10 s)"

datatype channel_action = Delete | Enable | Disable | Priority jsval | Weight jsval | EnableAll

text \<open>The request of an action: method, path and body. A blank priority or weight sends none.\<close>

definition channel_request :: "jsval \<Rightarrow> channel_action \<Rightarrow> (string \<times> jsstr \<times> jsval) option" where
  "channel_request i action =
     (let status = (\<lambda>n. Some (''put'', js ''/api/channel/status'', JObj [(js ''id'', i), (js ''status'', JNum (Fin n))]));
          partial = (\<lambda>k n. Some (''put'', js ''/api/channel/partial'', JObj [(js ''id'', i), (js k, JNum n)]))
      in case action of
           Delete \<Rightarrow> Some (''delete'', js ''/api/channel/'' @ js_to_string i @ js ''/'', JUndef)
         | Enable \<Rightarrow> status 1
         | Disable \<Rightarrow> status 2
         | Priority v \<Rightarrow> if v = JStr [] then None else partial ''priority'' (parseInt_auto (js_to_string v))
         | Weight v \<Rightarrow> if v = JStr [] then None
             else let w = parseInt_auto (js_to_string v) in partial ''weight'' (if num_lt w (Fin 0) then Fin 0 else w)
         | EnableAll \<Rightarrow> Some (''post'', js ''/api/channel/multi_key/manage'', JObj [(js ''channel_id'', i), (js ''action'', JStr (js ''enable_all_keys''))]))"

text \<open>\<open>Object.assign(record, channel)\<close>, for the row with the key of the record.\<close>

definition assign_channel :: "jsval \<Rightarrow> table_channel \<Rightarrow> table_channel" where
  "assign_channel channel c =
     set_prop ''status'' (js_prop channel (js ''status'')) (c\<lparr>tc_data := JObj (obj_spread (entries (tc_data c)) (entries channel))\<rparr>)"

definition managed_channel :: "channel_action \<Rightarrow> jsstr \<Rightarrow> jsval \<Rightarrow> table_row list \<Rightarrow> table_row list" where
  "managed_channel action recordKey channel rows =
     (if action \<noteq> Delete \<and> truthy channel then map_channels (\<lambda>c. if tc_key c = recordKey then assign_channel channel c else c) rows else rows)"

section \<open>Tabs\<close>

definition count_type :: "table_channel \<Rightarrow> (jsstr \<times> jsnum) list \<Rightarrow> (jsstr \<times> jsnum) list" where
  "count_type c counts =
     (let type = js_to_string (tc_prop c ''type'') in
      obj_put type (num_add (case map_of counts type of Some n \<Rightarrow> n | None \<Rightarrow> Fin 0) (Fin 1)) counts)"

definition channelTypeCounts :: "(jsstr \<times> jsnum) list \<Rightarrow> table_row list \<Rightarrow> (jsstr \<times> jsnum) list" where
  "channelTypeCounts typeCounts rows =
     (if typeCounts \<noteq> [] then typeCounts else fold count_type (all_channels rows) [(js ''all'', Fin (of_nat (length rows)))])"

definition availableTypeKeys :: "(jsstr \<times> jsnum) list \<Rightarrow> jsstr list" where
  "availableTypeKeys counts = js ''all'' # map fst (filter (\<lambda>(k, v). k \<noteq> js ''all'' \<and> num_lt (Fin 0) v) counts)"

section \<open>Requests\<close>

text \<open>
  The page has sent requests for lists of channels. A list is requested with a number; a search is not. A list is requested as a search when
  the form is not empty, and a search as a list when it is.
\<close>

record list_args =
  la_page :: int
  la_pageSize :: int
  la_idSort :: bool
  la_tagMode :: bool
  la_type :: jsstr
  la_status :: jsstr

datatype list_request = ListRequest nat bool list_args | SearchRequest bool list_args  \<comment> \<open>with the number; whether a search, or a list, waits for it\<close>

record channel_page =
  cp_rows :: "table_row list"
  cp_loading :: bool
  cp_searching :: bool
  cp_activePage :: int
  cp_count :: jsval
  cp_typeCounts :: "(jsstr \<times> jsnum) list"
  cp_requestCounter :: nat
  cp_pending :: "list_request list"

record search_form =
  searchKeyword :: jsstr
  searchGroup :: jsstr
  searchModel :: jsstr

definition empty_form :: "search_form \<Rightarrow> bool" where
  "empty_form f \<longleftrightarrow> searchKeyword f = [] \<and> searchGroup f = [] \<and> searchModel f = []"

definition searchChannels :: "search_form \<Rightarrow> bool \<Rightarrow> list_args \<Rightarrow> channel_page \<Rightarrow> channel_page" where
  "searchChannels form fromLoad a st =
     (if empty_form form
      then st\<lparr>cp_searching := True, cp_loading := True, cp_requestCounter := Suc (cp_requestCounter st),
              cp_pending := cp_pending st @ [ListRequest (Suc (cp_requestCounter st)) True a]\<rparr>
      else st\<lparr>cp_searching := True, cp_pending := cp_pending st @ [SearchRequest fromLoad a]\<rparr>)"

definition loadChannels :: "search_form \<Rightarrow> list_args \<Rightarrow> channel_page \<Rightarrow> channel_page" where
  "loadChannels form a st =
     (if \<not> empty_form form then searchChannels form True a (st\<lparr>cp_loading := True\<rparr>)
      else st\<lparr>cp_loading := True, cp_requestCounter := Suc (cp_requestCounter st),
              cp_pending := cp_pending st @ [ListRequest (Suc (cp_requestCounter st)) False a]\<rparr>)"

definition bool_text :: "bool \<Rightarrow> jsstr" where
  "bool_text b = (if b then js ''true'' else js ''false'')"

definition unless_all :: "string \<Rightarrow> jsstr \<Rightarrow> jsstr" where
  "unless_all k v = (if v \<noteq> js ''all'' then js ''&'' @ js k @ js ''='' @ v else [])"

definition request_url :: "search_form \<Rightarrow> list_request \<Rightarrow> jsstr" where
  "request_url form req =
     (case req of
        ListRequest _ _ a \<Rightarrow>
          js ''/api/channel/?p='' @ number_to_string (Fin (of_int (la_page a))) @ js ''&page_size='' @ number_to_string (Fin (of_int (la_pageSize a)))
          @ js ''&id_sort='' @ bool_text (la_idSort a) @ js ''&tag_mode='' @ bool_text (la_tagMode a) @ unless_all ''type'' (la_type a) @ unless_all ''status'' (la_status a)
      | SearchRequest _ a \<Rightarrow>
          js ''/api/channel/search?keyword='' @ searchKeyword form @ js ''&group='' @ searchGroup form @ js ''&model='' @ searchModel form
          @ js ''&id_sort='' @ bool_text (la_idSort a) @ js ''&tag_mode='' @ bool_text (la_tagMode a)
          @ js ''&p='' @ number_to_string (Fin (of_int (la_page a))) @ js ''&page_size='' @ number_to_string (Fin (of_int (la_pageSize a)))
          @ unless_all ''type'' (la_type a) @ unless_all ''status'' (la_status a))"

text \<open>The counts of the tabs with their sum.\<close>

definition type_counts :: "jsval \<Rightarrow> (jsstr \<times> jsnum) list" where
  "type_counts v =
     (let counts = map (\<lambda>(k, n). (k, js_to_number n)) (entries v)
      in obj_put (js ''all'') (foldl num_add (Fin 0) (map snd counts)) counts)"

definition items_of :: "jsval \<Rightarrow> jsval list option" where  \<comment> \<open>the loop over \<open>channels.length\<close> needs an array\<close>
  "items_of v = (case v of JArr xs \<Rightarrow> Some xs | JStr s \<Rightarrow> if s = [] then Some [] else None | _ \<Rightarrow> if is_nullish v then None else Some [])"

text \<open>
  The answer to a list. An outdated one, or one that the interceptor has handled, is dropped; when the channels cannot be shown the
  function throws, and the page stays in its loading state.
\<close>

definition shown_items :: "jsval \<Rightarrow> bool \<Rightarrow> js_error + table_row list" where
  "shown_items v tagMode = (case items_of v of None \<Rightarrow> Inl TypeError | Some xs \<Rightarrow> setChannelFormat xs tagMode)"

definition list_loaded :: "nat \<Rightarrow> list_args \<Rightarrow> jsval option \<Rightarrow> channel_page \<Rightarrow> jsval list \<times> channel_page" where  \<comment> \<open>errors shown, state\<close>
  "list_loaded reqId a res st =
     (case res of
        None \<Rightarrow> ([], st)
      | Some d \<Rightarrow>
          if reqId \<noteq> cp_requestCounter st \<or> is_nullish d then ([], st)
          else if \<not> truthy (js_prop d (js ''success'')) then ([js_prop d (js ''message'')], st\<lparr>cp_loading := False\<rparr>)
          else let data = js_prop d (js ''data''); counts = js_prop data (js ''type_counts'');
                   st1 = (if truthy counts then st\<lparr>cp_typeCounts := type_counts counts\<rparr> else st)
            in (case shown_items (js_prop data (js ''items'')) (la_tagMode a) of
                  Inl _ \<Rightarrow> ([], st1)
                | Inr rows \<Rightarrow> ([], st1\<lparr>cp_rows := rows, cp_count := js_prop data (js ''total''), cp_loading := False\<rparr>)))"

definition list_answer :: "nat \<Rightarrow> bool \<Rightarrow> list_args \<Rightarrow> jsval option \<Rightarrow> channel_page \<Rightarrow> jsval list \<times> channel_page" where
  "list_answer reqId fromSearch a res st =
     (let (errs, st1) = list_loaded reqId a res st in (errs, if fromSearch then st1\<lparr>cp_searching := False\<rparr> else st1))"

definition or_default :: "jsval \<Rightarrow> jsval \<Rightarrow> jsval" where
  "or_default v d = (if v = JUndef then d else v)"

definition search_answer :: "bool \<Rightarrow> list_args \<Rightarrow> jsval option \<Rightarrow> channel_page \<Rightarrow> jsval list \<times> channel_page" where
  "search_answer fromLoad a res st =
     (let done = (\<lambda>st. st\<lparr>cp_searching := False, cp_loading := (cp_loading st \<and> \<not> fromLoad)\<rparr>); thrown = (\<lambda>st. ([], st\<lparr>cp_searching := False\<rparr>)) in
      case res of
        None \<Rightarrow> thrown st
      | Some d \<Rightarrow>
          if is_nullish d then thrown st
          else if \<not> truthy (js_prop d (js ''success'')) then ([js_prop d (js ''message'')], done st)
          else let data = js_prop d (js ''data'') in
            if is_nullish data \<or> is_nullish (or_default (js_prop data (js ''type_counts'')) (JObj [])) then thrown st
            else let st1 = st\<lparr>cp_typeCounts := type_counts (or_default (js_prop data (js ''type_counts'')) (JObj []))\<rparr>
              in (case shown_items (or_default (js_prop data (js ''items'')) (JArr [])) (la_tagMode a) of
                    Inl _ \<Rightarrow> thrown st1
                  | Inr rows \<Rightarrow> ([], done (st1\<lparr>cp_rows := rows, cp_count := or_default (js_prop data (js ''total'')) (JNum (Fin 0)), cp_activePage := la_page a\<rparr>))))"

definition handlePageChange :: "search_form \<Rightarrow> list_args \<Rightarrow> int \<Rightarrow> channel_page \<Rightarrow> channel_page" where
  "handlePageChange form a page st =
     (let st1 = st\<lparr>cp_activePage := page\<rparr>; b = a\<lparr>la_page := page\<rparr> in
      if empty_form form then loadChannels form b st1 else searchChannels form False b st1)"

definition refresh :: "search_form \<Rightarrow> list_args \<Rightarrow> channel_page \<Rightarrow> channel_page" where
  "refresh form a st =
     (let b = a\<lparr>la_page := cp_activePage st\<rparr> in if empty_form form then loadChannels form b st else searchChannels form False b st)"

end
