(* ===== verification/ChannelTest.thy ===== *)
theory ChannelTest
  imports ChannelTable
begin

text \<open>
  Testing the models of a channel, in \<open>src/web/src/hooks/channels/useChannelsData.jsx\<close>: single tests, and the batch test that sends
  five requests at a time, waits for all of them, and can be stopped. The functions run in the render they were created in: they see the
  flag \<open>isBatchTesting\<close> of that render, while the request to stop is a reference that they all share. Answers, timers and
  user actions come in any order.
\<close>

section \<open>State\<close>

record test_result =
  tt_success :: jsval
  tt_message :: jsval
  tt_time :: jsval
  tt_timestamp :: jsnum
  tt_errorCode :: jsval

datatype run_phase = Testing | Waiting | Settling  \<comment> \<open>for answers, for the next batch, for the last results\<close>

record batch_run =
  br_channel :: jsval
  br_models :: "jsstr list"
  br_index :: nat                  \<comment> \<open>\<open>i\<close>, where the batch starts\<close>
  br_pending :: "jsstr list"       \<comment> \<open>models of the batch without an answer\<close>
  br_phase :: run_phase
  br_captured :: bool              \<comment> \<open>\<open>isBatchTesting\<close> of the render the run was started in\<close>

record test_page =
  tp_rows :: "table_row list"
  tp_modal :: bool
  tp_channel :: jsval
  tp_keyword :: jsstr
  tp_results :: "(jsstr \<times> test_result) list"
  tp_testing :: "jsstr list"
  tp_selected :: "jsval list"
  tp_tablePage :: int
  tp_endpoint :: jsstr
  tp_stream :: bool
  tp_isBatch :: bool
  tp_stop :: bool                  \<comment> \<open>\<open>shouldStopBatchTestingRef\<close>\<close>
  tp_runs :: "batch_run list"
  tp_single :: "(bool \<times> jsval \<times> jsstr) list"   \<comment> \<open>single tests without an answer\<close>

definition initial_test :: test_page where
  "initial_test =
     \<lparr>tp_rows = [], tp_modal = False, tp_channel = JNull, tp_keyword = [], tp_results = [], tp_testing = [], tp_selected = [], tp_tablePage = 1,
      tp_endpoint = [], tp_stream = False, tp_isBatch = False, tp_stop = False, tp_runs = [], tp_single = []\<rparr>"

datatype test_notice =
  NoModels | NoMatch | BatchStarted nat | BatchPart nat nat nat | BatchStopped | BatchDone nat nat nat
| TestOk jsval jsstr jsstr | TestFailed jsval | StoppedByUser | ClosedStopped | ResultsCleared

section \<open>One test\<close>

definition test_key :: "jsval \<Rightarrow> jsstr \<Rightarrow> jsstr" where
  "test_key channel model = js_to_string (js_prop channel (js ''id'')) @ js ''-'' @ model"

definition test_url :: "jsval \<Rightarrow> jsstr \<Rightarrow> jsstr \<Rightarrow> bool \<Rightarrow> jsstr" where
  "test_url channel model endpointType stream =
     js ''/api/channel/test/'' @ js_to_string (js_prop channel (js ''id'')) @ js ''?model='' @ model
     @ (if endpointType \<noteq> [] then js ''&endpoint_type='' @ endpointType else []) @ (if stream then js ''&stream=true'' else [])"

text \<open>The part before the request: nothing happens when the run was stopped.\<close>

definition test_starts :: "bool \<Rightarrow> test_page \<Rightarrow> bool" where
  "test_starts captured st \<longleftrightarrow> \<not> (tp_stop st \<and> captured)"

definition add_testing :: "jsstr \<Rightarrow> test_page \<Rightarrow> test_page" where
  "add_testing model st = st\<lparr>tp_testing := (if model \<in> set (tp_testing st) then tp_testing st else tp_testing st @ [model])\<rparr>"

definition put_result :: "jsval \<Rightarrow> jsstr \<Rightarrow> test_result \<Rightarrow> test_page \<Rightarrow> test_page" where
  "put_result channel model r st = st\<lparr>tp_results := obj_put (test_key channel model) r (tp_results st)\<rparr>"

text \<open>
  The texts for an error without a message, as the keys that are passed to the translation.
\<close>

definition network_error :: jsstr where "network_error = [32593, 32476, 38169, 35823]"
definition test_error :: jsstr where "test_error = [27979, 35797, 22833, 36133]"

definition failed_result :: "jsstr \<Rightarrow> jsnum \<Rightarrow> test_result" where
  "failed_result msg now =
     \<lparr>tt_success = JBool False, tt_message = js_or (JStr msg) (JStr network_error), tt_time = JNum (Fin 0), tt_timestamp = now, tt_errorCode = JNull\<rparr>"

definition test_failed :: "jsval \<Rightarrow> jsstr \<Rightarrow> jsstr \<Rightarrow> jsnum \<Rightarrow> test_page \<Rightarrow> test_notice list \<times> test_page" where
  "test_failed channel model msg now st =
     ([TestFailed (js_or (JStr msg) (JStr test_error))], put_result channel model (failed_result msg now) st)"

definition record_time :: "jsval \<Rightarrow> jsnum \<Rightarrow> jsnum \<Rightarrow> test_page \<Rightarrow> test_page" where
  "record_time channel time now st =
     st\<lparr>tp_rows := updateChannelProperty (js_prop channel (js ''id''))
          (\<lambda>c. set_prop ''test_time'' (JNum (num_div now (Fin 1000))) (set_prop ''response_time'' (JNum (num_mul time (Fin 1000))) c)) (tp_rows st)\<rparr>"

text \<open>
  The part after the request, before the final clean-up. The message of a rejected request, or \<open>typeError\<close> when reading the answer throws,
  is recorded as a failure.
\<close>

definition test_answered :: "jsstr \<Rightarrow> jsval \<Rightarrow> jsstr \<Rightarrow> jsstr + jsval \<Rightarrow> jsnum \<Rightarrow> test_page \<Rightarrow> test_notice list \<times> test_page" where
  "test_answered typeError channel model answer now st =
     (case answer of
        Inl msg \<Rightarrow> test_failed channel model msg now st
      | Inr d \<Rightarrow>
          if is_nullish d then test_failed channel model typeError now st
          else let success = js_prop d (js ''success''); time = js_prop d (js ''time'');
                   st1 = put_result channel model
                     \<lparr>tt_success = success, tt_message = js_prop d (js ''message''), tt_time = js_or time (JNum (Fin 0)), tt_timestamp = now,
                      tt_errorCode = js_or (js_prop d (js ''error_code'')) JNull\<rparr> st
            in if \<not> truthy success then ([TestFailed (js_prop d (js ''message''))], st1)
               else (case time of
                       JNum n \<Rightarrow> ([TestOk (js_prop channel (js ''name'')) model (toFixed 2 n)], record_time channel n now st1)
                     | _ \<Rightarrow> test_failed channel model typeError now (record_time channel (js_to_number time) now st1)))"

definition test_finished :: "jsstr \<Rightarrow> bool \<Rightarrow> jsval \<Rightarrow> jsstr \<Rightarrow> jsstr + jsval \<Rightarrow> jsnum \<Rightarrow> test_page \<Rightarrow> test_notice list \<times> test_page" where
  "test_finished typeError captured channel model answer now st =
     (let (ns, st1) = (if tp_stop st \<and> captured \<and> (\<exists>d. answer = Inr d) then ([], st) else test_answered typeError channel model answer now st)
      in (ns, st1\<lparr>tp_testing := filter (\<lambda>m. m \<noteq> model) (tp_testing st1)\<rparr>))"

text \<open>A single test.\<close>

definition testChannel :: "jsval \<Rightarrow> jsstr \<Rightarrow> test_page \<Rightarrow> test_page" where
  "testChannel channel model st =
     (if test_starts (tp_isBatch st) st then (add_testing model st)\<lparr>tp_single := tp_single st @ [(tp_isBatch st, channel, model)]\<rparr> else st)"

section \<open>The batch\<close>

definition concurrencyLimit :: nat where "concurrencyLimit = 5"

definition batch_models :: "(jsstr \<Rightarrow> jsstr) \<Rightarrow> jsstr \<Rightarrow> jsstr \<Rightarrow> jsstr list" where
  "batch_models toLowerCase models keyword = filter (\<lambda>m. str_includes (toLowerCase m) (toLowerCase keyword)) (split_unit 44 models)"

text \<open>The end of a run, also for an error or a stop.\<close>

definition end_run :: "test_page \<Rightarrow> test_page" where
  "end_run st = st\<lparr>tp_isBatch := False\<rparr>"

text \<open>
  The head of the loop: the run ends, is stopped, or sends its next batch. It gives the run when it goes on.
\<close>

definition next_batch :: "batch_run \<Rightarrow> test_page \<Rightarrow> test_notice list \<times> batch_run option \<times> test_page" where
  "next_batch run st =
     (let n = length (br_models run); i = br_index run in
      if n \<le> i then (if tp_stop st then ([], None, end_run st) else ([], Some (run\<lparr>br_phase := Settling, br_pending := []\<rparr>), st))
      else if tp_stop st then ([BatchStopped], None, end_run st)
      else let batch = take concurrencyLimit (drop i (br_models run)) in
        ([BatchPart (i + 1) (min (i + concurrencyLimit) n) n], Some (run\<lparr>br_phase := Testing, br_pending := batch\<rparr>), fold add_testing batch st))"

text \<open>All requests of a batch are settled.\<close>

definition batch_settled :: "batch_run \<Rightarrow> test_page \<Rightarrow> test_notice list \<times> batch_run option \<times> test_page" where
  "batch_settled run st =
     (let i = br_index run + concurrencyLimit in
      if tp_stop st then ([BatchStopped], None, end_run st)
      else if i < length (br_models run) then ([], Some (run\<lparr>br_index := i, br_phase := Waiting\<rparr>), st)
      else ([], Some (run\<lparr>br_index := i, br_phase := Settling\<rparr>), st))"

definition success_count :: "batch_run \<Rightarrow> test_page \<Rightarrow> nat" where
  "success_count run st =
     length (filter (\<lambda>m. case map_of (tp_results st) (test_key (br_channel run) m) of Some r \<Rightarrow> truthy (tt_success r) | None \<Rightarrow> False) (br_models run))"

definition batch_done :: "batch_run \<Rightarrow> test_page \<Rightarrow> test_notice list \<times> test_page" where
  "batch_done run st =
     (let ok = success_count run st; n = length (br_models run) in ([BatchDone ok (n - ok) n], end_run st))"

definition clear_results :: "jsval \<Rightarrow> jsstr list \<Rightarrow> test_page \<Rightarrow> test_page" where
  "clear_results channel models st = st\<lparr>tp_results := fold (\<lambda>m. obj_delete (test_key channel m)) models (tp_results st)\<rparr>"

text \<open>A change of one run in the list of runs.\<close>

definition replace_run :: "nat \<Rightarrow> batch_run option \<Rightarrow> test_page \<Rightarrow> test_page" where
  "replace_run k r st =
     st\<lparr>tp_runs := (case r of Some run \<Rightarrow> (tp_runs st)[k := run] | None \<Rightarrow> take k (tp_runs st) @ drop (Suc k) (tp_runs st))\<rparr>"

definition batchTestModels :: "(jsstr \<Rightarrow> jsstr) \<Rightarrow> test_page \<Rightarrow> test_notice list \<times> test_page" where
  "batchTestModels toLowerCase st =
     (let channel = tp_channel st in
      case (if truthy channel then js_prop channel (js ''models'') else JUndef) of
        JStr text \<Rightarrow>
          (if text = [] then ([NoModels], st)
           else let models = batch_models toLowerCase text (tp_keyword st) in
             if models = [] then ([NoMatch], st)
             else let run = \<lparr>br_channel = channel, br_models = models, br_index = 0, br_pending = [], br_phase = Waiting, br_captured = tp_isBatch st\<rparr>;
                      st1 = clear_results channel models (st\<lparr>tp_isBatch := True, tp_stop := False\<rparr>);
                      (ns, r, st2) = next_batch run st1
               in (BatchStarted (length models) # ns, case r of Some run' \<Rightarrow> st2\<lparr>tp_runs := tp_runs st2 @ [run']\<rparr> | None \<Rightarrow> st2))
      | _ \<Rightarrow> ([NoModels], st))"

text \<open>The answer to a request of a run; the last one of a batch goes on with the run.\<close>

definition run_answer :: "jsstr \<Rightarrow> nat \<Rightarrow> jsstr \<Rightarrow> jsstr + jsval \<Rightarrow> jsnum \<Rightarrow> test_page \<Rightarrow> test_notice list \<times> test_page" where
  "run_answer typeError k model answer now st =
     (let run = tp_runs st ! k; (ns, st1) = test_finished typeError (br_captured run) (br_channel run) model answer now st;
          pending = remove1 model (br_pending run)
      in if pending \<noteq> [] then (ns, replace_run k (Some (run\<lparr>br_pending := pending\<rparr>)) st1)
         else let (ms, r, st2) = batch_settled (run\<lparr>br_pending := []\<rparr>) st1 in (ns @ ms, replace_run k r st2))"

text \<open>The timers: the pause between batches, and the one before the results are counted.\<close>

definition pause_over :: "nat \<Rightarrow> test_page \<Rightarrow> test_notice list \<times> test_page" where
  "pause_over k st = (let (ns, r, st1) = next_batch (tp_runs st ! k) st in (ns, replace_run k r st1))"

definition results_settled :: "nat \<Rightarrow> test_page \<Rightarrow> test_notice list \<times> test_page" where
  "results_settled k st = (let (ns, st1) = batch_done (tp_runs st ! k) st in (ns, replace_run k None st1))"

section \<open>The user\<close>

definition stopBatchTesting :: "test_page \<Rightarrow> test_notice list \<times> test_page" where
  "stopBatchTesting st = ([StoppedByUser], st\<lparr>tp_stop := True, tp_isBatch := False, tp_testing := []\<rparr>)"

definition clearTestResults :: "test_page \<Rightarrow> test_notice list \<times> test_page" where
  "clearTestResults st = ([ResultsCleared], st\<lparr>tp_results := []\<rparr>)"

definition open_test :: "jsval \<Rightarrow> test_page \<Rightarrow> test_page" where
  "open_test channel st = st\<lparr>tp_channel := channel, tp_modal := True\<rparr>"

definition handleCloseModal :: "test_page \<Rightarrow> test_notice list \<times> test_page" where
  "handleCloseModal st =
     ((if tp_isBatch st then [ClosedStopped] else []),
      st\<lparr>tp_stop := (tp_isBatch st \<or> tp_stop st), tp_modal := False, tp_keyword := [], tp_isBatch := False, tp_testing := [], tp_selected := [],
         tp_tablePage := 1, tp_endpoint := [], tp_stream := False\<rparr>)"

end
