(* ===== verification/ChannelFacts.thy ===== *)
theory ChannelFacts
  imports ChannelTest "HOL-Library.Multiset"
begin

text \<open>
  The rows of the channel table group the channels by tag without losing any; what a row shows of its channels; and the batch test: a bound on
  the requests of a run, answers after a stop, and a stopped run that is revived by the next one.
\<close>

section \<open>Grouping by tag\<close>

text \<open>A channel whose group is a text and whose tag is no property of every object.\<close>

definition plain_channel :: "table_channel \<Rightarrow> bool" where
  "plain_channel c \<longleftrightarrow> (\<exists>g. tc_prop c ''group'' = JStr g) \<and> tag_of c \<notin> set inherited_keys"

definition text_group :: "tag_row \<Rightarrow> bool" where
  "text_group row \<longleftrightarrow> (\<exists>g. tr_group row = JStr g)"

definition grow :: "table_channel \<Rightarrow> tag_row \<Rightarrow> tag_row" where
  "grow c row = (case add_channel c row of Inr r \<Rightarrow> r | Inl _ \<Rightarrow> row)"

lemma add_channel_text: "plain_channel c \<Longrightarrow> text_group row \<Longrightarrow> add_channel c row = Inr (grow c row) \<and> text_group (grow c row) \<and> tr_tag (grow c row) = tr_tag row"
  by (auto simp: plain_channel_def text_group_def grow_def add_channel_def merge_group_def split: sum.splits if_splits)

lemma new_row [simp]: "text_group (new_tag_row t)" "tr_tag (new_tag_row t) = t"
  by (simp_all add: text_group_def new_tag_row_def)

lemma update_first_row:
  assumes "plain_channel c" and "\<forall>row \<in> set rows. text_group row" and "distinct (map tr_tag rows)" and "tag_of c \<in> set (map tr_tag rows)"
  shows "update_first (\<lambda>row. tr_tag row = tag_of c) (add_channel c) rows = Inr (map (\<lambda>row. if tr_tag row = tag_of c then grow c row else row) rows)"
  using assms
proof (induction rows)
  case (Cons row rows)
  show ?case
  proof (cases "tr_tag row = tag_of c")
    case True
    then have "map (\<lambda>row. if tr_tag row = tag_of c then grow c row else row) rows = rows"
      using Cons.prems(3) by (intro map_idI) (auto simp: image_iff)
    then show ?thesis using True Cons.prems(1,2) add_channel_text by simp
  qed (use Cons in auto)
qed simp

text \<open>The rows as they are meant: one for each tag, in the order of first occurrence, grown by the channels with this tag.\<close>

definition rows_by_tag :: "table_channel list \<Rightarrow> tag_row list" where
  "rows_by_tag cs = map (\<lambda>t. fold grow (filter (\<lambda>c. tag_of c = t) cs) (new_tag_row t)) (uniq (map tag_of cs))"

lemma fold_grow: "\<forall>c \<in> set cs. plain_channel c \<Longrightarrow> text_group row \<Longrightarrow> text_group (fold grow cs row) \<and> tr_tag (fold grow cs row) = tr_tag row"
  by (induction cs arbitrary: row) (auto simp: add_channel_text)

lemma uniq_snoc: "uniq (xs @ [x]) = (if x \<in> set xs then uniq xs else uniq xs @ [x])"
  by (induction xs) auto

lemma rows_tags:
  assumes "\<forall>c \<in> set cs. plain_channel c"
  shows "map tr_tag (rows_by_tag cs) = uniq (map tag_of cs)" and "\<forall>row \<in> set (rows_by_tag cs). text_group row"
  using assms fold_grow by (auto simp: rows_by_tag_def comp_def intro!: map_idI)

lemma tag_step_rows:
  assumes "\<forall>d \<in> set (cs @ [c]). plain_channel d"
  shows "tag_step (rows_by_tag cs) c = Inr (rows_by_tag (cs @ [c]))"
proof -
  let ?old = "\<forall>d \<in> set cs. plain_channel d"
  have old: ?old and c: "plain_channel c" using assms by auto
  note tags = rows_tags [OF old]
  have inh: "tag_of c \<notin> set inherited_keys" using c by (simp add: plain_channel_def)
  show ?thesis
  proof (cases "tag_of c \<in> set (map tag_of cs)")
    case True
    then have "tag_step (rows_by_tag cs) c = Inr (map (\<lambda>row. if tr_tag row = tag_of c then grow c row else row) (rows_by_tag cs))"
      using update_first_row [OF c tags(2)] tags(1) by (simp add: tag_step_def Let_def)
    also have "map (\<lambda>row. if tr_tag row = tag_of c then grow c row else row) (rows_by_tag cs) = rows_by_tag (cs @ [c])"
      using True old fold_grow by (auto simp: rows_by_tag_def uniq_snoc)
    finally show ?thesis .
  next
    case False
    let ?rows = "rows_by_tag cs @ [new_tag_row (tag_of c)]"
    have "map tr_tag ?rows = uniq (map tag_of cs) @ [tag_of c]" using tags(1) by simp
    then have d: "distinct (map tr_tag ?rows)" "tag_of c \<in> set (map tr_tag ?rows)" using False by auto
    have "tag_step (rows_by_tag cs) c = Inr (map (\<lambda>row. if tr_tag row = tag_of c then grow c row else row) ?rows)"
      using update_first_row [OF c _ d] tags False inh by (simp add: tag_step_def Let_def)
    also have "map (\<lambda>row. if tr_tag row = tag_of c then grow c row else row) ?rows = rows_by_tag (cs @ [c])"
    proof -
      have "tr_tag row \<noteq> tag_of c" if "row \<in> set (rows_by_tag cs)" for row
        using that False tags(1) by (metis image_eqI list.set_map set_uniq)
      then have "map (\<lambda>row. if tr_tag row = tag_of c then grow c row else row) (rows_by_tag cs) = rows_by_tag cs" by (intro map_idI) auto
      moreover have "filter (\<lambda>d. tag_of d = tag_of c) cs = []" using False unfolding filter_empty_conv by (metis image_eqI list.set_map)
      ultimately show ?thesis using False by (auto simp: rows_by_tag_def uniq_snoc)
    qed
    finally show ?thesis .
  qed
qed

lemma tag_rows_append:
  "tag_rows rows (chs @ [ch]) = (case tag_rows rows chs of Inl e \<Rightarrow> Inl e
     | Inr rows' \<Rightarrow> (case format_channel ch of Inl e \<Rightarrow> Inl e | Inr c \<Rightarrow> tag_step rows' c))"
  by (induction rows chs rule: tag_rows.induct) (auto split: sum.splits)

lemma tag_rows_grouped:
  assumes "list_all2 (\<lambda>ch c. format_channel ch = Inr c) chs cs" and "\<forall>c \<in> set cs. plain_channel c"
  shows "tag_rows [] chs = Inr (rows_by_tag cs)"
  using assms
proof (induction chs arbitrary: cs rule: rev_induct)
  case Nil
  then show ?case by (simp add: rows_by_tag_def)
next
  case (snoc ch chs)
  then obtain ds c where cs: "cs = ds @ [c]" "list_all2 (\<lambda>ch c. format_channel ch = Inr c) chs ds" "format_channel ch = Inr c"
    by (auto simp: list_all2_append1 list_all2_Cons1)
  then show ?case using snoc.IH [of ds] snoc.prems(2) tag_step_rows [of ds c] by (simp add: tag_rows_append)
qed

section \<open>What a row shows\<close>

lemma grow_fields:
  assumes "plain_channel c" "text_group row"
  shows "tr_children (grow c row) = tr_children row @ [c]"
    and "tr_status (grow c row) = (if tc_prop c ''status'' = JNum (Fin 1) then JNum (Fin 1) else tr_status row)"
    and "tr_used_quota (grow c row) = num_add (tr_used_quota row) (js_to_number (tc_prop c ''used_quota''))"
    and "tr_priority (grow c row) = merge_shown (tr_priority row) (tc_prop c ''priority'')"
    and "tr_response_time (grow c row) = num_div (num_add (tr_response_time row) (js_to_number (tc_prop c ''response_time''))) (Fin 2)"
  using assms by (auto simp: grow_def add_channel_def plain_channel_def text_group_def merge_group_def split: sum.splits if_splits)

lemma row_children: "\<forall>c \<in> set cs. plain_channel c \<Longrightarrow> text_group row \<Longrightarrow> tr_children (fold grow cs row) = tr_children row @ cs"
  by (induction cs arbitrary: row) (auto simp: grow_fields add_channel_text)

lemma row_status:
  "\<forall>c \<in> set cs. plain_channel c \<Longrightarrow> text_group row \<Longrightarrow>
    tr_status (fold grow cs row) = (if \<exists>c \<in> set cs. tc_prop c ''status'' = JNum (Fin 1) then JNum (Fin 1) else tr_status row)"
  by (induction cs arbitrary: row) (auto simp: grow_fields add_channel_text)

lemma row_quota:
  "\<forall>c \<in> set cs. plain_channel c \<Longrightarrow> text_group row \<Longrightarrow>
    tr_used_quota (fold grow cs row) = foldl num_add (tr_used_quota row) (map (\<lambda>c. js_to_number (tc_prop c ''used_quota'')) cs)"
  by (induction cs arbitrary: row) (auto simp: grow_fields add_channel_text)

text \<open>
  C32: in tag mode the table has one row for each tag, in the order in which the tags first occur. Its children are the channels with this tag
  in their order, it is enabled exactly when one of them is, and its used quota is their sum.
\<close>

theorem tag_table_groups:
  assumes "list_all2 (\<lambda>ch c. format_channel ch = Inr c) chs cs" and "\<forall>c \<in> set cs. plain_channel c"
  shows "\<exists>rows. setChannelFormat chs True = Inr (map TagRow rows) \<and> map tr_tag rows = uniq (map tag_of cs)
    \<and> (\<forall>row \<in> set rows. tr_children row = filter (\<lambda>c. tag_of c = tr_tag row) cs
        \<and> (tr_status row = JNum (Fin 1) \<longleftrightarrow> (\<exists>c \<in> set (tr_children row). tc_prop c ''status'' = JNum (Fin 1)))
        \<and> tr_used_quota row = foldl num_add (Fin 0) (map (\<lambda>c. js_to_number (tc_prop c ''used_quota'')) (tr_children row)))"
proof -
  have "tr_children row = filter (\<lambda>c. tag_of c = tr_tag row) cs
      \<and> (tr_status row = JNum (Fin 1) \<longleftrightarrow> (\<exists>c \<in> set (tr_children row). tc_prop c ''status'' = JNum (Fin 1)))
      \<and> tr_used_quota row = foldl num_add (Fin 0) (map (\<lambda>c. js_to_number (tc_prop c ''used_quota'')) (tr_children row))"
    if row: "row \<in> set (rows_by_tag cs)" for row
  proof -
    from row obtain t where r: "row = fold grow (filter (\<lambda>c. tag_of c = t) cs) (new_tag_row t)" by (auto simp: rows_by_tag_def)
    have p: "\<forall>c \<in> set (filter (\<lambda>c. tag_of c = t) cs). plain_channel c" using assms(2) by auto
    have "tr_tag row = t" using fold_grow [OF p, of "new_tag_row t"] r by simp
    moreover have "tr_children (new_tag_row t) = []" "tr_status (new_tag_row t) = JUndef" "tr_used_quota (new_tag_row t) = Fin 0"
      by (simp_all add: new_tag_row_def)
    ultimately show ?thesis
      using row_children [OF p, of "new_tag_row t"] row_status [OF p, of "new_tag_row t"] row_quota [OF p, of "new_tag_row t"] r by simp
  qed
  then show ?thesis
    using tag_rows_grouped [OF assms] rows_tags(1) [OF assms(2)] by (intro exI [of _ "rows_by_tag cs"]) (simp add: setChannelFormat_def)
qed

text \<open>A channel whose tag is the name of a property of every object breaks the table.\<close>

lemma update_first_none: "\<forall>x \<in> set xs. \<not> P x \<Longrightarrow> update_first P f xs = Inl TypeError"
  by (induction xs) auto

lemma tag_rows_more: "tag_rows rows (chs @ rest) = (case tag_rows rows chs of Inl e \<Rightarrow> Inl e | Inr rows' \<Rightarrow> tag_rows rows' rest)"
  by (induction rows chs rule: tag_rows.induct) (auto split: sum.splits)

theorem reserved_tag_breaks_table:
  assumes "list_all2 (\<lambda>ch c. format_channel ch = Inr c) chs cs" and "\<forall>c \<in> set cs. plain_channel c"
    and "format_channel ch = Inr c" and "tag_of c \<in> set inherited_keys"
  shows "setChannelFormat (chs @ ch # rest) True = Inl TypeError"
proof -
  have "tr_tag row \<noteq> tag_of c" if "row \<in> set (rows_by_tag cs)" for row
  proof -
    have "tr_tag row \<in> tag_of ` set cs" using that rows_tags(1) [OF assms(2)] by (metis image_eqI list.set_map set_uniq)
    then show ?thesis using assms(2,4) by (auto simp: plain_channel_def)
  qed
  then have "tag_step (rows_by_tag cs) c = Inl TypeError" using assms(4) by (auto simp: tag_step_def Let_def update_first_none)
  then show ?thesis using tag_rows_grouped [OF assms(1,2)] assms(3) by (simp add: setChannelFormat_def tag_rows_more)
qed

text \<open>The response time of a row is halved for every channel, also for the only one.\<close>

lemma single_channel_time:
  "plain_channel c \<Longrightarrow> tr_response_time (grow c (new_tag_row t)) = num_div (num_add (Fin 0) (js_to_number (tc_prop c ''response_time''))) (Fin 2)"
  by (simp add: grow_fields) (simp add: new_tag_row_def)

text \<open>A group whose name is part of a text that is shown already is not shown.\<close>

lemma part_of_group_hidden: "str_includes text g \<Longrightarrow> 44 \<notin> set g \<Longrightarrow> text \<noteq> [] \<Longrightarrow> merge_group (JStr text) (JStr g) = Inr (JStr text)"
  by (simp add: merge_group_def split_unit_none add_group_def)

section \<open>The batch test\<close>

inductive test_step :: "test_page \<Rightarrow> test_page \<Rightarrow> bool" where
  opens: "test_step st (open_test channel st)"
| types: "test_step st (st\<lparr>tp_keyword := keyword\<rparr>)"
| sets: "test_step st (st\<lparr>tp_endpoint := e, tp_stream := b, tp_selected := ks, tp_tablePage := n\<rparr>)"
| starts: "\<not> tp_isBatch st \<Longrightarrow> test_step st (snd (batchTestModels lower st))"
| tests: "test_step st (testChannel channel model st)"
| test_ends: "(captured, channel, model) \<in> set (tp_single st) \<Longrightarrow>
    test_step st (snd (test_finished typeError captured channel model answer now (st\<lparr>tp_single := remove1 (captured, channel, model) (tp_single st)\<rparr>)))"
| answers: "k < length (tp_runs st) \<Longrightarrow> br_phase (tp_runs st ! k) = Testing \<Longrightarrow> model \<in> set (br_pending (tp_runs st ! k)) \<Longrightarrow>
    test_step st (snd (run_answer typeError k model answer now st))"
| pause_ends: "k < length (tp_runs st) \<Longrightarrow> br_phase (tp_runs st ! k) = Waiting \<Longrightarrow> test_step st (snd (pause_over k st))"
| settles: "k < length (tp_runs st) \<Longrightarrow> br_phase (tp_runs st ! k) = Settling \<Longrightarrow> test_step st (snd (results_settled k st))"
| stops: "test_step st (snd (stopBatchTesting st))"
| clears: "test_step st (snd (clearTestResults st))"
| closes: "test_step st (snd (handleCloseModal st))"

definition test_reachable :: "test_page \<Rightarrow> bool" where
  "test_reachable st \<longleftrightarrow> test_step\<^sup>*\<^sup>* initial_test st"

text \<open>
  A run tests the models of its channel that match the keyword it was started with, in batches of five: it waits for answers of the
  batch at its index.
\<close>

definition channel_run :: "batch_run \<Rightarrow> bool" where
  "channel_run run \<longleftrightarrow> (\<exists>text (lower :: jsstr \<Rightarrow> jsstr) keyword. js_prop (br_channel run) (js ''models'') = JStr text
     \<and> br_models run = filter (\<lambda>m. str_includes (lower m) (lower keyword)) (split_unit 44 text))"

definition run_ok :: "batch_run \<Rightarrow> bool" where
  "run_ok run \<longleftrightarrow> \<not> br_captured run \<and> channel_run run \<and> 5 dvd br_index run
     \<and> mset (br_pending run) \<subseteq># mset (take 5 (drop (br_index run) (br_models run)))"

definition runs_ok :: "test_page \<Rightarrow> bool" where
  "runs_ok st \<longleftrightarrow> (\<forall>run \<in> set (tp_runs st). run_ok run)"

text \<open>What a test and a batch do to the runs.\<close>

lemma answered_runs: "tp_runs (snd (test_answered te ch m answer now st)) = tp_runs st"
  by (auto simp: test_answered_def test_failed_def put_result_def record_time_def Let_def split: sum.splits jsval.splits)

lemma finished_runs: "tp_runs (snd (test_finished te cap ch m answer now st)) = tp_runs st"
  by (simp add: test_finished_def split_def Let_def answered_runs)

lemma fold_testing_runs: "tp_runs (fold add_testing ms st) = tp_runs st"
  by (induction ms arbitrary: st) (simp_all add: add_testing_def)

lemma run_ok_pending:
  "run_ok run \<Longrightarrow> mset ps \<subseteq># mset (take 5 (drop (br_index run) (br_models run))) \<Longrightarrow> run_ok (run\<lparr>br_phase := ph, br_pending := ps\<rparr>)"
  by (simp add: run_ok_def channel_run_def)

lemma run_ok_next:
  "run_ok run \<Longrightarrow> br_pending run = [] \<Longrightarrow> run_ok (run\<lparr>br_index := br_index run + 5, br_phase := ph\<rparr>)"
  by (simp add: run_ok_def channel_run_def)

lemma next_batch_ok:
  assumes "next_batch run st = (ns, r, st')" and "run_ok run"
  shows "tp_runs st' = tp_runs st" and "r = Some run' \<Longrightarrow> run_ok run'"
  using assms by (auto simp: next_batch_def concurrencyLimit_def Let_def end_run_def fold_testing_runs run_ok_pending split: if_splits)

lemma batch_settled_ok:
  assumes "batch_settled run st = (ns, r, st')" and "run_ok run" and "br_pending run = []"
  shows "tp_runs st' = tp_runs st" and "r = Some run' \<Longrightarrow> run_ok run'"
  using assms by (auto simp: batch_settled_def concurrencyLimit_def Let_def end_run_def run_ok_next split: if_splits)

lemma replace_run_ok:
  assumes "runs_ok st" and "\<And>run. r = Some run \<Longrightarrow> run_ok run"
  shows "runs_ok (replace_run k r st)"
proof (cases r)
  case None
  then show ?thesis using assms(1) by (auto simp: runs_ok_def replace_run_def dest: in_set_takeD in_set_dropD)
next
  case (Some run)
  then show ?thesis using assms set_update_subset_insert [of "tp_runs st" k run] by (auto simp: runs_ok_def replace_run_def)
qed

lemma run_at: "runs_ok st \<Longrightarrow> k < length (tp_runs st) \<Longrightarrow> run_ok (tp_runs st ! k)"
  by (simp add: runs_ok_def)

lemma run_answer_ok:
  assumes "runs_ok st" and "k < length (tp_runs st)"
  shows "runs_ok (snd (run_answer te k m answer now st))"
proof -
  let ?run = "tp_runs st ! k"
  obtain ns st1 where f: "test_finished te (br_captured ?run) (br_channel ?run) m answer now st = (ns, st1)" by fastforce
  have runs: "tp_runs st1 = tp_runs st" using finished_runs [of te "br_captured ?run" "br_channel ?run" m answer now st] f by simp
  note ok = run_at [OF assms]
  have rest: "run_ok (?run\<lparr>br_pending := remove1 m (br_pending ?run)\<rparr>)"
    using ok by (auto simp: run_ok_def channel_run_def intro: subset_mset.order_trans [OF diff_subset_eq_self])
  have none: "run_ok (?run\<lparr>br_pending := []\<rparr>)" using ok by (simp add: run_ok_def channel_run_def)
  obtain ms r st2 where s: "batch_settled (?run\<lparr>br_pending := []\<rparr>) st1 = (ms, r, st2)" by (metis prod_cases3)
  note s2 = batch_settled_ok [OF s none, simplified]
  have "runs_ok st1" "runs_ok st2" using assms(1) runs s2(1) by (auto simp: runs_ok_def)
  then show ?thesis
    using replace_run_ok [of st1 "Some (?run\<lparr>br_pending := remove1 m (br_pending ?run)\<rparr>)" k] replace_run_ok [of st2 r k] rest s2(2) f s
    by (simp add: run_answer_def Let_def)
qed

lemma pause_over_ok:
  assumes "runs_ok st" and "k < length (tp_runs st)"
  shows "runs_ok (snd (pause_over k st))"
proof -
  obtain ns r st1 where n: "next_batch (tp_runs st ! k) st = (ns, r, st1)" by (metis prod_cases3)
  note n2 = next_batch_ok [OF n run_at [OF assms]]
  show ?thesis using replace_run_ok [of st1 r k] n2 assms(1) n by (auto simp: pause_over_def runs_ok_def)
qed

lemma batch_start_ok:
  assumes "runs_ok st" and "\<not> tp_isBatch st"
  shows "runs_ok (snd (batchTestModels lower st))"
proof -
  have "runs_ok (snd (let (ns, r, st2) = next_batch run st1 in (n # ns, case r of Some run' \<Rightarrow> st2\<lparr>tp_runs := tp_runs st2 @ [run']\<rparr> | None \<Rightarrow> st2)))"
    if "run_ok run" "tp_runs st1 = tp_runs st" for run st1 n
  proof -
    obtain ns r st2 where x: "next_batch run st1 = (ns, r, st2)" by (metis prod_cases3)
    show ?thesis using next_batch_ok [OF x that(1)] that(2) assms(1) x by (auto simp: runs_ok_def split: option.splits)
  qed
  moreover have "run_ok \<lparr>br_channel = tp_channel st, br_models = batch_models lower names (tp_keyword st), br_index = 0,
      br_pending = [], br_phase = Waiting, br_captured = False\<rparr>"
    if "js_prop (tp_channel st) (js ''models'') = JStr names" for names
    using that by (auto simp: run_ok_def channel_run_def batch_models_def)
  ultimately show ?thesis
    using assms by (simp add: batchTestModels_def clear_results_def Let_def split: jsval.split)
qed

lemma user_runs:
  "tp_runs (open_test channel st) = tp_runs st" "tp_runs (testChannel channel model st) = tp_runs st" "tp_runs (snd (stopBatchTesting st)) = tp_runs st"
  "tp_runs (snd (clearTestResults st)) = tp_runs st" "tp_runs (snd (handleCloseModal st)) = tp_runs st"
  by (simp_all add: open_test_def testChannel_def add_testing_def stopBatchTesting_def clearTestResults_def handleCloseModal_def)

lemma results_settled_ok: "runs_ok st \<Longrightarrow> runs_ok (snd (results_settled k st))"
  using replace_run_ok [of "end_run st" None k] by (simp add: results_settled_def batch_done_def Let_def end_run_def runs_ok_def)

lemma test_step_ok: "test_step st st' \<Longrightarrow> runs_ok st \<Longrightarrow> runs_ok st'"
proof (induction rule: test_step.induct)
  case (test_ends captured channel model st typeError answer now)
  then show ?case by (simp add: runs_ok_def finished_runs)
next
  case (starts st lower)
  then show ?case by (simp add: batch_start_ok)
next
  case (answers k st model typeError answer now)
  then show ?case by (simp add: run_answer_ok)
next
  case (pause_ends k st)
  then show ?case by (simp add: pause_over_ok)
next
  case (settles k st)
  then show ?case by (simp add: results_settled_ok)
qed (simp_all add: runs_ok_def user_runs)

lemma no_runs: "tp_runs st = [] \<Longrightarrow> runs_ok st"
  by (simp add: runs_ok_def)

lemma reachable_runs: "test_reachable st \<Longrightarrow> runs_ok st"
  unfolding test_reachable_def by (induction rule: rtranclp_induct) (simp_all add: initial_test_def test_step_ok no_runs)


text \<open>
  Stopping does not discard answers: the flag that a test compares is that of the render in which the run was started, which is false, so that
  an answer to a stopped run is still recorded.
\<close>

lemma answered_recorded: "map_of (tp_results (snd (test_answered te ch m answer now st))) (test_key ch m) \<noteq> None"
  by (auto simp: test_answered_def test_failed_def put_result_def record_time_def Let_def split: sum.splits jsval.splits)

lemma finished_recorded: "map_of (tp_results (snd (test_finished te False ch m answer now st))) (test_key ch m) \<noteq> None"
  using answered_recorded [of te ch m answer now st] by (simp add: test_finished_def split_def Let_def)

lemma replace_results [simp]: "tp_results (replace_run k r st) = tp_results st"
  by (simp add: replace_run_def)

lemma settled_results: "batch_settled run st = (ns, r, st') \<Longrightarrow> tp_results st' = tp_results st"
  by (auto simp: batch_settled_def Let_def end_run_def split: if_splits)

theorem stopped_answers_recorded:
  assumes "test_reachable st" and "k < length (tp_runs st)" and "tp_stop st"
  shows "map_of (tp_results (snd (run_answer te k m answer now st))) (test_key (br_channel (tp_runs st ! k)) m) \<noteq> None"
proof -
  let ?run = "tp_runs st ! k"
  have "\<not> br_captured ?run" using run_at [OF reachable_runs [OF assms(1)] assms(2)] by (simp add: run_ok_def)
  then obtain ns st1 where f: "test_finished te (br_captured ?run) (br_channel ?run) m answer now st = (ns, st1)"
    and r: "map_of (tp_results st1) (test_key (br_channel ?run) m) \<noteq> None"
    using finished_recorded [of te "br_channel ?run" m answer now st] by (cases "test_finished te False (br_channel ?run) m answer now st") auto
  obtain ms x st2 where s: "batch_settled (?run\<lparr>br_pending := []\<rparr>) st1 = (ms, x, st2)" by (metis prod_cases3)
  show ?thesis using f r s settled_results [OF s] by (simp add: run_answer_def Let_def)
qed

text \<open>
  A new batch takes the request to stop back for the runs before it: closing the dialog while a run waits for answers, and starting a
  batch for another channel, leaves both runs active.
\<close>

lemma fold_testing_flags: "tp_stop (fold add_testing ms st) = tp_stop st \<and> tp_isBatch (fold add_testing ms st) = tp_isBatch st"
  by (induction ms arbitrary: st) (simp_all add: add_testing_def)

theorem restart_revives_run:
  assumes "truthy (tp_channel st)" and "js_prop (tp_channel st) (js ''models'') = JStr text" and "text \<noteq> []"
    and "batch_models lower text [] \<noteq> []"
  shows "\<exists>run. tp_runs (snd (batchTestModels lower (snd (handleCloseModal st)))) = tp_runs st @ [run]
    \<and> \<not> tp_stop (snd (batchTestModels lower (snd (handleCloseModal st)))) \<and> br_pending run \<noteq> []"
proof -
  let ?models = "batch_models lower text []"
  have "take concurrencyLimit ?models \<noteq> []" using assms(4) by (simp add: concurrencyLimit_def)
  then show ?thesis
    using assms by (simp add: batchTestModels_def handleCloseModal_def next_batch_def clear_results_def fold_testing_runs fold_testing_flags Let_def)
qed

text \<open>
  C34: every event of a run brings it nearer to its end: the event removes the run, or it lowers what the run has left to do.
\<close>

definition run_measure :: "batch_run \<Rightarrow> nat" where
  "run_measure run =
     (let left = 10 * (length (br_models run) - br_index run) in
      case br_phase run of Waiting \<Rightarrow> left + 9 | Testing \<Rightarrow> left + 1 + length (br_pending run) | Settling \<Rightarrow> 0)"

definition progress :: "nat \<Rightarrow> test_page \<Rightarrow> test_page \<Rightarrow> bool" where
  "progress k st st' \<longleftrightarrow> (\<exists>run. tp_runs st' = (tp_runs st)[k := run] \<and> run_measure run < run_measure (tp_runs st ! k))
     \<or> tp_runs st' = take k (tp_runs st) @ drop (Suc k) (tp_runs st)"

lemma progress_replace:
  "tp_runs st1 = tp_runs st \<Longrightarrow> (\<And>run. r = Some run \<Longrightarrow> run_measure run < run_measure (tp_runs st ! k)) \<Longrightarrow> progress k st (replace_run k r st1)"
  by (cases r) (auto simp: progress_def replace_run_def)

lemma settled_measure:
  assumes "batch_settled (run\<lparr>br_pending := []\<rparr>) st = (ns, Some run', st')" and "br_phase run = Testing"
  shows "run_measure run' < run_measure run"
  using assms by (auto simp: batch_settled_def Let_def run_measure_def concurrencyLimit_def split: if_splits)

lemma next_measure:
  assumes "next_batch run st = (ns, Some run', st')" and "br_phase run = Waiting"
  shows "run_measure run' < run_measure run"
  using assms by (auto simp: next_batch_def Let_def run_measure_def concurrencyLimit_def split: if_splits)

lemma answer_progress:
  assumes "br_phase (tp_runs st ! k) = Testing" and "model \<in> set (br_pending (tp_runs st ! k))"
  shows "progress k st (snd (run_answer te k model answer now st))"
proof -
  let ?run = "tp_runs st ! k" and ?rest = "remove1 model (br_pending (tp_runs st ! k))"
  obtain ns st1 where f: "test_finished te (br_captured ?run) (br_channel ?run) model answer now st = (ns, st1)" by fastforce
  have runs: "tp_runs st1 = tp_runs st" using finished_runs [of te "br_captured ?run" "br_channel ?run" model answer now st] f by simp
  have less: "run_measure (?run\<lparr>br_pending := ?rest\<rparr>) < run_measure ?run"
    using assms length_pos_if_in_set [OF assms(2)] by (simp add: run_measure_def length_remove1)
  obtain ms r st2 where s: "batch_settled (?run\<lparr>br_pending := []\<rparr>) st1 = (ms, r, st2)" by (metis prod_cases3)
  have runs2: "tp_runs st2 = tp_runs st" using s runs by (auto simp: batch_settled_def Let_def end_run_def split: if_splits)
  show ?thesis
    using progress_replace [OF runs, of "Some (?run\<lparr>br_pending := ?rest\<rparr>)" k] less
      progress_replace [OF runs2, of r k] settled_measure [of ?run st1 ms _ st2] assms(1) f s
    by (simp add: run_answer_def Let_def)
qed

lemma pause_progress:
  assumes "br_phase (tp_runs st ! k) = Waiting"
  shows "progress k st (snd (pause_over k st))"
proof -
  obtain ns r st1 where n: "next_batch (tp_runs st ! k) st = (ns, r, st1)" by (metis prod_cases3)
  have "tp_runs st1 = tp_runs st" using n by (auto simp: next_batch_def Let_def end_run_def fold_testing_runs split: if_splits)
  then show ?thesis using progress_replace [of st1 st r k] next_measure [of "tp_runs st ! k" st ns _ st1] assms n by (simp add: pause_over_def)
qed

theorem batch_run_progress:
  "(br_phase (tp_runs st ! k) = Testing \<and> model \<in> set (br_pending (tp_runs st ! k)) \<longrightarrow> progress k st (snd (run_answer te k model answer now st)))
   \<and> (br_phase (tp_runs st ! k) = Waiting \<longrightarrow> progress k st (snd (pause_over k st)))
   \<and> (br_phase (tp_runs st ! k) = Settling \<longrightarrow> progress k st (snd (results_settled k st)))"
  using answer_progress [of st k model te answer now] pause_progress [of st k]
    progress_replace [of "end_run st" st None k] by (simp add: results_settled_def batch_done_def Let_def end_run_def)

section \<open>Examples\<close>

definition sample_channel :: "string \<Rightarrow> string \<Rightarrow> string \<Rightarrow> jsval" where
  "sample_channel i tag g = JObj [(js ''id'', JStr (js i)), (js ''tag'', JStr (js tag)), (js ''group'', JStr (js g)), (js ''models'', JStr (js ''a,b,c,d,e,f''))]"

definition no_updates :: upstream_meta where
  "no_updates = \<lparr>enabled = False, pendingAddModels = [], pendingRemoveModels = []\<rparr>"

lemma sample_format: "format_channel (sample_channel i tag g) = Inr \<lparr>tc_data = sample_channel i tag g, tc_key = js i, tc_meta = no_updates\<rparr>"
proof -
  have "js ''settings'' \<notin> {js ''id'', js ''tag'', js ''group'', js ''models''}" by (simp add: js_def)
  then show ?thesis by (simp add: format_channel_def sample_channel_def parseUpstreamUpdateMeta_def no_updates_def)
qed

abbreviation sample_tc :: "string \<Rightarrow> string \<Rightarrow> string \<Rightarrow> table_channel" where
  "sample_tc i tag g \<equiv> \<lparr>tc_data = sample_channel i tag g, tc_key = js i, tc_meta = no_updates\<rparr>"

lemma sample_channels_plain:
  "plain_channel (sample_tc ''1'' ''x'' ''vip'')" "plain_channel (sample_tc ''2'' ''y'' ''vip'')" "plain_channel (sample_tc ''3'' ''x'' ''svip'')"
  by (auto simp: plain_channel_def tc_prop_def tag_of_def sample_channel_def inherited_keys_def js_or_def js_def)

theorem tag_table_groups_witness:
  "\<exists>rows. setChannelFormat [sample_channel ''1'' ''x'' ''vip'', sample_channel ''2'' ''y'' ''vip'', sample_channel ''3'' ''x'' ''svip''] True = Inr (map TagRow rows)
    \<and> map tr_tag rows = uniq (map tag_of [sample_tc ''1'' ''x'' ''vip'', sample_tc ''2'' ''y'' ''vip'', sample_tc ''3'' ''x'' ''svip''])"
  using tag_table_groups [of "[sample_channel ''1'' ''x'' ''vip'', sample_channel ''2'' ''y'' ''vip'', sample_channel ''3'' ''x'' ''svip'']"
      "[sample_tc ''1'' ''x'' ''vip'', sample_tc ''2'' ''y'' ''vip'', sample_tc ''3'' ''x'' ''svip'']"] sample_format sample_channels_plain by auto

definition sample_test :: test_page where
  "sample_test = snd (batchTestModels (\<lambda>s. s) (open_test (sample_channel ''1'' ''x'' ''vip'') initial_test))"

lemma test_reachable_step: "test_reachable st \<Longrightarrow> test_step st st' \<Longrightarrow> test_reachable st'"
  by (simp add: test_reachable_def)

lemma sample_test_reachable: "test_reachable sample_test"
proof -
  have "test_reachable initial_test" by (simp add: test_reachable_def)
  then have o: "test_reachable (open_test (sample_channel ''1'' ''x'' ''vip'') initial_test)" by (rule test_reachable_step) (rule opens)
  show ?thesis unfolding sample_test_def
    by (rule test_reachable_step [OF o]) (rule starts, simp add: open_test_def initial_test_def)
qed

lemma sample_runs: "map br_pending (tp_runs sample_test) = [map js [''a'', ''b'', ''c'', ''d'', ''e'']]" "tp_channel sample_test = sample_channel ''1'' ''x'' ''vip''"
  by (code_simp, code_simp)


theorem restart_revives_run_witness:
  "\<exists>run. tp_runs (snd (batchTestModels (\<lambda>s. s) (snd (handleCloseModal sample_test)))) = tp_runs sample_test @ [run]
    \<and> \<not> tp_stop (snd (batchTestModels (\<lambda>s. s) (snd (handleCloseModal sample_test)))) \<and> br_pending run \<noteq> []"
proof (rule restart_revives_run [of _ "js ''a,b,c,d,e,f''"])
  show "truthy (tp_channel sample_test)" "js_prop (tp_channel sample_test) (js ''models'') = JStr (js ''a,b,c,d,e,f'')"
    by (simp_all add: sample_runs(2) sample_channel_def js_def)
  show "js ''a,b,c,d,e,f'' \<noteq> []" by (simp add: js_def)
  show "batch_models (\<lambda>s. s) (js ''a,b,c,d,e,f'') [] \<noteq> []" by code_simp
qed

theorem batch_run_progress_witness:
  "progress 0 sample_test (snd (run_answer [] 0 (js ''a'') (Inr JNull) (Fin 0) sample_test))"
proof -
  have "br_phase (tp_runs sample_test ! 0) = Testing" by code_simp
  moreover have "js ''a'' \<in> set (br_pending (tp_runs sample_test ! 0))" using sample_runs(1) by (cases "tp_runs sample_test") auto
  ultimately show ?thesis using batch_run_progress [of sample_test 0 "js ''a''" "[]" "Inr JNull" "Fin 0"] by blast
qed

end
