(* ===== verification/AsyncTask.thy ===== *)
theory AsyncTask
  imports ChannelTable JsonPretty
begin

text \<open>
  The settings of asynchronous tasks in the channel form, \<open>src/web/src/components/table/channels/modals/EditChannelModal.jsx\<close>: reading them
  from the settings text of the channel, the form fields, the objects stored while editing and when the channel is saved, the map of
  statuses as lines of text, and the import of an example answer. A configuration is an object; upper and lower case are arguments.
\<close>

type_synonym js_obj = "(jsstr \<times> jsval) list"

definition cfg :: "js_obj \<Rightarrow> string \<Rightarrow> jsval" where
  "cfg c k = js_prop (JObj c) (js k)"

text \<open>\<open>v || d\<close> for a text.\<close>

definition or_text :: "jsval \<Rightarrow> string \<Rightarrow> jsval" where
  "or_text v d = js_or v (JStr (js d))"

text \<open>Assignment to a property of a plain object; a text assigned to \<open>__proto__\<close> is ignored.\<close>

definition put_own :: "jsstr \<Rightarrow> jsval \<Rightarrow> js_obj \<Rightarrow> js_obj" where
  "put_own k v ps = (if k = js ''__proto__'' then ps else obj_put k v ps)"

section \<open>The map of statuses\<close>

abbreviation arrow :: int where "arrow \<equiv> 8594"

definition status_line :: "jsstr \<Rightarrow> js_obj \<Rightarrow> js_obj" where
  "status_line line obj =
     (let trimmed = trim line; sepIndex = length (takeWhile (\<lambda>c. c \<noteq> arrow) trimmed) in
      if trimmed = [] then obj
      else if 0 < sepIndex \<and> sepIndex < length trimmed then
        let key = trim (take sepIndex trimmed); val = trim (drop (sepIndex + 1) trimmed) in
        if key \<noteq> [] then put_own key (JStr val) obj else obj
      else obj)"

definition parseStatusMapToObject :: "jsval \<Rightarrow> js_error + js_obj" where
  "parseStatusMapToObject v =
     (if \<not> truthy v then Inr []
      else case v of JStr s \<Rightarrow> Inr (fold status_line (split_unit 10 s) []) | _ \<Rightarrow> Inl TypeError)"

definition status_text :: "jsval \<Rightarrow> jsstr" where
  "status_text obj = join [10] (map (\<lambda>(k, v). k @ [arrow] @ js_to_string v) (entries obj))"

definition parseStatusMapToString :: "jsval \<Rightarrow> jsstr" where
  "parseStatusMapToString obj = (if \<not> truthy obj \<or> \<not> typeof_object obj then [] else status_text obj)"

section \<open>Reading and storing\<close>

definition emptyAsyncTaskConfig :: js_obj where
  "emptyAsyncTaskConfig =
     [(js ''enabled'', JBool False), (js ''sync_mode'', JBool False), (js ''task_id_path'', JStr []), (js ''status_path'', JStr []),
      (js ''error_code_path'', JStr []), (js ''error_msg_path'', JStr []), (js ''success_statuses'', JArr []), (js ''query_method'', JStr []),
      (js ''query_path'', JStr []), (js ''query_body'', JStr []), (js ''status_map'', JStr []), (js ''result_list_path'', JStr []),
      (js ''result_url_path'', JStr []), (js ''result_type_path'', JStr []), (js ''output_type'', JStr []),
      (js ''poll_interval_sec'', JUndef), (js ''max_poll_attempts'', JUndef)]"

definition pretty_value :: "jsval \<Rightarrow> jsval" where  \<comment> \<open>\<open>JSON.stringify(v, null, 2)\<close>\<close>
  "pretty_value v = (case json_pretty 0 v of Some t \<Rightarrow> JStr t | None \<Rightarrow> JUndef)"

definition read_async :: "js_obj \<Rightarrow> js_obj" where
  "read_async task =
     [(js ''enabled'', JBool (cfg task ''enabled'' = JBool True)), (js ''sync_mode'', JBool (cfg task ''sync_mode'' = JBool True)),
      (js ''task_id_path'', or_text (cfg task ''task_id_path'') ''''), (js ''status_path'', or_text (cfg task ''status_path'') ''''),
      (js ''error_code_path'', or_text (cfg task ''error_code_path'') ''''), (js ''error_msg_path'', or_text (cfg task ''error_msg_path'') ''''),
      (js ''success_statuses'', if is_array (cfg task ''success_statuses'') then cfg task ''success_statuses'' else JArr []),
      (js ''query_method'', or_text (cfg task ''query_method'') ''''), (js ''query_path'', or_text (cfg task ''query_path'') ''''),
      (js ''query_body'', if truthy (cfg task ''query_body'') then pretty_value (cfg task ''query_body'') else JStr []),
      (js ''status_map'', JStr (if truthy (cfg task ''status_map'') then status_text (cfg task ''status_map'') else [])),
      (js ''result_list_path'', or_text (cfg task ''result_list_path'') ''''), (js ''result_url_path'', or_text (cfg task ''result_url_path'') ''''),
      (js ''result_type_path'', or_text (cfg task ''result_type_path'') ''''), (js ''output_type'', or_text (cfg task ''output_type'') ''''),
      (js ''poll_interval_sec'', js_or (cfg task ''poll_interval_sec'') JUndef), (js ''max_poll_attempts'', js_or (cfg task ''max_poll_attempts'') JUndef)]"

definition parseSettingsObject :: "jsval \<Rightarrow> js_obj" where
  "parseSettingsObject rawSettings =
     (case rawSettings of
        JStr s \<Rightarrow> if trim s = [] then [] else (case json_parse s of Some (JObj ps) \<Rightarrow> ps | _ \<Rightarrow> [])
      | _ \<Rightarrow> [])"

definition readAsyncTaskConfigFromSettings :: "jsval \<Rightarrow> js_obj" where
  "readAsyncTaskConfigFromSettings rawSettings =
     (case rawSettings of
        JStr s \<Rightarrow>
          if trim s = [] then emptyAsyncTaskConfig
          else (case json_parse s of
                  Some (JObj ps) \<Rightarrow> (case cfg ps ''async_task'' of JObj task \<Rightarrow> read_async task | _ \<Rightarrow> emptyAsyncTaskConfig)
                | _ \<Rightarrow> emptyAsyncTaskConfig)
      | _ \<Rightarrow> emptyAsyncTaskConfig)"

definition asyncTaskConfigKeys :: "string list" where
  "asyncTaskConfigKeys =
     [''enabled'', ''sync_mode'', ''task_id_path'', ''status_path'', ''error_code_path'', ''error_msg_path'', ''success_statuses'', ''query_method'',
      ''query_path'', ''query_body'', ''status_map'', ''result_list_path'', ''result_url_path'', ''result_type_path'', ''output_type'',
      ''poll_interval_sec'', ''max_poll_attempts'']"

definition getAsyncTaskFormValues :: "js_obj \<Rightarrow> js_obj" where
  "getAsyncTaskFormValues config = map (\<lambda>k. (js ''async_task_'' @ js k, cfg config k)) asyncTaskConfigKeys"

definition stored_body :: "jsval \<Rightarrow> jsval \<Rightarrow> jsval \<Rightarrow> jsval" where  \<comment> \<open>the parsed body, or the given values for an invalid and a missing one\<close>
  "stored_body body invalid missing =
     (if truthy body then (case json_parse (js_to_string body) of Some v \<Rightarrow> v | None \<Rightarrow> invalid) else missing)"

definition buildAsyncTaskStorageConfig :: "js_obj \<Rightarrow> js_error + js_obj" where
  "buildAsyncTaskStorageConfig config =
     (case parseStatusMapToObject (cfg config ''status_map'') of
        Inl e \<Rightarrow> Inl e
      | Inr m \<Rightarrow>
          Inr (obj_put (js ''status_map'') (JObj m)
                (obj_put (js ''query_body'') (stored_body (cfg config ''query_body'') (cfg config ''query_body'') (JStr [])) config)))"

definition whole_or :: "jsval \<Rightarrow> rat \<Rightarrow> jsval" where  \<comment> \<open>\<open>parseInt(v) || d\<close>\<close>
  "whole_or v d = js_or (JNum (parseInt_auto (js_to_string v))) (JNum (Fin d))"

definition buildAsyncTaskSaveConfig :: "js_obj \<Rightarrow> js_error + js_obj" where
  "buildAsyncTaskSaveConfig config =
     (case parseStatusMapToObject (cfg config ''status_map'') of
        Inl e \<Rightarrow> Inl e
      | Inr m \<Rightarrow> Inr
          [(js ''enabled'', JBool (cfg config ''enabled'' = JBool True)), (js ''sync_mode'', JBool (cfg config ''sync_mode'' = JBool True)),
           (js ''task_id_path'', or_text (cfg config ''task_id_path'') ''taskId''), (js ''status_path'', or_text (cfg config ''status_path'') ''status''),
           (js ''error_code_path'', or_text (cfg config ''error_code_path'') ''''), (js ''error_msg_path'', or_text (cfg config ''error_msg_path'') ''''),
           (js ''success_statuses'', if is_array (cfg config ''success_statuses'') then cfg config ''success_statuses''
                                     else JArr [JStr (js ''RUNNING''), JStr (js ''QUEUED'')]),
           (js ''query_method'', or_text (cfg config ''query_method'') ''POST''), (js ''query_path'', or_text (cfg config ''query_path'') ''''),
           (js ''query_body'', stored_body (cfg config ''query_body'') (JObj []) (JObj [])),
           (js ''status_map'', JObj m),
           (js ''result_list_path'', or_text (cfg config ''result_list_path'') ''results''), (js ''result_url_path'', or_text (cfg config ''result_url_path'') ''url''),
           (js ''result_type_path'', or_text (cfg config ''result_type_path'') ''outputType''), (js ''output_type'', or_text (cfg config ''output_type'') ''image''),
           (js ''poll_interval_sec'', whole_or (cfg config ''poll_interval_sec'') 5), (js ''max_poll_attempts'', whole_or (cfg config ''max_poll_attempts'') 120)])"

section \<open>The form\<close>

datatype async_import_error = InvalidJson | NotAnObject | ImportFailed js_error

text \<open>
  The inputs of the form component, the values in its fields, the reference that skips the next copy of inputs to fields, and the dialog
  for an import.
\<close>

record async_form =
  af_inputs :: js_obj
  af_form :: js_obj
  af_skip :: bool
  af_showImport :: bool
  af_importText :: jsstr
  af_importPreview :: "js_obj option"
  af_importError :: "async_import_error option"

definition asyncTaskConfig :: "async_form \<Rightarrow> js_obj" where
  "asyncTaskConfig st = readAsyncTaskConfigFromSettings (cfg (af_inputs st) ''settings'')"

definition syncAsyncTaskFormValues :: "js_obj \<Rightarrow> js_obj \<Rightarrow> js_obj" where
  "syncAsyncTaskFormValues config form = fold (\<lambda>(field, value). obj_put field value) (getAsyncTaskFormValues config) form"

definition updateAsyncTaskConfigState :: "(js_obj \<Rightarrow> js_obj) \<Rightarrow> async_form \<Rightarrow> js_error + async_form" where
  "updateAsyncTaskConfigState updater st =
     (let nextConfig = updater (asyncTaskConfig st) in
      case buildAsyncTaskStorageConfig nextConfig of
        Inl e \<Rightarrow> Inl e
      | Inr stored \<Rightarrow>
          let nextSettings = obj_put (js ''async_task'') (JObj stored) (parseSettingsObject (cfg (af_inputs st) ''settings''))
          in Inr (st\<lparr>af_skip := True, af_form := syncAsyncTaskFormValues nextConfig (af_form st),
                     af_inputs := obj_put (js ''settings'') (JStr (json_text (JObj nextSettings))) (af_inputs st)\<rparr>))"

definition handleAsyncTaskConfigChange :: "string \<Rightarrow> jsval \<Rightarrow> async_form \<Rightarrow> js_error + async_form" where
  "handleAsyncTaskConfigChange key val st = updateAsyncTaskConfigState (\<lambda>prevConfig. obj_put (js key) val prevConfig) st"

text \<open>The effect that copies the inputs to the fields after a change.\<close>

definition form_sync :: "async_form \<Rightarrow> async_form" where
  "form_sync st =
     (if af_skip st then st\<lparr>af_skip := False\<rparr>
      else st\<lparr>af_form := obj_spread (obj_spread (af_form st) (af_inputs st)) (getAsyncTaskFormValues (asyncTaskConfig st))\<rparr>)"

definition asyncTaskConfigJson :: "async_form \<Rightarrow> js_error + jsval" where  \<comment> \<open>what is copied to the clipboard\<close>
  "asyncTaskConfigJson st = (case buildAsyncTaskSaveConfig (asyncTaskConfig st) of Inl e \<Rightarrow> Inl e | Inr c \<Rightarrow> Inr (pretty_value (JObj c)))"

section \<open>Importing a configuration\<close>

definition hasOwn :: "js_obj \<Rightarrow> string \<Rightarrow> bool" where
  "hasOwn obj k = list_ex (\<lambda>p. fst p = js k) obj"

definition getImportedAsyncTaskConfigObject :: "js_obj \<Rightarrow> js_obj option" where
  "getImportedAsyncTaskConfigObject data =
     (let (candidate, signatureKeys) = (case cfg data ''async_task'' of
            JObj task \<Rightarrow> (task, asyncTaskConfigKeys)
          | _ \<Rightarrow> (data, filter (\<lambda>k. k \<noteq> ''enabled'') asyncTaskConfigKeys))
      in if list_ex (hasOwn candidate) signatureKeys then Some candidate else None)"

definition import_text :: "jsval \<Rightarrow> jsval" where
  "import_text v = JStr (if is_nullish v then [] else js_to_string v)"

definition import_number :: "jsval \<Rightarrow> jsval" where
  "import_number v = (let n = parseInt10 (js_to_string v) in if num_is_finite n then JNum n else JUndef)"

definition import_statuses :: "jsval \<Rightarrow> jsval" where
  "import_statuses v =
     JArr (map JStr (filter (\<lambda>s. s \<noteq> [])
       (case v of JArr items \<Rightarrow> map js_to_string items | _ \<Rightarrow> map trim (split_unit 44 (js_to_string (or_text v ''''))))))"

definition import_body :: "jsval \<Rightarrow> jsval" where
  "import_body v = (case v of JStr s \<Rightarrow> v | _ \<Rightarrow> if is_nullish v then JStr [] else pretty_value v)"

definition import_map :: "jsval \<Rightarrow> jsval" where
  "import_map v = (case v of JStr s \<Rightarrow> v | _ \<Rightarrow> JStr (parseStatusMapToString v))"

definition normalizeImportedAsyncTaskConfig :: "(jsstr \<Rightarrow> jsstr) \<Rightarrow> js_obj \<Rightarrow> js_obj" where
  "normalizeImportedAsyncTaskConfig toUpperCase rawConfig =
     (let pick = (\<lambda>f k. if hasOwn rawConfig k then [(js k, f (cfg rawConfig k))] else []) in
      pick (\<lambda>v. JBool (v = JBool True)) ''enabled'' @ pick (\<lambda>v. JBool (v = JBool True)) ''sync_mode''
      @ concat (map (pick import_text)
          [''task_id_path'', ''status_path'', ''error_code_path'', ''error_msg_path'', ''query_path'', ''result_list_path'', ''result_url_path'',
           ''result_type_path'', ''output_type''])
      @ pick (\<lambda>v. JStr (toUpperCase (js_to_string (or_text v '''')))) ''query_method'' @ pick import_statuses ''success_statuses''
      @ pick import_body ''query_body'' @ pick import_map ''status_map''
      @ pick import_number ''poll_interval_sec'' @ pick import_number ''max_poll_attempts'')"

end
