(* ===== verification/AsyncImport.thy ===== *)
theory AsyncImport
  imports AsyncTask
begin

text \<open>
  The import of the settings of asynchronous tasks in \<open>EditChannelModal.jsx\<close>: \<open>analyzeAsyncTaskJson\<close> guesses the paths of the task id,
  the status, the errors and the results from an example answer, and the dialog applies its guess to the form.
\<close>

section \<open>Paths of an answer\<close>

definition extend_path :: "jsstr \<Rightarrow> jsstr \<Rightarrow> jsstr" where
  "extend_path prefix key = (if prefix = [] then key else prefix @ [46] @ key)"

text \<open>All paths with their values in the order of their visit; \<open>__proto__\<close> is not the key of a path.\<close>

function visit :: "jsstr \<Rightarrow> js_obj \<Rightarrow> js_obj \<Rightarrow> js_obj" where
  "visit prefix [] paths = paths"
| "visit prefix ((key, v) # ps) paths =
     (let path = extend_path prefix key; paths1 = put_own path v paths;
          paths2 = (case v of JObj qs \<Rightarrow> visit path qs paths1 | _ \<Rightarrow> paths1)
      in visit prefix ps paths2)"
  by pat_completeness auto
termination by (relation "measure (\<lambda>(prefix, ps, paths). size (JObj ps))") auto

definition last_key :: "jsstr \<Rightarrow> jsstr" where
  "last_key path = last (split_unit 46 path)"

fun task_id :: "(jsstr \<Rightarrow> jsstr) \<Rightarrow> jsstr \<Rightarrow> js_obj \<Rightarrow> jsstr" where
  "task_id toLowerCase bestIdPath [] = bestIdPath"
| "task_id toLowerCase bestIdPath ((path, v) # ps) =
     (let lkey = toLowerCase (last_key path) in
      case v of
        JStr _ \<Rightarrow>
          if lkey \<in> set (map js [''id'', ''task_id'', ''taskId'']) then
            (if lkey = js ''id'' \<and> \<not> str_includes path [46] then path else task_id toLowerCase path ps)
          else if endsWith lkey (js ''_id'') \<and> bestIdPath = [] then task_id toLowerCase path ps
          else task_id toLowerCase bestIdPath ps
      | _ \<Rightarrow> task_id toLowerCase bestIdPath ps)"

definition find_path :: "(jsstr \<Rightarrow> bool) \<Rightarrow> js_obj \<Rightarrow> jsstr" where  \<comment> \<open>the first path with such a last key\<close>
  "find_path P paths = (case find (\<lambda>p. P (last_key (fst p))) paths of Some p \<Rightarrow> fst p | None \<Rightarrow> [])"

definition path_or :: "jsstr \<Rightarrow> string \<Rightarrow> jsstr" where
  "path_or path d = (if path = [] then js d else path)"

definition find_candidate :: "string list \<Rightarrow> js_obj \<Rightarrow> jsstr" where
  "find_candidate candidates paths = (case find (hasOwn paths) candidates of Some c \<Rightarrow> js c | None \<Rightarrow> [])"

section \<open>Statuses\<close>

text \<open>The texts under the key of the status, in the order they are found.\<close>

function scanStatuses :: "jsstr \<Rightarrow> js_obj \<Rightarrow> jsstr list" where
  "scanStatuses statusKey [] = []"
| "scanStatuses statusKey ((key, v) # ps) =
     (case v of JStr s \<Rightarrow> if key = statusKey then [s] else [] | _ \<Rightarrow> [])
     @ (case v of JObj qs \<Rightarrow> scanStatuses statusKey qs | _ \<Rightarrow> []) @ scanStatuses statusKey ps"
  by pat_completeness auto
termination by (relation "measure (\<lambda>(statusKey, ps). size (JObj ps))") auto

definition terminalStatuses :: "jsstr list" where
  "terminalStatuses = map js [''completed'', ''succeeded'', ''success'', ''failed'']"

definition success_statuses :: "(jsstr \<Rightarrow> jsstr) \<Rightarrow> jsstr list \<Rightarrow> jsstr list" where
  "success_statuses toLowerCase foundStatuses =
     (let nonTerminal = filter (\<lambda>s. toLowerCase s \<notin> set terminalStatuses) foundStatuses
      in if nonTerminal \<noteq> [] then nonTerminal else map js [''RUNNING'', ''QUEUED''])"

definition map_status :: "(jsstr \<Rightarrow> jsstr) \<Rightarrow> jsstr list \<Rightarrow> string list \<Rightarrow> string \<Rightarrow> js_obj \<Rightarrow> js_obj" where
  "map_status toLowerCase foundStatuses names state statusMap =
     (case find (\<lambda>s. s \<in> set (map js names)) (map toLowerCase foundStatuses) of
        None \<Rightarrow> statusMap
      | Some lower \<Rightarrow>
          (case find (\<lambda>s. toLowerCase s = lower) foundStatuses of
             None \<Rightarrow> statusMap
           | Some k \<Rightarrow> if k = [] then statusMap else put_own k (JStr (js state)) statusMap))"

definition detected_statusMap :: "(jsstr \<Rightarrow> jsstr) \<Rightarrow> jsstr list \<Rightarrow> js_obj" where
  "detected_statusMap toLowerCase foundStatuses =
     (let m = map_status toLowerCase foundStatuses [''failed''] ''failed''
            (map_status toLowerCase foundStatuses [''completed'', ''succeeded'', ''success''] ''succeeded''
              (map_status toLowerCase foundStatuses [''running'', ''in_progress'', ''processing''] ''running''
                (map_status toLowerCase foundStatuses [''queued'', ''pending''] ''pending'' [])))
      in if m = [] then [(js ''QUEUED'', JStr (js ''pending'')), (js ''RUNNING'', JStr (js ''running'')), (js ''SUCCESS'', JStr (js ''succeeded'')),
                         (js ''FAILED'', JStr (js ''failed''))]
         else m)"

section \<open>Results\<close>

definition url_item :: "jsval \<Rightarrow> bool" where
  "url_item v \<longleftrightarrow> (case v of JObj qs \<Rightarrow> hasOwn qs ''url'' \<or> hasOwn qs ''image_url'' \<or> hasOwn qs ''video_url'' | _ \<Rightarrow> False)"

definition result_array :: "jsval \<Rightarrow> bool" where
  "result_array v \<longleftrightarrow> (case v of JArr (first # _) \<Rightarrow> url_item first | _ \<Rightarrow> False)"

function findResultArray :: "jsstr \<Rightarrow> js_obj \<Rightarrow> jsstr option" where
  "findResultArray prefix [] = None"
| "findResultArray prefix ((key, v) # ps) =
     (let path = extend_path prefix key in
      if result_array v then Some path
      else case (case v of JObj qs \<Rightarrow> findResultArray path qs | _ \<Rightarrow> None) of
             Some found \<Rightarrow> if found \<noteq> [] then Some found else findResultArray prefix ps
           | None \<Rightarrow> findResultArray prefix ps)"
  by pat_completeness auto
termination by (relation "measure (\<lambda>(prefix, ps). size (JObj ps))") auto

text \<open>
  Following a path. Properties that every object inherits are left out: none of them is an array or leads to one.
\<close>

definition own_prop :: "jsval \<Rightarrow> jsstr \<Rightarrow> bool" where
  "own_prop v part =
     (case v of
        JObj qs \<Rightarrow> list_ex (\<lambda>p. fst p = part) qs
      | JArr vs \<Rightarrow> part = js ''length'' \<or> (case index_key part of Some i \<Rightarrow> i < int (length vs) | None \<Rightarrow> False)
      | _ \<Rightarrow> False)"

fun walk :: "jsval \<Rightarrow> jsstr list \<Rightarrow> jsval option" where
  "walk current [] = Some current"
| "walk current (part # parts) = (if own_prop current part then walk (js_prop current part) parts else None)"

definition http_text :: "jsval \<Rightarrow> bool" where
  "http_text v \<longleftrightarrow> (case v of JStr s \<Rightarrow> startsWith s (js ''http'') | _ \<Rightarrow> False)"

definition item_url :: "jsval \<Rightarrow> jsstr" where
  "item_url first =
     (case find (\<lambda>k. http_text (js_prop first (js k))) [''url'', ''image_url'', ''video_url'', ''audio_url'', ''result_url''] of
        Some k \<Rightarrow> js k
      | None \<Rightarrow> (case find (\<lambda>p. http_text (snd p)) (entries first) of Some p \<Rightarrow> fst p | None \<Rightarrow> []))"

text \<open>The key of the address in the first result; \<open>null\<close> counts as an object for \<open>typeof\<close>, and has no properties to look for.\<close>

definition result_url :: "jsval \<Rightarrow> jsstr \<Rightarrow> js_error + jsstr" where
  "result_url data result_list_path =
     (case walk data (split_unit 46 result_list_path) of
        Some (JArr (first # _)) \<Rightarrow> if first = JNull then Inl TypeError else if typeof_object first then Inr (item_url first) else Inr []
      | _ \<Rightarrow> Inr [])"

section \<open>The analysis\<close>

definition detect :: "(jsstr \<Rightarrow> jsstr) \<Rightarrow> js_obj \<Rightarrow> js_error + js_obj" where
  "detect toLowerCase data =
     (let paths = visit [] data [];
          status_path = path_or (find_path (\<lambda>k. toLowerCase k \<in> set (map js [''status'', ''state'', ''task_status''])) paths) ''status'';
          foundStatuses = uniq (scanStatuses (last_key status_path) data);
          result_list_path = path_or (case findResultArray [] data of Some p \<Rightarrow> p | None \<Rightarrow> []) ''results''
      in case result_url (JObj data) result_list_path of
           Inl e \<Rightarrow> Inl e
         | Inr urlPath \<Rightarrow> Inr
             [(js ''task_id_path'', JStr (path_or (task_id toLowerCase [] paths) ''taskId'')),
              (js ''status_path'', JStr status_path),
              (js ''success_statuses'', JArr (map JStr (success_statuses toLowerCase foundStatuses))),
              (js ''error_code_path'', JStr (find_candidate [''error.code'', ''error.error_code'', ''error.type''] paths)),
              (js ''error_msg_path'', JStr (find_candidate [''error.message'', ''error.error_message'', ''error.msg''] paths)),
              (js ''result_list_path'', JStr result_list_path),
              (js ''result_url_path'', JStr (path_or urlPath ''url'')),
              (js ''result_type_path'',
                 JStr (path_or (find_path (\<lambda>k. k \<in> set (map js [''outputType'', ''output_type'', ''result_type'', ''media_type'', ''type''])) paths) ''outputType'')),
              (js ''output_type'', JStr (js ''image'')),
              (js ''status_map'', JStr (status_text (JObj (detected_statusMap toLowerCase foundStatuses))))])"

definition analyzeAsyncTaskJson :: "(jsstr \<Rightarrow> jsstr) \<Rightarrow> (jsstr \<Rightarrow> jsstr) \<Rightarrow> jsstr \<Rightarrow> async_import_error + js_obj" where
  "analyzeAsyncTaskJson toLowerCase toUpperCase jsonStr =
     (case json_parse jsonStr of
        None \<Rightarrow> Inl InvalidJson
      | Some (JObj data) \<Rightarrow>
          (case getImportedAsyncTaskConfigObject data of
             Some config \<Rightarrow> Inr (normalizeImportedAsyncTaskConfig toUpperCase config)
           | None \<Rightarrow> (case detect toLowerCase data of Inl e \<Rightarrow> Inl (ImportFailed e) | Inr result \<Rightarrow> Inr result))
      | Some _ \<Rightarrow> Inl NotAnObject)"

section \<open>The dialog\<close>

definition handleParseImportJson :: "(jsstr \<Rightarrow> jsstr) \<Rightarrow> (jsstr \<Rightarrow> jsstr) \<Rightarrow> async_form \<Rightarrow> async_form" where
  "handleParseImportJson toLowerCase toUpperCase st =
     (case analyzeAsyncTaskJson toLowerCase toUpperCase (af_importText st) of
        Inl e \<Rightarrow> st\<lparr>af_importError := Some e\<rparr>
      | Inr detected \<Rightarrow> st\<lparr>af_importError := None, af_importPreview := Some detected\<rparr>)"

definition handleCloseImportModal :: "async_form \<Rightarrow> async_form" where
  "handleCloseImportModal st = st\<lparr>af_showImport := False, af_importText := [], af_importPreview := None, af_importError := None\<rparr>"

definition handleApplyImportPreview :: "async_form \<Rightarrow> js_error + async_form" where
  "handleApplyImportPreview st =
     (case af_importPreview st of
        None \<Rightarrow> Inr st
      | Some preview \<Rightarrow>
          (case updateAsyncTaskConfigState (\<lambda>prevConfig. obj_spread prevConfig preview) st of
             Inl e \<Rightarrow> Inl e
           | Inr st' \<Rightarrow> Inr (handleCloseImportModal st')))"

end
