(* ===== verification/AsyncFacts.thy ===== *)
theory AsyncFacts
  imports AsyncImport
begin

text \<open>
  Facts about the settings of asynchronous tasks: the lines of the status map keep it, saving is stable, an edit of one field keeps the
  others, what happens to an invalid request body, and that the paths guessed from an example lead to the values they were guessed from.
\<close>

section \<open>Objects\<close>

lemma key_before_trans: "key_before k l \<Longrightarrow> key_before l m \<Longrightarrow> key_before k m"
  by (auto simp: key_before_def split: option.splits)

lemma key_before_irrefl: "\<not> key_before k k"
  by (auto simp: key_before_def split: option.splits)

lemma not_before_trans: "\<not> key_before m l \<Longrightarrow> key_before k l \<Longrightarrow> \<not> key_before m k"
  by (auto simp: key_before_def split: option.splits)

lemma keys_ordered_Cons: "keys_ordered (p # ps) \<longleftrightarrow> (\<forall>l \<in> fst ` set ps. fst p \<noteq> l \<and> \<not> key_before l (fst p)) \<and> keys_ordered ps"
  by (auto simp: keys_ordered_def)

lemma keys_ordered_insert: "keys_ordered ps \<Longrightarrow> k \<notin> fst ` set ps \<Longrightarrow> keys_ordered (obj_insert k v ps)"
proof (induction ps)
  case (Cons p ps)
  obtain l w where p: "p = (l, w)" by force
  show ?case
  proof (cases "key_before k l")
    case True
    have "k \<noteq> m \<and> \<not> key_before m k" if "m \<in> fst ` set (p # ps)" for m
      using that Cons.prems True not_before_trans [of m l k] key_before_irrefl [of l] by (auto simp: keys_ordered_Cons p)
    with True Cons.prems show ?thesis by (simp add: p keys_ordered_Cons)
  next
    case False
    then show ?thesis using Cons by (auto simp: p keys_ordered_Cons set_obj_insert)
  qed
qed (simp add: keys_ordered_def)

lemma keys_ordered_obj_put: "keys_ordered ps \<Longrightarrow> keys_ordered (obj_put k v ps)"
  using keys_ordered_insert [of ps k v] by (auto simp: obj_put_def) (simp add: keys_ordered_def keys_obj_update)

lemma keys_ordered_distinct: "keys_ordered ps \<Longrightarrow> distinct (map fst ps)"
  by (induction ps) (auto simp: keys_ordered_Cons)

lemma set_obj_update: "set (obj_update k v ps) \<subseteq> insert (k, v) (set ps)"
  by (induction k v ps rule: obj_update.induct) auto

lemma set_obj_put: "set (obj_put k v ps) \<subseteq> insert (k, v) (set ps)"
  using set_obj_update [of k v ps] by (auto simp: obj_put_def set_obj_insert)

lemma json_ok_obj_put: "json_ok (JObj ps) \<Longrightarrow> units_ok k \<Longrightarrow> json_ok v \<Longrightarrow> json_ok (JObj (obj_put k v ps))"
  using set_obj_put [of k v ps] by (auto simp: list_all_iff keys_ordered_obj_put)

section \<open>The map of statuses\<close>

definition status_entry :: "jsstr \<times> jsval \<Rightarrow> bool" where
  "status_entry p \<longleftrightarrow>
     fst p \<noteq> [] \<and> trimmed (fst p) \<and> arrow \<notin> set (fst p) \<and> 10 \<notin> set (fst p) \<and> fst p \<noteq> js ''__proto__''
     \<and> (case snd p of JStr s \<Rightarrow> trimmed s \<and> 10 \<notin> set s | _ \<Rightarrow> False)"

definition status_map_ok :: "js_obj \<Rightarrow> bool" where
  "status_map_ok m \<longleftrightarrow> keys_ordered m \<and> list_all status_entry m"

lemma status_entryE:
  assumes "status_entry p"
  obtains k s where "p = (k, JStr s)" "k \<noteq> []" "trimmed k" "arrow \<notin> set k" "10 \<notin> set k" "k \<noteq> js ''__proto__''" "trimmed s" "10 \<notin> set s"
  using assms by (cases p) (auto simp: status_entry_def split: jsval.splits)

lemma takeWhile_stop: "a \<notin> set k \<Longrightarrow> takeWhile (\<lambda>c. c \<noteq> a) (k @ a # s) = k"
  by (induction k) auto

lemma status_line_entry:
  assumes "status_entry (k, JStr s)"
  shows "status_line (k @ [arrow] @ s) obj = obj_put k (JStr s) obj"
proof -
  have "trimmed (k @ [arrow] @ s)" using assms by (cases s rule: rev_cases) (auto simp: status_entry_def trimmed_def js_ws_def)
  then have t: "trim (k @ [arrow] @ s) = k @ [arrow] @ s" by (rule trim_trimmed)
  have w: "takeWhile (\<lambda>c. c \<noteq> arrow) (k @ [arrow] @ s) = k" using assms takeWhile_stop [of arrow k s] by (simp add: status_entry_def)
  show ?thesis unfolding status_line_def t Let_def w using assms by (simp add: status_entry_def trim_trimmed put_own_def)
qed

lemma fold_status_lines:
  assumes "keys_ordered (acc @ m)" and "list_all status_entry m"
  shows "fold status_line (map (\<lambda>(k, v). k @ [arrow] @ js_to_string v) m) acc = acc @ m"
  using assms
proof (induction m arbitrary: acc)
  case (Cons p m)
  obtain k s where p: "p = (k, JStr s)" using Cons.prems(2) by (auto elim: status_entryE)
  have "status_line (k @ [arrow] @ s) acc = acc @ [p]"
    using status_line_entry [of k s acc] Cons.prems keys_ordered_put [of acc p m] by (simp add: p)
  then show ?case using Cons.IH [of "acc @ [p]"] Cons.prems by (simp add: p)
qed simp

lemma status_lines_plain: "list_all status_entry m \<Longrightarrow> \<forall>w \<in> set (map (\<lambda>(k, v). k @ [arrow] @ js_to_string v) m). 10 \<notin> set w"
  by (auto simp: list_all_iff elim!: status_entryE dest!: bspec)

lemma parse_status_text:
  assumes "status_map_ok m"
  shows "parseStatusMapToObject (JStr (status_text (JObj m))) = Inr m"
proof (cases "m = []")
  case False
  let ?lines = "map (\<lambda>(k, v). k @ [arrow] @ js_to_string v) m"
  have "split_unit 10 (join [10] ?lines) = ?lines"
    using False assms status_lines_plain [of m] by (intro split_unit_join) (auto simp: status_map_ok_def)
  moreover have "join [10] ?lines \<noteq> []" using False by (cases m rule: list.exhaust; cases "tl m") auto
  ultimately show ?thesis
    using fold_status_lines [of "[]" m] assms by (simp add: parseStatusMapToObject_def status_text_def status_map_ok_def)
qed (simp add: parseStatusMapToObject_def status_text_def)

lemma status_line_ok: "status_map_ok m \<Longrightarrow> 10 \<notin> set line \<Longrightarrow> status_map_ok (status_line line m)"
proof -
  assume m: "status_map_ok m" and l: "10 \<notin> set line"
  let ?t = "trim line" and ?i = "length (takeWhile (\<lambda>c. c \<noteq> arrow) (trim line))"
  let ?k = "trim (take ?i ?t)" and ?s = "trim (drop (?i + 1) ?t)"
  have n: "10 \<notin> set ?t" using l set_trim_subset [of line] by auto
  have "arrow \<notin> set (take ?i ?t)" by (metis takeWhile_eq_take set_takeWhileD)
  then have a: "arrow \<notin> set ?k" using set_trim_subset by blast
  have k: "10 \<notin> set ?k" and s: "10 \<notin> set ?s"
    using n set_trim_subset [of "take ?i ?t"] set_trim_subset [of "drop (?i + 1) ?t"] by (auto dest: in_set_takeD in_set_dropD)
  have "status_map_ok (obj_put ?k (JStr ?s) m)" if "?k \<noteq> []" "?k \<noteq> js ''__proto__''"
    using m a k s that set_obj_put [of ?k "JStr ?s" m]
    by (auto simp: status_map_ok_def keys_ordered_obj_put list_all_iff status_entry_def)
  then show ?thesis using m by (auto simp: status_line_def Let_def put_own_def)
qed

lemma parsed_status_map:
  assumes "parseStatusMapToObject v = Inr m"
  shows "status_map_ok m"
proof -
  have ok: "status_map_ok (fold status_line ls acc)" if "status_map_ok acc" "\<forall>l \<in> set ls. 10 \<notin> set l" for ls acc
    using that by (induction ls arbitrary: acc) (auto simp: status_line_ok)
  have e: "status_map_ok []" by (simp add: status_map_ok_def keys_ordered_def)
  have "status_map_ok (fold status_line (split_unit 10 s) [])" for s by (rule ok [OF e]) (simp add: split_unit_no_sep)
  then show ?thesis using assms e by (auto simp: parseStatusMapToObject_def split: if_splits jsval.splits)
qed

text \<open>
  What the status map of the form is saved as, and its lines, determine each other: a parsed map written out as lines parses to itself, with the
  same order, whatever text it came from.
\<close>

theorem status_map_stable:
  assumes "parseStatusMapToObject v = Inr m"
  shows "parseStatusMapToObject (JStr (parseStatusMapToString (JObj m))) = Inr m"
  using parse_status_text [OF parsed_status_map [OF assms]] by (simp add: parseStatusMapToString_def)

section \<open>Settings as text\<close>

lemma stringify_defined: "json_stringify (JObj ps) = json_stringify (JObj (filter (\<lambda>p. snd p \<noteq> JUndef) ps))"
proof -
  let ?f = "\<lambda>p. case json_stringify (snd p) of None \<Rightarrow> [] | Some t \<Rightarrow> [json_quote (fst p) @ [58] @ t]"
  have "concat (map ?f ps) = concat (map ?f (filter (\<lambda>p. snd p \<noteq> JUndef) ps))" by (induction ps) auto
  then show ?thesis by simp
qed

lemma stringify_cong: "map (apsnd json_stringify) ps = map (apsnd json_stringify) qs \<Longrightarrow> json_stringify (JObj ps) = json_stringify (JObj qs)"
proof -
  assume *: "map (apsnd json_stringify) ps = map (apsnd json_stringify) qs"
  let ?g = "\<lambda>p. case snd p of None \<Rightarrow> [] | Some t \<Rightarrow> [json_quote (fst p) @ [58] @ t]"
  let ?f = "\<lambda>p. case json_stringify (snd p) of None \<Rightarrow> [] | Some t \<Rightarrow> [json_quote (fst p) @ [58] @ t]"
  have "map ?f rs = map ?g (map (apsnd json_stringify) rs)" for rs :: js_obj
    by (simp add: fst_apsnd split: option.split)
  from this [of ps] this [of qs] * have "map ?f ps = map ?f qs" by (simp only:)
  then show ?thesis by simp
qed

lemma map_obj_put: "map (apsnd f) (obj_put k v ps) = obj_put k (f v) (map (apsnd f) ps)"
proof -
  have "map (apsnd f) (obj_update k v ps) = obj_update k (f v) (map (apsnd f) ps)" by (induction k v ps rule: obj_update.induct) auto
  moreover have "map (apsnd f) (obj_insert k v ps) = obj_insert k (f v) (map (apsnd f) ps)" by (induction k v ps rule: obj_insert.induct) auto
  moreover have "k \<in> fst ` set (map (apsnd f) ps) \<longleftrightarrow> k \<in> fst ` set ps" by (force simp: image_iff)
  ultimately show ?thesis by (simp add: obj_put_def)
qed

lemma map_of_defined:
  "distinct (map fst ps) \<Longrightarrow>
   (case map_of (filter (\<lambda>p. snd p \<noteq> JUndef) ps) k of None \<Rightarrow> JUndef | Some v \<Rightarrow> v) = (case map_of ps k of None \<Rightarrow> JUndef | Some v \<Rightarrow> v)"
proof (induction ps)
  case (Cons p ps)
  then have "map_of (filter (\<lambda>p. snd p \<noteq> JUndef) ps) (fst p) = None" by (auto simp: map_of_eq_None_iff)
  with Cons show ?case by (cases p) auto
qed simp

lemma cfg_defined: "distinct (map fst ps) \<Longrightarrow> cfg (filter (\<lambda>p. snd p \<noteq> JUndef) ps) k = cfg ps k"
  by (simp add: cfg_def map_of_defined)

lemma cfg_put: "cfg (obj_put (js j) v c) k = (if k = j then v else cfg c k)"
  by (simp add: cfg_def)

lemma read_async_cong: "(\<And>k. cfg a k = cfg b k) \<Longrightarrow> read_async a = read_async b"
  by (simp add: read_async_def)

definition task_of :: "js_obj \<Rightarrow> js_obj" where
  "task_of settings = (case cfg settings ''async_task'' of JObj task \<Rightarrow> task | _ \<Rightarrow> [])"

lemma read_async_Nil: "read_async [] = emptyAsyncTaskConfig"
  by (simp add: read_async_def emptyAsyncTaskConfig_def cfg_def or_text_def js_or_def)

lemma read_settings: "readAsyncTaskConfigFromSettings raw = read_async (task_of (parseSettingsObject raw))"
  by (simp add: readAsyncTaskConfigFromSettings_def parseSettingsObject_def task_of_def read_async_Nil cfg_def split: jsval.split option.split)

lemma json_text_object_head: "\<exists>r. json_text (JObj ps) = 123 # r"
  by (simp add: json_text_def)

lemma parse_settings_text: "json_ok (JObj ps) \<Longrightarrow> parseSettingsObject (JStr (json_text (JObj ps))) = ps"
proof -
  assume ok: "json_ok (JObj ps)"
  obtain r where r: "json_text (JObj ps) = 123 # r" using json_text_object_head by blast
  have "trim (123 # r) \<noteq> []" by (auto simp: trim_def trimStart_def trimEnd_def js_ws_def dropWhile_eq_Nil_conv)
  then show ?thesis using json_parse_text [OF ok] by (simp add: parseSettingsObject_def r)
qed

lemma json_ok_cfg: "json_ok (JObj ps) \<Longrightarrow> cfg ps k = JUndef \<or> json_ok (cfg ps k)"
  by (auto simp: cfg_def list_all_iff split: option.split dest!: map_of_SomeD)

text \<open>What is stored while editing is read back, properties that are \<open>undefined\<close> apart.\<close>

lemma stored_read_back:
  assumes "json_ok (JObj base)" and "distinct (map fst stored)" and "json_ok (JObj (filter (\<lambda>p. snd p \<noteq> JUndef) stored))"
  shows "readAsyncTaskConfigFromSettings (JStr (json_text (JObj (obj_put (js ''async_task'') (JObj stored) base)))) = read_async stored"
proof -
  let ?d = "filter (\<lambda>p. snd p \<noteq> JUndef) stored"
  have "json_stringify (JObj (obj_put (js ''async_task'') (JObj stored) base)) = json_stringify (JObj (obj_put (js ''async_task'') (JObj ?d) base))"
    by (rule stringify_cong) (simp only: map_obj_put stringify_defined [of stored])
  then have "json_text (JObj (obj_put (js ''async_task'') (JObj stored) base)) = json_text (JObj (obj_put (js ''async_task'') (JObj ?d) base))"
    by (simp only: json_text_def)
  moreover have "json_ok (JObj (obj_put (js ''async_task'') (JObj ?d) base))" using assms(1,3) by (intro json_ok_obj_put) simp_all
  moreover have "read_async ?d = read_async stored" by (rule read_async_cong) (simp add: cfg_defined [OF assms(2)])
  ultimately show ?thesis
    by (simp only: read_settings parse_settings_text task_of_def cfg_put if_True refl jsval.case)
qed

section \<open>Saving is stable\<close>

lemma or_text_or_text [simp]: "or_text (or_text x d) e = or_text x (if d = '''' then e else d)"
  by (auto simp: or_text_def js_or_def)

lemma cfg_Cons: "cfg ((js j, v) # c) k = (if k = j then v else cfg c k)"
  by (simp add: cfg_def)

text \<open>Whole numbers are printed as digits, which \<open>parseInt\<close> reads again.\<close>

lemma shortest_from_le:
  "sorted ks \<Longrightarrow> j \<in> set ks \<Longrightarrow> digit_candidate a n j \<noteq> None \<Longrightarrow> snd (shortest_from a n ks) \<le> j"
  by (induction ks) (auto split: option.splits)

lemma whole_exponent:
  assumes "0 < n" and "n < 2 ^ 53"
  shows "1 \<le> dec_exp (of_int n)" and "dec_exp (of_int n) \<le> 16"
proof -
  let ?e = "dec_exp (of_int n)"
  have p: "(0 :: rat) < of_int n" using assms(1) by simp
  note b = dec_exp_bounds [OF p]
  show "1 \<le> ?e"
  proof (rule ccontr)
    assume "\<not> 1 \<le> ?e"
    then have "pow10 ?e \<le> pow10 0" by (intro pow10_mono) simp
    then have "(of_int n :: rat) < 1" using b(2) by (simp add: pow10_def)
    then show False using assms(1) by simp
  qed
  show "?e \<le> 16"
  proof (rule ccontr)
    assume "\<not> ?e \<le> 16"
    then have "pow10 16 \<le> pow10 (?e - 1)" by (intro pow10_mono) simp
    then have "(10 ^ 16 :: rat) \<le> of_int n" using b(1) by (simp add: pow10_nat)
    then have "10 ^ 16 \<le> n" by (metis of_int_le_iff of_int_numeral of_int_power)
    then show False using assms(2) by simp
  qed
qed

lemma show_whole:
  assumes "0 < n" and "n < 2 ^ 53"
  shows "\<forall>c \<in> set (show_pos (of_int n)). is_digit c" and "show_pos (of_int n) \<noteq> []" and "hd (show_pos (of_int n)) \<noteq> 48"
proof -
  let ?a = "of_int n :: rat" and ?e = "dec_exp (of_int n)"
  have r: "rnd ?a = Fin ?a" using assms rnd_of_int [of n] by simp
  then have a: "is_double ?a" using assms(1) by (simp add: is_double_def)
  note e = whole_exponent [OF assms]
  obtain x k where xk: "shortest_from ?a ?e [1..17] = (x, k)" by (cases "shortest_from ?a ?e [1..17]")
  have ok: "1 \<le> k" "10 ^ nat (k - 1) \<le> x" "x \<le> 10 ^ nat k" using shortest_from_ok [OF a _ _ xk] by auto
  have "digit_candidate ?a ?e ?e \<noteq> None" using r by (simp add: digit_candidate_def Let_def pow10_def)
  then have k: "k \<le> ?e" using shortest_from_le [of "[1..17]" ?e ?a ?e] e xk by simp
  obtain y m where d: "shortest_digits ?a = (show_nat y, m)" "0 < y" "int (length (show_nat y)) = k" "k \<le> m" "m \<le> 21"
  proof (cases "x = 10 ^ nat k")
    case True
    have nk: "nat k = Suc (nat (k - 1))" using ok(1) by simp
    then have "x div 10 = 10 ^ nat (k - 1)" using True by simp
    moreover have "int (length (show_nat (10 ^ nat (k - 1)))) = k" by (rule length_show_nat_bounds) (use ok(1) nk in auto)
    ultimately show ?thesis using True xk k e by (intro that [of "10 ^ nat (k - 1)" "?e + 1"]) (simp_all add: shortest_digits_def)
  next
    case False
    moreover have "int (length (show_nat x)) = k" using ok False by (intro length_show_nat_bounds) auto
    moreover have "0 < x" using ok(2) by (meson less_le_trans zero_less_numeral zero_less_power)
    ultimately show ?thesis using xk k e by (intro that [of x ?e]) (simp_all add: shortest_digits_def)
  qed
  have t: "show_pos ?a = show_nat y @ zeros (m - k)" using d by (simp add: show_pos_def Let_def)
  have y: "\<forall>c \<in> set (show_nat y). is_digit c" "show_nat y \<noteq> []" "hd (show_nat y) \<noteq> 48"
    using show_nat_digits [of y] hd_show_nat [OF d(2)] d(2) by auto
  show "\<forall>c \<in> set (show_pos ?a). is_digit c" using y(1) zeros_digits by (auto simp: t)
  show "show_pos ?a \<noteq> []" "hd (show_pos ?a) \<noteq> 48" using y(2,3) by (auto simp: t)
qed

lemma whole_digits:
  assumes "0 < n" and "n < 2 ^ 53"
  shows "rnd (of_int (digits_val (show_pos (of_int n)))) = Fin (of_int n)"
proof -
  have "is_double (of_int n)" using assms rnd_of_int [of n] by (simp add: is_double_def)
  from show_pos_reads [OF this] have "json_unsigned (show_pos (of_int n)) = Some (Fin (of_int n), [])" .
  moreover have "json_unsigned (show_pos (of_int n))
      = Some (rnd (of_int (digits_val (show_pos (of_int n) @ [])) * pow10 (0 - int (length ([] :: jsstr)))), [])"
    by (rule unsigned_layout [where ex = "[]"]) (use show_whole [OF assms] in \<open>auto simp: exponent_text_def\<close>)
  ultimately show ?thesis by (simp add: pow10_def)
qed

lemma parseInt_digits:
  assumes "\<forall>c \<in> set t. is_digit c" and "t \<noteq> []" and "hd t \<noteq> 48"
  shows "parseInt_auto t = rnd (of_int (digits_val t))" and "parseInt_auto (45 # t) = num_neg (rnd (of_int (digits_val t)))"
proof -
  obtain c cs where t: "t = c # cs" using assms(2) by (cases t) auto
  have c: "is_digit c" "c \<noteq> 48" "takeWhile is_digit t = t" using assms t by (auto simp: takeWhile_eq_all_conv)
  have s: "trimStart t = t" "take_sign t = (False, t)" "trimStart (45 # t) = 45 # t" "take_sign (45 # t) = (True, t)"
    using c(1) by (auto simp: t trimStart_def js_ws_def is_digit_def)
  have x: "\<not> startsWith t (js ''0x'')" "\<not> startsWith t (js ''0X'')" using c(2) by (simp_all add: t js_def)
  show "parseInt_auto t = rnd (of_int (digits_val t))" "parseInt_auto (45 # t) = num_neg (rnd (of_int (digits_val t)))"
    using assms(2) x c(3) by (simp_all only: parseInt_auto_def parseInt10_def s Let_def prod.case if_False if_True simp_thms)
qed

lemma parseInt_whole:
  assumes "n \<noteq> 0" and "\<bar>n\<bar> < 2 ^ 53"
  shows "parseInt_auto (number_to_string (Fin (of_int n))) = Fin (of_int n)"
proof (cases "0 < n")
  case True
  then have b: "n < 2 ^ 53" using assms(2) by simp
  show ?thesis using parseInt_digits(1) [OF show_whole [OF True b]] whole_digits [OF True b] True by simp
next
  case False
  then have p: "0 < - n" "- n < 2 ^ 53" using assms by simp_all
  show ?thesis using parseInt_digits(2) [OF show_whole [OF p]] whole_digits [OF p] False assms(1) by simp
qed

lemma whole_or_stable:
  assumes "whole_or v d = JNum (Fin (of_int n))" and "\<bar>n\<bar> < 2 ^ 53" and "d \<noteq> 0"
  shows "whole_or (js_or (JNum (Fin (of_int n))) JUndef) d = JNum (Fin (of_int n))"
proof -
  have t: "truthy (JNum (Fin (of_int n)))" using assms(1,3) by (auto simp: whole_or_def js_or_def num_is_zero_def split: if_splits)
  then have "n \<noteq> 0" by (auto simp: num_is_zero_def)
  from parseInt_whole [OF this assms(2)] t show ?thesis by (simp add: whole_or_def js_or_def del: number_to_string.simps)
qed

lemma stored_body_stable:
  assumes "truthy v" and "json_ok v"
  shows "stored_body (pretty_value v) x y = v"
  using assms json_parse_pretty [OF assms(2), of 0] pretty_text_nonempty [OF assms(2), of 0]
  by (simp add: stored_body_def pretty_value_def json_pretty_ok)

lemma cfg_read_async:
  "cfg (read_async c) ''enabled'' = JBool (cfg c ''enabled'' = JBool True)" "cfg (read_async c) ''sync_mode'' = JBool (cfg c ''sync_mode'' = JBool True)"
  "k \<in> {''task_id_path'', ''status_path'', ''error_code_path'', ''error_msg_path'', ''query_method'', ''query_path'', ''result_list_path'', ''result_url_path'',
     ''result_type_path'', ''output_type''} \<Longrightarrow> cfg (read_async c) k = or_text (cfg c k) []"
  "cfg (read_async c) ''success_statuses'' = (if is_array (cfg c ''success_statuses'') then cfg c ''success_statuses'' else JArr [])"
  "cfg (read_async c) ''query_body'' = (if truthy (cfg c ''query_body'') then pretty_value (cfg c ''query_body'') else JStr [])"
  "cfg (read_async c) ''status_map'' = JStr (if truthy (cfg c ''status_map'') then status_text (cfg c ''status_map'') else [])"
  "k \<in> {''poll_interval_sec'', ''max_poll_attempts''} \<Longrightarrow> cfg (read_async c) k = js_or (cfg c k) JUndef"
proof -
  show "k \<in> {''task_id_path'', ''status_path'', ''error_code_path'', ''error_msg_path'', ''query_method'', ''query_path'', ''result_list_path'', ''result_url_path'',
     ''result_type_path'', ''output_type''} \<Longrightarrow> cfg (read_async c) k = or_text (cfg c k) []"
    unfolding read_async_def by (elim insertE emptyE; hypsubst; simp add: cfg_Cons)
  show "k \<in> {''poll_interval_sec'', ''max_poll_attempts''} \<Longrightarrow> cfg (read_async c) k = js_or (cfg c k) JUndef"
    unfolding read_async_def by (elim insertE emptyE; hypsubst; simp add: cfg_Cons)
qed (simp_all add: read_async_def cfg_Cons)

lemma cfg_saved:
  assumes "buildAsyncTaskSaveConfig c = Inr saved" and "parseStatusMapToObject (cfg c ''status_map'') = Inr m"
  shows "cfg saved ''enabled'' = JBool (cfg c ''enabled'' = JBool True)" "cfg saved ''sync_mode'' = JBool (cfg c ''sync_mode'' = JBool True)"
    "cfg saved ''task_id_path'' = or_text (cfg c ''task_id_path'') ''taskId''" "cfg saved ''status_path'' = or_text (cfg c ''status_path'') ''status''"
    "k \<in> {''error_code_path'', ''error_msg_path'', ''query_path''} \<Longrightarrow> cfg saved k = or_text (cfg c k) []"
    "cfg saved ''success_statuses'' =
       (if is_array (cfg c ''success_statuses'') then cfg c ''success_statuses'' else JArr [JStr (js ''RUNNING''), JStr (js ''QUEUED'')])"
    "cfg saved ''query_method'' = or_text (cfg c ''query_method'') ''POST''"
    "cfg saved ''query_body'' = stored_body (cfg c ''query_body'') (JObj []) (JObj [])" "cfg saved ''status_map'' = JObj m"
    "cfg saved ''result_list_path'' = or_text (cfg c ''result_list_path'') ''results''" "cfg saved ''result_url_path'' = or_text (cfg c ''result_url_path'') ''url''"
    "cfg saved ''result_type_path'' = or_text (cfg c ''result_type_path'') ''outputType''" "cfg saved ''output_type'' = or_text (cfg c ''output_type'') ''image''"
    "cfg saved ''poll_interval_sec'' = whole_or (cfg c ''poll_interval_sec'') 5" "cfg saved ''max_poll_attempts'' = whole_or (cfg c ''max_poll_attempts'') 120"
proof -
  note s = assms(1) [unfolded buildAsyncTaskSaveConfig_def assms(2) sum.case sum.inject, symmetric]
  show "k \<in> {''error_code_path'', ''error_msg_path'', ''query_path''} \<Longrightarrow> cfg saved k = or_text (cfg c k) []"
    unfolding s by (elim insertE emptyE; hypsubst; simp only: cfg_Cons) simp_all
qed (simp_all add: assms(1) [unfolded buildAsyncTaskSaveConfig_def assms(2) sum.case sum.inject, symmetric] cfg_Cons)

section \<open>Edits\<close>

lemma config_keys_distinct: "distinct (map js asyncTaskConfigKeys)" "list_all (\<lambda>k. \<not> list_all is_digit k) (map js asyncTaskConfigKeys)"
  by (simp_all add: asyncTaskConfigKeys_def all_digits_js is_digit_def)

lemma keys_read_async: "map fst (read_async c) = map js asyncTaskConfigKeys"
  by (simp add: read_async_def asyncTaskConfigKeys_def)

lemma config_entry: "map fst c = map js asyncTaskConfigKeys \<Longrightarrow> p \<in> set c \<Longrightarrow> \<exists>k \<in> set asyncTaskConfigKeys. p = (js k, cfg c k)"
proof -
  assume c: "map fst c = map js asyncTaskConfigKeys" and p: "p \<in> set c"
  then have "fst p \<in> set (map js asyncTaskConfigKeys)" by (metis in_set_zipE list.set_map image_eqI)
  then obtain k where k: "k \<in> set asyncTaskConfigKeys" "fst p = js k" by auto
  have "map_of c (js k) = Some (snd p)" using p c config_keys_distinct(1) k(2) by (intro map_of_is_SomeI) (auto simp flip: k(2))
  then show ?thesis using k by (intro bexI [of _ k]) (auto simp: cfg_def prod_eq_iff)
qed

lemma config_eqI:
  assumes "map fst a = map js asyncTaskConfigKeys" and "map fst b = map js asyncTaskConfigKeys" and "\<And>k. k \<in> set asyncTaskConfigKeys \<Longrightarrow> cfg a k = cfg b k"
  shows "a = b"
proof (rule nth_equalityI)
  show len: "length a = length b" using assms(1,2) by (metis length_map)
  fix i assume i: "i < length a"
  have "fst (a ! i) = fst (b ! i)" using assms(1,2) i len by (metis nth_map)
  moreover obtain k where "k \<in> set asyncTaskConfigKeys" "a ! i = (js k, cfg a k)" using config_entry [OF assms(1)] i by (meson nth_mem)
  moreover obtain l where "l \<in> set asyncTaskConfigKeys" "b ! i = (js l, cfg b l)" using config_entry [OF assms(2)] i len by (metis nth_mem)
  ultimately show "a ! i = b ! i" using assms(3) by auto
qed

lemma keys_put_config: "map fst c = map js asyncTaskConfigKeys \<Longrightarrow> k \<in> set asyncTaskConfigKeys \<Longrightarrow> map fst (obj_put (js k) v c) = map js asyncTaskConfigKeys"
proof -
  assume c: "map fst c = map js asyncTaskConfigKeys" and k: "k \<in> set asyncTaskConfigKeys"
  have "fst ` set c = js ` set asyncTaskConfigKeys" using c by (metis list.set_map)
  then show ?thesis using c k by (simp add: obj_put_def keys_obj_update)
qed

lemma keys_saved: "buildAsyncTaskSaveConfig c = Inr saved \<Longrightarrow> map fst saved = map js asyncTaskConfigKeys"
  by (auto simp: buildAsyncTaskSaveConfig_def asyncTaskConfigKeys_def split: sum.splits)

text \<open>
  C4: saving a channel again does not change its asynchronous task.  From settings whose task was written by a save, with whole numbers below
  \<open>2 ^ 53\<close> for the interval and the attempts, the task is read into the form and written again as the same object, with one exception: a body that
  counts as missing (null, zero, false or the empty text) is replaced by the empty object.
\<close>

theorem async_save_stable:
  assumes "buildAsyncTaskSaveConfig config = Inr saved"
    and "cfg saved ''poll_interval_sec'' = JNum (Fin (of_int p))" and "\<bar>p\<bar> < 2 ^ 53"
    and "cfg saved ''max_poll_attempts'' = JNum (Fin (of_int q))" and "\<bar>q\<bar> < 2 ^ 53"
    and "json_ok (JObj settings)" and "cfg settings ''async_task'' = JObj saved"
  shows "buildAsyncTaskSaveConfig (readAsyncTaskConfigFromSettings (JStr (json_text (JObj settings))))
    = Inr (if truthy (cfg saved ''query_body'') then saved else obj_put (js ''query_body'') (JObj []) saved)"
proof -
  obtain m where m: "parseStatusMapToObject (cfg config ''status_map'') = Inr m"
    using assms(1) by (auto simp: buildAsyncTaskSaveConfig_def split: sum.splits)
  have ok: "json_ok (JObj saved)" using json_ok_cfg [OF assms(6), of "''async_task''"] assms(7) by simp
  have status: "parseStatusMapToObject (JStr (status_text (JObj m))) = Inr m" by (rule parse_status_text [OF parsed_status_map [OF m]])
  have read: "readAsyncTaskConfigFromSettings (JStr (json_text (JObj settings))) = read_async saved"
    using assms(6,7) by (simp add: read_settings parse_settings_text task_of_def)
  note saved = cfg_saved [OF assms(1) m]
  have again: "whole_or (js_or (JNum (Fin (of_int p))) JUndef) 5 = JNum (Fin (of_int p))"
    "whole_or (js_or (JNum (Fin (of_int q))) JUndef) 120 = JNum (Fin (of_int q))"
    using whole_or_stable [OF _ assms(3)] whole_or_stable [OF _ assms(5)] assms(2,4) saved(14,15) by simp_all
  have numbers: "whole_or (cfg (read_async saved) ''poll_interval_sec'') 5 = whole_or (cfg config ''poll_interval_sec'') 5"
    "whole_or (cfg (read_async saved) ''max_poll_attempts'') 120 = whole_or (cfg config ''max_poll_attempts'') 120"
    using again assms(2,4) saved(14,15) by (simp_all add: cfg_read_async)
  let ?b = "stored_body (cfg (read_async saved) ''query_body'') (JObj []) (JObj [])"
  have body: "?b = (if truthy (cfg saved ''query_body'') then cfg saved ''query_body'' else JObj [])"
    using stored_body_stable [of "cfg saved ''query_body''"] json_ok_cfg [OF ok, of "''query_body''"]
    by (auto simp: cfg_read_async stored_body_def [of "JStr []"])
  obtain again where build: "buildAsyncTaskSaveConfig (read_async saved) = Inr again"
    using status saved(9) by (simp add: buildAsyncTaskSaveConfig_def cfg_read_async(6))
  have m2: "parseStatusMapToObject (cfg (read_async saved) ''status_map'') = Inr m" using status saved(9) by (simp add: cfg_read_async(6))
  note again = cfg_saved [OF build m2]
  have "again = obj_put (js ''query_body'') ?b saved"
  proof (rule config_eqI [OF keys_saved [OF build] keys_put_config [OF keys_saved [OF assms(1)]]])
    show "cfg again k = cfg (obj_put (js ''query_body'') ?b saved) k" if "k \<in> set asyncTaskConfigKeys" for k
      using that unfolding asyncTaskConfigKeys_def list.set cfg_put
      by (elim insertE emptyE; hypsubst) (simp_all add: again saved numbers cfg_read_async(1-4))
  qed (simp add: asyncTaskConfigKeys_def)
  moreover have "obj_put (js ''query_body'') (cfg saved ''query_body'') saved = saved" if "truthy (cfg saved ''query_body'')"
    by (rule config_eqI [OF keys_put_config [OF keys_saved [OF assms(1)]] keys_saved [OF assms(1)]]) (simp_all add: cfg_put asyncTaskConfigKeys_def)
  ultimately show ?thesis by (simp add: read body build)
qed

lemma keys_ordered_filter: "keys_ordered ps \<Longrightarrow> keys_ordered (filter P ps)"
  by (induction ps) (auto simp: keys_ordered_Cons)

lemma json_ok_config:
  assumes "map fst c = map js asyncTaskConfigKeys" and "\<And>k. k \<in> set asyncTaskConfigKeys \<Longrightarrow> cfg c k = JUndef \<or> json_ok (cfg c k)"
  shows "json_ok (JObj (filter (\<lambda>p. snd p \<noteq> JUndef) c))"
proof -
  have "keys_ordered c" using assms(1) config_keys_distinct by (intro keys_ordered_names) simp_all
  then have "keys_ordered (filter (\<lambda>p. snd p \<noteq> JUndef) c)" by (rule keys_ordered_filter)
  then show ?thesis using config_entry [OF assms(1)] assms(2) by (fastforce simp: list_all_iff)
qed

text \<open>What a change of the configuration stores is read as the configuration of the form.\<close>

lemma edit_read_back:
  assumes "json_ok (JObj (parseSettingsObject (cfg (af_inputs st) ''settings'')))" and "map fst (updater (asyncTaskConfig st)) = map js asyncTaskConfigKeys"
    and "\<And>k. k \<in> set asyncTaskConfigKeys \<Longrightarrow> k \<noteq> ''query_body'' \<Longrightarrow> k \<noteq> ''status_map'' \<Longrightarrow>
           cfg (updater (asyncTaskConfig st)) k = JUndef \<or> json_ok (cfg (updater (asyncTaskConfig st)) k)"
    and "parseStatusMapToObject (cfg (updater (asyncTaskConfig st)) ''status_map'') = Inr m" and "json_ok (JObj m)"
    and "stored_body (cfg (updater (asyncTaskConfig st)) ''query_body'') (cfg (updater (asyncTaskConfig st)) ''query_body'') (JStr []) = b" and "json_ok b"
  shows "\<exists>st'. updateAsyncTaskConfigState updater st = Inr st'
    \<and> asyncTaskConfig st' = read_async (obj_put (js ''status_map'') (JObj m) (obj_put (js ''query_body'') b (updater (asyncTaskConfig st))))"
proof -
  let ?c = "updater (asyncTaskConfig st)"
  let ?stored = "obj_put (js ''status_map'') (JObj m) (obj_put (js ''query_body'') b ?c)"
  have keys: "map fst ?stored = map js asyncTaskConfigKeys" by (intro keys_put_config assms(2)) (simp_all add: asyncTaskConfigKeys_def)
  then have "json_ok (JObj (filter (\<lambda>p. snd p \<noteq> JUndef) ?stored))"
    using assms(3,5,7) by (intro json_ok_config) (auto simp: cfg_put)
  moreover have "distinct (map fst ?stored)" using keys config_keys_distinct(1) by simp
  ultimately have "readAsyncTaskConfigFromSettings
      (JStr (json_text (JObj (obj_put (js ''async_task'') (JObj ?stored) (parseSettingsObject (cfg (af_inputs st) ''settings'')))))) = read_async ?stored"
    by (intro stored_read_back [OF assms(1)])
  then show ?thesis using assms(4,6)
    by (simp add: updateAsyncTaskConfigState_def buildAsyncTaskStorageConfig_def Let_def asyncTaskConfig_def cfg_put)
qed

definition text_fields :: "string list" where
  "text_fields = [''task_id_path'', ''status_path'', ''error_code_path'', ''error_msg_path'', ''query_method'', ''query_path'', ''result_list_path'',
     ''result_url_path'', ''result_type_path'', ''output_type'']"

lemma config_key_cases:
  assumes "k \<in> set asyncTaskConfigKeys"
  obtains "k \<in> set text_fields" | "k = ''enabled''" | "k = ''sync_mode''" | "k = ''success_statuses''" | "k = ''query_body''" | "k = ''status_map''"
    | "k \<in> {''poll_interval_sec'', ''max_poll_attempts''}"
proof -
  have "list_all (\<lambda>k. k \<in> set text_fields \<or> k = ''enabled'' \<or> k = ''sync_mode'' \<or> k = ''success_statuses'' \<or> k = ''query_body'' \<or> k = ''status_map''
      \<or> k = ''poll_interval_sec'' \<or> k = ''max_poll_attempts'') asyncTaskConfigKeys"
    by code_simp
  from this [unfolded list_all_iff, THEN bspec, OF assms] show thesis
    by (elim disjE) (erule that(1), erule that(2), erule that(3), erule that(4), erule that(5), erule that(6), (rule that(7), simp)+)
qed

lemma cfg_read_text: "k \<in> set text_fields \<Longrightarrow> cfg (read_async c) k = or_text (cfg c k) []"
  unfolding text_fields_def list.set by (rule cfg_read_async(3))

lemma read_async_ok:
  assumes "json_ok (JObj task)" and "k \<in> set asyncTaskConfigKeys" and "k \<noteq> ''query_body''" and "k \<noteq> ''status_map''"
  shows "cfg (read_async task) k = JUndef \<or> json_ok (cfg (read_async task) k)"
  using assms(2)
proof (cases rule: config_key_cases)
  case 1
  then show ?thesis using json_ok_cfg [OF assms(1), of k] by (auto simp: cfg_read_text or_text_def js_or_def units_ok_def)
next
  case 7
  then show ?thesis using json_ok_cfg [OF assms(1), of k] by (simp add: cfg_read_async(7) js_or_def)
qed (use assms(3,4) json_ok_cfg [OF assms(1), of k] in \<open>auto simp: cfg_read_async(1,2,4)\<close>)

lemma read_body:
  assumes "json_ok (JObj task)" and "b = stored_body (cfg (read_async task) ''query_body'') x (JStr [])"
  shows "json_ok b" "(if truthy b then pretty_value b else JStr []) = cfg (read_async task) ''query_body''"
proof -
  have "b = (if truthy (cfg task ''query_body'') then cfg task ''query_body'' else JStr [])"
    using assms(2) json_ok_cfg [OF assms(1), of "''query_body''"] stored_body_stable [of "cfg task ''query_body''"]
    by (auto simp: cfg_read_async stored_body_def [of "JStr []"])
  then show "json_ok b" "(if truthy b then pretty_value b else JStr []) = cfg (read_async task) ''query_body''"
    using json_ok_cfg [OF assms(1), of "''query_body''"] by (auto simp: cfg_read_async units_ok_def)
qed

lemma json_ok_task_of: "json_ok (JObj ps) \<Longrightarrow> json_ok (JObj (task_of ps))"
  using json_ok_cfg [of ps "''async_task''"] by (auto simp: task_of_def keys_ordered_def split: jsval.splits)

text \<open>
  The values that the inputs of a field give, except for the body and the status map: a text, a switch, a list of statuses, a number other than zero.
\<close>

definition field_value_ok :: "string \<Rightarrow> jsval \<Rightarrow> bool" where
  "field_value_ok k v \<longleftrightarrow> json_ok v \<and>
     (if k \<in> set text_fields then (\<exists>s. v = JStr s)
      else if k = ''enabled'' \<or> k = ''sync_mode'' then (\<exists>b. v = JBool b)
      else if k = ''success_statuses'' then is_array v
      else (k = ''poll_interval_sec'' \<or> k = ''max_poll_attempts'') \<and> (\<exists>n. v = JNum n) \<and> truthy v)"

lemma field_names:
  "''enabled'' \<notin> set text_fields" "''sync_mode'' \<notin> set text_fields" "''success_statuses'' \<notin> set text_fields" "''query_body'' \<notin> set text_fields"
  "''status_map'' \<notin> set text_fields" "''poll_interval_sec'' \<notin> set text_fields" "''max_poll_attempts'' \<notin> set text_fields"
  by (simp_all add: text_fields_def)

lemma field_kind:
  "field_value_ok k v \<Longrightarrow> k \<in> set text_fields \<or> k = ''enabled'' \<or> k = ''sync_mode'' \<or> k = ''success_statuses''
     \<or> k = ''poll_interval_sec'' \<or> k = ''max_poll_attempts''"
  unfolding field_value_ok_def by meson

lemma field_keys:
  assumes "field_value_ok k v"
  shows "k \<in> set asyncTaskConfigKeys" "k \<noteq> ''query_body''" "k \<noteq> ''status_map''"
proof -
  have t: "list_all (\<lambda>k. k \<in> set asyncTaskConfigKeys \<and> k \<noteq> ''query_body'' \<and> k \<noteq> ''status_map'') text_fields"
    by code_simp
  have o: "''enabled'' \<in> set asyncTaskConfigKeys" "''sync_mode'' \<in> set asyncTaskConfigKeys" "''success_statuses'' \<in> set asyncTaskConfigKeys"
    "''poll_interval_sec'' \<in> set asyncTaskConfigKeys" "''max_poll_attempts'' \<in> set asyncTaskConfigKeys" by (simp_all add: asyncTaskConfigKeys_def)
  have "k \<in> set asyncTaskConfigKeys \<and> k \<noteq> ''query_body'' \<and> k \<noteq> ''status_map''"
    using field_kind [OF assms] by (elim disjE) (use t [unfolded list_all_iff] o in simp_all)
  then show "k \<in> set asyncTaskConfigKeys" "k \<noteq> ''query_body''" "k \<noteq> ''status_map''" by blast+
qed

lemma field_value_cases:
  assumes "field_value_ok k v"
  shows "k \<in> set text_fields \<Longrightarrow> or_text v [] = v" "k = ''enabled'' \<or> k = ''sync_mode'' \<Longrightarrow> JBool (v = JBool True) = v"
    "k = ''success_statuses'' \<Longrightarrow> is_array v" "k = ''poll_interval_sec'' \<or> k = ''max_poll_attempts'' \<Longrightarrow> js_or v JUndef = v"
proof -
  have "\<exists>s. v = JStr s" if "k \<in> set text_fields" using assms that by (simp add: field_value_ok_def)
  then show "or_text v [] = v" if "k \<in> set text_fields" using that by (auto simp: or_text_def js_or_def)
  show "JBool (v = JBool True) = v" if "k = ''enabled'' \<or> k = ''sync_mode''"
    using that assms field_names(1,2) by (elim disjE) (auto simp: field_value_ok_def)
  show "is_array v" if "k = ''success_statuses''" using that assms field_names(3) by (simp add: field_value_ok_def)
  show "js_or v JUndef = v" if "k = ''poll_interval_sec'' \<or> k = ''max_poll_attempts''"
    using that assms field_names(6,7) by (elim disjE) (simp_all add: field_value_ok_def js_or_def)
qed

text \<open>Reading what is stored for a configuration that was read and of which one field was changed.\<close>

lemma read_field_edit:
  assumes "field_value_ok k v" and "json_ok (JObj task)" and "cfg (read_async task) ''status_map'' = JStr (status_text (JObj m))"
    and "b = stored_body (cfg (read_async task) ''query_body'') x (JStr [])"
  shows "read_async (obj_put (js ''status_map'') (JObj m) (obj_put (js ''query_body'') b (obj_put (js k) v (read_async task))))
    = obj_put (js k) v (read_async task)" (is "read_async ?stored = ?c")
proof (rule config_eqI)
  note k = field_keys [OF assms(1)] and val = field_value_cases [OF assms(1)]
  show "map fst (read_async ?stored) = map js asyncTaskConfigKeys" by (rule keys_read_async)
  show "map fst ?c = map js asyncTaskConfigKeys" using k by (intro keys_put_config keys_read_async) simp
  fix j assume "j \<in> set asyncTaskConfigKeys"
  then show "cfg (read_async ?stored) j = cfg ?c j"
  proof (cases rule: config_key_cases)
    case 1
    then have j: "j \<noteq> ''query_body''" "j \<noteq> ''status_map''" using field_names(4,5) by metis+
    show ?thesis unfolding cfg_read_text [OF 1] cfg_put using val(1) 1 j by (cases "j = k") (simp_all add: cfg_read_text)
  next
    case 2
    then show ?thesis using val(2) by (simp add: cfg_read_async(1,2) cfg_put)
  next
    case 3
    then show ?thesis using val(2) by (simp add: cfg_read_async(1,2) cfg_put)
  next
    case 4
    then show ?thesis using val(3) by (cases "j = k") (simp_all add: cfg_read_async(4) cfg_put)
  next
    case 5
    then show ?thesis using read_body(2) [OF assms(2,4)] k(2) by (cases "truthy b") (simp_all add: cfg_read_async(5) [of ?stored] cfg_put)
  next
    case 6
    then show ?thesis using assms(3) k(3) by (simp add: cfg_read_async(6) [of ?stored] cfg_put)
  next
    case 7
    then have j: "j \<noteq> ''query_body''" "j \<noteq> ''status_map''" and w: "j = ''poll_interval_sec'' \<or> j = ''max_poll_attempts''" by auto
    show ?thesis unfolding cfg_read_async(7) [OF 7] cfg_put using val(4) j w by (cases "j = k") (simp_all, simp_all add: js_or_def)
  qed
qed

text \<open>
  C39: an input into a field of the asynchronous task other than the body and the status map (a text, a switch, the list of statuses, a number other
  than zero) changes that field and no other: the configuration the form reads back from the settings text is the one before with the
  new value. The status map must be one that its lines can show.
\<close>

theorem async_field_edit:
  assumes "json_ok (JObj (parseSettingsObject (cfg (af_inputs st) ''settings'')))" and "field_value_ok k v"
    and "cfg (asyncTaskConfig st) ''status_map'' = JStr (status_text (JObj m))" and "status_map_ok m" and "json_ok (JObj m)"
  shows "\<exists>st'. handleAsyncTaskConfigChange k v st = Inr st' \<and> asyncTaskConfig st' = obj_put (js k) v (asyncTaskConfig st)"
proof -
  let ?task = "task_of (parseSettingsObject (cfg (af_inputs st) ''settings''))"
  have c: "asyncTaskConfig st = read_async ?task" by (simp add: asyncTaskConfig_def read_settings)
  have task: "json_ok (JObj ?task)" using assms(1) by (rule json_ok_task_of)
  define b where "b = stored_body (cfg (read_async ?task) ''query_body'') (cfg (read_async ?task) ''query_body'') (JStr [])"
  note k = field_keys [OF assms(2)]
  have v: "json_ok v" using assms(2) by (simp add: field_value_ok_def)
  have "\<exists>st'. handleAsyncTaskConfigChange k v st = Inr st'
      \<and> asyncTaskConfig st' = read_async (obj_put (js ''status_map'') (JObj m) (obj_put (js ''query_body'') b (obj_put (js k) v (asyncTaskConfig st))))"
    unfolding handleAsyncTaskConfigChange_def
  proof (rule edit_read_back [OF assms(1)])
    show "map fst (obj_put (js k) v (asyncTaskConfig st)) = map js asyncTaskConfigKeys" using k by (simp add: keys_put_config c keys_read_async)
    show "json_ok b" using read_body(1) [OF task b_def] .
    show "parseStatusMapToObject (cfg (obj_put (js k) v (asyncTaskConfig st)) ''status_map'') = Inr m"
      using assms(3,4) k by (auto simp: cfg_put parse_status_text)
  qed (use k v assms(5) read_async_ok [OF task] in \<open>auto simp: cfg_put c b_def\<close>)
  then show ?thesis using read_field_edit [OF assms(2) task assms(3) [unfolded c] b_def] by (simp add: c)
qed

text \<open>
  A request body that is not JSON is neither refused nor dropped: it is stored as a text, the form reads it back in quotation marks, and saving the
  channel sends that text as the body, although saving means to send an empty object for a body that cannot be parsed.
\<close>

theorem invalid_body_sent_as_text:
  assumes "json_ok (JObj (parseSettingsObject (cfg (af_inputs st) ''settings'')))" and "json_parse body = None" and "body \<noteq> []" and "units_ok body"
    and "cfg (asyncTaskConfig st) ''status_map'' = JStr (status_text (JObj m))" and "status_map_ok m" and "json_ok (JObj m)"
  shows "\<exists>st' saved. handleAsyncTaskConfigChange ''query_body'' (JStr body) st = Inr st' \<and> cfg (asyncTaskConfig st') ''query_body'' = JStr (json_quote body)
    \<and> buildAsyncTaskSaveConfig (asyncTaskConfig st') = Inr saved \<and> cfg saved ''query_body'' = JStr body"
proof -
  let ?task = "task_of (parseSettingsObject (cfg (af_inputs st) ''settings''))" and ?c = "obj_put (js ''query_body'') (JStr body) (asyncTaskConfig st)"
  have c: "asyncTaskConfig st = read_async ?task" by (simp add: asyncTaskConfig_def read_settings)
  have task: "json_ok (JObj ?task)" using assms(1) by (rule json_ok_task_of)
  have body: "stored_body (JStr body) x y = x" for x y using assms(2,3) by (simp add: stored_body_def)
  have "\<exists>st'. handleAsyncTaskConfigChange ''query_body'' (JStr body) st = Inr st'
      \<and> asyncTaskConfig st' = read_async (obj_put (js ''status_map'') (JObj m) (obj_put (js ''query_body'') (JStr body) ?c))"
    unfolding handleAsyncTaskConfigChange_def
  proof (rule edit_read_back [OF assms(1)])
    show "map fst ?c = map js asyncTaskConfigKeys" by (intro keys_put_config) (simp_all add: c keys_read_async asyncTaskConfigKeys_def)
    show "parseStatusMapToObject (cfg ?c ''status_map'') = Inr m" using assms(5,6) by (simp add: cfg_put parse_status_text)
  qed (use assms(4,7) body read_async_ok [OF task] in \<open>auto simp: cfg_put c\<close>)
  then obtain st' where st': "handleAsyncTaskConfigChange ''query_body'' (JStr body) st = Inr st'"
    and c': "asyncTaskConfig st' = read_async (obj_put (js ''status_map'') (JObj m) (obj_put (js ''query_body'') (JStr body) ?c))" by blast
  have quoted: "cfg (asyncTaskConfig st') ''query_body'' = JStr (json_quote body)"
    using assms(3) by (simp add: c' cfg_read_async cfg_put pretty_value_def)
  have parsed: "parseStatusMapToObject (cfg (asyncTaskConfig st') ''status_map'') = Inr m"
    using parse_status_text [OF assms(6)] by (simp add: c' cfg_read_async cfg_put)
  obtain saved where saved: "buildAsyncTaskSaveConfig (asyncTaskConfig st') = Inr saved" using parsed by (simp add: buildAsyncTaskSaveConfig_def)
  have "json_parse (json_quote body) = Some (JStr body)" using json_parse_text [of "JStr body"] assms(4) by (simp add: json_text_def)
  then have "cfg saved ''query_body'' = JStr body"
    using cfg_saved(8) [OF saved parsed] quoted by (simp add: stored_body_def json_quote_def)
  then show ?thesis using st' quoted saved by blast
qed

section \<open>A new channel\<close>

definition new_form :: async_form where
  "new_form = \<lparr>af_inputs = [(js ''settings'', JStr [])], af_form = [], af_skip = False, af_showImport = False, af_importText = [],
     af_importPreview = None, af_importError = None\<rparr>"

lemma new_form_settings: "parseSettingsObject (cfg (af_inputs new_form) ''settings'') = []" "asyncTaskConfig new_form = read_async []"
  by (simp_all add: new_form_def cfg_def parseSettingsObject_def asyncTaskConfig_def readAsyncTaskConfigFromSettings_def read_async_Nil)

lemma new_form_map: "cfg (asyncTaskConfig new_form) ''status_map'' = JStr (status_text (JObj []))"
  by (simp add: new_form_settings cfg_read_async status_text_def) (simp add: cfg_def)

lemma empty_maps: "status_map_ok []" "json_ok (JObj [])"
  by (simp_all add: status_map_ok_def keys_ordered_def)

theorem status_map_stable_witness:
  "parseStatusMapToObject (JStr (js ''  done '' @ [arrow] @ js '' succeeded'')) = Inr [(js ''done'', JStr (js ''succeeded''))]
   \<and> parseStatusMapToObject (JStr (parseStatusMapToString (JObj [(js ''done'', JStr (js ''succeeded''))]))) = Inr [(js ''done'', JStr (js ''succeeded''))]"
proof -
  have "parseStatusMapToObject (JStr (js ''  done '' @ [arrow] @ js '' succeeded'')) = Inr [(js ''done'', JStr (js ''succeeded''))]" by code_simp
  with status_map_stable [OF this] show ?thesis by simp
qed

theorem async_field_edit_witness:
  "(\<exists>st'. handleAsyncTaskConfigChange ''query_path'' (JStr (js ''/tasks'')) new_form = Inr st'
     \<and> asyncTaskConfig st' = obj_put (js ''query_path'') (JStr (js ''/tasks'')) (asyncTaskConfig new_form))
   \<and> (\<exists>st'. handleAsyncTaskConfigChange ''poll_interval_sec'' (JNum (Fin 3)) new_form = Inr st'
     \<and> asyncTaskConfig st' = obj_put (js ''poll_interval_sec'') (JNum (Fin 3)) (asyncTaskConfig new_form))"
proof -
  have "field_value_ok ''query_path'' (JStr (js ''/tasks''))" "field_value_ok ''poll_interval_sec'' (JNum (Fin 3))"
    using json_num_ok_numeral [of "num.Bit1 num.One"] by (simp_all add: field_value_ok_def text_fields_def num_is_zero_def units_ok_def js_def)
  then show ?thesis
    using async_field_edit [OF _ _ new_form_map empty_maps] by (simp add: new_form_settings(1) empty_maps del: json_ok.simps)
qed

theorem invalid_body_sent_as_text_witness:
  "\<exists>st' saved. handleAsyncTaskConfigChange ''query_body'' (JStr (js ''{'')) new_form = Inr st'
     \<and> cfg (asyncTaskConfig st') ''query_body'' = JStr (json_quote (js ''{''))
     \<and> buildAsyncTaskSaveConfig (asyncTaskConfig st') = Inr saved \<and> cfg saved ''query_body'' = JStr (js ''{'')"
proof (rule invalid_body_sent_as_text [of new_form "js ''{''" "[]"])
  show "json_parse (js ''{'') = None" by code_simp
qed (simp_all add: new_form_settings(1) new_form_map empty_maps del: json_ok.simps)

definition default_task :: js_obj where
  "default_task =
     [(js ''enabled'', JBool False), (js ''sync_mode'', JBool False), (js ''task_id_path'', JStr (js ''taskId'')), (js ''status_path'', JStr (js ''status'')),
      (js ''error_code_path'', JStr []), (js ''error_msg_path'', JStr []), (js ''success_statuses'', JArr []), (js ''query_method'', JStr (js ''POST'')),
      (js ''query_path'', JStr []), (js ''query_body'', JObj []), (js ''status_map'', JObj []), (js ''result_list_path'', JStr (js ''results'')),
      (js ''result_url_path'', JStr (js ''url'')), (js ''result_type_path'', JStr (js ''outputType'')), (js ''output_type'', JStr (js ''image'')),
      (js ''poll_interval_sec'', JNum (Fin 5)), (js ''max_poll_attempts'', JNum (Fin 120))]"

lemma default_task_saved: "buildAsyncTaskSaveConfig emptyAsyncTaskConfig = Inr default_task"
  by code_simp

lemma default_task_ok: "json_ok (JObj [(js ''async_task'', JObj default_task)])"
proof -
  have "json_num_ok (Fin 5)" "json_num_ok (Fin 120)" by (simp_all add: json_num_ok_numeral)
  then have "list_all (\<lambda>p. units_ok (fst p) \<and> json_ok (snd p)) default_task"
    using units_ok_js [of "[]"] by (simp add: default_task_def keys_ordered_def)
  moreover have "keys_ordered default_task"
    by (rule keys_ordered_names) (simp_all add: default_task_def all_digits_js is_digit_def)
  ultimately have "json_ok (JObj default_task)" by simp
  then show ?thesis by (simp add: keys_ordered_Cons keys_ordered_def [of "[]"])
qed

theorem async_save_stable_witness:
  "buildAsyncTaskSaveConfig (readAsyncTaskConfigFromSettings (JStr (json_text (JObj [(js ''async_task'', JObj default_task)])))) = Inr default_task"
proof -
  have "truthy (cfg default_task ''query_body'')" by (simp add: default_task_def cfg_Cons)
  moreover have "buildAsyncTaskSaveConfig (readAsyncTaskConfigFromSettings (JStr (json_text (JObj [(js ''async_task'', JObj default_task)]))))
      = Inr (if truthy (cfg default_task ''query_body'') then default_task else obj_put (js ''query_body'') (JObj []) default_task)"
  proof (rule async_save_stable [OF default_task_saved, where p = 5 and q = 120])
    show "json_ok (JObj [(js ''async_task'', JObj default_task)])" by (rule default_task_ok)
  qed (simp_all add: default_task_def cfg_Cons)
  ultimately show ?thesis by simp
qed

end
