(* ===== verification/AsyncImportFacts.thy ===== *)
theory AsyncImportFacts
  imports AsyncFacts
begin

text \<open>
  Facts about the import of the settings of asynchronous tasks: the paths that the analysis of an example finds lead to the values it means,
  an import that applies is read back, and the ids and results that the analysis misses.
\<close>

section \<open>Paths lead to their values\<close>

text \<open>Objects whose keys can be parts of a path.\<close>

fun dotfree :: "jsval \<Rightarrow> bool" where
  "dotfree (JObj ps) = (distinct (map fst ps) \<and> list_all (\<lambda>p. fst p \<noteq> [] \<and> 46 \<notin> set (fst p) \<and> dotfree (snd p)) ps)"
| "dotfree _ = True"

definition leads :: "jsval \<Rightarrow> jsstr \<Rightarrow> jsval \<Rightarrow> bool" where
  "leads data path v \<longleftrightarrow> path \<noteq> [] \<and> walk data (split_unit 46 path) = Some v"

lemma split_unit_at: "split_unit d (a @ d # b) = split_unit d a @ split_unit d b"
  by (induction a) (auto split: list.splits)

lemma walk_append: "walk v (a @ b) = (case walk v a of Some w \<Rightarrow> walk w b | None \<Rightarrow> None)"
  by (induction v a rule: walk.induct) auto

lemma walk_member:
  assumes "dotfree (JObj full)" and "(key, v) \<in> set full"
  shows "walk (JObj full) [key] = Some v" and "key \<noteq> []" and "46 \<notin> set key" and "dotfree v"
  using assms by (force simp: own_prop_def list_ex_iff list_all_iff)+

lemma leads_extend:
  assumes "prefix = [] \<and> data = JObj full \<or> leads data prefix (JObj full)" and "dotfree (JObj full)" and "(key, v) \<in> set full"
  shows "leads data (extend_path prefix key) v"
  using assms(1) walk_member [OF assms(2,3)]
  by (auto simp: leads_def extend_path_def split_unit_none split_unit_at walk_append simp del: walk.simps)

text \<open>Induction over an object and the objects in it.\<close>

lemma tree_induct [case_names Nil Cons]:
  fixes P :: "jsstr \<Rightarrow> js_obj \<Rightarrow> bool"
  assumes "\<And>prefix. P prefix []" and "\<And>prefix key v ps. (\<And>path qs. v = JObj qs \<Longrightarrow> P path qs) \<Longrightarrow> P prefix ps \<Longrightarrow> P prefix ((key, v) # ps)"
  shows "P prefix ps"
proof (induction "size (JObj ps)" arbitrary: prefix ps rule: less_induct)
  case less
  show ?case
  proof (cases ps)
    case (Cons p qs)
    then show ?thesis using less assms(2) [where v = "snd p" and ps = qs and prefix = prefix and key = "fst p"] by (cases p) auto
  qed (simp add: assms(1))
qed

lemma visit_leads:
  assumes "prefix = [] \<and> data = JObj full \<or> leads data prefix (JObj full)" and "dotfree (JObj full)" and "set ps \<subseteq> set full"
    and "\<And>path v. (path, v) \<in> set paths \<Longrightarrow> leads data path v"
  shows "(path, v) \<in> set (visit prefix ps paths) \<Longrightarrow> leads data path v"
  using assms
proof (induction prefix ps arbitrary: full paths path v rule: tree_induct)
  case (Cons prefix key w ps)
  let ?path = "extend_path prefix key"
  let ?paths = "put_own ?path w paths"
  have l: "leads data ?path w" using Cons.prems(2-4) by (intro leads_extend) auto
  have d: "dotfree w" using walk_member(4) [OF Cons.prems(3), of key w] Cons.prems(4) by simp
  have put: "(p, u) \<in> set ?paths \<Longrightarrow> leads data p u" for p u
    using set_obj_put [of ?path w paths] l Cons.prems(5) by (auto simp: put_own_def split: if_splits)
  have "(p, u) \<in> set (case w of JObj qs \<Rightarrow> visit ?path qs ?paths | _ \<Rightarrow> ?paths) \<Longrightarrow> leads data p u" for p u
    using put Cons.IH(1) [of _ p u ?path ?paths] l d by (cases w) auto
  then show ?case
    using Cons.IH(2) [OF _ Cons.prems(2,3), of path v] Cons.prems(1,4) by (simp add: Let_def)
qed simp

definition id_key :: "jsstr \<Rightarrow> bool" where
  "id_key k \<longleftrightarrow> k \<in> set (map js [''id'', ''task_id'', ''taskId'']) \<or> endsWith k (js ''_id'')"

lemma id_keyI: "k \<in> set (map js [''id'', ''task_id'', ''taskId'']) \<Longrightarrow> id_key k" "endsWith k (js ''_id'') \<Longrightarrow> id_key k"
  by (simp_all only: id_key_def simp_thms)

lemma task_id_leads:
  "task_id low best ps = best \<or> (\<exists>s. (task_id low best ps, JStr s) \<in> set ps) \<and> id_key (low (last_key (task_id low best ps)))"
proof (induction ps arbitrary: best)
  case (Cons p ps)
  obtain path v where p: "p = (path, v)" by force
  note step = task_id.simps(2) [of low best path v ps, unfolded Let_def]
  show ?case
  proof (cases "\<exists>s. v = JStr s")
    case True
    then obtain s where v: "v = JStr s" by blast
    consider "low (last_key path) \<in> set (map js [''id'', ''task_id'', ''taskId''])" "task_id low best (p # ps) = path"
      | "low (last_key path) \<in> set (map js [''id'', ''task_id'', ''taskId''])" "task_id low best (p # ps) = task_id low path ps"
      | "endsWith (low (last_key path)) (js ''_id'')" "task_id low best (p # ps) = task_id low path ps"
      | "task_id low best (p # ps) = task_id low best ps"
      using step [unfolded v jsval.case] unfolding p v by presburger
    then show ?thesis
    proof cases
      case 1
      then show ?thesis using id_keyI(1) by (auto simp only: p v list.set intro: insertI1)
    next
      case 2
      then show ?thesis using Cons [of path] id_keyI(1) [OF 2(1)] by (auto simp only: p v list.set)
    next
      case 3
      then show ?thesis using Cons [of path] id_keyI(2) [OF 3(1)] by (auto simp only: p v list.set)
    next
      case 4
      then show ?thesis using Cons [of best] by (auto simp only: list.set)
    qed
  next
    case False
    then have "task_id low best (p # ps) = task_id low best ps" unfolding p step by (cases v) simp_all
    then show ?thesis using Cons [of best] by (auto simp only: list.set)
  qed
qed simp

lemma find_path_leads: "find_path P ps \<noteq> [] \<Longrightarrow> \<exists>v. (find_path P ps, v) \<in> set ps \<and> P (last_key (find_path P ps))"
  by (induction ps) (auto simp: find_path_def split: option.splits if_splits)

lemma candidate_leads: "find_candidate cs ps \<noteq> [] \<Longrightarrow> find_candidate cs ps \<in> set (map js cs) \<and> (\<exists>v. (find_candidate cs ps, v) \<in> set ps)"
  by (induction cs) (auto simp: find_candidate_def hasOwn_def list_ex_iff)

text \<open>The key of the address names a text that starts like an address in the first result.\<close>

definition url_keys :: "string list" where
  "url_keys = [''url'', ''image_url'', ''video_url'', ''audio_url'', ''result_url'']"

lemma url_key_names: "k \<in> set url_keys \<Longrightarrow> index_key (js k) = None \<and> k \<noteq> ''length''"
proof -
  have "list_all (\<lambda>k. index_key (js k) = None \<and> k \<noteq> ''length'') url_keys" by code_simp
  then show "k \<in> set url_keys \<Longrightarrow> ?thesis" by (auto simp: list_all_iff)
qed

lemma item_url_entry:
  assumes "typeof_object first" and "first \<noteq> JNull" and "item_url first \<noteq> []"
  shows "\<exists>v. (item_url first, v) \<in> set (entries first) \<and> http_text v"
proof (cases "find (\<lambda>k. http_text (js_prop first (js k))) url_keys")
  case None
  then have i: "item_url first = (case find (\<lambda>p. http_text (snd p)) (entries first) of Some p \<Rightarrow> fst p | None \<Rightarrow> [])"
    by (simp only: item_url_def url_keys_def [symmetric] option.case)
  then obtain p where p: "find (\<lambda>p. http_text (snd p)) (entries first) = Some p" using assms(3) by (cases "find (\<lambda>p. http_text (snd p)) (entries first)") auto
  then have "p \<in> set (entries first)" "http_text (snd p)" by (auto simp: find_Some_iff)
  then show ?thesis using i p by (metis option.case(2) surjective_pairing)
next
  case (Some k)
  then have h: "http_text (js_prop first (js k))" and k: "k \<in> set url_keys" by (auto simp: find_Some_iff)
  have "(js k, js_prop first (js k)) \<in> set (entries first)"
    using assms(1,2) h url_key_names [OF k]
    by (cases first) (auto simp: http_text_def dest: map_of_SomeD split: option.splits)
  then show ?thesis using Some h by (auto simp: item_url_def simp flip: url_keys_def)
qed

lemma result_array_leads:
  assumes "prefix = [] \<and> data = JObj full \<or> leads data prefix (JObj full)" and "dotfree (JObj full)" and "set ps \<subseteq> set full"
    and "findResultArray prefix ps = Some p"
  shows "\<exists>v. leads data p v \<and> result_array v"
  using assms
proof (induction prefix ps arbitrary: full rule: tree_induct)
  case (Cons prefix key w ps)
  let ?path = "extend_path prefix key"
  have l: "leads data ?path w" using Cons.prems(1-3) by (intro leads_extend) auto
  have d: "dotfree w" using walk_member(4) [OF Cons.prems(2), of key w] Cons.prems(3) by simp
  consider "result_array w" "p = ?path" | qs where "w = JObj qs" "findResultArray ?path qs = Some p" | "findResultArray prefix ps = Some p"
    using Cons.prems(4) by (cases "result_array w"; cases w) (auto simp: Let_def simp del: visit.simps split: if_splits option.splits)
  then show ?case
  proof cases
    case 1
    then show ?thesis using l by blast
  next
    case (2 qs)
    then show ?thesis using Cons.IH(1) [of qs ?path qs] l d by simp
  next
    case 3
    then show ?thesis using Cons.IH(2) [OF Cons.prems(1,2)] Cons.prems(3) by simp
  qed
qed simp

lemma result_url_leads:
  assumes "path \<noteq> []" and "result_url data path = Inr u"
  shows "path_or u ''url'' = js ''url'' \<or> (\<exists>first rest v. leads data path (JArr (first # rest)) \<and> (path_or u ''url'', v) \<in> set (entries first) \<and> http_text v)"
proof (cases "u = []")
  case False
  then obtain first rest where w: "walk data (split_unit 46 path) = Some (JArr (first # rest))" "first \<noteq> JNull" "typeof_object first" "u = item_url first"
    using assms(2) by (auto simp: result_url_def split: option.splits jsval.splits list.splits if_splits)
  then have "leads data path (JArr (first # rest))" using assms(1) by (simp add: leads_def)
  moreover obtain v where "(u, v) \<in> set (entries first)" "http_text v" using item_url_entry [OF w(3,2)] w(4) False by blast
  ultimately show ?thesis using False by (auto simp: path_or_def)
qed (simp add: path_or_def)

text \<open>
  C40: for an example answer whose keys are not empty and have no dot, every path that the analysis fills in is its default or leads to a value of the
  example: the task id to a text under an id key, the status to a value under a status key, the error paths, which have no default and may be empty, to a
  value under one of their three names, the result list to an array whose first object has an address, the type to a value under a
  type key; and the path of the address, other than its default, is a key of the first result with a text that starts with \<open>http\<close>.
\<close>

theorem detected_paths_resolve:
  assumes "detect toLowerCase data = Inr result" and "dotfree (JObj data)"
  shows "\<exists>task status errorCode errorMsg results url type.
      cfg result ''task_id_path'' = JStr task
    \<and> (task = js ''taskId'' \<or> (\<exists>s. leads (JObj data) task (JStr s)) \<and> id_key (toLowerCase (last_key task)))
    \<and> cfg result ''status_path'' = JStr status
    \<and> (status = js ''status'' \<or> (\<exists>v. leads (JObj data) status v) \<and> toLowerCase (last_key status) \<in> set (map js [''status'', ''state'', ''task_status'']))
    \<and> cfg result ''error_code_path'' = JStr errorCode
    \<and> (errorCode = [] \<or> (\<exists>v. leads (JObj data) errorCode v) \<and> errorCode \<in> set (map js [''error.code'', ''error.error_code'', ''error.type'']))
    \<and> cfg result ''error_msg_path'' = JStr errorMsg
    \<and> (errorMsg = [] \<or> (\<exists>v. leads (JObj data) errorMsg v) \<and> errorMsg \<in> set (map js [''error.message'', ''error.error_message'', ''error.msg'']))
    \<and> cfg result ''result_list_path'' = JStr results \<and> (results = js ''results'' \<or> (\<exists>v. leads (JObj data) results v \<and> result_array v))
    \<and> cfg result ''result_url_path'' = JStr url
    \<and> (url = js ''url'' \<or> (\<exists>first rest v. leads (JObj data) results (JArr (first # rest)) \<and> (url, v) \<in> set (entries first) \<and> http_text v))
    \<and> cfg result ''result_type_path'' = JStr type
    \<and> (type = js ''outputType'' \<or> (\<exists>v. leads (JObj data) type v)
         \<and> last_key type \<in> set (map js [''outputType'', ''output_type'', ''result_type'', ''media_type'', ''type'']))"
proof -
  define paths where "paths = visit [] data []"
  have paths: "leads (JObj data) p v" if "(p, v) \<in> set paths" for p v
    using visit_leads [of "[]" "JObj data" data data "[]" p v] that assms(2) unfolding paths_def by simp
  let ?status = "find_path (\<lambda>k. toLowerCase k \<in> set (map js [''status'', ''state'', ''task_status''])) paths"
  let ?type = "find_path (\<lambda>k. k \<in> set (map js [''outputType'', ''output_type'', ''result_type'', ''media_type'', ''type''])) paths"
  let ?list = "path_or (case findResultArray [] data of Some p \<Rightarrow> p | None \<Rightarrow> []) ''results''"
  obtain u where u: "result_url (JObj data) ?list = Inr u"
    using assms(1) by (auto simp: detect_def Let_def split: sum.splits)
  have r: "cfg result ''task_id_path'' = JStr (path_or (task_id toLowerCase [] paths) ''taskId'')" "cfg result ''status_path'' = JStr (path_or ?status ''status'')"
    "cfg result ''error_code_path'' = JStr (find_candidate [''error.code'', ''error.error_code'', ''error.type''] paths)"
    "cfg result ''error_msg_path'' = JStr (find_candidate [''error.message'', ''error.error_message'', ''error.msg''] paths)"
    "cfg result ''result_list_path'' = JStr ?list" "cfg result ''result_url_path'' = JStr (path_or u ''url'')"
    "cfg result ''result_type_path'' = JStr (path_or ?type ''outputType'')"
    using assms(1) u by (simp_all add: detect_def Let_def flip: paths_def) (auto simp: cfg_Cons)
  have own: "find_candidate cs paths = [] \<or> (\<exists>v. leads (JObj data) (find_candidate cs paths) v) \<and> find_candidate cs paths \<in> set (map js cs)" for cs
    using candidate_leads [of cs paths] paths by blast
  have task: "path_or (task_id toLowerCase [] paths) ''taskId'' = js ''taskId'' \<or> (\<exists>s. leads (JObj data) (path_or (task_id toLowerCase [] paths) ''taskId'') (JStr s))
      \<and> id_key (toLowerCase (last_key (path_or (task_id toLowerCase [] paths) ''taskId'')))"
    using task_id_leads [of toLowerCase "[]" paths] paths by (auto simp: path_or_def)
  have found: "path_or (find_path P paths) d = js d \<or> (\<exists>v. leads (JObj data) (path_or (find_path P paths) d) v) \<and> P (last_key (path_or (find_path P paths) d))" for P d
    using find_path_leads [of P paths] paths by (cases "find_path P paths = []") (auto simp: path_or_def)
  note status = found [of "\<lambda>k. toLowerCase k \<in> set (map js [''status'', ''state'', ''task_status''])" "''status''"]
  note type = found [of "\<lambda>k. k \<in> set (map js [''outputType'', ''output_type'', ''result_type'', ''media_type'', ''type''])" "''outputType''"]
  have results: "?list = js ''results'' \<or> (\<exists>v. leads (JObj data) ?list v \<and> result_array v)"
    using result_array_leads [of "[]" "JObj data" data data] assms(2) by (auto simp: path_or_def split: option.splits)
  have "?list \<noteq> []" by (simp add: path_or_def)
  then have url: "path_or u ''url'' = js ''url'' \<or> (\<exists>first rest v. leads (JObj data) ?list (JArr (first # rest)) \<and> (path_or u ''url'', v) \<in> set (entries first) \<and> http_text v)"
    using u by (rule result_url_leads)
  show ?thesis by (intro exI conjI) (rule r task status own results url type)+
qed

text \<open>
  An id under the key \<open>taskId\<close> is found only at the top: keys are compared in lower case with a list that has \<open>taskId\<close> in it, so that this entry
  never matches. For a nested one the default is filled in, which leads nowhere.
\<close>

theorem nested_taskId_missed:
  assumes "toLowerCase (js ''taskId'') = js ''taskid''" and "toLowerCase (js ''data'') = js ''data''"
  shows "\<exists>result. detect toLowerCase [(js ''data'', JObj [(js ''taskId'', JStr s)])] = Inr result
    \<and> cfg result ''task_id_path'' = JStr (js ''taskId'') \<and> walk (JObj [(js ''data'', JObj [(js ''taskId'', JStr s)])]) [js ''taskId''] = None
    \<and> leads (JObj [(js ''data'', JObj [(js ''taskId'', JStr s)])]) (js ''data.taskId'') (JStr s)"
proof -
  have path: "extend_path (js ''data'') (js ''taskId'') = js ''data.taskId''" "extend_path [] (js ''data'') = js ''data''" by code_simp+
  have keys: "last_key (js ''data'') = js ''data''" "last_key (js ''data.taskId'') = js ''taskId''"
    "split_unit 46 (js ''data.taskId'') = [js ''data'', js ''taskId'']" "split_unit 46 (js ''results'') = [js ''results'']" by code_simp+
  have "visit [] [(js ''data'', JObj [(js ''taskId'', JStr s)])] [] =
      [(js ''data'', JObj [(js ''taskId'', JStr s)]), (js ''data.taskId'', JStr s)]"
    by (simp add: Let_def path put_own_def obj_put_def key_before_def index_key_def all_digits_js is_digit_def)
  moreover have "\<not> endsWith (js ''taskid'') (js ''_id'')" by code_simp
  ultimately show ?thesis
    using assms
    by (simp add: detect_def Let_def path keys path_or_def result_array_def result_url_def own_prop_def leads_def cfg_Cons)
qed

text \<open>An example whose results start with \<open>null\<close> cannot be imported: the search for an address throws.\<close>

theorem null_result_fails: "detect toLowerCase [(js ''results'', JArr [JNull])] = Inl TypeError"
proof -
  have "split_unit 46 (js ''results'') = [js ''results'']" by code_simp
  then show ?thesis by (simp add: detect_def Let_def result_array_def url_item_def path_or_def result_url_def own_prop_def extend_path_def)
qed

section \<open>An example\<close>

definition sample_task_answer :: js_obj where
  "sample_task_answer = [(js ''id'', JStr (js ''t1'')), (js ''state'', JStr (js ''queued'')),
     (js ''output'', JObj [(js ''items'', JArr [JObj [(js ''url'', JStr (js ''http://a''))]])])]"

lemma sample_task_answer_detected:
  "detect id sample_task_answer = Inr [(js ''task_id_path'', JStr (js ''id'')), (js ''status_path'', JStr (js ''state'')),
     (js ''success_statuses'', JArr [JStr (js ''queued'')]), (js ''error_code_path'', JStr []), (js ''error_msg_path'', JStr []),
     (js ''result_list_path'', JStr (js ''output.items'')), (js ''result_url_path'', JStr (js ''url'')),
     (js ''result_type_path'', JStr (js ''outputType'')), (js ''output_type'', JStr (js ''image'')),
     (js ''status_map'', JStr (js ''queued'' @ [arrow] @ js ''pending''))]"
  by code_simp

theorem detected_paths_resolve_witness:
  "dotfree (JObj sample_task_answer) \<and> (\<exists>v. leads (JObj sample_task_answer) (js ''output.items'') v \<and> result_array v)"
proof -
  have d: "dotfree (JObj sample_task_answer)" by code_simp
  have "js ''output.items'' \<noteq> js ''results''" by simp
  then show ?thesis using detected_paths_resolve [OF sample_task_answer_detected d] d by (simp add: cfg_Cons del: dotfree.simps)
qed

theorem nested_taskId_missed_witness:
  "\<exists>result. detect (\<lambda>k. if k = js ''taskId'' then js ''taskid'' else k) [(js ''data'', JObj [(js ''taskId'', JStr (js ''t1''))])] = Inr result
     \<and> cfg result ''task_id_path'' = JStr (js ''taskId'')"
  using nested_taskId_missed [of "\<lambda>k. if k = js ''taskId'' then js ''taskid'' else k" "js ''t1''"] by (auto simp: if_distrib)

end
