(* ===== verification/ChannelForm.thy ===== *)
theory ChannelForm
  imports AsyncTask StatusCodeRisk
begin

text \<open>
  Loading a channel into the channel form and saving it, \<open>loadChannel\<close> and \<open>submit\<close> of
  \<open>src/web/src/components/table/channels/modals/EditChannelModal.jsx\<close>, with the helpers for lists of keys and models, and the
  connection text of \<open>src/web/src/helpers/token.js\<close>. The values of the form fields are an argument of \<open>submit\<close>, as are
  the answers to its two questions and the texts of uploaded files. The loaded form always has the inputs of the channel.
\<close>

section \<open>Texts\<close>

definition field_is :: "js_obj \<Rightarrow> string \<Rightarrow> rat \<Rightarrow> bool" where  \<comment> \<open>\<open>o.k === n\<close>\<close>
  "field_is ps k n \<longleftrightarrow> cfg ps k = JNum (Fin n)"

definition put :: "string \<Rightarrow> jsval \<Rightarrow> js_obj \<Rightarrow> js_obj" where
  "put k v ps = obj_put (js k) v ps"

definition remove :: "string \<Rightarrow> js_obj \<Rightarrow> js_obj" where
  "remove k ps = obj_delete (js k) ps"

definition trim_value :: "jsval \<Rightarrow> js_error + jsstr" where  \<comment> \<open>\<open>v.trim()\<close>\<close>
  "trim_value v = (case v of JStr s \<Rightarrow> Inr (trim s) | _ \<Rightarrow> Inl TypeError)"

text \<open>\<open>(v || '').trim()\<close> for every element of an array.\<close>

fun trim_all :: "jsval list \<Rightarrow> js_error + jsstr list" where
  "trim_all [] = Inr []"
| "trim_all (v # vs) =
     (case trim_value (or_text v '''') of
        Inl e \<Rightarrow> Inl e
      | Inr s \<Rightarrow> (case trim_all vs of Inl e \<Rightarrow> Inl e | Inr ss \<Rightarrow> Inr (s # ss)))"

definition nonblank :: "jsstr list \<Rightarrow> jsstr list" where
  "nonblank ss = filter (\<lambda>s. s \<noteq> []) ss"

definition unique_texts :: "jsval list \<Rightarrow> jsval" where  \<comment> \<open>\<open>Array.from(new Set(vs.map((v) => String(v || '').trim()).filter(Boolean)))\<close>\<close>
  "unique_texts vs = JArr (map JStr (uniq (nonblank (map (\<lambda>v. trim (js_to_string (or_text v ''''))) vs))))"

section \<open>Loading a channel\<close>

definition load_models :: "js_obj \<Rightarrow> js_error + js_obj" where
  "load_models data =
     (let list = (\<lambda>v. case v of JStr s \<Rightarrow> Inr (if s = [] then [] else map JStr (split_unit 44 s)) | _ \<Rightarrow> Inl TypeError) in
      case list (cfg data ''models'') of
        Inl e \<Rightarrow> Inl e
      | Inr models \<Rightarrow>
          (case list (cfg data ''group'') of
             Inl e \<Rightarrow> Inl e
           | Inr groups \<Rightarrow> Inr (put ''groups'' (JArr groups) (put ''models'' (JArr models) data))))"

definition load_mapping :: "js_obj \<Rightarrow> js_error + js_obj" where
  "load_mapping data =
     (if cfg data ''model_mapping'' = JStr [] then Inr data
      else case json_parse (js_to_string (cfg data ''model_mapping'')) of
             None \<Rightarrow> Inl SyntaxError
           | Some v \<Rightarrow> Inr (put ''model_mapping'' (pretty_value v) data))"

text \<open>The object in a text of settings; reading a property of \<open>null\<close> throws like a text that cannot be parsed.\<close>

definition settings_value :: "jsval \<Rightarrow> jsval option" where
  "settings_value v =
     (if \<not> truthy v then None
      else case json_parse (js_to_string v) of Some w \<Rightarrow> if is_nullish w then None else Some w | None \<Rightarrow> None)"

definition load_setting :: "js_obj \<Rightarrow> js_obj" where
  "load_setting data =
     (let parsed = (case settings_value (cfg data ''setting'') of Some w \<Rightarrow> w | None \<Rightarrow> JObj []); get = (\<lambda>k d. js_or (js_prop parsed (js k)) d) in
      fold (\<lambda>(k, v). put k v)
        [(''force_format'', get ''force_format'' (JBool False)), (''thinking_to_content'', get ''thinking_to_content'' (JBool False)),
         (''proxy'', get ''proxy'' (JStr [])), (''pass_through_body_enabled'', get ''pass_through_body_enabled'' (JBool False)),
         (''system_prompt'', get ''system_prompt'' (JStr [])), (''system_prompt_override'', get ''system_prompt_override'' (JBool False)),
         (''image_generation_model_prefixes'', get ''image_generation_model_prefixes'' (JArr []))] data)"

definition load_settings :: "js_obj \<Rightarrow> js_obj" where
  "load_settings data =
     (let parsed = (case settings_value (cfg data ''settings'') of Some w \<Rightarrow> w | None \<Rightarrow> JObj []);
          raw = (\<lambda>k. js_prop parsed (js k)); get = (\<lambda>k d. js_or (raw k) d); flag = (\<lambda>k. JBool (raw k = JBool True));
          list = (\<lambda>k f d. if is_array (raw k) then f (raw k) else d);
          data1 = (if truthy (cfg data ''settings'')
                   then let data0 = put ''azure_responses_version'' (get ''azure_responses_version'' (JStr [])) data
                        in if settings_value (cfg data ''settings'') = None then put ''region'' (JStr []) data0 else data0
                   else data)
      in fold (\<lambda>(k, v). put k v)
        [(''vertex_key_type'', get ''vertex_key_type'' (JStr (js ''json''))), (''aws_key_type'', get ''aws_key_type'' (JStr (js ''ak_sk''))),
         (''is_enterprise_account'', flag ''openrouter_enterprise''), (''allow_service_tier'', get ''allow_service_tier'' (JBool False)),
         (''disable_store'', get ''disable_store'' (JBool False)), (''allow_safety_identifier'', get ''allow_safety_identifier'' (JBool False)),
         (''allow_include_obfuscation'', get ''allow_include_obfuscation'' (JBool False)), (''allow_inference_geo'', get ''allow_inference_geo'' (JBool False)),
         (''allow_speed'', get ''allow_speed'' (JBool False)), (''claude_beta_query'', get ''claude_beta_query'' (JBool False)),
         (''upstream_model_update_check_enabled'', flag ''upstream_model_update_check_enabled''),
         (''upstream_model_update_auto_sync_enabled'', flag ''upstream_model_update_auto_sync_enabled''),
         (''upstream_model_update_last_check_time'', js_or (JNum (js_to_number (raw ''upstream_model_update_last_check_time''))) (JNum (Fin 0))),
         (''upstream_model_update_last_detected_models'', list ''upstream_model_update_last_detected_models'' id (JArr [])),
         (''upstream_model_update_ignored_models'', list ''upstream_model_update_ignored_models'' (\<lambda>v. JStr (js_to_string v)) (JStr [])),
         (''rest_routes'', list ''rest_routes'' (\<lambda>v. if v = JArr [] then JStr [] else pretty_value v) (JStr []))] data1)"

definition load_base_url :: "js_obj \<Rightarrow> js_obj" where
  "load_base_url data =
     (if field_is data ''type'' 45 \<and> (case cfg data ''base_url'' of JStr s \<Rightarrow> trim s = [] | v \<Rightarrow> \<not> truthy v)
      then put ''base_url'' (JStr (js ''https://ark.cn-beijing.volces.com'')) data else data)"

text \<open>
  What \<open>submit\<close> uses of the state of the component: whether a channel is edited, the switches for several keys, the inputs, uploaded key
  files (their parsed contents and their texts), and the models and mappings with which the channel was loaded.
\<close>

record channel_form =
  cf_isEdit :: bool
  cf_channelId :: jsval
  cf_batch :: bool
  cf_multiToSingle :: bool
  cf_isMultiKey :: bool
  cf_keyMode :: jsstr
  cf_useManualInput :: bool
  cf_inputs :: js_obj
  cf_vertexKeys :: "jsval list"
  cf_vertexFiles :: "jsstr option list"   \<comment> \<open>the texts of the files that are there\<close>
  cf_initialModels :: "jsstr list"
  cf_initialMapping :: jsval
  cf_initialStatusMapping :: jsval

definition loaded_form :: "js_obj \<Rightarrow> channel_form \<Rightarrow> js_error + channel_form" where
  "loaded_form data st =
     (let isMulti = (prop_opt (js_or (cfg data ''channel_info'') (JObj [])) (js ''is_multi_key'') = JBool True) in
      case load_models data of
        Inl e \<Rightarrow> Inl e
      | Inr data1 \<Rightarrow>
          (case load_mapping data1 of
             Inl e \<Rightarrow> Inl e
           | Inr data2 \<Rightarrow>
               let inputs = load_base_url (load_settings (load_setting data2));
                   models = (case cfg inputs ''models'' of JArr ms \<Rightarrow> nonblank (map (\<lambda>m. trim (js_to_string m)) ms) | _ \<Rightarrow> [])
               in Inr (st\<lparr>cf_inputs := inputs, cf_isMultiKey := isMulti, cf_batch := isMulti, cf_multiToSingle := isMulti, cf_initialModels := models,
                     cf_initialMapping := or_text (cfg inputs ''model_mapping'') '''',
                     cf_initialStatusMapping := or_text (cfg inputs ''status_code_mapping'') ''''\<rparr>)))"

datatype form_notice = CodexNoBatch | KeyMissing | KeyNotJson | KeyNotObject | NoAccessToken | NoAccountId | VertexKeyInvalid | VertexFileInvalid
  | NoVertexFile | NameOrKeyMissing | NoModel | NoBaseUrl | MappingNotJson | InvalidStatusCodes "jsstr list" | RoutesNotJson | RoutesNotArray
  | ChannelUpdated | ChannelCreated | ServerMessage jsval

text \<open>The answer of the server to the request for a channel.\<close>

definition loadChannel :: "jsval option \<Rightarrow> channel_form \<Rightarrow> form_notice list \<times> (js_error + channel_form)" where
  "loadChannel res st =
     (case res of
        None \<Rightarrow> ([], Inr st)
      | Some d \<Rightarrow>
          if is_nullish d then ([], Inl TypeError)
          else if \<not> truthy (js_prop d (js ''success'')) then ([ServerMessage (js_prop d (js ''message''))], Inr st)
          else (case js_prop d (js ''data'') of JObj data \<Rightarrow> ([], loaded_form data st) | _ \<Rightarrow> ([], Inl TypeError)))"

section \<open>Saving a channel\<close>

datatype stop = Refused form_notice | Cancelled | Thrown js_error

definition and_next :: "'e + 'a \<Rightarrow> ('a \<Rightarrow> 'e + 'b) \<Rightarrow> 'e + 'b" where
  "and_next x f = (case x of Inl e \<Rightarrow> Inl e | Inr a \<Rightarrow> f a)"

definition throwing :: "js_error + 'a \<Rightarrow> stop + 'a" where
  "throwing x = (case x of Inl e \<Rightarrow> Inl (Thrown e) | Inr a \<Rightarrow> Inr a)"

definition require :: "bool \<Rightarrow> form_notice \<Rightarrow> stop + unit" where
  "require holds notice = (if holds then Inr () else Inl (Refused notice))"

text \<open>The fields of the form, with those that are kept in the inputs only.\<close>

definition local_inputs :: "js_obj \<Rightarrow> js_obj \<Rightarrow> js_obj" where
  "local_inputs formValues inputs =
     (let prefixes = (case cfg inputs ''image_generation_model_prefixes'' of
            JArr vs \<Rightarrow> vs
          | _ \<Rightarrow> (case cfg formValues ''image_generation_model_prefixes'' of JArr vs \<Rightarrow> vs | _ \<Rightarrow> []))
      in put ''image_generation_model_prefixes'' (unique_texts prefixes)
           (fold (\<lambda>k. put k (cfg inputs k))
             [''param_override'', ''header_override'', ''response_override'', ''rest_routes'', ''force_format'', ''thinking_to_content'', ''proxy'',
              ''pass_through_body_enabled'', ''system_prompt'', ''system_prompt_override''] formValues))"

definition blank_value :: "jsval \<Rightarrow> stop + bool" where  \<comment> \<open>\<open>!v || v.trim() === ''\<close>\<close>
  "blank_value v = (if \<not> truthy v then Inr True else and_next (throwing (trim_value v)) (\<lambda>s. Inr (s = [])))"

definition codex_key :: "channel_form \<Rightarrow> js_obj \<Rightarrow> stop + js_obj" where
  "codex_key st l =
     (if \<not> field_is l ''type'' 57 then Inr l
      else and_next (require (\<not> cf_batch st) CodexNoBatch) (\<lambda>_.
        and_next (throwing (trim_value (or_text (cfg l ''key'') ''''))) (\<lambda>rawKey.
          and_next (require (cf_isEdit st \<or> rawKey \<noteq> []) KeyMissing) (\<lambda>_.
            if rawKey = [] then Inr l
            else case json_parse rawKey of
                   None \<Rightarrow> Inl (Refused KeyNotJson)
                 | Some (JObj ps) \<Rightarrow>
                     and_next (require (trim (js_to_string (or_text (cfg ps ''access_token'') '''')) \<noteq> []) NoAccessToken) (\<lambda>_.
                       and_next (require (trim (js_to_string (or_text (cfg ps ''account_id'') '''')) \<noteq> []) NoAccountId) (\<lambda>_.
                         Inr (put ''key'' (JStr (json_text (JObj ps))) l)))
                 | Some _ \<Rightarrow> Inl (Refused KeyNotObject)))))"

text \<open>The keys in the uploaded files: the parsed ones, or else the files are read again, without those that are empty or \<open>null\<close>.\<close>

fun parse_files :: "jsstr option list \<Rightarrow> jsval list option" where
  "parse_files [] = Some []"
| "parse_files (None # files) = parse_files files"
| "parse_files (Some file # files) =
     (case (json_parse file, parse_files files) of
        (Some v, Some vs) \<Rightarrow> Some (if truthy v then v # vs else vs)
      | _ \<Rightarrow> None)"

definition vertex_file_key :: "channel_form \<Rightarrow> js_obj \<Rightarrow> stop + js_obj" where
  "vertex_file_key st l =
     (case (if cf_vertexKeys st = [] \<and> cf_vertexFiles st \<noteq> [] then parse_files (cf_vertexFiles st) else Some (cf_vertexKeys st)) of
        None \<Rightarrow> Inl (Refused VertexFileInvalid)
      | Some [] \<Rightarrow> if cf_isEdit st then Inr (remove ''key'' l) else Inl (Refused NoVertexFile)
      | Some (key # keys) \<Rightarrow> Inr (put ''key'' (JStr (json_text (if cf_batch st then JArr (key # keys) else key))) l))"

definition vertex_key :: "channel_form \<Rightarrow> js_obj \<Rightarrow> stop + js_obj" where
  "vertex_key st l =
     (if \<not> field_is l ''type'' 41 then Inr l
      else if or_text (cfg l ''vertex_key_type'') ''json'' = JStr (js ''api_key'') then
        (if cf_isEdit st then Inr l
         else and_next (blank_value (cfg l ''key'')) (\<lambda>blank. and_next (require (\<not> blank) KeyMissing) (\<lambda>_. Inr l)))
      else if cf_useManualInput st then
        and_next (blank_value (cfg l ''key'')) (\<lambda>blank.
          if \<not> blank then
            (case json_parse (js_to_string (cfg l ''key'')) of
               None \<Rightarrow> Inl (Refused VertexKeyInvalid)
             | Some v \<Rightarrow> Inr (put ''key'' (JStr (json_text v)) l))
          else and_next (require (cf_isEdit st) KeyMissing) (\<lambda>_. Inr l))
      else vertex_file_key st l)"

text \<open>A blank key of an edited channel is not sent, so that it does not replace the old one.\<close>

definition drop_blank_key :: "channel_form \<Rightarrow> js_obj \<Rightarrow> stop + js_obj" where
  "drop_blank_key st l =
     (if cf_isEdit st
      then and_next (blank_value (cfg l ''key'')) (\<lambda>blank. Inr (remove ''vertex_files'' (if blank then remove ''key'' l else l)))
      else Inr (remove ''vertex_files'' l))"

definition check_fields :: "channel_form \<Rightarrow> js_obj \<Rightarrow> stop + unit" where
  "check_fields st l =
     and_next (require (cf_isEdit st \<or> truthy (cfg l ''name'') \<and> truthy (cfg l ''key'')) NameOrKeyMissing) (\<lambda>_.
       and_next (require (is_array (cfg l ''models'') \<and> cfg l ''models'' \<noteq> JArr []) NoModel) (\<lambda>_.
         if field_is l ''type'' 45 then and_next (blank_value (cfg l ''base_url'')) (\<lambda>blank. require (\<not> blank) NoBaseUrl) else Inr ()))"

definition parsed_mapping :: "js_obj \<Rightarrow> stop + jsval" where
  "parsed_mapping l =
     (case cfg l ''model_mapping'' of
        JStr s \<Rightarrow>
          if trim s = [] then Inr JNull
          else (case json_parse s of None \<Rightarrow> Inl (Refused MappingNotJson) | Some v \<Rightarrow> Inr v)
      | _ \<Rightarrow> Inr JNull)"

definition hasModelConfigChanged :: "channel_form \<Rightarrow> jsstr list \<Rightarrow> jsval \<Rightarrow> bool" where
  "hasModelConfigChanged st normalizedModels modelMapping \<longleftrightarrow>
     \<not> cf_isEdit st \<or> normalizedModels \<noteq> cf_initialModels st
     \<or> trim (js_to_string (or_text modelMapping '''')) \<noteq> trim (js_to_string (or_text (cf_initialMapping st) ''''))"

datatype missing_action = CancelSave | SubmitAnyway | AddMissing

definition missing_models :: "jsval \<Rightarrow> jsstr list \<Rightarrow> jsstr list" where
  "missing_models mapping models =
     (case mapping of JObj ps \<Rightarrow> filter (\<lambda>k. k \<noteq> [] \<and> k \<notin> set models) (map (trim \<circ> fst) ps) | _ \<Rightarrow> [])"

text \<open>The models that are sent; \<open>None\<close> in front when the inputs are not changed.\<close>

definition complete_models :: "(jsstr list \<Rightarrow> missing_action) \<Rightarrow> channel_form \<Rightarrow> js_obj \<Rightarrow> stop + (jsstr list option \<times> js_obj)" where
  "complete_models confirmMissing st l =
     and_next (parsed_mapping l) (\<lambda>mapping.
       and_next (throwing (trim_all (case cfg l ''models'' of JArr ms \<Rightarrow> ms | _ \<Rightarrow> []))) (\<lambda>trimmedModels.
         let models = nonblank trimmedModels; l1 = put ''models'' (JArr (map JStr models)) l; missing = missing_models mapping models in
         if missing \<noteq> [] \<and> hasModelConfigChanged st models (cfg l ''model_mapping'') then
           (case confirmMissing missing of
              CancelSave \<Rightarrow> Inl Cancelled
            | SubmitAnyway \<Rightarrow> Inr (None, l1)
            | AddMissing \<Rightarrow>
                let updatedModels = uniq (models @ missing) in Inr (Some updatedModels, put ''models'' (JArr (map JStr updatedModels)) l1))
         else Inr (None, l1)))"

definition check_status_codes :: "(jsstr list \<Rightarrow> bool) \<Rightarrow> channel_form \<Rightarrow> js_obj \<Rightarrow> stop + unit" where
  "check_status_codes confirmRisk st l =
     (let invalid = collectInvalidStatusCodeEntries (cfg l ''status_code_mapping'');
          risky = collectNewDisallowedStatusCodeRedirects (cf_initialStatusMapping st) (cfg l ''status_code_mapping'') in
      if invalid \<noteq> [] then Inl (Refused (InvalidStatusCodes invalid))
      else if risky \<noteq> [] \<and> \<not> confirmRisk risky then Inl Cancelled else Inr ())"

definition clean_base_url :: "js_obj \<Rightarrow> stop + js_obj" where
  "clean_base_url l =
     and_next (if truthy (cfg l ''base_url'')
               then (case cfg l ''base_url'' of
                       JStr s \<Rightarrow> Inr (if endsWith s (js ''/'') then put ''base_url'' (JStr (butlast s)) l else l)
                     | _ \<Rightarrow> Inl (Thrown TypeError))
               else Inr l)
       (\<lambda>l1. Inr (if field_is l1 ''type'' 18 \<and> cfg l1 ''other'' = JStr [] then put ''other'' (JStr (js ''v2.1'')) l1 else l1))"

definition extra_setting :: "js_obj \<Rightarrow> js_obj" where
  "extra_setting l =
     (let get = (\<lambda>k d. (js k, js_or (cfg l k) d)) in
      [get ''force_format'' (JBool False), get ''thinking_to_content'' (JBool False), get ''proxy'' (JStr []),
       get ''pass_through_body_enabled'' (JBool False), get ''system_prompt'' (JStr []), get ''system_prompt_override'' (JBool False),
       get ''image_generation_model_prefixes'' (JArr [])])"

definition rest_routes :: "js_obj \<Rightarrow> stop + jsval list" where
  "rest_routes l =
     (case cfg l ''rest_routes'' of
        JStr s \<Rightarrow>
          if trim s = [] then Inr []
          else (case json_parse s of
                  None \<Rightarrow> Inl (Refused RoutesNotJson)
                | Some (JArr vs) \<Rightarrow> Inr vs
                | Some _ \<Rightarrow> Inl (Refused RoutesNotArray))
      | _ \<Rightarrow> Inr [])"

definition type_settings :: "js_obj \<Rightarrow> js_obj \<Rightarrow> js_obj" where
  "type_settings l settings =
     (let flag = (\<lambda>k. put k (JBool (cfg l k = JBool True)));
          s1 = (if field_is l ''type'' 20 then put ''openrouter_enterprise'' (JBool (cfg l ''is_enterprise_account'' = JBool True)) settings else settings);
          s2 = (if field_is l ''type'' 33 then put ''aws_key_type'' (or_text (cfg l ''aws_key_type'') ''ak_sk'') s1 else s1);
          s3 = (if field_is l ''type'' 41 then put ''vertex_key_type'' (or_text (cfg l ''vertex_key_type'') ''json'') s2 else remove ''vertex_key_type'' s2)
      in if field_is l ''type'' 1 then
           fold flag [''allow_service_tier'', ''disable_store'', ''allow_safety_identifier'', ''allow_include_obfuscation''] s3
         else if field_is l ''type'' 14 then fold flag [''allow_service_tier'', ''allow_inference_geo'', ''allow_speed'', ''claude_beta_query''] s3
         else s3)"

definition update_settings :: "js_obj \<Rightarrow> js_obj \<Rightarrow> js_obj" where
  "update_settings l settings =
     (let check = (cfg l ''upstream_model_update_check_enabled'' = JBool True);
          s1 = put ''upstream_model_update_ignored_models''
                 (unique_texts (map JStr (split_unit 44 (js_to_string (or_text (cfg l ''upstream_model_update_ignored_models'') '''')))))
               (put ''upstream_model_update_auto_sync_enabled'' (JBool (check \<and> cfg l ''upstream_model_update_auto_sync_enabled'' = JBool True))
                 (put ''upstream_model_update_check_enabled'' (JBool check) settings));
          s2 = (if \<not> is_array (cfg s1 ''upstream_model_update_last_detected_models'') \<or> \<not> check
                then put ''upstream_model_update_last_detected_models'' (JArr []) s1 else s1)
      in case cfg s2 ''upstream_model_update_last_check_time'' of
           JNum _ \<Rightarrow> s2
         | _ \<Rightarrow> put ''upstream_model_update_last_check_time'' (JNum (Fin 0)) s2)"

definition route_settings :: "jsval list \<Rightarrow> js_obj \<Rightarrow> js_obj" where
  "route_settings routes settings = (if routes \<noteq> [] then put ''rest_routes'' (JArr routes) settings else remove ''rest_routes'' settings)"

text \<open>
  The text of the settings. Values that are not objects cannot take the properties; those assigned to an array are not written.
\<close>

definition settings_text :: "channel_form \<Rightarrow> js_obj \<Rightarrow> jsval list \<Rightarrow> stop + jsstr" where
  "settings_text st l routes =
     (let parsed = (if truthy (cfg l ''settings'')
            then (case json_parse (js_to_string (cfg l ''settings'')) of Some v \<Rightarrow> v | None \<Rightarrow> JObj []) else JObj [])
      in case parsed of
           JObj ps \<Rightarrow>
             and_next (throwing (buildAsyncTaskSaveConfig (readAsyncTaskConfigFromSettings (cfg (cf_inputs st) ''settings'')))) (\<lambda>task.
               Inr (json_text (JObj (put ''async_task'' (JObj task) (route_settings routes (update_settings l (type_settings l ps)))))))
         | JArr vs \<Rightarrow> Inr (json_text (JArr vs))
         | _ \<Rightarrow> Inl (Thrown TypeError))"

definition temporary_fields :: "string list" where
  "temporary_fields =
     [''force_format'', ''thinking_to_content'', ''proxy'', ''pass_through_body_enabled'', ''system_prompt'', ''system_prompt_override'',
      ''image_generation_model_prefixes'', ''is_enterprise_account'', ''vertex_key_type'', ''aws_key_type'', ''allow_service_tier'', ''disable_store'',
      ''allow_safety_identifier'', ''allow_include_obfuscation'', ''allow_inference_geo'', ''allow_speed'', ''claude_beta_query'',
      ''upstream_model_update_check_enabled'', ''upstream_model_update_auto_sync_enabled'', ''upstream_model_update_last_check_time'',
      ''upstream_model_update_last_detected_models'', ''upstream_model_update_ignored_models'', ''rest_routes'']"

definition joined :: "jsval \<Rightarrow> stop + jsval" where  \<comment> \<open>\<open>v.join(',')\<close>\<close>
  "joined v = (case v of JArr vs \<Rightarrow> Inr (JStr (js_to_string v)) | _ \<Rightarrow> Inl (Thrown TypeError))"

definition sent_channel :: "js_obj \<Rightarrow> stop + js_obj" where
  "sent_channel l =
     (let l1 = put ''auto_ban'' (JNum (Fin (if truthy (cfg l ''auto_ban'') then 1 else 0))) (fold remove temporary_fields l) in
      and_next (joined (cfg l1 ''models'')) (\<lambda>models.
        and_next (joined (js_or (cfg l1 ''groups'') (JArr []))) (\<lambda>groups. Inr (put ''group'' groups (put ''models'' models l1)))))"

text \<open>The request: its method and its body.\<close>

definition channel_body :: "channel_form \<Rightarrow> js_obj \<Rightarrow> string \<times> jsval" where
  "channel_body st l =
     (if cf_isEdit st
      then (''put'', JObj (put ''key_mode'' (if cf_isMultiKey st then JStr (cf_keyMode st) else JUndef)
                            (put ''id'' (JNum (parseInt_auto (js_to_string (cf_channelId st)))) l)))
      else (''post'', JObj [(js ''mode'', JStr (js (if cf_batch st then (if cf_multiToSingle st then ''multi_to_single'' else ''batch'') else ''single''))),
                            (js ''channel'', JObj l)]))"

text \<open>The checks up to the models, and those after them.\<close>

definition submit_models :: "(jsstr list \<Rightarrow> missing_action) \<Rightarrow> channel_form \<Rightarrow> js_obj \<Rightarrow> stop + (jsstr list option \<times> js_obj)" where
  "submit_models confirmMissing st formValues =
     and_next (codex_key st (local_inputs formValues (cf_inputs st))) (\<lambda>l1.
       and_next (vertex_key st l1) (\<lambda>l2.
         and_next (drop_blank_key st l2) (\<lambda>l3.
           and_next (check_fields st l3) (\<lambda>_. complete_models confirmMissing st l3))))"

definition submit_settings :: "(jsstr list \<Rightarrow> bool) \<Rightarrow> channel_form \<Rightarrow> js_obj \<Rightarrow> stop + (string \<times> jsval)" where
  "submit_settings confirmRisk st l =
     and_next (check_status_codes confirmRisk st l) (\<lambda>_.
       and_next (clean_base_url l) (\<lambda>l1.
         let l2 = put ''setting'' (JStr (json_text (JObj (extra_setting l1)))) l1 in
         and_next (rest_routes l2) (\<lambda>routes.
           and_next (settings_text st l2 routes) (\<lambda>settings.
             and_next (sent_channel (put ''settings'' (JStr settings) l2)) (\<lambda>l3. Inr (channel_body st l3))))))"

text \<open>The models that the inputs are changed to, and the request, unless the function returns or throws before it.\<close>

definition submit :: "(jsstr list \<Rightarrow> missing_action) \<Rightarrow> (jsstr list \<Rightarrow> bool) \<Rightarrow> channel_form \<Rightarrow> js_obj \<Rightarrow> jsstr list option \<times> (stop + (string \<times> jsval))" where
  "submit confirmMissing confirmRisk st formValues =
     (case submit_models confirmMissing st formValues of
        Inl s \<Rightarrow> (None, Inl s)
      | Inr (changed, l) \<Rightarrow> (changed, submit_settings confirmRisk st l))"

text \<open>What follows the answer: the notice, and whether the inputs are reset and the dialog is closed.\<close>

definition submit_answered :: "channel_form \<Rightarrow> jsval \<Rightarrow> js_error + form_notice \<times> bool \<times> bool" where
  "submit_answered st d =
     (if is_nullish d then Inl TypeError
      else if truthy (js_prop d (js ''success'')) then Inr (if cf_isEdit st then ChannelUpdated else ChannelCreated, \<not> cf_isEdit st, True)
      else Inr (ServerMessage (js_prop d (js ''message'')), False, False))"

section \<open>Lists of keys and models\<close>

datatype list_notice = NoKeys | NoDuplicateKeys | KeysReduced nat nat | ModelsAdded "jsstr list" | NoNewModels

definition deduplicateKeys :: "jsstr \<Rightarrow> jsstr option \<times> list_notice" where
  "deduplicateKeys currentKey =
     (if trim currentKey = [] then (None, NoKeys)
      else let keyLines = split_unit 10 currentKey; keys = uniq (nonblank (map trim keyLines)) in
        (Some (join [10] keys), if length keyLines = length keys then NoDuplicateKeys else KeysReduced (length keyLines) (length keys)))"

fun add_models :: "jsstr list \<Rightarrow> jsstr list \<Rightarrow> jsstr list" where
  "add_models models [] = models"
| "add_models models (m # ms) = add_models (if m \<noteq> [] \<and> m \<notin> set models then models @ [m] else models) ms"

text \<open>The new list of models with the notice; nothing happens for a blank text.\<close>

definition addCustomModels :: "jsstr \<Rightarrow> jsstr list \<Rightarrow> (jsstr list \<times> list_notice) option" where
  "addCustomModels customModel models =
     (if trim customModel = [] then None
      else let localModels = add_models models (map trim (split_unit 44 customModel)); addedModels = drop (length models) localModels in
        Some (localModels, if addedModels \<noteq> [] then ModelsAdded addedModels else NoNewModels))"

definition redirectModelList :: "jsval \<Rightarrow> jsstr list" where
  "redirectModelList mapping =
     (case mapping of
        JStr s \<Rightarrow>
          (case json_parse (trim s) of
             Some (JObj ps) \<Rightarrow> uniq (nonblank (map (\<lambda>p. case snd p of JStr v \<Rightarrow> trim v | _ \<Rightarrow> []) ps))
           | _ \<Rightarrow> [])
      | _ \<Rightarrow> [])"

definition redirectModelKeyList :: "jsval \<Rightarrow> jsstr list" where
  "redirectModelKeyList mapping =
     (case mapping of
        JStr s \<Rightarrow> (case json_parse (trim s) of Some (JObj ps) \<Rightarrow> uniq (nonblank (map (trim \<circ> fst) ps)) | _ \<Rightarrow> [])
      | _ \<Rightarrow> [])"

section \<open>Connection texts\<close>

definition encodeChannelConnectionString :: "jsstr \<Rightarrow> jsstr \<Rightarrow> jsstr" where
  "encodeChannelConnectionString key url =
     json_text (JObj [(js ''_type'', JStr (js ''newapi_channel_conn'')), (js ''key'', JStr key), (js ''url'', JStr url)])"

definition parseChannelConnectionString :: "jsstr \<Rightarrow> (jsstr \<times> jsstr) option" where
  "parseChannelConnectionString s =
     (case json_parse (trim s) of
        Some (JObj ps) \<Rightarrow>
          (if cfg ps ''_type'' = JStr (js ''newapi_channel_conn'')
           then (case (cfg ps ''key'', cfg ps ''url'') of (JStr key, JStr url) \<Rightarrow> Some (key, url) | _ \<Rightarrow> None)
           else None)
      | _ \<Rightarrow> None)"

definition applyClipboardConfig :: "jsstr \<times> jsstr \<Rightarrow> js_obj \<Rightarrow> js_obj" where
  "applyClipboardConfig config inputs = put ''base_url'' (JStr (snd config)) (put ''key'' (JStr (fst config)) inputs)"

end
