(* ===== verification/ChannelFormFacts.thy ===== *)
theory ChannelFormFacts
  imports ChannelForm AsyncFacts
begin

text \<open>
  Facts about loading and saving a channel: what must hold before a channel is sent, which fields reach the server, that an edit never blanks the
  key, that saving a loaded channel unchanged asks nothing and keeps its lists, and that connection texts are read back.
\<close>

section \<open>Fields\<close>

lemma cfg_form_put [simp]: "cfg (put j v ps) k = (if k = j then v else cfg ps k)"
  by (simp add: put_def cfg_put)

lemma cfg_form_remove [simp]: "cfg (remove j ps) k = (if k = j then JUndef else cfg ps k)"
  by (simp add: remove_def cfg_def)

lemma cfg_fold_put: "cfg (fold (\<lambda>(k, v). put k v) xs ps) k = (case map_of (rev xs) k of Some v \<Rightarrow> v | None \<Rightarrow> cfg ps k)"
  by (induction xs arbitrary: ps) (auto simp: map_add_def split: option.split)

lemma cfg_fold_copy: "cfg (fold (\<lambda>j. put j (cfg inputs j)) ks ps) k = (if k \<in> set ks then cfg inputs k else cfg ps k)"
  by (induction ks arbitrary: ps) auto

lemma cfg_fold_remove: "cfg (fold remove ks ps) k = (if k \<in> set ks then JUndef else cfg ps k)"
  by (induction ks arbitrary: ps) auto

lemma and_next_Inr: "and_next x f = Inr r \<longleftrightarrow> (\<exists>a. x = Inr a \<and> f a = Inr r)"
  by (auto simp: and_next_def split: sum.split)

lemma and_next_simps [simp]: "and_next (Inr a) f = f a" "and_next (Inl e) f = Inl e"
  by (simp_all add: and_next_def)

lemma require_Inr [simp]: "require b n = Inr u \<longleftrightarrow> b"
  by (simp add: require_def)

lemma throwing_Inr [simp]: "throwing x = Inr a \<longleftrightarrow> x = Inr a"
  by (auto simp: throwing_def split: sum.split)

lemma cfg_local: "k \<notin> {''image_generation_model_prefixes'', ''param_override'', ''header_override'', ''response_override'', ''rest_routes'', ''force_format'',
     ''thinking_to_content'', ''proxy'', ''pass_through_body_enabled'', ''system_prompt'', ''system_prompt_override''} \<Longrightarrow>
   cfg (local_inputs form inputs) k = cfg form k"
  by (simp add: local_inputs_def Let_def cfg_fold_copy del: fold.simps)

lemma cfg_local_routes: "cfg (local_inputs form inputs) ''rest_routes'' = cfg inputs ''rest_routes''"
  by (simp add: local_inputs_def Let_def cfg_fold_copy del: fold.simps)

text \<open>The steps for the key change nothing but the key.\<close>

lemma codex_key_other: "codex_key st l = Inr l' \<Longrightarrow> k \<noteq> ''key'' \<Longrightarrow> cfg l' k = cfg l k"
  by (auto simp: codex_key_def and_next_Inr split: if_splits option.splits jsval.splits)

lemma vertex_file_key_other: "vertex_file_key st l = Inr l' \<Longrightarrow> k \<noteq> ''key'' \<Longrightarrow> cfg l' k = cfg l k"
  by (auto simp: vertex_file_key_def split: if_splits option.splits list.splits)

lemma vertex_key_other: "vertex_key st l = Inr l' \<Longrightarrow> k \<noteq> ''key'' \<Longrightarrow> cfg l' k = cfg l k"
  by (auto simp: vertex_key_def and_next_Inr vertex_file_key_other split: if_splits option.splits)

lemma drop_blank_key_other: "drop_blank_key st l = Inr l' \<Longrightarrow> k \<noteq> ''key'' \<Longrightarrow> k \<noteq> ''vertex_files'' \<Longrightarrow> cfg l' k = cfg l k"
  by (auto simp: drop_blank_key_def and_next_Inr split: if_splits)

lemma drop_blank_key_edit:
  assumes "drop_blank_key st l = Inr l'" and "cf_isEdit st"
  shows "cfg l' ''key'' = JUndef \<or> (\<exists>s. cfg l' ''key'' = JStr s \<and> trim s \<noteq> [])"
proof -
  obtain blank where b: "blank_value (cfg l ''key'') = Inr blank" and l': "l' = remove ''vertex_files'' (if blank then remove ''key'' l else l)"
    using assms by (auto simp: drop_blank_key_def and_next_Inr)
  then show ?thesis by (auto simp: blank_value_def trim_value_def and_next_Inr split: if_splits jsval.splits)
qed

lemma complete_models_other: "complete_models cm st l = Inr (c, l') \<Longrightarrow> k \<noteq> ''models'' \<Longrightarrow> cfg l' k = cfg l k"
  by (auto simp: complete_models_def and_next_Inr Let_def split: if_splits missing_action.splits)

lemma complete_models_list: "complete_models cm st l = Inr (c, l') \<Longrightarrow> \<exists>ms. cfg l' ''models'' = JArr (map JStr ms)"
  by (auto simp: complete_models_def and_next_Inr Let_def split: if_splits missing_action.splits)

lemma clean_base_url_other: "clean_base_url l = Inr l' \<Longrightarrow> k \<noteq> ''base_url'' \<Longrightarrow> k \<noteq> ''other'' \<Longrightarrow> cfg l' k = cfg l k"
  by (auto simp: clean_base_url_def and_next_Inr split: if_splits jsval.splits)

lemma sent_channel_fields:
  assumes "sent_channel l = Inr l'"
  shows "k \<in> set temporary_fields \<Longrightarrow> cfg l' k = JUndef"
    and "k \<notin> set temporary_fields \<Longrightarrow> k \<notin> {''auto_ban'', ''models'', ''group''} \<Longrightarrow> cfg l' k = cfg l k"
    and "cfg l' ''models'' = JStr (js_to_string (cfg l ''models''))"
    and "cfg l' ''group'' = JStr (js_to_string (js_or (cfg l ''groups'') (JArr [])))"
proof -
  have t: "''auto_ban'' \<notin> set temporary_fields" "''models'' \<notin> set temporary_fields" "''group'' \<notin> set temporary_fields" "''groups'' \<notin> set temporary_fields"
    by (simp_all add: temporary_fields_def)
  note a = assms [unfolded sent_channel_def Let_def]
  show "k \<in> set temporary_fields \<Longrightarrow> cfg l' k = JUndef"
    using a t by (auto simp: and_next_Inr cfg_fold_remove)
  show "k \<notin> set temporary_fields \<Longrightarrow> k \<notin> {''auto_ban'', ''models'', ''group''} \<Longrightarrow> cfg l' k = cfg l k"
    using a by (auto simp: and_next_Inr cfg_fold_remove)
  show "cfg l' ''models'' = JStr (js_to_string (cfg l ''models''))" "cfg l' ''group'' = JStr (js_to_string (js_or (cfg l ''groups'') (JArr [])))"
    using a t by (auto simp: and_next_Inr cfg_fold_remove joined_def split: jsval.splits)
qed

section \<open>What is sent\<close>

definition request_channel :: "string \<times> jsval \<Rightarrow> js_obj" where  \<comment> \<open>the channel in a request\<close>
  "request_channel request = (case request of (method, JObj ps) \<Rightarrow>
     if method = ''put'' then ps else (case cfg ps ''channel'' of JObj c \<Rightarrow> c | _ \<Rightarrow> []) | _ \<Rightarrow> [])"

lemma request_channel_body: "k \<noteq> ''id'' \<Longrightarrow> k \<noteq> ''key_mode'' \<Longrightarrow> cfg (request_channel (channel_body st l)) k = cfg l k"
  by (auto simp: request_channel_def channel_body_def cfg_Cons)

text \<open>The stages that a request went through.\<close>

definition with_setting :: "js_obj \<Rightarrow> js_obj" where
  "with_setting l = put ''setting'' (JStr (json_text (JObj (extra_setting l)))) l"

lemma submit_split:
  assumes "submit cm cr st form = (changed, Inr request)"
  obtains l where "submit_models cm st form = Inr (changed, l)" and "submit_settings cr st l = Inr request"
  using assms by (auto simp: submit_def split: sum.splits)

lemma models_stages:
  assumes "submit_models cm st form = Inr (changed, l)"
  obtains l1 l2 l3 where "codex_key st (local_inputs form (cf_inputs st)) = Inr l1" and "vertex_key st l1 = Inr l2" and "drop_blank_key st l2 = Inr l3"
    and "check_fields st l3 = Inr ()" and "complete_models cm st l3 = Inr (changed, l)"
  using assms by (auto simp: submit_models_def and_next_Inr)

lemma settings_stages:
  assumes "submit_settings cr st l = Inr request"
  obtains l1 routes settings l2 where "check_status_codes cr st l = Inr ()" and "clean_base_url l = Inr l1" and "rest_routes (with_setting l1) = Inr routes"
    and "settings_text st (with_setting l1) routes = Inr settings" and "sent_channel (put ''settings'' (JStr settings) (with_setting l1)) = Inr l2"
    and "request = channel_body st l2"
  using assms by (auto simp: submit_settings_def and_next_Inr Let_def with_setting_def)

lemma stage_fields:
  assumes "codex_key st l = Inr l1" and "vertex_key st l1 = Inr l2" and "drop_blank_key st l2 = Inr l3"
    and "k \<noteq> ''key''" and "k \<noteq> ''vertex_files''"
  shows "cfg l3 k = cfg l k"
  using assms by (simp add: codex_key_other vertex_key_other drop_blank_key_other)

lemma rest_routes_Inr: "rest_routes l = Inr routes \<Longrightarrow>
  (case cfg l ''rest_routes'' of JStr s \<Rightarrow> trim s = [] \<or> json_parse s = Some (JArr routes) | _ \<Rightarrow> True)"
  by (auto simp: rest_routes_def split: jsval.splits if_splits option.splits)

lemma texts_joined: "js_to_string (JArr (map JStr ss)) = join [44] ss"
  by (simp add: comp_def)

lemma trim_all_trimmed: "trim_all vs = Inr ss \<Longrightarrow> w \<in> set ss \<Longrightarrow> trim w = w"
  by (induction vs arbitrary: ss) (auto simp: trim_value_def split: sum.splits jsval.splits)

lemma trim_all_member: "trim_all vs = Inr ss \<Longrightarrow> JStr s \<in> set vs \<Longrightarrow> trim s \<in> set ss"
  by (induction vs arbitrary: ss) (auto simp: trim_value_def or_text_def js_or_def split: sum.splits jsval.splits if_splits)

lemma missing_models_trimmed: "m \<in> set (missing_models v models) \<Longrightarrow> m \<noteq> [] \<and> trim m = m"
  by (auto simp: missing_models_def split: jsval.splits)

definition models_sent :: "jsval \<Rightarrow> jsstr list \<Rightarrow> bool" where  \<comment> \<open>from the list in the form\<close>
  "models_sent listed models \<longleftrightarrow>
     (\<forall>m \<in> set models. m \<noteq> [] \<and> trim m = m) \<and> (\<forall>vs s. listed = JArr vs \<longrightarrow> JStr s \<in> set vs \<longrightarrow> trim s \<noteq> [] \<longrightarrow> trim s \<in> set models)"

lemma complete_models_sent:
  assumes "complete_models cm st l = Inr (c, l')"
  obtains ms where "cfg l' ''models'' = JArr (map JStr ms)" and "models_sent (cfg l ''models'') ms"
proof -
  let ?vs = "case cfg l ''models'' of JArr ms \<Rightarrow> ms | _ \<Rightarrow> []"
  obtain mapping ts where "parsed_mapping l = Inr mapping" and ts: "trim_all ?vs = Inr ts"
    using assms by (auto simp: complete_models_def and_next_Inr)
  then consider "cfg l' ''models'' = JArr (map JStr (nonblank ts))"
    | "cfg l' ''models'' = JArr (map JStr (uniq (nonblank ts @ missing_models mapping (nonblank ts))))"
    using assms by (auto simp: complete_models_def Let_def throwing_def split: if_splits missing_action.splits)
  moreover have "models_sent (cfg l ''models'') ms"
    if kept: "set (nonblank ts) \<subseteq> set ms" and added: "set ms \<subseteq> set (nonblank ts) \<union> set (missing_models mapping (nonblank ts))" for ms
    unfolding models_sent_def
  proof (intro conjI ballI allI impI)
    fix m assume "m \<in> set ms"
    then consider "m \<in> set ts" "m \<noteq> []" | "m \<in> set (missing_models mapping (nonblank ts))" using added by (auto simp: nonblank_def)
    then show "m \<noteq> []" "trim m = m" using trim_all_trimmed [OF ts] missing_models_trimmed by (cases, simp_all)+
  next
    fix vs s assume "cfg l ''models'' = JArr vs" "JStr s \<in> set vs" "trim s \<noteq> []"
    then have "trim s \<in> set (nonblank ts)" using trim_all_member [OF ts, of s] by (simp add: nonblank_def)
    then show "trim s \<in> set ms" using kept by blast
  qed
  ultimately show thesis by cases (rule that, assumption, simp)+
qed

text \<open>
  C3: a channel is sent only when all checks have passed: the list of models in the form is not empty, the mapping of models is blank or JSON, the mapping of status
  codes has no entry with an invalid code (a text that is not a JSON object has no entries) and its new risky ones were confirmed, the routes are blank or a
  JSON array, and a new channel has a name and a key.  The models that are sent are names that are not blank and have no white space around
  them, with every name of the form among them that is not blank; blank entries are left out, so that the list may have become empty.
\<close>

theorem submit_only_checked:
  assumes "submit confirmMissing confirmRisk st form = (changed, Inr request)"
  shows "(\<exists>m ms. cfg form ''models'' = JArr (m # ms))
    \<and> (case cfg form ''model_mapping'' of JStr s \<Rightarrow> trim s = [] \<or> json_parse s \<noteq> None | _ \<Rightarrow> True)
    \<and> collectInvalidStatusCodeEntries (cfg form ''status_code_mapping'') = []
    \<and> (let risky = collectNewDisallowedStatusCodeRedirects (cf_initialStatusMapping st) (cfg form ''status_code_mapping'') in risky = [] \<or> confirmRisk risky)
    \<and> (case cfg (cf_inputs st) ''rest_routes'' of JStr s \<Rightarrow> trim s = [] \<or> (\<exists>vs. json_parse s = Some (JArr vs)) | _ \<Rightarrow> True)
    \<and> (cf_isEdit st \<or> truthy (cfg form ''name'') \<and> truthy (cfg (request_channel request) ''key''))
    \<and> (\<exists>models. cfg (request_channel request) ''models'' = JStr (join [44] models) \<and> models_sent (cfg form ''models'') models)"
proof -
  obtain l4 where sm: "submit_models confirmMissing st form = Inr (changed, l4)" and ss: "submit_settings confirmRisk st l4 = Inr request"
    using assms by (rule submit_split)
  obtain l1 l2 l3 where k: "codex_key st (local_inputs form (cf_inputs st)) = Inr l1" "vertex_key st l1 = Inr l2" "drop_blank_key st l2 = Inr l3"
    and c: "check_fields st l3 = Inr ()" and m: "complete_models confirmMissing st l3 = Inr (changed, l4)"
    using sm by (rule models_stages)
  obtain l5 routes settings l6 where s: "check_status_codes confirmRisk st l4 = Inr ()" and b: "clean_base_url l4 = Inr l5"
    and r: "rest_routes (with_setting l5) = Inr routes" and "settings_text st (with_setting l5) routes = Inr settings"
    and l6: "sent_channel (put ''settings'' (JStr settings) (with_setting l5)) = Inr l6" and req: "request = channel_body st l6"
    using ss by (rule settings_stages)
  note l3 = stage_fields [OF k]
  have models: "cfg l3 ''models'' = cfg form ''models''" and mapping: "cfg l3 ''model_mapping'' = cfg form ''model_mapping''"
    and name: "cfg l3 ''name'' = cfg form ''name''" by (simp_all add: l3 cfg_local)
  have status: "cfg l4 ''status_code_mapping'' = cfg form ''status_code_mapping''" using complete_models_other [OF m] by (simp add: l3 cfg_local)
  have routes: "cfg l5 ''rest_routes'' = cfg (cf_inputs st) ''rest_routes''"
    using clean_base_url_other [OF b] complete_models_other [OF m] by (simp add: l3 cfg_local_routes)
  have 1: "\<exists>m ms. cfg form ''models'' = JArr (m # ms)"
    using c models by (cases "cfg form ''models''") (auto simp: check_fields_def and_next_Inr neq_Nil_conv)
  have 2: "case cfg form ''model_mapping'' of JStr s \<Rightarrow> trim s = [] \<or> json_parse s \<noteq> None | _ \<Rightarrow> True"
    using m mapping by (auto simp: complete_models_def and_next_Inr parsed_mapping_def split: jsval.splits if_splits option.splits)
  have 3: "collectInvalidStatusCodeEntries (cfg form ''status_code_mapping'') = []
      \<and> (let risky = collectNewDisallowedStatusCodeRedirects (cf_initialStatusMapping st) (cfg form ''status_code_mapping'') in risky = [] \<or> confirmRisk risky)"
    using s status by (auto simp: check_status_codes_def Let_def split: if_splits)
  have 4: "case cfg (cf_inputs st) ''rest_routes'' of JStr s \<Rightarrow> trim s = [] \<or> (\<exists>vs. json_parse s = Some (JArr vs)) | _ \<Rightarrow> True"
    using rest_routes_Inr [OF r] routes by (auto simp: with_setting_def split: jsval.splits)
  have "''key'' \<notin> set temporary_fields" by (simp add: temporary_fields_def)
  then have "cfg l6 ''key'' = cfg l3 ''key''"
    using sent_channel_fields(2) [OF l6, of "''key''"] clean_base_url_other [OF b, of "''key''"] complete_models_other [OF m, of "''key''"]
    by (simp add: with_setting_def)
  then have 5: "cf_isEdit st \<or> truthy (cfg form ''name'') \<and> truthy (cfg (request_channel request) ''key'')"
    using c name by (auto simp: check_fields_def and_next_Inr req request_channel_body)
  obtain models where l4: "cfg l4 ''models'' = JArr (map JStr models)" "models_sent (cfg form ''models'') models"
    using m by (rule complete_models_sent) (simp add: models)
  have "cfg l6 ''models'' = JStr (join [44] models)"
    using sent_channel_fields(3) [OF l6] l4(1) clean_base_url_other [OF b, of "''models''"] by (simp add: with_setting_def texts_joined del: js_to_string.simps)
  then have 6: "\<exists>models. cfg (request_channel request) ''models'' = JStr (join [44] models) \<and> models_sent (cfg form ''models'') models"
    using l4(2) by (auto simp: req request_channel_body)
  from 1 2 3 4 5 6 show ?thesis by blast
qed

text \<open>
  C13: editing a channel never blanks its key: what is sent has no key, or one that is a text with more than white space.
\<close>

theorem edit_never_blanks_key:
  assumes "submit confirmMissing confirmRisk st form = (changed, Inr request)" and "cf_isEdit st"
  shows "cfg (request_channel request) ''key'' = JUndef \<or> (\<exists>s. cfg (request_channel request) ''key'' = JStr s \<and> trim s \<noteq> [])"
proof -
  obtain l4 where sm: "submit_models confirmMissing st form = Inr (changed, l4)" and ss: "submit_settings confirmRisk st l4 = Inr request"
    using assms(1) by (rule submit_split)
  obtain l1 l2 l3 where "codex_key st (local_inputs form (cf_inputs st)) = Inr l1" "vertex_key st l1 = Inr l2" and k: "drop_blank_key st l2 = Inr l3"
    and "check_fields st l3 = Inr ()" and m: "complete_models confirmMissing st l3 = Inr (changed, l4)"
    using sm by (rule models_stages)
  obtain l5 routes settings l6 where "check_status_codes confirmRisk st l4 = Inr ()" and b: "clean_base_url l4 = Inr l5"
    and "rest_routes (with_setting l5) = Inr routes" and "settings_text st (with_setting l5) routes = Inr settings"
    and l6: "sent_channel (put ''settings'' (JStr settings) (with_setting l5)) = Inr l6" and req: "request = channel_body st l6"
    using ss by (rule settings_stages)
  have "''key'' \<notin> set temporary_fields" by (simp add: temporary_fields_def)
  then have "cfg l6 ''key'' = cfg l5 ''key''" using sent_channel_fields(2) [OF l6, of "''key''"] by (simp add: with_setting_def)
  also have "\<dots> = cfg l3 ''key''" using clean_base_url_other [OF b, of "''key''"] complete_models_other [OF m, of "''key''"] by simp
  finally show ?thesis using drop_blank_key_edit [OF k assms(2)] by (simp add: req request_channel_body)
qed

section \<open>The settings that are sent\<close>

lemma cfg_route_settings: "k \<noteq> ''rest_routes'' \<Longrightarrow> cfg (route_settings routes s) k = cfg s k"
  by (simp add: route_settings_def)

lemma cfg_if: "cfg (if b then c else d) k = (if b then cfg c k else cfg d k)"
  by simp

lemma cfg_unless_number: "k \<noteq> j \<Longrightarrow> cfg (case v of JNum _ \<Rightarrow> s | _ \<Rightarrow> put j w s) k = cfg s k"
  by (cases v) simp_all

lemma cfg_update_check:
  "cfg (update_settings l s) ''upstream_model_update_check_enabled'' = JBool (cfg l ''upstream_model_update_check_enabled'' = JBool True)"
  "cfg (update_settings l s) ''upstream_model_update_auto_sync_enabled'' =
     JBool (cfg l ''upstream_model_update_check_enabled'' = JBool True \<and> cfg l ''upstream_model_update_auto_sync_enabled'' = JBool True)"
  unfolding update_settings_def Let_def by (simp_all add: cfg_unless_number cfg_if)

text \<open>
  None of the fields that only the form needs reaches the server, and the settings text it gets is the JSON of a value in which, when it is an object,
  models are synchronised automatically only if they are checked at all, and the asynchronous task is the one read from the inputs.
\<close>

theorem sent_fields:
  assumes "submit confirmMissing confirmRisk st form = (changed, Inr request)"
  shows "(\<forall>k \<in> set temporary_fields. cfg (request_channel request) k = JUndef)
    \<and> (\<exists>v. cfg (request_channel request) ''settings'' = JStr (json_text v)
        \<and> (\<forall>ps. v = JObj ps \<longrightarrow>
             (cfg ps ''upstream_model_update_auto_sync_enabled'' = JBool True \<longrightarrow> cfg ps ''upstream_model_update_check_enabled'' = JBool True)
           \<and> (\<exists>task. cfg ps ''async_task'' = JObj task
                \<and> buildAsyncTaskSaveConfig (readAsyncTaskConfigFromSettings (cfg (cf_inputs st) ''settings'')) = Inr task)))"
proof -
  obtain l4 where "submit_models confirmMissing st form = Inr (changed, l4)" and ss: "submit_settings confirmRisk st l4 = Inr request"
    using assms by (rule submit_split)
  obtain l5 routes settings l6 where "check_status_codes confirmRisk st l4 = Inr ()" and "clean_base_url l4 = Inr l5"
    and "rest_routes (with_setting l5) = Inr routes" and t: "settings_text st (with_setting l5) routes = Inr settings"
    and l6: "sent_channel (put ''settings'' (JStr settings) (with_setting l5)) = Inr l6" and req: "request = channel_body st l6"
    using ss by (rule settings_stages)
  have "''id'' \<notin> set temporary_fields" "''key_mode'' \<notin> set temporary_fields" "''settings'' \<notin> set temporary_fields" by (simp_all add: temporary_fields_def)
  then have own: "k \<noteq> ''id''" "k \<noteq> ''key_mode''" "k \<noteq> ''settings''" if "k \<in> set temporary_fields" for k using that by blast+
  then have 1: "\<forall>k \<in> set temporary_fields. cfg (request_channel request) k = JUndef"
    using sent_channel_fields(1) [OF l6] by (intro ballI) (simp only: req request_channel_body not_False_eq_True)
  have "''settings'' \<notin> set temporary_fields" by (simp add: temporary_fields_def)
  then have 2: "cfg (request_channel request) ''settings'' = JStr settings"
    using sent_channel_fields(2) [OF l6, of "''settings''"] by (simp add: req request_channel_body)
  let ?l = "with_setting l5" and ?task = "buildAsyncTaskSaveConfig (readAsyncTaskConfigFromSettings (cfg (cf_inputs st) ''settings''))"
  define parsed where "parsed = (if truthy (cfg ?l ''settings'')
      then (case json_parse (js_to_string (cfg ?l ''settings'')) of Some v \<Rightarrow> v | None \<Rightarrow> JObj []) else JObj [])"
  note t' = t [unfolded settings_text_def Let_def, folded parsed_def]
  consider (obj) ps task where "parsed = JObj ps" "?task = Inr task"
      "settings = json_text (JObj (put ''async_task'' (JObj task) (route_settings routes (update_settings ?l (type_settings ?l ps)))))"
    | (arr) vs where "settings = json_text (JArr vs)"
    using t' by (cases parsed) (auto simp: and_next_Inr)
  then show ?thesis
  proof cases
    case obj
    then show ?thesis
      using 1 2 by (intro conjI exI [of _ "JObj (put ''async_task'' (JObj task) (route_settings routes (update_settings ?l (type_settings ?l ps))))"])
        (simp_all add: cfg_route_settings cfg_update_check)
  next
    case arr
    then show ?thesis using 1 2 by auto
  qed
qed

section \<open>Saving a loaded channel\<close>

lemma cfg_fold_other: "k \<notin> fst ` set xs \<Longrightarrow> cfg (fold (\<lambda>(k, v). put k v) xs ps) k = cfg ps k"
  by (induction xs arbitrary: ps) auto

lemma load_settings_keeps:
  assumes "k \<in> {''models'', ''groups'', ''model_mapping'', ''status_code_mapping'', ''type''}"
  shows "cfg (load_settings data) k = cfg data k"
  unfolding load_settings_def Let_def
  by (subst cfg_fold_other) (use assms in \<open>auto simp: cfg_if\<close>)

lemma load_setting_keeps:
  assumes "k \<in> {''models'', ''groups'', ''model_mapping'', ''status_code_mapping'', ''type''}"
  shows "cfg (load_setting data) k = cfg data k"
  unfolding load_setting_def Let_def
  by (subst cfg_fold_other) (use assms in auto)

lemma load_keeps:
  assumes "k \<in> {''models'', ''groups'', ''model_mapping'', ''status_code_mapping'', ''type''}"
  shows "cfg (load_base_url (load_settings (load_setting data))) k = cfg data k"
proof -
  have "k \<noteq> ''base_url''" using assms by auto
  then show ?thesis using load_settings_keeps [OF assms] load_setting_keeps [OF assms] by (simp add: load_base_url_def)
qed

lemma loaded_lists:
  assumes "load_models data = Inr data'"
  obtains models groups where "cfg data ''models'' = JStr models" and "cfg data ''group'' = JStr groups"
    and "cfg data' ''models'' = JArr (map JStr (if models = [] then [] else split_unit 44 models))"
    and "cfg data' ''groups'' = JArr (map JStr (if groups = [] then [] else split_unit 44 groups))"
  using assms by (auto simp: load_models_def Let_def split: sum.splits jsval.splits)

lemma loaded_form_fields:
  assumes "loaded_form data st0 = Inr st"
  obtains models groups where "cfg data ''models'' = JStr models" and "cfg data ''group'' = JStr groups"
    and "cfg (cf_inputs st) ''models'' = JArr (map JStr (if models = [] then [] else split_unit 44 models))"
    and "cfg (cf_inputs st) ''groups'' = JArr (map JStr (if groups = [] then [] else split_unit 44 groups))"
    and "cf_initialModels st = nonblank (map trim (if models = [] then [] else split_unit 44 models))"
    and "cf_initialMapping st = or_text (cfg (cf_inputs st) ''model_mapping'') ''''"
    and "cf_initialStatusMapping st = or_text (cfg (cf_inputs st) ''status_code_mapping'') ''''"
    and "cf_isEdit st = cf_isEdit st0"
proof -
  obtain data1 data2 where d1: "load_models data = Inr data1" and d2: "load_mapping data1 = Inr data2"
    and st: "cf_inputs st = load_base_url (load_settings (load_setting data2))"
      "cf_initialModels st = (case cfg (cf_inputs st) ''models'' of JArr ms \<Rightarrow> nonblank (map (\<lambda>m. trim (js_to_string m)) ms) | _ \<Rightarrow> [])"
      "cf_initialMapping st = or_text (cfg (cf_inputs st) ''model_mapping'') ''''"
      "cf_initialStatusMapping st = or_text (cfg (cf_inputs st) ''status_code_mapping'') ''''" "cf_isEdit st = cf_isEdit st0"
    using assms by (auto simp: loaded_form_def Let_def split: sum.splits)
  have "cfg data2 ''models'' = cfg data1 ''models''" "cfg data2 ''groups'' = cfg data1 ''groups''"
    using d2 by (auto simp: load_mapping_def split: if_splits option.splits)
  then have lists: "cfg (cf_inputs st) ''models'' = cfg data1 ''models''" "cfg (cf_inputs st) ''groups'' = cfg data1 ''groups''"
    by (simp_all add: st(1) load_keeps)
  obtain models groups where "cfg data ''models'' = JStr models" "cfg data ''group'' = JStr groups"
    "cfg data1 ''models'' = JArr (map JStr (if models = [] then [] else split_unit 44 models))"
    "cfg data1 ''groups'' = JArr (map JStr (if groups = [] then [] else split_unit 44 groups))"
    using d1 by (rule loaded_lists)
  then show thesis using that [of models groups] st(2-5) lists by (simp add: comp_def)
qed

lemma trim_all_texts: "trim_all (map JStr ss) = Inr (map trim ss)"
  by (induction ss) (auto simp: trim_value_def or_text_def js_or_def)

lemma status_or_text: "collectDisallowedStatusCodeRedirects (or_text v '''') = collectDisallowedStatusCodeRedirects v"
  by (auto simp: collectDisallowedStatusCodeRedirects_def or_text_def js_or_def mappingEntries_def split: jsval.split)

lemma no_new_risk: "collectNewDisallowedStatusCodeRedirects (or_text v '''') v = []"
  by (auto simp: collectNewDisallowedStatusCodeRedirects_def status_or_text Let_def)

lemma loaded_unchanged: "cf_isEdit st \<Longrightarrow> cf_initialModels st = nonblank ms \<Longrightarrow> cf_initialMapping st = or_text v '''' \<Longrightarrow> \<not> hasModelConfigChanged st (nonblank ms) v"
  by (simp add: hasModelConfigChanged_def)

lemma complete_loaded:
  assumes "cf_isEdit st" and "cfg l ''models'' = JArr (map JStr ss)" and "cf_initialModels st = nonblank (map trim ss)"
    and "cf_initialMapping st = or_text (cfg l ''model_mapping'') ''''"
  shows "complete_models cm st l = and_next (parsed_mapping l) (\<lambda>_. Inr (None, put ''models'' (JArr (map JStr (nonblank (map trim ss)))) l))"
  using loaded_unchanged [OF assms(1,3,4)]
  by (simp add: complete_models_def assms(2) trim_all_texts throwing_def Let_def and_next_def split: sum.split)

lemma and_next_cong: "x = y \<Longrightarrow> (\<And>a. y = Inr a \<Longrightarrow> f a = g a) \<Longrightarrow> and_next x f = and_next y g"
  by (auto simp: and_next_def split: sum.split)

lemma submit_models_loaded:
  assumes "loaded_form data st0 = Inr st" and "cf_isEdit st0"
  shows "submit_models cm st (cf_inputs st) = submit_models cm' st (cf_inputs st)"
  unfolding submit_models_def
proof (intro and_next_cong refl)
  obtain models where m: "cfg (cf_inputs st) ''models'' = JArr (map JStr (if models = [] then [] else split_unit 44 models))"
    "cf_initialModels st = nonblank (map trim (if models = [] then [] else split_unit 44 models))"
    "cf_initialMapping st = or_text (cfg (cf_inputs st) ''model_mapping'') ''''" "cf_isEdit st"
    using loaded_form_fields [OF assms(1)] assms(2) by metis
  fix l1 l2 l3 assume k: "codex_key st (local_inputs (cf_inputs st) (cf_inputs st)) = Inr l1" "vertex_key st l1 = Inr l2" "drop_blank_key st l2 = Inr l3"
  have "cfg l3 ''models'' = cfg (cf_inputs st) ''models''" "cfg l3 ''model_mapping'' = cfg (cf_inputs st) ''model_mapping''"
    by (simp_all add: stage_fields [OF k] cfg_local)
  then show "complete_models cm st l3 = complete_models cm' st l3" using m complete_loaded [of st l3] by metis
qed

text \<open>
  C14: saving a channel as it was loaded asks nothing: whatever the answers to the questions about missing models and risky redirects would be, the
  outcome is the same, although the channel may have such models and redirects.
\<close>

theorem unchanged_save_silent:
  assumes "loaded_form data st0 = Inr st" and "cf_isEdit st0"
  shows "submit confirmMissing confirmRisk st (cf_inputs st) = submit confirmMissing' confirmRisk' st (cf_inputs st)"
proof -
  obtain models groups where initial: "cf_initialStatusMapping st = or_text (cfg (cf_inputs st) ''status_code_mapping'') ''''"
    using loaded_form_fields [OF assms(1)] by metis
  have "submit_settings confirmRisk st l = submit_settings confirmRisk' st l" if l: "submit_models cm st (cf_inputs st) = Inr (c, l)" for cm c l
  proof -
    obtain l1 l2 l3 where k: "codex_key st (local_inputs (cf_inputs st) (cf_inputs st)) = Inr l1" "vertex_key st l1 = Inr l2" "drop_blank_key st l2 = Inr l3"
      and "check_fields st l3 = Inr ()" and m: "complete_models cm st l3 = Inr (c, l)"
      using l by (rule models_stages)
    have "cfg l ''status_code_mapping'' = cfg (cf_inputs st) ''status_code_mapping''"
      using complete_models_other [OF m] by (simp add: stage_fields [OF k] cfg_local)
    then have "check_status_codes confirmRisk st l = check_status_codes confirmRisk' st l"
      by (simp add: check_status_codes_def initial no_new_risk)
    then show ?thesis by (simp add: submit_settings_def)
  qed
  then show ?thesis unfolding submit_def submit_models_loaded [OF assms, of confirmMissing confirmMissing'] by (auto split: sum.split)
qed

lemma list_text_kept: "js_to_string (JArr (map JStr (if s = [] then [] else split_unit 44 s))) = s"
  by (simp add: texts_joined join_split_unit del: js_to_string.simps)

text \<open>
  C38: saving a channel as it was loaded sends the lists of its models and groups as they were, when no model in the list is blank or has white space
  around it.
\<close>

theorem unchanged_lists_kept:
  assumes "loaded_form data st0 = Inr st" and "cf_isEdit st0" and "submit confirmMissing confirmRisk st (cf_inputs st) = (changed, Inr request)"
    and "cfg data ''models'' = JStr models" and "\<forall>m \<in> set (split_unit 44 models). m \<noteq> [] \<and> trimmed m"
  shows "cfg (request_channel request) ''models'' = cfg data ''models'' \<and> cfg (request_channel request) ''group'' = cfg data ''group''"
proof -
  obtain models' groups where f: "cfg data ''models'' = JStr models'" "cfg data ''group'' = JStr groups"
    "cfg (cf_inputs st) ''models'' = JArr (map JStr (if models' = [] then [] else split_unit 44 models'))"
    "cfg (cf_inputs st) ''groups'' = JArr (map JStr (if groups = [] then [] else split_unit 44 groups))"
    "cf_initialModels st = nonblank (map trim (if models' = [] then [] else split_unit 44 models'))"
    "cf_initialMapping st = or_text (cfg (cf_inputs st) ''model_mapping'') ''''"
    "cf_initialStatusMapping st = or_text (cfg (cf_inputs st) ''status_code_mapping'') ''''" "cf_isEdit st = cf_isEdit st0"
    using assms(1) by (rule loaded_form_fields)
  obtain l4 where sm: "submit_models confirmMissing st (cf_inputs st) = Inr (changed, l4)" and ss: "submit_settings confirmRisk st l4 = Inr request"
    using assms(3) by (rule submit_split)
  obtain l1 l2 l3 where k: "codex_key st (local_inputs (cf_inputs st) (cf_inputs st)) = Inr l1" "vertex_key st l1 = Inr l2" "drop_blank_key st l2 = Inr l3"
    and "check_fields st l3 = Inr ()" and m: "complete_models confirmMissing st l3 = Inr (changed, l4)"
    using sm by (rule models_stages)
  obtain l5 routes settings l6 where "check_status_codes confirmRisk st l4 = Inr ()" and b: "clean_base_url l4 = Inr l5"
    and "rest_routes (with_setting l5) = Inr routes" and "settings_text st (with_setting l5) routes = Inr settings"
    and l6: "sent_channel (put ''settings'' (JStr settings) (with_setting l5)) = Inr l6" and req: "request = channel_body st l6"
    using ss by (rule settings_stages)
  let ?ms = "if models' = [] then [] else split_unit 44 models'"
  have l3: "cfg l3 ''models'' = JArr (map JStr ?ms)" "cfg l3 ''model_mapping'' = cfg (cf_inputs st) ''model_mapping''" "cfg l3 ''groups'' = cfg (cf_inputs st) ''groups''"
    using f(3) by (simp_all add: stage_fields [OF k] cfg_local)
  have "nonblank (map trim ?ms) = ?ms"
    using assms(4,5) f(1) by (auto simp: nonblank_def filter_id_conv trim_trimmed intro!: map_idI)
  then have "cfg l4 ''models'' = JArr (map JStr ?ms)"
    using m complete_loaded [of st l3 ?ms confirmMissing] f(5,6,8) assms(2) l3(1,2) by (auto simp: and_next_Inr)
  moreover have "cfg l4 ''groups'' = cfg (cf_inputs st) ''groups''" using complete_models_other [OF m, of "''groups''"] l3(3) by simp
  ultimately have "cfg l5 ''models'' = JArr (map JStr ?ms)" "cfg l5 ''groups'' = cfg (cf_inputs st) ''groups''"
    using clean_base_url_other [OF b] by simp_all
  then show ?thesis
    using sent_channel_fields(3,4) [OF l6] list_text_kept [of models'] list_text_kept [of groups] f(1,2,4)
    by (simp add: req request_channel_body with_setting_def js_or_def del: js_to_string.simps)
qed

section \<open>Texts of keys and connections\<close>

text \<open>
  A connection text carries its key and address: what is encoded for the clipboard is read back from it.
\<close>

theorem connection_roundtrip:
  assumes "units_ok key" and "units_ok url"
  shows "parseChannelConnectionString (encodeChannelConnectionString key url) = Some (key, url)"
proof -
  let ?ps = "[(js ''_type'', JStr (js ''newapi_channel_conn'')), (js ''key'', JStr key), (js ''url'', JStr url)]"
  have "keys_ordered ?ps" by (rule keys_ordered_names) (simp_all add: all_digits_js is_digit_def)
  then have ok: "json_ok (JObj ?ps)" using assms by simp
  obtain r where "json_text (JObj ?ps) = 123 # r" "last (json_text (JObj ?ps)) = 125" by (simp add: json_text_def)
  then have "trimmed (json_text (JObj ?ps))" by (simp add: trimmed_def js_ws_def)
  then show ?thesis
    using json_parse_text [OF ok] by (simp add: parseChannelConnectionString_def encodeChannelConnectionString_def trim_trimmed cfg_Cons)
qed

lemma blank_units: "trim s = [] \<longleftrightarrow> (\<forall>c \<in> set s. js_ws c)"
  by (auto simp: trim_def trimStart_def trimEnd_def dropWhile_eq_Nil_conv dest: set_dropWhileD)
    (metis dropWhile_eq_Nil_conv dropWhile_hd hd_in_set)

lemma dedup_lines:
  assumes "trim keys \<noteq> []"
  defines "lines \<equiv> uniq (nonblank (map trim (split_unit 10 keys)))"
  shows "lines \<noteq> []" and "\<forall>w \<in> set lines. 10 \<notin> set w" and "nonblank (map trim lines) = lines" and "join [10] lines \<noteq> []" and "trim (join [10] lines) \<noteq> []"
proof -
  have trims: "\<forall>w \<in> set lines. w \<noteq> [] \<and> trimmed w" by (auto simp: lines_def nonblank_def)
  show "\<forall>w \<in> set lines. 10 \<notin> set w"
    using split_unit_no_sep [of _ 10 keys] set_trim_subset by (fastforce simp: lines_def nonblank_def)
  have id: "map trim lines = lines" using trims by (auto intro!: map_idI simp: trim_trimmed)
  then show "nonblank (map trim lines) = lines" using trims by (auto simp: nonblank_def filter_id_conv)
  have "\<exists>w \<in> set (split_unit 10 keys). trim w \<noteq> []"
  proof (rule ccontr)
    assume "\<not> ?thesis"
    then have "\<forall>w \<in> set (split_unit 10 keys). \<forall>c \<in> set w. js_ws c" using blank_units by blast
    then have "\<forall>c \<in> set (join [10] (split_unit 10 keys)). js_ws c" using set_join [of _ "[10]"] by (fastforce simp: js_ws_def)
    then show False using assms(1) blank_units [of keys] by (simp add: join_split_unit)
  qed
  then show "lines \<noteq> []" by (auto simp: lines_def nonblank_def filter_empty_conv simp flip: set_empty)
  then have h: "join [10] lines \<noteq> [] \<and> hd (join [10] lines) = hd (hd lines)" using trims by (intro join_head) auto
  then show "join [10] lines \<noteq> []" by simp
  have "\<not> js_ws (hd (hd lines))" using trims \<open>lines \<noteq> []\<close> by (auto simp: trimmed_def)
  then show "trim (join [10] lines) \<noteq> []" using h blank_units [of "join [10] lines"] by (metis list.set_sel(1))
qed

text \<open>
  Removing repeated keys leaves every key once, without blank lines and white space around it, in the order of the first occurrences; a second time
  it finds nothing to remove.
\<close>

theorem deduplicateKeys_spec:
  assumes "trim currentKey \<noteq> []"
  shows "\<exists>keys notice. deduplicateKeys currentKey = (Some (join [10] keys), notice) \<and> distinct keys
    \<and> set keys = trim ` set (split_unit 10 currentKey) - {[]} \<and> deduplicateKeys (join [10] keys) = (Some (join [10] keys), NoDuplicateKeys)"
proof -
  let ?keys = "uniq (nonblank (map trim (split_unit 10 currentKey)))"
  note d = dedup_lines [OF assms]
  have "split_unit 10 (join [10] ?keys) = ?keys" using d(1,2) by (rule split_unit_join)
  then have "deduplicateKeys (join [10] ?keys) = (Some (join [10] ?keys), NoDuplicateKeys)"
    using d(3,5) by (simp add: deduplicateKeys_def Let_def uniq_distinct)
  moreover have "\<exists>notice. deduplicateKeys currentKey = (Some (join [10] ?keys), notice)" using assms by (simp add: deduplicateKeys_def Let_def)
  moreover have "set ?keys = trim ` set (split_unit 10 currentKey) - {[]}" by (auto simp: nonblank_def)
  ultimately show ?thesis by (metis distinct_uniq)
qed

text \<open>
  The check for a model comes before the models are trimmed: a channel whose only model is white space passes it, and is saved without a model.
\<close>

theorem blank_models_pass:
  assumes "cf_isEdit st" and "cfg l ''models'' = JArr [JStr s]" and "trim s = []" and "\<not> field_is l ''type'' 45" and "cfg l ''model_mapping'' = JStr []"
  shows "check_fields st l = Inr () \<and> complete_models confirmMissing st l = Inr (None, put ''models'' (JArr []) l)"
  using assms
  by (simp add: check_fields_def require_def complete_models_def parsed_mapping_def throwing_def trim_value_def or_text_def js_or_def nonblank_def missing_models_def Let_def)

section \<open>Saving succeeds\<close>

lemma read_saves: "\<exists>task. buildAsyncTaskSaveConfig (readAsyncTaskConfigFromSettings raw) = Inr task"
  by (simp add: buildAsyncTaskSaveConfig_def read_settings cfg_read_async(6) parseStatusMapToObject_def split: sum.split)

text \<open>A text or nothing, as the fields of the form have it.\<close>

definition text_or_none :: "jsval \<Rightarrow> bool" where
  "text_or_none v \<longleftrightarrow> (case v of JStr _ \<Rightarrow> True | _ \<Rightarrow> \<not> truthy v)"

lemma blank_value_text: "text_or_none v \<Longrightarrow> \<exists>b. blank_value v = Inr b"
  by (auto simp: text_or_none_def blank_value_def trim_value_def throwing_def split: jsval.splits)

lemma complete_models_go:
  assumes "cfg l ''models'' = JArr (map JStr ms)" and "case cfg l ''model_mapping'' of JStr s \<Rightarrow> trim s = [] \<or> json_parse s \<noteq> None | _ \<Rightarrow> True"
    and "\<forall>missing. cm missing \<noteq> CancelSave"
  shows "\<exists>c l'. complete_models cm st l = Inr (c, l')"
proof -
  have "\<exists>v. parsed_mapping l = Inr v" using assms(2) by (auto simp: parsed_mapping_def split: jsval.splits)
  then show ?thesis using assms(1,3) by (auto simp: complete_models_def trim_all_texts throwing_def Let_def split: missing_action.split)
qed

lemma clean_base_url_go: "text_or_none (cfg l ''base_url'') \<Longrightarrow> \<exists>l'. clean_base_url l = Inr l'"
  by (auto simp: clean_base_url_def text_or_none_def split: jsval.splits)

lemma rest_routes_go:
  assumes "case cfg l ''rest_routes'' of JStr s \<Rightarrow> trim s = [] \<or> (\<exists>vs. json_parse s = Some (JArr vs)) | _ \<Rightarrow> True"
  shows "\<exists>routes. rest_routes l = Inr routes"
  using assms by (auto simp: rest_routes_def split: jsval.splits)

definition settings_storable :: "jsval \<Rightarrow> bool" where
  "settings_storable v \<longleftrightarrow> \<not> truthy v \<or> (case json_parse (js_to_string v) of Some w \<Rightarrow> typeof_object w \<and> w \<noteq> JNull | None \<Rightarrow> True)"

lemma settings_text_go:
  assumes "settings_storable (cfg l ''settings'')"
  shows "\<exists>s. settings_text st l routes = Inr s"
proof -
  obtain task where "buildAsyncTaskSaveConfig (readAsyncTaskConfigFromSettings (cfg (cf_inputs st) ''settings'')) = Inr task" using read_saves by blast
  then have obj: "\<exists>s. and_next (throwing (buildAsyncTaskSaveConfig (readAsyncTaskConfigFromSettings (cfg (cf_inputs st) ''settings'')))) (\<lambda>task. Inr (f task)) = Inr s" for f :: "js_obj \<Rightarrow> jsstr"
    by (simp add: throwing_def)
  define parsed where "parsed = (if truthy (cfg l ''settings'')
      then (case json_parse (js_to_string (cfg l ''settings'')) of Some v \<Rightarrow> v | None \<Rightarrow> JObj []) else JObj [])"
  have "typeof_object parsed" "parsed \<noteq> JNull" using assms by (auto simp: parsed_def settings_storable_def split: option.splits)
  then show ?thesis unfolding settings_text_def Let_def parsed_def [symmetric] using obj by (cases parsed) auto
qed

lemma sent_channel_go:
  assumes "cfg l ''models'' = JArr ms" and "\<not> truthy (cfg l ''groups'') \<or> is_array (cfg l ''groups'')"
  shows "\<exists>l'. sent_channel l = Inr l'"
proof -
  have "''auto_ban'' \<noteq> ''models''" "''models'' \<notin> set temporary_fields" "''groups'' \<notin> set temporary_fields" by (simp_all add: temporary_fields_def)
  moreover have "\<exists>vs. js_or (cfg l ''groups'') (JArr []) = JArr vs" using assms(2) by (cases "cfg l ''groups''") (auto simp: js_or_def)
  ultimately show ?thesis using assms(1) by (auto simp: sent_channel_def Let_def cfg_fold_remove joined_def)
qed

text \<open>
  What the three types with rules of their own ask for: a Codex channel (57) is not saved as a batch, and its key, unless left blank, is a JSON object with an access
  token and an account id; a Vertex channel (41) has an API key, or a typed key that is blank or JSON, or key files that are JSON; a
  channel of type 45 has a base address.
\<close>

definition key_text :: "js_obj \<Rightarrow> jsstr" where
  "key_text form = (case cfg form ''key'' of JStr s \<Rightarrow> trim s | _ \<Rightarrow> [])"

definition codex_accepted :: "channel_form \<Rightarrow> js_obj \<Rightarrow> bool" where
  "codex_accepted st form \<longleftrightarrow> \<not> cf_batch st \<and> (key_text form = [] \<or>
     (case json_parse (key_text form) of
        Some (JObj ps) \<Rightarrow> trim (js_to_string (or_text (cfg ps ''access_token'') '''')) \<noteq> [] \<and> trim (js_to_string (or_text (cfg ps ''account_id'') '''')) \<noteq> []
      | _ \<Rightarrow> False))"

definition vertex_accepted :: "channel_form \<Rightarrow> js_obj \<Rightarrow> bool" where
  "vertex_accepted st form \<longleftrightarrow>
     or_text (cfg form ''vertex_key_type'') ''json'' = JStr (js ''api_key'')
     \<or> (if cf_useManualInput st then key_text form = [] \<or> json_parse (js_to_string (cfg form ''key'')) \<noteq> None
        else cf_vertexKeys st \<noteq> [] \<or> (\<forall>file. Some file \<in> set (cf_vertexFiles st) \<longrightarrow> json_parse file \<noteq> None))"

definition type_accepted :: "channel_form \<Rightarrow> js_obj \<Rightarrow> bool" where
  "type_accepted st form \<longleftrightarrow>
     (if field_is form ''type'' 57 then codex_accepted st form
      else if field_is form ''type'' 41 then vertex_accepted st form
      else if field_is form ''type'' 45 then (\<exists>url. cfg form ''base_url'' = JStr url \<and> trim url \<noteq> [])
      else True)"

lemma parse_files_go: "(\<forall>file. Some file \<in> set files \<longrightarrow> json_parse file \<noteq> None) \<Longrightarrow> \<exists>vs. parse_files files = Some vs"
proof (induction files)
  case (Cons f files)
  then obtain vs where "parse_files files = Some vs" by auto
  then show ?case using Cons.prems by (cases f) auto
qed simp

lemma blank_value_key: "text_or_none (cfg l ''key'') \<Longrightarrow> blank_value (cfg l ''key'') = Inr (key_text l = [])"
  by (auto simp: text_or_none_def key_text_def blank_value_def trim_value_def throwing_def trim_def trimStart_def trimEnd_def split: jsval.splits)

lemma codex_key_go:
  assumes "field_is l ''type'' 57 \<Longrightarrow> codex_accepted st l" and "cf_isEdit st" and "text_or_none (cfg l ''key'')"
  shows "\<exists>l'. codex_key st l = Inr l' \<and> text_or_none (cfg l' ''key'')"
proof (cases "field_is l ''type'' 57")
  case True
  note a = assms(1) [OF True, unfolded codex_accepted_def]
  have "trim_value (or_text (cfg l ''key'') '''') = Inr (key_text l)"
    using assms(3) by (auto simp: text_or_none_def key_text_def trim_value_def or_text_def js_or_def trim_def trimStart_def trimEnd_def split: jsval.splits)
  then show ?thesis
    using True a assms(2,3) by (auto simp: codex_key_def require_def throwing_def text_or_none_def split: option.splits jsval.splits)
qed (use assms(3) in \<open>simp add: codex_key_def\<close>)

lemma vertex_key_go:
  assumes "field_is l ''type'' 41 \<Longrightarrow> vertex_accepted st l" and "cf_isEdit st" and "text_or_none (cfg l ''key'')"
  shows "\<exists>l'. vertex_key st l = Inr l' \<and> text_or_none (cfg l' ''key'')"
proof (cases "field_is l ''type'' 41")
  case True
  note a = assms(1) [OF True, unfolded vertex_accepted_def]
  consider (api) "or_text (cfg l ''vertex_key_type'') ''json'' = JStr (js ''api_key'')"
    | (manual) "or_text (cfg l ''vertex_key_type'') ''json'' \<noteq> JStr (js ''api_key'')" "cf_useManualInput st"
    | (files) "or_text (cfg l ''vertex_key_type'') ''json'' \<noteq> JStr (js ''api_key'')" "\<not> cf_useManualInput st" by blast
  then show ?thesis
  proof cases
    case api
    then show ?thesis using True assms(2,3) by (simp add: vertex_key_def)
  next
    case manual
    then show ?thesis using True a assms(2,3) blank_value_key [OF assms(3)]
      by (auto simp: vertex_key_def require_def text_or_none_def [of "JStr _"])
  next
    case files
    obtain vs where "(if cf_vertexKeys st = [] \<and> cf_vertexFiles st \<noteq> [] then parse_files (cf_vertexFiles st) else Some (cf_vertexKeys st)) = Some vs"
      using files a parse_files_go [of "cf_vertexFiles st"] by (cases "cf_vertexKeys st = [] \<and> cf_vertexFiles st \<noteq> []") auto
    then show ?thesis using files True assms(2)
      by (cases vs) (simp_all add: vertex_key_def vertex_file_key_def text_or_none_def)
  qed
qed (use assms(3) in \<open>simp add: vertex_key_def\<close>)

lemma submit_goes:
  assumes "cf_isEdit st" and "type_accepted st form"
    and "text_or_none (cfg form ''key'')" and "text_or_none (cfg form ''base_url'')" and "cfg form ''models'' = JArr (map JStr (m # ms))"
    and "case cfg form ''model_mapping'' of JStr s \<Rightarrow> trim s = [] \<or> json_parse s \<noteq> None | _ \<Rightarrow> True"
    and "case cfg (cf_inputs st) ''rest_routes'' of JStr s \<Rightarrow> trim s = [] \<or> (\<exists>vs. json_parse s = Some (JArr vs)) | _ \<Rightarrow> True"
    and "collectInvalidStatusCodeEntries (cfg form ''status_code_mapping'') = []" and "settings_storable (cfg form ''settings'')"
    and "\<not> truthy (cfg form ''groups'') \<or> is_array (cfg form ''groups'')"
    and "\<forall>missing. confirmMissing missing \<noteq> CancelSave" and "\<forall>risky. confirmRisk risky"
  shows "\<exists>changed request. submit confirmMissing confirmRisk st form = (changed, Inr request)"
proof -
  let ?l = "local_inputs form (cf_inputs st)"
  have l: "cfg ?l ''type'' = cfg form ''type''" "cfg ?l ''key'' = cfg form ''key''" "cfg ?l ''base_url'' = cfg form ''base_url''"
    "cfg ?l ''models'' = cfg form ''models''" "cfg ?l ''model_mapping'' = cfg form ''model_mapping''" "cfg ?l ''vertex_key_type'' = cfg form ''vertex_key_type''"
    "cfg ?l ''status_code_mapping'' = cfg form ''status_code_mapping''" "cfg ?l ''settings'' = cfg form ''settings''" "cfg ?l ''groups'' = cfg form ''groups''"
    by (simp_all add: cfg_local)
  have key: "text_or_none (cfg ?l ''key'')" using assms(3) by (simp add: l)
  have "field_is ?l ''type'' 57 \<Longrightarrow> codex_accepted st ?l"
    using assms(2) by (simp add: type_accepted_def field_is_def codex_accepted_def key_text_def l split: if_splits)
  from codex_key_go [OF this assms(1) key]
  obtain l1 where l1: "codex_key st ?l = Inr l1" "text_or_none (cfg l1 ''key'')" by blast
  have other: "l1 = ?l" if "\<not> field_is ?l ''type'' 57" using l1(1) that by (simp add: codex_key_def)
  have "vertex_accepted st l1" if "field_is l1 ''type'' 41"
  proof -
    have t: "cfg ?l ''type'' = JNum (Fin 41)" using that codex_key_other [OF l1(1), of "''type''"] by (simp add: field_is_def)
    then have "l1 = ?l" by (intro other) (simp add: field_is_def)
    moreover have "vertex_accepted st ?l = vertex_accepted st form" by (simp add: vertex_accepted_def key_text_def l)
    ultimately show ?thesis using assms(2) t by (simp add: type_accepted_def field_is_def l)
  qed
  from vertex_key_go [OF this assms(1) l1(2)]
  obtain l2 where l2: "vertex_key st l1 = Inr l2" "text_or_none (cfg l2 ''key'')" by blast
  obtain l3 where l3: "drop_blank_key st l2 = Inr l3" using blank_value_text [OF l2(2)] assms(1) by (auto simp: drop_blank_key_def)
  note f = stage_fields [OF l1(1) l2(1) l3]
  have c: "check_fields st l3 = Inr ()"
    using assms(1,2,5) by (auto simp: check_fields_def field_is_def f l require_def type_accepted_def blank_value_def trim_value_def throwing_def)
  obtain ch l4 where m: "complete_models confirmMissing st l3 = Inr (ch, l4)"
    using complete_models_go [of l3 "m # ms" confirmMissing st] assms(5,6,11) by (auto simp: f l)
  note f4 = complete_models_other [OF m]
  have s: "check_status_codes confirmRisk st l4 = Inr ()" using assms(8,12) by (simp add: check_status_codes_def f4 f l)
  obtain l5 where b: "clean_base_url l4 = Inr l5" using clean_base_url_go [of l4] assms(4) by (auto simp: f4 f l)
  note f5 = clean_base_url_other [OF b]
  obtain routes where r: "rest_routes (with_setting l5) = Inr routes"
    using rest_routes_go [of "with_setting l5"] assms(7) by (auto simp: with_setting_def f5 f4 f cfg_local_routes)
  obtain settings where t: "settings_text st (with_setting l5) routes = Inr settings"
    using settings_text_go [of "with_setting l5"] assms(9) by (auto simp: with_setting_def f5 f4 f l)
  obtain ss where "cfg l4 ''models'' = JArr (map JStr ss)" using complete_models_list [OF m] by blast
  then obtain l6 where "sent_channel (put ''settings'' (JStr settings) (with_setting l5)) = Inr l6"
    using sent_channel_go [of "put ''settings'' (JStr settings) (with_setting l5)"] assms(10) by (auto simp: with_setting_def f5 f4 f l)
  then show ?thesis
    using l1 l2 l3 c m s b r t by (simp add: submit_def submit_models_def submit_settings_def with_setting_def Let_def)
qed

text \<open>
  C37: saving an edited channel goes through: whatever its type, when the rules of the type for key and address are met, the fields have the shapes the form
  gives them (texts or nothing for key and address, a list of texts with at least one for the models, nothing or a list for the groups), the mapping
  of models is blank or JSON, the routes are blank or a JSON array, no entry of the status codes is invalid, the stored settings are blank, no JSON or a JSON
  object or array, and the questions are answered with yes, a request is sent.
\<close>

theorem submit_succeeds:
  assumes "cf_isEdit st" and "type_accepted st form"
    and "text_or_none (cfg form ''key'')" and "text_or_none (cfg form ''base_url'')" and "cfg form ''models'' = JArr (map JStr (m # ms))"
    and "case cfg form ''model_mapping'' of JStr s \<Rightarrow> trim s = [] \<or> json_parse s \<noteq> None | _ \<Rightarrow> True"
    and "case cfg (cf_inputs st) ''rest_routes'' of JStr s \<Rightarrow> trim s = [] \<or> (\<exists>vs. json_parse s = Some (JArr vs)) | _ \<Rightarrow> True"
    and "collectInvalidStatusCodeEntries (cfg form ''status_code_mapping'') = []" and "settings_storable (cfg form ''settings'')"
    and "\<not> truthy (cfg form ''groups'') \<or> is_array (cfg form ''groups'')"
    and "\<forall>missing. confirmMissing missing \<noteq> CancelSave" and "\<forall>risky. confirmRisk risky"
  shows "\<exists>changed request. submit confirmMissing confirmRisk st form = (changed, Inr request)"
  using assms by (rule submit_goes)

section \<open>A channel\<close>

definition sample_channel_data :: js_obj where
  "sample_channel_data =
     [(js ''name'', JStr (js ''c'')), (js ''type'', JNum (Fin 2)), (js ''models'', JStr (js ''a,b'')), (js ''group'', JStr (js ''g'')), (js ''model_mapping'', JStr []),
      (js ''settings'', JStr [])]"

definition sample_form :: channel_form where
  "sample_form = \<lparr>cf_isEdit = True, cf_channelId = JNum (Fin 7), cf_batch = False, cf_multiToSingle = False, cf_isMultiKey = False, cf_keyMode = js ''append'',
     cf_useManualInput = False, cf_inputs = [], cf_vertexKeys = [], cf_vertexFiles = [], cf_initialModels = [], cf_initialMapping = JStr [],
     cf_initialStatusMapping = JStr []\<rparr>"

definition sample_loaded :: channel_form where
  "sample_loaded = (case loaded_form sample_channel_data sample_form of Inr st \<Rightarrow> st | Inl _ \<Rightarrow> sample_form)"

lemma sample_loads: "loaded_form sample_channel_data sample_form = Inr sample_loaded" "cf_isEdit sample_form"
  by code_simp+

lemma sample_field_values:
  "map (cfg (cf_inputs sample_loaded)) [''type'', ''key'', ''base_url'', ''models'', ''model_mapping'', ''rest_routes'', ''status_code_mapping'', ''settings'', ''groups''] =
     [JNum (Fin 2), JUndef, JUndef, JArr (map JStr [js ''a'', js ''b'']), JStr [], JStr [], JUndef, JStr [], JArr [JStr (js ''g'')]]"
  by code_simp

lemma sample_is_edit: "cf_isEdit sample_loaded"
  using loaded_form_fields [OF sample_loads(1)] sample_loads(2) by metis

lemma sample_fields: "cfg (cf_inputs sample_loaded) ''type'' = JNum (Fin 2)" "cfg (cf_inputs sample_loaded) ''key'' = JUndef"
  "cfg (cf_inputs sample_loaded) ''base_url'' = JUndef" "cfg (cf_inputs sample_loaded) ''models'' = JArr (map JStr [js ''a'', js ''b''])"
  "cfg (cf_inputs sample_loaded) ''model_mapping'' = JStr []" "cfg (cf_inputs sample_loaded) ''rest_routes'' = JStr []"
  "cfg (cf_inputs sample_loaded) ''status_code_mapping'' = JUndef" "cfg (cf_inputs sample_loaded) ''settings'' = JStr []"
  "cfg (cf_inputs sample_loaded) ''groups'' = JArr [JStr (js ''g'')]"
  using sample_field_values by simp_all

theorem submit_succeeds_witness:
  "\<exists>changed request. submit (\<lambda>_. SubmitAnyway) (\<lambda>_. True) sample_loaded (cf_inputs sample_loaded) = (changed, Inr request)"
  by (rule submit_succeeds [of sample_loaded "cf_inputs sample_loaded" "js ''a''" "[js ''b'']"])
     (simp_all add: sample_is_edit sample_fields type_accepted_def field_is_def text_or_none_def settings_storable_def collectInvalidStatusCodeEntries_def mappingEntries_def)

definition sample_request :: "string \<times> jsval" where
  "sample_request = (case snd (submit (\<lambda>_. SubmitAnyway) (\<lambda>_. True) sample_loaded (cf_inputs sample_loaded)) of Inr r \<Rightarrow> r | Inl _ \<Rightarrow> ('''', JNull))"

lemma sample_sent:
  obtains changed where "submit (\<lambda>_. SubmitAnyway) (\<lambda>_. True) sample_loaded (cf_inputs sample_loaded) = (changed, Inr sample_request)"
proof -
  have "\<exists>changed request. submit (\<lambda>_. SubmitAnyway) (\<lambda>_. True) sample_loaded (cf_inputs sample_loaded) = (changed, Inr request)"
    by (rule submit_goes [of sample_loaded "cf_inputs sample_loaded" "js ''a''" "[js ''b'']"])
       (simp_all add: sample_is_edit sample_fields type_accepted_def field_is_def text_or_none_def settings_storable_def collectInvalidStatusCodeEntries_def mappingEntries_def)
  then show thesis using that by (auto simp: sample_request_def)
qed

theorem submit_only_checked_witness:
  "collectInvalidStatusCodeEntries (cfg (cf_inputs sample_loaded) ''status_code_mapping'') = [] \<and> (\<exists>m ms. cfg (cf_inputs sample_loaded) ''models'' = JArr (m # ms))"
proof -
  obtain changed where "submit (\<lambda>_. SubmitAnyway) (\<lambda>_. True) sample_loaded (cf_inputs sample_loaded) = (changed, Inr sample_request)" by (rule sample_sent)
  from submit_only_checked [OF this] show ?thesis by (elim conjE) (intro conjI)
qed

theorem edit_never_blanks_key_witness:
  "cfg (request_channel sample_request) ''key'' = JUndef \<or> (\<exists>s. cfg (request_channel sample_request) ''key'' = JStr s \<and> trim s \<noteq> [])"
  using sample_sent edit_never_blanks_key [OF _ sample_is_edit] by metis

theorem sent_fields_witness: "cfg (request_channel sample_request) ''rest_routes'' = JUndef"
proof -
  have "''rest_routes'' \<in> set temporary_fields" by (simp add: temporary_fields_def)
  then show ?thesis using sample_sent sent_fields by metis
qed

theorem unchanged_save_silent_witness:
  "submit (\<lambda>_. CancelSave) (\<lambda>_. False) sample_loaded (cf_inputs sample_loaded) = submit (\<lambda>_. SubmitAnyway) (\<lambda>_. True) sample_loaded (cf_inputs sample_loaded)"
  by (rule unchanged_save_silent [OF sample_loads])

theorem unchanged_lists_kept_witness:
  "cfg (request_channel sample_request) ''models'' = JStr (js ''a,b'') \<and> cfg (request_channel sample_request) ''group'' = JStr (js ''g'')"
proof -
  have d: "cfg sample_channel_data ''models'' = JStr (js ''a,b'')" "cfg sample_channel_data ''group'' = JStr (js ''g'')"
    by (simp_all add: sample_channel_data_def cfg_Cons)
  have "split_unit 44 (js ''a,b'') = [js ''a'', js ''b'']" by code_simp
  then have "\<forall>m \<in> set (split_unit 44 (js ''a,b'')). m \<noteq> [] \<and> trimmed m" by (simp add: trimmed_def js_def js_ws_def)
  then show ?thesis using sample_sent unchanged_lists_kept [OF sample_loads _ d(1)] d by metis
qed

theorem connection_roundtrip_witness:
  "parseChannelConnectionString (encodeChannelConnectionString (js ''sk-1'') (js ''https://a'')) = Some (js ''sk-1'', js ''https://a'')"
  by (rule connection_roundtrip) simp_all

theorem deduplicateKeys_spec_witness:
  "\<exists>keys notice. deduplicateKeys (js ''k'') = (Some (join [10] keys), notice) \<and> distinct keys"
proof -
  have "trim (js ''k'') \<noteq> []" by code_simp
  then show ?thesis using deduplicateKeys_spec by blast
qed

end
