(* ===== verification/Spec2Isabelle.thy ===== *)
theory Spec2Isabelle
  imports StatusCodeRules StatusCodeRisk UpstreamUpdate RequestRuleRoundtrip ModelPricingEditor Sidebar PlaygroundChat
    SecureVerification ParamOverrideLibrary TieredPricingPresets BillingFacts RatioSyncFacts
    ChannelFacts AsyncImportFacts ChannelFormFacts
begin

text \<open>
  Verification of the web client of new-api, a gateway for language model services. The server is
  written in Go; the client under \<open>src/web/src\<close> is a React application that holds much of the
  administrative logic: it turns forms into the option values, expressions and JSON texts that the
  server executes, and back. The development models the parts of the client with an algorithm of
  their own and proves that what the user sees, what is stored and what is sent agree.

  \<^bold>\<open>The language.\<close> Definitions are executable functions over a model of the JavaScript values the code
  uses. \<open>JsPrelude\<close>: strings as lists of UTF-16 code units with \<open>trim\<close>, \<open>split\<close>, \<open>join\<close>, \<open>includes\<close>
  and the like. \<open>JsNumber\<close>: numbers as the special values and rationals, rounded to binary64 after
  every operation, with parsing and the shortest decimal text. \<open>JsRegex\<close>: a matcher for the regular
  expressions that occur. \<open>JsValue\<close>: values, property access, conversions, \<open>JSON.parse\<close> and
  \<open>JSON.stringify\<close> with the theorem that parsing inverts writing for the values JSON carries;
  \<open>JsonPretty\<close>: the same for the indented text, both as instances of the locale \<open>json_codec\<close>.
  \<open>WebStorage\<close>: \<open>localStorage\<close> as a map whose writes may be refused. Exceptions are the left side
  of a sum, \<open>undefined\<close> and \<open>null\<close> are values. Texts shown to the user are constructors or code unit
  lists, the translation function is an argument.

  \<^bold>\<open>Status codes.\<close> \<open>StatusCodeRules\<close> models \<open>helpers/statusCodeRules.js\<close>: a rule text is refined to a
  set of codes, its normal form is canonical and stable. \<open>StatusCodeRisk\<close> models
  \<open>statusCodeRiskGuard.js\<close>, which asks for confirmation of risky redirects: exactly the new ones are
  reported. \<open>UpstreamUpdate\<close> models \<open>upstreamUpdateUtils.js\<close>.

  \<^bold>\<open>Prices.\<close> \<open>RequestRuleExpr\<close> models \<open>requestRuleExpr.js\<close>, the builder and parser of billing rules;
  \<open>RequestRuleRoundtrip\<close> proves that readable rule groups survive, which rules do not, and that a
  combined expression splits into its parts. \<open>ModelPricing\<close> and \<open>ModelPricingEditor\<close> model
  \<open>useModelPricingEditorState.js\<close>: loading options into rows, the handlers, and saving, with the
  invariant of the reachable states, the exact errors, and what is sent.

  \<^bold>\<open>Tiered prices.\<close> \<open>TieredPricing\<close> models the functions of \<open>TieredPricingEditor.jsx\<close> and the variables of
  \<open>billing.constants.js\<close>: tiers with conditions, the expression generated from them, the parser with its
  regular expressions, and the estimator, which runs the text on the expression language of \<open>JsExpr\<close>.
  \<open>TieredPricingEval\<close> states the price list that tiers mean and proves that the generated text computes
  it, and when that text is an expression at all; it rests on \<open>JsExprText\<close>, how texts put together from
  pieces are lexed and parsed, and \<open>JsDecimal\<close>, that the decimal text of every number reads back.
  \<open>TieredPricingRead\<close> and \<open>TieredPricingRoundtrip\<close> prove that the parser reads generated texts, with \<open>RegexPath\<close>,
  a calculus of the preferred match of a regular expression. \<open>TieredPricingEditor\<close> is the state of the editor
  with its handlers and effects, \<open>TieredPricingSwitch\<close> its invariant, what switching views and editing rule
  groups keep and lose, \<open>TieredPricingPresets\<close> the presets. \<open>TierDisplay\<close> models how the log display of
  \<open>helpers/render.jsx\<close> reads the tiers of an expression; \<open>TierPattern\<close> states as a locale what a pattern for tiers must
  do, with the pattern of the editor and that of the log as its two instances.

  \<^bold>\<open>Price displays.\<close> \<open>BillingDisplay\<close>, \<open>BillingLog\<close> and \<open>BillingProviders\<close> model the quota and price displays of
  \<open>helpers/render.jsx\<close>: amounts in the chosen currency, the short form, and the billing processes of tiered, text, audio and Claude
  models in prices and in ratios, as texts given to the translation function with their variables (the keys are in
  \<open>BillingTexts\<close>). \<open>JsFixed\<close> proves how \<open>toFixed\<close> and reading its text go together; \<open>BillingFacts\<close> that a positive quota never
  shows as zero, that the two conversions agree, and that totals in ratios equal those in prices.

  \<^bold>\<open>Prices of other services.\<close> \<open>RatioSync\<close> models the page \<open>UpstreamRatioSync.jsx\<close>: channels, the table of differences and the
  selection in it; \<open>RatioSyncApply\<close> how a selection is confirmed and written into the ten price options. \<open>RatioSyncFacts\<close> proves the invariant
  of the selection in all reachable states, exactly what is written, when a confirmation is asked for, and that clearing a
  column loses choices of other columns.

  \<^bold>\<open>Channels.\<close> \<open>ChannelTable\<close> models the table of \<open>useChannelsData.jsx\<close>: the rows that group channels by tag, and the
  requests for the list and for a search with their answers. \<open>ChannelTest\<close> models the tests of the models of a channel,
  one by one and in batches that can be stopped, as a state machine whose answers may come in any order. \<open>ChannelFacts\<close>
  proves which row holds which channel, how many tests can be pending, that a run ends, and what a restart does to a stopped run.

  \<^bold>\<open>The channel form.\<close> \<open>ChannelForm\<close> models how \<open>EditChannelModal.jsx\<close> loads a channel and saves it: \<open>submit\<close> is the chain of its checks, questions and
  rewritings, each a function that may stop it with a notice, a cancelled question or an exception, up to the request. \<open>ChannelFormFacts\<close> proves
  what holds of everything sent, that saving goes through when it should, and that saving an unchanged channel asks and changes nothing.
  \<open>AsyncTask\<close> and \<open>AsyncImport\<close> model the settings of asynchronous tasks in that form and their import from an example answer; \<open>AsyncFacts\<close> proves that
  saving them is stable and that edits keep the other fields, \<open>AsyncImportFacts\<close> that imported paths lead to the values they were guessed from.

  \<^bold>\<open>Parameter overrides.\<close> \<open>ParamOverride\<close> models the functions of \<open>ParamOverrideEditorModal.jsx\<close>,
  \<open>ParamOverrideRoundtrip\<close> the way of a configuration through its JSON text, drafts and dragging;
  \<open>ParamOverrideTemplates\<close> the template library, \<open>ParamOverrideEditor\<close> the state of the dialog and all
  its handlers, \<open>ParamOverrideInvariant\<close> what holds in every reachable state and what switching,
  copying and rule edits do, \<open>ParamOverrideLibrary\<close> that every template can be saved.

  \<^bold>\<open>Client and session.\<close> \<open>ApiClient\<close> models \<open>helpers/api.js\<close>: merged requests, error reports, playground
  payloads and the OAuth handlers. \<open>Passkey\<close> models \<open>helpers/passkey.js\<close> with buffers of 8-bit words;
  \<open>SecureVerification\<close> the service, the error classes and the hook that guard protected calls: a run is
  the list of calls made, so that their order can be stated. \<open>Sidebar\<close> models \<open>useSidebar.js\<close>.

  \<^bold>\<open>Playground.\<close> \<open>Messages\<close> models the message functions of \<open>helpers/utils.jsx\<close>, \<open>Playground\<close> the
  constants, \<open>configStorage.js\<close>, the persistent state of \<open>usePlaygroundState.js\<close> and the two-way
  synchronisation of \<open>useSyncMessageAndCustomBody.js\<close> as commits of the page whose effects read one render; it
  comes to rest after two commits. \<open>PlaygroundStream\<close> models
  \<open>useApiRequest.jsx\<close>: streams of server-sent events with their listeners, plain requests and stopping; the events
  and answers are inputs. \<open>PlaygroundReply\<close> proves that a stream writes exactly what it carries, that a finished
  message is final, and that plain replies are not saved. \<open>PlaygroundChat\<close> is the page with \<open>useMessageActions.jsx\<close>,
  \<open>useMessageEdit.jsx\<close> and \<open>useDataLoader.js\<close>: sending, regenerating, deleting, editing, with the timers and dialogs
  between them.

  \<^bold>\<open>State, interleaving and bounds.\<close> A hook or component is a record with one function per handler;
  where the order of events matters its reachable states are an inductive predicate over all
  handlers and answers (\<open>reachable\<close> of the pricing editor, \<open>sv_reachable\<close>, \<open>po_reachable\<close>, \<open>tiered_reachable\<close>, \<open>sync_reachable\<close>, \<open>test_reachable\<close>). Handlers run
  on the state last rendered, as React gives it to them; effects run after every event. Loops are
  recursive functions with termination proofs; no fuel is used. Numbers keep the rounding of
  binary64, bytes are words, the counter behind row ids is unbounded as in the source.

  \<^bold>\<open>Not modelled.\<close> React's rendering, layout, styling, icons and translations; pages that only fetch,
  show and post values (settings, dashboards, logs, deployment dialogs); the widgets of the channel form with the lists of models it fetches and its
  templates; the icons, tags and colours of \<open>helpers/render.jsx\<close>, which are JSX without an algorithm; the estimator on
  expressions outside the fragment of \<open>JsExpr\<close>; the Electron shell; the Go server. Third-party code (HTTP client, URL
  parser, Unicode case tables, collation, the authenticator) enters as arguments of the definitions
  that call it.
\<close>

end
